(* ===== verification/Prelude.thy ===== *)
theory Prelude
  imports Main "HOL-Library.Word"
begin

text \<open>
  Shared base of the development: the names of the machine integers
  (\<^verbatim>\<open>typedef UA_Byte u8\<close> and so on in \<^verbatim>\<open>src/ua_util_internal.h\<close>), the status codes that
  the modelled code returns, and the generic facts on words, lists and status codes that
  the component theories share.

  A status code is the 32-bit word of the C code, because the code accumulates results with
  \<^verbatim>\<open>ret |= ...\<close>; \<open>GOOD\<close> is zero, so a bitwise disjunction is \<open>GOOD\<close> exactly when both parts are.
\<close>

unbundle bit_operations_syntax

section \<open>Machine integers\<close>

type_synonym u8 = "8 word"
type_synonym u16 = "16 word"
type_synonym u32 = "32 word"
type_synonym u64 = "64 word"
type_synonym status = "32 word"

section \<open>Named collections\<close>

named_theorems status_defs \<open>definitions of the status codes\<close>
named_theorems codec_defs \<open>definitions of the operations of the binary codec\<close>

section \<open>Status codes\<close>

definition UA_STATUSCODE_GOOD :: status where
  [status_defs]: "UA_STATUSCODE_GOOD = 0"

definition UA_STATUSCODE_BADINTERNALERROR :: status where
  [status_defs]: "UA_STATUSCODE_BADINTERNALERROR = 0x80020000"

definition UA_STATUSCODE_BADOUTOFMEMORY :: status where
  [status_defs]: "UA_STATUSCODE_BADOUTOFMEMORY = 0x80030000"

definition UA_STATUSCODE_BADENCODINGERROR :: status where
  [status_defs]: "UA_STATUSCODE_BADENCODINGERROR = 0x80060000"

definition UA_STATUSCODE_BADDECODINGERROR :: status where
  [status_defs]: "UA_STATUSCODE_BADDECODINGERROR = 0x80070000"

definition UA_STATUSCODE_BADENCODINGLIMITSEXCEEDED :: status where
  [status_defs]: "UA_STATUSCODE_BADENCODINGLIMITSEXCEEDED = 0x80080000"

definition UA_STATUSCODE_BADNOTIMPLEMENTED :: status where
  [status_defs]: "UA_STATUSCODE_BADNOTIMPLEMENTED = 0x80400000"

definition UA_STATUSCODE_BADSECURITYCHECKSFAILED :: status where
  [status_defs]: "UA_STATUSCODE_BADSECURITYCHECKSFAILED = 0x80130000"

definition UA_STATUSCODE_BADSECURITYMODEREJECTED :: status where
  [status_defs]: "UA_STATUSCODE_BADSECURITYMODEREJECTED = 0x80540000"

definition UA_STATUSCODE_BADSECURITYPOLICYREJECTED :: status where
  [status_defs]: "UA_STATUSCODE_BADSECURITYPOLICYREJECTED = 0x80550000"

definition UA_STATUSCODE_BADCERTIFICATEUNTRUSTED :: status where
  [status_defs]: "UA_STATUSCODE_BADCERTIFICATEUNTRUSTED = 0x801A0000"

definition UA_STATUSCODE_BADCERTIFICATEREVOKED :: status where
  [status_defs]: "UA_STATUSCODE_BADCERTIFICATEREVOKED = 0x801D0000"

definition UA_STATUSCODE_BADSECURECHANNELIDINVALID :: status where
  [status_defs]: "UA_STATUSCODE_BADSECURECHANNELIDINVALID = 0x80220000"

definition UA_STATUSCODE_BADTCPMESSAGETYPEINVALID :: status where
  [status_defs]: "UA_STATUSCODE_BADTCPMESSAGETYPEINVALID = 0x807E0000"

definition UA_STATUSCODE_BADTCPMESSAGETOOLARGE :: status where
  [status_defs]: "UA_STATUSCODE_BADTCPMESSAGETOOLARGE = 0x80800000"

definition UA_STATUSCODE_BADRESPONSETOOLARGE :: status where
  [status_defs]: "UA_STATUSCODE_BADRESPONSETOOLARGE = 0x80B90000"

definition UA_STATUSCODE_BADSECURECHANNELCLOSED :: status where
  [status_defs]: "UA_STATUSCODE_BADSECURECHANNELCLOSED = 0x80860000"

definition UA_STATUSCODE_BADSECURECHANNELTOKENUNKNOWN :: status where
  [status_defs]: "UA_STATUSCODE_BADSECURECHANNELTOKENUNKNOWN = 0x80870000"

definition UA_STATUSCODE_BADCONNECTIONCLOSED :: status where
  [status_defs]: "UA_STATUSCODE_BADCONNECTIONCLOSED = 0x80AE0000"

definition UA_STATUSCODE_BADINVALIDSTATE :: status where
  [status_defs]: "UA_STATUSCODE_BADINVALIDSTATE = 0x80AF0000"

definition UA_STATUSCODE_BADINVALIDARGUMENT :: status where
  [status_defs]: "UA_STATUSCODE_BADINVALIDARGUMENT = 0x80AB0000"

text \<open>
  No status code of the stack: the result of a model call that has none in the code, because the
  fuel of a recursion or of a loop ran out, or because the C code has undefined behaviour there (a
  value that does not fit its type description). Each use is discharged by a lemma that says when
  it cannot be the result.
\<close>

definition STATUS_UNDEFINED :: status where
  [status_defs]: "STATUS_UNDEFINED = 0xFFFFFFFF"

abbreviation GOOD :: status where "GOOD \<equiv> UA_STATUSCODE_GOOD"
abbreviation LIMITS :: status where "LIMITS \<equiv> UA_STATUSCODE_BADENCODINGLIMITSEXCEEDED"

lemma word_or_zero_iff: "(a OR b = 0) = (a = 0 \<and> b = (0 :: 'a::len word))"
  by (metis or_eq_0_iff)

lemma or_GOOD_iff [simp]: "(a OR b = GOOD) = (a = GOOD \<and> b = GOOD)"
  unfolding status_defs by (rule word_or_zero_iff)

lemma or_GOOD_left [simp]: "GOOD OR a = a"
  by (simp add: status_defs)

lemma or_GOOD_right [simp]: "a OR GOOD = a"
  by (simp add: status_defs)

lemma or_LIMITS_self [simp]: "LIMITS OR LIMITS = LIMITS"
  by simp

lemma status_distinct [simp]:
  "GOOD \<noteq> LIMITS" "LIMITS \<noteq> GOOD"
  "UA_STATUSCODE_BADINTERNALERROR \<noteq> GOOD" "GOOD \<noteq> UA_STATUSCODE_BADINTERNALERROR"
  "UA_STATUSCODE_BADENCODINGERROR \<noteq> GOOD" "GOOD \<noteq> UA_STATUSCODE_BADENCODINGERROR"
  "UA_STATUSCODE_BADDECODINGERROR \<noteq> GOOD" "GOOD \<noteq> UA_STATUSCODE_BADDECODINGERROR"
  "UA_STATUSCODE_BADOUTOFMEMORY \<noteq> GOOD" "GOOD \<noteq> UA_STATUSCODE_BADOUTOFMEMORY"
  "UA_STATUSCODE_BADNOTIMPLEMENTED \<noteq> GOOD" "GOOD \<noteq> UA_STATUSCODE_BADNOTIMPLEMENTED"
  "UA_STATUSCODE_BADINVALIDARGUMENT \<noteq> GOOD" "GOOD \<noteq> UA_STATUSCODE_BADINVALIDARGUMENT"
  "UA_STATUSCODE_BADENCODINGLIMITSEXCEEDED \<noteq> GOOD" "GOOD \<noteq> UA_STATUSCODE_BADENCODINGLIMITSEXCEEDED"
  "UA_STATUSCODE_BADSECURITYCHECKSFAILED \<noteq> GOOD" "GOOD \<noteq> UA_STATUSCODE_BADSECURITYCHECKSFAILED"
  "UA_STATUSCODE_BADSECURITYMODEREJECTED \<noteq> GOOD" "GOOD \<noteq> UA_STATUSCODE_BADSECURITYMODEREJECTED"
  "UA_STATUSCODE_BADSECURITYPOLICYREJECTED \<noteq> GOOD" "GOOD \<noteq> UA_STATUSCODE_BADSECURITYPOLICYREJECTED"
  "UA_STATUSCODE_BADCERTIFICATEUNTRUSTED \<noteq> GOOD" "GOOD \<noteq> UA_STATUSCODE_BADCERTIFICATEUNTRUSTED"
  "UA_STATUSCODE_BADCERTIFICATEREVOKED \<noteq> GOOD" "GOOD \<noteq> UA_STATUSCODE_BADCERTIFICATEREVOKED"
  "UA_STATUSCODE_BADSECURECHANNELIDINVALID \<noteq> GOOD" "GOOD \<noteq> UA_STATUSCODE_BADSECURECHANNELIDINVALID"
  "UA_STATUSCODE_BADTCPMESSAGETYPEINVALID \<noteq> GOOD" "GOOD \<noteq> UA_STATUSCODE_BADTCPMESSAGETYPEINVALID"
  "UA_STATUSCODE_BADTCPMESSAGETOOLARGE \<noteq> GOOD" "GOOD \<noteq> UA_STATUSCODE_BADTCPMESSAGETOOLARGE"
  "UA_STATUSCODE_BADRESPONSETOOLARGE \<noteq> GOOD" "GOOD \<noteq> UA_STATUSCODE_BADRESPONSETOOLARGE"
  "UA_STATUSCODE_BADSECURECHANNELCLOSED \<noteq> GOOD" "GOOD \<noteq> UA_STATUSCODE_BADSECURECHANNELCLOSED"
  "UA_STATUSCODE_BADSECURECHANNELTOKENUNKNOWN \<noteq> GOOD" "GOOD \<noteq> UA_STATUSCODE_BADSECURECHANNELTOKENUNKNOWN"
  "UA_STATUSCODE_BADCONNECTIONCLOSED \<noteq> GOOD" "GOOD \<noteq> UA_STATUSCODE_BADCONNECTIONCLOSED"
  "UA_STATUSCODE_BADINVALIDSTATE \<noteq> GOOD" "GOOD \<noteq> UA_STATUSCODE_BADINVALIDSTATE"
  "STATUS_UNDEFINED \<noteq> GOOD" "GOOD \<noteq> STATUS_UNDEFINED"
  "STATUS_UNDEFINED \<noteq> LIMITS" "LIMITS \<noteq> STATUS_UNDEFINED"
  "UA_STATUSCODE_BADINTERNALERROR \<noteq> LIMITS" "LIMITS \<noteq> UA_STATUSCODE_BADINTERNALERROR"
  "UA_STATUSCODE_BADENCODINGERROR \<noteq> LIMITS" "LIMITS \<noteq> UA_STATUSCODE_BADENCODINGERROR"
  "UA_STATUSCODE_BADNOTIMPLEMENTED \<noteq> LIMITS" "LIMITS \<noteq> UA_STATUSCODE_BADNOTIMPLEMENTED"
  "UA_STATUSCODE_BADOUTOFMEMORY \<noteq> LIMITS" "LIMITS \<noteq> UA_STATUSCODE_BADOUTOFMEMORY"
  "UA_STATUSCODE_BADINVALIDARGUMENT \<noteq> LIMITS" "LIMITS \<noteq> UA_STATUSCODE_BADINVALIDARGUMENT"
  by (simp_all add: status_defs)

section \<open>Words and lists\<close>

lemma unat_u8_less [simp]: "unat (b :: u8) < 256"
  using unsigned_less [of b] by simp

lemma drop_eq_append_iff:
  "drop p xs = ys @ zs \<Longrightarrow> drop (p + length ys) xs = zs"
  by (metis add.commute append_eq_conv_conj drop_drop)

lemma take_of_drop_append:
  "drop p xs = ys @ zs \<Longrightarrow> take (length ys) (drop p xs) = ys"
  by simp

lemma drop_append_length_le:
  "drop p xs = ys @ zs \<Longrightarrow> ys \<noteq> [] \<Longrightarrow> p + length ys \<le> length xs"
  by (metis append_is_Nil_conv diff_is_0_eq drop_all le_add_diff_inverse le_add1 length_append
      length_drop nat_le_linear add_le_mono1 add.commute le_diff_conv2 )

end
