(* ===== verification/Channel_State.thy ===== *)
theory Channel_State
  imports Prelude
begin

text \<open>
  The state of a secure channel (\<^verbatim>\<open>src/ua_securechannel.h\<close>), of its connection
  (\<^verbatim>\<open>include/open62541/plugin/network.h\<close>) and the interface of a security policy
  (\<^verbatim>\<open>include/open62541/plugin/securitypolicy.h\<close>), with the operations of
  \<^verbatim>\<open>src/ua_securechannel.c\<close> that only concern the life cycle: initialisation, attaching a
  security policy, the HEL/ACK handshake and closing.

  A byte string of the channel is a list of bytes: the code does not tell a NULL from an empty one.
  The cryptographic algorithms and the network are plugins: the functions they implement are fields
  of records, and the model holds for every choice of them. A channel context (\<^verbatim>\<open>void*\<close>) is an
  element of \<open>'k option\<close>, \<open>None\<close> for NULL; a plugin function that changes it returns the new one.
\<close>

section \<open>Plugin interfaces\<close>

type_synonym bytes = "u8 list"

record 'k UA_SecurityPolicySignatureAlgorithm =
  verify :: "'k option \<Rightarrow> bytes \<Rightarrow> bytes \<Rightarrow> status"
  sign :: "'k option \<Rightarrow> bytes \<Rightarrow> nat \<Rightarrow> status \<times> bytes"
  getLocalSignatureSize :: "'k option \<Rightarrow> nat"
  getRemoteSignatureSize :: "'k option \<Rightarrow> nat"
  getLocalSignKeyLength :: "'k option \<Rightarrow> nat"
  getRemoteSignKeyLength :: "'k option \<Rightarrow> nat"

record 'k UA_SecurityPolicyEncryptionAlgorithm =
  encryption_uri :: bytes
  encrypt :: "'k option \<Rightarrow> bytes \<Rightarrow> status \<times> bytes"
  decrypt :: "'k option \<Rightarrow> bytes \<Rightarrow> status \<times> bytes"
  getLocalKeyLength :: "'k option \<Rightarrow> nat"
  getRemoteKeyLength :: "'k option \<Rightarrow> nat"
  getRemoteBlockSize :: "'k option \<Rightarrow> nat"
  getRemotePlainTextBlockSize :: "'k option \<Rightarrow> nat"

record 'k UA_SecurityPolicyCryptoModule =
  signatureAlgorithm :: "'k UA_SecurityPolicySignatureAlgorithm"
  encryptionAlgorithm :: "'k UA_SecurityPolicyEncryptionAlgorithm"

text \<open>
  An output buffer that a plugin function fills is an argument (what it holds before) and a result.
  \<open>generateNonce\<close> gets the old contents of the nonce buffer.
\<close>

record 'k UA_SecurityPolicy =
  policyUri :: bytes
  localCertificate :: bytes
  makeCertificateThumbprint :: "bytes \<Rightarrow> bytes \<Rightarrow> status \<times> bytes"
  compareCertificateThumbprint :: "bytes \<Rightarrow> status"
  asymmetricModule :: "'k UA_SecurityPolicyCryptoModule"
  generateKey :: "bytes \<Rightarrow> bytes \<Rightarrow> bytes \<Rightarrow> status \<times> bytes"
  generateNonce :: "bytes \<Rightarrow> status \<times> bytes"
  secureChannelNonceLength :: nat
  symmetricModule :: "'k UA_SecurityPolicyCryptoModule"
  newContext :: "bytes \<Rightarrow> 'k option \<Rightarrow> status \<times> 'k option"
  setLocalSymEncryptingKey :: "'k option \<Rightarrow> bytes \<Rightarrow> status \<times> 'k option"
  setLocalSymSigningKey :: "'k option \<Rightarrow> bytes \<Rightarrow> status \<times> 'k option"
  setLocalSymIv :: "'k option \<Rightarrow> bytes \<Rightarrow> status \<times> 'k option"
  setRemoteSymEncryptingKey :: "'k option \<Rightarrow> bytes \<Rightarrow> status \<times> 'k option"
  setRemoteSymSigningKey :: "'k option \<Rightarrow> bytes \<Rightarrow> status \<times> 'k option"
  setRemoteSymIv :: "'k option \<Rightarrow> bytes \<Rightarrow> status \<times> 'k option"

section \<open>Connection\<close>

datatype UA_ConnectionState =
    CONNECTIONSTATE_CLOSED | CONNECTIONSTATE_OPENING | CONNECTIONSTATE_ESTABLISHED

text \<open>
  \<open>net_getSendBuffer\<close> and \<open>net_send\<close> are the plugin's answers: the first argument numbers the calls
  of this connection, so that two calls need not agree. \<open>conn_sent\<close> are the byte strings that
  \<^verbatim>\<open>send\<close> has accepted, in order; \<open>conn_buffers\<close> is the number of send buffers that were handed out
  and neither sent nor released (negative after a double release).
\<close>

record UA_Connection =
  conn_state :: UA_ConnectionState
  net_getSendBuffer :: "nat \<Rightarrow> nat \<Rightarrow> status \<times> nat"
  net_send :: "nat \<Rightarrow> bytes \<Rightarrow> status"
  conn_calls :: nat
  conn_sent :: "bytes list"
  conn_buffers :: int

text \<open>\<^verbatim>\<open>getSendBuffer\<close> returns the length of the buffer (0 when it fails).\<close>

definition getSendBuffer :: "nat \<Rightarrow> UA_Connection \<Rightarrow> status \<times> nat \<times> UA_Connection" where
  "getSendBuffer len c =
     (let (r, n) = net_getSendBuffer c (conn_calls c) len; c1 = c\<lparr>conn_calls := Suc (conn_calls c)\<rparr>
      in if r = GOOD then (r, n, c1\<lparr>conn_buffers := conn_buffers c + 1\<rparr>) else (r, 0, c1))"

definition releaseSendBuffer :: "UA_Connection \<Rightarrow> UA_Connection" where
  "releaseSendBuffer c = c\<lparr>conn_buffers := conn_buffers c - 1\<rparr>"

text \<open>\<^verbatim>\<open>send\<close> frees the buffer, also when it fails.\<close>

definition send_buffer :: "bytes \<Rightarrow> UA_Connection \<Rightarrow> status \<times> UA_Connection" where
  "send_buffer buf c =
     (let r = net_send c (conn_calls c) buf;
          c1 = c\<lparr>conn_calls := Suc (conn_calls c), conn_buffers := conn_buffers c - 1\<rparr>
      in if r = GOOD then (r, c1\<lparr>conn_sent := conn_sent c @ [buf]\<rparr>) else (r, c1))"

section \<open>The channel\<close>

datatype UA_SecureChannelState =
    SECURECHANNELSTATE_FRESH | SECURECHANNELSTATE_HEL_SENT | SECURECHANNELSTATE_HEL_RECEIVED
  | SECURECHANNELSTATE_ACK_SENT | SECURECHANNELSTATE_ACK_RECEIVED | SECURECHANNELSTATE_OPN_SENT
  | SECURECHANNELSTATE_OPEN | SECURECHANNELSTATE_CLOSING | SECURECHANNELSTATE_CLOSED

datatype UA_SecureChannelRenewState =
    RENEWSTATE_NORMAL | RENEWSTATE_SENT | RENEWSTATE_NEWTOKEN_SERVER | RENEWSTATE_NEWTOKEN_CLIENT

datatype UA_MessageSecurityMode =
    SECURITYMODE_INVALID | SECURITYMODE_NONE | SECURITYMODE_SIGN | SECURITYMODE_SIGNANDENCRYPT

record UA_ConnectionConfig =
  protocolVersion :: u32
  recvBufferSize :: u32
  sendBufferSize :: u32
  localMaxMessageSize :: u32
  remoteMaxMessageSize :: u32
  localMaxChunkCount :: u32
  remoteMaxChunkCount :: u32

record UA_ChannelSecurityToken =
  channelId :: u32
  tokenId :: u32
  createdAt :: u64
  revisedLifetime :: u32

definition null_token :: UA_ChannelSecurityToken where
  "null_token = \<lparr>channelId = 0, tokenId = 0, createdAt = 0, revisedLifetime = 0\<rparr>"

text \<open>
  The queues hold their chunks by value; \<open>copied\<close> says whether the bytes still point into the
  network buffer. The connection pointer may be NULL (\<open>has_connection\<close>); the record is then the
  connection that it pointed to last. A session is its header.
\<close>

record UA_Chunk =
  chunk_bytes :: bytes
  messageType :: u32
  chunkType :: u32
  requestId :: u32
  copied :: bool

record UA_SessionHeader =
  authenticationToken :: nat
  serverSession :: bool

record 'k UA_SecureChannel =
  state :: UA_SecureChannelState
  renewState :: UA_SecureChannelRenewState
  securityMode :: UA_MessageSecurityMode
  config :: UA_ConnectionConfig
  securityToken :: UA_ChannelSecurityToken
  altSecurityToken :: UA_ChannelSecurityToken
  securityPolicy :: "'k UA_SecurityPolicy option"
  channelContext :: "'k option"
  has_connection :: bool
  connection :: UA_Connection
  remoteCertificate :: bytes
  remoteCertificateThumbprint :: bytes
  remoteNonce :: bytes
  localNonce :: bytes
  receiveSequenceNumber :: u32
  sendSequenceNumber :: u32
  sessions :: "UA_SessionHeader list"
  completeChunks :: "UA_Chunk list"
  decryptedChunks :: "UA_Chunk list"
  decryptedChunksCount :: nat
  decryptedChunksLength :: nat
  incompleteChunk :: bytes

definition null_connection :: UA_Connection where
  "null_connection =
     \<lparr>conn_state = CONNECTIONSTATE_CLOSED,
      net_getSendBuffer = (\<lambda>_ _. (UA_STATUSCODE_BADCONNECTIONCLOSED, 0)),
      net_send = (\<lambda>_ _. UA_STATUSCODE_BADCONNECTIONCLOSED),
      conn_calls = 0, conn_sent = [], conn_buffers = 0\<rparr>"

section \<open>Life cycle\<close>

text \<open>\<^verbatim>\<open>memset\<close> with zero, the state and the configuration.\<close>

definition UA_SecureChannel_init :: "UA_ConnectionConfig \<Rightarrow> 'k UA_SecureChannel" where
  "UA_SecureChannel_init conf =
     \<lparr>state = SECURECHANNELSTATE_FRESH, renewState = RENEWSTATE_NORMAL,
      securityMode = SECURITYMODE_INVALID, config = conf, securityToken = null_token,
      altSecurityToken = null_token, securityPolicy = None, channelContext = None,
      has_connection = False, connection = null_connection, remoteCertificate = [],
      remoteCertificateThumbprint = replicate 20 0, remoteNonce = [], localNonce = [],
      receiveSequenceNumber = 0, sendSequenceNumber = 0, sessions = [], completeChunks = [],
      decryptedChunks = [], decryptedChunksCount = 0, decryptedChunksLength = 0,
      incompleteChunk = []\<rparr>"

text \<open>\<open>mem_ok n\<close>: an allocation of \<open>n\<close> bytes succeeds.\<close>

definition ByteString_copy :: "(nat \<Rightarrow> bool) \<Rightarrow> bytes \<Rightarrow> status \<times> bytes" where
  "ByteString_copy mem_ok bs =
     (if bs = [] \<or> mem_ok (length bs) then (GOOD, bs) else (UA_STATUSCODE_BADOUTOFMEMORY, []))"

definition UA_SecureChannel_setSecurityPolicy ::
    "(nat \<Rightarrow> bool) \<Rightarrow> 'k UA_SecurityPolicy \<Rightarrow> bytes \<Rightarrow> 'k UA_SecureChannel \<Rightarrow>
     status \<times> 'k UA_SecureChannel" where
  "UA_SecureChannel_setSecurityPolicy mem_ok sp cert ch =
     (if securityPolicy ch \<noteq> None then (UA_STATUSCODE_BADINTERNALERROR, ch)
      else
        (let (r1, ctx) = newContext sp cert (channelContext ch);
             (r2, copy) = ByteString_copy mem_ok cert;
             ch1 = ch\<lparr>channelContext := ctx, remoteCertificate := copy\<rparr>
         in if r1 OR r2 \<noteq> GOOD then (r1 OR r2, ch1)
            else
              (let (r3, thumb) = makeCertificateThumbprint sp copy (remoteCertificateThumbprint ch1);
                   ch2 = ch1\<lparr>remoteCertificateThumbprint := thumb\<rparr>
               in if r3 \<noteq> GOOD then (r3, ch2)
                  else (GOOD, ch2\<lparr>securityPolicy := Some sp\<rparr>))))"

text \<open>\<^verbatim>\<open>deleteChunks\<close> removes the head of the queue until it is empty.\<close>

fun deleteChunks :: "UA_Chunk list \<Rightarrow> UA_Chunk list" where
  "deleteChunks [] = []"
| "deleteChunks (chunk # queue) = deleteChunks queue"

definition UA_SecureChannel_deleteBuffered :: "'k UA_SecureChannel \<Rightarrow> 'k UA_SecureChannel" where
  "UA_SecureChannel_deleteBuffered ch =
     ch\<lparr>completeChunks := deleteChunks (completeChunks ch),
        decryptedChunks := deleteChunks (decryptedChunks ch), incompleteChunk := []\<rparr>"

text \<open>
  Both branches of the loop over the sessions take the head out of the list: a server session
  through \<^verbatim>\<open>UA_Session_detachFromSecureChannel\<close>, a client session directly.
\<close>

fun detachSessions :: "UA_SessionHeader list \<Rightarrow> UA_SessionHeader list" where
  "detachSessions [] = []"
| "detachSessions (sh # shs) = detachSessions shs"

definition UA_SecureChannel_close :: "'k UA_SecureChannel \<Rightarrow> 'k UA_SecureChannel" where
  "UA_SecureChannel_close ch =
     (let ch1 = ch\<lparr>state := SECURECHANNELSTATE_CLOSED\<rparr>;
          ch2 = (if has_connection ch1
                 then ch1\<lparr>connection := (if conn_state (connection ch1) \<noteq> CONNECTIONSTATE_CLOSED
                                        then (connection ch1)\<lparr>conn_state := CONNECTIONSTATE_CLOSED\<rparr>
                                        else connection ch1),
                          has_connection := False\<rparr>
                 else ch1);
          ch3 = ch2\<lparr>sessions := detachSessions (sessions ch2)\<rparr>;
          ch4 = (if securityPolicy ch3 \<noteq> None
                 then ch3\<lparr>securityPolicy := None, channelContext := None\<rparr> else ch3)
      in UA_SecureChannel_deleteBuffered
           (ch4\<lparr>remoteCertificate := [], localNonce := [], remoteNonce := [],
                securityToken := null_token, altSecurityToken := null_token\<rparr>))"

record UA_TcpAcknowledgeMessage =
  ack_protocolVersion :: u32
  ack_receiveBufferSize :: u32
  ack_sendBufferSize :: u32
  ack_maxMessageSize :: u32
  ack_maxChunkCount :: u32

definition UA_SecureChannel_processHELACK ::
    "UA_TcpAcknowledgeMessage \<Rightarrow> 'k UA_SecureChannel \<Rightarrow> status \<times> 'k UA_SecureChannel" where
  "UA_SecureChannel_processHELACK remote ch =
     (let conf = config ch;
          conf1 = (if protocolVersion conf > ack_protocolVersion remote
                   then conf\<lparr>protocolVersion := ack_protocolVersion remote\<rparr> else conf);
          conf2 = (if sendBufferSize conf1 > ack_receiveBufferSize remote
                   then conf1\<lparr>sendBufferSize := ack_receiveBufferSize remote\<rparr> else conf1);
          conf3 = (if recvBufferSize conf2 > ack_sendBufferSize remote
                   then conf2\<lparr>recvBufferSize := ack_sendBufferSize remote\<rparr> else conf2);
          conf4 = conf3\<lparr>remoteMaxMessageSize := ack_maxMessageSize remote,
                        remoteMaxChunkCount := ack_maxChunkCount remote\<rparr>;
          ch1 = ch\<lparr>config := conf4\<rparr>
      in if recvBufferSize conf4 < 8192 \<or> sendBufferSize conf4 < 8192 \<or>
            (remoteMaxMessageSize conf4 \<noteq> 0 \<and> remoteMaxMessageSize conf4 < 8192)
         then (UA_STATUSCODE_BADINTERNALERROR, ch1)
         else (GOOD, ch1\<lparr>connection := (connection ch1)\<lparr>conn_state := CONNECTIONSTATE_ESTABLISHED\<rparr>\<rparr>))"

end
