(* ===== verification/Builtin_Types.thy ===== *)
theory Builtin_Types
  imports Prelude
begin

text \<open>
  The data of the type system (\<^verbatim>\<open>include/open62541/types.h\<close>): strings, guids, node ids, the type
  descriptions (\<^verbatim>\<open>UA_DataType\<close>, \<^verbatim>\<open>UA_DataTypeMember\<close>) and the values they describe, and the
  little-endian integer encoding of \<^verbatim>\<open>src/ua_types_encoding_binary.c\<close>.

  A \<^verbatim>\<open>UA_String\<close> is a length and a data pointer that is NULL, the sentinel of an empty array, or the
  address of \<open>length\<close> bytes. Here it is a \<open>u8 list option\<close>: \<open>None\<close> is the NULL pointer,
  \<open>Some []\<close> the sentinel, \<open>Some bs\<close> the bytes. The same convention is used for every array.

  A type is referred to by address (\<open>tyref\<close>), as the C code refers to it by pointer. The table
  \<^verbatim>\<open>UA_TYPES\<close> is generated by the build, so it is a parameter of the model (\<open>type_env\<close>).
\<close>

section \<open>Little-endian integers\<close>

definition UA_encode16 :: "u16 \<Rightarrow> u8 list" where
  "UA_encode16 v = [ucast v, ucast (drop_bit 8 v)]"

definition UA_decode16 :: "u8 list \<Rightarrow> u16" where
  "UA_decode16 b = ucast (b ! 0) + push_bit 8 (ucast (b ! 1))"

definition UA_encode32 :: "u32 \<Rightarrow> u8 list" where
  "UA_encode32 v = [ucast v, ucast (drop_bit 8 v), ucast (drop_bit 16 v), ucast (drop_bit 24 v)]"

definition UA_decode32 :: "u8 list \<Rightarrow> u32" where
  "UA_decode32 b = ucast (b ! 0) + push_bit 8 (ucast (b ! 1)) +
     push_bit 16 (ucast (b ! 2)) + push_bit 24 (ucast (b ! 3))"

definition UA_encode64 :: "u64 \<Rightarrow> u8 list" where
  "UA_encode64 v =
     [ucast v, ucast (drop_bit 8 v), ucast (drop_bit 16 v), ucast (drop_bit 24 v),
      ucast (drop_bit 32 v), ucast (drop_bit 40 v), ucast (drop_bit 48 v), ucast (drop_bit 56 v)]"

definition UA_decode64 :: "u8 list \<Rightarrow> u64" where
  "UA_decode64 b = ucast (b ! 0) + push_bit 8 (ucast (b ! 1)) +
     push_bit 16 (ucast (b ! 2)) + push_bit 24 (ucast (b ! 3)) +
     push_bit 32 (ucast (b ! 4)) + push_bit 40 (ucast (b ! 5)) +
     push_bit 48 (ucast (b ! 6)) + push_bit 56 (ucast (b ! 7))"

lemma UA_decode32_take: "UA_decode32 (take 4 bs) = UA_decode32 bs"
  by (simp add: UA_decode32_def)

lemma length_UA_encode16 [simp]: "length (UA_encode16 v) = 2"
  by (simp add: UA_encode16_def)

lemma length_UA_encode32 [simp]: "length (UA_encode32 v) = 4"
  by (simp add: UA_encode32_def)

lemma length_UA_encode64 [simp]: "length (UA_encode64 v) = 8"
  by (simp add: UA_encode64_def)

text \<open>
  The bytes of a word do not overlap, so the sum of the shifted bytes is their disjunction.
\<close>

lemma bit_u8_less: "bit (b :: 8 word) n \<Longrightarrow> n < 8"
  using bit_imp_le_length [of b n] by simp

lemma byte_add_push_bit:
  fixes y :: "'a::len word"
  shows "ucast (b :: 8 word) + push_bit 8 y = ucast b OR push_bit 8 y"
  by (rule disjunctive_add_eq_or, rule bit_word_eqI) (auto simp: bit_simps dest: bit_u8_less)

lemma bit_byte_add_push_bit:
  fixes y :: "'a::len word"
  shows "bit (ucast (b :: 8 word) + push_bit 8 y) n \<longleftrightarrow>
    n < LENGTH('a) \<and> (if n < 8 then bit b n else bit y (n - 8))"
  unfolding byte_add_push_bit by (auto simp: bit_simps dest: bit_u8_less)

text \<open>The sums of the decoders, in Horner form: one byte and the rest shifted by eight bits.\<close>

lemma UA_decode16_horner:
  "UA_decode16 b = ucast (b ! 0) + push_bit 8 (ucast (b ! 1))"
  by (simp add: UA_decode16_def)

lemma UA_decode32_horner:
  "UA_decode32 b = ucast (b ! 0) + push_bit 8 (ucast (b ! 1) + push_bit 8 (ucast (b ! 2) +
     push_bit 8 (ucast (b ! 3))))"
  by (simp add: UA_decode32_def push_bit_add add.assoc)

lemma UA_decode64_horner:
  "UA_decode64 b = ucast (b ! 0) + push_bit 8 (ucast (b ! 1) + push_bit 8 (ucast (b ! 2) +
     push_bit 8 (ucast (b ! 3) + push_bit 8 (ucast (b ! 4) + push_bit 8 (ucast (b ! 5) +
     push_bit 8 (ucast (b ! 6) + push_bit 8 (ucast (b ! 7))))))))"
  by (simp add: UA_decode64_def push_bit_add add.assoc)

lemma byte_drop_bit_step:
  fixes v :: "'a::len word"
  shows "ucast (ucast (drop_bit k v) :: 8 word) + push_bit 8 (drop_bit (k + 8) v) = drop_bit k v"
proof (rule bit_word_eqI)
  fix n assume "n < LENGTH('a)"
  show "bit (ucast (ucast (drop_bit k v) :: 8 word) + push_bit 8 (drop_bit (k + 8) v)) n =
      bit (drop_bit k v) n"
    unfolding bit_byte_add_push_bit using \<open>n < LENGTH('a)\<close>
    by (auto simp: bit_simps bit_drop_bit_eq add.assoc)
qed

lemmas byte_drop_bit_steps =
  byte_drop_bit_step [where k = 0, simplified] byte_drop_bit_step [where k = 8, simplified]
  byte_drop_bit_step [where k = 16, simplified] byte_drop_bit_step [where k = 24, simplified]
  byte_drop_bit_step [where k = 32, simplified] byte_drop_bit_step [where k = 40, simplified]
  byte_drop_bit_step [where k = 48, simplified]

lemma top_byte16: "ucast (ucast (drop_bit 8 v) :: 8 word) = drop_bit 8 (v :: u16)"
  by (rule bit_word_eqI) (auto simp: bit_simps dest: bit_imp_le_length)

lemma top_byte32: "ucast (ucast (drop_bit 24 v) :: 8 word) = drop_bit 24 (v :: u32)"
  by (rule bit_word_eqI) (auto simp: bit_simps dest: bit_imp_le_length)

lemma top_byte64: "ucast (ucast (drop_bit 56 v) :: 8 word) = drop_bit 56 (v :: u64)"
  by (rule bit_word_eqI) (auto simp: bit_simps dest: bit_imp_le_length)

lemma UA_decode16_encode16 [simp]: "UA_decode16 (UA_encode16 v) = v"
  by (simp add: UA_decode16_horner UA_encode16_def top_byte16 byte_drop_bit_steps)

lemma UA_decode32_encode32 [simp]: "UA_decode32 (UA_encode32 v) = v"
  by (simp add: UA_decode32_horner UA_encode32_def top_byte32 byte_drop_bit_steps)

lemma UA_decode64_encode64 [simp]: "UA_decode64 (UA_encode64 v) = v"
  by (simp add: UA_decode64_horner UA_encode64_def top_byte64 byte_drop_bit_steps)

section \<open>Builtin data\<close>

type_synonym UA_String = "u8 list option"

record UA_Guid =
  data1 :: u32
  data2 :: u16
  data3 :: u16
  data4 :: "u8 list"

datatype UA_Identifier =
    NumericId u32
  | StringId UA_String
  | GuidId UA_Guid
  | ByteStringId UA_String

record UA_NodeId =
  namespaceIndex :: u16
  nid :: UA_Identifier

record UA_ExpandedNodeId =
  nodeId :: UA_NodeId
  namespaceUri :: UA_String
  serverIndex :: u32

definition string_length :: "UA_String \<Rightarrow> nat" where
  "string_length s = (case s of None \<Rightarrow> 0 | Some bs \<Rightarrow> length bs)"

text \<open>\<open>data > UA_EMPTY_ARRAY_SENTINEL\<close>: the pointer is neither NULL nor the sentinel.\<close>

definition above_sentinel :: "'a list option \<Rightarrow> bool" where
  "above_sentinel s = (case s of None \<Rightarrow> False | Some bs \<Rightarrow> bs \<noteq> [])"

section \<open>Type descriptions\<close>

datatype UA_DataTypeKind =
    DK_BOOLEAN | DK_SBYTE | DK_BYTE | DK_INT16 | DK_UINT16 | DK_INT32 | DK_UINT32
  | DK_INT64 | DK_UINT64 | DK_FLOAT | DK_DOUBLE | DK_STRING | DK_DATETIME | DK_GUID
  | DK_BYTESTRING | DK_XMLELEMENT | DK_NODEID | DK_EXPANDEDNODEID | DK_STATUSCODE
  | DK_QUALIFIEDNAME | DK_LOCALIZEDTEXT | DK_EXTENSIONOBJECT | DK_DATAVALUE | DK_VARIANT
  | DK_DIAGNOSTICINFO | DK_DECIMAL | DK_ENUM | DK_STRUCTURE | DK_OPTSTRUCT | DK_UNION
  | DK_BITFIELDCLUSTER

fun kind_number :: "UA_DataTypeKind \<Rightarrow> nat" where
  "kind_number DK_BOOLEAN = 0" | "kind_number DK_SBYTE = 1" | "kind_number DK_BYTE = 2"
| "kind_number DK_INT16 = 3" | "kind_number DK_UINT16 = 4" | "kind_number DK_INT32 = 5"
| "kind_number DK_UINT32 = 6" | "kind_number DK_INT64 = 7" | "kind_number DK_UINT64 = 8"
| "kind_number DK_FLOAT = 9" | "kind_number DK_DOUBLE = 10" | "kind_number DK_STRING = 11"
| "kind_number DK_DATETIME = 12" | "kind_number DK_GUID = 13" | "kind_number DK_BYTESTRING = 14"
| "kind_number DK_XMLELEMENT = 15" | "kind_number DK_NODEID = 16"
| "kind_number DK_EXPANDEDNODEID = 17" | "kind_number DK_STATUSCODE = 18"
| "kind_number DK_QUALIFIEDNAME = 19" | "kind_number DK_LOCALIZEDTEXT = 20"
| "kind_number DK_EXTENSIONOBJECT = 21" | "kind_number DK_DATAVALUE = 22"
| "kind_number DK_VARIANT = 23" | "kind_number DK_DIAGNOSTICINFO = 24"
| "kind_number DK_DECIMAL = 25" | "kind_number DK_ENUM = 26" | "kind_number DK_STRUCTURE = 27"
| "kind_number DK_OPTSTRUCT = 28" | "kind_number DK_UNION = 29"
| "kind_number DK_BITFIELDCLUSTER = 30"

type_synonym tyref = nat

record UA_DataTypeMember =
  memberType :: tyref
  isArray :: bool
  isOptional :: bool

record UA_DataType =
  typeId :: UA_NodeId
  binaryEncodingId :: UA_NodeId
  memSize :: nat
  typeKind :: UA_DataTypeKind
  overlayable :: bool
  members :: "UA_DataTypeMember list"

text \<open>
  The types in memory: \<open>ty_at\<close> reads the description at an address; the generated array
  \<^verbatim>\<open>UA_TYPES\<close> starts at address 0 and has \<open>UA_TYPES_COUNT\<close> entries, so that its entry \<open>i\<close> has
  address \<open>i\<close>. Custom types live at other addresses.
\<close>

record type_env =
  ty_at :: "tyref \<Rightarrow> UA_DataType"
  UA_TYPES_COUNT :: nat

abbreviation kind_at :: "type_env \<Rightarrow> tyref \<Rightarrow> UA_DataTypeKind" where
  "kind_at env t \<equiv> typeKind (ty_at env t)"

text \<open>
  The generated header numbers the builtin types as the kinds: \<^verbatim>\<open>UA_TYPES[k]\<close> is the type of
  kind \<open>k\<close> for every \<open>k\<close> up to \<^verbatim>\<open>UA_DATATYPEKIND_DIAGNOSTICINFO\<close>. The code relies on it
  (\<^verbatim>\<open>dst->type = &UA_TYPES[typeKind]\<close>), and it is the hypothesis \<open>builtin_env\<close>.
\<close>

abbreviation (input) UA_TYPES_BYTE :: tyref where "UA_TYPES_BYTE \<equiv> 2"
abbreviation (input) UA_TYPES_UINT16 :: tyref where "UA_TYPES_UINT16 \<equiv> 4"
abbreviation (input) UA_TYPES_INT32 :: tyref where "UA_TYPES_INT32 \<equiv> 5"
abbreviation (input) UA_TYPES_UINT32 :: tyref where "UA_TYPES_UINT32 \<equiv> 6"
abbreviation (input) UA_TYPES_DATETIME :: tyref where "UA_TYPES_DATETIME \<equiv> 12"
abbreviation (input) UA_TYPES_NODEID :: tyref where "UA_TYPES_NODEID \<equiv> 16"
abbreviation (input) UA_TYPES_STATUSCODE :: tyref where "UA_TYPES_STATUSCODE \<equiv> 18"
abbreviation (input) UA_TYPES_EXTENSIONOBJECT :: tyref where "UA_TYPES_EXTENSIONOBJECT \<equiv> 21"
abbreviation (input) UA_TYPES_VARIANT :: tyref where "UA_TYPES_VARIANT \<equiv> 23"
abbreviation (input) UA_TYPES_DIAGNOSTICINFO :: tyref where "UA_TYPES_DIAGNOSTICINFO \<equiv> 24"

definition builtin_env :: "type_env \<Rightarrow> bool" where
  "builtin_env env = (25 \<le> UA_TYPES_COUNT env \<and> (\<forall>i < 25. kind_number (kind_at env i) = i))"

section \<open>Values\<close>

text \<open>
  A value in memory, as its type describes it. Integers, floats, times and status codes are the
  bits in memory. The \<open>has...\<close> flag of an optional part and the part itself are one \<open>option\<close>
  (the code reads the part only under its flag). A field of a structure is a scalar, an array, or
  an optional scalar or array (\<open>None\<close> when the pointer is NULL).
\<close>

datatype UA_ExtensionObjectEncoding = EO_NOBODY | EO_BYTESTRING | EO_XML

text \<open>
  The three encoded forms of an extension object; \<^verbatim>\<open>DECODED\<close> and \<^verbatim>\<open>DECODED_NODELETE\<close> are the value
  constructor \<open>VDecodedEO\<close> below.
\<close>

fun eo_number :: "UA_ExtensionObjectEncoding \<Rightarrow> u8" where
  "eo_number EO_NOBODY = 0"
| "eo_number EO_BYTESTRING = 1"
| "eo_number EO_XML = 2"

datatype ua_val =
    VU8 u8
  | VU16 u16
  | VU32 u32
  | VU64 u64
  | VString UA_String
  | VGuid UA_Guid
  | VNodeId UA_NodeId
  | VExpandedNodeId UA_ExpandedNodeId
  | VQualifiedName u16 UA_String
  | VLocalizedText UA_String UA_String
  | VEncodedEO UA_ExtensionObjectEncoding UA_NodeId UA_String
  | VDecodedEO "tyref option" "ua_val option"
  | VVariantEmpty
  | VVariantScalar tyref ua_val
  | VVariantArray tyref "ua_val list option" "u32 list"
  | VDataValue "ua_val option" "u32 option" "u64 option" "u16 option" "u64 option" "u16 option"
  | VDiagnosticInfo "u32 option" "u32 option" "u32 option" "u32 option" "UA_String option"
      "u32 option" "ua_val option"
  | VStruct "ua_field list"
  | VUnion u32 ua_field
and ua_field =
    FScalar ua_val
  | FArray "ua_val list option"
  | FOptScalar "ua_val option"
  | FOptArray "ua_val list option"

text \<open>The number of elements of an array in memory.\<close>

definition array_length :: "'a list option \<Rightarrow> nat" where
  "array_length a = (case a of None \<Rightarrow> 0 | Some xs \<Rightarrow> length xs)"

definition array_elems :: "'a list option \<Rightarrow> 'a list" where
  "array_elems a = (case a of None \<Rightarrow> [] | Some xs \<Rightarrow> xs)"

lemma array_simps [simp]:
  "array_length None = 0" "array_length (Some xs) = length xs"
  "array_elems None = []" "array_elems (Some xs) = xs"
  "above_sentinel None = False" "above_sentinel (Some ys) = (ys \<noteq> [])"
  "string_length None = 0" "string_length (Some bs) = length bs"
  by (simp_all add: array_length_def array_elems_def above_sentinel_def string_length_def)

text \<open>
  The memory of an overlayable value: the type's \<open>overlayable\<close> flag says that the layout in memory
  is the layout on the stream.
\<close>

text \<open>
  \<^verbatim>\<open>data4\<close> is an array of eight bytes. The list of the model should have this length (\<open>wf_guid\<close>);
  elements that it lacks read as zero.
\<close>

definition guid_data4 :: "UA_Guid \<Rightarrow> u8 list" where
  "guid_data4 g = take 8 (data4 g @ replicate 8 0)"

lemma length_guid_data4 [simp]: "length (guid_data4 g) = 8"
  by (simp add: guid_data4_def)

lemma guid_data4_wf [simp]: "length (data4 g) = 8 \<Longrightarrow> guid_data4 g = data4 g"
  by (simp add: guid_data4_def)

definition guid_bytes :: "UA_Guid \<Rightarrow> u8 list" where
  "guid_bytes g =
     UA_encode32 (data1 g) @ UA_encode16 (data2 g) @ UA_encode16 (data3 g) @ guid_data4 g"

fun overlay_bytes :: "ua_val \<Rightarrow> u8 list"
and overlay_field :: "ua_field \<Rightarrow> u8 list" where
  "overlay_bytes (VU8 b) = [b]"
| "overlay_bytes (VU16 w) = UA_encode16 w"
| "overlay_bytes (VU32 w) = UA_encode32 w"
| "overlay_bytes (VU64 w) = UA_encode64 w"
| "overlay_bytes (VGuid g) = guid_bytes g"
| "overlay_bytes (VStruct fs) = concat (map overlay_field fs)"
| "overlay_bytes _ = []"
| "overlay_field (FScalar v) = overlay_bytes v"
| "overlay_field _ = []"

end
