(* ===== verification/Binary_Size.thy ===== *)
theory Binary_Size
  imports Builtin_Types
begin

text \<open>
  The message size computation of \<^verbatim>\<open>src/ua_types_encoding_binary.c\<close> (\<^verbatim>\<open>CALCSIZE_BINARY\<close>): the number
  of bytes a value takes in binary encoding. The encoder writes it as the length of the body of
  an extension object and allocates buffers with it.
\<close>

type_synonym size_table = "tyref \<Rightarrow> ua_val \<Rightarrow> nat"

definition Array_calcSizeBinary :: "type_env \<Rightarrow> size_table \<Rightarrow> tyref \<Rightarrow> ua_val list \<Rightarrow> nat" where
  "Array_calcSizeBinary env jt ty vs =
     (if overlayable (ty_at env ty) then 4 + memSize (ty_at env ty) * length vs
      else 4 + sum_list (map (jt ty) vs))"

definition String_calcSizeBinary :: "UA_String \<Rightarrow> nat" where
  "String_calcSizeBinary s = 4 + string_length s"

definition Guid_calcSizeBinary :: nat where
  "Guid_calcSizeBinary = 16"

definition NodeId_calcSizeBinary :: "UA_NodeId \<Rightarrow> nat" where
  "NodeId_calcSizeBinary src =
     1 + (case nid src of
            NumericId n \<Rightarrow>
              if 0xFFFF < n \<or> 0xFF < namespaceIndex src then 6
              else if 0xFF < n \<or> 0 < namespaceIndex src then 3
              else 1
          | StringId s \<Rightarrow> 2 + String_calcSizeBinary s
          | ByteStringId s \<Rightarrow> 2 + String_calcSizeBinary s
          | GuidId _ \<Rightarrow> 18)"

definition ExpandedNodeId_calcSizeBinary :: "UA_ExpandedNodeId \<Rightarrow> nat" where
  "ExpandedNodeId_calcSizeBinary src =
     NodeId_calcSizeBinary (nodeId src) +
     (if 0 < string_length (namespaceUri src) then String_calcSizeBinary (namespaceUri src) else 0) +
     (if 0 < serverIndex src then 4 else 0)"

definition QualifiedName_calcSizeBinary :: "UA_String \<Rightarrow> nat" where
  "QualifiedName_calcSizeBinary name = 2 + String_calcSizeBinary name"

definition LocalizedText_calcSizeBinary :: "UA_String \<Rightarrow> UA_String \<Rightarrow> nat" where
  "LocalizedText_calcSizeBinary locale_str text_str =
     1 + (if locale_str \<noteq> None then String_calcSizeBinary locale_str else 0) +
     (if text_str \<noteq> None then String_calcSizeBinary text_str else 0)"

definition is_numeric :: "UA_NodeId \<Rightarrow> bool" where
  "is_numeric i = (case nid i of NumericId _ \<Rightarrow> True | _ \<Rightarrow> False)"

fun ExtensionObject_calcSizeBinary :: "type_env \<Rightarrow> size_table \<Rightarrow> ua_val \<Rightarrow> nat" where
  "ExtensionObject_calcSizeBinary env jt (VEncodedEO encoding tid body) =
     1 + NodeId_calcSizeBinary tid +
     (case encoding of EO_NOBODY \<Rightarrow> 0 | EO_BYTESTRING \<Rightarrow> String_calcSizeBinary body
      | EO_XML \<Rightarrow> String_calcSizeBinary body)"
| "ExtensionObject_calcSizeBinary env jt (VDecodedEO (Some ty) (Some data)) =
     (if is_numeric (typeId (ty_at env ty))
      then 1 + NodeId_calcSizeBinary (binaryEncodingId (ty_at env ty)) + 4 + jt ty data
      else 0)"
| "ExtensionObject_calcSizeBinary env jt _ = 0"

definition wrapped_size :: "type_env \<Rightarrow> tyref \<Rightarrow> nat \<Rightarrow> nat" where
  "wrapped_size env ty n =
     (let k = kind_at env ty
      in if \<not> kind_number k \<le> kind_number DK_DIAGNOSTICINFO \<and> k \<noteq> DK_ENUM
         then (NodeId_calcSizeBinary (binaryEncodingId (ty_at env ty)) + 1 + 4) * n else 0)"

fun Variant_calcSizeBinary :: "type_env \<Rightarrow> size_table \<Rightarrow> ua_val \<Rightarrow> nat" where
  "Variant_calcSizeBinary env jt (VVariantScalar ty v) = 1 + jt ty v + wrapped_size env ty 1"
| "Variant_calcSizeBinary env jt (VVariantArray ty a dims) =
     1 + Array_calcSizeBinary env jt ty (array_elems a) + wrapped_size env ty (array_length a) +
     (if dims \<noteq> [] then 4 + 4 * length dims else 0)"
| "Variant_calcSizeBinary env jt _ = 1"

definition opt_size :: "'a option \<Rightarrow> nat \<Rightarrow> nat" where
  "opt_size x n = (if x \<noteq> None then n else 0)"

fun DataValue_calcSizeBinary :: "type_env \<Rightarrow> size_table \<Rightarrow> ua_val \<Rightarrow> nat" where
  "DataValue_calcSizeBinary env jt (VDataValue value status sts sps vts vps) =
     1 + (case value of None \<Rightarrow> 0 | Some v \<Rightarrow> Variant_calcSizeBinary env jt v) +
     opt_size status 4 + opt_size sts 8 + opt_size sps 2 + opt_size vts 8 + opt_size vps 2"
| "DataValue_calcSizeBinary env jt _ = 0"

fun DiagnosticInfo_calcSizeBinary :: "ua_val \<Rightarrow> nat" where
  "DiagnosticInfo_calcSizeBinary (VDiagnosticInfo symid ns lt loc add st inner) =
     1 + opt_size symid 4 + opt_size ns 4 + opt_size lt 4 + opt_size loc 4 +
     (case add of None \<Rightarrow> 0 | Some s \<Rightarrow> String_calcSizeBinary s) +
     opt_size st 4 +
     (case inner of None \<Rightarrow> 0 | Some d \<Rightarrow> DiagnosticInfo_calcSizeBinary d)"
| "DiagnosticInfo_calcSizeBinary _ = 0"

fun member_size :: "type_env \<Rightarrow> size_table \<Rightarrow> UA_DataTypeMember \<Rightarrow> ua_field \<Rightarrow> nat" where
  "member_size env jt m (FScalar v) = jt (memberType m) v"
| "member_size env jt m (FArray a) = Array_calcSizeBinary env jt (memberType m) (array_elems a)"
| "member_size env jt m (FOptScalar v) = (case v of None \<Rightarrow> 0 | Some x \<Rightarrow> jt (memberType m) x)"
| "member_size env jt m (FOptArray a) =
     (case a of None \<Rightarrow> 0 | Some xs \<Rightarrow> Array_calcSizeBinary env jt (memberType m) xs)"

fun members_size :: "type_env \<Rightarrow> size_table \<Rightarrow> UA_DataTypeMember list \<Rightarrow> ua_field list \<Rightarrow> nat" where
  "members_size env jt (m # ms) (f # fs) = member_size env jt m f + members_size env jt ms fs"
| "members_size env jt _ _ = 0"

fun calcSizeBinaryStructure :: "type_env \<Rightarrow> size_table \<Rightarrow> tyref \<Rightarrow> ua_val \<Rightarrow> nat" where
  "calcSizeBinaryStructure env jt ty (VStruct fs) = members_size env jt (members (ty_at env ty)) fs"
| "calcSizeBinaryStructure env jt ty _ = 0"

fun calcSizeBinaryStructureWithOptFields ::
    "type_env \<Rightarrow> size_table \<Rightarrow> tyref \<Rightarrow> ua_val \<Rightarrow> nat" where
  "calcSizeBinaryStructureWithOptFields env jt ty (VStruct fs) =
     4 + members_size env jt (members (ty_at env ty)) fs"
| "calcSizeBinaryStructureWithOptFields env jt ty _ = 0"

fun calcSizeBinaryUnion :: "type_env \<Rightarrow> size_table \<Rightarrow> tyref \<Rightarrow> ua_val \<Rightarrow> nat" where
  "calcSizeBinaryUnion env jt ty (VUnion selection f) =
     (if selection = 0 then 4
      else if unat (selection - 1) < length (members (ty_at env ty))
      then 4 + member_size env jt (members (ty_at env ty) ! unat (selection - 1)) f
      else 0)"
| "calcSizeBinaryUnion env jt ty _ = 0"

definition size_dispatch :: "type_env \<Rightarrow> size_table \<Rightarrow> size_table" where
  "size_dispatch env jt ty v =
     (case kind_at env ty of
        DK_BOOLEAN \<Rightarrow> 1 | DK_SBYTE \<Rightarrow> 1 | DK_BYTE \<Rightarrow> 1
      | DK_INT16 \<Rightarrow> 2 | DK_UINT16 \<Rightarrow> 2
      | DK_INT32 \<Rightarrow> 4 | DK_UINT32 \<Rightarrow> 4
      | DK_INT64 \<Rightarrow> 8 | DK_UINT64 \<Rightarrow> 8
      | DK_FLOAT \<Rightarrow> 4 | DK_DOUBLE \<Rightarrow> 8
      | DK_STRING \<Rightarrow> (case v of VString s \<Rightarrow> String_calcSizeBinary s | _ \<Rightarrow> 0)
      | DK_DATETIME \<Rightarrow> 8
      | DK_GUID \<Rightarrow> Guid_calcSizeBinary
      | DK_BYTESTRING \<Rightarrow> (case v of VString s \<Rightarrow> String_calcSizeBinary s | _ \<Rightarrow> 0)
      | DK_XMLELEMENT \<Rightarrow> (case v of VString s \<Rightarrow> String_calcSizeBinary s | _ \<Rightarrow> 0)
      | DK_NODEID \<Rightarrow> (case v of VNodeId i \<Rightarrow> NodeId_calcSizeBinary i | _ \<Rightarrow> 0)
      | DK_EXPANDEDNODEID \<Rightarrow>
          (case v of VExpandedNodeId i \<Rightarrow> ExpandedNodeId_calcSizeBinary i | _ \<Rightarrow> 0)
      | DK_STATUSCODE \<Rightarrow> 4
      | DK_QUALIFIEDNAME \<Rightarrow> (case v of VQualifiedName _ s \<Rightarrow> QualifiedName_calcSizeBinary s | _ \<Rightarrow> 0)
      | DK_LOCALIZEDTEXT \<Rightarrow> (case v of VLocalizedText l t \<Rightarrow> LocalizedText_calcSizeBinary l t | _ \<Rightarrow> 0)
      | DK_EXTENSIONOBJECT \<Rightarrow> ExtensionObject_calcSizeBinary env jt v
      | DK_DATAVALUE \<Rightarrow> DataValue_calcSizeBinary env jt v
      | DK_VARIANT \<Rightarrow> Variant_calcSizeBinary env jt v
      | DK_DIAGNOSTICINFO \<Rightarrow> DiagnosticInfo_calcSizeBinary v
      | DK_DECIMAL \<Rightarrow> 0
      | DK_ENUM \<Rightarrow> 4
      | DK_STRUCTURE \<Rightarrow> calcSizeBinaryStructure env jt ty v
      | DK_OPTSTRUCT \<Rightarrow> calcSizeBinaryStructureWithOptFields env jt ty v
      | DK_UNION \<Rightarrow> calcSizeBinaryUnion env jt ty v
      | DK_BITFIELDCLUSTER \<Rightarrow> 0)"

primrec calcSizeBinaryJumpTable :: "type_env \<Rightarrow> nat \<Rightarrow> size_table" where
  "calcSizeBinaryJumpTable env 0 ty v = 0"
| "calcSizeBinaryJumpTable env (Suc n) ty v = size_dispatch env (calcSizeBinaryJumpTable env n) ty v"

definition UA_calcSizeBinary :: "type_env \<Rightarrow> ua_val \<Rightarrow> tyref \<Rightarrow> nat" where
  "UA_calcSizeBinary env p ty = calcSizeBinaryJumpTable env (Suc (size p)) ty p"

end
