(* ===== verification/Binary_Encode.thy ===== *)
theory Binary_Encode
  imports Builtin_Types Binary_Size
begin

text \<open>
  The binary encoder of \<^verbatim>\<open>src/ua_types_encoding_binary.c\<close>, one definition per C function.

  The context \<^verbatim>\<open>Ctx\<close> holds the write position and the end of the current buffer. Here
  \<open>enc_out\<close> is what has been written into the current buffer (its length is the position) and
  \<open>enc_room\<close> is \<open>end - pos\<close>. When a value does not fit, the encoder calls the exchange callback,
  which sends the buffer away and sets a fresh one; the callback and its handle are part of the
  context and arbitrary (a message context of the secure channel in \<open>Channel_Send\<close>). A callback
  changes \<open>pos\<close> and \<open>end\<close> when it succeeds, as \<^verbatim>\<open>sendSymmetricEncodingCallback\<close> does.

  Each operation that recurses takes the jump table \<open>jt\<close> as an argument; \<open>encodeBinaryJumpTable\<close> ties
  the knot with a fuel argument, and \<open>UA_encodeBinaryInternal\<close> gives it the size of the value.
\<close>

section \<open>The encoding context\<close>

type_synonym 'h exchange = "'h \<Rightarrow> u8 list \<Rightarrow> status \<times> 'h \<times> nat"

record 'h enc_ctx =
  enc_out :: "u8 list"
  enc_room :: nat
  enc_depth :: nat
  enc_cb :: "'h exchange option"
  enc_handle :: 'h

type_synonym 'h encoder = "'h enc_ctx \<Rightarrow> status \<times> 'h enc_ctx"
type_synonym 'h enc_table = "tyref \<Rightarrow> ua_val \<Rightarrow> 'h encoder"

definition UA_ENCODING_MAX_RECURSION :: nat where
  "UA_ENCODING_MAX_RECURSION = 100"

definition UA_INT32_MAX :: nat where
  "UA_INT32_MAX = 2147483647"

text \<open>\<^verbatim>\<open>ret |= f(); ret |= g();\<close>: every call is made and the status codes are joined bitwise.\<close>

primrec enc_ors :: "'h encoder list \<Rightarrow> 'h encoder" where
  "enc_ors [] c = (GOOD, c)"
| "enc_ors (f # fs) c =
     (let (r, c1) = f c; (r', c2) = enc_ors fs c1 in (r OR r', c2))"

text \<open>\<^verbatim>\<open>ret = f(); UA_CHECK_STATUS(ret, return ret); ret = g();\<close>: the first failure returns.\<close>

primrec enc_seq :: "'h encoder list \<Rightarrow> 'h encoder" where
  "enc_seq [] c = (GOOD, c)"
| "enc_seq (f # fs) c =
     (let (r, c1) = f c in if r = GOOD then enc_seq fs c1 else (r, c1))"

definition enc_return :: "status \<Rightarrow> 'h encoder" where
  "enc_return r c = (r, c)"

text \<open>\<^verbatim>\<open>UA_CHECK(pos + n <= end, return BADENCODINGLIMITSEXCEEDED)\<close>, then write and advance.\<close>

definition enc_put :: "u8 list \<Rightarrow> 'h encoder" where
  "enc_put bs c =
     (if length bs \<le> enc_room c
      then (GOOD, c\<lparr>enc_out := enc_out c @ bs, enc_room := enc_room c - length bs\<rparr>)
      else (LIMITS, c))"

definition exchangeBuffer :: "'h encoder" where
  "exchangeBuffer c =
     (case enc_cb c of
        None \<Rightarrow> (UA_STATUSCODE_BADENCODINGERROR, c)
      | Some cb \<Rightarrow>
          (let (r, h, room) = cb (enc_handle c) (enc_out c)
           in if r = GOOD
              then (r, c\<lparr>enc_handle := h, enc_out := [], enc_room := room\<rparr>)
              else (r, c\<lparr>enc_handle := h\<rparr>)))"

definition encodeWithExchangeBuffer :: "'h encoder \<Rightarrow> 'h encoder" where
  "encodeWithExchangeBuffer enc c =
     (let (ret, c1) = enc c
      in if ret = LIMITS then
           (let (ret', c2) = exchangeBuffer (c1\<lparr>enc_out := enc_out c, enc_room := enc_room c\<rparr>)
            in if ret' = GOOD then enc c2 else (ret', c2))
         else (ret, c1))"

section \<open>Integer types\<close>

definition Boolean_encodeBinary :: "u8 \<Rightarrow> 'h encoder" where
  [codec_defs]: "Boolean_encodeBinary b = enc_put [b]"

definition Byte_encodeBinary :: "u8 \<Rightarrow> 'h encoder" where
  [codec_defs]: "Byte_encodeBinary b = enc_put [b]"

definition UInt16_encodeBinary :: "u16 \<Rightarrow> 'h encoder" where
  [codec_defs]: "UInt16_encodeBinary w = enc_put (UA_encode16 w)"

definition UInt32_encodeBinary :: "u32 \<Rightarrow> 'h encoder" where
  [codec_defs]: "UInt32_encodeBinary w = enc_put (UA_encode32 w)"

definition UInt64_encodeBinary :: "u64 \<Rightarrow> 'h encoder" where
  [codec_defs]: "UInt64_encodeBinary w = enc_put (UA_encode64 w)"

section \<open>Array handling\<close>

text \<open>
  The loop of \<open>Array_encodeBinaryOverlayable\<close> does not end when the callback keeps giving buffers
  without room; \<open>fuel\<close> bounds its iterations, and \<open>length bs + 2\<close> are enough when every
  exchanged buffer has room (\<open>Array_encodeBinaryOverlayable_defined\<close>).
\<close>

fun encode_overlayable_loop :: "nat \<Rightarrow> u8 list \<Rightarrow> 'h encoder" where
  "encode_overlayable_loop 0 bs c = (STATUS_UNDEFINED, c)"
| "encode_overlayable_loop (Suc fuel) bs c =
     (if enc_room c < length bs then
        (let possible = enc_room c;
             c1 = c\<lparr>enc_out := enc_out c @ take possible bs, enc_room := 0\<rparr>;
             (ret, c2) = exchangeBuffer c1
         in if ret = GOOD then encode_overlayable_loop fuel (drop possible bs) c2 else (ret, c2))
      else (GOOD, c\<lparr>enc_out := enc_out c @ bs, enc_room := enc_room c - length bs\<rparr>))"

definition Array_encodeBinaryOverlayable :: "u8 list \<Rightarrow> 'h encoder" where
  "Array_encodeBinaryOverlayable bs = encode_overlayable_loop (length bs + 2) bs"

definition Array_encodeBinaryComplex :: "'h enc_table \<Rightarrow> tyref \<Rightarrow> ua_val list \<Rightarrow> 'h encoder" where
  "Array_encodeBinaryComplex jt ty vs =
     enc_seq (map (\<lambda>v. encodeWithExchangeBuffer (jt ty v)) vs)"

definition array_signed_length :: "'a list option \<Rightarrow> u32" where
  "array_signed_length a =
     (if 0 < array_length a then of_nat (array_length a) else if a = Some [] then 0 else - 1)"

definition Array_encodeBinary_with ::
    "'a list option \<Rightarrow> ('a list \<Rightarrow> 'h encoder) \<Rightarrow> 'h encoder" where
  "Array_encodeBinary_with a content =
     (if UA_INT32_MAX < array_length a then enc_return UA_STATUSCODE_BADINTERNALERROR
      else enc_seq
        [encodeWithExchangeBuffer (UInt32_encodeBinary (array_signed_length a)),
         if 0 < array_length a then content (array_elems a) else enc_return GOOD])"

definition Array_encodeBinary ::
    "type_env \<Rightarrow> 'h enc_table \<Rightarrow> tyref \<Rightarrow> ua_val list option \<Rightarrow> 'h encoder" where
  "Array_encodeBinary env jt ty a =
     Array_encodeBinary_with a
       (\<lambda>vs. if overlayable (ty_at env ty)
             then Array_encodeBinaryOverlayable (concat (map overlay_bytes vs))
             else Array_encodeBinaryComplex jt ty vs)"

section \<open>Builtin types\<close>

text \<open>\<^verbatim>\<open>UA_TYPES[UA_TYPES_BYTE]\<close> is overlayable, so a string is the overlayable array of its bytes.\<close>

definition String_encodeBinary :: "UA_String \<Rightarrow> 'h encoder" where
  "String_encodeBinary s = Array_encodeBinary_with s Array_encodeBinaryOverlayable"

definition Guid_encodeBinary :: "UA_Guid \<Rightarrow> 'h encoder" where
  "Guid_encodeBinary g c =
     (let (ret, c1) = enc_ors [UInt32_encodeBinary (data1 g), UInt16_encodeBinary (data2 g),
                               UInt16_encodeBinary (data3 g)] c
      in if 8 \<le> enc_room c1
         then (ret, c1\<lparr>enc_out := enc_out c1 @ guid_data4 g, enc_room := enc_room c1 - 8\<rparr>)
         else (LIMITS, c1))"

definition NodeId_encodeBinaryWithEncodingMask :: "UA_NodeId \<Rightarrow> u8 \<Rightarrow> 'h encoder" where
  "NodeId_encodeBinaryWithEncodingMask src encoding =
     (let ns = namespaceIndex src in
      case nid src of
        NumericId n \<Rightarrow>
          if 0xFFFF < n \<or> 0xFF < ns then
            enc_ors [Byte_encodeBinary (encoding OR 2), UInt16_encodeBinary ns,
                     UInt32_encodeBinary n]
          else if 0xFF < n \<or> 0 < ns then
            enc_ors [Byte_encodeBinary (encoding OR 1), Byte_encodeBinary (ucast ns),
                     UInt16_encodeBinary (ucast n)]
          else
            enc_ors [Byte_encodeBinary (encoding OR 0), Byte_encodeBinary (ucast n)]
      | StringId s \<Rightarrow>
          enc_seq [enc_ors [Byte_encodeBinary (encoding OR 3), UInt16_encodeBinary ns],
                   String_encodeBinary s]
      | GuidId g \<Rightarrow>
          enc_ors [Byte_encodeBinary (encoding OR 4), UInt16_encodeBinary ns, Guid_encodeBinary g]
      | ByteStringId s \<Rightarrow>
          enc_seq [enc_ors [Byte_encodeBinary (encoding OR 5), UInt16_encodeBinary ns],
                   String_encodeBinary s])"

definition NodeId_encodeBinary :: "UA_NodeId \<Rightarrow> 'h encoder" where
  "NodeId_encodeBinary src = NodeId_encodeBinaryWithEncodingMask src 0"

definition ExpandedNodeId_encodeBinary :: "UA_ExpandedNodeId \<Rightarrow> 'h encoder" where
  "ExpandedNodeId_encodeBinary src =
     (let encoding = (if above_sentinel (namespaceUri src) then 0x80 else 0) OR
                     (if 0 < serverIndex src then 0x40 else 0)
      in enc_seq
        [NodeId_encodeBinaryWithEncodingMask (nodeId src) encoding,
         if above_sentinel (namespaceUri src) then String_encodeBinary (namespaceUri src)
         else enc_return GOOD,
         if 0 < serverIndex src
         then encodeWithExchangeBuffer (UInt32_encodeBinary (serverIndex src))
         else enc_return GOOD])"

definition QualifiedName_encodeBinary :: "u16 \<Rightarrow> UA_String \<Rightarrow> 'h encoder" where
  "QualifiedName_encodeBinary ns name =
     enc_seq [UInt16_encodeBinary ns, String_encodeBinary name]"

definition LocalizedText_encodeBinary :: "UA_String \<Rightarrow> UA_String \<Rightarrow> 'h encoder" where
  "LocalizedText_encodeBinary locale_str text_str =
     (let encoding = (if locale_str \<noteq> None then 1 else 0) OR (if text_str \<noteq> None then 2 else 0 :: u8)
      in enc_seq
        [Byte_encodeBinary encoding,
         enc_ors
           [if encoding AND 1 \<noteq> 0 then String_encodeBinary locale_str else enc_return GOOD,
            if encoding AND 2 \<noteq> 0 then String_encodeBinary text_str else enc_return GOOD]])"

section \<open>Extension objects, variants, data values, diagnostics\<close>

fun ExtensionObject_encodeBinary :: "type_env \<Rightarrow> 'h enc_table \<Rightarrow> ua_val \<Rightarrow> 'h encoder" where
  "ExtensionObject_encodeBinary env jt (VEncodedEO encoding tid body) =
     enc_seq
       [NodeId_encodeBinary tid,
        encodeWithExchangeBuffer (Byte_encodeBinary (eo_number encoding)),
        case encoding of
          EO_NOBODY \<Rightarrow> enc_return GOOD
        | EO_BYTESTRING \<Rightarrow> String_encodeBinary body
        | EO_XML \<Rightarrow> String_encodeBinary body]"
| "ExtensionObject_encodeBinary env jt (VDecodedEO (Some ty) (Some data)) =
     enc_seq
       [NodeId_encodeBinary (binaryEncodingId (ty_at env ty)),
        encodeWithExchangeBuffer (Byte_encodeBinary (eo_number EO_BYTESTRING)),
        (let len = UA_calcSizeBinary env data ty
         in if len \<le> UA_INT32_MAX
            then encodeWithExchangeBuffer (UInt32_encodeBinary (of_nat len))
            else enc_return UA_STATUSCODE_BADENCODINGERROR),
        encodeWithExchangeBuffer (jt ty data)]"
| "ExtensionObject_encodeBinary env jt (VDecodedEO _ _) =
     enc_return UA_STATUSCODE_BADENCODINGERROR"
| "ExtensionObject_encodeBinary env jt _ = enc_return STATUS_UNDEFINED"

definition Variant_encodeBinaryWrapExtensionObject ::
    "type_env \<Rightarrow> 'h enc_table \<Rightarrow> tyref \<Rightarrow> bool \<Rightarrow> ua_val list \<Rightarrow> 'h encoder" where
  "Variant_encodeBinaryWrapExtensionObject env jt ty asArray vs =
     (if asArray \<and> UA_INT32_MAX < length vs then enc_return UA_STATUSCODE_BADENCODINGERROR
      else enc_seq
        [if asArray then UInt32_encodeBinary (of_nat (length vs)) else enc_return GOOD,
         enc_seq (map (\<lambda>v. encodeWithExchangeBuffer
           (ExtensionObject_encodeBinary env jt (VDecodedEO (Some ty) (Some v)))) vs)])"

definition is_builtin_kind :: "UA_DataTypeKind \<Rightarrow> bool" where
  "is_builtin_kind k = (kind_number k \<le> kind_number DK_DIAGNOSTICINFO)"

definition variant_type_bits :: "UA_DataTypeKind \<Rightarrow> u8" where
  "variant_type_bits k =
     0x3F AND
     (if is_builtin_kind k then of_nat (kind_number k + 1)
      else if k = DK_ENUM then of_nat (UA_TYPES_INT32 + 1)
      else of_nat (UA_TYPES_EXTENSIONOBJECT + 1))"

fun Variant_encodeBinary :: "type_env \<Rightarrow> 'h enc_table \<Rightarrow> ua_val \<Rightarrow> 'h encoder" where
  "Variant_encodeBinary env jt VVariantEmpty = Byte_encodeBinary 0"
| "Variant_encodeBinary env jt (VVariantScalar ty v) =
     (let k = kind_at env ty
      in enc_seq
        [Byte_encodeBinary (variant_type_bits k),
         if \<not> is_builtin_kind k \<and> k \<noteq> DK_ENUM
         then Variant_encodeBinaryWrapExtensionObject env jt ty False [v]
         else encodeWithExchangeBuffer (jt ty v)])"
| "Variant_encodeBinary env jt (VVariantArray ty a dims) =
     (let k = kind_at env ty; hasDimensions = (dims \<noteq> [])
      in enc_seq
        [Byte_encodeBinary (variant_type_bits k OR 0x80 OR (if hasDimensions then 0x40 else 0)),
         if \<not> is_builtin_kind k \<and> k \<noteq> DK_ENUM
         then Variant_encodeBinaryWrapExtensionObject env jt ty True (array_elems a)
         else Array_encodeBinary env jt ty a,
         if hasDimensions
         then Array_encodeBinary_with (Some dims)
                (\<lambda>ds. Array_encodeBinaryOverlayable (concat (map UA_encode32 ds)))
         else enc_return GOOD])"
| "Variant_encodeBinary env jt _ = enc_return STATUS_UNDEFINED"

definition flag :: "'a option \<Rightarrow> u8 \<Rightarrow> u8" where
  "flag x m = (if x \<noteq> None then m else 0)"

definition enc_opt :: "'a option \<Rightarrow> ('a \<Rightarrow> 'h encoder) \<Rightarrow> 'h encoder" where
  "enc_opt x enc = (case x of None \<Rightarrow> enc_return GOOD | Some y \<Rightarrow> enc y)"

definition DataValue_encodingMask ::
    "'a option \<Rightarrow> 'b option \<Rightarrow> 'c option \<Rightarrow> 'd option \<Rightarrow> 'e option \<Rightarrow> 'f option \<Rightarrow> u8" where
  "DataValue_encodingMask value status sts sps vts vps =
     flag value 0x01 OR flag status 0x02 OR flag sts 0x04 OR flag vts 0x08 OR
     flag sps 0x10 OR flag vps 0x20"

fun DataValue_encodeBinary :: "type_env \<Rightarrow> 'h enc_table \<Rightarrow> ua_val \<Rightarrow> 'h encoder" where
  "DataValue_encodeBinary env jt (VDataValue value status sts sps vts vps) =
     enc_seq
       [Byte_encodeBinary (DataValue_encodingMask value status sts sps vts vps),
        enc_opt value (Variant_encodeBinary env jt),
        enc_ors
          [enc_opt status (\<lambda>x. encodeWithExchangeBuffer (UInt32_encodeBinary x)),
           enc_opt sts (\<lambda>x. encodeWithExchangeBuffer (UInt64_encodeBinary x)),
           enc_opt sps (\<lambda>x. encodeWithExchangeBuffer (UInt16_encodeBinary x)),
           enc_opt vts (\<lambda>x. encodeWithExchangeBuffer (UInt64_encodeBinary x)),
           enc_opt vps (\<lambda>x. encodeWithExchangeBuffer (UInt16_encodeBinary x))]]"
| "DataValue_encodeBinary env jt _ = enc_return STATUS_UNDEFINED"

definition DiagnosticInfo_encodingMask ::
    "'a option \<Rightarrow> 'b option \<Rightarrow> 'c option \<Rightarrow> 'd option \<Rightarrow> 'e option \<Rightarrow> 'f option \<Rightarrow> 'g option \<Rightarrow> u8" where
  "DiagnosticInfo_encodingMask symid ns lt loc add st inner =
     flag symid 0x01 OR flag ns 0x02 OR flag lt 0x04 OR flag loc 0x08 OR
     flag add 0x10 OR flag st 0x20 OR flag inner 0x40"

text \<open>
  The inner diagnostic info is encoded by \<^verbatim>\<open>encodeWithExchangeBuffer\<close> with the type
  \<^verbatim>\<open>UA_TYPES[UA_TYPES_DIAGNOSTICINFO]\<close>, that is by the jump table.
\<close>

fun DiagnosticInfo_encodeBinary :: "type_env \<Rightarrow> 'h enc_table \<Rightarrow> ua_val \<Rightarrow> 'h encoder" where
  "DiagnosticInfo_encodeBinary env jt (VDiagnosticInfo symid ns lt loc add st inner) =
     enc_seq
       [enc_ors
          [Byte_encodeBinary (DiagnosticInfo_encodingMask symid ns lt loc add st inner),
           enc_opt symid UInt32_encodeBinary, enc_opt ns UInt32_encodeBinary,
           enc_opt lt UInt32_encodeBinary, enc_opt loc UInt32_encodeBinary],
        enc_opt add String_encodeBinary,
        enc_opt st (\<lambda>x. encodeWithExchangeBuffer (UInt32_encodeBinary x)),
        enc_opt inner (\<lambda>x. encodeWithExchangeBuffer (jt UA_TYPES_DIAGNOSTICINFO x))]"
| "DiagnosticInfo_encodeBinary env jt _ = enc_return STATUS_UNDEFINED"

section \<open>Structured types\<close>

definition enc_nested :: "'h encoder \<Rightarrow> 'h encoder" where
  "enc_nested body c =
     (if UA_ENCODING_MAX_RECURSION < enc_depth c then (UA_STATUSCODE_BADENCODINGERROR, c)
      else (let (ret, c1) = body (c\<lparr>enc_depth := enc_depth c + 1\<rparr>)
            in (ret, c1\<lparr>enc_depth := enc_depth c1 - 1\<rparr>)))"

fun encode_member :: "type_env \<Rightarrow> 'h enc_table \<Rightarrow> UA_DataTypeMember \<Rightarrow> ua_field \<Rightarrow> 'h encoder" where
  "encode_member env jt m (FArray a) =
     (if isArray m then Array_encodeBinary env jt (memberType m) a else enc_return STATUS_UNDEFINED)"
| "encode_member env jt m (FScalar v) =
     (if isArray m then enc_return STATUS_UNDEFINED
      else encodeWithExchangeBuffer (jt (memberType m) v))"
| "encode_member env jt m _ = enc_return STATUS_UNDEFINED"

fun encode_members ::
    "type_env \<Rightarrow> 'h enc_table \<Rightarrow> UA_DataTypeMember list \<Rightarrow> ua_field list \<Rightarrow> 'h encoder list" where
  "encode_members env jt [] [] = []"
| "encode_members env jt (m # ms) (f # fs) = encode_member env jt m f # encode_members env jt ms fs"
| "encode_members env jt _ _ = [enc_return STATUS_UNDEFINED]"

fun encodeBinaryStruct :: "type_env \<Rightarrow> 'h enc_table \<Rightarrow> tyref \<Rightarrow> ua_val \<Rightarrow> 'h encoder" where
  "encodeBinaryStruct env jt ty (VStruct fs) =
     enc_nested (enc_seq (encode_members env jt (members (ty_at env ty)) fs))"
| "encodeBinaryStruct env jt ty _ = enc_return STATUS_UNDEFINED"

fun opt_present :: "ua_field \<Rightarrow> bool" where
  "opt_present (FOptScalar v) = (v \<noteq> None)"
| "opt_present (FOptArray a) = (a \<noteq> None)"
| "opt_present _ = False"

text \<open>
  A shift by the width of the mask or more is undefined in C, so a structure has at most 32 optional
  fields.
\<close>

text \<open>The first loop of \<open>encodeBinaryStructWithOptFields\<close>: \<open>o\<close> is \<^verbatim>\<open>optFieldCounter\<close>.\<close>

fun opt_encodingMask :: "nat \<Rightarrow> UA_DataTypeMember list \<Rightarrow> ua_field list \<Rightarrow> u32" where
  "opt_encodingMask o' (m # ms) (f # fs) =
     (if isOptional m
      then (if opt_present f then push_bit o' 1 else 0) OR opt_encodingMask (Suc o') ms fs
      else opt_encodingMask o' ms fs)"
| "opt_encodingMask o' _ _ = 0"

fun encode_opt_members ::
    "type_env \<Rightarrow> 'h enc_table \<Rightarrow> u32 \<Rightarrow> nat \<Rightarrow> UA_DataTypeMember list \<Rightarrow> ua_field list \<Rightarrow>
     'h encoder list" where
  "encode_opt_members env jt emask o' [] [] = []"
| "encode_opt_members env jt emask o' (m # ms) (f # fs) =
     (if isOptional m then
        (if 32 \<le> o' then enc_return STATUS_UNDEFINED
         else if emask AND push_bit o' 1 = 0 then enc_return GOOD
         else (case f of
                 FOptArray (Some xs) \<Rightarrow>
                   if isArray m then Array_encodeBinary env jt (memberType m) (Some xs)
                   else enc_return STATUS_UNDEFINED
               | FOptScalar (Some v) \<Rightarrow>
                   if isArray m then enc_return STATUS_UNDEFINED
                   else encodeWithExchangeBuffer (jt (memberType m) v)
               | _ \<Rightarrow> enc_return STATUS_UNDEFINED))
        # encode_opt_members env jt emask (Suc o') ms fs
      else encode_member env jt m f # encode_opt_members env jt emask o' ms fs)"
| "encode_opt_members env jt emask o' _ _ = [enc_return STATUS_UNDEFINED]"

fun encodeBinaryStructWithOptFields ::
    "type_env \<Rightarrow> 'h enc_table \<Rightarrow> tyref \<Rightarrow> ua_val \<Rightarrow> 'h encoder" where
  "encodeBinaryStructWithOptFields env jt ty (VStruct fs) =
     (let ms = members (ty_at env ty); emask = opt_encodingMask 0 ms fs
      in enc_nested
           (enc_seq (UInt32_encodeBinary emask # encode_opt_members env jt emask 0 ms fs)))"
| "encodeBinaryStructWithOptFields env jt ty _ = enc_return STATUS_UNDEFINED"

fun encodeBinaryUnion :: "type_env \<Rightarrow> 'h enc_table \<Rightarrow> tyref \<Rightarrow> ua_val \<Rightarrow> 'h encoder" where
  "encodeBinaryUnion env jt ty (VUnion selection f) =
     (let ms = members (ty_at env ty)
      in enc_nested (enc_seq
           [UInt32_encodeBinary selection,
            if selection = 0 then enc_return GOOD
            else if unat (selection - 1) < length ms
            then encode_member env jt (ms ! unat (selection - 1)) f
            else enc_return STATUS_UNDEFINED]))"
| "encodeBinaryUnion env jt ty _ = enc_return STATUS_UNDEFINED"

section \<open>The jump table and the entry points\<close>

definition enc_dispatch :: "type_env \<Rightarrow> 'h enc_table \<Rightarrow> 'h enc_table" where
  "enc_dispatch env jt ty v =
     (case kind_at env ty of
        DK_BOOLEAN \<Rightarrow> (case v of VU8 b \<Rightarrow> Boolean_encodeBinary b | _ \<Rightarrow> enc_return STATUS_UNDEFINED)
      | DK_SBYTE \<Rightarrow> (case v of VU8 b \<Rightarrow> Byte_encodeBinary b | _ \<Rightarrow> enc_return STATUS_UNDEFINED)
      | DK_BYTE \<Rightarrow> (case v of VU8 b \<Rightarrow> Byte_encodeBinary b | _ \<Rightarrow> enc_return STATUS_UNDEFINED)
      | DK_INT16 \<Rightarrow> (case v of VU16 w \<Rightarrow> UInt16_encodeBinary w | _ \<Rightarrow> enc_return STATUS_UNDEFINED)
      | DK_UINT16 \<Rightarrow> (case v of VU16 w \<Rightarrow> UInt16_encodeBinary w | _ \<Rightarrow> enc_return STATUS_UNDEFINED)
      | DK_INT32 \<Rightarrow> (case v of VU32 w \<Rightarrow> UInt32_encodeBinary w | _ \<Rightarrow> enc_return STATUS_UNDEFINED)
      | DK_UINT32 \<Rightarrow> (case v of VU32 w \<Rightarrow> UInt32_encodeBinary w | _ \<Rightarrow> enc_return STATUS_UNDEFINED)
      | DK_INT64 \<Rightarrow> (case v of VU64 w \<Rightarrow> UInt64_encodeBinary w | _ \<Rightarrow> enc_return STATUS_UNDEFINED)
      | DK_UINT64 \<Rightarrow> (case v of VU64 w \<Rightarrow> UInt64_encodeBinary w | _ \<Rightarrow> enc_return STATUS_UNDEFINED)
      | DK_FLOAT \<Rightarrow> (case v of VU32 w \<Rightarrow> UInt32_encodeBinary w | _ \<Rightarrow> enc_return STATUS_UNDEFINED)
      | DK_DOUBLE \<Rightarrow> (case v of VU64 w \<Rightarrow> UInt64_encodeBinary w | _ \<Rightarrow> enc_return STATUS_UNDEFINED)
      | DK_STRING \<Rightarrow> (case v of VString s \<Rightarrow> String_encodeBinary s | _ \<Rightarrow> enc_return STATUS_UNDEFINED)
      | DK_DATETIME \<Rightarrow> (case v of VU64 w \<Rightarrow> UInt64_encodeBinary w | _ \<Rightarrow> enc_return STATUS_UNDEFINED)
      | DK_GUID \<Rightarrow> (case v of VGuid g \<Rightarrow> Guid_encodeBinary g | _ \<Rightarrow> enc_return STATUS_UNDEFINED)
      | DK_BYTESTRING \<Rightarrow> (case v of VString s \<Rightarrow> String_encodeBinary s | _ \<Rightarrow> enc_return STATUS_UNDEFINED)
      | DK_XMLELEMENT \<Rightarrow> (case v of VString s \<Rightarrow> String_encodeBinary s | _ \<Rightarrow> enc_return STATUS_UNDEFINED)
      | DK_NODEID \<Rightarrow> (case v of VNodeId i \<Rightarrow> NodeId_encodeBinary i | _ \<Rightarrow> enc_return STATUS_UNDEFINED)
      | DK_EXPANDEDNODEID \<Rightarrow>
          (case v of VExpandedNodeId i \<Rightarrow> ExpandedNodeId_encodeBinary i | _ \<Rightarrow> enc_return STATUS_UNDEFINED)
      | DK_STATUSCODE \<Rightarrow> (case v of VU32 w \<Rightarrow> UInt32_encodeBinary w | _ \<Rightarrow> enc_return STATUS_UNDEFINED)
      | DK_QUALIFIEDNAME \<Rightarrow>
          (case v of VQualifiedName ns s \<Rightarrow> QualifiedName_encodeBinary ns s | _ \<Rightarrow> enc_return STATUS_UNDEFINED)
      | DK_LOCALIZEDTEXT \<Rightarrow>
          (case v of VLocalizedText l t \<Rightarrow> LocalizedText_encodeBinary l t | _ \<Rightarrow> enc_return STATUS_UNDEFINED)
      | DK_EXTENSIONOBJECT \<Rightarrow> ExtensionObject_encodeBinary env jt v
      | DK_DATAVALUE \<Rightarrow> DataValue_encodeBinary env jt v
      | DK_VARIANT \<Rightarrow> Variant_encodeBinary env jt v
      | DK_DIAGNOSTICINFO \<Rightarrow> DiagnosticInfo_encodeBinary env jt v
      | DK_DECIMAL \<Rightarrow> enc_return UA_STATUSCODE_BADNOTIMPLEMENTED
      | DK_ENUM \<Rightarrow> (case v of VU32 w \<Rightarrow> UInt32_encodeBinary w | _ \<Rightarrow> enc_return STATUS_UNDEFINED)
      | DK_STRUCTURE \<Rightarrow> encodeBinaryStruct env jt ty v
      | DK_OPTSTRUCT \<Rightarrow> encodeBinaryStructWithOptFields env jt ty v
      | DK_UNION \<Rightarrow> encodeBinaryUnion env jt ty v
      | DK_BITFIELDCLUSTER \<Rightarrow> encodeBinaryStruct env jt ty v)"

primrec encodeBinaryJumpTable :: "type_env \<Rightarrow> nat \<Rightarrow> 'h enc_table" where
  "encodeBinaryJumpTable env 0 ty v = enc_return STATUS_UNDEFINED"
| "encodeBinaryJumpTable env (Suc n) ty v = enc_dispatch env (encodeBinaryJumpTable env n) ty v"

text \<open>
  The arguments \<^verbatim>\<open>bufPos\<close>, \<^verbatim>\<open>bufEnd\<close> are the bytes already in the buffer and the room left in it.
\<close>

definition UA_encodeBinaryInternal ::
    "type_env \<Rightarrow> ua_val \<Rightarrow> tyref \<Rightarrow> u8 list \<Rightarrow> nat \<Rightarrow> 'h exchange option \<Rightarrow> 'h \<Rightarrow>
     status \<times> 'h enc_ctx" where
  "UA_encodeBinaryInternal env src ty bufPos room exchangeCallback exchangeHandle =
     encodeWithExchangeBuffer (encodeBinaryJumpTable env (Suc (size src)) ty src)
       \<lparr>enc_out = bufPos, enc_room = room, enc_depth = 0, enc_cb = exchangeCallback,
        enc_handle = exchangeHandle\<rparr>"

text \<open>
  \<open>outLen\<close> is \<^verbatim>\<open>outBuf->length\<close> on entry. A buffer of length 0 is allocated with the computed size;
  \<open>mem_ok\<close> is the outcome of that allocation. The result is the status code, \<^verbatim>\<open>outBuf->length\<close> on
  return, and the bytes that the encoder has left in front of its position: on success they are the
  content of the buffer; a failure clears a buffer that was allocated here, but leaves a buffer of
  the caller with its length and with the bytes written so far at its front.
\<close>

definition UA_encodeBinary ::
    "type_env \<Rightarrow> (nat \<Rightarrow> bool) \<Rightarrow> ua_val \<Rightarrow> tyref \<Rightarrow> nat \<Rightarrow> status \<times> nat \<times> u8 list" where
  "UA_encodeBinary env mem_ok p ty outLen =
     (let allocated = (outLen = 0);
          len = (if allocated then UA_calcSizeBinary env p ty else outLen)
      in if allocated \<and> \<not> mem_ok len then (UA_STATUSCODE_BADOUTOFMEMORY, 0, [])
         else (let (res, c) = UA_encodeBinaryInternal env p ty [] len None ()
               in if res = GOOD then (res, length (enc_out c), enc_out c)
                  else if allocated then (res, 0, [])
                  else (res, len, enc_out c)))"

end
