(* ===== verification/Binary_Wire.thy ===== *)
theory Binary_Wire
  imports Binary_Encode
begin

text \<open>
  The specification of the encoder: \<open>wire\<close> is the byte sequence of a value by structural recursion,
  without buffers, room, chunks or errors. The lemmas show that the encoder refines it: whenever it
  returns \<open>GOOD\<close>, the bytes it has sent through the exchange callback followed by the bytes in
  the current buffer are extended by exactly \<open>wire\<close>, wherever the buffer boundaries fell. The
  contract of the exchange callback is the locale \<open>exchange_buffer\<close>.
\<close>

section \<open>The wire format\<close>

definition wire_string :: "UA_String \<Rightarrow> u8 list" where
  "wire_string s = UA_encode32 (array_signed_length s) @ array_elems s"

definition wire_nodeid :: "u8 \<Rightarrow> UA_NodeId \<Rightarrow> u8 list" where
  "wire_nodeid emask i =
     (let ns = namespaceIndex i in
      case nid i of
        NumericId n \<Rightarrow>
          if 0xFFFF < n \<or> 0xFF < ns then [emask OR 2] @ UA_encode16 ns @ UA_encode32 n
          else if 0xFF < n \<or> 0 < ns then [emask OR 1, ucast ns] @ UA_encode16 (ucast n)
          else [emask, ucast n]
      | StringId s \<Rightarrow> [emask OR 3] @ UA_encode16 ns @ wire_string s
      | GuidId g \<Rightarrow> [emask OR 4] @ UA_encode16 ns @ guid_bytes g
      | ByteStringId s \<Rightarrow> [emask OR 5] @ UA_encode16 ns @ wire_string s)"

definition wire_expanded_nodeid :: "UA_ExpandedNodeId \<Rightarrow> u8 list" where
  "wire_expanded_nodeid i =
     wire_nodeid ((if above_sentinel (namespaceUri i) then 0x80 else 0) OR
                  (if 0 < serverIndex i then 0x40 else 0)) (nodeId i) @
     (if above_sentinel (namespaceUri i) then wire_string (namespaceUri i) else []) @
     (if 0 < serverIndex i then UA_encode32 (serverIndex i) else [])"

definition wire_localized :: "UA_String \<Rightarrow> UA_String \<Rightarrow> u8 list" where
  "wire_localized l t =
     [(if l \<noteq> None then 1 else 0) OR (if t \<noteq> None then 2 else 0)] @
     (if l \<noteq> None then wire_string l else []) @ (if t \<noteq> None then wire_string t else [])"

definition wire_opt :: "('a \<Rightarrow> u8 list) \<Rightarrow> 'a option \<Rightarrow> u8 list" where
  "wire_opt f x = (case x of None \<Rightarrow> [] | Some y \<Rightarrow> f y)"

definition needs_wrap :: "type_env \<Rightarrow> tyref \<Rightarrow> bool" where
  "needs_wrap env ty = (\<not> is_builtin_kind (kind_at env ty) \<and> kind_at env ty \<noteq> DK_ENUM)"

definition wrap_header :: "type_env \<Rightarrow> tyref \<Rightarrow> ua_val \<Rightarrow> u8 list" where
  "wrap_header env ty v =
     wire_nodeid 0 (binaryEncodingId (ty_at env ty)) @ [1] @
     UA_encode32 (of_nat (UA_calcSizeBinary env v ty))"

fun wire :: "type_env \<Rightarrow> tyref \<Rightarrow> ua_val \<Rightarrow> u8 list"
and wire_field :: "type_env \<Rightarrow> tyref \<Rightarrow> ua_field \<Rightarrow> u8 list"
and wire_fields :: "type_env \<Rightarrow> bool \<Rightarrow> UA_DataTypeMember list \<Rightarrow> ua_field list \<Rightarrow> u8 list" where
  "wire env ty (VU8 b) = [b]"
| "wire env ty (VU16 w) = UA_encode16 w"
| "wire env ty (VU32 w) = UA_encode32 w"
| "wire env ty (VU64 w) = UA_encode64 w"
| "wire env ty (VString s) = wire_string s"
| "wire env ty (VGuid g) = guid_bytes g"
| "wire env ty (VNodeId i) = wire_nodeid 0 i"
| "wire env ty (VExpandedNodeId i) = wire_expanded_nodeid i"
| "wire env ty (VQualifiedName ns s) = UA_encode16 ns @ wire_string s"
| "wire env ty (VLocalizedText l t) = wire_localized l t"
| "wire env ty (VEncodedEO e tid body) =
     wire_nodeid 0 tid @ [eo_number e] @ (if e = EO_NOBODY then [] else wire_string body)"
| "wire env ty (VDecodedEO (Some t) (Some v)) = wrap_header env t v @ wire env t v"
| "wire env ty (VDecodedEO _ _) = []"
| "wire env ty VVariantEmpty = [0]"
| "wire env ty (VVariantScalar t v) =
     [variant_type_bits (kind_at env t)] @
     (if needs_wrap env t then wrap_header env t v else []) @ wire env t v"
| "wire env ty (VVariantArray t a dims) =
     [variant_type_bits (kind_at env t) OR 0x80 OR (if dims \<noteq> [] then 0x40 else 0)] @
     (if needs_wrap env t
      then UA_encode32 (of_nat (array_length a)) @
           (case a of None \<Rightarrow> [] | Some vs \<Rightarrow> concat (map (\<lambda>v. wrap_header env t v @ wire env t v) vs))
      else wire_field env t (FArray a)) @
     (if dims \<noteq> [] then UA_encode32 (of_nat (length dims)) @ concat (map UA_encode32 dims) else [])"
| "wire env ty (VDataValue value st sts sps vts vps) =
     [DataValue_encodingMask value st sts sps vts vps] @
     (case value of None \<Rightarrow> [] | Some v \<Rightarrow> wire env UA_TYPES_VARIANT v) @
     wire_opt UA_encode32 st @ wire_opt UA_encode64 sts @ wire_opt UA_encode16 sps @
     wire_opt UA_encode64 vts @ wire_opt UA_encode16 vps"
| "wire env ty (VDiagnosticInfo symid ns lt loc add st inner) =
     [DiagnosticInfo_encodingMask symid ns lt loc add st inner] @
     wire_opt UA_encode32 symid @ wire_opt UA_encode32 ns @ wire_opt UA_encode32 lt @
     wire_opt UA_encode32 loc @ wire_opt wire_string add @ wire_opt UA_encode32 st @
     (case inner of None \<Rightarrow> [] | Some d \<Rightarrow> wire env UA_TYPES_DIAGNOSTICINFO d)"
| "wire env ty (VStruct fs) =
     (if kind_at env ty = DK_OPTSTRUCT
      then UA_encode32 (opt_encodingMask 0 (members (ty_at env ty)) fs) else []) @
     wire_fields env (kind_at env ty = DK_OPTSTRUCT) (members (ty_at env ty)) fs"
| "wire env ty (VUnion sel f) =
     UA_encode32 sel @
     (if sel = 0 then [] else wire_field env (memberType (members (ty_at env ty) ! unat (sel - 1))) f)"
| "wire_field env t (FScalar v) = wire env t v"
| "wire_field env t (FArray None) = UA_encode32 (- 1)"
| "wire_field env t (FArray (Some vs)) =
     UA_encode32 (of_nat (length vs)) @
     (if overlayable (ty_at env t) then concat (map overlay_bytes vs)
      else concat (map (wire env t) vs))"
| "wire_field env t (FOptScalar None) = []"
| "wire_field env t (FOptScalar (Some v)) = wire env t v"
| "wire_field env t (FOptArray None) = []"
| "wire_field env t (FOptArray (Some vs)) =
     UA_encode32 (of_nat (length vs)) @
     (if overlayable (ty_at env t) then concat (map overlay_bytes vs)
      else concat (map (wire env t) vs))"
| "wire_fields env opt (m # ms) (f # fs) =
     (if opt \<and> isOptional m \<and> \<not> opt_present f then [] else wire_field env (memberType m) f) @
     wire_fields env opt ms fs"
| "wire_fields env opt _ _ = []"

section \<open>Refinement\<close>

text \<open>
  \<open>hard\<close> status codes have a bit that \<open>BADENCODINGLIMITSEXCEEDED\<close> does not have: joined bitwise
  with anything they stay different from \<open>GOOD\<close> and from \<open>LIMITS\<close>.
\<close>

definition hard :: "status \<Rightarrow> bool" where
  "hard r = (r AND NOT LIMITS \<noteq> 0)"

lemma hard_or1 [intro]: "hard a \<Longrightarrow> hard (a OR b)"
  by (simp add: hard_def bit.conj_disj_distrib2 word_or_zero_iff)

lemma hard_or2 [intro]: "hard b \<Longrightarrow> hard (a OR b)"
  by (simp add: hard_def bit.conj_disj_distrib2 word_or_zero_iff)

lemma hard_codes [simp]:
  "\<not> hard GOOD" "\<not> hard LIMITS"
  "hard UA_STATUSCODE_BADINTERNALERROR" "hard UA_STATUSCODE_BADENCODINGERROR"
  "hard UA_STATUSCODE_BADNOTIMPLEMENTED" "hard STATUS_UNDEFINED"
  "hard UA_STATUSCODE_BADRESPONSETOOLARGE"
  by (simp_all add: hard_def status_defs)

lemma hard_neq: "hard r \<Longrightarrow> r \<noteq> GOOD \<and> r \<noteq> LIMITS"
  by auto

text \<open>
  The largest run of bytes that is written without a chance to exchange the buffer: a node id with
  a guid.
\<close>

definition UNSPLIT_MAX :: nat where
  "UNSPLIT_MAX = 19"

text \<open>What has been emitted: the bytes behind the handle (\<open>sent\<close>), then the current buffer.\<close>

definition total :: "('h \<Rightarrow> u8 list) \<Rightarrow> 'h enc_ctx \<Rightarrow> u8 list" where
  "total sent c = sent (enc_handle c) @ enc_out c"

text \<open>
  A context is \<open>live\<close> when it has the callback and the handle invariant \<open>hinv\<close> holds for its handle
  and the capacity of its buffer (\<^verbatim>\<open>end\<close> minus the beginning of the buffer in the code).
\<close>

definition live ::
    "'h exchange option \<Rightarrow> ('h \<Rightarrow> nat \<Rightarrow> bool) \<Rightarrow> 'h enc_ctx \<Rightarrow> bool" where
  "live cbo hinv c =
     (enc_cb c = cbo \<and> hinv (enc_handle c) (length (enc_out c) + enc_room c))"

text \<open>
  \<open>emits cbo sent hinv k f bs\<close>: on success \<open>f\<close> emits \<open>bs\<close>; it returns \<open>LIMITS\<close> only if fewer than
  \<open>k\<close> bytes were left, and then it has not exchanged the buffer; every other result is hard.
\<close>

definition outcome ::
    "'h exchange option \<Rightarrow> ('h \<Rightarrow> u8 list) \<Rightarrow> ('h \<Rightarrow> nat \<Rightarrow> bool) \<Rightarrow> nat \<Rightarrow> u8 list \<Rightarrow>
     'h enc_ctx \<Rightarrow> status \<Rightarrow> 'h enc_ctx \<Rightarrow> bool" where
  "outcome cbo sent hinv k bs c r c' =
     (r = GOOD \<and> live cbo hinv c' \<and> enc_depth c' = enc_depth c \<and>
        total sent c' = total sent c @ bs \<or>
      r = LIMITS \<and> enc_cb c' = cbo \<and> enc_depth c' = enc_depth c \<and>
        enc_handle c' = enc_handle c \<and> enc_room c < k \<or>
      hard r)"

definition emits ::
    "'h exchange option \<Rightarrow> ('h \<Rightarrow> u8 list) \<Rightarrow> ('h \<Rightarrow> nat \<Rightarrow> bool) \<Rightarrow> nat \<Rightarrow>
     'h encoder \<Rightarrow> u8 list \<Rightarrow> bool" where
  "emits cbo sent hinv k f bs =
     (\<forall>c r c'. live cbo hinv c \<longrightarrow> f c = (r, c') \<longrightarrow> outcome cbo sent hinv k bs c r c')"

text \<open>\<open>atomic k f bs\<close>: \<open>f\<close> writes \<open>bs\<close> or returns \<open>LIMITS\<close>, within one buffer.\<close>

definition atomic :: "nat \<Rightarrow> 'h encoder \<Rightarrow> u8 list \<Rightarrow> bool" where
  "atomic k f bs =
     (\<forall>c r c'. f c = (r, c') \<longrightarrow>
        enc_cb c' = enc_cb c \<and> enc_depth c' = enc_depth c \<and> enc_handle c' = enc_handle c \<and>
        (r = GOOD \<and> enc_out c' = enc_out c @ bs \<and> enc_room c = enc_room c' + length bs \<and> length bs \<le> k \<or>
         r = LIMITS \<and> enc_room c < k))"

lemma atomic_put: "length bs \<le> k \<Longrightarrow> atomic k (enc_put bs) bs"
  by (auto simp: atomic_def enc_put_def)

lemma atomic_return: "atomic 0 (enc_return GOOD) []"
  by (auto simp: atomic_def enc_return_def)

lemma atomic_ors_Nil: "atomic 0 (enc_ors []) []"
  by (auto simp: atomic_def)

lemma atomic_ors_Cons:
  assumes "atomic k f b" and "atomic l (enc_ors fs) bs"
  shows "atomic (k + l) (enc_ors (f # fs)) (b @ bs)"
  unfolding atomic_def
proof (intro allI impI)
  fix c r c' assume eq: "enc_ors (f # fs) c = (r, c')"
  obtain r1 c1 where 1: "f c = (r1, c1)" by fastforce
  obtain r2 where 2: "enc_ors fs c1 = (r2, c')" and r: "r = r1 OR r2"
    using eq 1 by (auto split: prod.splits)
  note a = assms(1)[unfolded atomic_def, rule_format, OF 1]
  note b = assms(2)[unfolded atomic_def, rule_format, OF 2]
  show "enc_cb c' = enc_cb c \<and> enc_depth c' = enc_depth c \<and> enc_handle c' = enc_handle c \<and>
    (r = GOOD \<and> enc_out c' = enc_out c @ b @ bs \<and> enc_room c = enc_room c' + length (b @ bs) \<and>
       length (b @ bs) \<le> k + l \<or>
     r = LIMITS \<and> enc_room c < k + l)"
    using a b r by auto
qed

lemma emits_mono: "emits cbo sent hinv k f bs \<Longrightarrow> k \<le> l \<Longrightarrow> emits cbo sent hinv l f bs"
  unfolding emits_def outcome_def by fastforce

lemma emitsD:
  "emits cbo sent hinv k f bs \<Longrightarrow> live cbo hinv c \<Longrightarrow> f c = (r, c') \<Longrightarrow>
   outcome cbo sent hinv k bs c r c'"
  by (simp add: emits_def)

lemma outcome_live: "outcome cbo sent hinv k bs c GOOD c' \<Longrightarrow> live cbo hinv c'"
  by (simp add: outcome_def)

lemma outcome_trans:
  "outcome cbo sent hinv k b c GOOD c1 \<Longrightarrow> outcome cbo sent hinv 0 bs c1 r c' \<Longrightarrow>
   outcome cbo sent hinv k (b @ bs) c r c'"
  by (auto simp: outcome_def)

lemma outcome_hard [intro]: "hard r \<Longrightarrow> outcome cbo sent hinv k bs c r c'"
  by (simp add: outcome_def)

lemma outcome_fail:
  "outcome cbo sent hinv k b c r c' \<Longrightarrow> r \<noteq> GOOD \<Longrightarrow> outcome cbo sent hinv k bs c r c'"
  by (auto simp: outcome_def)

lemma emits_hard: "hard r \<Longrightarrow> emits cbo sent hinv k (enc_return r) bs"
  by (auto simp: emits_def enc_return_def)

lemma emits_return: "emits cbo sent hinv 0 (enc_return GOOD) []"
  by (auto simp: emits_def outcome_def enc_return_def)

lemma emits_seq_Nil: "emits cbo sent hinv 0 (enc_seq []) []"
  by (auto simp: emits_def outcome_def)

lemma emits_seq_Cons:
  assumes "emits cbo sent hinv k f b" and "emits cbo sent hinv 0 (enc_seq fs) bs"
  shows "emits cbo sent hinv k (enc_seq (f # fs)) (b @ bs)"
  unfolding emits_def
proof (intro allI impI)
  fix c r c' assume cb: "live cbo hinv c" and eq: "enc_seq (f # fs) c = (r, c')"
  obtain r1 c1 where 1: "f c = (r1, c1)" by fastforce
  note a = emitsD [OF assms(1) cb 1]
  show "outcome cbo sent hinv k (b @ bs) c r c'"
  proof (cases "r1 = GOOD")
    case True
    then have e: "enc_seq fs c1 = (r, c')" using eq 1 by simp
    from a True have g: "outcome cbo sent hinv k b c GOOD c1" by simp
    show ?thesis by (rule outcome_trans [OF g emitsD [OF assms(2) outcome_live [OF g] e]])
  qed (use eq 1 a in \<open>auto intro: outcome_fail\<close>)
qed

lemma atomic_live:
  "atomic k f b \<Longrightarrow> live cbo hinv c \<Longrightarrow> f c = (r, c') \<Longrightarrow>
   r = GOOD \<and> live cbo hinv c' \<and> enc_depth c' = enc_depth c \<and> enc_handle c' = enc_handle c \<and>
   total sent c' = total sent c @ b \<and> enc_room c \<le> enc_room c' + k \<or>
   r = LIMITS \<and> enc_cb c' = cbo \<and> enc_depth c' = enc_depth c \<and> enc_handle c' = enc_handle c \<and>
   enc_room c < k"
  unfolding atomic_def live_def total_def
  by (drule spec, drule spec, drule spec, drule (1) mp) (auto simp: ac_simps)

lemma emits_seq_atomic:
  assumes "atomic k f b" and "emits cbo sent hinv l (enc_seq fs) bs"
  shows "emits cbo sent hinv (k + l) (enc_seq (f # fs)) (b @ bs)"
  unfolding emits_def
proof (intro allI impI)
  fix c r c' assume cb: "live cbo hinv c" and eq: "enc_seq (f # fs) c = (r, c')"
  obtain r1 c1 where 1: "f c = (r1, c1)" by fastforce
  note a = atomic_live [OF assms(1) cb 1, of sent]
  show "outcome cbo sent hinv (k + l) (b @ bs) c r c'"
  proof (cases "r1 = GOOD")
    case True
    then have e: "enc_seq fs c1 = (r, c')" using eq 1 by simp
    from a True have "live cbo hinv c1" by simp
    from emitsD [OF assms(2) this e] a True show ?thesis by (auto simp: outcome_def)
  qed (use eq 1 a in \<open>auto simp: outcome_def\<close>)
qed

lemma atomic_emits: "atomic k f bs \<Longrightarrow> emits cbo sent hinv k f bs"
  unfolding emits_def outcome_def using atomic_live by blast

lemma emits_ors_Nil: "emits cbo sent hinv 0 (enc_ors []) []"
  by (auto simp: emits_def outcome_def)

lemma emits_ors_Cons:
  assumes "emits cbo sent hinv 0 f b" and "emits cbo sent hinv 0 (enc_ors fs) bs"
  shows "emits cbo sent hinv 0 (enc_ors (f # fs)) (b @ bs)"
  unfolding emits_def
proof (intro allI impI)
  fix c r c' assume cb: "live cbo hinv c" and eq: "enc_ors (f # fs) c = (r, c')"
  obtain r1 c1 where 1: "f c = (r1, c1)" by fastforce
  obtain r2 where 2: "enc_ors fs c1 = (r2, c')" and r: "r = r1 OR r2"
    using eq 1 by (auto split: prod.splits)
  from emitsD [OF assms(1) cb 1]
  consider "r1 = GOOD" "outcome cbo sent hinv 0 b c GOOD c1" | "hard r1"
    by (auto simp: outcome_def)
  then show "outcome cbo sent hinv 0 (b @ bs) c r c'"
  proof cases
    case 1
    then show ?thesis
      using outcome_trans [OF 1(2) emitsD [OF assms(2) outcome_live [OF 1(2)] 2]] r by simp
  qed (use r in auto)
qed

section \<open>The contract of the exchange callback\<close>

text \<open>
  When the callback succeeds, what it was given is behind the handle, the handle invariant holds
  for the fresh buffer, and that buffer has room for every run of bytes that cannot be split; its
  failures are hard status codes. The encoder only calls it when the buffer is full but for such a
  run. \<open>sent\<close> says where the bytes went; \<open>hinv\<close> is what the callback keeps of its handle and of the
  capacity of the buffer.
\<close>

locale exchange_buffer =
  fixes cbo :: "'h exchange option" and sent :: "'h \<Rightarrow> u8 list"
    and hinv :: "'h \<Rightarrow> nat \<Rightarrow> bool"
  assumes cb_good: "cbo = Some cb \<Longrightarrow> hinv h cap \<Longrightarrow> length out \<le> cap \<Longrightarrow>
      cap < length out + UNSPLIT_MAX \<Longrightarrow> cb h out = (GOOD, h', room) \<Longrightarrow>
      sent h' = sent h @ out \<and> hinv h' room \<and> UNSPLIT_MAX \<le> room"
    and cb_bad: "cbo = Some cb \<Longrightarrow> hinv h cap \<Longrightarrow> length out \<le> cap \<Longrightarrow>
      cap < length out + UNSPLIT_MAX \<Longrightarrow> cb h out = (r, h', room) \<Longrightarrow> r = GOOD \<or> hard r"
begin

lemma exchange_step:
  assumes "live cbo hinv c" and full: "enc_room c < UNSPLIT_MAX"
    and eq: "exchangeBuffer c = (r, c')"
  shows "r = GOOD \<and> live cbo hinv c' \<and> enc_depth c' = enc_depth c \<and>
    total sent c' = total sent c \<and> UNSPLIT_MAX \<le> enc_room c' \<or> hard r"
proof (cases cbo)
  case None
  then show ?thesis using assms by (auto simp: exchangeBuffer_def live_def)
next
  case (Some cb)
  have i: "enc_cb c = Some cb" "hinv (enc_handle c) (length (enc_out c) + enc_room c)"
    using assms(1) Some by (auto simp: live_def)
  have f: "length (enc_out c) + enc_room c < length (enc_out c) + UNSPLIT_MAX" using full by simp
  obtain r1 h room where e: "cb (enc_handle c) (enc_out c) = (r1, h, room)"
    by (cases "cb (enc_handle c) (enc_out c)")
  show ?thesis
  proof (cases "r1 = GOOD")
    case True
    then show ?thesis
      using eq i e Some cb_good [OF Some i(2) le_add1 f, of h room]
      by (auto simp: exchangeBuffer_def live_def total_def)
  next
    case False
    then show ?thesis
      using eq i e cb_bad [OF Some i(2) le_add1 f e] by (auto simp: exchangeBuffer_def)
  qed
qed

lemma withExchange_emits:
  assumes f: "emits cbo sent hinv k f bs" and "k \<le> UNSPLIT_MAX"
  shows "emits cbo sent hinv 0 (encodeWithExchangeBuffer f) bs"
  unfolding emits_def
proof (intro allI impI)
  fix c r c' assume cb: "live cbo hinv c" and eq: "encodeWithExchangeBuffer f c = (r, c')"
  obtain r1 c1 where 1: "f c = (r1, c1)" by fastforce
  note a = emitsD [OF f cb 1]
  show "outcome cbo sent hinv 0 bs c r c'"
  proof (cases "r1 = LIMITS")
    case False
    then show ?thesis using eq 1 a by (auto simp: encodeWithExchangeBuffer_def outcome_def)
  next
    case lim: True
    define d where "d = c1\<lparr>enc_out := enc_out c, enc_room := enc_room c\<rparr>"
    have d: "live cbo hinv d" "enc_room d < UNSPLIT_MAX" "total sent d = total sent c"
        "enc_depth d = enc_depth c"
      using a lim cb assms(2) by (auto simp: d_def total_def outcome_def live_def)
    obtain r2 c2 where 2: "exchangeBuffer d = (r2, c2)" by fastforce
    note b = exchange_step [OF d(1,2) 2]
    show ?thesis
    proof (cases "r2 = GOOD")
      case False
      then show ?thesis using eq 1 2 lim b by (auto simp: encodeWithExchangeBuffer_def d_def)
    next
      case True
      have e: "f c2 = (r, c')" using eq 1 2 lim True by (simp add: encodeWithExchangeBuffer_def d_def)
      have l: "live cbo hinv c2" and room: "k \<le> enc_room c2" using b True assms(2) by auto
      from emitsD [OF f l e] b True room d(3,4) show ?thesis by (auto simp: outcome_def)
    qed
  qed
qed

lemma overlayable_loop_emits: "emits cbo sent hinv 0 (encode_overlayable_loop n bs) bs"
proof (induction n arbitrary: bs)
  case 0
  then show ?case by (auto simp: emits_def)
next
  case (Suc n)
  show ?case
    unfolding emits_def
  proof (intro allI impI)
    fix c r c' assume cb: "live cbo hinv c" and eq: "encode_overlayable_loop (Suc n) bs c = (r, c')"
    show "outcome cbo sent hinv 0 bs c r c'"
    proof (cases "enc_room c < length bs")
      case False
      then show ?thesis using eq cb by (auto simp: outcome_def total_def live_def)
    next
      case True
      define d where "d = c\<lparr>enc_out := enc_out c @ take (enc_room c) bs, enc_room := 0\<rparr>"
      have d: "live cbo hinv d" "enc_room d < UNSPLIT_MAX"
        using cb True by (simp_all add: d_def live_def UNSPLIT_MAX_def)
      obtain r2 c2 where 2: "exchangeBuffer d = (r2, c2)" by fastforce
      note b = exchange_step [OF d 2]
      show ?thesis
      proof (cases "r2 = GOOD")
        case False
        then show ?thesis using eq 2 True b by (auto simp: d_def)
      next
        case good: True
        have e: "encode_overlayable_loop n (drop (enc_room c) bs) c2 = (r, c')"
          using eq 2 True good by (simp add: d_def)
        have "total sent c2 = total sent c @ take (enc_room c) bs" "enc_depth c2 = enc_depth c"
          "live cbo hinv c2"
          using b good by (auto simp: d_def total_def)
        then show ?thesis using emitsD [OF Suc.IH _ e] by (auto simp: outcome_def)
      qed
    qed
  qed
qed

lemma Overlayable_emits: "emits cbo sent hinv 0 (Array_encodeBinaryOverlayable bs) bs"
  unfolding Array_encodeBinaryOverlayable_def by (rule overlayable_loop_emits)

end

lemma emits_cong: "emits cbo sent hinv k f bs \<Longrightarrow> bs = bs' \<Longrightarrow> k \<le> l \<Longrightarrow> emits cbo sent hinv l f bs'"
  using emits_mono by blast

lemmas put_defs = Boolean_encodeBinary_def Byte_encodeBinary_def UInt16_encodeBinary_def
  UInt32_encodeBinary_def UInt64_encodeBinary_def

lemma atomic_ints:
  "atomic 1 (Byte_encodeBinary b) [b]" "atomic 1 (Boolean_encodeBinary b) [b]"
  "atomic 2 (UInt16_encodeBinary w) (UA_encode16 w)"
  "atomic 4 (UInt32_encodeBinary d) (UA_encode32 d)"
  "atomic 8 (UInt64_encodeBinary q) (UA_encode64 q)"
  by (auto simp: put_defs intro: atomic_put)

lemma atomic_Guid: "atomic 16 (Guid_encodeBinary g) (guid_bytes g)"
proof -
  have a: "atomic (4 + (2 + (2 + 0))) (enc_ors [UInt32_encodeBinary (data1 g),
      UInt16_encodeBinary (data2 g), UInt16_encodeBinary (data3 g)])
      (UA_encode32 (data1 g) @ UA_encode16 (data2 g) @ UA_encode16 (data3 g) @ [])"
    by (intro atomic_ors_Cons atomic_ints atomic_ors_Nil)
  show ?thesis
    unfolding atomic_def
  proof (intro allI impI)
    fix c :: "'a enc_ctx" and r c' assume eq: "Guid_encodeBinary g c = (r, c')"
    obtain r1 c1 where 1: "enc_ors [UInt32_encodeBinary (data1 g),
      UInt16_encodeBinary (data2 g), UInt16_encodeBinary (data3 g)] c = (r1, c1)" by fastforce
    note b = a[unfolded atomic_def, rule_format, OF 1]
    have split: "8 \<le> enc_room c1 \<and> r = r1 \<and>
        c' = c1\<lparr>enc_out := enc_out c1 @ guid_data4 g, enc_room := enc_room c1 - 8\<rparr> \<or>
        enc_room c1 < 8 \<and> r = LIMITS \<and> c' = c1"
      using eq unfolding Guid_encodeBinary_def 1 by (auto split: if_splits)
    show "enc_cb c' = enc_cb c \<and> enc_depth c' = enc_depth c \<and> enc_handle c' = enc_handle c \<and>
      (r = GOOD \<and> enc_out c' = enc_out c @ guid_bytes g \<and> enc_room c = enc_room c' + length (guid_bytes g) \<and>
         length (guid_bytes g) \<le> 16 \<or>
       r = LIMITS \<and> enc_room c < 16)"
      using split b by (auto simp: guid_bytes_def)
  qed
qed

lemma localized_bits:
  "((if l then 1 else 0) OR (if t then 2 else 0) :: u8) AND 1 \<noteq> 0 \<longleftrightarrow> l"
  "((if l then 1 else 0) OR (if t then 2 else 0) :: u8) AND 2 \<noteq> 0 \<longleftrightarrow> t"
  by (cases l; cases t; simp)+

lemma signed_length_Some: "array_signed_length (Some xs) = of_nat (length xs)"
  by (simp add: array_signed_length_def)

lemma signed_length_None: "array_signed_length None = - 1"
  by (simp add: array_signed_length_def)

context exchange_buffer
begin

lemma int_exchange_emits:
  "emits cbo sent hinv 0 (encodeWithExchangeBuffer (Byte_encodeBinary b)) [b]"
  "emits cbo sent hinv 0 (encodeWithExchangeBuffer (UInt16_encodeBinary w)) (UA_encode16 w)"
  "emits cbo sent hinv 0 (encodeWithExchangeBuffer (UInt32_encodeBinary d)) (UA_encode32 d)"
  "emits cbo sent hinv 0 (encodeWithExchangeBuffer (UInt64_encodeBinary q)) (UA_encode64 q)"
  by (rule withExchange_emits, rule atomic_emits, rule atomic_ints, simp add: UNSPLIT_MAX_def)+

lemma Array_with_emits:
  assumes "\<And>xs. a = Some xs \<Longrightarrow> emits cbo sent hinv 0 (content xs) (g xs)" and "g [] = []"
  shows "emits cbo sent hinv 0 (Array_encodeBinary_with a content)
    (UA_encode32 (array_signed_length a) @ g (array_elems a))"
proof (cases "UA_INT32_MAX < array_length a")
  case True
  then show ?thesis by (simp add: Array_encodeBinary_with_def emits_hard)
next
  case False
  have "emits cbo sent hinv 0 (if 0 < array_length a then content (array_elems a) else enc_return GOOD)
      (g (array_elems a))"
    using assms by (cases a) (auto simp: emits_return)
  from emits_seq_Cons [OF int_exchange_emits(3) emits_seq_Cons [OF this emits_seq_Nil]] False
  show ?thesis by (simp add: Array_encodeBinary_with_def)
qed

lemma String_emits: "emits cbo sent hinv 0 (String_encodeBinary s) (wire_string s)"
  unfolding String_encodeBinary_def wire_string_def
  by (rule Array_with_emits [where g = "\<lambda>x. x"]) (auto intro: Overlayable_emits)

lemma Complex_emits:
  assumes "\<And>v. v \<in> set vs \<Longrightarrow> emits cbo sent hinv UNSPLIT_MAX (jt ty v) (w v)"
  shows "emits cbo sent hinv 0 (Array_encodeBinaryComplex jt ty vs) (concat (map w vs))"
  using assms unfolding Array_encodeBinaryComplex_def
proof (induction vs)
  case Nil
  show ?case by (simp only: list.map concat.simps emits_seq_Nil)
next
  case (Cons v vs)
  show ?case
    using emits_seq_Cons [OF withExchange_emits [OF Cons.prems [of v]] Cons.IH] Cons.prems
    by (simp del: enc_seq.simps)
qed

lemma ors3_emits:
  assumes "atomic k f b" and "atomic l g b'" and "atomic m h b''" and "bs = b @ b' @ b''"
    and "k + l + m \<le> UNSPLIT_MAX"
  shows "emits cbo sent hinv UNSPLIT_MAX (enc_ors [f, g, h]) bs"
  by (rule emits_cong, rule atomic_emits, rule atomic_ors_Cons [OF assms(1) atomic_ors_Cons
      [OF assms(2) atomic_ors_Cons [OF assms(3) atomic_ors_Nil]]]) (use assms in auto)

lemma string_id_emits:
  "emits cbo sent hinv UNSPLIT_MAX
    (enc_seq [enc_ors [Byte_encodeBinary b, UInt16_encodeBinary ns], String_encodeBinary s])
    ([b] @ UA_encode16 ns @ wire_string s)"
  by (rule emits_cong, rule emits_seq_atomic [OF atomic_ors_Cons [OF atomic_ints(1)
      atomic_ors_Cons [OF atomic_ints(3) atomic_ors_Nil]]
      emits_seq_Cons [OF String_emits emits_seq_Nil]]) (auto simp: UNSPLIT_MAX_def)

lemma NodeId_emits:
  "emits cbo sent hinv UNSPLIT_MAX (NodeId_encodeBinaryWithEncodingMask i m) (wire_nodeid m i)"
proof (cases "nid i")
  case (NumericId n)
  let ?a = "0xFFFF < n \<or> 0xFF < namespaceIndex i" and ?b = "0xFF < n \<or> 0 < namespaceIndex i"
  consider ?a | "\<not> ?a" ?b | "\<not> ?a" "\<not> ?b" by blast
  then show ?thesis
  proof cases
    case 1
    then show ?thesis
      unfolding NodeId_encodeBinaryWithEncodingMask_def wire_nodeid_def Let_def NumericId
      by (simp only: UA_Identifier.case if_True)
         (rule ors3_emits [OF atomic_ints(1) atomic_ints(3) atomic_ints(4)], auto simp: UNSPLIT_MAX_def)
  next
    case 2
    then show ?thesis
      unfolding NodeId_encodeBinaryWithEncodingMask_def wire_nodeid_def Let_def NumericId
      by (simp only: UA_Identifier.case if_True if_False)
         (rule ors3_emits [OF atomic_ints(1) atomic_ints(1) atomic_ints(3)], auto simp: UNSPLIT_MAX_def)
  next
    case 3
    then show ?thesis
      unfolding NodeId_encodeBinaryWithEncodingMask_def wire_nodeid_def Let_def NumericId
      by (simp only: UA_Identifier.case if_True if_False or.right_neutral)
         (rule emits_cong, rule atomic_emits, rule atomic_ors_Cons [OF atomic_ints(1)
            atomic_ors_Cons [OF atomic_ints(1) atomic_ors_Nil]], auto simp: UNSPLIT_MAX_def)
  qed
next
  case (GuidId g)
  then show ?thesis
    unfolding NodeId_encodeBinaryWithEncodingMask_def wire_nodeid_def Let_def GuidId
    by (simp only: UA_Identifier.case)
       (rule ors3_emits [OF atomic_ints(1) atomic_ints(3) atomic_Guid], auto simp: UNSPLIT_MAX_def)
qed (simp_all only: NodeId_encodeBinaryWithEncodingMask_def wire_nodeid_def Let_def
  UA_Identifier.case string_id_emits)

lemma if_emits:
  assumes "P \<Longrightarrow> emits cbo sent hinv 0 f bs"
  shows "emits cbo sent hinv 0 (if P then f else enc_return GOOD) (if P then bs else [])"
  using assms by (simp add: emits_return)

lemma ExpandedNodeId_emits:
  "emits cbo sent hinv UNSPLIT_MAX (ExpandedNodeId_encodeBinary i) (wire_expanded_nodeid i)"
proof -
  note r = emits_seq_Cons [OF NodeId_emits emits_seq_Cons [OF if_emits
      emits_seq_Cons [OF if_emits emits_seq_Nil]]]
  show ?thesis
    unfolding ExpandedNodeId_encodeBinary_def wire_expanded_nodeid_def Let_def
    by (rule emits_cong, rule r, rule String_emits, rule int_exchange_emits) auto
qed

lemma QualifiedName_emits:
  "emits cbo sent hinv UNSPLIT_MAX (QualifiedName_encodeBinary ns s) (UA_encode16 ns @ wire_string s)"
  unfolding QualifiedName_encodeBinary_def
  by (rule emits_cong, rule emits_seq_atomic [OF atomic_ints(3) emits_seq_Cons [OF String_emits emits_seq_Nil]])
     (auto simp: UNSPLIT_MAX_def)

lemma LocalizedText_emits:
  "emits cbo sent hinv UNSPLIT_MAX (LocalizedText_encodeBinary l t) (wire_localized l t)"
  unfolding LocalizedText_encodeBinary_def wire_localized_def Let_def localized_bits
  by (rule emits_cong, rule emits_seq_atomic [OF atomic_ints(1) emits_seq_Cons
        [OF emits_ors_Cons [OF if_emits emits_ors_Cons [OF if_emits emits_ors_Nil]] emits_seq_Nil]],
      rule String_emits, rule String_emits) (auto simp: UNSPLIT_MAX_def)

lemma Array_emits:
  assumes jt: "\<And>ty v. emits cbo sent hinv UNSPLIT_MAX (jt ty v) (wire env ty v)"
  shows "emits cbo sent hinv 0 (Array_encodeBinary env jt ty a) (wire_field env ty (FArray a))"
proof -
  let ?g = "\<lambda>vs. if overlayable (ty_at env ty) then concat (map overlay_bytes vs)
    else concat (map (wire env ty) vs)"
  have "emits cbo sent hinv 0 (Array_encodeBinary env jt ty a)
      (UA_encode32 (array_signed_length a) @ ?g (array_elems a))"
    unfolding Array_encodeBinary_def
    by (rule Array_with_emits) (auto intro: Overlayable_emits Complex_emits jt)
  then show ?thesis
    by (cases a) (auto simp: signed_length_None signed_length_Some split: if_splits)
qed

lemma enc_opt_emits:
  assumes "\<And>x. emits cbo sent hinv 0 (f x) (g x)"
  shows "emits cbo sent hinv 0 (enc_opt x f) (case x of None \<Rightarrow> [] | Some y \<Rightarrow> g y)"
  using assms by (cases x) (auto simp: enc_opt_def emits_return)

lemma enc_opt_atomic:
  assumes "\<And>x. atomic 4 (f x) (g x)"
  shows "atomic 4 (enc_opt x f) (wire_opt g x)"
  using assms by (cases x) (auto simp: enc_opt_def wire_opt_def atomic_def enc_return_def)

lemma wire_opt_emits:
  assumes "\<And>x. emits cbo sent hinv 0 (f x) (g x)"
  shows "emits cbo sent hinv 0 (enc_opt x f) (wire_opt g x)"
  unfolding wire_opt_def by (rule enc_opt_emits) (rule assms)

lemma len_exchange_emits:
  "emits cbo sent hinv 0
     (let len = UA_calcSizeBinary env v t
      in if len \<le> UA_INT32_MAX then encodeWithExchangeBuffer (UInt32_encodeBinary (of_nat len))
         else enc_return UA_STATUSCODE_BADENCODINGERROR)
     (UA_encode32 (of_nat (UA_calcSizeBinary env v t)))"
  by (auto simp: Let_def emits_hard intro: int_exchange_emits)

lemma DecodedEO_emits:
  assumes jt: "\<And>ty v. emits cbo sent hinv UNSPLIT_MAX (jt ty v) (wire env ty v)"
  shows "emits cbo sent hinv UNSPLIT_MAX (ExtensionObject_encodeBinary env jt (VDecodedEO (Some t) (Some v)))
    (wrap_header env t v @ wire env t v)"
  unfolding ExtensionObject_encodeBinary.simps NodeId_encodeBinary_def
  by (rule emits_cong, rule emits_seq_Cons [OF NodeId_emits emits_seq_Cons [OF int_exchange_emits(1)
        emits_seq_Cons [OF len_exchange_emits emits_seq_Cons [OF withExchange_emits [OF jt] emits_seq_Nil]]]])
     (auto simp: wrap_header_def)

lemma EncodedEO_emits:
  "emits cbo sent hinv UNSPLIT_MAX (ExtensionObject_encodeBinary env jt (VEncodedEO e tid body))
    (wire env ty (VEncodedEO e tid body))"
proof -
  have "emits cbo sent hinv 0 (case e of EO_NOBODY \<Rightarrow> enc_return GOOD
      | EO_BYTESTRING \<Rightarrow> String_encodeBinary body | EO_XML \<Rightarrow> String_encodeBinary body)
      (if e = EO_NOBODY then [] else wire_string body)"
    by (cases e) (auto intro: emits_return String_emits)
  note r = emits_seq_Cons [OF NodeId_emits emits_seq_Cons [OF int_exchange_emits(1)
    emits_seq_Cons [OF this emits_seq_Nil]]]
  show ?thesis
    unfolding ExtensionObject_encodeBinary.simps NodeId_encodeBinary_def
    by (rule emits_cong, rule r) auto
qed

lemma ExtensionObject_emits:
  assumes jt: "\<And>ty v. emits cbo sent hinv UNSPLIT_MAX (jt ty v) (wire env ty v)"
  shows "emits cbo sent hinv UNSPLIT_MAX (ExtensionObject_encodeBinary env jt v) (wire env ty v)"
proof (cases "(env, jt, v)" rule: ExtensionObject_encodeBinary.cases)
  case (1 env jt e tid body)
  then show ?thesis using EncodedEO_emits by blast
next
  case (2 env jt t d)
  then show ?thesis using DecodedEO_emits [OF jt] by auto
qed (auto simp: emits_hard)

lemma wrap_list_emits:
  assumes jt: "\<And>ty v. emits cbo sent hinv UNSPLIT_MAX (jt ty v) (wire env ty v)"
  shows "emits cbo sent hinv 0
    (enc_seq (map (\<lambda>v. encodeWithExchangeBuffer
       (ExtensionObject_encodeBinary env jt (VDecodedEO (Some t) (Some v)))) vs))
    (concat (map (\<lambda>v. wrap_header env t v @ wire env t v) vs))"
proof (induction vs)
  case Nil
  show ?case by (simp only: list.map concat.simps emits_seq_Nil)
next
  case (Cons v vs)
  from emits_seq_Cons [OF withExchange_emits [OF DecodedEO_emits [OF jt]] Cons.IH]
  show ?case by (simp del: enc_seq.simps)
qed

lemma Wrap_emits:
  assumes jt: "\<And>ty v. emits cbo sent hinv UNSPLIT_MAX (jt ty v) (wire env ty v)"
  shows "emits cbo sent hinv 4 (Variant_encodeBinaryWrapExtensionObject env jt t arr vs)
    ((if arr then UA_encode32 (of_nat (length vs)) else []) @
     concat (map (\<lambda>v. wrap_header env t v @ wire env t v) vs))"
proof (cases "arr \<and> UA_INT32_MAX < length vs")
  case True
  then show ?thesis by (simp add: Variant_encodeBinaryWrapExtensionObject_def emits_hard)
next
  case False
  have a: "atomic 4 (if arr then UInt32_encodeBinary (of_nat (length vs)) else enc_return GOOD)
      (if arr then UA_encode32 (of_nat (length vs)) else [])"
    using atomic_ints(4) by (auto simp: atomic_def enc_return_def)
  have "Variant_encodeBinaryWrapExtensionObject env jt t arr vs = enc_seq
        [if arr then UInt32_encodeBinary (of_nat (length vs)) else enc_return GOOD,
         enc_seq (map (\<lambda>v. encodeWithExchangeBuffer
           (ExtensionObject_encodeBinary env jt (VDecodedEO (Some t) (Some v)))) vs)]"
    using False by (simp only: Variant_encodeBinaryWrapExtensionObject_def if_False)
  then show ?thesis
    by (simp only:) (rule emits_cong, rule emits_seq_atomic [OF a emits_seq_Cons
        [OF wrap_list_emits [OF jt] emits_seq_Nil]], auto)
qed

lemma dims_emits:
  "emits cbo sent hinv 0
     (if dims \<noteq> [] then Array_encodeBinary_with (Some dims)
        (\<lambda>ds. Array_encodeBinaryOverlayable (concat (map UA_encode32 ds))) else enc_return GOOD)
     (if dims \<noteq> [] then UA_encode32 (of_nat (length dims)) @ concat (map UA_encode32 dims) else [])"
proof (rule if_emits)
  have "emits cbo sent hinv 0 (Array_encodeBinary_with (Some dims)
        (\<lambda>ds. Array_encodeBinaryOverlayable (concat (map UA_encode32 ds))))
      (UA_encode32 (array_signed_length (Some dims)) @ concat (map UA_encode32 (array_elems (Some dims))))"
    by (rule Array_with_emits [where g = "\<lambda>ds. concat (map UA_encode32 ds)"])
       (auto intro: Overlayable_emits)
  then show "emits cbo sent hinv 0 (Array_encodeBinary_with (Some dims)
        (\<lambda>ds. Array_encodeBinaryOverlayable (concat (map UA_encode32 ds))))
      (UA_encode32 (of_nat (length dims)) @ concat (map UA_encode32 dims))"
    by (simp add: signed_length_Some)
qed

lemma Variant_emits:
  assumes jt: "\<And>ty v. emits cbo sent hinv UNSPLIT_MAX (jt ty v) (wire env ty v)"
  shows "emits cbo sent hinv 6 (Variant_encodeBinary env jt v) (wire env ty v)"
proof (cases v)
  case VVariantEmpty
  then show ?thesis by (auto intro!: emits_cong [OF atomic_emits [OF atomic_ints(1)]])
next
  case (VVariantScalar t w)
  have "emits cbo sent hinv 4
     (if \<not> is_builtin_kind (kind_at env t) \<and> kind_at env t \<noteq> DK_ENUM
      then Variant_encodeBinaryWrapExtensionObject env jt t False [w]
      else encodeWithExchangeBuffer (jt t w))
     ((if needs_wrap env t then wrap_header env t w else []) @ wire env t w)"
    using Wrap_emits [OF jt, of t False "[w]"] withExchange_emits [OF jt order_refl, THEN emits_mono]
    by (simp add: needs_wrap_def)
  note r = emits_seq_atomic [OF atomic_ints(1) emits_seq_Cons [OF this emits_seq_Nil]]
  show ?thesis
    unfolding VVariantScalar Variant_encodeBinary.simps Let_def
    by (rule emits_cong, rule r, auto)
next
  case (VVariantArray t a dims)
  have wrap: "emits cbo sent hinv 4
     (if \<not> is_builtin_kind (kind_at env t) \<and> kind_at env t \<noteq> DK_ENUM
      then Variant_encodeBinaryWrapExtensionObject env jt t True (array_elems a)
      else Array_encodeBinary env jt t a)
     (if needs_wrap env t
      then UA_encode32 (of_nat (array_length a)) @
           (case a of None \<Rightarrow> [] | Some vs \<Rightarrow> concat (map (\<lambda>v. wrap_header env t v @ wire env t v) vs))
      else wire_field env t (FArray a))"
    using Wrap_emits [OF jt, of t True "array_elems a"] Array_emits [OF jt, THEN emits_mono]
    by (cases a) (auto simp: needs_wrap_def simp del: wire_field.simps)
  note r = emits_seq_atomic [OF atomic_ints(1) emits_seq_Cons [OF wrap
    emits_seq_Cons [OF dims_emits emits_seq_Nil]]]
  show ?thesis
    unfolding VVariantArray Variant_encodeBinary.simps Let_def
    by (rule emits_cong, rule r, auto)
qed (auto simp: emits_hard)

lemma DataValue_emits:
  assumes jt: "\<And>ty v. emits cbo sent hinv UNSPLIT_MAX (jt ty v) (wire env ty v)"
  shows "emits cbo sent hinv UNSPLIT_MAX (DataValue_encodeBinary env jt v) (wire env ty v)"
proof (cases v)
  case (VDataValue val0 st sts sps vts vps)
  have var: "emits cbo sent hinv 6 (enc_opt val0 (Variant_encodeBinary env jt))
      (case val0 of None \<Rightarrow> [] | Some v \<Rightarrow> wire env UA_TYPES_VARIANT v)"
    using Variant_emits [OF jt] emits_return [THEN emits_mono] by (cases val0) (auto simp: enc_opt_def)
  note ob = wire_opt_emits [OF int_exchange_emits(2)] wire_opt_emits [OF int_exchange_emits(3)]
    wire_opt_emits [OF int_exchange_emits(4)]
  note ors = emits_ors_Cons [OF ob(2) emits_ors_Cons [OF ob(3) emits_ors_Cons [OF ob(1)
    emits_ors_Cons [OF ob(3) emits_ors_Cons [OF ob(1) emits_ors_Nil]]]]]
  note r = emits_seq_atomic [OF atomic_ints(1) emits_seq_Cons [OF var
    emits_seq_Cons [OF ors emits_seq_Nil]]]
  show ?thesis
    unfolding VDataValue DataValue_encodeBinary.simps
    by (rule emits_cong, rule r, auto simp: UNSPLIT_MAX_def)
qed (auto simp: emits_hard)

lemma DiagnosticInfo_emits:
  assumes jt: "\<And>ty v. emits cbo sent hinv UNSPLIT_MAX (jt ty v) (wire env ty v)"
  shows "emits cbo sent hinv UNSPLIT_MAX (DiagnosticInfo_encodeBinary env jt v) (wire env ty v)"
proof (cases v)
  case (VDiagnosticInfo symid ns lt loc add st inner)
  note ob = enc_opt_atomic [OF atomic_ints(4)]
  note ors = atomic_ors_Cons [OF atomic_ints(1) atomic_ors_Cons [OF ob atomic_ors_Cons [OF ob
    atomic_ors_Cons [OF ob atomic_ors_Cons [OF ob atomic_ors_Nil]]]]]
  note r = emits_seq_atomic [OF ors emits_seq_Cons [OF wire_opt_emits [OF String_emits]
    emits_seq_Cons [OF wire_opt_emits [OF int_exchange_emits(3)]
    emits_seq_Cons [OF enc_opt_emits [OF withExchange_emits [OF jt]] emits_seq_Nil]]]]
  show ?thesis
    unfolding VDiagnosticInfo DiagnosticInfo_encodeBinary.simps
    by (rule emits_cong, rule r, auto simp: UNSPLIT_MAX_def)
qed (auto simp: emits_hard)

end

lemma emits_nested:
  assumes "emits cbo sent hinv k body bs"
  shows "emits cbo sent hinv k (enc_nested body) bs"
  unfolding emits_def
proof (intro allI impI)
  fix c r c' assume cb: "live cbo hinv c" and eq: "enc_nested body c = (r, c')"
  show "outcome cbo sent hinv k bs c r c'"
  proof (cases "UA_ENCODING_MAX_RECURSION < enc_depth c")
    case True
    then show ?thesis using eq by (auto simp: enc_nested_def)
  next
    case False
    define d where "d = c\<lparr>enc_depth := enc_depth c + 1\<rparr>"
    have d: "live cbo hinv d" using cb by (simp add: d_def live_def)
    obtain r1 c1 where 1: "body d = (r1, c1)" by fastforce
    have "r = r1" "c' = c1\<lparr>enc_depth := enc_depth c1 - 1\<rparr>"
      using eq 1 False by (auto simp: enc_nested_def d_def)
    then show ?thesis
      using emitsD [OF assms d 1] by (auto simp: d_def total_def outcome_def live_def)
  qed
qed

lemma opt_encodingMask_low: "n < i \<Longrightarrow> \<not> bit (opt_encodingMask i ms fs) n"
  by (induction i ms fs rule: opt_encodingMask.induct) (auto simp: bit_simps)

lemma opt_encodingMask_head:
  "isOptional m \<Longrightarrow> i < 32 \<Longrightarrow> bit (opt_encodingMask i (m # ms) (f # fs)) i = opt_present f"
  using opt_encodingMask_low [of i "Suc i" ms fs] by (auto simp: bit_simps)

lemma opt_encodingMask_tail:
  "isOptional m \<Longrightarrow> Suc i \<le> n \<Longrightarrow>
   bit (opt_encodingMask i (m # ms) (f # fs)) n = bit (opt_encodingMask (Suc i) ms fs) n"
  by (auto simp: bit_simps)

lemma and_push_bit_1: "i < 32 \<Longrightarrow> (w AND push_bit i 1 = (0 :: u32)) = (\<not> bit w i)"
  by (simp add: bit_iff_and_push_bit_not_eq_0)

lemma and_power_2: "i < 32 \<Longrightarrow> (w AND 2 ^ i = (0 :: u32)) = (\<not> bit w i)"
  using and_push_bit_1 [of i w] by simp

context exchange_buffer
begin

lemma member_emits:
  assumes jt: "\<And>ty v. emits cbo sent hinv UNSPLIT_MAX (jt ty v) (wire env ty v)"
  shows "emits cbo sent hinv 0 (encode_member env jt m f) (wire_field env (memberType m) f)"
proof (cases f)
  case (FScalar v)
  then show ?thesis using withExchange_emits [OF jt order_refl] by (auto simp: emits_hard)
next
  case (FArray a)
  then show ?thesis
    using Array_emits [OF jt] by (auto simp: emits_hard simp del: wire_field.simps)
qed (auto simp: emits_hard)

lemma members_emits:
  assumes jt: "\<And>ty v. emits cbo sent hinv UNSPLIT_MAX (jt ty v) (wire env ty v)"
  shows "emits cbo sent hinv 0 (enc_seq (encode_members env jt ms fs)) (wire_fields env False ms fs)"
proof (induction ms arbitrary: fs)
  case Nil
  show ?case
    by (cases fs) (simp_all only: encode_members.simps wire_fields.simps emits_seq_Nil
      emits_seq_Cons [OF emits_hard emits_seq_Nil, simplified append_Nil2] hard_codes)
next
  case (Cons m ms)
  show ?case
  proof (cases fs)
    case Nil
    then show ?thesis
      by (simp_all only: encode_members.simps wire_fields.simps
        emits_seq_Cons [OF emits_hard emits_seq_Nil, simplified append_Nil2] hard_codes)
  next
    case (Cons f gs)
    show ?thesis
      using emits_seq_Cons [OF member_emits [OF jt] Cons.IH] Cons by (simp del: enc_seq.simps)
  qed
qed

lemma opt_members_emits:
  assumes jt: "\<And>ty v. emits cbo sent hinv UNSPLIT_MAX (jt ty v) (wire env ty v)"
    and bits: "\<And>n. i \<le> n \<Longrightarrow> n < 32 \<Longrightarrow> bit w n = bit (opt_encodingMask i ms fs) n"
  shows "emits cbo sent hinv 0 (enc_seq (encode_opt_members env jt w i ms fs)) (wire_fields env True ms fs)"
  using bits
proof (induction ms arbitrary: fs i)
  case Nil
  show ?case
    by (cases fs) (simp_all only: encode_opt_members.simps wire_fields.simps emits_seq_Nil
      emits_seq_Cons [OF emits_hard emits_seq_Nil, simplified append_Nil2] hard_codes)
next
  case (Cons m ms)
  show ?case
  proof (cases fs)
    case Nil
    then show ?thesis
      by (simp_all only: encode_opt_members.simps wire_fields.simps
        emits_seq_Cons [OF emits_hard emits_seq_Nil, simplified append_Nil2] hard_codes)
  next
    case fs: (Cons f gs)
    show ?thesis
    proof (cases "isOptional m")
      case False
      have "emits cbo sent hinv 0 (enc_seq (encode_opt_members env jt w i ms gs)) (wire_fields env True ms gs)"
        using Cons.prems False fs by (intro Cons.IH) simp
      from emits_seq_Cons [OF member_emits [OF jt] this] False fs
      show ?thesis by (simp del: enc_seq.simps)
    next
      case opt: True
      have "emits cbo sent hinv 0 (enc_seq (encode_opt_members env jt w (Suc i) ms gs))
          (wire_fields env True ms gs)"
        using Cons.prems opt_encodingMask_tail [OF opt] fs by (intro Cons.IH) simp
      note tl = emits_seq_Cons [OF _ this]
      have "emits cbo sent hinv 0
        (if 32 \<le> i then enc_return STATUS_UNDEFINED
         else if w AND push_bit i 1 = 0 then enc_return GOOD
         else (case f of
                 FOptArray (Some xs) \<Rightarrow>
                   if isArray m then Array_encodeBinary env jt (memberType m) (Some xs)
                   else enc_return STATUS_UNDEFINED
               | FOptScalar (Some v) \<Rightarrow>
                   if isArray m then enc_return STATUS_UNDEFINED
                   else encodeWithExchangeBuffer (jt (memberType m) v)
               | _ \<Rightarrow> enc_return STATUS_UNDEFINED))
        (if \<not> opt_present f then [] else wire_field env (memberType m) f)"
      proof (cases "32 \<le> i")
        case True
        then show ?thesis by (simp add: emits_hard)
      next
        case False
        then have "bit w i = opt_present f"
          using Cons.prems [of i] opt_encodingMask_head [OF opt] fs by simp
        then show ?thesis
          using False withExchange_emits [OF jt order_refl] Array_emits [OF jt]
          by (auto simp: and_power_2 emits_hard emits_return split: ua_field.split option.split
              simp del: wire_field.simps)
             (simp_all add: Array_emits [OF jt, of _ "Some _", simplified])
      qed
      from tl [OF this] opt fs show ?thesis by (simp del: enc_seq.simps)
    qed
  qed
qed

lemma Struct_emits:
  assumes jt: "\<And>ty v. emits cbo sent hinv UNSPLIT_MAX (jt ty v) (wire env ty v)"
    and "kind_at env ty \<noteq> DK_OPTSTRUCT"
  shows "emits cbo sent hinv UNSPLIT_MAX (encodeBinaryStruct env jt ty v) (wire env ty v)"
proof (cases v)
  case (VStruct fs)
  show ?thesis
    using emits_nested [OF members_emits [OF jt], THEN emits_mono] assms(2) VStruct by simp
qed (auto simp: emits_hard)

lemma OptStruct_emits:
  assumes jt: "\<And>ty v. emits cbo sent hinv UNSPLIT_MAX (jt ty v) (wire env ty v)"
    and kind: "kind_at env ty = DK_OPTSTRUCT"
  shows "emits cbo sent hinv UNSPLIT_MAX (encodeBinaryStructWithOptFields env jt ty v) (wire env ty v)"
proof (cases v)
  case (VStruct fs)
  note r = emits_nested [OF emits_seq_atomic [OF atomic_ints(4) opt_members_emits [OF jt refl]]]
  show ?thesis
    unfolding VStruct encodeBinaryStructWithOptFields.simps Let_def
    by (rule emits_cong, rule r) (auto simp: kind UNSPLIT_MAX_def)
qed (auto simp: emits_hard)

lemma Union_emits:
  assumes jt: "\<And>ty v. emits cbo sent hinv UNSPLIT_MAX (jt ty v) (wire env ty v)"
  shows "emits cbo sent hinv UNSPLIT_MAX (encodeBinaryUnion env jt ty v) (wire env ty v)"
proof (cases v)
  case (VUnion s f)
  let ?ms = "members (ty_at env ty)"
  have "emits cbo sent hinv 0
     (if s = 0 then enc_return GOOD
      else if unat (s - 1) < length ?ms then encode_member env jt (?ms ! unat (s - 1)) f
      else enc_return STATUS_UNDEFINED)
     (if s = 0 then [] else wire_field env (memberType (?ms ! unat (s - 1))) f)"
    using member_emits [OF jt] by (auto simp: emits_return emits_hard)
  note r = emits_nested [OF emits_seq_atomic [OF atomic_ints(4) emits_seq_Cons [OF this emits_seq_Nil]]]
  show ?thesis
    unfolding VUnion encodeBinaryUnion.simps Let_def
    by (rule emits_cong, rule r) (auto simp: UNSPLIT_MAX_def)
qed (auto simp: emits_hard)

lemma int_table_emits:
  "emits cbo sent hinv UNSPLIT_MAX (Byte_encodeBinary b) [b]"
  "emits cbo sent hinv UNSPLIT_MAX (Boolean_encodeBinary b) [b]"
  "emits cbo sent hinv UNSPLIT_MAX (UInt16_encodeBinary w) (UA_encode16 w)"
  "emits cbo sent hinv UNSPLIT_MAX (UInt32_encodeBinary d) (UA_encode32 d)"
  "emits cbo sent hinv UNSPLIT_MAX (UInt64_encodeBinary q) (UA_encode64 q)"
  "emits cbo sent hinv UNSPLIT_MAX (Guid_encodeBinary g) (guid_bytes g)"
  "emits cbo sent hinv UNSPLIT_MAX (String_encodeBinary s) (wire_string s)"
  "emits cbo sent hinv UNSPLIT_MAX (NodeId_encodeBinary i) (wire_nodeid 0 i)"
  by (simp_all add: UNSPLIT_MAX_def NodeId_encodeBinary_def
      NodeId_emits [unfolded UNSPLIT_MAX_def] String_emits [THEN emits_mono]
      atomic_ints [THEN atomic_emits, THEN emits_mono] atomic_Guid [THEN atomic_emits, THEN emits_mono])

lemma dispatch_emits:
  assumes jt: "\<And>ty v. emits cbo sent hinv UNSPLIT_MAX (jt ty v) (wire env ty v)"
  shows "emits cbo sent hinv UNSPLIT_MAX (enc_dispatch env jt ty v) (wire env ty v)"
proof (cases "kind_at env ty")
  case DK_EXTENSIONOBJECT
  then show ?thesis
    unfolding enc_dispatch_def by (simp only: UA_DataTypeKind.case ExtensionObject_emits [OF jt])
next
  case DK_DATAVALUE
  then show ?thesis
    unfolding enc_dispatch_def by (simp only: UA_DataTypeKind.case DataValue_emits [OF jt])
next
  case DK_VARIANT
  have "6 \<le> UNSPLIT_MAX" by (simp add: UNSPLIT_MAX_def)
  with DK_VARIANT show ?thesis
    unfolding enc_dispatch_def
    by (simp only: UA_DataTypeKind.case Variant_emits [OF jt, THEN emits_mono])
next
  case DK_DIAGNOSTICINFO
  then show ?thesis
    unfolding enc_dispatch_def by (simp only: UA_DataTypeKind.case DiagnosticInfo_emits [OF jt])
next
  case DK_STRUCTURE
  then show ?thesis
    using Struct_emits [OF jt, of ty] unfolding enc_dispatch_def by (simp only: UA_DataTypeKind.case) simp
next
  case DK_BITFIELDCLUSTER
  then show ?thesis
    using Struct_emits [OF jt, of ty] unfolding enc_dispatch_def by (simp only: UA_DataTypeKind.case) simp
next
  case DK_OPTSTRUCT
  then show ?thesis
    unfolding enc_dispatch_def by (simp only: UA_DataTypeKind.case OptStruct_emits [OF jt])
next
  case DK_UNION
  then show ?thesis
    unfolding enc_dispatch_def by (simp only: UA_DataTypeKind.case Union_emits [OF jt])
qed (cases v; simp add: enc_dispatch_def emits_hard int_table_emits ExpandedNodeId_emits
  QualifiedName_emits LocalizedText_emits)+

lemma jumpTable_emits:
  "emits cbo sent hinv UNSPLIT_MAX (encodeBinaryJumpTable env n ty v) (wire env ty v)"
proof (induction n arbitrary: ty v)
  case 0
  then show ?case by (simp add: emits_hard)
next
  case (Suc n)
  then show ?case by (simp add: dispatch_emits)
qed

end

end
