(* ===== verification/Binary_Typed.thy ===== *)
theory Binary_Typed
  imports Binary_Wire
begin

text \<open>
  Well-typed values and the size computation. \<open>wf_val env ty v\<close> says that \<open>v\<close> is a value in memory
  of the type at address \<open>ty\<close>: the constructors fit the kinds of the type description, arrays and
  strings have a length that fits an Int32, the flag \<open>overlayable\<close> of an element type tells the truth.
  For such values \<open>UA_calcSizeBinary\<close> is the length of the wire format.
\<close>

section \<open>Well-typed values\<close>

definition kind8 :: "UA_DataTypeKind \<Rightarrow> bool" where
  "kind8 k = (k \<in> {DK_BOOLEAN, DK_SBYTE, DK_BYTE})"

definition kind16 :: "UA_DataTypeKind \<Rightarrow> bool" where
  "kind16 k = (k \<in> {DK_INT16, DK_UINT16})"

definition kind32 :: "UA_DataTypeKind \<Rightarrow> bool" where
  "kind32 k = (k \<in> {DK_INT32, DK_UINT32, DK_FLOAT, DK_STATUSCODE, DK_ENUM})"

definition kind64 :: "UA_DataTypeKind \<Rightarrow> bool" where
  "kind64 k = (k \<in> {DK_INT64, DK_UINT64, DK_DOUBLE, DK_DATETIME})"

definition kind_string :: "UA_DataTypeKind \<Rightarrow> bool" where
  "kind_string k = (k \<in> {DK_STRING, DK_BYTESTRING, DK_XMLELEMENT})"

definition wf_string :: "UA_String \<Rightarrow> bool" where
  "wf_string s = (string_length s \<le> UA_INT32_MAX)"

definition wf_guid :: "UA_Guid \<Rightarrow> bool" where
  "wf_guid g = (length (data4 g) = 8)"

definition wf_nodeid :: "UA_NodeId \<Rightarrow> bool" where
  "wf_nodeid i =
     (case nid i of NumericId _ \<Rightarrow> True | StringId s \<Rightarrow> wf_string s
      | GuidId g \<Rightarrow> wf_guid g | ByteStringId s \<Rightarrow> wf_string s)"

text \<open>
  \<open>overlay_ok\<close>: the flag of the type tells the truth about this element, its memory is its stream
  encoding and has the size of the type.
\<close>

definition overlay_ok :: "type_env \<Rightarrow> tyref \<Rightarrow> ua_val \<Rightarrow> bool" where
  "overlay_ok env t v =
     (overlayable (ty_at env t) \<longrightarrow>
        overlay_bytes v = wire env t v \<and> length (overlay_bytes v) = memSize (ty_at env t))"

fun wf_val :: "type_env \<Rightarrow> tyref \<Rightarrow> ua_val \<Rightarrow> bool"
and wf_field :: "type_env \<Rightarrow> bool \<Rightarrow> UA_DataTypeMember \<Rightarrow> ua_field \<Rightarrow> bool"
and wf_fields :: "type_env \<Rightarrow> bool \<Rightarrow> UA_DataTypeMember list \<Rightarrow> ua_field list \<Rightarrow> bool" where
  "wf_val env ty (VU8 b) = (kind8 (kind_at env ty) \<and> (kind_at env ty = DK_BOOLEAN \<longrightarrow> b \<le> 1))"
| "wf_val env ty (VU16 _) = kind16 (kind_at env ty)"
| "wf_val env ty (VU32 _) = kind32 (kind_at env ty)"
| "wf_val env ty (VU64 _) = kind64 (kind_at env ty)"
| "wf_val env ty (VString s) = (kind_string (kind_at env ty) \<and> wf_string s)"
| "wf_val env ty (VGuid g) = (kind_at env ty = DK_GUID \<and> wf_guid g)"
| "wf_val env ty (VNodeId i) = (kind_at env ty = DK_NODEID \<and> wf_nodeid i)"
| "wf_val env ty (VExpandedNodeId i) =
     (kind_at env ty = DK_EXPANDEDNODEID \<and> wf_nodeid (nodeId i) \<and> wf_string (namespaceUri i))"
| "wf_val env ty (VQualifiedName _ s) = (kind_at env ty = DK_QUALIFIEDNAME \<and> wf_string s)"
| "wf_val env ty (VLocalizedText l t) =
     (kind_at env ty = DK_LOCALIZEDTEXT \<and> wf_string l \<and> wf_string t)"
| "wf_val env ty (VEncodedEO _ tid body) =
     (kind_at env ty = DK_EXTENSIONOBJECT \<and> wf_nodeid tid \<and> wf_string body)"
| "wf_val env ty (VDecodedEO (Some t) (Some v)) =
     (kind_at env ty = DK_EXTENSIONOBJECT \<and> is_numeric (typeId (ty_at env t)) \<and>
      wf_nodeid (binaryEncodingId (ty_at env t)) \<and> wf_val env t v)"
| "wf_val env ty (VDecodedEO _ _) = False"
| "wf_val env ty VVariantEmpty = (kind_at env ty = DK_VARIANT)"
| "wf_val env ty (VVariantScalar t v) =
     (kind_at env ty = DK_VARIANT \<and> wf_nodeid (binaryEncodingId (ty_at env t)) \<and> wf_val env t v)"
| "wf_val env ty (VVariantArray t a dims) =
     (kind_at env ty = DK_VARIANT \<and> wf_nodeid (binaryEncodingId (ty_at env t)) \<and>
      array_length a \<le> UA_INT32_MAX \<and> length dims \<le> UA_INT32_MAX \<and>
      (case a of None \<Rightarrow> True | Some vs \<Rightarrow> (\<forall>v \<in> set vs. wf_val env t v \<and> overlay_ok env t v)))"
| "wf_val env ty (VDataValue x _ _ _ _ _) =
     (kind_at env ty = DK_DATAVALUE \<and>
      (case x of None \<Rightarrow> True | Some v \<Rightarrow> wf_val env UA_TYPES_VARIANT v))"
| "wf_val env ty (VDiagnosticInfo _ _ _ _ add _ inner) =
     (kind_at env ty = DK_DIAGNOSTICINFO \<and>
      (case add of None \<Rightarrow> True | Some s \<Rightarrow> wf_string s) \<and>
      (case inner of None \<Rightarrow> True | Some d \<Rightarrow> wf_val env UA_TYPES_DIAGNOSTICINFO d))"
| "wf_val env ty (VStruct fs) =
     (kind_at env ty \<in> {DK_STRUCTURE, DK_OPTSTRUCT} \<and>
      length (filter isOptional (members (ty_at env ty))) \<le> 32 \<and>
      wf_fields env (kind_at env ty = DK_OPTSTRUCT) (members (ty_at env ty)) fs)"
| "wf_val env ty (VUnion sel f) =
     (kind_at env ty = DK_UNION \<and>
      (sel = 0 \<or> unat (sel - 1) < length (members (ty_at env ty)) \<and>
                 wf_field env False (members (ty_at env ty) ! unat (sel - 1)) f))"
| "wf_field env opt m (FScalar v) =
     (\<not> isArray m \<and> \<not> (opt \<and> isOptional m) \<and> wf_val env (memberType m) v)"
| "wf_field env opt m (FArray a) =
     (isArray m \<and> \<not> (opt \<and> isOptional m) \<and> array_length a \<le> UA_INT32_MAX \<and>
      (case a of None \<Rightarrow> True
       | Some vs \<Rightarrow> (\<forall>v \<in> set vs. wf_val env (memberType m) v \<and> overlay_ok env (memberType m) v)))"
| "wf_field env opt m (FOptScalar x) =
     (\<not> isArray m \<and> opt \<and> isOptional m \<and>
      (case x of None \<Rightarrow> True | Some v \<Rightarrow> wf_val env (memberType m) v))"
| "wf_field env opt m (FOptArray a) =
     (isArray m \<and> opt \<and> isOptional m \<and> array_length a \<le> UA_INT32_MAX \<and>
      (case a of None \<Rightarrow> True
       | Some vs \<Rightarrow> (\<forall>v \<in> set vs. wf_val env (memberType m) v \<and> overlay_ok env (memberType m) v)))"
| "wf_fields env opt [] [] = True"
| "wf_fields env opt (m # ms) (f # fs) = (wf_field env opt m f \<and> wf_fields env opt ms fs)"
| "wf_fields env opt _ _ = False"

section \<open>The computed size\<close>

lemma length_wire_string: "length (wire_string s) = 4 + string_length s"
  by (cases s) (auto simp: wire_string_def)

lemma length_guid_bytes: "wf_guid g \<Longrightarrow> length (guid_bytes g) = 16"
  by (simp add: guid_bytes_def wf_guid_def)

lemma length_wire_nodeid:
  "wf_nodeid i \<Longrightarrow> length (wire_nodeid m i) = NodeId_calcSizeBinary i"
  by (auto simp: wire_nodeid_def NodeId_calcSizeBinary_def wf_nodeid_def Let_def
      length_wire_string String_calcSizeBinary_def length_guid_bytes split: UA_Identifier.split)

lemma length_wire_expanded:
  "wf_nodeid (nodeId i) \<Longrightarrow> length (wire_expanded_nodeid i) = ExpandedNodeId_calcSizeBinary i"
  by (cases "namespaceUri i")
     (auto simp: wire_expanded_nodeid_def ExpandedNodeId_calcSizeBinary_def length_wire_nodeid
      length_wire_string String_calcSizeBinary_def)

lemma length_wire_localized:
  "length (wire_localized l t) = LocalizedText_calcSizeBinary l t"
  by (auto simp: wire_localized_def LocalizedText_calcSizeBinary_def length_wire_string
      String_calcSizeBinary_def)

lemma length_wire_opt:
  "(\<And>x. length (f x) = n) \<Longrightarrow> length (wire_opt f y) = opt_size y n"
  by (auto simp: wire_opt_def opt_size_def split: option.split)

lemma length_wrap_header:
  "wf_nodeid (binaryEncodingId (ty_at env t)) \<Longrightarrow>
   length (wrap_header env t v) = NodeId_calcSizeBinary (binaryEncodingId (ty_at env t)) + 5"
  by (simp add: wrap_header_def length_wire_nodeid)

lemma kind_number_inj: "kind_number a = kind_number b \<Longrightarrow> a = b"
  by (cases a; cases b; simp)

lemma builtin_kinds:
  assumes "builtin_env env"
  shows "kind_at env UA_TYPES_VARIANT = DK_VARIANT"
    "kind_at env UA_TYPES_DIAGNOSTICINFO = DK_DIAGNOSTICINFO"
    "kind_at env UA_TYPES_EXTENSIONOBJECT = DK_EXTENSIONOBJECT"
    "kind_at env UA_TYPES_NODEID = DK_NODEID"
  using assms by (auto simp: builtin_env_def intro: kind_number_inj)

lemma concat_map_length_const:
  "(\<And>v. v \<in> set vs \<Longrightarrow> length (f v) = n) \<Longrightarrow> length (concat (map f vs)) = n * length vs"
  by (induction vs) auto

lemma concat_map_length_sum:
  "(\<And>v. v \<in> set vs \<Longrightarrow> length (f v) = g v) \<Longrightarrow> length (concat (map f vs)) = sum_list (map g vs)"
  by (induction vs) auto

lemma wf_variant_kind: "wf_val env ty v \<Longrightarrow> kind_at env ty = DK_VARIANT \<Longrightarrow>
   v = VVariantEmpty \<or> (\<exists>t w. v = VVariantScalar t w) \<or> (\<exists>t a d. v = VVariantArray t a d)"
  by (cases v) (auto simp: kind8_def kind16_def kind32_def kind64_def kind_string_def
      elim: wf_val.elims)

lemma wf_diag_kind: "wf_val env ty v \<Longrightarrow> kind_at env ty = DK_DIAGNOSTICINFO \<Longrightarrow>
   \<exists>a b c d e f g. v = VDiagnosticInfo a b c d e f g"
  by (cases v) (auto simp: kind8_def kind16_def kind32_def kind64_def kind_string_def
      elim: wf_val.elims)

lemma Array_size:
  assumes jt: "\<And>t w. wf_val env t w \<Longrightarrow> size w < N \<Longrightarrow> jt t w = length (wire env t w)"
    and "\<forall>v \<in> set vs. wf_val env t v \<and> overlay_ok env t v" "\<forall>v \<in> set vs. size v < N"
  shows "Array_calcSizeBinary env jt t vs = length (wire_field env t (FArray (Some vs)))"
proof (cases "overlayable (ty_at env t)")
  case True
  then have "length (concat (map overlay_bytes vs)) = memSize (ty_at env t) * length vs"
    using assms(2) by (intro concat_map_length_const) (auto simp: overlay_ok_def)
  with True show ?thesis by (simp add: Array_calcSizeBinary_def)
next
  case False
  have "length (concat (map (wire env t) vs)) = sum_list (map (jt t) vs)"
    using assms by (intro concat_map_length_sum) auto
  with False show ?thesis by (simp add: Array_calcSizeBinary_def)
qed

lemma size_in_list: "v \<in> set vs \<Longrightarrow> size (v :: ua_val) \<le> size_list size vs"
  by (rule size_list_estimation') auto

lemma wrapped_list_size:
  assumes jt: "\<And>t w. wf_val env t w \<Longrightarrow> size w < N \<Longrightarrow> jt t w = length (wire env t w)"
    and "\<forall>v \<in> set vs. wf_val env t v \<and> overlay_ok env t v" "\<forall>v \<in> set vs. size v < N"
    and "wf_nodeid (binaryEncodingId (ty_at env t))"
  shows "length (concat (map (\<lambda>v. wrap_header env t v @ wire env t v) vs)) + 4 =
    Array_calcSizeBinary env jt t vs +
    (NodeId_calcSizeBinary (binaryEncodingId (ty_at env t)) + 5) * length vs"
proof -
  have "length (concat (map (\<lambda>v. wrap_header env t v @ wire env t v) vs)) =
      length (concat (map (wire env t) vs)) +
      (NodeId_calcSizeBinary (binaryEncodingId (ty_at env t)) + 5) * length vs"
    by (induction vs) (auto simp: length_wrap_header assms(4))
  moreover have "length (concat (map (wire env t) vs)) + 4 = Array_calcSizeBinary env jt t vs"
  proof -
    have "wire_field env t (FArray (Some vs)) = UA_encode32 (of_nat (length vs)) @ concat (map (wire env t) vs)"
      using assms(2) by (auto simp: overlay_ok_def cong: map_cong)
    with Array_size [OF jt assms(2,3)] show ?thesis by simp
  qed
  ultimately show ?thesis by simp
qed

lemma needs_wrap_size:
  "wrapped_size env t n = (if needs_wrap env t
     then (NodeId_calcSizeBinary (binaryEncodingId (ty_at env t)) + 5) * n else 0)"
  by (simp add: wrapped_size_def needs_wrap_def is_builtin_kind_def Let_def)

lemma Variant_size:
  assumes jt: "\<And>t w. wf_val env t w \<Longrightarrow> size w < N \<Longrightarrow> jt t w = length (wire env t w)"
    and "wf_val env ty v" "kind_at env ty = DK_VARIANT" "size v \<le> N"
  shows "Variant_calcSizeBinary env jt v = length (wire env ty' v)"
proof -
  consider "v = VVariantEmpty" | t w where "v = VVariantScalar t w"
    | t a d where "v = VVariantArray t a d"
    using wf_variant_kind [OF assms(2,3)] by blast
  then show ?thesis
  proof cases
    case 2
    then show ?thesis using assms jt [of t w]
      by (simp add: needs_wrap_size length_wrap_header)
  next
    case 3
    have dims: "length (concat (map UA_encode32 d)) = 4 * length d"
      by (rule concat_map_length_const) simp
    show ?thesis
    proof (cases a)
      case None
      then show ?thesis using 3 dims
        by (simp add: needs_wrap_size Array_calcSizeBinary_def)
    next
      case (Some vs)
      have wf: "\<forall>v \<in> set vs. wf_val env t v \<and> overlay_ok env t v" "wf_nodeid (binaryEncodingId (ty_at env t))"
        and sz: "\<forall>v \<in> set vs. size v < N"
        using assms 3 Some by (auto dest: size_in_list)
      show ?thesis
        using 3 Some dims Array_size [OF jt wf(1) sz] wrapped_list_size [OF jt wf(1) sz wf(2)]
        by (simp add: needs_wrap_size del: wire_field.simps(3))
    qed
  qed simp
qed

lemma DiagnosticInfo_size:
  assumes "builtin_env env"
  shows "wf_val env ty v \<Longrightarrow> kind_at env ty = DK_DIAGNOSTICINFO \<Longrightarrow>
    DiagnosticInfo_calcSizeBinary v = length (wire env ty' v)"
proof (induction v arbitrary: ty ty' rule: DiagnosticInfo_calcSizeBinary.induct)
  case (1 symid ns lt loc add st inner)
  have inner: "(case inner of None \<Rightarrow> 0 | Some d \<Rightarrow> DiagnosticInfo_calcSizeBinary d) =
      length (case inner of None \<Rightarrow> [] | Some d \<Rightarrow> wire env UA_TYPES_DIAGNOSTICINFO d)"
    using 1 builtin_kinds [OF assms] by (cases inner) auto
  show ?case
    using inner by (simp add: length_wire_opt [where n = 4] opt_size_def wire_opt_def
      length_wire_string String_calcSizeBinary_def split: option.splits)
qed (auto simp: kind8_def kind16_def kind32_def kind64_def kind_string_def elim: wf_val.elims)

lemma Array_None_size: "Array_calcSizeBinary env jt t [] = 4"
  by (simp add: Array_calcSizeBinary_def)

lemma field_size:
  assumes jt: "\<And>t w. wf_val env t w \<Longrightarrow> size w < N \<Longrightarrow> jt t w = length (wire env t w)"
    and wf: "wf_field env opt m f" and sz: "size f \<le> N"
  shows "member_size env jt m f =
    length (if opt \<and> isOptional m \<and> \<not> opt_present f then [] else wire_field env (memberType m) f)"
proof -
  have arr: "Array_calcSizeBinary env jt (memberType m) vs =
      length (wire_field env (memberType m) (FArray (Some vs)))"
    if "\<forall>v \<in> set vs. wf_val env (memberType m) v \<and> overlay_ok env (memberType m) v"
      "size_list size vs < N" for vs
    using that by (intro Array_size [OF jt]) (auto dest: size_in_list)
  show ?thesis
  proof (cases f)
    case (FArray a)
    then show ?thesis
      using wf sz arr by (cases a) (auto simp: Array_None_size simp del: wire_field.simps(3))
  next
    case (FOptArray a)
    then show ?thesis
      using wf sz arr by (cases a) (auto simp del: split_paired_All)
  qed (use wf sz jt in \<open>auto split: option.splits\<close>)
qed

lemma fields_size:
  assumes jt: "\<And>t w. wf_val env t w \<Longrightarrow> size w < N \<Longrightarrow> jt t w = length (wire env t w)"
  shows "wf_fields env opt ms fs \<Longrightarrow> size_list size fs \<le> N \<Longrightarrow>
    members_size env jt ms fs = length (wire_fields env opt ms fs)"
proof (induction ms arbitrary: fs)
  case Nil
  then show ?case by (cases fs) auto
next
  case (Cons m ms)
  then obtain f gs where fs: "fs = f # gs" by (cases fs) auto
  with Cons field_size [OF jt, where opt = opt and m = m and f = f] show ?case by simp
qed

lemma size_dispatch_wire:
  assumes env: "builtin_env env"
    and jt: "\<And>t w. wf_val env t w \<Longrightarrow> size w < N \<Longrightarrow> jt t w = length (wire env t w)"
    and wf: "wf_val env ty v" and sz: "size v \<le> N"
  shows "size_dispatch env jt ty v = length (wire env ty v)"
proof (cases v)
  case (VDecodedEO t x)
  with wf obtain u w where "t = Some u" "x = Some w" by (cases t; cases x) auto
  with VDecodedEO wf sz jt [of u w] show ?thesis
    by (simp add: size_dispatch_def length_wrap_header)
next
  case (VEncodedEO e tid body)
  with wf show ?thesis
    by (cases e) (simp_all add: size_dispatch_def length_wire_nodeid length_wire_string String_calcSizeBinary_def)
next
  case VVariantEmpty
  with wf show ?thesis by (simp add: size_dispatch_def)
next
  case (VVariantScalar t w)
  with Variant_size [OF jt wf _ sz] wf show ?thesis by (simp add: size_dispatch_def)
next
  case (VVariantArray t a d)
  with Variant_size [OF jt wf _ sz] wf show ?thesis
    by (simp add: size_dispatch_def del: wire.simps Variant_calcSizeBinary.simps)
next
  case (VDataValue x st sts sps vts vps)
  have "(case x of None \<Rightarrow> 0 | Some v \<Rightarrow> Variant_calcSizeBinary env jt v) =
      length (case x of None \<Rightarrow> [] | Some v \<Rightarrow> wire env UA_TYPES_VARIANT v)"
    using VDataValue wf sz Variant_size [OF jt, where ty = UA_TYPES_VARIANT and ty' = UA_TYPES_VARIANT] builtin_kinds [OF env]
    by (cases x) auto
  with VDataValue wf show ?thesis
    by (simp add: size_dispatch_def length_wire_opt [where n = 4] length_wire_opt [where n = 8]
        length_wire_opt [where n = 2])
next
  case VDiagnosticInfo
  with DiagnosticInfo_size [OF env wf] wf show ?thesis
    by (simp add: size_dispatch_def del: wire.simps DiagnosticInfo_calcSizeBinary.simps)
next
  case (VStruct fs)
  with fields_size [OF jt, where opt = "kind_at env ty = DK_OPTSTRUCT" and ms = "members (ty_at env ty)"
      and fs = fs] wf sz
  show ?thesis by (auto simp: size_dispatch_def)
next
  case (VUnion s f)
  with wf sz field_size [OF jt, where opt = False and
      m = "members (ty_at env ty) ! unat (s - 1)" and f = f]
  show ?thesis by (auto simp: size_dispatch_def)
qed (use wf in \<open>auto simp: size_dispatch_def kind8_def kind16_def kind32_def kind64_def kind_string_def
  length_wire_string String_calcSizeBinary_def length_wire_nodeid length_wire_expanded
  length_wire_localized QualifiedName_calcSizeBinary_def Guid_calcSizeBinary_def length_guid_bytes\<close>)

lemma jumpTable_size:
  assumes env: "builtin_env env"
  shows "wf_val env ty v \<Longrightarrow> size v < n \<Longrightarrow>
    calcSizeBinaryJumpTable env n ty v = length (wire env ty v)"
proof (induction n arbitrary: ty v)
  case (Suc n)
  from size_dispatch_wire [OF env Suc.IH Suc.prems(1), of n] Suc.prems(2)
  show ?case by simp
qed simp

end
