(* ===== verification/Binary_Bounds.thy ===== *)
theory Binary_Bounds
  imports Binary_Encode
begin

text \<open>
  Without an exchange callback the encoder stays inside the buffer it was given: on every outcome,
  also in the middle of a failing encoding, it has appended some bytes behind the position where it
  started, and the room has shrunk by as many.
\<close>

definition stays :: "'h encoder \<Rightarrow> bool" where
  "stays f =
     (\<forall>c r c'. f c = (r, c') \<longrightarrow> enc_cb c = None \<longrightarrow>
        enc_cb c' = None \<and> (\<exists>bs. enc_out c' = enc_out c @ bs \<and> enc_room c = enc_room c' + length bs))"

lemma staysI:
  "(\<And>c r c'. f c = (r, c') \<Longrightarrow> enc_cb c = None \<Longrightarrow>
     enc_cb c' = None \<and> (\<exists>bs. enc_out c' = enc_out c @ bs \<and> enc_room c = enc_room c' + length bs)) \<Longrightarrow>
   stays f"
  unfolding stays_def by blast

lemma staysD:
  assumes "stays f" "f c = (r, c')" "enc_cb c = None"
  obtains bs where "enc_cb c' = None" "enc_out c' = enc_out c @ bs" "enc_room c = enc_room c' + length bs"
  using assms unfolding stays_def by blast

lemma stays_return [intro, simp]: "stays (enc_return r)"
  by (rule staysI) (simp add: enc_return_def)

lemma stays_put [intro, simp]: "stays (enc_put bs)"
  by (rule staysI) (auto simp: enc_put_def split: if_splits)

lemma stays_seq [intro]: "(\<And>f. f \<in> set fs \<Longrightarrow> stays f) \<Longrightarrow> stays (enc_seq fs)"
proof (induction fs)
  case (Cons f fs)
  then have f: "stays f" and fs: "stays (enc_seq fs)" by auto
  show ?case
  proof (rule staysI)
    fix c r c' assume e: "enc_seq (f # fs) c = (r, c')" and c: "enc_cb c = None"
    obtain r1 c1 where 1: "f c = (r1, c1)" by fastforce
    from f 1 c obtain bs where b: "enc_cb c1 = None" "enc_out c1 = enc_out c @ bs"
        "enc_room c = enc_room c1 + length bs" by (rule staysD)
    show "enc_cb c' = None \<and> (\<exists>bs. enc_out c' = enc_out c @ bs \<and> enc_room c = enc_room c' + length bs)"
    proof (cases "r1 = GOOD")
      case True
      then have "enc_seq fs c1 = (r, c')" using e 1 by simp
      from fs this b(1) obtain bs2 where "enc_cb c' = None" "enc_out c' = enc_out c1 @ bs2"
          "enc_room c1 = enc_room c' + length bs2" by (rule staysD)
      then show ?thesis using b by simp
    qed (use e 1 b in auto)
  qed
qed (auto intro: staysI)

lemma stays_ors [intro]: "(\<And>f. f \<in> set fs \<Longrightarrow> stays f) \<Longrightarrow> stays (enc_ors fs)"
proof (induction fs)
  case (Cons f fs)
  then have f: "stays f" and fs: "stays (enc_ors fs)" by auto
  show ?case
  proof (rule staysI)
    fix c r c' assume e: "enc_ors (f # fs) c = (r, c')" and c: "enc_cb c = None"
    obtain r1 c1 where 1: "f c = (r1, c1)" by fastforce
    from f 1 c obtain bs where b: "enc_cb c1 = None" "enc_out c1 = enc_out c @ bs"
        "enc_room c = enc_room c1 + length bs" by (rule staysD)
    obtain r2 where "enc_ors fs c1 = (r2, c')" using e 1 by (auto split: prod.splits)
    from fs this b(1) obtain bs2 where "enc_cb c' = None" "enc_out c' = enc_out c1 @ bs2"
        "enc_room c1 = enc_room c' + length bs2" by (rule staysD)
    then show "enc_cb c' = None \<and> (\<exists>bs. enc_out c' = enc_out c @ bs \<and> enc_room c = enc_room c' + length bs)"
      using b by simp
  qed
qed (auto intro: staysI)

lemma stays_opt [intro]: "(\<And>y. x = Some y \<Longrightarrow> stays (enc y)) \<Longrightarrow> stays (enc_opt x enc)"
  by (cases x) (simp_all add: enc_opt_def)

lemma stays_nested [intro]:
  assumes "stays f" shows "stays (enc_nested f)"
proof (rule staysI)
  fix c r c' assume e: "enc_nested f c = (r, c')" and c: "enc_cb c = None"
  obtain r1 c1 where 1: "f (c\<lparr>enc_depth := enc_depth c + 1\<rparr>) = (r1, c1)" by fastforce
  from assms 1 obtain bs where "enc_cb c1 = None" "enc_out c1 = enc_out c @ bs"
      "enc_room c = enc_room c1 + length bs"
    using c by (auto elim!: staysD)
  then show "enc_cb c' = None \<and> (\<exists>bs. enc_out c' = enc_out c @ bs \<and> enc_room c = enc_room c' + length bs)"
    using e c by (auto simp: enc_nested_def 1 [simplified] Let_def split: if_splits)
qed

lemma stays_Guid [intro, simp]: "stays (Guid_encodeBinary g)"
proof (rule staysI)
  fix c r c' assume e: "Guid_encodeBinary g c = (r, c')" and c: "enc_cb c = None"
  have k: "stays (enc_ors [UInt32_encodeBinary (data1 g), UInt16_encodeBinary (data2 g),
      UInt16_encodeBinary (data3 g)])"
    by (auto simp: codec_defs intro!: stays_ors)
  obtain r1 c1 where 1: "enc_ors [UInt32_encodeBinary (data1 g), UInt16_encodeBinary (data2 g),
      UInt16_encodeBinary (data3 g)] c = (r1, c1)" by fastforce
  from k 1 c obtain bs where "enc_cb c1 = None" "enc_out c1 = enc_out c @ bs"
      "enc_room c = enc_room c1 + length bs" by (rule staysD)
  then show "enc_cb c' = None \<and> (\<exists>bs. enc_out c' = enc_out c @ bs \<and> enc_room c = enc_room c' + length bs)"
    using e [unfolded Guid_encodeBinary_def Let_def 1 prod.case] by (auto split: if_splits)
qed

lemma stays_withExchange:
  assumes "stays f"
  shows "stays (encodeWithExchangeBuffer f)"
proof (rule staysI)
  fix c r c' assume e: "encodeWithExchangeBuffer f c = (r, c')" and c: "enc_cb c = None"
  obtain r1 c1 where 1: "f c = (r1, c1)" by fastforce
  from assms 1 c obtain bs where "enc_cb c1 = None" "enc_out c1 = enc_out c @ bs"
      "enc_room c = enc_room c1 + length bs" by (rule staysD)
  then show "enc_cb c' = None \<and> (\<exists>bs. enc_out c' = enc_out c @ bs \<and> enc_room c = enc_room c' + length bs)"
    using e [unfolded encodeWithExchangeBuffer_def Let_def 1 prod.case]
    by (auto simp: exchangeBuffer_def split: if_splits)
qed

lemma stays_overlayable_loop: "stays (encode_overlayable_loop fuel bs)"
  by (cases fuel) (auto intro!: staysI simp: exchangeBuffer_def Let_def split: if_splits)

definition stays_table :: "'h enc_table \<Rightarrow> bool" where
  "stays_table jt = (\<forall>ty v. stays (jt ty v))"

lemma Array_stays:
  "(\<And>xs. stays (content xs)) \<Longrightarrow> stays (Array_encodeBinary_with a content)"
  by (auto simp: Array_encodeBinary_with_def codec_defs intro!: stays_seq stays_withExchange)

lemma String_stays: "stays (String_encodeBinary s)"
  by (auto simp: String_encodeBinary_def Array_encodeBinaryOverlayable_def
      intro!: Array_stays stays_overlayable_loop)

lemma NodeId_stays: "stays (NodeId_encodeBinaryWithEncodingMask i m)" "stays (NodeId_encodeBinary i)"
proof -
  show "stays (NodeId_encodeBinaryWithEncodingMask i m)" for m
    by (cases "nid i") (auto simp: NodeId_encodeBinaryWithEncodingMask_def Let_def codec_defs
        intro!: stays_ors stays_seq String_stays)
  then show "stays (NodeId_encodeBinary i)" by (simp add: NodeId_encodeBinary_def)
qed

lemma ExpandedNodeId_stays: "stays (ExpandedNodeId_encodeBinary i)"
  by (auto simp: ExpandedNodeId_encodeBinary_def Let_def codec_defs
      intro!: stays_seq String_stays NodeId_stays stays_withExchange)

lemma QualifiedName_stays: "stays (QualifiedName_encodeBinary ns s)"
  by (auto simp: QualifiedName_encodeBinary_def codec_defs intro!: stays_seq String_stays)

lemma LocalizedText_stays: "stays (LocalizedText_encodeBinary l t)"
  by (auto simp: LocalizedText_encodeBinary_def Let_def codec_defs intro!: stays_seq stays_ors String_stays)

lemma Array_encodeBinary_stays: "stays_table jt \<Longrightarrow> stays (Array_encodeBinary env jt ty a)"
  by (auto simp: Array_encodeBinary_def Array_encodeBinaryOverlayable_def Array_encodeBinaryComplex_def
      stays_table_def intro!: Array_stays stays_overlayable_loop stays_seq stays_withExchange)

lemma ExtensionObject_stays: "stays_table jt \<Longrightarrow> stays (ExtensionObject_encodeBinary env jt v)"
  by (induction env jt v rule: ExtensionObject_encodeBinary.induct)
    (auto simp: Let_def codec_defs stays_table_def
      intro!: stays_seq NodeId_stays String_stays stays_withExchange split: UA_ExtensionObjectEncoding.split)

lemma Variant_stays: "stays_table jt \<Longrightarrow> stays (Variant_encodeBinary env jt v)"
  by (induction env jt v rule: Variant_encodeBinary.induct)
    (auto simp: Let_def codec_defs Variant_encodeBinaryWrapExtensionObject_def
      Array_encodeBinaryOverlayable_def stays_table_def
      intro!: stays_seq stays_withExchange NodeId_stays ExtensionObject_stays Array_encodeBinary_stays Array_stays
        stays_overlayable_loop)

lemma DataValue_stays: "stays_table jt \<Longrightarrow> stays (DataValue_encodeBinary env jt v)"
  by (induction env jt v rule: DataValue_encodeBinary.induct)
    (auto simp: codec_defs intro!: stays_seq stays_ors stays_opt stays_withExchange Variant_stays)

lemma DiagnosticInfo_stays: "stays_table jt \<Longrightarrow> stays (DiagnosticInfo_encodeBinary env jt v)"
  by (induction env jt v rule: DiagnosticInfo_encodeBinary.induct)
    (auto simp: codec_defs stays_table_def intro!: stays_seq stays_ors stays_opt stays_withExchange String_stays)

lemma member_stays: "stays_table jt \<Longrightarrow> stays (encode_member env jt m f)"
  by (cases f) (auto simp: stays_table_def intro!: Array_encodeBinary_stays stays_withExchange)

lemma members_stays: "stays_table jt \<Longrightarrow> g \<in> set (encode_members env jt ms fs) \<Longrightarrow> stays g"
  by (induction env jt ms fs rule: encode_members.induct) (auto intro: member_stays)

lemma opt_members_stays:
  "stays_table jt \<Longrightarrow> g \<in> set (encode_opt_members env jt em n ms fs) \<Longrightarrow> stays g"
  by (induction env jt em n ms fs rule: encode_opt_members.induct)
    (auto simp: stays_table_def intro!: member_stays Array_encodeBinary_stays stays_withExchange
      split: if_splits ua_field.splits option.splits)

lemma struct_stays: "stays_table jt \<Longrightarrow> stays (encodeBinaryStruct env jt ty v)"
  by (induction env jt ty v rule: encodeBinaryStruct.induct)
    (auto intro!: stays_nested stays_seq intro: members_stays)

lemma optstruct_stays: "stays_table jt \<Longrightarrow> stays (encodeBinaryStructWithOptFields env jt ty v)"
  by (induction env jt ty v rule: encodeBinaryStructWithOptFields.induct)
    (auto simp: Let_def codec_defs intro!: stays_nested stays_seq intro: opt_members_stays)

lemma union_stays: "stays_table jt \<Longrightarrow> stays (encodeBinaryUnion env jt ty v)"
  by (induction env jt ty v rule: encodeBinaryUnion.induct)
    (auto simp: Let_def codec_defs intro!: stays_nested stays_seq member_stays)

lemma dispatch_stays: "stays_table jt \<Longrightarrow> stays (enc_dispatch env jt ty v)"
  by (cases "kind_at env ty")
    (simp_all add: enc_dispatch_def codec_defs String_stays NodeId_stays ExpandedNodeId_stays
      QualifiedName_stays LocalizedText_stays ExtensionObject_stays DataValue_stays Variant_stays
      DiagnosticInfo_stays struct_stays optstruct_stays union_stays split: ua_val.split)

lemma table_stays: "stays_table (encodeBinaryJumpTable env n)"
proof (induction n)
  case (Suc n)
  then show ?case
    by (auto simp: stays_table_def intro!: dispatch_stays)
qed (simp add: stays_table_def)

text \<open>The encoder as a whole: it never writes behind the end of the buffer.\<close>

lemma UA_encodeBinaryInternal_stays:
  assumes "UA_encodeBinaryInternal env v ty [] room None h = (r, c)"
  shows "length (enc_out c) \<le> room"
proof -
  have "stays (encodeWithExchangeBuffer (encodeBinaryJumpTable env (Suc (size v)) ty v))"
    using table_stays unfolding stays_table_def by (blast intro: stays_withExchange)
  from this assms [unfolded UA_encodeBinaryInternal_def] show ?thesis by (rule staysD) simp_all
qed

end
