(* ===== verification/Binary_Complete.thy ===== *)
theory Binary_Complete
  imports Binary_Typed Binary_Bounds
begin

text \<open>
  The encoder succeeds on every well-typed value that fits into its buffer, and then writes the wire
  format and nothing else. \<open>fits k f bs\<close> is the rule of composition: with room for \<open>bs\<close> and \<open>k\<close>
  levels of recursion left, \<open>f\<close> appends \<open>bs\<close> and returns \<open>GOOD\<close>, whatever the exchange callback is.
  At the end, the properties of the encoder's entry points.
\<close>

section \<open>Nesting\<close>

text \<open>
  The levels of recursion that the decoder spends on a value (\<^verbatim>\<open>ctx->depth\<close>); the encoder spends at
  most as many.
\<close>

definition max_list :: "nat list \<Rightarrow> nat" where
  "max_list ns = foldr max ns 0"

lemma max_list_simps [simp]: "max_list [] = 0" "max_list (n # ns) = max n (max_list ns)"
  by (simp_all add: max_list_def)

lemma max_list_ge: "n \<in> set ns \<Longrightarrow> n \<le> max_list ns"
  by (induction ns) auto

fun nest :: "ua_val \<Rightarrow> nat"
and nest_field :: "ua_field \<Rightarrow> nat" where
  "nest (VDecodedEO t x) = (case x of None \<Rightarrow> 0 | Some v \<Rightarrow> nest v)"
| "nest (VVariantScalar t v) = Suc (nest v)"
| "nest (VVariantArray t a dims) = Suc (case a of None \<Rightarrow> 0 | Some vs \<Rightarrow> max_list (map nest vs))"
| "nest (VDataValue x _ _ _ _ _) = Suc (case x of None \<Rightarrow> 0 | Some v \<Rightarrow> nest v)"
| "nest (VDiagnosticInfo _ _ _ _ _ _ inner) = (case inner of None \<Rightarrow> 0 | Some d \<Rightarrow> Suc (nest d))"
| "nest (VStruct fs) = Suc (max_list (map nest_field fs))"
| "nest (VUnion sel f) = Suc (nest_field f)"
| "nest _ = 0"
| "nest_field (FScalar v) = nest v"
| "nest_field (FArray a) = (case a of None \<Rightarrow> 0 | Some vs \<Rightarrow> max_list (map nest vs))"
| "nest_field (FOptScalar x) = (case x of None \<Rightarrow> 0 | Some v \<Rightarrow> nest v)"
| "nest_field (FOptArray a) = (case a of None \<Rightarrow> 0 | Some vs \<Rightarrow> max_list (map nest vs))"

section \<open>Writing what fits\<close>

definition fits :: "nat \<Rightarrow> 'h encoder \<Rightarrow> u8 list \<Rightarrow> bool" where
  "fits k f bs =
     (\<forall>c. length bs \<le> enc_room c \<longrightarrow> enc_depth c + k \<le> 101 \<longrightarrow>
        f c = (GOOD, c\<lparr>enc_out := enc_out c @ bs, enc_room := enc_room c - length bs\<rparr>))"

lemma fits_put: "fits k (enc_put bs) bs"
  by (simp add: fits_def enc_put_def)

lemma fits_return: "fits k (enc_return GOOD) []"
  by (simp add: fits_def enc_return_def)

lemma fits_seq_Nil: "fits k (enc_seq []) []"
  by (simp add: fits_def)

lemma fits_ors_Nil: "fits k (enc_ors []) []"
  by (simp add: fits_def)

lemma fits_seq_Cons:
  "fits k f a \<Longrightarrow> fits k (enc_seq fs) b \<Longrightarrow> fits k (enc_seq (f # fs)) (a @ b)"
  by (simp add: fits_def)

lemma fits_ors_Cons:
  "fits k f a \<Longrightarrow> fits k (enc_ors fs) b \<Longrightarrow> fits k (enc_ors (f # fs)) (a @ b)"
  by (simp add: fits_def)

lemma fits_exchange: "fits k f bs \<Longrightarrow> fits k (encodeWithExchangeBuffer f) bs"
  by (simp add: fits_def encodeWithExchangeBuffer_def)

lemma fits_nested: "fits k f bs \<Longrightarrow> fits (Suc k) (enc_nested f) bs"
  by (simp add: fits_def enc_nested_def UA_ENCODING_MAX_RECURSION_def)

lemma fits_cong: "fits k f bs \<Longrightarrow> bs = bs' \<Longrightarrow> k \<le> l \<Longrightarrow> fits l f bs'"
  by (simp add: fits_def)

lemma fits_eq: "fits k f bs \<Longrightarrow> bs = bs' \<Longrightarrow> fits k f bs'"
  by simp

lemma fits_if: "(b \<Longrightarrow> fits k f x) \<Longrightarrow> (\<not> b \<Longrightarrow> fits k g y) \<Longrightarrow>
   fits k (if b then f else g) (if b then x else y)"
  by simp

lemmas fits_rules = fits_put fits_return fits_seq_Nil fits_seq_Cons fits_ors_Nil fits_ors_Cons
  fits_exchange

lemma fits_ints:
  "fits k (Boolean_encodeBinary b) [b]" "fits k (Byte_encodeBinary b) [b]"
  "fits k (UInt16_encodeBinary w) (UA_encode16 w)" "fits k (UInt32_encodeBinary x) (UA_encode32 x)"
  "fits k (UInt64_encodeBinary y) (UA_encode64 y)"
  by (simp_all add: put_defs fits_put)

lemma fits_Overlayable: "fits k (Array_encodeBinaryOverlayable bs) bs"
  by (simp add: fits_def Array_encodeBinaryOverlayable_def)

lemma fits_Array_with:
  assumes "array_length a \<le> UA_INT32_MAX"
    and "0 < array_length a \<Longrightarrow> fits k (content (array_elems a)) bs"
  shows "fits k (Array_encodeBinary_with a content)
    (UA_encode32 (array_signed_length a) @ (if 0 < array_length a then bs else []))"
proof -
  have *: "fits k (enc_seq
        [encodeWithExchangeBuffer (UInt32_encodeBinary (array_signed_length a)),
         if 0 < array_length a then content (array_elems a) else enc_return GOOD])
      (UA_encode32 (array_signed_length a) @ (if 0 < array_length a then bs else []) @ [])"
    by (intro fits_rules fits_ints fits_if assms(2))
  show ?thesis
    using assms(1) * by (simp add: Array_encodeBinary_with_def not_less del: enc_seq.simps)
qed

lemma fits_String: "wf_string s \<Longrightarrow> fits k (String_encodeBinary s) (wire_string s)"
  unfolding String_encodeBinary_def
  by (rule fits_eq [OF fits_Array_with [OF _ fits_Overlayable]])
     (cases s; auto simp: wire_string_def wf_string_def)+

lemma fits_Guid: "wf_guid g \<Longrightarrow> fits k (Guid_encodeBinary g) (guid_bytes g)"
  by (auto simp: fits_def Guid_encodeBinary_def wf_guid_def guid_bytes_def put_defs enc_put_def)

lemma fits_NodeId_mask:
  "wf_nodeid i \<Longrightarrow> fits k (NodeId_encodeBinaryWithEncodingMask i m) (wire_nodeid m i)"
  apply (cases "nid i"; simp add: NodeId_encodeBinaryWithEncodingMask_def wire_nodeid_def Let_def wf_nodeid_def
      del: enc_seq.simps enc_ors.simps)
  subgoal by (intro conjI impI; (rule fits_eq, (rule fits_rules fits_ints)+)?, simp_all)
  subgoal by (rule fits_eq, (assumption | rule fits_rules fits_ints fits_String)+, simp_all)
  subgoal by (rule fits_eq, (assumption | rule fits_rules fits_ints fits_Guid)+, simp_all)
  subgoal by (rule fits_eq, (assumption | rule fits_rules fits_ints fits_String)+, simp_all)
  done

lemma fits_NodeId: "wf_nodeid i \<Longrightarrow> fits k (NodeId_encodeBinary i) (wire_nodeid 0 i)"
  by (simp add: NodeId_encodeBinary_def fits_NodeId_mask)

lemma fits_if_return: "(b \<Longrightarrow> fits k f x) \<Longrightarrow> fits k (if b then f else enc_return GOOD) (if b then x else [])"
  by (simp add: fits_return)

lemma fits_ExpandedNodeId:
  "wf_nodeid (nodeId i) \<Longrightarrow> wf_string (namespaceUri i) \<Longrightarrow>
   fits k (ExpandedNodeId_encodeBinary i) (wire_expanded_nodeid i)"
  unfolding ExpandedNodeId_encodeBinary_def wire_expanded_nodeid_def Let_def
  by (rule fits_eq, (assumption | rule fits_rules fits_ints fits_NodeId_mask fits_if_return fits_String)+) auto

lemma fits_QualifiedName:
  "wf_string s \<Longrightarrow> fits k (QualifiedName_encodeBinary ns s) (UA_encode16 ns @ wire_string s)"
  unfolding QualifiedName_encodeBinary_def
  by (rule fits_eq, (assumption | rule fits_rules fits_ints fits_String)+) auto

lemma fits_LocalizedText:
  "wf_string l \<Longrightarrow> wf_string t \<Longrightarrow> fits k (LocalizedText_encodeBinary l t) (wire_localized l t)"
  unfolding LocalizedText_encodeBinary_def wire_localized_def Let_def localized_bits
  by (rule fits_eq, (assumption | rule fits_rules fits_ints fits_if_return fits_String)+) auto

lemma fits_seq_map:
  "(\<And>v. v \<in> set vs \<Longrightarrow> fits k (f v) (g v)) \<Longrightarrow> fits k (enc_seq (map f vs)) (concat (map g vs))"
  by (induction vs) (auto intro!: fits_seq_Cons fits_seq_Nil simp del: enc_seq.simps)

lemma fits_Array:
  assumes "\<And>v. v \<in> set (array_elems a) \<Longrightarrow> fits k (jt t v) (wire env t v)"
    and "array_length a \<le> UA_INT32_MAX"
  shows "fits k (Array_encodeBinary env jt t a) (wire_field env t (FArray a))"
  unfolding Array_encodeBinary_def
proof (rule fits_eq [OF fits_Array_with [OF assms(2)]])
  show "fits k (if overlayable (ty_at env t)
      then Array_encodeBinaryOverlayable (concat (map overlay_bytes (array_elems a)))
      else Array_encodeBinaryComplex jt t (array_elems a))
    (if overlayable (ty_at env t) then concat (map overlay_bytes (array_elems a))
     else concat (map (wire env t) (array_elems a)))"
    unfolding Array_encodeBinaryComplex_def
    by (intro fits_if fits_Overlayable fits_seq_map fits_exchange assms(1))
qed (cases a; simp add: signed_length_Some signed_length_None)+

lemma UA_calcSizeBinary_wire:
  "builtin_env env \<Longrightarrow> wf_val env ty v \<Longrightarrow> UA_calcSizeBinary env v ty = length (wire env ty v)"
  by (simp add: UA_calcSizeBinary_def jumpTable_size del: calcSizeBinaryJumpTable.simps)

text \<open>The table writes every value of size less than \<open>N\<close> that is small enough.\<close>

definition table_fits :: "type_env \<Rightarrow> nat \<Rightarrow> 'h enc_table \<Rightarrow> bool" where
  "table_fits env N jt =
     (\<forall>k t w. wf_val env t w \<longrightarrow> size w < N \<longrightarrow> nest w \<le> k \<longrightarrow> length (wire env t w) \<le> UA_INT32_MAX \<longrightarrow>
        fits k (jt t w) (wire env t w))"

lemma table_fitsD:
  "table_fits env N jt \<Longrightarrow> wf_val env t w \<Longrightarrow> size w < N \<Longrightarrow> nest w \<le> k \<Longrightarrow>
   length (wire env t w) \<le> UA_INT32_MAX \<Longrightarrow> fits k (jt t w) (wire env t w)"
  by (simp add: table_fits_def)

lemma fits_DecodedEO:
  assumes "builtin_env env" "table_fits env N jt" "wf_val env t v" "size v < N" "nest v \<le> k"
    "wf_nodeid (binaryEncodingId (ty_at env t))" "length (wire env t v) \<le> UA_INT32_MAX"
  shows "fits k (ExtensionObject_encodeBinary env jt (VDecodedEO (Some t) (Some v)))
    (wrap_header env t v @ wire env t v)"
proof -
  have "UA_calcSizeBinary env v t = length (wire env t v)"
    by (rule UA_calcSizeBinary_wire) fact+
  then have len: "UA_calcSizeBinary env v t \<le> UA_INT32_MAX" using assms(7) by simp
  have tab: "fits k (jt t v) (wire env t v)" by (rule table_fitsD) fact+
  show ?thesis
    apply (simp add: Let_def len del: enc_seq.simps eo_number.simps)
    apply (rule fits_eq)
     apply (rule fits_rules fits_ints fits_NodeId assms tab)+
    apply (simp add: wrap_header_def)
    done
qed

lemma fits_EncodedEO:
  assumes "wf_nodeid tid" "wf_string body"
  shows "fits k (ExtensionObject_encodeBinary env jt (VEncodedEO e tid body))
    (wire env ty (VEncodedEO e tid body))"
  apply (cases e; simp del: enc_seq.simps eo_number.simps)
    apply (rule fits_eq, (rule fits_rules fits_ints fits_NodeId fits_return fits_String assms)+, simp)+
  done

lemma fits_Wrap:
  assumes env: "builtin_env env" and jt: "table_fits env N jt"
    and wf: "\<forall>v \<in> set vs. wf_val env t v \<and> size v < N \<and> nest v \<le> k \<and>
      length (wire env t v) \<le> UA_INT32_MAX"
    and bid: "wf_nodeid (binaryEncodingId (ty_at env t))" and len: "length vs \<le> UA_INT32_MAX"
  shows "fits k (Variant_encodeBinaryWrapExtensionObject env jt t arr vs)
    ((if arr then UA_encode32 (of_nat (length vs)) else []) @
     concat (map (\<lambda>v. wrap_header env t v @ wire env t v) vs))"
proof -
  have "fits k (enc_seq (map (\<lambda>v. encodeWithExchangeBuffer
          (ExtensionObject_encodeBinary env jt (VDecodedEO (Some t) (Some v)))) vs))
      (concat (map (\<lambda>v. wrap_header env t v @ wire env t v) vs))"
    using wf by (intro fits_seq_map fits_exchange fits_DecodedEO [OF env jt _ _ _ bid]) auto
  then have "fits k (enc_seq
      [if arr then UInt32_encodeBinary (of_nat (length vs)) else enc_return GOOD,
       enc_seq (map (\<lambda>v. encodeWithExchangeBuffer
         (ExtensionObject_encodeBinary env jt (VDecodedEO (Some t) (Some v)))) vs)])
    ((if arr then UA_encode32 (of_nat (length vs)) else []) @
     concat (map (\<lambda>v. wrap_header env t v @ wire env t v) vs) @ [])"
    by (intro fits_rules fits_if_return fits_ints)
  then show ?thesis
    using len by (simp add: Variant_encodeBinaryWrapExtensionObject_def
      del: enc_seq.simps ExtensionObject_encodeBinary.simps)
qed

lemma sum_list_member_le: "x \<in> set xs \<Longrightarrow> length (f x) \<le> length (concat (map f xs))"
  by (induction xs) auto

lemma nest_in_list: "v \<in> set vs \<Longrightarrow> nest v \<le> max_list (map nest vs)"
  by (simp add: max_list_ge)

lemma fits_elems:
  assumes jt: "table_fits env N jt"
    and wf: "\<forall>v \<in> set vs. wf_val env t v \<and> overlay_ok env t v"
    and "size_list size vs < N" "max_list (map nest vs) \<le> k"
    and "length (wire_field env t (FArray (Some vs))) \<le> UA_INT32_MAX" "v \<in> set vs"
  shows "fits k (jt t v) (wire env t v)"
proof (rule table_fitsD [OF jt])
  have "map overlay_bytes vs = map (wire env t) vs" if "overlayable (ty_at env t)"
    using wf that by (auto simp: overlay_ok_def)
  then have "length (concat (map (wire env t) vs)) \<le> UA_INT32_MAX"
    using assms(5) by (cases "overlayable (ty_at env t)") (simp_all del: map_eq_conv)
  with sum_list_member_le [OF assms(6), of "wire env t"]
  show "length (wire env t v) \<le> UA_INT32_MAX" by linarith
qed (use assms size_in_list [OF assms(6)] nest_in_list [OF assms(6)] in auto)

lemma fits_dims:
  "length dims \<le> UA_INT32_MAX \<Longrightarrow> dims \<noteq> [] \<Longrightarrow>
   fits k (Array_encodeBinary_with (Some dims)
      (\<lambda>ds. Array_encodeBinaryOverlayable (concat (map UA_encode32 ds))))
     (UA_encode32 (of_nat (length dims)) @ concat (map UA_encode32 dims))"
  by (rule fits_eq [OF fits_Array_with [OF _ fits_Overlayable]]) (simp_all add: signed_length_Some)

lemma fits_Variant:
  assumes env: "builtin_env env" and jt: "table_fits env N jt"
    and wf: "wf_val env ty v" "kind_at env ty = DK_VARIANT" and sz: "size v \<le> N"
    and nest: "nest v \<le> k" and len: "length (wire env ty' v) \<le> UA_INT32_MAX"
  shows "fits k (Variant_encodeBinary env jt v) (wire env ty' v)"
proof -
  consider "v = VVariantEmpty" | t w where "v = VVariantScalar t w"
    | t a d where "v = VVariantArray t a d"
    using wf_variant_kind [OF wf] by blast
  then show ?thesis
  proof cases
    case 1
    then show ?thesis by (simp add: fits_ints)
  next
    case 2
    have w: "fits k (jt t w) (wire env t w)"
      by (rule table_fitsD [OF jt]) (use 2 wf sz nest len in auto)
    have wr: "fits k (Variant_encodeBinaryWrapExtensionObject env jt t False [w])
       (wrap_header env t w @ wire env t w)"
      by (rule fits_eq [OF fits_Wrap [OF env jt]]) (use 2 wf sz nest len in \<open>auto simp: UA_INT32_MAX_def\<close>)
    show ?thesis unfolding 2
      apply (simp add: Let_def needs_wrap_def del: enc_seq.simps)
      apply (intro conjI impI; rule fits_eq, (rule fits_rules fits_ints fits_if_return w wr)+, simp)
      done
  next
    case 3
    have dims: "fits k (Array_encodeBinary_with (Some d)
          (\<lambda>ds. Array_encodeBinaryOverlayable (concat (map UA_encode32 ds))))
         (UA_encode32 (of_nat (length d)) @ concat (map UA_encode32 d))" if "d \<noteq> []"
      using 3 wf that by (intro fits_dims) auto
    have arr: "fits k (Array_encodeBinary env jt t a) (wire_field env t (FArray a))"
      if "\<not> needs_wrap env t"
    proof (rule fits_Array)
      fix w assume w: "w \<in> set (array_elems a)"
      then obtain vs where a: "a = Some vs" by (cases a) auto
      show "fits k (jt t w) (wire env t w)"
        by (rule fits_elems [OF jt, where vs = vs])
          (use 3 a w wf sz nest len that in \<open>auto simp del: wire_field.simps\<close>)
    qed (use 3 wf in auto)
    have wr: "fits k (Variant_encodeBinaryWrapExtensionObject env jt t True (array_elems a))
       (UA_encode32 (of_nat (array_length a)) @
        concat (map (\<lambda>v. wrap_header env t v @ wire env t v) (array_elems a)))"
      if "needs_wrap env t"
    proof (rule fits_eq [OF fits_Wrap [OF env jt, where k = k]])
      show "\<forall>v\<in>set (array_elems a). wf_val env t v \<and> size v < N \<and> nest v \<le> k \<and>
          length (wire env t v) \<le> UA_INT32_MAX"
      proof
        fix w assume w: "w \<in> set (array_elems a)"
        then obtain vs where a: "a = Some vs" and w': "w \<in> set vs" by (cases a) auto
        have "length (wrap_header env t w @ wire env t w) \<le> UA_INT32_MAX"
          using sum_list_member_le [OF w', of "\<lambda>v. wrap_header env t v @ wire env t v"] len 3 a that
          by simp
        then show "wf_val env t w \<and> size w < N \<and> nest w \<le> k \<and> length (wire env t w) \<le> UA_INT32_MAX"
          using 3 a w' wf sz nest size_in_list [OF w'] nest_in_list [OF w'] by auto
      qed
    qed (use 3 wf in \<open>cases a; auto\<close>)+
    show ?thesis unfolding 3
      apply (simp add: Let_def needs_wrap_def [symmetric] del: enc_seq.simps)
      apply (intro conjI impI; rule fits_eq, (rule fits_rules fits_ints fits_if_return fits_return dims
            arr wr | assumption)+, (cases a; simp))
      done
  qed
qed

lemma fits_enc_opt:
  "(\<And>y. x = Some y \<Longrightarrow> fits k (f y) (g y)) \<Longrightarrow> fits k (enc_opt x f) (wire_opt g x)"
  by (cases x) (auto simp: enc_opt_def wire_opt_def fits_return)

lemma fits_DataValue:
  assumes env: "builtin_env env" and jt: "table_fits env N jt"
    and wf: "wf_val env ty (VDataValue x st sts sps vts vps)"
    and sz: "size (VDataValue x st sts sps vts vps) \<le> N"
    and nest: "nest (VDataValue x st sts sps vts vps) \<le> k"
    and len: "length (wire env ty (VDataValue x st sts sps vts vps)) \<le> UA_INT32_MAX"
  shows "fits k (DataValue_encodeBinary env jt (VDataValue x st sts sps vts vps))
    (wire env ty (VDataValue x st sts sps vts vps))"
proof -
  have v: "fits k (enc_opt x (Variant_encodeBinary env jt)) (wire_opt (wire env UA_TYPES_VARIANT) x)"
  proof (rule fits_enc_opt)
    fix y assume "x = Some y"
    then show "fits k (Variant_encodeBinary env jt y) (wire env UA_TYPES_VARIANT y)"
      using wf sz nest len builtin_kinds [OF env] by (intro fits_Variant [OF env jt]) auto
  qed
  show ?thesis
    apply (simp del: enc_seq.simps enc_ors.simps)
    apply (rule fits_eq)
     apply (rule fits_rules fits_ints v fits_enc_opt)+
    apply (simp add: wire_opt_def split: option.split)
    done
qed

lemma fits_DiagnosticInfo:
  assumes env: "builtin_env env" and jt: "table_fits env N jt"
    and v: "v = VDiagnosticInfo symid ns lt loc add st inner"
    and wf: "wf_val env ty v" and sz: "size v \<le> N"
    and nest: "nest v \<le> k" and len: "length (wire env ty v) \<le> UA_INT32_MAX"
  shows "fits k (DiagnosticInfo_encodeBinary env jt v) (wire env ty v)"
proof -
  have i: "fits k (enc_opt inner (\<lambda>x. encodeWithExchangeBuffer (jt UA_TYPES_DIAGNOSTICINFO x)))
      (wire_opt (wire env UA_TYPES_DIAGNOSTICINFO) inner)"
  proof (intro fits_enc_opt fits_exchange)
    fix y assume "inner = Some y"
    then show "fits k (jt UA_TYPES_DIAGNOSTICINFO y) (wire env UA_TYPES_DIAGNOSTICINFO y)"
      using v wf sz nest len by (intro table_fitsD [OF jt]) auto
  qed
  have s: "fits k (enc_opt add String_encodeBinary) (wire_opt wire_string add)"
    using wf v by (intro fits_enc_opt fits_String) auto
  show ?thesis unfolding v
    apply (simp del: enc_seq.simps enc_ors.simps)
    apply (rule fits_eq)
     apply (rule fits_rules fits_ints s i fits_enc_opt)+
    apply (simp add: wire_opt_def split: option.split)
    done
qed

lemma fits_member:
  assumes jt: "table_fits env N jt" and wf: "wf_field env opt m f"
    and "\<not> (opt \<and> isOptional m)" and sz: "size f \<le> N" and nest: "nest_field f \<le> k"
    and len: "length (wire_field env (memberType m) f) \<le> UA_INT32_MAX"
  shows "fits k (encode_member env jt m f) (wire_field env (memberType m) f)"
proof (cases f)
  case (FScalar v)
  then show ?thesis
    using assms by (auto intro!: fits_exchange table_fitsD [OF jt])
next
  case (FArray a)
  have "fits k (Array_encodeBinary env jt (memberType m) a) (wire_field env (memberType m) (FArray a))"
  proof (rule fits_Array)
    fix w assume w: "w \<in> set (array_elems a)"
    then obtain vs where a: "a = Some vs" by (cases a) auto
    show "fits k (jt (memberType m) w) (wire env (memberType m) w)"
      by (rule fits_elems [OF jt, where vs = vs])
        (use FArray a w wf sz nest len in \<open>auto simp del: wire_field.simps\<close>)
  qed (use FArray wf in auto)
  with FArray wf show ?thesis by simp
qed (use wf assms(3) in auto)

lemma fits_members:
  assumes jt: "table_fits env N jt"
  shows "wf_fields env False ms fs \<Longrightarrow> size_list size fs \<le> N \<Longrightarrow>
    max_list (map nest_field fs) \<le> k \<Longrightarrow> length (wire_fields env False ms fs) \<le> UA_INT32_MAX \<Longrightarrow>
    fits k (enc_seq (encode_members env jt ms fs)) (wire_fields env False ms fs)"
proof (induction ms arbitrary: fs)
  case Nil
  then show ?case by (cases fs) (auto simp: fits_seq_Nil simp del: enc_seq.simps)
next
  case (Cons m ms)
  then obtain f gs where fs: "fs = f # gs" by (cases fs) auto
  have f: "fits k (encode_member env jt m f) (wire_field env (memberType m) f)"
    using Cons.prems fs by (intro fits_member [OF jt, where opt = False]) auto
  show ?case
    using Cons fs fits_seq_Cons [OF f] by (auto simp del: enc_seq.simps)
qed

text \<open>An optional member, present or absent.\<close>

lemma fits_opt_member:
  assumes jt: "table_fits env N jt" and wf: "wf_field env True m f" and opt: "isOptional m"
    and sz: "size f \<le> N" and nest: "nest_field f \<le> k"
    and len: "length (wire_field env (memberType m) f) \<le> UA_INT32_MAX"
  shows "opt_present f \<Longrightarrow>
    fits k (case f of
       FOptArray (Some xs) \<Rightarrow>
         if isArray m then Array_encodeBinary env jt (memberType m) (Some xs)
         else enc_return STATUS_UNDEFINED
     | FOptScalar (Some v) \<Rightarrow>
         if isArray m then enc_return STATUS_UNDEFINED
         else encodeWithExchangeBuffer (jt (memberType m) v)
     | _ \<Rightarrow> enc_return STATUS_UNDEFINED) (wire_field env (memberType m) f)"
proof (cases f)
  case (FOptScalar x)
  assume "opt_present f"
  with FOptScalar assms show ?thesis
    by (cases x) (auto intro!: fits_exchange table_fitsD [OF jt])
next
  case (FOptArray a)
  assume "opt_present f"
  with FOptArray obtain vs where a: "a = Some vs" by (cases a) auto
  have len': "length (wire_field env (memberType m) (FArray (Some vs))) \<le> UA_INT32_MAX"
    using len FOptArray a by simp
  have "fits k (Array_encodeBinary env jt (memberType m) (Some vs))
      (wire_field env (memberType m) (FArray (Some vs)))"
  proof (rule fits_Array)
    fix w assume w: "w \<in> set (array_elems (Some vs))"
    show "fits k (jt (memberType m) w) (wire env (memberType m) w)"
      by (rule fits_elems [OF jt, where vs = vs])
        (use FOptArray a w wf sz nest len' in \<open>auto simp del: wire_field.simps\<close>)
  qed (use FOptArray a wf in auto)
  with FOptArray a wf show ?thesis by simp
qed auto

lemma fits_opt_members:
  assumes jt: "table_fits env N jt"
  shows "wf_fields env True ms fs \<Longrightarrow> size_list size fs \<le> N \<Longrightarrow>
    max_list (map nest_field fs) \<le> k \<Longrightarrow> length (wire_fields env True ms fs) \<le> UA_INT32_MAX \<Longrightarrow>
    i + length (filter isOptional ms) \<le> 32 \<Longrightarrow>
    (\<And>n. i \<le> n \<Longrightarrow> n < 32 \<Longrightarrow> bit w n = bit (opt_encodingMask i ms fs) n) \<Longrightarrow>
    fits k (enc_seq (encode_opt_members env jt w i ms fs)) (wire_fields env True ms fs)"
proof (induction ms arbitrary: fs i)
  case Nil
  then show ?case by (cases fs) (auto simp: fits_seq_Nil simp del: enc_seq.simps)
next
  case (Cons m ms)
  then obtain f gs where fs: "fs = f # gs" by (cases fs) auto
  show ?case
  proof (cases "isOptional m")
    case False
    have f: "fits k (encode_member env jt m f) (wire_field env (memberType m) f)"
      using Cons.prems fs False by (intro fits_member [OF jt, where opt = True]) auto
    have "fits k (enc_seq (encode_opt_members env jt w i ms gs)) (wire_fields env True ms gs)"
      using Cons.prems fs False by (intro Cons.IH) auto
    from fits_seq_Cons [OF f this] show ?thesis using fs False by (simp del: enc_seq.simps)
  next
    case opt: True
    have i: "i < 32" using Cons.prems(5) opt by simp
    then have b: "(w AND push_bit i 1 = 0) = (\<not> opt_present f)"
      using Cons.prems(6) [of i] opt_encodingMask_head [OF opt i] fs and_push_bit_1 by simp
    have tl: "fits k (enc_seq (encode_opt_members env jt w (Suc i) ms gs)) (wire_fields env True ms gs)"
      using Cons.prems fs opt opt_encodingMask_tail [OF opt] by (intro Cons.IH) auto
    show ?thesis
    proof (cases "opt_present f")
      case False
      then show ?thesis
        using fits_seq_Cons [OF fits_return tl] fs opt i b by (simp del: enc_seq.simps push_bit_of_1)
    next
      case True
      have hd: "fits k (case f of
           FOptArray (Some xs) \<Rightarrow>
             if isArray m then Array_encodeBinary env jt (memberType m) (Some xs)
             else enc_return STATUS_UNDEFINED
         | FOptScalar (Some v) \<Rightarrow>
             if isArray m then enc_return STATUS_UNDEFINED
             else encodeWithExchangeBuffer (jt (memberType m) v)
         | _ \<Rightarrow> enc_return STATUS_UNDEFINED) (wire_field env (memberType m) f)"
        using Cons.prems fs True opt by (intro fits_opt_member [OF jt]) auto
      show ?thesis
        using fits_seq_Cons [OF hd tl] fs opt i b True by (simp del: enc_seq.simps push_bit_of_1)
    qed
  qed
qed

lemma fits_Struct:
  assumes jt: "table_fits env N jt"
    and wf: "wf_val env ty (VStruct fs)" "kind_at env ty = DK_STRUCTURE"
    and sz: "size (VStruct fs) \<le> N" and nest: "nest (VStruct fs) \<le> k"
    and len: "length (wire env ty (VStruct fs)) \<le> UA_INT32_MAX"
  shows "fits k (encodeBinaryStruct env jt ty (VStruct fs)) (wire env ty (VStruct fs))"
proof -
  obtain k' where k: "k = Suc k'" using nest by (cases k) auto
  have "fits k' (enc_seq (encode_members env jt (members (ty_at env ty)) fs))
      (wire_fields env False (members (ty_at env ty)) fs)"
    using wf sz nest len k by (intro fits_members [OF jt]) auto
  from fits_nested [OF this] show ?thesis using k wf by simp
qed

lemma fits_OptStruct:
  assumes jt: "table_fits env N jt"
    and wf: "wf_val env ty (VStruct fs)" "kind_at env ty = DK_OPTSTRUCT"
    and sz: "size (VStruct fs) \<le> N" and nest: "nest (VStruct fs) \<le> k"
    and len: "length (wire env ty (VStruct fs)) \<le> UA_INT32_MAX"
  shows "fits k (encodeBinaryStructWithOptFields env jt ty (VStruct fs)) (wire env ty (VStruct fs))"
proof -
  obtain k' where k: "k = Suc k'" using nest by (cases k) auto
  have "fits k' (enc_seq (encode_opt_members env jt
        (opt_encodingMask 0 (members (ty_at env ty)) fs) 0 (members (ty_at env ty)) fs))
      (wire_fields env True (members (ty_at env ty)) fs)"
    using wf sz nest len k by (intro fits_opt_members [OF jt]) auto
  from fits_nested [OF fits_seq_Cons [OF fits_ints(4) this]] show ?thesis
    using k wf by (simp add: Let_def del: enc_seq.simps)
qed

lemma fits_Union:
  assumes jt: "table_fits env N jt"
    and wf: "wf_val env ty (VUnion sel f)"
    and sz: "size (VUnion sel f) \<le> N" and nest: "nest (VUnion sel f) \<le> k"
    and len: "length (wire env ty (VUnion sel f)) \<le> UA_INT32_MAX"
  shows "fits k (encodeBinaryUnion env jt ty (VUnion sel f)) (wire env ty (VUnion sel f))"
proof -
  obtain k' where k: "k = Suc k'" using nest by (cases k) auto
  let ?ms = "members (ty_at env ty)"
  have "fits k' (if sel = 0 then enc_return GOOD
       else if unat (sel - 1) < length ?ms then encode_member env jt (?ms ! unat (sel - 1)) f
       else enc_return STATUS_UNDEFINED)
     (if sel = 0 then [] else wire_field env (memberType (?ms ! unat (sel - 1))) f)"
    using wf sz nest len k
    by (auto simp: fits_return intro!: fits_member [OF jt, where opt = False])
  from fits_nested [OF fits_seq_Cons [OF fits_ints(4) fits_seq_Cons [OF this fits_seq_Nil]]]
  show ?thesis using k wf by (simp add: Let_def del: enc_seq.simps)
qed

lemma fits_dispatch:
  assumes env: "builtin_env env" and jt: "table_fits env N jt"
    and wf: "wf_val env ty v" and sz: "size v \<le> N" and nest: "nest v \<le> k"
    and len: "length (wire env ty v) \<le> UA_INT32_MAX"
  shows "fits k (enc_dispatch env jt ty v) (wire env ty v)"
proof (cases v)
  case (VDecodedEO t x)
  with wf obtain u w where "t = Some u" "x = Some w" by (cases t; cases x) auto
  with VDecodedEO wf sz nest len show ?thesis
    using fits_DecodedEO [OF env jt, of u w k]
    by (simp add: enc_dispatch_def del: ExtensionObject_encodeBinary.simps)
next
  case (VEncodedEO e tid body)
  with wf show ?thesis
    using fits_EncodedEO [of tid body k env jt e ty]
    by (simp add: enc_dispatch_def del: ExtensionObject_encodeBinary.simps wire.simps)
next
  case VVariantEmpty
  with wf show ?thesis by (simp add: enc_dispatch_def fits_ints)
next
  case (VVariantScalar t w)
  with fits_Variant [OF env jt wf _ sz nest len] wf show ?thesis
    by (simp add: enc_dispatch_def del: Variant_encodeBinary.simps)
next
  case (VVariantArray t a d)
  with fits_Variant [OF env jt wf _ sz nest len] wf show ?thesis
    by (simp add: enc_dispatch_def del: Variant_encodeBinary.simps wire.simps)
next
  case (VDataValue x st sts sps vts vps)
  with fits_DataValue [OF env jt] wf sz nest len show ?thesis
    by (simp add: enc_dispatch_def del: DataValue_encodeBinary.simps wire.simps nest.simps)
next
  case (VDiagnosticInfo symid ns lt loc add st inner)
  with fits_DiagnosticInfo [OF env jt VDiagnosticInfo wf sz nest len] wf show ?thesis
    by (simp add: enc_dispatch_def del: DiagnosticInfo_encodeBinary.simps wire.simps nest.simps)
next
  case (VStruct fs)
  then have "kind_at env ty = DK_STRUCTURE \<or> kind_at env ty = DK_OPTSTRUCT" using wf by simp
  with VStruct fits_Struct [OF jt] fits_OptStruct [OF jt] wf sz nest len show ?thesis
    by (auto simp: enc_dispatch_def simp del: encodeBinaryStruct.simps
        encodeBinaryStructWithOptFields.simps wire.simps nest.simps wf_val.simps)
next
  case (VUnion s f)
  with fits_Union [OF jt] wf sz nest len show ?thesis
    by (simp add: enc_dispatch_def del: encodeBinaryUnion.simps wire.simps nest.simps)
qed (use wf in \<open>auto simp: enc_dispatch_def kind8_def kind16_def kind32_def kind64_def kind_string_def
  fits_ints fits_String fits_Guid fits_NodeId fits_ExpandedNodeId fits_QualifiedName
  fits_LocalizedText\<close>)

lemma table_fits_jumpTable:
  assumes env: "builtin_env env"
  shows "table_fits env n (encodeBinaryJumpTable env n)"
proof (induction n)
  case 0
  show ?case by (simp add: table_fits_def)
next
  case (Suc n)
  show ?case unfolding table_fits_def
    using fits_dispatch [OF env Suc.IH] by simp
qed

lemma fits_apply:
  "fits k f bs \<Longrightarrow> length bs \<le> enc_room c \<Longrightarrow> enc_depth c + k \<le> 101 \<Longrightarrow>
   f c = (GOOD, c\<lparr>enc_out := enc_out c @ bs, enc_room := enc_room c - length bs\<rparr>)"
  by (simp add: fits_def)

text \<open>The encoder writes every well-typed value that fits into the buffer.\<close>

lemma UA_encodeBinaryInternal_fits:
  assumes "builtin_env env" "wf_val env ty v" "nest v \<le> 101"
    "length (wire env ty v) \<le> room" "length (wire env ty v) \<le> UA_INT32_MAX"
  shows "UA_encodeBinaryInternal env v ty pos room cb h =
    (GOOD, \<lparr>enc_out = pos @ wire env ty v, enc_room = room - length (wire env ty v), enc_depth = 0,
            enc_cb = cb, enc_handle = h\<rparr>)"
  unfolding UA_encodeBinaryInternal_def
  by (subst fits_apply [OF fits_exchange [OF table_fitsD [OF table_fits_jumpTable
          [OF assms(1)] assms(2) _ assms(3) assms(5)]]])
    (use assms(4) in simp_all)

section \<open>A concrete type table\<close>

text \<open>
  The builtin types at their addresses, and at address 25 a structure of an unsigned integer, a
  string and an array of integers.
\<close>

definition builtin_kind_list :: "UA_DataTypeKind list" where
  "builtin_kind_list =
     [DK_BOOLEAN, DK_SBYTE, DK_BYTE, DK_INT16, DK_UINT16, DK_INT32, DK_UINT32, DK_INT64, DK_UINT64,
      DK_FLOAT, DK_DOUBLE, DK_STRING, DK_DATETIME, DK_GUID, DK_BYTESTRING, DK_XMLELEMENT, DK_NODEID,
      DK_EXPANDEDNODEID, DK_STATUSCODE, DK_QUALIFIEDNAME, DK_LOCALIZEDTEXT, DK_EXTENSIONOBJECT,
      DK_DATAVALUE, DK_VARIANT, DK_DIAGNOSTICINFO]"

definition numeric_id :: "nat \<Rightarrow> UA_NodeId" where
  "numeric_id n = \<lparr>namespaceIndex = 0, nid = NumericId (of_nat n)\<rparr>"

definition demo_members :: "UA_DataTypeMember list" where
  "demo_members =
     [\<lparr>memberType = UA_TYPES_UINT32, isArray = False, isOptional = False\<rparr>,
      \<lparr>memberType = 11, isArray = False, isOptional = False\<rparr>,
      \<lparr>memberType = UA_TYPES_INT32, isArray = True, isOptional = False\<rparr>]"

definition demo_env :: type_env where
  "demo_env =
     \<lparr>ty_at = (\<lambda>t. \<lparr>typeId = numeric_id t, binaryEncodingId = numeric_id (t + 1000), memSize = 4,
                  typeKind = (if t < 25 then builtin_kind_list ! t else DK_STRUCTURE),
                  overlayable = (t = UA_TYPES_INT32),
                  members = (if t < 25 then [] else demo_members)\<rparr>),
      UA_TYPES_COUNT = 26\<rparr>"

definition demo_struct :: ua_val where
  "demo_struct =
     VStruct [FScalar (VU32 7), FScalar (VString (Some [104, 105])), FArray (Some [VU32 1, VU32 2])]"

definition demo_val :: ua_val where
  "demo_val = VVariantScalar 25 demo_struct"

lemma all_less_25:
  "(\<forall>i < (25 :: nat). P i) \<longleftrightarrow>
   P 0 \<and> P 1 \<and> P 2 \<and> P 3 \<and> P 4 \<and> P 5 \<and> P 6 \<and> P 7 \<and> P 8 \<and> P 9 \<and> P 10 \<and> P 11 \<and> P 12 \<and>
   P 13 \<and> P 14 \<and> P 15 \<and> P 16 \<and> P 17 \<and> P 18 \<and> P 19 \<and> P 20 \<and> P 21 \<and> P 22 \<and> P 23 \<and> P 24"
  by (simp add: eval_nat_numeral All_less_Suc2)

lemma demo_builtin_env: "builtin_env demo_env"
  by (simp add: builtin_env_def all_less_25 demo_env_def builtin_kind_list_def)

lemmas demo_defs = demo_env_def demo_members_def demo_val_def demo_struct_def builtin_kind_list_def
  numeric_id_def kind32_def kind_string_def wf_string_def wf_nodeid_def overlay_ok_def UA_INT32_MAX_def
  wire_string_def wire_nodeid_def wrap_header_def needs_wrap_def is_builtin_kind_def is_numeric_def
  variant_type_bits_def array_signed_length_def

lemma demo_wf: "wf_val demo_env UA_TYPES_VARIANT demo_val" "nest demo_val \<le> 101"
  "length (wire demo_env UA_TYPES_VARIANT demo_val) \<le> UA_INT32_MAX"
  by (simp_all add: demo_defs)

lemma demo_size: "UA_calcSizeBinary demo_env demo_struct 25 = 22"
  by (simp add: UA_calcSizeBinary_def demo_defs size_dispatch_def String_calcSizeBinary_def
      Array_calcSizeBinary_def)

lemma demo_wire:
  "wire demo_env UA_TYPES_VARIANT demo_val =
    [22, 1, 0, 1, 4, 1, 22, 0, 0, 0, 7, 0, 0, 0, 2, 0, 0, 0, 104, 105, 2, 0, 0, 0,
     1, 0, 0, 0, 2, 0, 0, 0]"
  using demo_size by (simp add: demo_val_def wrap_header_def)
    (simp add: demo_defs UA_encode16_def UA_encode32_def)

section \<open>The entry points\<close>

context exchange_buffer
begin

lemma UA_encodeBinaryInternal_emits:
  assumes "hinv h (length pos + room)"
    and "UA_encodeBinaryInternal env v ty pos room cbo h = (r, c)"
  shows "r = GOOD \<and> live cbo hinv c \<and> sent (enc_handle c) @ enc_out c = sent h @ pos @ wire env ty v \<or> hard r"
  using withExchange_emits [OF jumpTable_emits order_refl, THEN emitsD,
      OF _ assms(2) [unfolded UA_encodeBinaryInternal_def]] assms(1)
  by (auto simp: total_def outcome_def live_def)

end

text \<open>Without a callback the contract of the exchange holds at once: no exchange succeeds.\<close>

interpretation no_exchange:
  exchange_buffer "None :: unit exchange option" "\<lambda>_. []" "\<lambda>_ _. True"
  by unfold_locales auto

lemma demo_encoded:
  "UA_encodeBinary demo_env (\<lambda>_. False) demo_val UA_TYPES_VARIANT 40 =
    (GOOD, 32, [22, 1, 0, 1, 4, 1, 22, 0, 0, 0, 7, 0, 0, 0, 2, 0, 0, 0, 104, 105, 2, 0, 0, 0,
            1, 0, 0, 0, 2, 0, 0, 0])"
  by (simp add: UA_encodeBinary_def UA_encodeBinaryInternal_fits demo_builtin_env demo_wf(1,2) demo_wire
      UA_INT32_MAX_def)

lemma demo_encoded_alloc:
  "UA_encodeBinary demo_env (\<lambda>_. True) demo_val UA_TYPES_VARIANT 0 =
    (GOOD, 32, [22, 1, 0, 1, 4, 1, 22, 0, 0, 0, 7, 0, 0, 0, 2, 0, 0, 0, 104, 105, 2, 0, 0, 0,
            1, 0, 0, 0, 2, 0, 0, 0])"
  by (simp add: UA_encodeBinary_def UA_calcSizeBinary_wire UA_encodeBinaryInternal_fits
      demo_builtin_env demo_wf(1,2) demo_wire UA_INT32_MAX_def)

text \<open>
  C1: when \<^verbatim>\<open>UA_encodeBinary\<close> reports success, the output buffer holds exactly the wire format of the
  value and its length is set to the length of that. Otherwise the status code is an error, and not
  the internal \<^verbatim>\<open>BadEncodingLimitsExceeded\<close>; a buffer that was allocated by the function is empty again,
  and a buffer of the caller keeps its length, the bytes written so far being inside it.
\<close>

theorem UA_encodeBinary_refines_wire:
  assumes "UA_encodeBinary env mem_ok v ty outLen = (r, len, out)"
  shows "if r = GOOD then out = wire env ty v \<and> len = length out \<and> (outLen \<noteq> 0 \<longrightarrow> len \<le> outLen)
    else r \<noteq> LIMITS \<and> (if outLen = 0 then len = 0 \<and> out = [] else len = outLen \<and> length out \<le> len)"
proof -
  obtain r1 c1 where c: "UA_encodeBinaryInternal env v ty []
      (if outLen = 0 then UA_calcSizeBinary env v ty else outLen) None () = (r1, c1)" by fastforce
  note assms [unfolded UA_encodeBinary_def Let_def c prod.case]
  with no_exchange.UA_encodeBinaryInternal_emits [OF TrueI c] UA_encodeBinaryInternal_stays [OF c]
  show ?thesis by (auto dest: hard_neq split: if_splits)
qed

lemma UA_encodeBinary_refines_wire_witness:
  "wire demo_env UA_TYPES_VARIANT demo_val =
    [22, 1, 0, 1, 4, 1, 22, 0, 0, 0, 7, 0, 0, 0, 2, 0, 0, 0, 104, 105, 2, 0, 0, 0,
     1, 0, 0, 0, 2, 0, 0, 0]"
  using UA_encodeBinary_refines_wire [OF demo_encoded] by simp



text \<open>
  C3: the size that \<^verbatim>\<open>UA_calcSizeBinary\<close> computes is the number of bytes of the wire format, for every
  well-typed value. (The encoder allocates with it and writes it in front of the body of an
  extension object.)
\<close>

theorem UA_calcSizeBinary_exact:
  "builtin_env env \<Longrightarrow> wf_val env ty v \<Longrightarrow> UA_calcSizeBinary env v ty = length (wire env ty v)"
  by (rule UA_calcSizeBinary_wire)

lemma UA_calcSizeBinary_exact_witness:
  "UA_calcSizeBinary demo_env demo_val UA_TYPES_VARIANT = 32"
  using UA_calcSizeBinary_exact [OF demo_builtin_env demo_wf(1)] by (simp add: demo_wire)

end
