(* ===== verification/Binary_Decode.thy ===== *)
theory Binary_Decode
  imports Builtin_Types
begin

text \<open>
  The binary decoder of \<^verbatim>\<open>src/ua_types_encoding_binary.c\<close>, one definition per C function.

  A decoder takes the context (\<^verbatim>\<open>Ctx\<close>: the buffer, the read position, the recursion depth, the
  custom types) and returns the status, the decoded value and the context. After a failure the C
  code clears the destination, so the value that a decoder returns with a status other than
  \<open>GOOD\<close> has no meaning. \<open>dec_alloc\<close> says of the \<open>n\<close>-th allocation whether it succeeds: every
  \<^verbatim>\<open>UA_calloc\<close> and \<^verbatim>\<open>UA_new\<close> of the decoder asks it, and its failure is the code's
  \<^verbatim>\<open>UA_STATUSCODE_BADOUTOFMEMORY\<close> branch.

  The read position can move past the end of the buffer: the length field in front of the body of an
  extension object is skipped without a check, as in the code.
\<close>

section \<open>The decoding context\<close>

record dec_ctx =
  dec_buf :: "u8 list"
  dec_pos :: nat
  dec_depth :: nat
  dec_custom :: "tyref list list"
  dec_alloc :: "nat \<Rightarrow> bool"
  dec_allocs :: nat

type_synonym 'a decoder = "dec_ctx \<Rightarrow> status \<times> 'a \<times> dec_ctx"
type_synonym dec_table = "tyref \<Rightarrow> ua_val decoder"

abbreviation DEC_MAX_RECURSION :: nat where "DEC_MAX_RECURSION \<equiv> 100"

text \<open>\<^verbatim>\<open>UA_CHECK(pos + n <= end, return BADDECODINGERROR)\<close>, then read \<open>n\<close> bytes and advance.\<close>

definition dec_take :: "nat \<Rightarrow> (u8 list \<Rightarrow> 'a) \<Rightarrow> 'a \<Rightarrow> 'a decoder" where
  "dec_take n f z c =
     (if dec_pos c + n \<le> length (dec_buf c)
      then (GOOD, f (take n (drop (dec_pos c) (dec_buf c))), c\<lparr>dec_pos := dec_pos c + n\<rparr>)
      else (UA_STATUSCODE_BADDECODINGERROR, z, c))"

definition dec_calloc :: "dec_ctx \<Rightarrow> bool \<times> dec_ctx" where
  "dec_calloc c = (dec_alloc c (dec_allocs c), c\<lparr>dec_allocs := Suc (dec_allocs c)\<rparr>)"

text \<open>\<open>dec_opt b f x\<close>: \<^verbatim>\<open>if(b) ret |= f(...)\<close>, leaving \<open>x\<close> when the flag is not set.\<close>

definition dec_opt :: "bool \<Rightarrow> 'a decoder \<Rightarrow> 'a option decoder" where
  "dec_opt b f c =
     (if b then (let (r, x, c1) = f c in (r, Some x, c1)) else (GOOD, None, c))"

section \<open>Integer types\<close>

definition Boolean_decodeBinary :: "u8 decoder" where
  "Boolean_decodeBinary = dec_take 1 (\<lambda>b. if 0 < b ! 0 then 1 else 0) 0"

definition Byte_decodeBinary :: "u8 decoder" where
  "Byte_decodeBinary = dec_take 1 (\<lambda>b. b ! 0) 0"

definition UInt16_decodeBinary :: "u16 decoder" where
  "UInt16_decodeBinary = dec_take 2 UA_decode16 0"

definition UInt32_decodeBinary :: "u32 decoder" where
  "UInt32_decodeBinary = dec_take 4 UA_decode32 0"

definition UInt64_decodeBinary :: "u64 decoder" where
  "UInt64_decodeBinary = dec_take 8 UA_decode64 0"

section \<open>Array handling\<close>

primrec decode_elems :: "nat \<Rightarrow> 'a decoder \<Rightarrow> 'a list decoder" where
  "decode_elems 0 elem c = (GOOD, [], c)"
| "decode_elems (Suc n) elem c =
     (let (r, x, c1) = elem c
      in if r = GOOD then (let (r', xs, c2) = decode_elems n elem c1 in (r', x # xs, c2))
         else (r, [], c1))"

text \<open>
  \<open>msize\<close> and \<open>overlay\<close> are \<^verbatim>\<open>type->memSize\<close> and \<^verbatim>\<open>type->overlayable\<close>; \<open>from_memory n bs\<close> are the
  \<open>n\<close> elements that \<^verbatim>\<open>memcpy\<close> puts into memory.
\<close>

definition Array_decodeBinary_with ::
    "nat \<Rightarrow> bool \<Rightarrow> (nat \<Rightarrow> u8 list \<Rightarrow> 'a list) \<Rightarrow> 'a decoder \<Rightarrow> 'a list option decoder" where
  "Array_decodeBinary_with msize overlay from_memory elem c =
     (let (ret, signed_length, c1) = UInt32_decodeBinary c
      in if ret \<noteq> GOOD then (ret, None, c1)
         else if sint signed_length \<le> 0
         then (GOOD, if sint signed_length < 0 then None else Some [], c1)
         else
           (let len = nat (sint signed_length)
            in if \<not> dec_pos c1 + (msize * len) div 128 \<le> length (dec_buf c1)
               then (UA_STATUSCODE_BADDECODINGERROR, None, c1)
               else
                 (let (ok, c2) = dec_calloc c1
                  in if \<not> ok then (UA_STATUSCODE_BADOUTOFMEMORY, None, c2)
                     else if overlay then
                       (if \<not> dec_pos c2 + msize * len \<le> length (dec_buf c2)
                        then (UA_STATUSCODE_BADDECODINGERROR, None, c2)
                        else (GOOD,
                              Some (from_memory len (take (msize * len) (drop (dec_pos c2) (dec_buf c2)))),
                              c2\<lparr>dec_pos := dec_pos c2 + msize * len\<rparr>))
                     else
                       (let (r, xs, c3) = decode_elems len elem c2
                        in if r = GOOD then (GOOD, Some xs, c3) else (r, None, c3)))))"

text \<open>
  Reading an element out of memory that was copied from the stream. The members of an overlayable
  structure follow each other without padding. Structures nest at most \<open>overlay_fuel\<close> deep.
\<close>

fun overlay_members ::
    "type_env \<Rightarrow> (tyref \<Rightarrow> u8 list \<Rightarrow> ua_val) \<Rightarrow> UA_DataTypeMember list \<Rightarrow> u8 list \<Rightarrow> ua_field list" where
  "overlay_members env rd [] bs = []"
| "overlay_members env rd (m # ms) bs =
     (let n = memSize (ty_at env (memberType m))
      in FScalar (rd (memberType m) (take n bs)) # overlay_members env rd ms (drop n bs))"

definition guid_of_bytes :: "u8 list \<Rightarrow> UA_Guid" where
  "guid_of_bytes bs =
     \<lparr>data1 = UA_decode32 bs, data2 = UA_decode16 (drop 4 bs), data3 = UA_decode16 (drop 6 bs),
      data4 = take 8 (drop 8 bs)\<rparr>"

primrec overlay_read :: "type_env \<Rightarrow> nat \<Rightarrow> tyref \<Rightarrow> u8 list \<Rightarrow> ua_val" where
  "overlay_read env 0 ty bs = VStruct []"
| "overlay_read env (Suc n) ty bs =
     (case kind_at env ty of
        DK_BOOLEAN \<Rightarrow> VU8 (bs ! 0) | DK_SBYTE \<Rightarrow> VU8 (bs ! 0) | DK_BYTE \<Rightarrow> VU8 (bs ! 0)
      | DK_INT16 \<Rightarrow> VU16 (UA_decode16 bs) | DK_UINT16 \<Rightarrow> VU16 (UA_decode16 bs)
      | DK_INT32 \<Rightarrow> VU32 (UA_decode32 bs) | DK_UINT32 \<Rightarrow> VU32 (UA_decode32 bs)
      | DK_FLOAT \<Rightarrow> VU32 (UA_decode32 bs) | DK_STATUSCODE \<Rightarrow> VU32 (UA_decode32 bs)
      | DK_ENUM \<Rightarrow> VU32 (UA_decode32 bs)
      | DK_INT64 \<Rightarrow> VU64 (UA_decode64 bs) | DK_UINT64 \<Rightarrow> VU64 (UA_decode64 bs)
      | DK_DOUBLE \<Rightarrow> VU64 (UA_decode64 bs) | DK_DATETIME \<Rightarrow> VU64 (UA_decode64 bs)
      | DK_GUID \<Rightarrow> VGuid (guid_of_bytes bs)
      | _ \<Rightarrow> VStruct (overlay_members env (overlay_read env n) (members (ty_at env ty)) bs))"

definition overlay_fuel :: nat where
  "overlay_fuel = 102"

definition overlay_array :: "type_env \<Rightarrow> tyref \<Rightarrow> nat \<Rightarrow> u8 list \<Rightarrow> ua_val list" where
  "overlay_array env ty n bs =
     (let sz = memSize (ty_at env ty)
      in map (\<lambda>i. overlay_read env overlay_fuel ty (take sz (drop (i * sz) bs))) [0..<n])"

definition Array_decodeBinary :: "type_env \<Rightarrow> dec_table \<Rightarrow> tyref \<Rightarrow> ua_val list option decoder" where
  "Array_decodeBinary env jt ty =
     Array_decodeBinary_with (memSize (ty_at env ty)) (overlayable (ty_at env ty))
       (overlay_array env ty) (jt ty)"

section \<open>Builtin types\<close>

definition String_decodeBinary :: "UA_String decoder" where
  "String_decodeBinary = Array_decodeBinary_with 1 True (\<lambda>n bs. bs) Byte_decodeBinary"

definition Guid_decodeBinary :: "UA_Guid decoder" where
  "Guid_decodeBinary c =
     (let (r1, d1, c1) = UInt32_decodeBinary c;
          (r2, d2, c2) = UInt16_decodeBinary c1;
          (r3, d3, c3) = UInt16_decodeBinary c2;
          ret = r1 OR r2 OR r3
      in if dec_pos c3 + 8 \<le> length (dec_buf c3)
         then (ret, \<lparr>data1 = d1, data2 = d2, data3 = d3,
                     data4 = take 8 (drop (dec_pos c3) (dec_buf c3))\<rparr>,
               c3\<lparr>dec_pos := dec_pos c3 + 8\<rparr>)
         else (UA_STATUSCODE_BADDECODINGERROR,
               \<lparr>data1 = d1, data2 = d2, data3 = d3, data4 = replicate 8 0\<rparr>, c3))"

definition UA_NODEID_NULL :: UA_NodeId where
  "UA_NODEID_NULL = \<lparr>namespaceIndex = 0, nid = NumericId 0\<rparr>"

definition NodeId_decodeBinary :: "UA_NodeId decoder" where
  "NodeId_decodeBinary c =
     (let (ret, b, c1) = Byte_decodeBinary c
      in if ret \<noteq> GOOD then (ret, UA_NODEID_NULL, c1)
         else
           (let encodingByte = b AND NOT (0x40 OR 0x80)
            in if encodingByte = 0 then
                 (let (r, x, c2) = Byte_decodeBinary c1
                  in (r, \<lparr>namespaceIndex = 0, nid = NumericId (ucast x)\<rparr>, c2))
               else if encodingByte = 1 then
                 (let (r1, ns, c2) = Byte_decodeBinary c1; (r2, x, c3) = UInt16_decodeBinary c2
                  in (r1 OR r2, \<lparr>namespaceIndex = ucast ns, nid = NumericId (ucast x)\<rparr>, c3))
               else if encodingByte = 2 then
                 (let (r1, ns, c2) = UInt16_decodeBinary c1; (r2, x, c3) = UInt32_decodeBinary c2
                  in (r1 OR r2, \<lparr>namespaceIndex = ns, nid = NumericId x\<rparr>, c3))
               else if encodingByte = 3 then
                 (let (r1, ns, c2) = UInt16_decodeBinary c1; (r2, s, c3) = String_decodeBinary c2
                  in (r1 OR r2, \<lparr>namespaceIndex = ns, nid = StringId s\<rparr>, c3))
               else if encodingByte = 4 then
                 (let (r1, ns, c2) = UInt16_decodeBinary c1; (r2, g, c3) = Guid_decodeBinary c2
                  in (r1 OR r2, \<lparr>namespaceIndex = ns, nid = GuidId g\<rparr>, c3))
               else if encodingByte = 5 then
                 (let (r1, ns, c2) = UInt16_decodeBinary c1; (r2, s, c3) = String_decodeBinary c2
                  in (r1 OR r2, \<lparr>namespaceIndex = ns, nid = ByteStringId s\<rparr>, c3))
               else (UA_STATUSCODE_BADINTERNALERROR, UA_NODEID_NULL, c1)))"

definition ExpandedNodeId_decodeBinary :: "UA_ExpandedNodeId decoder" where
  "ExpandedNodeId_decodeBinary c =
     (if \<not> dec_pos c + 1 \<le> length (dec_buf c)
      then (UA_STATUSCODE_BADDECODINGERROR,
            \<lparr>nodeId = UA_NODEID_NULL, namespaceUri = None, serverIndex = 0\<rparr>, c)
      else
        (let encoding = dec_buf c ! dec_pos c;
             (r1, i, c1) = NodeId_decodeBinary c;
             hasUri = (encoding AND 0x80 \<noteq> 0);
             i' = (if hasUri then i\<lparr>namespaceIndex := 0\<rparr> else i);
             (r2, uri, c2) = dec_opt hasUri String_decodeBinary c1;
             (r3, si, c3) = dec_opt (encoding AND 0x40 \<noteq> 0) UInt32_decodeBinary c2
         in (r1 OR r2 OR r3,
             \<lparr>nodeId = i', namespaceUri = (case uri of None \<Rightarrow> None | Some s \<Rightarrow> s),
              serverIndex = (case si of None \<Rightarrow> 0 | Some x \<Rightarrow> x)\<rparr>, c3)))"

definition QualifiedName_decodeBinary :: "(u16 \<times> UA_String) decoder" where
  "QualifiedName_decodeBinary c =
     (let (r1, ns, c1) = UInt16_decodeBinary c; (r2, s, c2) = String_decodeBinary c1
      in (r1 OR r2, (ns, s), c2))"

definition LocalizedText_decodeBinary :: "(UA_String \<times> UA_String) decoder" where
  "LocalizedText_decodeBinary c =
     (let (r1, encoding, c1) = Byte_decodeBinary c;
          (r2, l, c2) = dec_opt (encoding AND 1 \<noteq> 0) String_decodeBinary c1;
          (r3, t, c3) = dec_opt (encoding AND 2 \<noteq> 0) String_decodeBinary c2
      in (r1 OR r2 OR r3,
          (case l of None \<Rightarrow> None | Some s \<Rightarrow> s, case t of None \<Rightarrow> None | Some s \<Rightarrow> s), c3))"

text \<open>
  \<^verbatim>\<open>UA_NodeId_equal\<close> compares strings by length and content, so a NULL string equals an empty one.
\<close>

definition UA_NodeId_equal :: "UA_NodeId \<Rightarrow> UA_NodeId \<Rightarrow> bool" where
  "UA_NodeId_equal a b =
     (namespaceIndex a = namespaceIndex b \<and>
      (case (nid a, nid b) of
         (NumericId m, NumericId n) \<Rightarrow> m = n
       | (StringId s, StringId t) \<Rightarrow> array_elems s = array_elems t
       | (GuidId g, GuidId h) \<Rightarrow> g = h
       | (ByteStringId s, ByteStringId t) \<Rightarrow> array_elems s = array_elems t
       | _ \<Rightarrow> False))"

text \<open>
  The builtin table is searched for numeric ids only, and compared by the numeric field; its
  encoding ids are numeric. Then the arrays of custom types in their order.
\<close>

definition UA_findDataTypeByBinaryInternal ::
    "type_env \<Rightarrow> tyref list list \<Rightarrow> UA_NodeId \<Rightarrow> tyref option" where
  "UA_findDataTypeByBinaryInternal env customTypes tid =
     (let builtin =
        (case nid tid of
           NumericId n \<Rightarrow>
             find (\<lambda>i. nid (binaryEncodingId (ty_at env i)) = NumericId n \<and>
                       namespaceIndex (binaryEncodingId (ty_at env i)) = namespaceIndex tid)
               [0..<UA_TYPES_COUNT env]
         | _ \<Rightarrow> None)
      in case builtin of
           Some t \<Rightarrow> Some t
         | None \<Rightarrow> find (\<lambda>t. UA_NodeId_equal tid (binaryEncodingId (ty_at env t))) (concat customTypes))"

text \<open>\<^verbatim>\<open>UA_NodeId_copy\<close> allocates for a non-empty string and leaves the null id when that fails.\<close>

definition NodeId_copy :: "UA_NodeId \<Rightarrow> dec_ctx \<Rightarrow> UA_NodeId \<times> dec_ctx" where
  "NodeId_copy i c =
     (case nid i of
        StringId s \<Rightarrow>
          if above_sentinel s then
            (let (ok, c1) = dec_calloc c in (if ok then i else UA_NODEID_NULL, c1)) else (i, c)
      | ByteStringId s \<Rightarrow>
          if above_sentinel s then
            (let (ok, c1) = dec_calloc c in (if ok then i else UA_NODEID_NULL, c1)) else (i, c)
      | _ \<Rightarrow> (i, c))"

section \<open>Extension objects, variants, data values, diagnostics\<close>

definition ExtensionObject_decodeBinaryContent ::
    "type_env \<Rightarrow> dec_table \<Rightarrow> UA_NodeId \<Rightarrow> ua_val decoder" where
  "ExtensionObject_decodeBinaryContent env jt tid c =
     (case UA_findDataTypeByBinaryInternal env (dec_custom c) tid of
        None \<Rightarrow>
          (let (i, c1) = NodeId_copy tid c;
               (r, body, c2) = String_decodeBinary c1
           in (r, VEncodedEO EO_BYTESTRING i body, c2))
      | Some t \<Rightarrow>
          (let (ok, c1) = dec_calloc c
           in if \<not> ok then (UA_STATUSCODE_BADOUTOFMEMORY, VDecodedEO None None, c1)
              else (let (r, v, c2) = jt t (c1\<lparr>dec_pos := dec_pos c1 + 4\<rparr>)
                    in (r, VDecodedEO (Some t) (Some v), c2))))"

definition ExtensionObject_decodeBinary :: "type_env \<Rightarrow> dec_table \<Rightarrow> ua_val decoder" where
  "ExtensionObject_decodeBinary env jt c =
     (let (r1, binTypeId, c1) = NodeId_decodeBinary c;
          (r2, encoding, c2) = Byte_decodeBinary c1
      in if r1 OR r2 \<noteq> GOOD then (r1 OR r2, VEncodedEO EO_NOBODY UA_NODEID_NULL None, c2)
         else if encoding = 1 then ExtensionObject_decodeBinaryContent env jt binTypeId c2
         else if encoding = 0 then (GOOD, VEncodedEO EO_NOBODY binTypeId None, c2)
         else if encoding = 2 then
           (let (r, body, c3) = String_decodeBinary c2 in (r, VEncodedEO EO_XML binTypeId body, c3))
         else (UA_STATUSCODE_BADDECODINGERROR, VEncodedEO EO_NOBODY UA_NODEID_NULL None, c2))"

definition Variant_decodeBinaryUnwrapExtensionObject ::
    "type_env \<Rightarrow> dec_table \<Rightarrow> ua_val decoder" where
  "Variant_decodeBinaryUnwrapExtensionObject env jt c =
     (let old_pos = dec_pos c;
          (r1, tid, c1) = NodeId_decodeBinary c
      in if r1 \<noteq> GOOD then (r1, VVariantEmpty, c1)
         else
           (let (r2, encoding, c2) = Byte_decodeBinary c1
            in if r2 \<noteq> GOOD then (r2, VVariantEmpty, c2)
               else
                 (let (t, c3) =
                    (case (if encoding = 1 then UA_findDataTypeByBinaryInternal env (dec_custom c2) tid
                           else None) of
                       Some t \<Rightarrow> (t, c2\<lparr>dec_pos := dec_pos c2 + 4\<rparr>)
                     | None \<Rightarrow> (UA_TYPES_EXTENSIONOBJECT, c2\<lparr>dec_pos := old_pos\<rparr>));
                    (ok, c4) = dec_calloc c3
                  in if \<not> ok then (UA_STATUSCODE_BADOUTOFMEMORY, VVariantEmpty, c4)
                     else (let (r, v, c5) = jt t c4 in (r, VVariantScalar t v, c5)))))"

definition Variant_decodeContent ::
    "type_env \<Rightarrow> dec_table \<Rightarrow> u8 \<Rightarrow> nat \<Rightarrow> ua_val decoder" where
  "Variant_decodeContent env jt encodingByte k c =
     (if encodingByte AND 0x80 \<noteq> 0 then
        (let (r1, a, c1) = Array_decodeBinary env jt k c
         in if encodingByte AND 0x40 \<noteq> 0 then
              (let (r2, dims, c2) =
                 Array_decodeBinary_with 4 True
                   (\<lambda>n bs. map (\<lambda>i. UA_decode32 (drop (i * 4) bs)) [0..<n]) UInt32_decodeBinary c1
               in (r1 OR r2, VVariantArray k a (array_elems dims), c2))
            else (r1, VVariantArray k a [], c1))
      else if k \<noteq> UA_TYPES_EXTENSIONOBJECT then
        (let (ok, c1) = dec_calloc c
         in if \<not> ok then (UA_STATUSCODE_BADOUTOFMEMORY, VVariantEmpty, c1)
            else (let (r, v, c2) = jt k c1 in (r, VVariantScalar k v, c2)))
      else Variant_decodeBinaryUnwrapExtensionObject env jt c)"

definition Variant_decodeBinary :: "type_env \<Rightarrow> dec_table \<Rightarrow> ua_val decoder" where
  "Variant_decodeBinary env jt c =
     (let (ret, encodingByte, c1) = Byte_decodeBinary c
      in if ret \<noteq> GOOD then (ret, VVariantEmpty, c1)
         else if encodingByte = 0 then (GOOD, VVariantEmpty, c1)
         else
           (let bits = unat (encodingByte AND 0x3F); k = bits - 1
            in if bits = 0 \<or> kind_number DK_DIAGNOSTICINFO < k
               then (UA_STATUSCODE_BADDECODINGERROR, VVariantEmpty, c1)
               else if k = kind_number DK_VARIANT \<and> encodingByte AND 0x80 = 0
               then (UA_STATUSCODE_BADDECODINGERROR, VVariantEmpty, c1)
               else if DEC_MAX_RECURSION < dec_depth c1
               then (UA_STATUSCODE_BADENCODINGERROR, VVariantEmpty, c1)
               else
                 (let (r, v, c2) =
                    Variant_decodeContent env jt encodingByte k (c1\<lparr>dec_depth := dec_depth c1 + 1\<rparr>)
                  in (r, v, c2\<lparr>dec_depth := dec_depth c2 - 1\<rparr>))))"

definition MAX_PICO_SECONDS :: u16 where
  "MAX_PICO_SECONDS = 9999"

definition Picoseconds_decode :: "u16 decoder" where
  "Picoseconds_decode c =
     (let (r, x, c1) = UInt16_decodeBinary c
      in (r, if MAX_PICO_SECONDS < x then MAX_PICO_SECONDS else x, c1))"

definition DataValue_decodeBinary :: "type_env \<Rightarrow> dec_table \<Rightarrow> ua_val decoder" where
  "DataValue_decodeBinary env jt c =
     (let (r0, m, c0) = Byte_decodeBinary c;
          empty = VDataValue None None None None None None
      in if r0 \<noteq> GOOD then (r0, empty, c0)
         else if DEC_MAX_RECURSION < dec_depth c0 then (UA_STATUSCODE_BADENCODINGERROR, empty, c0)
         else
           (let c1 = c0\<lparr>dec_depth := dec_depth c0 + 1\<rparr>;
                (r1, val, c2) = dec_opt (m AND 0x01 \<noteq> 0) (Variant_decodeBinary env jt) c1;
                (r2, st, c3) = dec_opt (m AND 0x02 \<noteq> 0) UInt32_decodeBinary c2;
                (r3, sts, c4) = dec_opt (m AND 0x04 \<noteq> 0) UInt64_decodeBinary c3;
                (r4, sps, c5) = dec_opt (m AND 0x10 \<noteq> 0) Picoseconds_decode c4;
                (r5, vts, c6) = dec_opt (m AND 0x08 \<noteq> 0) UInt64_decodeBinary c5;
                (r6, vps, c7) = dec_opt (m AND 0x20 \<noteq> 0) Picoseconds_decode c6
            in (r1 OR r2 OR r3 OR r4 OR r5 OR r6, VDataValue val st sts sps vts vps,
                c7\<lparr>dec_depth := dec_depth c7 - 1\<rparr>)))"

definition empty_diag :: ua_val where
  "empty_diag = VDiagnosticInfo None None None None None None None"

text \<open>
  \<^verbatim>\<open>DiagnosticInfo_decodeBinary\<close> calls itself under the recursion check, so 102 levels are never
  exceeded.
\<close>

primrec DiagnosticInfo_decodeBinary :: "nat \<Rightarrow> ua_val decoder" where
  "DiagnosticInfo_decodeBinary 0 c = (STATUS_UNDEFINED, empty_diag, c)"
| "DiagnosticInfo_decodeBinary (Suc n) c =
     (let (r0, m, c0) = Byte_decodeBinary c
      in if r0 \<noteq> GOOD then (r0, empty_diag, c0)
         else
           (let (r1, symid, c1) = dec_opt (m AND 0x01 \<noteq> 0) UInt32_decodeBinary c0;
                (r2, ns, c2) = dec_opt (m AND 0x02 \<noteq> 0) UInt32_decodeBinary c1;
                (r3, lt, c3) = dec_opt (m AND 0x04 \<noteq> 0) UInt32_decodeBinary c2;
                (r4, loc, c4) = dec_opt (m AND 0x08 \<noteq> 0) UInt32_decodeBinary c3;
                (r5, add, c5) = dec_opt (m AND 0x10 \<noteq> 0) String_decodeBinary c4;
                (r6, st, c6) = dec_opt (m AND 0x20 \<noteq> 0) UInt32_decodeBinary c5;
                ret = r1 OR r2 OR r3 OR r4 OR r5 OR r6
            in if m AND 0x40 = 0 then (ret, VDiagnosticInfo symid ns lt loc add st None, c6)
               else
                 (let (ok, c7) = dec_calloc c6
                  in if \<not> ok then (UA_STATUSCODE_BADOUTOFMEMORY, empty_diag, c7)
                     else if DEC_MAX_RECURSION < dec_depth c7
                     then (UA_STATUSCODE_BADENCODINGERROR, empty_diag, c7)
                     else
                       (let (r7, inner, c8) =
                          DiagnosticInfo_decodeBinary n (c7\<lparr>dec_depth := dec_depth c7 + 1\<rparr>)
                        in (ret OR r7, VDiagnosticInfo symid ns lt loc add st (Some inner),
                            c8\<lparr>dec_depth := dec_depth c8 - 1\<rparr>)))))"

section \<open>Structured types\<close>

text \<open>
  \<open>dec_nested\<close>: the recursion check, one level deeper, and back. (After a failed allocation of an
  optional field the code returns without the decrement; the whole decoding then fails and the
  context is dropped.)
\<close>

definition dec_nested :: "'a \<Rightarrow> 'a decoder \<Rightarrow> 'a decoder" where
  "dec_nested z body c =
     (if DEC_MAX_RECURSION < dec_depth c then (UA_STATUSCODE_BADENCODINGERROR, z, c)
      else (let (r, x, c1) = body (c\<lparr>dec_depth := dec_depth c + 1\<rparr>)
            in (r, x, c1\<lparr>dec_depth := dec_depth c1 - 1\<rparr>)))"

definition decode_member :: "type_env \<Rightarrow> dec_table \<Rightarrow> UA_DataTypeMember \<Rightarrow> ua_field decoder" where
  "decode_member env jt m c =
     (if isArray m
      then (let (r, a, c1) = Array_decodeBinary env jt (memberType m) c in (r, FArray a, c1))
      else (let (r, v, c1) = jt (memberType m) c in (r, FScalar v, c1)))"

primrec decode_members ::
    "type_env \<Rightarrow> dec_table \<Rightarrow> UA_DataTypeMember list \<Rightarrow> ua_field list decoder" where
  "decode_members env jt [] c = (GOOD, [], c)"
| "decode_members env jt (m # ms) c =
     (let (r, f, c1) = decode_member env jt m c
      in if r = GOOD then (let (r', fs, c2) = decode_members env jt ms c1 in (r', f # fs, c2))
         else (r, [], c1))"

definition decodeBinaryStructure :: "type_env \<Rightarrow> dec_table \<Rightarrow> tyref \<Rightarrow> ua_val decoder" where
  "decodeBinaryStructure env jt ty =
     dec_nested (VStruct [])
       (\<lambda>c. let (r, fs, c1) = decode_members env jt (members (ty_at env ty)) c in (r, VStruct fs, c1))"

definition decode_opt_member ::
    "type_env \<Rightarrow> dec_table \<Rightarrow> bool \<Rightarrow> UA_DataTypeMember \<Rightarrow> ua_field decoder" where
  "decode_opt_member env jt present m c =
     (if \<not> present then (GOOD, if isArray m then FOptArray None else FOptScalar None, c)
      else if isArray m
      then (let (r, a, c1) = Array_decodeBinary env jt (memberType m) c in (r, FOptArray a, c1))
      else (let (ok, c1) = dec_calloc c
            in if \<not> ok then (UA_STATUSCODE_BADOUTOFMEMORY, FOptScalar None, c1)
               else (let (r, v, c2) = jt (memberType m) c1 in (r, FOptScalar (Some v), c2))))"

primrec decode_opt_members ::
    "type_env \<Rightarrow> dec_table \<Rightarrow> u32 \<Rightarrow> nat \<Rightarrow> UA_DataTypeMember list \<Rightarrow> ua_field list decoder" where
  "decode_opt_members env jt w i [] c = (GOOD, [], c)"
| "decode_opt_members env jt w i (m # ms) c =
     (let (r, f, c1) =
        (if isOptional m
         then if 32 \<le> i then (STATUS_UNDEFINED, FOptScalar None, c)
              else decode_opt_member env jt (w AND push_bit i 1 \<noteq> 0) m c
         else decode_member env jt m c)
      in if r = GOOD
         then (let (r', fs, c2) =
                 decode_opt_members env jt w (if isOptional m then Suc i else i) ms c1
               in (r', f # fs, c2))
         else (r, [], c1))"

definition decodeBinaryStructureWithOptFields ::
    "type_env \<Rightarrow> dec_table \<Rightarrow> tyref \<Rightarrow> ua_val decoder" where
  "decodeBinaryStructureWithOptFields env jt ty =
     dec_nested (VStruct [])
       (\<lambda>c. let (r, w, c1) = UInt32_decodeBinary c
            in if r \<noteq> GOOD then (r, VStruct [], c1)
               else (let (r', fs, c2) = decode_opt_members env jt w 0 (members (ty_at env ty)) c1
                     in (r', VStruct fs, c2)))"

definition decodeBinaryUnion :: "type_env \<Rightarrow> dec_table \<Rightarrow> tyref \<Rightarrow> ua_val decoder" where
  "decodeBinaryUnion env jt ty c =
     (let z = VUnion 0 (FScalar VVariantEmpty)
      in if DEC_MAX_RECURSION < dec_depth c then (UA_STATUSCODE_BADENCODINGERROR, z, c)
         else
           (let (r, selection, c1) = UInt32_decodeBinary c
            in if r \<noteq> GOOD then (r, z, c1)
               else if selection = 0 then (GOOD, z, c1)
               else if \<not> unat (selection - 1) < length (members (ty_at env ty))
               then (UA_STATUSCODE_BADDECODINGERROR, z, c1)
               else
                 (let m = members (ty_at env ty) ! unat (selection - 1);
                      (r', f, c2) = decode_member env jt m (c1\<lparr>dec_depth := dec_depth c1 + 1\<rparr>)
                  in (r', VUnion selection f, c2\<lparr>dec_depth := dec_depth c2 - 1\<rparr>))))"

section \<open>The jump table and the entry points\<close>

definition dec_map :: "('a \<Rightarrow> 'b) \<Rightarrow> 'a decoder \<Rightarrow> 'b decoder" where
  "dec_map g f c = (let (r, x, c1) = f c in (r, g x, c1))"

definition dec_fail :: "status \<Rightarrow> ua_val decoder" where
  "dec_fail r c = (r, VVariantEmpty, c)"

definition dec_dispatch :: "type_env \<Rightarrow> dec_table \<Rightarrow> dec_table" where
  "dec_dispatch env jt ty =
     (case kind_at env ty of
        DK_BOOLEAN \<Rightarrow> dec_map VU8 Boolean_decodeBinary
      | DK_SBYTE \<Rightarrow> dec_map VU8 Byte_decodeBinary
      | DK_BYTE \<Rightarrow> dec_map VU8 Byte_decodeBinary
      | DK_INT16 \<Rightarrow> dec_map VU16 UInt16_decodeBinary
      | DK_UINT16 \<Rightarrow> dec_map VU16 UInt16_decodeBinary
      | DK_INT32 \<Rightarrow> dec_map VU32 UInt32_decodeBinary
      | DK_UINT32 \<Rightarrow> dec_map VU32 UInt32_decodeBinary
      | DK_INT64 \<Rightarrow> dec_map VU64 UInt64_decodeBinary
      | DK_UINT64 \<Rightarrow> dec_map VU64 UInt64_decodeBinary
      | DK_FLOAT \<Rightarrow> dec_map VU32 UInt32_decodeBinary
      | DK_DOUBLE \<Rightarrow> dec_map VU64 UInt64_decodeBinary
      | DK_STRING \<Rightarrow> dec_map VString String_decodeBinary
      | DK_DATETIME \<Rightarrow> dec_map VU64 UInt64_decodeBinary
      | DK_GUID \<Rightarrow> dec_map VGuid Guid_decodeBinary
      | DK_BYTESTRING \<Rightarrow> dec_map VString String_decodeBinary
      | DK_XMLELEMENT \<Rightarrow> dec_map VString String_decodeBinary
      | DK_NODEID \<Rightarrow> dec_map VNodeId NodeId_decodeBinary
      | DK_EXPANDEDNODEID \<Rightarrow> dec_map VExpandedNodeId ExpandedNodeId_decodeBinary
      | DK_STATUSCODE \<Rightarrow> dec_map VU32 UInt32_decodeBinary
      | DK_QUALIFIEDNAME \<Rightarrow> dec_map (\<lambda>(ns, s). VQualifiedName ns s) QualifiedName_decodeBinary
      | DK_LOCALIZEDTEXT \<Rightarrow> dec_map (\<lambda>(l, t). VLocalizedText l t) LocalizedText_decodeBinary
      | DK_EXTENSIONOBJECT \<Rightarrow> ExtensionObject_decodeBinary env jt
      | DK_DATAVALUE \<Rightarrow> DataValue_decodeBinary env jt
      | DK_VARIANT \<Rightarrow> Variant_decodeBinary env jt
      | DK_DIAGNOSTICINFO \<Rightarrow> DiagnosticInfo_decodeBinary 102
      | DK_DECIMAL \<Rightarrow> dec_fail UA_STATUSCODE_BADNOTIMPLEMENTED
      | DK_ENUM \<Rightarrow> dec_map VU32 UInt32_decodeBinary
      | DK_STRUCTURE \<Rightarrow> decodeBinaryStructure env jt ty
      | DK_OPTSTRUCT \<Rightarrow> decodeBinaryStructureWithOptFields env jt ty
      | DK_UNION \<Rightarrow> decodeBinaryUnion env jt ty
      | DK_BITFIELDCLUSTER \<Rightarrow> dec_fail UA_STATUSCODE_BADNOTIMPLEMENTED)"

primrec decodeBinaryJumpTable :: "type_env \<Rightarrow> nat \<Rightarrow> dec_table" where
  "decodeBinaryJumpTable env 0 ty = dec_fail STATUS_UNDEFINED"
| "decodeBinaryJumpTable env (Suc n) ty = dec_dispatch env (decodeBinaryJumpTable env n) ty"

text \<open>
  The fuel: a nested call is one level deeper (at most 101 levels) or follows an extension object
  header, which takes at least three bytes.
\<close>

definition dec_fuel :: "u8 list \<Rightarrow> nat" where
  "dec_fuel bs = length bs + 104"

text \<open>\<open>None\<close> is the cleared destination after a failure; the offset is then unchanged.\<close>

definition UA_decodeBinaryInternal ::
    "type_env \<Rightarrow> (nat \<Rightarrow> bool) \<Rightarrow> tyref list list \<Rightarrow> u8 list \<Rightarrow> nat \<Rightarrow> tyref \<Rightarrow>
     status \<times> ua_val option \<times> nat" where
  "UA_decodeBinaryInternal env mem_ok customTypes src offset ty =
     (let (ret, v, c) = decodeBinaryJumpTable env (dec_fuel src) ty
            \<lparr>dec_buf = src, dec_pos = offset, dec_depth = 0, dec_custom = customTypes,
             dec_alloc = mem_ok, dec_allocs = 0\<rparr>
      in if ret = GOOD then (ret, Some v, dec_pos c) else (ret, None, offset))"

definition UA_decodeBinary ::
    "type_env \<Rightarrow> (nat \<Rightarrow> bool) \<Rightarrow> u8 list \<Rightarrow> tyref \<Rightarrow> tyref list list option \<Rightarrow>
     status \<times> ua_val option" where
  "UA_decodeBinary env mem_ok inBuf ty options =
     (let (ret, v, _) = UA_decodeBinaryInternal env mem_ok
            (case options of None \<Rightarrow> [] | Some ct \<Rightarrow> ct) inBuf 0 ty
      in (ret, v))"

end
