(* ===== verification/Binary_Roundtrip.thy ===== *)
theory Binary_Roundtrip
  imports Binary_Complete Binary_Decode
begin

text \<open>
  Decoding what was encoded. \<open>reads ct k f bs x\<close>: in front of the bytes \<open>bs\<close>, with \<open>k\<close> levels of
  recursion left and all allocations succeeding, the decoder \<open>f\<close> returns \<open>GOOD\<close> and \<open>x\<close> and has read
  exactly \<open>bs\<close>. \<open>canonical\<close> describes the values that come back unchanged: those that the wire
  format does not identify with another value.
\<close>

section \<open>Reading\<close>

definition ready :: "tyref list list \<Rightarrow> u8 list \<Rightarrow> nat \<Rightarrow> dec_ctx \<Rightarrow> u8 list \<Rightarrow> bool" where
  "ready ct buf d c bs =
     (dec_buf c = buf \<and> dec_pos c + length bs = length buf \<and> drop (dec_pos c) buf = bs \<and>
      dec_depth c = d \<and> dec_custom c = ct \<and> (\<forall>n. dec_alloc c n))"

definition reads :: "tyref list list \<Rightarrow> nat \<Rightarrow> 'a decoder \<Rightarrow> u8 list \<Rightarrow> 'a \<Rightarrow> bool" where
  "reads ct k f bs x =
     (\<forall>buf d c rest. d + k \<le> 101 \<longrightarrow> ready ct buf d c (bs @ rest) \<longrightarrow>
        (\<exists>c'. f c = (GOOD, x, c') \<and> ready ct buf d c' rest))"

lemma readsI:
  "(\<And>buf d c rest. d + k \<le> 101 \<Longrightarrow> ready ct buf d c (bs @ rest) \<Longrightarrow>
      \<exists>c'. f c = (GOOD, x, c') \<and> ready ct buf d c' rest) \<Longrightarrow> reads ct k f bs x"
  by (simp add: reads_def)

lemma readsE:
  assumes "reads ct k f bs x" "ready ct buf d c (bs @ rest)" "d + k \<le> 101"
  obtains c' where "f c = (GOOD, x, c')" "ready ct buf d c' rest"
  using assms unfolding reads_def by meson

lemma ready_pos [simp]:
  "ready ct buf d c (bs @ rest) \<Longrightarrow> dec_pos c + length bs \<le> length buf"
  by (auto simp: ready_def)

lemma reads_mono: "reads ct k f bs x \<Longrightarrow> k \<le> l \<Longrightarrow> reads ct l f bs x"
  by (auto simp: reads_def)

lemma reads_take:
  assumes "length bs = n" "f bs = x" shows "reads ct k (dec_take n f z) bs x"
proof (rule readsI)
  fix buf d c rest assume r: "ready ct buf d c (bs @ rest)"
  then have "drop (n + dec_pos c) buf = rest"
    using assms by (metis add.commute append_eq_conv_conj drop_drop ready_def)
  then show "\<exists>c'. dec_take n f z c = (GOOD, x, c') \<and> ready ct buf d c' rest"
    using r assms by (auto simp: dec_take_def ready_def add.commute)
qed

lemma reads_calloc:
  "ready ct buf d c bs \<Longrightarrow> \<exists>c'. dec_calloc c = (True, c') \<and> ready ct buf d c' bs"
  unfolding ready_def by (simp add: dec_calloc_def) metis

lemma reads_opt:
  assumes "\<And>y. x = Some y \<Longrightarrow> reads ct k f (g y) y" and "b = (x \<noteq> None)"
  shows "reads ct k (dec_opt b f) (wire_opt g x) x"
proof (cases x)
  case None
  then show ?thesis using assms(2) by (auto simp: reads_def dec_opt_def wire_opt_def)
next
  case (Some y)
  show ?thesis
  proof (rule readsI)
    fix buf d c rest
    assume "d + k \<le> 101" "ready ct buf d c (wire_opt g x @ rest)"
    then obtain c' where "f c = (GOOD, y, c')" "ready ct buf d c' rest"
      using Some by (auto simp: wire_opt_def elim: readsE [OF assms(1)])
    then show "\<exists>c'. dec_opt b f c = (GOOD, x, c') \<and> ready ct buf d c' rest"
      using Some assms(2) by (simp add: dec_opt_def)
  qed
qed

lemma reads_ret: "reads ct k (\<lambda>c. (GOOD, x, c)) [] x"
  by (simp add: reads_def)

text \<open>A step of a chain \<^verbatim>\<open>ret = f(...); ...\<close>: the rest sees \<open>GOOD\<close> and the value read.\<close>

lemma reads_bind:
  assumes "reads ct k f as x" "reads ct k (h GOOD x) bs y"
  shows "reads ct k (\<lambda>c. case f c of (r, a, c1) \<Rightarrow> h r a c1) (as @ bs) y"
proof (rule readsI)
  fix buf d c rest assume d: "d + k \<le> 101" and r: "ready ct buf d c ((as @ bs) @ rest)"
  then obtain c1 where 1: "f c = (GOOD, x, c1)" "ready ct buf d c1 (bs @ rest)"
    by (auto elim: readsE [OF assms(1)])
  with d obtain c2 where "h GOOD x c1 = (GOOD, y, c2)" "ready ct buf d c2 rest"
    by (auto elim: readsE [OF assms(2)])
  with 1 show "\<exists>c'. (case f c of (r, a, c1) \<Rightarrow> h r a c1) = (GOOD, y, c') \<and> ready ct buf d c' rest"
    by auto
qed

lemma reads_eq: "reads ct k f bs x \<Longrightarrow> bs = bs' \<Longrightarrow> reads ct k f bs' x"
  by simp

lemma reads_bind_ret:
  "reads ct k f as x \<Longrightarrow> reads ct k (\<lambda>c. case f c of (r, a, c1) \<Rightarrow> (r, g a, c1)) as (g x)"
  by (rule reads_eq, rule reads_bind, assumption, rule reads_ret) simp

lemma reads_map: "reads ct k f bs x \<Longrightarrow> reads ct k (dec_map g f) bs (g x)"
  unfolding dec_map_def [abs_def] Let_def by (rule reads_bind_ret)

lemma reads_allocated:
  assumes "reads ct k f bs y"
  shows "reads ct k (\<lambda>c. case dec_calloc c of (ok, c1) \<Rightarrow> if \<not> ok then g c1 else f c1) bs y"
proof (rule readsI)
  fix buf d c rest assume d: "d + k \<le> 101" and r: "ready ct buf d c (bs @ rest)"
  then obtain c1 where 1: "dec_calloc c = (True, c1)" "ready ct buf d c1 (bs @ rest)"
    using reads_calloc by blast
  with d obtain c2 where "f c1 = (GOOD, y, c2)" "ready ct buf d c2 rest"
    by (auto elim: readsE [OF assms])
  with 1 show "\<exists>c'. (case dec_calloc c of (ok, c1) \<Rightarrow> if \<not> ok then g c1 else f c1) = (GOOD, y, c') \<and>
      ready ct buf d c' rest" by auto
qed

lemma reads_Byte: "reads ct k Byte_decodeBinary [b] b"
  unfolding Byte_decodeBinary_def by (rule reads_take) simp_all

lemma u8_le_1: "b \<le> 1 \<Longrightarrow> b = 0 \<or> b = (1 :: u8)"
proof -
  assume "b \<le> 1"
  then have "unat b \<le> 1" by (simp add: word_le_nat_alt)
  then have "unat b = 0 \<or> unat b = 1" by linarith
  then show ?thesis by (auto simp: word_unat_eq_iff)
qed

lemma reads_Boolean: "b \<le> 1 \<Longrightarrow> reads ct k Boolean_decodeBinary [b] b"
  unfolding Boolean_decodeBinary_def by (rule reads_take) (auto dest: u8_le_1)

lemma reads_UInt16: "reads ct k UInt16_decodeBinary (UA_encode16 w) w"
  unfolding UInt16_decodeBinary_def by (rule reads_take) simp_all

lemma reads_UInt32: "reads ct k UInt32_decodeBinary (UA_encode32 w) w"
  unfolding UInt32_decodeBinary_def by (rule reads_take) simp_all

lemma reads_UInt64: "reads ct k UInt64_decodeBinary (UA_encode64 w) w"
  unfolding UInt64_decodeBinary_def by (rule reads_take) simp_all

lemmas reads_ints = reads_Byte reads_UInt16 reads_UInt32 reads_UInt64

lemma sint_of_nat: "n \<le> UA_INT32_MAX \<Longrightarrow> sint (of_nat n :: u32) = int n"
  by (simp add: UA_INT32_MAX_def signed_of_nat signed_take_bit_int_eq_self)

lemma reads_elems:
  "(\<And>x. x \<in> set xs \<Longrightarrow> reads ct k elem (g x) x) \<Longrightarrow>
   reads ct k (decode_elems (length xs) elem) (concat (map g xs)) xs"
proof (induction xs)
  case Nil
  show ?case using reads_ret [of ct k "[]"] by (simp add: reads_def)
next
  case (Cons x xs)
  have "reads ct k (decode_elems (Suc (length xs)) elem) (g x @ concat (map g xs)) (x # xs)"
    unfolding decode_elems.simps Let_def [abs_def]
  proof (rule reads_bind)
    show "reads ct k elem (g x) x" using Cons by simp
    have "reads ct k (decode_elems (length xs) elem) (concat (map g xs)) xs" using Cons by simp
    from reads_bind_ret [OF this, of "\<lambda>ys. x # ys"]
    show "reads ct k (\<lambda>c1. if GOOD = GOOD
        then case decode_elems (length xs) elem c1 of (r', xs, c2) \<Rightarrow> (r', x # xs, c2)
        else (GOOD, [], c1)) (concat (map g xs)) (x # xs)" by simp
  qed
  then show ?case by (simp del: decode_elems.simps)
qed

lemma ready_take: "ready ct buf d c (bs @ rest) \<Longrightarrow> take (length bs) (drop (dec_pos c) buf) = bs"
  by (auto simp: ready_def)

lemma ready_advance:
  "ready ct buf d c (bs @ rest) \<Longrightarrow> n = length bs \<Longrightarrow> ready ct buf d (c\<lparr>dec_pos := dec_pos c + n\<rparr>) rest"
  by (auto simp: ready_def) (metis add.commute append_eq_conv_conj drop_drop)

lemma ready_sel:
  "ready ct buf d c bs \<Longrightarrow> dec_buf c = buf" "ready ct buf d c bs \<Longrightarrow> dec_depth c = d"
  "ready ct buf d c bs \<Longrightarrow> dec_custom c = ct"
  by (simp_all add: ready_def)

text \<open>The content of an array: one block of memory, or the elements one after the other.\<close>

lemma reads_Array_with:
  assumes "array_length a \<le> UA_INT32_MAX"
    and over: "\<And>xs. a = Some xs \<Longrightarrow> xs \<noteq> [] \<Longrightarrow> overlay \<Longrightarrow>
        length content = msize * length xs \<and> fm (length xs) content = xs"
    and elems: "\<And>xs. a = Some xs \<Longrightarrow> xs \<noteq> [] \<Longrightarrow> \<not> overlay \<Longrightarrow>
        (\<forall>x \<in> set xs. reads ct k elem (g x) x) \<and> content = concat (map g xs) \<and>
        (msize * length xs) div 128 \<le> length content"
    and empty: "array_elems a = [] \<Longrightarrow> content = []"
  shows "reads ct k (Array_decodeBinary_with msize overlay fm elem)
    (UA_encode32 (array_signed_length a) @ content) a"
  unfolding Array_decodeBinary_with_def [abs_def] Let_def
proof (rule reads_bind [OF reads_UInt32])
  let ?h = "\<lambda>ret (signed_length :: u32) c1. if ret \<noteq> GOOD then (ret, None, c1)
     else if sint signed_length \<le> 0
     then (GOOD, if sint signed_length < 0 then None else Some [], c1)
     else if \<not> dec_pos c1 + msize * nat (sint signed_length) div 128 \<le> length (dec_buf c1)
     then (UA_STATUSCODE_BADDECODINGERROR, None, c1)
     else (case dec_calloc c1 of (ok, c2) \<Rightarrow>
        if \<not> ok then (UA_STATUSCODE_BADOUTOFMEMORY, None, c2)
        else if overlay then
          (if \<not> dec_pos c2 + msize * nat (sint signed_length) \<le> length (dec_buf c2)
           then (UA_STATUSCODE_BADDECODINGERROR, None, c2)
           else (GOOD, Some (fm (nat (sint signed_length))
                   (take (msize * nat (sint signed_length)) (drop (dec_pos c2) (dec_buf c2)))),
                 c2\<lparr>dec_pos := dec_pos c2 + msize * nat (sint signed_length)\<rparr>))
        else (case decode_elems (nat (sint signed_length)) elem c2 of (r, xs, c3) \<Rightarrow>
                if r = GOOD then (GOOD, Some xs, c3) else (r, None, c3)))"
  show "reads ct k (?h GOOD (array_signed_length a)) content a"
  proof (cases "a = None \<or> a = Some []")
    case True
    then show ?thesis
      using empty by (auto simp: reads_def array_signed_length_def)
  next
    case False
    then obtain xs where a: "a = Some xs" "xs \<noteq> []" by auto
    have len: "sint (array_signed_length a) = int (length xs)"
      using assms(1) a by (simp add: array_signed_length_def sint_of_nat)
    show ?thesis
    proof (rule readsI)
      fix buf d c rest assume d: "d + k \<le> 101" and r: "ready ct buf d c (content @ rest)"
      obtain c1 where 1: "dec_calloc c = (True, c1)" "ready ct buf d c1 (content @ rest)"
        using reads_calloc [OF r] by blast
      show "\<exists>c'. ?h GOOD (array_signed_length a) c = (GOOD, a, c') \<and> ready ct buf d c' rest"
      proof (cases overlay)
        case True
        with over a have o: "length content = msize * length xs" "fm (length xs) content = xs" by auto
        have "(msize * length xs) div 128 \<le> length content" using o(1) by simp
        moreover note ready_pos [OF r] ready_pos [OF 1(2)]
        ultimately show ?thesis
          using a len True 1 o ready_sel(1) [OF r] ready_sel(1) [OF 1(2)] ready_take [OF 1(2)]
            ready_advance [OF 1(2)] by simp
      next
        case False
        with elems a have e: "\<And>x. x \<in> set xs \<Longrightarrow> reads ct k elem (g x) x"
          "content = concat (map g xs)" "(msize * length xs) div 128 \<le> length content" by auto
        then obtain c2 where "decode_elems (length xs) elem c1 = (GOOD, xs, c2)" "ready ct buf d c2 rest"
          using readsE [OF reads_elems [OF e(1)] 1(2) [unfolded e(2)] d] by blast
        moreover note ready_pos [OF r]
        ultimately show ?thesis
          using a len False 1 e(3) ready_sel(1) [OF r] by simp
      qed
    qed
  qed
qed

lemma reads_String: "wf_string s \<Longrightarrow> reads ct k String_decodeBinary (wire_string s) s"
  unfolding String_decodeBinary_def wire_string_def
  by (rule reads_Array_with) (cases s; auto simp: wf_string_def)+

lemma reads_tail:
  assumes "length bs = n"
  shows "reads ct k (\<lambda>c. if dec_pos c + n \<le> length (dec_buf c)
       then (GOOD, h (take n (drop (dec_pos c) (dec_buf c))), c\<lparr>dec_pos := dec_pos c + n\<rparr>)
       else e c) bs (h bs)"
proof (rule readsI)
  fix buf d c rest assume r: "ready ct buf d c (bs @ rest)"
  show "\<exists>c'. (if dec_pos c + n \<le> length (dec_buf c)
       then (GOOD, h (take n (drop (dec_pos c) (dec_buf c))), c\<lparr>dec_pos := dec_pos c + n\<rparr>)
       else e c) = (GOOD, h bs, c') \<and> ready ct buf d c' rest"
    using ready_pos [OF r] ready_take [OF r] ready_advance [OF r] ready_sel(1) [OF r] assms by auto
qed

lemma reads_conv: "reads ct k f bs x \<Longrightarrow> bs = bs' \<Longrightarrow> x = x' \<Longrightarrow> reads ct k f bs' x'"
  by simp

lemma reads_bind_Byte:
  "reads ct k (h GOOD b) bs y \<Longrightarrow>
   reads ct k (\<lambda>c. case Byte_decodeBinary c of (r, a, c1) \<Rightarrow> h r a c1) (b # bs) y"
  by (rule reads_eq, rule reads_bind, rule reads_Byte, assumption) simp

lemma guid_eta: "\<lparr>data1 = data1 g, data2 = data2 g, data3 = data3 g, data4 = data4 g\<rparr> = (g :: UA_Guid)"
  by (cases g) simp

lemma nodeid_eta: "nid i = x \<Longrightarrow> \<lparr>namespaceIndex = namespaceIndex i, nid = x\<rparr> = (i :: UA_NodeId)"
  by (cases i) simp

lemma reads_Guid:
  assumes "wf_guid g" shows "reads ct k Guid_decodeBinary (guid_bytes g) g"
  unfolding Guid_decodeBinary_def [abs_def] Let_def guid_bytes_def
  apply (rule reads_bind [OF reads_UInt32])
  apply (rule reads_bind [OF reads_UInt16])
  apply (rule reads_bind [OF reads_UInt16])
  apply (simp only: or_GOOD_left)
  apply (rule reads_conv, rule reads_tail)
  using assms by (auto simp: wf_guid_def intro: guid_eta)

lemma ucast_small:
  fixes n :: "'a::len word"
  assumes "unat n < 2 ^ LENGTH('b)" "LENGTH('b::len) < LENGTH('a)"
  shows "ucast (ucast n :: 'b word) = n"
  using assms by (simp add: word_unat_eq_iff unsigned_ucast_eq unsigned_take_bit_eq take_bit_nat_eq_self)

definition id_mask :: "u8 \<Rightarrow> bool" where
  "id_mask m = (m \<in> {0, 0x40, 0x80, 0xC0})"

lemma id_mask_bits:
  "id_mask m \<Longrightarrow> m AND NOT (0x40 OR 0x80) = 0" "id_mask m \<Longrightarrow> (m OR 1) AND NOT (0x40 OR 0x80) = 1"
  "id_mask m \<Longrightarrow> (m OR 2) AND NOT (0x40 OR 0x80) = 2" "id_mask m \<Longrightarrow> (m OR 3) AND NOT (0x40 OR 0x80) = 3"
  "id_mask m \<Longrightarrow> (m OR 4) AND NOT (0x40 OR 0x80) = 4" "id_mask m \<Longrightarrow> (m OR 5) AND NOT (0x40 OR 0x80) = 5"
  by (auto simp: id_mask_def)

lemma id_codes:
  "(1 :: u8) \<noteq> 0" "(2 :: u8) \<noteq> 0" "(2 :: u8) \<noteq> 1" "(3 :: u8) \<noteq> 0" "(3 :: u8) \<noteq> 1" "(3 :: u8) \<noteq> 2"
  "(4 :: u8) \<noteq> 0" "(4 :: u8) \<noteq> 1" "(4 :: u8) \<noteq> 2" "(4 :: u8) \<noteq> 3" "(5 :: u8) \<noteq> 0" "(5 :: u8) \<noteq> 1"
  "(5 :: u8) \<noteq> 2" "(5 :: u8) \<noteq> 3" "(5 :: u8) \<noteq> 4"
  by simp_all

lemma reads_NodeId_numeric:
  assumes "nid i = NumericId n" "id_mask m"
  shows "reads ct k NodeId_decodeBinary (wire_nodeid m i) i"
proof -
  consider "0xFFFF < n \<or> 0xFF < namespaceIndex i"
    | "\<not> (0xFFFF < n \<or> 0xFF < namespaceIndex i)" "0xFF < n \<or> 0 < namespaceIndex i"
    | "\<not> (0xFFFF < n \<or> 0xFF < namespaceIndex i)" "\<not> (0xFF < n \<or> 0 < namespaceIndex i)"
    by blast
  then show ?thesis
  proof cases
    case 1
    then have w: "wire_nodeid m i = (m OR 2) # UA_encode16 (namespaceIndex i) @ UA_encode32 n"
      using assms(1) by (simp only: wire_nodeid_def Let_def UA_Identifier.case if_True append_Cons append_Nil)
    show ?thesis
      unfolding w NodeId_decodeBinary_def [abs_def] Let_def
      apply (rule reads_bind_Byte)
      apply (simp only: id_mask_bits [OF assms(2)] id_codes simp_thms if_True if_False)
      apply (rule reads_bind [OF reads_UInt16])
      apply (simp only: or_GOOD_left)
      apply (rule reads_conv, rule reads_bind_ret [OF reads_UInt32])
      using assms(1) by (auto intro: nodeid_eta)
  next
    case 2
    then have w: "wire_nodeid m i = (m OR 1) # ucast (namespaceIndex i) # UA_encode16 (ucast n)"
      using assms(1) by (simp only: wire_nodeid_def Let_def UA_Identifier.case if_True if_False append_Cons append_Nil)
    have "unat n < 2 ^ LENGTH(16)" "unat (namespaceIndex i) < 2 ^ LENGTH(8)"
      using 2(1) by (simp_all add: word_less_nat_alt not_less)
    then have "ucast (ucast n :: 16 word) = n" "ucast (ucast (namespaceIndex i) :: 8 word) = namespaceIndex i"
      by (simp_all only: ucast_small len_num0 len_num1 len_bit0 len_bit1)
    then show ?thesis
      unfolding w NodeId_decodeBinary_def [abs_def] Let_def
      apply -
      apply (rule reads_bind_Byte)
      apply (simp only: id_mask_bits [OF assms(2)] id_codes simp_thms if_True if_False)
      apply (rule reads_bind_Byte)
      apply (simp only: or_GOOD_left)
      apply (rule reads_conv, rule reads_bind_ret [OF reads_UInt16])
      using assms(1) by (auto intro: nodeid_eta)
  next
    case 3
    then have w: "wire_nodeid m i = [m, ucast n]"
      using assms(1) by (simp only: wire_nodeid_def Let_def UA_Identifier.case if_True if_False append_Cons append_Nil)
    have "unat n < 2 ^ LENGTH(8)" "namespaceIndex i = 0"
      using 3 by (simp_all add: word_less_nat_alt not_less unsigned_eq_0_iff)
    then have "ucast (ucast n :: 8 word) = n" "namespaceIndex i = 0"
      by (simp_all add: ucast_small)
    then show ?thesis
      unfolding w NodeId_decodeBinary_def [abs_def] Let_def
      apply -
      apply (rule reads_bind_Byte)
      apply (simp only: id_mask_bits [OF assms(2)] id_codes simp_thms if_True if_False)
      apply (rule reads_conv, rule reads_bind_ret [OF reads_Byte])
      using assms(1) by (auto intro: nodeid_eta)
  qed
qed

lemma reads_NodeId:
  assumes "wf_nodeid i" "id_mask m"
  shows "reads ct k NodeId_decodeBinary (wire_nodeid m i) i"
proof (cases "nid i")
  case (NumericId n)
  then show ?thesis using assms(2) by (rule reads_NodeId_numeric)
next
  case (StringId s)
  have s: "wf_string s" using assms(1) StringId by (simp add: wf_nodeid_def)
  show ?thesis unfolding NodeId_decodeBinary_def [abs_def] Let_def wire_nodeid_def StringId
      UA_Identifier.case append_Cons append_Nil
    apply (rule reads_bind_Byte)
    apply (simp only: id_mask_bits [OF assms(2)] id_codes simp_thms if_True if_False)
    apply (rule reads_bind [OF reads_UInt16])
    apply (simp only: or_GOOD_left)
    apply (rule reads_conv, rule reads_bind_ret [OF reads_String [OF s]])
    using StringId by (auto intro: nodeid_eta)
next
  case (GuidId g)
  have g: "wf_guid g" using assms(1) GuidId by (simp add: wf_nodeid_def)
  show ?thesis unfolding NodeId_decodeBinary_def [abs_def] Let_def wire_nodeid_def GuidId
      UA_Identifier.case append_Cons append_Nil
    apply (rule reads_bind_Byte)
    apply (simp only: id_mask_bits [OF assms(2)] id_codes simp_thms if_True if_False)
    apply (rule reads_bind [OF reads_UInt16])
    apply (simp only: or_GOOD_left)
    apply (rule reads_conv, rule reads_bind_ret [OF reads_Guid [OF g]])
    using GuidId by (auto intro: nodeid_eta)
next
  case (ByteStringId s)
  have s: "wf_string s" using assms(1) ByteStringId by (simp add: wf_nodeid_def)
  show ?thesis unfolding NodeId_decodeBinary_def [abs_def] Let_def wire_nodeid_def ByteStringId
      UA_Identifier.case append_Cons append_Nil
    apply (rule reads_bind_Byte)
    apply (simp only: id_mask_bits [OF assms(2)] id_codes simp_thms if_True if_False)
    apply (rule reads_bind [OF reads_UInt16])
    apply (simp only: or_GOOD_left)
    apply (rule reads_conv, rule reads_bind_ret [OF reads_String [OF s]])
    using ByteStringId by (auto intro: nodeid_eta)
qed

section \<open>Builtin types\<close>

text \<open>
  The values that survive a round trip: an expanded node id that names its namespace by uri has
  index 0, an empty uri is not transmitted.
\<close>

definition canonical_expanded :: "UA_ExpandedNodeId \<Rightarrow> bool" where
  "canonical_expanded i =
     (namespaceUri i \<noteq> Some [] \<and> (namespaceUri i \<noteq> None \<longrightarrow> namespaceIndex (nodeId i) = 0))"

lemma hd_wire_nodeid:
  "\<exists>x bs. wire_nodeid m i = (m OR x) # bs \<and> x \<in> {0, 1, 2, 3, 4, 5}"
  by (auto simp: wire_nodeid_def Let_def intro: exI [of _ 0] split: UA_Identifier.split)

lemma reads_ExpandedNodeId:
  assumes wf: "wf_nodeid (nodeId i)" "wf_string (namespaceUri i)" and can: "canonical_expanded i"
  shows "reads ct k ExpandedNodeId_decodeBinary (wire_expanded_nodeid i) i"
proof (rule readsI)
  fix buf d c rest
  assume d: "d + k \<le> 101" and r: "ready ct buf d c (wire_expanded_nodeid i @ rest)"
  define u where "u = above_sentinel (namespaceUri i)"
  define s where "s = (0 < serverIndex i)"
  define m :: u8 where "m = (if u then 0x80 else 0) OR (if s then 0x40 else 0)"
  have m: "id_mask m" by (cases u; cases s; simp add: m_def id_mask_def)
  obtain x bs where x: "wire_nodeid m (nodeId i) = (m OR x) # bs" "x \<in> {0, 1, 2, 3, 4, 5}"
    using hd_wire_nodeid by blast
  have bits: "((m OR x) AND 0x80 \<noteq> 0) = u" "((m OR x) AND 0x40 \<noteq> 0) = s"
    using x(2) by (cases u; cases s; auto simp: m_def)+
  have uri: "u = (namespaceUri i \<noteq> None)"
    using can by (cases "namespaceUri i") (auto simp: u_def canonical_expanded_def)
  have wire: "wire_expanded_nodeid i = wire_nodeid m (nodeId i) @
      wire_opt wire_string (if u then Some (namespaceUri i) else None) @
      wire_opt UA_encode32 (if s then Some (serverIndex i) else None)"
    by (simp add: wire_expanded_nodeid_def m_def u_def s_def wire_opt_def)
  have hd: "dec_buf c ! dec_pos c = m OR x" "dec_pos c + 1 \<le> length (dec_buf c)"
    using r unfolding wire x(1) ready_def
    by (auto, metis append_Cons nth_via_drop)
  obtain c1 where 1: "NodeId_decodeBinary c = (GOOD, nodeId i, c1)"
    "ready ct buf d c1 (wire_opt wire_string (if u then Some (namespaceUri i) else None) @
      wire_opt UA_encode32 (if s then Some (serverIndex i) else None) @ rest)"
    using readsE [OF reads_NodeId [OF wf(1) m] r [unfolded wire append_assoc] d] by blast
  have ru: "reads ct k (dec_opt u String_decodeBinary)
      (wire_opt wire_string (if u then Some (namespaceUri i) else None))
      (if u then Some (namespaceUri i) else None)"
    using wf(2) by (intro reads_opt reads_String) (auto split: if_splits)
  obtain c2 where 2: "dec_opt u String_decodeBinary c1 = (GOOD, (if u then Some (namespaceUri i) else None), c2)"
    "ready ct buf d c2 (wire_opt UA_encode32 (if s then Some (serverIndex i) else None) @ rest)"
    using readsE [OF ru 1(2) d] by blast
  have rs: "reads ct k (dec_opt s UInt32_decodeBinary)
      (wire_opt UA_encode32 (if s then Some (serverIndex i) else None))
      (if s then Some (serverIndex i) else None)"
    by (intro reads_opt reads_UInt32) (auto split: if_splits)
  obtain c3 where 3: "dec_opt s UInt32_decodeBinary c2 = (GOOD, (if s then Some (serverIndex i) else None), c3)"
    "ready ct buf d c3 rest"
    using readsE [OF rs 2(2) d] by blast
  have si: "serverIndex i = 0" if "\<not> s" using that by (simp add: s_def word_gt_0)
  have "(if u then (nodeId i)\<lparr>namespaceIndex := 0\<rparr> else nodeId i) = nodeId i"
    using can uri by (auto simp: canonical_expanded_def)
  then have "\<lparr>nodeId = if u then (nodeId i)\<lparr>namespaceIndex := 0\<rparr> else nodeId i,
      namespaceUri = (case if u then Some (namespaceUri i) else None of None \<Rightarrow> None | Some s \<Rightarrow> s),
      serverIndex = (case if s then Some (serverIndex i) else None of None \<Rightarrow> 0 | Some x \<Rightarrow> x)\<rparr> = i"
    using uri si by (cases i) auto
  then show "\<exists>c'. ExpandedNodeId_decodeBinary c = (GOOD, i, c') \<and> ready ct buf d c' rest"
    using 1(1) 2(1) 3 hd
    by (simp add: ExpandedNodeId_decodeBinary_def Let_def bits)
qed

lemma reads_QualifiedName:
  "wf_string s \<Longrightarrow> reads ct k QualifiedName_decodeBinary (UA_encode16 ns @ wire_string s) (ns, s)"
  unfolding QualifiedName_decodeBinary_def [abs_def] Let_def
  apply (rule reads_bind [OF reads_UInt16])
  apply (simp only: or_GOOD_left)
  apply (rule reads_bind_ret [OF reads_String], assumption)
  done

lemma reads_LocalizedText:
  assumes "wf_string l" "wf_string t"
  shows "reads ct k LocalizedText_decodeBinary (wire_localized l t) (l, t)"
proof -
  have w: "wire_localized l t = ((if l \<noteq> None then 1 else 0) OR (if t \<noteq> None then 2 else 0)) #
      wire_opt wire_string (if l \<noteq> None then Some l else None) @
      wire_opt wire_string (if t \<noteq> None then Some t else None)"
    by (simp add: wire_localized_def wire_opt_def)
  show ?thesis
    unfolding LocalizedText_decodeBinary_def [abs_def] Let_def w
    apply (rule reads_bind_Byte)
    apply (simp only: localized_bits or_GOOD_left)
    apply (rule reads_bind)
     apply (rule reads_opt [where x = "if l \<noteq> None then Some l else None" and g = wire_string])
      apply (use assms in \<open>auto intro: reads_String split: if_splits\<close>)[2]
    apply (simp only: or_GOOD_left)
    apply (rule reads_conv)
      apply (rule reads_bind_ret)
      apply (rule reads_opt [where x = "if t \<noteq> None then Some t else None" and g = wire_string])
       apply (use assms in \<open>auto intro: reads_String split: if_splits\<close>)[2]
    by (auto)
qed

section \<open>Canonical values\<close>

definition elem_ok :: "type_env \<Rightarrow> tyref \<Rightarrow> ua_val \<Rightarrow> bool" where
  "elem_ok env t v =
     (if overlayable (ty_at env t) then overlay_read env overlay_fuel t (overlay_bytes v) = v
      else memSize (ty_at env t) \<le> 128 * length (wire env t v))"

definition is_decoded_eo :: "ua_val \<Rightarrow> bool" where
  "is_decoded_eo v = (case v of VDecodedEO _ _ \<Rightarrow> True | _ \<Rightarrow> False)"

definition pico_ok :: "u16 option \<Rightarrow> bool" where
  "pico_ok x = (case x of None \<Rightarrow> True | Some p \<Rightarrow> p \<le> MAX_PICO_SECONDS)"

fun canonical :: "type_env \<Rightarrow> tyref list list \<Rightarrow> tyref \<Rightarrow> ua_val \<Rightarrow> bool"
and canonical_field :: "type_env \<Rightarrow> tyref list list \<Rightarrow> tyref \<Rightarrow> ua_field \<Rightarrow> bool"
and canonical_fields :: "type_env \<Rightarrow> tyref list list \<Rightarrow> UA_DataTypeMember list \<Rightarrow> ua_field list \<Rightarrow> bool" where
  "canonical env ct ty (VExpandedNodeId i) = canonical_expanded i"
| "canonical env ct ty (VEncodedEO e tid body) =
     (case e of EO_NOBODY \<Rightarrow> body = None
      | EO_BYTESTRING \<Rightarrow> UA_findDataTypeByBinaryInternal env ct tid = None
      | EO_XML \<Rightarrow> True)"
| "canonical env ct ty (VDecodedEO (Some t) (Some v)) =
     (UA_findDataTypeByBinaryInternal env ct (binaryEncodingId (ty_at env t)) = Some t \<and>
      canonical env ct t v)"
| "canonical env ct ty (VDecodedEO _ _) = False"
| "canonical env ct ty (VVariantScalar t v) =
     (kind_at env t \<noteq> DK_ENUM \<and> kind_at env t \<noteq> DK_VARIANT \<and>
      (if needs_wrap env t
       then UA_findDataTypeByBinaryInternal env ct (binaryEncodingId (ty_at env t)) = Some t
       else t < 25) \<and>
      \<not> is_decoded_eo v \<and> canonical env ct t v)"
| "canonical env ct ty (VVariantArray t a dims) =
     (t < 25 \<and> (case a of None \<Rightarrow> True | Some vs \<Rightarrow> (\<forall>v \<in> set vs. canonical env ct t v \<and> elem_ok env t v)))"
| "canonical env ct ty (VDataValue x _ _ sps _ vps) =
     ((case x of None \<Rightarrow> True | Some v \<Rightarrow> canonical env ct UA_TYPES_VARIANT v) \<and> pico_ok sps \<and> pico_ok vps)"
| "canonical env ct ty (VDiagnosticInfo _ _ _ _ _ _ inner) =
     (case inner of None \<Rightarrow> True | Some d \<Rightarrow> canonical env ct UA_TYPES_DIAGNOSTICINFO d)"
| "canonical env ct ty (VStruct fs) = canonical_fields env ct (members (ty_at env ty)) fs"
| "canonical env ct ty (VUnion sel f) =
     (if sel = 0 then f = FScalar VVariantEmpty
      else canonical_field env ct (memberType (members (ty_at env ty) ! unat (sel - 1))) f)"
| "canonical env ct ty _ = True"
| "canonical_field env ct t (FScalar v) = canonical env ct t v"
| "canonical_field env ct t (FArray a) =
     (case a of None \<Rightarrow> True | Some vs \<Rightarrow> (\<forall>v \<in> set vs. canonical env ct t v \<and> elem_ok env t v))"
| "canonical_field env ct t (FOptScalar x) = (case x of None \<Rightarrow> True | Some v \<Rightarrow> canonical env ct t v)"
| "canonical_field env ct t (FOptArray a) =
     (case a of None \<Rightarrow> True | Some vs \<Rightarrow> (\<forall>v \<in> set vs. canonical env ct t v \<and> elem_ok env t v))"
| "canonical_fields env ct (m # ms) (f # fs) =
     (canonical_field env ct (memberType m) f \<and> canonical_fields env ct ms fs)"
| "canonical_fields env ct _ _ = True"

definition table_reads :: "type_env \<Rightarrow> tyref list list \<Rightarrow> nat \<Rightarrow> dec_table \<Rightarrow> bool" where
  "table_reads env ct N jt =
     (\<forall>k t w. wf_val env t w \<longrightarrow> canonical env ct t w \<longrightarrow> nest w \<le> k \<longrightarrow>
        nest w + length (wire env t w) < N \<longrightarrow> reads ct k (jt t) (wire env t w) w)"

lemma table_readsD:
  "table_reads env ct N jt \<Longrightarrow> wf_val env t w \<Longrightarrow> canonical env ct t w \<Longrightarrow> nest w \<le> k \<Longrightarrow>
   nest w + length (wire env t w) < N \<Longrightarrow> reads ct k (jt t) (wire env t w) w"
  by (simp add: table_reads_def)

lemma reads_nested:
  assumes "reads ct k f bs x"
  shows "reads ct (Suc k) (dec_nested z f) bs x"
proof (rule readsI)
  fix buf d c rest assume d: "d + Suc k \<le> 101" and r: "ready ct buf d c (bs @ rest)"
  have "ready ct buf (Suc d) (c\<lparr>dec_depth := dec_depth c + 1\<rparr>) (bs @ rest)"
    using r by (simp add: ready_def)
  then obtain c2 where "f (c\<lparr>dec_depth := dec_depth c + 1\<rparr>) = (GOOD, x, c2)" "ready ct buf (Suc d) c2 rest"
    using readsE [OF assms] d by (metis add_Suc add_Suc_right)
  then show "\<exists>c'. dec_nested z f c = (GOOD, x, c') \<and> ready ct buf d c' rest"
    using ready_sel(2) [OF r] d by (auto simp: dec_nested_def ready_def)
qed

lemma reads_skip:
  assumes "reads ct k f bs x" "length pre = n"
  shows "reads ct k (\<lambda>c. f (c\<lparr>dec_pos := dec_pos c + n\<rparr>)) (pre @ bs) x"
  using assms ready_advance by (fastforce simp: reads_def)

lemma reads_Pico:
  "p \<le> MAX_PICO_SECONDS \<Longrightarrow> reads ct k Picoseconds_decode (UA_encode16 p) p"
  unfolding Picoseconds_decode_def [abs_def] Let_def
  by (rule reads_conv, rule reads_bind_ret [OF reads_UInt16]) auto

lemma reads_numeric_copy: "ready ct buf d c bs \<Longrightarrow> \<exists>c'. NodeId_copy i c = (i, c') \<and> ready ct buf d c' bs"
  using reads_calloc [of ct buf d c bs]
  by (auto simp: NodeId_copy_def split: UA_Identifier.splits)

lemma reads_EncodedEO:
  assumes wf: "wf_nodeid tid" "wf_string body" and can: "canonical env ct ty (VEncodedEO e tid body)"
  shows "reads ct k (ExtensionObject_decodeBinary env jt) (wire env ty (VEncodedEO e tid body))
    (VEncodedEO e tid body)"
proof -
  have m: "id_mask 0" by (simp add: id_mask_def)
  have w: "wire env ty (VEncodedEO e tid body) =
      wire_nodeid 0 tid @ eo_number e # (if e = EO_NOBODY then [] else wire_string body)" by simp
  have codes: "(0 :: u8) \<noteq> 1" "(2 :: u8) \<noteq> 1" "(2 :: u8) \<noteq> 0" by simp_all
  have content: "reads ct k (ExtensionObject_decodeBinaryContent env jt tid) (wire_string body)
      (VEncodedEO EO_BYTESTRING tid body)" if "e = EO_BYTESTRING"
  proof (rule readsI)
    fix buf d c rest assume d: "d + k \<le> 101" and r: "ready ct buf d c (wire_string body @ rest)"
    obtain c1 where 1: "NodeId_copy tid c = (tid, c1)" "ready ct buf d c1 (wire_string body @ rest)"
      using reads_numeric_copy [OF r] by blast
    obtain c2 where "String_decodeBinary c1 = (GOOD, body, c2)" "ready ct buf d c2 rest"
      using readsE [OF reads_String [OF wf(2)] 1(2) d] by blast
    then show "\<exists>c'. ExtensionObject_decodeBinaryContent env jt tid c =
        (GOOD, VEncodedEO EO_BYTESTRING tid body, c') \<and> ready ct buf d c' rest"
      using 1 can that ready_sel(3) [OF r] by (simp add: ExtensionObject_decodeBinaryContent_def)
  qed
  show ?thesis
    unfolding w ExtensionObject_decodeBinary_def [abs_def] Let_def
    apply (rule reads_bind [OF reads_NodeId [OF wf(1) m]])
    apply (rule reads_bind_Byte)
    apply (cases e; simp only: eo_number.simps or_GOOD_left simp_thms if_True if_False codes
        UA_ExtensionObjectEncoding.distinct)
    subgoal using can by (simp add: reads_ret)
    subgoal by (rule content)
    subgoal by (rule reads_bind_ret [OF reads_String [OF wf(2)]])
    done
qed

lemma reads_content:
  assumes jt: "reads ct k (jt t) bs v"
    and find: "UA_findDataTypeByBinaryInternal env ct tid = Some t" and "length pre = 4"
  shows "reads ct k (ExtensionObject_decodeBinaryContent env jt tid) (pre @ bs)
    (VDecodedEO (Some t) (Some v))"
proof (rule readsI)
  fix buf d c rest assume d: "d + k \<le> 101" and r: "ready ct buf d c ((pre @ bs) @ rest)"
  obtain c1 where 1: "dec_calloc c = (True, c1)" "ready ct buf d c1 ((pre @ bs) @ rest)"
    using reads_calloc [OF r] by blast
  obtain c2 where "jt t (c1\<lparr>dec_pos := dec_pos c1 + 4\<rparr>) = (GOOD, v, c2)" "ready ct buf d c2 rest"
    using readsE [OF reads_skip [OF jt assms(3)] 1(2) d] by blast
  then show "\<exists>c'. ExtensionObject_decodeBinaryContent env jt tid c =
      (GOOD, VDecodedEO (Some t) (Some v), c') \<and> ready ct buf d c' rest"
    using 1 find ready_sel(3) [OF r] by (simp add: ExtensionObject_decodeBinaryContent_def)
qed

lemma reads_DecodedEO:
  assumes jt: "reads ct k (jt t) (wire env t v) v"
    and wf: "wf_nodeid (binaryEncodingId (ty_at env t))"
    and find: "UA_findDataTypeByBinaryInternal env ct (binaryEncodingId (ty_at env t)) = Some t"
  shows "reads ct k (ExtensionObject_decodeBinary env jt) (wrap_header env t v @ wire env t v)
    (VDecodedEO (Some t) (Some v))"
proof -
  have m: "id_mask 0" by (simp add: id_mask_def)
  show ?thesis
    unfolding ExtensionObject_decodeBinary_def [abs_def] Let_def wrap_header_def append_assoc
      append_Cons append_Nil
    apply (rule reads_bind [OF reads_NodeId [OF wf m]])
    apply (rule reads_bind_Byte)
    apply (simp only: or_GOOD_left simp_thms if_True if_False)
    apply (rule reads_content [where jt = jt and t = t, OF jt find])
    apply simp
    done
qed

lemma reads_unwrap:
  assumes jt: "reads ct k (jt t) (wire env t v) v"
    and wf: "wf_nodeid (binaryEncodingId (ty_at env t))"
    and find: "UA_findDataTypeByBinaryInternal env ct (binaryEncodingId (ty_at env t)) = Some t"
  shows "reads ct k (Variant_decodeBinaryUnwrapExtensionObject env jt) (wrap_header env t v @ wire env t v)
    (VVariantScalar t v)"
proof (rule readsI)
  let ?tid = "binaryEncodingId (ty_at env t)" and ?l = "UA_encode32 (of_nat (UA_calcSizeBinary env v t))"
  fix buf d c rest
  assume d: "d + k \<le> 101" and r: "ready ct buf d c ((wrap_header env t v @ wire env t v) @ rest)"
  have m: "id_mask 0" by (simp add: id_mask_def)
  have r': "ready ct buf d c (wire_nodeid 0 ?tid @ [1] @ (?l @ wire env t v) @ rest)"
    using r by (simp add: wrap_header_def)
  obtain c1 where 1: "NodeId_decodeBinary c = (GOOD, ?tid, c1)" "ready ct buf d c1 ([1] @ (?l @ wire env t v) @ rest)"
    using readsE [OF reads_NodeId [OF wf m] r' d] by blast
  obtain c2 where 2: "Byte_decodeBinary c1 = (GOOD, 1, c2)" "ready ct buf d c2 ((?l @ wire env t v) @ rest)"
    using readsE [OF reads_Byte 1(2) d] by blast
  have "ready ct buf d (c2\<lparr>dec_pos := dec_pos c2 + 4\<rparr>) (wire env t v @ rest)"
    using ready_advance [of ct buf d c2 ?l "wire env t v @ rest" 4] 2(2) by simp
  then obtain c3 where 3: "dec_calloc (c2\<lparr>dec_pos := dec_pos c2 + 4\<rparr>) = (True, c3)"
    "ready ct buf d c3 (wire env t v @ rest)"
    using reads_calloc by blast
  obtain c4 where 4: "jt t c3 = (GOOD, v, c4)" "ready ct buf d c4 rest"
    using readsE [OF jt 3(2) d] by blast
  show "\<exists>c'. Variant_decodeBinaryUnwrapExtensionObject env jt c = (GOOD, VVariantScalar t v, c') \<and>
      ready ct buf d c' rest"
    using 1 2 3 4 find ready_sel(3) [OF 2(2)]
    by (simp add: Variant_decodeBinaryUnwrapExtensionObject_def Let_def)
qed

section \<open>Variants and arrays\<close>

lemma ready_reset:
  "ready ct buf d c bs \<Longrightarrow> ready ct buf d c' bs' \<Longrightarrow> ready ct buf d (c'\<lparr>dec_pos := dec_pos c\<rparr>) bs"
  by (simp add: ready_def)

lemma reads_unwrap_encoded:
  assumes jt: "reads ct k (jt UA_TYPES_EXTENSIONOBJECT) (wire env ty (VEncodedEO e tid body)) v"
    and wf: "wf_nodeid tid" and can: "canonical env ct ty (VEncodedEO e tid body)"
  shows "reads ct k (Variant_decodeBinaryUnwrapExtensionObject env jt)
    (wire env ty (VEncodedEO e tid body)) (VVariantScalar UA_TYPES_EXTENSIONOBJECT v)"
proof (rule readsI)
  let ?w = "wire env ty (VEncodedEO e tid body)"
  fix buf d c rest
  assume d: "d + k \<le> 101" and r: "ready ct buf d c (?w @ rest)"
  have m: "id_mask 0" by (simp add: id_mask_def)
  have r': "ready ct buf d c (wire_nodeid 0 tid @ [eo_number e] @
      (if e = EO_NOBODY then [] else wire_string body) @ rest)"
    using r by (simp split: if_splits)
  obtain c1 where 1: "NodeId_decodeBinary c = (GOOD, tid, c1)"
    "ready ct buf d c1 ([eo_number e] @ (if e = EO_NOBODY then [] else wire_string body) @ rest)"
    using readsE [OF reads_NodeId [OF wf m] r' d] by blast
  obtain c2 where 2: "Byte_decodeBinary c1 = (GOOD, eo_number e, c2)"
    "ready ct buf d c2 ((if e = EO_NOBODY then [] else wire_string body) @ rest)"
    using readsE [OF reads_Byte 1(2) d] by blast
  have none: "(if eo_number e = 1 then UA_findDataTypeByBinaryInternal env (dec_custom c2) tid else None) = None"
    using can ready_sel(3) [OF 2(2)] by (cases e) auto
  obtain c3 where 3: "dec_calloc (c2\<lparr>dec_pos := dec_pos c\<rparr>) = (True, c3)" "ready ct buf d c3 (?w @ rest)"
    using reads_calloc [OF ready_reset [OF r 2(2)]] by blast
  obtain c4 where 4: "jt UA_TYPES_EXTENSIONOBJECT c3 = (GOOD, v, c4)" "ready ct buf d c4 rest"
    using readsE [OF jt 3(2) d] by blast
  show "\<exists>c'. Variant_decodeBinaryUnwrapExtensionObject env jt c =
      (GOOD, VVariantScalar UA_TYPES_EXTENSIONOBJECT v, c') \<and> ready ct buf d c' rest"
    using 1 2 3 4 none
    by (simp add: Variant_decodeBinaryUnwrapExtensionObject_def Let_def)
qed

lemma builtin_kind_number: "builtin_env env \<Longrightarrow> t < 25 \<Longrightarrow> kind_number (kind_at env t) = t"
  by (simp add: builtin_env_def)

lemma variant_byte:
  assumes "is_builtin_kind k" "f = 0 \<or> f = 0x80 \<or> f = 0xC0"
  shows "unat ((variant_type_bits k OR f) AND 0x3F) = Suc (kind_number k)"
    and "variant_type_bits k OR f \<noteq> 0"
    and "((variant_type_bits k OR f) AND 0x80 \<noteq> 0) = (f \<noteq> 0)"
    and "((variant_type_bits k OR f) AND 0x40 \<noteq> 0) = (f = 0xC0)"
  using assms(2,1) by (cases k; auto simp: variant_type_bits_def is_builtin_kind_def)+

lemma variant_byte_wrapped:
  assumes "\<not> is_builtin_kind k" "k \<noteq> DK_ENUM"
  shows "variant_type_bits k = 22"
  using assms by (cases k; simp add: variant_type_bits_def is_builtin_kind_def)

lemma builtin_kind_at: "builtin_env env \<Longrightarrow> t < 25 \<Longrightarrow> is_builtin_kind (kind_at env t)"
  by (simp add: is_builtin_kind_def builtin_kind_number)

text \<open>The content of a variant after its encoding byte, one level deeper.\<close>

lemma reads_Variant_content:
  assumes "reads ct k (Variant_decodeContent env jt b t) bs v"
    and "unat (b AND 0x3F) = Suc t" "t < 25" "b \<noteq> 0" "t = kind_number DK_VARIANT \<longrightarrow> b AND 0x80 \<noteq> 0"
  shows "reads ct (Suc k) (Variant_decodeBinary env jt) (b # bs) v"
proof (rule readsI)
  fix buf d c rest assume d: "d + Suc k \<le> 101" and r: "ready ct buf d c ((b # bs) @ rest)"
  obtain c1 where 1: "Byte_decodeBinary c = (GOOD, b, c1)" "ready ct buf d c1 (bs @ rest)"
    using readsE [OF reads_Byte, of ct buf d c b "bs @ rest"] r d by (metis append_Cons append_Nil)
  have "ready ct buf (Suc d) (c1\<lparr>dec_depth := dec_depth c1 + 1\<rparr>) (bs @ rest)"
    using 1(2) by (simp add: ready_def)
  then obtain c2 where 2: "Variant_decodeContent env jt b t (c1\<lparr>dec_depth := dec_depth c1 + 1\<rparr>) = (GOOD, v, c2)"
    "ready ct buf (Suc d) c2 rest"
    using readsE [OF assms(1)] d by (metis add_Suc add_Suc_right)
  have "ready ct buf d (c2\<lparr>dec_depth := dec_depth c2 - 1\<rparr>) rest"
    using 2(2) by (simp add: ready_def)
  then show "\<exists>c'. Variant_decodeBinary env jt c = (GOOD, v, c') \<and> ready ct buf d c' rest"
    using 1 2 assms(2-) d ready_sel(2) [OF 1(2)]
    by (simp add: Variant_decodeBinary_def Let_def)
qed

lemma nth_block:
  "\<forall>v \<in> set vs. length (f v) = n \<Longrightarrow> i < length vs \<Longrightarrow>
   take n (drop (i * n) (concat (map f vs))) = f (vs ! i)"
proof (induction vs arbitrary: i)
  case (Cons v vs)
  then show ?case by (cases i) (simp_all add: drop_append)
qed simp

lemma overlay_array_bytes:
  assumes "\<forall>v \<in> set vs. overlay_read env overlay_fuel t (overlay_bytes v) = v \<and>
      length (overlay_bytes v) = memSize (ty_at env t)"
  shows "overlay_array env t (length vs) (concat (map overlay_bytes vs)) = vs"
  using assms by (intro nth_equalityI) (simp_all add: overlay_array_def Let_def nth_block)

lemma reads_Array:
  assumes jt: "\<And>v. v \<in> set (array_elems a) \<Longrightarrow> \<not> overlayable (ty_at env t) \<Longrightarrow>
      reads ct k (jt t) (wire env t v) v"
    and len: "array_length a \<le> UA_INT32_MAX"
    and ok: "\<forall>v \<in> set (array_elems a). overlay_ok env t v \<and> elem_ok env t v"
  shows "reads ct k (Array_decodeBinary env jt t) (wire_field env t (FArray a)) a"
  unfolding Array_decodeBinary_def
proof (rule reads_eq [OF reads_Array_with [OF len]])
  let ?content = "if overlayable (ty_at env t) then concat (map overlay_bytes (array_elems a))
      else concat (map (wire env t) (array_elems a))"
  show "UA_encode32 (array_signed_length a) @ ?content = wire_field env t (FArray a)"
    by (cases a) (simp_all add: signed_length_Some signed_length_None)
  show "?content = []" if "array_elems a = []" using that by simp
  show "length ?content = memSize (ty_at env t) * length xs \<and> overlay_array env t (length xs) ?content = xs"
    if a: "a = Some xs" and o: "overlayable (ty_at env t)" for xs
  proof -
    have *: "\<forall>v \<in> set xs. overlay_read env overlay_fuel t (overlay_bytes v) = v \<and>
        length (overlay_bytes v) = memSize (ty_at env t)"
      using ok a o by (auto simp: overlay_ok_def elem_ok_def)
    then have "length (concat (map overlay_bytes xs)) = memSize (ty_at env t) * length xs"
      by (intro concat_map_length_const) auto
    with a o overlay_array_bytes [OF *] show ?thesis by simp
  qed
  show "(\<forall>x\<in>set xs. reads ct k (jt t) (wire env t x) x) \<and> ?content = concat (map (wire env t) xs) \<and>
      memSize (ty_at env t) * length xs div 128 \<le> length ?content"
    if a: "a = Some xs" and o: "\<not> overlayable (ty_at env t)" for xs
  proof -
    have "memSize (ty_at env t) * length ys \<le> 128 * length (concat (map (wire env t) ys))"
      if "set ys \<subseteq> set xs" for ys
      using that ok a o by (induction ys) (auto simp: elem_ok_def)
    from this [of xs] show ?thesis
      using jt a o by (simp add: div_le_mono [of _ "128 * _" 128, simplified])
  qed
qed

lemma wf_eo_kind: "wf_val env ty v \<Longrightarrow> kind_at env ty = DK_EXTENSIONOBJECT \<Longrightarrow>
   is_decoded_eo v \<or> (\<exists>e tid body. v = VEncodedEO e tid body)"
  by (cases v) (auto simp: kind8_def kind16_def kind32_def kind64_def kind_string_def is_decoded_eo_def
      elim: wf_val.elims)

lemma kind_of_address:
  "builtin_env env \<Longrightarrow> t < 25 \<Longrightarrow> (kind_at env t = kd) = (t = kind_number kd)" if "kind_number kd < 25"
  using builtin_kind_number kind_number_inj that by metis

lemma reads_VariantScalar:
  assumes env: "builtin_env env" and jt: "reads ct k (jt t) (wire env t w) w"
    and wf: "wf_val env ty (VVariantScalar t w)"
    and can: "canonical env ct ty (VVariantScalar t w)"
    and sub: "kind_at env t = DK_EXTENSIONOBJECT \<Longrightarrow> reads ct k (jt UA_TYPES_EXTENSIONOBJECT) (wire env t w) w"
  shows "reads ct (Suc k) (Variant_decodeBinary env jt) (wire env ty' (VVariantScalar t w))
    (VVariantScalar t w)"
proof (cases "needs_wrap env t")
  case True
  have byte: "variant_type_bits (kind_at env t) = 22"
    using True by (intro variant_byte_wrapped) (auto simp: needs_wrap_def)
  have c: "reads ct k (Variant_decodeContent env jt 22 UA_TYPES_EXTENSIONOBJECT)
      (wrap_header env t w @ wire env t w) (VVariantScalar t w)"
    using reads_unwrap [where jt = jt and t = t, OF jt] wf can True
    by (simp add: Variant_decodeContent_def [abs_def])
  show ?thesis
    using reads_Variant_content [OF c] byte True by simp
next
  case False
  with can have t: "t < 25" "kind_at env t \<noteq> DK_VARIANT" by auto
  then have n: "t \<noteq> 23" using kind_of_address [of DK_VARIANT env t] env by simp
  note b = variant_byte [OF builtin_kind_at [OF env t(1)], of 0, simplified]
  have c: "reads ct k (Variant_decodeContent env jt (variant_type_bits (kind_at env t)) t)
      (wire env t w) (VVariantScalar t w)"
  proof (cases "t = UA_TYPES_EXTENSIONOBJECT")
    case True
    with env have "kind_at env t = DK_EXTENSIONOBJECT" using builtin_kinds(3) by simp
    with wf can obtain e tid body where w: "w = VEncodedEO e tid body"
      using wf_eo_kind [of env t w] by auto
    have "reads ct k (Variant_decodeBinaryUnwrapExtensionObject env jt) (wire env t w)
        (VVariantScalar UA_TYPES_EXTENSIONOBJECT w)"
      unfolding w
      by (rule reads_unwrap_encoded)
         (use sub wf can w True \<open>kind_at env t = DK_EXTENSIONOBJECT\<close> in \<open>simp_all del: wire.simps\<close>)
    then show ?thesis using True b by (simp add: Variant_decodeContent_def [abs_def])
  next
    case False
    have "reads ct k (\<lambda>c. case dec_calloc c of (ok, c1) \<Rightarrow>
        if \<not> ok then (UA_STATUSCODE_BADOUTOFMEMORY, VVariantEmpty, c1)
        else case jt t c1 of (r, v, c2) \<Rightarrow> (r, VVariantScalar t v, c2)) (wire env t w) (VVariantScalar t w)"
      by (intro reads_allocated reads_bind_ret jt)
    then show ?thesis using False b by (simp add: Variant_decodeContent_def [abs_def] Let_def cong: if_cong)
  qed
  show ?thesis
    using reads_Variant_content [OF c] b t n builtin_kind_number [OF env t(1)] False by simp
qed

lemma dims_decode:
  "map (\<lambda>i. UA_decode32 (drop (i * 4) (concat (map UA_encode32 ds)))) [0..<length ds] = ds"
proof (rule nth_equalityI)
  fix i assume "i < length (map (\<lambda>i. UA_decode32 (drop (i * 4) (concat (map UA_encode32 ds)))) [0..<length ds])"
  then have i: "i < length ds" by simp
  then have "take 4 (drop (i * 4) (concat (map UA_encode32 ds))) = UA_encode32 (ds ! i)"
    by (intro nth_block) simp_all
  then have "UA_decode32 (drop (i * 4) (concat (map UA_encode32 ds))) = UA_decode32 (UA_encode32 (ds ! i))"
    using UA_decode32_take by metis
  with i show "map (\<lambda>i. UA_decode32 (drop (i * 4) (concat (map UA_encode32 ds)))) [0..<length ds] ! i = ds ! i"
    by simp
qed simp

lemma reads_dims:
  assumes "length ds \<le> UA_INT32_MAX" "ds \<noteq> []"
  shows "reads ct k (Array_decodeBinary_with 4 True
      (\<lambda>n bs. map (\<lambda>i. UA_decode32 (drop (i * 4) bs)) [0..<n]) UInt32_decodeBinary)
    (UA_encode32 (of_nat (length ds)) @ concat (map UA_encode32 ds)) (Some ds)"
proof (rule reads_eq [OF reads_Array_with])
  show "UA_encode32 (array_signed_length (Some ds)) @ concat (map UA_encode32 ds) =
     UA_encode32 (of_nat (length ds)) @ concat (map UA_encode32 ds)"
    by (simp add: signed_length_Some)
qed (use assms dims_decode concat_map_length_const [of ds UA_encode32 4] in auto)

lemma reads_VariantArray:
  assumes env: "builtin_env env"
    and arr: "reads ct k (Array_decodeBinary env jt t) (wire_field env t (FArray a)) a"
    and wf: "wf_val env ty (VVariantArray t a dims)"
    and can: "canonical env ct ty (VVariantArray t a dims)"
  shows "reads ct (Suc k) (Variant_decodeBinary env jt) (wire env ty' (VVariantArray t a dims))
    (VVariantArray t a dims)"
proof -
  have t: "t < 25" using can by simp
  note bk = builtin_kind_at [OF env t]
  define b where "b = variant_type_bits (kind_at env t) OR (if dims \<noteq> [] then 0xC0 else 0x80)"
  have f: "(if dims \<noteq> [] then 0xC0 else 0x80 :: u8) = 0 \<or> (if dims \<noteq> [] then 0xC0 else 0x80 :: u8) = 0x80 \<or>
      (if dims \<noteq> [] then 0xC0 else 0x80 :: u8) = 0xC0" by simp
  have vb: "unat (b AND 0x3F) = Suc (kind_number (kind_at env t))" "b \<noteq> 0" "b AND 0x80 \<noteq> 0"
      "(b AND 0x40 \<noteq> 0) = (dims \<noteq> [])"
    using variant_byte [OF bk f] unfolding b_def by (simp_all split: if_splits)
  have w: "wire env ty' (VVariantArray t a dims) = b # wire_field env t (FArray a) @
      (if dims \<noteq> [] then UA_encode32 (of_nat (length dims)) @ concat (map UA_encode32 dims) else [])"
    using bk by (simp add: needs_wrap_def b_def or.assoc)
  have "reads ct k (Variant_decodeContent env jt b t) (wire_field env t (FArray a) @
      (if dims \<noteq> [] then UA_encode32 (of_nat (length dims)) @ concat (map UA_encode32 dims) else []))
     (VVariantArray t a dims)"
  proof (cases "dims = []")
    case True
    then show ?thesis
      using reads_bind_ret [OF arr, of "\<lambda>a. VVariantArray t a []"] vb
      by (simp add: Variant_decodeContent_def [abs_def])
  next
    case False
    have "length dims \<le> UA_INT32_MAX" using wf by simp
    note rd = reads_bind_ret [OF reads_dims [OF this False], of ct k "\<lambda>ds. VVariantArray t a (array_elems ds)"]
    have "reads ct k (\<lambda>c. case Array_decodeBinary env jt t c of (r1, a, c1) \<Rightarrow>
         case Array_decodeBinary_with 4 True (\<lambda>n bs. map (\<lambda>i. UA_decode32 (drop (i * 4) bs)) [0..<n])
             UInt32_decodeBinary c1 of
           (r2, dims, c2) \<Rightarrow> (r1 OR r2, VVariantArray t a (array_elems dims), c2))
       (wire_field env t (FArray a) @ UA_encode32 (of_nat (length dims)) @ concat (map UA_encode32 dims))
       (VVariantArray t a dims)"
      by (rule reads_bind [OF arr]) (use rd in simp)
    then show ?thesis using False vb by (simp add: Variant_decodeContent_def [abs_def] Let_def)
  qed
  from reads_Variant_content [OF this] show ?thesis
    unfolding w using vb t builtin_kind_number [OF env t] by simp
qed

section \<open>Data values and diagnostics\<close>

lemma wire_opt_cong: "(case x of None \<Rightarrow> [] | Some y \<Rightarrow> f y) = wire_opt f x"
  by (simp add: wire_opt_def)

lemma DataValue_bits:
  fixes a b c d e f
  defines "m \<equiv> DataValue_encodingMask a b c d e f"
  shows "(m AND 0x01 \<noteq> 0) = (a \<noteq> None)" "(m AND 0x02 \<noteq> 0) = (b \<noteq> None)"
    "(m AND 0x04 \<noteq> 0) = (c \<noteq> None)" "(m AND 0x10 \<noteq> 0) = (d \<noteq> None)"
    "(m AND 0x08 \<noteq> 0) = (e \<noteq> None)" "(m AND 0x20 \<noteq> 0) = (f \<noteq> None)"
  unfolding m_def DataValue_encodingMask_def flag_def
  by (cases "a = None"; cases "b = None"; cases "c = None"; cases "d = None"; cases "e = None";
      cases "f = None"; simp)+

lemma DiagnosticInfo_bits:
  fixes a b c d e f g
  defines "m \<equiv> DiagnosticInfo_encodingMask a b c d e f g"
  shows "(m AND 0x01 \<noteq> 0) = (a \<noteq> None)" "(m AND 0x02 \<noteq> 0) = (b \<noteq> None)"
    "(m AND 0x04 \<noteq> 0) = (c \<noteq> None)" "(m AND 0x08 \<noteq> 0) = (d \<noteq> None)"
    "(m AND 0x10 \<noteq> 0) = (e \<noteq> None)" "(m AND 0x20 \<noteq> 0) = (f \<noteq> None)"
    "(m AND 0x40 = 0) = (g = None)"
  unfolding m_def DiagnosticInfo_encodingMask_def flag_def
  by (cases "a = None"; cases "b = None"; cases "c = None"; cases "d = None"; cases "e = None";
      cases "f = None"; cases "g = None"; simp)+

lemma reads_DataValue:
  assumes v: "\<And>y. x = Some y \<Longrightarrow> reads ct k (Variant_decodeBinary env jt) (wire env UA_TYPES_VARIANT y) y"
    and pico: "pico_ok sps" "pico_ok vps"
  shows "reads ct (Suc k) (DataValue_decodeBinary env jt) (wire env ty (VDataValue x st sts sps vts vps))
    (VDataValue x st sts sps vts vps)"
proof (rule readsI)
  let ?m = "DataValue_encodingMask x st sts sps vts vps"
  fix buf d c rest
  assume d: "d + Suc k \<le> 101" and "ready ct buf d c (wire env ty (VDataValue x st sts sps vts vps) @ rest)"
  then have r: "ready ct buf d c ([?m] @ wire_opt (wire env UA_TYPES_VARIANT) x @ wire_opt UA_encode32 st @
      wire_opt UA_encode64 sts @ wire_opt UA_encode16 sps @ wire_opt UA_encode64 vts @
      wire_opt UA_encode16 vps @ rest)" (is "ready _ _ _ _ (_ @ ?r0)")
    by (simp add: wire_opt_cong)
  have d': "Suc d + k \<le> 101" using d by simp
  obtain c0 where 0: "Byte_decodeBinary c = (GOOD, ?m, c0)" "ready ct buf d c0 ?r0"
    using readsE [OF reads_Byte r d] by blast
  have 1: "ready ct buf (Suc d) (c0\<lparr>dec_depth := dec_depth c0 + 1\<rparr>) ?r0"
    using 0(2) by (simp add: ready_def)
  note bits = DataValue_bits [of x st sts sps vts vps]
  note o = reads_opt [OF _ bits(1)] reads_opt [OF _ bits(2)] reads_opt [OF _ bits(3)]
     reads_opt [OF _ bits(4)] reads_opt [OF _ bits(5)] reads_opt [OF _ bits(6)]
  obtain c2 where 2: "dec_opt (?m AND 0x01 \<noteq> 0) (Variant_decodeBinary env jt) (c0\<lparr>dec_depth := dec_depth c0 + 1\<rparr>) = (GOOD, x, c2)"
    "ready ct buf (Suc d) c2 (wire_opt UA_encode32 st @
      wire_opt UA_encode64 sts @ wire_opt UA_encode16 sps @ wire_opt UA_encode64 vts @
      wire_opt UA_encode16 vps @ rest)"
    using readsE [OF o(1) [OF v] 1 d'] by blast
  obtain c3 where 3: "dec_opt (?m AND 0x02 \<noteq> 0) UInt32_decodeBinary c2 = (GOOD, st, c3)"
    "ready ct buf (Suc d) c3 (wire_opt UA_encode64 sts @ wire_opt UA_encode16 sps @ wire_opt UA_encode64 vts @
      wire_opt UA_encode16 vps @ rest)"
    using readsE [OF o(2) [OF reads_UInt32] 2(2) d'] by blast
  obtain c4 where 4: "dec_opt (?m AND 0x04 \<noteq> 0) UInt64_decodeBinary c3 = (GOOD, sts, c4)"
    "ready ct buf (Suc d) c4 (wire_opt UA_encode16 sps @ wire_opt UA_encode64 vts @
      wire_opt UA_encode16 vps @ rest)"
    using readsE [OF o(3) [OF reads_UInt64] 3(2) d'] by blast
  have p: "reads ct k Picoseconds_decode (UA_encode16 y) y" if "sps = Some y \<or> vps = Some y" for y
    using pico that by (intro reads_Pico) (auto simp: pico_ok_def)
  obtain c5 where 5: "dec_opt (?m AND 0x10 \<noteq> 0) Picoseconds_decode c4 = (GOOD, sps, c5)"
    "ready ct buf (Suc d) c5 (wire_opt UA_encode64 vts @ wire_opt UA_encode16 vps @ rest)"
    using readsE [OF o(4) [OF p] 4(2) d'] by blast
  obtain c6 where 6: "dec_opt (?m AND 0x08 \<noteq> 0) UInt64_decodeBinary c5 = (GOOD, vts, c6)"
    "ready ct buf (Suc d) c6 (wire_opt UA_encode16 vps @ rest)"
    using readsE [OF o(5) [OF reads_UInt64] 5(2) d'] by blast
  obtain c7 where 7: "dec_opt (?m AND 0x20 \<noteq> 0) Picoseconds_decode c6 = (GOOD, vps, c7)"
    "ready ct buf (Suc d) c7 rest"
    using readsE [OF o(6) [OF p] 6(2) d'] by blast
  have "ready ct buf d (c7\<lparr>dec_depth := dec_depth c7 - 1\<rparr>) rest"
    using 7(2) by (simp add: ready_def)
  moreover have "DataValue_decodeBinary env jt c =
      (GOOD, VDataValue x st sts sps vts vps, c7\<lparr>dec_depth := dec_depth c7 - 1\<rparr>)"
  proof -
    have "(DEC_MAX_RECURSION < dec_depth c0) = False" using d ready_sel(2) [OF 0(2)] by simp
    then show ?thesis
      by (simp only: DataValue_decodeBinary_def Let_def 0(1) 2(1) 3(1) 4(1) 5(1) 6(1) 7(1) prod.case
          simp_thms if_False or_GOOD_left)
  qed
  ultimately show "\<exists>c'. DataValue_decodeBinary env jt c = (GOOD, VDataValue x st sts sps vts vps, c') \<and>
      ready ct buf d c' rest" by blast
qed

lemma reads_DiagnosticInfo_step:
  assumes inner: "\<And>y. inner = Some y \<Longrightarrow> 0 < k \<and>
      reads ct (k - 1) (DiagnosticInfo_decodeBinary n) (wire env UA_TYPES_DIAGNOSTICINFO y) y"
    and add: "\<And>s. add = Some s \<Longrightarrow> wf_string s"
  shows "reads ct k (DiagnosticInfo_decodeBinary (Suc n))
    (wire env ty (VDiagnosticInfo symid ns lt loc add st inner))
    (VDiagnosticInfo symid ns lt loc add st inner)"
proof (rule readsI)
  let ?m = "DiagnosticInfo_encodingMask symid ns lt loc add st inner"
  fix buf d c rest
  assume d: "d + k \<le> 101"
    and "ready ct buf d c (wire env ty (VDiagnosticInfo symid ns lt loc add st inner) @ rest)"
  then have r: "ready ct buf d c ([?m] @ wire_opt UA_encode32 symid @ wire_opt UA_encode32 ns @
      wire_opt UA_encode32 lt @ wire_opt UA_encode32 loc @ wire_opt wire_string add @
      wire_opt UA_encode32 st @ wire_opt (wire env UA_TYPES_DIAGNOSTICINFO) inner @ rest)"
    (is "ready _ _ _ _ (_ @ ?r0)")
    by (simp add: wire_opt_cong)
  note bits = DiagnosticInfo_bits [of symid ns lt loc add st inner]
  note o = reads_opt [OF _ bits(1)] reads_opt [OF _ bits(2)] reads_opt [OF _ bits(3)]
     reads_opt [OF _ bits(4)] reads_opt [OF _ bits(5)] reads_opt [OF _ bits(6)]
  obtain c0 where 0: "Byte_decodeBinary c = (GOOD, ?m, c0)" "ready ct buf d c0 ?r0"
    using readsE [OF reads_Byte r d] by blast
  obtain c1 where 1: "dec_opt (?m AND 0x01 \<noteq> 0) UInt32_decodeBinary c0 = (GOOD, symid, c1)"
    "ready ct buf d c1 (wire_opt UA_encode32 ns @
      wire_opt UA_encode32 lt @ wire_opt UA_encode32 loc @ wire_opt wire_string add @
      wire_opt UA_encode32 st @ wire_opt (wire env UA_TYPES_DIAGNOSTICINFO) inner @ rest)"
    using readsE [OF o(1) [OF reads_UInt32] 0(2) d] by blast
  obtain c2 where 2: "dec_opt (?m AND 0x02 \<noteq> 0) UInt32_decodeBinary c1 = (GOOD, ns, c2)"
    "ready ct buf d c2 (wire_opt UA_encode32 lt @ wire_opt UA_encode32 loc @ wire_opt wire_string add @
      wire_opt UA_encode32 st @ wire_opt (wire env UA_TYPES_DIAGNOSTICINFO) inner @ rest)"
    using readsE [OF o(2) [OF reads_UInt32] 1(2) d] by blast
  obtain c3 where 3: "dec_opt (?m AND 0x04 \<noteq> 0) UInt32_decodeBinary c2 = (GOOD, lt, c3)"
    "ready ct buf d c3 (wire_opt UA_encode32 loc @ wire_opt wire_string add @
      wire_opt UA_encode32 st @ wire_opt (wire env UA_TYPES_DIAGNOSTICINFO) inner @ rest)"
    using readsE [OF o(3) [OF reads_UInt32] 2(2) d] by blast
  obtain c4 where 4: "dec_opt (?m AND 0x08 \<noteq> 0) UInt32_decodeBinary c3 = (GOOD, loc, c4)"
    "ready ct buf d c4 (wire_opt wire_string add @
      wire_opt UA_encode32 st @ wire_opt (wire env UA_TYPES_DIAGNOSTICINFO) inner @ rest)"
    using readsE [OF o(4) [OF reads_UInt32] 3(2) d] by blast
  obtain c5 where 5: "dec_opt (?m AND 0x10 \<noteq> 0) String_decodeBinary c4 = (GOOD, add, c5)"
    "ready ct buf d c5 (wire_opt UA_encode32 st @ wire_opt (wire env UA_TYPES_DIAGNOSTICINFO) inner @ rest)"
    using readsE [OF o(5) [OF reads_String [OF local.add]] 4(2) d] by blast
  obtain c6 where 6: "dec_opt (?m AND 0x20 \<noteq> 0) UInt32_decodeBinary c5 = (GOOD, st, c6)"
    "ready ct buf d c6 (wire_opt (wire env UA_TYPES_DIAGNOSTICINFO) inner @ rest)"
    using readsE [OF o(6) [OF reads_UInt32] 5(2) d] by blast
  note eqs = DiagnosticInfo_decodeBinary.simps Let_def 0(1) 1(1) 2(1) 3(1) 4(1) 5(1) 6(1) prod.case
    simp_thms if_False if_True or_GOOD_left or_GOOD_right
  show "\<exists>c'. DiagnosticInfo_decodeBinary (Suc n) c = (GOOD, VDiagnosticInfo symid ns lt loc add st inner, c') \<and>
      ready ct buf d c' rest"
  proof (cases inner)
    case None
    then have "(?m AND 0x40 = 0) = True" using bits(7) by blast
    then have "DiagnosticInfo_decodeBinary (Suc n) c = (GOOD, VDiagnosticInfo symid ns lt loc add st inner, c6)"
      by (simp only: eqs) (simp only: None)
    then show ?thesis using 6(2) None by (simp add: wire_opt_def)
  next
    case (Some y)
    then have b: "(?m AND 0x40 = 0) = False" using bits(7) by blast
    have k: "0 < k" and i: "reads ct (k - 1) (DiagnosticInfo_decodeBinary n) (wire env UA_TYPES_DIAGNOSTICINFO y) y"
      using inner [OF Some] by auto
    have r6: "ready ct buf d c6 (wire env UA_TYPES_DIAGNOSTICINFO y @ rest)"
      using 6(2) Some by (simp add: wire_opt_def)
    obtain c7 where 7: "dec_calloc c6 = (True, c7)" "ready ct buf d c7 (wire env UA_TYPES_DIAGNOSTICINFO y @ rest)"
      using reads_calloc [OF r6] by blast
    have d': "Suc d + (k - 1) \<le> 101" using d k by simp
    have "ready ct buf (Suc d) (c7\<lparr>dec_depth := dec_depth c7 + 1\<rparr>) (wire env UA_TYPES_DIAGNOSTICINFO y @ rest)"
      using 7(2) by (simp add: ready_def)
    then obtain c8 where 8: "DiagnosticInfo_decodeBinary n (c7\<lparr>dec_depth := dec_depth c7 + 1\<rparr>) = (GOOD, y, c8)"
      "ready ct buf (Suc d) c8 rest"
      using readsE [OF i _ d'] by blast
    have "(DEC_MAX_RECURSION < dec_depth c7) = False" using d k ready_sel(2) [OF 7(2)] by simp
    then have "DiagnosticInfo_decodeBinary (Suc n) c =
        (GOOD, VDiagnosticInfo symid ns lt loc add st (Some y), c8\<lparr>dec_depth := dec_depth c8 - 1\<rparr>)"
      by (simp only: eqs b 7(1) 8(1))
    moreover have "ready ct buf d (c8\<lparr>dec_depth := dec_depth c8 - 1\<rparr>) rest"
      using 8(2) by (simp add: ready_def)
    ultimately show ?thesis using Some by blast
  qed
qed

lemma reads_DiagnosticInfo:
  assumes env: "builtin_env env"
  shows "wf_val env ty v \<Longrightarrow> kind_at env ty = DK_DIAGNOSTICINFO \<Longrightarrow> nest v < n \<Longrightarrow> nest v \<le> k \<Longrightarrow>
    reads ct k (DiagnosticInfo_decodeBinary n) (wire env ty' v) v"
proof (induction n arbitrary: v k ty ty')
  case (Suc n)
  from wf_diag_kind [OF Suc.prems(1,2)]
  obtain a b c d e f g where v: "v = VDiagnosticInfo a b c d e f g" by (elim exE)
  show ?case unfolding v
  proof (rule reads_DiagnosticInfo_step)
    fix y assume g: "g = Some y"
    have "reads ct (k - 1) (DiagnosticInfo_decodeBinary n) (wire env UA_TYPES_DIAGNOSTICINFO y) y"
      by (rule Suc.IH [of UA_TYPES_DIAGNOSTICINFO]) (use Suc.prems v g builtin_kinds(2) [OF env] in auto)
    then show "0 < k \<and> reads ct (k - 1) (DiagnosticInfo_decodeBinary n) (wire env UA_TYPES_DIAGNOSTICINFO y) y"
      using Suc.prems v g by simp
  qed (use Suc.prems v in auto)
qed simp

lemma reads_deep: "101 < k \<Longrightarrow> reads ct k f bs x"
  by (simp add: reads_def)

lemma reads_DiagnosticInfo_top:
  assumes "builtin_env env" "wf_val env ty v" "kind_at env ty = DK_DIAGNOSTICINFO" "nest v \<le> k"
  shows "reads ct k (DiagnosticInfo_decodeBinary 102) (wire env ty' v) v"
proof (cases "k \<le> 101")
  case True
  with assms show ?thesis by (intro reads_DiagnosticInfo) auto
qed (simp add: reads_deep)

section \<open>Structured types\<close>

lemma elems_nest: "v \<in> set vs \<Longrightarrow> nest v \<le> max_list (map nest vs)"
  by (rule nest_in_list)

text \<open>An array of values that the table reads.\<close>

lemma reads_elems_Array:
  assumes jt: "table_reads env ct N jt"
    and wf: "case a of None \<Rightarrow> True | Some vs \<Rightarrow> \<forall>v \<in> set vs. wf_val env t v \<and> overlay_ok env t v"
    and len: "array_length a \<le> UA_INT32_MAX"
    and can: "case a of None \<Rightarrow> True | Some vs \<Rightarrow> \<forall>v \<in> set vs. canonical env ct t v \<and> elem_ok env t v"
    and nest: "(case a of None \<Rightarrow> 0 | Some vs \<Rightarrow> max_list (map nest vs)) \<le> k"
    and fuel: "(case a of None \<Rightarrow> 0 | Some vs \<Rightarrow> max_list (map nest vs)) +
      length (wire_field env t (FArray a)) < N"
  shows "reads ct k (Array_decodeBinary env jt t) (wire_field env t (FArray a)) a"
proof (rule reads_Array [OF _ len])
  show "\<forall>v\<in>set (array_elems a). overlay_ok env t v \<and> elem_ok env t v"
    using wf can by (cases a) auto
  fix v assume v: "v \<in> set (array_elems a)" "\<not> overlayable (ty_at env t)"
  then obtain vs where a: "a = Some vs" "v \<in> set vs" by (cases a) auto
  have "length (wire env t v) \<le> length (concat (map (wire env t) vs))"
    by (rule sum_list_member_le) fact
  then have "nest v + length (wire env t v) < N"
    using fuel a v(2) elems_nest [OF a(2)] by simp
  then show "reads ct k (jt t) (wire env t v) v"
    using a wf can nest elems_nest [OF a(2)] by (intro table_readsD [OF jt]) auto
qed

lemma reads_member:
  assumes jt: "table_reads env ct N jt" and wf: "wf_field env opt m f" "\<not> (opt \<and> isOptional m)"
    and can: "canonical_field env ct (memberType m) f"
    and nest: "nest_field f \<le> k" and fuel: "nest_field f + length (wire_field env (memberType m) f) < N"
  shows "reads ct k (decode_member env jt m) (wire_field env (memberType m) f) f"
proof (cases f)
  case (FScalar v)
  have "reads ct k (jt (memberType m)) (wire env (memberType m) v) v"
    using FScalar wf can nest fuel by (intro table_readsD [OF jt]) auto
  from reads_bind_ret [OF this, of FScalar] show ?thesis
    using FScalar wf by (simp add: decode_member_def [abs_def] Let_def)
next
  case (FArray a)
  have "reads ct k (Array_decodeBinary env jt (memberType m)) (wire_field env (memberType m) (FArray a)) a"
    using FArray wf can nest fuel by (intro reads_elems_Array [OF jt]) (auto simp del: wire_field.simps)
  from reads_bind_ret [OF this, of FArray] show ?thesis
    using FArray wf by (simp add: decode_member_def [abs_def] Let_def del: wire_field.simps)
qed (use wf in auto)

lemma reads_cons:
  assumes f: "reads ct k f as x" and fs: "reads ct k fs bs xs"
  shows "reads ct k (\<lambda>c. case f c of (r, x, c1) \<Rightarrow> if r = GOOD
      then case fs c1 of (r', xs, c2) \<Rightarrow> (r', x # xs, c2) else (r, [], c1)) (as @ bs) (x # xs)"
  by (rule reads_bind [OF f]) (use reads_bind_ret [OF fs, of "\<lambda>xs. x # xs"] in simp)

lemma reads_members:
  assumes jt: "table_reads env ct N jt"
  shows "wf_fields env False ms fs \<Longrightarrow> canonical_fields env ct ms fs \<Longrightarrow>
    max_list (map nest_field fs) \<le> k \<Longrightarrow>
    max_list (map nest_field fs) + length (wire_fields env False ms fs) < N \<Longrightarrow>
    reads ct k (decode_members env jt ms) (wire_fields env False ms fs) fs"
proof (induction ms arbitrary: fs)
  case Nil
  then show ?case by (cases fs) (auto simp: reads_def)
next
  case (Cons m ms)
  then obtain f gs where fs: "fs = f # gs" by (cases fs) auto
  have f: "reads ct k (decode_member env jt m) (wire_field env (memberType m) f) f"
    using Cons.prems fs by (intro reads_member [OF jt, where opt = False]) auto
  have gs: "reads ct k (decode_members env jt ms) (wire_fields env False ms gs) gs"
    using Cons.prems fs by (intro Cons.IH) auto
  from reads_cons [OF f gs] show ?case
    using fs by (simp add: decode_members.simps(2) [abs_def] Let_def cong: if_cong)
qed

lemma reads_opt_member:
  assumes jt: "table_reads env ct N jt" and wf: "wf_field env True m f" "isOptional m"
    and can: "canonical_field env ct (memberType m) f"
    and nest: "nest_field f \<le> k" and fuel: "nest_field f + length (wire_field env (memberType m) f) < N"
  shows "reads ct k (decode_opt_member env jt (opt_present f) m)
    (if opt_present f then wire_field env (memberType m) f else []) f"
proof (cases f)
  case (FOptScalar x)
  show ?thesis
  proof (cases x)
    case None
    then show ?thesis using FOptScalar wf by (simp add: decode_opt_member_def [abs_def] reads_ret)
  next
    case (Some v)
    have "reads ct k (jt (memberType m)) (wire env (memberType m) v) v"
      using FOptScalar Some wf can nest fuel by (intro table_readsD [OF jt]) auto
    from reads_allocated [OF reads_bind_ret [OF this, of "\<lambda>v. FOptScalar (Some v)"]] show ?thesis
      using FOptScalar Some wf by (simp add: decode_opt_member_def [abs_def] Let_def cong: if_cong)
  qed
next
  case (FOptArray a)
  show ?thesis
  proof (cases a)
    case None
    then show ?thesis using FOptArray wf by (simp add: decode_opt_member_def [abs_def] reads_ret)
  next
    case (Some vs)
    have w: "wire_field env (memberType m) f = wire_field env (memberType m) (FArray a)"
      using FOptArray Some by simp
    have "reads ct k (Array_decodeBinary env jt (memberType m)) (wire_field env (memberType m) (FArray a)) a"
      using FOptArray wf can nest fuel [unfolded w]
      by (intro reads_elems_Array [OF jt]) (auto simp del: wire_field.simps)
    from reads_bind_ret [OF this, of FOptArray] show ?thesis
      unfolding w using FOptArray Some wf
      by (simp add: decode_opt_member_def [abs_def] Let_def del: wire_field.simps)
  qed
qed (use wf in auto)

lemma reads_opt_members:
  assumes jt: "table_reads env ct N jt"
  shows "wf_fields env True ms fs \<Longrightarrow> canonical_fields env ct ms fs \<Longrightarrow>
    max_list (map nest_field fs) \<le> k \<Longrightarrow>
    max_list (map nest_field fs) + length (wire_fields env True ms fs) < N \<Longrightarrow>
    i + length (filter isOptional ms) \<le> 32 \<Longrightarrow>
    (\<And>n. i \<le> n \<Longrightarrow> n < 32 \<Longrightarrow> bit w n = bit (opt_encodingMask i ms fs) n) \<Longrightarrow>
    reads ct k (decode_opt_members env jt w i ms) (wire_fields env True ms fs) fs"
proof (induction ms arbitrary: fs i)
  case Nil
  then show ?case by (cases fs) (auto simp: reads_def)
next
  case (Cons m ms)
  then obtain f gs where fs: "fs = f # gs" by (cases fs) auto
  show ?case
  proof (cases "isOptional m")
    case False
    have f: "reads ct k (decode_member env jt m) (wire_field env (memberType m) f) f"
      using Cons.prems fs False by (intro reads_member [OF jt, where opt = True]) auto
    have gs: "reads ct k (decode_opt_members env jt w i ms) (wire_fields env True ms gs) gs"
      using Cons.prems fs False by (intro Cons.IH) auto
    from reads_cons [OF f gs] show ?thesis
      using fs False by (simp add: decode_opt_members.simps(2) [abs_def] Let_def cong: if_cong)
  next
    case opt: True
    have i: "i < 32" using Cons.prems(5) opt by simp
    then have b: "(w AND push_bit i 1 \<noteq> 0) = opt_present f"
      using Cons.prems(6) [of i] opt_encodingMask_head [OF opt i] fs and_push_bit_1 by simp
    have wf: "wf_field env True m f" "canonical_field env ct (memberType m) f" "nest_field f \<le> k"
      using Cons.prems fs by auto
    have abs: "wire_field env (memberType m) f = []" if "\<not> opt_present f"
      using that wf opt by (cases f) auto
    have f: "reads ct k (decode_opt_member env jt (opt_present f) m)
        (if opt_present f then wire_field env (memberType m) f else []) f"
    proof (rule reads_opt_member [OF jt wf(1) opt wf(2,3)])
      show "nest_field f + length (wire_field env (memberType m) f) < N"
        using Cons.prems(4) fs opt abs by (cases "opt_present f") auto
    qed
    have gs: "reads ct k (decode_opt_members env jt w (Suc i) ms) (wire_fields env True ms gs) gs"
      using Cons.prems fs opt opt_encodingMask_tail [OF opt] by (intro Cons.IH) auto
    have i': "(32 \<le> i) = False" using i by simp
    have step: "decode_opt_members env jt w i (m # ms) =
       (\<lambda>c. case decode_opt_member env jt (opt_present f) m c of (r, x, c1) \<Rightarrow>
         if r = GOOD then case decode_opt_members env jt w (Suc i) ms c1 of (r', xs, c2) \<Rightarrow> (r', x # xs, c2)
         else (r, [], c1))"
      by (intro ext) (simp only: decode_opt_members.simps Let_def opt i' b if_True if_False)
    have wire: "wire_fields env True (m # ms) (f # gs) =
       (if opt_present f then wire_field env (memberType m) f else []) @ wire_fields env True ms gs"
      using opt by simp
    show ?thesis unfolding fs step wire by (rule reads_cons [OF f gs])
  qed
qed

lemma reads_Struct:
  assumes jt: "table_reads env ct N jt"
    and wf: "wf_val env ty (VStruct fs)" "kind_at env ty = DK_STRUCTURE"
    and can: "canonical env ct ty (VStruct fs)" and nest: "nest (VStruct fs) \<le> k"
    and fuel: "nest (VStruct fs) + length (wire env ty (VStruct fs)) \<le> N"
  shows "reads ct k (decodeBinaryStructure env jt ty) (wire env ty (VStruct fs)) (VStruct fs)"
proof -
  obtain k' where k: "k = Suc k'" using nest by (cases k) auto
  have "reads ct k' (decode_members env jt (members (ty_at env ty)))
      (wire_fields env False (members (ty_at env ty)) fs) fs"
    using wf can nest fuel k by (intro reads_members [OF jt]) auto
  from reads_nested [OF reads_bind_ret [OF this, of VStruct]] show ?thesis
    using k wf by (simp add: decodeBinaryStructure_def Let_def)
qed

lemma reads_OptStruct:
  assumes jt: "table_reads env ct N jt"
    and wf: "wf_val env ty (VStruct fs)" "kind_at env ty = DK_OPTSTRUCT"
    and can: "canonical env ct ty (VStruct fs)" and nest: "nest (VStruct fs) \<le> k"
    and fuel: "nest (VStruct fs) + length (wire env ty (VStruct fs)) \<le> N"
  shows "reads ct k (decodeBinaryStructureWithOptFields env jt ty) (wire env ty (VStruct fs)) (VStruct fs)"
proof -
  obtain k' where k: "k = Suc k'" using nest by (cases k) auto
  let ?ms = "members (ty_at env ty)"
  have fs: "reads ct k' (decode_opt_members env jt (opt_encodingMask 0 ?ms fs) 0 ?ms)
      (wire_fields env True ?ms fs) fs"
    using wf can nest fuel k by (intro reads_opt_members [OF jt]) auto
  have "reads ct k' (\<lambda>c. case UInt32_decodeBinary c of (r, w, c1) \<Rightarrow>
        if r \<noteq> GOOD then (r, VStruct [], c1)
        else case decode_opt_members env jt w 0 ?ms c1 of (r', fs, c2) \<Rightarrow> (r', VStruct fs, c2))
      (UA_encode32 (opt_encodingMask 0 ?ms fs) @ wire_fields env True ?ms fs) (VStruct fs)"
    by (rule reads_bind [OF reads_UInt32]) (use reads_bind_ret [OF fs, of VStruct] in simp)
  from reads_nested [OF this] show ?thesis
    using k wf by (simp add: decodeBinaryStructureWithOptFields_def Let_def cong: if_cong)
qed

lemma reads_Union:
  assumes jt: "table_reads env ct N jt"
    and wf: "wf_val env ty (VUnion sel f)"
    and can: "canonical env ct ty (VUnion sel f)" and nest: "nest (VUnion sel f) \<le> k"
    and fuel: "nest (VUnion sel f) + length (wire env ty (VUnion sel f)) \<le> N"
  shows "reads ct k (decodeBinaryUnion env jt ty) (wire env ty (VUnion sel f)) (VUnion sel f)"
proof (rule readsI)
  fix buf d c rest assume d: "d + k \<le> 101" and r: "ready ct buf d c (wire env ty (VUnion sel f) @ rest)"
  let ?ms = "members (ty_at env ty)"
  obtain k' where k: "k = Suc k'" using nest by (cases k) auto
  have d': "Suc d + k' \<le> 101" using d k by simp
  have dep: "\<not> DEC_MAX_RECURSION < dec_depth c" using d k ready_sel(2) [OF r] by simp
  have r': "ready ct buf d c (UA_encode32 sel @
      (if sel = 0 then [] else wire_field env (memberType (?ms ! unat (sel - 1))) f) @ rest)"
    using r by simp
  obtain c1 where 1: "UInt32_decodeBinary c = (GOOD, sel, c1)"
    "ready ct buf d c1 ((if sel = 0 then [] else wire_field env (memberType (?ms ! unat (sel - 1))) f) @ rest)"
    using readsE [OF reads_UInt32 r' d] by blast
  show "\<exists>c'. decodeBinaryUnion env jt ty c = (GOOD, VUnion sel f, c') \<and> ready ct buf d c' rest"
  proof (cases "sel = 0")
    case True
    then show ?thesis
      using 1 dep can by (simp add: decodeBinaryUnion_def Let_def)
  next
    case False
    have m: "reads ct k' (decode_member env jt (?ms ! unat (sel - 1)))
        (wire_field env (memberType (?ms ! unat (sel - 1))) f) f"
      using wf can nest fuel k False by (intro reads_member [OF jt, where opt = False]) auto
    have "ready ct buf (Suc d) (c1\<lparr>dec_depth := dec_depth c1 + 1\<rparr>)
        (wire_field env (memberType (?ms ! unat (sel - 1))) f @ rest)"
      using 1(2) False by (simp add: ready_def)
    then obtain c2 where 2: "decode_member env jt (?ms ! unat (sel - 1)) (c1\<lparr>dec_depth := dec_depth c1 + 1\<rparr>) =
        (GOOD, f, c2)" "ready ct buf (Suc d) c2 rest"
      using readsE [OF m _ d'] by blast
    have "ready ct buf d (c2\<lparr>dec_depth := dec_depth c2 - 1\<rparr>) rest"
      using 2(2) by (simp add: ready_def)
    then show ?thesis
      using 1 2 dep wf False by (simp add: decodeBinaryUnion_def Let_def)
  qed
qed

lemma reads_Variant:
  assumes env: "builtin_env env" and jt: "table_reads env ct N jt"
    and wf: "wf_val env ty v" "kind_at env ty = DK_VARIANT"
    and can: "canonical env ct ty v" and nest: "nest v \<le> k"
    and fuel: "nest v + length (wire env ty v) \<le> N"
  shows "reads ct k (Variant_decodeBinary env jt) (wire env ty' v) v"
proof -
  consider "v = VVariantEmpty" | t w where "v = VVariantScalar t w"
    | t a d where "v = VVariantArray t a d"
    using wf_variant_kind [OF wf] by blast
  then show ?thesis
  proof cases
    case 1
    have "reads ct k (\<lambda>c. (GOOD, VVariantEmpty, c)) [] VVariantEmpty" by (rule reads_ret)
    then have "reads ct k (Variant_decodeBinary env jt) [0] VVariantEmpty"
      unfolding Variant_decodeBinary_def [abs_def] Let_def
      by (intro reads_bind_Byte) (simp only: simp_thms if_True if_False)
    with 1 show ?thesis by simp
  next
    case 2
    then obtain k' where k: "k = Suc k'" using nest by (cases k) auto
    have w: "reads ct k' (jt t) (wire env t w) w"
      using 2 wf can nest fuel k by (intro table_readsD [OF jt]) auto
    have "reads ct k' (jt UA_TYPES_EXTENSIONOBJECT) (wire env t w) w"
      if eo: "kind_at env t = DK_EXTENSIONOBJECT"
    proof -
      have "\<not> needs_wrap env t" using eo by (simp add: needs_wrap_def is_builtin_kind_def)
      then have "t = UA_TYPES_EXTENSIONOBJECT"
        using 2 can eo kind_of_address [of DK_EXTENSIONOBJECT env t] env by simp
      with w show ?thesis by simp
    qed
    with reads_VariantScalar [where jt = jt and t = t, OF env w] wf can 2 k show ?thesis by (simp del: wire.simps canonical.simps)
  next
    case 3
    then obtain k' where k: "k = Suc k'" using nest by (cases k) auto
    have "\<not> needs_wrap env t" using 3 can builtin_kind_at [OF env, of t] by (simp add: needs_wrap_def)
    then have "reads ct k' (Array_decodeBinary env jt t) (wire_field env t (FArray a)) a"
      using 3 wf can nest fuel k by (intro reads_elems_Array [OF jt]) (auto simp del: wire_field.simps)
    with reads_VariantArray [OF env] wf can 3 k show ?thesis by (simp del: wire.simps canonical.simps)
  qed
qed

section \<open>The jump table\<close>

lemma reads_dispatch:
  assumes env: "builtin_env env" and jt: "table_reads env ct N jt"
    and wf: "wf_val env ty v" and can: "canonical env ct ty v" and nest: "nest v \<le> k"
    and fuel: "nest v + length (wire env ty v) \<le> N"
  shows "reads ct k (dec_dispatch env jt ty) (wire env ty v) v"
proof (cases v)
  case (VDecodedEO t x)
  with wf obtain u w where v: "v = VDecodedEO (Some u) (Some w)" by (cases t; cases x) auto
  have "5 \<le> length (wrap_header env u w)" by (simp add: wrap_header_def)
  then have w: "reads ct k (jt u) (wire env u w) w"
    using v wf can nest fuel by (intro table_readsD [OF jt]) auto
  show ?thesis
    using reads_DecodedEO [where jt = jt and t = u, OF w] v wf can by (simp add: dec_dispatch_def)
next
  case (VEncodedEO e tid body)
  with reads_EncodedEO wf can show ?thesis
    by (simp add: dec_dispatch_def del: wire.simps canonical.simps)
next
  case VVariantEmpty
  with reads_Variant [OF env jt wf _ can nest fuel, of ty] wf show ?thesis by (simp add: dec_dispatch_def)
next
  case (VVariantScalar t w)
  with reads_Variant [OF env jt wf _ can nest fuel, of ty] wf show ?thesis
    by (simp add: dec_dispatch_def del: wire.simps)
next
  case (VVariantArray t a d)
  with reads_Variant [OF env jt wf _ can nest fuel, of ty] wf show ?thesis
    by (simp add: dec_dispatch_def del: wire.simps)
next
  case (VDataValue x st sts sps vts vps)
  then obtain k' where k: "k = Suc k'" using nest by (cases k) auto
  have "reads ct k' (Variant_decodeBinary env jt) (wire env UA_TYPES_VARIANT y) y" if y: "x = Some y" for y
    using VDataValue y wf can nest fuel k builtin_kinds(1) [OF env]
    by (intro reads_Variant [OF env jt, of UA_TYPES_VARIANT]) auto
  from reads_DataValue [OF this] show ?thesis
    using VDataValue wf can k by (simp add: dec_dispatch_def del: wire.simps)
next
  case (VDiagnosticInfo symid ns lt loc add st inner)
  with reads_DiagnosticInfo_top [OF env wf _ nest] wf show ?thesis
    by (simp add: dec_dispatch_def del: wire.simps)
next
  case (VStruct fs)
  then have "kind_at env ty = DK_STRUCTURE \<or> kind_at env ty = DK_OPTSTRUCT" using wf by simp
  with VStruct reads_Struct [OF jt] reads_OptStruct [OF jt] wf can nest fuel show ?thesis
    by (auto simp: dec_dispatch_def simp del: wire.simps nest.simps wf_val.simps canonical.simps)
next
  case (VUnion s f)
  with reads_Union [OF jt] wf can nest fuel show ?thesis
    by (simp add: dec_dispatch_def del: wire.simps nest.simps canonical.simps)
next
  case (VU8 b)
  with wf show ?thesis
    by (auto simp: dec_dispatch_def kind8_def intro!: reads_map reads_Byte reads_Boolean)
next
  case (VU16 b)
  with wf show ?thesis by (auto simp: dec_dispatch_def kind16_def intro!: reads_map reads_ints)
next
  case (VU32 b)
  with wf show ?thesis by (auto simp: dec_dispatch_def kind32_def intro!: reads_map reads_ints)
next
  case (VU64 b)
  with wf show ?thesis by (auto simp: dec_dispatch_def kind64_def intro!: reads_map reads_ints)
next
  case (VString s)
  with wf show ?thesis by (auto simp: dec_dispatch_def kind_string_def intro!: reads_map reads_String)
next
  case (VGuid g)
  with wf show ?thesis by (auto simp: dec_dispatch_def intro!: reads_map reads_Guid)
next
  case (VNodeId i)
  with wf show ?thesis by (auto simp: dec_dispatch_def id_mask_def intro!: reads_map reads_NodeId)
next
  case (VExpandedNodeId i)
  with wf can show ?thesis by (auto simp: dec_dispatch_def intro!: reads_map reads_ExpandedNodeId)
next
  case (VQualifiedName ns s)
  with wf reads_map [OF reads_QualifiedName, of s ct k "\<lambda>(ns, s). VQualifiedName ns s" ns]
  show ?thesis by (simp add: dec_dispatch_def)
next
  case (VLocalizedText l t)
  with wf reads_map [OF reads_LocalizedText, of l t ct k "\<lambda>(l, t). VLocalizedText l t"]
  show ?thesis by (simp add: dec_dispatch_def)
qed

lemma table_reads_jumpTable:
  assumes env: "builtin_env env"
  shows "table_reads env ct n (decodeBinaryJumpTable env n)"
proof (induction n)
  case 0
  show ?case by (simp add: table_reads_def)
next
  case (Suc n)
  show ?case
    unfolding table_reads_def using reads_dispatch [OF env Suc.IH]
    by (simp add: decodeBinaryJumpTable.simps(2) [abs_def])
qed

lemma UA_decodeBinaryInternal_wire:
  assumes "builtin_env env" "wf_val env ty v" "canonical env ct ty v" "nest v \<le> 101" "\<And>n. mem_ok n"
    and src: "drop offset src = wire env ty v @ rest" "offset \<le> length src"
  shows "UA_decodeBinaryInternal env mem_ok ct src offset ty =
    (GOOD, Some v, offset + length (wire env ty v))"
proof -
  let ?c = "\<lparr>dec_buf = src, dec_pos = offset, dec_depth = 0, dec_custom = ct, dec_alloc = mem_ok, dec_allocs = 0\<rparr>"
  have len: "offset + length (wire env ty v @ rest) = length src"
    using src by (metis le_add_diff_inverse length_drop)
  then have r: "ready ct src 0 ?c (wire env ty v @ rest)"
    using assms by (simp add: ready_def)
  have le: "0 + 101 \<le> (101 :: nat)" by simp
  have rd: "reads ct 101 (decodeBinaryJumpTable env (dec_fuel src) ty) (wire env ty v) v"
    using assms len by (intro table_readsD [OF table_reads_jumpTable]) (simp_all add: dec_fuel_def)
  then obtain c' where c: "decodeBinaryJumpTable env (dec_fuel src) ty ?c = (GOOD, v, c')" "ready ct src 0 c' rest"
    using readsE [OF rd r le] by blast
  have "dec_pos c' = offset + length (wire env ty v)"
    using c(2) len by (simp add: ready_def)
  then show ?thesis using c(1) by (simp add: UA_decodeBinaryInternal_def)
qed

section \<open>The round trip\<close>


lemma overlay_read_fuel: "overlay_fuel = Suc 101"
  by (simp add: overlay_fuel_def)

lemma demo_overlay: "overlay_read demo_env overlay_fuel UA_TYPES_INT32 (UA_encode32 w) = VU32 w"
  unfolding overlay_read_fuel overlay_read.simps by (simp add: demo_env_def builtin_kind_list_def)

lemma upt_26:
  "[0..<26] = [0, 1, 2, 3, 4, 5, 6, 7, 8, 9, 10, 11, 12, 13, 14, 15, 16, 17, 18, 19, 20, 21, 22, 23, 24, 25 :: nat]"
  by (simp add: upt_rec)

lemma demo_find:
  "UA_findDataTypeByBinaryInternal demo_env ct (binaryEncodingId (ty_at demo_env 25)) = Some 25"
  by (simp add: UA_findDataTypeByBinaryInternal_def demo_env_def numeric_id_def upt_26)

lemma demo_canonical: "canonical demo_env ct UA_TYPES_VARIANT demo_val"
  using demo_find demo_overlay
  by (simp add: demo_val_def demo_struct_def is_decoded_eo_def needs_wrap_def)
    (simp add: demo_env_def demo_members_def is_builtin_kind_def elem_ok_def)


text \<open>
  a value in the middle of a buffer is decoded from its offset, and the offset moves behind it,
  whatever follows. (The services decode the type id, the header and the body of a message one
  after the other this way.)
\<close>

theorem UA_decodeBinaryInternal_offset:
  assumes "builtin_env env" "wf_val env ty v" "canonical env ct ty v" "nest v \<le> 101" "\<And>n. mem_ok n"
    and "src = before @ wire env ty v @ after"
  shows "UA_decodeBinaryInternal env mem_ok ct src (length before) ty =
    (GOOD, Some v, length before + length (wire env ty v))"
  using assms by (intro UA_decodeBinaryInternal_wire) simp_all

lemma UA_decodeBinaryInternal_offset_witness:
  "UA_decodeBinaryInternal demo_env (\<lambda>_. True) []
     ([1, 2, 3] @ wire demo_env UA_TYPES_VARIANT demo_val @ [4, 5]) (length [1 :: u8, 2, 3]) UA_TYPES_VARIANT =
   (GOOD, Some demo_val, 35)"
  using UA_decodeBinaryInternal_offset [OF demo_builtin_env demo_wf(1) demo_canonical [of "[]"] demo_wf(2),
      of "\<lambda>_. True" _ "[1, 2, 3]" "[4, 5]"]
  unfolding demo_wire by simp

end
