(* ===== verification/Binary_Safe.thy ===== *)
theory Binary_Safe
  imports Binary_Roundtrip
begin

text \<open>
  The decoder on arbitrary input. \<open>steady m f\<close>: from every context with less than \<open>m\<close> left (levels of
  recursion and bytes, \<open>dec_left\<close>) the decoder \<open>f\<close> ends with a status code of the stack and leaves
  the context as it was, but for the position, which does not move back, and the allocations. The
  fuel of the entry points is more than what is left at their start, so the undefined status is
  never the result.
\<close>

section \<open>Steady decoders\<close>

definition proper :: "status \<Rightarrow> bool" where
  "proper r = (r AND 0xFFFF = 0)"

lemma proper_or [simp, intro]: "proper a \<Longrightarrow> proper b \<Longrightarrow> proper (a OR b)"
  by (simp add: proper_def bit.conj_disj_distrib2)

lemma proper_codes [simp]:
  "proper GOOD" "proper UA_STATUSCODE_BADDECODINGERROR" "proper UA_STATUSCODE_BADOUTOFMEMORY"
  "proper UA_STATUSCODE_BADENCODINGERROR" "proper UA_STATUSCODE_BADINTERNALERROR"
  "proper UA_STATUSCODE_BADNOTIMPLEMENTED" "\<not> proper STATUS_UNDEFINED"
  by (simp_all add: proper_def status_defs)

definition dec_left :: "dec_ctx \<Rightarrow> nat" where
  "dec_left c = (101 - dec_depth c) + (length (dec_buf c) - dec_pos c)"

text \<open>The context after a decoder: nothing but the position and the allocations has changed.\<close>

definition later :: "dec_ctx \<Rightarrow> dec_ctx \<Rightarrow> bool" where
  "later c c' =
     (dec_buf c' = dec_buf c \<and> dec_depth c' = dec_depth c \<and> dec_custom c' = dec_custom c \<and>
      dec_alloc c' = dec_alloc c \<and> dec_pos c \<le> dec_pos c')"

definition steady :: "nat \<Rightarrow> 'a decoder \<Rightarrow> bool" where
  "steady m f =
     (\<forall>c r x c'. dec_left c < m \<longrightarrow> f c = (r, x, c') \<longrightarrow> proper r \<and> later c c')"

lemma later_refl [simp]: "later c c" by (simp add: later_def)

lemma later_trans: "later a b \<Longrightarrow> later b c \<Longrightarrow> later a c" by (auto simp: later_def)

lemma later_left: "later c c' \<Longrightarrow> dec_left c' \<le> dec_left c"
  by (auto simp: later_def dec_left_def)

lemma steadyD: "steady m f \<Longrightarrow> dec_left c < m \<Longrightarrow> f c = (r, x, c') \<Longrightarrow> proper r \<and> later c c'"
  by (simp add: steady_def)

lemma steady_mono: "steady m f \<Longrightarrow> n \<le> m \<Longrightarrow> steady n f"
  unfolding steady_def by (meson less_le_trans)

lemma steady_ret: "proper r \<Longrightarrow> steady m (\<lambda>c. (r, x, c))"
  by (simp add: steady_def)

lemma steady_bind:
  assumes f: "steady m f" and h: "\<And>r a. proper r \<Longrightarrow> steady m (h r a)"
  shows "steady m (\<lambda>c. case f c of (r, a, c1) \<Rightarrow> h r a c1)"
  unfolding steady_def
proof (intro allI impI)
  fix c r x c' assume m: "dec_left c < m" and eq: "(case f c of (r, a, c1) \<Rightarrow> h r a c1) = (r, x, c')"
  obtain r1 a c1 where 1: "f c = (r1, a, c1)" by (cases "f c") auto
  from steadyD [OF f m 1] have p: "proper r1" "later c c1" by auto
  then have "dec_left c1 < m" using later_left m le_less_trans by blast
  with steadyD [OF h [OF p(1)]] eq 1 have "proper r \<and> later c1 c'" by auto
  with p(2) later_trans show "proper r \<and> later c c'" by blast
qed

lemma steady_bind_ret:
  assumes "steady m f" "\<And>r a. proper r \<Longrightarrow> proper (g r a)"
  shows "steady m (\<lambda>c. case f c of (r, a, c1) \<Rightarrow> (g r a, k r a, c1))"
  by (rule steady_bind [OF assms(1)]) (simp add: steady_ret assms(2))

lemma steady_if: "steady m f \<Longrightarrow> steady m g \<Longrightarrow> steady m (\<lambda>c. if b then f c else g c)"
  by (simp add: steady_def)

lemma steady_if_ctx: "steady m f \<Longrightarrow> steady m g \<Longrightarrow> steady m (\<lambda>c. if b c then f c else g c)"
  by (simp add: steady_def)

lemma steady_param: "(\<And>b. steady m (f b)) \<Longrightarrow> steady m (\<lambda>c. f (p c) c)"
  by (simp add: steady_def)

lemma steady_take: "steady m (dec_take n f z)"
  by (auto simp: steady_def dec_take_def later_def)

lemma steady_calloc:
  assumes "\<And>ok. steady m (h ok)"
  shows "steady m (\<lambda>c. case dec_calloc c of (ok, c1) \<Rightarrow> h ok c1)"
  unfolding steady_def
proof (intro allI impI)
  fix c r x c' assume m: "dec_left c < m" and eq: "(case dec_calloc c of (ok, c1) \<Rightarrow> h ok c1) = (r, x, c')"
  let ?d = "c\<lparr>dec_allocs := Suc (dec_allocs c)\<rparr>"
  have "h (dec_alloc c (dec_allocs c)) ?d = (r, x, c')" using eq by (simp add: dec_calloc_def)
  moreover have "dec_left ?d < m" using m by (simp add: dec_left_def)
  ultimately have "proper r \<and> later ?d c'" using steadyD [OF assms] by blast
  then show "proper r \<and> later c c'" by (simp add: later_def)
qed

lemma steady_opt: "steady m f \<Longrightarrow> steady m (dec_opt b f)"
  by (auto simp: steady_def dec_opt_def split: prod.splits if_splits)

lemma steady_map: "steady m f \<Longrightarrow> steady m (dec_map g f)"
  by (auto simp: steady_def dec_map_def split: prod.splits)

lemma steady_ints [simp, intro]:
  "steady m Boolean_decodeBinary" "steady m Byte_decodeBinary" "steady m UInt16_decodeBinary"
  "steady m UInt32_decodeBinary" "steady m UInt64_decodeBinary"
  by (simp_all add: Boolean_decodeBinary_def Byte_decodeBinary_def UInt16_decodeBinary_def
      UInt32_decodeBinary_def UInt64_decodeBinary_def steady_take)

lemma steady_advance: "steady m (\<lambda>c. (GOOD, x c, c\<lparr>dec_pos := dec_pos c + n\<rparr>))"
  by (auto simp: steady_def later_def)

lemma steady_elems: "steady m f \<Longrightarrow> steady m (decode_elems n f)"
proof (induction n)
  case 0
  show ?case by (simp add: steady_def)
next
  case (Suc n)
  then show ?case
    unfolding decode_elems.simps(2) [abs_def] Let_def
    by (intro steady_bind steady_if steady_bind_ret steady_ret) auto
qed

lemma steady_Array_with: "steady m f \<Longrightarrow> steady m (Array_decodeBinary_with msize overlay fm f)"
  unfolding Array_decodeBinary_with_def [abs_def] Let_def
  by (intro steady_bind steady_if steady_if_ctx steady_bind_ret steady_ret steady_calloc steady_advance
      steady_elems steady_ints) auto

lemma steady_String [simp, intro]: "steady m String_decodeBinary"
  unfolding String_decodeBinary_def by (intro steady_Array_with steady_ints)

lemma steady_Guid [simp, intro]: "steady m Guid_decodeBinary"
proof -
  have "steady m (\<lambda>c. (r, x c, c\<lparr>dec_pos := dec_pos c + 8\<rparr>))" if "proper r" for r and x :: "dec_ctx \<Rightarrow> UA_Guid"
    using that by (auto simp: steady_def later_def)
  then show ?thesis
    unfolding Guid_decodeBinary_def [abs_def] Let_def
    by (intro steady_bind steady_if_ctx steady_ret steady_ints) auto
qed

lemma steady_NodeId [simp, intro]: "steady m NodeId_decodeBinary"
  unfolding NodeId_decodeBinary_def [abs_def] Let_def
  by (intro steady_bind steady_if steady_bind_ret steady_ret steady_ints steady_String steady_Guid) auto

lemma steady_ExpandedNodeId [simp, intro]: "steady m ExpandedNodeId_decodeBinary"
proof -
  have "steady m (\<lambda>c. case NodeId_decodeBinary c of (r1, i, c1) \<Rightarrow>
      case dec_opt (b AND 0x80 \<noteq> 0) String_decodeBinary c1 of (r2, uri, c2) \<Rightarrow>
      case dec_opt (b AND 0x40 \<noteq> 0) UInt32_decodeBinary c2 of (r3, si, c3) \<Rightarrow>
        (r1 OR r2 OR r3,
         \<lparr>nodeId = if b AND 0x80 \<noteq> 0 then i\<lparr>namespaceIndex := 0\<rparr> else i,
          namespaceUri = (case uri of None \<Rightarrow> None | Some s \<Rightarrow> s),
          serverIndex = (case si of None \<Rightarrow> 0 | Some x \<Rightarrow> x)\<rparr>, c3))" for b :: u8
    by (intro steady_bind steady_bind_ret steady_ret steady_opt steady_ints steady_String steady_NodeId) auto
  note st = this
  show ?thesis
    unfolding ExpandedNodeId_decodeBinary_def [abs_def] Let_def
    by (rule steady_if_ctx, rule steady_ret, simp,
        rule steady_param [where p = "\<lambda>c. dec_buf c ! dec_pos c"], rule st)
qed

lemma steady_QualifiedName [simp, intro]: "steady m QualifiedName_decodeBinary"
  unfolding QualifiedName_decodeBinary_def [abs_def] Let_def
  by (intro steady_bind steady_bind_ret steady_ret steady_ints steady_String) auto

lemma steady_LocalizedText [simp, intro]: "steady m LocalizedText_decodeBinary"
  unfolding LocalizedText_decodeBinary_def [abs_def] Let_def
  by (intro steady_bind steady_bind_ret steady_ret steady_opt steady_ints steady_String) auto

section \<open>Recursion\<close>

text \<open>One level deeper: the recursion check pays for it.\<close>

lemma steady_deeper:
  assumes "steady m f" and "proper r0"
  shows "steady (Suc m) (\<lambda>c. if DEC_MAX_RECURSION < dec_depth c then (r0, z c, c)
     else case f (c\<lparr>dec_depth := dec_depth c + 1\<rparr>) of (r, x, c1) \<Rightarrow>
       (r, g x, c1\<lparr>dec_depth := dec_depth c1 - 1\<rparr>))"
  unfolding steady_def
proof (intro allI impI)
  fix c r x c'
  assume m: "dec_left c < Suc m" and eq: "(if DEC_MAX_RECURSION < dec_depth c then (r0, z c, c)
     else case f (c\<lparr>dec_depth := dec_depth c + 1\<rparr>) of (r, x, c1) \<Rightarrow>
       (r, g x, c1\<lparr>dec_depth := dec_depth c1 - 1\<rparr>)) = (r, x, c')"
  show "proper r \<and> later c c'"
  proof (cases "DEC_MAX_RECURSION < dec_depth c")
    case True
    then show ?thesis using eq assms(2) by auto
  next
    case False
    let ?d = "c\<lparr>dec_depth := dec_depth c + 1\<rparr>"
    obtain r1 y c1 where 1: "f ?d = (r1, y, c1)" by (cases "f ?d") auto
    have "dec_left ?d < m" using m False by (simp add: dec_left_def)
    from steadyD [OF assms(1) this 1] show ?thesis
      using eq False 1 by (auto simp: later_def)
  qed
qed

lemma steady_nested: "steady m f \<Longrightarrow> steady (Suc m) (dec_nested z f)"
  using steady_deeper [of m f UA_STATUSCODE_BADENCODINGERROR "\<lambda>_. z" "\<lambda>x. x"]
  by (simp add: dec_nested_def [abs_def] Let_def cong: if_cong)

lemma steady_NodeId_copy:
  "(\<And>i. steady m (h i)) \<Longrightarrow> steady m (\<lambda>c. case NodeId_copy i c of (i', c1) \<Rightarrow> h i' c1)"
proof -
  assume h: "\<And>i. steady m (h i)"
  have c: "steady m (\<lambda>c. case dec_calloc c of (ok, c1) \<Rightarrow> h (if ok then i else UA_NODEID_NULL) c1)"
    by (intro steady_calloc h)
  have eq: "(\<lambda>c. case NodeId_copy i c of (i', c1) \<Rightarrow> h i' c1) =
     (case nid i of StringId s \<Rightarrow> if above_sentinel s then (\<lambda>c. case dec_calloc c of (ok, c1) \<Rightarrow>
          h (if ok then i else UA_NODEID_NULL) c1) else h i
      | ByteStringId s \<Rightarrow> if above_sentinel s then (\<lambda>c. case dec_calloc c of (ok, c1) \<Rightarrow>
          h (if ok then i else UA_NODEID_NULL) c1) else h i
      | _ \<Rightarrow> h i)"
    by (rule ext) (auto simp: NodeId_copy_def Let_def split: UA_Identifier.split prod.split)
  show ?thesis unfolding eq using c h by (simp split: UA_Identifier.split)
qed

lemma steady_skip: "steady m f \<Longrightarrow> steady m (\<lambda>c. f (c\<lparr>dec_pos := dec_pos c + n\<rparr>))"
  unfolding steady_def
proof (intro allI impI)
  fix c r x c'
  assume s: "\<forall>c r x c'. dec_left c < m \<longrightarrow> f c = (r, x, c') \<longrightarrow> proper r \<and> later c c'"
    and m: "dec_left c < m" and eq: "f (c\<lparr>dec_pos := dec_pos c + n\<rparr>) = (r, x, c')"
  have "dec_left (c\<lparr>dec_pos := dec_pos c + n\<rparr>) < m" using m by (simp add: dec_left_def)
  with s eq have "proper r \<and> later (c\<lparr>dec_pos := dec_pos c + n\<rparr>) c'" by blast
  then show "proper r \<and> later c c'" by (auto simp: later_def)
qed

lemma steady_content:
  assumes "\<And>t. steady m (jt t)"
  shows "steady m (ExtensionObject_decodeBinaryContent env jt tid)"
proof -
  have some: "steady m (\<lambda>c. case dec_calloc c of (ok, c1) \<Rightarrow>
        if \<not> ok then (UA_STATUSCODE_BADOUTOFMEMORY, VDecodedEO None None, c1)
        else case jt t (c1\<lparr>dec_pos := dec_pos c1 + 4\<rparr>) of (r, v, c2) \<Rightarrow> (r, VDecodedEO (Some t) (Some v), c2))" for t
    by (intro steady_calloc steady_if steady_ret steady_bind [OF steady_skip] assms) auto
  have none: "steady m (\<lambda>c. case NodeId_copy tid c of (i, c1) \<Rightarrow>
       case String_decodeBinary c1 of (r, body, c2) \<Rightarrow> (r, VEncodedEO EO_BYTESTRING i body, c2))"
    by (intro steady_NodeId_copy steady_bind steady_ret steady_String)
  have "steady m (case q of None \<Rightarrow> (\<lambda>c. case NodeId_copy tid c of (i, c1) \<Rightarrow>
       case String_decodeBinary c1 of (r, body, c2) \<Rightarrow> (r, VEncodedEO EO_BYTESTRING i body, c2))
    | Some t \<Rightarrow> (\<lambda>c. case dec_calloc c of (ok, c1) \<Rightarrow>
        if \<not> ok then (UA_STATUSCODE_BADOUTOFMEMORY, VDecodedEO None None, c1)
        else case jt t (c1\<lparr>dec_pos := dec_pos c1 + 4\<rparr>) of (r, v, c2) \<Rightarrow> (r, VDecodedEO (Some t) (Some v), c2)))" for q
    using some none by (cases q) simp_all
  from steady_param [OF this, where p = "\<lambda>c. UA_findDataTypeByBinaryInternal env (dec_custom c) tid"] show ?thesis
    unfolding ExtensionObject_decodeBinaryContent_def [abs_def] Let_def
    by (rule back_subst [of "steady m"]) (auto split: option.splits)
qed

lemma Byte_progress:
  "Byte_decodeBinary c = (GOOD, b, c') \<Longrightarrow> dec_left c' < dec_left c"
  by (auto simp: Byte_decodeBinary_def dec_take_def dec_left_def split: if_splits)

lemma steady_EO:
  assumes jt: "\<And>t. steady m (jt t)"
  shows "steady (Suc m) (ExtensionObject_decodeBinary env jt)"
  unfolding steady_def
proof (intro allI impI)
  fix c r x c' assume m: "dec_left c < Suc m" and eq: "ExtensionObject_decodeBinary env jt c = (r, x, c')"
  obtain r1 tid c1 where 1: "NodeId_decodeBinary c = (r1, tid, c1)" by (cases "NodeId_decodeBinary c") auto
  obtain r2 enc c2 where 2: "Byte_decodeBinary c1 = (r2, enc, c2)" by (cases "Byte_decodeBinary c1") auto
  from steadyD [OF steady_NodeId lessI 1] have p1: "proper r1" "later c c1" by auto
  from steadyD [OF steady_ints(2) lessI 2] have p2: "proper r2" "later c1 c2" by auto
  note l = later_trans [OF p1(2) p2(2)]
  show "proper r \<and> later c c'"
  proof (cases "r1 OR r2 = GOOD")
    case False
    then show ?thesis using eq 1 2 p1 p2 l by (auto simp: ExtensionObject_decodeBinary_def Let_def)
  next
    case True
    then have "dec_left c2 < m"
      using Byte_progress [of c1 enc c2] 2 later_left [OF p1(2)] m by simp
    with steadyD [OF steady_content [OF jt]] steadyD [OF steady_String]
    have "proper r \<and> later c2 c'"
      using eq 1 2 True
      by (auto simp: ExtensionObject_decodeBinary_def Let_def split: if_splits prod.splits)
    then show ?thesis using l later_trans by blast
  qed
qed

section \<open>Variants, structures and the jump table\<close>

lemma steady_reset:
  assumes "steady m f"
  shows "dec_left c < m \<Longrightarrow> later c c2 \<Longrightarrow> f (c2\<lparr>dec_pos := dec_pos c\<rparr>) = (r, x, c') \<Longrightarrow>
    proper r \<and> later c c'"
proof -
  assume m: "dec_left c < m" and l: "later c c2" and eq: "f (c2\<lparr>dec_pos := dec_pos c\<rparr>) = (r, x, c')"
  have "dec_left (c2\<lparr>dec_pos := dec_pos c\<rparr>) < m" using m l by (simp add: later_def dec_left_def)
  from steadyD [OF assms this eq] l show ?thesis by (auto simp: later_def)
qed

lemma steady_Unwrap:
  assumes jt: "\<And>t. steady m (jt t)"
  shows "steady m (Variant_decodeBinaryUnwrapExtensionObject env jt)"
  unfolding steady_def
proof (intro allI impI)
  fix c r x c' assume m: "dec_left c < m"
    and eq: "Variant_decodeBinaryUnwrapExtensionObject env jt c = (r, x, c')"
  obtain r1 tid c1 where 1: "NodeId_decodeBinary c = (r1, tid, c1)" by (cases "NodeId_decodeBinary c") auto
  obtain r2 e c2 where 2: "Byte_decodeBinary c1 = (r2, e, c2)" by (cases "Byte_decodeBinary c1") auto
  from steadyD [OF steady_NodeId lessI 1] have p1: "proper r1" "later c c1" by auto
  from steadyD [OF steady_ints(2) lessI 2] have p2: "proper r2" "later c1 c2" by auto
  note l = later_trans [OF p1(2) p2(2)]
  have alloc: "steady m (\<lambda>c. case dec_calloc c of (ok, c4) \<Rightarrow>
      if \<not> ok then (UA_STATUSCODE_BADOUTOFMEMORY, VVariantEmpty, c4)
      else case jt t c4 of (r, v, c5) \<Rightarrow> (r, VVariantScalar t v, c5))" for t
    by (intro steady_calloc steady_if steady_ret steady_bind [OF jt]) auto
  note a = steadyD [OF steady_skip [OF alloc]] steady_reset [OF alloc m l]
  have m2: "dec_left c2 < m" using later_left [OF l] m by simp
  have "proper r \<and> (later c c' \<or> later c2 c')" if "r1 = GOOD" "r2 = GOOD"
    using eq [unfolded Variant_decodeBinaryUnwrapExtensionObject_def Let_def] 1 2 that a(1) [OF m2] a(2)
    by (auto split: option.splits)
  then show "proper r \<and> later c c'"
    using eq 1 2 p1 p2 l later_trans [OF l]
    by (cases "r1 = GOOD"; cases "r2 = GOOD")
       (auto simp: Variant_decodeBinaryUnwrapExtensionObject_def Let_def)
qed

lemma steady_Array: "(\<And>t. steady m (jt t)) \<Longrightarrow> steady m (Array_decodeBinary env jt t)"
  unfolding Array_decodeBinary_def by (rule steady_Array_with)

lemma steady_Variant_content:
  assumes jt: "\<And>t. steady m (jt t)"
  shows "steady m (Variant_decodeContent env jt b k)"
  unfolding Variant_decodeContent_def [abs_def] Let_def
  by (intro steady_if steady_bind [OF steady_Array [OF jt]] steady_bind [OF steady_Array_with [OF steady_ints(4)]]
      steady_ret steady_calloc steady_bind [OF jt] steady_Unwrap jt) auto

lemma steady_Variant:
  assumes jt: "\<And>t. steady m (jt t)"
  shows "steady (Suc m) (Variant_decodeBinary env jt)"
  unfolding Variant_decodeBinary_def [abs_def] Let_def
  by (intro steady_bind [OF steady_ints(2)] steady_if steady_ret
      steady_deeper [OF steady_Variant_content [OF jt], where g = "\<lambda>x. x"]) auto

lemma steady_Pico [simp, intro]: "steady m Picoseconds_decode"
  unfolding Picoseconds_decode_def [abs_def] Let_def by (intro steady_bind steady_ret steady_ints)

lemma steady_DataValue:
  assumes v: "steady m (Variant_decodeBinary env jt)"
  shows "steady (Suc m) (DataValue_decodeBinary env jt)"
proof -
  define body where "body = (\<lambda>(m :: u8) c1. case dec_opt (m AND 0x01 \<noteq> 0) (Variant_decodeBinary env jt) c1 of (r1, val, c2) \<Rightarrow>
      case dec_opt (m AND 0x02 \<noteq> 0) UInt32_decodeBinary c2 of (r2, st, c3) \<Rightarrow>
      case dec_opt (m AND 0x04 \<noteq> 0) UInt64_decodeBinary c3 of (r3, sts, c4) \<Rightarrow>
      case dec_opt (m AND 0x10 \<noteq> 0) Picoseconds_decode c4 of (r4, sps, c5) \<Rightarrow>
      case dec_opt (m AND 0x08 \<noteq> 0) UInt64_decodeBinary c5 of (r5, vts, c6) \<Rightarrow>
      case dec_opt (m AND 0x20 \<noteq> 0) Picoseconds_decode c6 of (r6, vps, c7) \<Rightarrow>
        (r1 OR r2 OR r3 OR r4 OR r5 OR r6, VDataValue val st sts sps vts vps, c7))"
  have b: "steady m (body w)" for w :: u8
    unfolding body_def
    by (intro steady_bind [OF steady_opt] steady_ret v steady_ints steady_Pico) auto
  have eq: "DataValue_decodeBinary env jt = (\<lambda>c. case Byte_decodeBinary c of (r0, m, c0) \<Rightarrow>
      if r0 \<noteq> GOOD then (r0, VDataValue None None None None None None, c0)
      else if DEC_MAX_RECURSION < dec_depth c0
      then (UA_STATUSCODE_BADENCODINGERROR, VDataValue None None None None None None, c0)
      else case body m (c0\<lparr>dec_depth := dec_depth c0 + 1\<rparr>) of (r, x, c1) \<Rightarrow>
        (r, x, c1\<lparr>dec_depth := dec_depth c1 - 1\<rparr>))"
    by (rule ext) (simp add: DataValue_decodeBinary_def body_def Let_def split_beta)
  show ?thesis unfolding eq
    by (intro steady_bind [OF steady_ints(2)] steady_if steady_ret
        steady_deeper [OF b, where g = "\<lambda>x. x"]) auto
qed

lemma steady_members:
  assumes "\<And>m. steady M (decode_member env jt m)"
  shows "steady M (decode_members env jt ms)"
proof (induction ms)
  case Nil
  show ?case by (simp add: steady_def)
next
  case (Cons m ms)
  show ?case unfolding decode_members.simps(2) [abs_def] Let_def
    by (intro steady_bind [OF assms] steady_if steady_bind [OF Cons] steady_ret) auto
qed

lemma steady_member: "(\<And>t. steady m (jt t)) \<Longrightarrow> steady m (decode_member env jt x)"
  unfolding decode_member_def [abs_def] Let_def
  by (intro steady_if steady_bind [OF steady_Array] steady_bind steady_ret) auto

lemma steady_opt_member: "(\<And>t. steady m (jt t)) \<Longrightarrow> steady m (decode_opt_member env jt p x)"
  unfolding decode_opt_member_def [abs_def] Let_def
  by (intro steady_if steady_bind [OF steady_Array] steady_bind steady_calloc steady_ret) auto

lemma steady_opt_members:
  assumes jt: "\<And>t. steady M (jt t)"
  shows "i + length (filter isOptional ms) \<le> 32 \<Longrightarrow> steady M (decode_opt_members env jt w i ms)"
proof (induction ms arbitrary: i)
  case Nil
  show ?case by (simp add: steady_def)
next
  case (Cons m ms)
  have f: "steady M (\<lambda>c. if isOptional m then if 32 \<le> i then (STATUS_UNDEFINED, FOptScalar None, c)
       else decode_opt_member env jt (w AND push_bit i 1 \<noteq> 0) m c else decode_member env jt m c)"
    using Cons.prems steady_opt_member [OF jt] steady_member [OF jt]
    by (cases "isOptional m") simp_all
  have t: "steady M (decode_opt_members env jt w (if isOptional m then Suc i else i) ms)"
    using Cons by (cases "isOptional m") simp_all
  show ?case unfolding decode_opt_members.simps(2) [abs_def] Let_def
    by (rule steady_bind [OF f], intro steady_if steady_bind [OF t] steady_ret) auto
qed

lemma steady_Struct: "(\<And>t. steady m (jt t)) \<Longrightarrow> steady (Suc m) (decodeBinaryStructure env jt ty)"
  unfolding decodeBinaryStructure_def Let_def
  by (intro steady_nested steady_bind [OF steady_members [OF steady_member]] steady_ret) auto

lemma steady_OptStruct:
  "(\<And>t. steady m (jt t)) \<Longrightarrow> length (filter isOptional (members (ty_at env ty))) \<le> 32 \<Longrightarrow>
   steady (Suc m) (decodeBinaryStructureWithOptFields env jt ty)"
  unfolding decodeBinaryStructureWithOptFields_def Let_def
  by (intro steady_nested steady_bind [OF steady_ints(4)] steady_if steady_bind [OF steady_opt_members] steady_ret) auto

lemma steady_Union:
  assumes jt: "\<And>t. steady m (jt t)"
  shows "steady (Suc m) (decodeBinaryUnion env jt ty)"
  unfolding steady_def
proof (intro allI impI)
  fix c r x c' assume m: "dec_left c < Suc m" and eq: "decodeBinaryUnion env jt ty c = (r, x, c')"
  obtain r1 sel c1 where 1: "UInt32_decodeBinary c = (r1, sel, c1)" by (cases "UInt32_decodeBinary c") auto
  from steadyD [OF steady_ints(4) lessI 1] have p1: "proper r1" "later c c1" by auto
  let ?m = "members (ty_at env ty) ! unat (sel - 1)" and ?d = "c1\<lparr>dec_depth := dec_depth c1 + 1\<rparr>"
  obtain r2 f c2 where 2: "decode_member env jt ?m ?d = (r2, f, c2)" by (cases "decode_member env jt ?m ?d") auto
  show "proper r \<and> later c c'"
  proof (cases "dec_depth c \<le> 100")
    case False
    then show ?thesis using eq by (auto simp: decodeBinaryUnion_def Let_def)
  next
    case True
    then have "dec_left ?d < m" using m p1(2) by (auto simp: dec_left_def later_def)
    from steadyD [OF steady_member [OF jt] this 2] have p2: "proper r2" "later ?d c2" by auto
    then have "later c (c2\<lparr>dec_depth := dec_depth c2 - 1\<rparr>)" using p1(2) by (auto simp: later_def)
    then show ?thesis
      using eq [unfolded decodeBinaryUnion_def Let_def 1 prod.case] p1 p2 True
      by (simp only: 2 prod.case split: if_splits) (auto simp: 2)
  qed
qed

definition diag_fields :: "u8 \<Rightarrow> (u32 option \<times> u32 option \<times> u32 option \<times> u32 option \<times>
    UA_String option \<times> u32 option) decoder" where
  "diag_fields m c0 =
     (case dec_opt (m AND 0x01 \<noteq> 0) UInt32_decodeBinary c0 of (r1, symid, c1) \<Rightarrow>
      case dec_opt (m AND 0x02 \<noteq> 0) UInt32_decodeBinary c1 of (r2, ns, c2) \<Rightarrow>
      case dec_opt (m AND 0x04 \<noteq> 0) UInt32_decodeBinary c2 of (r3, lt, c3) \<Rightarrow>
      case dec_opt (m AND 0x08 \<noteq> 0) UInt32_decodeBinary c3 of (r4, loc, c4) \<Rightarrow>
      case dec_opt (m AND 0x10 \<noteq> 0) String_decodeBinary c4 of (r5, add, c5) \<Rightarrow>
      case dec_opt (m AND 0x20 \<noteq> 0) UInt32_decodeBinary c5 of (r6, st, c6) \<Rightarrow>
        (r1 OR r2 OR r3 OR r4 OR r5 OR r6, (symid, ns, lt, loc, add, st), c6))"

lemma steady_diag_fields: "steady m (diag_fields w)"
  unfolding diag_fields_def [abs_def]
  by (intro steady_bind [OF steady_opt] steady_ret steady_ints steady_String) auto

lemma DiagnosticInfo_proper:
  "101 - dec_depth c < n \<Longrightarrow> DiagnosticInfo_decodeBinary n c = (r, x, c') \<Longrightarrow> proper r \<and> later c c'"
proof (induction n arbitrary: c r x c')
  case (Suc n)
  obtain r0 m c0 where 0: "Byte_decodeBinary c = (r0, m, c0)" by (cases "Byte_decodeBinary c") auto
  obtain ret symid ns lt loc add st c6 where 6: "diag_fields m c0 = (ret, (symid, ns, lt, loc, add, st), c6)"
    by (cases "diag_fields m c0") auto
  from steadyD [OF steady_ints(2) lessI 0] have p0: "proper r0" "later c c0" by auto
  from steadyD [OF steady_diag_fields lessI 6] have p6: "proper ret" "later c0 c6" by auto
  note l = later_trans [OF p0(2) p6(2)]
  let ?c7 = "c6\<lparr>dec_allocs := Suc (dec_allocs c6)\<rparr>"
  have "DiagnosticInfo_decodeBinary (Suc n) c =
    (case Byte_decodeBinary c of (r0, m, c0) \<Rightarrow>
     if r0 \<noteq> GOOD then (r0, empty_diag, c0)
     else case diag_fields m c0 of (ret, (symid, ns, lt, loc, add, st), c6) \<Rightarrow>
       if m AND 0x40 = 0 then (ret, VDiagnosticInfo symid ns lt loc add st None, c6)
       else case dec_calloc c6 of (ok, c7) \<Rightarrow>
         if \<not> ok then (UA_STATUSCODE_BADOUTOFMEMORY, empty_diag, c7)
         else if DEC_MAX_RECURSION < dec_depth c7 then (UA_STATUSCODE_BADENCODINGERROR, empty_diag, c7)
         else case DiagnosticInfo_decodeBinary n (c7\<lparr>dec_depth := dec_depth c7 + 1\<rparr>) of (r7, inner, c8) \<Rightarrow>
           (ret OR r7, VDiagnosticInfo symid ns lt loc add st (Some inner), c8\<lparr>dec_depth := dec_depth c8 - 1\<rparr>))"
    by (simp only: DiagnosticInfo_decodeBinary.simps Let_def diag_fields_def split_beta fst_conv snd_conv)
  then have eq: "DiagnosticInfo_decodeBinary (Suc n) c =
    (if r0 \<noteq> GOOD then (r0, empty_diag, c0)
     else if m AND 0x40 = 0 then (ret, VDiagnosticInfo symid ns lt loc add st None, c6)
     else if \<not> dec_alloc c6 (dec_allocs c6) then (UA_STATUSCODE_BADOUTOFMEMORY, empty_diag, ?c7)
     else if DEC_MAX_RECURSION < dec_depth c6 then (UA_STATUSCODE_BADENCODINGERROR, empty_diag, ?c7)
     else case DiagnosticInfo_decodeBinary n (?c7\<lparr>dec_depth := dec_depth c6 + 1\<rparr>) of (r7, inner, c8) \<Rightarrow>
       (ret OR r7, VDiagnosticInfo symid ns lt loc add st (Some inner), c8\<lparr>dec_depth := dec_depth c8 - 1\<rparr>))"
    unfolding 0 prod.case 6 dec_calloc_def by simp
  show ?case
  proof (cases "r0 = GOOD \<and> m AND 0x40 \<noteq> 0 \<and> dec_alloc c6 (dec_allocs c6) \<and> dec_depth c6 \<le> 100")
    case False
    then show ?thesis using Suc.prems(2) p0 p6 l unfolding eq by (auto simp: later_def split: if_splits)
  next
    case True
    let ?d = "?c7\<lparr>dec_depth := dec_depth c6 + 1\<rparr>"
    obtain r7 y c8 where 8: "DiagnosticInfo_decodeBinary n ?d = (r7, y, c8)"
      by (cases "DiagnosticInfo_decodeBinary n ?d") auto
    have "101 - dec_depth ?d < n" using Suc.prems(1) True l by (auto simp: later_def)
    from Suc.IH [OF this 8] have "proper r7" "later ?d c8" by auto
    then show ?thesis using Suc.prems(2) True 8 p6 l unfolding eq by (auto simp: later_def)
  qed
qed simp

lemma steady_DiagnosticInfo: "steady m (DiagnosticInfo_decodeBinary 102)"
  unfolding steady_def using DiagnosticInfo_proper [of _ 102] by auto

definition opt_limit :: "type_env \<Rightarrow> bool" where
  "opt_limit env = (\<forall>t. length (filter isOptional (members (ty_at env t))) \<le> 32)"

lemma steady_dispatch:
  assumes env: "opt_limit env" and jt: "\<And>t. steady m (jt t)"
  shows "steady (Suc m) (dec_dispatch env jt ty)"
proof -
  have fail: "steady n (dec_fail r)" if "proper r" for n r
    using that by (simp add: steady_def dec_fail_def)
  have v: "steady (Suc m) (Variant_decodeBinary env jt)" by (rule steady_Variant [OF jt])
  have v': "steady m (Variant_decodeBinary env jt)" by (rule steady_mono [OF v]) simp
  show ?thesis
    unfolding dec_dispatch_def
    using env
    by (cases "kind_at env ty")
      (simp_all add: steady_map fail steady_DiagnosticInfo opt_limit_def v steady_DataValue [OF v']
        steady_EO [OF jt] steady_Struct [OF jt] steady_OptStruct [OF jt] steady_Union [OF jt])
qed

lemma steady_jumpTable: "opt_limit env \<Longrightarrow> steady n (decodeBinaryJumpTable env n ty)"
proof (induction n arbitrary: ty)
  case 0
  show ?case by (simp add: steady_def)
next
  case (Suc n)
  then show ?case by (simp add: decodeBinaryJumpTable.simps(2) [abs_def] steady_dispatch)
qed

lemma UA_decodeBinaryInternal_proper:
  assumes "opt_limit env" "UA_decodeBinaryInternal env mem_ok ct src offset ty = (r, v, offset')"
  shows "proper r \<and> offset \<le> offset'"
proof -
  let ?c = "\<lparr>dec_buf = src, dec_pos = offset, dec_depth = 0, dec_custom = ct, dec_alloc = mem_ok, dec_allocs = 0\<rparr>"
  obtain r' x c' where c: "decodeBinaryJumpTable env (dec_fuel src) ty ?c = (r', x, c')"
    by (cases "decodeBinaryJumpTable env (dec_fuel src) ty ?c") auto
  have "dec_left ?c < dec_fuel src" by (simp add: dec_left_def dec_fuel_def)
  from steadyD [OF steady_jumpTable [OF assms(1)] this c] show ?thesis
    using assms(2) c by (auto simp: UA_decodeBinaryInternal_def later_def split: if_splits)
qed

section \<open>Examples\<close>

lemma demo_opt_limit: "opt_limit demo_env"
  by (simp add: opt_limit_def demo_env_def demo_members_def)

lemma dec_fuel_2: "dec_fuel [a, b] = Suc 105"
  by (simp add: dec_fuel_def)

lemma demo_decoded_short:
  "UA_decodeBinaryInternal demo_env (\<lambda>_. True) [] [7, 0] 1 UA_TYPES_UINT32 =
    (UA_STATUSCODE_BADDECODINGERROR, None, 1)"
  unfolding UA_decodeBinaryInternal_def dec_fuel_2 decodeBinaryJumpTable.simps
  by (simp add: dec_dispatch_def dec_map_def UInt32_decodeBinary_def dec_take_def)
    (simp add: demo_env_def builtin_kind_list_def dec_map_def UInt32_decodeBinary_def dec_take_def)

text \<open>A type without members, and an extension object of this type without its length field.\<close>

definition hollow_env :: type_env where
  "hollow_env = demo_env\<lparr>ty_at := \<lambda>t. (ty_at demo_env t)\<lparr>members := []\<rparr>\<rparr>"

lemma dec_fuel_5: "dec_fuel [a, b, c, d, e] = Suc (Suc (107))"
  by (simp add: dec_fuel_def)

lemma hollow_find:
  "UA_findDataTypeByBinaryInternal hollow_env ct \<lparr>namespaceIndex = 0, nid = NumericId 1025\<rparr> = Some 25"
  by (simp add: UA_findDataTypeByBinaryInternal_def hollow_env_def demo_env_def numeric_id_def upt_26)

lemma hollow_steps:
  "decodeBinaryJumpTable hollow_env (Suc n) UA_TYPES_EXTENSIONOBJECT =
     ExtensionObject_decodeBinary hollow_env (decodeBinaryJumpTable hollow_env n)"
  "decodeBinaryJumpTable hollow_env (Suc n) 25 =
     decodeBinaryStructure hollow_env (decodeBinaryJumpTable hollow_env n) 25"
  "members (ty_at hollow_env t) = []"
  by (simp_all add: dec_dispatch_def hollow_env_def demo_env_def builtin_kind_list_def)

lemma hollow_108:
  "decodeBinaryJumpTable hollow_env 108 25 =
     decodeBinaryStructure hollow_env (decodeBinaryJumpTable hollow_env 107) 25"
  using hollow_steps(2) [of 107] by (simp del: decodeBinaryJumpTable.simps)

text \<open>
  The length field of an extension object is skipped without a look at the buffer: a buffer of
  five bytes that ends in front of the length field is decoded with success, and the offset afterwards
  is nine, behind the end of the buffer.
\<close>

lemma extension_object_length_unchecked:
  "UA_decodeBinaryInternal hollow_env (\<lambda>_. True) [] [1, 0, 1, 4, 1] 0 UA_TYPES_EXTENSIONOBJECT =
     (GOOD, Some (VDecodedEO (Some 25) (Some (VStruct []))), 9)"
  unfolding UA_decodeBinaryInternal_def dec_fuel_5 hollow_steps
  by (simp add: ExtensionObject_decodeBinary_def NodeId_decodeBinary_def
      Byte_decodeBinary_def UInt16_decodeBinary_def dec_take_def UA_decode16_def
      ExtensionObject_decodeBinaryContent_def dec_calloc_def hollow_find Let_def
      decodeBinaryStructure_def dec_nested_def hollow_steps(3) hollow_108 del: decodeBinaryJumpTable.simps)

end
