(* ===== verification/Channel_Crypto.thy ===== *)
theory Channel_Crypto
  imports Channel_State Binary_Safe
begin

text \<open>
  The operations of \<^verbatim>\<open>src/ua_securechannel_crypto.c\<close> (built with \<^verbatim>\<open>UA_ENABLE_ENCRYPTION\<close>): nonces
  and keys, the padding of a chunk and its removal, signing, encrypting and verifying, and the
  checks of the security headers. A function that writes through a pointer into a message buffer
  returns the bytes that it writes.

  Where the C code would dereference a NULL security policy the model returns
  \<open>UA_STATUSCODE_BADINTERNALERROR\<close> or 0; no caller gets there with a NULL policy, except
  \<^verbatim>\<open>setBufPos\<close>, \<^verbatim>\<open>padChunk\<close> and \<^verbatim>\<open>sendSymmetricChunk\<close> on a channel that is open without a policy.
\<close>

section \<open>Transport types\<close>

text \<open>
  The transport types are generated from \<^verbatim>\<open>tools/schema/Custom.Opc.Ua.Transport.bsd\<close>; what the code
  relies on is their members. The addresses stand for \<^verbatim>\<open>&UA_TRANSPORT[...]\<close>.
\<close>

abbreviation (input) UA_TRANSPORT_TCPMESSAGEHEADER :: tyref where
  "UA_TRANSPORT_TCPMESSAGEHEADER \<equiv> 1000"
abbreviation (input) UA_TRANSPORT_SEQUENCEHEADER :: tyref where
  "UA_TRANSPORT_SEQUENCEHEADER \<equiv> 1001"
abbreviation (input) UA_TRANSPORT_ASYMMETRICALGORITHMSECURITYHEADER :: tyref where
  "UA_TRANSPORT_ASYMMETRICALGORITHMSECURITYHEADER \<equiv> 1002"

definition plain_member :: "tyref \<Rightarrow> UA_DataTypeMember" where
  "plain_member t = \<lparr>memberType = t, isArray = False, isOptional = False\<rparr>"

definition transport_env :: "type_env \<Rightarrow> bool" where
  "transport_env env =
     (builtin_env env \<and>
      kind_at env UA_TRANSPORT_TCPMESSAGEHEADER = DK_STRUCTURE \<and>
      members (ty_at env UA_TRANSPORT_TCPMESSAGEHEADER) = [plain_member 6, plain_member 6] \<and>
      kind_at env UA_TRANSPORT_SEQUENCEHEADER = DK_STRUCTURE \<and>
      members (ty_at env UA_TRANSPORT_SEQUENCEHEADER) = [plain_member 6, plain_member 6] \<and>
      kind_at env UA_TRANSPORT_ASYMMETRICALGORITHMSECURITYHEADER = DK_STRUCTURE \<and>
      members (ty_at env UA_TRANSPORT_ASYMMETRICALGORITHMSECURITYHEADER) =
        [plain_member 14, plain_member 14, plain_member 14])"

text \<open>A structure of two unsigned integers.\<close>

definition two_words :: "u32 \<Rightarrow> u32 \<Rightarrow> ua_val" where
  "two_words a b = VStruct [FScalar (VU32 a), FScalar (VU32 b)]"

definition UA_MESSAGETYPE_ACK :: u32 where "UA_MESSAGETYPE_ACK = 0x4B4341"
definition UA_MESSAGETYPE_HEL :: u32 where "UA_MESSAGETYPE_HEL = 0x4C4548"
definition UA_MESSAGETYPE_MSG :: u32 where "UA_MESSAGETYPE_MSG = 0x47534D"
definition UA_MESSAGETYPE_OPN :: u32 where "UA_MESSAGETYPE_OPN = 0x4E504F"
definition UA_MESSAGETYPE_CLO :: u32 where "UA_MESSAGETYPE_CLO = 0x4F4C43"
definition UA_MESSAGETYPE_ERR :: u32 where "UA_MESSAGETYPE_ERR = 0x525245"
definition UA_CHUNKTYPE_FINAL :: u32 where "UA_CHUNKTYPE_FINAL = 0x46000000"
definition UA_CHUNKTYPE_INTERMEDIATE :: u32 where "UA_CHUNKTYPE_INTERMEDIATE = 0x43000000"
definition UA_CHUNKTYPE_ABORT :: u32 where "UA_CHUNKTYPE_ABORT = 0x41000000"

lemmas type_defs = UA_MESSAGETYPE_ACK_def UA_MESSAGETYPE_HEL_def UA_MESSAGETYPE_MSG_def
  UA_MESSAGETYPE_OPN_def UA_MESSAGETYPE_CLO_def UA_MESSAGETYPE_ERR_def UA_CHUNKTYPE_FINAL_def
  UA_CHUNKTYPE_INTERMEDIATE_def UA_CHUNKTYPE_ABORT_def

abbreviation (input) MESSAGEHEADER_LENGTH :: nat where "MESSAGEHEADER_LENGTH \<equiv> 8"
abbreviation (input) CHANNELHEADER_LENGTH :: nat where "CHANNELHEADER_LENGTH \<equiv> 12"
abbreviation (input) SEQUENCEHEADER_LENGTH :: nat where "SEQUENCEHEADER_LENGTH \<equiv> 8"
abbreviation (input) SYM_UNENCRYPTEDLENGTH :: nat where "SYM_UNENCRYPTEDLENGTH \<equiv> 16"
abbreviation (input) SYM_TOTALLENGTH :: nat where "SYM_TOTALLENGTH \<equiv> 24"
abbreviation (input) MESSAGE_MIN_LENGTH :: nat where "MESSAGE_MIN_LENGTH \<equiv> 16"

section \<open>Nonces and keys\<close>

text \<open>\<^verbatim>\<open>UA_ByteString_allocBuffer\<close>: zeroed memory.\<close>

definition ByteString_allocBuffer :: "(nat \<Rightarrow> bool) \<Rightarrow> nat \<Rightarrow> status \<times> bytes" where
  "ByteString_allocBuffer mem_ok n =
     (if n = 0 \<or> mem_ok n then (GOOD, replicate n 0) else (UA_STATUSCODE_BADOUTOFMEMORY, []))"

definition UA_SecureChannel_generateLocalNonce ::
    "(nat \<Rightarrow> bool) \<Rightarrow> 'k UA_SecureChannel \<Rightarrow> status \<times> 'k UA_SecureChannel" where
  "UA_SecureChannel_generateLocalNonce mem_ok ch =
     (case securityPolicy ch of
        None \<Rightarrow> (UA_STATUSCODE_BADINTERNALERROR, ch)
      | Some sp \<Rightarrow>
          (let n = secureChannelNonceLength sp;
               (res, buf) = (if length (localNonce ch) \<noteq> n then ByteString_allocBuffer mem_ok n
                             else (GOOD, localNonce ch))
           in if res \<noteq> GOOD then (res, ch\<lparr>localNonce := []\<rparr>)
              else (let (r, nonce) = generateNonce sp buf in (r, ch\<lparr>localNonce := nonce\<rparr>))))"

text \<open>The key buffer is cut into the signing key, the encrypting key and the initial vector.\<close>

definition generateKeys ::
    "(nat \<Rightarrow> bool) \<Rightarrow> nat \<Rightarrow> nat \<Rightarrow> nat \<Rightarrow> (bytes \<Rightarrow> status \<times> bytes) \<Rightarrow>
     ('k option \<Rightarrow> bytes \<Rightarrow> status \<times> 'k option) \<Rightarrow> ('k option \<Rightarrow> bytes \<Rightarrow> status \<times> 'k option) \<Rightarrow>
     ('k option \<Rightarrow> bytes \<Rightarrow> status \<times> 'k option) \<Rightarrow> 'k option \<Rightarrow> status \<times> 'k option" where
  "generateKeys mem_ok encrKL encrBS signKL genKey setSign setEncr setIv cc =
     (if encrBS + signKL + encrKL = 0 then (GOOD, cc)
      else
        (let (r0, buf) = ByteString_allocBuffer mem_ok (encrBS + signKL + encrKL)
         in if r0 \<noteq> GOOD then (r0, cc)
            else
              (let (r, keys) = genKey buf
               in if r \<noteq> GOOD then (r, cc)
                  else
                    (let (r1, c1) = setSign cc (take signKL keys);
                         (r2, c2) = setEncr c1 (take encrKL (drop signKL keys));
                         (r3, c3) = setIv c2 (take encrBS (drop (signKL + encrKL) keys))
                     in (r1 OR r2 OR r3, c3)))))"

definition UA_SecureChannel_generateLocalKeys ::
    "(nat \<Rightarrow> bool) \<Rightarrow> 'k UA_SecureChannel \<Rightarrow> status \<times> 'k UA_SecureChannel" where
  "UA_SecureChannel_generateLocalKeys mem_ok ch =
     (case securityPolicy ch of
        None \<Rightarrow> (UA_STATUSCODE_BADINTERNALERROR, ch)
      | Some sp \<Rightarrow>
          (let cc = channelContext ch; crm = symmetricModule sp;
               (r, cc') = generateKeys mem_ok
                 (getLocalKeyLength (encryptionAlgorithm crm) cc)
                 (getRemoteBlockSize (encryptionAlgorithm crm) cc)
                 (getLocalSignKeyLength (signatureAlgorithm crm) cc)
                 (generateKey sp (remoteNonce ch) (localNonce ch))
                 (setLocalSymSigningKey sp) (setLocalSymEncryptingKey sp) (setLocalSymIv sp) cc
           in (r, ch\<lparr>channelContext := cc'\<rparr>)))"

definition generateRemoteKeys ::
    "(nat \<Rightarrow> bool) \<Rightarrow> 'k UA_SecureChannel \<Rightarrow> status \<times> 'k UA_SecureChannel" where
  "generateRemoteKeys mem_ok ch =
     (case securityPolicy ch of
        None \<Rightarrow> (UA_STATUSCODE_BADINTERNALERROR, ch)
      | Some sp \<Rightarrow>
          (let cc = channelContext ch; crm = symmetricModule sp;
               (r, cc') = generateKeys mem_ok
                 (getRemoteKeyLength (encryptionAlgorithm crm) cc)
                 (getRemoteBlockSize (encryptionAlgorithm crm) cc)
                 (getRemoteSignKeyLength (signatureAlgorithm crm) cc)
                 (generateKey sp (localNonce ch) (remoteNonce ch))
                 (setRemoteSymSigningKey sp) (setRemoteSymEncryptingKey sp) (setRemoteSymIv sp) cc
           in (r, ch\<lparr>channelContext := cc'\<rparr>)))"

section \<open>Padding\<close>

text \<open>
  \<open>padChunk cm cc n\<close> are the bytes that \<^verbatim>\<open>padChunk\<close> writes at \<^verbatim>\<open>*pos\<close> when \<open>n\<close> bytes lie between
  \<^verbatim>\<open>start\<close> and \<^verbatim>\<open>*pos\<close>. The loop counter has 16 bits; the padding is shorter than a block.
\<close>

definition padChunk :: "'k UA_SecurityPolicyCryptoModule \<Rightarrow> 'k option \<Rightarrow> nat \<Rightarrow> bytes" where
  "padChunk cm cc bytesToWrite =
     (let signatureSize = getLocalSignatureSize (signatureAlgorithm cm) cc;
          plainTextBlockSize = getRemotePlainTextBlockSize (encryptionAlgorithm cm) cc;
          extraPadding = (getRemoteKeyLength (encryptionAlgorithm cm) cc > 2048);
          padding = (if extraPadding then 2 else 1);
          lastBlock = (bytesToWrite + signatureSize + padding) mod plainTextBlockSize;
          paddingLength = (if lastBlock \<noteq> 0 then plainTextBlockSize - lastBlock else 0)
      in replicate (paddingLength + 1) (of_nat paddingLength) @
         (if extraPadding then [of_nat (paddingLength div 256)] else []))"

definition decodePadding ::
    "'k UA_SecurityPolicyCryptoModule \<Rightarrow> 'k option \<Rightarrow> bytes \<Rightarrow> nat \<Rightarrow> nat" where
  "decodePadding cm cc chunk sigsize =
     (let paddingSize = unat (chunk ! (length chunk - sigsize - 1));
          paddingSize = (if getLocalKeyLength (encryptionAlgorithm cm) cc > 2048
                         then paddingSize * 256 + unat (chunk ! (length chunk - sigsize - 2)) + 1
                         else paddingSize)
      in paddingSize + 1)"

section \<open>Verifying and decrypting a chunk\<close>

definition verifySignature ::
    "'k UA_SecurityPolicyCryptoModule \<Rightarrow> 'k option \<Rightarrow> bytes \<Rightarrow> nat \<Rightarrow> status" where
  "verifySignature cm cc chunk sigsize =
     (if \<not> sigsize < length chunk then UA_STATUSCODE_BADSECURITYCHECKSFAILED
      else verify (signatureAlgorithm cm) cc (take (length chunk - sigsize) chunk)
             (drop (length chunk - sigsize) chunk))"

text \<open>\<open>verifyChunk\<close> is the part after decryption: the signature, the padding and the length check.\<close>

definition verifyChunk ::
    "UA_MessageSecurityMode \<Rightarrow> 'k option \<Rightarrow> 'k UA_SecurityPolicyCryptoModule \<Rightarrow> u32 \<Rightarrow> bytes \<Rightarrow>
     nat \<Rightarrow> status \<times> bytes" where
  "verifyChunk mode cc cm mtype chunk offset =
     (if mode \<noteq> SECURITYMODE_SIGN \<and> mode \<noteq> SECURITYMODE_SIGNANDENCRYPT \<and> mtype \<noteq> UA_MESSAGETYPE_OPN
      then (GOOD, chunk)
      else
        (let sigsize = getRemoteSignatureSize (signatureAlgorithm cm) cc;
             res = verifySignature cm cc chunk sigsize
         in if res \<noteq> GOOD then (res, chunk)
            else
              (let padSize = (if mode = SECURITYMODE_SIGNANDENCRYPT \<or>
                                 (mtype = UA_MESSAGETYPE_OPN \<and>
                                  0 < length (encryption_uri (encryptionAlgorithm cm)))
                              then decodePadding cm cc chunk sigsize else 0)
               in if \<not> offset + padSize + sigsize + 9 < length chunk
                  then (UA_STATUSCODE_BADSECURITYCHECKSFAILED, chunk)
                  else (GOOD, take (length chunk - (sigsize + padSize)) chunk))))"

text \<open>Decryption is in place, from \<open>offset\<close> on; it may make the chunk shorter.\<close>

definition decryptAndVerifyChunk ::
    "'k UA_SecureChannel \<Rightarrow> 'k UA_SecurityPolicyCryptoModule \<Rightarrow> u32 \<Rightarrow> bytes \<Rightarrow> nat \<Rightarrow>
     status \<times> bytes" where
  "decryptAndVerifyChunk ch cm mtype chunk offset =
     (if securityMode ch = SECURITYMODE_SIGNANDENCRYPT \<or> mtype = UA_MESSAGETYPE_OPN
      then (let (res, cipher) = decrypt (encryptionAlgorithm cm) (channelContext ch) (drop offset chunk)
            in if res \<noteq> GOOD then (res, chunk)
               else verifyChunk (securityMode ch) (channelContext ch) cm mtype
                      (take offset chunk @ cipher) offset)
      else verifyChunk (securityMode ch) (channelContext ch) cm mtype chunk offset)"

section \<open>Asymmetric messages\<close>

text \<open>
  Encoding without a callback at the current position. A null pointer and an empty byte string
  differ on the wire; the byte strings of the channel are NULL when they are empty.
\<close>

definition encode_here :: "type_env \<Rightarrow> ua_val \<Rightarrow> tyref \<Rightarrow> unit encoder" where
  "encode_here env v ty c = UA_encodeBinaryInternal env v ty (enc_out c) (enc_room c) None ()"

definition buffer_start :: "nat \<Rightarrow> unit enc_ctx" where
  "buffer_start room =
     \<lparr>enc_out = [], enc_room = room, enc_depth = 0, enc_cb = None, enc_handle = ()\<rparr>"

definition as_string :: "bytes \<Rightarrow> UA_String" where
  "as_string bs = (if bs = [] then None else Some bs)"

definition calculateAsymAlgSecurityHeaderLength :: "'k UA_SecureChannel \<Rightarrow> nat" where
  "calculateAsymAlgSecurityHeaderLength ch =
     (case securityPolicy ch of
        None \<Rightarrow> unat UA_STATUSCODE_BADINTERNALERROR
      | Some sp \<Rightarrow>
          (let asymHeaderLength = 12 + length (policyUri sp)
           in if securityMode ch = SECURITYMODE_NONE then asymHeaderLength
              else asymHeaderLength + 20 + length (localCertificate sp)))"

definition AsymHeader_val :: "UA_String \<Rightarrow> UA_String \<Rightarrow> UA_String \<Rightarrow> ua_val" where
  "AsymHeader_val uri cert thumb =
     VStruct [FScalar (VString uri), FScalar (VString cert), FScalar (VString thumb)]"

text \<open>Returns the status, the bytes at the start of the buffer, the encrypted length, the channel.\<close>

definition prependHeadersAsym ::
    "type_env \<Rightarrow> 'k UA_SecureChannel \<Rightarrow> nat \<Rightarrow> nat \<Rightarrow> nat \<Rightarrow> u32 \<Rightarrow>
     status \<times> bytes \<times> nat \<times> 'k UA_SecureChannel" where
  "prependHeadersAsym env ch bufEnd totalLength securityHeaderLength reqId =
     (case securityPolicy ch of
        None \<Rightarrow> (UA_STATUSCODE_BADINTERNALERROR, [], 0, ch)
      | Some sp \<Rightarrow>
          (let enc = encryptionAlgorithm (asymmetricModule sp);
               encryptedLength =
                 (if securityMode ch = SECURITYMODE_NONE then totalLength
                  else (let dataToEncryptLength =
                              totalLength - (CHANNELHEADER_LENGTH + securityHeaderLength);
                            plainTextBlockSize = getRemotePlainTextBlockSize enc (channelContext ch);
                            encryptedBlockSize = getRemoteBlockSize enc (channelContext ch);
                            blocks = dataToEncryptLength div plainTextBlockSize
                        in totalLength + blocks * (encryptedBlockSize - plainTextBlockSize)));
               (r1, c1) = enc_ors
                 [encode_here env (two_words (UA_MESSAGETYPE_OPN + UA_CHUNKTYPE_FINAL)
                                     (of_nat encryptedLength)) UA_TRANSPORT_TCPMESSAGEHEADER,
                  encode_here env (VU32 (channelId (securityToken ch))) UA_TYPES_UINT32] (buffer_start bufEnd)
           in if r1 \<noteq> GOOD then (r1, enc_out c1, encryptedLength, ch)
              else
                (let signs = (securityMode ch = SECURITYMODE_SIGN \<or>
                              securityMode ch = SECURITYMODE_SIGNANDENCRYPT);
                     (r2, c2) = encode_here env
                       (AsymHeader_val (as_string (policyUri sp))
                          (if signs then as_string (localCertificate sp) else None)
                          (if signs then Some (remoteCertificateThumbprint ch) else None))
                       UA_TRANSPORT_ASYMMETRICALGORITHMSECURITYHEADER c1
                 in if r2 \<noteq> GOOD then (r2, enc_out c2, encryptedLength, ch)
                    else
                      (let seqNum = sendSequenceNumber ch + 1;
                           (r3, c3) = encode_here env (two_words seqNum reqId)
                             UA_TRANSPORT_SEQUENCEHEADER c2
                       in (r3, enc_out c3, encryptedLength, ch\<lparr>sendSequenceNumber := seqNum\<rparr>)))))"

text \<open>The buffer positions \<^verbatim>\<open>buf_start\<close> and \<^verbatim>\<open>buf_end\<close> as offsets into a buffer of length \<open>len\<close>.\<close>

definition hideBytesAsym :: "'k UA_SecureChannel \<Rightarrow> nat \<Rightarrow> nat \<times> nat" where
  "hideBytesAsym ch len =
     (let buf_start = CHANNELHEADER_LENGTH + calculateAsymAlgSecurityHeaderLength ch +
            SEQUENCEHEADER_LENGTH
      in if securityMode ch = SECURITYMODE_NONE then (buf_start, len)
         else
           (case securityPolicy ch of
              None \<Rightarrow> (buf_start, len)
            | Some sp \<Rightarrow>
                (let cm = asymmetricModule sp; cc = channelContext ch;
                     buf_end = len - getLocalSignatureSize (signatureAlgorithm cm) cc;
                     plainTextBlockSize = getRemotePlainTextBlockSize (encryptionAlgorithm cm) cc;
                     encryptedBlockSize = getRemoteBlockSize (encryptionAlgorithm cm) cc;
                     extraPadding = (getRemoteKeyLength (encryptionAlgorithm cm) cc > 2048);
                     maxEncrypted = (buf_end - buf_start) + SEQUENCEHEADER_LENGTH;
                     max_blocks = maxEncrypted div encryptedBlockSize;
                     padding = (if \<not> extraPadding then 1 else 2)
                 in (buf_start, buf_start + max_blocks * plainTextBlockSize -
                       SEQUENCEHEADER_LENGTH - padding))))"

text \<open>Encryption in place of the part from \<open>offset\<close> on.\<close>

definition overwrite :: "bytes \<Rightarrow> bytes \<Rightarrow> bytes" where
  "overwrite old new = new @ drop (length new) old"

definition signAndEncryptAsym ::
    "'k UA_SecureChannel \<Rightarrow> bytes \<Rightarrow> nat \<Rightarrow> status \<times> bytes" where
  "signAndEncryptAsym ch buf securityHeaderLength =
     (if securityMode ch \<noteq> SECURITYMODE_SIGN \<and> securityMode ch \<noteq> SECURITYMODE_SIGNANDENCRYPT
      then (GOOD, buf)
      else
        (case securityPolicy ch of
           None \<Rightarrow> (UA_STATUSCODE_BADINTERNALERROR, buf)
         | Some sp \<Rightarrow>
             (let cm = asymmetricModule sp; cc = channelContext ch;
                  sigsize = getLocalSignatureSize (signatureAlgorithm cm) cc;
                  (res, signature) = sign (signatureAlgorithm cm) cc buf sigsize
              in if res \<noteq> GOOD then (res, buf)
                 else
                   (let signed = buf @ signature;
                        unencrypted_length = CHANNELHEADER_LENGTH + securityHeaderLength;
                        (r, cipher) = encrypt (encryptionAlgorithm cm) cc
                          (drop unencrypted_length signed)
                    in (r, take unencrypted_length signed @
                           overwrite (drop unencrypted_length signed) cipher)))))"

section \<open>Checking the security headers\<close>

definition checkAsymHeader :: "'k UA_SecureChannel \<Rightarrow> bytes \<Rightarrow> bytes \<Rightarrow> status" where
  "checkAsymHeader ch uri thumbprint =
     (case securityPolicy ch of
        None \<Rightarrow> UA_STATUSCODE_BADINTERNALERROR
      | Some sp \<Rightarrow>
          if policyUri sp \<noteq> uri then UA_STATUSCODE_BADSECURITYPOLICYREJECTED
          else compareCertificateThumbprint sp thumbprint)"

text \<open>A \<^verbatim>\<open>UA_DateTime\<close> counts 100-nanosecond steps in a signed 64-bit integer.\<close>

definition UA_DATETIME_MSEC :: u64 where
  "UA_DATETIME_MSEC = 10000"

definition token_timed_out :: "u64 \<Rightarrow> UA_ChannelSecurityToken \<Rightarrow> bool" where
  "token_timed_out now token =
     (sint (createdAt token + ucast (revisedLifetime token) * UA_DATETIME_MSEC) < sint now)"

text \<open>The part after the switch: \<open>token\<close> is the token in use.\<close>

definition check_timeout ::
    "u64 \<Rightarrow> UA_ChannelSecurityToken \<Rightarrow> 'k UA_SecureChannel \<Rightarrow> status \<times> 'k UA_SecureChannel" where
  "check_timeout now token ch =
     (if state ch = SECURECHANNELSTATE_OPEN \<and> token_timed_out now token
      then (UA_STATUSCODE_BADSECURECHANNELCLOSED, UA_SecureChannel_close ch)
      else (GOOD, ch))"

definition checkSymHeader ::
    "(nat \<Rightarrow> bool) \<Rightarrow> u64 \<Rightarrow> u32 \<Rightarrow> 'k UA_SecureChannel \<Rightarrow> status \<times> 'k UA_SecureChannel" where
  "checkSymHeader mem_ok now tid ch =
     (case renewState ch of
        RENEWSTATE_NEWTOKEN_SERVER \<Rightarrow>
          if tid = tokenId (securityToken ch) then check_timeout now (securityToken ch) ch
          else if tid \<noteq> tokenId (altSecurityToken ch)
          then (UA_STATUSCODE_BADSECURECHANNELTOKENUNKNOWN, ch)
          else
            (let ch1 = ch\<lparr>renewState := RENEWSTATE_NORMAL, securityToken := altSecurityToken ch,
                          altSecurityToken := null_token\<rparr>;
                 (r1, ch2) = UA_SecureChannel_generateLocalKeys mem_ok ch1;
                 (r2, ch3) = generateRemoteKeys mem_ok ch2
             in if r1 OR r2 \<noteq> GOOD then (r1 OR r2, ch3)
                else check_timeout now (securityToken ch3) ch3)
      | RENEWSTATE_NEWTOKEN_CLIENT \<Rightarrow>
          if tid = tokenId (altSecurityToken ch) then check_timeout now (altSecurityToken ch) ch
          else if tid \<noteq> tokenId (securityToken ch)
          then (UA_STATUSCODE_BADSECURECHANNELTOKENUNKNOWN, ch)
          else
            (let ch1 = ch\<lparr>renewState := RENEWSTATE_NORMAL, altSecurityToken := null_token\<rparr>;
                 (r, ch2) = generateRemoteKeys mem_ok ch1
             in if r \<noteq> GOOD then (r, ch2)
                else check_timeout now (securityToken ch2) ch2)
      | _ \<Rightarrow> check_timeout now (securityToken ch) ch)"

end
