(* ===== verification/Channel_Receive.thy ===== *)
theory Channel_Receive
  imports Channel_Crypto
begin

text \<open>
  Receiving: bytes from the network are cut into chunks, the chunks are decrypted and checked, and
  complete messages are handed to the application (\<^verbatim>\<open>src/ua_securechannel.c\<close>, from
  \<^verbatim>\<open>processSequenceNumberSym\<close> on).

  The application is a state \<open>'app\<close> with the callbacks of the record \<open>rx_env\<close>. A callback gets the
  channel and returns it changed, as a server does that opens or closes the channel. The callback
  may process further buffers on the same channel, so the loop over the chunks need not end for
  every callback: \<open>processChunks\<close> is a partial function whose result \<open>None\<close> stands for a loop that
  does not end.
\<close>

section \<open>The environment of the receiver\<close>

record ('app, 'k) rx_env =
  rx_types :: type_env
  rx_mem :: "nat \<Rightarrow> bool"
  rx_now :: u64
  rx_verifyCertificate :: "(bytes \<Rightarrow> status) option"
  rx_processOPNHeader ::
    "('app \<Rightarrow> 'k UA_SecureChannel \<Rightarrow> UA_String \<Rightarrow> UA_String \<Rightarrow> UA_String \<Rightarrow>
      status \<times> 'app \<times> 'k UA_SecureChannel) option"
  rx_callback ::
    "'app \<Rightarrow> 'k UA_SecureChannel \<Rightarrow> u32 \<Rightarrow> u32 \<Rightarrow> bytes \<Rightarrow> status \<times> 'app \<times> 'k UA_SecureChannel"

text \<open>Decoding at an offset; a value that could not be decoded is cleared to zero.\<close>

definition decode_word :: "type_env \<Rightarrow> bytes \<Rightarrow> nat \<Rightarrow> status \<times> u32 \<times> nat" where
  "decode_word env src offset =
     (let (r, v, offset') = UA_decodeBinaryInternal env (\<lambda>_. True) [] src offset UA_TYPES_UINT32
      in (r, (case v of Some (VU32 w) \<Rightarrow> w | _ \<Rightarrow> 0), offset'))"

definition decode_two_words :: "type_env \<Rightarrow> tyref \<Rightarrow> bytes \<Rightarrow> nat \<Rightarrow> status \<times> u32 \<times> u32 \<times> nat" where
  "decode_two_words env ty src offset =
     (let (r, v, offset') = UA_decodeBinaryInternal env (\<lambda>_. True) [] src offset ty
      in case v of
           Some (VStruct [FScalar (VU32 a), FScalar (VU32 b)]) \<Rightarrow> (r, a, b, offset')
         | _ \<Rightarrow> (r, 0, 0, offset'))"

definition decode_asymHeader ::
    "type_env \<Rightarrow> (nat \<Rightarrow> bool) \<Rightarrow> bytes \<Rightarrow> nat \<Rightarrow> status \<times> (UA_String \<times> UA_String \<times> UA_String) \<times> nat" where
  "decode_asymHeader env mem src offset =
     (let (r, v, offset') = UA_decodeBinaryInternal env mem [] src offset
            UA_TRANSPORT_ASYMMETRICALGORITHMSECURITYHEADER
      in case v of
           Some (VStruct [FScalar (VString a), FScalar (VString b), FScalar (VString c)]) \<Rightarrow>
             (r, (a, b, c), offset')
         | _ \<Rightarrow> (r, (None, None, None), offset'))"

section \<open>Sequence numbers\<close>

definition UA_SEQUENCENUMBER_ROLLOVER :: u32 where
  "UA_SEQUENCENUMBER_ROLLOVER = 4294966271"

definition processSequenceNumberSym :: "u32 \<Rightarrow> 'k UA_SecureChannel \<Rightarrow> status \<times> 'k UA_SecureChannel" where
  "processSequenceNumberSym sequenceNumber ch =
     (if sequenceNumber \<noteq> receiveSequenceNumber ch + 1
      then if receiveSequenceNumber ch + 1 \<le> UA_SEQUENCENUMBER_ROLLOVER \<or> sequenceNumber \<ge> 1024
           then (UA_STATUSCODE_BADSECURITYCHECKSFAILED, ch)
           else (GOOD, ch\<lparr>receiveSequenceNumber := (sequenceNumber - 1) + 1\<rparr>)
      else (GOOD, ch\<lparr>receiveSequenceNumber := receiveSequenceNumber ch + 1\<rparr>))"

section \<open>Unpacking a chunk\<close>

definition unpackPayloadOPN ::
    "('app, 'k) rx_env \<Rightarrow> 'app \<Rightarrow> 'k UA_SecureChannel \<Rightarrow> UA_Chunk \<Rightarrow>
     status \<times> UA_Chunk \<times> 'app \<times> 'k UA_SecureChannel" where
  "unpackPayloadOPN env app ch chunk =
     (let (_, secureChannelId, offset) = decode_word (rx_types env) (chunk_bytes chunk) MESSAGEHEADER_LENGTH;
          (res, (uri, cert, thumb), offset) =
            decode_asymHeader (rx_types env) (rx_mem env) (chunk_bytes chunk) offset
      in if res \<noteq> GOOD then (res, chunk, app, ch)
         else
           (let res = (if 0 < string_length cert
                       then (case rx_verifyCertificate env of
                               Some verify_cert \<Rightarrow> verify_cert (array_elems cert)
                             | None \<Rightarrow> UA_STATUSCODE_BADINTERNALERROR) else GOOD)
            in if res \<noteq> GOOD then (res, chunk, app, ch)
               else
                 (let (res, app, ch) =
                        (if securityPolicy ch \<noteq> None then (GOOD, app, ch)
                         else
                           (let (res, app, ch) =
                                  (case rx_processOPNHeader env of
                                     Some f \<Rightarrow> f app ch uri cert thumb
                                   | None \<Rightarrow> (GOOD, app, ch))
                            in (if securityPolicy ch = None then UA_STATUSCODE_BADINTERNALERROR else res,
                                app, ch)))
                  in if res \<noteq> GOOD then (res, chunk, app, ch)
                     else
                       (let ch = (if secureChannelId \<noteq> 0 \<and> channelId (securityToken ch) = 0
                                  then ch\<lparr>securityToken := (securityToken ch)\<lparr>channelId := secureChannelId\<rparr>\<rparr>
                                  else ch)
                        in if secureChannelId \<noteq> channelId (securityToken ch)
                           then (UA_STATUSCODE_BADSECURECHANNELIDINVALID, chunk, app, ch)
                           else
                             (let res = checkAsymHeader ch (array_elems uri) (array_elems thumb)
                              in if res \<noteq> GOOD then (res, chunk, app, ch)
                                 else
                                   (let (res, plain) = decryptAndVerifyChunk ch
                                          (asymmetricModule (the (securityPolicy ch)))
                                          (messageType chunk) (chunk_bytes chunk) offset;
                                        chunk1 = chunk\<lparr>chunk_bytes := plain\<rparr>
                                    in if res \<noteq> GOOD then (res, chunk1, app, ch)
                                       else
                                         (let (res, seqn, req, offset) = decode_two_words (rx_types env)
                                                UA_TRANSPORT_SEQUENCEHEADER plain offset
                                          in if res \<noteq> GOOD then (res, chunk1, app, ch)
                                             else (GOOD,
                                                   chunk1\<lparr>requestId := req,
                                                          chunk_bytes := drop offset plain\<rparr>,
                                                   app, ch\<lparr>receiveSequenceNumber := seqn\<rparr>))))))))"

definition unpackPayloadMSG ::
    "('app, 'k) rx_env \<Rightarrow> 'k UA_SecureChannel \<Rightarrow> UA_Chunk \<Rightarrow>
     status \<times> UA_Chunk \<times> 'k UA_SecureChannel" where
  "unpackPayloadMSG env ch chunk =
     (if securityPolicy ch = None then (UA_STATUSCODE_BADINTERNALERROR, chunk, ch)
      else
        (let (_, secureChannelId, offset) =
               decode_word (rx_types env) (chunk_bytes chunk) MESSAGEHEADER_LENGTH;
             (_, tid, offset) = decode_word (rx_types env) (chunk_bytes chunk) offset
         in if secureChannelId \<noteq> channelId (securityToken ch)
            then (UA_STATUSCODE_BADSECURECHANNELIDINVALID, chunk, ch)
            else
              (let (res, ch1) = checkSymHeader (rx_mem env) (rx_now env) tid ch
               in if res \<noteq> GOOD then (res, chunk, ch1)
                  else
                    (let (res, plain) = decryptAndVerifyChunk ch1
                           (symmetricModule (the (securityPolicy ch1))) (messageType chunk)
                           (chunk_bytes chunk) offset;
                         chunk1 = chunk\<lparr>chunk_bytes := plain\<rparr>
                     in if res \<noteq> GOOD then (res, chunk1, ch1)
                        else
                          (let (res1, seqn, req, offset) =
                                 decode_two_words (rx_types env) UA_TRANSPORT_SEQUENCEHEADER plain offset;
                               (res2, ch2) = processSequenceNumberSym seqn ch1
                           in if res1 OR res2 \<noteq> GOOD then (res1 OR res2, chunk1, ch2)
                              else (GOOD, chunk1\<lparr>requestId := req, chunk_bytes := drop offset plain\<rparr>,
                                    ch2))))))"

section \<open>Messages\<close>

text \<open>The consistency check over the decrypted chunks: the status and the summed lengths.\<close>

fun scanChunks :: "u32 \<Rightarrow> u32 \<Rightarrow> u32 \<Rightarrow> UA_Chunk list \<Rightarrow> nat \<Rightarrow> status \<times> nat" where
  "scanChunks req mtype ctype [] messageSize = (GOOD, messageSize)"
| "scanChunks req mtype ctype (c # cs) messageSize =
     (if req \<noteq> requestId c then (UA_STATUSCODE_BADINTERNALERROR, messageSize)
      else if ctype \<noteq> chunkType c \<and> chunkType c \<noteq> UA_CHUNKTYPE_FINAL
      then (UA_STATUSCODE_BADTCPMESSAGETYPEINVALID, messageSize)
      else if messageType c \<noteq> mtype then (UA_STATUSCODE_BADTCPMESSAGETYPEINVALID, messageSize)
      else if chunkType c = UA_CHUNKTYPE_FINAL
      then (GOOD, messageSize + length (chunk_bytes c))
      else scanChunks req mtype ctype cs (messageSize + length (chunk_bytes c)))"

text \<open>Takes the chunks up to the first final one from the queue and joins their bytes.\<close>

fun joinChunks :: "UA_Chunk list \<Rightarrow> bytes \<times> UA_Chunk list" where
  "joinChunks [] = ([], [])"
| "joinChunks (c # cs) =
     (if chunkType c = UA_CHUNKTYPE_FINAL then (chunk_bytes c, cs)
      else (let (payload, rest) = joinChunks cs in (chunk_bytes c @ payload, rest)))"

definition assembleProcessMessage ::
    "('app, 'k) rx_env \<Rightarrow> 'app \<Rightarrow> 'k UA_SecureChannel \<Rightarrow> status \<times> 'app \<times> 'k UA_SecureChannel" where
  "assembleProcessMessage env app ch =
     (case decryptedChunks ch of
        [] \<Rightarrow> (STATUS_UNDEFINED, app, ch)
      | chunk # rest \<Rightarrow>
          if chunkType chunk = UA_CHUNKTYPE_FINAL
          then rx_callback env app (ch\<lparr>decryptedChunks := rest\<rparr>) (messageType chunk) (requestId chunk)
                 (chunk_bytes chunk)
          else
            (let (res, messageSize) = scanChunks (requestId chunk) (messageType chunk)
                   (chunkType chunk) (decryptedChunks ch) 0
             in if res \<noteq> GOOD then (res, app, ch)
                else
                  (let (res, _) = ByteString_allocBuffer (rx_mem env) messageSize
                   in if res \<noteq> GOOD then (res, app, ch)
                      else
                        (let (payload, rest) = joinChunks (decryptedChunks ch)
                         in rx_callback env app (ch\<lparr>decryptedChunks := rest\<rparr>) (messageType chunk)
                              (requestId chunk) payload))))"

definition unpackChunk ::
    "('app, 'k) rx_env \<Rightarrow> 'app \<Rightarrow> 'k UA_SecureChannel \<Rightarrow> UA_Chunk \<Rightarrow>
     status \<times> UA_Chunk \<times> 'app \<times> 'k UA_SecureChannel" where
  "unpackChunk env app ch chunk =
     (if messageType chunk = UA_MESSAGETYPE_OPN
      then if state ch \<noteq> SECURECHANNELSTATE_OPEN \<and> state ch \<noteq> SECURECHANNELSTATE_OPN_SENT \<and>
              state ch \<noteq> SECURECHANNELSTATE_ACK_SENT
           then (UA_STATUSCODE_BADINVALIDSTATE, chunk, app, ch)
           else unpackPayloadOPN env app ch chunk
      else if messageType chunk = UA_MESSAGETYPE_MSG \<or> messageType chunk = UA_MESSAGETYPE_CLO
      then if state ch = SECURECHANNELSTATE_CLOSED
           then (UA_STATUSCODE_BADSECURECHANNELCLOSED, chunk, app, ch)
           else (let (res, chunk1, ch1) = unpackPayloadMSG env ch chunk in (res, chunk1, app, ch1))
      else (GOOD, chunk\<lparr>chunk_bytes := drop MESSAGEHEADER_LENGTH (chunk_bytes chunk)\<rparr>, app, ch))"

text \<open>\<open>processChunk\<close> is one round of the loop of \<^verbatim>\<open>processChunks\<close>, for a chunk out of the queue.\<close>

definition processChunk ::
    "('app, 'k) rx_env \<Rightarrow> 'app \<Rightarrow> 'k UA_SecureChannel \<Rightarrow> UA_Chunk \<Rightarrow>
     status \<times> 'app \<times> 'k UA_SecureChannel" where
  "processChunk env app ch chunk0 =
     (let (res, chunk, app, ch) = unpackChunk env app ch chunk0
      in if res \<noteq> GOOD then (res, app, ch)
         else
           (let ch1 = ch\<lparr>decryptedChunks := decryptedChunks ch @ [chunk],
                         decryptedChunksCount := decryptedChunksCount ch + 1,
                         decryptedChunksLength := decryptedChunksLength ch + length (chunk_bytes chunk)\<rparr>;
                conf = config ch1
            in if localMaxChunkCount conf \<noteq> 0 \<and>
                  decryptedChunksCount ch1 > unat (localMaxChunkCount conf) \<or>
                  localMaxMessageSize conf \<noteq> 0 \<and>
                  decryptedChunksLength ch1 > unat (localMaxMessageSize conf)
               then (UA_STATUSCODE_BADTCPMESSAGETOOLARGE, app, ch1)
               else if chunkType chunk = UA_CHUNKTYPE_INTERMEDIATE then (GOOD, app, ch1)
               else
                 (let ch2 = ch1\<lparr>decryptedChunksCount := 0, decryptedChunksLength := 0\<rparr>
                  in if chunkType chunk = UA_CHUNKTYPE_ABORT
                     then (GOOD, app, ch2\<lparr>decryptedChunks := deleteChunks (decryptedChunks ch2)\<rparr>)
                     else assembleProcessMessage env app ch2)))"

partial_function (option) processChunks ::
    "('app, 'k) rx_env \<Rightarrow> 'app \<Rightarrow> 'k UA_SecureChannel \<Rightarrow>
     (status \<times> 'app \<times> 'k UA_SecureChannel) option" where
  "processChunks env app ch =
     (case completeChunks ch of
        [] \<Rightarrow> Some (GOOD, app, ch)
      | chunk # rest \<Rightarrow>
          (case processChunk env app (ch\<lparr>completeChunks := rest\<rparr>) chunk of
             (res, app1, ch1) \<Rightarrow>
               if res \<noteq> GOOD then Some (res, app1, ch1) else processChunks env app1 ch1))"

section \<open>Cutting the stream into chunks\<close>

definition UA_BITMASK_MESSAGETYPE :: u32 where "UA_BITMASK_MESSAGETYPE = 0x00ffffff"
definition UA_BITMASK_CHUNKTYPE :: u32 where "UA_BITMASK_CHUNKTYPE = 0xff000000"

definition SIZEOF_CHUNK :: nat where "SIZEOF_CHUNK = 40"

text \<open>Returns the status, the new offset, \<^verbatim>\<open>*done\<close> and the channel.\<close>

definition extractCompleteChunk ::
    "('app, 'k) rx_env \<Rightarrow> bytes \<Rightarrow> nat \<Rightarrow> 'k UA_SecureChannel \<Rightarrow>
     status \<times> nat \<times> bool \<times> 'k UA_SecureChannel" where
  "extractCompleteChunk env buffer offset ch =
     (let remaining = length buffer - offset
      in if remaining < MESSAGEHEADER_LENGTH then (GOOD, offset, True, ch)
         else
           (let (_, messageTypeAndChunkType, messageSize, _) = decode_two_words (rx_types env)
                  UA_TRANSPORT_TCPMESSAGEHEADER buffer offset;
                msgType = messageTypeAndChunkType AND UA_BITMASK_MESSAGETYPE;
                ctype = messageTypeAndChunkType AND UA_BITMASK_CHUNKTYPE
            in if unat messageSize < MESSAGE_MIN_LENGTH
               then (UA_STATUSCODE_BADTCPMESSAGETYPEINVALID, offset, False, ch)
               else if messageSize > recvBufferSize (config ch)
               then (UA_STATUSCODE_BADTCPMESSAGETOOLARGE, offset, False, ch)
               else if unat messageSize > remaining then (GOOD, offset, True, ch)
               else
                 (let bad =
                        (if msgType = UA_MESSAGETYPE_HEL \<or> msgType = UA_MESSAGETYPE_ACK \<or>
                            msgType = UA_MESSAGETYPE_ERR \<or> msgType = UA_MESSAGETYPE_OPN
                         then ctype \<noteq> UA_CHUNKTYPE_FINAL
                         else if msgType \<noteq> UA_MESSAGETYPE_MSG \<and> msgType \<noteq> UA_MESSAGETYPE_CLO then True
                         else ctype \<noteq> UA_CHUNKTYPE_FINAL \<and> ctype \<noteq> UA_CHUNKTYPE_INTERMEDIATE \<and>
                              ctype \<noteq> UA_CHUNKTYPE_ABORT)
                  in if bad then (UA_STATUSCODE_BADTCPMESSAGETYPEINVALID, offset, False, ch)
                     else if \<not> rx_mem env SIZEOF_CHUNK
                     then (UA_STATUSCODE_BADOUTOFMEMORY, offset + unat messageSize, False, ch)
                     else
                       (GOOD, offset + unat messageSize, False,
                        ch\<lparr>completeChunks := completeChunks ch @
                             [\<lparr>chunk_bytes = take (unat messageSize) (drop offset buffer),
                               messageType = msgType, chunkType = ctype, requestId = 0,
                               copied = False\<rparr>]\<rparr>))))"

text \<open>A step of the loop moves the offset forward inside the buffer.\<close>

lemma extractCompleteChunk_step:
  assumes "extractCompleteChunk env buffer offset ch = (r, offset', done, ch')"
  shows "r = GOOD \<Longrightarrow> \<not> done \<Longrightarrow> offset < offset' \<and> offset' \<le> length buffer"
    and "done \<Longrightarrow> r = GOOD \<and> offset' = offset \<and> ch' = ch"
  using assms
  by (auto simp: extractCompleteChunk_def Let_def not_less split: if_splits prod.splits)

function extractChunks ::
    "('app, 'k) rx_env \<Rightarrow> bytes \<Rightarrow> nat \<Rightarrow> 'k UA_SecureChannel \<Rightarrow>
     status \<times> nat \<times> 'k UA_SecureChannel" where
  "extractChunks env buffer offset ch =
     (case extractCompleteChunk env buffer offset ch of
        (res, offset', done, ch') \<Rightarrow>
          if res \<noteq> GOOD \<or> done then (res, offset', ch')
          else extractChunks env buffer offset' ch')"
  by pat_completeness auto
termination
  by (relation "measure (\<lambda>(env, buffer, offset, ch). length buffer - offset)")
     (auto dest!: sym [of "(_, _, _, _)"] extractCompleteChunk_step(1))

declare extractChunks.simps [simp del]

section \<open>Buffers\<close>

fun persistCompleteChunks :: "(nat \<Rightarrow> bool) \<Rightarrow> UA_Chunk list \<Rightarrow> status \<times> UA_Chunk list" where
  "persistCompleteChunks mem [] = (GOOD, [])"
| "persistCompleteChunks mem (c # cs) =
     (if copied c then (let (r, cs') = persistCompleteChunks mem cs in (r, c # cs'))
      else
        (let (r, copy) = ByteString_copy mem (chunk_bytes c)
         in if r \<noteq> GOOD then (r, c # cs)
            else (let (r', cs') = persistCompleteChunks mem cs
                  in (r', c\<lparr>chunk_bytes := copy, copied := True\<rparr> # cs'))))"

definition persistIncompleteChunk ::
    "(nat \<Rightarrow> bool) \<Rightarrow> bytes \<Rightarrow> nat \<Rightarrow> 'k UA_SecureChannel \<Rightarrow> status \<times> 'k UA_SecureChannel" where
  "persistIncompleteChunk mem buffer offset ch =
     (let len = length buffer - offset;
          (res, _) = ByteString_allocBuffer mem len
      in if res \<noteq> GOOD then (res, ch\<lparr>incompleteChunk := []\<rparr>)
         else (GOOD, ch\<lparr>incompleteChunk := take len (drop offset buffer)\<rparr>))"

text \<open>\<open>processExtracted\<close> is what follows the loop over the buffer.\<close>

definition processExtracted ::
    "('app, 'k) rx_env \<Rightarrow> 'app \<Rightarrow> bytes \<Rightarrow> nat \<Rightarrow> 'k UA_SecureChannel \<Rightarrow>
     (status \<times> 'app \<times> 'k UA_SecureChannel) option" where
  "processExtracted env app buffer offset ch =
     (let (res, ch1) = (if offset < length buffer
                        then persistIncompleteChunk (rx_mem env) buffer offset ch else (GOOD, ch))
      in if res \<noteq> GOOD then Some (res, app, ch1)
         else
           (case processChunks env app ch1 of
              None \<Rightarrow> None
            | Some (res, app2, ch2) \<Rightarrow>
                if res \<noteq> GOOD then Some (res, app2, ch2)
                else
                  (let (r1, q1) = persistCompleteChunks (rx_mem env) (completeChunks ch2);
                       (r2, q2) = persistCompleteChunks (rx_mem env) (decryptedChunks ch2)
                   in Some (r1 OR r2, app2, ch2\<lparr>completeChunks := q1, decryptedChunks := q2\<rparr>))))"

definition UA_SecureChannel_processBuffer ::
    "('app, 'k) rx_env \<Rightarrow> 'app \<Rightarrow> bytes \<Rightarrow> 'k UA_SecureChannel \<Rightarrow>
     (status \<times> 'app \<times> 'k UA_SecureChannel) option" where
  "UA_SecureChannel_processBuffer env app buffer0 ch =
     (let appended = incompleteChunk ch;
          ch1 = (if appended \<noteq> [] then ch\<lparr>incompleteChunk := []\<rparr> else ch);
          buffer = appended @ buffer0
      in if appended \<noteq> [] \<and> \<not> rx_mem env (length buffer)
         then Some (UA_STATUSCODE_BADOUTOFMEMORY, app, ch1)
         else
           (let (res, offset, ch2) = extractChunks env buffer 0 ch1
            in if res \<noteq> GOOD then Some (res, app, ch2)
               else processExtracted env app buffer offset ch2))"

text \<open>\<open>received\<close> is the outcome of \<^verbatim>\<open>connection->recv\<close>.\<close>

definition UA_SecureChannel_receive ::
    "('app, 'k) rx_env \<Rightarrow> 'app \<Rightarrow> status \<times> bytes \<Rightarrow> 'k UA_SecureChannel \<Rightarrow>
     (status \<times> 'app \<times> 'k UA_SecureChannel) option" where
  "UA_SecureChannel_receive env app received ch =
     (if \<not> has_connection ch then Some (UA_STATUSCODE_BADINTERNALERROR, app, ch)
      else if fst received \<noteq> GOOD then Some (fst received, app, ch)
      else UA_SecureChannel_processBuffer env app (snd received) ch)"

end
