(* ===== verification/Channel_Send.thy ===== *)
theory Channel_Send
  imports Channel_Crypto
begin

text \<open>
  Sending: the message context, symmetric chunks, the callback of the encoder and the asymmetric
  OPN message (\<^verbatim>\<open>src/ua_securechannel.c\<close>).

  The message buffer of the context is laid out as in the code: 24 bytes for the headers, the body
  from \<^verbatim>\<open>buf_pos\<close> on. \<open>mc_body\<close> is what has been encoded behind the headers and \<open>mc_room\<close> is
  \<^verbatim>\<open>buf_end - buf_pos\<close>; \<open>mc_bufferLength\<close> is the length of the buffer, 0 once it is sent or
  released. The context holds the channel (the code holds a pointer to it).
\<close>

section \<open>The message context\<close>

record 'k UA_MessageContext =
  mc_channel :: "'k UA_SecureChannel"
  mc_requestId :: u32
  mc_messageType :: u32
  chunksSoFar :: u16
  messageSizeSoFar :: nat
  mc_bufferLength :: nat
  mc_body :: bytes
  mc_room :: nat
  final :: bool

definition signs :: "'k UA_SecureChannel \<Rightarrow> bool" where
  "signs ch = (securityMode ch = SECURITYMODE_SIGN \<or> securityMode ch = SECURITYMODE_SIGNANDENCRYPT)"

text \<open>
  The symmetric crypto module of the channel. The code dereferences \<^verbatim>\<open>channel->securityPolicy\<close>; the
  module of a NULL policy is unspecified.
\<close>

definition sym_module :: "'k UA_SecureChannel \<Rightarrow> 'k UA_SecurityPolicyCryptoModule" where
  "sym_module ch = symmetricModule (the (securityPolicy ch))"

text \<open>
  Leaves room for the signature, the padding and its size bytes at the end of the buffer. A send buffer
  has at least 8192 bytes, so the differences of pointers are not negative.
\<close>

definition setBufPos :: "'k UA_MessageContext \<Rightarrow> 'k UA_MessageContext" where
  "setBufPos mc =
     (let ch = mc_channel mc; len = mc_bufferLength mc
      in if securityMode ch = SECURITYMODE_NONE
         then mc\<lparr>mc_body := [], mc_room := len - SYM_TOTALLENGTH\<rparr>
         else
           (let cm = sym_module ch; cc = channelContext ch;
                sigsize = getLocalSignatureSize (signatureAlgorithm cm) cc;
                plainBlockSize = getRemotePlainTextBlockSize (encryptionAlgorithm cm) cc;
                buf_end = len - sigsize - len mod plainBlockSize;
                extraPadding = (getRemoteKeyLength (encryptionAlgorithm cm) cc > 2048);
                buf_end' = (if securityMode ch = SECURITYMODE_SIGNANDENCRYPT
                            then buf_end - (if \<not> extraPadding then 1 else 2) else buf_end)
            in mc\<lparr>mc_body := [], mc_room := buf_end' - SYM_TOTALLENGTH\<rparr>))"

definition update_connection ::
    "(UA_Connection \<Rightarrow> UA_Connection) \<Rightarrow> 'k UA_MessageContext \<Rightarrow> 'k UA_MessageContext" where
  "update_connection f mc =
     mc\<lparr>mc_channel := (mc_channel mc)\<lparr>connection := f (connection (mc_channel mc))\<rparr>\<rparr>"

text \<open>
  \<^verbatim>\<open>releaseSendBuffer\<close> clears the buffer of the context; on a buffer that was sent or released before
  (its pointer is NULL) it does nothing.
\<close>

definition mc_release :: "'k UA_MessageContext \<Rightarrow> 'k UA_MessageContext" where
  "mc_release mc =
     (if mc_bufferLength mc = 0 then mc
      else (update_connection releaseSendBuffer mc)\<lparr>mc_bufferLength := 0\<rparr>)"

section \<open>Symmetric chunks\<close>

definition adjustCheckMessageLimitsSym ::
    "nat \<Rightarrow> 'k UA_MessageContext \<Rightarrow> status \<times> 'k UA_MessageContext" where
  "adjustCheckMessageLimitsSym bodyLength mc =
     (let mc1 = mc\<lparr>messageSizeSoFar := messageSizeSoFar mc + bodyLength,
                   chunksSoFar := chunksSoFar mc + 1\<rparr>;
          conf = config (mc_channel mc)
      in if messageSizeSoFar mc1 > unat (localMaxMessageSize conf) \<and> localMaxMessageSize conf \<noteq> 0
         then (UA_STATUSCODE_BADRESPONSETOOLARGE, mc1)
         else if unat (chunksSoFar mc1) > unat (localMaxChunkCount conf) \<and> localMaxChunkCount conf \<noteq> 0
         then (UA_STATUSCODE_BADRESPONSETOOLARGE, mc1)
         else (GOOD, mc1))"

text \<open>
  The headers, written at the start of the buffer; its usable part has \<open>bufEnd\<close> bytes. The pointer
  to a buffer that was sent or released before is NULL, which the encoder rejects (the callback gets
  there when the encoding goes on after a failed exchange).
\<close>

definition encodeHeadersSym ::
    "type_env \<Rightarrow> nat \<Rightarrow> nat \<Rightarrow> 'k UA_MessageContext \<Rightarrow> status \<times> bytes \<times> 'k UA_MessageContext" where
  "encodeHeadersSym env bufEnd totalLength mc =
     (let ch = mc_channel mc;
          messageTypeAndChunkType =
            mc_messageType mc + (if final mc then UA_CHUNKTYPE_FINAL else UA_CHUNKTYPE_INTERMEDIATE);
          seqNum = sendSequenceNumber ch + 1;
          (res, c) = enc_ors
            [encode_here env (two_words messageTypeAndChunkType (of_nat totalLength))
               UA_TRANSPORT_TCPMESSAGEHEADER,
             encode_here env (VU32 (channelId (securityToken ch))) UA_TYPES_UINT32,
             encode_here env (VU32 (tokenId (securityToken ch))) UA_TYPES_UINT32,
             encode_here env (two_words seqNum (mc_requestId mc)) UA_TRANSPORT_SEQUENCEHEADER]
            (buffer_start bufEnd)
      in (if mc_bufferLength mc = 0 then UA_STATUSCODE_BADINVALIDARGUMENT else res, enc_out c,
          mc\<lparr>mc_channel := ch\<lparr>sendSequenceNumber := seqNum\<rparr>\<rparr>))"

text \<open>\<open>buf\<close> is the chunk up to the signature; \<open>totalLength\<close> includes the signature.\<close>

definition signAndEncryptSym ::
    "'k UA_SecureChannel \<Rightarrow> bytes \<Rightarrow> nat \<Rightarrow> status \<times> bytes" where
  "signAndEncryptSym ch buf totalLength =
     (if securityMode ch = SECURITYMODE_NONE then (GOOD, buf)
      else
        (let cm = sym_module ch; cc = channelContext ch;
             (res, signature) = sign (signatureAlgorithm cm) cc buf
               (getLocalSignatureSize (signatureAlgorithm cm) cc)
         in if res \<noteq> GOOD then (res, buf)
            else
              (let signed = buf @ signature
               in if securityMode ch \<noteq> SECURITYMODE_SIGNANDENCRYPT then (GOOD, signed)
                  else
                    (let data = take (totalLength - SYM_UNENCRYPTEDLENGTH)
                           (drop SYM_UNENCRYPTEDLENGTH signed);
                         (r, cipher) = encrypt (encryptionAlgorithm cm) cc data
                     in (r, take SYM_UNENCRYPTEDLENGTH signed @ overwrite data cipher)))))"

text \<open>
  \<^verbatim>\<open>UA_assert(total_length <= channel->config.sendBufferSize)\<close> is a theorem of \<open>Channel_EndToEnd\<close>,
  not a branch.
\<close>

definition sendSymmetricChunk ::
    "type_env \<Rightarrow> 'k UA_MessageContext \<Rightarrow> status \<times> 'k UA_MessageContext" where
  "sendSymmetricChunk env mc =
     (if \<not> has_connection (mc_channel mc) then (UA_STATUSCODE_BADINTERNALERROR, mc)
      else
        (let bodyLength = length (mc_body mc);
             (res, mc1) = adjustCheckMessageLimitsSym bodyLength mc
         in if res \<noteq> GOOD then (res, mc_release mc1)
            else
              (let ch = mc_channel mc1; cm = sym_module ch; cc = channelContext ch;
                   bufEnd = SYM_TOTALLENGTH + bodyLength + mc_room mc;
                   body = mc_body mc @
                     (if securityMode ch = SECURITYMODE_SIGNANDENCRYPT
                      then padChunk cm cc (SEQUENCEHEADER_LENGTH + bodyLength) else []);
                   pre_sig_length = SYM_TOTALLENGTH + length body;
                   total_length = pre_sig_length +
                     (if signs ch then getLocalSignatureSize (signatureAlgorithm cm) cc else 0);
                   (res, hdr, mc2) = encodeHeadersSym env bufEnd total_length mc1
               in if res \<noteq> GOOD then (res, mc_release mc2)
                  else
                    (let (res, msg) = signAndEncryptSym (mc_channel mc2) (hdr @ body) total_length
                     in if res \<noteq> GOOD then (res, mc_release mc2)
                        else
                          (let (r, conn) = send_buffer msg (connection (mc_channel mc2))
                           in (r, mc2\<lparr>mc_channel := (mc_channel mc2)\<lparr>connection := conn\<rparr>,
                                      mc_bufferLength := 0\<rparr>))))))"

text \<open>\<^verbatim>\<open>connection->getSendBuffer\<close> into the buffer of the context.\<close>

definition mc_getSendBuffer :: "'k UA_MessageContext \<Rightarrow> status \<times> 'k UA_MessageContext" where
  "mc_getSendBuffer mc =
     (let ch = mc_channel mc;
          (r, n, conn) = getSendBuffer (unat (sendBufferSize (config ch))) (connection ch)
      in (r, mc\<lparr>mc_channel := ch\<lparr>connection := conn\<rparr>,
                mc_bufferLength := (if r = GOOD then n else mc_bufferLength mc)\<rparr>))"

text \<open>
  The exchange callback of the encoder; its handle is the message context. Between two exchanges the
  encoder leaves \<^verbatim>\<open>buf_end\<close> alone, so the room behind \<open>buf\<close> is what is left of the body area that
  \<open>setBufPos\<close> has set up.
\<close>

definition sendSymmetricEncodingCallback ::
    "type_env \<Rightarrow> 'k UA_MessageContext exchange" where
  "sendSymmetricEncodingCallback env mc buf =
     (let mc1 = mc\<lparr>mc_body := buf,
                   mc_room := length (mc_body mc) + mc_room mc - length buf\<rparr>;
          (res, mc2) = sendSymmetricChunk env mc1
      in if res \<noteq> GOOD then (res, mc2, 0)
         else if \<not> has_connection (mc_channel mc2) then (UA_STATUSCODE_BADINTERNALERROR, mc2, 0)
         else
           (let (res, mc3) = mc_getSendBuffer mc2
            in if res \<noteq> GOOD then (res, mc3, 0)
               else (let mc4 = setBufPos mc3 in (GOOD, mc4, mc_room mc4))))"

section \<open>Messages\<close>

text \<open>\<open>UA_MessageContext_begin\<close> returns the context; only its channel is used when it fails.\<close>

definition UA_MessageContext_begin ::
    "u32 \<Rightarrow> u32 \<Rightarrow> 'k UA_SecureChannel \<Rightarrow> status \<times> 'k UA_MessageContext" where
  "UA_MessageContext_begin reqId mtype ch =
     (let mc = \<lparr>mc_channel = ch, mc_requestId = reqId, mc_messageType = mtype, chunksSoFar = 0,
               messageSizeSoFar = 0, mc_bufferLength = 0, mc_body = [], mc_room = 0, final = False\<rparr>
      in if mtype \<noteq> UA_MESSAGETYPE_MSG \<and> mtype \<noteq> UA_MESSAGETYPE_CLO
         then (UA_STATUSCODE_BADINTERNALERROR, mc)
         else if \<not> has_connection ch then (UA_STATUSCODE_BADINTERNALERROR, mc)
         else
           (let (res, mc1) = mc_getSendBuffer mc
            in if res \<noteq> GOOD then (res, mc1) else (GOOD, setBufPos mc1)))"

definition UA_MessageContext_abort :: "'k UA_MessageContext \<Rightarrow> 'k UA_MessageContext" where
  "UA_MessageContext_abort mc = mc_release mc"

definition UA_MessageContext_encode ::
    "type_env \<Rightarrow> ua_val \<Rightarrow> tyref \<Rightarrow> 'k UA_MessageContext \<Rightarrow> status \<times> 'k UA_MessageContext" where
  "UA_MessageContext_encode env content ty mc =
     (let (res, c) = UA_encodeBinaryInternal env content ty (mc_body mc) (mc_room mc)
            (Some (sendSymmetricEncodingCallback env)) mc;
          mc1 = (enc_handle c)\<lparr>mc_body := enc_out c, mc_room := enc_room c\<rparr>
      in (res, if res \<noteq> GOOD \<and> 0 < mc_bufferLength mc1 then UA_MessageContext_abort mc1 else mc1))"

definition UA_MessageContext_finish ::
    "type_env \<Rightarrow> 'k UA_MessageContext \<Rightarrow> status \<times> 'k UA_MessageContext" where
  "UA_MessageContext_finish env mc = sendSymmetricChunk env (mc\<lparr>final := True\<rparr>)"

text \<open>The payload and its type are given (the NULL checks of the arguments have passed).\<close>

definition UA_SecureChannel_sendSymmetricMessage ::
    "type_env \<Rightarrow> u32 \<Rightarrow> u32 \<Rightarrow> ua_val \<Rightarrow> tyref \<Rightarrow> 'k UA_SecureChannel \<Rightarrow>
     status \<times> 'k UA_SecureChannel" where
  "UA_SecureChannel_sendSymmetricMessage env reqId mtype payload payloadType ch =
     (if \<not> has_connection ch then (UA_STATUSCODE_BADINTERNALERROR, ch)
      else if state ch \<noteq> SECURECHANNELSTATE_OPEN then (UA_STATUSCODE_BADCONNECTIONCLOSED, ch)
      else if conn_state (connection ch) \<noteq> CONNECTIONSTATE_ESTABLISHED
      then (UA_STATUSCODE_BADCONNECTIONCLOSED, ch)
      else
        (let (res, mc) = UA_MessageContext_begin reqId mtype ch
         in if res \<noteq> GOOD then (res, mc_channel mc)
            else
              (let (res, mc1) = UA_MessageContext_encode env
                     (VNodeId (binaryEncodingId (ty_at env payloadType))) UA_TYPES_NODEID mc
               in if res \<noteq> GOOD then (res, mc_channel mc1)
                  else
                    (let (res, mc2) = UA_MessageContext_encode env payload payloadType mc1
                     in if res \<noteq> GOOD then (res, mc_channel mc2)
                        else (let (res, mc3) = UA_MessageContext_finish env mc2
                              in (res, mc_channel mc3))))))"

text \<open>
  The OPN message: the content is encoded first, into the part of the buffer that \<open>hideBytesAsym\<close>
  leaves, then the headers in front of it.
\<close>

definition UA_SecureChannel_sendAsymmetricOPNMessage ::
    "type_env \<Rightarrow> u32 \<Rightarrow> ua_val \<Rightarrow> tyref \<Rightarrow> 'k UA_SecureChannel \<Rightarrow> status \<times> 'k UA_SecureChannel" where
  "UA_SecureChannel_sendAsymmetricOPNMessage env reqId content contentType ch =
     (if securityMode ch = SECURITYMODE_INVALID then (UA_STATUSCODE_BADSECURITYMODEREJECTED, ch)
      else
        (case securityPolicy ch of
           None \<Rightarrow> (UA_STATUSCODE_BADINTERNALERROR, ch)
         | Some sp \<Rightarrow>
             if \<not> has_connection ch then (UA_STATUSCODE_BADINTERNALERROR, ch)
             else
               (let (res, len, conn) = getSendBuffer (unat (sendBufferSize (config ch))) (connection ch);
                    ch1 = ch\<lparr>connection := conn\<rparr>;
                    release = (\<lambda>ch. ch\<lparr>connection := releaseSendBuffer (connection ch)\<rparr>)
                in if res \<noteq> GOOD then (res, ch1)
                   else
                     (let (buf_start, buf_end) = hideBytesAsym ch1 len;
                          (res, c) = enc_ors
                            [encode_here env (VNodeId (binaryEncodingId (ty_at env contentType)))
                               UA_TYPES_NODEID,
                             encode_here env content contentType] (buffer_start (buf_end - buf_start))
                      in if res \<noteq> GOOD then (res, release ch1)
                         else
                           (let securityHeaderLength = calculateAsymAlgSecurityHeaderLength ch1;
                                cm = asymmetricModule sp;
                                body = enc_out c @
                                  (if securityMode ch1 \<noteq> SECURITYMODE_NONE
                                   then padChunk cm (channelContext ch1)
                                          (SEQUENCEHEADER_LENGTH + length (enc_out c)) else []);
                                pre_sig_length = buf_start + length body;
                                total_length = pre_sig_length +
                                  (if signs ch1 then getLocalSignatureSize (signatureAlgorithm cm)
                                                       (channelContext ch1) else 0);
                                (res, hdr, encryptedLength, ch2) =
                                  prependHeadersAsym env ch1 buf_end total_length
                                    securityHeaderLength reqId
                            in if res \<noteq> GOOD then (res, release ch2)
                               else
                                 (let (res, msg) = signAndEncryptAsym ch2 (hdr @ body)
                                        securityHeaderLength
                                  in if res \<noteq> GOOD then (res, release ch2)
                                     else
                                       (let (r, conn') = send_buffer (take encryptedLength msg)
                                              (connection ch2)
                                        in (r, ch2\<lparr>connection := conn'\<rparr>))))))))"

end
