(* ===== verification/Channel_Chunk.thy ===== *)
theory Channel_Chunk
  imports Channel_Send
begin

text \<open>
  One symmetric chunk: the layout of its headers, the padding and its removal, and what the receiver
  gets out of a chunk that \<open>sendSymmetricChunk\<close> has sent.
\<close>

section \<open>Headers\<close>

lemma encode_here_fits:
  assumes "builtin_env env" "wf_val env ty v" "nest v \<le> 101" "length (wire env ty v) \<le> UA_INT32_MAX"
    and "length (wire env ty v) \<le> room"
  shows "encode_here env v ty
      \<lparr>enc_out = out, enc_room = room, enc_depth = 0, enc_cb = None, enc_handle = ()\<rparr> =
    (GOOD, \<lparr>enc_out = out @ wire env ty v, enc_room = room - length (wire env ty v), enc_depth = 0,
            enc_cb = None, enc_handle = ()\<rparr>)"
  using UA_encodeBinaryInternal_fits [OF assms(1-3) assms(5,4)] by (simp add: encode_here_def)

lemma kind_of_number: "kind_number k = kind_number k' \<Longrightarrow> k = k'"
  by (cases k; cases k'; simp)

lemma transport_kind_6: "transport_env env \<Longrightarrow> kind_at env 6 = DK_UINT32"
  by (rule kind_of_number) (simp add: transport_env_def builtin_env_def)

lemma transport_kind_14: "transport_env env \<Longrightarrow> kind_at env 14 = DK_BYTESTRING"
  by (rule kind_of_number) (simp add: transport_env_def builtin_env_def)

lemma two_words_wire:
  assumes "kind_at env ty = DK_STRUCTURE" "members (ty_at env ty) = [plain_member 6, plain_member 6]"
  shows "wire env ty (two_words a b) = UA_encode32 a @ UA_encode32 b"
  using assms by (simp add: two_words_def plain_member_def)

lemma two_words_wf:
  assumes "transport_env env" "kind_at env ty = DK_STRUCTURE"
    "members (ty_at env ty) = [plain_member 6, plain_member 6]"
  shows "wf_val env ty (two_words a b)" "nest (two_words a b) \<le> 101"
  using assms transport_kind_6 [OF assms(1)]
  by (auto simp: two_words_def plain_member_def kind32_def)

lemma length_encode32 [simp]: "length (UA_encode32 w) = 4"
  by (simp add: UA_encode32_def)

lemma two_words_encode_here:
  assumes "transport_env env" "kind_at env ty = DK_STRUCTURE"
    "members (ty_at env ty) = [plain_member 6, plain_member 6]" "8 \<le> room"
  shows "encode_here env (two_words a b) ty
      \<lparr>enc_out = out, enc_room = room, enc_depth = 0, enc_cb = None, enc_handle = ()\<rparr> =
    (GOOD, \<lparr>enc_out = out @ UA_encode32 a @ UA_encode32 b, enc_room = room - 8, enc_depth = 0,
            enc_cb = None, enc_handle = ()\<rparr>)"
  using encode_here_fits [OF _ two_words_wf [OF assms(1-3)], of a b room out] assms
  by (simp add: two_words_wire transport_env_def UA_INT32_MAX_def)

lemma word_encode_here:
  assumes "transport_env env" "4 \<le> room"
  shows "encode_here env (VU32 a) 6
      \<lparr>enc_out = out, enc_room = room, enc_depth = 0, enc_cb = None, enc_handle = ()\<rparr> =
    (GOOD, \<lparr>enc_out = out @ UA_encode32 a, enc_room = room - 4, enc_depth = 0,
            enc_cb = None, enc_handle = ()\<rparr>)"
  using encode_here_fits [of env 6 "VU32 a" room out] assms transport_kind_6 [OF assms(1)]
  by (simp add: transport_env_def UA_INT32_MAX_def kind32_def)

text \<open>The 24 bytes in front of the body of a symmetric chunk.\<close>

definition sym_header :: "u32 \<Rightarrow> nat \<Rightarrow> u32 \<Rightarrow> u32 \<Rightarrow> u32 \<Rightarrow> u32 \<Rightarrow> bytes" where
  "sym_header typ len chan tok seqn req =
     UA_encode32 typ @ UA_encode32 (of_nat len) @ UA_encode32 chan @ UA_encode32 tok @
     UA_encode32 seqn @ UA_encode32 req"

lemma length_sym_header [simp]: "length (sym_header typ len chan tok seqn req) = 24"
  by (simp add: sym_header_def)

definition chunk_type_of :: "'k UA_MessageContext \<Rightarrow> u32" where
  "chunk_type_of mc = (if final mc then UA_CHUNKTYPE_FINAL else UA_CHUNKTYPE_INTERMEDIATE)"

definition header_of :: "'k UA_MessageContext \<Rightarrow> nat \<Rightarrow> bytes" where
  "header_of mc len =
     sym_header (mc_messageType mc + chunk_type_of mc) len
       (channelId (securityToken (mc_channel mc))) (tokenId (securityToken (mc_channel mc)))
       (sendSequenceNumber (mc_channel mc) + 1) (mc_requestId mc)"

lemma encodeHeadersSym_eq:
  assumes env: "transport_env env" and "24 \<le> bufEnd" and buf: "0 < mc_bufferLength mc"
  shows "encodeHeadersSym env bufEnd len mc =
    (GOOD, header_of mc len,
     mc\<lparr>mc_channel := (mc_channel mc)\<lparr>sendSequenceNumber := sendSequenceNumber (mc_channel mc) + 1\<rparr>\<rparr>)"
proof -
  note t = env [unfolded transport_env_def]
  have k: "8 \<le> bufEnd" "4 \<le> bufEnd - 8" "4 \<le> bufEnd - 8 - 4" "8 \<le> bufEnd - 8 - 4 - 4"
    using assms(2) by auto
  show ?thesis
    unfolding encodeHeadersSym_def Let_def buffer_start_def enc_ors.simps prod.case
    using t k buf
    by (simp add: two_words_encode_here [OF env] word_encode_here [OF env] header_of_def sym_header_def
        chunk_type_of_def)
qed

section \<open>Padding\<close>

definition block_size :: "'k UA_SecurityPolicyCryptoModule \<Rightarrow> 'k option \<Rightarrow> nat" where
  "block_size cm cc = getRemotePlainTextBlockSize (encryptionAlgorithm cm) cc"

definition sig_size :: "'k UA_SecurityPolicyCryptoModule \<Rightarrow> 'k option \<Rightarrow> nat" where
  "sig_size cm cc = getLocalSignatureSize (signatureAlgorithm cm) cc"

definition extra_padding :: "'k UA_SecurityPolicyCryptoModule \<Rightarrow> 'k option \<Rightarrow> bool" where
  "extra_padding cm cc = (getRemoteKeyLength (encryptionAlgorithm cm) cc > 2048)"

definition size_bytes :: "'k UA_SecurityPolicyCryptoModule \<Rightarrow> 'k option \<Rightarrow> nat" where
  "size_bytes cm cc = (if extra_padding cm cc then 2 else 1)"

text \<open>What is missing to the next multiple of \<open>b\<close>.\<close>

definition fill_up :: "nat \<Rightarrow> nat \<Rightarrow> nat" where
  "fill_up b x = (if x mod b \<noteq> 0 then b - x mod b else 0)"

lemma fill_up_less: "0 < b \<Longrightarrow> fill_up b x < b"
  by (simp add: fill_up_def)

lemma fill_up_mult:
  assumes "0 < b"
  obtains k where "x + fill_up b x = b * k"
proof -
  define q r where "q = x div b" and "r = x mod b"
  have "x = b * q + r" "r < b" using assms by (simp_all add: q_def r_def)
  then have "x + fill_up b x = b * (if r \<noteq> 0 then Suc q else q)"
    by (simp add: fill_up_def r_def [symmetric])
  then show thesis by (rule that)
qed

lemma fill_up_mod: "0 < b \<Longrightarrow> (x + fill_up b x) mod b = 0"
  by (metis fill_up_mult mod_mult_self1_is_0)

lemma fill_up_le:
  assumes b: "0 < b" and "x \<le> y" "y mod b = 0"
  shows "x + fill_up b x \<le> y"
proof -
  obtain k where k: "x + fill_up b x = b * k" using fill_up_mult [OF b] .
  obtain q where y: "y = b * q" using \<open>y mod b = 0\<close> by (metis mod_0_imp_dvd dvdE)
  have "b * k < b * q + b" using k fill_up_less [OF b, of x] \<open>x \<le> y\<close> y by simp
  then have "b * k < b * Suc q" by simp
  then have "k < Suc q" by (simp only: mult_less_cancel1)
  then have "k \<le> q" by simp
  then show ?thesis using k y by simp
qed

definition padding_fill :: "'k UA_SecurityPolicyCryptoModule \<Rightarrow> 'k option \<Rightarrow> nat \<Rightarrow> nat" where
  "padding_fill cm cc n = fill_up (block_size cm cc) (n + sig_size cm cc + size_bytes cm cc)"

lemma padChunk_eq:
  "padChunk cm cc n =
     replicate (padding_fill cm cc n) (of_nat (padding_fill cm cc n)) @ [of_nat (padding_fill cm cc n)] @
     (if extra_padding cm cc then [of_nat (padding_fill cm cc n div 256)] else [])"
  by (simp add: padChunk_def padding_fill_def fill_up_def Let_def block_size_def sig_size_def
      extra_padding_def size_bytes_def replicate_append_same)

lemma length_padChunk: "length (padChunk cm cc n) = padding_fill cm cc n + size_bytes cm cc"
  by (simp add: padChunk_eq size_bytes_def)

lemma padding_fill_less: "0 < block_size cm cc \<Longrightarrow> padding_fill cm cc n < block_size cm cc"
  by (simp add: padding_fill_def fill_up_less)

text \<open>The padding fills the last block: body, padding and signature are whole blocks.\<close>

lemma padChunk_blocks:
  assumes "0 < block_size cm cc"
  shows "(n + length (padChunk cm cc n) + sig_size cm cc) mod block_size cm cc = 0"
  using fill_up_mod [OF assms, of "n + sig_size cm cc + size_bytes cm cc"]
  by (simp add: length_padChunk padding_fill_def ac_simps)

definition padding_ok :: "'k UA_SecurityPolicyCryptoModule \<Rightarrow> 'k option \<Rightarrow> bool" where
  "padding_ok cm cc =
     (0 < block_size cm cc \<and> block_size cm cc \<le> (if extra_padding cm cc then 65536 else 256))"

lemma unat_of_nat_u8: "unat (of_nat n :: u8) = n mod 256"
  by (simp add: unat_of_nat)

lemma decodePadding_padChunk:
  assumes ok: "padding_ok cm cc"
    and key: "(getLocalKeyLength (encryptionAlgorithm cm') cc' > 2048) = extra_padding cm cc"
  shows "decodePadding cm' cc' (pre @ padChunk cm cc n @ sg) (length sg) = length (padChunk cm cc n)"
proof -
  let ?f = "padding_fill cm cc n"
  have f: "?f < block_size cm cc" using ok by (simp add: padding_ok_def padding_fill_less)
  show ?thesis
  proof (cases "extra_padding cm cc")
    case True
    have "(pre @ padChunk cm cc n @ sg) ! (length pre + ?f + 1) = of_nat (?f div 256)"
      using True by (simp add: padChunk_eq nth_append)
    moreover have "(pre @ padChunk cm cc n @ sg) ! (length pre + ?f) = of_nat ?f"
      using True by (simp add: padChunk_eq nth_append)
    moreover have "?f div 256 mod 256 = ?f div 256" "?f mod 256 + ?f div 256 * 256 = ?f"
      using f True ok by (auto simp: padding_ok_def)
    ultimately show ?thesis
      using True key by (simp add: decodePadding_def length_padChunk size_bytes_def unat_of_nat_u8)
  next
    case False
    have "(pre @ padChunk cm cc n @ sg) ! (length pre + ?f) = of_nat ?f"
      using False by (simp add: padChunk_eq nth_append)
    moreover have "?f < 256" using f ok False by (simp add: padding_ok_def)
    ultimately show ?thesis
      using False key by (simp add: decodePadding_def length_padChunk size_bytes_def unat_of_nat_u8)
  qed
qed

section \<open>The contract between the two ends\<close>

text \<open>
  What the plugins promise when the keys of the two ends match: the sizes agree, a signature of the
  announced size verifies, encryption keeps the length of whole blocks and decryption undoes it, and
  the padding length fits into its size bytes. \<open>cm\<close>, \<open>cc\<close> belong to the sender, \<open>cm'\<close>, \<open>cc'\<close> to the
  receiver.
\<close>

definition signature_pair ::
    "'k UA_SecurityPolicyCryptoModule \<Rightarrow> 'k option \<Rightarrow> 'l UA_SecurityPolicyCryptoModule \<Rightarrow>
     'l option \<Rightarrow> bool" where
  "signature_pair cm cc cm' cc' =
     (getRemoteSignatureSize (signatureAlgorithm cm') cc' = sig_size cm cc \<and>
      (\<forall>m sg. sign (signatureAlgorithm cm) cc m (sig_size cm cc) = (GOOD, sg) \<longrightarrow>
         length sg = sig_size cm cc \<and> verify (signatureAlgorithm cm') cc' m sg = GOOD))"

definition encryption_pair ::
    "'k UA_SecurityPolicyCryptoModule \<Rightarrow> 'k option \<Rightarrow> 'l UA_SecurityPolicyCryptoModule \<Rightarrow>
     'l option \<Rightarrow> bool" where
  "encryption_pair cm cc cm' cc' =
     (padding_ok cm cc \<and>
      (getLocalKeyLength (encryptionAlgorithm cm') cc' > 2048) = extra_padding cm cc \<and>
      (\<forall>d e. length d mod block_size cm cc = 0 \<longrightarrow> encrypt (encryptionAlgorithm cm) cc d = (GOOD, e) \<longrightarrow>
         length e = length d \<and> decrypt (encryptionAlgorithm cm') cc' e = (GOOD, d)))"

lemma encryption_pairD:
  "encryption_pair cm cc cm' cc' \<Longrightarrow> length d mod block_size cm cc = 0 \<Longrightarrow>
   encrypt (encryptionAlgorithm cm) cc d = (GOOD, e) \<Longrightarrow>
   length e = length d \<and> decrypt (encryptionAlgorithm cm') cc' e = (GOOD, d)"
  unfolding encryption_pair_def
  by (elim conjE, drule spec [of _ d], drule spec [of _ e], drule (1) mp, drule (1) mp)

definition crypto_pair ::
    "UA_MessageSecurityMode \<Rightarrow> 'k UA_SecurityPolicyCryptoModule \<Rightarrow> 'k option \<Rightarrow>
     'l UA_SecurityPolicyCryptoModule \<Rightarrow> 'l option \<Rightarrow> bool" where
  "crypto_pair mode cm cc cm' cc' =
     (case mode of
        SECURITYMODE_INVALID \<Rightarrow> False
      | SECURITYMODE_NONE \<Rightarrow> True
      | SECURITYMODE_SIGN \<Rightarrow> signature_pair cm cc cm' cc'
      | SECURITYMODE_SIGNANDENCRYPT \<Rightarrow> signature_pair cm cc cm' cc' \<and> encryption_pair cm cc cm' cc')"

section \<open>One chunk\<close>

text \<open>What follows the body in a chunk: the padding, and the size of the signature.\<close>

definition chunk_padding :: "'k UA_SecureChannel \<Rightarrow> nat \<Rightarrow> bytes" where
  "chunk_padding ch n =
     (if securityMode ch = SECURITYMODE_SIGNANDENCRYPT
      then padChunk (sym_module ch) (channelContext ch) (8 + n) else [])"

definition chunk_sig_size :: "'k UA_SecureChannel \<Rightarrow> nat" where
  "chunk_sig_size ch = (if signs ch then sig_size (sym_module ch) (channelContext ch) else 0)"

definition chunk_total :: "'k UA_SecureChannel \<Rightarrow> nat \<Rightarrow> nat" where
  "chunk_total ch n = 24 + n + length (chunk_padding ch n) + chunk_sig_size ch"

text \<open>
  What the receiver finds in a chunk, without the checks: decrypt, cut off the signature, the padding
  and the headers.
\<close>

definition chunk_body ::
    "UA_MessageSecurityMode \<Rightarrow> 'l UA_SecurityPolicyCryptoModule \<Rightarrow> 'l option \<Rightarrow> bytes \<Rightarrow> bytes" where
  "chunk_body mode cm' cc' msg =
     (let plain = (if mode = SECURITYMODE_SIGNANDENCRYPT
                   then take 16 msg @ snd (decrypt (encryptionAlgorithm cm') cc' (drop 16 msg))
                   else msg);
          sigsize = (if mode = SECURITYMODE_NONE then 0
                     else getRemoteSignatureSize (signatureAlgorithm cm') cc');
          padSize = (if mode = SECURITYMODE_SIGNANDENCRYPT then decodePadding cm' cc' plain sigsize
                     else 0)
      in drop 24 (take (length plain - (sigsize + padSize)) plain))"

lemma verifyChunk_signed:
  assumes pair: "signature_pair cm cc cm' cc'"
    and sg: "sign (signatureAlgorithm cm) cc (hdr @ body @ pad) (sig_size cm cc) = (GOOD, sg)"
    and hdr: "length hdr = 24" and mode: "mode = SECURITYMODE_SIGN \<or> mode = SECURITYMODE_SIGNANDENCRYPT"
    and mt: "mtype \<noteq> UA_MESSAGETYPE_OPN"
    and pad: "(if mode = SECURITYMODE_SIGNANDENCRYPT
       then decodePadding cm' cc' (hdr @ body @ pad @ sg) (sig_size cm cc) else 0) = length pad"
  shows "verifyChunk mode cc' cm' mtype (hdr @ body @ pad @ sg) 16 =
    (if 2 \<le> length body then (GOOD, hdr @ body)
     else (UA_STATUSCODE_BADSECURITYCHECKSFAILED, hdr @ body @ pad @ sg))"
proof -
  have s: "getRemoteSignatureSize (signatureAlgorithm cm') cc' = sig_size cm cc" "length sg = sig_size cm cc"
    "verify (signatureAlgorithm cm') cc' (hdr @ body @ pad) sg = GOOD"
    using pair sg by (auto simp: signature_pair_def)
  have v: "verifySignature cm' cc' (hdr @ body @ pad @ sg) (sig_size cm cc) = GOOD"
    using s(2,3) hdr unfolding verifySignature_def
    by (simp flip: append_assoc)
  have "length (hdr @ body @ pad @ sg) - (sig_size cm cc + length pad) = length hdr + length body"
    using s(2) by simp
  then have t: "take (length (hdr @ body @ pad @ sg) - (sig_size cm cc + length pad)) (hdr @ body @ pad @ sg) =
      hdr @ body" by (simp only: take_append) simp
  have p: "(if mode = SECURITYMODE_SIGNANDENCRYPT \<or> mtype = UA_MESSAGETYPE_OPN \<and>
      0 < length (encryption_uri (encryptionAlgorithm cm')) then
      decodePadding cm' cc' (hdr @ body @ pad @ sg) (sig_size cm cc) else 0) = length pad"
    using pad mt by simp
  have l: "(16 + length pad + sig_size cm cc + 9 < length (hdr @ body @ pad @ sg)) = (2 \<le> length body)"
    using s(2) hdr by auto
  show ?thesis
    unfolding verifyChunk_def Let_def s(1) v p t l using mode by auto
qed

text \<open>
  A signed or encrypted chunk opens to its headers and its body if the body has at least two bytes;
  with fewer the receiver rejects it.
\<close>

lemma chunk_opens:
  assumes pair: "crypto_pair (securityMode ch) (sym_module ch) (channelContext ch) cm' cc'"
    and hdr: "length hdr = 24" and mt: "mtype \<noteq> UA_MESSAGETYPE_OPN"
    and sent: "signAndEncryptSym ch (hdr @ body @ chunk_padding ch (length body))
      (chunk_total ch (length body)) = (GOOD, msg)"
    and r: "securityMode rch = securityMode ch" "channelContext rch = cc'"
  shows "length msg = chunk_total ch (length body)" and "take 16 msg = take 16 hdr"
    and "chunk_body (securityMode ch) cm' cc' msg = body"
    and "securityMode ch = SECURITYMODE_NONE \<or> 2 \<le> length body \<Longrightarrow>
      decryptAndVerifyChunk rch cm' mtype msg 16 = (GOOD, hdr @ body)"
    and "securityMode ch \<noteq> SECURITYMODE_NONE \<Longrightarrow> length body < 2 \<Longrightarrow>
      fst (decryptAndVerifyChunk rch cm' mtype msg 16) = UA_STATUSCODE_BADSECURITYCHECKSFAILED"
proof -
  let ?cm = "sym_module ch" and ?cc = "channelContext ch" and ?n = "length body"
  let ?pad = "chunk_padding ch ?n" and ?total = "chunk_total ch ?n"
  let ?P = "length msg = ?total \<and> take 16 msg = take 16 hdr \<and>
    chunk_body (securityMode ch) cm' cc' msg = body \<and>
    (securityMode ch = SECURITYMODE_NONE \<or> 2 \<le> ?n \<longrightarrow>
      decryptAndVerifyChunk rch cm' mtype msg 16 = (GOOD, hdr @ body)) \<and>
    (securityMode ch \<noteq> SECURITYMODE_NONE \<and> ?n < 2 \<longrightarrow>
      fst (decryptAndVerifyChunk rch cm' mtype msg 16) = UA_STATUSCODE_BADSECURITYCHECKSFAILED)"
  have ?P
  proof (cases "securityMode ch")
    case SECURITYMODE_INVALID
    then show ?thesis using pair by (simp add: crypto_pair_def)
  next
    case SECURITYMODE_NONE
    then have "msg = hdr @ body" using sent by (simp add: signAndEncryptSym_def chunk_padding_def)
    then show ?thesis
      using SECURITYMODE_NONE hdr mt r
      by (simp add: chunk_total_def chunk_padding_def chunk_sig_size_def signs_def chunk_body_def
          decryptAndVerifyChunk_def verifyChunk_def)
  next
    case SECURITYMODE_SIGN
    have sp: "signature_pair ?cm ?cc cm' cc'" using pair SECURITYMODE_SIGN by (simp add: crypto_pair_def)
    have pad: "?pad = []" using SECURITYMODE_SIGN by (simp add: chunk_padding_def)
    obtain sg where sg: "sign (signatureAlgorithm ?cm) ?cc (hdr @ body @ []) (sig_size ?cm ?cc) = (GOOD, sg)"
      and msg: "msg = hdr @ body @ sg"
      using sent SECURITYMODE_SIGN pad
      by (auto simp: signAndEncryptSym_def sig_size_def Let_def split: prod.splits if_splits)
    have l: "length sg = sig_size ?cm ?cc"
      "getRemoteSignatureSize (signatureAlgorithm cm') cc' = sig_size ?cm ?cc"
      using sp sg by (auto simp: signature_pair_def)
    have v: "verifyChunk SECURITYMODE_SIGN cc' cm' mtype msg 16 =
        (if 2 \<le> ?n then (GOOD, hdr @ body) else (UA_STATUSCODE_BADSECURITYCHECKSFAILED, msg))"
      using verifyChunk_signed [OF sp sg hdr _ mt, of SECURITYMODE_SIGN] msg by simp
    have "decryptAndVerifyChunk rch cm' mtype msg 16 = verifyChunk SECURITYMODE_SIGN cc' cm' mtype msg 16"
      using r mt SECURITYMODE_SIGN by (simp add: decryptAndVerifyChunk_def)
    moreover have "length msg = ?total" "take 16 msg = take 16 hdr"
      using msg l hdr pad SECURITYMODE_SIGN by (simp_all add: chunk_total_def chunk_sig_size_def signs_def)
    moreover have "chunk_body SECURITYMODE_SIGN cm' cc' msg = body"
      using msg l hdr by (simp add: chunk_body_def)
    ultimately show ?thesis using v SECURITYMODE_SIGN by auto
  next
    case SECURITYMODE_SIGNANDENCRYPT
    note mode = this
    have sp: "signature_pair ?cm ?cc cm' cc'" and ep: "encryption_pair ?cm ?cc cm' cc'"
      using pair mode by (simp_all add: crypto_pair_def)
    have ok: "padding_ok ?cm ?cc"
      and key: "(getLocalKeyLength (encryptionAlgorithm cm') cc' > 2048) = extra_padding ?cm ?cc"
      using ep unfolding encryption_pair_def by blast+
    have bs: "0 < block_size ?cm ?cc" using ok by (simp add: padding_ok_def)
    have pad: "?pad = padChunk ?cm ?cc (8 + ?n)" using mode by (simp add: chunk_padding_def)
    obtain sg where sg: "sign (signatureAlgorithm ?cm) ?cc (hdr @ body @ ?pad) (sig_size ?cm ?cc) = (GOOD, sg)"
      using sent mode
      by (auto simp: signAndEncryptSym_def sig_size_def Let_def split: prod.splits if_splits)
    have l: "length sg = sig_size ?cm ?cc"
      "getRemoteSignatureSize (signatureAlgorithm cm') cc' = sig_size ?cm ?cc"
      using sp sg by (auto simp: signature_pair_def)
    let ?signed = "hdr @ body @ ?pad @ sg"
    have total: "length ?signed = ?total"
      using hdr l mode by (simp add: chunk_total_def chunk_sig_size_def signs_def)
    have data: "take (?total - 16) (drop 16 ?signed) = drop 16 ?signed"
      using total by simp
    obtain r1 e where e': "encrypt (encryptionAlgorithm ?cm) ?cc (drop 16 ?signed) = (r1, e)"
      by fastforce
    have "signAndEncryptSym ch (hdr @ body @ ?pad) ?total =
        (r1, take 16 ?signed @ overwrite (drop 16 ?signed) e)"
      by (simp only: signAndEncryptSym_def mode sg [unfolded sig_size_def] Let_def prod.case append_assoc
          data e' UA_MessageSecurityMode.distinct if_False not_False_eq_True simp_thms)
    then have e: "encrypt (encryptionAlgorithm ?cm) ?cc (drop 16 ?signed) = (GOOD, e)"
      and msg: "msg = take 16 ?signed @ overwrite (drop 16 ?signed) e"
      using sent e' by simp_all
    have ln: "length (drop 16 ?signed) = 8 + ?n + length ?pad + sig_size ?cm ?cc"
      using hdr l by simp
    have "length (drop 16 ?signed) mod block_size ?cm ?cc = 0"
      unfolding ln by (unfold pad, rule padChunk_blocks [OF bs])
    note ed = encryption_pairD [OF ep this e]
    have le: "length e = length (drop 16 ?signed)"
      and d: "decrypt (encryptionAlgorithm cm') cc' e = (GOOD, drop 16 ?signed)"
      using ed by blast+
    have msg': "msg = take 16 hdr @ e" using msg le hdr by (simp add: overwrite_def)
    have th: "take 16 hdr @ drop 16 hdr @ xs = hdr @ xs" for xs
      by (metis append.assoc append_take_drop_id)
    have open': "take 16 msg @ drop 16 ?signed = ?signed" using msg' hdr by (simp add: th)
    have dp: "decodePadding cm' cc' ?signed (sig_size ?cm ?cc) = length ?pad"
      using decodePadding_padChunk [OF ok key, of "hdr @ body" "8 + ?n" sg] l(1) pad by simp
    have v: "verifyChunk SECURITYMODE_SIGNANDENCRYPT cc' cm' mtype ?signed 16 =
        (if 2 \<le> ?n then (GOOD, hdr @ body) else (UA_STATUSCODE_BADSECURITYCHECKSFAILED, ?signed))"
      by (rule verifyChunk_signed [OF sp sg hdr _ mt]) (simp_all add: dp)
    have dec: "decryptAndVerifyChunk rch cm' mtype msg 16 =
        verifyChunk SECURITYMODE_SIGNANDENCRYPT cc' cm' mtype ?signed 16"
      using mode r d msg' hdr by (simp add: decryptAndVerifyChunk_def th)
    have body: "chunk_body SECURITYMODE_SIGNANDENCRYPT cm' cc' msg = body"
    proof -
      have "take 16 msg @ snd (decrypt (encryptionAlgorithm cm') cc' (drop 16 msg)) = ?signed"
        using d msg' hdr by (simp add: th)
      then show ?thesis
        using dp l(2) hdr unfolding chunk_body_def Let_def by (simp add: l(1))
    qed
    show ?thesis
      using dec v body mode total le msg' hdr by auto
  qed
  then show "length msg = ?total" and "take 16 msg = take 16 hdr"
    and "chunk_body (securityMode ch) cm' cc' msg = body"
    and "securityMode ch = SECURITYMODE_NONE \<or> 2 \<le> ?n \<Longrightarrow>
      decryptAndVerifyChunk rch cm' mtype msg 16 = (GOOD, hdr @ body)"
    and "securityMode ch \<noteq> SECURITYMODE_NONE \<Longrightarrow> ?n < 2 \<Longrightarrow>
      fst (decryptAndVerifyChunk rch cm' mtype msg 16) = UA_STATUSCODE_BADSECURITYCHECKSFAILED"
    by blast+
qed

end
