(* ===== verification/Channel_Stream.thy ===== *)
theory Channel_Stream
  imports Channel_Chunk
begin

text \<open>
  Sending a symmetric message: \<open>sendSymmetricEncodingCallback\<close> meets the contract of the exchange
  callback of the encoder (\<open>exchange_buffer\<close>), so that the bodies of the chunks that a message is
  split into are, one after the other, the wire format of its content.
\<close>

section \<open>What sending a chunk does\<close>

lemma signAndEncryptSym_seq [simp]:
  "signAndEncryptSym (ch\<lparr>sendSequenceNumber := s\<rparr>) = signAndEncryptSym ch"
  by (intro ext) (simp add: signAndEncryptSym_def sym_module_def Let_def cong: if_cong)

lemma adjust_snd:
  "snd (adjustCheckMessageLimitsSym n mc) =
     mc\<lparr>messageSizeSoFar := messageSizeSoFar mc + n, chunksSoFar := chunksSoFar mc + 1\<rparr>"
  by (simp add: adjustCheckMessageLimitsSym_def Let_def)

lemma adjust_status:
  "fst (adjustCheckMessageLimitsSym n mc) = GOOD \<or>
   fst (adjustCheckMessageLimitsSym n mc) = UA_STATUSCODE_BADRESPONSETOOLARGE"
  by (simp add: adjustCheckMessageLimitsSym_def Let_def)

text \<open>The chunk of a context before signing.\<close>

definition plain_chunk :: "'k UA_MessageContext \<Rightarrow> bytes" where
  "plain_chunk mc =
     (let ch = mc_channel mc; n = length (mc_body mc)
      in header_of mc (chunk_total ch n) @ mc_body mc @ chunk_padding ch n)"

definition count_chunk :: "'k UA_MessageContext \<Rightarrow> 'k UA_MessageContext" where
  "count_chunk mc =
     mc\<lparr>messageSizeSoFar := messageSizeSoFar mc + length (mc_body mc), chunksSoFar := chunksSoFar mc + 1\<rparr>"

definition next_seq :: "'k UA_MessageContext \<Rightarrow> 'k UA_MessageContext" where
  "next_seq mc =
     mc\<lparr>mc_channel := (mc_channel mc)\<lparr>sendSequenceNumber := sendSequenceNumber (mc_channel mc) + 1\<rparr>\<rparr>"

lemma sendSymmetricChunk_eq:
  assumes env: "transport_env env" and conn: "has_connection (mc_channel mc)"
    and buf: "0 < mc_bufferLength mc"
  shows "sendSymmetricChunk env mc =
    (if fst (adjustCheckMessageLimitsSym (length (mc_body mc)) mc) \<noteq> GOOD
     then (UA_STATUSCODE_BADRESPONSETOOLARGE, mc_release (count_chunk mc))
     else (case signAndEncryptSym (mc_channel mc) (plain_chunk mc)
                  (chunk_total (mc_channel mc) (length (mc_body mc))) of (r, msg) \<Rightarrow>
       if r \<noteq> GOOD then (r, mc_release (next_seq (count_chunk mc)))
       else (case send_buffer msg (connection (mc_channel mc)) of (r', conn) \<Rightarrow>
         (r', (update_connection (\<lambda>_. conn) (next_seq (count_chunk mc)))\<lparr>mc_bufferLength := 0\<rparr>))))"
proof -
  obtain r mc1 where a: "adjustCheckMessageLimitsSym (length (mc_body mc)) mc = (r, mc1)" by fastforce
  have mc1: "mc1 = count_chunk mc"
    using adjust_snd [of "length (mc_body mc)" mc] a by (simp add: count_chunk_def)
  have h: "encodeHeadersSym env (24 + length (mc_body mc) + mc_room mc) len (count_chunk mc) =
      (GOOD, header_of mc len, next_seq (count_chunk mc))" for len
    by (subst encodeHeadersSym_eq [OF env])
      (use buf in \<open>simp_all add: next_seq_def count_chunk_def header_of_def chunk_type_of_def\<close>)
  have pad: "(if securityMode (mc_channel mc) = SECURITYMODE_SIGNANDENCRYPT
      then padChunk (sym_module (mc_channel mc)) (channelContext (mc_channel mc)) (8 + length (mc_body mc))
      else []) = chunk_padding (mc_channel mc) (length (mc_body mc))"
    by (simp add: chunk_padding_def)
  have sig: "(if signs (mc_channel mc) then getLocalSignatureSize (signatureAlgorithm
        (sym_module (mc_channel mc))) (channelContext (mc_channel mc)) else 0) =
      chunk_sig_size (mc_channel mc)"
    by (simp add: chunk_sig_size_def sig_size_def)
  have tot: "24 + length (mc_body mc @ chunk_padding (mc_channel mc) (length (mc_body mc))) +
      chunk_sig_size (mc_channel mc) = chunk_total (mc_channel mc) (length (mc_body mc))"
    by (simp add: chunk_total_def)
  have ch: "mc_channel (count_chunk mc) = mc_channel mc"
    "mc_channel (next_seq (count_chunk mc)) =
       (mc_channel mc)\<lparr>sendSequenceNumber := sendSequenceNumber (mc_channel mc) + 1\<rparr>"
    by (simp_all add: count_chunk_def next_seq_def)
  show ?thesis
  proof (cases "r = GOOD")
    case False
    then have "r = UA_STATUSCODE_BADRESPONSETOOLARGE"
      using adjust_status [of "length (mc_body mc)" mc] a by simp
    then show ?thesis using a conn mc1 by (simp add: sendSymmetricChunk_def)
  next
    case True
    obtain r1 msg where s: "signAndEncryptSym (mc_channel mc) (plain_chunk mc)
        (chunk_total (mc_channel mc) (length (mc_body mc))) = (r1, msg)" by fastforce
    note s' = s [unfolded plain_chunk_def Let_def]
    obtain r2 cn where b: "send_buffer msg (connection (mc_channel mc)) = (r2, cn)" by fastforce
    have conn': "connection ((mc_channel mc)\<lparr>sendSequenceNumber := x\<rparr>) = connection (mc_channel mc)"
      for x by simp
    show ?thesis
      unfolding sendSymmetricChunk_def Let_def a prod.case mc1 ch pad sig tot h fst_conv
        signAndEncryptSym_seq s s' conn' b
      using conn True
      by (simp add: update_connection_def next_seq_def count_chunk_def)
  qed
qed

section \<open>What stays\<close>

text \<open>
  Sending changes the sequence number and the log of the connection; everything else of the channel
  stays as it is.
\<close>

definition same_end :: "'k UA_SecureChannel \<Rightarrow> 'k UA_SecureChannel \<Rightarrow> bool" where
  "same_end ch ch' =
     (ch'\<lparr>sendSequenceNumber := sendSequenceNumber ch, connection := connection ch\<rparr> = ch \<and>
      conn_state (connection ch') = conn_state (connection ch) \<and>
      net_getSendBuffer (connection ch') = net_getSendBuffer (connection ch) \<and>
      net_send (connection ch') = net_send (connection ch))"

lemma same_end_refl: "same_end ch ch"
  by (simp add: same_end_def)

lemma same_endE:
  assumes "same_end ch ch'"
  obtains s c where "ch' = ch\<lparr>sendSequenceNumber := s, connection := c\<rparr>"
    and "conn_state c = conn_state (connection ch)"
      "net_getSendBuffer c = net_getSendBuffer (connection ch)"
      "net_send c = net_send (connection ch)"
proof
  have e: "ch'\<lparr>sendSequenceNumber := sendSequenceNumber ch, connection := connection ch\<rparr> = ch"
    using assms by (simp add: same_end_def)
  show "ch' = ch\<lparr>sendSequenceNumber := sendSequenceNumber ch', connection := connection ch'\<rparr>"
    by (subst e [symmetric]) simp
qed (use assms in \<open>simp_all add: same_end_def\<close>)

lemma same_end_trans: "same_end a b \<Longrightarrow> same_end b c \<Longrightarrow> same_end a c"
  by (elim same_endE) (simp add: same_end_def)

lemma same_end_simps:
  assumes "same_end ch ch'"
  shows "securityMode ch' = securityMode ch" "securityPolicy ch' = securityPolicy ch"
    "channelContext ch' = channelContext ch" "config ch' = config ch"
    "securityToken ch' = securityToken ch" "has_connection ch' = has_connection ch"
    "state ch' = state ch" "sym_module ch' = sym_module ch" "chunk_padding ch' = chunk_padding ch"
    "chunk_total ch' = chunk_total ch" "signAndEncryptSym ch' = signAndEncryptSym ch"
    "conn_state (connection ch') = conn_state (connection ch)"
    "net_getSendBuffer (connection ch') = net_getSendBuffer (connection ch)"
    "net_send (connection ch') = net_send (connection ch)"
proof -
  obtain s c where e: "ch' = ch\<lparr>sendSequenceNumber := s, connection := c\<rparr>"
    and c: "conn_state c = conn_state (connection ch)"
      "net_getSendBuffer c = net_getSendBuffer (connection ch)"
      "net_send c = net_send (connection ch)"
    by (rule same_endE [OF assms])
  show "securityMode ch' = securityMode ch" "securityPolicy ch' = securityPolicy ch"
    "channelContext ch' = channelContext ch" "config ch' = config ch"
    "securityToken ch' = securityToken ch" "has_connection ch' = has_connection ch"
    "state ch' = state ch" "sym_module ch' = sym_module ch"
    "conn_state (connection ch') = conn_state (connection ch)"
    "net_getSendBuffer (connection ch') = net_getSendBuffer (connection ch)"
    "net_send (connection ch') = net_send (connection ch)"
    using e c by (simp_all add: sym_module_def)
  show p: "chunk_padding ch' = chunk_padding ch"
    using e by (intro ext) (simp add: chunk_padding_def sym_module_def)
  show "chunk_total ch' = chunk_total ch"
    using e p by (intro ext) (simp add: chunk_total_def chunk_sig_size_def signs_def sym_module_def)
  show "signAndEncryptSym ch' = signAndEncryptSym ch"
    using e by (intro ext) (simp add: signAndEncryptSym_def sym_module_def Let_def cong: if_cong)
qed

text \<open>The buffer of the context is gone after every outcome; a message went out if it is \<open>GOOD\<close>.\<close>

lemma sendSymmetricChunk_step:
  assumes env: "transport_env env" and conn: "has_connection (mc_channel mc)"
    and buf: "0 < mc_bufferLength mc"
    and eq: "sendSymmetricChunk env mc = (r, mc')"
  shows "same_end (mc_channel mc) (mc_channel mc')"
    and "mc_bufferLength mc' = 0"
    and "conn_buffers (connection (mc_channel mc')) = conn_buffers (connection (mc_channel mc)) - 1"
    and "mc_body mc' = mc_body mc" "mc_room mc' = mc_room mc" "final mc' = final mc"
    and "mc_messageType mc' = mc_messageType mc" "mc_requestId mc' = mc_requestId mc"
    and "r = GOOD \<Longrightarrow> sendSequenceNumber (mc_channel mc') = sendSequenceNumber (mc_channel mc) + 1 \<and>
      (\<exists>msg. signAndEncryptSym (mc_channel mc) (plain_chunk mc)
          (chunk_total (mc_channel mc) (length (mc_body mc))) = (GOOD, msg) \<and>
        conn_sent (connection (mc_channel mc')) = conn_sent (connection (mc_channel mc)) @ [msg])"
    and "r \<noteq> GOOD \<Longrightarrow> conn_sent (connection (mc_channel mc')) = conn_sent (connection (mc_channel mc))"
proof -
  let ?P = "same_end (mc_channel mc) (mc_channel mc') \<and> mc_bufferLength mc' = 0 \<and>
    conn_buffers (connection (mc_channel mc')) = conn_buffers (connection (mc_channel mc)) - 1 \<and>
    mc_body mc' = mc_body mc \<and> mc_room mc' = mc_room mc \<and> final mc' = final mc \<and>
    mc_messageType mc' = mc_messageType mc \<and> mc_requestId mc' = mc_requestId mc \<and>
    (if r = GOOD then sendSequenceNumber (mc_channel mc') = sendSequenceNumber (mc_channel mc) + 1 \<and>
      (\<exists>msg. signAndEncryptSym (mc_channel mc) (plain_chunk mc)
          (chunk_total (mc_channel mc) (length (mc_body mc))) = (GOOD, msg) \<and>
        conn_sent (connection (mc_channel mc')) = conn_sent (connection (mc_channel mc)) @ [msg])
     else conn_sent (connection (mc_channel mc')) = conn_sent (connection (mc_channel mc)))"
  obtain r1 msg where s: "signAndEncryptSym (mc_channel mc) (plain_chunk mc)
      (chunk_total (mc_channel mc) (length (mc_body mc))) = (r1, msg)" by fastforce
  obtain r2 cn where b: "send_buffer msg (connection (mc_channel mc)) = (r2, cn)" by fastforce
  note e = eq [unfolded sendSymmetricChunk_eq [OF env conn buf] s b prod.case]
  note defs = same_end_def mc_release_def update_connection_def count_chunk_def next_seq_def
    releaseSendBuffer_def
  have rel: "mc_release (count_chunk mc) = mc' \<Longrightarrow> r \<noteq> GOOD \<Longrightarrow> ?P"
    "mc_release (next_seq (count_chunk mc)) = mc' \<Longrightarrow> r \<noteq> GOOD \<Longrightarrow> ?P"
    using buf by (auto simp: defs)
  consider "mc_release (count_chunk mc) = mc'" "r \<noteq> GOOD"
    | "mc_release (next_seq (count_chunk mc)) = mc'" "r \<noteq> GOOD"
    | "r1 = GOOD" "r = r2" "mc' = (update_connection (\<lambda>_. cn) (next_seq (count_chunk mc)))\<lparr>mc_bufferLength := 0\<rparr>"
    using e by (auto split: if_splits)
  then have ?P
  proof cases
    case 3
    then show ?thesis using s b
      by (auto simp: defs send_buffer_def Let_def split: if_splits)
  qed (use rel in auto)
  then show "same_end (mc_channel mc) (mc_channel mc')" "mc_bufferLength mc' = 0"
    "conn_buffers (connection (mc_channel mc')) = conn_buffers (connection (mc_channel mc)) - 1"
    "mc_body mc' = mc_body mc" "mc_room mc' = mc_room mc" "final mc' = final mc"
    "mc_messageType mc' = mc_messageType mc" "mc_requestId mc' = mc_requestId mc"
    "r = GOOD \<Longrightarrow> sendSequenceNumber (mc_channel mc') = sendSequenceNumber (mc_channel mc) + 1 \<and>
      (\<exists>msg. signAndEncryptSym (mc_channel mc) (plain_chunk mc)
          (chunk_total (mc_channel mc) (length (mc_body mc))) = (GOOD, msg) \<and>
        conn_sent (connection (mc_channel mc')) = conn_sent (connection (mc_channel mc)) @ [msg])"
    "r \<noteq> GOOD \<Longrightarrow> conn_sent (connection (mc_channel mc')) = conn_sent (connection (mc_channel mc))"
    by (simp_all split: if_splits)
qed

lemma mc_getSendBuffer_step:
  assumes "mc_getSendBuffer mc = (r, mc')"
  shows "same_end (mc_channel mc) (mc_channel mc')"
    and "sendSequenceNumber (mc_channel mc') = sendSequenceNumber (mc_channel mc)"
    and "conn_sent (connection (mc_channel mc')) = conn_sent (connection (mc_channel mc))"
    and "mc_body mc' = mc_body mc" "mc_room mc' = mc_room mc" "final mc' = final mc"
    and "mc_messageType mc' = mc_messageType mc" "mc_requestId mc' = mc_requestId mc"
    and "conn_buffers (connection (mc_channel mc')) =
      conn_buffers (connection (mc_channel mc)) + (if r = GOOD then 1 else 0)"
    and "r \<noteq> GOOD \<Longrightarrow> mc_bufferLength mc' = mc_bufferLength mc"
    and "net_getSendBuffer (connection (mc_channel mc)) (conn_calls (connection (mc_channel mc)))
        (unat (sendBufferSize (config (mc_channel mc)))) = (r, n) \<Longrightarrow>
      r = GOOD \<Longrightarrow> mc_bufferLength mc' = n"
  using assms
  by (auto simp: mc_getSendBuffer_def getSendBuffer_def Let_def same_end_def split: prod.splits if_splits)

lemma setBufPos_simps [simp]:
  "mc_channel (setBufPos mc) = mc_channel mc" "mc_bufferLength (setBufPos mc) = mc_bufferLength mc"
  "mc_body (setBufPos mc) = []" "final (setBufPos mc) = final mc"
  "mc_messageType (setBufPos mc) = mc_messageType mc" "mc_requestId (setBufPos mc) = mc_requestId mc"
  by (simp_all add: setBufPos_def Let_def)

section \<open>The capacity of a chunk\<close>

definition body_capacity :: "'k UA_SecureChannel \<Rightarrow> nat" where
  "body_capacity ch =
     (let len = unat (sendBufferSize (config ch)); cm = sym_module ch; cc = channelContext ch
      in if securityMode ch = SECURITYMODE_NONE then len - 24
         else len - sig_size cm cc - len mod block_size cm cc -
              (if securityMode ch = SECURITYMODE_SIGNANDENCRYPT then size_bytes cm cc else 0) - 24)"

lemma setBufPos_room:
  "mc_bufferLength mc = unat (sendBufferSize (config (mc_channel mc))) \<Longrightarrow>
   mc_room (setBufPos mc) = body_capacity (mc_channel mc)"
  by (simp add: setBufPos_def body_capacity_def Let_def sig_size_def block_size_def size_bytes_def
      extra_padding_def)

text \<open>
  \<^verbatim>\<open>UA_assert(total_length <= channel->config.sendBufferSize)\<close>: holds for every body that fits the
  capacity if the block size divides the 16 bytes in front of the encrypted part, as it does for the
  block ciphers of the security policies.
\<close>

lemma chunk_total_le:
  assumes cap: "n \<le> body_capacity ch" and big: "0 < body_capacity ch"
    and bs: "securityMode ch = SECURITYMODE_SIGNANDENCRYPT \<Longrightarrow>
      16 mod block_size (sym_module ch) (channelContext ch) = 0"
    and mode: "securityMode ch \<noteq> SECURITYMODE_INVALID"
  shows "chunk_total ch n \<le> unat (sendBufferSize (config ch))"
proof (cases "securityMode ch")
  case SECURITYMODE_SIGNANDENCRYPT
  let ?cm = "sym_module ch" and ?cc = "channelContext ch"
  let ?B = "block_size ?cm ?cc" and ?len = "unat (sendBufferSize (config ch))"
  have B: "0 < ?B" using bs [OF SECURITYMODE_SIGNANDENCRYPT] by (cases "?B = 0") auto
  have c: "n + 24 + size_bytes ?cm ?cc + sig_size ?cm ?cc + ?len mod ?B \<le> ?len"
    using cap big SECURITYMODE_SIGNANDENCRYPT by (simp add: body_capacity_def Let_def)
  define q where "q = ?len - ?len mod ?B"
  have q: "q mod ?B = 0" unfolding q_def by (simp add: minus_mod_eq_mult_div)
  have cq: "8 + n + sig_size ?cm ?cc + size_bytes ?cm ?cc \<le> q - 16" "16 \<le> q"
    using c by (auto simp: q_def)
  have "(q - 16) mod ?B = 0"
    using q bs [OF SECURITYMODE_SIGNANDENCRYPT] cq(2) by (metis dvd_diff_nat mod_0_imp_dvd dvd_imp_mod_0)
  from fill_up_le [OF B cq(1) this]
  have "8 + n + sig_size ?cm ?cc + size_bytes ?cm ?cc + padding_fill ?cm ?cc (8 + n) \<le> q - 16"
    by (simp add: padding_fill_def)
  moreover have "q \<le> ?len" by (simp add: q_def)
  ultimately show ?thesis
    using SECURITYMODE_SIGNANDENCRYPT cq(2)
    by (simp add: chunk_total_def chunk_padding_def length_padChunk chunk_sig_size_def signs_def)
qed (use cap big mode in \<open>auto simp: chunk_total_def chunk_padding_def chunk_sig_size_def signs_def
  body_capacity_def Let_def\<close>)

section \<open>The chunks of a message\<close>

text \<open>
  \<open>chunk_msg ch mtype ctype seqn req body msg\<close>: \<open>msg\<close> is what is sent for one chunk with this
  body. \<open>chunk_run\<close>: a run of intermediate chunks with consecutive sequence numbers.
\<close>

definition chunk_msg ::
    "'k UA_SecureChannel \<Rightarrow> u32 \<Rightarrow> u32 \<Rightarrow> u32 \<Rightarrow> u32 \<Rightarrow> bytes \<Rightarrow> bytes \<Rightarrow> bool" where
  "chunk_msg ch mtype ctype seqn req body msg =
     (signAndEncryptSym ch
        (sym_header (mtype + ctype) (chunk_total ch (length body)) (channelId (securityToken ch))
           (tokenId (securityToken ch)) seqn req @ body @ chunk_padding ch (length body))
        (chunk_total ch (length body)) = (GOOD, msg))"

fun chunk_run ::
    "'k UA_SecureChannel \<Rightarrow> u32 \<Rightarrow> u32 \<Rightarrow> u32 \<Rightarrow> bytes list \<Rightarrow> bytes list \<Rightarrow> bool" where
  "chunk_run ch mtype req seqn [] [] = True"
| "chunk_run ch mtype req seqn (b # bs) (m # ms) =
     (chunk_msg ch mtype UA_CHUNKTYPE_INTERMEDIATE (seqn + 1) req b m \<and>
      chunk_run ch mtype req (seqn + 1) bs ms)"
| "chunk_run ch mtype req seqn _ _ = False"

lemma chunk_run_length: "chunk_run ch mtype req seqn bs ms \<Longrightarrow> length bs = length ms"
  by (induction ch mtype req seqn bs ms rule: chunk_run.induct) auto

lemma chunk_run_snoc:
  "chunk_run ch mtype req seqn bs ms \<Longrightarrow>
   chunk_msg ch mtype UA_CHUNKTYPE_INTERMEDIATE (seqn + of_nat (length ms) + 1) req b m \<Longrightarrow>
   chunk_run ch mtype req seqn (bs @ [b]) (ms @ [m])"
  by (induction ch mtype req seqn bs ms rule: chunk_run.induct) (auto simp: ac_simps)

text \<open>
  What the theorems on sending assume of the plugins: a send buffer has the length that was asked
  for, and no plugin reports \<open>LIMITS\<close>, the status by which the encoder asks for a new buffer.
\<close>

definition plugins_ok :: "'k UA_SecureChannel \<Rightarrow> bool" where
  "plugins_ok ch =
     ((\<forall>i len r n. net_getSendBuffer (connection ch) i len = (r, n) \<longrightarrow> r = GOOD \<and> n = len \<or> hard r) \<and>
      (\<forall>i m. net_send (connection ch) i m = GOOD \<or> hard (net_send (connection ch) i m)) \<and>
      (securityMode ch \<noteq> SECURITYMODE_NONE \<longrightarrow>
        (\<forall>m n. fst (sign (signatureAlgorithm (sym_module ch)) (channelContext ch) m n) = GOOD \<or>
           hard (fst (sign (signatureAlgorithm (sym_module ch)) (channelContext ch) m n))) \<and>
        (\<forall>d. fst (encrypt (encryptionAlgorithm (sym_module ch)) (channelContext ch) d) = GOOD \<or>
           hard (fst (encrypt (encryptionAlgorithm (sym_module ch)) (channelContext ch) d)))))"

lemma plugins_ok_sign:
  assumes "plugins_ok ch" and "signAndEncryptSym ch buf len = (r, m)"
  shows "r = GOOD \<or> hard r"
proof (cases "securityMode ch = SECURITYMODE_NONE")
  case False
  let ?cm = "sym_module ch" and ?cc = "channelContext ch"
  obtain r1 sg where s: "sign (signatureAlgorithm ?cm) ?cc buf
      (getLocalSignatureSize (signatureAlgorithm ?cm) ?cc) = (r1, sg)" by fastforce
  have r1: "r1 = GOOD \<or> hard r1" using assms(1) False s unfolding plugins_ok_def by (metis fst_conv)
  obtain r2 e where e: "encrypt (encryptionAlgorithm ?cm) ?cc
      (take (len - 16) (drop 16 (buf @ sg))) = (r2, e)" by fastforce
  have r2: "r2 = GOOD \<or> hard r2" using assms(1) False e unfolding plugins_ok_def by (metis fst_conv)
  show ?thesis
    using assms(2) False r1 r2
    by (auto simp: signAndEncryptSym_def Let_def s e simp del: drop_append split: if_splits)
qed (use assms(2) in \<open>simp add: signAndEncryptSym_def\<close>)

definition sender_ok ::
    "type_env \<Rightarrow> 'k UA_SecureChannel \<Rightarrow> 'l UA_SecurityPolicyCryptoModule \<Rightarrow> 'l option \<Rightarrow> bool" where
  "sender_ok env ch cm' cc' =
     (transport_env env \<and> has_connection ch \<and> plugins_ok ch \<and> UNSPLIT_MAX \<le> body_capacity ch \<and>
      crypto_pair (securityMode ch) (sym_module ch) (channelContext ch) cm' cc')"

lemma plugins_ok_same: "same_end ch ch' \<Longrightarrow> plugins_ok ch' = plugins_ok ch"
  by (simp add: plugins_ok_def same_end_simps)

text \<open>
  The invariant of a context in the middle of a message that began on the channel \<open>ch0\<close>: the channel
  is still the same, the log of the connection has grown by a run of intermediate chunks whose bodies
  nearly fill them, and one buffer is in use.
\<close>

definition sending ::
    "type_env \<Rightarrow> 'k UA_SecureChannel \<Rightarrow> 'l UA_SecurityPolicyCryptoModule \<Rightarrow> 'l option \<Rightarrow> u32 \<Rightarrow> u32 \<Rightarrow>
     'k UA_MessageContext \<Rightarrow> nat \<Rightarrow> bool" where
  "sending env ch0 cm' cc' mtype req mc cap =
     (sender_ok env ch0 cm' cc' \<and> same_end ch0 (mc_channel mc) \<and> mc_messageType mc = mtype \<and>
      mc_requestId mc = req \<and> \<not> final mc \<and> cap = body_capacity ch0 \<and>
      length (mc_body mc) + mc_room mc = cap \<and>
      mc_bufferLength mc = unat (sendBufferSize (config ch0)) \<and>
      conn_buffers (connection (mc_channel mc)) = conn_buffers (connection ch0) + 1 \<and>
      (\<exists>bodies msgs. conn_sent (connection (mc_channel mc)) = conn_sent (connection ch0) @ msgs \<and>
         chunk_run ch0 mtype req (sendSequenceNumber ch0) bodies msgs \<and>
         sendSequenceNumber (mc_channel mc) = sendSequenceNumber ch0 + of_nat (length msgs) \<and>
         (\<forall>b \<in> set bodies. length b \<le> cap \<and> cap < length b + UNSPLIT_MAX)))"

lemma sending_buffer: "sending env ch0 cm' cc' mtype req mc cap \<Longrightarrow> 0 < mc_bufferLength mc"
  by (auto simp: sending_def sender_ok_def body_capacity_def Let_def UNSPLIT_MAX_def split: if_splits)

text \<open>The bodies behind the handle.\<close>

definition sent_bodies ::
    "'k UA_SecureChannel \<Rightarrow> 'l UA_SecurityPolicyCryptoModule \<Rightarrow> 'l option \<Rightarrow>
     'k UA_MessageContext \<Rightarrow> bytes" where
  "sent_bodies ch0 cm' cc' mc =
     concat (map (chunk_body (securityMode ch0) cm' cc')
       (drop (length (conn_sent (connection ch0))) (conn_sent (connection (mc_channel mc)))))"

lemma chunk_msg_body:
  assumes "crypto_pair (securityMode ch) (sym_module ch) (channelContext ch) cm' cc'"
    and "chunk_msg ch mtype ctype seqn req body msg"
  shows "chunk_body (securityMode ch) cm' cc' msg = body"
  by (rule chunk_opens(3) [OF assms(1) _ _ assms(2) [unfolded chunk_msg_def],
        of UA_MESSAGETYPE_MSG "(UA_SecureChannel_init undefined)\<lparr>securityMode := securityMode ch,
          channelContext := cc'\<rparr>"]) (simp_all add: type_defs)

lemma plain_chunk_msg:
  assumes "same_end ch0 (mc_channel mc)"
    and "signAndEncryptSym (mc_channel mc) (plain_chunk mc)
      (chunk_total (mc_channel mc) (length (mc_body mc))) = (GOOD, msg)"
  shows "chunk_msg ch0 (mc_messageType mc) (chunk_type_of mc) (sendSequenceNumber (mc_channel mc) + 1)
    (mc_requestId mc) (mc_body mc) msg"
  using assms(2)
  by (simp add: chunk_msg_def plain_chunk_def Let_def header_of_def same_end_simps [OF assms(1)])

lemma chunk_run_bodies:
  assumes "crypto_pair (securityMode ch) (sym_module ch) (channelContext ch) cm' cc'"
  shows "chunk_run ch mtype req seqn bs ms \<Longrightarrow> map (chunk_body (securityMode ch) cm' cc') ms = bs"
  using assms
  by (induction ch mtype req seqn bs ms rule: chunk_run.induct) (auto simp: chunk_msg_body)

section \<open>The callback meets the contract of the encoder\<close>

lemma sendSymmetricChunk_status:
  assumes env: "transport_env env" and conn: "has_connection (mc_channel mc)"
    and buf: "0 < mc_bufferLength mc"
    and ok: "plugins_ok (mc_channel mc)" and eq: "sendSymmetricChunk env mc = (r, mc')"
  shows "r = GOOD \<or> hard r"
proof -
  obtain r1 msg where s: "signAndEncryptSym (mc_channel mc) (plain_chunk mc)
      (chunk_total (mc_channel mc) (length (mc_body mc))) = (r1, msg)" by fastforce
  obtain r2 cn where b: "send_buffer msg (connection (mc_channel mc)) = (r2, cn)" by fastforce
  have "r2 = GOOD \<or> hard r2"
    using b ok by (auto simp: send_buffer_def Let_def plugins_ok_def split: if_splits)
  then show ?thesis
    using eq [unfolded sendSymmetricChunk_eq [OF env conn buf] s b prod.case] plugins_ok_sign [OF ok s]
    by (auto split: if_splits)
qed

text \<open>The context that the callback hands to \<open>sendSymmetricChunk\<close>.\<close>

definition handed :: "'k UA_MessageContext \<Rightarrow> bytes \<Rightarrow> 'k UA_MessageContext" where
  "handed mc out =
     mc\<lparr>mc_body := out, mc_room := length (mc_body mc) + mc_room mc - length out\<rparr>"

lemma callback_good:
  assumes s: "sending env ch0 cm' cc' mtype req mc cap" and out: "length out \<le> cap"
    and full: "cap < length out + UNSPLIT_MAX"
    and eq: "sendSymmetricEncodingCallback env mc out = (GOOD, mc', room)"
  shows "sent_bodies ch0 cm' cc' mc' = sent_bodies ch0 cm' cc' mc @ out"
    and "sending env ch0 cm' cc' mtype req mc' room" and "UNSPLIT_MAX \<le> room"
proof -
  have ok: "transport_env env" "has_connection ch0" "plugins_ok ch0" "UNSPLIT_MAX \<le> body_capacity ch0"
      "crypto_pair (securityMode ch0) (sym_module ch0) (channelContext ch0) cm' cc'"
    using s by (simp_all add: sending_def sender_ok_def)
  have same: "same_end ch0 (mc_channel mc)" using s by (simp add: sending_def)
  note sm = same_end_simps [OF same]
  obtain mc2 where 2: "sendSymmetricChunk env (handed mc out) = (GOOD, mc2)"
    and c2: "has_connection (mc_channel mc2)"
    using eq by (auto simp: sendSymmetricEncodingCallback_def handed_def Let_def split: prod.splits if_splits)
  obtain mc3 where 3: "mc_getSendBuffer mc2 = (GOOD, mc3)" and mc': "mc' = setBufPos mc3"
    and room: "room = mc_room mc'"
    using eq 2 c2 by (auto simp: sendSymmetricEncodingCallback_def handed_def Let_def split: prod.splits if_splits)
  have h: "mc_channel (handed mc out) = mc_channel mc" "mc_body (handed mc out) = out"
    "mc_messageType (handed mc out) = mc_messageType mc" "mc_requestId (handed mc out) = mc_requestId mc"
    "final (handed mc out) = final mc"
    by (simp_all add: handed_def)
  have cn: "has_connection (mc_channel (handed mc out))" using ok(2) sm by (simp add: h)
  have bf: "0 < mc_bufferLength (handed mc out)" using sending_buffer [OF s] by (simp add: handed_def)
  note st = sendSymmetricChunk_step [OF ok(1) cn bf 2, unfolded h]
  note gt = mc_getSendBuffer_step [OF 3]
  obtain msg where msg: "signAndEncryptSym (mc_channel mc) (plain_chunk (handed mc out))
        (chunk_total (mc_channel mc) (length out)) = (GOOD, msg)"
    and sq: "sendSequenceNumber (mc_channel mc2) = sendSequenceNumber (mc_channel mc) + 1"
    and snt: "conn_sent (connection (mc_channel mc2)) = conn_sent (connection (mc_channel mc)) @ [msg]"
    using st(9) by auto
  have same3: "same_end ch0 (mc_channel mc3)"
    using same_end_trans [OF same same_end_trans [OF st(1) gt(1)]] .
  note sm3 = same_end_simps [OF same3]
  have sm2: "config (mc_channel mc2) = config ch0"
    "net_getSendBuffer (connection (mc_channel mc2)) = net_getSendBuffer (connection ch0)"
    using same_end_simps [OF st(1)] sm by simp_all
  have len: "mc_bufferLength mc3 = unat (sendBufferSize (config ch0))"
  proof -
    obtain r n where g: "net_getSendBuffer (connection (mc_channel mc2))
        (conn_calls (connection (mc_channel mc2)))
        (unat (sendBufferSize (config (mc_channel mc2)))) = (r, n)" by fastforce
    have r: "r = GOOD"
      using 3 g by (auto simp: mc_getSendBuffer_def getSendBuffer_def Let_def split: if_splits)
    have "n = unat (sendBufferSize (config ch0))"
      using ok(3) g r unfolding plugins_ok_def sm2 by (metis hard_codes(1))
    then show ?thesis using gt(11) g r by blast
  qed
  have rm: "mc_room mc' = body_capacity ch0"
    using setBufPos_room [of mc3] len sm3 by (simp add: mc' body_capacity_def Let_def)
  have cm: "chunk_msg ch0 mtype UA_CHUNKTYPE_INTERMEDIATE (sendSequenceNumber (mc_channel mc) + 1) req out msg"
    using plain_chunk_msg [of ch0 "handed mc out" msg] same msg s
    by (simp add: h chunk_type_of_def sending_def)
  obtain bodies msgs where b: "conn_sent (connection (mc_channel mc)) = conn_sent (connection ch0) @ msgs"
    "chunk_run ch0 mtype req (sendSequenceNumber ch0) bodies msgs"
    "sendSequenceNumber (mc_channel mc) = sendSequenceNumber ch0 + of_nat (length msgs)"
    "\<forall>b \<in> set bodies. length b \<le> cap \<and> cap < length b + UNSPLIT_MAX"
    using s by (auto simp: sending_def)
  have cap: "cap = body_capacity ch0" using s by (simp add: sending_def)
  have run: "chunk_run ch0 mtype req (sendSequenceNumber ch0) (bodies @ [out]) (msgs @ [msg])"
    using chunk_run_snoc [OF b(2), of out msg] cm b(3) by simp
  have log: "conn_sent (connection (mc_channel mc')) = conn_sent (connection ch0) @ msgs @ [msg]"
    using snt gt(3) b(1) by (simp add: mc')
  show "sent_bodies ch0 cm' cc' mc' = sent_bodies ch0 cm' cc' mc @ out"
    using log b(1) chunk_msg_body [OF ok(5) cm] by (simp add: sent_bodies_def)
  show "UNSPLIT_MAX \<le> room" using room rm ok(4) by simp
  have "sendSequenceNumber (mc_channel mc') = sendSequenceNumber ch0 + of_nat (length (msgs @ [msg]))"
    using sq gt(2) b(3) by (simp add: mc')
  moreover have "\<forall>b \<in> set (bodies @ [out]). length b \<le> room \<and> room < length b + UNSPLIT_MAX"
    using b(4) out full room rm cap by auto
  ultimately have ex: "\<exists>bodies msgs. conn_sent (connection (mc_channel mc')) = conn_sent (connection ch0) @ msgs \<and>
      chunk_run ch0 mtype req (sendSequenceNumber ch0) bodies msgs \<and>
      sendSequenceNumber (mc_channel mc') = sendSequenceNumber ch0 + of_nat (length msgs) \<and>
      (\<forall>b \<in> set bodies. length b \<le> room \<and> room < length b + UNSPLIT_MAX)"
    using log run by blast
  have "conn_buffers (connection (mc_channel mc')) = conn_buffers (connection ch0) + 1"
    using st(3) gt(9) s by (simp add: mc' sending_def)
  then show "sending env ch0 cm' cc' mtype req mc' room"
    unfolding sending_def
    using s same3 st(6,7,8) gt(6,7,8) len rm room ex by (simp add: mc' sending_def)
qed

lemma callback_bad:
  assumes s: "sending env ch0 cm' cc' mtype req mc cap"
    and eq: "sendSymmetricEncodingCallback env mc out = (r, mc', room)"
  shows "r = GOOD \<or> hard r"
proof -
  have ok: "transport_env env" "has_connection ch0" "plugins_ok ch0"
    using s by (simp_all add: sending_def sender_ok_def)
  have same: "same_end ch0 (mc_channel mc)" using s by (simp add: sending_def)
  have h: "mc_channel (handed mc out) = mc_channel mc" by (simp add: handed_def)
  obtain r2 mc2 where 2: "sendSymmetricChunk env (handed mc out) = (r2, mc2)" by fastforce
  obtain r3 mc3 where 3: "mc_getSendBuffer mc2 = (r3, mc3)" by fastforce
  have cn: "has_connection (mc_channel (handed mc out))"
    using ok(2) same_end_simps [OF same] by (simp add: h)
  have bf: "0 < mc_bufferLength (handed mc out)" using sending_buffer [OF s] by (simp add: handed_def)
  have po: "plugins_ok (mc_channel (handed mc out))"
    using ok(3) plugins_ok_same [OF same] by (simp add: h)
  have r2: "r2 = GOOD \<or> hard r2" by (rule sendSymmetricChunk_status [OF ok(1) cn bf po 2])
  have "plugins_ok (mc_channel mc2)"
    using po plugins_ok_same [OF sendSymmetricChunk_step(1) [OF ok(1) cn bf 2]] by simp
  then have r3: "r3 = GOOD \<or> hard r3"
    using 3 unfolding plugins_ok_def mc_getSendBuffer_def getSendBuffer_def Let_def
    by (auto split: prod.splits if_splits)
  show ?thesis
    using eq 2 3 r2 r3
    by (auto simp: sendSymmetricEncodingCallback_def handed_def Let_def split: if_splits)
qed

interpretation sender: exchange_buffer
    "Some (sendSymmetricEncodingCallback env)" "sent_bodies ch0 cm' cc'"
    "sending env ch0 cm' cc' mtype req"
  for env ch0 cm' cc' mtype req
proof (unfold_locales, goal_cases)
  case (1 cb h cap out h' room)
  then show ?case using callback_good [of env ch0 cm' cc' mtype req h cap out h' room] by auto
next
  case (2 cb h cap out r h' room)
  then show ?case using callback_bad [of env ch0 cm' cc' mtype req h cap out r h' room] by auto
qed

section \<open>A whole message\<close>

lemma begin_sending:
  assumes ok: "sender_ok env ch cm' cc'" and eq: "UA_MessageContext_begin req mtype ch = (GOOD, mc)"
  shows "sending env ch cm' cc' mtype req mc (body_capacity ch)" and "mc_body mc = []"
    and "sent_bodies ch cm' cc' mc = []" and "mtype = UA_MESSAGETYPE_MSG \<or> mtype = UA_MESSAGETYPE_CLO"
proof -
  let ?mc = "\<lparr>mc_channel = ch, mc_requestId = req, mc_messageType = mtype, chunksSoFar = 0,
               messageSizeSoFar = 0, mc_bufferLength = 0, mc_body = [], mc_room = 0, final = False\<rparr>"
  obtain mc1 where 1: "mc_getSendBuffer ?mc = (GOOD, mc1)" and mc: "mc = setBufPos mc1"
    and mt: "mtype = UA_MESSAGETYPE_MSG \<or> mtype = UA_MESSAGETYPE_CLO"
    using eq by (auto simp: UA_MessageContext_begin_def Let_def split: if_splits prod.splits)
  note gt = mc_getSendBuffer_step [OF 1, simplified]
  note sm = same_end_simps [OF gt(1)]
  obtain r n where g: "net_getSendBuffer (connection ch) (conn_calls (connection ch))
      (unat (sendBufferSize (config ch))) = (r, n)" by fastforce
  have r: "r = GOOD"
    using 1 g by (auto simp: mc_getSendBuffer_def getSendBuffer_def Let_def split: if_splits)
  have "n = unat (sendBufferSize (config ch))"
    using ok g r unfolding sender_ok_def plugins_ok_def by (metis hard_codes(1))
  then have len: "mc_bufferLength mc1 = unat (sendBufferSize (config ch))"
    using mc_getSendBuffer_step(11) [OF 1, of n] g r by simp
  have rm: "mc_room mc = body_capacity ch"
    using setBufPos_room [of mc1] len sm by (simp add: mc body_capacity_def Let_def)
  show "sending env ch cm' cc' mtype req mc (body_capacity ch)"
    unfolding sending_def
    using ok gt len rm by (auto simp: mc intro!: exI [of _ "[] :: bytes list"])
  show "mc_body mc = []" "sent_bodies ch cm' cc' mc = []"
    using gt(3) by (simp_all add: mc sent_bodies_def)
  show "mtype = UA_MESSAGETYPE_MSG \<or> mtype = UA_MESSAGETYPE_CLO" by (rule mt)
qed

lemma sending_body:
  "sending env ch0 cm' cc' mtype req mc cap \<Longrightarrow> length b + m = cap \<Longrightarrow>
   sending env ch0 cm' cc' mtype req (mc\<lparr>mc_body := b, mc_room := m\<rparr>) cap"
  unfolding sending_def by simp blast

lemma sending_cap:
  "sending env ch0 cm' cc' mtype req mc cap \<Longrightarrow>
   cap = body_capacity ch0 \<and> length (mc_body mc) + mc_room mc = cap"
  by (simp add: sending_def)

lemma encode_sending:
  assumes s: "sending env ch0 cm' cc' mtype req mc cap"
    and eq: "UA_MessageContext_encode env v ty mc = (r, mc')"
  shows "r = GOOD \<and> sending env ch0 cm' cc' mtype req mc' cap \<and>
      sent_bodies ch0 cm' cc' mc' @ mc_body mc' = sent_bodies ch0 cm' cc' mc @ mc_body mc @ wire env ty v \<or>
    hard r"
proof -
  obtain r1 c where e: "UA_encodeBinaryInternal env v ty (mc_body mc) (mc_room mc)
      (Some (sendSymmetricEncodingCallback env)) mc = (r1, c)" by fastforce
  have r: "r = r1" using eq e by (simp add: UA_MessageContext_encode_def Let_def)
  have mc': "r = GOOD \<Longrightarrow> mc' = (enc_handle c)\<lparr>mc_body := enc_out c, mc_room := enc_room c\<rparr>"
    using eq e r by (simp add: UA_MessageContext_encode_def Let_def)
  have s': "sending env ch0 cm' cc' mtype req mc (length (mc_body mc) + mc_room mc)"
    using s sending_cap [OF s] by simp
  from sender.UA_encodeBinaryInternal_emits [OF s' e]
  consider "hard r1" | "r1 = GOOD"
      "live (Some (sendSymmetricEncodingCallback env)) (sending env ch0 cm' cc' mtype req) c"
      "sent_bodies ch0 cm' cc' (enc_handle c) @ enc_out c = sent_bodies ch0 cm' cc' mc @ mc_body mc @ wire env ty v"
    by blast
  then show ?thesis
  proof cases
    case 2
    have l: "sending env ch0 cm' cc' mtype req (enc_handle c) (length (enc_out c) + enc_room c)"
      using 2(2) by (simp add: live_def)
    have cap: "length (enc_out c) + enc_room c = cap"
      using sending_cap [OF l] sending_cap [OF s] by simp
    have "sending env ch0 cm' cc' mtype req mc' cap"
      using sending_body [OF l [unfolded cap] cap] mc' 2(1) r by simp
    moreover have "sent_bodies ch0 cm' cc' mc' = sent_bodies ch0 cm' cc' (enc_handle c)"
      using mc' 2(1) r by (simp add: sent_bodies_def)
    ultimately show ?thesis using 2 r mc' by simp
  qed (use r in simp)
qed

text \<open>
  The chunks of a message: a run of intermediate chunks, then the final chunk, with consecutive
  sequence numbers; their bodies together are \<open>content\<close>.
\<close>

definition message_chunks ::
    "'k UA_SecureChannel \<Rightarrow> u32 \<Rightarrow> u32 \<Rightarrow> bytes list \<Rightarrow> bytes \<Rightarrow> bytes list \<Rightarrow> bytes \<Rightarrow> bool" where
  "message_chunks ch mtype req bodies last_body msgs last_msg =
     (chunk_run ch mtype req (sendSequenceNumber ch) bodies msgs \<and>
      chunk_msg ch mtype UA_CHUNKTYPE_FINAL (sendSequenceNumber ch + of_nat (length msgs) + 1) req
        last_body last_msg \<and>
      (\<forall>b \<in> set bodies. length b \<le> body_capacity ch \<and> body_capacity ch < length b + UNSPLIT_MAX) \<and>
      length last_body \<le> body_capacity ch)"

lemma finish_sending:
  assumes s: "sending env ch0 cm' cc' mtype req mc cap"
    and eq: "UA_MessageContext_finish env mc = (GOOD, mc')"
  shows "\<exists>bodies msgs last_msg.
    conn_sent (connection (mc_channel mc')) = conn_sent (connection ch0) @ msgs @ [last_msg] \<and>
    message_chunks ch0 mtype req bodies (mc_body mc) msgs last_msg \<and>
    concat bodies = sent_bodies ch0 cm' cc' mc \<and>
    sendSequenceNumber (mc_channel mc') = sendSequenceNumber ch0 + of_nat (length msgs) + 1 \<and>
    conn_buffers (connection (mc_channel mc')) = conn_buffers (connection ch0)"
proof -
  have ok: "transport_env env" "has_connection ch0"
      "crypto_pair (securityMode ch0) (sym_module ch0) (channelContext ch0) cm' cc'"
    using s by (simp_all add: sending_def sender_ok_def)
  have same: "same_end ch0 (mc_channel mc)" using s by (simp add: sending_def)
  have cn: "has_connection (mc_channel (mc\<lparr>final := True\<rparr>))" and bf: "0 < mc_bufferLength (mc\<lparr>final := True\<rparr>)"
    using ok(2) same_end_simps [OF same] sending_buffer [OF s] by simp_all
  note st = sendSymmetricChunk_step [OF ok(1) cn bf eq [unfolded UA_MessageContext_finish_def], simplified]
  obtain msg where msg: "signAndEncryptSym (mc_channel mc) (plain_chunk (mc\<lparr>final := True\<rparr>))
        (chunk_total (mc_channel mc) (length (mc_body mc))) = (GOOD, msg)"
    and snt: "conn_sent (connection (mc_channel mc')) = conn_sent (connection (mc_channel mc)) @ [msg]"
    using st(9) by auto
  obtain bodies msgs where b: "conn_sent (connection (mc_channel mc)) = conn_sent (connection ch0) @ msgs"
    "chunk_run ch0 mtype req (sendSequenceNumber ch0) bodies msgs"
    "sendSequenceNumber (mc_channel mc) = sendSequenceNumber ch0 + of_nat (length msgs)"
    "\<forall>b \<in> set bodies. length b \<le> cap \<and> cap < length b + UNSPLIT_MAX"
    using s by (auto simp: sending_def)
  have cm: "chunk_msg ch0 mtype UA_CHUNKTYPE_FINAL (sendSequenceNumber ch0 + of_nat (length msgs) + 1) req
      (mc_body mc) msg"
    using plain_chunk_msg [of ch0 "mc\<lparr>final := True\<rparr>" msg] same msg s b(3)
    by (simp add: chunk_type_of_def sending_def)
  have "message_chunks ch0 mtype req bodies (mc_body mc) msgs msg"
    using b cm sending_cap [OF s] by (auto simp: message_chunks_def)
  moreover have "concat bodies = sent_bodies ch0 cm' cc' mc"
    using chunk_run_bodies [OF ok(3) b(2)] b(1) by (simp add: sent_bodies_def)
  moreover have "conn_buffers (connection (mc_channel mc')) = conn_buffers (connection ch0)"
    using st(3) s by (simp add: sending_def)
  moreover have "sendSequenceNumber (mc_channel mc') = sendSequenceNumber ch0 + of_nat (length msgs) + 1"
    using st(9) b(3) by simp
  ultimately show ?thesis using snt b(1) by auto
qed

lemma sendSymmetricMessage_chunks:
  assumes ok: "sender_ok env ch cm' cc'"
    and eq: "UA_SecureChannel_sendSymmetricMessage env req mtype payload ty ch = (GOOD, ch')"
  shows "\<exists>bodies last_body msgs last_msg.
    conn_sent (connection ch') = conn_sent (connection ch) @ msgs @ [last_msg] \<and>
    message_chunks ch mtype req bodies last_body msgs last_msg \<and>
    concat bodies @ last_body =
      wire env UA_TYPES_NODEID (VNodeId (binaryEncodingId (ty_at env ty))) @ wire env ty payload \<and>
    (mtype = UA_MESSAGETYPE_MSG \<or> mtype = UA_MESSAGETYPE_CLO) \<and>
    sendSequenceNumber ch' = sendSequenceNumber ch + of_nat (length msgs) + 1 \<and>
    conn_buffers (connection ch') = conn_buffers (connection ch)"
proof -
  obtain mc where 0: "UA_MessageContext_begin req mtype ch = (GOOD, mc)"
    using eq by (auto simp: UA_SecureChannel_sendSymmetricMessage_def split: if_splits prod.splits)
  obtain mc1 where 1: "UA_MessageContext_encode env
      (VNodeId (binaryEncodingId (ty_at env ty))) UA_TYPES_NODEID mc = (GOOD, mc1)"
    using eq 0 by (auto simp: UA_SecureChannel_sendSymmetricMessage_def split: if_splits prod.splits)
  obtain mc2 where 2: "UA_MessageContext_encode env payload ty mc1 = (GOOD, mc2)"
    using eq 0 1 by (auto simp: UA_SecureChannel_sendSymmetricMessage_def split: if_splits prod.splits)
  obtain mc3 where 3: "UA_MessageContext_finish env mc2 = (GOOD, mc3)" and ch': "ch' = mc_channel mc3"
    using eq 0 1 2 by (auto simp: UA_SecureChannel_sendSymmetricMessage_def split: if_splits prod.splits)
  note b = begin_sending [OF ok 0]
  from encode_sending [OF b(1) 1] have e1: "sending env ch cm' cc' mtype req mc1 (body_capacity ch)"
    "sent_bodies ch cm' cc' mc1 @ mc_body mc1 =
       wire env UA_TYPES_NODEID (VNodeId (binaryEncodingId (ty_at env ty)))"
    using b(2,3) by simp_all
  from encode_sending [OF e1(1) 2] have e2: "sending env ch cm' cc' mtype req mc2 (body_capacity ch)"
    "sent_bodies ch cm' cc' mc2 @ mc_body mc2 =
       wire env UA_TYPES_NODEID (VNodeId (binaryEncodingId (ty_at env ty))) @ wire env ty payload"
    using e1(2) by (simp_all flip: append_assoc)
  from finish_sending [OF e2(1) 3] obtain bodies msgs last_msg where
    "conn_sent (connection (mc_channel mc3)) = conn_sent (connection ch) @ msgs @ [last_msg]"
    "message_chunks ch mtype req bodies (mc_body mc2) msgs last_msg"
    "concat bodies = sent_bodies ch cm' cc' mc2"
    "sendSequenceNumber (mc_channel mc3) = sendSequenceNumber ch + of_nat (length msgs) + 1"
    "conn_buffers (connection (mc_channel mc3)) = conn_buffers (connection ch)" by blast
  then show ?thesis using e2(2) b(4) ch' by metis
qed

end
