(* ===== verification/Channel_Deliver.thy ===== *)
theory Channel_Deliver
  imports Channel_Receive Channel_Stream
begin

text \<open>
  From one end to the other: the chunks that \<open>UA_SecureChannel_sendSymmetricMessage\<close> puts on the
  network, cut into buffers in any way, make the receiver call its callback once, with the message
  that was sent.
\<close>

section \<open>Reading the headers\<close>

lemma two_words_canonical:
  "members (ty_at env ty) = [plain_member 6, plain_member 6] \<Longrightarrow> canonical env ct ty (two_words a b)"
  by (auto simp: two_words_def plain_member_def)

lemma decode_two_words_at:
  assumes env: "transport_env env" and ty: "kind_at env ty = DK_STRUCTURE"
    "members (ty_at env ty) = [plain_member 6, plain_member 6]"
    and src: "drop off src = UA_encode32 a @ UA_encode32 b @ rest" "off \<le> length src"
  shows "decode_two_words env ty src off = (GOOD, a, b, off + 8)"
proof -
  have "UA_decodeBinaryInternal env (\<lambda>_. True) [] src off ty =
      (GOOD, Some (two_words a b), off + length (wire env ty (two_words a b)))"
    using two_words_wf [OF env ty] two_words_canonical [OF ty(2)] src two_words_wire [OF ty, of a b] env
    by (intro UA_decodeBinaryInternal_wire [where rest = rest]) (auto simp: transport_env_def)
  moreover have "length (wire env ty (two_words a b)) = 8"
    using two_words_wire [OF ty, of a b] by simp
  ultimately show ?thesis by (simp add: decode_two_words_def) (simp add: two_words_def)
qed

lemma decode_word_at:
  assumes env: "transport_env env"
    and src: "drop off src = UA_encode32 a @ rest" "off \<le> length src"
  shows "decode_word env src off = (GOOD, a, off + 4)"
proof -
  have "UA_decodeBinaryInternal env (\<lambda>_. True) [] src off 6 =
      (GOOD, Some (VU32 a), off + length (wire env 6 (VU32 a)))"
    using src env transport_kind_6 [OF env]
    by (intro UA_decodeBinaryInternal_wire [where rest = rest]) (auto simp: transport_env_def kind32_def)
  then show ?thesis by (simp add: decode_word_def)
qed

section \<open>Cutting framed chunks out of a buffer\<close>

definition framed :: "u32 \<Rightarrow> u32 \<Rightarrow> bytes \<Rightarrow> bool" where
  "framed mtype ctype m =
     ((mtype = UA_MESSAGETYPE_MSG \<or> mtype = UA_MESSAGETYPE_CLO) \<and>
      (ctype = UA_CHUNKTYPE_FINAL \<or> ctype = UA_CHUNKTYPE_INTERMEDIATE) \<and>
      take 8 m = UA_encode32 (mtype + ctype) @ UA_encode32 (of_nat (length m)) \<and>
      16 \<le> length m \<and> length m < 2 ^ 32)"

definition raw_chunk :: "u32 \<Rightarrow> u32 \<Rightarrow> bytes \<Rightarrow> UA_Chunk" where
  "raw_chunk mtype ctype m =
     \<lparr>chunk_bytes = m, messageType = mtype, chunkType = ctype, requestId = 0, copied = False\<rparr>"

lemma type_masks:
  assumes "mtype = UA_MESSAGETYPE_MSG \<or> mtype = UA_MESSAGETYPE_CLO"
    and "ctype = UA_CHUNKTYPE_FINAL \<or> ctype = UA_CHUNKTYPE_INTERMEDIATE"
  shows "(mtype + ctype) AND UA_BITMASK_MESSAGETYPE = mtype"
    and "(mtype + ctype) AND UA_BITMASK_CHUNKTYPE = ctype"
  using assms by (auto simp: type_defs UA_BITMASK_MESSAGETYPE_def UA_BITMASK_CHUNKTYPE_def)

lemma framed_header:
  assumes env: "transport_env env" and f: "framed mtype ctype m" and n: "8 \<le> n" "n \<le> length m"
  shows "decode_two_words env UA_TRANSPORT_TCPMESSAGEHEADER (pre @ take n m @ post) (length pre) =
    (GOOD, mtype + ctype, of_nat (length m), length pre + 8)"
proof -
  have "take n m = take 8 m @ take (n - 8) (drop 8 m)"
    using n by (metis append_take_drop_id le_add_diff_inverse take_add)
  then have "drop (length pre) (pre @ take n m @ post) =
      UA_encode32 (mtype + ctype) @ UA_encode32 (of_nat (length m)) @ (take (n - 8) (drop 8 m) @ post)"
    using f by (simp add: framed_def)
  then show ?thesis
    using env by (intro decode_two_words_at [where rest = "take (n - 8) (drop 8 m) @ post"])
      (auto simp: transport_env_def)
qed

lemma framed_length: "framed mtype ctype m \<Longrightarrow> unat (of_nat (length m) :: u32) = length m"
  by (simp add: framed_def unat_of_nat)

lemma extract_framed:
  assumes env: "transport_env (rx_types env)" and f: "framed mtype ctype m"
    and size: "length m \<le> unat (recvBufferSize (config ch))" and mem: "rx_mem env SIZEOF_CHUNK"
  shows "extractCompleteChunk env (pre @ m @ post) (length pre) ch =
    (GOOD, length pre + length m, False,
     ch\<lparr>completeChunks := completeChunks ch @ [raw_chunk mtype ctype m]\<rparr>)"
proof -
  have d: "decode_two_words (rx_types env) UA_TRANSPORT_TCPMESSAGEHEADER (pre @ m @ post) (length pre) =
      (GOOD, mtype + ctype, of_nat (length m), length pre + 8)"
    using framed_header [OF env f, of "length m" pre post] f by (simp add: framed_def)
  have u: "unat (of_nat (length m) :: u32) = length m" by (rule framed_length [OF f])
  have le: "\<not> (recvBufferSize (config ch) < (of_nat (length m) :: u32))"
    using size u by (simp add: word_less_nat_alt)
  have t: "mtype = UA_MESSAGETYPE_MSG \<or> mtype = UA_MESSAGETYPE_CLO"
    "ctype = UA_CHUNKTYPE_FINAL \<or> ctype = UA_CHUNKTYPE_INTERMEDIATE" "16 \<le> length m"
    using f by (auto simp: framed_def)
  have n: "mtype \<noteq> UA_MESSAGETYPE_HEL" "mtype \<noteq> UA_MESSAGETYPE_ACK" "mtype \<noteq> UA_MESSAGETYPE_ERR"
    "mtype \<noteq> UA_MESSAGETYPE_OPN"
    using t(1) by (auto simp: type_defs)
  have g: "\<not> (mtype \<noteq> UA_MESSAGETYPE_MSG \<and> mtype \<noteq> UA_MESSAGETYPE_CLO)"
    "\<not> (ctype \<noteq> UA_CHUNKTYPE_FINAL \<and> ctype \<noteq> UA_CHUNKTYPE_INTERMEDIATE \<and> ctype \<noteq> UA_CHUNKTYPE_ABORT)"
    using t by auto
  show ?thesis
    unfolding extractCompleteChunk_def Let_def d prod.case type_masks [OF t(1,2)] u
    using t(3) le n g mem by (simp add: raw_chunk_def not_less)
qed

lemma extract_partial:
  assumes env: "transport_env (rx_types env)" and f: "framed mtype ctype m"
    and size: "length m \<le> unat (recvBufferSize (config ch))" and n: "n < length m"
  shows "extractCompleteChunk env (pre @ take n m) (length pre) ch = (GOOD, length pre, True, ch)"
proof (cases "n < 8")
  case True
  then show ?thesis using n by (simp add: extractCompleteChunk_def)
next
  case False
  have d: "decode_two_words (rx_types env) UA_TRANSPORT_TCPMESSAGEHEADER (pre @ take n m) (length pre) =
      (GOOD, mtype + ctype, of_nat (length m), length pre + 8)"
    using framed_header [OF env f, of n pre "[]"] False n by simp
  have u: "unat (of_nat (length m) :: u32) = length m" by (rule framed_length [OF f])
  have le: "\<not> (recvBufferSize (config ch) < (of_nat (length m) :: u32))"
    using size u by (simp add: word_less_nat_alt)
  have "16 \<le> length m" using f by (simp add: framed_def)
  then show ?thesis
    unfolding extractCompleteChunk_def Let_def d prod.case u
    using le n False by simp
qed

text \<open>A remainder that does not contain another whole chunk.\<close>

definition unfinished :: "'k UA_SecureChannel \<Rightarrow> bytes \<Rightarrow> bool" where
  "unfinished ch r =
     (r = [] \<or> (\<exists>mtype ctype m n. framed mtype ctype m \<and> length m \<le> unat (recvBufferSize (config ch)) \<and>
        n < length m \<and> r = take n m))"

lemma extractChunks_stream:
  assumes env: "transport_env (rx_types env)" and mem: "rx_mem env SIZEOF_CHUNK"
    and r: "unfinished ch r"
    and all: "\<forall>(ctype, m) \<in> set cs. framed mtype ctype m \<and> length m \<le> unat (recvBufferSize (config ch))"
  shows "extractChunks env (pre @ concat (map snd cs) @ r) (length pre) ch =
    (GOOD, length pre + length (concat (map snd cs)),
     ch\<lparr>completeChunks := completeChunks ch @ map (\<lambda>(ctype, m). raw_chunk mtype ctype m) cs\<rparr>)"
  using r all
proof (induction cs arbitrary: pre ch)
  case Nil
  have "extractCompleteChunk env (pre @ r) (length pre) ch = (GOOD, length pre, True, ch)"
    using Nil(1) extract_partial [OF env, of _ _ _ ch _ pre]
    by (auto simp: unfinished_def extractCompleteChunk_def)
  then show ?case by (subst extractChunks.simps) simp
next
  case (Cons c cs)
  obtain ctype m where c: "c = (ctype, m)" by fastforce
  have f: "framed mtype ctype m" "length m \<le> unat (recvBufferSize (config ch))"
    using Cons.prems(2) c by auto
  let ?ch = "ch\<lparr>completeChunks := completeChunks ch @ [raw_chunk mtype ctype m]\<rparr>"
  have u: "unfinished ?ch r" using Cons.prems(1) by (simp add: unfinished_def)
  have e: "extractCompleteChunk env (pre @ m @ concat (map snd cs) @ r) (length pre) ch =
      (GOOD, length pre + length m, False, ?ch)"
    by (rule extract_framed [OF env f mem])
  have "extractChunks env ((pre @ m) @ concat (map snd cs) @ r) (length (pre @ m)) ?ch =
      (GOOD, length (pre @ m) + length (concat (map snd cs)),
       ?ch\<lparr>completeChunks := completeChunks ?ch @ map (\<lambda>(ctype, m). raw_chunk mtype ctype m) cs\<rparr>)"
    using Cons.prems(2) by (intro Cons.IH [OF u]) auto
  then show ?case
    using e c by (subst extractChunks.simps) simp
qed

section \<open>Unpacking a chunk that was sent\<close>

text \<open>
  \<open>receiver_ok env rch ch\<close>: the channel \<open>rch\<close> is the other end of the sending channel \<open>ch\<close>: it has the
  same security mode and channel id, keys that fit, a receive buffer that is not smaller than the
  send buffer of the peer, no pending token and no time-out; memory is available.
\<close>

definition receiver_ok ::
    "('app, 'l) rx_env \<Rightarrow> 'l UA_SecureChannel \<Rightarrow> 'k UA_SecureChannel \<Rightarrow> bool" where
  "receiver_ok env rch ch =
     (transport_env (rx_types env) \<and> (\<forall>n. rx_mem env n) \<and> securityPolicy rch \<noteq> None \<and>
      securityMode rch = securityMode ch \<and>
      channelId (securityToken rch) = channelId (securityToken ch) \<and>
      (renewState rch = RENEWSTATE_NORMAL \<or> renewState rch = RENEWSTATE_SENT) \<and>
      state rch \<noteq> SECURECHANNELSTATE_CLOSED \<and>
      \<not> (state rch = SECURECHANNELSTATE_OPEN \<and> token_timed_out (rx_now env) (securityToken rch)) \<and>
      unat (sendBufferSize (config ch)) \<le> unat (recvBufferSize (config rch)) \<and>
      crypto_pair (securityMode ch) (sym_module ch) (channelContext ch) (sym_module rch)
        (channelContext rch))"

definition opened_chunk :: "u32 \<Rightarrow> u32 \<Rightarrow> u32 \<Rightarrow> bytes \<Rightarrow> UA_Chunk" where
  "opened_chunk mtype ctype req body =
     \<lparr>chunk_bytes = body, messageType = mtype, chunkType = ctype, requestId = req, copied = False\<rparr>"

lemma mtype_not_OPN:
  "mtype = UA_MESSAGETYPE_MSG \<or> mtype = UA_MESSAGETYPE_CLO \<Longrightarrow> mtype \<noteq> UA_MESSAGETYPE_OPN"
  by (auto simp: type_defs)

lemma chunk_msg_opens:
  assumes pair: "crypto_pair (securityMode ch) (sym_module ch) (channelContext ch) cm' (channelContext rch)"
    and mode: "securityMode rch = securityMode ch" and mt: "mt \<noteq> UA_MESSAGETYPE_OPN"
    and m: "chunk_msg ch mtype ctype seqn req body msg"
  shows "length msg = chunk_total ch (length body)"
    and "take 16 msg = UA_encode32 (mtype + ctype) @ UA_encode32 (of_nat (chunk_total ch (length body))) @
      UA_encode32 (channelId (securityToken ch)) @ UA_encode32 (tokenId (securityToken ch))"
    and "securityMode ch = SECURITYMODE_NONE \<or> 2 \<le> length body \<Longrightarrow>
      decryptAndVerifyChunk rch cm' mt msg 16 =
        (GOOD, sym_header (mtype + ctype) (chunk_total ch (length body)) (channelId (securityToken ch))
           (tokenId (securityToken ch)) seqn req @ body)"
    and "securityMode ch \<noteq> SECURITYMODE_NONE \<Longrightarrow> length body < 2 \<Longrightarrow>
      fst (decryptAndVerifyChunk rch cm' mt msg 16) = UA_STATUSCODE_BADSECURITYCHECKSFAILED"
proof -
  note o = chunk_opens [OF pair length_sym_header mt m [unfolded chunk_msg_def], of rch, OF mode refl]
  show "length msg = chunk_total ch (length body)" by (rule o(1))
  show "take 16 msg = UA_encode32 (mtype + ctype) @ UA_encode32 (of_nat (chunk_total ch (length body))) @
      UA_encode32 (channelId (securityToken ch)) @ UA_encode32 (tokenId (securityToken ch))"
    using o(2) by (simp add: sym_header_def)
  show "securityMode ch = SECURITYMODE_NONE \<or> 2 \<le> length body \<Longrightarrow>
      decryptAndVerifyChunk rch cm' mt msg 16 =
        (GOOD, sym_header (mtype + ctype) (chunk_total ch (length body)) (channelId (securityToken ch))
           (tokenId (securityToken ch)) seqn req @ body)" by (rule o(4))
  show "securityMode ch \<noteq> SECURITYMODE_NONE \<Longrightarrow> length body < 2 \<Longrightarrow>
      fst (decryptAndVerifyChunk rch cm' mt msg 16) = UA_STATUSCODE_BADSECURITYCHECKSFAILED" by (rule o(5))
qed

lemma chunk_msg_framed:
  assumes pair: "crypto_pair (securityMode ch) (sym_module ch) (channelContext ch) cm' cc'"
    and m: "chunk_msg ch mtype ctype seqn req body msg"
    and t: "mtype = UA_MESSAGETYPE_MSG \<or> mtype = UA_MESSAGETYPE_CLO"
      "ctype = UA_CHUNKTYPE_FINAL \<or> ctype = UA_CHUNKTYPE_INTERMEDIATE"
    and size: "chunk_total ch (length body) \<le> unat (sendBufferSize (config ch))"
  shows "framed mtype ctype msg"
proof -
  let ?rch = "(UA_SecureChannel_init undefined)\<lparr>securityMode := securityMode ch, channelContext := cc'\<rparr>"
  have p: "crypto_pair (securityMode ch) (sym_module ch) (channelContext ch) cm' (channelContext ?rch)"
    using pair by simp
  note o = chunk_msg_opens [OF p _ mtype_not_OPN [OF t(1)] m]
  have "take 8 msg = take 8 (take 16 msg)" by (simp add: min_def)
  also have "\<dots> = UA_encode32 (mtype + ctype) @ UA_encode32 (of_nat (length msg))"
    using o(1,2) by simp
  finally have "take 8 msg = UA_encode32 (mtype + ctype) @ UA_encode32 (of_nat (length msg))" .
  moreover have "16 \<le> length msg" using o(1) by (simp add: chunk_total_def)
  moreover have "unat (sendBufferSize (config ch)) < 2 ^ 32"
    using unsigned_less [of "sendBufferSize (config ch)"] by simp
  then have "length msg < 2 ^ 32" using o(1) size by simp
  ultimately show ?thesis using t by (simp add: framed_def)
qed

lemma unpack_sent:
  assumes rx: "receiver_ok env rch ch" and m: "chunk_msg ch mtype ctype seqn req body msg"
    and t: "mtype = UA_MESSAGETYPE_MSG \<or> mtype = UA_MESSAGETYPE_CLO"
    and sq: "receiveSequenceNumber rch + 1 = seqn"
    and len: "securityMode ch = SECURITYMODE_NONE \<or> 2 \<le> length body"
  shows "unpackPayloadMSG env rch (raw_chunk mtype ctype msg) =
    (GOOD, opened_chunk mtype ctype req body, rch\<lparr>receiveSequenceNumber := seqn\<rparr>)"
proof -
  have env: "transport_env (rx_types env)" using rx by (simp add: receiver_ok_def)
  have pair: "crypto_pair (securityMode ch) (sym_module ch) (channelContext ch) (sym_module rch)
      (channelContext rch)" and mode: "securityMode rch = securityMode ch"
    using rx by (simp_all add: receiver_ok_def)
  note o = chunk_msg_opens [OF pair mode mtype_not_OPN [OF t] m]
  define rest where "rest = drop 16 msg"
  have msg: "msg = UA_encode32 (mtype + ctype) @ UA_encode32 (of_nat (chunk_total ch (length body))) @
      UA_encode32 (channelId (securityToken ch)) @ UA_encode32 (tokenId (securityToken ch)) @ rest"
    unfolding rest_def using o(2) by (metis append.assoc append_take_drop_id)
  have d1: "decode_word (rx_types env) msg 8 = (GOOD, channelId (securityToken ch), 12)"
    using decode_word_at [OF env, of 8 msg "channelId (securityToken ch)"] by (simp add: msg)
  have d2: "decode_word (rx_types env) msg 12 = (GOOD, tokenId (securityToken ch), 16)"
    using decode_word_at [OF env, of 12 msg "tokenId (securityToken ch)"] by (simp add: msg)
  let ?plain = "sym_header (mtype + ctype) (chunk_total ch (length body)) (channelId (securityToken ch))
           (tokenId (securityToken ch)) seqn req @ body"
  have d3: "decode_two_words (rx_types env) UA_TRANSPORT_SEQUENCEHEADER ?plain 16 = (GOOD, seqn, req, 24)"
    using env decode_two_words_at [OF env, of UA_TRANSPORT_SEQUENCEHEADER 16 ?plain seqn req body]
    by (simp add: transport_env_def sym_header_def)
  have sym: "checkSymHeader (rx_mem env) (rx_now env) tid rch = (GOOD, rch)" for tid
    using rx by (auto simp: checkSymHeader_def check_timeout_def receiver_ok_def)
  obtain sp where sp: "securityPolicy rch = Some sp" using rx by (auto simp: receiver_ok_def)
  have dv: "decryptAndVerifyChunk rch (symmetricModule sp) mtype msg 16 = (GOOD, ?plain)"
    using o(3) [OF len] sp by (simp add: sym_module_def)
  have ps: "processSequenceNumberSym seqn rch = (GOOD, rch\<lparr>receiveSequenceNumber := seqn\<rparr>)"
    using sq by (simp add: processSequenceNumberSym_def)
  show ?thesis
    using rx sp d1 d2 sym dv d3 ps
    by (simp add: unpackPayloadMSG_def raw_chunk_def opened_chunk_def receiver_ok_def)
qed

section \<open>Collecting the chunks of a message\<close>

definition within_limits :: "'l UA_SecureChannel \<Rightarrow> nat \<Rightarrow> nat \<Rightarrow> bool" where
  "within_limits rch n len =
     ((localMaxChunkCount (config rch) = 0 \<or> n \<le> unat (localMaxChunkCount (config rch))) \<and>
      (localMaxMessageSize (config rch) = 0 \<or> len \<le> unat (localMaxMessageSize (config rch))))"

lemma within_limits_mono:
  "within_limits rch n len \<Longrightarrow> n' \<le> n \<Longrightarrow> len' \<le> len \<Longrightarrow> within_limits rch n' len'"
  by (auto simp: within_limits_def)

text \<open>
  \<open>collected rch0 mtype req bodies rch\<close>: \<open>rch\<close> is \<open>rch0\<close> after it has received intermediate chunks
  with these bodies; its other queues are free.
\<close>

definition idle :: "'l UA_SecureChannel \<Rightarrow> bool" where
  "idle rch =
     (completeChunks rch = [] \<and> decryptedChunks rch = [] \<and> decryptedChunksCount rch = 0 \<and>
      decryptedChunksLength rch = 0 \<and> incompleteChunk rch = [])"

definition collected ::
    "'l UA_SecureChannel \<Rightarrow> u32 \<Rightarrow> u32 \<Rightarrow> bytes list \<Rightarrow> 'l UA_SecureChannel \<Rightarrow> bool" where
  "collected rch0 mtype req bodies rch =
     (rch\<lparr>receiveSequenceNumber := receiveSequenceNumber rch0, decryptedChunks := decryptedChunks rch0,
          decryptedChunksCount := decryptedChunksCount rch0,
          decryptedChunksLength := decryptedChunksLength rch0,
          completeChunks := completeChunks rch0, incompleteChunk := incompleteChunk rch0\<rparr> = rch0 \<and>
      receiveSequenceNumber rch = receiveSequenceNumber rch0 + of_nat (length bodies) \<and>
      decryptedChunksCount rch = length bodies \<and> decryptedChunksLength rch = length (concat bodies) \<and>
      map chunk_bytes (decryptedChunks rch) = bodies \<and>
      (\<forall>d \<in> set (decryptedChunks rch). messageType d = mtype \<and>
         chunkType d = UA_CHUNKTYPE_INTERMEDIATE \<and> requestId d = req))"

lemma collectedE:
  assumes "collected rch0 mtype req bodies rch"
  obtains ds q r where "rch = rch0\<lparr>receiveSequenceNumber := receiveSequenceNumber rch0 + of_nat (length bodies),
          decryptedChunks := ds, decryptedChunksCount := length bodies,
          decryptedChunksLength := length (concat bodies), completeChunks := q, incompleteChunk := r\<rparr>"
    and "map chunk_bytes ds = bodies" "\<forall>d \<in> set ds. messageType d = mtype \<and>
        chunkType d = UA_CHUNKTYPE_INTERMEDIATE \<and> requestId d = req"
proof
  have e: "rch\<lparr>receiveSequenceNumber := receiveSequenceNumber rch0, decryptedChunks := decryptedChunks rch0,
          decryptedChunksCount := decryptedChunksCount rch0,
          decryptedChunksLength := decryptedChunksLength rch0,
          completeChunks := completeChunks rch0, incompleteChunk := incompleteChunk rch0\<rparr> = rch0"
    using assms by (simp add: collected_def)
  show "rch = rch0\<lparr>receiveSequenceNumber := receiveSequenceNumber rch0 + of_nat (length bodies),
          decryptedChunks := decryptedChunks rch, decryptedChunksCount := length bodies,
          decryptedChunksLength := length (concat bodies), completeChunks := completeChunks rch,
          incompleteChunk := incompleteChunk rch\<rparr>"
    using arg_cong [OF e, of "\<lambda>x. x\<lparr>receiveSequenceNumber := receiveSequenceNumber rch,
          decryptedChunks := decryptedChunks rch, decryptedChunksCount := decryptedChunksCount rch,
          decryptedChunksLength := decryptedChunksLength rch, completeChunks := completeChunks rch,
          incompleteChunk := incompleteChunk rch\<rparr>"] assms
    by (simp add: collected_def)
qed (use assms in \<open>simp_all add: collected_def\<close>)

lemma collected_queues:
  "collected rch0 mtype req bodies rch \<Longrightarrow>
   collected rch0 mtype req bodies (rch\<lparr>completeChunks := q, incompleteChunk := r\<rparr>)"
  "collected rch0 mtype req bodies rch \<Longrightarrow>
   collected rch0 mtype req bodies (rch\<lparr>completeChunks := q\<rparr>)"
  "collected rch0 mtype req bodies rch \<Longrightarrow>
   collected rch0 mtype req bodies (rch\<lparr>incompleteChunk := r\<rparr>)"
  by (simp_all add: collected_def)

lemma idle_collected: "idle rch \<Longrightarrow> collected rch mtype req [] rch"
  by (simp add: collected_def idle_def)

lemma collected_receiver:
  assumes "collected rch0 mtype req bodies rch"
  shows "receiver_ok env rch ch = receiver_ok env rch0 ch" and "config rch = config rch0"
    and "state rch = state rch0"
    and "receiveSequenceNumber rch = receiveSequenceNumber rch0 + of_nat (length bodies)"
  by (rule collectedE [OF assms], simp add: receiver_ok_def sym_module_def)+

lemma mtype_dispatch:
  assumes "mtype = UA_MESSAGETYPE_MSG \<or> mtype = UA_MESSAGETYPE_CLO" "state rch \<noteq> SECURECHANNELSTATE_CLOSED"
  shows "unpackChunk env app rch (raw_chunk mtype ctype msg) =
    (case unpackPayloadMSG env rch (raw_chunk mtype ctype msg) of (res, chunk, ch) \<Rightarrow> (res, chunk, app, ch))"
  using assms mtype_not_OPN [OF assms(1)] by (auto simp: unpackChunk_def raw_chunk_def)

lemma processChunk_intermediate:
  assumes rx: "receiver_ok env rch0 ch" and c: "collected rch0 mtype req bodies rch"
    and m: "chunk_msg ch mtype UA_CHUNKTYPE_INTERMEDIATE (receiveSequenceNumber rch + 1) req body msg"
    and t: "mtype = UA_MESSAGETYPE_MSG \<or> mtype = UA_MESSAGETYPE_CLO"
    and len: "securityMode ch = SECURITYMODE_NONE \<or> 2 \<le> length body"
    and lim: "within_limits rch0 (length bodies + 1) (length (concat bodies) + length body)"
  obtains rch' where "processChunk env app rch (raw_chunk mtype UA_CHUNKTYPE_INTERMEDIATE msg) = (GOOD, app, rch')"
    and "collected rch0 mtype req (bodies @ [body]) rch'"
    and "completeChunks rch' = completeChunks rch" "incompleteChunk rch' = incompleteChunk rch"
proof -
  have rx': "receiver_ok env rch ch" using rx by (simp add: collected_receiver(1) [OF c])
  have st: "state rch \<noteq> SECURECHANNELSTATE_CLOSED" using rx' by (simp add: receiver_ok_def)
  note u = unpack_sent [OF rx' m t refl len]
  obtain ds q r where rch: "rch = rch0\<lparr>receiveSequenceNumber := receiveSequenceNumber rch0 + of_nat (length bodies),
          decryptedChunks := ds, decryptedChunksCount := length bodies,
          decryptedChunksLength := length (concat bodies), completeChunks := q, incompleteChunk := r\<rparr>"
    and ds: "map chunk_bytes ds = bodies" "\<forall>d \<in> set ds. messageType d = mtype \<and>
        chunkType d = UA_CHUNKTYPE_INTERMEDIATE \<and> requestId d = req"
    by (rule collectedE [OF c])
  let ?o = "opened_chunk mtype UA_CHUNKTYPE_INTERMEDIATE req body"
  let ?rch' = "rch\<lparr>receiveSequenceNumber := receiveSequenceNumber rch + 1, decryptedChunks := ds @ [?o],
      decryptedChunksCount := length bodies + 1, decryptedChunksLength := length (concat bodies) + length body\<rparr>"
  show thesis
  proof
    have ob: "chunk_bytes ?o = body" "chunkType ?o = UA_CHUNKTYPE_INTERMEDIATE"
      by (simp_all add: opened_chunk_def)
    show "processChunk env app rch (raw_chunk mtype UA_CHUNKTYPE_INTERMEDIATE msg) = (GOOD, app, ?rch')"
      unfolding processChunk_def mtype_dispatch [OF t st] u prod.case Let_def ob
      using lim by (auto simp: rch within_limits_def)
    show "collected rch0 mtype req (bodies @ [body]) ?rch'"
      using ds by (auto simp: collected_def rch opened_chunk_def)
  qed (simp_all add: rch)
qed

lemma scanChunks_all:
  assumes "\<forall>d \<in> set ds. messageType d = mtype \<and> chunkType d = UA_CHUNKTYPE_INTERMEDIATE \<and> requestId d = req"
    and "messageType l = mtype" "chunkType l = UA_CHUNKTYPE_FINAL" "requestId l = req"
  shows "fst (scanChunks req mtype UA_CHUNKTYPE_INTERMEDIATE (ds @ [l]) n) = GOOD"
    and "joinChunks (ds @ [l]) = (concat (map chunk_bytes ds) @ chunk_bytes l, [])"
  using assms by (induction ds arbitrary: n) (auto simp: type_defs)

lemma processChunk_final:
  assumes rx: "receiver_ok env rch0 ch" and c: "collected rch0 mtype req bodies rch"
    and m: "chunk_msg ch mtype UA_CHUNKTYPE_FINAL (receiveSequenceNumber rch + 1) req body msg"
    and t: "mtype = UA_MESSAGETYPE_MSG \<or> mtype = UA_MESSAGETYPE_CLO"
    and len: "securityMode ch = SECURITYMODE_NONE \<or> 2 \<le> length body"
    and lim: "within_limits rch0 (length bodies + 1) (length (concat bodies) + length body)"
  shows "processChunk env app rch (raw_chunk mtype UA_CHUNKTYPE_FINAL msg) =
    rx_callback env app
      (rch0\<lparr>completeChunks := completeChunks rch, incompleteChunk := incompleteChunk rch,
        receiveSequenceNumber := receiveSequenceNumber rch0 + of_nat (length bodies) + 1,
        decryptedChunksCount := 0, decryptedChunksLength := 0, decryptedChunks := []\<rparr>)
      mtype req (concat bodies @ body)"
proof -
  have rx': "receiver_ok env rch ch" using rx by (simp add: collected_receiver(1) [OF c])
  have st: "state rch \<noteq> SECURECHANNELSTATE_CLOSED" using rx' by (simp add: receiver_ok_def)
  have mem: "rx_mem env n" for n using rx by (simp add: receiver_ok_def)
  note u = unpack_sent [OF rx' m t refl len]
  obtain ds q r where rch: "rch = rch0\<lparr>receiveSequenceNumber := receiveSequenceNumber rch0 + of_nat (length bodies),
          decryptedChunks := ds, decryptedChunksCount := length bodies,
          decryptedChunksLength := length (concat bodies), completeChunks := q, incompleteChunk := r\<rparr>"
    and ds: "map chunk_bytes ds = bodies" "\<forall>d \<in> set ds. messageType d = mtype \<and>
        chunkType d = UA_CHUNKTYPE_INTERMEDIATE \<and> requestId d = req"
    by (rule collectedE [OF c])
  let ?o = "opened_chunk mtype UA_CHUNKTYPE_FINAL req body"
  have ob: "chunk_bytes ?o = body" "chunkType ?o = UA_CHUNKTYPE_FINAL" "messageType ?o = mtype"
      "requestId ?o = req"
    by (simp_all add: opened_chunk_def)
  have ct: "UA_CHUNKTYPE_FINAL \<noteq> UA_CHUNKTYPE_INTERMEDIATE" "UA_CHUNKTYPE_FINAL \<noteq> UA_CHUNKTYPE_ABORT"
    by (simp_all add: type_defs)
  let ?ch2 = "rch0\<lparr>completeChunks := q, incompleteChunk := r,
        receiveSequenceNumber := receiveSequenceNumber rch0 + of_nat (length bodies) + 1,
        decryptedChunks := ds @ [?o], decryptedChunksCount := 0, decryptedChunksLength := 0\<rparr>"
  have a: "processChunk env app rch (raw_chunk mtype UA_CHUNKTYPE_FINAL msg) = assembleProcessMessage env app ?ch2"
    unfolding processChunk_def mtype_dispatch [OF t st] u prod.case Let_def ob
    using lim ct by (auto simp: rch within_limits_def)
  note sc = scanChunks_all [OF ds(2) ob(3,2,4)]
  show ?thesis
  proof (cases ds)
    case Nil
    then show ?thesis using a ob ds(1) by (simp add: assembleProcessMessage_def rch)
  next
    case (Cons d ds')
    have d: "messageType d = mtype" "chunkType d = UA_CHUNKTYPE_INTERMEDIATE" "requestId d = req"
      using ds(2) Cons by auto
    have dec: "decryptedChunks ?ch2 = d # (ds' @ [?o])" using Cons by simp
    obtain n where n: "scanChunks req mtype UA_CHUNKTYPE_INTERMEDIATE (ds @ [?o]) 0 = (GOOD, n)"
      using sc(1) [of 0] by (cases "scanChunks req mtype UA_CHUNKTYPE_INTERMEDIATE (ds @ [?o]) 0") auto
    have "assembleProcessMessage env app ?ch2 =
        rx_callback env app (?ch2\<lparr>decryptedChunks := []\<rparr>) mtype req (concat bodies @ body)"
      unfolding assembleProcessMessage_def dec list.case d
      using ct n [unfolded Cons append_Cons] sc(2) [unfolded ds(1) ob(1), unfolded Cons append_Cons] mem
      by (simp add: ByteString_allocBuffer_def del: scanChunks.simps joinChunks.simps)
    then show ?thesis using a by (simp add: rch)
  qed
qed

section \<open>The stream of a message\<close>

text \<open>
  A message as the receiver sees it: chunk type, chunk and body of each chunk. Only the last chunk is
  final; the sequence numbers count up from \<open>seqn + 1\<close>.
\<close>

fun stream_run ::
    "'k UA_SecureChannel \<Rightarrow> u32 \<Rightarrow> u32 \<Rightarrow> u32 \<Rightarrow> (u32 \<times> bytes \<times> bytes) list \<Rightarrow> bool" where
  "stream_run ch mtype req seqn [] = True"
| "stream_run ch mtype req seqn ((ctype, m, b) # cs) =
     (chunk_msg ch mtype ctype (seqn + 1) req b m \<and>
      ctype = (if cs = [] then UA_CHUNKTYPE_FINAL else UA_CHUNKTYPE_INTERMEDIATE) \<and>
      (securityMode ch = SECURITYMODE_NONE \<or> 2 \<le> length b) \<and>
      chunk_total ch (length b) \<le> unat (sendBufferSize (config ch)) \<and>
      stream_run ch mtype req (seqn + 1) cs)"

abbreviation msg_of :: "u32 \<times> bytes \<times> bytes \<Rightarrow> bytes" where "msg_of c \<equiv> fst (snd c)"
abbreviation body_of :: "u32 \<times> bytes \<times> bytes \<Rightarrow> bytes" where "body_of c \<equiv> snd (snd c)"
abbreviation raw_of :: "u32 \<Rightarrow> u32 \<times> bytes \<times> bytes \<Rightarrow> UA_Chunk" where
  "raw_of mtype c \<equiv> raw_chunk mtype (fst c) (msg_of c)"

lemma stream_run_append:
  "stream_run ch mtype req seqn (cs1 @ cs2) \<Longrightarrow> stream_run ch mtype req (seqn + of_nat (length cs1)) cs2"
proof (induction cs1 arbitrary: seqn)
  case (Cons c cs1)
  then have "stream_run ch mtype req (seqn + 1 + of_nat (length cs1)) cs2"
    by (cases c) auto
  then show ?case by (simp add: add.assoc)
qed simp

lemma stream_run_framed:
  assumes "receiver_ok env rch ch" "mtype = UA_MESSAGETYPE_MSG \<or> mtype = UA_MESSAGETYPE_CLO"
  shows "stream_run ch mtype req seqn cs \<Longrightarrow> c \<in> set cs \<Longrightarrow>
    framed mtype (fst c) (msg_of c) \<and> length (msg_of c) \<le> unat (recvBufferSize (config rch))"
proof (induction cs arbitrary: seqn)
  case (Cons x cs)
  have pair: "crypto_pair (securityMode ch) (sym_module ch) (channelContext ch) (sym_module rch)
      (channelContext rch)" and mode: "securityMode rch = securityMode ch"
    and buf: "unat (sendBufferSize (config ch)) \<le> unat (recvBufferSize (config rch))"
    using assms(1) by (simp_all add: receiver_ok_def)
  show ?case
  proof (cases "c = x")
    case True
    obtain ctype m b where x: "x = (ctype, m, b)" by (cases x)
    have cm: "chunk_msg ch mtype ctype (seqn + 1) req b m"
      and ct: "ctype = UA_CHUNKTYPE_FINAL \<or> ctype = UA_CHUNKTYPE_INTERMEDIATE"
      and tot: "chunk_total ch (length b) \<le> unat (sendBufferSize (config ch))"
      using Cons.prems(1) x by auto
    have "framed mtype ctype m" by (rule chunk_msg_framed [OF pair cm assms(2) ct tot])
    moreover have "length m = chunk_total ch (length b)"
      by (rule chunk_msg_opens(1) [OF pair mode mtype_not_OPN [OF assms(2)] cm])
    ultimately show ?thesis using True x tot buf by simp
  next
    case False
    then show ?thesis using Cons by (cases x) auto
  qed
qed simp

text \<open>Processing a run of intermediate chunks.\<close>

lemma process_run:
  assumes rx: "receiver_ok env rch0 ch" and t: "mtype = UA_MESSAGETYPE_MSG \<or> mtype = UA_MESSAGETYPE_CLO"
  shows "stream_run ch mtype req (receiveSequenceNumber rch) (cs1 @ cs2) \<Longrightarrow> cs2 \<noteq> [] \<Longrightarrow>
    collected rch0 mtype req done rch \<Longrightarrow> completeChunks rch = map (raw_of mtype) cs1 @ q \<Longrightarrow>
    within_limits rch0 (length done + length cs1) (length (concat done) + length (concat (map body_of cs1))) \<Longrightarrow>
    \<exists>rch'. processChunks env app rch = processChunks env app rch' \<and>
      collected rch0 mtype req (done @ map body_of cs1) rch' \<and> completeChunks rch' = q \<and>
      incompleteChunk rch' = incompleteChunk rch"
proof (induction cs1 arbitrary: rch "done")
  case Nil
  then show ?case by auto
next
  case (Cons c cs1)
  obtain ctype m b where c: "c = (ctype, m, b)" by (cases c)
  let ?rch1 = "rch\<lparr>completeChunks := map (raw_of mtype) cs1 @ q\<rparr>"
  have cm: "chunk_msg ch mtype UA_CHUNKTYPE_INTERMEDIATE (receiveSequenceNumber ?rch1 + 1) req b m"
    and len: "securityMode ch = SECURITYMODE_NONE \<or> 2 \<le> length b"
    and ct: "ctype = UA_CHUNKTYPE_INTERMEDIATE"
    and run: "stream_run ch mtype req (receiveSequenceNumber rch + 1) (cs1 @ cs2)"
    using Cons.prems(1,2) c by auto
  have lim: "within_limits rch0 (length done + 1) (length (concat done) + length b)"
    using Cons.prems(5) c by (auto intro: within_limits_mono)
  obtain rch2 where 2: "processChunk env app ?rch1 (raw_chunk mtype UA_CHUNKTYPE_INTERMEDIATE m) = (GOOD, app, rch2)"
    and c2: "collected rch0 mtype req (done @ [b]) rch2"
    and q2: "completeChunks rch2 = completeChunks ?rch1" "incompleteChunk rch2 = incompleteChunk ?rch1"
    by (rule processChunk_intermediate [OF rx collected_queues(2) [OF Cons.prems(3)] cm t len lim])
  have sq: "receiveSequenceNumber rch2 = receiveSequenceNumber rch + 1"
    using collected_receiver(4) [OF c2] collected_receiver(4) [OF Cons.prems(3)] by simp
  have "processChunks env app rch = processChunks env app rch2"
    using Cons.prems(4) c ct 2 by (subst processChunks.simps) simp
  moreover have "\<exists>rch'. processChunks env app rch2 = processChunks env app rch' \<and>
      collected rch0 mtype req ((done @ [b]) @ map body_of cs1) rch' \<and> completeChunks rch' = q \<and>
      incompleteChunk rch' = incompleteChunk rch2"
    using run sq q2(1) c2 Cons.prems(2,5) c by (intro Cons.IH) (simp_all add: add.assoc)
  ultimately show ?case using q2(2) c by auto
qed

lemma process_message:
  assumes rx: "receiver_ok env rch0 ch" and t: "mtype = UA_MESSAGETYPE_MSG \<or> mtype = UA_MESSAGETYPE_CLO"
    and run: "stream_run ch mtype req (receiveSequenceNumber rch) (cs @ [c])"
    and col: "collected rch0 mtype req done rch" and q: "completeChunks rch = map (raw_of mtype) (cs @ [c])"
    and lim: "within_limits rch0 (length done + length (cs @ [c]))
      (length (concat done) + length (concat (map body_of (cs @ [c]))))"
    and cb: "rx_callback env app
      (rch0\<lparr>completeChunks := [], incompleteChunk := incompleteChunk rch,
        receiveSequenceNumber := receiveSequenceNumber rch0 + of_nat (length done + length cs) + 1,
        decryptedChunksCount := 0, decryptedChunksLength := 0, decryptedChunks := []\<rparr>)
      mtype req (concat (done @ map body_of (cs @ [c]))) = (GOOD, app', ch')"
    and idle: "idle ch'"
  shows "processChunks env app rch = Some (GOOD, app', ch')"
proof -
  obtain rch' where 1: "processChunks env app rch = processChunks env app rch'"
    and col': "collected rch0 mtype req (done @ map body_of cs) rch'"
    and q': "completeChunks rch' = [raw_of mtype c]" "incompleteChunk rch' = incompleteChunk rch"
  proof -
    have app: "completeChunks rch = map (raw_of mtype) cs @ [raw_of mtype c]" using q by simp
    have "within_limits rch0 (length done + length cs) (length (concat done) + length (concat (map body_of cs)))"
      using lim by (auto intro: within_limits_mono)
    from process_run [OF rx t run _ col app this, of app] show ?thesis using that by auto
  qed
  obtain ctype m b where c: "c = (ctype, m, b)" by (cases c)
  let ?rch1 = "rch'\<lparr>completeChunks := []\<rparr>"
  have sq: "receiveSequenceNumber rch' = receiveSequenceNumber rch + of_nat (length cs)"
    using collected_receiver(4) [OF col'] collected_receiver(4) [OF col] by simp
  have cm: "chunk_msg ch mtype UA_CHUNKTYPE_FINAL (receiveSequenceNumber ?rch1 + 1) req b m"
    and len: "securityMode ch = SECURITYMODE_NONE \<or> 2 \<le> length b" and ct: "ctype = UA_CHUNKTYPE_FINAL"
    using stream_run_append [OF run] sq c by auto
  have lim': "within_limits rch0 (length (done @ map body_of cs) + 1)
      (length (concat (done @ map body_of cs)) + length b)"
    using lim c by (auto intro: within_limits_mono)
  have "processChunk env app ?rch1 (raw_chunk mtype UA_CHUNKTYPE_FINAL m) = (GOOD, app', ch')"
    using processChunk_final [OF rx collected_queues(2) [OF col'] cm t len lim'] cb q'(2) c by simp
  moreover have "processChunks env app' ch' = Some (GOOD, app', ch')"
    using idle by (subst processChunks.simps) (simp add: idle_def)
  ultimately show ?thesis using 1 q'(1) c ct by (subst (asm) (2) processChunks.simps) simp
qed

end
