(* ===== verification/Channel_Demo.thy ===== *)
theory Channel_Demo
  imports Channel_Stream
begin

text \<open>
  A concrete channel for the witnesses: the transport types, a security policy with a checksum as
  signature and a XOR cipher on blocks of 16 bytes, a network that accepts everything, the two ends
  of an open channel with send buffers of 64 bytes, and a byte string that is sent in two chunks.
\<close>

definition demo_types :: type_env where
  "demo_types =
     \<lparr>ty_at = (\<lambda>t. if t = 1000 \<or> t = 1001 then (ty_at demo_env t)\<lparr>members := [plain_member 6, plain_member 6]\<rparr>
                  else if t = 1002
                  then (ty_at demo_env t)\<lparr>members := [plain_member 14, plain_member 14, plain_member 14]\<rparr>
                  else ty_at demo_env t),
      UA_TYPES_COUNT = 26\<rparr>"

lemma demo_transport: "transport_env demo_types"
  by (simp add: transport_env_def builtin_env_def all_less_25 demo_types_def demo_env_def
      builtin_kind_list_def)

definition demo_signature :: "u8 UA_SecurityPolicySignatureAlgorithm" where
  "demo_signature =
     \<lparr>verify = (\<lambda>_ m s. if s = replicate 4 (sum_list m) then GOOD else UA_STATUSCODE_BADSECURITYCHECKSFAILED),
      sign = (\<lambda>_ m n. (GOOD, replicate n (sum_list m))),
      getLocalSignatureSize = (\<lambda>_. 4), getRemoteSignatureSize = (\<lambda>_. 4),
      getLocalSignKeyLength = (\<lambda>_. 1), getRemoteSignKeyLength = (\<lambda>_. 1)\<rparr>"

definition demo_cipher :: "u8 option \<Rightarrow> bytes \<Rightarrow> status \<times> bytes" where
  "demo_cipher cc d = (case cc of Some k \<Rightarrow> (GOOD, map (\<lambda>b. xor k b) d)
                      | None \<Rightarrow> (UA_STATUSCODE_BADINTERNALERROR, d))"

definition demo_encryption :: "u8 UA_SecurityPolicyEncryptionAlgorithm" where
  "demo_encryption =
     \<lparr>encryption_uri = [120], encrypt = demo_cipher, decrypt = demo_cipher,
      getLocalKeyLength = (\<lambda>_. 256), getRemoteKeyLength = (\<lambda>_. 256),
      getRemoteBlockSize = (\<lambda>_. 16), getRemotePlainTextBlockSize = (\<lambda>_. 16)\<rparr>"

definition demo_module :: "u8 UA_SecurityPolicyCryptoModule" where
  "demo_module = \<lparr>signatureAlgorithm = demo_signature, encryptionAlgorithm = demo_encryption\<rparr>"

definition demo_policy :: "u8 UA_SecurityPolicy" where
  "demo_policy =
     \<lparr>policyUri = [100], localCertificate = [], makeCertificateThumbprint = (\<lambda>_ b. (GOOD, b)),
      compareCertificateThumbprint = (\<lambda>_. GOOD), asymmetricModule = demo_module,
      generateKey = (\<lambda>_ _ b. (GOOD, b)), generateNonce = (\<lambda>b. (GOOD, b)),
      secureChannelNonceLength = 1, symmetricModule = demo_module,
      newContext = (\<lambda>_ _. (GOOD, Some 0)),
      setLocalSymEncryptingKey = (\<lambda>cc _. (GOOD, cc)), setLocalSymSigningKey = (\<lambda>cc _. (GOOD, cc)),
      setLocalSymIv = (\<lambda>cc _. (GOOD, cc)), setRemoteSymEncryptingKey = (\<lambda>cc _. (GOOD, cc)),
      setRemoteSymSigningKey = (\<lambda>cc _. (GOOD, cc)), setRemoteSymIv = (\<lambda>cc _. (GOOD, cc))\<rparr>"

definition demo_connection :: UA_Connection where
  "demo_connection =
     \<lparr>conn_state = CONNECTIONSTATE_ESTABLISHED, net_getSendBuffer = (\<lambda>_ n. (GOOD, n)),
      net_send = (\<lambda>_ _. GOOD), conn_calls = 6, conn_sent = [], conn_buffers = 0\<rparr>"

definition demo_config :: UA_ConnectionConfig where
  "demo_config =
     \<lparr>protocolVersion = 0, recvBufferSize = 64, sendBufferSize = 64, localMaxMessageSize = 0,
      remoteMaxMessageSize = 0, localMaxChunkCount = 0, remoteMaxChunkCount = 0\<rparr>"

definition demo_channel :: "UA_MessageSecurityMode \<Rightarrow> u8 UA_SecureChannel" where
  "demo_channel mode =
     (UA_SecureChannel_init demo_config)
       \<lparr>state := SECURECHANNELSTATE_OPEN, securityMode := mode,
        securityToken := \<lparr>channelId = 5, tokenId = 6, createdAt = 0, revisedLifetime = 1000\<rparr>,
        securityPolicy := Some demo_policy, channelContext := Some 0x5a,
        has_connection := True, connection := demo_connection,
        receiveSequenceNumber := 100, sendSequenceNumber := 100\<rparr>"

text \<open>A byte string of 40 bytes does not fit into one chunk.\<close>

definition demo_payload :: ua_val where
  "demo_payload = VString (Some (replicate 40 7))"

lemma demo_channel_simps [simp]:
  "state (demo_channel mode) = SECURECHANNELSTATE_OPEN" "securityMode (demo_channel mode) = mode"
  "config (demo_channel mode) = demo_config" "securityPolicy (demo_channel mode) = Some demo_policy"
  "channelContext (demo_channel mode) = Some 0x5a" "has_connection (demo_channel mode)"
  "connection (demo_channel mode) = demo_connection" "renewState (demo_channel mode) = RENEWSTATE_NORMAL"
  "receiveSequenceNumber (demo_channel mode) = 100" "sendSequenceNumber (demo_channel mode) = 100"
  "channelId (securityToken (demo_channel mode)) = 5" "tokenId (securityToken (demo_channel mode)) = 6"
  "sym_module (demo_channel mode) = demo_module"
  by (simp_all add: demo_channel_def UA_SecureChannel_init_def sym_module_def demo_policy_def)

lemma demo_network_simps [simp]:
  "conn_state demo_connection = CONNECTIONSTATE_ESTABLISHED" "conn_calls demo_connection = 6"
  "net_getSendBuffer demo_connection i n = (GOOD, n)" "net_send demo_connection i m = GOOD"
  "conn_sent demo_connection = []" "conn_buffers demo_connection = 0"
  "recvBufferSize demo_config = 64" "sendBufferSize demo_config = 64"
  "localMaxMessageSize demo_config = 0" "localMaxChunkCount demo_config = 0"
  by (simp_all add: demo_connection_def demo_config_def)

lemma demo_kind [simp]: "kind_at demo_types 14 = DK_BYTESTRING" "kind_at demo_types 16 = DK_NODEID"
  "binaryEncodingId (ty_at demo_types 14) = numeric_id 1014"
  by (simp_all add: demo_types_def demo_env_def builtin_kind_list_def)

lemma demo_module_simps [simp]:
  "getLocalSignatureSize (signatureAlgorithm demo_module) cc = 4"
  "getRemotePlainTextBlockSize (encryptionAlgorithm demo_module) cc = 16"
  "getRemoteKeyLength (encryptionAlgorithm demo_module) cc = 256"
  "sign (signatureAlgorithm demo_module) cc m n = (GOOD, replicate n (sum_list m))"
  "encrypt (encryptionAlgorithm demo_module) = demo_cipher" "symmetricModule demo_policy = demo_module"
  by (simp_all add: demo_module_def demo_signature_def demo_encryption_def demo_policy_def)

lemma xor_xor: "xor k (xor k b) = (b :: 'a :: len word)"
  by (simp flip: xor.assoc)

lemma demo_pair: "mode \<noteq> SECURITYMODE_INVALID \<Longrightarrow> crypto_pair mode demo_module (Some k) demo_module (Some k)"
  by (cases mode) (auto simp: crypto_pair_def signature_pair_def encryption_pair_def padding_ok_def
      sig_size_def block_size_def extra_padding_def demo_module_def demo_signature_def
      demo_encryption_def demo_cipher_def xor_xor comp_def)

section \<open>Sending a message in two chunks\<close>

abbreviation (input) SE :: UA_MessageSecurityMode where "SE \<equiv> SECURITYMODE_SIGNANDENCRYPT"

definition demo_context ::
    "nat \<Rightarrow> int \<Rightarrow> bytes list \<Rightarrow> u32 \<Rightarrow> u16 \<Rightarrow> nat \<Rightarrow> nat \<Rightarrow> bytes \<Rightarrow> nat \<Rightarrow> bool \<Rightarrow> u8 UA_MessageContext" where
  "demo_context calls bufs sent seqn chunks n len body room fin =
     \<lparr>mc_channel = (demo_channel SE)
        \<lparr>sendSequenceNumber := seqn,
         connection := demo_connection\<lparr>conn_calls := calls, conn_buffers := bufs, conn_sent := sent\<rparr>\<rparr>,
      mc_requestId = 9, mc_messageType = UA_MESSAGETYPE_MSG, chunksSoFar = chunks,
      messageSizeSoFar = n, mc_bufferLength = len, mc_body = body, mc_room = room, final = fin\<rparr>"

definition demo_chunk1 :: bytes where
  "demo_chunk1 =
     [0x4D, 0x53, 0x47, 0x43, 64, 0, 0, 0, 5, 0, 0, 0, 6, 0, 0, 0] @
     [63, 90, 90, 90, 83, 90, 90, 90, 91, 90, 172, 89, 114, 90, 90, 90] @ replicate 27 93 @
     [90, 152, 152, 152, 152]"

definition demo_chunk2 :: bytes where
  "demo_chunk2 =
     [0x4D, 0x53, 0x47, 0x46, 48, 0, 0, 0, 5, 0, 0, 0, 6, 0, 0, 0] @
     [60, 90, 90, 90, 83, 90, 90, 90] @ replicate 13 93 @ replicate 7 92 @ [6, 6, 6, 6]"

lemmas chunk_eval = demo_context_def sendSymmetricChunk_eq [OF demo_transport]
  adjustCheckMessageLimitsSym_def plain_chunk_def chunk_total_def chunk_padding_def chunk_sig_size_def
  sig_size_def signs_def signAndEncryptSym_def Let_def sym_module_def length_padChunk padding_fill_def
  size_bytes_def extra_padding_def fill_up_def block_size_def demo_cipher_def header_of_def
  sym_header_def UA_encode32_def chunk_type_of_def type_defs padChunk_eq send_buffer_def
  update_connection_def count_chunk_def next_seq_def overwrite_def

lemma replicate_num: "replicate (numeral k) x = x # replicate (pred_numeral k) x"
  by (simp add: numeral_eq_Suc)

lemma demo_begin:
  "UA_MessageContext_begin 9 UA_MESSAGETYPE_MSG (demo_channel SE) =
   (GOOD, demo_context 7 1 [] 100 0 0 64 [] 35 False)"
  by (simp add: UA_MessageContext_begin_def mc_getSendBuffer_def getSendBuffer_def setBufPos_def Let_def
      sym_module_def demo_context_def demo_channel_def UA_SecureChannel_init_def demo_connection_def)

lemma demo_nodeid:
  "UA_MessageContext_encode demo_types (VNodeId (numeric_id 1014)) 16
     (demo_context 7 1 [] 100 0 0 64 [] 35 False) =
   (GOOD, demo_context 7 1 [] 100 0 0 64 [1, 0, 246, 3] 31 False)"
  by (simp add: UA_MessageContext_encode_def UA_encodeBinaryInternal_def enc_dispatch_def demo_context_def
      NodeId_encodeBinary_def NodeId_encodeBinaryWithEncodingMask_def numeric_id_def codec_defs enc_put_def
      encodeWithExchangeBuffer_def UA_encode16_def)

definition demo_body1 :: bytes where
  "demo_body1 = [1, 0, 246, 3, 40, 0, 0, 0] @ replicate 27 7"

lemma demo_send1:
  "sendSymmetricChunk demo_types (demo_context 7 1 [] 100 0 0 64 demo_body1 0 False) =
   (GOOD, demo_context 8 0 [demo_chunk1] 101 1 35 0 demo_body1 0 False)"
  by (simp add: chunk_eval demo_chunk1_def demo_body1_def replicate_num)

lemma demo_callback:
  "sendSymmetricEncodingCallback demo_types (demo_context 7 1 [] 100 0 0 64 [1, 0, 246, 3] 31 False) demo_body1 =
   (GOOD, demo_context 9 1 [demo_chunk1] 101 1 35 64 [] 35 False, 35)"
proof -
  have 1: "(demo_context 7 1 [] 100 0 0 64 [1, 0, 246, 3] 31 False)\<lparr>mc_body := demo_body1, mc_room := 0\<rparr> =
      demo_context 7 1 [] 100 0 0 64 demo_body1 0 False"
    by (simp add: demo_context_def)
  have 2: "length demo_body1 = 35" by (simp add: demo_body1_def)
  have 3: "length (mc_body (demo_context 7 1 [] 100 0 0 64 [1, 0, 246, 3] 31 False)) +
      mc_room (demo_context 7 1 [] 100 0 0 64 [1, 0, 246, 3] 31 False) - 35 = 0"
    by (simp add: demo_context_def)
  show ?thesis
    unfolding sendSymmetricEncodingCallback_def Let_def 2 3 1 demo_send1 prod.case
    by (simp add: demo_context_def mc_getSendBuffer_def getSendBuffer_def setBufPos_def Let_def
        sym_module_def)
qed

lemma overlay_loop_numeral:
  "encode_overlayable_loop (numeral k) bs c =
     (if enc_room c < length bs then
        (let possible = enc_room c;
             c1 = c\<lparr>enc_out := enc_out c @ take possible bs, enc_room := 0\<rparr>;
             (ret, c2) = exchangeBuffer c1
         in if ret = GOOD then encode_overlayable_loop (pred_numeral k) (drop possible bs) c2 else (ret, c2))
      else (GOOD, c\<lparr>enc_out := enc_out c @ bs, enc_room := enc_room c - length bs\<rparr>))"
  by (simp add: numeral_eq_Suc)

lemma demo_content:
  "UA_MessageContext_encode demo_types demo_payload 14 (demo_context 7 1 [] 100 0 0 64 [1, 0, 246, 3] 31 False) =
   (GOOD, demo_context 9 1 [demo_chunk1] 101 1 35 64 (replicate 13 7) 22 False)"
proof -
  let ?mc = "demo_context 7 1 [] 100 0 0 64 [1, 0, 246, 3] 31 False"
  let ?mc' = "demo_context 9 1 [demo_chunk1] 101 1 35 64 [] 35 False"
  have cb: "exchangeBuffer \<lparr>enc_out = demo_body1, enc_room = 0, enc_depth = 0,
      enc_cb = Some (sendSymmetricEncodingCallback demo_types), enc_handle = ?mc\<rparr> =
    (GOOD, \<lparr>enc_out = [], enc_room = 35, enc_depth = 0,
      enc_cb = Some (sendSymmetricEncodingCallback demo_types), enc_handle = ?mc'\<rparr>)"
    by (simp add: exchangeBuffer_def demo_callback)
  have e: "UA_encodeBinaryInternal demo_types demo_payload 14 [1, 0, 246, 3] 31
      (Some (sendSymmetricEncodingCallback demo_types)) ?mc =
    (GOOD, \<lparr>enc_out = replicate 13 7, enc_room = 22, enc_depth = 0,
      enc_cb = Some (sendSymmetricEncodingCallback demo_types), enc_handle = ?mc'\<rparr>)"
    using cb
    by (simp add: UA_encodeBinaryInternal_def enc_dispatch_def demo_payload_def String_encodeBinary_def
        Array_encodeBinary_with_def Array_encodeBinaryOverlayable_def codec_defs enc_put_def
        encodeWithExchangeBuffer_def UA_encode32_def array_signed_length_def UA_INT32_MAX_def
        overlay_loop_numeral demo_body1_def replicate_num)
  have m: "mc_body ?mc = [1, 0, 246, 3]" "mc_room ?mc = 31" by (simp_all add: demo_context_def)
  show ?thesis
    unfolding UA_MessageContext_encode_def m e Let_def prod.case by (simp add: demo_context_def)
qed

lemma demo_finish:
  "UA_MessageContext_finish demo_types (demo_context 9 1 [demo_chunk1] 101 1 35 64 (replicate 13 7) 22 False) =
   (GOOD, demo_context 10 0 [demo_chunk1, demo_chunk2] 102 2 48 0 (replicate 13 7) 22 True)"
  by (simp add: UA_MessageContext_finish_def chunk_eval demo_chunk2_def replicate_num)

definition demo_sent :: "u8 UA_SecureChannel" where
  "demo_sent = mc_channel (demo_context 10 0 [demo_chunk1, demo_chunk2] 102 2 48 0 (replicate 13 7) 22 True)"

lemma demo_sends:
  "UA_SecureChannel_sendSymmetricMessage demo_types 9 UA_MESSAGETYPE_MSG demo_payload 14 (demo_channel SE) =
   (GOOD, demo_sent)"
  by (simp add: UA_SecureChannel_sendSymmetricMessage_def demo_begin demo_nodeid demo_content demo_finish
      demo_sent_def)

end
