(* ===== verification/Channel_EndToEnd.thy ===== *)
theory Channel_EndToEnd
  imports Channel_Deliver Channel_Demo
begin

text \<open>
  The composition of both ends of a channel: what \<open>UA_SecureChannel_sendSymmetricMessage\<close> writes to
  the network reaches the callback of the receiver once and unchanged, however the network cuts the
  byte stream into buffers.
\<close>

section \<open>Feeding buffers\<close>

text \<open>The network layer hands the buffers over one after the other, until one is rejected.\<close>

fun feed ::
    "('app, 'k) rx_env \<Rightarrow> 'app \<Rightarrow> bytes list \<Rightarrow> 'k UA_SecureChannel \<Rightarrow>
     (status \<times> 'app \<times> 'k UA_SecureChannel) option" where
  "feed env app [] ch = Some (GOOD, app, ch)"
| "feed env app (b # bs) ch =
     (case UA_SecureChannel_processBuffer env app b ch of
        None \<Rightarrow> None
      | Some (r, app', ch') \<Rightarrow> if r \<noteq> GOOD then Some (r, app', ch') else feed env app' bs ch')"

lemma prefix_of_concat:
  assumes "buf @ rest = concat xs" "rest \<noteq> []"
  shows "\<exists>xs1 x xs2 n. xs = xs1 @ x # xs2 \<and> n < length x \<and> buf = concat xs1 @ take n x"
  using assms
proof (induction xs arbitrary: buf)
  case (Cons x xs)
  show ?case
  proof (cases "length buf < length x")
    case True
    then have "buf = take (length buf) x"
      using Cons.prems(1) by (metis append_eq_conv_conj concat.simps(2) less_imp_le_nat take_all_iff
          take_append take_take min.absorb4 append_Nil2 diff_is_0_eq' take0)
    then show ?thesis using True by (intro exI [of _ "[]"] exI [of _ x] exI [of _ xs] exI [of _ "length buf"]) simp
  next
    case False
    then obtain buf' where b: "buf = x @ buf'"
      using Cons.prems(1) by (metis append_eq_append_conv_if append_take_drop_id concat.simps(2) not_less)
    then have "buf' @ rest = concat xs" using Cons.prems(1) by simp
    from Cons.IH [OF this Cons.prems(2)] obtain xs1 y xs2 n where
      "xs = xs1 @ y # xs2" "n < length y" "buf' = concat xs1 @ take n y" by blast
    then show ?thesis using b by (intro exI [of _ "x # xs1"] exI [of _ y] exI [of _ xs2] exI [of _ n]) simp
  qed
qed simp

section \<open>One buffer\<close>

lemma persistCompleteChunks_ok:
  assumes "\<forall>n. mem n"
  shows "fst (persistCompleteChunks mem cs) = GOOD" and
    "map chunk_bytes (snd (persistCompleteChunks mem cs)) = map chunk_bytes cs" and
    "\<lbrakk>\<forall>d \<in> set cs. messageType d = t \<and> chunkType d = k \<and> requestId d = q;
      d \<in> set (snd (persistCompleteChunks mem cs))\<rbrakk> \<Longrightarrow> messageType d = t \<and> chunkType d = k \<and> requestId d = q"
  using assms
  by (induction cs) (auto simp: ByteString_copy_def ByteString_allocBuffer_def split: prod.splits if_splits)

lemma persist_collected:
  assumes mem: "\<forall>n. mem n" and c: "collected rch0 mtype req bodies rch" and q: "completeChunks rch = []"
  obtains rch' where "persistCompleteChunks mem (completeChunks rch) = (GOOD, [])"
    and "persistCompleteChunks mem (decryptedChunks rch) = (GOOD, decryptedChunks rch')"
    and "rch\<lparr>completeChunks := [], decryptedChunks := decryptedChunks rch'\<rparr> = rch'"
    and "collected rch0 mtype req bodies rch'"
    and "completeChunks rch' = []" "incompleteChunk rch' = incompleteChunk rch"
proof
  let ?q = "snd (persistCompleteChunks mem (decryptedChunks rch))"
  let ?rch' = "rch\<lparr>completeChunks := [], decryptedChunks := ?q\<rparr>"
  note p = persistCompleteChunks_ok [OF mem, of "decryptedChunks rch"]
  show "persistCompleteChunks mem (completeChunks rch) = (GOOD, [])" using q by simp
  show "persistCompleteChunks mem (decryptedChunks rch) = (GOOD, decryptedChunks ?rch')"
    using p(1) by (simp add: prod_eq_iff)
  have h: "\<forall>d \<in> set (decryptedChunks rch). messageType d = mtype \<and> chunkType d = UA_CHUNKTYPE_INTERMEDIATE \<and>
      requestId d = req" "map chunk_bytes (decryptedChunks rch) = bodies"
    using c by (auto simp: collected_def)
  show "collected rch0 mtype req bodies ?rch'"
    using c p(2) h(2) p(3) [OF h(1)] by (simp add: collected_def)
qed simp_all

lemma processBuffer_extracted:
  assumes mem: "\<forall>n. rx_mem env n"
    and e: "extractChunks env (incompleteChunk ch @ b) 0 (ch\<lparr>incompleteChunk := []\<rparr>) = (GOOD, off, ch2)"
  shows "UA_SecureChannel_processBuffer env app b ch =
    processExtracted env app (incompleteChunk ch @ b) off ch2"
proof (cases "incompleteChunk ch = []")
  case True
  have same: "ch\<lparr>incompleteChunk := []\<rparr> = ch" using True by simp
  have "extractChunks env b 0 ch = (GOOD, off, ch2)" using e unfolding same True by simp
  then show ?thesis using True by (simp add: UA_SecureChannel_processBuffer_def)
qed (use assms in \<open>simp add: UA_SecureChannel_processBuffer_def\<close>)

text \<open>
  \<open>message_stream env rch0 ch mtype req cs\<close>: the chunks \<open>cs\<close> of a message from \<open>ch\<close> are what the idle
  receiver \<open>rch0\<close> expects next, and the message is within its limits. \<open>seen\<close> is the receiver when
  it has processed some of the chunks.
\<close>

definition message_stream ::
    "('app, 'l) rx_env \<Rightarrow> 'l UA_SecureChannel \<Rightarrow> 'k UA_SecureChannel \<Rightarrow> u32 \<Rightarrow> u32 \<Rightarrow>
     (u32 \<times> bytes \<times> bytes) list \<Rightarrow> bool" where
  "message_stream env rch0 ch mtype req cs =
     (receiver_ok env rch0 ch \<and> (mtype = UA_MESSAGETYPE_MSG \<or> mtype = UA_MESSAGETYPE_CLO) \<and> idle rch0 \<and>
      stream_run ch mtype req (receiveSequenceNumber rch0) cs \<and>
      within_limits rch0 (length cs) (length (concat (map body_of cs))))"

definition seen ::
    "'l UA_SecureChannel \<Rightarrow> u32 \<Rightarrow> u32 \<Rightarrow> (u32 \<times> bytes \<times> bytes) list \<Rightarrow> 'l UA_SecureChannel \<Rightarrow> bool" where
  "seen rch0 mtype req cs1 rch =
     (collected rch0 mtype req (map body_of cs1) rch \<and> completeChunks rch = [])"

lemma message_streamD:
  assumes "message_stream env rch0 ch mtype req cs"
  shows "receiver_ok env rch0 ch" and "mtype = UA_MESSAGETYPE_MSG \<or> mtype = UA_MESSAGETYPE_CLO"
    and "idle rch0" and "stream_run ch mtype req (receiveSequenceNumber rch0) cs"
    and "within_limits rch0 (length cs) (length (concat (map body_of cs)))"
    and "\<forall>n. rx_mem env n" and "transport_env (rx_types env)"
  using assms by (simp_all add: message_stream_def receiver_ok_def)

lemma message_stream_framed:
  assumes ms: "message_stream env rch0 ch mtype req cs" and c: "c \<in> set cs"
  shows "framed mtype (fst c) (msg_of c)" and "length (msg_of c) \<le> unat (recvBufferSize (config rch0))"
  using stream_run_framed [OF message_streamD(1,2,4) [OF ms] c] by simp_all

lemma seenD:
  assumes "seen rch0 mtype req cs1 rch"
  shows "config rch = config rch0" and "completeChunks rch = []"
    and "collected rch0 mtype req (map body_of cs1) rch"
    and "receiveSequenceNumber rch = receiveSequenceNumber rch0 + of_nat (length cs1)"
  using assms collected_receiver(2,4) [of rch0 mtype req "map body_of cs1" rch] by (simp_all add: seen_def)

lemma seen_rest:
  "message_stream env rch0 ch mtype req cs \<Longrightarrow> seen rch0 mtype req cs1 rch \<Longrightarrow> cs = cs1 @ cs2 \<Longrightarrow>
   stream_run ch mtype req (receiveSequenceNumber rch) cs2"
  using stream_run_append [of ch mtype req "receiveSequenceNumber rch0" cs1 cs2]
  by (simp add: seenD(4) message_stream_def)

lemma extract_part:
  assumes ms: "message_stream env rch0 ch mtype req cs0" and s: "seen rch0 mtype req cs1 rch"
    and cs: "cs0 = cs1 @ cs2 @ cs3"
    and r: "r = [] \<or> (\<exists>c n. c \<in> set cs3 \<and> n < length (msg_of c) \<and> r = take n (msg_of c))"
  shows "extractChunks env (concat (map msg_of cs2) @ r) 0 (rch\<lparr>incompleteChunk := []\<rparr>) =
    (GOOD, length (concat (map msg_of cs2)),
     rch\<lparr>incompleteChunk := [], completeChunks := map (raw_of mtype) cs2\<rparr>)"
proof -
  let ?rch = "rch\<lparr>incompleteChunk := []\<rparr>"
  note cfg = seenD(1) [OF s]
  have f: "c \<in> set cs2 \<union> set cs3 \<Longrightarrow> framed mtype (fst c) (msg_of c) \<and>
      length (msg_of c) \<le> unat (recvBufferSize (config ?rch))" for c
    using message_stream_framed [OF ms, of c] cs cfg by auto
  have u: "unfinished ?rch r"
    unfolding unfinished_def using r f by blast
  have all: "\<forall>(ctype, m) \<in> set (map (\<lambda>c. (fst c, msg_of c)) cs2).
      framed mtype ctype m \<and> length m \<le> unat (recvBufferSize (config ?rch))"
    using f by auto
  have m: "map snd (map (\<lambda>c. (fst c, msg_of c)) cs2) = map msg_of cs2"
    "map (\<lambda>(ctype, m). raw_chunk mtype ctype m) (map (\<lambda>c. (fst c, msg_of c)) cs2) = map (raw_of mtype) cs2"
    by (induction cs2) auto
  have mem: "rx_mem env SIZEOF_CHUNK" using message_streamD(6) [OF ms] by simp
  show ?thesis
    using extractChunks_stream [OF message_streamD(7) [OF ms] mem u all, of "[]", unfolded m] seenD(2) [OF s]
    by simp
qed

lemma buffer_inside:
  assumes ms: "message_stream env rch0 ch mtype req cs0" and s: "seen rch0 mtype req cs1 rch"
    and cs: "cs0 = cs1 @ cs2 @ c # cs3"
    and b: "incompleteChunk rch @ b = concat (map msg_of cs2) @ take n (msg_of c)"
    and n: "n < length (msg_of c)"
  shows "\<exists>rch'. UA_SecureChannel_processBuffer env app b rch = Some (GOOD, app, rch') \<and>
    seen rch0 mtype req (cs1 @ cs2) rch' \<and> incompleteChunk rch' = take n (msg_of c)"
proof -
  note rx = message_streamD(1) [OF ms] and mt = message_streamD(2) [OF ms] and mem = message_streamD(6) [OF ms]
    and lim0 = message_streamD(5) [OF ms]
  let ?r = "take n (msg_of c)"
  let ?rch1 = "rch\<lparr>completeChunks := map (raw_of mtype) cs2, incompleteChunk := ?r\<rparr>"
  have r: "?r = [] \<or> (\<exists>c' n'. c' \<in> set (c # cs3) \<and> n' < length (msg_of c') \<and> ?r = take n' (msg_of c'))"
    using n by (intro disjI2 exI [of _ c] exI [of _ n]) simp
  have x: "extractChunks env (incompleteChunk rch @ b) 0 (rch\<lparr>incompleteChunk := []\<rparr>) =
      (GOOD, length (concat (map msg_of cs2)),
       rch\<lparr>completeChunks := map (raw_of mtype) cs2, incompleteChunk := []\<rparr>)"
    unfolding b extract_part [OF ms s cs r] by simp
  have "UA_SecureChannel_processBuffer env app b rch =
      processExtracted env app (concat (map msg_of cs2) @ ?r) (length (concat (map msg_of cs2)))
        (rch\<lparr>completeChunks := map (raw_of mtype) cs2, incompleteChunk := []\<rparr>)"
    using processBuffer_extracted [OF mem x] b by simp
  note 1 = this
  have c1: "collected rch0 mtype req (map body_of cs1) ?rch1"
    using s by (simp add: seen_def collected_queues)
  have run: "stream_run ch mtype req (receiveSequenceNumber ?rch1) (cs2 @ c # cs3)"
    using seen_rest [OF ms s cs] by simp
  have lim: "within_limits rch0 (length (map body_of cs1) + length cs2)
      (length (concat (map body_of cs1)) + length (concat (map body_of cs2)))"
    using lim0 cs by (auto intro: within_limits_mono)
  obtain rch2 where 2: "processChunks env app ?rch1 = processChunks env app rch2"
      "collected rch0 mtype req (map body_of cs1 @ map body_of cs2) rch2" "completeChunks rch2 = []"
      "incompleteChunk rch2 = ?r"
    using process_run [OF rx mt run _ c1 _ lim, of "[]" app] by auto
  have 3: "processChunks env app rch2 = Some (GOOD, app, rch2)"
    using 2(3) by (subst processChunks.simps) simp
  from persist_collected [OF mem 2(2,3)] obtain rch3 where
    4: "persistCompleteChunks (rx_mem env) (completeChunks rch2) = (GOOD, [])"
      "persistCompleteChunks (rx_mem env) (decryptedChunks rch2) = (GOOD, decryptedChunks rch3)"
      "rch2\<lparr>completeChunks := [], decryptedChunks := decryptedChunks rch3\<rparr> = rch3"
      "collected rch0 mtype req (map body_of cs1 @ map body_of cs2) rch3"
      "completeChunks rch3 = []" "incompleteChunk rch3 = incompleteChunk rch2" .
  have "processExtracted env app (concat (map msg_of cs2) @ ?r) (length (concat (map msg_of cs2)))
        (rch\<lparr>completeChunks := map (raw_of mtype) cs2, incompleteChunk := []\<rparr>) = Some (GOOD, app, rch3)"
  proof -
    have "(if length (concat (map msg_of cs2)) < length (concat (map msg_of cs2) @ ?r)
        then persistIncompleteChunk (rx_mem env) (concat (map msg_of cs2) @ ?r) (length (concat (map msg_of cs2)))
          (rch\<lparr>completeChunks := map (raw_of mtype) cs2, incompleteChunk := []\<rparr>)
        else (GOOD, rch\<lparr>completeChunks := map (raw_of mtype) cs2, incompleteChunk := []\<rparr>)) = (GOOD, ?rch1)"
      using mem n by (auto simp: min_absorb2 persistIncompleteChunk_def ByteString_allocBuffer_def)
    then show ?thesis
      unfolding processExtracted_def Let_def by (simp add: 2(1) 3 4(1,2,3))
  qed
  then show ?thesis using 1 4(4,5,6) 2(4) by (auto simp: seen_def)
qed

lemma buffer_last:
  assumes ms: "message_stream env rch0 ch mtype req cs0" and s: "seen rch0 mtype req cs1 rch"
    and cs: "cs0 = cs1 @ cs2 @ [c]"
    and b: "incompleteChunk rch @ b = concat (map msg_of (cs2 @ [c]))"
    and cb: "rx_callback env app
      (rch0\<lparr>receiveSequenceNumber := receiveSequenceNumber rch0 + of_nat (length cs0)\<rparr>)
      mtype req (concat (map body_of cs0)) = (GOOD, app', ch')"
    and idle: "idle ch'"
  shows "UA_SecureChannel_processBuffer env app b rch = Some (GOOD, app', ch')"
proof -
  note rx = message_streamD(1) [OF ms] and mt = message_streamD(2) [OF ms] and mem = message_streamD(6) [OF ms]
    and lim0 = message_streamD(5) [OF ms] and idle0 = message_streamD(3) [OF ms]
  let ?rch1 = "rch\<lparr>completeChunks := map (raw_of mtype) (cs2 @ [c]), incompleteChunk := []\<rparr>"
  let ?d = "map body_of cs1"
  have cs': "cs0 = cs1 @ (cs2 @ [c]) @ []" using cs by simp
  have x: "extractChunks env (incompleteChunk rch @ b) 0 (rch\<lparr>incompleteChunk := []\<rparr>) =
      (GOOD, length (concat (map msg_of (cs2 @ [c]))), ?rch1)"
    using extract_part [OF ms s cs', of "[]"] unfolding b by simp
  have 1: "UA_SecureChannel_processBuffer env app b rch =
      processExtracted env app (concat (map msg_of (cs2 @ [c]))) (length (concat (map msg_of (cs2 @ [c])))) ?rch1"
    using processBuffer_extracted [OF mem x] b by simp
  have run: "stream_run ch mtype req (receiveSequenceNumber ?rch1) (cs2 @ [c])"
    using seen_rest [OF ms s cs] by simp
  have c1: "collected rch0 mtype req ?d ?rch1" using seenD(3) [OF s] by (simp add: collected_queues)
  have lim: "within_limits rch0 (length ?d + length (cs2 @ [c]))
      (length (concat ?d) + length (concat (map body_of (cs2 @ [c]))))"
    using lim0 cs by simp
  have "rch0\<lparr>completeChunks := [], incompleteChunk := incompleteChunk ?rch1,
        receiveSequenceNumber := receiveSequenceNumber rch0 + of_nat (length ?d + length cs2) + 1,
        decryptedChunksCount := 0, decryptedChunksLength := 0, decryptedChunks := []\<rparr> =
      rch0\<lparr>receiveSequenceNumber := receiveSequenceNumber rch0 + of_nat (length cs0)\<rparr>"
    using idle0 by (simp add: idle_def cs add.assoc)
  then have "processChunks env app ?rch1 = Some (GOOD, app', ch')"
    using cb cs by (intro process_message [OF rx mt run c1 _ lim _ idle]) simp_all
  then have "processExtracted env app (concat (map msg_of (cs2 @ [c])))
      (length (concat (map msg_of (cs2 @ [c])))) ?rch1 = Some (GOOD, app', ch')"
    using idle by (simp add: processExtracted_def idle_def)
  then show ?thesis using 1 by simp
qed

lemma buffer_empty:
  assumes idle: "idle rch"
  shows "UA_SecureChannel_processBuffer env app [] rch = Some (GOOD, app, rch)"
proof -
  have "extractChunks env [] 0 rch = (GOOD, 0, rch)"
    by (subst extractChunks.simps) (simp add: extractCompleteChunk_def)
  moreover have "processChunks env app rch = Some (GOOD, app, rch)"
    using idle by (subst processChunks.simps) (simp add: idle_def)
  ultimately show ?thesis
    using idle by (simp add: UA_SecureChannel_processBuffer_def processExtracted_def idle_def)
qed

lemma feed_empty: "idle rch \<Longrightarrow> concat bs = [] \<Longrightarrow> feed env app bs rch = Some (GOOD, app, rch)"
  by (induction bs) (auto simp: buffer_empty)

section \<open>A whole message\<close>

lemma feed_message:
  assumes ms: "message_stream env rch0 ch mtype req cs0"
    and cb: "rx_callback env app
      (rch0\<lparr>receiveSequenceNumber := receiveSequenceNumber rch0 + of_nat (length cs0)\<rparr>)
      mtype req (concat (map body_of cs0)) = (GOOD, app', ch')"
    and idle: "idle ch'"
  shows "seen rch0 mtype req cs1 rch \<Longrightarrow> cs0 = cs1 @ cs \<Longrightarrow>
    incompleteChunk rch @ concat bs = concat (map msg_of cs) \<Longrightarrow>
    length (incompleteChunk rch) < length (concat (map msg_of cs)) \<Longrightarrow>
    feed env app bs rch = Some (GOOD, app', ch')"
proof (induction bs arbitrary: cs1 cs rch)
  case (Cons b bs)
  show ?case
  proof (cases "concat bs = []")
    case True
    obtain cs2 c where cs2: "cs = cs2 @ [c]"
      using Cons.prems(4) by (metis append_butlast_last_id concat.simps(1) length_0_conv list.simps(8) not_less0)
    have "UA_SecureChannel_processBuffer env app b rch = Some (GOOD, app', ch')"
      using Cons.prems(2,3) True cs2 by (intro buffer_last [OF ms Cons.prems(1) _ _ cb idle]) simp_all
    then show ?thesis using feed_empty [OF idle True] by simp
  next
    case False
    have "(incompleteChunk rch @ b) @ concat bs = concat (map msg_of cs)" using Cons.prems(3) by simp
    from prefix_of_concat [OF this False] obtain xs1 x xs2 n where
      x: "map msg_of cs = xs1 @ x # xs2" "n < length x" "incompleteChunk rch @ b = concat xs1 @ take n x"
      by blast
    then obtain cs2 c cs3 where c: "cs = cs2 @ c # cs3" "xs1 = map msg_of cs2" "x = msg_of c" "xs2 = map msg_of cs3"
      by (auto simp: map_eq_append_conv map_eq_Cons_conv)
    have b: "incompleteChunk rch @ b = concat (map msg_of cs2) @ take n (msg_of c)"
      and n: "n < length (msg_of c)" using x c by simp_all
    obtain rch' where 1: "UA_SecureChannel_processBuffer env app b rch = Some (GOOD, app, rch')"
      and s': "seen rch0 mtype req (cs1 @ cs2) rch'" and r': "incompleteChunk rch' = take n (msg_of c)"
      using buffer_inside [OF ms Cons.prems(1) _ b n, of cs3 app] Cons.prems(2) c(1) by auto
    have "(incompleteChunk rch @ b) @ concat bs = concat (map msg_of (cs2 @ c # cs3))"
      using Cons.prems(3) c(1) by simp
    then have "incompleteChunk rch' @ concat bs = concat (map msg_of (c # cs3))"
      unfolding b r' by simp
    then have "feed env app bs rch' = Some (GOOD, app', ch')"
      using Cons.prems(2) c(1) n r' by (intro Cons.IH [OF s', of "c # cs3"]) simp_all
    then show ?thesis using 1 by simp
  qed
qed simp

lemma chunk_msg_length:
  assumes "crypto_pair (securityMode ch) (sym_module ch) (channelContext ch) cm' cc'"
    and "chunk_msg ch mtype ctype seqn req body msg"
  shows "length msg = chunk_total ch (length body)"
  by (rule chunk_opens(1) [OF assms(1) _ _ assms(2) [unfolded chunk_msg_def],
        of UA_MESSAGETYPE_MSG "(UA_SecureChannel_init undefined)\<lparr>securityMode := securityMode ch,
          channelContext := cc'\<rparr>"]) (simp_all add: type_defs)

lemma chunk_run_member:
  "chunk_run ch mtype req seqn bodies msgs \<Longrightarrow> m \<in> set msgs \<Longrightarrow>
   \<exists>ctype seqn' body. body \<in> set bodies \<and> chunk_msg ch mtype ctype seqn' req body m"
  by (induction ch mtype req seqn bodies msgs rule: chunk_run.induct) auto

text \<open>The chunks of a sent message as a stream.\<close>

definition stream_of :: "bytes list \<Rightarrow> bytes list \<Rightarrow> bytes \<Rightarrow> bytes \<Rightarrow> (u32 \<times> bytes \<times> bytes) list" where
  "stream_of bodies msgs last_body last_msg =
     map (\<lambda>(b, m). (UA_CHUNKTYPE_INTERMEDIATE, m, b)) (zip bodies msgs) @
     [(UA_CHUNKTYPE_FINAL, last_msg, last_body)]"

lemma stream_of_parts:
  assumes "length bodies = length msgs"
  shows "map msg_of (stream_of bodies msgs last_body last_msg) = msgs @ [last_msg]"
    and "map body_of (stream_of bodies msgs last_body last_msg) = bodies @ [last_body]"
    and "length (stream_of bodies msgs last_body last_msg) = length msgs + 1"
proof -
  have "map (\<lambda>c. msg_of c) (map (\<lambda>(b, m). (UA_CHUNKTYPE_INTERMEDIATE, m, b)) (zip bodies msgs)) = msgs"
    "map (\<lambda>c. body_of c) (map (\<lambda>(b, m). (UA_CHUNKTYPE_INTERMEDIATE, m, b)) (zip bodies msgs)) = bodies"
    using assms by (induction bodies msgs rule: list_induct2) simp_all
  then show "map msg_of (stream_of bodies msgs last_body last_msg) = msgs @ [last_msg]"
    and "map body_of (stream_of bodies msgs last_body last_msg) = bodies @ [last_body]"
    by (simp_all add: stream_of_def)
qed (use assms in \<open>simp add: stream_of_def\<close>)

definition body_fits :: "'k UA_SecureChannel \<Rightarrow> bytes \<Rightarrow> bool" where
  "body_fits ch b =
     ((securityMode ch = SECURITYMODE_NONE \<or> 2 \<le> length b) \<and>
      chunk_total ch (length b) \<le> unat (sendBufferSize (config ch)))"

lemma stream_of_run:
  assumes "chunk_run ch mtype req seqn bodies msgs"
    and "chunk_msg ch mtype UA_CHUNKTYPE_FINAL (seqn + of_nat (length msgs) + 1) req last_body last_msg"
    and "\<forall>b \<in> set (bodies @ [last_body]). body_fits ch b"
  shows "stream_run ch mtype req seqn (stream_of bodies msgs last_body last_msg)"
  using assms
  by (induction ch mtype req seqn bodies msgs rule: chunk_run.induct)
    (auto simp: stream_of_def body_fits_def ac_simps)

lemma message_stream_of:
  assumes rx: "receiver_ok renv rch ch" and idle: "idle rch"
    and sq: "receiveSequenceNumber rch = sendSequenceNumber ch"
    and mt: "mtype = UA_MESSAGETYPE_MSG \<or> mtype = UA_MESSAGETYPE_CLO"
    and mc: "message_chunks ch mtype req bodies last_body msgs last_msg"
    and room: "0 < body_capacity ch" and mode: "securityMode ch \<noteq> SECURITYMODE_INVALID"
    and bs: "securityMode ch = SECURITYMODE_SIGNANDENCRYPT \<Longrightarrow>
      16 mod block_size (sym_module ch) (channelContext ch) = 0"
    and len: "securityMode ch = SECURITYMODE_NONE \<or>
      UNSPLIT_MAX + 2 \<le> body_capacity ch \<and> 2 \<le> length last_body"
    and lim: "within_limits rch (length msgs + 1) (length (concat bodies @ last_body))"
  shows "message_stream renv rch ch mtype req (stream_of bodies msgs last_body last_msg)"
proof -
  have run: "chunk_run ch mtype req (sendSequenceNumber ch) bodies msgs"
    and last_chunk: "chunk_msg ch mtype UA_CHUNKTYPE_FINAL (sendSequenceNumber ch + of_nat (length msgs) + 1) req
        last_body last_msg"
    and full: "\<forall>b \<in> set bodies. length b \<le> body_capacity ch \<and> body_capacity ch < length b + UNSPLIT_MAX"
      "length last_body \<le> body_capacity ch"
    using mc by (simp_all add: message_chunks_def)
  have fits: "\<forall>b \<in> set (bodies @ [last_body]). body_fits ch b"
    using full len chunk_total_le [OF _ room bs mode] by (fastforce simp: body_fits_def)
  note p = stream_of_parts [OF chunk_run_length [OF run], of last_body last_msg]
  have "stream_run ch mtype req (receiveSequenceNumber rch) (stream_of bodies msgs last_body last_msg)"
    unfolding sq by (rule stream_of_run [OF run last_chunk fits])
  then show ?thesis
    using rx mt idle lim unfolding message_stream_def p by simp
qed

section \<open>The two properties of a message\<close>

definition message_content :: "type_env \<Rightarrow> tyref \<Rightarrow> ua_val \<Rightarrow> bytes" where
  "message_content env ty payload =
     wire env UA_TYPES_NODEID (VNodeId (binaryEncodingId (ty_at env ty))) @ wire env ty payload"

definition blocks_fit :: "'k UA_SecureChannel \<Rightarrow> bool" where
  "blocks_fit ch =
     (securityMode ch \<noteq> SECURITYMODE_INVALID \<and>
      (securityMode ch = SECURITYMODE_SIGNANDENCRYPT \<longrightarrow>
       16 mod block_size (sym_module ch) (channelContext ch) = 0))"

lemma message_chunks_bodies:
  assumes pair: "crypto_pair (securityMode ch) (sym_module ch) (channelContext ch) cm' cc'"
    and mc: "message_chunks ch mtype req bodies last_body msgs last_msg"
  shows "map (chunk_body (securityMode ch) cm' cc') (msgs @ [last_msg]) = bodies @ [last_body]"
proof -
  have run: "chunk_run ch mtype req (sendSequenceNumber ch) bodies msgs"
    and fin: "chunk_msg ch mtype UA_CHUNKTYPE_FINAL (sendSequenceNumber ch + of_nat (length msgs) + 1) req
        last_body last_msg"
    using mc by (simp_all add: message_chunks_def)
  show ?thesis using chunk_run_bodies [OF pair run] chunk_msg_body [OF pair fin] by simp
qed

text \<open>
  C7: A message that \<open>UA_SecureChannel_sendSymmetricMessage\<close> reports as sent has been written to the
  network as a non-empty run of chunks: their bodies, taken out of the signed, encrypted and padded
  chunks with the keys of the peer, are together the binary encoding of the type id and the payload.
  The sequence number has moved by the number of chunks, and no send buffer is left over.
\<close>

theorem sendSymmetricMessage_sends_wire:
  assumes "sender_ok env ch cm' cc'"
    and "UA_SecureChannel_sendSymmetricMessage env req mtype payload ty ch = (GOOD, ch')"
  shows "\<exists>sent. sent \<noteq> [] \<and> conn_sent (connection ch') = conn_sent (connection ch) @ sent \<and>
    concat (map (chunk_body (securityMode ch) cm' cc') sent) = message_content env ty payload \<and>
    sendSequenceNumber ch' = sendSequenceNumber ch + of_nat (length sent) \<and>
    conn_buffers (connection ch') = conn_buffers (connection ch)"
proof -
  have pair: "crypto_pair (securityMode ch) (sym_module ch) (channelContext ch) cm' cc'"
    using assms(1) by (simp add: sender_ok_def)
  from sendSymmetricMessage_chunks [OF assms] obtain bodies last_body msgs last_msg where
    m: "conn_sent (connection ch') = conn_sent (connection ch) @ msgs @ [last_msg]"
      "message_chunks ch mtype req bodies last_body msgs last_msg"
      "concat bodies @ last_body = message_content env ty payload"
      "sendSequenceNumber ch' = sendSequenceNumber ch + of_nat (length msgs) + 1"
      "conn_buffers (connection ch') = conn_buffers (connection ch)"
    unfolding message_content_def by blast
  show ?thesis
    using m message_chunks_bodies [OF pair m(2)]
    by (intro exI [of _ "msgs @ [last_msg]"]) (simp add: ac_simps del: map_append)
qed

text \<open>
  C8: No chunk is larger than the send buffer, so the assertion of \<^verbatim>\<open>sendSymmetricChunk\<close> holds.
\<close>

theorem sent_chunks_fit_buffer:
  assumes "sender_ok env ch cm' cc'" and "blocks_fit ch"
    and "UA_SecureChannel_sendSymmetricMessage env req mtype payload ty ch = (GOOD, ch')"
    and "conn_sent (connection ch') = conn_sent (connection ch) @ sent" and "m \<in> set sent"
  shows "length m \<le> unat (sendBufferSize (config ch))"
proof -
  have pair: "crypto_pair (securityMode ch) (sym_module ch) (channelContext ch) cm' cc'"
    and room: "0 < body_capacity ch"
    using assms(1) by (auto simp: sender_ok_def UNSPLIT_MAX_def)
  from sendSymmetricMessage_chunks [OF assms(1,3)] obtain bodies last_body msgs last_msg where
    s: "conn_sent (connection ch') = conn_sent (connection ch) @ msgs @ [last_msg]"
      "message_chunks ch mtype req bodies last_body msgs last_msg" by blast
  then have sent: "sent = msgs @ [last_msg]" using assms(4) by simp
  have run: "chunk_run ch mtype req (sendSequenceNumber ch) bodies msgs"
    using s(2) by (simp add: message_chunks_def)
  have "\<exists>ctype seqn body. chunk_msg ch mtype ctype seqn req body m \<and> length body \<le> body_capacity ch"
  proof (cases "m = last_msg")
    case True
    then show ?thesis using s(2) by (auto simp: message_chunks_def)
  next
    case False
    then have "m \<in> set msgs" using assms(5) sent by simp
    then show ?thesis using s(2) chunk_run_member [OF run] unfolding message_chunks_def by blast
  qed
  then obtain ctype seqn body where cm: "chunk_msg ch mtype ctype seqn req body m"
    and le: "length body \<le> body_capacity ch" by blast
  have "length m = chunk_total ch (length body)"
    using chunk_msg_length [OF pair cm] .
  also have "\<dots> \<le> unat (sendBufferSize (config ch))"
    using assms(2) by (intro chunk_total_le [OF le room]) (auto simp: blocks_fit_def)
  finally show ?thesis .
qed

text \<open>
  C6: Whatever buffers the network cuts the chunks into, the receiver calls its callback once, with
  the type, the request id and the content of the message, and is idle again. The receiver has
  matching keys, limits that admit the message, and expects the sender's next sequence number. In the
  modes with signatures the last chunk needs two bytes of content (a shorter one is refused, see \<open>Channel_Rules\<close>).
\<close>

theorem message_delivered:
  assumes sender: "sender_ok env ch (sym_module rch) (channelContext rch)" "blocks_fit ch"
    and receiver: "receiver_ok renv rch ch" "idle rch" "receiveSequenceNumber rch = sendSequenceNumber ch"
    and sent: "UA_SecureChannel_sendSymmetricMessage env req mtype payload ty ch = (GOOD, ch')"
      "conn_sent (connection ch') = conn_sent (connection ch) @ msgs"
    and len: "securityMode ch = SECURITYMODE_NONE \<or> UNSPLIT_MAX + 2 \<le> body_capacity ch \<and>
      2 \<le> length (chunk_body (securityMode ch) (sym_module rch) (channelContext rch) (last msgs))"
    and lim: "within_limits rch (length msgs) (length (message_content env ty payload))"
    and net: "concat bufs = concat msgs"
    and cb: "rx_callback renv app
        (rch\<lparr>receiveSequenceNumber := receiveSequenceNumber rch + of_nat (length msgs)\<rparr>)
        mtype req (message_content env ty payload) = (GOOD, app', rch')" "idle rch'"
  shows "feed renv app bufs rch = Some (GOOD, app', rch')"
proof -
  have pair: "crypto_pair (securityMode ch) (sym_module ch) (channelContext ch) (sym_module rch)
      (channelContext rch)" and room: "0 < body_capacity ch"
    using sender(1) by (auto simp: sender_ok_def UNSPLIT_MAX_def)
  from sendSymmetricMessage_chunks [OF sender(1) sent(1)] obtain bodies last_body msgs1 last_msg where
    s: "conn_sent (connection ch') = conn_sent (connection ch) @ msgs1 @ [last_msg]"
      "message_chunks ch mtype req bodies last_body msgs1 last_msg"
      "concat bodies @ last_body = message_content env ty payload"
      "mtype = UA_MESSAGETYPE_MSG \<or> mtype = UA_MESSAGETYPE_CLO"
    unfolding message_content_def by blast
  have msgs: "msgs = msgs1 @ [last_msg]" using s(1) sent(2) by simp
  have lb: "chunk_body (securityMode ch) (sym_module rch) (channelContext rch) last_msg = last_body"
    using message_chunks_bodies [OF pair s(2)] by simp
  let ?cs = "stream_of bodies msgs1 last_body last_msg"
  have run: "chunk_run ch mtype req (sendSequenceNumber ch) bodies msgs1"
    using s(2) by (simp add: message_chunks_def)
  note parts = stream_of_parts [OF chunk_run_length [OF run], of last_body last_msg]
  have ms: "message_stream renv rch ch mtype req ?cs"
    using sender(2) len lim s(3) msgs lb unfolding blocks_fit_def
    by (intro message_stream_of [OF receiver s(4) s(2) room]) auto
  have seen: "seen rch mtype req [] rch"
    using idle_collected [OF receiver(2)] receiver(2) by (simp add: seen_def idle_def)
  have "last_msg \<noteq> []"
    using chunk_msg_length [OF pair, of mtype _ _ req last_body last_msg] s(2)
    by (auto simp: message_chunks_def chunk_total_def)
  then have long: "length (incompleteChunk rch) < length (concat (map msg_of ?cs))"
    using receiver(2) unfolding parts by (simp add: idle_def)
  show ?thesis
    using cb receiver(2) net parts s(3) msgs
    by (intro feed_message [OF ms _ cb(2) seen _ _ long]) (simp_all add: idle_def)
qed

section \<open>Witnesses\<close>

lemma demo_sender: "sender_ok demo_types (demo_channel SE) demo_module (Some 0x5a)"
  using demo_transport demo_pair [of SE "0x5a"]
  by (simp add: sender_ok_def plugins_ok_def body_capacity_def Let_def UNSPLIT_MAX_def sig_size_def
      block_size_def size_bytes_def extra_padding_def demo_cipher_def)

lemma demo_blocks: "blocks_fit (demo_channel SE)"
  by (simp add: blocks_fit_def block_size_def)

lemma demo_sent_conn: "conn_sent (connection demo_sent) = [] @ [demo_chunk1, demo_chunk2]"
  by (simp add: demo_sent_def demo_context_def)

lemma demo_message_content:
  "message_content demo_types 14 demo_payload = [1, 0, 246, 3, 40, 0, 0, 0] @ replicate 40 7"
  by (simp add: message_content_def demo_payload_def numeric_id_def wire_nodeid_def wire_string_def
      UA_encode16_def UA_encode32_def array_signed_length_def replicate_num)

lemma sendSymmetricMessage_sends_wire_witness:
  "\<exists>sent. sent \<noteq> [] \<and> conn_sent (connection demo_sent) = conn_sent demo_connection @ sent \<and>
    concat (map (chunk_body SE demo_module (Some 0x5a)) sent) =
      [1, 0, 246, 3, 40, 0, 0, 0] @ replicate 40 7 \<and>
    sendSequenceNumber demo_sent = 100 + of_nat (length sent) \<and>
    conn_buffers (connection demo_sent) = conn_buffers demo_connection"
  using sendSymmetricMessage_sends_wire [OF demo_sender demo_sends]
  unfolding demo_message_content demo_channel_simps .

lemma sent_chunks_fit_buffer_witness: "length demo_chunk1 \<le> 64"
  using sent_chunks_fit_buffer [OF demo_sender demo_blocks demo_sends, of "[demo_chunk1, demo_chunk2]" demo_chunk1]
  by (simp add: demo_sent_conn)

text \<open>A receiver that records what its callback gets.\<close>

definition demo_rx :: "((u32 \<times> u32 \<times> bytes) list, u8) rx_env" where
  "demo_rx =
     \<lparr>rx_types = demo_types, rx_mem = (\<lambda>_. True), rx_now = 0, rx_verifyCertificate = None,
      rx_processOPNHeader = None,
      rx_callback = (\<lambda>app ch mtype req payload. (GOOD, app @ [(mtype, req, payload)], ch))\<rparr>"

lemma demo_receiver: "receiver_ok demo_rx (demo_channel SE) (demo_channel SE)" "idle (demo_channel SE)"
proof -
  have "\<not> token_timed_out 0 (securityToken (demo_channel SE))"
    by (simp add: token_timed_out_def demo_channel_def UA_DATETIME_MSEC_def)
  then show "receiver_ok demo_rx (demo_channel SE) (demo_channel SE)"
    using demo_transport demo_pair [of SE "0x5a"] by (simp add: receiver_ok_def demo_rx_def)
  show "idle (demo_channel SE)" by (simp add: idle_def demo_channel_def UA_SecureChannel_init_def)
qed

definition demo_network :: "bytes list" where
  "demo_network = [take 5 demo_chunk1, [], drop 5 demo_chunk1 @ take 10 demo_chunk2, drop 10 demo_chunk2]"

lemma message_delivered_witness:
  "feed demo_rx [] demo_network (demo_channel SE) =
    Some (GOOD, [(UA_MESSAGETYPE_MSG, 9, [1, 0, 246, 3, 40, 0, 0, 0] @ replicate 40 7)],
      (demo_channel SE)\<lparr>receiveSequenceNumber := 102\<rparr>)"
proof -
  have cap: "body_capacity (demo_channel SE) = 35"
    by (simp add: body_capacity_def Let_def sig_size_def block_size_def size_bytes_def extra_padding_def)
  have bd: "chunk_body SE demo_module (Some 0x5a) demo_chunk2 = replicate 13 7"
    by (simp add: chunk_body_def demo_chunk2_def Let_def decodePadding_def demo_module_def demo_signature_def
        demo_encryption_def demo_cipher_def replicate_num)
  have lim: "within_limits (demo_channel SE) n m" for n m by (simp add: within_limits_def)
  have net: "concat demo_network = concat [demo_chunk1, demo_chunk2]"
    by (simp add: demo_network_def)
  have cb: "rx_callback demo_rx []
      ((demo_channel SE)\<lparr>receiveSequenceNumber := 102\<rparr>) UA_MESSAGETYPE_MSG 9
      (message_content demo_types 14 demo_payload) =
    (GOOD, [(UA_MESSAGETYPE_MSG, 9, [1, 0, 246, 3, 40, 0, 0, 0] @ replicate 40 7)],
      (demo_channel SE)\<lparr>receiveSequenceNumber := 102\<rparr>)"
    by (simp add: demo_rx_def demo_message_content)
  have id: "idle ((demo_channel SE)\<lparr>receiveSequenceNumber := 102\<rparr>)"
    using demo_receiver(2) by (simp add: idle_def)
  show ?thesis
    using cb id demo_sender demo_sent_conn bd cap
    by (intro message_delivered [OF _ demo_blocks demo_receiver _ demo_sends _ _ lim net])
      (simp_all add: UNSPLIT_MAX_def)
qed

end
