(* ===== verification/Channel_Rules.thy ===== *)
theory Channel_Rules
  imports Channel_EndToEnd
begin

text \<open>
  The rules of the channel that do not depend on a whole message: the padding, sequence numbers, the
  negotiation of the buffer sizes, closing, and the bounds on what the receiver holds.
\<close>

section \<open>Padding\<close>

text \<open>
  The padding written by \<open>padChunk\<close> fills the last block together with the body and the signature,
  it is never longer than one block and its size bytes, and \<open>decodePadding\<close> on the other end reads
  its exact length back, for one and for two size bytes.
\<close>

theorem padding_removed:
  assumes "padding_ok cm cc"
    and "(getLocalKeyLength (encryptionAlgorithm cm') cc' > 2048) =
      (getRemoteKeyLength (encryptionAlgorithm cm) cc > 2048)"
  shows "decodePadding cm' cc' (pre @ padChunk cm cc n @ sg) (length sg) = length (padChunk cm cc n) \<and>
    (n + length (padChunk cm cc n) + getLocalSignatureSize (signatureAlgorithm cm) cc) mod
      getRemotePlainTextBlockSize (encryptionAlgorithm cm) cc = 0 \<and>
    1 \<le> length (padChunk cm cc n) \<and>
    length (padChunk cm cc n) \<le> getRemotePlainTextBlockSize (encryptionAlgorithm cm) cc + 1"
proof (intro conjI)
  have pos: "0 < block_size cm cc" using assms(1) by (simp add: padding_ok_def)
  show "decodePadding cm' cc' (pre @ padChunk cm cc n @ sg) (length sg) = length (padChunk cm cc n)"
    using assms by (intro decodePadding_padChunk) (simp_all add: extra_padding_def)
  show "(n + length (padChunk cm cc n) + getLocalSignatureSize (signatureAlgorithm cm) cc) mod
      getRemotePlainTextBlockSize (encryptionAlgorithm cm) cc = 0"
    using padChunk_blocks [OF pos, of n] by (simp add: sig_size_def block_size_def)
  show "1 \<le> length (padChunk cm cc n)"
    by (simp add: length_padChunk size_bytes_def)
  show "length (padChunk cm cc n) \<le> getRemotePlainTextBlockSize (encryptionAlgorithm cm) cc + 1"
    using padding_fill_less [OF pos, of n] by (simp add: length_padChunk size_bytes_def block_size_def)
qed

lemma demo_padding:
  "padding_ok demo_module cc" "getLocalKeyLength (encryptionAlgorithm demo_module) cc' = 256"
  by (simp_all add: padding_ok_def block_size_def extra_padding_def)
    (simp add: demo_module_def demo_encryption_def)

lemma padding_removed_witness:
  "decodePadding demo_module (Some 0) ([1, 2, 3] @ padChunk demo_module (Some 0) 3 @ [9, 9, 9, 9])
     (length [9 :: u8, 9, 9, 9]) = length (padChunk demo_module (Some 0) 3)"
  using padding_removed [OF demo_padding(1), of demo_module "Some 0" "Some 0" "[1, 2, 3]" 3 "[9, 9, 9, 9]"]
  by (simp add: demo_padding)

text \<open>
  In the modes with signatures a chunk whose body is a single byte (or empty) is refused by the
  receiver although its signature is right: \<open>decryptAndVerifyChunk\<close> asks for more than one byte behind
  the sequence header. The sender produces such a chunk whenever the content ends one byte behind a
  full chunk.
\<close>

theorem short_chunk_rejected:
  assumes "crypto_pair (securityMode ch) (sym_module ch) (channelContext ch) cm' (channelContext rch)"
    and "securityMode rch = securityMode ch" and "mtype = UA_MESSAGETYPE_MSG \<or> mtype = UA_MESSAGETYPE_CLO"
    and "securityMode ch \<noteq> SECURITYMODE_NONE" and "length body < 2"
    and "signAndEncryptSym ch
      (sym_header (mtype + ctype) (chunk_total ch (length body)) (channelId (securityToken ch))
         (tokenId (securityToken ch)) seqn req @ body @ chunk_padding ch (length body))
      (chunk_total ch (length body)) = (GOOD, msg)"
  shows "fst (decryptAndVerifyChunk rch cm' mtype msg 16) = UA_STATUSCODE_BADSECURITYCHECKSFAILED"
  using chunk_msg_opens(4) [OF assms(1,2) mtype_not_OPN [OF assms(3)]] assms(4-6)
  unfolding chunk_msg_def by blast

lemma short_chunk_rejected_witness:
  "fst (decryptAndVerifyChunk (demo_channel SECURITYMODE_SIGN) demo_module UA_MESSAGETYPE_MSG
     (sym_header (UA_MESSAGETYPE_MSG + UA_CHUNKTYPE_FINAL) 29 5 6 101 9 @ [7] @ [202, 202, 202, 202]) 16) =
   UA_STATUSCODE_BADSECURITYCHECKSFAILED"
proof -
  have "signAndEncryptSym (demo_channel SECURITYMODE_SIGN)
      (sym_header (UA_MESSAGETYPE_MSG + UA_CHUNKTYPE_FINAL) (chunk_total (demo_channel SECURITYMODE_SIGN) (length [7 :: u8]))
         (channelId (securityToken (demo_channel SECURITYMODE_SIGN))) (tokenId (securityToken (demo_channel SECURITYMODE_SIGN)))
         101 9 @ [7] @ chunk_padding (demo_channel SECURITYMODE_SIGN) (length [7 :: u8]))
      (chunk_total (demo_channel SECURITYMODE_SIGN) (length [7 :: u8])) =
    (GOOD, sym_header (UA_MESSAGETYPE_MSG + UA_CHUNKTYPE_FINAL) 29 5 6 101 9 @ [7] @ [202, 202, 202, 202])"
    by (simp add: chunk_eval replicate_num)
  from short_chunk_rejected [OF _ _ _ _ _ this, of demo_module "demo_channel SECURITYMODE_SIGN"] show ?thesis
    using demo_pair [of SECURITYMODE_SIGN "0x5a"] by simp
qed

section \<open>Sequence numbers\<close>

fun accept_all :: "u32 list \<Rightarrow> 'k UA_SecureChannel \<Rightarrow> status \<times> 'k UA_SecureChannel" where
  "accept_all [] ch = (GOOD, ch)"
| "accept_all (n # ns) ch =
     (case processSequenceNumberSym n ch of
        (r, ch') \<Rightarrow> if r \<noteq> GOOD then (r, ch') else accept_all ns ch')"

text \<open>A lower bound for the number of steps from the last number \<open>b\<close> to the number \<open>n\<close>.\<close>

definition seq_distance :: "nat \<Rightarrow> nat \<Rightarrow> nat" where
  "seq_distance b n = (if b < n then n - b else (4294966271 - b) + 1 + (n - 1023))"

lemma accepted_step:
  assumes "processSequenceNumberSym m ch = (GOOD, ch')"
  shows "receiveSequenceNumber ch' = m"
    and "unat m = unat (receiveSequenceNumber ch) + 1 \<or>
      4294966271 \<le> unat (receiveSequenceNumber ch) \<and> unat m < 1024"
proof -
  let ?b = "receiveSequenceNumber ch"
  show "receiveSequenceNumber ch' = m"
    using assms by (auto simp: processSequenceNumberSym_def split: if_splits)
  have "m = ?b + 1 \<or> \<not> ?b + 1 \<le> UA_SEQUENCENUMBER_ROLLOVER \<and> \<not> 1024 \<le> m"
    using assms by (auto simp: processSequenceNumberSym_def split: if_splits)
  then show "unat m = unat ?b + 1 \<or> 4294966271 \<le> unat ?b \<and> unat m < 1024"
  proof
    assume m: "m = ?b + 1"
    show ?thesis
    proof (cases "?b = - 1")
      case True
      moreover have "unat (- 1 :: u32) = 4294967295"
        by (simp add: unsigned_minus_1_eq_mask mask_eq_exp_minus_1)
      ultimately show ?thesis using m by simp
    next
      case False
      then have "unat (?b + 1) = unat ?b + 1"
        by (metis add.commute add.right_inverse unatSuc Suc_eq_plus1 add_eq_0_iff)
      then show ?thesis using m by simp
    qed
  next
    assume w: "\<not> ?b + 1 \<le> UA_SEQUENCENUMBER_ROLLOVER \<and> \<not> 1024 \<le> m"
    have "unat (?b + 1) \<le> unat ?b + 1"
      by (simp add: unat_word_ariths)
    moreover have "4294966271 < unat (?b + 1)" "unat m < 1024"
      using w by (simp_all add: UA_SEQUENCENUMBER_ROLLOVER_def word_le_nat_alt not_le)
    ultimately show ?thesis by simp
  qed
qed

lemma accepted_distance:
  assumes "processSequenceNumberSym m ch = (GOOD, ch')"
  shows "unat m = n \<or> seq_distance (unat (receiveSequenceNumber ch)) n \<le> seq_distance (unat m) n + 1"
  using accepted_step(2) [OF assms] by (auto simp: seq_distance_def split: if_splits)

lemma accept_all_distance:
  assumes "accept_all (ns @ [n]) ch = (GOOD, ch')"
  shows "seq_distance (unat (receiveSequenceNumber ch)) (unat n) \<le> length ns + 1"
  using assms
proof (induction ns arbitrary: ch)
  case Nil
  then obtain ch1 where 1: "processSequenceNumberSym n ch = (GOOD, ch1)"
    by (auto split: prod.splits if_splits)
  then show ?case using accepted_step(2) [OF 1] by (auto simp: seq_distance_def)
next
  case (Cons m ns)
  obtain ch1 where 1: "processSequenceNumberSym m ch = (GOOD, ch1)" and 2: "accept_all (ns @ [n]) ch1 = (GOOD, ch')"
    using Cons.prems by (auto split: prod.splits if_splits)
  show ?case
  proof (cases "unat m = unat n")
    case True
    then show ?thesis using accepted_step(2) [OF 1] by (auto simp: seq_distance_def)
  next
    case False
    then show ?thesis
      using accepted_distance [OF 1, of "unat n"] Cons.IH [OF 2] accepted_step(1) [OF 1] by simp
  qed
qed

lemma accept_all_snoc:
  "accept_all ns ch = (GOOD, ch') \<Longrightarrow> accept_all (ns @ [n]) ch = processSequenceNumberSym n ch'"
  by (induction ns arbitrary: ch) (auto split: prod.splits if_splits)

text \<open>
  C11: A sequence number that was accepted is refused when it comes again within the next 4294965246
  accepted chunks: a recorded chunk cannot be played back within one round of the counter.
\<close>

theorem sequence_number_not_replayed:
  assumes "accept_all (n # ns) ch = (GOOD, ch')" and "length ns < 4294965247"
  shows "processSequenceNumberSym n ch' = (UA_STATUSCODE_BADSECURITYCHECKSFAILED, ch')"
proof (rule ccontr)
  assume r: "processSequenceNumberSym n ch' \<noteq> (UA_STATUSCODE_BADSECURITYCHECKSFAILED, ch')"
  obtain ch2 where g: "processSequenceNumberSym n ch' = (GOOD, ch2)"
    using r by (auto simp: processSequenceNumberSym_def split: if_splits)
  obtain ch1 where 1: "processSequenceNumberSym n ch = (GOOD, ch1)" and 2: "accept_all ns ch1 = (GOOD, ch')"
    using assms(1) by (auto split: prod.splits if_splits)
  have "accept_all (ns @ [n]) ch1 = (GOOD, ch2)" using accept_all_snoc [OF 2] g by simp
  from accept_all_distance [OF this] have "seq_distance (unat n) (unat n) \<le> length ns + 1"
    using accepted_step(1) [OF 1] by simp
  then show False using assms(2) by (simp add: seq_distance_def)
qed

lemma sequence_number_not_replayed_witness:
  "processSequenceNumberSym 101 ((demo_channel SE)\<lparr>receiveSequenceNumber := 103\<rparr>) =
    (UA_STATUSCODE_BADSECURITYCHECKSFAILED, (demo_channel SE)\<lparr>receiveSequenceNumber := 103\<rparr>)"
proof -
  have "accept_all [101, 102, 103] (demo_channel SE) = (GOOD, (demo_channel SE)\<lparr>receiveSequenceNumber := 103\<rparr>)"
    by (simp add: processSequenceNumberSym_def)
  from sequence_number_not_replayed [OF this] show ?thesis by simp
qed

section \<open>Negotiation and closing\<close>

lemma cut_config:
  "(if protocolVersion c > x then c\<lparr>protocolVersion := x\<rparr> else c) = c\<lparr>protocolVersion := min (protocolVersion c) x\<rparr>"
  "(if sendBufferSize c > x then c\<lparr>sendBufferSize := x\<rparr> else c) = c\<lparr>sendBufferSize := min (sendBufferSize c) x\<rparr>"
  "(if recvBufferSize c > x then c\<lparr>recvBufferSize := x\<rparr> else c) = c\<lparr>recvBufferSize := min (recvBufferSize c) x\<rparr>"
  by (simp_all add: min_def)

text \<open>
  After a HEL or ACK message that is accepted both buffers have at least 8192 bytes, none of them
  is larger than before or than what the remote side offers, the remote message size is unlimited or
  at least 8192, and the connection is established.
\<close>

theorem processHELACK_limits:
  assumes "UA_SecureChannel_processHELACK remote ch = (GOOD, ch')"
  shows "8192 \<le> recvBufferSize (config ch') \<and> 8192 \<le> sendBufferSize (config ch') \<and>
    recvBufferSize (config ch') = min (recvBufferSize (config ch)) (ack_sendBufferSize remote) \<and>
    sendBufferSize (config ch') = min (sendBufferSize (config ch)) (ack_receiveBufferSize remote) \<and>
    protocolVersion (config ch') = min (protocolVersion (config ch)) (ack_protocolVersion remote) \<and>
    (remoteMaxMessageSize (config ch') = 0 \<or> 8192 \<le> remoteMaxMessageSize (config ch')) \<and>
    conn_state (connection ch') = CONNECTIONSTATE_ESTABLISHED"
proof -
  define conf where "conf = (config ch)
    \<lparr>protocolVersion := min (protocolVersion (config ch)) (ack_protocolVersion remote),
     sendBufferSize := min (sendBufferSize (config ch)) (ack_receiveBufferSize remote),
     recvBufferSize := min (recvBufferSize (config ch)) (ack_sendBufferSize remote),
     remoteMaxMessageSize := ack_maxMessageSize remote, remoteMaxChunkCount := ack_maxChunkCount remote\<rparr>"
  have e: "UA_SecureChannel_processHELACK remote ch =
    (if recvBufferSize conf < 8192 \<or> sendBufferSize conf < 8192 \<or>
        (remoteMaxMessageSize conf \<noteq> 0 \<and> remoteMaxMessageSize conf < 8192)
     then (UA_STATUSCODE_BADINTERNALERROR, ch\<lparr>config := conf\<rparr>)
     else (GOOD, ch\<lparr>config := conf,
                     connection := (connection ch)\<lparr>conn_state := CONNECTIONSTATE_ESTABLISHED\<rparr>\<rparr>))"
    unfolding UA_SecureChannel_processHELACK_def Let_def cut_config conf_def by simp
  have g: "\<not> (recvBufferSize conf < 8192 \<or> sendBufferSize conf < 8192 \<or>
        (remoteMaxMessageSize conf \<noteq> 0 \<and> remoteMaxMessageSize conf < 8192))"
    and ch': "ch' = ch\<lparr>config := conf,
                     connection := (connection ch)\<lparr>conn_state := CONNECTIONSTATE_ESTABLISHED\<rparr>\<rparr>"
    using assms unfolding e by (simp_all split: if_splits)
  have "8192 \<le> recvBufferSize conf \<and> 8192 \<le> sendBufferSize conf \<and>
      (remoteMaxMessageSize conf = 0 \<or> 8192 \<le> remoteMaxMessageSize conf)"
    using g by (simp only: not_less de_Morgan_disj de_Morgan_conj) blast
  moreover have "recvBufferSize conf = min (recvBufferSize (config ch)) (ack_sendBufferSize remote)"
    "sendBufferSize conf = min (sendBufferSize (config ch)) (ack_receiveBufferSize remote)"
    "protocolVersion conf = min (protocolVersion (config ch)) (ack_protocolVersion remote)"
    by (simp_all add: conf_def)
  moreover have "config ch' = conf" "conn_state (connection ch') = CONNECTIONSTATE_ESTABLISHED"
    by (simp_all add: ch')
  ultimately show ?thesis by (simp only: simp_thms)
qed

definition demo_hello :: UA_TcpAcknowledgeMessage where
  "demo_hello =
     \<lparr>ack_protocolVersion = 0, ack_receiveBufferSize = 9000, ack_sendBufferSize = 70000,
      ack_maxMessageSize = 0, ack_maxChunkCount = 0\<rparr>"

lemma processHELACK_limits_witness:
  "recvBufferSize (config (snd (UA_SecureChannel_processHELACK demo_hello
     (UA_SecureChannel_init (demo_config\<lparr>recvBufferSize := 65536, sendBufferSize := 65536\<rparr>) :: u8 UA_SecureChannel)))) = 65536 \<and>
   sendBufferSize (config (snd (UA_SecureChannel_processHELACK demo_hello
     (UA_SecureChannel_init (demo_config\<lparr>recvBufferSize := 65536, sendBufferSize := 65536\<rparr>) :: u8 UA_SecureChannel)))) = 9000"
proof -
  let ?ch = "UA_SecureChannel_init (demo_config\<lparr>recvBufferSize := 65536, sendBufferSize := 65536\<rparr>) :: u8 UA_SecureChannel"
  have "fst (UA_SecureChannel_processHELACK demo_hello ?ch) = GOOD"
    by (simp add: UA_SecureChannel_processHELACK_def demo_hello_def UA_SecureChannel_init_def demo_config_def)
  then have "UA_SecureChannel_processHELACK demo_hello ?ch =
      (GOOD, snd (UA_SecureChannel_processHELACK demo_hello ?ch))"
    by (metis prod.collapse)
  from processHELACK_limits [OF this] show ?thesis
    by (simp add: demo_hello_def UA_SecureChannel_init_def)
qed

lemma deleteChunks_all [simp]: "deleteChunks q = []"
  by (induction q) simp_all

lemma detachSessions_all [simp]: "detachSessions shs = []"
  by (induction shs) simp_all

lemma close_eq:
  "UA_SecureChannel_close ch =
    ch\<lparr>state := SECURECHANNELSTATE_CLOSED,
       connection := (if has_connection ch then (connection ch)\<lparr>conn_state := CONNECTIONSTATE_CLOSED\<rparr>
                      else connection ch),
       has_connection := False, sessions := [], securityPolicy := None,
       channelContext := (if securityPolicy ch = None then channelContext ch else None),
       remoteCertificate := [], localNonce := [], remoteNonce := [], securityToken := null_token,
       altSecurityToken := null_token, completeChunks := [], decryptedChunks := [],
       incompleteChunk := []\<rparr>"
proof -
  have c: "(if conn_state (connection ch) \<noteq> CONNECTIONSTATE_CLOSED
      then (connection ch)\<lparr>conn_state := CONNECTIONSTATE_CLOSED\<rparr> else connection ch) =
    (connection ch)\<lparr>conn_state := CONNECTIONSTATE_CLOSED\<rparr>"
    by simp
  show ?thesis
    by (cases "has_connection ch"; cases "securityPolicy ch")
      (simp_all add: UA_SecureChannel_close_def UA_SecureChannel_deleteBuffered_def Let_def c)
qed

text \<open>
  Closing leaves nothing behind: the sessions are detached, all queued chunks and the incomplete
  chunk are gone, the keys are dropped, the connection is closed and detached; closing again changes
  nothing, and a closed channel refuses every message to be sent.
\<close>

theorem close_clears:
  "state (UA_SecureChannel_close ch) = SECURECHANNELSTATE_CLOSED \<and>
   \<not> has_connection (UA_SecureChannel_close ch) \<and>
   (has_connection ch \<longrightarrow> conn_state (connection (UA_SecureChannel_close ch)) = CONNECTIONSTATE_CLOSED) \<and>
   sessions (UA_SecureChannel_close ch) = [] \<and> securityPolicy (UA_SecureChannel_close ch) = None \<and>
   (securityPolicy ch \<noteq> None \<longrightarrow> channelContext (UA_SecureChannel_close ch) = None) \<and>
   completeChunks (UA_SecureChannel_close ch) = [] \<and> decryptedChunks (UA_SecureChannel_close ch) = [] \<and>
   incompleteChunk (UA_SecureChannel_close ch) = [] \<and>
   securityToken (UA_SecureChannel_close ch) = null_token \<and>
   UA_SecureChannel_close (UA_SecureChannel_close ch) = UA_SecureChannel_close ch \<and>
   UA_SecureChannel_sendSymmetricMessage env req mtype payload ty (UA_SecureChannel_close ch) =
     (UA_STATUSCODE_BADINTERNALERROR, UA_SecureChannel_close ch)"
  by (simp add: close_eq UA_SecureChannel_sendSymmetricMessage_def)

lemma close_clears_witness:
  "conn_state (connection (UA_SecureChannel_close (demo_channel SE))) = CONNECTIONSTATE_CLOSED \<and>
   channelContext (UA_SecureChannel_close (demo_channel SE)) = None"
  using close_clears [of "demo_channel SE"] by simp

section \<open>What the receiver holds\<close>

lemma persistCompleteChunks_copied:
  "persistCompleteChunks mem cs = (GOOD, cs') \<Longrightarrow> \<forall>c \<in> set cs'. copied c"
  by (induction cs arbitrary: cs') (auto split: prod.splits if_splits)

lemma persistCompleteChunks_same:
  "map (\<lambda>c. (messageType c, chunkType c, requestId c)) (snd (persistCompleteChunks mem cs)) =
     map (\<lambda>c. (messageType c, chunkType c, requestId c)) cs \<and>
   map chunk_bytes (snd (persistCompleteChunks mem cs)) = map chunk_bytes cs"
  by (induction cs) (auto simp: ByteString_copy_def split: prod.splits if_splits)

lemma processChunks_empty:
  "processChunks env app ch = Some (GOOD, app', ch') \<Longrightarrow> completeChunks ch' = []"
proof -
  have "processChunks env app ch = Some y \<Longrightarrow> fst y = GOOD \<longrightarrow> completeChunks (snd (snd y)) = []" for y
    by (erule processChunks.raw_induct [rotated, where P =
          "\<lambda>env app ch y. fst y = GOOD \<longrightarrow> completeChunks (snd (snd y)) = []"])
      (fastforce split: list.splits prod.splits if_splits)
  then show "processChunks env app ch = Some (GOOD, app', ch') \<Longrightarrow> completeChunks ch' = []" by fastforce
qed

lemma word_or_zero: "(a :: 'a :: len word) OR b = 0 \<longleftrightarrow> a = 0 \<and> b = 0"
  by (metis or.right_neutral or_eq_0_iff)

text \<open>
  When a buffer has been processed without error, no complete chunk is left in the queue and no
  chunk of an unfinished message points into the network buffer any more, whatever the callback did.
\<close>

theorem no_chunk_points_into_buffer:
  assumes "UA_SecureChannel_processBuffer env app buffer ch = Some (GOOD, app', ch')"
  shows "completeChunks ch' = [] \<and> (\<forall>c \<in> set (decryptedChunks ch'). copied c)"
proof -
  obtain off ch1 where "processExtracted env app (incompleteChunk ch @ buffer) off ch1 = Some (GOOD, app', ch')"
    using assms by (auto simp: UA_SecureChannel_processBuffer_def Let_def split: if_splits prod.splits)
  then obtain ch2 app2 ch3 q1 q2 r1 r2 where
    p: "processChunks env app ch2 = Some (GOOD, app2, ch3)"
      "persistCompleteChunks (rx_mem env) (completeChunks ch3) = (r1, q1)"
      "persistCompleteChunks (rx_mem env) (decryptedChunks ch3) = (r2, q2)"
      "r1 OR r2 = GOOD" "ch' = ch3\<lparr>completeChunks := q1, decryptedChunks := q2\<rparr>"
    by (auto simp: processExtracted_def Let_def split: if_splits prod.splits option.splits)
  have "q1 = []" using p(2) processChunks_empty [OF p(1)] by simp
  moreover have "r2 = GOOD" using p(4) by (simp add: word_or_zero)
  then have "\<forall>c \<in> set q2. copied c" using persistCompleteChunks_copied p(3) by blast
  ultimately show ?thesis using p(5) by simp
qed

lemma demo_half_chunk:
  "UA_SecureChannel_processBuffer demo_rx [] [77, 83] (demo_channel SE) =
    Some (GOOD, [], (demo_channel SE)\<lparr>incompleteChunk := [77, 83]\<rparr>)"
  using demo_receiver(2)
  by (simp add: UA_SecureChannel_processBuffer_def extractChunks.simps extractCompleteChunk_def
      processExtracted_def persistIncompleteChunk_def ByteString_allocBuffer_def processChunks.simps
      idle_def demo_rx_def)

lemma no_chunk_points_into_buffer_witness:
  "completeChunks ((demo_channel SE)\<lparr>incompleteChunk := [77, 83]\<rparr>) = []"
  using no_chunk_points_into_buffer [OF demo_half_chunk] by simp

end
