(* ===== verification/Channel_Bounds.thy ===== *)
theory Channel_Bounds
  imports Channel_Rules
begin

text \<open>
  A bound on the memory that a peer can make the receiver hold: the invariant of the queues of a
  channel, kept by every buffer that is processed without error.
\<close>

section \<open>The invariant\<close>

definition limit_ok :: "u32 \<Rightarrow> nat \<Rightarrow> bool" where
  "limit_ok limit n = (limit = 0 \<or> n \<le> unat limit)"

definition queue_ok :: "'k UA_SecureChannel \<Rightarrow> bool" where
  "queue_ok ch =
     (decryptedChunksCount ch = length (decryptedChunks ch) \<and>
      decryptedChunksLength ch = length (concat (map chunk_bytes (decryptedChunks ch))) \<and>
      (\<forall>c \<in> set (decryptedChunks ch). chunkType c = UA_CHUNKTYPE_INTERMEDIATE) \<and>
      limit_ok (localMaxChunkCount (config ch)) (length (decryptedChunks ch)) \<and>
      limit_ok (localMaxMessageSize (config ch))
        (length (concat (map chunk_bytes (decryptedChunks ch)))))"

definition held_ok :: "nat \<Rightarrow> 'k UA_SecureChannel \<Rightarrow> bool" where
  "held_ok cap ch =
     (queue_ok ch \<and> unat (recvBufferSize (config ch)) \<le> cap \<and> length (incompleteChunk ch) \<le> cap)"

text \<open>The application keeps the invariant, for instance because it leaves the queues alone.\<close>

definition app_keeps :: "('k UA_SecureChannel \<Rightarrow> bool) \<Rightarrow> ('app, 'k) rx_env \<Rightarrow> bool" where
  "app_keeps P env =
     ((\<forall>app ch t r p. P ch \<longrightarrow> P (snd (snd (rx_callback env app ch t r p)))) \<and>
      (\<forall>f app ch u c t. rx_processOPNHeader env = Some f \<longrightarrow> P ch \<longrightarrow> P (snd (snd (f app ch u c t)))))"

lemma queue_ok_frame [simp]:
  "queue_ok (ch\<lparr>receiveSequenceNumber := n\<rparr>) = queue_ok ch"
  "queue_ok (ch\<lparr>securityToken := tk\<rparr>) = queue_ok ch"
  "queue_ok (ch\<lparr>altSecurityToken := tk\<rparr>) = queue_ok ch"
  "queue_ok (ch\<lparr>channelContext := cc\<rparr>) = queue_ok ch"
  "queue_ok (ch\<lparr>renewState := rn\<rparr>) = queue_ok ch"
  "queue_ok (ch\<lparr>completeChunks := q\<rparr>) = queue_ok ch"
  "queue_ok (ch\<lparr>incompleteChunk := r\<rparr>) = queue_ok ch"
  by (simp_all add: queue_ok_def)

lemma held_ok_frame [simp]:
  "held_ok cap (ch\<lparr>receiveSequenceNumber := n\<rparr>) = held_ok cap ch"
  "held_ok cap (ch\<lparr>securityToken := tk\<rparr>) = held_ok cap ch"
  "held_ok cap (ch\<lparr>altSecurityToken := tk\<rparr>) = held_ok cap ch"
  "held_ok cap (ch\<lparr>channelContext := cc\<rparr>) = held_ok cap ch"
  "held_ok cap (ch\<lparr>renewState := rn\<rparr>) = held_ok cap ch"
  "held_ok cap (ch\<lparr>completeChunks := q\<rparr>) = held_ok cap ch"
  by (simp_all add: held_ok_def)

section \<open>One chunk\<close>

lemma generateLocalKeys_held:
  "held_ok cap (snd (UA_SecureChannel_generateLocalKeys mem ch)) = held_ok cap ch"
  by (simp add: UA_SecureChannel_generateLocalKeys_def Let_def split: option.split prod.split)

lemma generateRemoteKeys_held:
  "held_ok cap (snd (generateRemoteKeys mem ch)) = held_ok cap ch"
  by (simp add: generateRemoteKeys_def Let_def split: option.split prod.split)

lemma check_timeout_held:
  "check_timeout now tk ch = (GOOD, ch') \<Longrightarrow> ch' = ch"
  by (simp add: check_timeout_def split: if_splits)

lemma checkSymHeader_held:
  assumes "checkSymHeader mem now tid ch = (GOOD, ch')" and "held_ok cap ch"
  shows "held_ok cap ch'"
proof -
  obtain r1 ch2 where l: "UA_SecureChannel_generateLocalKeys mem (ch\<lparr>renewState := RENEWSTATE_NORMAL,
      securityToken := altSecurityToken ch, altSecurityToken := null_token\<rparr>) = (r1, ch2)" by fastforce
  obtain r2 ch3 where r: "generateRemoteKeys mem ch2 = (r2, ch3)" by fastforce
  obtain r4 ch4 where c: "generateRemoteKeys mem (ch\<lparr>renewState := RENEWSTATE_NORMAL,
      altSecurityToken := null_token\<rparr>) = (r4, ch4)" by fastforce
  have "held_ok cap ch3" "held_ok cap ch4"
    using generateLocalKeys_held [of cap mem "ch\<lparr>renewState := RENEWSTATE_NORMAL,
      securityToken := altSecurityToken ch, altSecurityToken := null_token\<rparr>"]
      generateRemoteKeys_held [of cap mem ch2]
      generateRemoteKeys_held [of cap mem "ch\<lparr>renewState := RENEWSTATE_NORMAL, altSecurityToken := null_token\<rparr>"]
      l r c assms(2) by simp_all
  then show ?thesis
    using assms unfolding checkSymHeader_def Let_def l prod.case r c
    by (auto split: UA_SecureChannelRenewState.splits if_splits dest!: check_timeout_held)
qed

lemma processSequenceNumberSym_held:
  "processSequenceNumberSym n ch = (r, ch') \<Longrightarrow> held_ok cap ch' = held_ok cap ch"
  by (auto simp: processSequenceNumberSym_def split: if_splits)

lemma unpackPayloadMSG_held:
  assumes "unpackPayloadMSG env ch chunk = (GOOD, chunk', ch')" and "held_ok cap ch"
  shows "held_ok cap ch' \<and> chunkType chunk' = chunkType chunk"
proof -
  obtain q1 chan off1 where d1: "decode_word (rx_types env) (chunk_bytes chunk) 8 = (q1, chan, off1)"
    by (metis prod_cases3)
  obtain q2 tid off2 where d2: "decode_word (rx_types env) (chunk_bytes chunk) off1 = (q2, tid, off2)"
    by (metis prod_cases3)
  obtain r ch1 where c: "checkSymHeader (rx_mem env) (rx_now env) tid ch = (r, ch1)" by fastforce
  obtain r2 plain where v: "decryptAndVerifyChunk ch1 (symmetricModule (the (securityPolicy ch1)))
      (messageType chunk) (chunk_bytes chunk) off2 = (r2, plain)" by fastforce
  obtain r3 sq req off3 where d3: "decode_two_words (rx_types env) UA_TRANSPORT_SEQUENCEHEADER plain off2 =
      (r3, sq, req, off3)" by (metis prod_cases4)
  obtain r4 ch2 where p: "processSequenceNumberSym sq ch1 = (r4, ch2)" by fastforce
  note e = assms(1) [unfolded unpackPayloadMSG_def Let_def d1 prod.case d2 c v d3 p]
  have "r = GOOD" "ch' = ch2" "chunkType chunk' = chunkType chunk"
    using e by (auto split: if_splits)
  then show ?thesis
    using checkSymHeader_held [OF c [unfolded \<open>r = GOOD\<close>] assms(2)] processSequenceNumberSym_held [OF p, of cap]
    by simp
qed

lemma unpackPayloadOPN_held:
  assumes "unpackPayloadOPN env app ch chunk = (GOOD, chunk', app', ch')" and "held_ok cap ch"
    and app: "app_keeps (held_ok cap) env"
  shows "held_ok cap ch' \<and> chunkType chunk' = chunkType chunk"
proof -
  obtain q1 chan off1 where d1: "decode_word (rx_types env) (chunk_bytes chunk) 8 = (q1, chan, off1)"
    by (metis prod_cases3)
  obtain q2 uri cert thumb off2 where d2:
    "decode_asymHeader (rx_types env) (rx_mem env) (chunk_bytes chunk) off1 = (q2, (uri, cert, thumb), off2)"
    by (metis prod_cases3)
  let ?cb = "case rx_processOPNHeader env of Some f \<Rightarrow> f app ch uri cert thumb | None \<Rightarrow> (GOOD, app, ch)"
  obtain r1 app1 ch1 where f: "?cb = (r1, app1, ch1)" by (metis prod_cases3)
  have h1: "held_ok cap ch1"
  proof (cases "rx_processOPNHeader env")
    case (Some g)
    then have "held_ok cap (snd (snd (g app ch uri cert thumb)))"
      using app assms(2) unfolding app_keeps_def by blast
    then show ?thesis using f Some by simp
  qed (use f assms(2) in simp)
  define hd where "hd = (if securityPolicy ch \<noteq> None then (GOOD, app, ch)
    else (if securityPolicy ch1 = None then UA_STATUSCODE_BADINTERNALERROR else r1, app1, ch1))"
  obtain r2 app2 ch2 where g: "hd = (r2, app2, ch2)" by (metis prod_cases3)
  have h2: "held_ok cap ch2" using g h1 assms(2) by (auto simp: hd_def split: if_splits)
  define ch3 where "ch3 = (if chan \<noteq> 0 \<and> channelId (securityToken ch2) = 0
    then ch2\<lparr>securityToken := (securityToken ch2)\<lparr>channelId := chan\<rparr>\<rparr> else ch2)"
  have h3: "held_ok cap ch3" using h2 by (simp add: ch3_def)
  obtain r4 plain where v: "decryptAndVerifyChunk ch3 (asymmetricModule (the (securityPolicy ch3)))
      (messageType chunk) (chunk_bytes chunk) off2 = (r4, plain)" by fastforce
  obtain r5 sq req off3 where d3: "decode_two_words (rx_types env) UA_TRANSPORT_SEQUENCEHEADER plain off2 =
      (r5, sq, req, off3)" by (metis prod_cases4)
  note e = assms(1) [unfolded unpackPayloadOPN_def Let_def d1 prod.case d2 f, folded hd_def, unfolded g prod.case,
      folded ch3_def, unfolded v prod.case d3]
  show ?thesis using e h3 by (auto split: if_splits)
qed

lemma unpackChunk_held:
  assumes "unpackChunk env app ch chunk = (GOOD, chunk', app', ch')" and "held_ok cap ch"
    and app: "app_keeps (held_ok cap) env"
  shows "held_ok cap ch' \<and> chunkType chunk' = chunkType chunk"
  using assms(1,2) unpackPayloadOPN_held [OF _ assms(2) app, of app chunk chunk' app' ch']
    unpackPayloadMSG_held [OF _ assms(2), of env chunk chunk' ch']
  by (auto simp: unpackChunk_def split: if_splits prod.splits)

lemma joinChunks_rest:
  assumes "\<forall>c \<in> set ds. chunkType c = UA_CHUNKTYPE_INTERMEDIATE" "chunkType l \<noteq> UA_CHUNKTYPE_INTERMEDIATE"
  shows "snd (joinChunks (ds @ [l])) = []"
  using assms by (induction ds) (auto simp: type_defs split: prod.split)

text \<open>The message is taken out of the queue as a whole.\<close>

lemma assemble_held:
  assumes ds: "\<forall>c \<in> set ds. chunkType c = UA_CHUNKTYPE_INTERMEDIATE" "chunkType l \<noteq> UA_CHUNKTYPE_INTERMEDIATE"
    and q: "decryptedChunks ch = ds @ [l]"
    and h: "held_ok cap (ch\<lparr>decryptedChunks := []\<rparr>)" and app: "app_keeps (held_ok cap) env"
    and eq: "assembleProcessMessage env app ch = (GOOD, app', ch')"
  shows "held_ok cap ch'"
proof -
  have cb: "rx_callback env app (ch\<lparr>decryptedChunks := []\<rparr>) t r p = (GOOD, app', ch') \<Longrightarrow> held_ok cap ch'" for t r p
    using app h unfolding app_keeps_def by (metis snd_conv)
  obtain c rest where c: "decryptedChunks ch = c # rest"
    by (metis q append_is_Nil_conv list.exhaust list.distinct(1))
  show ?thesis
  proof (cases "chunkType c = UA_CHUNKTYPE_FINAL")
    case True
    then have "rest = []" using q c ds by (cases ds) (auto simp: type_defs)
    then show ?thesis using eq c True cb by (simp add: assembleProcessMessage_def)
  next
    case False
    obtain payload rest' where j: "joinChunks (ds @ [l]) = (payload, rest')" by fastforce
    have "rest' = []" using joinChunks_rest [OF ds] j by simp
    then show ?thesis
      using eq False cb j q c unfolding assembleProcessMessage_def c list.case Let_def
      by (auto simp: ByteString_allocBuffer_def split: if_splits prod.splits simp flip: c simp: q)
  qed
qed

lemma processChunk_held:
  assumes "processChunk env app ch chunk = (GOOD, app', ch')" and h: "held_ok cap ch"
    and app: "app_keeps (held_ok cap) env"
  shows "held_ok cap ch'"
proof -
  obtain r1 chunk1 app1 ch1 where u: "unpackChunk env app ch chunk = (r1, chunk1, app1, ch1)"
    by (metis prod_cases4)
  define ch2 where "ch2 = ch1\<lparr>decryptedChunks := decryptedChunks ch1 @ [chunk1],
    decryptedChunksCount := decryptedChunksCount ch1 + 1,
    decryptedChunksLength := decryptedChunksLength ch1 + length (chunk_bytes chunk1)\<rparr>"
  define ch3 where "ch3 = ch2\<lparr>decryptedChunksCount := 0, decryptedChunksLength := 0\<rparr>"
  note e = assms(1) [unfolded processChunk_def Let_def u prod.case, folded ch2_def, folded ch3_def]
  have r1: "r1 = GOOD" using e by (simp split: if_splits)
  have h1: "held_ok cap ch1" using unpackChunk_held [OF u [unfolded r1] h app] by simp
  have lim: "limit_ok (localMaxChunkCount (config ch2)) (decryptedChunksCount ch2)"
    "limit_ok (localMaxMessageSize (config ch2)) (decryptedChunksLength ch2)"
    using e r1 by (auto simp: limit_ok_def split: if_splits)
  consider "chunkType chunk1 = UA_CHUNKTYPE_INTERMEDIATE" "ch' = ch2"
    | "chunkType chunk1 \<noteq> UA_CHUNKTYPE_INTERMEDIATE" "ch' = ch3\<lparr>decryptedChunks := []\<rparr>"
    | "chunkType chunk1 \<noteq> UA_CHUNKTYPE_INTERMEDIATE" "assembleProcessMessage env app1 ch3 = (GOOD, app', ch')"
    using e r1 by (auto split: if_splits)
  then show ?thesis
  proof cases
    case 1
    then show ?thesis using h1 lim by (auto simp: held_ok_def queue_ok_def ch2_def)
  next
    case 2
    then show ?thesis using h1 by (simp add: held_ok_def queue_ok_def ch3_def ch2_def limit_ok_def)
  next
    case 3
    have "held_ok cap (ch3\<lparr>decryptedChunks := []\<rparr>)"
      using h1 by (simp add: held_ok_def queue_ok_def ch3_def ch2_def limit_ok_def)
    moreover have "decryptedChunks ch3 = decryptedChunks ch1 @ [chunk1]"
      "\<forall>c \<in> set (decryptedChunks ch1). chunkType c = UA_CHUNKTYPE_INTERMEDIATE"
      using h1 by (auto simp: ch3_def ch2_def held_ok_def queue_ok_def)
    ultimately show ?thesis using assemble_held [OF _ 3(1) _ _ app 3(2)] by blast
  qed
qed

lemma processChunks_held:
  assumes "processChunks env app ch = Some (GOOD, app', ch')" and "held_ok cap ch"
    and app: "app_keeps (held_ok cap) env"
  shows "held_ok cap ch'"
proof -
  have "processChunks env app ch = Some y \<Longrightarrow>
      held_ok cap ch \<longrightarrow> fst y = GOOD \<longrightarrow> held_ok cap (snd (snd y))" for y
  proof (erule processChunks.raw_induct [rotated, where P =
        "\<lambda>env' app ch y. env' = env \<longrightarrow> held_ok cap ch \<longrightarrow> fst y = GOOD \<longrightarrow> held_ok cap (snd (snd y))", THEN mp])
    fix pc env' app ch and y :: "status \<times> 'a \<times> 'b UA_SecureChannel"
    assume IH: "\<And>env' app ch y. pc env' app ch = Some y \<Longrightarrow>
        env' = env \<longrightarrow> held_ok cap ch \<longrightarrow> fst y = GOOD \<longrightarrow> held_ok cap (snd (snd y))"
      and eq: "(case completeChunks ch of [] \<Rightarrow> Some (GOOD, app, ch)
        | chunk # rest \<Rightarrow> case processChunk env' app (ch\<lparr>completeChunks := rest\<rparr>) chunk of
            (res, app1, ch1) \<Rightarrow> if res \<noteq> GOOD then Some (res, app1, ch1) else pc env' app1 ch1) = Some y"
    show "env' = env \<longrightarrow> held_ok cap ch \<longrightarrow> fst y = GOOD \<longrightarrow> held_ok cap (snd (snd y))"
    proof (intro impI)
      assume a: "env' = env" "held_ok cap ch" "fst y = GOOD"
      show "held_ok cap (snd (snd y))"
      proof (cases "completeChunks ch")
        case Nil
        then show ?thesis using eq a by auto
      next
        case (Cons chunk rest)
        obtain res app1 ch1 where p: "processChunk env app (ch\<lparr>completeChunks := rest\<rparr>) chunk = (res, app1, ch1)"
          by (metis prod_cases3)
        have res: "res = GOOD"
        proof (rule ccontr)
          assume "res \<noteq> GOOD"
          then have "y = (res, app1, ch1)" using eq Cons p a(1) by simp
          then show False using \<open>res \<noteq> GOOD\<close> a(3) by simp
        qed
        have "held_ok cap ch1"
          using processChunk_held [OF p [unfolded res] _ app] a(2) by simp
        then show ?thesis using eq Cons p res a IH [of env app1 ch1 y] by simp
      qed
    qed
  qed simp
  then show ?thesis using assms by fastforce
qed

section \<open>One buffer\<close>

lemma extractCompleteChunk_held:
  assumes "extractCompleteChunk env buffer off ch = (r, off', end', ch')" and "r = GOOD"
  shows "held_ok cap ch' = held_ok cap ch \<and> incompleteChunk ch' = incompleteChunk ch \<and>
    config ch' = config ch \<and>
    (end' \<longrightarrow> length buffer - off' < 8 \<or> length buffer - off' < unat (recvBufferSize (config ch)))"
proof -
  obtain q1 mt sz q2 where d: "decode_two_words (rx_types env) UA_TRANSPORT_TCPMESSAGEHEADER buffer off =
      (q1, mt, sz, q2)" by (metis prod_cases4)
  have le: "\<not> recvBufferSize (config ch) < sz \<Longrightarrow> unat sz \<le> unat (recvBufferSize (config ch))"
    by (simp add: word_less_nat_alt)
  show ?thesis
    using assms le unfolding extractCompleteChunk_def Let_def d prod.case
    by (auto split: if_splits)
qed

lemma extractChunks_held:
  assumes "extractChunks env buffer off ch = (GOOD, off', ch')" and "held_ok cap ch"
  shows "held_ok cap ch' \<and> incompleteChunk ch' = incompleteChunk ch \<and> length buffer - off' \<le> max 8 cap"
  using assms
proof (induction env buffer off ch rule: extractChunks.induct)
  case (1 env buffer off ch)
  obtain r off1 end' ch1 where e: "extractCompleteChunk env buffer off ch = (r, off1, end', ch1)"
    by (metis prod_cases4)
  note x = "1.prems"(1) [unfolded extractChunks.simps [of env buffer off ch] e prod.case]
  have r: "r = GOOD" using x by (simp split: if_splits)
  note h = extractCompleteChunk_held [OF e r, of cap]
  show ?case
  proof (cases end')
    case True
    then show ?thesis using x h r "1.prems"(2) by (auto simp: held_ok_def max_def)
  next
    case False
    then have "extractChunks env buffer off1 ch1 = (GOOD, off', ch')" using x r by simp
    moreover have "held_ok cap ch1" using h "1.prems"(2) by simp
    ultimately show ?thesis using "1.IH" [OF e [symmetric] refl refl] r False h by simp
  qed
qed

lemma persist_held:
  "held_ok cap (ch\<lparr>decryptedChunks := snd (persistCompleteChunks mem (decryptedChunks ch))\<rparr>) = held_ok cap ch"
proof -
  let ?q = "snd (persistCompleteChunks mem (decryptedChunks ch))"
  have m: "map (\<lambda>c. (messageType c, chunkType c, requestId c)) ?q =
      map (\<lambda>c. (messageType c, chunkType c, requestId c)) (decryptedChunks ch)"
    and b: "map chunk_bytes ?q = map chunk_bytes (decryptedChunks ch)"
    using persistCompleteChunks_same by blast+
  have "map chunkType ?q = map chunkType (decryptedChunks ch)"
    using arg_cong [OF m, of "map (fst \<circ> snd)"] by (simp add: comp_def)
  then have "chunkType ` set ?q = chunkType ` set (decryptedChunks ch)"
    by (metis list.set_map)
  then have t: "(\<forall>c \<in> set ?q. chunkType c = k) = (\<forall>c \<in> set (decryptedChunks ch). chunkType c = k)" for k
    by (metis (no_types, lifting) image_iff)
  have "length ?q = length (decryptedChunks ch)" using b by (metis length_map)
  then show ?thesis by (simp add: held_ok_def queue_ok_def b t)
qed

text \<open>
  C9: A buffer that is processed without error keeps the receiver within its limits: the chunks of the
  unfinished message match their counters, are within the negotiated number and size, and the
  incomplete chunk is no longer than the receive buffer. \<open>cap\<close> bounds the receive buffer size; the
  application is assumed to keep the limits.
\<close>

theorem receiver_stays_bounded:
  assumes "UA_SecureChannel_processBuffer env app buffer ch = Some (GOOD, app', ch')"
    and "held_ok cap ch" and "8 \<le> cap" and "app_keeps (held_ok cap) env"
  shows "held_ok cap ch'"
proof -
  let ?ch = "if incompleteChunk ch \<noteq> [] then ch\<lparr>incompleteChunk := []\<rparr> else ch"
  let ?buf = "incompleteChunk ch @ buffer"
  obtain r off ch1 where x: "extractChunks env ?buf 0 ?ch = (r, off, ch1)" by (metis prod_cases3)
  have p: "r = GOOD" "processExtracted env app ?buf off ch1 = Some (GOOD, app', ch')"
    using assms(1) x by (auto simp: UA_SecureChannel_processBuffer_def Let_def split: if_splits)
  have "held_ok cap ?ch" using assms(2) by (simp add: held_ok_def)
  from extractChunks_held [OF x [unfolded p(1)] this]
  have h1: "held_ok cap ch1" and len: "length ?buf - off \<le> cap" using assms(3) by auto
  obtain r2 ch2 where pi: "(if off < length ?buf then persistIncompleteChunk (rx_mem env) ?buf off ch1
      else (GOOD, ch1)) = (r2, ch2)" by fastforce
  have r2: "r2 = GOOD" using p(2) unfolding processExtracted_def Let_def pi by (simp split: if_splits)
  have h2: "held_ok cap ch2"
    using pi h1 len unfolding r2
    by (auto simp: persistIncompleteChunk_def Let_def held_ok_def split: if_splits prod.splits)
  obtain app3 ch3 where c: "processChunks env app ch2 = Some (GOOD, app3, ch3)"
    and ch': "ch' = ch3\<lparr>completeChunks := snd (persistCompleteChunks (rx_mem env) (completeChunks ch3)),
      decryptedChunks := snd (persistCompleteChunks (rx_mem env) (decryptedChunks ch3))\<rparr>"
    using p(2) r2 unfolding processExtracted_def Let_def pi
    by (auto split: option.splits if_splits prod.splits)
  have "held_ok cap ch3" by (rule processChunks_held [OF c h2 assms(4)])
  then show ?thesis
    using persist_held [of cap "rx_mem env" "ch3\<lparr>completeChunks := snd (persistCompleteChunks (rx_mem env) (completeChunks ch3))\<rparr>"]
      ch' by simp
qed

lemma demo_app_keeps: "app_keeps P demo_rx"
  by (simp add: app_keeps_def demo_rx_def)

lemma receiver_stays_bounded_witness:
  "held_ok 64 (demo_channel SE) \<and> held_ok 64 ((demo_channel SE)\<lparr>incompleteChunk := [77, 83]\<rparr>)"
proof -
  have h: "held_ok 64 (demo_channel SE)"
    using demo_receiver(2) by (simp add: held_ok_def queue_ok_def idle_def limit_ok_def)
  from receiver_stays_bounded [OF demo_half_chunk h _ demo_app_keeps] show ?thesis using h by simp
qed

end
