(* ===== verification/Channel_Keys.thy ===== *)
theory Channel_Keys
  imports Channel_Bounds
begin

text \<open>
  Security tokens and keys: which tokens a channel accepts while it is being renewed, and that both
  ends derive the same keys.
\<close>

section \<open>Tokens\<close>

lemma generateLocalKeys_frame:
  "UA_SecureChannel_generateLocalKeys mem ch = (r, ch') \<Longrightarrow> \<exists>cc. ch' = ch\<lparr>channelContext := cc\<rparr>"
  by (auto simp: UA_SecureChannel_generateLocalKeys_def Let_def split: option.splits prod.splits)
    (metis UA_SecureChannel.surjective UA_SecureChannel.update_convs(8))

lemma generateRemoteKeys_frame:
  "generateRemoteKeys mem ch = (r, ch') \<Longrightarrow> \<exists>cc. ch' = ch\<lparr>channelContext := cc\<rparr>"
  by (auto simp: generateRemoteKeys_def Let_def split: option.splits prod.splits)
    (metis UA_SecureChannel.surjective UA_SecureChannel.update_convs(8))

text \<open>
  While a server waits for the first message under a new token it accepts two token ids only. The
  old one changes nothing; with the new one the channel moves to the new token, drops the old one and
  ends the renewal. An accepted message is never later than the lifetime of its token.
\<close>

theorem server_token_rollover:
  assumes "renewState ch = RENEWSTATE_NEWTOKEN_SERVER"
    and "checkSymHeader mem now tid ch = (GOOD, ch')"
  shows "(tid = tokenId (securityToken ch) \<and> ch' = ch \<or>
      tid = tokenId (altSecurityToken ch) \<and> securityToken ch' = altSecurityToken ch \<and>
      altSecurityToken ch' = null_token \<and> renewState ch' = RENEWSTATE_NORMAL) \<and>
    (state ch' = SECURECHANNELSTATE_OPEN \<longrightarrow> \<not> token_timed_out now (securityToken ch'))"
proof -
  let ?ch1 = "ch\<lparr>renewState := RENEWSTATE_NORMAL, securityToken := altSecurityToken ch,
      altSecurityToken := null_token\<rparr>"
  obtain r1 ch2 where l: "UA_SecureChannel_generateLocalKeys mem ?ch1 = (r1, ch2)" by fastforce
  obtain r2 ch3 where r: "generateRemoteKeys mem ch2 = (r2, ch3)" by fastforce
  obtain cc1 cc2 where f: "ch2 = ?ch1\<lparr>channelContext := cc1\<rparr>" "ch3 = ch2\<lparr>channelContext := cc2\<rparr>"
    using generateLocalKeys_frame [OF l] generateRemoteKeys_frame [OF r] by blast
  have t: "check_timeout now tk c = (GOOD, c') \<Longrightarrow>
      c' = c \<and> (state c = SECURECHANNELSTATE_OPEN \<longrightarrow> \<not> token_timed_out now tk)" for tk c c'
    by (auto simp: check_timeout_def split: if_splits)
  consider "tid = tokenId (securityToken ch)" "check_timeout now (securityToken ch) ch = (GOOD, ch')"
    | "tid = tokenId (altSecurityToken ch)" "check_timeout now (securityToken ch3) ch3 = (GOOD, ch')"
    using assms(2) unfolding checkSymHeader_def assms(1) UA_SecureChannelRenewState.case Let_def l r prod.case
    by (auto split: if_splits)
  then show ?thesis
    by cases (use t f in \<open>auto dest!: t\<close>)
qed

lemma server_token_rollover_witness:
  "securityToken (snd (checkSymHeader (\<lambda>_. True) 0 8 ((demo_channel SE)
     \<lparr>renewState := RENEWSTATE_NEWTOKEN_SERVER,
      altSecurityToken := \<lparr>channelId = 5, tokenId = 8, createdAt = 0, revisedLifetime = 1000\<rparr>\<rparr>))) =
   \<lparr>channelId = 5, tokenId = 8, createdAt = 0, revisedLifetime = 1000\<rparr>"
proof -
  let ?tk = "\<lparr>channelId = 5, tokenId = 8, createdAt = 0, revisedLifetime = 1000\<rparr>"
  let ?ch = "(demo_channel SE)\<lparr>renewState := RENEWSTATE_NEWTOKEN_SERVER, altSecurityToken := ?tk\<rparr>"
  have "fst (checkSymHeader (\<lambda>_. True) 0 8 ?ch) = GOOD"
    by (simp add: checkSymHeader_def UA_SecureChannel_generateLocalKeys_def generateRemoteKeys_def
        generateKeys_def ByteString_allocBuffer_def demo_policy_def demo_module_def demo_signature_def
        demo_encryption_def check_timeout_def token_timed_out_def UA_DATETIME_MSEC_def Let_def)
  then have "checkSymHeader (\<lambda>_. True) 0 8 ?ch = (GOOD, snd (checkSymHeader (\<lambda>_. True) 0 8 ?ch))"
    by (metis prod.collapse)
  from server_token_rollover [OF _ this] show ?thesis by simp
qed

text \<open>
  Outside the renewal the token id of a message is not looked at: a channel in the normal state
  treats every token id alike, also the id of a token that was replaced.
\<close>

theorem token_id_ignored_when_normal:
  assumes "renewState ch = RENEWSTATE_NORMAL \<or> renewState ch = RENEWSTATE_SENT"
  shows "checkSymHeader mem now tid ch = checkSymHeader mem now (tokenId (securityToken ch)) ch"
  using assms by (auto simp: checkSymHeader_def)

lemma token_id_ignored_when_normal_witness:
  "checkSymHeader (\<lambda>_. True) 0 99 (demo_channel SE) = checkSymHeader (\<lambda>_. True) 0 6 (demo_channel SE)"
  using token_id_ignored_when_normal [of "demo_channel SE" "\<lambda>_. True" 0 99] by simp

section \<open>Keys\<close>

text \<open>
  The keys with which one end sends are those with which the other end receives: with the nonces
  exchanged, the same key derivation and matching lengths, \<open>generateRemoteKeys\<close> hands to its setters
  exactly the signing key, encrypting key and initial vector that \<open>UA_SecureChannel_generateLocalKeys\<close>
  hands to those of the peer, and reports the same status.
\<close>

theorem keys_of_both_ends_agree:
  fixes ch peer :: "'k UA_SecureChannel"
  assumes "securityPolicy ch = Some sp" "securityPolicy peer = Some sp'"
    and "remoteNonce peer = localNonce ch" "localNonce peer = remoteNonce ch"
    and "generateKey sp' = generateKey sp" "channelContext peer = channelContext ch"
    and "getRemoteKeyLength (encryptionAlgorithm (symmetricModule sp')) (channelContext ch) =
      getLocalKeyLength (encryptionAlgorithm (symmetricModule sp)) (channelContext ch)"
    and "getRemoteBlockSize (encryptionAlgorithm (symmetricModule sp')) (channelContext ch) =
      getRemoteBlockSize (encryptionAlgorithm (symmetricModule sp)) (channelContext ch)"
    and "getRemoteSignKeyLength (signatureAlgorithm (symmetricModule sp')) (channelContext ch) =
      getLocalSignKeyLength (signatureAlgorithm (symmetricModule sp)) (channelContext ch)"
    and "setRemoteSymSigningKey sp' = setLocalSymSigningKey sp"
      "setRemoteSymEncryptingKey sp' = setLocalSymEncryptingKey sp" "setRemoteSymIv sp' = setLocalSymIv sp"
  shows "fst (generateRemoteKeys mem peer) = fst (UA_SecureChannel_generateLocalKeys mem ch) \<and>
    channelContext (snd (generateRemoteKeys mem peer)) =
      channelContext (snd (UA_SecureChannel_generateLocalKeys mem ch))"
  using assms by (simp add: generateRemoteKeys_def UA_SecureChannel_generateLocalKeys_def Let_def split: prod.split)

text \<open>A policy whose setters store the key bytes they get, and that derives keys from both nonces.\<close>

definition demo_key_policy :: "u8 UA_SecurityPolicy" where
  "demo_key_policy = demo_policy
     \<lparr>generateKey := (\<lambda>secret seed out. (GOOD, map (\<lambda>_. sum_list secret + 3 * sum_list seed) out)),
      setLocalSymSigningKey := (\<lambda>cc k. (GOOD, Some (sum_list k))),
      setRemoteSymSigningKey := (\<lambda>cc k. (GOOD, Some (sum_list k)))\<rparr>"

lemma keys_of_both_ends_agree_witness:
  "channelContext (snd (generateRemoteKeys (\<lambda>_. True) ((demo_channel SE)
     \<lparr>securityPolicy := Some demo_key_policy, localNonce := [2], remoteNonce := [1]\<rparr>))) =
   channelContext (snd (UA_SecureChannel_generateLocalKeys (\<lambda>_. True) ((demo_channel SE)
     \<lparr>securityPolicy := Some demo_key_policy, localNonce := [1], remoteNonce := [2]\<rparr>)))"
  using keys_of_both_ends_agree [of "(demo_channel SE)\<lparr>securityPolicy := Some demo_key_policy,
      localNonce := [1], remoteNonce := [2]\<rparr>" demo_key_policy "(demo_channel SE)\<lparr>securityPolicy := Some demo_key_policy,
      localNonce := [2], remoteNonce := [1]\<rparr>" demo_key_policy "\<lambda>_. True"]
  by (simp add: demo_key_policy_def demo_policy_def demo_module_def demo_signature_def demo_encryption_def)

end
