(* ===== verification/Binary_Handle.thy ===== *)
theory Binary_Handle
  imports Binary_Encode
begin

text \<open>
  What the encoder does to the handle of the exchange callback: nothing but calling the callback. A
  property of the handle that every call of the callback keeps, whether it succeeds or not, holds
  after any encoding, also after one that fails in the middle.
\<close>

definition keeps :: "'h exchange \<Rightarrow> ('h \<Rightarrow> bool) \<Rightarrow> 'h encoder \<Rightarrow> bool" where
  "keeps cb P f =
     (\<forall>c r c'. f c = (r, c') \<longrightarrow> enc_cb c = Some cb \<longrightarrow> P (enc_handle c) \<longrightarrow>
        enc_cb c' = Some cb \<and> P (enc_handle c'))"

lemma keepsI:
  "(\<And>c r c'. f c = (r, c') \<Longrightarrow> enc_cb c = Some cb \<Longrightarrow> P (enc_handle c) \<Longrightarrow>
     enc_cb c' = Some cb \<and> P (enc_handle c')) \<Longrightarrow> keeps cb P f"
  unfolding keeps_def by blast

lemma keepsD:
  "keeps cb P f \<Longrightarrow> f c = (r, c') \<Longrightarrow> enc_cb c = Some cb \<Longrightarrow> P (enc_handle c) \<Longrightarrow>
   enc_cb c' = Some cb \<and> P (enc_handle c')"
  unfolding keeps_def by blast

lemma keeps_return [intro, simp]: "keeps cb P (enc_return r)"
  by (rule keepsI) (simp add: enc_return_def)

lemma keeps_put [intro, simp]: "keeps cb P (enc_put bs)"
  by (rule keepsI) (auto simp: enc_put_def split: if_splits)

lemma keeps_seq [intro]: "(\<And>f. f \<in> set fs \<Longrightarrow> keeps cb P f) \<Longrightarrow> keeps cb P (enc_seq fs)"
proof (induction fs)
  case (Cons f fs)
  then have f: "keeps cb P f" and fs: "keeps cb P (enc_seq fs)" by auto
  show ?case
    by (rule keepsI) (use keepsD [OF f] keepsD [OF fs] in \<open>fastforce split: prod.splits if_splits\<close>)
qed (auto intro: keepsI)

lemma keeps_ors [intro]: "(\<And>f. f \<in> set fs \<Longrightarrow> keeps cb P f) \<Longrightarrow> keeps cb P (enc_ors fs)"
proof (induction fs)
  case (Cons f fs)
  then have f: "keeps cb P f" and fs: "keeps cb P (enc_ors fs)" by auto
  show ?case
    by (rule keepsI) (use keepsD [OF f] keepsD [OF fs] in \<open>fastforce split: prod.splits\<close>)
qed (auto intro: keepsI)

lemma keeps_opt [intro]: "(\<And>y. x = Some y \<Longrightarrow> keeps cb P (enc y)) \<Longrightarrow> keeps cb P (enc_opt x enc)"
  by (cases x) (simp_all add: enc_opt_def)

lemma keeps_nested [intro]:
  assumes "keeps cb P f" shows "keeps cb P (enc_nested f)"
  by (rule keepsI) (use keepsD [OF assms] in \<open>fastforce simp: enc_nested_def split: prod.splits if_splits\<close>)

lemma keeps_Guid [intro, simp]: "keeps cb P (Guid_encodeBinary g)"
proof (rule keepsI)
  fix c r c' assume e: "Guid_encodeBinary g c = (r, c')" and c: "enc_cb c = Some cb" "P (enc_handle c)"
  have k: "keeps cb P (enc_ors [UInt32_encodeBinary (data1 g), UInt16_encodeBinary (data2 g),
      UInt16_encodeBinary (data3 g)])"
    by (auto simp: codec_defs intro!: keeps_ors)
  obtain r1 c1 where 1: "enc_ors [UInt32_encodeBinary (data1 g), UInt16_encodeBinary (data2 g),
      UInt16_encodeBinary (data3 g)] c = (r1, c1)" by fastforce
  from keepsD [OF k 1 c] e [unfolded Guid_encodeBinary_def Let_def 1 prod.case]
  show "enc_cb c' = Some cb \<and> P (enc_handle c')" by (auto split: if_splits)
qed

text \<open>The interface: a callback and a property of its handle that it keeps.\<close>

locale exchange_handle =
  fixes cb :: "'h exchange" and P :: "'h \<Rightarrow> bool"
  assumes cb_keeps: "P h \<Longrightarrow> cb h out = (r, h', room) \<Longrightarrow> P h'"
begin

lemma exchangeBuffer_keeps: "keeps cb P exchangeBuffer"
  by (rule keepsI) (auto simp: exchangeBuffer_def dest: cb_keeps split: prod.splits if_splits)

lemma withExchange_keeps:
  assumes "keeps cb P f"
  shows "keeps cb P (encodeWithExchangeBuffer f)"
proof (rule keepsI)
  fix c r c' assume e: "encodeWithExchangeBuffer f c = (r, c')" and c: "enc_cb c = Some cb" "P (enc_handle c)"
  obtain r1 c1 where 1: "f c = (r1, c1)" by fastforce
  note k1 = keepsD [OF assms 1 c]
  let ?c1 = "c1\<lparr>enc_out := enc_out c, enc_room := enc_room c\<rparr>"
  obtain r2 c2 where 2: "exchangeBuffer ?c1 = (r2, c2)" by fastforce
  have k2: "enc_cb c2 = Some cb \<and> P (enc_handle c2)"
    using keepsD [OF exchangeBuffer_keeps 2] k1 by simp
  note e' = e [unfolded encodeWithExchangeBuffer_def Let_def 1 prod.case 2]
  show "enc_cb c' = Some cb \<and> P (enc_handle c')"
    using e' k1 k2 keepsD [OF assms, of c2 r c'] by (auto split: if_splits)
qed

lemma overlayable_loop_keeps: "keeps cb P (encode_overlayable_loop fuel bs)"
proof (induction fuel arbitrary: bs)
  case (Suc fuel)
  show ?case
  proof (rule keepsI)
    fix c r c' assume e: "encode_overlayable_loop (Suc fuel) bs c = (r, c')"
      and c: "enc_cb c = Some cb" "P (enc_handle c)"
    let ?c1 = "c\<lparr>enc_out := enc_out c @ take (enc_room c) bs, enc_room := 0\<rparr>"
    obtain r2 c2 where 2: "exchangeBuffer ?c1 = (r2, c2)" by fastforce
    have k2: "enc_cb c2 = Some cb \<and> P (enc_handle c2)"
      using keepsD [OF exchangeBuffer_keeps 2] c by simp
    show "enc_cb c' = Some cb \<and> P (enc_handle c')"
      using e c 2 k2 keepsD [OF Suc.IH] by (fastforce split: if_splits)
  qed
qed (auto intro: keepsI)

definition keeps_table :: "'h enc_table \<Rightarrow> bool" where
  "keeps_table jt = (\<forall>ty v. keeps cb P (jt ty v))"

lemma Array_keeps:
  "(\<And>xs. keeps cb P (content xs)) \<Longrightarrow> keeps cb P (Array_encodeBinary_with a content)"
  by (auto simp: Array_encodeBinary_with_def codec_defs intro!: keeps_seq withExchange_keeps)

lemma String_keeps: "keeps cb P (String_encodeBinary s)"
  by (auto simp: String_encodeBinary_def Array_encodeBinaryOverlayable_def
      intro!: Array_keeps overlayable_loop_keeps)

lemma NodeId_keeps: "keeps cb P (NodeId_encodeBinaryWithEncodingMask i m)" "keeps cb P (NodeId_encodeBinary i)"
proof -
  show "keeps cb P (NodeId_encodeBinaryWithEncodingMask i m)" for m
    by (cases "nid i") (auto simp: NodeId_encodeBinaryWithEncodingMask_def Let_def codec_defs
        intro!: keeps_ors keeps_seq String_keeps)
  then show "keeps cb P (NodeId_encodeBinary i)" by (simp add: NodeId_encodeBinary_def)
qed

lemma ExpandedNodeId_keeps: "keeps cb P (ExpandedNodeId_encodeBinary i)"
  by (auto simp: ExpandedNodeId_encodeBinary_def Let_def codec_defs
      intro!: keeps_seq String_keeps NodeId_keeps withExchange_keeps)

lemma QualifiedName_keeps: "keeps cb P (QualifiedName_encodeBinary ns s)"
  by (auto simp: QualifiedName_encodeBinary_def codec_defs intro!: keeps_seq String_keeps)

lemma LocalizedText_keeps: "keeps cb P (LocalizedText_encodeBinary l t)"
  by (auto simp: LocalizedText_encodeBinary_def Let_def codec_defs intro!: keeps_seq keeps_ors String_keeps)

lemma Array_encodeBinary_keeps: "keeps_table jt \<Longrightarrow> keeps cb P (Array_encodeBinary env jt ty a)"
  by (auto simp: Array_encodeBinary_def Array_encodeBinaryOverlayable_def Array_encodeBinaryComplex_def
      keeps_table_def intro!: Array_keeps overlayable_loop_keeps keeps_seq withExchange_keeps)

lemma ExtensionObject_keeps: "keeps_table jt \<Longrightarrow> keeps cb P (ExtensionObject_encodeBinary env jt v)"
  by (induction env jt v rule: ExtensionObject_encodeBinary.induct)
    (auto simp: Let_def codec_defs keeps_table_def
      intro!: keeps_seq NodeId_keeps String_keeps withExchange_keeps split: UA_ExtensionObjectEncoding.split)

lemma Variant_keeps: "keeps_table jt \<Longrightarrow> keeps cb P (Variant_encodeBinary env jt v)"
  by (induction env jt v rule: Variant_encodeBinary.induct)
    (auto simp: Let_def codec_defs Variant_encodeBinaryWrapExtensionObject_def
      Array_encodeBinaryOverlayable_def keeps_table_def
      intro!: keeps_seq withExchange_keeps NodeId_keeps ExtensionObject_keeps Array_encodeBinary_keeps Array_keeps
        overlayable_loop_keeps)

lemma DataValue_keeps: "keeps_table jt \<Longrightarrow> keeps cb P (DataValue_encodeBinary env jt v)"
  by (induction env jt v rule: DataValue_encodeBinary.induct)
    (auto simp: codec_defs intro!: keeps_seq keeps_ors keeps_opt withExchange_keeps Variant_keeps)

lemma DiagnosticInfo_keeps: "keeps_table jt \<Longrightarrow> keeps cb P (DiagnosticInfo_encodeBinary env jt v)"
  by (induction env jt v rule: DiagnosticInfo_encodeBinary.induct)
    (auto simp: codec_defs keeps_table_def intro!: keeps_seq keeps_ors keeps_opt withExchange_keeps String_keeps)

lemma member_keeps: "keeps_table jt \<Longrightarrow> keeps cb P (encode_member env jt m f)"
  by (cases f) (auto simp: keeps_table_def intro!: Array_encodeBinary_keeps withExchange_keeps)

lemma members_keeps: "keeps_table jt \<Longrightarrow> g \<in> set (encode_members env jt ms fs) \<Longrightarrow> keeps cb P g"
  by (induction env jt ms fs rule: encode_members.induct) (auto intro: member_keeps)

lemma opt_members_keeps:
  "keeps_table jt \<Longrightarrow> g \<in> set (encode_opt_members env jt em n ms fs) \<Longrightarrow> keeps cb P g"
  by (induction env jt em n ms fs rule: encode_opt_members.induct)
    (auto simp: keeps_table_def intro!: member_keeps Array_encodeBinary_keeps withExchange_keeps
      split: if_splits ua_field.splits option.splits)

lemma struct_keeps: "keeps_table jt \<Longrightarrow> keeps cb P (encodeBinaryStruct env jt ty v)"
  by (induction env jt ty v rule: encodeBinaryStruct.induct)
    (auto intro!: keeps_nested keeps_seq intro: members_keeps)

lemma optstruct_keeps: "keeps_table jt \<Longrightarrow> keeps cb P (encodeBinaryStructWithOptFields env jt ty v)"
  by (induction env jt ty v rule: encodeBinaryStructWithOptFields.induct)
    (auto simp: Let_def codec_defs intro!: keeps_nested keeps_seq intro: opt_members_keeps)

lemma union_keeps: "keeps_table jt \<Longrightarrow> keeps cb P (encodeBinaryUnion env jt ty v)"
  by (induction env jt ty v rule: encodeBinaryUnion.induct)
    (auto simp: Let_def codec_defs intro!: keeps_nested keeps_seq member_keeps)

lemma dispatch_keeps: "keeps_table jt \<Longrightarrow> keeps cb P (enc_dispatch env jt ty v)"
  by (cases "kind_at env ty")
    (simp_all add: enc_dispatch_def codec_defs String_keeps NodeId_keeps ExpandedNodeId_keeps
      QualifiedName_keeps LocalizedText_keeps ExtensionObject_keeps DataValue_keeps Variant_keeps
      DiagnosticInfo_keeps struct_keeps optstruct_keeps union_keeps split: ua_val.split)

lemma table_keeps: "keeps_table (encodeBinaryJumpTable env n)"
proof (induction n)
  case (Suc n)
  then show ?case
    using dispatch_keeps by (simp add: keeps_table_def)
qed (simp add: keeps_table_def)

text \<open>The encoder as a whole.\<close>

lemma UA_encodeBinaryInternal_keeps:
  assumes "P h" "UA_encodeBinaryInternal env v ty pos room (Some cb) h = (r, c)"
  shows "P (enc_handle c)"
proof -
  have "keeps cb P (encodeWithExchangeBuffer (encodeBinaryJumpTable env (Suc (size v)) ty v))"
    using table_keeps unfolding keeps_table_def by (blast intro: withExchange_keeps)
  from keepsD [OF this assms(2) [unfolded UA_encodeBinaryInternal_def]] assms(1) show ?thesis by simp
qed

end

end
