(* ===== verification/Channel_Buffers.thy ===== *)
theory Channel_Buffers
  imports Channel_Bounds Binary_Handle
begin

text \<open>
  Send buffers are neither lost nor given back twice: whatever the encoder, the plugins or the
  network report, a message that ends has returned the buffers it took.
\<close>

definition getSendBuffer_positive :: "(nat \<Rightarrow> nat \<Rightarrow> status \<times> nat) \<Rightarrow> bool" where
  "getSendBuffer_positive g = (\<forall>i len n. g i len = (GOOD, n) \<longrightarrow> 0 < n)"

lemma positiveD: "getSendBuffer_positive g \<Longrightarrow> g i len = (GOOD, n) \<Longrightarrow> 0 < n"
  unfolding getSendBuffer_positive_def by blast

text \<open>The invariant of the message context: its buffer is the only one that is out.\<close>

definition one_buffer :: "int \<Rightarrow> 'k UA_MessageContext \<Rightarrow> bool" where
  "one_buffer b mc =
     (has_connection (mc_channel mc) \<and>
      getSendBuffer_positive (net_getSendBuffer (connection (mc_channel mc))) \<and>
      conn_buffers (connection (mc_channel mc)) = b + (if 0 < mc_bufferLength mc then 1 else 0))"

lemma one_buffer_frame [simp]:
  "one_buffer b (mc\<lparr>mc_body := x\<rparr>) = one_buffer b mc"
  "one_buffer b (mc\<lparr>mc_room := y\<rparr>) = one_buffer b mc"
  "one_buffer b (mc\<lparr>final := z\<rparr>) = one_buffer b mc"
  by (simp_all add: one_buffer_def)

lemma release_one:
  "one_buffer b mc \<Longrightarrow> one_buffer b (mc_release mc) \<and> mc_bufferLength (mc_release mc) = 0"
  by (auto simp: one_buffer_def mc_release_def update_connection_def releaseSendBuffer_def)

lemma adjust_one:
  "adjustCheckMessageLimitsSym n mc = (r, mc') \<Longrightarrow> one_buffer b mc \<Longrightarrow>
   one_buffer b mc' \<and> mc_bufferLength mc' = mc_bufferLength mc"
  by (auto simp: adjustCheckMessageLimitsSym_def Let_def one_buffer_def split: if_splits)

lemma headers_one:
  assumes "encodeHeadersSym env n len mc = (r, hdr, mc')" and "one_buffer b mc"
  shows "one_buffer b mc' \<and> mc_bufferLength mc' = mc_bufferLength mc \<and> (r = GOOD \<longrightarrow> 0 < mc_bufferLength mc)"
  using assms by (auto simp: encodeHeadersSym_def Let_def one_buffer_def split: prod.splits if_splits)

lemma send_one:
  assumes "one_buffer b mc" "0 < mc_bufferLength mc"
    and "send_buffer msg (connection (mc_channel mc)) = (r, conn)"
  shows "one_buffer b (mc\<lparr>mc_channel := (mc_channel mc)\<lparr>connection := conn\<rparr>, mc_bufferLength := 0\<rparr>)"
  using assms by (auto simp: one_buffer_def send_buffer_def Let_def split: if_splits)

lemma sendSymmetricChunk_one:
  assumes "sendSymmetricChunk env mc = (r, mc')" and b: "one_buffer b mc"
  shows "one_buffer b mc' \<and> mc_bufferLength mc' = 0"
proof -
  have conn: "has_connection (mc_channel mc)" using b by (simp add: one_buffer_def)
  let ?n = "length (mc_body mc)"
  obtain r1 mc1 where a: "adjustCheckMessageLimitsSym ?n mc = (r1, mc1)" by fastforce
  note b1 = adjust_one [OF a b]
  define ch where "ch = mc_channel mc1"
  define body where "body = mc_body mc @ (if securityMode ch = SECURITYMODE_SIGNANDENCRYPT
      then padChunk (sym_module ch) (channelContext ch) (8 + ?n) else [])"
  define total where "total = 24 + length body +
      (if signs ch then getLocalSignatureSize (signatureAlgorithm (sym_module ch)) (channelContext ch) else 0)"
  obtain r2 hdr mc2 where h: "encodeHeadersSym env (24 + ?n + mc_room mc) total mc1 = (r2, hdr, mc2)"
    by (metis prod_cases3)
  note b2 = headers_one [OF h conjunct1 [OF b1]]
  obtain r3 msg where s: "signAndEncryptSym (mc_channel mc2) (hdr @ body) total = (r3, msg)" by fastforce
  obtain r4 cn where w: "send_buffer msg (connection (mc_channel mc2)) = (r4, cn)" by fastforce
  note e = assms(1) [unfolded sendSymmetricChunk_def Let_def a prod.case, folded ch_def, folded body_def,
      folded total_def, unfolded h prod.case s w]
  show ?thesis
    using e conn release_one [OF conjunct1 [OF b1]] release_one [OF conjunct1 [OF b2]] b2
      send_one [OF conjunct1 [OF b2] _ w]
    by (auto split: if_splits)
qed

lemma getSendBuffer_one:
  assumes "mc_getSendBuffer mc = (r, mc')" and "one_buffer b mc" "mc_bufferLength mc = 0"
  shows "one_buffer b mc'"
  using assms
  by (auto simp: mc_getSendBuffer_def getSendBuffer_def Let_def one_buffer_def dest: positiveD
      split: prod.splits if_splits)

lemma setBufPos_one: "one_buffer b (setBufPos mc) = one_buffer b mc"
  by (simp add: setBufPos_def Let_def)

lemma callback_one:
  assumes b: "one_buffer b mc" and "sendSymmetricEncodingCallback env mc out = (r, mc', room)"
  shows "one_buffer b mc'"
proof -
  let ?mc1 = "mc\<lparr>mc_body := out, mc_room := length (mc_body mc) + mc_room mc - length out\<rparr>"
  obtain r2 mc2 where s: "sendSymmetricChunk env ?mc1 = (r2, mc2)" by fastforce
  have b2: "one_buffer b mc2 \<and> mc_bufferLength mc2 = 0" using sendSymmetricChunk_one [OF s] b by simp
  obtain r3 mc3 where g: "mc_getSendBuffer mc2 = (r3, mc3)" by fastforce
  have b3: "one_buffer b mc3" using getSendBuffer_one [OF g] b2 by blast
  note e = assms(2) [unfolded sendSymmetricEncodingCallback_def Let_def s prod.case g]
  show ?thesis using e b2 b3 by (auto simp: setBufPos_one split: if_splits)
qed

interpretation one: exchange_handle "sendSymmetricEncodingCallback env" "one_buffer b" for env b
  by unfold_locales (rule callback_one)

lemma encode_one:
  assumes "UA_MessageContext_encode env v ty mc = (r, mc')" and "one_buffer b mc"
  shows "one_buffer b mc'" and "r \<noteq> GOOD \<Longrightarrow> mc_bufferLength mc' = 0"
proof -
  obtain r1 c where e: "UA_encodeBinaryInternal env v ty (mc_body mc) (mc_room mc)
      (Some (sendSymmetricEncodingCallback env)) mc = (r1, c)" by fastforce
  have "one_buffer b (enc_handle c)" by (rule one.UA_encodeBinaryInternal_keeps [OF assms(2) e])
  then have h: "one_buffer b ((enc_handle c)\<lparr>mc_body := enc_out c, mc_room := enc_room c\<rparr>)" by simp
  note x = assms(1) [unfolded UA_MessageContext_encode_def Let_def e prod.case]
  show "one_buffer b mc'" using x h release_one [OF h] by (auto simp: UA_MessageContext_abort_def split: if_splits)
  show "r \<noteq> GOOD \<Longrightarrow> mc_bufferLength mc' = 0"
    using x release_one [OF h] by (auto simp: UA_MessageContext_abort_def split: if_splits)
qed

lemma one_buffer_free:
  "one_buffer b mc \<Longrightarrow> mc_bufferLength mc = 0 \<Longrightarrow> conn_buffers (connection (mc_channel mc)) = b"
  by (simp add: one_buffer_def)

lemma begin_one:
  assumes "UA_MessageContext_begin req mtype ch = (r, mc)" and "has_connection ch"
    and "getSendBuffer_positive (net_getSendBuffer (connection ch))"
  shows "one_buffer (conn_buffers (connection ch)) mc" and "r \<noteq> GOOD \<Longrightarrow> mc_bufferLength mc = 0"
proof -
  let ?mc = "\<lparr>mc_channel = ch, mc_requestId = req, mc_messageType = mtype, chunksSoFar = 0,
      messageSizeSoFar = 0, mc_bufferLength = 0, mc_body = [], mc_room = 0, final = False\<rparr>"
  have b: "one_buffer (conn_buffers (connection ch)) ?mc" using assms by (simp add: one_buffer_def)
  obtain r1 mc1 where g: "mc_getSendBuffer ?mc = (r1, mc1)" by fastforce
  have b1: "one_buffer (conn_buffers (connection ch)) mc1" using getSendBuffer_one [OF g b] by simp
  have l: "r1 \<noteq> GOOD \<Longrightarrow> mc_bufferLength mc1 = 0"
    using mc_getSendBuffer_step(10) [OF g] by simp
  note e = assms(1) [unfolded UA_MessageContext_begin_def Let_def g prod.case]
  show "one_buffer (conn_buffers (connection ch)) mc" "r \<noteq> GOOD \<Longrightarrow> mc_bufferLength mc = 0"
    using e b b1 l by (auto simp: setBufPos_one split: if_splits)
qed

text \<open>
  C10: \<open>UA_SecureChannel_sendSymmetricMessage\<close> gives back exactly the send buffers it took, for every
  payload and every outcome: an encoder that fails in the middle and goes on, limits that are hit, a
  signature that fails, a network that refuses a buffer or a chunk.
\<close>

theorem sendSymmetricMessage_returns_buffers:
  assumes "getSendBuffer_positive (net_getSendBuffer (connection ch))"
    and "UA_SecureChannel_sendSymmetricMessage env req mtype payload ty ch = (r, ch')"
  shows "conn_buffers (connection ch') = conn_buffers (connection ch)"
proof (cases "has_connection ch")
  case True
  obtain r1 mc where 1: "UA_MessageContext_begin req mtype ch = (r1, mc)" by fastforce
  note b1 = begin_one [OF 1 True assms(1)]
  obtain r2 mc1 where 2: "UA_MessageContext_encode env (VNodeId (binaryEncodingId (ty_at env ty)))
      UA_TYPES_NODEID mc = (r2, mc1)" by fastforce
  note b2 = encode_one [OF 2 b1(1)]
  obtain r3 mc2 where 3: "UA_MessageContext_encode env payload ty mc1 = (r3, mc2)" by fastforce
  note b3 = encode_one [OF 3 b2(1)]
  obtain r4 mc3 where 4: "UA_MessageContext_finish env mc2 = (r4, mc3)" by fastforce
  have b4: "one_buffer (conn_buffers (connection ch)) mc3 \<and> mc_bufferLength mc3 = 0"
    using sendSymmetricChunk_one [OF 4 [unfolded UA_MessageContext_finish_def]] b3(1) by simp
  note e = assms(2) [unfolded UA_SecureChannel_sendSymmetricMessage_def Let_def 1 2 3 4 prod.case]
  show ?thesis
    using e True one_buffer_free [OF b1] one_buffer_free [OF b2] one_buffer_free [OF b3]
      one_buffer_free [OF conjunct1 [OF b4] conjunct2 [OF b4]]
    by (auto split: if_splits)
qed (use assms(2) in \<open>simp add: UA_SecureChannel_sendSymmetricMessage_def\<close>)

lemma demo_positive: "getSendBuffer_positive (\<lambda>i len. if len = 0 then (UA_STATUSCODE_BADOUTOFMEMORY, 0) else (GOOD, len))"
  by (auto simp: getSendBuffer_positive_def split: if_splits)

definition demo_strict :: "u8 UA_SecureChannel" where
  "demo_strict = (demo_channel SE)\<lparr>connection := demo_connection
     \<lparr>net_getSendBuffer := (\<lambda>i len. if len = 0 then (UA_STATUSCODE_BADOUTOFMEMORY, 0) else (GOOD, len)),
      net_send := (\<lambda>i m. UA_STATUSCODE_BADCONNECTIONCLOSED)\<rparr>\<rparr>"

lemma sendSymmetricMessage_returns_buffers_witness:
  "conn_buffers (connection (snd (UA_SecureChannel_sendSymmetricMessage demo_types 9 UA_MESSAGETYPE_MSG
     demo_payload 14 demo_strict))) = 0"
  using sendSymmetricMessage_returns_buffers [of demo_strict demo_types 9 UA_MESSAGETYPE_MSG demo_payload 14,
      OF _ surjective_pairing] demo_positive
  by (simp add: demo_strict_def)

lemma prependHeadersAsym_connection:
  "prependHeadersAsym env ch n t s q = (r, hdr, el, ch') \<Longrightarrow> connection ch' = connection ch"
  by (auto simp: prependHeadersAsym_def Let_def split: option.splits prod.splits if_splits)

text \<open>
  The same for the asymmetric message that opens or renews the channel; here the buffer may have
  any length.
\<close>

theorem sendAsymmetricOPNMessage_returns_buffers:
  "conn_buffers (connection (snd (UA_SecureChannel_sendAsymmetricOPNMessage env req content ty ch))) =
   conn_buffers (connection ch)"
proof -
  obtain r len conn where g: "getSendBuffer (unat (sendBufferSize (config ch))) (connection ch) = (r, len, conn)"
    by (metis prod_cases3)
  have cn: "r = GOOD \<Longrightarrow> conn_buffers conn = conn_buffers (connection ch) + 1"
    "r \<noteq> GOOD \<Longrightarrow> conn_buffers conn = conn_buffers (connection ch)"
    using g by (auto simp: getSendBuffer_def Let_def split: prod.splits if_splits)
  have sb: "send_buffer m cc = (r', cc') \<Longrightarrow> conn_buffers cc' = conn_buffers cc - 1" for m cc r' cc'
    by (auto simp: send_buffer_def Let_def split: if_splits)
  show ?thesis
  proof (cases "securityMode ch = SECURITYMODE_INVALID \<or> \<not> has_connection ch \<or> securityPolicy ch = None")
    case True
    then show ?thesis by (cases "securityPolicy ch") (auto simp: UA_SecureChannel_sendAsymmetricOPNMessage_def)
  next
    case False
    then obtain sp where ok: "securityMode ch \<noteq> SECURITYMODE_INVALID" "has_connection ch"
      "securityPolicy ch = Some sp" by auto
    let ?ch1 = "ch\<lparr>connection := conn\<rparr>"
    obtain a z where h: "hideBytesAsym ?ch1 len = (a, z)" by fastforce
    obtain r1 c where e: "enc_ors
        [encode_here env (VNodeId (binaryEncodingId (ty_at env ty))) UA_TYPES_NODEID, encode_here env content ty]
        (buffer_start (z - a)) = (r1, c)" by fastforce
    define body where "body = enc_out c @ (if securityMode ?ch1 \<noteq> SECURITYMODE_NONE
        then padChunk (asymmetricModule sp) (channelContext ?ch1) (8 + length (enc_out c)) else [])"
    define total where "total = a + length body + (if signs ?ch1
        then getLocalSignatureSize (signatureAlgorithm (asymmetricModule sp)) (channelContext ?ch1) else 0)"
    obtain r2 hdr el ch2 where p: "prependHeadersAsym env ?ch1 z total
        (calculateAsymAlgSecurityHeaderLength ?ch1) req = (r2, hdr, el, ch2)" by (metis prod_cases4)
    have c2: "connection ch2 = conn" using prependHeadersAsym_connection [OF p] by simp
    obtain r3 msg where sg: "signAndEncryptAsym ch2 (hdr @ body) (calculateAsymAlgSecurityHeaderLength ?ch1) = (r3, msg)"
      by fastforce
    obtain r4 conn' where w: "send_buffer (take el msg) (connection ch2) = (r4, conn')" by fastforce
    have "UA_SecureChannel_sendAsymmetricOPNMessage env req content ty ch =
      (if r \<noteq> GOOD then (r, ?ch1)
       else if r1 \<noteq> GOOD then (r1, ?ch1\<lparr>connection := releaseSendBuffer (connection ?ch1)\<rparr>)
       else if r2 \<noteq> GOOD then (r2, ch2\<lparr>connection := releaseSendBuffer (connection ch2)\<rparr>)
       else if r3 \<noteq> GOOD then (r3, ch2\<lparr>connection := releaseSendBuffer (connection ch2)\<rparr>)
       else (r4, ch2\<lparr>connection := conn'\<rparr>))"
      unfolding UA_SecureChannel_sendAsymmetricOPNMessage_def Let_def g prod.case ok(3) option.case h e
        body_def [symmetric] total_def [symmetric] p sg w
      using ok(1,2) by simp
    then show ?thesis
      using cn sb [OF w] c2 by (auto simp: releaseSendBuffer_def)
  qed
qed

end
