(* ===== verification/Aa_Tree.thy ===== *)
theory Aa_Tree
  imports Prelude
begin

text \<open>
  The balanced search tree of \<^verbatim>\<open>deps/aa_tree.c\<close>, which the timer uses twice, once ordered by time
  and once by identifier.

  The tree links entries that live in other structures, so a node of the model holds the address of
  its entry (a number; 0 stands for NULL). \<open>cmp\<close> is the comparison of the head, applied to the keys
  of two entries. The levels have 32 bits in the code; a level is never larger than the height.
\<close>

section \<open>The tree\<close>

type_synonym ptr = nat

datatype aa_cmp = AA_CMP_LESS | AA_CMP_EQ | AA_CMP_MORE

datatype aa_tree = AA_Null | AA_Node aa_tree ptr nat aa_tree

fun aa_skew :: "aa_tree \<Rightarrow> aa_tree" where
  "aa_skew (AA_Node (AA_Node a l ll b) n lv c) =
     (if lv = ll then AA_Node a l ll (AA_Node b n lv c) else AA_Node (AA_Node a l ll b) n lv c)"
| "aa_skew t = t"

fun aa_split :: "aa_tree \<Rightarrow> aa_tree" where
  "aa_split (AA_Node a n lv (AA_Node b r lr (AA_Node c rr lrr d))) =
     (if lrr = lv then AA_Node (AA_Node a n lv b) r (lr + 1) (AA_Node c rr lrr d)
      else AA_Node a n lv (AA_Node b r lr (AA_Node c rr lrr d)))"
| "aa_split t = t"

fun map_right :: "(aa_tree \<Rightarrow> aa_tree) \<Rightarrow> aa_tree \<Rightarrow> aa_tree" where
  "map_right f AA_Null = AA_Null"
| "map_right f (AA_Node l n lv r) = AA_Node l n lv (f r)"

fun limit_level :: "nat \<Rightarrow> aa_tree \<Rightarrow> aa_tree" where
  "limit_level m AA_Null = AA_Null"
| "limit_level m (AA_Node l n lv r) = AA_Node l n (if m < lv then m else lv) r"

fun aa_should_be :: "aa_tree \<Rightarrow> aa_tree \<Rightarrow> nat" where
  "aa_should_be l r =
     (let s = (case l of AA_Null \<Rightarrow> 0 | AA_Node _ _ ll _ \<Rightarrow> ll)
      in (case r of AA_Null \<Rightarrow> s | AA_Node _ _ lr _ \<Rightarrow> if lr < s then lr else s) + 1)"

fun aa_fixup :: "aa_tree \<Rightarrow> aa_tree" where
  "aa_fixup AA_Null = AA_Null"
| "aa_fixup (AA_Node l n lv r) =
     (let should_be = aa_should_be l r;
          t = AA_Node l n (if should_be < lv then should_be else lv) (limit_level should_be r);
          t = aa_skew t;
          t = map_right aa_skew t;
          t = map_right (map_right aa_skew) t;
          t = aa_split t
      in map_right aa_split t)"

text \<open>The comparison of two entries; entries with equal keys are ordered by their address.\<close>

definition aa_cmp_entries :: "(ptr \<Rightarrow> ptr \<Rightarrow> aa_cmp) \<Rightarrow> ptr \<Rightarrow> ptr \<Rightarrow> aa_cmp" where
  "aa_cmp_entries cmp elem n =
     (let eq = cmp elem n
      in if eq = AA_CMP_EQ then (if elem > n then AA_CMP_MORE else AA_CMP_LESS) else eq)"

fun aa_insert :: "(ptr \<Rightarrow> ptr \<Rightarrow> aa_cmp) \<Rightarrow> ptr \<Rightarrow> aa_tree \<Rightarrow> aa_tree" where
  "aa_insert cmp elem AA_Null = AA_Node AA_Null elem 1 AA_Null"
| "aa_insert cmp elem (AA_Node l n lv r) =
     (if aa_cmp_entries cmp elem n = AA_CMP_LESS
      then aa_split (aa_skew (AA_Node (aa_insert cmp elem l) n lv r))
      else aa_split (aa_skew (AA_Node l n lv (aa_insert cmp elem r))))"

fun unlink_succ :: "aa_tree \<Rightarrow> aa_tree \<times> ptr" where
  "unlink_succ AA_Null = (AA_Null, 0)"
| "unlink_succ (AA_Node AA_Null n lv r) = (r, n)"
| "unlink_succ (AA_Node l n lv r) =
     (let (l', succ) = unlink_succ l in (aa_fixup (AA_Node l' n lv r), succ))"

fun unlink_pred :: "aa_tree \<Rightarrow> aa_tree \<times> ptr" where
  "unlink_pred AA_Null = (AA_Null, 0)"
| "unlink_pred (AA_Node l n lv AA_Null) = (l, n)"
| "unlink_pred (AA_Node l n lv r) =
     (let (r', pred) = unlink_pred r in (aa_fixup (AA_Node l n lv r'), pred))"

fun aa_remove :: "(ptr \<Rightarrow> ptr \<Rightarrow> aa_cmp) \<Rightarrow> ptr \<Rightarrow> aa_tree \<Rightarrow> aa_tree" where
  "aa_remove cmp elem AA_Null = AA_Null"
| "aa_remove cmp elem (AA_Node l n lv r) =
     (if n = elem
      then if l = AA_Null \<and> r = AA_Null then AA_Null
           else if l = AA_Null
           then (let (r', replace) = unlink_succ r in aa_fixup (AA_Node l replace lv r'))
           else (let (l', replace) = unlink_pred l in aa_fixup (AA_Node l' replace lv r))
      else if aa_cmp_entries cmp elem n = AA_CMP_LESS
      then aa_fixup (AA_Node (aa_remove cmp elem l) n lv r)
      else aa_fixup (AA_Node l n lv (aa_remove cmp elem r)))"

text \<open>\<open>cmp_key n\<close> compares the key that is looked up with the key of the entry \<open>n\<close>.\<close>

fun aa_find :: "(ptr \<Rightarrow> aa_cmp) \<Rightarrow> aa_tree \<Rightarrow> ptr option" where
  "aa_find cmp_key AA_Null = None"
| "aa_find cmp_key (AA_Node l n lv r) =
     (case cmp_key n of
        AA_CMP_EQ \<Rightarrow> Some n
      | AA_CMP_LESS \<Rightarrow> aa_find cmp_key l
      | AA_CMP_MORE \<Rightarrow> aa_find cmp_key r)"

fun aa_min :: "aa_tree \<Rightarrow> ptr option" where
  "aa_min AA_Null = None"
| "aa_min (AA_Node AA_Null n lv r) = Some n"
| "aa_min (AA_Node l n lv r) = aa_min l"

fun aa_max :: "aa_tree \<Rightarrow> ptr option" where
  "aa_max AA_Null = None"
| "aa_max (AA_Node l n lv AA_Null) = Some n"
| "aa_max (AA_Node l n lv r) = aa_max r"

text \<open>The links of an entry, which the code reads from the entry itself.\<close>

fun aa_subtree :: "ptr \<Rightarrow> aa_tree \<Rightarrow> aa_tree" where
  "aa_subtree elem AA_Null = AA_Null"
| "aa_subtree elem (AA_Node l n lv r) =
     (if n = elem then AA_Node l n lv r
      else case aa_subtree elem l of AA_Null \<Rightarrow> aa_subtree elem r | t \<Rightarrow> t)"

fun aa_next_walk :: "(ptr \<Rightarrow> ptr \<Rightarrow> aa_cmp) \<Rightarrow> ptr \<Rightarrow> ptr option \<Rightarrow> aa_tree \<Rightarrow> ptr option" where
  "aa_next_walk cmp elem next AA_Null = next"
| "aa_next_walk cmp elem next (AA_Node l n lv r) =
     (if n = elem then next
      else if aa_cmp_entries cmp elem n = AA_CMP_MORE then aa_next_walk cmp elem next r
      else aa_next_walk cmp elem (Some n) l)"

definition aa_next :: "(ptr \<Rightarrow> ptr \<Rightarrow> aa_cmp) \<Rightarrow> aa_tree \<Rightarrow> ptr \<Rightarrow> ptr option" where
  "aa_next cmp root elem =
     (case aa_subtree elem root of
        AA_Node l n lv (AA_Node rl rn rlv rr) \<Rightarrow> aa_min (AA_Node rl rn rlv rr)
      | _ \<Rightarrow> aa_next_walk cmp elem None root)"

fun aa_prev_walk :: "(ptr \<Rightarrow> ptr \<Rightarrow> aa_cmp) \<Rightarrow> ptr \<Rightarrow> ptr option \<Rightarrow> aa_tree \<Rightarrow> ptr option" where
  "aa_prev_walk cmp elem prev AA_Null = prev"
| "aa_prev_walk cmp elem prev (AA_Node l n lv r) =
     (if n = elem then prev
      else if aa_cmp_entries cmp elem n = AA_CMP_MORE then aa_prev_walk cmp elem (Some n) r
      else aa_prev_walk cmp elem prev l)"

definition aa_prev :: "(ptr \<Rightarrow> ptr \<Rightarrow> aa_cmp) \<Rightarrow> aa_tree \<Rightarrow> ptr \<Rightarrow> ptr option" where
  "aa_prev cmp root elem =
     (case aa_subtree elem root of
        AA_Node (AA_Node ll ln llv lr) n lv r \<Rightarrow> aa_max (AA_Node ll ln llv lr)
      | _ \<Rightarrow> aa_prev_walk cmp elem None root)"

section \<open>The order of the entries\<close>

fun aa_inorder :: "aa_tree \<Rightarrow> ptr list" where
  "aa_inorder AA_Null = []"
| "aa_inorder (AA_Node l n lv r) = aa_inorder l @ n # aa_inorder r"

lemma inorder_skew [simp]: "aa_inorder (aa_skew t) = aa_inorder t"
  by (cases t rule: aa_skew.cases) auto

lemma inorder_split [simp]: "aa_inorder (aa_split t) = aa_inorder t"
  by (cases t rule: aa_split.cases) auto

lemma inorder_map_right [simp]:
  "(\<And>t. aa_inorder (f t) = aa_inorder t) \<Longrightarrow> aa_inorder (map_right f t) = aa_inorder t"
  by (cases t) auto

lemma inorder_limit_level [simp]: "aa_inorder (limit_level m t) = aa_inorder t"
  by (cases t) auto

lemma inorder_fixup [simp]: "aa_inorder (aa_fixup t) = aa_inorder t"
  by (cases t) (simp_all add: Let_def)

lemma inorder_unlink_succ:
  "unlink_succ t = (t', s) \<Longrightarrow> t \<noteq> AA_Null \<Longrightarrow> aa_inorder t = s # aa_inorder t'"
  by (induction t arbitrary: t' s rule: unlink_succ.induct) (auto split: prod.splits simp del: aa_fixup.simps)

lemma inorder_unlink_pred:
  "unlink_pred t = (t', p) \<Longrightarrow> t \<noteq> AA_Null \<Longrightarrow> aa_inorder t = aa_inorder t' @ [p]"
  by (induction t arbitrary: t' p rule: unlink_pred.induct) (auto split: prod.splits simp del: aa_fixup.simps)

text \<open>
  \<open>before cmp a b\<close>: the entry \<open>a\<close> is in front of \<open>b\<close>. The comparison is usable on a set of entries
  when this is a strict total order there.
\<close>

definition before :: "(ptr \<Rightarrow> ptr \<Rightarrow> aa_cmp) \<Rightarrow> ptr \<Rightarrow> ptr \<Rightarrow> bool" where
  "before cmp a b = (a \<noteq> b \<and> aa_cmp_entries cmp a b = AA_CMP_LESS)"

definition ordered_on :: "(ptr \<Rightarrow> ptr \<Rightarrow> aa_cmp) \<Rightarrow> ptr set \<Rightarrow> bool" where
  "ordered_on cmp A =
     ((\<forall>a \<in> A. \<forall>b \<in> A. a \<noteq> b \<longrightarrow> before cmp a b \<noteq> before cmp b a) \<and>
      (\<forall>a \<in> A. \<forall>b \<in> A. \<forall>c \<in> A. before cmp a b \<longrightarrow> before cmp b c \<longrightarrow> before cmp a c))"

lemma ordered_onD:
  assumes "ordered_on cmp A"
  shows "a \<in> A \<Longrightarrow> b \<in> A \<Longrightarrow> before cmp a b \<Longrightarrow> \<not> before cmp b a"
    and "a \<in> A \<Longrightarrow> b \<in> A \<Longrightarrow> a \<noteq> b \<Longrightarrow> \<not> before cmp a b \<Longrightarrow> before cmp b a"
    and "a \<in> A \<Longrightarrow> b \<in> A \<Longrightarrow> c \<in> A \<Longrightarrow> before cmp a b \<Longrightarrow> before cmp b c \<Longrightarrow> before cmp a c"
proof -
  have ne: "before cmp a b \<Longrightarrow> a \<noteq> b" by (simp add: before_def)
  show "a \<in> A \<Longrightarrow> b \<in> A \<Longrightarrow> before cmp a b \<Longrightarrow> \<not> before cmp b a"
    using assms ne unfolding ordered_on_def by blast
  show "a \<in> A \<Longrightarrow> b \<in> A \<Longrightarrow> a \<noteq> b \<Longrightarrow> \<not> before cmp a b \<Longrightarrow> before cmp b a"
    using assms unfolding ordered_on_def by blast
  show "a \<in> A \<Longrightarrow> b \<in> A \<Longrightarrow> c \<in> A \<Longrightarrow> before cmp a b \<Longrightarrow> before cmp b c \<Longrightarrow> before cmp a c"
    using assms unfolding ordered_on_def by blast
qed

lemma ordered_on_subset: "ordered_on cmp A \<Longrightarrow> B \<subseteq> A \<Longrightarrow> ordered_on cmp B"
  unfolding ordered_on_def by blast

definition aa_sorted :: "(ptr \<Rightarrow> ptr \<Rightarrow> aa_cmp) \<Rightarrow> aa_tree \<Rightarrow> bool" where
  "aa_sorted cmp t = sorted_wrt (before cmp) (aa_inorder t)"

fun insort_by :: "(ptr \<Rightarrow> ptr \<Rightarrow> bool) \<Rightarrow> ptr \<Rightarrow> ptr list \<Rightarrow> ptr list" where
  "insort_by lt x [] = [x]"
| "insort_by lt x (y # ys) = (if lt x y then x # y # ys else y # insort_by lt x ys)"

lemma set_insort_by [simp]: "set (insort_by lt x xs) = insert x (set xs)"
  by (induction xs) auto

lemma insort_by_front:
  "\<forall>y \<in> set xs. \<not> lt x y \<Longrightarrow> insort_by lt x (xs @ ys) = xs @ insort_by lt x ys"
  by (induction xs) auto

lemma insort_by_back: "lt x n \<Longrightarrow> insort_by lt x (xs @ n # ys) = insort_by lt x xs @ n # ys"
  by (induction xs) auto

lemma inorder_insert:
  assumes "ordered_on cmp (insert x (set (aa_inorder t)))" "aa_sorted cmp t" "x \<notin> set (aa_inorder t)"
  shows "aa_inorder (aa_insert cmp x t) = insort_by (before cmp) x (aa_inorder t)"
  using assms
proof (induction t)
  case (AA_Node l n lv r)
  have o: "ordered_on cmp (insert x (set (aa_inorder l)))" "ordered_on cmp (insert x (set (aa_inorder r)))"
    by (rule ordered_on_subset [OF AA_Node.prems(1)]; auto)+
  have s: "aa_sorted cmp l" "aa_sorted cmp r"
    using AA_Node.prems(2) by (auto simp: aa_sorted_def sorted_wrt_append)
  have x: "x \<noteq> n" "x \<notin> set (aa_inorder l)" "x \<notin> set (aa_inorder r)" using AA_Node.prems(3) by auto
  show ?case
  proof (cases "aa_cmp_entries cmp x n = AA_CMP_LESS")
    case True
    then have "before cmp x n" using x by (simp add: before_def)
    then show ?thesis using True AA_Node.IH(1) o s x by (simp add: insort_by_back)
  next
    case False
    then have b: "\<not> before cmp x n" by (simp add: before_def)
    have "\<not> before cmp x y" if y: "y \<in> set (aa_inorder l @ [n])" for y
    proof
      assume xy: "before cmp x y"
      have "y = n \<or> before cmp y n" using y AA_Node.prems(2) by (auto simp: aa_sorted_def sorted_wrt_append)
      moreover have "x \<in> insert x (set (aa_inorder (AA_Node l n lv r)))"
        "y \<in> insert x (set (aa_inorder (AA_Node l n lv r)))" "n \<in> insert x (set (aa_inorder (AA_Node l n lv r)))"
        using y by auto
      ultimately show False using xy b ordered_onD(3) [OF AA_Node.prems(1)] by blast
    qed
    then have "insort_by (before cmp) x ((aa_inorder l @ [n]) @ aa_inorder r) =
        (aa_inorder l @ [n]) @ insort_by (before cmp) x (aa_inorder r)"
      by (intro insort_by_front) blast
    then show ?thesis using False AA_Node.IH(2) o s x by simp
  qed
qed simp

lemma inorder_remove:
  assumes "aa_sorted cmp t" "ordered_on cmp (insert x (set (aa_inorder t)))"
  shows "aa_inorder (aa_remove cmp x t) = remove1 x (aa_inorder t)"
  using assms
proof (induction t)
  case (AA_Node l n lv r)
  have o: "ordered_on cmp (insert x (set (aa_inorder l)))" "ordered_on cmp (insert x (set (aa_inorder r)))"
    by (rule ordered_on_subset [OF AA_Node.prems(2)]; auto)+
  have s: "aa_sorted cmp l" "aa_sorted cmp r"
    and ln: "\<forall>y \<in> set (aa_inorder l). before cmp y n" and rn: "\<forall>y \<in> set (aa_inorder r). before cmp n y"
    using AA_Node.prems(1) by (auto simp: aa_sorted_def sorted_wrt_append)
  have asym: "a \<in> insert x (set (aa_inorder (AA_Node l n lv r))) \<Longrightarrow>
      b \<in> insert x (set (aa_inorder (AA_Node l n lv r))) \<Longrightarrow> before cmp a b \<Longrightarrow> \<not> before cmp b a" for a b
    by (rule ordered_onD(1) [OF AA_Node.prems(2)])
  show ?case
  proof (cases "n = x")
    case True
    have nl: "x \<notin> set (aa_inorder l)" using True ln by (auto simp: before_def)
    then have rm: "remove1 x (aa_inorder (AA_Node l n lv r)) = aa_inorder l @ aa_inorder r"
      using True by (simp add: remove1_append)
    consider "l = AA_Null" "r = AA_Null" | "l = AA_Null" "r \<noteq> AA_Null" | "l \<noteq> AA_Null" by blast
    then show ?thesis
    proof cases
      case 2
      obtain r' q where u: "unlink_succ r = (r', q)" by fastforce
      then show ?thesis using 2 True rm inorder_unlink_succ [OF u 2(2)] by (simp del: aa_fixup.simps)
    next
      case 3
      obtain l' q where u: "unlink_pred l = (l', q)" by fastforce
      then show ?thesis using 3 True rm inorder_unlink_pred [OF u 3] by (simp del: aa_fixup.simps)
    qed (use True rm in simp)
  next
    case False
    show ?thesis
    proof (cases "aa_cmp_entries cmp x n = AA_CMP_LESS")
      case True
      then have b: "before cmp x n" using False by (simp add: before_def)
      have "x \<notin> set (aa_inorder r)" using b rn asym [of x n] by auto
      then show ?thesis
        using True False AA_Node.IH(1) [OF s(1) o(1)] by (simp add: remove1_append remove1_idem del: aa_fixup.simps)
    next
      case nb: False
      have "x \<notin> set (aa_inorder l)" using nb ln by (auto simp: before_def)
      then show ?thesis
        using nb False AA_Node.IH(2) [OF s(2) o(2)] by (simp add: remove1_append del: aa_fixup.simps)
    qed
  qed
qed simp

section \<open>Searching\<close>

text \<open>A key comparison that fits the order: smaller keys are in front, larger ones behind.\<close>

definition key_fits :: "(ptr \<Rightarrow> ptr \<Rightarrow> aa_cmp) \<Rightarrow> (ptr \<Rightarrow> aa_cmp) \<Rightarrow> ptr set \<Rightarrow> bool" where
  "key_fits cmp cmp_key A =
     (\<forall>a \<in> A. \<forall>b \<in> A. before cmp a b \<longrightarrow>
        (cmp_key a = AA_CMP_LESS \<longrightarrow> cmp_key b = AA_CMP_LESS) \<and>
        (cmp_key b = AA_CMP_MORE \<longrightarrow> cmp_key a = AA_CMP_MORE))"

lemma aa_find_Some: "aa_find cmp_key t = Some n \<Longrightarrow> n \<in> set (aa_inorder t) \<and> cmp_key n = AA_CMP_EQ"
  by (induction t) (auto split: aa_cmp.splits)

lemma aa_find_None:
  assumes "aa_sorted cmp t" "key_fits cmp cmp_key (set (aa_inorder t))" "aa_find cmp_key t = None"
    and "n \<in> set (aa_inorder t)"
  shows "cmp_key n \<noteq> AA_CMP_EQ"
  using assms
proof (induction t)
  case (AA_Node l m lv r)
  have s: "aa_sorted cmp l" "aa_sorted cmp r"
    and lm: "\<forall>y \<in> set (aa_inorder l). before cmp y m" and rm: "\<forall>y \<in> set (aa_inorder r). before cmp m y"
    using AA_Node.prems(1) by (auto simp: aa_sorted_def sorted_wrt_append)
  have k: "key_fits cmp cmp_key (set (aa_inorder l))" "key_fits cmp cmp_key (set (aa_inorder r))"
    using AA_Node.prems(2) by (auto simp: key_fits_def)
  have less: "cmp_key m = AA_CMP_LESS \<Longrightarrow> y \<in> set (aa_inorder r) \<Longrightarrow> cmp_key y = AA_CMP_LESS" for y
    using AA_Node.prems(2) rm by (auto simp: key_fits_def)
  have more: "cmp_key m = AA_CMP_MORE \<Longrightarrow> y \<in> set (aa_inorder l) \<Longrightarrow> cmp_key y = AA_CMP_MORE" for y
    using AA_Node.prems(2) lm by (auto simp: key_fits_def)
  show ?case
  proof (cases "cmp_key m")
    case AA_CMP_LESS
    then show ?thesis using AA_Node.IH(1) [OF s(1) k(1)] AA_Node.prems(3,4) less [of n] by auto
  next
    case AA_CMP_EQ
    then show ?thesis using AA_Node.prems(3) by simp
  next
    case AA_CMP_MORE
    then show ?thesis using AA_Node.IH(2) [OF s(2) k(2)] AA_Node.prems(3,4) more [of n] by auto
  qed
qed simp

definition first :: "'a list \<Rightarrow> 'a option" where
  "first xs = (case xs of [] \<Rightarrow> None | x # _ \<Rightarrow> Some x)"

lemma first_simps [simp]: "first [] = None" "first (x # xs) = Some x"
  "first (xs @ ys) = (if xs = [] then first ys else first xs)"
  by (auto simp: first_def split: list.split)

lemma aa_min_first: "aa_min t = first (aa_inorder t)"
  by (induction t rule: aa_min.induct) auto

lemma aa_max_last: "aa_max t = (if aa_inorder t = [] then None else Some (last (aa_inorder t)))"
  by (induction t rule: aa_max.induct) auto

lemma subtree_inorder:
  assumes "distinct (aa_inorder t)" "x \<in> set (aa_inorder t)"
  shows "\<exists>l lv r pre post. aa_subtree x t = AA_Node l x lv r \<and>
    aa_inorder t = pre @ aa_inorder (AA_Node l x lv r) @ post"
  using assms
proof (induction t)
  case (AA_Node l n lv r)
  consider "n = x" | "n \<noteq> x" "x \<in> set (aa_inorder l)" | "n \<noteq> x" "x \<in> set (aa_inorder r)" "x \<notin> set (aa_inorder l)"
    using AA_Node.prems by auto
  then show ?case
  proof cases
    case 1
    then show ?thesis by (intro exI [of _ l] exI [of _ lv] exI [of _ r] exI [of _ "[]"]) simp
  next
    case 2
    then obtain a b c pre post where i: "aa_subtree x l = AA_Node a x b c"
        "aa_inorder l = pre @ aa_inorder (AA_Node a x b c) @ post"
      using AA_Node.IH(1) AA_Node.prems by auto
    then show ?thesis using 2
      by (intro exI [of _ a] exI [of _ b] exI [of _ c] exI [of _ pre] exI [of _ "post @ n # aa_inorder r"]) simp
  next
    case 3
    then obtain a b c pre post where i: "aa_subtree x r = AA_Node a x b c"
        "aa_inorder r = pre @ aa_inorder (AA_Node a x b c) @ post"
      using AA_Node.IH(2) AA_Node.prems by auto
    have "aa_subtree x l = AA_Null" using 3(3)
      by (induction l) (auto split: aa_tree.splits)
    then show ?thesis using 3 i
      by (intro exI [of _ a] exI [of _ b] exI [of _ c] exI [of _ "aa_inorder l @ n # pre"] exI [of _ post]) simp
  qed
qed simp

lemma aa_sorted_distinct: "aa_sorted cmp t \<Longrightarrow> distinct (aa_inorder t)"
proof -
  have "sorted_wrt (before cmp) xs \<Longrightarrow> distinct xs" for xs
    by (induction xs) (auto simp: before_def)
  then show "aa_sorted cmp t \<Longrightarrow> distinct (aa_inorder t)" by (simp add: aa_sorted_def)
qed

text \<open>The entries behind \<open>x\<close> in a list, and those in front of it.\<close>

definition behind :: "'a \<Rightarrow> 'a list \<Rightarrow> 'a list" where
  "behind x xs = tl (dropWhile (\<lambda>y. y \<noteq> x) xs)"

lemma behind_append [simp]:
  "x \<in> set xs \<Longrightarrow> behind x (xs @ ys) = behind x xs @ ys"
  "x \<notin> set xs \<Longrightarrow> behind x (xs @ ys) = behind x ys"
  "behind x (x # ys) = ys" "x \<noteq> y \<Longrightarrow> behind x (y # ys) = behind x ys"
proof -
  show "x \<in> set xs \<Longrightarrow> behind x (xs @ ys) = behind x xs @ ys"
    by (induction xs) (auto simp: behind_def)
  show "x \<notin> set xs \<Longrightarrow> behind x (xs @ ys) = behind x ys"
    by (induction xs) (auto simp: behind_def)
qed (simp_all add: behind_def)

lemma subtree_outside: "x \<notin> set (aa_inorder t) \<Longrightarrow> aa_subtree x t = AA_Null"
  by (induction t) auto

lemma next_walk:
  assumes "aa_sorted cmp t" "ordered_on cmp (set (aa_inorder t))" "distinct (aa_inorder t)"
    and "x \<in> set (aa_inorder t)" "aa_subtree x t = AA_Node l x lv AA_Null"
  shows "aa_next_walk cmp x d t = (if behind x (aa_inorder t) = [] then d else first (behind x (aa_inorder t)))"
  using assms
proof (induction t arbitrary: d)
  case (AA_Node a n lv' b)
  have s: "aa_sorted cmp a" "aa_sorted cmp b" "distinct (aa_inorder a)" "distinct (aa_inorder b)"
    and an: "\<forall>y \<in> set (aa_inorder a). before cmp y n" and bn: "\<forall>y \<in> set (aa_inorder b). before cmp n y"
    using AA_Node.prems(1,3) by (auto simp: aa_sorted_def sorted_wrt_append)
  have o: "ordered_on cmp (set (aa_inorder a))" "ordered_on cmp (set (aa_inorder b))"
    by (rule ordered_on_subset [OF AA_Node.prems(2)]; auto)+
  consider "n = x" | "n \<noteq> x" "x \<in> set (aa_inorder a)" | "n \<noteq> x" "x \<in> set (aa_inorder b)" "x \<notin> set (aa_inorder a)"
    using AA_Node.prems(4) by auto
  then show ?case
  proof cases
    case 1
    then show ?thesis using AA_Node.prems(3,5) by simp
  next
    case 2
    have "before cmp x n" using an 2 by blast
    then have "aa_cmp_entries cmp x n = AA_CMP_LESS" by (simp add: before_def)
    moreover have "aa_subtree x a = AA_Node l x lv AA_Null"
      using AA_Node.prems(5) 2 subtree_inorder [OF s(3) 2(2)] by (auto split: aa_tree.splits)
    ultimately show ?thesis
      using 2 AA_Node.IH(1) [OF s(1) o(1) s(3) 2(2)] by simp
  next
    case 3
    have "before cmp n x" using bn 3 by blast
    then have "\<not> before cmp x n" by (rule ordered_onD(1) [OF AA_Node.prems(2), rotated 2]) (use 3 in auto)
    then have "aa_cmp_entries cmp x n \<noteq> AA_CMP_LESS" using 3 by (simp add: before_def)
    then have c: "aa_cmp_entries cmp x n = AA_CMP_MORE"
      by (cases "aa_cmp_entries cmp x n") (auto simp: aa_cmp_entries_def Let_def split: if_splits)
    have "aa_subtree x b = AA_Node l x lv AA_Null"
      using AA_Node.prems(5) 3 by (simp add: subtree_outside)
    then show ?thesis
      using 3 c AA_Node.IH(2) [OF s(2) o(2) s(4) 3(2)] by simp
  qed
qed simp

lemma aa_next_behind:
  assumes "aa_sorted cmp t" "ordered_on cmp (set (aa_inorder t))" "x \<in> set (aa_inorder t)"
  shows "aa_next cmp t x = first (behind x (aa_inorder t))"
proof -
  have d: "distinct (aa_inorder t)" by (rule aa_sorted_distinct [OF assms(1)])
  obtain l lv r pre post where s: "aa_subtree x t = AA_Node l x lv r"
    "aa_inorder t = pre @ aa_inorder (AA_Node l x lv r) @ post"
    using subtree_inorder [OF d assms(3)] by blast
  show ?thesis
  proof (cases r)
    case AA_Null
    then show ?thesis using s next_walk [OF assms(1,2) d assms(3), of l lv None] by (simp add: aa_next_def)
  next
    case (AA_Node a n k b)
    have "x \<notin> set (pre @ aa_inorder l)" using d unfolding s(2) by auto
    then have "behind x (aa_inorder t) = aa_inorder r @ post"
      unfolding s(2) by simp
    then show ?thesis using s(1) AA_Node aa_min_first [of r] by (simp add: aa_next_def)
  qed
qed

definition in_front :: "'a \<Rightarrow> 'a list \<Rightarrow> 'a list" where
  "in_front x xs = takeWhile (\<lambda>y. y \<noteq> x) xs"

lemma in_front_append [simp]:
  "x \<in> set xs \<Longrightarrow> in_front x (xs @ ys) = in_front x xs"
  "x \<notin> set xs \<Longrightarrow> in_front x (xs @ ys) = xs @ in_front x ys"
  "in_front x (x # ys) = []" "x \<noteq> y \<Longrightarrow> in_front x (y # ys) = y # in_front x ys"
proof -
  show "x \<in> set xs \<Longrightarrow> in_front x (xs @ ys) = in_front x xs"
    by (induction xs) (auto simp: in_front_def)
  show "x \<notin> set xs \<Longrightarrow> in_front x (xs @ ys) = xs @ in_front x ys"
    by (induction xs) (auto simp: in_front_def)
qed (simp_all add: in_front_def)

definition final_one :: "'a list \<Rightarrow> 'a option" where
  "final_one xs = (if xs = [] then None else Some (last xs))"

lemma prev_walk:
  assumes "aa_sorted cmp t" "ordered_on cmp (set (aa_inorder t))" "distinct (aa_inorder t)"
    and "x \<in> set (aa_inorder t)" "aa_subtree x t = AA_Node AA_Null x lv r"
  shows "aa_prev_walk cmp x d t =
    (if in_front x (aa_inorder t) = [] then d else final_one (in_front x (aa_inorder t)))"
  using assms
proof (induction t arbitrary: d)
  case (AA_Node a n lv' b)
  have s: "aa_sorted cmp a" "aa_sorted cmp b" "distinct (aa_inorder a)" "distinct (aa_inorder b)"
    and an: "\<forall>y \<in> set (aa_inorder a). before cmp y n" and bn: "\<forall>y \<in> set (aa_inorder b). before cmp n y"
    using AA_Node.prems(1,3) by (auto simp: aa_sorted_def sorted_wrt_append)
  have o: "ordered_on cmp (set (aa_inorder a))" "ordered_on cmp (set (aa_inorder b))"
    by (rule ordered_on_subset [OF AA_Node.prems(2)]; auto)+
  consider "n = x" | "n \<noteq> x" "x \<in> set (aa_inorder a)" | "n \<noteq> x" "x \<in> set (aa_inorder b)" "x \<notin> set (aa_inorder a)"
    using AA_Node.prems(4) by auto
  then show ?case
  proof cases
    case 1
    then show ?thesis using AA_Node.prems(3,5) by (simp add: final_one_def)
  next
    case 2
    have "before cmp x n" using an 2 by blast
    then have "aa_cmp_entries cmp x n = AA_CMP_LESS" by (simp add: before_def)
    moreover have "aa_subtree x a = AA_Node AA_Null x lv r"
      using AA_Node.prems(5) 2 subtree_inorder [OF s(3) 2(2)] by (auto split: aa_tree.splits)
    ultimately show ?thesis
      using 2 AA_Node.IH(1) [OF s(1) o(1) s(3) 2(2)] by simp
  next
    case 3
    have "before cmp n x" using bn 3 by blast
    then have "\<not> before cmp x n" by (rule ordered_onD(1) [OF AA_Node.prems(2), rotated 2]) (use 3 in auto)
    then have "aa_cmp_entries cmp x n \<noteq> AA_CMP_LESS" using 3 by (simp add: before_def)
    then have c: "aa_cmp_entries cmp x n = AA_CMP_MORE"
      by (cases "aa_cmp_entries cmp x n") (auto simp: aa_cmp_entries_def Let_def split: if_splits)
    have "aa_subtree x b = AA_Node AA_Null x lv r"
      using AA_Node.prems(5) 3 by (simp add: subtree_outside)
    then show ?thesis
      using 3 c AA_Node.IH(2) [OF s(2) o(2) s(4) 3(2)] by (simp add: final_one_def)
  qed
qed simp

lemma aa_prev_in_front:
  assumes "aa_sorted cmp t" "ordered_on cmp (set (aa_inorder t))" "x \<in> set (aa_inorder t)"
  shows "aa_prev cmp t x = final_one (in_front x (aa_inorder t))"
proof -
  have d: "distinct (aa_inorder t)" by (rule aa_sorted_distinct [OF assms(1)])
  obtain l lv r pre post where s: "aa_subtree x t = AA_Node l x lv r"
    "aa_inorder t = pre @ aa_inorder (AA_Node l x lv r) @ post"
    using subtree_inorder [OF d assms(3)] by blast
  show ?thesis
  proof (cases l)
    case AA_Null
    then show ?thesis using s prev_walk [OF assms(1,2) d assms(3), of lv r None]
      by (simp add: aa_prev_def final_one_def)
  next
    case (AA_Node a n k b)
    have "x \<notin> set (pre @ aa_inorder l)" using d unfolding s(2) by auto
    then have "in_front x (aa_inorder t) = pre @ aa_inorder l"
      unfolding s(2) by simp
    then show ?thesis using s(1) AA_Node aa_max_last [of l] by (simp add: aa_prev_def final_one_def)
  qed
qed

section \<open>The interface\<close>

text \<open>
  What a client of the tree relies on: an index of entries that is kept in order by \<open>ins\<close> and \<open>del\<close>,
  with its least entry.
\<close>

locale entry_index =
  fixes ins del :: "(ptr \<Rightarrow> ptr \<Rightarrow> aa_cmp) \<Rightarrow> ptr \<Rightarrow> 't \<Rightarrow> 't"
    and least :: "'t \<Rightarrow> ptr option" and listed :: "'t \<Rightarrow> ptr list"
  assumes listed_ins: "ordered_on cmp (insert x (set (listed t))) \<Longrightarrow> sorted_wrt (before cmp) (listed t) \<Longrightarrow>
      x \<notin> set (listed t) \<Longrightarrow> listed (ins cmp x t) = insort_by (before cmp) x (listed t)"
    and listed_del: "ordered_on cmp (insert x (set (listed t))) \<Longrightarrow> sorted_wrt (before cmp) (listed t) \<Longrightarrow>
      listed (del cmp x t) = remove1 x (listed t)"
    and least_listed: "least t = first (listed t)"
begin

definition index_ok :: "(ptr \<Rightarrow> ptr \<Rightarrow> aa_cmp) \<Rightarrow> 't \<Rightarrow> bool" where
  "index_ok cmp t = (sorted_wrt (before cmp) (listed t) \<and> ordered_on cmp (set (listed t)))"

lemma sorted_distinct: "sorted_wrt (before cmp) xs \<Longrightarrow> distinct xs"
  by (induction xs) (auto simp: before_def)

lemma sorted_insort:
  "sorted_wrt (before cmp) xs \<Longrightarrow> ordered_on cmp (insert x (set xs)) \<Longrightarrow> x \<notin> set xs \<Longrightarrow>
   sorted_wrt (before cmp) (insort_by (before cmp) x xs)"
proof (induction xs)
  case (Cons y ys)
  have o: "ordered_on cmp (insert x (set ys))" by (rule ordered_on_subset [OF Cons.prems(2)]) auto
  show ?case
  proof (cases "before cmp x y")
    case True
    then show ?thesis using Cons.prems(1) ordered_onD(3) [OF Cons.prems(2), of x y] by auto
  next
    case False
    then have "before cmp y x" using ordered_onD(2) [OF Cons.prems(2), of x y] Cons.prems(3) by auto
    then show ?thesis using False Cons.IH [OF _ o] Cons.prems(1,3) by auto
  qed
qed simp

lemma ins_ok:
  assumes "index_ok cmp t" "ordered_on cmp (insert x (set (listed t)))" "x \<notin> set (listed t)"
  shows "index_ok cmp (ins cmp x t)" and "set (listed (ins cmp x t)) = insert x (set (listed t))"
  using assms listed_ins [OF assms(2) _ assms(3)] sorted_insort [OF _ assms(2,3)]
  by (simp_all add: index_ok_def)

lemma del_ok:
  assumes "index_ok cmp t" "x \<in> set (listed t)"
  shows "index_ok cmp (del cmp x t)" and "set (listed (del cmp x t)) = set (listed t) - {x}"
proof -
  have s: "sorted_wrt (before cmp) (listed t)" and o: "ordered_on cmp (set (listed t))"
    using assms(1) by (simp_all add: index_ok_def)
  have d: "distinct (listed t)" by (rule sorted_distinct [OF s])
  have i: "insert x (set (listed t)) = set (listed t)" using assms(2) by auto
  have l: "listed (del cmp x t) = remove1 x (listed t)"
    using listed_del [of cmp x t] s o unfolding i by simp
  show "set (listed (del cmp x t)) = set (listed t) - {x}" unfolding l by (simp add: d)
  have "sorted_wrt (before cmp) (remove1 x xs)" if "sorted_wrt (before cmp) xs" for xs
    using that by (induction xs) (auto dest: notin_set_remove1 set_remove1_subset [THEN subsetD])
  moreover have "ordered_on cmp (set (remove1 x (listed t)))"
    by (rule ordered_on_subset [OF o]) (rule set_remove1_subset)
  ultimately show "index_ok cmp (del cmp x t)" using s by (simp add: index_ok_def l)
qed

lemma least_ok:
  assumes "index_ok cmp t"
  shows "least t = Some x \<Longrightarrow> x \<in> set (listed t) \<and> (\<forall>y \<in> set (listed t). y = x \<or> before cmp x y)"
    and "least t = None \<longleftrightarrow> listed t = []"
  using assms by (cases "listed t"; auto simp: least_listed index_ok_def)+

text \<open>The index only depends on how the comparison orders its entries.\<close>

lemma index_ok_cong:
  assumes "\<And>a b. a \<in> set (listed t) \<Longrightarrow> b \<in> set (listed t) \<Longrightarrow> cmp a b = cmp' a b"
  shows "index_ok cmp t = index_ok cmp' t"
proof -
  have b: "a \<in> set (listed t) \<Longrightarrow> b \<in> set (listed t) \<Longrightarrow> before cmp a b = before cmp' a b" for a b
    using assms by (simp add: before_def aa_cmp_entries_def)
  have "sorted_wrt (before cmp) (listed t) = sorted_wrt (before cmp') (listed t)"
    using b by (intro iffI; elim sorted_wrt_mono_rel [rotated]) auto
  moreover have "ordered_on cmp (set (listed t)) = ordered_on cmp' (set (listed t))"
    using b unfolding ordered_on_def by (simp cong: ball_cong)
  ultimately show ?thesis by (simp add: index_ok_def)
qed

end

interpretation aa: entry_index aa_insert aa_remove aa_min aa_inorder
  by unfold_locales (simp_all add: inorder_insert inorder_remove aa_sorted_def aa_min_first)

section \<open>Balance\<close>

fun aa_level :: "aa_tree \<Rightarrow> nat" where
  "aa_level AA_Null = 0"
| "aa_level (AA_Node l n lv r) = lv"

text \<open>A horizontal link leads to a right child of the same level.\<close>

fun horizontal :: "aa_tree \<Rightarrow> bool" where
  "horizontal AA_Null = False"
| "horizontal (AA_Node l n lv r) = (aa_level r = lv)"

fun grown :: "nat \<Rightarrow> aa_tree \<Rightarrow> bool" where
  "grown k AA_Null = False"
| "grown k (AA_Node l n lv r) = (lv = k + 1 \<and> aa_level l = k \<and> aa_level r = k)"

text \<open>
  The balance of an AA tree: the left child is one level below its parent, the right child at most
  one level below, and no two horizontal links follow each other.
\<close>

fun aa_balanced :: "aa_tree \<Rightarrow> bool" where
  "aa_balanced AA_Null = True"
| "aa_balanced (AA_Node l n lv r) =
     (aa_balanced l \<and> aa_balanced r \<and> lv = aa_level l + 1 \<and>
      (lv = aa_level r + 1 \<or> lv = aa_level r \<and> \<not> horizontal r))"

lemmas balanced_node = aa_balanced.simps(2)

declare aa_balanced.simps(2) [simp del]

lemma balanced_right_right:
  "aa_balanced (AA_Node l n lv (AA_Node b m k (AA_Node c q j d))) \<Longrightarrow> j \<noteq> lv"
  unfolding balanced_node aa_level.simps horizontal.simps by linarith

lemma level_Suc: "aa_level t = k + 1 \<Longrightarrow> \<exists>l n r. t = AA_Node l n (k + 1) r"
  by (cases t) auto

text \<open>What an insertion leaves: the old level, or one level more when the tree had a horizontal link.\<close>

definition inserted_into :: "aa_tree \<Rightarrow> aa_tree \<Rightarrow> bool" where
  "inserted_into t t' =
     (aa_balanced t' \<and> t' \<noteq> AA_Null \<and>
      (t \<noteq> AA_Null \<and> aa_level t' = aa_level t \<or> (t = AA_Null \<or> horizontal t) \<and> grown (aa_level t) t'))"

lemma insert_left_balanced:
  assumes t: "aa_balanced (AA_Node l n lv r)" and l: "inserted_into l l'"
  shows "inserted_into (AA_Node l n lv r) (aa_split (aa_skew (AA_Node l' n lv r)))"
proof -
  have b: "aa_balanced l" "aa_balanced r" "lv = aa_level l + 1"
      "lv = aa_level r + 1 \<or> lv = aa_level r \<and> \<not> horizontal r" "aa_balanced l'"
    using t l by (auto simp: balanced_node inserted_into_def)
  consider "aa_level l' = aa_level l" "l' \<noteq> AA_Null" | "grown (aa_level l) l'"
    using l by (auto simp: inserted_into_def)
  then show ?thesis
  proof cases
    case 1
    then have sk: "aa_skew (AA_Node l' n lv r) = AA_Node l' n lv r" using b(3) by (cases l') auto
    have "aa_split (AA_Node l' n lv r) = AA_Node l' n lv r"
      using t balanced_right_right by (cases "AA_Node l' n lv r" rule: aa_split.cases) auto
    then show ?thesis using sk b 1 by (simp add: inserted_into_def balanced_node)
  next
    case 2
    then obtain a m k c where l': "l' = AA_Node a m k c" by (cases l') auto
    have g: "k = lv" "aa_level a = aa_level l" "aa_level c = aa_level l" "aa_balanced a" "aa_balanced c"
      using 2 b(3,5) l' by (simp_all add: balanced_node)
    have sk: "aa_skew (AA_Node l' n lv r) = AA_Node a m lv (AA_Node c n lv r)" using g(1) l' by simp
    show ?thesis
    proof (cases "aa_level r = lv")
      case True
      then obtain d p e where r: "r = AA_Node d p lv e" using b(3) level_Suc [of r "aa_level l"] by auto
      have h: "horizontal (AA_Node l n lv r)" using True by simp
      have "aa_split (AA_Node a m lv (AA_Node c n lv r)) = AA_Node (AA_Node a m lv c) n (lv + 1) r"
        using r by simp
      then show ?thesis using sk g b r h by (auto simp: inserted_into_def balanced_node)
    next
      case False
      have "aa_split (AA_Node a m lv (AA_Node c n lv r)) = AA_Node a m lv (AA_Node c n lv r)"
        using False by (cases r) auto
      then show ?thesis using sk g b False by (simp add: inserted_into_def balanced_node)
    qed
  qed
qed

lemma insert_right_balanced:
  assumes t: "aa_balanced (AA_Node l n lv r)" and r: "inserted_into r r'"
  shows "inserted_into (AA_Node l n lv r) (aa_split (aa_skew (AA_Node l n lv r')))"
proof -
  have b: "aa_balanced l" "aa_balanced r" "lv = aa_level l + 1"
      "lv = aa_level r + 1 \<or> lv = aa_level r \<and> \<not> horizontal r" "aa_balanced r'"
    using t r by (auto simp: balanced_node inserted_into_def)
  have sk: "aa_skew (AA_Node l n lv r') = AA_Node l n lv r'" using b(3) by (cases l) auto
  obtain a m k c where r': "r' = AA_Node a m k c" using r by (cases r') (auto simp: inserted_into_def)
  have r'b: "aa_balanced a" "aa_balanced c" "k = aa_level a + 1"
      "k = aa_level c + 1 \<or> k = aa_level c \<and> \<not> horizontal c"
    using b(5) r' by (auto simp: balanced_node)
  show ?thesis
  proof (cases "aa_level c = lv")
    case True
    then obtain d p e where c: "c = AA_Node d p lv e" using b(3) level_Suc [of c "aa_level l"] by auto
    have k: "k = lv" using r r' b(3,4) r'b(4) True by (auto simp: inserted_into_def)
    have h: "horizontal (AA_Node l n lv r)"
      using r r' b(4) k True by (auto simp: inserted_into_def)
    have "aa_split (AA_Node l n lv r') = AA_Node (AA_Node l n lv a) m (lv + 1) c"
      using r' c k by simp
    then show ?thesis using sk b h c k r'b by (auto simp: inserted_into_def balanced_node)
  next
    case False
    have "aa_split (AA_Node l n lv r') = AA_Node l n lv r'" using False r' by (cases c) auto
    moreover have "aa_balanced (AA_Node l n lv r')"
    proof -
      have h: "\<not> horizontal r' \<or> lv = k + 1" and k: "k = lv \<or> k + 1 = lv"
        using r r' b(3,4) False by (auto simp: inserted_into_def)
      show ?thesis unfolding balanced_node using b(1,3,5) h k r' by auto
    qed
    ultimately show ?thesis using sk by (simp add: inserted_into_def)
  qed
qed

lemma balanced_insert: "aa_balanced t \<Longrightarrow> inserted_into t (aa_insert cmp x t)"
proof (induction t)
  case AA_Null
  then show ?case by (simp add: inserted_into_def balanced_node)
next
  case (AA_Node l n lv r)
  then have "inserted_into l (aa_insert cmp x l)" "inserted_into r (aa_insert cmp x r)"
    by (simp_all add: balanced_node)
  then show ?case
    using insert_left_balanced [OF AA_Node.prems] insert_right_balanced [OF AA_Node.prems] by simp
qed

text \<open>A balanced tree has at least \<open>2 ^ level - 1\<close> entries, so its depth is logarithmic.\<close>

fun aa_height :: "aa_tree \<Rightarrow> nat" where
  "aa_height AA_Null = 0"
| "aa_height (AA_Node l n lv r) = max (aa_height l) (aa_height r) + 1"

lemma balanced_size: "aa_balanced t \<Longrightarrow> 2 ^ aa_level t \<le> length (aa_inorder t) + 1"
proof (induction t)
  case (AA_Node l n lv r)
  then have b: "2 ^ aa_level l \<le> length (aa_inorder l) + 1" "2 ^ aa_level r \<le> length (aa_inorder r) + 1"
    "lv = aa_level l + 1" "aa_level l \<le> aa_level r"
    by (auto simp: balanced_node)
  have "(2::nat) ^ aa_level l \<le> 2 ^ aa_level r" using b(4) by (rule power_increasing) simp
  then have "2 * 2 ^ aa_level l \<le> Suc (Suc (length (aa_inorder l) + length (aa_inorder r)))"
    using b(1,2) by linarith
  then show ?case using b(3) by simp
qed simp

lemma balanced_height:
  "aa_balanced t \<Longrightarrow> aa_height t \<le> 2 * aa_level t \<and> (t \<noteq> AA_Null \<longrightarrow> \<not> horizontal t \<longrightarrow> aa_height t \<le> 2 * aa_level t - 1)"
proof (induction t)
  case (AA_Node l n lv r)
  have b: "aa_balanced l" "aa_balanced r" "lv = aa_level l + 1"
      "lv = aa_level r + 1 \<or> lv = aa_level r \<and> \<not> horizontal r"
    using AA_Node.prems by (auto simp: balanced_node)
  have i: "aa_height l \<le> 2 * aa_level l" "aa_height r \<le> 2 * aa_level r"
      "r \<noteq> AA_Null \<Longrightarrow> \<not> horizontal r \<Longrightarrow> aa_height r \<le> 2 * aa_level r - 1"
    using AA_Node.IH b(1,2) by simp_all
  show ?case using b(3,4) i by (cases "r = AA_Null") auto
qed simp

section \<open>Properties of the tree\<close>

text \<open>
  C28: On a tree that is sorted by a comparison which orders its entries totally, inserting is the
  insertion into the sorted list of its entries, removing is the removal of the entry from that list
  (of nothing when the entry is not in the tree), and the least entry is the head of that list, so
  the rotations and the replacement of an inner node never lose, duplicate or displace an entry.
\<close>

theorem aa_tree_is_a_sorted_list:
  assumes "ordered_on cmp (insert x (set (aa_inorder t)))" "aa_sorted cmp t"
  shows "aa_inorder (aa_remove cmp x t) = remove1 x (aa_inorder t) \<and> aa_min t = first (aa_inorder t) \<and>
    (x \<in> set (aa_inorder t) \<or> aa_inorder (aa_insert cmp x t) = insort_by (before cmp) x (aa_inorder t))"
  using inorder_insert [OF assms] inorder_remove [OF assms(2,1)] aa_min_first by blast

definition cmp_addresses :: "ptr \<Rightarrow> ptr \<Rightarrow> aa_cmp" where
  "cmp_addresses a b = (if a < b then AA_CMP_LESS else if a = b then AA_CMP_EQ else AA_CMP_MORE)"

definition tree_of :: "ptr list \<Rightarrow> aa_tree" where
  "tree_of xs = foldr (aa_insert cmp_addresses) xs AA_Null"

lemma before_addresses [simp]: "before cmp_addresses a b = (a < b)"
  by (auto simp: before_def aa_cmp_entries_def cmp_addresses_def Let_def)

lemma ordered_addresses: "ordered_on cmp_addresses A"
  by (auto simp: ordered_on_def)

lemmas tree_eval = tree_of_def aa_cmp_entries_def cmp_addresses_def aa_sorted_def Let_def

lemma aa_tree_is_a_sorted_list_witness:
  "aa_inorder (tree_of [40, 30, 20, 50]) = [20, 30, 40, 50] \<and>
   aa_inorder (aa_remove cmp_addresses 30 (tree_of [40, 30, 20, 50])) = [20, 40, 50]"
proof -
  have t: "aa_inorder (tree_of [40, 30, 20, 50]) = [20, 30, 40, 50]" by (simp add: tree_eval)
  have "aa_sorted cmp_addresses (tree_of [40, 30, 20, 50])" using t by (simp add: aa_sorted_def)
  then show ?thesis using aa_tree_is_a_sorted_list [OF ordered_addresses, of _ 30] t by simp
qed

text \<open>
  Looking up a key returns an entry with that key exactly when there is one, and stepping from an
  entry to the next or the previous one returns its neighbour in the order of the entries (nothing at
  either end), whether the neighbour is below the entry or has to be found from the root.
\<close>

theorem aa_search_follows_the_order:
  assumes "ordered_on cmp (set (aa_inorder t))" "aa_sorted cmp t" "key_fits cmp cmp_key (set (aa_inorder t))"
    and "x \<in> set (aa_inorder t)"
  shows "(case aa_find cmp_key t of None \<Rightarrow> \<forall>n. n \<notin> set (aa_inorder t) \<or> cmp_key n \<noteq> AA_CMP_EQ
      | Some n \<Rightarrow> n \<in> set (aa_inorder t) \<and> cmp_key n = AA_CMP_EQ) \<and>
    aa_next cmp t x = first (behind x (aa_inorder t)) \<and> aa_prev cmp t x = final_one (in_front x (aa_inorder t))"
  using aa_find_Some [of cmp_key t] aa_find_None [OF assms(2,3)]
    aa_next_behind [OF assms(2,1,4)] aa_prev_in_front [OF assms(2,1,4)]
  by (auto split: option.split)

lemma aa_search_follows_the_order_witness:
  "aa_find (cmp_addresses 50) (tree_of [40, 30, 20, 50]) = Some 50 \<and>
   aa_next cmp_addresses (tree_of [40, 30, 20, 50]) 30 = Some 40 \<and>
   aa_prev cmp_addresses (tree_of [40, 30, 20, 50]) 30 = Some 20"
proof -
  have t: "aa_inorder (tree_of [40, 30, 20, 50]) = [20, 30, 40, 50]" by (simp add: tree_eval)
  have s: "aa_sorted cmp_addresses (tree_of [40, 30, 20, 50])" using t by (simp add: aa_sorted_def)
  have k: "key_fits cmp_addresses (cmp_addresses 50) A" for A
    by (auto simp: key_fits_def) (auto simp: cmp_addresses_def split: if_splits)
  have "aa_find (cmp_addresses 50) (tree_of [40, 30, 20, 50]) = Some 50" by (simp add: tree_eval)
  then show ?thesis
    using aa_search_follows_the_order [OF ordered_addresses s k, of 30] t
    by (simp add: final_one_def)
qed

text \<open>
  Insertion keeps the tree balanced, and the number of nodes that a search visits in a tree built
  by insertions is at most twice the binary logarithm of its size plus one.
\<close>

theorem aa_insert_keeps_balance:
  assumes "aa_balanced t"
  shows "aa_balanced (aa_insert cmp x t) \<and>
    2 ^ (aa_height (aa_insert cmp x t) div 2) \<le> length (aa_inorder (aa_insert cmp x t)) + 1"
proof -
  define u where "u = aa_insert cmp x t"
  have b: "aa_balanced u" using balanced_insert [OF assms, of cmp x] by (simp add: inserted_into_def u_def)
  have "aa_height u div 2 \<le> aa_level u" using balanced_height [OF b] by linarith
  then have "(2::nat) ^ (aa_height u div 2) \<le> 2 ^ aa_level u" by (rule power_increasing) simp
  then show ?thesis using b balanced_size [OF b] unfolding u_def by linarith
qed

lemma aa_insert_keeps_balance_witness:
  "aa_balanced (tree_of [10, 20, 30, 40]) \<and> aa_height (tree_of [10, 20, 30, 40]) = 3"
proof -
  have e: "tree_of (x # xs) = aa_insert cmp_addresses x (tree_of xs)" for x xs by (simp add: tree_of_def)
  have "aa_balanced (tree_of [])" by (simp add: tree_of_def)
  then have "aa_balanced (tree_of [10, 20, 30, 40])"
    unfolding e by (intro aa_insert_keeps_balance [THEN conjunct1])
  moreover have "aa_height (tree_of [10, 20, 30, 40]) = 3" by (simp add: tree_eval)
  ultimately show ?thesis by blast
qed

text \<open>
  Removal does not keep the balance: the level that \<^verbatim>\<open>_aa_fixup\<close> gives a node ignores a missing
  right child, so removing the largest of three entries leaves the middle one on level two without a
  right child.
\<close>

theorem aa_remove_loses_balance:
  "aa_balanced (tree_of [30, 20, 10]) \<and> \<not> aa_balanced (aa_remove cmp_addresses 30 (tree_of [30, 20, 10]))"
  by (simp add: tree_eval balanced_node)

end
