(* ===== verification/Timer.thy ===== *)
theory Timer
  imports Aa_Tree Complex_Main "HOL-Library.Signed_Division" "HOL-Library.Multiset"
begin

text \<open>
  The timer of client and server, \<^verbatim>\<open>src/ua_timer.c\<close> and \<^verbatim>\<open>src/ua_timer.h\<close>: entries that are executed
  once or repeatedly, kept in a tree ordered by their next time and in a tree ordered by identifier.

  The entries live on the heap, so the timer of the model carries the allocated entries as a map from
  addresses; the links of the two trees are the trees of \<^verbatim>\<open>Aa_Tree\<close>. The result of \<^verbatim>\<open>UA_malloc\<close> is an
  argument (0 for a failure), and so is the time that \<^verbatim>\<open>UA_DateTime_nowMonotonic\<close> returns. A
  \<^verbatim>\<open>UA_DateTime\<close> is a signed 64-bit number of 100 ns steps, and a time of the model is the integer that it
  stands for. Every sum goes through \<open>int64\<close>, which wraps around where it leaves the 64 bits (signed
  overflow, which the machine wraps and the language leaves undefined); what holds only without an
  overflow says so. An interval is a 64-bit word, which the code casts to a signed number. The mutex of a multithreaded build is not
  modelled: one thread uses the timer.
\<close>

section \<open>Data\<close>

definition UA_STATUSCODE_BADNOTFOUND :: status where
  [status_defs]: "UA_STATUSCODE_BADNOTFOUND = 0x803E0000"

definition UA_INT64_MAX :: int where
  "UA_INT64_MAX = 2 ^ 63 - 1"

text \<open>The value of a 64-bit signed sum, and the integers that are such a value.\<close>

definition int64 :: "int \<Rightarrow> int" where
  "int64 i = sint (word_of_int i :: 64 word)"

definition fits64 :: "int \<Rightarrow> bool" where
  "fits64 i = (- (2 ^ 63) \<le> i \<and> i < 2 ^ 63)"

lemma int64_id: "fits64 i \<Longrightarrow> int64 i = i"
  by (simp add: int64_def fits64_def signed_of_int signed_take_bit_int_eq_self)

lemma fits64_int64 [simp]: "fits64 (int64 i)"
  unfolding fits64_def int64_def by (rule conjI) (use sint_ge [of "word_of_int i :: 64 word"] sint_lt [of "word_of_int i :: 64 word"] in simp_all)

lemma fits64_sint [simp]: "fits64 (sint (w :: 64 word))"
  unfolding fits64_def by (rule conjI) (use sint_ge [of w] sint_lt [of w] in simp_all)

datatype UA_TimerPolicy =
  UA_TIMER_HANDLE_CYCLEMISS_WITH_CURRENTTIME | UA_TIMER_HANDLE_CYCLEMISS_WITH_BASETIME

text \<open>The links \<^verbatim>\<open>treeEntry\<close> and \<^verbatim>\<open>idTreeEntry\<close> are the trees; a callback of 0 is NULL.\<close>

record UA_TimerEntry =
  timerPolicy :: UA_TimerPolicy
  nextTime :: int
  interval :: u64
  callback :: ptr
  application :: ptr
  cbData :: ptr
  entryId :: u64

record UA_Timer =
  entries :: "ptr \<rightharpoonup> UA_TimerEntry"
  timeRoot :: aa_tree
  idRoot :: aa_tree
  idCounter :: u64

definition UA_Timer_init :: "(ptr \<rightharpoonup> UA_TimerEntry) \<Rightarrow> UA_Timer" where
  "UA_Timer_init heap = \<lparr>entries = heap, timeRoot = AA_Null, idRoot = AA_Null, idCounter = 0\<rparr>"

section \<open>The two orders\<close>

definition cmpDateTime :: "(ptr \<rightharpoonup> UA_TimerEntry) \<Rightarrow> ptr \<Rightarrow> ptr \<Rightarrow> aa_cmp" where
  "cmpDateTime h a b =
     (let ta = nextTime (the (h a)); tb = nextTime (the (h b))
      in if ta < tb then AA_CMP_LESS
         else if ta > tb then AA_CMP_MORE
         else if a = b then AA_CMP_EQ
         else if a < b then AA_CMP_LESS
         else AA_CMP_MORE)"

definition cmpId :: "u64 \<Rightarrow> u64 \<Rightarrow> aa_cmp" where
  "cmpId a b = (if a < b then AA_CMP_LESS else if a = b then AA_CMP_EQ else AA_CMP_MORE)"

definition cmpEntryId :: "(ptr \<rightharpoonup> UA_TimerEntry) \<Rightarrow> ptr \<Rightarrow> ptr \<Rightarrow> aa_cmp" where
  "cmpEntryId h a b = cmpId (entryId (the (h a))) (entryId (the (h b)))"

definition cmpIdKey :: "(ptr \<rightharpoonup> UA_TimerEntry) \<Rightarrow> u64 \<Rightarrow> ptr \<Rightarrow> aa_cmp" where
  "cmpIdKey h k b = cmpId k (entryId (the (h b)))"

section \<open>Operations\<close>

definition calculateNextTime :: "int \<Rightarrow> int \<Rightarrow> int \<Rightarrow> int" where
  "calculateNextTime currentTime baseTime itv =
     (let diffCurrentTimeBaseTime = int64 (currentTime - baseTime);
          cycleDelay = diffCurrentTimeBaseTime smod itv;
          cycleDelay = (if cycleDelay < 0 then int64 (cycleDelay + itv) else cycleDelay)
      in int64 (int64 (currentTime + itv) - cycleDelay))"

text \<open>Both trees get the entry at \<open>te\<close>; \<open>e\<close> is its content.\<close>

definition link_entry :: "UA_Timer \<Rightarrow> ptr \<Rightarrow> UA_TimerEntry \<Rightarrow> UA_Timer" where
  "link_entry t te e =
     (let h = (entries t)(te \<mapsto> e)
      in t\<lparr>entries := h, timeRoot := aa_insert (cmpDateTime h) te (timeRoot t),
           idRoot := aa_insert (cmpEntryId h) te (idRoot t)\<rparr>)"

definition UA_Timer_addTimerEntry :: "UA_Timer \<Rightarrow> ptr \<Rightarrow> UA_TimerEntry \<Rightarrow> UA_Timer \<times> u64" where
  "UA_Timer_addTimerEntry t te e =
     (let t = t\<lparr>idCounter := idCounter t + 1\<rparr>;
          e = e\<lparr>entryId := idCounter t\<rparr>
      in (link_entry t te e, entryId e))"

text \<open>The third result is the identifier that \<^verbatim>\<open>*callbackId\<close> is set to, when it is set.\<close>

definition addCallback ::
  "ptr \<Rightarrow> UA_Timer \<Rightarrow> ptr \<Rightarrow> ptr \<Rightarrow> ptr \<Rightarrow> int \<Rightarrow> u64 \<Rightarrow> UA_TimerPolicy \<Rightarrow> status \<times> UA_Timer \<times> u64 option" where
  "addCallback te t cb app dat nxt itv policy =
     (if cb = 0 then (UA_STATUSCODE_BADINTERNALERROR, t, None)
      else if te = 0 then (UA_STATUSCODE_BADOUTOFMEMORY, t, None)
      else let t = t\<lparr>idCounter := idCounter t + 1\<rparr>;
               e = \<lparr>timerPolicy = policy, nextTime = nxt, interval = itv, callback = cb, application = app,
                    cbData = dat, entryId = idCounter t\<rparr>
           in (GOOD, link_entry t te e, Some (entryId e)))"

definition UA_Timer_addTimedCallback ::
  "ptr \<Rightarrow> UA_Timer \<Rightarrow> ptr \<Rightarrow> ptr \<Rightarrow> ptr \<Rightarrow> int \<Rightarrow> status \<times> UA_Timer \<times> u64 option" where
  "UA_Timer_addTimedCallback te t cb app dat date =
     addCallback te t cb app dat date 0 UA_TIMER_HANDLE_CYCLEMISS_WITH_CURRENTTIME"

text \<open>
  The interval is a \<^verbatim>\<open>double\<close> in milliseconds. A finite double is a rational number; \<open>rnd\<close> is the
  rounding of a product to the nearest double, and the cast cuts off the fraction.
\<close>

definition interval_ticks :: "(rat \<Rightarrow> rat) \<Rightarrow> rat \<Rightarrow> u64" where
  "interval_ticks rnd interval_ms = word_of_int \<lfloor>rnd (interval_ms * 10000)\<rfloor>"

definition first_time :: "int \<Rightarrow> int option \<Rightarrow> u64 \<Rightarrow> int" where
  "first_time currentTime baseTime itv =
     (case baseTime of
        None \<Rightarrow> int64 (currentTime + sint itv)
      | Some b \<Rightarrow> calculateNextTime currentTime b (sint itv))"

definition UA_Timer_addRepeatedCallback ::
  "ptr \<Rightarrow> int \<Rightarrow> (rat \<Rightarrow> rat) \<Rightarrow> UA_Timer \<Rightarrow> ptr \<Rightarrow> ptr \<Rightarrow> ptr \<Rightarrow> rat \<Rightarrow> int option \<Rightarrow> UA_TimerPolicy \<Rightarrow>
   status \<times> UA_Timer \<times> u64 option" where
  "UA_Timer_addRepeatedCallback te currentTime rnd t cb app dat interval_ms baseTime policy =
     (if interval_ms \<le> 0 then (UA_STATUSCODE_BADINTERNALERROR, t, None)
      else let itv = interval_ticks rnd interval_ms
           in if itv = 0 then (UA_STATUSCODE_BADINTERNALERROR, t, None)
              else addCallback te t cb app dat (first_time currentTime baseTime itv) itv policy)"

definition UA_Timer_changeRepeatedCallback ::
  "int \<Rightarrow> (rat \<Rightarrow> rat) \<Rightarrow> UA_Timer \<Rightarrow> u64 \<Rightarrow> rat \<Rightarrow> int option \<Rightarrow> UA_TimerPolicy \<Rightarrow> status \<times> UA_Timer" where
  "UA_Timer_changeRepeatedCallback currentTime rnd t callbackId interval_ms baseTime policy =
     (if interval_ms \<le> 0 then (UA_STATUSCODE_BADINTERNALERROR, t)
      else let itv = interval_ticks rnd interval_ms
           in if itv = 0 then (UA_STATUSCODE_BADINTERNALERROR, t)
              else case aa_find (cmpIdKey (entries t) callbackId) (idRoot t) of
                None \<Rightarrow> (UA_STATUSCODE_BADNOTFOUND, t)
              | Some te \<Rightarrow>
                  let removed = aa_remove (cmpDateTime (entries t)) te (timeRoot t);
                      e = (the (entries t te))\<lparr>nextTime := first_time currentTime baseTime itv,
                            interval := itv, timerPolicy := policy\<rparr>;
                      h = (entries t)(te \<mapsto> e)
                  in (GOOD, t\<lparr>entries := h, timeRoot := aa_insert (cmpDateTime h) te removed\<rparr>))"

text \<open>Both trees lose the entry at \<open>te\<close>, and its memory is released.\<close>

definition UA_Timer_removeCallback :: "UA_Timer \<Rightarrow> u64 \<Rightarrow> UA_Timer" where
  "UA_Timer_removeCallback t callbackId =
     (case aa_find (cmpIdKey (entries t) callbackId) (idRoot t) of
        None \<Rightarrow> t
      | Some te \<Rightarrow>
          t\<lparr>timeRoot := aa_remove (cmpDateTime (entries t)) te (timeRoot t),
            idRoot := aa_remove (cmpEntryId (entries t)) te (idRoot t),
            entries := (entries t)(te := None)\<rparr>)"

text \<open>
  \<open>exec cb app dat\<close> is \<^verbatim>\<open>executionCallback\<close>: it may do anything to the world \<open>'w\<close> and may use the
  timer. A step of the loop handles the first entry, which is due.
\<close>

type_synonym 'w exec = "ptr \<Rightarrow> ptr \<Rightarrow> ptr \<Rightarrow> UA_Timer \<times> 'w \<Rightarrow> UA_Timer \<times> 'w"

definition run_callback :: "'w exec \<Rightarrow> UA_TimerEntry \<Rightarrow> UA_Timer \<times> 'w \<Rightarrow> UA_Timer \<times> 'w" where
  "run_callback exec e s =
     (if callback e = 0 then s else exec (callback e) (application e) (cbData e) s)"

definition next_execution :: "int \<Rightarrow> UA_TimerEntry \<Rightarrow> int" where
  "next_execution nowMonotonic e =
     (let nt = int64 (nextTime e + sint (interval e))
      in if nt < nowMonotonic
         then if timerPolicy e = UA_TIMER_HANDLE_CYCLEMISS_WITH_BASETIME
              then calculateNextTime nowMonotonic nt (sint (interval e))
              else int64 (nowMonotonic + sint (interval e))
         else nt)"

definition process_first :: "'w exec \<Rightarrow> int \<Rightarrow> ptr \<Rightarrow> UA_Timer \<times> 'w \<Rightarrow> UA_Timer \<times> 'w" where
  "process_first exec nowMonotonic p s =
     (let (t, w) = s;
          e = the (entries t p);
          t = t\<lparr>timeRoot := aa_remove (cmpDateTime (entries t)) p (timeRoot t)\<rparr>
      in if interval e = 0
         then let t = t\<lparr>idRoot := aa_remove (cmpEntryId (entries t)) p (idRoot t)\<rparr>;
                  (t, w) = run_callback exec e (t, w)
              in (t\<lparr>entries := (entries t)(p := None)\<rparr>, w)
         else let h = (entries t)(p \<mapsto> e\<lparr>nextTime := next_execution nowMonotonic e\<rparr>);
                  t = t\<lparr>entries := h, timeRoot := aa_insert (cmpDateTime h) p (timeRoot t)\<rparr>
              in run_callback exec e (t, w))"

text \<open>\<open>None\<close> is a loop that does not end: a callback can add entries that are due for ever.\<close>

partial_function (option) process_loop :: "'w exec \<Rightarrow> int \<Rightarrow> UA_Timer \<times> 'w \<Rightarrow> (UA_Timer \<times> 'w) option" where
  "process_loop exec nowMonotonic s =
     (case aa_min (timeRoot (fst s)) of
        None \<Rightarrow> Some s
      | Some p \<Rightarrow>
          if nextTime (the (entries (fst s) p)) \<le> nowMonotonic
          then process_loop exec nowMonotonic (process_first exec nowMonotonic p s)
          else Some s)"

definition UA_Timer_process :: "'w exec \<Rightarrow> int \<Rightarrow> UA_Timer \<times> 'w \<Rightarrow> (int \<times> UA_Timer \<times> 'w) option" where
  "UA_Timer_process exec nowMonotonic s =
     (case process_loop exec nowMonotonic s of
        None \<Rightarrow> None
      | Some s \<Rightarrow>
          let nxt = (case aa_min (timeRoot (fst s)) of
                       None \<Rightarrow> UA_INT64_MAX
                     | Some p \<Rightarrow> nextTime (the (entries (fst s) p)))
          in Some (if nxt < nowMonotonic then nowMonotonic else nxt, s))"

text \<open>The loop of \<open>UA_Timer_clear\<close> removes one entry per round.\<close>

fun clear_loop :: "nat \<Rightarrow> UA_Timer \<Rightarrow> UA_Timer option" where
  "clear_loop fuel t =
     (case aa_min (idRoot t) of
        None \<Rightarrow> Some t
      | Some te \<Rightarrow>
          (case fuel of
             0 \<Rightarrow> None
           | Suc fuel \<Rightarrow>
               clear_loop fuel (t\<lparr>idRoot := aa_remove (cmpEntryId (entries t)) te (idRoot t),
                                  entries := (entries t)(te := None)\<rparr>)))"

definition UA_Timer_clear :: "UA_Timer \<Rightarrow> UA_Timer option" where
  "UA_Timer_clear t =
     (case clear_loop (length (aa_inorder (idRoot t))) t of
        None \<Rightarrow> None
      | Some t \<Rightarrow> Some (t\<lparr>timeRoot := AA_Null, idRoot := AA_Null\<rparr>))"

section \<open>The invariant\<close>

definition timer_entries :: "UA_Timer \<Rightarrow> ptr set" where
  "timer_entries t = set (aa_inorder (idRoot t))"

definition entry_of :: "UA_Timer \<Rightarrow> ptr \<Rightarrow> UA_TimerEntry" where
  "entry_of t p = the (entries t p)"

text \<open>
  Both trees hold the same allocated entries, each tree is sorted, and the identifiers are distinct,
  above zero and not larger than the counter.
\<close>

definition timer_ok :: "UA_Timer \<Rightarrow> bool" where
  "timer_ok t =
     (aa_sorted (cmpDateTime (entries t)) (timeRoot t) \<and> aa_sorted (cmpEntryId (entries t)) (idRoot t) \<and>
      set (aa_inorder (timeRoot t)) = timer_entries t \<and>
      (\<forall>p \<in> timer_entries t. p \<noteq> 0 \<and> entries t p \<noteq> None \<and>
         0 < entryId (entry_of t p) \<and> entryId (entry_of t p) \<le> idCounter t) \<and>
      inj_on (\<lambda>p. entryId (entry_of t p)) (timer_entries t))"

lemma before_time:
  "before (cmpDateTime h) a b =
     (nextTime (the (h a)) < nextTime (the (h b)) \<or> nextTime (the (h a)) = nextTime (the (h b)) \<and> a < b)"
  by (auto simp: before_def aa_cmp_entries_def cmpDateTime_def Let_def)

lemma before_id:
  "before (cmpEntryId h) a b =
     (entryId (the (h a)) < entryId (the (h b)) \<or> entryId (the (h a)) = entryId (the (h b)) \<and> a < b)"
  by (auto simp: before_def aa_cmp_entries_def cmpEntryId_def cmpId_def Let_def)

lemma ordered_time [simp]: "ordered_on (cmpDateTime h) A"
  unfolding ordered_on_def before_time by force

lemma ordered_id [simp]: "ordered_on (cmpEntryId h) A"
  unfolding ordered_on_def before_id by force

lemma aa_sorted_cong:
  assumes "aa_sorted cmp t" "\<And>a b. a \<in> set (aa_inorder t) \<Longrightarrow> b \<in> set (aa_inorder t) \<Longrightarrow> cmp a b = cmp' a b"
  shows "aa_sorted cmp' t"
  using assms unfolding aa_sorted_def
  by (elim sorted_wrt_mono_rel [rotated]) (simp add: before_def aa_cmp_entries_def)

text \<open>The laws of the tree, for comparisons that order all entries.\<close>

lemma tree_insert:
  assumes "aa_sorted cmp t" "ordered_on cmp UNIV" "x \<notin> set (aa_inorder t)"
  shows "aa_sorted cmp (aa_insert cmp x t)" "set (aa_inorder (aa_insert cmp x t)) = insert x (set (aa_inorder t))"
    "aa_inorder (aa_insert cmp x t) = insort_by (before cmp) x (aa_inorder t)"
proof -
  have o: "ordered_on cmp A" for A by (rule ordered_on_subset [OF assms(2)]) simp
  have k: "aa.index_ok cmp t" using assms(1) o by (simp add: aa.index_ok_def aa_sorted_def)
  show "aa_sorted cmp (aa_insert cmp x t)" "set (aa_inorder (aa_insert cmp x t)) = insert x (set (aa_inorder t))"
    using aa.ins_ok [OF k o assms(3)] by (simp_all add: aa.index_ok_def aa_sorted_def)
  show "aa_inorder (aa_insert cmp x t) = insort_by (before cmp) x (aa_inorder t)"
    using assms(1) o by (intro aa.listed_ins assms(3)) (simp_all add: aa_sorted_def)
qed

lemma tree_remove:
  assumes "aa_sorted cmp t" "ordered_on cmp UNIV" "x \<in> set (aa_inorder t)"
  shows "aa_sorted cmp (aa_remove cmp x t)" "set (aa_inorder (aa_remove cmp x t)) = set (aa_inorder t) - {x}"
    "aa_inorder (aa_remove cmp x t) = remove1 x (aa_inorder t)"
proof -
  have o: "ordered_on cmp A" for A by (rule ordered_on_subset [OF assms(2)]) simp
  have k: "aa.index_ok cmp t" using assms(1) o by (simp add: aa.index_ok_def aa_sorted_def)
  show "aa_sorted cmp (aa_remove cmp x t)" "set (aa_inorder (aa_remove cmp x t)) = set (aa_inorder t) - {x}"
    using aa.del_ok [OF k assms(3)] by (simp_all add: aa.index_ok_def aa_sorted_def)
  show "aa_inorder (aa_remove cmp x t) = remove1 x (aa_inorder t)"
    using assms(1) o by (intro aa.listed_del) (simp_all add: aa_sorted_def)
qed

lemma timer_okD:
  assumes "timer_ok t"
  shows "aa_sorted (cmpDateTime (entries t)) (timeRoot t)" "aa_sorted (cmpEntryId (entries t)) (idRoot t)"
    "set (aa_inorder (timeRoot t)) = timer_entries t"
    "p \<in> timer_entries t \<Longrightarrow> p \<noteq> 0" "p \<in> timer_entries t \<Longrightarrow> entries t p = Some (entry_of t p)"
    "p \<in> timer_entries t \<Longrightarrow> 0 < entryId (entry_of t p)"
    "p \<in> timer_entries t \<Longrightarrow> entryId (entry_of t p) \<le> idCounter t"
    "inj_on (\<lambda>p. entryId (entry_of t p)) (timer_entries t)"
  using assms by (auto simp: timer_ok_def entry_of_def)

lemma link_entry_ok:
  assumes t: "timer_ok t" and te: "te \<noteq> 0" "te \<notin> timer_entries t"
    and e: "entryId e = c" "c = idCounter t + 1" "c \<noteq> 0"
  shows "timer_ok (link_entry (t\<lparr>idCounter := c\<rparr>) te e)"
    and "timer_entries (link_entry (t\<lparr>idCounter := c\<rparr>) te e) = insert te (timer_entries t)"
proof -
  define h where "h = (entries t)(te \<mapsto> e)"
  have less: "idCounter t < c" using inc_less_eq_triv_imp [of "idCounter t"] e by fastforce
  have same: "p \<in> timer_entries t \<Longrightarrow> the (h p) = entry_of t p \<and> h p = entries t p" for p
    using te by (auto simp: h_def entry_of_def)
  have s1: "aa_sorted (cmpDateTime h) (timeRoot t)"
    by (rule aa_sorted_cong [OF timer_okD(1) [OF t]])
      (simp add: cmpDateTime_def timer_okD(3) [OF t] same entry_of_def [symmetric])
  have s2: "aa_sorted (cmpEntryId h) (idRoot t)"
    by (rule aa_sorted_cong [OF timer_okD(2) [OF t]])
      (simp add: cmpEntryId_def timer_entries_def [symmetric] same entry_of_def [symmetric])
  have n: "te \<notin> set (aa_inorder (timeRoot t))" "te \<notin> set (aa_inorder (idRoot t))"
    using te timer_okD(3) [OF t] by (simp_all add: timer_entries_def)
  note i = tree_insert [OF s1 ordered_time n(1)] tree_insert [OF s2 ordered_id n(2)]
  let ?t = "link_entry (t\<lparr>idCounter := c\<rparr>) te e"
  have l: "entries ?t = h" "timeRoot ?t = aa_insert (cmpDateTime h) te (timeRoot t)"
      "idRoot ?t = aa_insert (cmpEntryId h) te (idRoot t)" "idCounter ?t = c"
    by (simp_all add: link_entry_def h_def Let_def)
  show set: "timer_entries ?t = insert te (timer_entries t)"
    using i(5) by (simp add: timer_entries_def l)
  have ent: "entry_of ?t p = (if p = te then e else entry_of t p)" for p
    by (simp add: entry_of_def l h_def)
  have ids: "p \<in> timer_entries t \<Longrightarrow> entryId (entry_of t p) < c" for p
    using timer_okD(7) [OF t, of p] less by simp
  have inj: "inj_on (\<lambda>p. entryId (entry_of ?t p)) (insert te (timer_entries t))"
  proof -
    have "inj_on (\<lambda>p. entryId (entry_of ?t p)) (timer_entries t)"
      using timer_okD(8) [OF t] te(2) by (simp add: inj_on_def ent)
    moreover have "c \<noteq> entryId (entry_of ?t p)" if "p \<in> timer_entries t" for p
      using ids [OF that] te(2) that by (auto simp: ent)
    ultimately show ?thesis using te(2) e(1) by (auto simp: ent [of te])
  qed
  have "p \<noteq> 0 \<and> entries ?t p \<noteq> None \<and> 0 < entryId (entry_of ?t p) \<and> entryId (entry_of ?t p) \<le> idCounter ?t"
    if "p \<in> timer_entries ?t" for p
    using that te e timer_okD(4-7) [OF t, of p] ids [of p] unfolding set ent l(1,4)
    by (auto simp: h_def word_neq_0_conv)
  then show "timer_ok ?t"
    using i inj set timer_okD(3) [OF t] unfolding timer_ok_def by (simp add: l)
qed

lemma find_id:
  assumes "timer_ok t"
  shows "aa_find (cmpIdKey (entries t) k) (idRoot t) = Some p \<Longrightarrow> p \<in> timer_entries t \<and> entryId (entry_of t p) = k"
    and "aa_find (cmpIdKey (entries t) k) (idRoot t) = None \<Longrightarrow> q \<in> timer_entries t \<Longrightarrow> entryId (entry_of t q) \<noteq> k"
proof -
  show "aa_find (cmpIdKey (entries t) k) (idRoot t) = Some p \<Longrightarrow> p \<in> timer_entries t \<and> entryId (entry_of t p) = k"
    using aa_find_Some [of "cmpIdKey (entries t) k" "idRoot t" p]
    by (auto simp: timer_entries_def cmpIdKey_def cmpId_def entry_of_def split: if_splits)
  have f: "key_fits (cmpEntryId (entries t)) (cmpIdKey (entries t) k) (set (aa_inorder (idRoot t)))"
    by (auto simp: key_fits_def before_id cmpIdKey_def cmpId_def split: if_splits)
  show "aa_find (cmpIdKey (entries t) k) (idRoot t) = None \<Longrightarrow> q \<in> timer_entries t \<Longrightarrow> entryId (entry_of t q) \<noteq> k"
    using aa_find_None [OF timer_okD(2) [OF assms] f, of q]
    by (auto simp: timer_entries_def cmpIdKey_def cmpId_def entry_of_def)
qed

text \<open>An entry gets new content while it is out of the time tree.\<close>

lemma retime_ok:
  assumes t: "timer_ok t" and p: "p \<in> timer_entries t" and e: "entryId e = entryId (entry_of t p)"
    and h: "h = (entries t)(p \<mapsto> e)"
    and t': "t' = t\<lparr>entries := h, timeRoot := aa_insert (cmpDateTime h) p (aa_remove (cmpDateTime (entries t)) p (timeRoot t))\<rparr>"
  shows "timer_ok t'" and "timer_entries t' = timer_entries t"
    and "aa_inorder (timeRoot t') = insort_by (before (cmpDateTime h)) p (remove1 p (aa_inorder (timeRoot t)))"
proof -
  have pt: "p \<in> set (aa_inorder (timeRoot t))" using p timer_okD(3) [OF t] by simp
  note r = tree_remove [OF timer_okD(1) [OF t] ordered_time pt]
  define u where "u = aa_remove (cmpDateTime (entries t)) p (timeRoot t)"
  have s: "aa_sorted (cmpDateTime h) u" unfolding u_def
    by (rule aa_sorted_cong [OF r(1)]) (simp add: r(2) h cmpDateTime_def)
  have n: "p \<notin> set (aa_inorder u)" using r(2) by (simp add: u_def)
  note i = tree_insert [OF s ordered_time n]
  have s2: "aa_sorted (cmpEntryId h) (idRoot t)"
    by (rule aa_sorted_cong [OF timer_okD(2) [OF t]]) (auto simp: cmpEntryId_def h e entry_of_def)
  show te: "timer_entries t' = timer_entries t" by (simp add: t' timer_entries_def)
  have ids: "entryId (entry_of t' q) = entryId (entry_of t q)" for q
    using e by (simp add: entry_of_def t' h)
  have live: "q \<in> timer_entries t \<Longrightarrow> entries t' q \<noteq> None" for q
    using timer_okD(5) [OF t, of q] by (simp add: t' h)
  show "timer_ok t'"
    using timer_okD [OF t] i(1,2) s2 r(2) live p
    unfolding timer_ok_def te ids by (auto simp: t' u_def [symmetric])
  show "aa_inorder (timeRoot t') = insort_by (before (cmpDateTime h)) p (remove1 p (aa_inorder (timeRoot t)))"
    using i(3) r(3) by (simp add: t' u_def)
qed

text \<open>An entry is unlinked from both trees and released, or about to be released.\<close>

lemma unlink_ok:
  assumes t: "timer_ok t" and p: "p \<in> timer_entries t"
    and h: "\<And>q. q \<noteq> p \<Longrightarrow> h q = entries t q"
    and t': "t' = t\<lparr>timeRoot := aa_remove (cmpDateTime (entries t)) p (timeRoot t),
                  idRoot := aa_remove (cmpEntryId (entries t)) p (idRoot t), entries := h\<rparr>"
  shows "timer_ok t'" and "timer_entries t' = timer_entries t - {p}"
    and "aa_inorder (timeRoot t') = remove1 p (aa_inorder (timeRoot t))"
proof -
  have pt: "p \<in> set (aa_inorder (timeRoot t))" "p \<in> set (aa_inorder (idRoot t))"
    using p timer_okD(3) [OF t] by (simp_all add: timer_entries_def)
  note r1 = tree_remove [OF timer_okD(1) [OF t] ordered_time pt(1)]
  note r2 = tree_remove [OF timer_okD(2) [OF t] ordered_id pt(2)]
  show te: "timer_entries t' = timer_entries t - {p}" using r2(2) by (simp add: t' timer_entries_def)
  show "aa_inorder (timeRoot t') = remove1 p (aa_inorder (timeRoot t))" using r1(3) by (simp add: t')
  have ent: "q \<noteq> p \<Longrightarrow> entry_of t' q = entry_of t q" for q by (simp add: entry_of_def t' h)
  have s1: "aa_sorted (cmpDateTime h) (timeRoot t')"
    unfolding t' by simp (rule aa_sorted_cong [OF r1(1)], auto simp: r1(2) h cmpDateTime_def)
  have s2: "aa_sorted (cmpEntryId h) (idRoot t')"
    unfolding t' by simp (rule aa_sorted_cong [OF r2(1)], auto simp: r2(2) h cmpEntryId_def)
  have inj: "inj_on (\<lambda>q. entryId (entry_of t' q)) (timer_entries t - {p})"
    using timer_okD(8) [OF t] by (auto simp: inj_on_def ent)
  have "q \<noteq> 0 \<and> entries t' q \<noteq> None \<and> 0 < entryId (entry_of t' q) \<and> entryId (entry_of t' q) \<le> idCounter t'"
    if "q \<in> timer_entries t - {p}" for q
    using that timer_okD(4-7) [OF t, of q] ent [of q] by (simp add: t' h)
  then show "timer_ok t'"
    using s1 s2 inj r1(2) timer_okD(3) [OF t] unfolding timer_ok_def te by (auto simp: t')
qed

lemma init_ok: "timer_ok (UA_Timer_init heap)"
  by (simp add: timer_ok_def UA_Timer_init_def timer_entries_def aa_sorted_def)

section \<open>The operations of the interface\<close>

text \<open>
  What the rest of the program may do to a timer, with the conditions under which the calls are
  meaningful: \<^verbatim>\<open>UA_malloc\<close> fails or returns memory that is not in use, a pre-allocated entry is not in
  use by the timer, and the 64-bit counter of identifiers does not overflow.
\<close>

inductive timer_api :: "UA_Timer \<Rightarrow> UA_Timer \<Rightarrow> bool" where
  addTimerEntry: "te \<noteq> 0 \<Longrightarrow> entries t te = None \<Longrightarrow> idCounter t + 1 \<noteq> 0 \<Longrightarrow>
    timer_api t (fst (UA_Timer_addTimerEntry t te e))"
| addTimedCallback: "te = 0 \<or> entries t te = None \<Longrightarrow> idCounter t + 1 \<noteq> 0 \<Longrightarrow>
    timer_api t (fst (snd (UA_Timer_addTimedCallback te t cb app dat date)))"
| addRepeatedCallback: "te = 0 \<or> entries t te = None \<Longrightarrow> idCounter t + 1 \<noteq> 0 \<Longrightarrow>
    timer_api t (fst (snd (UA_Timer_addRepeatedCallback te now rnd t cb app dat ms base policy)))"
| changeRepeatedCallback: "timer_api t (snd (UA_Timer_changeRepeatedCallback now rnd t cid ms base policy))"
| removeCallback: "timer_api t (UA_Timer_removeCallback t cid)"

text \<open>
  Every call keeps the invariant and leaves allocated memory alone that is not linked.
\<close>

definition keeps_unlinked :: "UA_Timer \<Rightarrow> UA_Timer \<Rightarrow> bool" where
  "keeps_unlinked t t' =
     (\<forall>p. entries t p \<noteq> None \<and> p \<notin> timer_entries t \<longrightarrow> entries t' p = entries t p \<and> p \<notin> timer_entries t')"

lemma link_entry_step:
  assumes "timer_ok t" "te \<noteq> 0" "entries t te = None" "idCounter t + 1 \<noteq> 0" "entryId e = idCounter t + 1"
  shows "timer_ok (link_entry (t\<lparr>idCounter := idCounter t + 1\<rparr>) te e) \<and>
    keeps_unlinked t (link_entry (t\<lparr>idCounter := idCounter t + 1\<rparr>) te e)"
proof -
  have n: "te \<notin> timer_entries t" using timer_okD(5) [OF assms(1), of te] assms(3) by auto
  note l = link_entry_ok [OF assms(1,2) n assms(5) refl assms(4)]
  show ?thesis using l assms(3) unfolding keeps_unlinked_def
    by (auto simp: link_entry_def Let_def)
qed

lemma addCallback_step:
  assumes "timer_ok t" "te = 0 \<or> entries t te = None" "idCounter t + 1 \<noteq> 0"
  shows "timer_ok (fst (snd (addCallback te t cb app dat nxt itv policy))) \<and>
    keeps_unlinked t (fst (snd (addCallback te t cb app dat nxt itv policy)))"
proof (cases "cb = 0 \<or> te = 0")
  case True
  then show ?thesis using assms by (auto simp: addCallback_def keeps_unlinked_def)
next
  case False
  then have "te \<noteq> 0" "entries t te = None" using assms(2) by auto
  then show ?thesis
    using link_entry_step [OF assms(1) _ _ assms(3), of te "\<lparr>timerPolicy = policy, nextTime = nxt, interval = itv,
        callback = cb, application = app, cbData = dat, entryId = idCounter t + 1\<rparr>"] False
    by (simp add: addCallback_def Let_def)
qed

lemma timer_api_ok: "timer_api t t' \<Longrightarrow> timer_ok t \<Longrightarrow> timer_ok t' \<and> keeps_unlinked t t'"
proof (induction rule: timer_api.induct)
  case (addTimerEntry te t e)
  then show ?case
    using link_entry_step [of t te "e\<lparr>entryId := idCounter t + 1\<rparr>"]
    by (simp add: UA_Timer_addTimerEntry_def Let_def)
next
  case (addTimedCallback te t cb app dat date)
  then show ?case by (simp add: UA_Timer_addTimedCallback_def addCallback_step)
next
  case (addRepeatedCallback te t now rnd cb app dat ms base policy)
  then show ?case
    by (simp add: UA_Timer_addRepeatedCallback_def Let_def addCallback_step) (simp add: keeps_unlinked_def)
next
  case (changeRepeatedCallback t now rnd cid ms base policy)
  show ?case
  proof (cases "ms \<le> 0 \<or> interval_ticks rnd ms = 0 \<or> aa_find (cmpIdKey (entries t) cid) (idRoot t) = None")
    case True
    then show ?thesis using changeRepeatedCallback
      by (auto simp: UA_Timer_changeRepeatedCallback_def Let_def keeps_unlinked_def)
  next
    case False
    then obtain p where p: "aa_find (cmpIdKey (entries t) cid) (idRoot t) = Some p" by auto
    define e where "e = (entry_of t p)\<lparr>nextTime := first_time now base (interval_ticks rnd ms),
        interval := interval_ticks rnd ms, timerPolicy := policy\<rparr>"
    define t' where "t' = snd (UA_Timer_changeRepeatedCallback now rnd t cid ms base policy)"
    have t': "t' = t\<lparr>entries := (entries t)(p \<mapsto> e),
        timeRoot := aa_insert (cmpDateTime ((entries t)(p \<mapsto> e))) p (aa_remove (cmpDateTime (entries t)) p (timeRoot t))\<rparr>"
      using False p by (simp add: t'_def UA_Timer_changeRepeatedCallback_def Let_def e_def entry_of_def)
    have pt: "p \<in> timer_entries t" using find_id(1) [OF changeRepeatedCallback p] by simp
    have "entryId e = entryId (entry_of t p)" by (simp add: e_def)
    note r = retime_ok [OF changeRepeatedCallback pt this refl t']
    then show ?thesis using pt unfolding keeps_unlinked_def t'_def [symmetric] by (auto simp: t')
  qed
next
  case (removeCallback t cid)
  show ?case
  proof (cases "aa_find (cmpIdKey (entries t) cid) (idRoot t)")
    case None
    then show ?thesis using removeCallback by (simp add: UA_Timer_removeCallback_def keeps_unlinked_def)
  next
    case (Some p)
    define t' where "t' = UA_Timer_removeCallback t cid"
    have t': "t' = t\<lparr>timeRoot := aa_remove (cmpDateTime (entries t)) p (timeRoot t),
        idRoot := aa_remove (cmpEntryId (entries t)) p (idRoot t), entries := (entries t)(p := None)\<rparr>"
      using Some by (simp add: t'_def UA_Timer_removeCallback_def)
    have pt: "p \<in> timer_entries t" using find_id(1) [OF removeCallback Some] by simp
    note u = unlink_ok [OF removeCallback pt _ t']
    then show ?thesis using pt unfolding keeps_unlinked_def t'_def [symmetric] by (auto simp: t')
  qed
qed

end
