(* ===== verification/Timer_Process.thy ===== *)
theory Timer_Process
  imports Timer
begin

text \<open>
  What a run of \<^verbatim>\<open>UA_Timer_process\<close> does: the arithmetic of the next execution, the invariant of the
  timer under callbacks that use the timer themselves, and the complete effect of a run whose callbacks
  leave the timer alone.
\<close>

section \<open>The next execution\<close>

lemma smod_fixed_up: "0 < (itv::int) \<Longrightarrow> (if d smod itv < 0 then d smod itv + itv else d smod itv) = d mod itv"
proof -
  assume i: "0 < itv"
  have m: "0 \<le> d mod itv" "d mod itv < itv" using i by simp_all
  have e: "d smod itv = d mod itv - itv * of_bool (sgn d \<noteq> sgn itv \<and> \<not> itv dvd d)"
    by (rule signed_modulo_int_eq_modulo_int)
  show ?thesis
  proof (cases "sgn d \<noteq> sgn itv \<and> \<not> itv dvd d")
    case True
    then show ?thesis using e m by simp
  next
    case False
    then have "d smod itv = d mod itv" using e by simp
    then show ?thesis using m by simp
  qed
qed

text \<open>No sum of \<^verbatim>\<open>calculateNextTime\<close> leaves the 64 bits.\<close>

definition sums_fit :: "int \<Rightarrow> int \<Rightarrow> int \<Rightarrow> bool" where
  "sums_fit now b itv = (fits64 now \<and> fits64 itv \<and> fits64 (now - b) \<and> fits64 (now + itv))"

lemma calculateNextTime_mod:
  assumes i: "0 < itv" and f: "sums_fit now b itv"
  shows "calculateNextTime now b itv = now + itv - (now - b) mod itv"
proof -
  have m: "0 \<le> (now - b) mod itv" "(now - b) mod itv < itv" using i by simp_all
  let ?c = "(now - b) smod itv"
  have fix_up: "(if ?c < 0 then int64 (?c + itv) else ?c) = (now - b) mod itv"
  proof (cases "?c < 0")
    case True
    then have "?c + itv = (now - b) mod itv" using smod_fixed_up [OF i, of "now - b"] by simp
    moreover have "fits64 ((now - b) mod itv)" using m f by (auto simp: sums_fit_def fits64_def)
    ultimately show ?thesis using True by (simp add: int64_id)
  qed (use smod_fixed_up [OF i, of "now - b"] in simp)
  have "fits64 (now + itv - (now - b) mod itv)" using m f by (auto simp: sums_fit_def fits64_def)
  moreover have "int64 (now - b) = now - b" "int64 (now + itv) = now + itv" using f by (simp_all add: int64_id sums_fit_def)
  ultimately show ?thesis unfolding calculateNextTime_def Let_def by (simp only: fix_up int64_id)
qed

lemma calculateNextTime_bounds:
  assumes "0 < itv" "sums_fit now b itv"
  shows "now < calculateNextTime now b itv" "calculateNextTime now b itv \<le> now + itv"
proof -
  have "0 \<le> (now - b) mod itv" "(now - b) mod itv < itv" using assms by simp_all
  then show "now < calculateNextTime now b itv" "calculateNextTime now b itv \<le> now + itv"
    by (simp_all add: calculateNextTime_mod [OF assms])
qed

lemma calculateNextTime_grid:
  assumes "0 < itv" "sums_fit now b itv"
  shows "(calculateNextTime now b itv - b) mod itv = 0"
proof -
  have "calculateNextTime now b itv - b = itv * ((now - b) div itv) + itv"
    using calculateNextTime_mod [OF assms] mult_div_mod_eq [of itv "now - b"] by linarith
  then show ?thesis by simp
qed

text \<open>
  The time that \<^verbatim>\<open>calculateNextTime\<close> returns is the next point of the grid \<open>baseTime + k * interval\<close>:
  it is congruent to the base time, later than the current time and at most one interval later, also
  when the base time is in the future and the remainder of the C division is negative, provided that
  no sum overflows.
\<close>

theorem calculateNextTime_in_next_interval:
  assumes "0 < itv" "sums_fit currentTime baseTime itv"
  shows "currentTime < calculateNextTime currentTime baseTime itv \<and>
    calculateNextTime currentTime baseTime itv \<le> currentTime + itv \<and>
    (calculateNextTime currentTime baseTime itv - baseTime) mod itv = 0"
  using calculateNextTime_bounds [OF assms] calculateNextTime_grid [OF assms] by blast

lemma calculateNextTime_in_next_interval_witness:
  "calculateNextTime 107 130 10 = 110 \<and> (calculateNextTime 107 130 10 - 130) mod 10 = 0"
  using calculateNextTime_in_next_interval [of 10 107 130]
  by (simp add: calculateNextTime_mod sums_fit_def fits64_def)

text \<open>The time of an entry fits, and when the entry is due, so do the sums that a run computes for it.\<close>

definition times_fit :: "int \<Rightarrow> UA_TimerEntry \<Rightarrow> bool" where
  "times_fit now e =
     (fits64 now \<and> fits64 (nextTime e) \<and>
      (nextTime e \<le> now \<longrightarrow> interval e \<noteq> 0 \<longrightarrow> fits64 (now + sint (interval e)) \<and> fits64 (now - nextTime e)))"

lemma next_execution_cases:
  assumes i: "0 < sint (interval e)" and f: "times_fit now e" and due: "nextTime e \<le> now"
  shows "nextTime e + sint (interval e) < now \<Longrightarrow> now < next_execution now e \<and> next_execution now e \<le> now + sint (interval e)"
    and "\<not> nextTime e + sint (interval e) < now \<Longrightarrow> next_execution now e = nextTime e + sint (interval e)"
proof -
  let ?i = "sint (interval e)"
  have nz: "interval e \<noteq> 0" using i by auto
  have nt: "fits64 (nextTime e + ?i)" "int64 (nextTime e + ?i) = nextTime e + ?i"
    using f due i nz by (auto simp: times_fit_def fits64_def int64_id)
  have now: "int64 (now + ?i) = now + ?i" using f due nz by (simp add: times_fit_def int64_id)
  have "sums_fit now (nextTime e + ?i) ?i" if "nextTime e + ?i < now"
    using f due nz i that by (auto simp: times_fit_def sums_fit_def fits64_def)
  from calculateNextTime_bounds [OF i this]
  show "nextTime e + ?i < now \<Longrightarrow> now < next_execution now e \<and> next_execution now e \<le> now + ?i"
    using i by (simp add: next_execution_def Let_def nt now)
  show "\<not> nextTime e + ?i < now \<Longrightarrow> next_execution now e = nextTime e + ?i"
    by (simp add: next_execution_def Let_def nt)
qed

section \<open>Steps keep the invariant\<close>

definition uses_api :: "'w exec \<Rightarrow> bool" where
  "uses_api exec = (\<forall>cb app dat s. timer_api\<^sup>*\<^sup>* (fst s) (fst (exec cb app dat s)))"

lemma api_steps_ok: "timer_api\<^sup>*\<^sup>* t t' \<Longrightarrow> timer_ok t \<Longrightarrow> timer_ok t' \<and> keeps_unlinked t t'"
proof (induction rule: rtranclp_induct)
  case base
  then show ?case by (simp add: keeps_unlinked_def)
next
  case (step u v)
  then show ?case using timer_api_ok [OF step.hyps(2)] by (fastforce simp: keeps_unlinked_def)
qed

lemma run_callback_ok:
  assumes "uses_api exec" "timer_ok (fst s)"
  shows "timer_ok (fst (run_callback exec e s)) \<and> keeps_unlinked (fst s) (fst (run_callback exec e s))"
proof (cases "callback e = 0")
  case True
  then show ?thesis using assms(2) by (simp add: run_callback_def keeps_unlinked_def)
next
  case False
  have "timer_api\<^sup>*\<^sup>* (fst s) (fst (exec (callback e) (application e) (cbData e) s))"
    using assms(1) unfolding uses_api_def by blast
  from api_steps_ok [OF this assms(2)] show ?thesis using False by (simp add: run_callback_def)
qed

text \<open>The timer after the first entry has been unlinked or put to its new time.\<close>

definition taken :: "int \<Rightarrow> ptr \<Rightarrow> UA_Timer \<Rightarrow> UA_Timer" where
  "taken now p t =
     (if interval (entry_of t p) = 0
      then t\<lparr>timeRoot := aa_remove (cmpDateTime (entries t)) p (timeRoot t),
             idRoot := aa_remove (cmpEntryId (entries t)) p (idRoot t)\<rparr>
      else let h = (entries t)(p \<mapsto> (entry_of t p)\<lparr>nextTime := next_execution now (entry_of t p)\<rparr>)
           in t\<lparr>entries := h, timeRoot := aa_insert (cmpDateTime h) p (aa_remove (cmpDateTime (entries t)) p (timeRoot t))\<rparr>)"

lemma process_first_taken:
  "process_first exec now p (t, w) =
     (let s = run_callback exec (entry_of t p) (taken now p t, w)
      in if interval (entry_of t p) = 0 then ((fst s)\<lparr>entries := (entries (fst s))(p := None)\<rparr>, snd s) else s)"
  by (simp add: process_first_def taken_def Let_def entry_of_def split: prod.split)

lemma taken_ok:
  assumes t: "timer_ok t" and p: "p \<in> timer_entries t"
  shows "timer_ok (taken now p t)"
    and "timer_entries (taken now p t) = (if interval (entry_of t p) = 0 then timer_entries t - {p} else timer_entries t)"
    and "aa_inorder (timeRoot (taken now p t)) =
      (if interval (entry_of t p) = 0 then remove1 p (aa_inorder (timeRoot t))
       else insort_by (before (cmpDateTime (entries (taken now p t)))) p (remove1 p (aa_inorder (timeRoot t))))"
    and "entries (taken now p t) =
      (if interval (entry_of t p) = 0 then entries t
       else (entries t)(p \<mapsto> (entry_of t p)\<lparr>nextTime := next_execution now (entry_of t p)\<rparr>))"
proof -
  show ent: "entries (taken now p t) =
      (if interval (entry_of t p) = 0 then entries t
       else (entries t)(p \<mapsto> (entry_of t p)\<lparr>nextTime := next_execution now (entry_of t p)\<rparr>))"
    by (simp add: taken_def Let_def)
  have "timer_ok (taken now p t) \<and>
      timer_entries (taken now p t) = (if interval (entry_of t p) = 0 then timer_entries t - {p} else timer_entries t) \<and>
      aa_inorder (timeRoot (taken now p t)) =
      (if interval (entry_of t p) = 0 then remove1 p (aa_inorder (timeRoot t))
       else insort_by (before (cmpDateTime (entries (taken now p t)))) p (remove1 p (aa_inorder (timeRoot t))))"
  proof (cases "interval (entry_of t p) = 0")
    case True
    then have e: "taken now p t = t\<lparr>timeRoot := aa_remove (cmpDateTime (entries t)) p (timeRoot t),
        idRoot := aa_remove (cmpEntryId (entries t)) p (idRoot t), entries := entries t\<rparr>"
      by (simp add: taken_def)
    show ?thesis using unlink_ok [OF t p refl e] True by simp
  next
    case False
    let ?e = "(entry_of t p)\<lparr>nextTime := next_execution now (entry_of t p)\<rparr>"
    have e: "taken now p t = t\<lparr>entries := (entries t)(p \<mapsto> ?e), timeRoot := aa_insert
        (cmpDateTime ((entries t)(p \<mapsto> ?e))) p (aa_remove (cmpDateTime (entries t)) p (timeRoot t))\<rparr>"
      using False by (simp add: taken_def Let_def)
    have "entryId ?e = entryId (entry_of t p)" by simp
    note r = retime_ok [OF t p this refl e]
    show ?thesis using r False ent by simp
  qed
  then show "timer_ok (taken now p t)"
    and "timer_entries (taken now p t) = (if interval (entry_of t p) = 0 then timer_entries t - {p} else timer_entries t)"
    and "aa_inorder (timeRoot (taken now p t)) =
      (if interval (entry_of t p) = 0 then remove1 p (aa_inorder (timeRoot t))
       else insort_by (before (cmpDateTime (entries (taken now p t)))) p (remove1 p (aa_inorder (timeRoot t))))"
    by blast+
qed

lemma free_ok:
  assumes "timer_ok t" "p \<notin> timer_entries t"
  shows "timer_ok (t\<lparr>entries := (entries t)(p := None)\<rparr>)"
proof -
  have ne: "q \<in> timer_entries t \<Longrightarrow> q \<noteq> p" for q using assms(2) by auto
  have s: "aa_sorted (cmpDateTime ((entries t)(p := None))) (timeRoot t)"
    "aa_sorted (cmpEntryId ((entries t)(p := None))) (idRoot t)"
    by (rule aa_sorted_cong [OF timer_okD(1) [OF assms(1)]];
        use ne timer_okD(3) [OF assms(1)] in \<open>auto simp: cmpDateTime_def\<close>)
      (rule aa_sorted_cong [OF timer_okD(2) [OF assms(1)]];
        use ne in \<open>auto simp: cmpEntryId_def timer_entries_def\<close>)
  have te: "timer_entries (t\<lparr>entries := (entries t)(p := None)\<rparr>) = timer_entries t" by (simp add: timer_entries_def)
  have en: "q \<in> timer_entries t \<Longrightarrow> entry_of (t\<lparr>entries := (entries t)(p := None)\<rparr>) q = entry_of t q" for q
    using ne [of q] by (simp add: entry_of_def)
  have i: "inj_on (\<lambda>q. entryId (entry_of (t\<lparr>entries := (entries t)(p := None)\<rparr>) q)) (timer_entries t)"
    using timer_okD(8) [OF assms(1)] by (simp add: inj_on_def en)
  show ?thesis
    using s i timer_okD(3-7) [OF assms(1)] ne unfolding timer_ok_def te by (auto simp: en)
qed

lemma process_first_ok:
  assumes "uses_api exec" "timer_ok (fst s)" "p \<in> timer_entries (fst s)"
  shows "timer_ok (fst (process_first exec now p s))"
proof -
  obtain t w where s: "s = (t, w)" by (cases s)
  have t: "timer_ok t" "p \<in> timer_entries t" using assms s by simp_all
  note k = taken_ok [OF t, of now]
  note r = run_callback_ok [OF assms(1), of "(taken now p t, w)" "entry_of t p", simplified, OF k(1)]
  show ?thesis
  proof (cases "interval (entry_of t p) = 0")
    case True
    then have "entries (taken now p t) p \<noteq> None \<and> p \<notin> timer_entries (taken now p t)"
      using k(2,4) timer_okD(5) [OF t] by simp
    then have "p \<notin> timer_entries (fst (run_callback exec (entry_of t p) (taken now p t, w)))"
      using r by (auto simp: keeps_unlinked_def)
    then show ?thesis using r True by (simp add: s process_first_taken Let_def free_ok)
  next
    case False
    then show ?thesis using r by (simp add: s process_first_taken Let_def)
  qed
qed

lemma aa_min_entry: "timer_ok t \<Longrightarrow> aa_min (timeRoot t) = Some p \<Longrightarrow>
    p \<in> timer_entries t \<and> (\<forall>q \<in> timer_entries t. nextTime (entry_of t p) \<le> nextTime (entry_of t q))"
  and aa_min_none: "timer_ok t \<Longrightarrow> aa_min (timeRoot t) = None \<longleftrightarrow> timer_entries t = {}"
proof -
  assume t: "timer_ok t"
  have k: "aa.index_ok (cmpDateTime (entries t)) (timeRoot t)"
    using timer_okD(1) [OF t] by (simp add: aa.index_ok_def aa_sorted_def)
  show "aa_min (timeRoot t) = None \<longleftrightarrow> timer_entries t = {}"
    using aa.least_ok(2) [OF k] timer_okD(3) [OF t] by (metis set_empty)
  show "aa_min (timeRoot t) = Some p \<Longrightarrow>
      p \<in> timer_entries t \<and> (\<forall>q \<in> timer_entries t. nextTime (entry_of t p) \<le> nextTime (entry_of t q))"
    using aa.least_ok(1) [OF k, of p] timer_okD(3) [OF t] by (auto simp: before_time entry_of_def)
qed

lemma process_loop_ok:
  assumes "process_loop exec now s = Some s'" "uses_api exec" "timer_ok (fst s)"
  shows "timer_ok (fst s') \<and> (\<forall>p \<in> timer_entries (fst s'). now < nextTime (entry_of (fst s') p))"
proof -
  have "exec = exec \<longrightarrow> now = now \<longrightarrow> timer_ok (fst s) \<longrightarrow>
      timer_ok (fst s') \<and> (\<forall>p \<in> timer_entries (fst s'). now < nextTime (entry_of (fst s') p))"
  proof (rule process_loop.raw_induct [OF _ assms(1), where P = "\<lambda>exec' now' s s'. exec' = exec \<longrightarrow> now' = now \<longrightarrow>
      timer_ok (fst s) \<longrightarrow> timer_ok (fst s') \<and> (\<forall>p \<in> timer_entries (fst s'). now < nextTime (entry_of (fst s') p))"],
      intro impI)
    fix rec exec' now' s s'
    assume IH: "\<And>e n s s'. rec e n s = Some s' \<Longrightarrow> e = exec \<longrightarrow> n = now \<longrightarrow> timer_ok (fst s) \<longrightarrow>
        timer_ok (fst s') \<and> (\<forall>p \<in> timer_entries (fst s'). now < nextTime (entry_of (fst s') p))"
      and res: "(case aa_min (timeRoot (fst s)) of None \<Rightarrow> Some s
        | Some p \<Rightarrow> if nextTime (the (entries (fst s) p)) \<le> now'
            then rec exec' now' (process_first exec' now' p s) else Some s) = Some s'"
    assume e: "exec' = exec" "now' = now" and t: "timer_ok (fst s)"
    show "timer_ok (fst s') \<and> (\<forall>p \<in> timer_entries (fst s'). now < nextTime (entry_of (fst s') p))"
    proof (cases "aa_min (timeRoot (fst s))")
      case None
      then show ?thesis using res t aa_min_none [OF t] by simp
    next
      case (Some p)
      note m = aa_min_entry [OF t Some]
      show ?thesis
      proof (cases "nextTime (entry_of (fst s) p) \<le> now")
        case True
        then have "rec exec now (process_first exec now p s) = Some s'"
          using res Some e by (simp add: entry_of_def)
        then show ?thesis using IH process_first_ok [OF assms(2) t, of p now] m by blast
      next
        case False
        then show ?thesis using res Some t m e by (fastforce simp: entry_of_def)
      qed
    qed
  qed
  then show ?thesis using assms(3) by blast
qed

section \<open>A complete run\<close>

text \<open>Callbacks that leave the timer alone: \<open>act\<close> is their effect on the rest of the program.\<close>

definition passive_exec :: "(ptr \<Rightarrow> ptr \<Rightarrow> ptr \<Rightarrow> 'w \<Rightarrow> 'w) \<Rightarrow> 'w exec" where
  "passive_exec act cb app dat s = (fst s, act cb app dat (snd s))"

definition effect :: "(ptr \<Rightarrow> ptr \<Rightarrow> ptr \<Rightarrow> 'w \<Rightarrow> 'w) \<Rightarrow> UA_TimerEntry \<Rightarrow> 'w \<Rightarrow> 'w" where
  "effect act e w = (if callback e = 0 then w else act (callback e) (application e) (cbData e) w)"

text \<open>
  The entries that a run executes. First those that are overdue, in the order of their times; then
  those whose time is exactly now, or that reach it by one interval, in the order of their addresses.
\<close>

definition overdue :: "int \<Rightarrow> UA_Timer \<Rightarrow> ptr list" where
  "overdue now t = filter (\<lambda>p. nextTime (entry_of t p) < now) (aa_inorder (timeRoot t))"

definition on_time :: "int \<Rightarrow> UA_TimerEntry \<Rightarrow> bool" where
  "on_time now e = (nextTime e = now \<or>
     nextTime e < now \<and> interval e \<noteq> 0 \<and> nextTime e + sint (interval e) = now)"

definition just_due :: "int \<Rightarrow> UA_Timer \<Rightarrow> ptr list" where
  "just_due now t = sorted_list_of_set {p \<in> timer_entries t. on_time now (entry_of t p)}"

definition after_run :: "int \<Rightarrow> UA_TimerEntry \<Rightarrow> UA_TimerEntry option" where
  "after_run now e =
     (if now < nextTime e then Some e
      else if interval e = 0 then None
      else Some (e\<lparr>nextTime := (if next_execution now e = now then now + sint (interval e)
                                else next_execution now e)\<rparr>))"

text \<open>The intervals are not negative as signed numbers, and no sum of the run leaves the 64 bits.\<close>

definition in_range :: "int \<Rightarrow> UA_Timer \<Rightarrow> bool" where
  "in_range now t = (\<forall>p \<in> timer_entries t. 0 \<le> sint (interval (entry_of t p)) \<and> times_fit now (entry_of t p))"

definition due_weight :: "int \<Rightarrow> UA_TimerEntry \<Rightarrow> nat" where
  "due_weight now e = (if now < nextTime e then 0 else if nextTime e = now then 1 else 2)"

definition due_measure :: "int \<Rightarrow> UA_Timer \<Rightarrow> nat" where
  "due_measure now t = (\<Sum>p \<in> timer_entries t. due_weight now (entry_of t p))"

lemma finite_timer [simp]: "finite (timer_entries t)" by (simp add: timer_entries_def)

lemma filter_insort_by: "\<not> P x \<Longrightarrow> filter P (insort_by lt x xs) = filter P xs"
  by (induction xs) auto

lemma sint_positive: "0 \<le> sint w \<Longrightarrow> w \<noteq> 0 \<Longrightarrow> 0 < sint (w :: u64)"
  by (metis less_le signed_0 signed_word_eqI)

text \<open>The freed timer of a step with a passive callback.\<close>

definition stepped :: "int \<Rightarrow> ptr \<Rightarrow> UA_Timer \<Rightarrow> UA_Timer" where
  "stepped now p t =
     (if interval (entry_of t p) = 0
      then (taken now p t)\<lparr>entries := (entries (taken now p t))(p := None)\<rparr> else taken now p t)"

lemma process_first_passive:
  "process_first (passive_exec act) now p (t, w) = (stepped now p t, effect act (entry_of t p) w)"
  by (simp add: process_first_taken run_callback_def passive_exec_def effect_def stepped_def Let_def)

text \<open>The first entry of the time tree, with what a step makes of it.\<close>

lemma stepped_facts:
  assumes t: "timer_ok t" and f: "aa_inorder (timeRoot t) = p # rest"
  shows "p \<in> timer_entries t" "p \<notin> set rest" "timer_ok (stepped now p t)"
    and "\<And>q. q \<noteq> p \<Longrightarrow> entries (stepped now p t) q = entries t q"
    and "\<And>q. q \<noteq> p \<Longrightarrow> entry_of (stepped now p t) q = entry_of t q"
    and "interval (entry_of t p) = 0 \<Longrightarrow> timer_entries (stepped now p t) = timer_entries t - {p} \<and>
      aa_inorder (timeRoot (stepped now p t)) = rest \<and> entries (stepped now p t) p = None"
    and "interval (entry_of t p) \<noteq> 0 \<Longrightarrow> timer_entries (stepped now p t) = timer_entries t \<and>
      (\<exists>lt. aa_inorder (timeRoot (stepped now p t)) = insort_by lt p rest) \<and>
      entries (stepped now p t) p = Some ((entry_of t p)\<lparr>nextTime := next_execution now (entry_of t p)\<rparr>)"
proof -
  show p: "p \<in> timer_entries t" using f timer_okD(3) [OF t] by auto
  show "p \<notin> set rest" using aa_sorted_distinct [OF timer_okD(1) [OF t]] f by simp
  note k = taken_ok [OF t p, of now]
  show "timer_ok (stepped now p t)"
    using k(1) free_ok [OF k(1)] k(2) by (simp add: stepped_def)
  show e: "\<And>q. q \<noteq> p \<Longrightarrow> entries (stepped now p t) q = entries t q"
    using k(4) by (simp add: stepped_def)
  then show "\<And>q. q \<noteq> p \<Longrightarrow> entry_of (stepped now p t) q = entry_of t q" by (simp add: entry_of_def)
  show "interval (entry_of t p) = 0 \<Longrightarrow> timer_entries (stepped now p t) = timer_entries t - {p} \<and>
      aa_inorder (timeRoot (stepped now p t)) = rest \<and> entries (stepped now p t) p = None"
    using k(2,3) f by (simp add: stepped_def) (simp add: timer_entries_def)
  show "interval (entry_of t p) \<noteq> 0 \<Longrightarrow> timer_entries (stepped now p t) = timer_entries t \<and>
      (\<exists>lt. aa_inorder (timeRoot (stepped now p t)) = insort_by lt p rest) \<and>
      entries (stepped now p t) p = Some ((entry_of t p)\<lparr>nextTime := next_execution now (entry_of t p)\<rparr>)"
    using k(2-4) f by (auto simp: stepped_def)
qed

text \<open>What a step makes of its entry: released, or put to a time that is not in the past.\<close>

lemma stepped_time:
  assumes "0 \<le> sint (interval e)" "interval e \<noteq> 0" "times_fit now e" "nextTime e \<le> now"
  shows "now \<le> next_execution now e" "next_execution now e = now \<longleftrightarrow> nextTime e + sint (interval e) = now"
    "nextTime e = now \<Longrightarrow> next_execution now e = now + sint (interval e) \<and> now < next_execution now e"
    "times_fit now (e\<lparr>nextTime := next_execution now e\<rparr>)"
proof -
  have i: "0 < sint (interval e)" using assms(1,2) by (rule sint_positive)
  note c = next_execution_cases [OF i assms(3,4)]
  show n: "now \<le> next_execution now e" "next_execution now e = now \<longleftrightarrow> nextTime e + sint (interval e) = now"
    using c by fastforce+
  show "nextTime e = now \<Longrightarrow> next_execution now e = now + sint (interval e) \<and> now < next_execution now e"
    using c(2) i by simp
  have "next_execution now e \<le> now + sint (interval e)"
    using c assms(4) i by (cases "nextTime e + sint (interval e) < now") auto
  then show "times_fit now (e\<lparr>nextTime := next_execution now e\<rparr>)"
    using n(1) assms(2-4) by (auto simp: times_fit_def fits64_def)
qed

lemma stepped_entry:
  assumes "timer_ok t" "aa_inorder (timeRoot t) = p # rest" "interval (entry_of t p) \<noteq> 0"
  shows "entry_of (stepped now p t) p = (entry_of t p)\<lparr>nextTime := next_execution now (entry_of t p)\<rparr>"
  using stepped_facts(7) [OF assms(1,2,3)] by (simp add: entry_of_def)

lemma in_rangeD:
  assumes "in_range now t" "p \<in> timer_entries t"
  shows "0 \<le> sint (interval (entry_of t p))" "times_fit now (entry_of t p)"
  using assms by (auto simp: in_range_def)

lemma stepped_in_range:
  assumes t: "timer_ok t" "in_range now t" and f: "aa_inorder (timeRoot t) = p # rest"
    and due: "nextTime (entry_of t p) \<le> now"
  shows "in_range now (stepped now p t)"
proof -
  note s = stepped_facts(1,2) [OF t(1) f] stepped_facts(3-7) [OF t(1) f, where now = now]
  note r = in_rangeD [OF t(2) s(1)]
  have "0 \<le> sint (interval (entry_of (stepped now p t) q)) \<and> times_fit now (entry_of (stepped now p t) q)"
    if q: "q \<in> timer_entries (stepped now p t)" for q
  proof (cases "q = p")
    case False
    then have "q \<in> timer_entries t" using q s(6,7) by (cases "interval (entry_of t p) = 0") auto
    then show ?thesis using False s(5) in_rangeD [OF t(2), of q] by simp
  next
    case True
    then have nz: "interval (entry_of t p) \<noteq> 0" using q s(6) by auto
    then show ?thesis
      using True r stepped_entry [OF t(1) f nz, of now] stepped_time(4) [OF r(1) nz r(2) due] by simp
  qed
  then show ?thesis by (simp add: in_range_def)
qed

lemma stepped_measure:
  assumes t: "timer_ok t" "in_range now t" and f: "aa_inorder (timeRoot t) = p # rest"
    and due: "nextTime (entry_of t p) \<le> now"
  shows "due_measure now (stepped now p t) < due_measure now t"
proof -
  note s = stepped_facts(1,2) [OF t(1) f] stepped_facts(3-7) [OF t(1) f, where now = now]
  have split: "due_measure now t = due_weight now (entry_of t p) +
      (\<Sum>q \<in> timer_entries t - {p}. due_weight now (entry_of t q))"
    unfolding due_measure_def by (rule sum.remove [OF finite_timer s(1)])
  have rest: "(\<Sum>q \<in> timer_entries t - {p}. due_weight now (entry_of (stepped now p t) q)) =
      (\<Sum>q \<in> timer_entries t - {p}. due_weight now (entry_of t q))"
    by (rule sum.cong) (simp_all add: s(5))
  have pos: "0 < due_weight now (entry_of t p)" using due by (simp add: due_weight_def)
  show ?thesis
  proof (cases "interval (entry_of t p) = 0")
    case True
    then show ?thesis using split rest pos s(6) by (simp add: due_measure_def)
  next
    case False
    have i: "0 \<le> sint (interval (entry_of t p))" and fit: "times_fit now (entry_of t p)"
    using in_rangeD [OF t(2) s(1)] by simp_all
    have "due_measure now (stepped now p t) = due_weight now (entry_of (stepped now p t) p) +
        (\<Sum>q \<in> timer_entries t - {p}. due_weight now (entry_of (stepped now p t) q))"
      unfolding due_measure_def using s(7) [OF False] s(1) by (simp add: sum.remove)
    moreover have "due_weight now (entry_of (stepped now p t) p) < due_weight now (entry_of t p)"
      using stepped_time [OF i False fit due] due stepped_entry [OF t(1) f False] by (auto simp: due_weight_def)
    ultimately show ?thesis using split rest by simp
  qed
qed

lemma stepped_on_time:
  assumes t: "timer_ok t" "in_range now t" and f: "aa_inorder (timeRoot t) = p # rest"
    and due: "nextTime (entry_of t p) \<le> now"
  shows "{q \<in> timer_entries (stepped now p t). on_time now (entry_of (stepped now p t) q)} =
    {q \<in> timer_entries t. on_time now (entry_of t q)} - (if nextTime (entry_of t p) = now then {p} else {})"
proof -
  note s = stepped_facts(1,2) [OF t(1) f] stepped_facts(3-7) [OF t(1) f, where now = now]
  have i: "0 \<le> sint (interval (entry_of t p))" and fit: "times_fit now (entry_of t p)"
    using in_rangeD [OF t(2) s(1)] by simp_all
  show ?thesis
  proof (cases "interval (entry_of t p) = 0")
    case True
    then have "q \<in> timer_entries (stepped now p t) \<and> on_time now (entry_of (stepped now p t) q) \<longleftrightarrow>
        q \<noteq> p \<and> q \<in> timer_entries t \<and> on_time now (entry_of t q)" for q
      using s(5) [of q] s(6) by (cases "q = p") auto
    moreover have "on_time now (entry_of t p) \<longleftrightarrow> nextTime (entry_of t p) = now"
      using True by (auto simp: on_time_def)
    ultimately show ?thesis by auto
  next
    case False
    note e = stepped_entry [OF t(1) f False, of now] stepped_time [OF i False fit due]
    have here: "on_time now (entry_of (stepped now p t) p) = (on_time now (entry_of t p) \<and> nextTime (entry_of t p) \<noteq> now)"
      using e due False by (auto simp: on_time_def)
    have "q \<in> timer_entries (stepped now p t) \<and> on_time now (entry_of (stepped now p t) q) \<longleftrightarrow>
        (q \<in> timer_entries t \<and> on_time now (entry_of t q)) \<and> \<not> (q = p \<and> nextTime (entry_of t p) = now)" for q
      using here s(1) s(5) [of q] s(7) [OF False] by (cases "q = p") simp_all
    then show ?thesis by auto
  qed
qed

text \<open>The first entry is the first that the run executes, and the rest of the run follows.\<close>

lemma stepped_run:
  assumes t: "timer_ok t" "in_range now t" and f: "aa_inorder (timeRoot t) = p # rest"
    and due: "nextTime (entry_of t p) \<le> now"
  shows "overdue now t @ just_due now t = p # overdue now (stepped now p t) @ just_due now (stepped now p t)"
proof -
  note s = stepped_facts(1,2) [OF t(1) f] stepped_facts(3-7) [OF t(1) f, where now = now]
  have i: "0 \<le> sint (interval (entry_of t p))" and fit: "times_fit now (entry_of t p)"
    using in_rangeD [OF t(2) s(1)] by simp_all
  have b: "\<forall>q \<in> set rest. before (cmpDateTime (entries t)) p q"
    using timer_okD(1) [OF t(1)] f by (simp add: aa_sorted_def)
  have te: "timer_entries t = insert p (set rest)" using timer_okD(3) [OF t(1)] f by auto
  have ov: "overdue now (stepped now p t) = filter (\<lambda>q. nextTime (entry_of t q) < now) rest"
  proof (cases "interval (entry_of t p) = 0")
    case True
    then have "overdue now (stepped now p t) = filter (\<lambda>q. nextTime (entry_of (stepped now p t) q) < now) rest"
      using s(6) by (simp add: overdue_def)
    also have "\<dots> = filter (\<lambda>q. nextTime (entry_of t q) < now) rest"
      by (rule filter_cong [OF refl]) (use s(2,5) in metis)
    finally show ?thesis .
  next
    case False
    then obtain lt where l: "aa_inorder (timeRoot (stepped now p t)) = insort_by lt p rest" using s(7) by blast
    have "\<not> nextTime (entry_of (stepped now p t) p) < now"
      using stepped_time(1) [OF i False fit due] stepped_entry [OF t(1) f False] by simp
    then have "overdue now (stepped now p t) = filter (\<lambda>q. nextTime (entry_of (stepped now p t) q) < now) rest"
      unfolding overdue_def l by (rule filter_insort_by)
    also have "\<dots> = filter (\<lambda>q. nextTime (entry_of t q) < now) rest"
      by (rule filter_cong [OF refl]) (use s(2,5) in metis)
    finally show ?thesis .
  qed
  note on = stepped_on_time [OF t f due]
  show ?thesis
  proof (cases "nextTime (entry_of t p) = now")
    case False
    then have "overdue now t = p # filter (\<lambda>q. nextTime (entry_of t q) < now) rest"
      using due f by (simp add: overdue_def)
    then show ?thesis using ov on False by (simp add: just_due_def)
  next
    case True
    have late: "\<not> nextTime (entry_of t q) < now" if "q \<in> set rest" for q
      using b that True by (auto simp: before_time entry_of_def)
    then have o: "overdue now t = []" "overdue now (stepped now p t) = []"
      using True f ov by (auto simp: overdue_def filter_empty_conv)
    let ?S = "{q \<in> timer_entries t. on_time now (entry_of t q)}"
    have pS: "p \<in> ?S" using s(1) True by (simp add: on_time_def)
    have "p \<le> q" if "q \<in> ?S" for q
    proof (cases "q = p")
      case ne: False
      then have q: "q \<in> set rest" using that te by auto
      then have "nextTime (entry_of t q) = now" using that late [OF q] by (auto simp: on_time_def)
      then show ?thesis using b q True by (auto simp: before_time entry_of_def)
    qed simp
    then have "Min ?S = p" using pS by (intro Min_eqI) auto
    then have "sorted_list_of_set ?S = p # sorted_list_of_set (?S - {p})"
      using pS sorted_list_of_set_nonempty [of ?S] by auto
    then show ?thesis using o on True by (simp add: just_due_def)
  qed
qed

lemma effect_retimed: "effect act (e\<lparr>nextTime := n\<rparr>) w = effect act e w"
  by (simp add: effect_def)

lemma stepped_effect:
  assumes "timer_ok t" "aa_inorder (timeRoot t) = p # rest" "q \<in> timer_entries (stepped now p t)"
  shows "effect act (entry_of (stepped now p t) q) = effect act (entry_of t q)"
proof (cases "q = p")
  case True
  then have "interval (entry_of t p) \<noteq> 0" using assms(3) stepped_facts(6) [OF assms(1,2), of now] by auto
  then show ?thesis
    using stepped_entry [OF assms(1,2), of now] True by (simp add: effect_retimed fun_eq_iff)
qed (use stepped_facts(5) [OF assms(1,2)] in simp)

definition entries_after :: "int \<Rightarrow> UA_Timer \<Rightarrow> ptr \<rightharpoonup> UA_TimerEntry" where
  "entries_after now t p = (if p \<in> timer_entries t then after_run now (entry_of t p) else entries t p)"

lemma stepped_after:
  assumes t: "timer_ok t" "in_range now t" and f: "aa_inorder (timeRoot t) = p # rest"
    and due: "nextTime (entry_of t p) \<le> now"
  shows "entries_after now (stepped now p t) = entries_after now t"
proof
  fix q
  note s = stepped_facts(1,2) [OF t(1) f] stepped_facts(3-7) [OF t(1) f, where now = now]
  have i: "0 \<le> sint (interval (entry_of t p))" and fit: "times_fit now (entry_of t p)"
    using in_rangeD [OF t(2) s(1)] by simp_all
  show "entries_after now (stepped now p t) q = entries_after now t q"
  proof (cases "q = p")
    case False
    then show ?thesis using s(4-7) by (cases "interval (entry_of t p) = 0") (auto simp: entries_after_def)
  next
    case qp: True
    show ?thesis
    proof (cases "interval (entry_of t p) = 0")
      case True
      then show ?thesis using qp s(1,6) due by (simp add: entries_after_def after_run_def)
    next
      case False
      note e = stepped_entry [OF t(1) f False, of now] stepped_time [OF i False fit due]
      define e' where "e' = (entry_of t p)\<lparr>nextTime := next_execution now (entry_of t p)\<rparr>"
      have i': "0 \<le> sint (interval e')" "interval e' \<noteq> 0" "times_fit now e'"
        using i False stepped_time(4) [OF i False fit due] by (simp_all add: e'_def)
      have "after_run now e' = after_run now (entry_of t p)"
      proof (cases "next_execution now (entry_of t p) = now")
        case True
        then have n: "nextTime e' = now" "nextTime e' \<le> now" by (simp_all add: e'_def)
        have "next_execution now e' = now + sint (interval e')" "now < next_execution now e'"
          using stepped_time(3) [OF i' n(2) n(1)] by simp_all
        then show ?thesis using True due False by (simp add: after_run_def e'_def)
      next
        case ne: False
        then have "now < nextTime e'" using e(2) by (simp add: e'_def)
        then show ?thesis using ne due False by (simp add: after_run_def e'_def)
      qed
      then show ?thesis using qp s(1) s(7) [OF False] e(1) by (simp add: entries_after_def e'_def)
    qed
  qed
qed

lemma process_loop_run:
  assumes "timer_ok t" "in_range now t"
  shows "\<exists>t'. process_loop (passive_exec act) now (t, w) =
      Some (t', fold (\<lambda>p. effect act (entry_of t p)) (overdue now t @ just_due now t) w) \<and>
    timer_ok t' \<and> entries t' = entries_after now t \<and> (\<forall>p \<in> timer_entries t'. now < nextTime (entry_of t' p)) \<and>
    timer_entries t' = {p \<in> timer_entries t. after_run now (entry_of t p) \<noteq> None}"
  using assms
proof (induction "due_measure now t" arbitrary: t w rule: less_induct)
  case less
  note t = less.prems
  show ?case
  proof (cases "aa_inorder (timeRoot t)")
    case Nil
    then have "timer_entries t = {}" "aa_min (timeRoot t) = None"
      using timer_okD(3) [OF t(1)] by (auto simp: aa_min_first)
    then show ?thesis using t(1) Nil
      by (simp add: process_loop.simps [of _ _ "(t, w)"] overdue_def just_due_def entries_after_def fun_eq_iff)
  next
    case (Cons p rest)
    then have m: "aa_min (timeRoot t) = Some p" by (simp add: aa_min_first)
    show ?thesis
    proof (cases "nextTime (entry_of t p) \<le> now")
      case False
      then have later: "now < nextTime (entry_of t q)" if "q \<in> timer_entries t" for q
        using aa_min_entry [OF t(1) m] that by force
      then have "overdue now t = []" "just_due now t = []"
        using timer_okD(3) [OF t(1)] by (fastforce simp: overdue_def just_due_def on_time_def filter_empty_conv)+
      moreover have "entries_after now t = entries t" "{p \<in> timer_entries t. after_run now (entry_of t p) \<noteq> None} = timer_entries t"
        using later timer_okD(5) [OF t(1)] by (auto simp: entries_after_def after_run_def fun_eq_iff)
      ultimately show ?thesis using False m t(1) later
        by (simp add: process_loop.simps [of _ _ "(t, w)"] entry_of_def)
    next
      case True
      let ?u = "stepped now p t"
      note s = stepped_facts(1,2) [OF t(1) Cons] stepped_facts(3-7) [OF t(1) Cons, where now = now]
      have step: "process_loop (passive_exec act) now (t, w) =
          process_loop (passive_exec act) now (?u, effect act (entry_of t p) w)"
        using m True process_first_passive [of act now p t w]
        by (simp add: process_loop.simps [of _ _ "(t, w)"] entry_of_def)
      have "set (overdue now ?u @ just_due now ?u) \<subseteq> timer_entries ?u"
        using timer_okD(3) [OF s(3)] by (auto simp: overdue_def just_due_def)
      then have "fold (\<lambda>q. effect act (entry_of ?u q)) (overdue now ?u @ just_due now ?u) w' =
          fold (\<lambda>q. effect act (entry_of t q)) (overdue now ?u @ just_due now ?u) w'" for w'
        using stepped_effect [OF t(1) Cons] by (intro fold_cong) auto
      moreover have "{q \<in> timer_entries ?u. after_run now (entry_of ?u q) \<noteq> None} =
          {q \<in> timer_entries t. after_run now (entry_of t q) \<noteq> None}"
      proof -
        have a: "timer_ok v \<Longrightarrow> q \<in> timer_entries v \<and> after_run now (entry_of v q) \<noteq> None \<longleftrightarrow>
            q \<in> timer_entries v \<and> entries_after now v q \<noteq> None" for v q
          by (auto simp: entries_after_def)
        have "entries_after now ?u = entries_after now t" by (rule stepped_after [OF t Cons True])
        moreover have "q \<in> timer_entries ?u \<or> q = p \<and> interval (entry_of t p) = 0 \<longleftrightarrow> q \<in> timer_entries t" for q
          using s(1,6,7) by auto
        moreover have "interval (entry_of t p) = 0 \<Longrightarrow> after_run now (entry_of t p) = None"
          using True by (simp add: after_run_def)
        ultimately show ?thesis using a [OF s(3)] a [OF t(1)] by (metis (mono_tags, lifting) Collect_cong)
      qed
      ultimately show ?thesis
        using less.hyps [OF stepped_measure [OF t Cons True] s(3) stepped_in_range [OF t Cons True],
            of "effect act (entry_of t p) w"]
        unfolding step stepped_run [OF t Cons True] stepped_after [OF t Cons True] by simp
    qed
  qed
qed

end
