(* ===== verification/Timer_Rules.thy ===== *)
theory Timer_Rules
  imports Timer_Process
begin

text \<open>
  The properties of the timer: the invariant over every use of it, what a run executes and leaves,
  that a run returns, the identifiers and the times of added callbacks, the error results, and two
  cases in which the code does not keep what its comments say.
\<close>

section \<open>A small timer\<close>

definition demo_entry :: "int \<Rightarrow> u64 \<Rightarrow> ptr \<Rightarrow> u64 \<Rightarrow> UA_TimerEntry" where
  "demo_entry nt itv dat eid =
     \<lparr>timerPolicy = UA_TIMER_HANDLE_CYCLEMISS_WITH_CURRENTTIME, nextTime = nt, interval = itv,
      callback = 3, application = 4, cbData = dat, entryId = eid\<rparr>"

text \<open>One entry that is executed once, at 20, and one that repeats every 50 steps, from 50.\<close>

definition demo_timer :: UA_Timer where
  "demo_timer =
     \<lparr>entries = [4 \<mapsto> demo_entry 20 0 7 1, 6 \<mapsto> demo_entry 50 50 8 2],
      timeRoot = AA_Node AA_Null 4 1 (AA_Node AA_Null 6 1 AA_Null),
      idRoot = AA_Node AA_Null 4 1 (AA_Node AA_Null 6 1 AA_Null), idCounter = 2\<rparr>"

lemmas demo_timer_eval = demo_timer_def demo_entry_def timer_entries_def entry_of_def

lemma demo_timer_ok: "timer_ok demo_timer"
  by (simp add: timer_ok_def demo_timer_eval aa_sorted_def before_time before_id)

lemma demo_timer_in_range: "in_range 60 demo_timer"
  by (simp add: in_range_def times_fit_def fits64_def demo_timer_eval)

section \<open>The invariant\<close>

text \<open>
  Everything that can happen to a timer: it is initialised, its interface is called, it is processed
  with callbacks that call the interface, and it is cleared.
\<close>

inductive timer_reachable :: "'w exec \<Rightarrow> UA_Timer \<times> 'w \<Rightarrow> bool" for exec where
  init: "timer_reachable exec (UA_Timer_init heap, w)"
| api: "timer_reachable exec (t, w) \<Longrightarrow> timer_api t t' \<Longrightarrow> timer_reachable exec (t', w')"
| process: "timer_reachable exec s \<Longrightarrow> UA_Timer_process exec now s = Some (nxt, s') \<Longrightarrow> timer_reachable exec s'"
| clear: "timer_reachable exec (t, w) \<Longrightarrow> UA_Timer_clear t = Some t' \<Longrightarrow> timer_reachable exec (t', w)"

lemma process_result:
  assumes "UA_Timer_process exec now s = Some (nxt, s')" "uses_api exec" "timer_ok (fst s)"
  shows "timer_ok (fst s')" "\<forall>p \<in> timer_entries (fst s'). now < nextTime (entry_of (fst s') p)"
    and "nxt = (case aa_min (timeRoot (fst s')) of None \<Rightarrow> max UA_INT64_MAX now | Some p \<Rightarrow> nextTime (entry_of (fst s') p))"
proof -
  have l: "process_loop exec now s = Some s'" and n: "nxt = (let n = (case aa_min (timeRoot (fst s')) of None \<Rightarrow> UA_INT64_MAX
      | Some p \<Rightarrow> nextTime (entry_of (fst s') p)) in if n < now then now else n)"
    using assms(1) by (auto simp: UA_Timer_process_def entry_of_def Let_def split: option.splits)
  note r = process_loop_ok [OF l assms(2,3)]
  show "timer_ok (fst s')" "\<forall>p \<in> timer_entries (fst s'). now < nextTime (entry_of (fst s') p)" using r by blast+
  show "nxt = (case aa_min (timeRoot (fst s')) of None \<Rightarrow> max UA_INT64_MAX now | Some p \<Rightarrow> nextTime (entry_of (fst s') p))"
  proof (cases "aa_min (timeRoot (fst s'))")
    case (Some p)
    then have "now < nextTime (entry_of (fst s') p)" using r aa_min_entry [of "fst s'" p] by blast
    then show ?thesis using n Some by simp
  qed (use n in \<open>auto simp: max_def\<close>)
qed

declare clear_loop.simps [simp del]

text \<open>The loop only looks at the identifier tree: the time tree is stale until it is reset.\<close>

lemma clear_loop_empties:
  "aa_sorted (cmpEntryId (entries t)) (idRoot t) \<Longrightarrow> length (aa_inorder (idRoot t)) \<le> n \<Longrightarrow>
   \<exists>t'. clear_loop n t = Some t' \<and> entries t' = entries t |` (- timer_entries t) \<and> idCounter t' = idCounter t"
proof (induction n arbitrary: t)
  case 0
  then show ?case by (simp add: aa_min_first timer_entries_def clear_loop.simps)
next
  case (Suc n)
  show ?case
  proof (cases "aa_inorder (idRoot t)")
    case Nil
    then show ?thesis by (simp add: aa_min_first timer_entries_def clear_loop.simps)
  next
    case (Cons p rest)
    then have p: "p \<in> set (aa_inorder (idRoot t))" by simp
    define v where "v = t\<lparr>idRoot := aa_remove (cmpEntryId (entries t)) p (idRoot t), entries := (entries t)(p := None)\<rparr>"
    note r = tree_remove [OF Suc.prems(1) ordered_id p]
    have te: "timer_entries v = timer_entries t - {p}" using r(2) by (simp add: v_def timer_entries_def)
    have "aa_sorted (cmpEntryId (entries v)) (idRoot v)"
      unfolding v_def by simp (rule aa_sorted_cong [OF r(1)], auto simp: r(2) cmpEntryId_def)
    moreover have "length (aa_inorder (idRoot v)) \<le> n" using r(3) Suc.prems(2) Cons by (simp add: v_def)
    ultimately obtain t' where t': "clear_loop n v = Some t'" "entries t' = entries v |` (- timer_entries v)"
        "idCounter t' = idCounter v"
      using Suc.IH by blast
    moreover have "clear_loop (Suc n) t = clear_loop n v"
      using Cons by (simp add: aa_min_first v_def clear_loop.simps [of "Suc n"])
    moreover have "entries v |` (- timer_entries v) = entries t |` (- timer_entries t)"
      unfolding te using p by (auto simp: v_def fun_eq_iff restrict_map_def timer_entries_def)
    ultimately show ?thesis by (simp add: v_def)
  qed
qed

lemma clear_effect:
  assumes "timer_ok t"
  shows "UA_Timer_clear t = Some \<lparr>entries = entries t |` (- timer_entries t), timeRoot = AA_Null,
    idRoot = AA_Null, idCounter = idCounter t\<rparr>"
proof -
  obtain t' where t': "clear_loop (length (aa_inorder (idRoot t))) t = Some t'"
      "entries t' = entries t |` (- timer_entries t)" "idCounter t' = idCounter t"
    using clear_loop_empties [OF timer_okD(2) [OF assms] order_refl] by blast
  then show ?thesis by (cases t') (simp add: UA_Timer_clear_def)
qed

lemma reachable_ok: "timer_reachable exec s \<Longrightarrow> uses_api exec \<Longrightarrow> timer_ok (fst s)"
proof (induction rule: timer_reachable.induct)
  case (init heap w)
  then show ?case by (simp add: init_ok)
next
  case (api t w t' w')
  then show ?case using timer_api_ok by simp
next
  case (process s now nxt s')
  then show ?case using process_result(1) by blast
next
  case (clear t w t')
  then have "t' = \<lparr>entries = entries t |` (- timer_entries t), timeRoot = AA_Null, idRoot = AA_Null, idCounter = idCounter t\<rparr>"
    using clear_effect [of t] by auto
  then show ?case by (simp add: timer_ok_def timer_entries_def aa_sorted_def)
qed

text \<open>
  C25: Whatever sequence of calls, runs and clearings a timer goes through, with callbacks that may
  themselves add, change and remove entries while a run executes them, both trees stay sorted and hold
  the same allocated entries, and the identifiers stay distinct and above zero.
\<close>

theorem timer_stays_consistent:
  assumes "uses_api exec" "timer_reachable exec (t, w)"
  shows "aa_sorted (cmpDateTime (entries t)) (timeRoot t) \<and> aa_sorted (cmpEntryId (entries t)) (idRoot t) \<and>
    set (aa_inorder (timeRoot t)) = set (aa_inorder (idRoot t)) \<and>
    (\<forall>p. p \<notin> set (aa_inorder (idRoot t)) \<or> p \<noteq> 0 \<and> entries t p \<noteq> None \<and> 0 < entryId (entry_of t p)) \<and>
    inj_on (\<lambda>p. entryId (entry_of t p)) (set (aa_inorder (idRoot t)))"
  using reachable_ok [OF assms(2,1)] by (auto simp: timer_ok_def timer_entries_def)

text \<open>A callback that removes the entry with identifier 2, when there is one.\<close>

definition removing_exec :: "unit exec" where
  "removing_exec cb app dat s = (UA_Timer_removeCallback (fst s) 2, snd s)"

definition demo_added :: UA_Timer where
  "demo_added = fst (snd (UA_Timer_addTimedCallback 4 (UA_Timer_init Map.empty) 3 4 7 20))"

lemma timer_stays_consistent_witness:
  "aa_sorted (cmpDateTime (entries demo_added)) (timeRoot demo_added) \<and> aa_inorder (timeRoot demo_added) = [4]"
proof -
  have u: "uses_api removing_exec"
    by (auto simp: uses_api_def removing_exec_def intro: timer_api.removeCallback)
  have "timer_api (UA_Timer_init Map.empty) demo_added"
    unfolding demo_added_def by (rule timer_api.addTimedCallback) (simp_all add: UA_Timer_init_def)
  then have r: "timer_reachable removing_exec (demo_added, ())"
    by (rule timer_reachable.api [OF timer_reachable.init])
  have "aa_inorder (timeRoot demo_added) = [4]"
    by (simp add: demo_added_def UA_Timer_addTimedCallback_def addCallback_def link_entry_def UA_Timer_init_def Let_def)
  then show ?thesis using timer_stays_consistent [OF u r] by blast
qed

section \<open>Runs\<close>

text \<open>
  When a run returns, whatever the callbacks did to the timer, no entry is due any more, and the
  returned time is the time of the earliest entry, so a caller that sleeps until then misses none and
  never spins: the returned time is not in the past.
\<close>

theorem process_returns_earliest_time:
  assumes "UA_Timer_process exec now s = Some (nxt, s')" "uses_api exec" "timer_ok (fst s)"
  shows "(\<forall>p \<in> timer_entries (fst s'). now < nextTime (entry_of (fst s') p) \<and> nxt \<le> nextTime (entry_of (fst s') p)) \<and>
    now \<le> nxt \<and> (timer_entries (fst s') = {} \<or> (\<exists>p \<in> timer_entries (fst s'). nxt = nextTime (entry_of (fst s') p)))"
proof (cases "aa_min (timeRoot (fst s'))")
  case None
  then show ?thesis using process_result [OF assms] aa_min_none [of "fst s'"] by simp
next
  case (Some p)
  then show ?thesis using process_result [OF assms] aa_min_entry [of "fst s'" p] by fastforce
qed

text \<open>
  C24: A run whose callbacks leave the timer alone returns, when the intervals are below \<open>2 ^ 63\<close> and no
  sum that the run computes for a due entry overflows the 64 bits of a time (\<open>in_range\<close>). It
  executes first the overdue entries in the order of their times, then the entries that are due at
  this very moment; it releases the entries that are executed once, moves each repeated entry that was
  due to its next time, and leaves every other entry as it was.
\<close>

theorem process_executes_due_entries:
  assumes "timer_ok t" "in_range now t"
  shows "\<exists>nxt t'. UA_Timer_process (passive_exec act) now (t, w) =
      Some (nxt, t', fold (\<lambda>p. effect act (entry_of t p)) (overdue now t @ just_due now t) w) \<and>
    timer_ok t' \<and> entries t' = entries_after now t \<and>
    timer_entries t' = {p \<in> timer_entries t. after_run now (entry_of t p) \<noteq> None}"
  using process_loop_run [OF assms, of act w] by (fastforce simp: UA_Timer_process_def Let_def)

definition record_data :: "ptr \<Rightarrow> ptr \<Rightarrow> ptr \<Rightarrow> ptr list \<Rightarrow> ptr list" where
  "record_data cb app dat w = w @ [dat]"

text \<open>The small timer at 60: both entries are overdue.\<close>

lemma demo_run:
  "overdue 60 demo_timer = [4, 6]" "just_due 60 demo_timer = []"
  "fold (\<lambda>p. effect record_data (entry_of demo_timer p)) [4, 6] [] = [7, 8]"
proof -
  show "overdue 60 demo_timer = [4, 6]" by (simp add: overdue_def demo_timer_eval)
  have "{p \<in> timer_entries demo_timer. on_time 60 (entry_of demo_timer p)} = {}"
    by (auto simp: on_time_def demo_timer_eval)
  then show "just_due 60 demo_timer = []" by (simp add: just_due_def)
  show "fold (\<lambda>p. effect record_data (entry_of demo_timer p)) [4, 6] [] = [7, 8]"
    by (simp add: effect_def record_data_def demo_timer_eval)
qed

lemma process_executes_due_entries_witness:
  "\<exists>nxt t'. UA_Timer_process (passive_exec record_data) 60 (demo_timer, []) = Some (nxt, t', [7, 8]) \<and>
     timer_entries t' = {6}"
proof -
  have a: "{p \<in> timer_entries demo_timer. after_run 60 (entry_of demo_timer p) \<noteq> None} = {6}"
    by (auto simp: after_run_def demo_timer_eval split: if_splits)
  show ?thesis
    using process_executes_due_entries [OF demo_timer_ok demo_timer_in_range, of record_data "[]"]
    unfolding demo_run(1,2) a append_Nil2 demo_run(3) by blast
qed

lemma process_returns_earliest_time_witness:
  "\<exists>nxt t'. UA_Timer_process (passive_exec record_data) 60 (demo_timer, []) = Some (nxt, t', [7, 8]) \<and> 60 \<le> nxt"
proof -
  have u: "uses_api (passive_exec record_data)" by (simp add: uses_api_def passive_exec_def)
  obtain nxt t' where p: "UA_Timer_process (passive_exec record_data) 60 (demo_timer, []) = Some (nxt, t', [7, 8])"
    using process_loop_run [OF demo_timer_ok demo_timer_in_range, of record_data "[]"]
    unfolding demo_run(1,2) append_Nil2 demo_run(3) by (auto simp: UA_Timer_process_def Let_def)
  show ?thesis using process_returns_earliest_time [OF p u] p demo_timer_ok by auto
qed

text \<open>
  With the policy \<^verbatim>\<open>CURRENTTIME\<close> an entry whose next time is reached exactly one interval late is
  executed twice in the same run, at the same moment, although the comment promises at least the
  interval between two executions: the new time is only corrected when it is less than the current
  time, and the loop condition takes an equal time as due.
\<close>

theorem current_time_policy_executes_twice:
  assumes "timer_ok t" "timer_entries t = {p}" "entry_of t p = e"
    and "timerPolicy e = UA_TIMER_HANDLE_CYCLEMISS_WITH_CURRENTTIME" "callback e \<noteq> 0"
    and "0 < sint (interval e)" "nextTime e + sint (interval e) = now" "times_fit now e"
  shows "\<exists>nxt t'. UA_Timer_process (passive_exec record_data) now (t, []) = Some (nxt, t', [cbData e, cbData e])"
proof -
  have i: "in_range now t" "interval e \<noteq> 0" using assms by (auto simp: in_range_def)
  have s: "set (aa_inorder (timeRoot t)) = {p}" "distinct (aa_inorder (timeRoot t))"
    using timer_okD(1,3) [OF assms(1)] assms(2) aa_sorted_distinct by auto
  then have "aa_inorder (timeRoot t) = [p]"
    by (cases "aa_inorder (timeRoot t)") (auto simp: subset_singleton_iff)
  then have o: "overdue now t = [p]" using assms(3,6,7) by (simp add: overdue_def)
  have "{q \<in> timer_entries t. on_time now (entry_of t q)} = {p}"
    using assms(2,3,6,7) i by (auto simp: on_time_def)
  then have j: "just_due now t = [p]" by (simp add: just_due_def)
  show ?thesis
    using process_loop_run [OF assms(1) i(1), of record_data "[]"] assms(3,5)
    unfolding o j by (auto simp: UA_Timer_process_def Let_def effect_def record_data_def)
qed

definition late_timer :: UA_Timer where
  "late_timer = \<lparr>entries = [6 \<mapsto> demo_entry 50 30 8 2], timeRoot = AA_Node AA_Null 6 1 AA_Null,
     idRoot = AA_Node AA_Null 6 1 AA_Null, idCounter = 2\<rparr>"

lemma current_time_policy_executes_twice_witness:
  "\<exists>nxt t'. UA_Timer_process (passive_exec record_data) 80 (late_timer, []) = Some (nxt, t', [8, 8])"
proof -
  have t: "timer_ok late_timer" "timer_entries late_timer = {6}" "entry_of late_timer 6 = demo_entry 50 30 8 2"
    by (simp_all add: timer_ok_def late_timer_def timer_entries_def entry_of_def demo_entry_def aa_sorted_def)
  show ?thesis using current_time_policy_executes_twice [OF t, of 80] by (simp add: demo_entry_def times_fit_def fits64_def)
qed

section \<open>Intervals that do not fit the signed time\<close>

lemma sint_upper_half: "2 ^ 63 \<le> i \<Longrightarrow> i < 2 ^ 64 \<Longrightarrow> sint (word_of_int i :: u64) = i - 2 ^ 64"
proof -
  assume i: "(2 :: int) ^ 63 \<le> i" "i < 2 ^ 64"
  have "(word_of_int i :: u64) = word_of_int (i - 2 ^ 64)"
    by (simp add: word_of_int_eq_iff take_bit_eq_mod mod_diff_right_eq [of i _ "2 ^ 64", symmetric])
  then have "sint (word_of_int i :: u64) = int64 (i - 2 ^ 64)" by (simp only: int64_def)
  moreover have "fits64 (i - 2 ^ 64)" using i by (simp add: fits64_def)
  ultimately show ?thesis by (simp only: int64_id)
qed

definition negative_entry :: "int \<Rightarrow> ptr \<Rightarrow> UA_Timer \<Rightarrow> bool" where
  "negative_entry now p t =
     (timer_ok t \<and> timer_entries t = {p} \<and> nextTime (entry_of t p) \<le> now \<and> sint (interval (entry_of t p)) < 0 \<and>
      fits64 now \<and> fits64 (now + 2 * sint (interval (entry_of t p))) \<and>
      fits64 (nextTime (entry_of t p) + sint (interval (entry_of t p))) \<and>
      timerPolicy (entry_of t p) = UA_TIMER_HANDLE_CYCLEMISS_WITH_CURRENTTIME)"

lemma negative_stepped:
  assumes "negative_entry now p t"
  shows "aa_min (timeRoot t) = Some p" "negative_entry now p (stepped now p t)"
proof -
  have t: "timer_ok t" "timer_entries t = {p}" using assms by (simp_all add: negative_entry_def)
  have nz: "interval (entry_of t p) \<noteq> 0" using assms by (auto simp: negative_entry_def)
  obtain q rest where c: "aa_inorder (timeRoot t) = q # rest"
    using timer_okD(3) [OF t(1)] t(2) by (cases "aa_inorder (timeRoot t)") auto
  then have q: "q = p" using timer_okD(3) [OF t(1)] t(2) by auto
  then show "aa_min (timeRoot t) = Some p" using c by (simp add: aa_min_first)
  note f = c [unfolded q]
  let ?i = "sint (interval (entry_of t p))"
  have "fits64 (now + ?i)" using assms by (auto simp: negative_entry_def fits64_def)
  then have "next_execution now (entry_of t p) = now + ?i \<or>
      next_execution now (entry_of t p) = now \<and> nextTime (entry_of t p) + ?i = now"
    using assms by (auto simp: next_execution_def negative_entry_def Let_def int64_id)
  then have "next_execution now (entry_of t p) \<le> now \<and> fits64 (next_execution now (entry_of t p) + ?i)"
    using assms by (auto simp: negative_entry_def algebra_simps)
  then show "negative_entry now p (stepped now p t)"
    using assms stepped_facts(3,7) [OF t(1) f, of now] stepped_entry [OF t(1) f nz, of now] nz
    by (simp add: negative_entry_def)
qed

lemma negative_never_ends:
  assumes "process_loop (passive_exec act) now s = Some s'" "negative_entry now p (fst s)"
  shows False
proof -
  have "passive_exec act = passive_exec act \<longrightarrow> now = now \<longrightarrow> \<not> negative_entry now p (fst s)"
  proof (rule process_loop.raw_induct [OF _ assms(1), where P = "\<lambda>exec' now' s s'. exec' = passive_exec act \<longrightarrow>
      now' = now \<longrightarrow> \<not> negative_entry now p (fst s)"], intro impI notI)
    fix rec exec' now' s s'
    assume IH: "\<And>e n s s'. rec e n s = Some s' \<Longrightarrow> e = passive_exec act \<longrightarrow> n = now \<longrightarrow> \<not> negative_entry now p (fst s)"
      and res: "(case aa_min (timeRoot (fst s)) of None \<Rightarrow> Some s
        | Some p \<Rightarrow> if nextTime (the (entries (fst s) p)) \<le> now'
            then rec exec' now' (process_first exec' now' p s) else Some s) = Some s'"
      and e: "exec' = passive_exec act" "now' = now" and n: "negative_entry now p (fst s)"
    note m = negative_stepped [OF n]
    have "nextTime (the (entries (fst s) p)) \<le> now" using n by (simp add: negative_entry_def entry_of_def)
    then have "rec (passive_exec act) now (process_first (passive_exec act) now p s) = Some s'"
      using res m(1) e by simp
    moreover have "fst (process_first (passive_exec act) now p s) = stepped now p (fst s)"
      using process_first_passive [of act now p "fst s" "snd s"] by simp
    ultimately show False using IH m(2) by metis
  qed
  then show False using assms(2) by blast
qed

text \<open>
  C27: A repeated callback with an interval of \<open>3 * 2 ^ 62\<close> steps of 100 ns or more (about 44000 years) is
  accepted and makes the next run spin for ever: the interval is checked to be positive as a
  \<^verbatim>\<open>double\<close> and stored unsigned, but the times are computed with the signed cast, which is negative, so the
  new time is always in the past and the loop, which the comment says cannot be infinite, never ends. In
  this range no sum overflows (a clock that is not negative is assumed); an interval between \<open>2 ^ 63\<close> and
  \<open>3 * 2 ^ 62\<close> steps is negative as well, but the time of its entry may leave the 64 bits.
\<close>

theorem huge_interval_never_returns:
  assumes "UA_Timer_addRepeatedCallback te currentTime rnd (UA_Timer_init Map.empty) cb app dat ms None
      UA_TIMER_HANDLE_CYCLEMISS_WITH_CURRENTTIME = (GOOD, t, Some cid)"
    and interval: "3 * 2 ^ 62 \<le> rnd (ms * 10000)" "rnd (ms * 10000) < 2 ^ 64"
    and clock: "0 \<le> currentTime" "currentTime \<le> now" "now < 2 ^ 63"
  shows "UA_Timer_process (passive_exec act) now (t, w) = None"
proof -
  let ?i = "sint (interval_ticks rnd ms)"
  have ticks: "3 * 2 ^ 62 \<le> \<lfloor>rnd (ms * 10000)\<rfloor>" "\<lfloor>rnd (ms * 10000)\<rfloor> < 2 ^ 64"
    using interval by (simp_all add: le_floor_iff floor_less_iff)
  then have i: "?i = \<lfloor>rnd (ms * 10000)\<rfloor> - 2 ^ 64" unfolding interval_ticks_def by (intro sint_upper_half) simp_all
  have neg: "- (2 ^ 62) \<le> ?i" "?i < 0" using ticks by (simp_all add: i)
  have fit: "fits64 (currentTime + ?i)" "fits64 (currentTime + ?i + ?i)" "fits64 now" "fits64 (now + 2 * ?i)"
    using neg clock by (auto simp: fits64_def)
  let ?e = "\<lparr>timerPolicy = UA_TIMER_HANDLE_CYCLEMISS_WITH_CURRENTTIME, nextTime = currentTime + ?i,
      interval = interval_ticks rnd ms, callback = cb, application = app, cbData = dat, entryId = 1\<rparr>"
  have te: "te \<noteq> 0" and t: "t = link_entry ((UA_Timer_init Map.empty)\<lparr>idCounter := 1\<rparr>) te ?e"
    using assms(1) fit(1) by (auto simp: UA_Timer_addRepeatedCallback_def addCallback_def Let_def first_time_def
        UA_Timer_init_def status_defs int64_id split: if_splits)
  note l = link_entry_ok [OF init_ok te, of Map.empty ?e 1, folded t]
  have "timer_ok t \<and> timer_entries t = {te}"
    using l by (simp add: UA_Timer_init_def timer_entries_def)
  moreover have "entry_of t te = ?e" by (simp add: t entry_of_def link_entry_def Let_def UA_Timer_init_def)
  ultimately have "negative_entry now te (fst (t, w))" using fit neg clock by (simp add: negative_entry_def)
  then have "process_loop (passive_exec act) now (t, w) = None"
    using negative_never_ends [of act now "(t, w)"] by (cases "process_loop (passive_exec act) now (t, w)") auto
  then show ?thesis by (simp add: UA_Timer_process_def)
qed

lemma huge_interval_never_returns_witness:
  "\<exists>t. UA_Timer_addRepeatedCallback 4 0 (\<lambda>x. x) (UA_Timer_init Map.empty) 3 4 7 1500000000000000 None
      UA_TIMER_HANDLE_CYCLEMISS_WITH_CURRENTTIME = (GOOD, t, Some 1) \<and>
    UA_Timer_process (passive_exec record_data) 100 (t, []) = None"
proof -
  have i: "interval_ticks (\<lambda>x. x) 1500000000000000 = 15000000000000000000"
    by (simp add: interval_ticks_def)
  obtain t where t: "UA_Timer_addRepeatedCallback 4 0 (\<lambda>x. x) (UA_Timer_init Map.empty) 3 4 7 1500000000000000 None
      UA_TIMER_HANDLE_CYCLEMISS_WITH_CURRENTTIME = (GOOD, t, Some 1)"
    using i by (simp add: UA_Timer_addRepeatedCallback_def addCallback_def Let_def UA_Timer_init_def link_entry_def)
  show ?thesis using huge_interval_never_returns [OF t, of 100 record_data "[]"] t by auto
qed

section \<open>Adding, changing and removing\<close>

text \<open>
  C26: Registering a repeated callback without a failure returns a fresh identifier under which the entry
  is found, schedules it for a time after now and at most one interval later (on the grid of the base
  time, when there is one), and removing that identifier gives back the entries of before, so no memory
  is lost. The interval is at least one step of 100 ns and less than \<open>2 ^ 63\<close>, and the current time, with one
  interval added and with the base time subtracted, fits the 64 bits of a time; the code does not check
  these upper bounds.
\<close>

theorem repeated_callback_scheduled_and_removed:
  assumes "timer_ok t" "te \<noteq> 0" "entries t te = None" "idCounter t + 1 \<noteq> 0" "cb \<noteq> 0" "0 < ms"
    and ticks: "1 \<le> rnd (ms * 10000)" "rnd (ms * 10000) < 2 ^ 63"
    and fit: "fits64 currentTime" "fits64 (currentTime + sint (interval_ticks rnd ms))"
      "\<forall>b. base = Some b \<longrightarrow> fits64 (currentTime - b)"
  shows "\<exists>t'. UA_Timer_addRepeatedCallback te currentTime rnd t cb app dat ms base policy = (GOOD, t', Some (idCounter t + 1)) \<and>
    timer_ok t' \<and> timer_entries t' = insert te (timer_entries t) \<and>
    aa_find (cmpIdKey (entries t') (idCounter t + 1)) (idRoot t') = Some te \<and>
    currentTime < nextTime (entry_of t' te) \<and> nextTime (entry_of t' te) \<le> currentTime + sint (interval_ticks rnd ms) \<and>
    (case base of None \<Rightarrow> True | Some b \<Rightarrow> (nextTime (entry_of t' te) - b) mod sint (interval_ticks rnd ms) = 0) \<and>
    entries (UA_Timer_removeCallback t' (idCounter t + 1)) = entries t \<and>
    timer_entries (UA_Timer_removeCallback t' (idCounter t + 1)) = timer_entries t"
proof -
  let ?i = "interval_ticks rnd ms" and ?c = "idCounter t + 1"
  let ?e = "\<lparr>timerPolicy = policy, nextTime = first_time currentTime base ?i, interval = ?i,
      callback = cb, application = app, cbData = dat, entryId = ?c\<rparr>"
  define t' where "t' = link_entry (t\<lparr>idCounter := ?c\<rparr>) te ?e"
  have "1 \<le> \<lfloor>rnd (ms * 10000)\<rfloor>" "\<lfloor>rnd (ms * 10000)\<rfloor> < 2 ^ 63" using ticks by (simp_all add: le_floor_iff floor_less_iff)
  then have pos: "0 < sint ?i"
    using int64_id [of "\<lfloor>rnd (ms * 10000)\<rfloor>"] by (simp add: interval_ticks_def fits64_def int64_def)
  have nz: "?i \<noteq> 0" using pos by auto
  have add: "UA_Timer_addRepeatedCallback te currentTime rnd t cb app dat ms base policy = (GOOD, t', Some ?c)"
    using assms nz by (simp add: UA_Timer_addRepeatedCallback_def addCallback_def Let_def t'_def)
  have n: "te \<notin> timer_entries t" using timer_okD(5) [OF assms(1), of te] assms(3) by auto
  have "entryId ?e = ?c" by simp
  note l = link_entry_ok [OF assms(1,2) n this refl assms(4), folded t'_def]
  have e: "entry_of t' te = ?e" and ent: "entries t' = (entries t)(te \<mapsto> ?e)"
    by (simp_all add: t'_def entry_of_def link_entry_def Let_def)
  have find: "aa_find (cmpIdKey (entries t') ?c) (idRoot t') = Some te"
  proof (cases "aa_find (cmpIdKey (entries t') ?c) (idRoot t')")
    case None
    then show ?thesis using find_id(2) [OF l(1) None, of te] l(2) e by simp
  next
    case (Some p)
    then have "p \<in> timer_entries t'" "entryId (entry_of t' p) = entryId (entry_of t' te)"
      using find_id(1) [OF l(1) Some] e by simp_all
    then show ?thesis using Some timer_okD(8) [OF l(1)] l(2) by (auto simp: inj_on_def)
  qed
  have time: "currentTime < first_time currentTime base ?i" "first_time currentTime base ?i \<le> currentTime + sint ?i"
      "case base of None \<Rightarrow> True | Some b \<Rightarrow> (first_time currentTime base ?i - b) mod sint ?i = 0"
    using calculateNextTime_bounds [OF pos, of currentTime] calculateNextTime_grid [OF pos, of currentTime] pos fit
    by (auto simp: first_time_def sums_fit_def int64_id split: option.split)
  have r: "UA_Timer_removeCallback t' ?c = t'\<lparr>timeRoot := aa_remove (cmpDateTime (entries t')) te (timeRoot t'),
      idRoot := aa_remove (cmpEntryId (entries t')) te (idRoot t'), entries := (entries t')(te := None)\<rparr>"
    using find by (simp add: UA_Timer_removeCallback_def)
  have "te \<in> timer_entries t'" using l(2) by simp
  note u = unlink_ok [OF l(1) this _ r]
  have "entries (UA_Timer_removeCallback t' ?c) = entries t"
    unfolding r using ent assms(3) by (auto simp: fun_eq_iff)
  moreover have "timer_entries (UA_Timer_removeCallback t' ?c) = timer_entries t" using u(2) l(2) n by simp
  moreover have ft: "first_time currentTime base ?i = nextTime (entry_of t' te)" by (simp add: e)
  ultimately show ?thesis using add l find time [unfolded ft] by blast
qed

lemma repeated_callback_scheduled_and_removed_witness:
  "\<exists>t'. UA_Timer_addRepeatedCallback 8 100 (\<lambda>x. x) demo_timer 3 4 9 1 (Some 30) UA_TIMER_HANDLE_CYCLEMISS_WITH_BASETIME =
      (GOOD, t', Some 3) \<and> nextTime (entry_of t' 8) = 10030 \<and> entries (UA_Timer_removeCallback t' 3) = entries demo_timer"
proof -
  have i: "interval_ticks (\<lambda>x. x) 1 = 10000" by (simp add: interval_ticks_def)
  have "0 < sint (interval_ticks (\<lambda>x. x) 1)" "fits64 100" "fits64 (100 + sint (interval_ticks (\<lambda>x. x) 1))"
    "fits64 (100 - 30)" unfolding i by (simp_all add: fits64_def)
  moreover have "entries demo_timer 8 = None" "idCounter demo_timer + 1 = 3" by (simp_all add: demo_timer_def)
  ultimately obtain t' where t': "UA_Timer_addRepeatedCallback 8 100 (\<lambda>x. x) demo_timer 3 4 9 1 (Some 30)
        UA_TIMER_HANDLE_CYCLEMISS_WITH_BASETIME = (GOOD, t', Some 3)"
      "entries (UA_Timer_removeCallback t' 3) = entries demo_timer"
    using repeated_callback_scheduled_and_removed [OF demo_timer_ok, where te = 8 and cb = 3 and ms = 1 and rnd = "\<lambda>x. x" and
        currentTime = 100 and app = 4 and dat = 9 and base = "Some 30" and policy = UA_TIMER_HANDLE_CYCLEMISS_WITH_BASETIME] by auto
  have "nextTime (entry_of t' 8) = 10030"
    using t'(1) i by (auto simp: UA_Timer_addRepeatedCallback_def addCallback_def Let_def link_entry_def entry_of_def
        first_time_def calculateNextTime_mod sums_fit_def fits64_def split: if_splits)
  then show ?thesis using t' by blast
qed

text \<open>
  A call that fails changes nothing: without a callback or with an interval that is not positive the
  result is \<^verbatim>\<open>BADINTERNALERROR\<close>, when the memory is exhausted \<^verbatim>\<open>BADOUTOFMEMORY\<close>, and a change of an
  identifier that no entry has \<^verbatim>\<open>BADNOTFOUND\<close>; in each case the timer is as before (no identifier is
  used up), and no other status is returned.
\<close>

theorem timer_errors_change_nothing:
  assumes "timer_ok t"
  shows "(let (res, t', cid) = UA_Timer_addRepeatedCallback te now rnd t cb app dat ms base policy
      in res = (if ms \<le> 0 \<or> interval_ticks rnd ms = 0 \<or> cb = 0 then UA_STATUSCODE_BADINTERNALERROR
                else if te = 0 then UA_STATUSCODE_BADOUTOFMEMORY else GOOD) \<and>
         (res = GOOD \<or> t' = t \<and> cid = None)) \<and>
    (let (res, t') = UA_Timer_changeRepeatedCallback now rnd t k ms base policy
      in res = (if ms \<le> 0 \<or> interval_ticks rnd ms = 0 then UA_STATUSCODE_BADINTERNALERROR
                else if k \<in> (\<lambda>p. entryId (entry_of t p)) ` timer_entries t then GOOD
                else UA_STATUSCODE_BADNOTFOUND) \<and>
         (res = GOOD \<or> t' = t))"
proof -
  have "aa_find (cmpIdKey (entries t) k) (idRoot t) = None \<longleftrightarrow> k \<notin> (\<lambda>p. entryId (entry_of t p)) ` timer_entries t"
    using find_id [OF assms, of k] by (cases "aa_find (cmpIdKey (entries t) k) (idRoot t)") auto
  then show ?thesis
    by (auto simp: UA_Timer_addRepeatedCallback_def addCallback_def UA_Timer_changeRepeatedCallback_def Let_def
        split: option.split)
qed

lemma timer_errors_change_nothing_witness:
  "fst (UA_Timer_changeRepeatedCallback 0 (\<lambda>x. x) demo_timer 9 1 None UA_TIMER_HANDLE_CYCLEMISS_WITH_BASETIME) =
    UA_STATUSCODE_BADNOTFOUND"
proof -
  have i: "interval_ticks (\<lambda>x. x) 1 = 10000" by (simp add: interval_ticks_def)
  have n: "(9 :: u64) \<notin> (\<lambda>p. entryId (entry_of demo_timer p)) ` timer_entries demo_timer"
    by (simp add: demo_timer_eval)
  show ?thesis
    using timer_errors_change_nothing [OF demo_timer_ok, of 0 0 "\<lambda>x. x" 0 0 0 1 None
        UA_TIMER_HANDLE_CYCLEMISS_WITH_BASETIME 9] n i
    by (auto simp: split_beta Let_def)
qed

text \<open>
  Changing a repeated callback keeps its identifier, its callback and every other entry: only the
  time, the interval and the policy of that entry are replaced, and both trees stay in order.
\<close>

theorem changed_callback_rescheduled:
  assumes "timer_ok t" "p \<in> timer_entries t" "0 < ms" "interval_ticks rnd ms \<noteq> 0"
  shows "\<exists>t'. UA_Timer_changeRepeatedCallback now rnd t (entryId (entry_of t p)) ms base policy = (GOOD, t') \<and>
    timer_ok t' \<and> timer_entries t' = timer_entries t \<and>
    entries t' = (entries t)(p \<mapsto> (entry_of t p)\<lparr>nextTime := first_time now base (interval_ticks rnd ms),
      interval := interval_ticks rnd ms, timerPolicy := policy\<rparr>)"
proof -
  let ?k = "entryId (entry_of t p)"
  define e where "e = (entry_of t p)\<lparr>nextTime := first_time now base (interval_ticks rnd ms),
      interval := interval_ticks rnd ms, timerPolicy := policy\<rparr>"
  obtain q where q: "aa_find (cmpIdKey (entries t) ?k) (idRoot t) = Some q"
    using find_id(2) [OF assms(1) _ assms(2), of ?k] by (cases "aa_find (cmpIdKey (entries t) ?k) (idRoot t)") auto
  then have "q = p" using find_id(1) [OF assms(1) q] timer_okD(8) [OF assms(1)] assms(2) by (auto simp: inj_on_def)
  then have r: "UA_Timer_changeRepeatedCallback now rnd t ?k ms base policy =
      (GOOD, t\<lparr>entries := (entries t)(p \<mapsto> e), timeRoot :=
        aa_insert (cmpDateTime ((entries t)(p \<mapsto> e))) p (aa_remove (cmpDateTime (entries t)) p (timeRoot t))\<rparr>)"
    using q assms(3,4) by (simp add: UA_Timer_changeRepeatedCallback_def Let_def e_def entry_of_def)
  have "entryId e = entryId (entry_of t p)" by (simp add: e_def)
  note o = retime_ok [OF assms(1,2) this refl refl]
  show ?thesis using r o(1,2) by (simp add: e_def)
qed

lemma changed_callback_rescheduled_witness:
  "fst (UA_Timer_changeRepeatedCallback 7 (\<lambda>x. x) demo_timer 2 1 None UA_TIMER_HANDLE_CYCLEMISS_WITH_BASETIME) = GOOD"
proof -
  have i: "interval_ticks (\<lambda>x. x) 1 \<noteq> 0" by (simp add: interval_ticks_def)
  have p: "6 \<in> timer_entries demo_timer" and k: "entryId (entry_of demo_timer 6) = 2"
    by (simp_all add: demo_timer_eval)
  show ?thesis using changed_callback_rescheduled [OF demo_timer_ok p _ i, of 7 None
      UA_TIMER_HANDLE_CYCLEMISS_WITH_BASETIME] unfolding k by auto
qed

text \<open>
  Clearing a timer ends, releases the memory of every entry and nothing else, and leaves two empty
  trees.
\<close>

theorem clear_releases_all_entries:
  assumes "timer_ok t"
  shows "\<exists>t'. UA_Timer_clear t = Some t' \<and> entries t' = entries t |` (- timer_entries t) \<and>
    timeRoot t' = AA_Null \<and> idRoot t' = AA_Null"
  using clear_effect [OF assms] by simp

lemma clear_releases_all_entries_witness:
  "\<exists>t'. UA_Timer_clear demo_timer = Some t' \<and> entries t' = Map.empty"
proof -
  have "entries demo_timer |` (- timer_entries demo_timer) = Map.empty"
    by (auto simp: restrict_map_def demo_timer_eval fun_eq_iff)
  then show ?thesis using clear_releases_all_entries [OF demo_timer_ok] by auto
qed

end
