(* ===== verification/Value_Order.thy ===== *)
theory Value_Order
  imports Complex_Main Builtin_Types
begin

text \<open>
  The ordering of values, \<^verbatim>\<open>src/ua_types.c\<close>: \<^verbatim>\<open>UA_order\<close> and the function for every kind of type, the
  comparison and the hash of node ids.

  \<^verbatim>\<open>UA_order\<close> compares two places in memory by the type description it is given. A result \<open>None\<close> says
  that the memory does not hold a value of that type, so that the C code reads it with the wrong
  layout. Each function that recurses takes the jump table \<open>jt\<close> as an argument;
  \<open>orderJumpTable\<close> ties the knot with a fuel argument and \<open>UA_order\<close> gives it the sizes of the two values.

  The comparisons of pointers in the code are shortcuts for equal contents or tests for NULL, and the
  arrays of the model keep NULL apart from the empty array.
\<close>

section \<open>Results\<close>

datatype UA_Order = UA_ORDER_LESS | UA_ORDER_EQ | UA_ORDER_MORE

text \<open>\<^verbatim>\<open>if(o != UA_ORDER_EQ) return o;\<close> and go on with the next comparison.\<close>

definition or_else :: "UA_Order \<Rightarrow> UA_Order \<Rightarrow> UA_Order" where
  "or_else r r' = (if r \<noteq> UA_ORDER_EQ then r else r')"

definition or_next :: "UA_Order option \<Rightarrow> UA_Order option \<Rightarrow> UA_Order option" where
  "or_next r r' = (case r of None \<Rightarrow> None | Some x \<Rightarrow> if x \<noteq> UA_ORDER_EQ then Some x else r')"

section \<open>Numbers\<close>

definition UA_NUMERICORDER :: "'a::linorder \<Rightarrow> 'a \<Rightarrow> UA_Order" where
  "UA_NUMERICORDER p1 p2 =
     (if p1 \<noteq> p2 then if p1 < p2 then UA_ORDER_LESS else UA_ORDER_MORE else UA_ORDER_EQ)"

definition booleanOrder :: "u8 \<Rightarrow> u8 \<Rightarrow> UA_Order" where "booleanOrder = UA_NUMERICORDER"
definition byteOrder :: "u8 \<Rightarrow> u8 \<Rightarrow> UA_Order" where "byteOrder = UA_NUMERICORDER"
definition uInt16Order :: "u16 \<Rightarrow> u16 \<Rightarrow> UA_Order" where "uInt16Order = UA_NUMERICORDER"
definition uInt32Order :: "u32 \<Rightarrow> u32 \<Rightarrow> UA_Order" where "uInt32Order = UA_NUMERICORDER"
definition uInt64Order :: "u64 \<Rightarrow> u64 \<Rightarrow> UA_Order" where "uInt64Order = UA_NUMERICORDER"

definition sByteOrder :: "u8 \<Rightarrow> u8 \<Rightarrow> UA_Order" where
  "sByteOrder p1 p2 = UA_NUMERICORDER (sint p1) (sint p2)"

definition int16Order :: "u16 \<Rightarrow> u16 \<Rightarrow> UA_Order" where
  "int16Order p1 p2 = UA_NUMERICORDER (sint p1) (sint p2)"

definition int32Order :: "u32 \<Rightarrow> u32 \<Rightarrow> UA_Order" where
  "int32Order p1 p2 = UA_NUMERICORDER (sint p1) (sint p2)"

definition int64Order :: "u64 \<Rightarrow> u64 \<Rightarrow> UA_Order" where
  "int64Order p1 p2 = UA_NUMERICORDER (sint p1) (sint p2)"

text \<open>
  The numbers that the bits of a float (IEEE 754 binary32) and of a double (binary64) denote, and the
  comparisons of C on them: a comparison with a value that is not a number is false.
\<close>

datatype UA_Double = Finite rat | PosInf | NegInf | NaN

definition ieee_number :: "nat \<Rightarrow> bool \<Rightarrow> nat \<Rightarrow> nat \<Rightarrow> nat \<Rightarrow> nat \<Rightarrow> UA_Double" where
  "ieee_number fbits negative e f emax bias =
     (if e = emax then if f \<noteq> 0 then NaN else if negative then NegInf else PosInf
      else Finite ((if negative then - 1 else 1) *
             (if e = 0 then of_nat f / 2 ^ (bias + fbits - 1)
              else of_nat ((2 ^ fbits + f) * 2 ^ e) / 2 ^ (bias + fbits))))"

definition float_value :: "u32 \<Rightarrow> UA_Double" where
  "float_value b =
     ieee_number 23 (bit b 31) (unat (take_bit 8 (drop_bit 23 b))) (unat (take_bit 23 b)) 255 127"

definition double_value :: "u64 \<Rightarrow> UA_Double" where
  "double_value b =
     ieee_number 52 (bit b 63) (unat (take_bit 11 (drop_bit 52 b))) (unat (take_bit 52 b)) 2047 1023"

definition ieee_eq :: "UA_Double \<Rightarrow> UA_Double \<Rightarrow> bool" where
  "ieee_eq x y = (x \<noteq> NaN \<and> x = y)"

fun ieee_less :: "UA_Double \<Rightarrow> UA_Double \<Rightarrow> bool" where
  "ieee_less (Finite x) (Finite y) = (x < y)"
| "ieee_less (Finite x) PosInf = True"
| "ieee_less NegInf (Finite y) = True"
| "ieee_less NegInf PosInf = True"
| "ieee_less _ _ = False"

definition UA_FLOATORDER :: "UA_Double \<Rightarrow> UA_Double \<Rightarrow> UA_Order" where
  "UA_FLOATORDER p1 p2 =
     (if \<not> ieee_eq p1 p2 then
        if \<not> ieee_eq p1 p1 then if \<not> ieee_eq p2 p2 then UA_ORDER_EQ else UA_ORDER_LESS
        else if \<not> ieee_eq p2 p2 then UA_ORDER_MORE
        else if ieee_less p1 p2 then UA_ORDER_LESS else UA_ORDER_MORE
      else UA_ORDER_EQ)"

definition floatOrder :: "u32 \<Rightarrow> u32 \<Rightarrow> UA_Order" where
  "floatOrder p1 p2 = UA_FLOATORDER (float_value p1) (float_value p2)"

definition doubleOrder :: "u64 \<Rightarrow> u64 \<Rightarrow> UA_Order" where
  "doubleOrder p1 p2 = UA_FLOATORDER (double_value p1) (double_value p2)"

section \<open>Strings, guids and node ids\<close>

fun memcmp :: "u8 list \<Rightarrow> u8 list \<Rightarrow> int" where
  "memcmp (x # xs) (y # ys) = (if x = y then memcmp xs ys else if x < y then - 1 else 1)"
| "memcmp _ _ = 0"

definition guidOrder :: "UA_Guid \<Rightarrow> UA_Guid \<Rightarrow> UA_Order" where
  "guidOrder p1 p2 =
     (if data1 p1 \<noteq> data1 p2 then if data1 p1 < data1 p2 then UA_ORDER_LESS else UA_ORDER_MORE
      else if data2 p1 \<noteq> data2 p2 then if data2 p1 < data2 p2 then UA_ORDER_LESS else UA_ORDER_MORE
      else if data3 p1 \<noteq> data3 p2 then if data3 p1 < data3 p2 then UA_ORDER_LESS else UA_ORDER_MORE
      else let cmp = memcmp (guid_data4 p1) (guid_data4 p2)
           in if cmp \<noteq> 0 then if cmp < 0 then UA_ORDER_LESS else UA_ORDER_MORE else UA_ORDER_EQ)"

definition stringOrder :: "UA_String \<Rightarrow> UA_String \<Rightarrow> UA_Order" where
  "stringOrder p1 p2 =
     (if string_length p1 \<noteq> string_length p2
      then if string_length p1 < string_length p2 then UA_ORDER_LESS else UA_ORDER_MORE
      else case (p1, p2) of
             (None, None) \<Rightarrow> UA_ORDER_EQ
           | (None, Some _) \<Rightarrow> UA_ORDER_LESS
           | (Some _, None) \<Rightarrow> UA_ORDER_MORE
           | (Some d1, Some d2) \<Rightarrow>
               let cmp = memcmp d1 d2
               in if cmp \<noteq> 0 then if cmp < 0 then UA_ORDER_LESS else UA_ORDER_MORE else UA_ORDER_EQ)"

definition UA_String_equal :: "UA_String \<Rightarrow> UA_String \<Rightarrow> bool" where
  "UA_String_equal s1 s2 = (stringOrder s1 s2 = UA_ORDER_EQ)"

text \<open>\<^verbatim>\<open>enum UA_NodeIdType\<close>\<close>

fun identifierType :: "UA_Identifier \<Rightarrow> nat" where
  "identifierType (NumericId _) = 0"
| "identifierType (StringId _) = 3"
| "identifierType (GuidId _) = 4"
| "identifierType (ByteStringId _) = 5"

definition UA_NodeId_order :: "UA_NodeId \<Rightarrow> UA_NodeId \<Rightarrow> UA_Order" where
  "UA_NodeId_order n1 n2 =
     (if namespaceIndex n1 \<noteq> namespaceIndex n2
      then if namespaceIndex n1 < namespaceIndex n2 then UA_ORDER_LESS else UA_ORDER_MORE
      else if identifierType (nid n1) \<noteq> identifierType (nid n2)
      then if identifierType (nid n1) < identifierType (nid n2) then UA_ORDER_LESS else UA_ORDER_MORE
      else case (nid n1, nid n2) of
             (NumericId i1, NumericId i2) \<Rightarrow>
               if i1 \<noteq> i2 then if i1 < i2 then UA_ORDER_LESS else UA_ORDER_MORE else UA_ORDER_EQ
           | (GuidId g1, GuidId g2) \<Rightarrow> guidOrder g1 g2
           | (StringId s1, StringId s2) \<Rightarrow> stringOrder s1 s2
           | (ByteStringId s1, ByteStringId s2) \<Rightarrow> stringOrder s1 s2
           | _ \<Rightarrow> UA_ORDER_EQ)"

definition UA_ExpandedNodeId_order :: "UA_ExpandedNodeId \<Rightarrow> UA_ExpandedNodeId \<Rightarrow> UA_Order" where
  "UA_ExpandedNodeId_order n1 n2 =
     (if serverIndex n1 \<noteq> serverIndex n2
      then if serverIndex n1 < serverIndex n2 then UA_ORDER_LESS else UA_ORDER_MORE
      else or_else (stringOrder (namespaceUri n1) (namespaceUri n2))
             (UA_NodeId_order (nodeId n1) (nodeId n2)))"

definition nodeIdOrder :: "UA_NodeId \<Rightarrow> UA_NodeId \<Rightarrow> UA_Order" where
  "nodeIdOrder = UA_NodeId_order"

definition expandedNodeIdOrder :: "UA_ExpandedNodeId \<Rightarrow> UA_ExpandedNodeId \<Rightarrow> UA_Order" where
  "expandedNodeIdOrder = UA_ExpandedNodeId_order"

definition qualifiedNameOrder :: "u16 \<Rightarrow> UA_String \<Rightarrow> u16 \<Rightarrow> UA_String \<Rightarrow> UA_Order" where
  "qualifiedNameOrder ns1 name1 ns2 name2 =
     (if ns1 \<noteq> ns2 then if ns1 < ns2 then UA_ORDER_LESS else UA_ORDER_MORE
      else stringOrder name1 name2)"

definition localizedTextOrder :: "UA_String \<Rightarrow> UA_String \<Rightarrow> UA_String \<Rightarrow> UA_String \<Rightarrow> UA_Order" where
  "localizedTextOrder locale1 text1 locale2 text2 =
     (let r = stringOrder locale1 locale2
      in if r \<noteq> UA_ORDER_EQ then r else stringOrder text1 text2)"

section \<open>Hashes\<close>

text \<open>The sdbm hash over the bytes in memory.\<close>

definition UA_ByteString_hash :: "u32 \<Rightarrow> u8 list \<Rightarrow> u32" where
  "UA_ByteString_hash initialHashValue bytes =
     fold (\<lambda>b h. ucast b + push_bit 6 h + push_bit 16 h - h) bytes initialHashValue"

definition string_bytes :: "UA_String \<Rightarrow> u8 list" where
  "string_bytes s = (case s of None \<Rightarrow> [] | Some bs \<Rightarrow> bs)"

definition UA_NodeId_hash :: "UA_NodeId \<Rightarrow> u32" where
  "UA_NodeId_hash n =
     (case nid n of
        NumericId i \<Rightarrow> UA_ByteString_hash (ucast (namespaceIndex n)) (UA_encode32 i)
      | StringId s \<Rightarrow> UA_ByteString_hash (ucast (namespaceIndex n)) (string_bytes s)
      | ByteStringId s \<Rightarrow> UA_ByteString_hash (ucast (namespaceIndex n)) (string_bytes s)
      | GuidId g \<Rightarrow> UA_ByteString_hash (ucast (namespaceIndex n)) (guid_bytes g))"

definition UA_ExpandedNodeId_hash :: "UA_ExpandedNodeId \<Rightarrow> u32" where
  "UA_ExpandedNodeId_hash n =
     (let h = UA_NodeId_hash (nodeId n);
          h = (if serverIndex n \<noteq> 0 then UA_ByteString_hash h (UA_encode32 (serverIndex n)) else h)
      in if string_length (namespaceUri n) \<noteq> 0
         then UA_ByteString_hash h (string_bytes (namespaceUri n)) else h)"

section \<open>Values with a type\<close>

type_synonym order_table = "tyref \<Rightarrow> ua_val \<Rightarrow> ua_val \<Rightarrow> UA_Order option"

text \<open>
  \<open>type2\<close> is the type of the first object, as in the code. A missing data pointer is dereferenced.
\<close>

fun extensionObjectOrder :: "order_table \<Rightarrow> ua_val \<Rightarrow> ua_val \<Rightarrow> UA_Order option" where
  "extensionObjectOrder jt (VEncodedEO enc1 tid1 body1) (VEncodedEO enc2 tid2 body2) =
     (if enc1 \<noteq> enc2 then Some (if eo_number enc1 < eo_number enc2 then UA_ORDER_LESS else UA_ORDER_MORE)
      else case enc1 of
             EO_NOBODY \<Rightarrow> Some UA_ORDER_EQ
           | _ \<Rightarrow> Some (let r = UA_NodeId_order tid1 tid2
                        in if r = UA_ORDER_EQ then stringOrder body1 body2 else r))"
| "extensionObjectOrder jt (VEncodedEO _ _ _) (VDecodedEO _ _) = Some UA_ORDER_LESS"
| "extensionObjectOrder jt (VDecodedEO _ _) (VEncodedEO _ _ _) = Some UA_ORDER_MORE"
| "extensionObjectOrder jt (VDecodedEO p1_type p1_data) (VDecodedEO p2_type p2_data) =
     (let type1 = p1_type; type2 = p1_type
      in if type1 \<noteq> type2 then Some (if the type1 < the type2 then UA_ORDER_LESS else UA_ORDER_MORE)
         else case type1 of
                None \<Rightarrow> Some UA_ORDER_EQ
              | Some t \<Rightarrow> (case (p1_data, p2_data) of (Some d1, Some d2) \<Rightarrow> jt t d1 d2 | _ \<Rightarrow> None))"
| "extensionObjectOrder jt _ _ = None"

fun elemsOrder :: "('a \<Rightarrow> 'a \<Rightarrow> UA_Order option) \<Rightarrow> 'a list \<Rightarrow> 'a list \<Rightarrow> UA_Order option" where
  "elemsOrder f (x # xs) (y # ys) = or_next (f x y) (elemsOrder f xs ys)"
| "elemsOrder f _ _ = Some UA_ORDER_EQ"

definition arrayOrder :: "('a \<Rightarrow> 'a \<Rightarrow> UA_Order option) \<Rightarrow> 'a list option \<Rightarrow> 'a list option \<Rightarrow> UA_Order option" where
  "arrayOrder f p1 p2 =
     (if array_length p1 \<noteq> array_length p2
      then Some (if array_length p1 < array_length p2 then UA_ORDER_LESS else UA_ORDER_MORE)
      else case (p1, p2) of
             (None, None) \<Rightarrow> Some UA_ORDER_EQ
           | (None, Some _) \<Rightarrow> Some UA_ORDER_LESS
           | (Some _, None) \<Rightarrow> Some UA_ORDER_MORE
           | (Some xs, Some ys) \<Rightarrow> elemsOrder f xs ys)"

text \<open>
  A variant by its parts: the pointer to the type (\<open>None\<close> for NULL), whether it is a scalar
  (\<^verbatim>\<open>UA_Variant_isScalar\<close>), its elements and its dimensions.
\<close>

fun variant_type :: "ua_val \<Rightarrow> tyref option" where
  "variant_type (VVariantScalar t _) = Some t"
| "variant_type (VVariantArray t _ _) = Some t"
| "variant_type _ = None"

fun UA_Variant_isScalar :: "ua_val \<Rightarrow> bool" where
  "UA_Variant_isScalar (VVariantScalar _ _) = True"
| "UA_Variant_isScalar _ = False"

fun variant_dimensions :: "ua_val \<Rightarrow> u32 list" where
  "variant_dimensions (VVariantArray _ _ dims) = dims"
| "variant_dimensions _ = []"

fun variant_array :: "ua_val \<Rightarrow> ua_val list option" where
  "variant_array (VVariantArray _ a _) = a"
| "variant_array _ = None"

fun is_variant :: "ua_val \<Rightarrow> bool" where
  "is_variant VVariantEmpty = True"
| "is_variant (VVariantScalar _ _) = True"
| "is_variant (VVariantArray _ _ _) = True"
| "is_variant _ = False"

fun type_below :: "tyref option \<Rightarrow> tyref option \<Rightarrow> bool" where
  "type_below None (Some _) = True"
| "type_below (Some t1) (Some t2) = (t1 < t2)"
| "type_below _ None = False"

definition dimensionsOrder :: "u32 list \<Rightarrow> u32 list \<Rightarrow> UA_Order option" where
  "dimensionsOrder d1 d2 =
     (if length d1 \<noteq> length d2
      then Some (if length d1 < length d2 then UA_ORDER_LESS else UA_ORDER_MORE)
      else if 0 < length d1 then arrayOrder (\<lambda>x y. Some (uInt32Order x y)) (Some d1) (Some d2)
      else Some UA_ORDER_EQ)"

definition variant_content_order :: "order_table \<Rightarrow> ua_val \<Rightarrow> ua_val \<Rightarrow> UA_Order option" where
  "variant_content_order jt p1 p2 =
     (case (p1, p2) of
        (VVariantScalar t d1, VVariantScalar _ d2) \<Rightarrow> jt t d1 d2
      | (VVariantArray t a1 _, VVariantArray _ a2 _) \<Rightarrow>
          if array_length a1 \<noteq> array_length a2
          then Some (if array_length a1 < array_length a2 then UA_ORDER_LESS else UA_ORDER_MORE)
          else arrayOrder (jt t) a1 a2
      | _ \<Rightarrow> None)"

definition variantOrder :: "order_table \<Rightarrow> ua_val \<Rightarrow> ua_val \<Rightarrow> UA_Order option" where
  "variantOrder jt p1 p2 =
     (if \<not> is_variant p1 \<or> \<not> is_variant p2 then None
      else if variant_type p1 \<noteq> variant_type p2
      then Some (if type_below (variant_type p1) (variant_type p2) then UA_ORDER_LESS else UA_ORDER_MORE)
      else or_next
             (if variant_type p1 = None then Some UA_ORDER_EQ
              else if UA_Variant_isScalar p1 \<noteq> UA_Variant_isScalar p2
              then Some (if UA_Variant_isScalar p1 then UA_ORDER_LESS else UA_ORDER_MORE)
              else variant_content_order jt p1 p2)
             (dimensionsOrder (variant_dimensions p1) (variant_dimensions p2)))"

text \<open>A part under its flag \<^verbatim>\<open>has...\<close>: the flags first, then the parts.\<close>

definition flaggedOrder :: "('a \<Rightarrow> 'a \<Rightarrow> UA_Order option) \<Rightarrow> 'a option \<Rightarrow> 'a option \<Rightarrow> UA_Order option" where
  "flaggedOrder f x y =
     (case (x, y) of
        (None, None) \<Rightarrow> Some UA_ORDER_EQ
      | (None, Some _) \<Rightarrow> Some UA_ORDER_LESS
      | (Some _, None) \<Rightarrow> Some UA_ORDER_MORE
      | (Some a, Some b) \<Rightarrow> f a b)"

fun dataValueOrder :: "order_table \<Rightarrow> ua_val \<Rightarrow> ua_val \<Rightarrow> UA_Order option" where
  "dataValueOrder jt (VDataValue v1 st1 sts1 sps1 vts1 vps1) (VDataValue v2 st2 sts2 sps2 vts2 vps2) =
     or_next (flaggedOrder (variantOrder jt) v1 v2)
    (or_next (flaggedOrder (\<lambda>x y. Some (uInt32Order x y)) st1 st2)
    (or_next (flaggedOrder (\<lambda>x y. Some (int64Order x y)) sts1 sts2)
    (or_next (flaggedOrder (\<lambda>x y. Some (int64Order x y)) vts1 vts2)
    (or_next (flaggedOrder (\<lambda>x y. Some (uInt16Order x y)) sps1 sps2)
             (flaggedOrder (\<lambda>x y. Some (uInt16Order x y)) vps1 vps2)))))"
| "dataValueOrder jt _ _ = None"

fun diagnosticInfoOrder :: "ua_val \<Rightarrow> ua_val \<Rightarrow> UA_Order option" where
  "diagnosticInfoOrder (VDiagnosticInfo sym1 ns1 lt1 loc1 add1 st1 inner1)
                       (VDiagnosticInfo sym2 ns2 lt2 loc2 add2 st2 inner2) =
     or_next (flaggedOrder (\<lambda>x y. Some (int32Order x y)) sym1 sym2)
    (or_next (flaggedOrder (\<lambda>x y. Some (int32Order x y)) ns1 ns2)
    (or_next (flaggedOrder (\<lambda>x y. Some (int32Order x y)) lt1 lt2)
    (or_next (flaggedOrder (\<lambda>x y. Some (int32Order x y)) loc1 loc2)
    (or_next (flaggedOrder (\<lambda>x y. Some (stringOrder x y)) add1 add2)
    (or_next (flaggedOrder (\<lambda>x y. Some (uInt32Order x y)) st1 st2)
       (case (inner1, inner2) of
          (None, None) \<Rightarrow> Some UA_ORDER_EQ
        | (None, Some _) \<Rightarrow> Some UA_ORDER_LESS
        | (Some _, None) \<Rightarrow> Some UA_ORDER_MORE
        | (Some d1, Some d2) \<Rightarrow> diagnosticInfoOrder d1 d2))))))"
| "diagnosticInfoOrder _ _ = None"

fun memberOrder :: "order_table \<Rightarrow> UA_DataTypeMember \<Rightarrow> ua_field \<Rightarrow> ua_field \<Rightarrow> UA_Order option" where
  "memberOrder jt m (FScalar v1) (FScalar v2) =
     (if \<not> isOptional m \<and> \<not> isArray m then jt (memberType m) v1 v2 else None)"
| "memberOrder jt m (FArray a1) (FArray a2) =
     (if \<not> isOptional m \<and> isArray m then arrayOrder (jt (memberType m)) a1 a2 else None)"
| "memberOrder jt m (FOptScalar x1) (FOptScalar x2) =
     (if isOptional m \<and> \<not> isArray m then flaggedOrder (jt (memberType m)) x1 x2 else None)"
| "memberOrder jt m (FOptArray a1) (FOptArray a2) =
     (if isOptional m \<and> isArray m then arrayOrder (jt (memberType m)) a1 a2 else None)"
| "memberOrder jt m _ _ = None"

fun membersOrder :: "order_table \<Rightarrow> UA_DataTypeMember list \<Rightarrow> ua_field list \<Rightarrow> ua_field list \<Rightarrow> UA_Order option" where
  "membersOrder jt [] [] [] = Some UA_ORDER_EQ"
| "membersOrder jt (m # ms) (f1 # fs1) (f2 # fs2) = or_next (memberOrder jt m f1 f2) (membersOrder jt ms fs1 fs2)"
| "membersOrder jt _ _ _ = None"

fun structureOrder :: "type_env \<Rightarrow> order_table \<Rightarrow> tyref \<Rightarrow> ua_val \<Rightarrow> ua_val \<Rightarrow> UA_Order option" where
  "structureOrder env jt t (VStruct fs1) (VStruct fs2) = membersOrder jt (members (ty_at env t)) fs1 fs2"
| "structureOrder env jt t _ _ = None"

fun union_memberOrder :: "order_table \<Rightarrow> UA_DataTypeMember \<Rightarrow> ua_field \<Rightarrow> ua_field \<Rightarrow> UA_Order option" where
  "union_memberOrder jt m (FScalar v1) (FScalar v2) = (if \<not> isArray m then jt (memberType m) v1 v2 else None)"
| "union_memberOrder jt m (FArray a1) (FArray a2) = (if isArray m then arrayOrder (jt (memberType m)) a1 a2 else None)"
| "union_memberOrder jt m _ _ = None"

fun unionOrder :: "type_env \<Rightarrow> order_table \<Rightarrow> tyref \<Rightarrow> ua_val \<Rightarrow> ua_val \<Rightarrow> UA_Order option" where
  "unionOrder env jt t (VUnion sel1 f1) (VUnion sel2 f2) =
     (if sel1 \<noteq> sel2 then Some (if sel1 < sel2 then UA_ORDER_LESS else UA_ORDER_MORE)
      else if sel1 = 0 then Some UA_ORDER_EQ
      else if unat (sel1 - 1) < length (members (ty_at env t))
      then union_memberOrder jt (members (ty_at env t) ! unat (sel1 - 1)) f1 f2 else None)"
| "unionOrder env jt t _ _ = None"

section \<open>The jump table\<close>

definition order8 :: "(u8 \<Rightarrow> u8 \<Rightarrow> UA_Order) \<Rightarrow> ua_val \<Rightarrow> ua_val \<Rightarrow> UA_Order option" where
  "order8 f p1 p2 = (case (p1, p2) of (VU8 a, VU8 b) \<Rightarrow> Some (f a b) | _ \<Rightarrow> None)"

definition order16 :: "(u16 \<Rightarrow> u16 \<Rightarrow> UA_Order) \<Rightarrow> ua_val \<Rightarrow> ua_val \<Rightarrow> UA_Order option" where
  "order16 f p1 p2 = (case (p1, p2) of (VU16 a, VU16 b) \<Rightarrow> Some (f a b) | _ \<Rightarrow> None)"

definition order32 :: "(u32 \<Rightarrow> u32 \<Rightarrow> UA_Order) \<Rightarrow> ua_val \<Rightarrow> ua_val \<Rightarrow> UA_Order option" where
  "order32 f p1 p2 = (case (p1, p2) of (VU32 a, VU32 b) \<Rightarrow> Some (f a b) | _ \<Rightarrow> None)"

definition order64 :: "(u64 \<Rightarrow> u64 \<Rightarrow> UA_Order) \<Rightarrow> ua_val \<Rightarrow> ua_val \<Rightarrow> UA_Order option" where
  "order64 f p1 p2 = (case (p1, p2) of (VU64 a, VU64 b) \<Rightarrow> Some (f a b) | _ \<Rightarrow> None)"

definition order_string :: "ua_val \<Rightarrow> ua_val \<Rightarrow> UA_Order option" where
  "order_string p1 p2 = (case (p1, p2) of (VString a, VString b) \<Rightarrow> Some (stringOrder a b) | _ \<Rightarrow> None)"

definition order_dispatch :: "type_env \<Rightarrow> order_table \<Rightarrow> order_table" where
  "order_dispatch env jt t p1 p2 =
     (case kind_at env t of
        DK_BOOLEAN \<Rightarrow> order8 booleanOrder p1 p2
      | DK_SBYTE \<Rightarrow> order8 sByteOrder p1 p2
      | DK_BYTE \<Rightarrow> order8 byteOrder p1 p2
      | DK_INT16 \<Rightarrow> order16 int16Order p1 p2
      | DK_UINT16 \<Rightarrow> order16 uInt16Order p1 p2
      | DK_INT32 \<Rightarrow> order32 int32Order p1 p2
      | DK_UINT32 \<Rightarrow> order32 uInt32Order p1 p2
      | DK_INT64 \<Rightarrow> order64 int64Order p1 p2
      | DK_UINT64 \<Rightarrow> order64 uInt64Order p1 p2
      | DK_FLOAT \<Rightarrow> order32 floatOrder p1 p2
      | DK_DOUBLE \<Rightarrow> order64 doubleOrder p1 p2
      | DK_STRING \<Rightarrow> order_string p1 p2
      | DK_DATETIME \<Rightarrow> order64 int64Order p1 p2
      | DK_GUID \<Rightarrow> (case (p1, p2) of (VGuid a, VGuid b) \<Rightarrow> Some (guidOrder a b) | _ \<Rightarrow> None)
      | DK_BYTESTRING \<Rightarrow> order_string p1 p2
      | DK_XMLELEMENT \<Rightarrow> order_string p1 p2
      | DK_NODEID \<Rightarrow> (case (p1, p2) of (VNodeId a, VNodeId b) \<Rightarrow> Some (nodeIdOrder a b) | _ \<Rightarrow> None)
      | DK_EXPANDEDNODEID \<Rightarrow>
          (case (p1, p2) of (VExpandedNodeId a, VExpandedNodeId b) \<Rightarrow> Some (expandedNodeIdOrder a b) | _ \<Rightarrow> None)
      | DK_STATUSCODE \<Rightarrow> order32 uInt32Order p1 p2
      | DK_QUALIFIEDNAME \<Rightarrow>
          (case (p1, p2) of (VQualifiedName n1 s1, VQualifiedName n2 s2) \<Rightarrow> Some (qualifiedNameOrder n1 s1 n2 s2) | _ \<Rightarrow> None)
      | DK_LOCALIZEDTEXT \<Rightarrow>
          (case (p1, p2) of (VLocalizedText l1 s1, VLocalizedText l2 s2) \<Rightarrow> Some (localizedTextOrder l1 s1 l2 s2) | _ \<Rightarrow> None)
      | DK_EXTENSIONOBJECT \<Rightarrow> extensionObjectOrder jt p1 p2
      | DK_DATAVALUE \<Rightarrow> dataValueOrder jt p1 p2
      | DK_VARIANT \<Rightarrow> variantOrder jt p1 p2
      | DK_DIAGNOSTICINFO \<Rightarrow> diagnosticInfoOrder p1 p2
      | DK_DECIMAL \<Rightarrow> Some UA_ORDER_EQ
      | DK_ENUM \<Rightarrow> order32 uInt32Order p1 p2
      | DK_STRUCTURE \<Rightarrow> structureOrder env jt t p1 p2
      | DK_OPTSTRUCT \<Rightarrow> structureOrder env jt t p1 p2
      | DK_UNION \<Rightarrow> unionOrder env jt t p1 p2
      | DK_BITFIELDCLUSTER \<Rightarrow> Some UA_ORDER_EQ)"

fun orderJumpTable :: "type_env \<Rightarrow> nat \<Rightarrow> order_table" where
  "orderJumpTable env 0 t p1 p2 = None"
| "orderJumpTable env (Suc n) t p1 p2 = order_dispatch env (orderJumpTable env n) t p1 p2"

definition UA_order :: "type_env \<Rightarrow> ua_val \<Rightarrow> ua_val \<Rightarrow> tyref \<Rightarrow> UA_Order option" where
  "UA_order env p1 p2 t = orderJumpTable env (Suc (size p1 + size p2)) t p1 p2"

end
