(* ===== verification/Sub_State.thy ===== *)
theory Sub_State
  imports Timer Value_Order
begin

text \<open>
  The state of the subscriptions of a server: notifications, monitored items and subscriptions
  (\<^verbatim>\<open>src/server/ua_subscription.h\<close>), sessions with their queue of publish requests
  (\<^verbatim>\<open>src/server/ua_session.h\<close>), and the parts of \<^verbatim>\<open>UA_Server\<close> and its configuration they use.

  The structures refer to each other by pointer, so the server of the model holds a map from addresses
  for each kind; 0 is NULL. A \<^verbatim>\<open>TAILQ\<close>, \<^verbatim>\<open>LIST\<close> or \<^verbatim>\<open>SIMPLEQ\<close> is the list of its entries. The
  sentinel \<^verbatim>\<open>UA_SUBSCRIPTION_QUEUE_SENTINEL\<close> in the links of a notification, which marks it as not
  enqueued, is a flag for each queue. The sizes of queues are natural numbers.

  \<open>srv_mallocs\<close> holds the results of the coming allocations (0, or the end of the list, for a
  failure); \<open>srv_now\<close> and \<open>srv_nowMonotonic\<close> are the two clocks; \<open>srv_sent\<close> is what was handed to the secure channels. The
  binary encoding of those messages is the subject of the codec and channel theories. The diagnostics
  counters (\<^verbatim>\<open>UA_ENABLE_DIAGNOSTICS\<close>, off by default) and the log are not modelled.
\<close>

section \<open>Status codes and constants\<close>

definition UA_STATUSCODE_BADTIMEOUT :: status where
  [status_defs]: "UA_STATUSCODE_BADTIMEOUT = 0x800A0000"

definition UA_STATUSCODE_BADNOTHINGTODO :: status where
  [status_defs]: "UA_STATUSCODE_BADNOTHINGTODO = 0x800F0000"

definition UA_STATUSCODE_BADUSERACCESSDENIED :: status where
  [status_defs]: "UA_STATUSCODE_BADUSERACCESSDENIED = 0x801F0000"

definition UA_STATUSCODE_BADSUBSCRIPTIONIDINVALID :: status where
  [status_defs]: "UA_STATUSCODE_BADSUBSCRIPTIONIDINVALID = 0x80280000"

definition UA_STATUSCODE_GOODSUBSCRIPTIONTRANSFERRED :: status where
  [status_defs]: "UA_STATUSCODE_GOODSUBSCRIPTIONTRANSFERRED = 0x002D0000"

definition UA_STATUSCODE_BADNODEIDUNKNOWN :: status where
  [status_defs]: "UA_STATUSCODE_BADNODEIDUNKNOWN = 0x80340000"

definition UA_STATUSCODE_BADMONITORINGMODEINVALID :: status where
  [status_defs]: "UA_STATUSCODE_BADMONITORINGMODEINVALID = 0x80410000"

definition UA_STATUSCODE_BADMONITOREDITEMIDINVALID :: status where
  [status_defs]: "UA_STATUSCODE_BADMONITOREDITEMIDINVALID = 0x80420000"

definition UA_STATUSCODE_BADTOOMANYOPERATIONS :: status where
  [status_defs]: "UA_STATUSCODE_BADTOOMANYOPERATIONS = 0x80100000"

definition UA_STATUSCODE_BADTIMESTAMPSTORETURNINVALID :: status where
  [status_defs]: "UA_STATUSCODE_BADTIMESTAMPSTORETURNINVALID = 0x802B0000"

definition UA_STATUSCODE_BADATTRIBUTEIDINVALID :: status where
  [status_defs]: "UA_STATUSCODE_BADATTRIBUTEIDINVALID = 0x80350000"

definition UA_STATUSCODE_BADINDEXRANGEINVALID :: status where
  [status_defs]: "UA_STATUSCODE_BADINDEXRANGEINVALID = 0x80360000"

definition UA_STATUSCODE_BADDATAENCODINGINVALID :: status where
  [status_defs]: "UA_STATUSCODE_BADDATAENCODINGINVALID = 0x80380000"

definition UA_STATUSCODE_BADDATAENCODINGUNSUPPORTED :: status where
  [status_defs]: "UA_STATUSCODE_BADDATAENCODINGUNSUPPORTED = 0x80390000"

definition UA_STATUSCODE_BADNOTSUPPORTED :: status where
  [status_defs]: "UA_STATUSCODE_BADNOTSUPPORTED = 0x803D0000"

definition UA_STATUSCODE_BADMONITOREDITEMFILTERUNSUPPORTED :: status where
  [status_defs]: "UA_STATUSCODE_BADMONITOREDITEMFILTERUNSUPPORTED = 0x80440000"

definition UA_STATUSCODE_BADFILTERNOTALLOWED :: status where
  [status_defs]: "UA_STATUSCODE_BADFILTERNOTALLOWED = 0x80450000"

definition UA_STATUSCODE_BADEVENTFILTERINVALID :: status where
  [status_defs]: "UA_STATUSCODE_BADEVENTFILTERINVALID = 0x80470000"

definition UA_STATUSCODE_BADCONFIGURATIONERROR :: status where
  [status_defs]: "UA_STATUSCODE_BADCONFIGURATIONERROR = 0x80890000"

definition UA_STATUSCODE_BADDEADBANDFILTERINVALID :: status where
  [status_defs]: "UA_STATUSCODE_BADDEADBANDFILTERINVALID = 0x808E0000"

definition UA_STATUSCODE_BADTOOMANYMONITOREDITEMS :: status where
  [status_defs]: "UA_STATUSCODE_BADTOOMANYMONITOREDITEMS = 0x80DB0000"

definition UA_STATUSCODE_BADTOOMANYSUBSCRIPTIONS :: status where
  [status_defs]: "UA_STATUSCODE_BADTOOMANYSUBSCRIPTIONS = 0x80770000"

definition UA_STATUSCODE_BADTOOMANYPUBLISHREQUESTS :: status where
  [status_defs]: "UA_STATUSCODE_BADTOOMANYPUBLISHREQUESTS = 0x80780000"

definition UA_STATUSCODE_BADNOSUBSCRIPTION :: status where
  [status_defs]: "UA_STATUSCODE_BADNOSUBSCRIPTION = 0x80790000"

definition UA_STATUSCODE_BADSEQUENCENUMBERUNKNOWN :: status where
  [status_defs]: "UA_STATUSCODE_BADSEQUENCENUMBERUNKNOWN = 0x807A0000"

definition UA_STATUSCODE_BADMESSAGENOTAVAILABLE :: status where
  [status_defs]: "UA_STATUSCODE_BADMESSAGENOTAVAILABLE = 0x807B0000"

definition OVERFLOW_INFOBITS :: u32 where
  "OVERFLOW_INFOBITS = 0x00000400 OR 0x00000080"

definition UA_MAX_RETRANSMISSIONQUEUESIZE :: nat where
  "UA_MAX_RETRANSMISSIONQUEUESIZE = 256"

definition UA_ATTRIBUTEID_EVENTNOTIFIER :: u32 where
  "UA_ATTRIBUTEID_EVENTNOTIFIER = 12"

definition UA_ATTRIBUTEID_VALUE :: u32 where
  "UA_ATTRIBUTEID_VALUE = 13"

definition UA_MONITORINGMODE_DISABLED :: u32 where "UA_MONITORINGMODE_DISABLED = 0"
definition UA_MONITORINGMODE_SAMPLING :: u32 where "UA_MONITORINGMODE_SAMPLING = 1"
definition UA_MONITORINGMODE_REPORTING :: u32 where "UA_MONITORINGMODE_REPORTING = 2"

definition UA_INT64_MIN :: int where "UA_INT64_MIN = - (2 ^ 63)"

text \<open>The identifier of the event type that reports lost events: \<^verbatim>\<open>EventQueueOverflowEventType\<close>.\<close>

definition eventQueueOverflowEventType :: UA_NodeId where
  "eventQueueOverflowEventType = \<lparr>namespaceIndex = 0, nid = NumericId 3035\<rparr>"

section \<open>Notifications\<close>

record UA_DataValue =
  dv_value :: ua_val
  dv_sourceTimestamp :: u64
  dv_serverTimestamp :: u64
  dv_sourcePicoseconds :: u16
  dv_serverPicoseconds :: u16
  dv_status :: u32
  dv_hasValue :: bool
  dv_hasStatus :: bool
  dv_hasSourceTimestamp :: bool
  dv_hasServerTimestamp :: bool
  dv_hasSourcePicoseconds :: bool
  dv_hasServerPicoseconds :: bool

record UA_MonitoredItemNotification =
  min_clientHandle :: u32
  min_value :: UA_DataValue

record UA_EventFieldList =
  ev_clientHandle :: u32
  ev_eventFields :: "ua_val list"

text \<open>The union of \<^verbatim>\<open>UA_Notification\<close>: the event is used if the attribute is the event notifier.\<close>

datatype notification_data = DataChange UA_MonitoredItemNotification | Event UA_EventFieldList

record UA_Notification =
  not_mon :: ptr
  not_data :: notification_data
  not_isOverflowEvent :: bool
  not_local :: bool
  not_global :: bool

datatype UA_NotificationData =
  DataChangeNotification "UA_MonitoredItemNotification list"
| EventNotificationList "UA_EventFieldList list"
| StatusChangeNotification status

record UA_NotificationMessage =
  msg_sequenceNumber :: u32
  msg_publishTime :: int
  msg_notificationData :: "UA_NotificationData list"

section \<open>Monitored items\<close>

datatype UA_MonitoredItemSamplingType =
  UA_MONITOREDITEMSAMPLINGTYPE_NONE
| UA_MONITOREDITEMSAMPLINGTYPE_CYCLIC
| UA_MONITOREDITEMSAMPLINGTYPE_EVENT
| UA_MONITOREDITEMSAMPLINGTYPE_PUBLISH

text \<open>
  The filter of an item is an extension object: encoded, or decoded with a type. Of the decoded types the
  two filters of the stack matter; any other, or none, is an \<open>OtherFilter\<close>.
\<close>

record UA_DataChangeFilter =
  dcf_trigger :: u32
  dcf_deadbandType :: u32
  dcf_deadbandValue :: UA_Double

record UA_SimpleAttributeOperand =
  sao_typeDefinitionId :: UA_NodeId
  sao_browsePath :: "(u16 \<times> UA_String) list option"
  sao_attributeId :: u32
  sao_indexRange :: UA_String

text \<open>
  An operand of a where clause is an extension object: one of the three decoded types that the code
  evaluates, or anything else.
\<close>

datatype UA_FilterOperand =
  ElementOperand u32
| LiteralOperand ua_val
| SimpleAttributeOperand UA_SimpleAttributeOperand
| OtherOperand

record UA_ContentFilterElement =
  cfe_filterOperator :: u32
  cfe_filterOperands :: "UA_FilterOperand list"

record UA_EventFilter =
  ef_selectClauses :: "UA_SimpleAttributeOperand list"
  ef_whereClause :: "UA_ContentFilterElement list"

datatype UA_MonitoringFilter =
  EncodedFilter UA_ExtensionObjectEncoding UA_NodeId UA_String
| DataChangeFilter UA_DataChangeFilter
| EventFilter UA_EventFilter
| OtherFilter "tyref option" "ua_val option"

text \<open>
  \<^verbatim>\<open>itemToMonitor\<close> and \<^verbatim>\<open>parameters\<close> by their fields; \<^verbatim>\<open>parameters.queueSize\<close> is \<open>mon_maxQueueSize\<close>. The union
  \<^verbatim>\<open>sampling\<close> is the identifier of the cyclic callback; its two list links are the lists of the node and
  of the subscription.
\<close>

record UA_MonitoredItem =
  mon_subscription :: ptr
  mon_monitoredItemId :: u32
  mon_nodeId :: UA_NodeId
  mon_attributeId :: u32
  mon_indexRange :: UA_String
  mon_dataEncoding :: "u16 \<times> UA_String"
  mon_timestampsToReturn :: u32
  mon_monitoringMode :: u32
  mon_registered :: bool
  mon_triggeredUntil :: int
  mon_clientHandle :: u32
  mon_samplingInterval :: UA_Double
  mon_filter :: UA_MonitoringFilter
  mon_maxQueueSize :: nat
  mon_discardOldest :: bool
  mon_samplingType :: UA_MonitoredItemSamplingType
  mon_callbackId :: u64
  mon_lastValue :: UA_DataValue
  mon_triggeringLinks :: "u32 list"
  mon_queue :: "ptr list"
  mon_queueSize :: nat
  mon_eventOverflows :: nat

section \<open>Subscriptions\<close>

datatype UA_SubscriptionState =
  UA_SUBSCRIPTIONSTATE_NORMAL | UA_SUBSCRIPTIONSTATE_LATE | UA_SUBSCRIPTIONSTATE_KEEPALIVE

record UA_Subscription =
  sub_session :: ptr
  sub_subscriptionId :: u32
  sub_lifeTimeCount :: u32
  sub_maxKeepAliveCount :: u32
  sub_publishingInterval :: rat
  sub_notificationsPerPublish :: u32
  sub_publishingEnabled :: bool
  sub_priority :: u8
  sub_state :: UA_SubscriptionState
  sub_statusChange :: status
  sub_nextSequenceNumber :: u32
  sub_currentKeepAliveCount :: u32
  sub_currentLifetimeCount :: u32
  sub_publishCallbackId :: u64
  sub_lastMonitoredItemId :: u32
  sub_monitoredItems :: "ptr list"
  sub_monitoredItemsSize :: nat
  sub_samplingMonitoredItems :: "ptr list"
  sub_samplingStale :: bool
  sub_notificationQueue :: "ptr list"
  sub_notificationQueueSize :: nat
  sub_dataChangeNotifications :: nat
  sub_eventNotifications :: nat
  sub_retransmissionQueue :: "UA_NotificationMessage list"
  sub_retransmissionQueueSize :: nat

section \<open>Sessions\<close>

record UA_PublishResponse =
  res_requestHandle :: u32
  res_timestamp :: int
  res_serviceResult :: status
  res_subscriptionId :: u32
  res_availableSequenceNumbers :: "u32 list"
  res_moreNotifications :: bool
  res_notificationMessage :: UA_NotificationMessage
  res_results :: "status list"

record UA_PublishResponseEntry =
  pre_requestId :: u32
  pre_response :: UA_PublishResponse

text \<open>The fields of a session that concern its subscriptions; the channel is \<^verbatim>\<open>header.channel\<close>.\<close>

record UA_Session =
  ses_channel :: ptr
  ses_subscriptionsSize :: nat
  ses_subscriptions :: "ptr list"
  ses_responseQueueSize :: nat
  ses_responseQueue :: "UA_PublishResponseEntry list"
  ses_totalRetransmissionQueueSize :: nat

section \<open>The server\<close>

text \<open>What is handed to a secure channel: channel, request id, and the response or the fault.\<close>

datatype outgoing =
  SentResponse ptr u32 UA_PublishResponse
| SentFault ptr u32 u32 status

text \<open>
  \<open>cfg_allowTransfer\<close> is the decision of the access control on a transfer from an old session (0 for
  none) to a new one; \<open>cfg_round\<close> is the rounding of a product of doubles, see \<open>interval_ticks\<close>. The
  conversion of a double that is not finite to an integer is undefined in C; \<open>cfg_notFinite\<close> is the
  interval that the conversion behaves like.
\<close>

record UA_ServerConfig =
  cfg_maxSubscriptions :: u32
  cfg_maxSubscriptionsPerSession :: u32
  cfg_publishingInterval_min :: rat
  cfg_publishingInterval_max :: rat
  cfg_lifeTimeCount_min :: u32
  cfg_lifeTimeCount_max :: u32
  cfg_keepAliveCount_min :: u32
  cfg_keepAliveCount_max :: u32
  cfg_maxNotificationsPerPublish :: u32
  cfg_enableRetransmissionQueue :: bool
  cfg_maxRetransmissionQueueSize :: u32
  cfg_maxPublishReqPerSession :: u32
  cfg_maxMonitoredItems :: u32
  cfg_maxMonitoredItemsPerSubscription :: u32
  cfg_maxMonitoredItemsPerCall :: u32
  cfg_samplingInterval_min :: rat
  cfg_samplingInterval_max :: rat
  cfg_queueSize_min :: u32
  cfg_queueSize_max :: u32
  cfg_allowTransfer :: "ptr \<Rightarrow> ptr \<Rightarrow> bool"
  cfg_round :: "rat \<Rightarrow> rat"
  cfg_notFinite :: rat

text \<open>
  \<open>srv_undefined\<close>: an item was taken from the front of a list whose first item points back into another
  structure (\<open>sub_samplingStale\<close>); the code writes there, into memory that it has released or is about
  to release, and leaves the list as it was.

  \<open>srv_nodes\<close>: for every node of the address space, the list of the monitored items attached to it.\<close>

record UA_Server =
  srv_config :: UA_ServerConfig
  srv_timer :: UA_Timer
  srv_subscriptionsSize :: nat
  srv_monitoredItemsSize :: nat
  srv_subscriptions :: "ptr list"
  srv_lastSubscriptionId :: u32
  srv_currentSubscriptionCount :: u32
  srv_cumulatedSubscriptionCount :: u32
  srv_nodes :: "UA_NodeId \<rightharpoonup> ptr list"
  srv_localMonitoredItems :: "ptr list"
  srv_lastLocalMonitoredItemId :: u32
  srv_notifications :: "ptr \<rightharpoonup> UA_Notification"
  srv_monitored :: "ptr \<rightharpoonup> UA_MonitoredItem"
  srv_subs :: "ptr \<rightharpoonup> UA_Subscription"
  srv_sessions :: "ptr \<rightharpoonup> UA_Session"
  srv_now :: int
  srv_nowMonotonic :: int
  srv_mallocs :: "ptr list"
  srv_sent :: "outgoing list"
  srv_undefined :: bool

section \<open>Access\<close>

definition the_not :: "UA_Server \<Rightarrow> ptr \<Rightarrow> UA_Notification" where "the_not s n = the (srv_notifications s n)"
definition the_mon :: "UA_Server \<Rightarrow> ptr \<Rightarrow> UA_MonitoredItem" where "the_mon s m = the (srv_monitored s m)"
definition the_sub :: "UA_Server \<Rightarrow> ptr \<Rightarrow> UA_Subscription" where "the_sub s p = the (srv_subs s p)"
definition the_ses :: "UA_Server \<Rightarrow> ptr \<Rightarrow> UA_Session" where "the_ses s p = the (srv_sessions s p)"

definition upd_at :: "ptr \<Rightarrow> ('a \<Rightarrow> 'a) \<Rightarrow> (ptr \<rightharpoonup> 'a) \<Rightarrow> (ptr \<rightharpoonup> 'a)" where
  "upd_at p f h = h(p := map_option f (h p))"

definition mod_not :: "ptr \<Rightarrow> (UA_Notification \<Rightarrow> UA_Notification) \<Rightarrow> UA_Server \<Rightarrow> UA_Server" where
  "mod_not p f s = s\<lparr>srv_notifications := upd_at p f (srv_notifications s)\<rparr>"

definition mod_mon :: "ptr \<Rightarrow> (UA_MonitoredItem \<Rightarrow> UA_MonitoredItem) \<Rightarrow> UA_Server \<Rightarrow> UA_Server" where
  "mod_mon p f s = s\<lparr>srv_monitored := upd_at p f (srv_monitored s)\<rparr>"

definition mod_sub :: "ptr \<Rightarrow> (UA_Subscription \<Rightarrow> UA_Subscription) \<Rightarrow> UA_Server \<Rightarrow> UA_Server" where
  "mod_sub p f s = s\<lparr>srv_subs := upd_at p f (srv_subs s)\<rparr>"

definition mod_ses :: "ptr \<Rightarrow> (UA_Session \<Rightarrow> UA_Session) \<Rightarrow> UA_Server \<Rightarrow> UA_Server" where
  "mod_ses p f s = s\<lparr>srv_sessions := upd_at p f (srv_sessions s)\<rparr>"

text \<open>
  The callbacks of the server (\<^verbatim>\<open>src/server/ua_server.c\<close>) go to its timer, with the server as their
  application. The numbers stand for the function pointers.
\<close>

definition SERVER :: ptr where "SERVER = 1"
definition PUBLISH_CALLBACK :: ptr where "PUBLISH_CALLBACK = 1"
definition SAMPLE_CALLBACK :: ptr where "SAMPLE_CALLBACK = 2"

definition malloc :: "UA_Server \<Rightarrow> ptr \<times> UA_Server" where
  "malloc s = (case srv_mallocs s of [] \<Rightarrow> (0, s) | p # ps \<Rightarrow> (p, s\<lparr>srv_mallocs := ps\<rparr>))"

definition addRepeatedCallback :: "ptr \<Rightarrow> ptr \<Rightarrow> rat \<Rightarrow> UA_Server \<Rightarrow> status \<times> u64 option \<times> UA_Server" where
  "addRepeatedCallback cb dat interval_ms s =
     (let (te, s) = malloc s;
          (res, t, cid) = UA_Timer_addRepeatedCallback te (srv_nowMonotonic s) (cfg_round (srv_config s)) (srv_timer s)
            cb SERVER dat interval_ms None UA_TIMER_HANDLE_CYCLEMISS_WITH_CURRENTTIME
      in (res, cid, s\<lparr>srv_timer := t\<rparr>))"

definition sampling_ms :: "UA_Server \<Rightarrow> UA_Double \<Rightarrow> rat" where
  "sampling_ms s d = (case d of Finite r \<Rightarrow> r | _ \<Rightarrow> cfg_notFinite (srv_config s))"

definition changeRepeatedCallbackInterval :: "u64 \<Rightarrow> rat \<Rightarrow> UA_Server \<Rightarrow> status \<times> UA_Server" where
  "changeRepeatedCallbackInterval callbackId interval_ms s =
     (let (res, t) = UA_Timer_changeRepeatedCallback (srv_nowMonotonic s) (cfg_round (srv_config s)) (srv_timer s)
            callbackId interval_ms None UA_TIMER_HANDLE_CYCLEMISS_WITH_CURRENTTIME
      in (res, s\<lparr>srv_timer := t\<rparr>))"

definition removeCallback :: "u64 \<Rightarrow> UA_Server \<Rightarrow> UA_Server" where
  "removeCallback callbackId s = s\<lparr>srv_timer := UA_Timer_removeCallback (srv_timer s) callbackId\<rparr>"

text \<open>
  A structure that begins with a timer entry is released later: the entry without a callback is due in
  one step, and the timer releases its memory.
\<close>

definition delayed_free :: "ptr \<Rightarrow> UA_Server \<Rightarrow> UA_Server" where
  "delayed_free p s =
     s\<lparr>srv_timer := fst (UA_Timer_addTimerEntry (srv_timer s) p
        \<lparr>timerPolicy = UA_TIMER_HANDLE_CYCLEMISS_WITH_CURRENTTIME, nextTime = int64 (srv_nowMonotonic s + 1),
         interval = 0, callback = 0, application = SERVER, cbData = 0, entryId = 0\<rparr>)\<rparr>"

end
