(* ===== verification/Sub_Notification.thy ===== *)
theory Sub_Notification
  imports Sub_State
begin

text \<open>
  The two queues of a notification, \<^verbatim>\<open>src/server/ua_subscription_monitoreditem.c\<close>: every notification
  is in the queue of its monitored item, and the reported ones are also in the queue of the
  subscription, from which they are published. When the queue of an item is full, a notification is
  dropped and the loss is marked: by the overflow bits of a value or by an overflow event.
\<close>

section \<open>Lists with links\<close>

fun insert_before :: "'a \<Rightarrow> 'a \<Rightarrow> 'a list \<Rightarrow> 'a list" where
  "insert_before x y [] = []"
| "insert_before x y (z # zs) = (if z = x then y # z # zs else z # insert_before x y zs)"

fun insert_after :: "'a \<Rightarrow> 'a \<Rightarrow> 'a list \<Rightarrow> 'a list" where
  "insert_after x y [] = []"
| "insert_after x y (z # zs) = (if z = x then z # y # zs else z # insert_after x y zs)"

definition tailq_prev :: "'a \<Rightarrow> 'a list \<Rightarrow> 'a option" where
  "tailq_prev x xs = final_one (in_front x xs)"

definition tailq_next :: "'a \<Rightarrow> 'a list \<Rightarrow> 'a option" where
  "tailq_next x xs = first (behind x xs)"

section \<open>Enqueueing in the subscription\<close>

definition is_event_item :: "UA_Server \<Rightarrow> ptr \<Rightarrow> bool" where
  "is_event_item s m = (mon_attributeId (the_mon s m) = UA_ATTRIBUTEID_EVENTNOTIFIER)"

definition UA_Notification_enqueueSub :: "ptr \<Rightarrow> UA_Server \<Rightarrow> UA_Server" where
  "UA_Notification_enqueueSub n s =
     (let m = not_mon (the_not s n);
          p = mon_subscription (the_mon s m)
      in if not_global (the_not s n) then s
         else let s = mod_not n (not_global_update (\<lambda>_. True)) s;
                  s = mod_sub p (\<lambda>u. u\<lparr>sub_notificationQueue := sub_notificationQueue u @ [n],
                                       sub_notificationQueueSize := sub_notificationQueueSize u + 1\<rparr>) s
              in if is_event_item s m
                 then mod_sub p (\<lambda>u. u\<lparr>sub_eventNotifications := sub_eventNotifications u + 1\<rparr>) s
                 else mod_sub p (\<lambda>u. u\<lparr>sub_dataChangeNotifications := sub_dataChangeNotifications u + 1\<rparr>) s)"

definition UA_Notification_dequeueSub :: "ptr \<Rightarrow> UA_Server \<Rightarrow> UA_Server" where
  "UA_Notification_dequeueSub n s =
     (if \<not> not_global (the_not s n) then s
      else let m = not_mon (the_not s n);
               p = mon_subscription (the_mon s m);
               s = (if is_event_item s m
                    then mod_sub p (\<lambda>u. u\<lparr>sub_eventNotifications := sub_eventNotifications u - 1\<rparr>) s
                    else mod_sub p (\<lambda>u. u\<lparr>sub_dataChangeNotifications := sub_dataChangeNotifications u - 1\<rparr>) s);
               s = mod_sub p (\<lambda>u. u\<lparr>sub_notificationQueue := remove1 n (sub_notificationQueue u),
                                    sub_notificationQueueSize := sub_notificationQueueSize u - 1\<rparr>) s
           in mod_not n (not_global_update (\<lambda>_. False)) s)"

definition UA_Notification_dequeueMon :: "ptr \<Rightarrow> UA_Server \<Rightarrow> UA_Server" where
  "UA_Notification_dequeueMon n s =
     (if \<not> not_local (the_not s n) then s
      else let m = not_mon (the_not s n);
               s = (if not_isOverflowEvent (the_not s n)
                    then mod_mon m (\<lambda>i. i\<lparr>mon_eventOverflows := mon_eventOverflows i - 1\<rparr>) s else s);
               s = mod_mon m (\<lambda>i. i\<lparr>mon_queue := remove1 n (mon_queue i), mon_queueSize := mon_queueSize i - 1\<rparr>) s
           in mod_not n (not_local_update (\<lambda>_. False)) s)"

definition UA_Notification_delete :: "ptr \<Rightarrow> UA_Server \<Rightarrow> UA_Server" where
  "UA_Notification_delete n s =
     (let s = (if not_mon (the_not s n) \<noteq> 0
               then UA_Notification_dequeueSub n (UA_Notification_dequeueMon n s) else s)
      in s\<lparr>srv_notifications := (srv_notifications s)(n := None)\<rparr>)"

definition UA_DataValue_init :: UA_DataValue where
  "UA_DataValue_init =
     \<lparr>dv_value = VVariantEmpty, dv_sourceTimestamp = 0, dv_serverTimestamp = 0, dv_sourcePicoseconds = 0,
      dv_serverPicoseconds = 0, dv_status = 0, dv_hasValue = False, dv_hasStatus = False,
      dv_hasSourceTimestamp = False, dv_hasServerTimestamp = False, dv_hasSourcePicoseconds = False,
      dv_hasServerPicoseconds = False\<rparr>"

text \<open>The new notification is not enqueued; 0 is the failed allocation.\<close>

definition UA_Notification_new :: "UA_Server \<Rightarrow> ptr \<times> UA_Server" where
  "UA_Notification_new s =
     (let (n, s) = malloc s
      in if n = 0 then (0, s)
         else (n, s\<lparr>srv_notifications := (srv_notifications s)(n \<mapsto>
           \<lparr>not_mon = 0, not_data = DataChange \<lparr>min_clientHandle = 0, min_value = UA_DataValue_init\<rparr>,
            not_isOverflowEvent = False, not_local = False, not_global = False\<rparr>)\<rparr>))"

section \<open>Marking a loss\<close>

definition overflow_indicator :: "UA_Server \<Rightarrow> ptr \<Rightarrow> ptr option" where
  "overflow_indicator s m =
     (if mon_discardOldest (the_mon s m) then first (mon_queue (the_mon s m)) else final_one (mon_queue (the_mon s m)))"

definition setOverflowInfoBits :: "ptr \<Rightarrow> UA_Server \<Rightarrow> UA_Server" where
  "setOverflowInfoBits m s =
     (if mon_maxQueueSize (the_mon s m) = 1 then s
      else case overflow_indicator s m of
        None \<Rightarrow> s
      | Some n \<Rightarrow>
          mod_not n (\<lambda>x. case not_data x of
              DataChange d \<Rightarrow> x\<lparr>not_data := DataChange (d\<lparr>min_value := (min_value d)\<lparr>dv_hasStatus := True,
                dv_status := dv_status (min_value d) OR OVERFLOW_INFOBITS\<rparr>\<rparr>)\<rparr>
            | Event e \<Rightarrow> x) s)"

definition UA_MonitoredItem_removeOverflowInfoBits :: "ptr \<Rightarrow> UA_Server \<Rightarrow> UA_Server" where
  "UA_MonitoredItem_removeOverflowInfoBits m s =
     (if mon_maxQueueSize (the_mon s m) > 1 \<or> is_event_item s m then s
      else case first (mon_queue (the_mon s m)) of
        None \<Rightarrow> s
      | Some n \<Rightarrow>
          mod_not n (\<lambda>x. case not_data x of
              DataChange d \<Rightarrow> x\<lparr>not_data := DataChange (d\<lparr>min_value := (min_value d)\<lparr>
                dv_status := dv_status (min_value d) AND NOT OVERFLOW_INFOBITS\<rparr>\<rparr>)\<rparr>
            | Event e \<Rightarrow> x) s)"

text \<open>
  Where the overflow event goes in the queue of the subscription: in front of the indicator when that
  is reported, else at the end; with \<^verbatim>\<open>discardOldest\<close> the code first walks from the indicator towards
  the front of the queue of the item in search of a reported notification.
\<close>

definition place_overflow :: "ptr \<Rightarrow> ptr \<Rightarrow> ptr \<Rightarrow> UA_Server \<Rightarrow> UA_Server" where
  "place_overflow m indicator n s =
     (let p = mon_subscription (the_mon s m);
          before = (\<lambda>i. mod_sub p (\<lambda>u. u\<lparr>sub_notificationQueue := insert_before i n (sub_notificationQueue u)\<rparr>) s);
          last = mod_sub p (\<lambda>u. u\<lparr>sub_notificationQueue := sub_notificationQueue u @ [n]\<rparr>) s
      in if not_global (the_not s indicator) then before indicator
         else if \<not> mon_discardOldest (the_mon s m) then last
         else case find (\<lambda>i. not_global (the_not s i)) (rev (in_front indicator (mon_queue (the_mon s m)))) of
           None \<Rightarrow> last
         | Some i \<Rightarrow> before i)"

text \<open>The last element of the queue is the notification that was just added and is kept.\<close>

definition has_adjacent_overflow :: "UA_Server \<Rightarrow> ptr \<Rightarrow> ptr \<Rightarrow> bool" where
  "has_adjacent_overflow s m indicator =
     (if mon_discardOldest (the_mon s m) then not_isOverflowEvent (the_not s indicator)
      else case tailq_prev indicator (mon_queue (the_mon s m)) of
        None \<Rightarrow> False
      | Some b \<Rightarrow> not_isOverflowEvent (the_not s b))"

definition createEventOverflowNotification :: "ptr \<Rightarrow> UA_Server \<Rightarrow> status \<times> UA_Server" where
  "createEventOverflowNotification m s =
     (case overflow_indicator s m of
        None \<Rightarrow> (GOOD, s)
      | Some indicator \<Rightarrow>
          if has_adjacent_overflow s m indicator then (GOOD, s)
          else let (n, s) = UA_Notification_new s
               in if n = 0 then (UA_STATUSCODE_BADOUTOFMEMORY, s)
                  else let (fields, s) = malloc s
                       in if fields = 0
                          then (UA_STATUSCODE_BADOUTOFMEMORY, s\<lparr>srv_notifications := (srv_notifications s)(n := None)\<rparr>)
                          else let (scalar, s) = malloc s
                               in if scalar = 0
                                  then (UA_STATUSCODE_BADOUTOFMEMORY, UA_Notification_delete n s)
                                  else let s = mod_not n (\<lambda>x. x\<lparr>not_isOverflowEvent := True, not_mon := m,
                                                 not_data := Event \<lparr>ev_clientHandle = mon_clientHandle (the_mon s m),
                                                   ev_eventFields = [VVariantScalar UA_TYPES_NODEID
                                                     (VNodeId eventQueueOverflowEventType)]\<rparr>\<rparr>) s;
                                           s = mod_mon m (\<lambda>i. i\<lparr>mon_queue := insert_before indicator n (mon_queue i),
                                                 mon_eventOverflows := mon_eventOverflows i + 1,
                                                 mon_queueSize := mon_queueSize i + 1\<rparr>) s;
                                           s = mod_not n (not_local_update (\<lambda>_. True)) s;
                                           p = mon_subscription (the_mon s m);
                                           s = place_overflow m indicator n s;
                                           s = mod_not n (not_global_update (\<lambda>_. True)) s
                                       in (GOOD, mod_sub p (\<lambda>u. u\<lparr>
                                             sub_notificationQueueSize := sub_notificationQueueSize u + 1,
                                             sub_eventNotifications := sub_eventNotifications u + 1\<rparr>) s))"

end
