(* ===== verification/Sub_MonitoredItem.thy ===== *)
theory Sub_MonitoredItem
  imports Sub_Notification
begin

text \<open>
  Monitored items, \<^verbatim>\<open>src/server/ua_subscription_monitoreditem.c\<close> and the creation of data change
  notifications in \<^verbatim>\<open>src/server/ua_subscription_datachange.c\<close>: the bounded queue of an item, triggering
  links, the monitoring mode, the registration of the sampling and the deletion of an item.

  Parameters: \<open>rd\<close> is the value that the attribute service reads for an item, and \<open>changed\<close> the
  decision of \<^verbatim>\<open>detectValueChange\<close>. The callbacks of the application are not modelled.
\<close>

section \<open>The bounded queue of an item\<close>

text \<open>The next notification to drop; overflow events are skipped.\<close>

definition select_dropped :: "UA_Server \<Rightarrow> ptr \<Rightarrow> ptr option" where
  "select_dropped s m =
     (let q = mon_queue (the_mon s m)
      in if mon_discardOldest (the_mon s m)
         then find (\<lambda>n. \<not> not_isOverflowEvent (the_not s n)) q
         else find (\<lambda>n. \<not> not_isOverflowEvent (the_not s n)) (rev (butlast q)))"

text \<open>The entry behind the dropped one in the queue of the item takes its place in the other queue.\<close>

definition move_behind :: "ptr \<Rightarrow> ptr \<Rightarrow> UA_Server \<Rightarrow> UA_Server" where
  "move_behind m del s =
     (if \<not> not_global (the_not s del) then s
      else case tailq_next del (mon_queue (the_mon s m)) of
        None \<Rightarrow> s
      | Some after \<Rightarrow>
          if \<not> not_global (the_not s after) then s
          else mod_sub (mon_subscription (the_mon s m)) (\<lambda>u. u\<lparr>sub_notificationQueue :=
                 insert_after del after (remove1 after (sub_notificationQueue u))\<rparr>) s)"

fun drop_notifications :: "nat \<Rightarrow> ptr \<Rightarrow> bool \<Rightarrow> UA_Server \<Rightarrow> bool \<times> UA_Server" where
  "drop_notifications 0 m reporting s = (reporting, s)"
| "drop_notifications (Suc remove) m reporting s =
     (case select_dropped s m of
        None \<Rightarrow> (reporting, s)
      | Some del \<Rightarrow>
          drop_notifications remove m (reporting \<or> not_global (the_not s del))
            (UA_Notification_delete del (move_behind m del s)))"

definition UA_MonitoredItem_ensureQueueSpace :: "ptr \<Rightarrow> UA_Server \<Rightarrow> UA_Server" where
  "UA_MonitoredItem_ensureQueueSpace m s =
     (let i = the_mon s m
      in if mon_queueSize i - mon_eventOverflows i \<le> mon_maxQueueSize i then s
         else let (reporting, s) = drop_notifications
                     (mon_queueSize i - mon_eventOverflows i - mon_maxQueueSize i) m False s
              in if \<not> reporting then s
                 else if is_event_item s m then snd (createEventOverflowNotification m s)
                 else setOverflowInfoBits m s)"

definition UA_Notification_enqueueMon :: "ptr \<Rightarrow> UA_Server \<Rightarrow> UA_Server" where
  "UA_Notification_enqueueMon n s =
     (let m = not_mon (the_not s n);
          s = mod_not n (not_local_update (\<lambda>_. True)) s;
          s = mod_mon m (\<lambda>i. i\<lparr>mon_queue := mon_queue i @ [n], mon_queueSize := mon_queueSize i + 1\<rparr>) s;
          s = (if not_isOverflowEvent (the_not s n)
               then mod_mon m (\<lambda>i. i\<lparr>mon_eventOverflows := mon_eventOverflows i + 1\<rparr>) s else s)
      in UA_MonitoredItem_ensureQueueSpace m s)"

section \<open>Triggering links\<close>

definition UA_Subscription_getMonitoredItem :: "ptr \<Rightarrow> u32 \<Rightarrow> UA_Server \<Rightarrow> ptr option" where
  "UA_Subscription_getMonitoredItem p monitoredItemId s =
     find (\<lambda>m. mon_monitoredItemId (the_mon s m) = monitoredItemId) (sub_monitoredItems (the_sub s p))"

fun index_of :: "'a \<Rightarrow> 'a list \<Rightarrow> nat option" where
  "index_of x [] = None"
| "index_of x (y # ys) = (if y = x then Some 0 else map_option Suc (index_of x ys))"

definition UA_MonitoredItem_removeLink :: "ptr \<Rightarrow> ptr \<Rightarrow> u32 \<Rightarrow> UA_Server \<Rightarrow> status \<times> UA_Server" where
  "UA_MonitoredItem_removeLink p m linkId s =
     (case index_of linkId (mon_triggeringLinks (the_mon s m)) of
        None \<Rightarrow> (UA_STATUSCODE_BADMONITOREDITEMIDINVALID, s)
      | Some i \<Rightarrow>
          let s = mod_mon m (\<lambda>it. it\<lparr>mon_triggeringLinks :=
                (let l = mon_triggeringLinks it in butlast (l[i := last l]))\<rparr>) s
          in (if UA_Subscription_getMonitoredItem p linkId s = None
              then UA_STATUSCODE_BADMONITOREDITEMIDINVALID else GOOD, s))"

definition UA_MonitoredItem_addLink :: "ptr \<Rightarrow> ptr \<Rightarrow> u32 \<Rightarrow> UA_Server \<Rightarrow> status \<times> UA_Server" where
  "UA_MonitoredItem_addLink p m linkId s =
     (if UA_Subscription_getMonitoredItem p linkId s = None then (UA_STATUSCODE_BADMONITOREDITEMIDINVALID, s)
      else if linkId \<in> set (mon_triggeringLinks (the_mon s m)) then (GOOD, s)
      else let (links, s) = malloc s
           in if links = 0 then (UA_STATUSCODE_BADOUTOFMEMORY, s)
              else (GOOD, mod_mon m (\<lambda>it. it\<lparr>mon_triggeringLinks := mon_triggeringLinks it @ [linkId]\<rparr>) s))"

definition publishing_cycle :: "UA_Server \<Rightarrow> ptr \<Rightarrow> int" where
  "publishing_cycle s p = \<lfloor>cfg_round (srv_config s) (sub_publishingInterval (the_sub s p) * 10000)\<rfloor>"

definition trigger_link :: "nat \<Rightarrow> ptr \<Rightarrow> UA_Server \<Rightarrow> UA_Server" where
  "trigger_link i m s =
     (let p = mon_subscription (the_mon s m);
          linkId = mon_triggeringLinks (the_mon s m) ! i
      in case UA_Subscription_getMonitoredItem p linkId s of
           None \<Rightarrow> snd (UA_MonitoredItem_removeLink p m linkId s)
         | Some t \<Rightarrow>
             if mon_monitoringMode (the_mon s t) \<noteq> UA_MONITORINGMODE_SAMPLING then s
             else let s = (case final_one (mon_queue (the_mon s t)) of
                             None \<Rightarrow> s | Some n2 \<Rightarrow> UA_Notification_enqueueSub n2 s)
                  in mod_mon t (\<lambda>it. it\<lparr>mon_triggeredUntil := int64 (srv_nowMonotonic s + publishing_cycle s p)\<rparr>) s)"

fun trigger_links :: "nat \<Rightarrow> ptr \<Rightarrow> UA_Server \<Rightarrow> UA_Server" where
  "trigger_links 0 m s = s"
| "trigger_links (Suc i) m s = trigger_links i m (trigger_link i m s)"

definition UA_Notification_enqueueAndTrigger :: "ptr \<Rightarrow> UA_Server \<Rightarrow> UA_Server" where
  "UA_Notification_enqueueAndTrigger n s =
     (let m = not_mon (the_not s n);
          i = the_mon s m;
          s = (if mon_monitoringMode i = UA_MONITORINGMODE_REPORTING \<or>
                  mon_monitoringMode i = UA_MONITORINGMODE_SAMPLING \<and> mon_triggeredUntil i > srv_nowMonotonic s
               then mod_mon m (mon_triggeredUntil_update (\<lambda>_. UA_INT64_MIN)) (UA_Notification_enqueueSub n s)
               else s);
          s = UA_Notification_enqueueMon n s
      in trigger_links (length (mon_triggeringLinks (the_mon s m))) m s)"

section \<open>Samples\<close>

text \<open>The copy of the value needs memory.\<close>

definition UA_MonitoredItem_createDataChangeNotification :: "ptr \<Rightarrow> UA_DataValue \<Rightarrow> UA_Server \<Rightarrow> status \<times> UA_Server" where
  "UA_MonitoredItem_createDataChangeNotification m v s =
     (let (n, s) = UA_Notification_new s
      in if n = 0 then (UA_STATUSCODE_BADOUTOFMEMORY, s)
         else let (copy, s) = malloc s
              in if copy = 0
                 then (UA_STATUSCODE_BADOUTOFMEMORY, s\<lparr>srv_notifications := (srv_notifications s)(n := None)\<rparr>)
                 else let s = mod_not n (\<lambda>x. x\<lparr>not_mon := m,
                            not_data := DataChange \<lparr>min_clientHandle = mon_clientHandle (the_mon s m), min_value = v\<rparr>\<rparr>) s
                      in (GOOD, UA_Notification_enqueueAndTrigger n s))"

definition sampleCallbackWithValue ::
  "(UA_MonitoredItem \<Rightarrow> UA_DataValue \<Rightarrow> bool) \<Rightarrow> ptr \<Rightarrow> UA_DataValue \<Rightarrow> UA_Server \<Rightarrow> status \<times> UA_Server" where
  "sampleCallbackWithValue changed m v s =
     (if \<not> changed (the_mon s m) v then (GOOD, s)
      else let (res, s) = (if mon_subscription (the_mon s m) \<noteq> 0
                           then UA_MonitoredItem_createDataChangeNotification m v s else (GOOD, s))
           in if res \<noteq> GOOD then (res, s)
              else (GOOD, mod_mon m (\<lambda>i. i\<lparr>mon_lastValue := v\<rparr>) s))"

definition monitoredItem_sampleCallback ::
  "(UA_Server \<Rightarrow> UA_MonitoredItem \<Rightarrow> UA_DataValue) \<Rightarrow> (UA_MonitoredItem \<Rightarrow> UA_DataValue \<Rightarrow> bool) \<Rightarrow> ptr \<Rightarrow>
   UA_Server \<Rightarrow> UA_Server" where
  "monitoredItem_sampleCallback rd changed m s = snd (sampleCallbackWithValue changed m (rd s (the_mon s m)) s)"

section \<open>Sampling and monitoring mode\<close>

text \<open>
  \<open>LIST_INSERT_HEAD\<close> sets the back pointer of the item that was the first; \<open>LIST_REMOVE\<close> writes through the
  back pointer of the item that it removes.
\<close>

definition UA_MonitoredItem_registerSampling :: "ptr \<Rightarrow> UA_Server \<Rightarrow> status \<times> UA_Server" where
  "UA_MonitoredItem_registerSampling m s =
     (let i = the_mon s m; p = mon_subscription i
      in if mon_samplingType i \<noteq> UA_MONITOREDITEMSAMPLINGTYPE_NONE then (GOOD, s)
         else if is_event_item s m \<or> ieee_eq (mon_samplingInterval i) (Finite 0)
         then (case srv_nodes s (mon_nodeId i) of
                 None \<Rightarrow> (UA_STATUSCODE_BADNODEIDUNKNOWN, s)
               | Some l \<Rightarrow> (GOOD, mod_mon m (mon_samplingType_update (\<lambda>_. UA_MONITOREDITEMSAMPLINGTYPE_EVENT))
                             (s\<lparr>srv_nodes := (srv_nodes s)(mon_nodeId i \<mapsto> m # l)\<rparr>)))
         else if ieee_less (mon_samplingInterval i) (Finite 0)
         then if p = 0 then (UA_STATUSCODE_BADINTERNALERROR, s)
              else (GOOD, mod_mon m (mon_samplingType_update (\<lambda>_. UA_MONITOREDITEMSAMPLINGTYPE_PUBLISH))
                      (mod_sub p (\<lambda>u. u\<lparr>sub_samplingMonitoredItems := m # sub_samplingMonitoredItems u,
                                        sub_samplingStale := False\<rparr>) s))
         else let (res, cid, s) = addRepeatedCallback SAMPLE_CALLBACK m (sampling_ms s (mon_samplingInterval i)) s
              in if res \<noteq> GOOD then (res, s)
                 else (res, mod_mon m (\<lambda>i. i\<lparr>mon_samplingType := UA_MONITOREDITEMSAMPLINGTYPE_CYCLIC,
                                          mon_callbackId := the cid\<rparr>) s))"

definition UA_MonitoredItem_unregisterSampling :: "ptr \<Rightarrow> UA_Server \<Rightarrow> UA_Server" where
  "UA_MonitoredItem_unregisterSampling m s =
     (let i = the_mon s m;
          s = (case mon_samplingType i of
                 UA_MONITOREDITEMSAMPLINGTYPE_CYCLIC \<Rightarrow> removeCallback (mon_callbackId i) s
               | UA_MONITOREDITEMSAMPLINGTYPE_EVENT \<Rightarrow>
                   s\<lparr>srv_nodes := (srv_nodes s)(mon_nodeId i := map_option (remove1 m) (srv_nodes s (mon_nodeId i)))\<rparr>
               | UA_MONITOREDITEMSAMPLINGTYPE_PUBLISH \<Rightarrow>
                   let u = the_sub s (mon_subscription i)
                   in mod_sub (mon_subscription i) (\<lambda>u. u\<lparr>sub_samplingMonitoredItems :=
                        remove1 m (sub_samplingMonitoredItems u)\<rparr>)
                        (s\<lparr>srv_undefined := srv_undefined s \<or>
                           sub_samplingStale u \<and> first (sub_samplingMonitoredItems u) = Some m\<rparr>)
               | UA_MONITOREDITEMSAMPLINGTYPE_NONE \<Rightarrow> s)
      in mod_mon m (mon_samplingType_update (\<lambda>_. UA_MONITOREDITEMSAMPLINGTYPE_NONE)) s)"

definition delete_queue :: "ptr \<Rightarrow> UA_Server \<Rightarrow> UA_Server" where
  "delete_queue m s = fold UA_Notification_delete (mon_queue (the_mon s m)) s"

definition UA_MonitoredItem_setMonitoringMode ::
  "(UA_Server \<Rightarrow> UA_MonitoredItem \<Rightarrow> UA_DataValue) \<Rightarrow> (UA_MonitoredItem \<Rightarrow> UA_DataValue \<Rightarrow> bool) \<Rightarrow> ptr \<Rightarrow> u32 \<Rightarrow>
   UA_Server \<Rightarrow> status \<times> UA_Server" where
  "UA_MonitoredItem_setMonitoringMode rd changed m mode s =
     (if mode > UA_MONITORINGMODE_REPORTING then (UA_STATUSCODE_BADMONITORINGMODEINVALID, s)
      else let oldMode = mon_monitoringMode (the_mon s m);
               s = mod_mon m (mon_monitoringMode_update (\<lambda>_. mode)) s
           in if mode = UA_MONITORINGMODE_DISABLED
              then (GOOD, mod_mon m (mon_lastValue_update (\<lambda>_. UA_DataValue_init))
                            (delete_queue m (UA_MonitoredItem_unregisterSampling m s)))
              else let s = (if mode = UA_MONITORINGMODE_REPORTING
                            then fold (\<lambda>n s. UA_Notification_enqueueSub n (UA_Notification_dequeueSub n s))
                                   (mon_queue (the_mon s m)) s
                            else fold UA_Notification_dequeueSub (mon_queue (the_mon s m)) s);
                       (res, s) = UA_MonitoredItem_registerSampling m s
                   in if res \<noteq> GOOD
                      then (res, mod_mon m (mon_monitoringMode_update (\<lambda>_. UA_MONITORINGMODE_DISABLED)) s)
                      else if oldMode = UA_MONITORINGMODE_DISABLED \<and> \<not> is_event_item s m
                      then (GOOD, monitoredItem_sampleCallback rd changed m s)
                      else (GOOD, s))"

section \<open>Registration and deletion\<close>

definition UA_Server_registerMonitoredItem :: "ptr \<Rightarrow> UA_Server \<Rightarrow> UA_Server" where
  "UA_Server_registerMonitoredItem m s =
     (let p = mon_subscription (the_mon s m)
      in if mon_registered (the_mon s m) then s
         else let s = (if p \<noteq> 0
                       then let s = mod_sub p (\<lambda>u. u\<lparr>sub_lastMonitoredItemId := sub_lastMonitoredItemId u + 1,
                                      sub_monitoredItemsSize := sub_monitoredItemsSize u + 1,
                                      sub_monitoredItems := m # sub_monitoredItems u\<rparr>) s
                            in mod_mon m (\<lambda>i. i\<lparr>mon_monitoredItemId := sub_lastMonitoredItemId (the_sub s p)\<rparr>) s
                       else let s = s\<lparr>srv_lastLocalMonitoredItemId := srv_lastLocalMonitoredItemId s + 1,
                                      srv_localMonitoredItems := m # srv_localMonitoredItems s\<rparr>
                            in mod_mon m (\<lambda>i. i\<lparr>mon_monitoredItemId := srv_lastLocalMonitoredItemId s\<rparr>) s)
              in mod_mon m (mon_registered_update (\<lambda>_. True)) (s\<lparr>srv_monitoredItemsSize := srv_monitoredItemsSize s + 1\<rparr>))"

definition UA_Server_unregisterMonitoredItem :: "ptr \<Rightarrow> UA_Server \<Rightarrow> UA_Server" where
  "UA_Server_unregisterMonitoredItem m s =
     (let p = mon_subscription (the_mon s m)
      in if \<not> mon_registered (the_mon s m) then s
         else let s = (if p \<noteq> 0
                       then mod_sub p (\<lambda>u. u\<lparr>sub_monitoredItemsSize := sub_monitoredItemsSize u - 1,
                                           sub_monitoredItems := remove1 m (sub_monitoredItems u)\<rparr>) s
                       else s\<lparr>srv_localMonitoredItems := remove1 m (srv_localMonitoredItems s)\<rparr>)
              in mod_mon m (mon_registered_update (\<lambda>_. False)) (s\<lparr>srv_monitoredItemsSize := srv_monitoredItemsSize s - 1\<rparr>))"

text \<open>The node, the parameters and the last value are cleared.\<close>

definition clear_settings :: "UA_MonitoredItem \<Rightarrow> UA_MonitoredItem" where
  "clear_settings i = i\<lparr>mon_nodeId := \<lparr>namespaceIndex = 0, nid = NumericId 0\<rparr>, mon_attributeId := 0,
     mon_indexRange := None, mon_dataEncoding := (0, None), mon_clientHandle := 0, mon_samplingInterval := Finite 0,
     mon_filter := EncodedFilter EO_NOBODY \<lparr>namespaceIndex = 0, nid = NumericId 0\<rparr> None, mon_maxQueueSize := 0, mon_discardOldest := False, mon_lastValue := UA_DataValue_init\<rparr>"

definition UA_MonitoredItem_delete :: "ptr \<Rightarrow> UA_Server \<Rightarrow> UA_Server" where
  "UA_MonitoredItem_delete m s =
     (let s = UA_MonitoredItem_unregisterSampling m s;
          s = UA_Server_unregisterMonitoredItem m s;
          s = mod_mon m (mon_triggeringLinks_update (\<lambda>_. [])) s;
          s = delete_queue m s;
          s = mod_mon m clear_settings s
      in delayed_free m s)"

end
