(* ===== verification/Sub_Session.thy ===== *)
theory Sub_Session
  imports Sub_MonitoredItem
begin

text \<open>
  Sessions and subscriptions: the queue of publish requests of a session, attaching and detaching a
  subscription (\<^verbatim>\<open>src/server/ua_session.c\<close>), the retransmission queue, and the creation and deletion of
  a subscription (\<^verbatim>\<open>src/server/ua_subscription.c\<close>).
\<close>

section \<open>Responses\<close>

definition sendServiceFault :: "ptr \<Rightarrow> u32 \<Rightarrow> u32 \<Rightarrow> status \<Rightarrow> UA_Server \<Rightarrow> UA_Server" where
  "sendServiceFault channel requestId requestHandle statusCode s =
     s\<lparr>srv_sent := srv_sent s @ [SentFault channel requestId requestHandle statusCode]\<rparr>"

definition sendResponse :: "ptr \<Rightarrow> u32 \<Rightarrow> UA_PublishResponse \<Rightarrow> UA_Server \<Rightarrow> UA_Server" where
  "sendResponse channel requestId response s =
     (if channel = 0 then s
      else if res_serviceResult response \<noteq> GOOD
      then sendServiceFault channel requestId (res_requestHandle response) (res_serviceResult response) s
      else s\<lparr>srv_sent := srv_sent s @ [SentResponse channel requestId (response\<lparr>res_timestamp := srv_now s\<rparr>)]\<rparr>)"

section \<open>Publish requests\<close>

definition UA_Session_dequeuePublishReq :: "ptr \<Rightarrow> UA_Server \<Rightarrow> UA_PublishResponseEntry option \<times> UA_Server" where
  "UA_Session_dequeuePublishReq ses s =
     (case ses_responseQueue (the_ses s ses) of
        [] \<Rightarrow> (None, s)
      | e # es \<Rightarrow> (Some e, mod_ses ses (\<lambda>x. x\<lparr>ses_responseQueueSize := ses_responseQueueSize x - 1,
                                          ses_responseQueue := es\<rparr>) s))"

definition UA_Session_queuePublishReq :: "ptr \<Rightarrow> UA_PublishResponseEntry \<Rightarrow> bool \<Rightarrow> UA_Server \<Rightarrow> UA_Server" where
  "UA_Session_queuePublishReq ses entry head s =
     mod_ses ses (\<lambda>x. x\<lparr>ses_responseQueueSize := ses_responseQueueSize x + 1,
       ses_responseQueue := (if \<not> head then ses_responseQueue x @ [entry] else entry # ses_responseQueue x)\<rparr>) s"

section \<open>Subscriptions of a session\<close>

text \<open>In front of the first subscription of a lower priority, else at the end.\<close>

fun insert_by_priority :: "(ptr \<Rightarrow> u8) \<Rightarrow> ptr \<Rightarrow> ptr list \<Rightarrow> ptr list" where
  "insert_by_priority prio p [] = [p]"
| "insert_by_priority prio p (q # qs) = (if prio q < prio p then p # q # qs else q # insert_by_priority prio p qs)"

definition priority_of :: "UA_Server \<Rightarrow> ptr \<Rightarrow> u8" where
  "priority_of s p = sub_priority (the_sub s p)"

definition UA_Session_attachSubscription :: "ptr \<Rightarrow> ptr \<Rightarrow> UA_Server \<Rightarrow> UA_Server" where
  "UA_Session_attachSubscription ses p s =
     (let s = mod_sub p (\<lambda>u. u\<lparr>sub_session := ses\<rparr>) s
      in mod_ses ses (\<lambda>x. x\<lparr>ses_subscriptionsSize := ses_subscriptionsSize x + 1,
           ses_subscriptions := insert_by_priority (priority_of s) p (ses_subscriptions x),
           ses_totalRetransmissionQueueSize :=
             ses_totalRetransmissionQueueSize x + sub_retransmissionQueueSize (the_sub s p)\<rparr>) s)"

definition release_response :: "ptr \<Rightarrow> UA_PublishResponseEntry \<Rightarrow> UA_Server \<Rightarrow> UA_Server" where
  "release_response ses pre s =
     sendResponse (ses_channel (the_ses s ses)) (pre_requestId pre)
       ((pre_response pre)\<lparr>res_serviceResult := UA_STATUSCODE_BADNOSUBSCRIPTION, res_timestamp := srv_now s\<rparr>) s"

definition UA_Session_detachSubscription :: "ptr \<Rightarrow> ptr \<Rightarrow> bool \<Rightarrow> UA_Server \<Rightarrow> UA_Server" where
  "UA_Session_detachSubscription ses p releasePublishResponses s =
     (let s = mod_sub p (\<lambda>u. u\<lparr>sub_session := 0\<rparr>) s;
          s = mod_ses ses (\<lambda>x. x\<lparr>ses_subscriptionsSize := ses_subscriptionsSize x - 1,
                ses_subscriptions := remove1 p (ses_subscriptions x),
                ses_totalRetransmissionQueueSize :=
                  ses_totalRetransmissionQueueSize x - sub_retransmissionQueueSize (the_sub s p)\<rparr>) s
      in if \<not> releasePublishResponses \<or> ses_subscriptions (the_ses s ses) \<noteq> [] then s
         else let pres = ses_responseQueue (the_ses s ses);
                  s = mod_ses ses (\<lambda>x. x\<lparr>ses_responseQueueSize := ses_responseQueueSize x - length pres,
                                       ses_responseQueue := []\<rparr>) s
              in fold (release_response ses) pres s)"

text \<open>Subscriptions that are about to be deleted with a status change are not found.\<close>

definition has_id :: "UA_Server \<Rightarrow> u32 \<Rightarrow> ptr \<Rightarrow> bool" where
  "has_id s subscriptionId p =
     (sub_statusChange (the_sub s p) = GOOD \<and> sub_subscriptionId (the_sub s p) = subscriptionId)"

definition UA_Session_getSubscriptionById :: "ptr \<Rightarrow> u32 \<Rightarrow> UA_Server \<Rightarrow> ptr option" where
  "UA_Session_getSubscriptionById ses subscriptionId s =
     find (has_id s subscriptionId) (ses_subscriptions (the_ses s ses))"

definition UA_Server_getSubscriptionById :: "u32 \<Rightarrow> UA_Server \<Rightarrow> ptr option" where
  "UA_Server_getSubscriptionById subscriptionId s = find (has_id s subscriptionId) (srv_subscriptions s)"

text \<open>When the channel is lost, the queued publish requests, which belong to it, are dropped.\<close>

definition UA_Session_detachFromSecureChannel :: "ptr \<Rightarrow> UA_Server \<Rightarrow> UA_Server" where
  "UA_Session_detachFromSecureChannel ses s =
     (if ses_channel (the_ses s ses) = 0 then s
      else mod_ses ses (\<lambda>x. x\<lparr>ses_channel := 0, ses_responseQueueSize := 0, ses_responseQueue := []\<rparr>) s)"

definition UA_Session_attachToSecureChannel :: "ptr \<Rightarrow> ptr \<Rightarrow> UA_Server \<Rightarrow> UA_Server" where
  "UA_Session_attachToSecureChannel ses channel s =
     mod_ses ses (\<lambda>x. x\<lparr>ses_channel := channel\<rparr>) (UA_Session_detachFromSecureChannel ses s)"

section \<open>The retransmission queue\<close>

definition removeOldestRetransmissionMessageFromSub :: "ptr \<Rightarrow> UA_Server \<Rightarrow> UA_Server" where
  "removeOldestRetransmissionMessageFromSub p s =
     (let s = mod_sub p (\<lambda>u. u\<lparr>sub_retransmissionQueue := butlast (sub_retransmissionQueue u),
                            sub_retransmissionQueueSize := sub_retransmissionQueueSize u - 1\<rparr>) s;
          ses = sub_session (the_sub s p)
      in if ses \<noteq> 0
         then mod_ses ses (\<lambda>x. x\<lparr>ses_totalRetransmissionQueueSize := ses_totalRetransmissionQueueSize x - 1\<rparr>) s
         else s)"

text \<open>The subscription that is chosen, with the publish time of its last message.\<close>

fun oldest_sub :: "UA_Server \<Rightarrow> ptr list \<Rightarrow> (ptr \<times> int) option \<Rightarrow> (ptr \<times> int) option" where
  "oldest_sub s [] oldest = oldest"
| "oldest_sub s (p # ps) oldest =
     (case final_one (sub_retransmissionQueue (the_sub s p)) of
        None \<Rightarrow> oldest_sub s ps oldest
      | Some m \<Rightarrow>
          oldest_sub s ps (case oldest of
              None \<Rightarrow> Some (p, msg_publishTime m)
            | Some (q, t) \<Rightarrow> if t > msg_publishTime m then Some (p, msg_publishTime m) else oldest))"

definition removeOldestRetransmissionMessageFromSession :: "ptr \<Rightarrow> UA_Server \<Rightarrow> UA_Server" where
  "removeOldestRetransmissionMessageFromSession ses s =
     (case oldest_sub s (ses_subscriptions (the_ses s ses)) None of
        None \<Rightarrow> s
      | Some (p, t) \<Rightarrow> removeOldestRetransmissionMessageFromSub p s)"

definition UA_Subscription_addRetransmissionMessage :: "ptr \<Rightarrow> UA_NotificationMessage \<Rightarrow> UA_Server \<Rightarrow> UA_Server" where
  "UA_Subscription_addRetransmissionMessage p entry s =
     (let ses = sub_session (the_sub s p);
          limit = unat (cfg_maxRetransmissionQueueSize (srv_config s));
          s = (if sub_retransmissionQueueSize (the_sub s p) \<ge> UA_MAX_RETRANSMISSIONQUEUESIZE
               then removeOldestRetransmissionMessageFromSub p s
               else if ses \<noteq> 0 \<and> limit > 0 \<and> ses_totalRetransmissionQueueSize (the_ses s ses) \<ge> limit
               then removeOldestRetransmissionMessageFromSession ses s
               else s);
          s = mod_sub p (\<lambda>u. u\<lparr>sub_retransmissionQueue := sub_retransmissionQueue u @ [entry],
                             sub_retransmissionQueueSize := sub_retransmissionQueueSize u + 1\<rparr>) s
      in if ses \<noteq> 0
         then mod_ses ses (\<lambda>x. x\<lparr>ses_totalRetransmissionQueueSize := ses_totalRetransmissionQueueSize x + 1\<rparr>) s
         else s)"

fun remove_first :: "('a \<Rightarrow> bool) \<Rightarrow> 'a list \<Rightarrow> 'a list" where
  "remove_first P [] = []"
| "remove_first P (x # xs) = (if P x then xs else x # remove_first P xs)"

definition UA_Subscription_removeRetransmissionMessage :: "ptr \<Rightarrow> u32 \<Rightarrow> UA_Server \<Rightarrow> status \<times> UA_Server" where
  "UA_Subscription_removeRetransmissionMessage p sequenceNumber s =
     (case find (\<lambda>m. msg_sequenceNumber m = sequenceNumber) (sub_retransmissionQueue (the_sub s p)) of
        None \<Rightarrow> (UA_STATUSCODE_BADSEQUENCENUMBERUNKNOWN, s)
      | Some entry \<Rightarrow>
          let s = mod_sub p (\<lambda>u. u\<lparr>sub_retransmissionQueue :=
                      remove_first (\<lambda>m. msg_sequenceNumber m = sequenceNumber) (sub_retransmissionQueue u),
                    sub_retransmissionQueueSize := sub_retransmissionQueueSize u - 1\<rparr>) s;
              ses = sub_session (the_sub s p)
          in (GOOD, if ses \<noteq> 0
                    then mod_ses ses (\<lambda>x. x\<lparr>ses_totalRetransmissionQueueSize := ses_totalRetransmissionQueueSize x - 1\<rparr>) s
                    else s))"

section \<open>Creation and deletion\<close>

text \<open>The state of the new structure: all zero but for the sequence number.\<close>

definition blank_subscription :: UA_Subscription where
  "blank_subscription =
     \<lparr>sub_session = 0, sub_subscriptionId = 0, sub_lifeTimeCount = 0, sub_maxKeepAliveCount = 0,
      sub_publishingInterval = 0, sub_notificationsPerPublish = 0, sub_publishingEnabled = False,
      sub_priority = 0, sub_state = UA_SUBSCRIPTIONSTATE_NORMAL, sub_statusChange = GOOD,
      sub_nextSequenceNumber = 1, sub_currentKeepAliveCount = 0, sub_currentLifetimeCount = 0,
      sub_publishCallbackId = 0, sub_lastMonitoredItemId = 0, sub_monitoredItems = [],
      sub_monitoredItemsSize = 0, sub_samplingMonitoredItems = [], sub_samplingStale = False, sub_notificationQueue = [],
      sub_notificationQueueSize = 0, sub_dataChangeNotifications = 0, sub_eventNotifications = 0,
      sub_retransmissionQueue = [], sub_retransmissionQueueSize = 0\<rparr>"

definition UA_Subscription_new :: "UA_Server \<Rightarrow> ptr \<times> UA_Server" where
  "UA_Subscription_new s =
     (let (p, s) = malloc s
      in if p = 0 then (0, s) else (p, s\<lparr>srv_subs := (srv_subs s)(p \<mapsto> blank_subscription)\<rparr>))"

definition Subscription_registerPublishCallback :: "ptr \<Rightarrow> UA_Server \<Rightarrow> status \<times> UA_Server" where
  "Subscription_registerPublishCallback p s =
     (if sub_publishCallbackId (the_sub s p) > 0 then (GOOD, s)
      else let (res, cid, s) = addRepeatedCallback PUBLISH_CALLBACK p (sub_publishingInterval (the_sub s p)) s
           in if res \<noteq> GOOD then (res, s)
              else (GOOD, mod_sub p (\<lambda>u. u\<lparr>sub_publishCallbackId := the cid\<rparr>) s))"

definition Subscription_unregisterPublishCallback :: "ptr \<Rightarrow> UA_Server \<Rightarrow> UA_Server" where
  "Subscription_unregisterPublishCallback p s =
     (if sub_publishCallbackId (the_sub s p) = 0 then s
      else mod_sub p (\<lambda>u. u\<lparr>sub_publishCallbackId := 0\<rparr>) (removeCallback (sub_publishCallbackId (the_sub s p)) s))"

text \<open>A subscription that is not in the list of the server was never registered there.\<close>

definition UA_Subscription_delete :: "ptr \<Rightarrow> UA_Server \<Rightarrow> UA_Server" where
  "UA_Subscription_delete p s =
     (let s = Subscription_unregisterPublishCallback p s;
          s = (if sub_session (the_sub s p) \<noteq> 0
               then UA_Session_detachSubscription (sub_session (the_sub s p)) p True s else s);
          s = (if p \<in> set (srv_subscriptions s)
               then s\<lparr>srv_subscriptions := remove1 p (srv_subscriptions s),
                      srv_subscriptionsSize := srv_subscriptionsSize s - 1,
                      srv_currentSubscriptionCount := srv_currentSubscriptionCount s - 1\<rparr>
               else s);
          s = fold UA_MonitoredItem_delete (sub_monitoredItems (the_sub s p)) s;
          s = mod_sub p (\<lambda>u. u\<lparr>sub_retransmissionQueueSize :=
                sub_retransmissionQueueSize u - length (sub_retransmissionQueue u), sub_retransmissionQueue := []\<rparr>) s
      in delayed_free p s)"

end
