(* ===== verification/Sub_Publish.thy ===== *)
theory Sub_Publish
  imports Sub_Session
begin

text \<open>
  Publishing, \<^verbatim>\<open>src/server/ua_subscription.c\<close>: a notification message is taken from the queue of the
  subscription and sent as the response to a queued publish request; a keep-alive is sent when there
  is nothing to report; without a request the subscription is late and its lifetime counts down.
\<close>

section \<open>The notification message\<close>

text \<open>
  Notifications of the item that are in front of the one that is sent are not reported, and are dropped
  with it, the nearest first.
\<close>

definition delete_with_previous :: "ptr \<Rightarrow> UA_Server \<Rightarrow> UA_Server" where
  "delete_with_previous n s =
     (let s = fold UA_Notification_delete (rev (in_front n (mon_queue (the_mon s (not_mon (the_not s n)))))) s
      in UA_Notification_delete n s)"

type_synonym moved = "UA_MonitoredItemNotification list \<times> UA_EventFieldList list"

definition move_notification :: "ptr \<Rightarrow> moved \<Rightarrow> UA_Server \<Rightarrow> moved" where
  "move_notification n acc s =
     (if is_event_item s (not_mon (the_not s n))
      then (case not_data (the_not s n) of Event e \<Rightarrow> (fst acc, snd acc @ [e]) | DataChange d \<Rightarrow> acc)
      else (case not_data (the_not s n) of DataChange d \<Rightarrow> (fst acc @ [d], snd acc) | Event e \<Rightarrow> acc))"

fun move_notifications :: "nat \<Rightarrow> ptr list \<Rightarrow> moved \<Rightarrow> UA_Server \<Rightarrow> moved \<times> UA_Server" where
  "move_notifications 0 ns acc s = (acc, s)"
| "move_notifications (Suc k) [] acc s = (acc, s)"
| "move_notifications (Suc k) (n # ns) acc s =
     move_notifications k ns (move_notification n acc s) (delete_with_previous n s)"

text \<open>The allocations of a list: the structure, then its array. False when one fails.\<close>

definition alloc_list :: "bool \<Rightarrow> UA_Server \<Rightarrow> bool \<times> UA_Server" where
  "alloc_list needed s =
     (if \<not> needed then (True, s)
      else let (l, s) = malloc s
           in if l = 0 then (False, s)
              else let (a, s) = malloc s in (a \<noteq> 0, s))"

definition prepareNotificationMessage :: "ptr \<Rightarrow> nat \<Rightarrow> UA_Server \<Rightarrow> (status \<times> UA_NotificationData list) \<times> UA_Server" where
  "prepareNotificationMessage p maxNotifications s =
     (let (dat, s) = malloc s
      in if dat = 0 then ((UA_STATUSCODE_BADOUTOFMEMORY, []), s)
         else let dcn = sub_dataChangeNotifications (the_sub s p) > 0;
                  enl = sub_eventNotifications (the_sub s p) > 0;
                  (ok, s) = alloc_list dcn s
              in if \<not> ok then ((UA_STATUSCODE_BADOUTOFMEMORY, []), s)
                 else let (ok, s) = alloc_list enl s
                      in if \<not> ok then ((UA_STATUSCODE_BADOUTOFMEMORY, []), s)
                         else let ((ds, es), s) = move_notifications maxNotifications
                                    (sub_notificationQueue (the_sub s p)) ([], []) s
                              in ((GOOD, (if dcn then [DataChangeNotification ds] else []) @
                                         (if enl then [EventNotificationList es] else [])), s))"

section \<open>Publishing once\<close>

definition UA_Subscription_nextSequenceNumber :: "u32 \<Rightarrow> u32" where
  "UA_Subscription_nextSequenceNumber sequenceNumber =
     (let nextSequenceNumber = sequenceNumber + 1
      in if nextSequenceNumber = 0 then 1 else nextSequenceNumber)"

definition sendStatusChangeDelete :: "ptr \<Rightarrow> UA_PublishResponseEntry option \<Rightarrow> UA_Server \<Rightarrow> UA_Server" where
  "sendStatusChangeDelete p pre s =
     (case pre of
        None \<Rightarrow> UA_Subscription_delete p s
      | Some e \<Rightarrow>
          let u = the_sub s p;
              response = (pre_response e)\<lparr>res_timestamp := srv_now s, res_subscriptionId := sub_subscriptionId u,
                res_notificationMessage := \<lparr>msg_sequenceNumber = sub_nextSequenceNumber u, msg_publishTime = srv_now s,
                  msg_notificationData = [StatusChangeNotification (sub_statusChange u)]\<rparr>\<rparr>
          in UA_Subscription_delete p
               (sendResponse (ses_channel (the_ses s (sub_session u))) (pre_requestId e) response s))"

definition UA_Subscription_isLate :: "ptr \<Rightarrow> UA_Server \<Rightarrow> UA_Server" where
  "UA_Subscription_isLate p s = mod_sub p (\<lambda>u. u\<lparr>sub_state := UA_SUBSCRIPTIONSTATE_LATE\<rparr>) s"

text \<open>The publish request goes back to the front of the queue.\<close>

definition requeue :: "ptr \<Rightarrow> UA_PublishResponseEntry option \<Rightarrow> UA_Server \<Rightarrow> UA_Server" where
  "requeue p pre s =
     (case pre of None \<Rightarrow> s | Some e \<Rightarrow> UA_Session_queuePublishReq (sub_session (the_sub s p)) e True s)"

definition update_lifetime :: "ptr \<Rightarrow> bool \<Rightarrow> UA_Server \<Rightarrow> UA_Server" where
  "update_lifetime p have s =
     mod_sub p (\<lambda>u. if have then u\<lparr>sub_currentLifetimeCount := 0\<rparr>
       else let u = u\<lparr>sub_currentLifetimeCount := sub_currentLifetimeCount u + 1\<rparr>
            in if sub_currentLifetimeCount u > sub_lifeTimeCount u
               then u\<lparr>sub_statusChange := UA_STATUSCODE_BADTIMEOUT\<rparr> else u) s"

text \<open>
  Behind the point of no return: the response for the prepared message (\<open>dat\<close>, none for a keep-alive)
  is completed and sent. The result is whether the publishing is done.
\<close>

definition send_publish_response ::
  "ptr \<Rightarrow> UA_PublishResponseEntry \<Rightarrow> UA_NotificationData list option \<Rightarrow> UA_Server \<Rightarrow> bool \<times> UA_Server" where
  "send_publish_response p pre dat s =
     (let u = the_sub s p;
          message = \<lparr>msg_sequenceNumber = sub_nextSequenceNumber u, msg_publishTime = srv_now s,
                     msg_notificationData = (case dat of None \<Rightarrow> [] | Some d \<Rightarrow> d)\<rparr>;
          response = (pre_response pre)\<lparr>res_timestamp := srv_now s, res_subscriptionId := sub_subscriptionId u,
                       res_moreNotifications := (sub_notificationQueueSize u > 0),
                       res_notificationMessage := message\<rparr>;
          s = (if dat = None then s
               else let s = (if cfg_enableRetransmissionQueue (srv_config s)
                             then UA_Subscription_addRetransmissionMessage p message s else s)
                    in mod_sub p (\<lambda>u. u\<lparr>sub_nextSequenceNumber :=
                         UA_Subscription_nextSequenceNumber (sub_nextSequenceNumber u)\<rparr>) s);
          response = response\<lparr>res_availableSequenceNumbers :=
                       map msg_sequenceNumber (sub_retransmissionQueue (the_sub s p))\<rparr>;
          s = sendResponse (ses_channel (the_ses s (sub_session (the_sub s p)))) (pre_requestId pre) response s;
          s = (if sub_notificationQueueSize (the_sub s p) = 0
               then mod_sub p (\<lambda>u. u\<lparr>sub_state := UA_SUBSCRIPTIONSTATE_NORMAL\<rparr>) s else s);
          s = mod_sub p (\<lambda>u. u\<lparr>sub_currentKeepAliveCount := 0\<rparr>) s
      in (sub_notificationQueueSize (the_sub s p) = 0, s))"

definition publish_count :: "UA_Subscription \<Rightarrow> nat" where
  "publish_count u =
     (let notifications = (if sub_publishingEnabled u then sub_notificationQueueSize u else 0)
      in if notifications > unat (sub_notificationsPerPublish u) then unat (sub_notificationsPerPublish u) else notifications)"

definition UA_Subscription_publishOnce :: "ptr \<Rightarrow> UA_Server \<Rightarrow> bool \<times> UA_Server" where
  "UA_Subscription_publishOnce p s =
     (let ses = sub_session (the_sub s p);
          (pre, s) = (if ses \<noteq> 0 then UA_Session_dequeuePublishReq ses s else (None, s));
          s = update_lifetime p (pre \<noteq> None) s
      in if sub_statusChange (the_sub s p) \<noteq> GOOD
         then (True, sendStatusChangeDelete p pre s)
         else let notifications = publish_count (the_sub s p);
                  s = (if notifications = 0
                       then mod_sub p (\<lambda>u. u\<lparr>sub_currentKeepAliveCount := sub_currentKeepAliveCount u + 1\<rparr>) s else s)
              in if notifications = 0 \<and> sub_currentKeepAliveCount (the_sub s p) < sub_maxKeepAliveCount (the_sub s p)
                 then (True, requeue p pre s)
                 else if pre = None \<or> ses = 0 \<or> ses_channel (the_ses s ses) = 0
                 then (True, requeue p pre (UA_Subscription_isLate p s))
                 else if notifications = 0 then send_publish_response p (the pre) None s
                 else let (retransmission, s) = (if cfg_enableRetransmissionQueue (srv_config s)
                                                 then malloc s else (1, s))
                      in if retransmission = 0
                         then (True, requeue p pre (UA_Subscription_isLate p s))
                         else let ((retval, dat), s) = prepareNotificationMessage p notifications s
                              in if retval \<noteq> GOOD
                                 then (True, requeue p pre (UA_Subscription_isLate p s))
                                 else send_publish_response p (the pre) (Some dat) s)"

section \<open>Publishing\<close>

partial_function (option) UA_Subscription_publish :: "ptr \<Rightarrow> UA_Server \<Rightarrow> UA_Server option" where
  "UA_Subscription_publish p s =
     (let r = UA_Subscription_publishOnce p s
      in if fst r then Some (snd r) else UA_Subscription_publish p (snd r))"

definition UA_Subscription_sampleAndPublish ::
  "(UA_Server \<Rightarrow> UA_MonitoredItem \<Rightarrow> UA_DataValue) \<Rightarrow> (UA_MonitoredItem \<Rightarrow> UA_DataValue \<Rightarrow> bool) \<Rightarrow> ptr \<Rightarrow>
   UA_Server \<Rightarrow> UA_Server option" where
  "UA_Subscription_sampleAndPublish rd changed p s =
     UA_Subscription_publish p
       (fold (monitoredItem_sampleCallback rd changed) (sub_samplingMonitoredItems (the_sub s p)) s)"

text \<open>The oldest publish request is answered when there are too many.\<close>

definition UA_Session_reachedPublishReqLimit :: "ptr \<Rightarrow> UA_Server \<Rightarrow> bool \<times> UA_Server" where
  "UA_Session_reachedPublishReqLimit ses s =
     (let (pre, s) = UA_Session_dequeuePublishReq ses s
      in case pre of
           None \<Rightarrow> (False, s)
         | Some e \<Rightarrow>
             let response = (pre_response e)\<lparr>res_timestamp := srv_now s,
                   res_serviceResult := UA_STATUSCODE_BADTOOMANYPUBLISHREQUESTS, res_subscriptionId := 0,
                   res_moreNotifications := False, res_availableSequenceNumbers := [],
                   res_notificationMessage := (res_notificationMessage (pre_response e))\<lparr>
                     msg_publishTime := srv_now s, msg_sequenceNumber := 0\<rparr>\<rparr>
             in (True, sendResponse (ses_channel (the_ses s ses)) (pre_requestId e) response s))"

end
