(* ===== verification/Sub_Service.thy ===== *)
theory Sub_Service
  imports Sub_Publish
begin

text \<open>
  The services of the subscription service set, \<^verbatim>\<open>src/server/ua_services_subscription.c\<close>, and the loop
  over the operations of a request (\<^verbatim>\<open>UA_Server_processServiceOperations\<close> in
  \<^verbatim>\<open>src/server/ua_server_utils.c\<close>). A requested publishing interval is a double: a finite number, an
  infinity or not a number.
\<close>

section \<open>Settings\<close>

text \<open>\<^verbatim>\<open>UA_BOUNDEDVALUE_SETWBOUNDS\<close>, with the correction for a value that is not a number.\<close>

fun bounded_interval :: "rat \<Rightarrow> rat \<Rightarrow> UA_Double \<Rightarrow> rat" where
  "bounded_interval mn mx (Finite r) = (if r > mx then mx else if r < mn then mn else r)"
| "bounded_interval mn mx PosInf = mx"
| "bounded_interval mn mx NegInf = mn"
| "bounded_interval mn mx NaN = mn"

definition bounded_count :: "u32 \<Rightarrow> u32 \<Rightarrow> u32 \<Rightarrow> u32" where
  "bounded_count mn mx v = (if v > mx then mx else if v < mn then mn else v)"

definition setPublishingEnabled :: "bool \<Rightarrow> UA_Subscription \<Rightarrow> UA_Subscription" where
  "setPublishingEnabled enabled u =
     (if sub_publishingEnabled u = enabled then u else u\<lparr>sub_publishingEnabled := enabled\<rparr>)"

definition setSubscriptionSettings ::
  "UA_ServerConfig \<Rightarrow> UA_Double \<Rightarrow> u32 \<Rightarrow> u32 \<Rightarrow> u32 \<Rightarrow> u8 \<Rightarrow> UA_Subscription \<Rightarrow> UA_Subscription" where
  "setSubscriptionSettings cfg requestedPublishingInterval requestedLifetimeCount requestedMaxKeepAliveCount
     maxNotificationsPerPublish priority u =
     (let u = u\<lparr>sub_publishingInterval := bounded_interval (cfg_publishingInterval_min cfg)
                 (cfg_publishingInterval_max cfg) requestedPublishingInterval\<rparr>;
          u = u\<lparr>sub_maxKeepAliveCount := bounded_count (cfg_keepAliveCount_min cfg)
                 (cfg_keepAliveCount_max cfg) requestedMaxKeepAliveCount\<rparr>;
          u = u\<lparr>sub_lifeTimeCount := bounded_count (cfg_lifeTimeCount_min cfg)
                 (cfg_lifeTimeCount_max cfg) requestedLifetimeCount\<rparr>;
          u = (if sub_lifeTimeCount u < 3 * sub_maxKeepAliveCount u
               then u\<lparr>sub_lifeTimeCount := 3 * sub_maxKeepAliveCount u\<rparr> else u);
          u = u\<lparr>sub_notificationsPerPublish := maxNotificationsPerPublish\<rparr>;
          u = (if maxNotificationsPerPublish = 0 \<or> maxNotificationsPerPublish > cfg_maxNotificationsPerPublish cfg
               then u\<lparr>sub_notificationsPerPublish := cfg_maxNotificationsPerPublish cfg\<rparr> else u)
      in u\<lparr>sub_priority := priority\<rparr>)"

section \<open>CreateSubscription and ModifySubscription\<close>

record UA_CreateSubscriptionRequest =
  csr_requestedPublishingInterval :: UA_Double
  csr_requestedLifetimeCount :: u32
  csr_requestedMaxKeepAliveCount :: u32
  csr_maxNotificationsPerPublish :: u32
  csr_publishingEnabled :: bool
  csr_priority :: u8

record UA_CreateSubscriptionResponse =
  csp_serviceResult :: status
  csp_subscriptionId :: u32
  csp_revisedPublishingInterval :: rat
  csp_revisedLifetimeCount :: u32
  csp_revisedMaxKeepAliveCount :: u32

definition create_failed :: "status \<Rightarrow> UA_CreateSubscriptionResponse" where
  "create_failed res = \<lparr>csp_serviceResult = res, csp_subscriptionId = 0, csp_revisedPublishingInterval = 0,
     csp_revisedLifetimeCount = 0, csp_revisedMaxKeepAliveCount = 0\<rparr>"

definition revised :: "UA_Subscription \<Rightarrow> UA_CreateSubscriptionResponse" where
  "revised u = \<lparr>csp_serviceResult = GOOD, csp_subscriptionId = sub_subscriptionId u,
     csp_revisedPublishingInterval = sub_publishingInterval u, csp_revisedLifetimeCount = sub_lifeTimeCount u,
     csp_revisedMaxKeepAliveCount = sub_maxKeepAliveCount u\<rparr>"

definition Service_CreateSubscription ::
  "ptr \<Rightarrow> UA_CreateSubscriptionRequest \<Rightarrow> UA_Server \<Rightarrow> UA_CreateSubscriptionResponse \<times> UA_Server" where
  "Service_CreateSubscription ses req s =
     (let cfg = srv_config s
      in if cfg_maxSubscriptions cfg \<noteq> 0 \<and> srv_subscriptionsSize s \<ge> unat (cfg_maxSubscriptions cfg) \<or>
            cfg_maxSubscriptionsPerSession cfg \<noteq> 0 \<and>
            ses_subscriptionsSize (the_ses s ses) \<ge> unat (cfg_maxSubscriptionsPerSession cfg)
         then (create_failed UA_STATUSCODE_BADTOOMANYSUBSCRIPTIONS, s)
         else let (p, s) = UA_Subscription_new s
              in if p = 0 then (create_failed UA_STATUSCODE_BADOUTOFMEMORY, s)
                 else let s = mod_sub p (setSubscriptionSettings cfg (csr_requestedPublishingInterval req)
                            (csr_requestedLifetimeCount req) (csr_requestedMaxKeepAliveCount req)
                            (csr_maxNotificationsPerPublish req) (csr_priority req)) s;
                          s = mod_sub p (setPublishingEnabled (csr_publishingEnabled req)) s;
                          s = mod_sub p (\<lambda>u. u\<lparr>sub_currentKeepAliveCount := sub_maxKeepAliveCount u\<rparr>) s;
                          s = s\<lparr>srv_lastSubscriptionId := srv_lastSubscriptionId s + 1\<rparr>;
                          s = mod_sub p (\<lambda>u. u\<lparr>sub_subscriptionId := srv_lastSubscriptionId s\<rparr>) s;
                          (retval, s) = Subscription_registerPublishCallback p s
                      in if retval \<noteq> GOOD then (create_failed retval, UA_Subscription_delete p s)
                         else let s = s\<lparr>srv_subscriptions := p # srv_subscriptions s,
                                    srv_subscriptionsSize := srv_subscriptionsSize s + 1,
                                    srv_currentSubscriptionCount := srv_currentSubscriptionCount s + 1,
                                    srv_cumulatedSubscriptionCount := srv_cumulatedSubscriptionCount s + 1\<rparr>;
                                  s = UA_Session_attachSubscription ses p s
                              in (revised (the_sub s p), s))"

definition Service_ModifySubscription ::
  "ptr \<Rightarrow> u32 \<Rightarrow> UA_CreateSubscriptionRequest \<Rightarrow> UA_Server \<Rightarrow> UA_CreateSubscriptionResponse \<times> UA_Server" where
  "Service_ModifySubscription ses subscriptionId req s =
     (case UA_Session_getSubscriptionById ses subscriptionId s of
        None \<Rightarrow> (create_failed UA_STATUSCODE_BADSUBSCRIPTIONIDINVALID, s)
      | Some p \<Rightarrow>
          let oldPublishingInterval = sub_publishingInterval (the_sub s p);
              oldPriority = sub_priority (the_sub s p);
              s = mod_sub p (setSubscriptionSettings (srv_config s) (csr_requestedPublishingInterval req)
                    (csr_requestedLifetimeCount req) (csr_requestedMaxKeepAliveCount req)
                    (csr_maxNotificationsPerPublish req) (csr_priority req)) s;
              s = mod_sub p (\<lambda>u. u\<lparr>sub_currentLifetimeCount := 0\<rparr>) s;
              u = the_sub s p;
              s = (if sub_publishCallbackId u > 0 \<and> sub_publishingInterval u \<noteq> oldPublishingInterval
                   then snd (changeRepeatedCallbackInterval (sub_publishCallbackId u) (sub_publishingInterval u) s)
                   else s);
              s = (if oldPriority \<noteq> sub_priority u
                   then UA_Session_attachSubscription ses p (UA_Session_detachSubscription ses p False s) else s)
          in (revised (the_sub s p), s))"

section \<open>Operations of a request\<close>

fun run_operations :: "('op \<Rightarrow> UA_Server \<Rightarrow> 'res \<times> UA_Server) \<Rightarrow> 'op list \<Rightarrow> UA_Server \<Rightarrow> 'res list \<times> UA_Server" where
  "run_operations f [] s = ([], s)"
| "run_operations f (x # xs) s = (let (r, s) = f x s; (rs, s) = run_operations f xs s in (r # rs, s))"

definition UA_Server_processServiceOperations ::
  "('op \<Rightarrow> UA_Server \<Rightarrow> 'res \<times> UA_Server) \<Rightarrow> 'op list \<Rightarrow> UA_Server \<Rightarrow> (status \<times> 'res list) \<times> UA_Server" where
  "UA_Server_processServiceOperations f ops s =
     (if ops = [] then ((UA_STATUSCODE_BADNOTHINGTODO, []), s)
      else let (results, s) = malloc s
           in if results = 0 then ((UA_STATUSCODE_BADOUTOFMEMORY, []), s)
              else let (rs, s) = run_operations f ops s in ((GOOD, rs), s))"

definition Operation_SetPublishingMode :: "ptr \<Rightarrow> bool \<Rightarrow> u32 \<Rightarrow> UA_Server \<Rightarrow> status \<times> UA_Server" where
  "Operation_SetPublishingMode ses publishingEnabled subscriptionId s =
     (case UA_Session_getSubscriptionById ses subscriptionId s of
        None \<Rightarrow> (UA_STATUSCODE_BADSUBSCRIPTIONIDINVALID, s)
      | Some p \<Rightarrow> (GOOD, mod_sub p (\<lambda>u. setPublishingEnabled publishingEnabled (u\<lparr>sub_currentLifetimeCount := 0\<rparr>)) s))"

definition Service_SetPublishingMode :: "ptr \<Rightarrow> bool \<Rightarrow> u32 list \<Rightarrow> UA_Server \<Rightarrow> (status \<times> status list) \<times> UA_Server" where
  "Service_SetPublishingMode ses publishingEnabled ids s =
     UA_Server_processServiceOperations (Operation_SetPublishingMode ses publishingEnabled) ids s"

definition Operation_DeleteSubscription :: "ptr \<Rightarrow> u32 \<Rightarrow> UA_Server \<Rightarrow> status \<times> UA_Server" where
  "Operation_DeleteSubscription ses subscriptionId s =
     (case UA_Session_getSubscriptionById ses subscriptionId s of
        None \<Rightarrow> (UA_STATUSCODE_BADSUBSCRIPTIONIDINVALID, s)
      | Some p \<Rightarrow> (GOOD, UA_Subscription_delete p s))"

definition Service_DeleteSubscriptions :: "ptr \<Rightarrow> u32 list \<Rightarrow> UA_Server \<Rightarrow> (status \<times> status list) \<times> UA_Server" where
  "Service_DeleteSubscriptions ses ids s =
     UA_Server_processServiceOperations (Operation_DeleteSubscription ses) ids s"

section \<open>Publish\<close>

definition acknowledge :: "ptr \<Rightarrow> u32 \<times> u32 \<Rightarrow> UA_Server \<Rightarrow> status \<times> UA_Server" where
  "acknowledge ses ack s =
     (case UA_Session_getSubscriptionById ses (fst ack) s of
        None \<Rightarrow> (UA_STATUSCODE_BADSUBSCRIPTIONIDINVALID, s)
      | Some p \<Rightarrow> UA_Subscription_removeRetransmissionMessage p (snd ack) s)"

text \<open>A late subscription that was served goes behind the others of its priority.\<close>

definition rotate_late :: "ptr \<Rightarrow> ptr \<Rightarrow> UA_Server \<Rightarrow> UA_Server" where
  "rotate_late ses late s =
     (if sub_session (the_sub s late) = 0 then s
      else mod_ses ses (\<lambda>x. x\<lparr>ses_subscriptions :=
             in_front late (ses_subscriptions x) @
             insert_by_priority (priority_of s) late (behind late (ses_subscriptions x))\<rparr>) s)"

partial_function (option) serve_late :: "ptr \<Rightarrow> ptr option \<Rightarrow> UA_Server \<Rightarrow> UA_Server option" where
  "serve_late ses late s =
     (case late of
        None \<Rightarrow> Some s
      | Some l \<Rightarrow>
          let late_tmp = tailq_next l (ses_subscriptions (the_ses s ses))
          in if sub_state (the_sub s l) \<noteq> UA_SUBSCRIPTIONSTATE_LATE then serve_late ses late_tmp s
             else let s = rotate_late ses l (snd (UA_Subscription_publishOnce l s))
                  in if ses_responseQueueSize (the_ses s ses) = 0 then Some s
                     else serve_late ses late_tmp s)"

definition blank_response :: "u32 \<Rightarrow> UA_PublishResponse" where
  "blank_response requestHandle =
     \<lparr>res_requestHandle = requestHandle, res_timestamp = 0, res_serviceResult = GOOD, res_subscriptionId = 0,
      res_availableSequenceNumbers = [], res_moreNotifications = False,
      res_notificationMessage = \<lparr>msg_sequenceNumber = 0, msg_publishTime = 0, msg_notificationData = []\<rparr>,
      res_results = []\<rparr>"

definition Service_Publish ::
  "ptr \<Rightarrow> u32 \<Rightarrow> (u32 \<times> u32) list \<Rightarrow> u32 \<Rightarrow> UA_Server \<Rightarrow> (status \<times> UA_Server) option" where
  "Service_Publish ses requestHandle acks requestId s =
     (let fault = (\<lambda>res s. Some (res, sendServiceFault (ses_channel (the_ses s ses)) requestId requestHandle res s));
          limit = unat (cfg_maxPublishReqPerSession (srv_config s))
      in if ses_subscriptions (the_ses s ses) = [] then fault UA_STATUSCODE_BADNOSUBSCRIPTION s
         else let (ok, s) = (if limit \<noteq> 0 \<and> ses_responseQueueSize (the_ses s ses) \<ge> limit
                             then UA_Session_reachedPublishReqLimit ses s else (True, s))
              in if \<not> ok then fault UA_STATUSCODE_BADINTERNALERROR s
                 else let (entry, s) = malloc s
                      in if entry = 0 then fault UA_STATUSCODE_BADOUTOFMEMORY s
                         else let (results, s) = (if acks \<noteq> [] then malloc s else (1, s))
                              in if results = 0 then fault UA_STATUSCODE_BADOUTOFMEMORY s
                                 else let (rs, s) = run_operations (acknowledge ses) acks s;
                                          s = UA_Session_queuePublishReq ses
                                                \<lparr>pre_requestId = requestId,
                                                 pre_response = (blank_response requestHandle)\<lparr>res_results := rs\<rparr>\<rparr> False s
                                      in if ses_responseQueueSize (the_ses s ses) > 1 then Some (GOOD, s)
                                         else map_option (\<lambda>s. (GOOD, s))
                                                (serve_late ses (first (ses_subscriptions (the_ses s ses))) s))"

section \<open>Republish\<close>

text \<open>The copy of the message needs memory.\<close>

definition Service_Republish :: "ptr \<Rightarrow> u32 \<Rightarrow> u32 \<Rightarrow> UA_Server \<Rightarrow> (status \<times> UA_NotificationMessage option) \<times> UA_Server" where
  "Service_Republish ses subscriptionId retransmitSequenceNumber s =
     (case UA_Session_getSubscriptionById ses subscriptionId s of
        None \<Rightarrow> ((UA_STATUSCODE_BADSUBSCRIPTIONIDINVALID, None), s)
      | Some p \<Rightarrow>
          let s = mod_sub p (\<lambda>u. u\<lparr>sub_currentLifetimeCount := 0\<rparr>) s
          in case find (\<lambda>m. msg_sequenceNumber m = retransmitSequenceNumber) (sub_retransmissionQueue (the_sub s p)) of
               None \<Rightarrow> ((UA_STATUSCODE_BADMESSAGENOTAVAILABLE, None), s)
             | Some m \<Rightarrow>
                 let (copy, s) = malloc s
                 in if copy = 0 then ((UA_STATUSCODE_BADOUTOFMEMORY, None), s) else ((GOOD, Some m), s))"

section \<open>TransferSubscriptions\<close>

definition setTransferredSequenceNumbers :: "ptr \<Rightarrow> UA_Server \<Rightarrow> (status \<times> u32 list) \<times> UA_Server" where
  "setTransferredSequenceNumbers p s =
     (let q = sub_retransmissionQueue (the_sub s p);
          (a, s) = (if q = [] then (1, s) else malloc s)
      in if a = 0 then ((UA_STATUSCODE_BADOUTOFMEMORY, []), s) else ((GOOD, map msg_sequenceNumber q), s))"

text \<open>The initial values: an item that reports data and has nothing in its queue.\<close>

definition send_initial_value :: "ptr \<Rightarrow> UA_Server \<Rightarrow> UA_Server" where
  "send_initial_value m s =
     (if is_event_item s m \<or> mon_monitoringMode (the_mon s m) \<noteq> UA_MONITORINGMODE_REPORTING \<or>
         mon_queueSize (the_mon s m) > 0
      then s
      else snd (UA_MonitoredItem_createDataChangeNotification m (mon_lastValue (the_mon s m)) s))"

text \<open>
  The structure is copied to \<open>newSub\<close>, and the items, the notifications and the retransmissions move
  there; the list of the items that are sampled with the publishing stays in both structures. Its first
  item keeps its pointer back into the old structure (\<open>sub_samplingStale\<close>).
\<close>

definition move_subscription :: "ptr \<Rightarrow> ptr \<Rightarrow> UA_Server \<Rightarrow> UA_Server" where
  "move_subscription p newSub s =
     (let u = the_sub s p;
          oldSession = sub_session u;
          s = mod_sub newSub (\<lambda>v. v\<lparr>sub_monitoredItems := rev (sub_monitoredItems u)\<rparr>) s;
          s = fold (\<lambda>m. mod_mon m (\<lambda>i. i\<lparr>mon_subscription := newSub\<rparr>)) (sub_monitoredItems u) s;
          s = mod_sub newSub (\<lambda>v. v\<lparr>sub_samplingStale := (sub_samplingMonitoredItems u \<noteq> []),
                sub_notificationQueue := sub_notificationQueue u,
                sub_retransmissionQueue := sub_retransmissionQueue u\<rparr>) s;
          s = mod_sub p (\<lambda>v. v\<lparr>sub_monitoredItems := [], sub_monitoredItemsSize := 0, sub_notificationQueue := [],
                sub_notificationQueueSize := 0, sub_dataChangeNotifications := 0, sub_eventNotifications := 0,
                sub_retransmissionQueue := [], sub_retransmissionQueueSize := 0\<rparr>) s
      in if oldSession = 0 then s
         else mod_ses oldSession (\<lambda>x. x\<lparr>ses_totalRetransmissionQueueSize :=
                ses_totalRetransmissionQueueSize x - length (sub_retransmissionQueue u)\<rparr>) s)"

definition Operation_TransferSubscription ::
  "ptr \<Rightarrow> bool \<Rightarrow> u32 \<Rightarrow> UA_Server \<Rightarrow> ((status \<times> u32 list) \<times> UA_Server) option" where
  "Operation_TransferSubscription ses sendInitialValues subscriptionId s =
     (case UA_Server_getSubscriptionById subscriptionId s of
        None \<Rightarrow> Some ((UA_STATUSCODE_BADSUBSCRIPTIONIDINVALID, []), s)
      | Some p \<Rightarrow>
          let oldSession = sub_session (the_sub s p);
              limit = cfg_maxSubscriptionsPerSession (srv_config s)
          in if oldSession = ses then Some (setTransferredSequenceNumbers p s)
             else if \<not> cfg_allowTransfer (srv_config s) oldSession ses
             then Some ((UA_STATUSCODE_BADUSERACCESSDENIED, []), s)
             else if limit \<noteq> 0 \<and> ses_subscriptionsSize (the_ses s ses) \<ge> unat limit
             then Some ((UA_STATUSCODE_BADTOOMANYSUBSCRIPTIONS, []), s)
             else let (newSub, s) = malloc s
                  in if newSub = 0 then Some ((UA_STATUSCODE_BADOUTOFMEMORY, []), s)
                     else let (res, s) = setTransferredSequenceNumbers p s
                          in if fst res \<noteq> GOOD then Some (res, s)
                             else let s = s\<lparr>srv_subs := (srv_subs s)(newSub \<mapsto> the_sub s p)\<rparr>;
                                      (retval, s) = Subscription_registerPublishCallback newSub s
                                  in if retval \<noteq> GOOD
                                     then Some ((retval, []), s\<lparr>srv_subs := (srv_subs s)(newSub := None)\<rparr>)
                                     else let s = move_subscription p newSub s;
                                              s = s\<lparr>srv_subscriptions := newSub # srv_subscriptions s,
                                                    srv_subscriptionsSize := srv_subscriptionsSize s + 1\<rparr>;
                                              s = UA_Session_attachSubscription ses newSub s;
                                              s = mod_sub p (\<lambda>u. u\<lparr>sub_statusChange :=
                                                    UA_STATUSCODE_GOODSUBSCRIPTIONTRANSFERRED\<rparr>) s
                                          in case UA_Subscription_publish p s of
                                               None \<Rightarrow> None
                                             | Some s \<Rightarrow>
                                                 let s = (if sendInitialValues
                                                          then fold send_initial_value (sub_monitoredItems (the_sub s newSub)) s
                                                          else s)
                                                 in map_option (\<lambda>s. (res, s)) (UA_Subscription_publish newSub s))"

text \<open>The loop over the operations of the request, each of which publishes.\<close>

fun run_transfers ::
  "(u32 \<Rightarrow> UA_Server \<Rightarrow> ('res \<times> UA_Server) option) \<Rightarrow> u32 list \<Rightarrow> UA_Server \<Rightarrow> ('res list \<times> UA_Server) option" where
  "run_transfers f [] s = Some ([], s)"
| "run_transfers f (x # xs) s =
     (case f x s of
        None \<Rightarrow> None
      | Some (r, s) \<Rightarrow> map_option (\<lambda>(rs, s). (r # rs, s)) (run_transfers f xs s))"

definition Service_TransferSubscriptions ::
  "ptr \<Rightarrow> bool \<Rightarrow> u32 list \<Rightarrow> UA_Server \<Rightarrow> ((status \<times> (status \<times> u32 list) list) \<times> UA_Server) option" where
  "Service_TransferSubscriptions ses sendInitialValues ids s =
     (if ids = [] then Some ((UA_STATUSCODE_BADNOTHINGTODO, []), s)
      else let (results, s) = malloc s
           in if results = 0 then Some ((UA_STATUSCODE_BADOUTOFMEMORY, []), s)
              else map_option (\<lambda>(rs, s). ((GOOD, rs), s))
                     (run_transfers (Operation_TransferSubscription ses sendInitialValues) ids s))"

end
