(* ===== verification/Sub_Frame.thy ===== *)
theory Sub_Frame
  imports Sub_Service
begin

text \<open>
  What the operations on notifications leave alone. An operation on the queues of items and
  subscriptions keeps the sessions, the configuration, the timer, what was sent, and of every
  subscription all but its notification queue with the counters.
\<close>

section \<open>Access after an update\<close>

lemma upd_at_simps [simp]:
  "upd_at p f h p = map_option f (h p)" "q \<noteq> p \<Longrightarrow> upd_at p f h q = h q"
  "(upd_at p f h q = None) = (h q = None)"
  by (auto simp: upd_at_def)

lemmas mod_defs = mod_not_def mod_mon_def mod_sub_def mod_ses_def
lemmas the_defs = the_not_def the_mon_def the_sub_def the_ses_def

lemma the_sub_mod [simp]:
  "srv_subs s p \<noteq> None \<Longrightarrow> the_sub (mod_sub p f s) p = f (the_sub s p)"
  "q \<noteq> p \<Longrightarrow> the_sub (mod_sub p f s) q = the_sub s q"
  "the_sub (mod_not n g s) = the_sub s" "the_sub (mod_mon m h s) = the_sub s" "the_sub (mod_ses a k s) = the_sub s"
  by (auto simp: mod_defs the_defs fun_eq_iff)

lemma the_ses_mod [simp]:
  "srv_sessions s p \<noteq> None \<Longrightarrow> the_ses (mod_ses p f s) p = f (the_ses s p)"
  "q \<noteq> p \<Longrightarrow> the_ses (mod_ses p f s) q = the_ses s q"
  "the_ses (mod_not n g s) = the_ses s" "the_ses (mod_mon m h s) = the_ses s" "the_ses (mod_sub a k s) = the_ses s"
  by (auto simp: mod_defs the_defs fun_eq_iff)

lemma the_mon_mod [simp]:
  "srv_monitored s p \<noteq> None \<Longrightarrow> the_mon (mod_mon p f s) p = f (the_mon s p)"
  "q \<noteq> p \<Longrightarrow> the_mon (mod_mon p f s) q = the_mon s q"
  "the_mon (mod_not n g s) = the_mon s" "the_mon (mod_sub m h s) = the_mon s" "the_mon (mod_ses a k s) = the_mon s"
  by (auto simp: mod_defs the_defs fun_eq_iff)

lemma the_not_mod [simp]:
  "srv_notifications s p \<noteq> None \<Longrightarrow> the_not (mod_not p f s) p = f (the_not s p)"
  "q \<noteq> p \<Longrightarrow> the_not (mod_not p f s) q = the_not s q"
  "the_not (mod_mon n g s) = the_not s" "the_not (mod_sub m h s) = the_not s" "the_not (mod_ses a k s) = the_not s"
  by (auto simp: mod_defs the_defs fun_eq_iff)

lemma live_mod [simp]:
  "(srv_subs (mod_sub p f s) q = None) = (srv_subs s q = None)"
  "(srv_sessions (mod_ses p k s) q = None) = (srv_sessions s q = None)"
  "(srv_monitored (mod_mon p g s) q = None) = (srv_monitored s q = None)"
  "(srv_notifications (mod_not p h s) q = None) = (srv_notifications s q = None)"
  by (auto simp: mod_defs upd_at_def)

lemma mod_other [simp]:
  "srv_subs (mod_not n g s) = srv_subs s" "srv_subs (mod_mon m h s) = srv_subs s" "srv_subs (mod_ses a k s) = srv_subs s"
  "srv_sessions (mod_not n g s) = srv_sessions s" "srv_sessions (mod_mon m h s) = srv_sessions s"
  "srv_sessions (mod_sub p f s) = srv_sessions s"
  "srv_monitored (mod_not n g s) = srv_monitored s" "srv_monitored (mod_sub p f s) = srv_monitored s"
  "srv_monitored (mod_ses a k s) = srv_monitored s"
  "srv_notifications (mod_mon m h s) = srv_notifications s" "srv_notifications (mod_sub p f s) = srv_notifications s"
  "srv_notifications (mod_ses a k s) = srv_notifications s"
  by (simp_all add: mod_defs)

lemma mod_rest [simp]:
  "srv_config (mod_not n g s) = srv_config s" "srv_config (mod_mon m h s) = srv_config s"
  "srv_config (mod_sub p f s) = srv_config s" "srv_config (mod_ses a k s) = srv_config s"
  "srv_timer (mod_not n g s) = srv_timer s" "srv_timer (mod_mon m h s) = srv_timer s"
  "srv_timer (mod_sub p f s) = srv_timer s" "srv_timer (mod_ses a k s) = srv_timer s"
  "srv_sent (mod_not n g s) = srv_sent s" "srv_sent (mod_mon m h s) = srv_sent s"
  "srv_sent (mod_sub p f s) = srv_sent s" "srv_sent (mod_ses a k s) = srv_sent s"
  "srv_now (mod_not n g s) = srv_now s" "srv_now (mod_mon m h s) = srv_now s"
  "srv_now (mod_sub p f s) = srv_now s" "srv_now (mod_ses a k s) = srv_now s"
  "srv_subscriptions (mod_not n g s) = srv_subscriptions s" "srv_subscriptions (mod_mon m h s) = srv_subscriptions s"
  "srv_subscriptions (mod_sub p f s) = srv_subscriptions s" "srv_subscriptions (mod_ses a k s) = srv_subscriptions s"
  "srv_mallocs (mod_not n g s) = srv_mallocs s" "srv_mallocs (mod_mon m h s) = srv_mallocs s"
  "srv_mallocs (mod_sub p f s) = srv_mallocs s" "srv_mallocs (mod_ses a k s) = srv_mallocs s"
  by (simp_all add: mod_defs)

section \<open>The frame of the notification operations\<close>

definition strip :: "UA_Subscription \<Rightarrow> UA_Subscription" where
  "strip u = u\<lparr>sub_notificationQueue := [], sub_notificationQueueSize := 0, sub_dataChangeNotifications := 0,
     sub_eventNotifications := 0\<rparr>"

definition queues_only :: "UA_Server \<Rightarrow> UA_Server \<Rightarrow> bool" where
  "queues_only s t =
     (srv_sessions t = srv_sessions s \<and> srv_config t = srv_config s \<and> srv_timer t = srv_timer s \<and>
      srv_sent t = srv_sent s \<and> srv_now t = srv_now s \<and> srv_subscriptions t = srv_subscriptions s \<and>
      (\<forall>p. map_option strip (srv_subs t p) = map_option strip (srv_subs s p)))"

lemma queues_only_refl [simp, intro]: "queues_only s s"
  by (simp add: queues_only_def)

lemma queues_only_trans [trans]: "queues_only s t \<Longrightarrow> queues_only t u \<Longrightarrow> queues_only s u"
  by (simp add: queues_only_def)

lemma queues_only_mod_sub:
  assumes "\<And>u. strip (f u) = strip u" "queues_only s t"
  shows "queues_only s (mod_sub p f t)"
proof -
  have "map_option strip (srv_subs (mod_sub p f t) q) = map_option strip (srv_subs t q)" for q
    by (cases "srv_subs t q") (auto simp: mod_sub_def upd_at_def assms(1))
  then show ?thesis using assms(2) by (simp add: queues_only_def)
qed

lemma queues_only_mods:
  "queues_only s t \<Longrightarrow> queues_only s (mod_not n g t)"
  "queues_only s t \<Longrightarrow> queues_only s (mod_mon m h t)"
  "queues_only s t \<Longrightarrow> queues_only s (t\<lparr>srv_notifications := x\<rparr>)"
  "queues_only s t \<Longrightarrow> queues_only s (t\<lparr>srv_mallocs := ms\<rparr>)"
  by (simp_all add: queues_only_def)

lemma strip_updates [simp]:
  "strip (u\<lparr>sub_notificationQueue := q, sub_notificationQueueSize := k\<rparr>) = strip u"
  "strip (u\<lparr>sub_notificationQueueSize := k, sub_eventNotifications := j\<rparr>) = strip u"
  "strip (u\<lparr>sub_notificationQueue := q\<rparr>) = strip u"
  "strip (u\<lparr>sub_eventNotifications := j\<rparr>) = strip u"
  "strip (u\<lparr>sub_dataChangeNotifications := j\<rparr>) = strip u"
  by (simp_all add: strip_def)

lemmas queues_only_intros = queues_only_mod_sub queues_only_mods

lemma queues_only_enqueueSub: "queues_only s t \<Longrightarrow> queues_only s (UA_Notification_enqueueSub n t)"
  unfolding UA_Notification_enqueueSub_def Let_def by (auto intro!: queues_only_intros)

lemma queues_only_dequeueSub: "queues_only s t \<Longrightarrow> queues_only s (UA_Notification_dequeueSub n t)"
  unfolding UA_Notification_dequeueSub_def Let_def by (auto intro!: queues_only_intros)

lemma queues_only_dequeueMon: "queues_only s t \<Longrightarrow> queues_only s (UA_Notification_dequeueMon n t)"
  unfolding UA_Notification_dequeueMon_def Let_def by (auto intro!: queues_only_intros)

lemma queues_only_delete: "queues_only s t \<Longrightarrow> queues_only s (UA_Notification_delete n t)"
  unfolding UA_Notification_delete_def Let_def
  by (auto intro!: queues_only_intros queues_only_dequeueSub queues_only_dequeueMon)

lemma queues_only_fold:
  assumes "\<And>x t. queues_only s t \<Longrightarrow> queues_only s (f x t)"
  shows "queues_only s t \<Longrightarrow> queues_only s (fold f xs t)"
  by (induction xs arbitrary: t) (simp_all add: assms)

lemma queues_only_malloc: "malloc t = (p, t') \<Longrightarrow> queues_only s t \<Longrightarrow> queues_only s t'"
  by (auto simp: malloc_def split: list.splits intro: queues_only_intros)

lemma queues_only_delete_with_previous: "queues_only s t \<Longrightarrow> queues_only s (delete_with_previous n t)"
  unfolding delete_with_previous_def Let_def by (intro queues_only_delete queues_only_fold)

lemma queues_only_move: "queues_only s t \<Longrightarrow> queues_only s (snd (move_notifications k ns acc t))"
  by (induction k ns acc t rule: move_notifications.induct) (simp_all add: queues_only_delete_with_previous)

lemma queues_only_alloc_list: "alloc_list b t = (ok, t') \<Longrightarrow> queues_only s t \<Longrightarrow> queues_only s t'"
  unfolding alloc_list_def Let_def by (auto split: prod.splits if_splits dest: queues_only_malloc)

lemma queues_only_prepare:
  assumes "queues_only s t"
  shows "queues_only s (snd (prepareNotificationMessage p k t))"
proof -
  obtain d t1 where m: "malloc t = (d, t1)" by fastforce
  obtain ok t2 where a: "alloc_list (sub_dataChangeNotifications (the_sub t1 p) > 0) t1 = (ok, t2)" by fastforce
  obtain ok' t3 where b: "alloc_list (sub_eventNotifications (the_sub t1 p) > 0) t2 = (ok', t3)" by fastforce
  have q: "queues_only s t1" "queues_only s t2" "queues_only s t3"
    using queues_only_malloc [OF m assms] queues_only_alloc_list [OF a] queues_only_alloc_list [OF b] by blast+
  obtain ds es t4 where c: "move_notifications k (sub_notificationQueue (the_sub t3 p)) ([], []) t3 = ((ds, es), t4)"
    by (metis prod.collapse)
  have "queues_only s t4" using queues_only_move [OF q(3)] c by (metis snd_conv)
  then show ?thesis using q m a b c
    by (simp add: prepareNotificationMessage_def Let_def)
qed

lemma queues_onlyD:
  assumes "queues_only s t"
  shows "srv_sessions t = srv_sessions s" "srv_config t = srv_config s" "srv_sent t = srv_sent s" "srv_now t = srv_now s"
    "srv_timer t = srv_timer s" "srv_subscriptions t = srv_subscriptions s"
    "(srv_subs t p = None) = (srv_subs s p = None)"
    "strip (the_sub t p) = strip (the_sub s p) \<or> srv_subs s p = None"
proof -
  have *: "map_option strip (srv_subs t p) = map_option strip (srv_subs s p)" using assms by (simp add: queues_only_def)
  then show "(srv_subs t p = None) = (srv_subs s p = None)" by (metis map_option_is_None)
  show "strip (the_sub t p) = strip (the_sub s p) \<or> srv_subs s p = None"
    using * by (cases "srv_subs s p"; cases "srv_subs t p") (auto simp: the_sub_def)
qed (use assms in \<open>simp_all add: queues_only_def\<close>)

text \<open>The fields of a subscription that a notification operation does not change.\<close>

lemma strip_eqD:
  assumes "strip u = strip v"
  shows "sub_session u = sub_session v" "sub_subscriptionId u = sub_subscriptionId v"
    "sub_lifeTimeCount u = sub_lifeTimeCount v" "sub_maxKeepAliveCount u = sub_maxKeepAliveCount v"
    "sub_statusChange u = sub_statusChange v" "sub_nextSequenceNumber u = sub_nextSequenceNumber v"
    "sub_currentKeepAliveCount u = sub_currentKeepAliveCount v" "sub_state u = sub_state v"
    "sub_currentLifetimeCount u = sub_currentLifetimeCount v" "sub_priority u = sub_priority v"
    "sub_retransmissionQueue u = sub_retransmissionQueue v" "sub_monitoredItems u = sub_monitoredItems v"
    "sub_retransmissionQueueSize u = sub_retransmissionQueueSize v" "sub_publishCallbackId u = sub_publishCallbackId v"
    "sub_publishingEnabled u = sub_publishingEnabled v" "sub_notificationsPerPublish u = sub_notificationsPerPublish v"
  using arg_cong [OF assms, of sub_session]
    arg_cong [OF assms, of sub_subscriptionId]
    arg_cong [OF assms, of sub_lifeTimeCount]
    arg_cong [OF assms, of sub_maxKeepAliveCount]
    arg_cong [OF assms, of sub_statusChange]
    arg_cong [OF assms, of sub_nextSequenceNumber]
    arg_cong [OF assms, of sub_currentKeepAliveCount]
    arg_cong [OF assms, of sub_state]
    arg_cong [OF assms, of sub_currentLifetimeCount]
    arg_cong [OF assms, of sub_priority]
    arg_cong [OF assms, of sub_retransmissionQueue]
    arg_cong [OF assms, of sub_monitoredItems]
    arg_cong [OF assms, of sub_retransmissionQueueSize]
    arg_cong [OF assms, of sub_publishCallbackId]
    arg_cong [OF assms, of sub_publishingEnabled]
    arg_cong [OF assms, of sub_notificationsPerPublish]
  by (simp_all add: strip_def)

end
