(* ===== verification/Sub_Sessions.thy ===== *)
theory Sub_Sessions
  imports Sub_Frame
begin

text \<open>
  The tables of sessions and subscriptions, seen from the retransmission queues and the publish
  requests: an abstract view of the state (\<open>view_ok\<close>), the changes it admits, and the proof that the
  operations of \<^verbatim>\<open>ua_session.c\<close> and \<^verbatim>\<open>ua_subscription.c\<close> are such changes.
\<close>

section \<open>The view\<close>

text \<open>Of a subscription only its session, its retransmissions and its sequence number matter here.\<close>

record retrans =
  rt_session :: ptr
  rt_queue :: "UA_NotificationMessage list"
  rt_size :: nat
  rt_next :: u32

definition retrans_of :: "UA_Subscription \<Rightarrow> retrans" where
  "retrans_of u = \<lparr>rt_session = sub_session u, rt_queue = sub_retransmissionQueue u,
     rt_size = sub_retransmissionQueueSize u, rt_next = sub_nextSequenceNumber u\<rparr>"

definition subs_view :: "UA_Server \<Rightarrow> ptr \<rightharpoonup> retrans" where
  "subs_view s p = map_option retrans_of (srv_subs s p)"

definition total_of :: "(ptr \<rightharpoonup> retrans) \<Rightarrow> ptr list \<Rightarrow> nat" where
  "total_of V ps = (\<Sum>p \<leftarrow> ps. length (rt_queue (the (V p))))"

definition sub_entry_ok :: "(ptr \<rightharpoonup> UA_Session) \<Rightarrow> ptr \<Rightarrow> retrans \<Rightarrow> bool" where
  "sub_entry_ok S p r =
     (rt_size r = length (rt_queue r) \<and> length (rt_queue r) \<le> UA_MAX_RETRANSMISSIONQUEUESIZE \<and> 0 < rt_next r \<and>
      (rt_session r = 0 \<or> (\<exists>x. S (rt_session r) = Some x \<and> p \<in> set (ses_subscriptions x))))"

definition ses_entry_ok :: "(ptr \<rightharpoonup> retrans) \<Rightarrow> ptr \<Rightarrow> UA_Session \<Rightarrow> bool" where
  "ses_entry_ok V a x =
     (a \<noteq> 0 \<and> distinct (ses_subscriptions x) \<and> ses_subscriptionsSize x = length (ses_subscriptions x) \<and>
      ses_responseQueueSize x = length (ses_responseQueue x) \<and>
      ses_totalRetransmissionQueueSize x = total_of V (ses_subscriptions x) \<and>
      (\<forall>p \<in> set (ses_subscriptions x). \<exists>r. V p = Some r \<and> rt_session r = a))"

definition view_ok :: "(ptr \<rightharpoonup> retrans) \<Rightarrow> (ptr \<rightharpoonup> UA_Session) \<Rightarrow> bool" where
  "view_ok V S = ((\<forall>p r. V p = Some r \<longrightarrow> sub_entry_ok S p r) \<and> (\<forall>a x. S a = Some x \<longrightarrow> ses_entry_ok V a x))"

definition list_ok :: "UA_Server \<Rightarrow> bool" where
  "list_ok s = (\<forall>p \<in> set (srv_subscriptions s). srv_subs s p \<noteq> None)"

definition sessions_ok :: "UA_Server \<Rightarrow> bool" where
  "sessions_ok s = (view_ok (subs_view s) (srv_sessions s) \<and> list_ok s)"

lemma sessions_okD: "sessions_ok s \<Longrightarrow> view_ok (subs_view s) (srv_sessions s)" "sessions_ok s \<Longrightarrow> list_ok s"
  by (simp_all add: sessions_ok_def)

lemma list_ok_mod [simp]:
  "list_ok (mod_sub p f s) = list_ok s" "list_ok (mod_ses a g s) = list_ok s"
  by (simp_all add: list_ok_def del: not_None_eq)

lemma view_okD:
  assumes "view_ok V S"
  shows "V p = Some r \<Longrightarrow> sub_entry_ok S p r" "S a = Some x \<Longrightarrow> ses_entry_ok V a x"
  using assms by (simp_all add: view_ok_def)

lemma sub_entry_ok_mono:
  assumes "sub_entry_ok S p r"
    and "\<And>x. S (rt_session r) = Some x \<Longrightarrow> p \<in> set (ses_subscriptions x) \<Longrightarrow>
      \<exists>x'. S' (rt_session r) = Some x' \<and> p \<in> set (ses_subscriptions x')"
  shows "sub_entry_ok S' p r"
  using assms unfolding sub_entry_ok_def by blast

lemma sub_entry_ok_upd:
  assumes "sub_entry_ok S p r" "S a = Some x" "p \<in> set (ses_subscriptions x) \<Longrightarrow> p \<in> set (ses_subscriptions x')"
  shows "sub_entry_ok (S(a \<mapsto> x')) p r"
  by (rule sub_entry_ok_mono [OF assms(1)], cases "rt_session r = a") (use assms(2,3) in simp_all)

lemma total_of_cong: "(\<And>p. p \<in> set ps \<Longrightarrow> rt_queue (the (V p)) = rt_queue (the (W p))) \<Longrightarrow> total_of V ps = total_of W ps"
  unfolding total_of_def by (simp cong: map_cong)

lemma total_of_upd:
  "distinct ps \<Longrightarrow> p \<in> set ps \<Longrightarrow> V p = Some r \<Longrightarrow>
   total_of (V(p \<mapsto> r')) ps + length (rt_queue r) = total_of V ps + length (rt_queue r')"
proof (induction ps)
  case (Cons q ps)
  show ?case
  proof (cases "q = p")
    case True
    then have "total_of (V(p \<mapsto> r')) ps = total_of V ps"
      using Cons.prems(1) by (intro total_of_cong) auto
    then show ?thesis using True Cons.prems by (simp add: total_of_def)
  next
    case False
    then show ?thesis using Cons by (simp add: total_of_def)
  qed
qed simp

lemma total_of_outside: "p \<notin> set ps \<Longrightarrow> total_of (V(p := r)) ps = total_of V ps"
  by (rule total_of_cong) auto

section \<open>Admitted changes\<close>

text \<open>A new queue of a subscription, with the total of its session.\<close>

lemma view_queue:
  assumes v: "view_ok V S" and p: "V p = Some r" and r': "rt_session r' = rt_session r"
      "rt_size r' = length (rt_queue r')" "length (rt_queue r') \<le> UA_MAX_RETRANSMISSIONQUEUESIZE" "0 < rt_next r'"
    and S': "S' = (if rt_session r = 0 then S else S(rt_session r \<mapsto> x'))"
    and x': "rt_session r = 0 \<or> S (rt_session r) = Some x \<and> x' = x\<lparr>ses_totalRetransmissionQueueSize := k\<rparr> \<and>
      k + length (rt_queue r) = ses_totalRetransmissionQueueSize x + length (rt_queue r')"
  shows "view_ok (V(p \<mapsto> r')) S'"
proof (unfold view_ok_def, intro conjI allI impI)
  fix q rq assume q: "(V(p \<mapsto> r')) q = Some rq"
  have keep: "sub_entry_ok S' q0 r0" if "V q0 = Some r0" for q0 r0
    by (rule sub_entry_ok_mono [OF view_okD(1) [OF v that]]) (use x' in \<open>auto simp: S'\<close>)
  show "sub_entry_ok S' q rq"
  proof (cases "q = p")
    case True
    then show ?thesis using q keep [OF p] r' unfolding sub_entry_ok_def by auto
  qed (use q keep in auto)
next
  fix a y assume y: "S' a = Some y"
  show "ses_entry_ok (V(p \<mapsto> r')) a y"
  proof (cases "rt_session r \<noteq> 0 \<and> a = rt_session r")
    case True
    then have x: "S a = Some x" "y = x\<lparr>ses_totalRetransmissionQueueSize := k\<rparr>"
        "k + length (rt_queue r) = ses_totalRetransmissionQueueSize x + length (rt_queue r')"
      using x' y S' by auto
    note e = view_okD(2) [OF v x(1), unfolded ses_entry_ok_def]
    have "p \<in> set (ses_subscriptions x)"
      using view_okD(1) [OF v p] True x(1) by (auto simp: sub_entry_ok_def)
    then have "total_of (V(p \<mapsto> r')) (ses_subscriptions x) + length (rt_queue r) =
        total_of V (ses_subscriptions x) + length (rt_queue r')"
      using total_of_upd e p by blast
    then show ?thesis using e x True p r'(1) unfolding ses_entry_ok_def by auto
  next
    case False
    then have x: "S a = Some y" using y S' by (auto split: if_splits)
    note e = view_okD(2) [OF v x, unfolded ses_entry_ok_def]
    have "p \<notin> set (ses_subscriptions y)" using e False p by auto
    then show ?thesis using e by (auto simp: ses_entry_ok_def total_of_outside)
  qed
qed

text \<open>New publish requests or another channel of a session.\<close>

lemma view_session:
  assumes "view_ok V S" "S a = Some x" "ses_subscriptions x' = ses_subscriptions x"
    "ses_subscriptionsSize x' = ses_subscriptionsSize x" "ses_responseQueueSize x' = length (ses_responseQueue x')"
    "ses_totalRetransmissionQueueSize x' = ses_totalRetransmissionQueueSize x"
  shows "view_ok V (S(a \<mapsto> x'))"
proof (unfold view_ok_def, intro conjI allI impI)
  fix q rq assume "V q = Some rq"
  then show "sub_entry_ok (S(a \<mapsto> x')) q rq"
    using sub_entry_ok_upd [OF view_okD(1) [OF assms(1)] assms(2)] assms(3) by simp
next
  fix b y assume "(S(a \<mapsto> x')) b = Some y"
  then show "ses_entry_ok V b y"
    using view_okD(2) [OF assms(1), of b y] view_okD(2) [OF assms(1,2)] assms(3-6)
    by (cases "b = a") (auto simp: ses_entry_ok_def)
qed

text \<open>A subscription enters a session, and leaves it.\<close>

lemma view_attach:
  assumes v: "view_ok V S" and p: "V p = Some r" "rt_session r = 0" and a: "S a = Some x"
    and x': "set (ses_subscriptions x') = insert p (set (ses_subscriptions x))"
      "length (ses_subscriptions x') = length (ses_subscriptions x) + 1"
      "total_of V (ses_subscriptions x') = total_of V (ses_subscriptions x) + length (rt_queue r)"
      "ses_subscriptionsSize x' = ses_subscriptionsSize x + 1"
      "ses_responseQueueSize x' = length (ses_responseQueue x')"
      "ses_totalRetransmissionQueueSize x' = ses_totalRetransmissionQueueSize x + length (rt_queue r)"
  shows "view_ok (V(p \<mapsto> r\<lparr>rt_session := a\<rparr>)) (S(a \<mapsto> x'))"
proof (unfold view_ok_def, intro conjI allI impI)
  note e = view_okD(2) [OF v a, unfolded ses_entry_ok_def]
  fix q rq assume q: "(V(p \<mapsto> r\<lparr>rt_session := a\<rparr>)) q = Some rq"
  show "sub_entry_ok (S(a \<mapsto> x')) q rq"
  proof (cases "q = p")
    case True
    then have "rq = r\<lparr>rt_session := a\<rparr>" using q by simp
    moreover have "p \<in> set (ses_subscriptions x')" using x'(1) by simp
    ultimately show ?thesis using True view_okD(1) [OF v p(1)] by (simp add: sub_entry_ok_def)
  next
    case False
    then have "V q = Some rq" using q by simp
    then show ?thesis using sub_entry_ok_upd [OF view_okD(1) [OF v] a] x'(1) by simp
  qed
next
  fix b y assume y: "(S(a \<mapsto> x')) b = Some y"
  note e = view_okD(2) [OF v a, unfolded ses_entry_ok_def]
  have np: "p \<notin> set (ses_subscriptions z)" if "S c = Some z" for c z
    using view_okD(2) [OF v that] p by (auto simp: ses_entry_ok_def)
  show "ses_entry_ok (V(p \<mapsto> r\<lparr>rt_session := a\<rparr>)) b y"
  proof (cases "b = a")
    case True
    then have yx: "y = x'" using y by simp
    have "card (set (ses_subscriptions x')) = length (ses_subscriptions x')"
      using e np [OF a] x'(1,2) distinct_card [of "ses_subscriptions x"] by simp
    then have d: "distinct (ses_subscriptions x')" by (rule card_distinct)
    have "total_of (V(p \<mapsto> r\<lparr>rt_session := a\<rparr>)) (ses_subscriptions x') = total_of V (ses_subscriptions x')"
      using p by (intro total_of_cong) auto
    then show ?thesis using yx True d e x' p by (auto simp: ses_entry_ok_def)
  next
    case False
    then have s: "S b = Some y" using y by simp
    then show ?thesis using view_okD(2) [OF v s] np [OF s] False by (auto simp: ses_entry_ok_def total_of_outside)
  qed
qed

lemma view_detach:
  assumes v: "view_ok V S" and p: "V p = Some r" "rt_session r = a" and a: "S a = Some x"
    and x': "ses_subscriptions x' = remove1 p (ses_subscriptions x)" "ses_subscriptionsSize x' = ses_subscriptionsSize x - 1"
      "ses_responseQueueSize x' = length (ses_responseQueue x')"
      "ses_totalRetransmissionQueueSize x' = ses_totalRetransmissionQueueSize x - length (rt_queue r)"
  shows "view_ok (V(p \<mapsto> r\<lparr>rt_session := 0\<rparr>)) (S(a \<mapsto> x'))"
proof (unfold view_ok_def, intro conjI allI impI)
  note e = view_okD(2) [OF v a, unfolded ses_entry_ok_def]
  have in_x: "p \<in> set (ses_subscriptions x)" using view_okD(1) [OF v p(1)] p(2) a e by (auto simp: sub_entry_ok_def)
  {
    fix q rq assume q: "(V(p \<mapsto> r\<lparr>rt_session := 0\<rparr>)) q = Some rq"
    show "sub_entry_ok (S(a \<mapsto> x')) q rq"
    proof (cases "q = p")
      case True
      then have "rq = r\<lparr>rt_session := 0\<rparr>" using q by simp
      then show ?thesis using True view_okD(1) [OF v p(1)] by (simp add: sub_entry_ok_def)
    next
      case False
      then have "V q = Some rq" using q by simp
      then show ?thesis using sub_entry_ok_upd [OF view_okD(1) [OF v] a] x'(1) False by (simp add: in_set_remove1)
    qed
  next
    fix b y assume y: "(S(a \<mapsto> x')) b = Some y"
    show "ses_entry_ok (V(p \<mapsto> r\<lparr>rt_session := 0\<rparr>)) b y"
    proof (cases "b = a")
      case True
      have "total_of V (ses_subscriptions x) = total_of V (remove1 p (ses_subscriptions x)) + length (rt_queue r)"
        using in_x p(1) sum_list_map_remove1 [of p "ses_subscriptions x" "\<lambda>q. length (rt_queue (the (V q)))"]
        by (simp add: total_of_def)
      moreover have "total_of (V(p \<mapsto> r\<lparr>rt_session := 0\<rparr>)) (remove1 p (ses_subscriptions x)) =
          total_of V (remove1 p (ses_subscriptions x))"
        using e by (intro total_of_outside) simp
      ultimately show ?thesis using True y e x' p in_x by (auto simp: ses_entry_ok_def length_remove1)
    next
      case False
      then have s: "S b = Some y" using y by simp
      have "p \<notin> set (ses_subscriptions y)" using view_okD(2) [OF v s] p False by (auto simp: ses_entry_ok_def)
      then show ?thesis using view_okD(2) [OF v s] by (auto simp: ses_entry_ok_def total_of_outside)
    qed
  }
qed

text \<open>A new subscription that belongs to no session.\<close>

lemma view_new:
  assumes "view_ok V S" "V p = None" "rt_session r = 0" "rt_size r = length (rt_queue r)"
    "length (rt_queue r) \<le> UA_MAX_RETRANSMISSIONQUEUESIZE" "0 < rt_next r"
  shows "view_ok (V(p \<mapsto> r)) S"
proof -
  have "p \<notin> set (ses_subscriptions y)" if "S a = Some y" for a y
    using view_okD(2) [OF assms(1) that] assms(2) by (auto simp: ses_entry_ok_def)
  then show ?thesis using assms unfolding view_ok_def
    by (auto simp: sub_entry_ok_def ses_entry_ok_def total_of_outside)
qed

end
