(* ===== verification/Sub_Tables.thy ===== *)
theory Sub_Tables
  imports Sub_Sessions
begin

text \<open>
  The operations on sessions and subscriptions keep the tables consistent (\<open>sessions_ok\<close>): first those
  that do not touch them, then the queue of publish requests, the retransmission queue, attaching and
  detaching, creation, deletion and publishing.
\<close>

section \<open>Operations that leave the tables alone\<close>

definition same_tables :: "UA_Server \<Rightarrow> UA_Server \<Rightarrow> bool" where
  "same_tables s t = (subs_view t = subs_view s \<and> srv_sessions t = srv_sessions s \<and>
     set (srv_subscriptions t) \<subseteq> set (srv_subscriptions s))"

lemma same_tables_refl [simp, intro]: "same_tables s s"
  by (simp add: same_tables_def)

lemma same_tables_trans [trans]: "same_tables s t \<Longrightarrow> same_tables t u \<Longrightarrow> same_tables s u"
  by (auto simp: same_tables_def)

lemma same_tables_ses: "same_tables s t \<Longrightarrow> srv_sessions t = srv_sessions s"
  by (simp add: same_tables_def)

lemma same_tables_live: "same_tables s t \<Longrightarrow> (srv_subs t p = None) = (srv_subs s p = None)"
  by (auto simp: same_tables_def subs_view_def fun_eq_iff) (metis map_option_is_None)+

lemma same_tables_ok: "same_tables s t \<Longrightarrow> sessions_ok s \<Longrightarrow> sessions_ok t"
  using same_tables_live [of s t] by (auto simp: same_tables_def sessions_ok_def list_ok_def simp del: not_None_eq)

lemma same_tables_the_ses: "same_tables s t \<Longrightarrow> the_ses t = the_ses s"
  by (auto simp: same_tables_def the_ses_def fun_eq_iff)

lemma same_tables_sub:
  assumes "same_tables s t" "srv_subs s p \<noteq> None"
  shows "sub_session (the_sub t p) = sub_session (the_sub s p)"
    "sub_retransmissionQueue (the_sub t p) = sub_retransmissionQueue (the_sub s p)"
    "sub_retransmissionQueueSize (the_sub t p) = sub_retransmissionQueueSize (the_sub s p)"
    "sub_nextSequenceNumber (the_sub t p) = sub_nextSequenceNumber (the_sub s p)"
proof -
  have "subs_view t p = subs_view s p" using assms(1) by (simp add: same_tables_def)
  then have "retrans_of (the_sub t p) = retrans_of (the_sub s p)"
    using assms(2) by (cases "srv_subs s p"; cases "srv_subs t p") (auto simp: subs_view_def the_sub_def)
  then show "sub_session (the_sub t p) = sub_session (the_sub s p)"
    "sub_retransmissionQueue (the_sub t p) = sub_retransmissionQueue (the_sub s p)"
    "sub_retransmissionQueueSize (the_sub t p) = sub_retransmissionQueueSize (the_sub s p)"
    "sub_nextSequenceNumber (the_sub t p) = sub_nextSequenceNumber (the_sub s p)"
    by (simp_all add: retrans_of_def)
qed

lemma same_tables_mod_sub:
  assumes "\<And>u. retrans_of (f u) = retrans_of u" "same_tables s t"
  shows "same_tables s (mod_sub p f t)"
proof -
  have "subs_view (mod_sub p f t) = subs_view t"
    by (rule ext, rename_tac q, case_tac "srv_subs t q")
      (auto simp: subs_view_def mod_sub_def upd_at_def assms(1))
  then show ?thesis using assms(2) by (simp add: same_tables_def)
qed

lemma same_tables_mods:
  "same_tables s t \<Longrightarrow> same_tables s (mod_not n g t)"
  "same_tables s t \<Longrightarrow> same_tables s (mod_mon m h t)"
  by (simp_all add: same_tables_def subs_view_def [abs_def])

lemma same_tables_fields:
  assumes "same_tables s t"
  shows "same_tables s (t\<lparr>srv_notifications := x1\<rparr>)" "same_tables s (t\<lparr>srv_mallocs := x2\<rparr>)"
    "same_tables s (t\<lparr>srv_timer := x3\<rparr>)" "same_tables s (t\<lparr>srv_nodes := x4\<rparr>)"
    "same_tables s (t\<lparr>srv_monitoredItemsSize := x5\<rparr>)" "same_tables s (t\<lparr>srv_localMonitoredItems := x6\<rparr>)"
    "same_tables s (t\<lparr>srv_sent := x7\<rparr>)" "same_tables s (t\<lparr>srv_undefined := x13\<rparr>)"
    "same_tables s (t\<lparr>srv_lastSubscriptionId := x10\<rparr>)"
    "same_tables s (t\<lparr>srv_lastLocalMonitoredItemId := x11, srv_localMonitoredItems := x6\<rparr>)"
    "same_tables s (t\<lparr>srv_subscriptions := remove1 p (srv_subscriptions t), srv_subscriptionsSize := x9,
      srv_currentSubscriptionCount := x12\<rparr>)"
  using assms set_remove1_subset [of p "srv_subscriptions t"] by (auto simp: same_tables_def subs_view_def [abs_def])

lemma retrans_of_updates [simp]:
  "retrans_of (u\<lparr>sub_notificationQueue := a1\<rparr>) = retrans_of u"
  "retrans_of (u\<lparr>sub_notificationQueueSize := a2\<rparr>) = retrans_of u"
  "retrans_of (u\<lparr>sub_eventNotifications := a3\<rparr>) = retrans_of u"
  "retrans_of (u\<lparr>sub_dataChangeNotifications := a4\<rparr>) = retrans_of u"
  "retrans_of (u\<lparr>sub_samplingMonitoredItems := a5\<rparr>) = retrans_of u"
  "retrans_of (u\<lparr>sub_samplingStale := c3\<rparr>) = retrans_of u"
  "retrans_of (u\<lparr>sub_monitoredItems := a6\<rparr>) = retrans_of u"
  "retrans_of (u\<lparr>sub_monitoredItemsSize := a7\<rparr>) = retrans_of u"
  "retrans_of (u\<lparr>sub_lastMonitoredItemId := a8\<rparr>) = retrans_of u"
  "retrans_of (u\<lparr>sub_publishCallbackId := a9\<rparr>) = retrans_of u"
  "retrans_of (u\<lparr>sub_state := b1\<rparr>) = retrans_of u"
  "retrans_of (u\<lparr>sub_statusChange := b2\<rparr>) = retrans_of u"
  "retrans_of (u\<lparr>sub_currentKeepAliveCount := b3\<rparr>) = retrans_of u"
  "retrans_of (u\<lparr>sub_currentLifetimeCount := b4\<rparr>) = retrans_of u"
  "retrans_of (u\<lparr>sub_publishingEnabled := b5\<rparr>) = retrans_of u"
  "retrans_of (u\<lparr>sub_publishingInterval := b6\<rparr>) = retrans_of u"
  "retrans_of (u\<lparr>sub_maxKeepAliveCount := b7\<rparr>) = retrans_of u"
  "retrans_of (u\<lparr>sub_lifeTimeCount := b8\<rparr>) = retrans_of u"
  "retrans_of (u\<lparr>sub_notificationsPerPublish := b9\<rparr>) = retrans_of u"
  "retrans_of (u\<lparr>sub_priority := c1\<rparr>) = retrans_of u"
  "retrans_of (u\<lparr>sub_subscriptionId := c2\<rparr>) = retrans_of u"
  by (simp_all add: retrans_of_def)

lemmas same_intros = same_tables_mod_sub same_tables_mods same_tables_fields same_tables_refl

lemma same_tables_fold:
  assumes "\<And>x t. same_tables s t \<Longrightarrow> same_tables s (f x t)"
  shows "same_tables s t \<Longrightarrow> same_tables s (fold f xs t)"
  by (induction xs arbitrary: t) (simp_all add: assms)

lemma same_tables_queues_only: "queues_only s t \<Longrightarrow> same_tables s t"
proof -
  assume q: "queues_only s t"
  have "subs_view t p = subs_view s p" for p
  proof (cases "srv_subs s p")
    case None
    then show ?thesis using queues_onlyD(7) [OF q, of p] by (simp add: subs_view_def)
  next
    case (Some u)
    then obtain v where v: "srv_subs t p = Some v" using queues_onlyD(7) [OF q, of p] by auto
    then have "strip v = strip u" using queues_onlyD(8) [OF q, of p] Some by (simp add: the_sub_def)
    then have "retrans_of v = retrans_of u" unfolding retrans_of_def by (simp only: strip_eqD [of v u])
    then show ?thesis using v Some by (simp add: subs_view_def)
  qed
  then show ?thesis using queues_onlyD(1,6) [OF q] by (simp add: same_tables_def fun_eq_iff)
qed

lemma same_tables_malloc: "malloc t = (p, t') \<Longrightarrow> same_tables s t \<Longrightarrow> same_tables s t'"
  by (auto simp: malloc_def split: list.splits intro: same_intros)

section \<open>Notifications and monitored items\<close>

lemma same_tables_via: "queues_only t t' \<Longrightarrow> same_tables s t \<Longrightarrow> same_tables s t'"
  using same_tables_queues_only same_tables_trans by blast

lemmas same_queues =
  queues_only_enqueueSub [OF queues_only_refl, THEN same_tables_via]
  queues_only_dequeueSub [OF queues_only_refl, THEN same_tables_via]
  queues_only_dequeueMon [OF queues_only_refl, THEN same_tables_via]
  queues_only_delete [OF queues_only_refl, THEN same_tables_via]

lemma same_tables_setOverflow: "same_tables s t \<Longrightarrow> same_tables s (setOverflowInfoBits m t)"
  unfolding setOverflowInfoBits_def by (auto intro!: same_intros split: option.splits)

lemma same_tables_place: "same_tables s t \<Longrightarrow> same_tables s (place_overflow m i n t)"
  unfolding place_overflow_def Let_def by (auto intro!: same_intros split: option.splits)

lemma same_tables_not_new: "UA_Notification_new t = (n, t') \<Longrightarrow> same_tables s t \<Longrightarrow> same_tables s t'"
  unfolding UA_Notification_new_def
  by (auto split: prod.splits if_splits intro: same_intros same_tables_malloc)

lemma same_tables_overflow: "same_tables s t \<Longrightarrow> same_tables s (snd (createEventOverflowNotification m t))"
proof -
  assume st: "same_tables s t"
  obtain n t1 where n: "UA_Notification_new t = (n, t1)" by fastforce
  obtain f t2 where f: "malloc t1 = (f, t2)" by fastforce
  obtain c t3 where c: "malloc t2 = (c, t3)" by fastforce
  have "same_tables s t1" "same_tables s t2" "same_tables s t3"
    using same_tables_not_new [OF n st] same_tables_malloc f c by blast+
  then show ?thesis using st
    by (auto simp: createEventOverflowNotification_def Let_def n f c split: option.splits
        intro!: same_intros same_queues same_tables_place)
qed

lemma same_tables_drop: "same_tables s t \<Longrightarrow> same_tables s (snd (drop_notifications k m b t))"
proof (induction k arbitrary: b t)
  case (Suc k)
  have "same_tables s (move_behind m d t)" for d
    using Suc.prems by (auto simp: move_behind_def split: option.splits intro!: same_intros)
  then show ?case using Suc.prems by (auto split: option.splits intro!: same_queues Suc.IH)
qed simp

lemma same_tables_ensure: "same_tables s t \<Longrightarrow> same_tables s (UA_MonitoredItem_ensureQueueSpace m t)"
proof -
  assume st: "same_tables s t"
  obtain b t' where "drop_notifications (mon_queueSize (the_mon t m) - mon_eventOverflows (the_mon t m) -
      mon_maxQueueSize (the_mon t m)) m False t = (b, t')" by fastforce
  moreover from this have "same_tables s t'" using same_tables_drop [OF st] by (metis snd_conv)
  ultimately show ?thesis using st
    by (auto simp: UA_MonitoredItem_ensureQueueSpace_def Let_def intro: same_tables_overflow same_tables_setOverflow)
qed

lemma same_tables_enqueueMon: "same_tables s t \<Longrightarrow> same_tables s (UA_Notification_enqueueMon n t)"
  unfolding UA_Notification_enqueueMon_def Let_def by (auto intro!: same_tables_ensure same_intros)

lemma same_tables_removeLink: "same_tables s t \<Longrightarrow> same_tables s (snd (UA_MonitoredItem_removeLink p m l t))"
  unfolding UA_MonitoredItem_removeLink_def Let_def by (auto intro!: same_intros split: option.splits)

lemma same_tables_addLink: "same_tables s t \<Longrightarrow> same_tables s (snd (UA_MonitoredItem_addLink p m l t))"
  unfolding UA_MonitoredItem_addLink_def Let_def
  by (auto intro!: same_intros split: prod.splits intro: same_tables_malloc)

lemma same_tables_trigger: "same_tables s t \<Longrightarrow> same_tables s (trigger_link i m t)"
  unfolding trigger_link_def Let_def
  by (auto intro!: same_intros same_tables_removeLink same_queues split: option.splits)

lemma same_tables_triggers: "same_tables s t \<Longrightarrow> same_tables s (trigger_links k m t)"
  by (induction k arbitrary: t) (simp_all add: same_tables_trigger)

lemma same_tables_enqueueAndTrigger: "same_tables s t \<Longrightarrow> same_tables s (UA_Notification_enqueueAndTrigger n t)"
  unfolding UA_Notification_enqueueAndTrigger_def Let_def
  by (auto intro!: same_tables_triggers same_tables_enqueueMon same_intros same_queues)

lemma same_tables_createDataChange:
  "same_tables s t \<Longrightarrow> same_tables s (snd (UA_MonitoredItem_createDataChangeNotification m v t))"
proof -
  assume st: "same_tables s t"
  obtain n t1 where n: "UA_Notification_new t = (n, t1)" by fastforce
  obtain c t2 where c: "malloc t1 = (c, t2)" by fastforce
  have "same_tables s t1" "same_tables s t2" using same_tables_not_new [OF n st] same_tables_malloc c by blast+
  then show ?thesis using st
    by (auto simp: UA_MonitoredItem_createDataChangeNotification_def Let_def n c
        intro!: same_intros same_tables_enqueueAndTrigger)
qed

lemma same_tables_sampleWithValue: "same_tables s t \<Longrightarrow> same_tables s (snd (sampleCallbackWithValue changed m v t))"
proof -
  assume st: "same_tables s t"
  obtain r t' where "UA_MonitoredItem_createDataChangeNotification m v t = (r, t')" by fastforce
  moreover from this have "same_tables s t'" using same_tables_createDataChange [OF st] by (metis snd_conv)
  ultimately show ?thesis using st by (auto simp: sampleCallbackWithValue_def intro!: same_intros)
qed

lemma same_tables_sample: "same_tables s t \<Longrightarrow> same_tables s (monitoredItem_sampleCallback rd changed m t)"
  unfolding monitoredItem_sampleCallback_def by (rule same_tables_sampleWithValue)

lemma same_tables_addRepeated: "addRepeatedCallback cb d ms t = (r, c, t') \<Longrightarrow> same_tables s t \<Longrightarrow> same_tables s t'"
  unfolding addRepeatedCallback_def Let_def
  by (auto split: prod.splits intro!: same_intros intro: same_tables_malloc)

lemma same_tables_removeCallback: "same_tables s t \<Longrightarrow> same_tables s (removeCallback c t)"
  unfolding removeCallback_def by (intro same_intros)

lemma same_tables_changeCallback: "same_tables s t \<Longrightarrow> same_tables s (snd (changeRepeatedCallbackInterval c ms t))"
  unfolding changeRepeatedCallbackInterval_def by (auto split: prod.splits intro!: same_intros)

lemma same_tables_delayed_free: "same_tables s t \<Longrightarrow> same_tables s (delayed_free p t)"
  unfolding delayed_free_def by (intro same_intros)

lemma same_tables_registerSampling: "same_tables s t \<Longrightarrow> same_tables s (snd (UA_MonitoredItem_registerSampling m t))"
proof -
  assume st: "same_tables s t"
  obtain r c t' where a: "addRepeatedCallback SAMPLE_CALLBACK m (sampling_ms t (mon_samplingInterval (the_mon t m))) t = (r, c, t')"
    by (metis prod.collapse)
  have "same_tables s t'" by (rule same_tables_addRepeated [OF a st])
  then show ?thesis using st
    by (auto simp: UA_MonitoredItem_registerSampling_def Let_def a split: option.splits intro!: same_intros)
qed

lemma same_tables_unregisterSampling: "same_tables s t \<Longrightarrow> same_tables s (UA_MonitoredItem_unregisterSampling m t)"
  unfolding UA_MonitoredItem_unregisterSampling_def Let_def
  by (auto split: UA_MonitoredItemSamplingType.splits intro!: same_intros same_tables_removeCallback)

lemma same_tables_delete_queue: "same_tables s t \<Longrightarrow> same_tables s (delete_queue m t)"
  unfolding delete_queue_def by (rule same_tables_fold) (rule same_queues)

lemma same_tables_requeue_notifications:
  assumes "same_tables s t"
  shows "same_tables s (fold (\<lambda>n s. UA_Notification_enqueueSub n (UA_Notification_dequeueSub n s)) ns t)"
    "same_tables s (fold UA_Notification_dequeueSub ns t)"
  by (rule same_tables_fold [OF _ assms], intro same_queues, assumption)+

lemma same_tables_setMonitoringMode:
  "same_tables s t \<Longrightarrow> same_tables s (snd (UA_MonitoredItem_setMonitoringMode rd changed m mode t))"
proof -
  assume st: "same_tables s t"
  let ?t = "mod_mon m (mon_monitoringMode_update (\<lambda>_. mode)) t"
  let ?u = "if mode = UA_MONITORINGMODE_REPORTING
            then fold (\<lambda>n s. UA_Notification_enqueueSub n (UA_Notification_dequeueSub n s)) (mon_queue (the_mon ?t m)) ?t
            else fold UA_Notification_dequeueSub (mon_queue (the_mon ?t m)) ?t"
  obtain r t' where r: "UA_MonitoredItem_registerSampling m ?u = (r, t')" by fastforce
  have "same_tables s ?t" by (intro same_tables_mods st)
  from same_tables_requeue_notifications [OF this] have "same_tables s ?u"
    by (cases "mode = UA_MONITORINGMODE_REPORTING") (simp_all only: simp_thms if_True if_False)
  then have t': "same_tables s t'" by (rule same_tables_registerSampling [of s ?u m, unfolded r snd_conv])
  have sampled: "same_tables s (monitoredItem_sampleCallback rd changed m t')" by (rule same_tables_sample [OF t'])
  have disabled: "same_tables s (mod_mon m (mon_monitoringMode_update (\<lambda>_. UA_MONITORINGMODE_DISABLED)) t')"
    by (intro same_tables_mods t')
  have off: "same_tables s (mod_mon m (mon_lastValue_update (\<lambda>_. UA_DataValue_init))
      (delete_queue m (UA_MonitoredItem_unregisterSampling m ?t)))"
    by (intro same_tables_mods same_tables_delete_queue same_tables_unregisterSampling st)
  show ?thesis
    unfolding UA_MonitoredItem_setMonitoringMode_def Let_def r prod.case
    by (simp only: if_split [where P = "\<lambda>x. same_tables s (snd x)"] snd_conv st t' sampled disabled off simp_thms)
qed

lemma same_tables_registerMon: "same_tables s t \<Longrightarrow> same_tables s (UA_Server_registerMonitoredItem m t)"
  unfolding UA_Server_registerMonitoredItem_def Let_def
  by (auto intro!: same_intros simp: retrans_of_def)

lemma same_tables_unregisterMon: "same_tables s t \<Longrightarrow> same_tables s (UA_Server_unregisterMonitoredItem m t)"
  unfolding UA_Server_unregisterMonitoredItem_def Let_def
  by (auto intro!: same_intros simp: retrans_of_def)

lemma same_tables_mon_delete: "same_tables s t \<Longrightarrow> same_tables s (UA_MonitoredItem_delete m t)"
  unfolding UA_MonitoredItem_delete_def Let_def
  by (intro same_tables_delayed_free same_tables_mods same_tables_delete_queue same_tables_unregisterMon
      same_tables_unregisterSampling)

lemma same_tables_sendResponse: "same_tables s t \<Longrightarrow> same_tables s (sendResponse c i r t)"
  unfolding sendResponse_def sendServiceFault_def by (auto intro!: same_intros)

lemma same_tables_send_initial: "same_tables s t \<Longrightarrow> same_tables s (send_initial_value m t)"
  unfolding send_initial_value_def by (auto intro!: same_tables_createDataChange)

lemma same_tables_registerPublish:
  "Subscription_registerPublishCallback p t = (r, t') \<Longrightarrow> same_tables s t \<Longrightarrow> same_tables s t'"
  unfolding Subscription_registerPublishCallback_def
  by (auto split: prod.splits if_splits intro!: same_intros intro: same_tables_addRepeated)

lemma same_tables_unregisterPublish: "same_tables s t \<Longrightarrow> same_tables s (Subscription_unregisterPublishCallback p t)"
  unfolding Subscription_unregisterPublishCallback_def
  by (auto intro!: same_intros same_tables_removeCallback)

lemma same_tables_prepare: "prepareNotificationMessage p k t = (r, t') \<Longrightarrow> same_tables s t \<Longrightarrow> same_tables s t'"
  using queues_only_prepare [OF queues_only_refl] same_tables_via by (metis snd_conv)

end
