(* ===== verification/Sub_Changes.thy ===== *)
theory Sub_Changes
  imports Sub_Tables
begin

text \<open>
  The operations that change the tables of sessions and subscriptions keep them consistent: the publish
  requests, the retransmission queue, attaching and detaching, creation, deletion, publishing and the
  services.
\<close>

section \<open>Access under the invariant\<close>

lemma subs_view_mod_sub:
  "srv_subs s p = Some u \<Longrightarrow> subs_view (mod_sub p f s) = (subs_view s)(p \<mapsto> retrans_of (f u))"
  by (auto simp: subs_view_def mod_sub_def upd_at_def fun_eq_iff)

lemma sessions_mod_ses: "srv_sessions s a = Some x \<Longrightarrow> srv_sessions (mod_ses a f s) = (srv_sessions s)(a \<mapsto> f x)"
  by (auto simp: mod_ses_def upd_at_def)

lemma subs_view_mod_ses [simp]: "subs_view (mod_ses a f s) = subs_view s"
  by (simp add: subs_view_def fun_eq_iff)

lemma mod_ses_dead: "srv_sessions s a = None \<Longrightarrow> mod_ses a f s = s"
  by (cases s) (simp add: mod_ses_def upd_at_def fun_upd_idem)

lemma subs_view_Some: "srv_subs s p = Some u \<Longrightarrow> subs_view s p = Some (retrans_of u)"
  by (simp add: subs_view_def)

lemma sub_entryD:
  assumes "sessions_ok s" "srv_subs s p = Some u"
  shows "sub_retransmissionQueueSize u = length (sub_retransmissionQueue u)"
    "length (sub_retransmissionQueue u) \<le> UA_MAX_RETRANSMISSIONQUEUESIZE"
    "0 < sub_nextSequenceNumber u"
    "sub_session u \<noteq> 0 \<Longrightarrow> \<exists>x. srv_sessions s (sub_session u) = Some x \<and> p \<in> set (ses_subscriptions x)"
  using view_okD(1) [OF assms(1) [THEN sessions_okD(1)] subs_view_Some [OF assms(2)]]
  by (auto simp: sub_entry_ok_def retrans_of_def)

lemma ses_entryD:
  assumes "sessions_ok s" "srv_sessions s a = Some x"
  shows "a \<noteq> 0" "distinct (ses_subscriptions x)" "ses_subscriptionsSize x = length (ses_subscriptions x)"
    "ses_responseQueueSize x = length (ses_responseQueue x)"
    "ses_totalRetransmissionQueueSize x = total_of (subs_view s) (ses_subscriptions x)"
    "p \<in> set (ses_subscriptions x) \<Longrightarrow> \<exists>u. srv_subs s p = Some u \<and> sub_session u = a"
  using view_okD(2) [OF assms(1) [THEN sessions_okD(1)] assms(2)]
  by (auto simp: ses_entry_ok_def subs_view_def retrans_of_def)

section \<open>Publish requests\<close>

lemma ok_mod_ses:
  assumes "sessions_ok s" "\<And>x. ses_subscriptions (f x) = ses_subscriptions x"
    "\<And>x. ses_subscriptionsSize (f x) = ses_subscriptionsSize x"
    "\<And>x. ses_totalRetransmissionQueueSize (f x) = ses_totalRetransmissionQueueSize x"
    "\<And>x. srv_sessions s a = Some x \<Longrightarrow> ses_responseQueueSize x = length (ses_responseQueue x) \<Longrightarrow>
      ses_responseQueueSize (f x) = length (ses_responseQueue (f x))"
  shows "sessions_ok (mod_ses a f s)"
proof (cases "srv_sessions s a")
  case (Some x)
  have "ses_responseQueueSize (f x) = length (ses_responseQueue (f x))"
    using assms(5) [OF Some] ses_entryD(4) [OF assms(1) Some] by simp
  then show ?thesis
    using view_session [OF assms(1) [THEN sessions_okD(1)] Some, of "f x"] assms(2-4) sessions_okD(2) [OF assms(1)]
    by (simp add: sessions_ok_def sessions_mod_ses [OF Some])
qed (simp add: mod_ses_dead assms(1))

lemma ok_dequeue: "sessions_ok s \<Longrightarrow> sessions_ok (snd (UA_Session_dequeuePublishReq a s))"
  unfolding UA_Session_dequeuePublishReq_def
  by (auto simp: the_ses_def split: list.splits intro!: ok_mod_ses)

lemma ok_queue: "sessions_ok s \<Longrightarrow> sessions_ok (UA_Session_queuePublishReq a e b s)"
  unfolding UA_Session_queuePublishReq_def by (auto intro!: ok_mod_ses)

lemma ok_requeue: "sessions_ok s \<Longrightarrow> sessions_ok (requeue p pre s)"
  unfolding requeue_def by (auto intro: ok_queue split: option.splits)

lemma ok_detach_channel: "sessions_ok s \<Longrightarrow> sessions_ok (UA_Session_detachFromSecureChannel a s)"
  unfolding UA_Session_detachFromSecureChannel_def by (auto intro!: ok_mod_ses)

lemma ok_attach_channel: "sessions_ok s \<Longrightarrow> sessions_ok (UA_Session_attachToSecureChannel a c s)"
  unfolding UA_Session_attachToSecureChannel_def by (auto intro!: ok_mod_ses ok_detach_channel)

lemma ok_same:
  assumes "sessions_ok s" "\<And>s0. same_tables s0 s \<Longrightarrow> same_tables s0 t"
  shows "sessions_ok t"
  using assms(2) [OF same_tables_refl] assms(1) same_tables_ok by blast

section \<open>The retransmission queue\<close>

text \<open>One change of a queue, with the total of the session when there is one.\<close>

lemma ok_change_queue:
  assumes s: "sessions_ok s" and p: "srv_subs s p = Some u"
    and f: "sub_session (f u) = sub_session u" "sub_retransmissionQueueSize (f u) = length (sub_retransmissionQueue (f u))"
      "length (sub_retransmissionQueue (f u)) \<le> UA_MAX_RETRANSMISSIONQUEUESIZE" "0 < sub_nextSequenceNumber (f u)"
    and k: "\<And>x. srv_sessions s (sub_session u) = Some x \<Longrightarrow>
      k x + length (sub_retransmissionQueue u) = ses_totalRetransmissionQueueSize x + length (sub_retransmissionQueue (f u))"
    and t: "t = (if sub_session u \<noteq> 0
      then mod_ses (sub_session u) (\<lambda>x. x\<lparr>ses_totalRetransmissionQueueSize := k x\<rparr>) (mod_sub p f s) else mod_sub p f s)"
  shows "sessions_ok t"
proof (cases "sub_session u = 0")
  case True
  then show ?thesis
    using view_queue [OF s [THEN sessions_okD(1)] subs_view_Some [OF p], of "retrans_of (f u)" "srv_sessions s"] f t sessions_okD(2) [OF s]
    by (simp add: sessions_ok_def subs_view_mod_sub [OF p] retrans_of_def)
next
  case False
  then obtain x where x: "srv_sessions s (sub_session u) = Some x" using sub_entryD(4) [OF s p] by blast
  then have x': "srv_sessions (mod_sub p f s) (sub_session u) = Some x" by simp
  show ?thesis
    using view_queue [OF s [THEN sessions_okD(1)] subs_view_Some [OF p], of "retrans_of (f u)" _
        "x\<lparr>ses_totalRetransmissionQueueSize := k x\<rparr>" x "k x"] f t False k [OF x] x sessions_okD(2) [OF s]
    by (simp add: sessions_ok_def subs_view_mod_sub [OF p] retrans_of_def sessions_mod_ses [OF x'])
qed

lemma queue_in_total:
  assumes "sessions_ok s" "srv_subs s p = Some u" "srv_sessions s (sub_session u) = Some x"
  shows "length (sub_retransmissionQueue u) \<le> ses_totalRetransmissionQueueSize x"
proof -
  have "sub_session u \<noteq> 0" using ses_entryD(1) [OF assms(1,3)] .
  then have "p \<in> set (ses_subscriptions x)" using sub_entryD(4) [OF assms(1,2)] assms(3) by auto
  then have "length (sub_retransmissionQueue u) \<in> set (map (\<lambda>p. length (rt_queue (the (subs_view s p)))) (ses_subscriptions x))"
    using subs_view_Some [OF assms(2)] by (force simp: retrans_of_def)
  from member_le_sum_list [OF this] show ?thesis using ses_entryD(5) [OF assms(1,3)] by (simp add: total_of_def)
qed

text \<open>What the two removals do to the subscriptions: some queue loses its last message.\<close>

lemma removeOldest_sub:
  assumes "srv_subs s p = Some u"
  shows "srv_subs (removeOldestRetransmissionMessageFromSub p s) =
      (srv_subs s)(p \<mapsto> u\<lparr>sub_retransmissionQueue := butlast (sub_retransmissionQueue u),
        sub_retransmissionQueueSize := sub_retransmissionQueueSize u - 1\<rparr>)"
  using assms by (auto simp: removeOldestRetransmissionMessageFromSub_def Let_def mod_sub_def upd_at_def)

lemma ok_removeOldestFromSub:
  assumes s: "sessions_ok s" and p: "srv_subs s p = Some u" and q: "sub_retransmissionQueue u \<noteq> []"
  shows "sessions_ok (removeOldestRetransmissionMessageFromSub p s)"
proof (rule ok_change_queue [OF s p, where k = "\<lambda>x. ses_totalRetransmissionQueueSize x - 1"])
  show "ses_totalRetransmissionQueueSize x - 1 + length (sub_retransmissionQueue u) =
      ses_totalRetransmissionQueueSize x + length (sub_retransmissionQueue (u\<lparr>sub_retransmissionQueue :=
        butlast (sub_retransmissionQueue u), sub_retransmissionQueueSize := sub_retransmissionQueueSize u - 1\<rparr>))"
    if "srv_sessions s (sub_session u) = Some x" for x
    using queue_in_total [OF s p that] q by (cases "sub_retransmissionQueue u") simp_all
qed (use sub_entryD [OF s p] p in \<open>auto simp: removeOldestRetransmissionMessageFromSub_def Let_def the_sub_def
      mod_sub_def upd_at_def\<close>)

lemma oldest_sub_in:
  "oldest_sub s ps old = Some (q, t) \<Longrightarrow> old = Some (q, t) \<or> q \<in> set ps \<and> sub_retransmissionQueue (the_sub s q) \<noteq> []"
  by (induction s ps old rule: oldest_sub.induct) (auto split: option.splits if_splits simp: final_one_def)

lemma removeOldest_session_cases:
  assumes s: "sessions_ok s" and a: "srv_sessions s a = Some x"
  obtains "removeOldestRetransmissionMessageFromSession a s = s"
  | q u where "srv_subs s q = Some u" "sub_retransmissionQueue u \<noteq> []"
      "removeOldestRetransmissionMessageFromSession a s = removeOldestRetransmissionMessageFromSub q s"
proof (cases "oldest_sub s (ses_subscriptions (the_ses s a)) None")
  case None
  then show ?thesis using that(1) by (simp add: removeOldestRetransmissionMessageFromSession_def)
next
  case (Some c)
  then obtain q t where c: "oldest_sub s (ses_subscriptions (the_ses s a)) None = Some (q, t)" by (cases c) auto
  then obtain u where u: "srv_subs s q = Some u"
    using oldest_sub_in [OF c] ses_entryD(6) [OF s a, of q] a by (auto simp: the_ses_def)
  then have "sub_retransmissionQueue u \<noteq> []" using oldest_sub_in [OF c] by (simp add: the_sub_def)
  then show ?thesis using that(2) [OF u] c by (simp add: removeOldestRetransmissionMessageFromSession_def)
qed

definition make_room :: "ptr \<Rightarrow> UA_Server \<Rightarrow> UA_Server" where
  "make_room p s =
     (if sub_retransmissionQueueSize (the_sub s p) \<ge> UA_MAX_RETRANSMISSIONQUEUESIZE
      then removeOldestRetransmissionMessageFromSub p s
      else if sub_session (the_sub s p) \<noteq> 0 \<and> unat (cfg_maxRetransmissionQueueSize (srv_config s)) > 0 \<and>
              ses_totalRetransmissionQueueSize (the_ses s (sub_session (the_sub s p))) \<ge>
                unat (cfg_maxRetransmissionQueueSize (srv_config s))
      then removeOldestRetransmissionMessageFromSession (sub_session (the_sub s p)) s
      else s)"

lemma addRetransmission_room:
  "UA_Subscription_addRetransmissionMessage p entry s =
     (let ses = sub_session (the_sub s p);
          t = mod_sub p (\<lambda>u. u\<lparr>sub_retransmissionQueue := sub_retransmissionQueue u @ [entry],
                sub_retransmissionQueueSize := sub_retransmissionQueueSize u + 1\<rparr>) (make_room p s)
      in if ses \<noteq> 0
         then mod_ses ses (\<lambda>x. x\<lparr>ses_totalRetransmissionQueueSize := ses_totalRetransmissionQueueSize x + 1\<rparr>) t
         else t)"
  by (simp add: UA_Subscription_addRetransmissionMessage_def make_room_def Let_def)

lemma make_room_ok:
  assumes s: "sessions_ok s" and p: "srv_subs s p = Some u"
  obtains q k where "sessions_ok (make_room p s)"
    "srv_subs (make_room p s) p = Some (u\<lparr>sub_retransmissionQueue := q, sub_retransmissionQueueSize := k\<rparr>)"
    "length q < UA_MAX_RETRANSMISSIONQUEUESIZE"
    "q = sub_retransmissionQueue u \<or> q = butlast (sub_retransmissionQueue u)"
proof -
  note e = sub_entryD [OF s p] and outer = that
  have u: "the_sub s p = u" using p by (simp add: the_sub_def)
  have drop: thesis if "srv_subs s p = Some u" "sub_retransmissionQueue u \<noteq> []"
      "make_room p s = removeOldestRetransmissionMessageFromSub p s"
  proof -
    have "length (butlast (sub_retransmissionQueue u)) < UA_MAX_RETRANSMISSIONQUEUESIZE"
      using e(2) that(2) by (cases "sub_retransmissionQueue u" rule: rev_cases) auto
    then show thesis
      using that(3) ok_removeOldestFromSub [OF s p that(2)] removeOldest_sub [OF p]
      by (intro outer [where q = "butlast (sub_retransmissionQueue u)" and k = "sub_retransmissionQueueSize u - 1"]) auto
  qed
  consider (full) "sub_retransmissionQueueSize u \<ge> UA_MAX_RETRANSMISSIONQUEUESIZE"
    | (ses) "\<not> sub_retransmissionQueueSize u \<ge> UA_MAX_RETRANSMISSIONQUEUESIZE" "sub_session u \<noteq> 0"
        "make_room p s = removeOldestRetransmissionMessageFromSession (sub_session u) s"
    | (none) "\<not> sub_retransmissionQueueSize u \<ge> UA_MAX_RETRANSMISSIONQUEUESIZE" "make_room p s = s"
    using make_room_def [of p s, unfolded u] by (cases "make_room p s = s") (auto split: if_splits)
  then show thesis
  proof cases
    case full
    then have "sub_retransmissionQueue u \<noteq> []" using e(1) by (auto simp: UA_MAX_RETRANSMISSIONQUEUESIZE_def)
    then show ?thesis using drop [OF p] full by (simp add: make_room_def u)
  next
    case ses
    then obtain x where x: "srv_sessions s (sub_session u) = Some x" using e(4) by blast
    show ?thesis
    proof (cases rule: removeOldest_session_cases [OF s x])
      case 1
      then show ?thesis using that [where q = "sub_retransmissionQueue u" and k = "sub_retransmissionQueueSize u"] s p e ses by simp
    next
      case (2 q w)
      have m: "make_room p s = removeOldestRetransmissionMessageFromSub q s" using ses(3) 2(3) by simp
      show ?thesis
      proof (cases "q = p")
        case True
        then show ?thesis using drop [OF p] 2 m p by simp
      next
        case False
        have "sessions_ok (make_room p s)" using ok_removeOldestFromSub [OF s 2(1,2)] m by simp
        then show ?thesis using that [where q = "sub_retransmissionQueue u" and k = "sub_retransmissionQueueSize u"] p e ses(1) False m removeOldest_sub [OF 2(1)]
          by simp
      qed
    qed
  next
    case none
    then show ?thesis using that [where q = "sub_retransmissionQueue u" and k = "sub_retransmissionQueueSize u"] s p e by simp
  qed
qed

lemma ok_addRetransmission:
  assumes s: "sessions_ok s" and p: "srv_subs s p = Some u"
  shows "sessions_ok (UA_Subscription_addRetransmissionMessage p entry s)"
proof -
  obtain q k where v: "sessions_ok (make_room p s)"
      "srv_subs (make_room p s) p = Some (u\<lparr>sub_retransmissionQueue := q, sub_retransmissionQueueSize := k\<rparr>)"
      "length q < UA_MAX_RETRANSMISSIONQUEUESIZE"
    by (rule make_room_ok [OF s p])
  let ?f = "\<lambda>u. u\<lparr>sub_retransmissionQueue := sub_retransmissionQueue u @ [entry],
    sub_retransmissionQueueSize := sub_retransmissionQueueSize u + 1\<rparr>"
  show ?thesis
    by (rule ok_change_queue [OF v(1,2), of ?f, where k = "\<lambda>x. ses_totalRetransmissionQueueSize x + 1"])
      (use v sub_entryD [OF v(1,2)] p in \<open>auto simp: addRetransmission_room Let_def the_sub_def\<close>)
qed

lemma remove_first_length: "find P xs = Some x \<Longrightarrow> Suc (length (remove_first P xs)) = length xs"
  by (induction xs) (auto split: if_splits)

lemma ok_removeRetransmission:
  assumes s: "sessions_ok s" and p: "srv_subs s p = Some u"
  shows "sessions_ok (snd (UA_Subscription_removeRetransmissionMessage p k s))"
proof (cases "find (\<lambda>m. msg_sequenceNumber m = k) (sub_retransmissionQueue u)")
  case None
  then show ?thesis using s p by (simp add: UA_Subscription_removeRetransmissionMessage_def the_sub_def)
next
  case (Some m)
  note len = remove_first_length [OF Some]
  let ?f = "\<lambda>u. u\<lparr>sub_retransmissionQueue := remove_first (\<lambda>m. msg_sequenceNumber m = k) (sub_retransmissionQueue u),
    sub_retransmissionQueueSize := sub_retransmissionQueueSize u - 1\<rparr>"
  have ses: "sub_session (the_sub (mod_sub p ?f s) p) = sub_session u" using p by (simp add: the_sub_def mod_sub_def upd_at_def)
  show ?thesis
  proof (rule ok_change_queue [OF s p, of ?f, where k = "\<lambda>x. ses_totalRetransmissionQueueSize x - 1"])
    show "ses_totalRetransmissionQueueSize x - 1 + length (sub_retransmissionQueue u) =
        ses_totalRetransmissionQueueSize x + length (sub_retransmissionQueue (?f u))"
      if "srv_sessions s (sub_session u) = Some x" for x
      using queue_in_total [OF s p that] len by simp
  qed (use sub_entryD [OF s p] p len Some ses in
      \<open>auto simp: UA_Subscription_removeRetransmissionMessage_def Let_def the_sub_def\<close>)
qed

section \<open>Attaching and detaching\<close>

lemma insert_by_priority_facts:
  "set (insert_by_priority f p qs) = insert p (set qs)" "length (insert_by_priority f p qs) = length qs + 1"
  "total_of V (insert_by_priority f p qs) = total_of V qs + length (rt_queue (the (V p)))"
  by (induction qs) (auto simp: total_of_def)

lemma ok_attach:
  assumes s: "sessions_ok s" and p: "srv_subs s p = Some u" "sub_session u = 0" and a: "srv_sessions s a = Some x"
  shows "sessions_ok (UA_Session_attachSubscription a p s)"
proof -
  let ?f = "\<lambda>u. u\<lparr>sub_session := a\<rparr>"
  let ?t = "mod_sub p ?f s"
  let ?x = "x\<lparr>ses_subscriptionsSize := ses_subscriptionsSize x + 1,
     ses_subscriptions := insert_by_priority (priority_of ?t) p (ses_subscriptions x),
     ses_totalRetransmissionQueueSize := ses_totalRetransmissionQueueSize x + sub_retransmissionQueueSize u\<rparr>"
  have t: "srv_sessions ?t a = Some x" "sub_retransmissionQueueSize (the_sub ?t p) = sub_retransmissionQueueSize u"
    using a p by (simp_all add: the_sub_def mod_sub_def upd_at_def)
  have "view_ok ((subs_view s)(p \<mapsto> (retrans_of u)\<lparr>rt_session := a\<rparr>)) ((srv_sessions s)(a \<mapsto> ?x))"
    by (rule view_attach [OF s [THEN sessions_okD(1)] subs_view_Some [OF p(1)] _ a])
      (use p(2) ses_entryD(4) [OF s a] sub_entryD(1) [OF s p(1)] subs_view_Some [OF p(1)] in
        \<open>simp_all add: insert_by_priority_facts retrans_of_def\<close>)
  moreover have "(retrans_of u)\<lparr>rt_session := a\<rparr> = retrans_of (?f u)" by (simp add: retrans_of_def)
  ultimately show ?thesis using sessions_okD(2) [OF s]
    by (simp add: UA_Session_attachSubscription_def Let_def sessions_ok_def subs_view_mod_sub [OF p(1)]
        sessions_mod_ses [OF t(1)] t(2))
qed

lemma same_tables_release: "same_tables s t \<Longrightarrow> same_tables s (fold (release_response a) pres t)"
  by (rule same_tables_fold) (simp_all add: release_response_def same_tables_sendResponse)

lemma ok_detach:
  assumes s: "sessions_ok s" and p: "srv_subs s p = Some u" "sub_session u = a" and a: "srv_sessions s a = Some x"
  shows "sessions_ok (UA_Session_detachSubscription a p b s)"
    "srv_subs (UA_Session_detachSubscription a p b s) = (srv_subs s)(p \<mapsto> u\<lparr>sub_session := 0\<rparr>)"
    "srv_sessions (UA_Session_detachSubscription a p b s) c = None \<longleftrightarrow> srv_sessions s c = None"
proof -
  let ?f = "\<lambda>u. u\<lparr>sub_session := 0\<rparr>"
  let ?t = "mod_sub p ?f s"
  let ?g = "\<lambda>x. x\<lparr>ses_subscriptionsSize := ses_subscriptionsSize x - 1,
     ses_subscriptions := remove1 p (ses_subscriptions x),
     ses_totalRetransmissionQueueSize := ses_totalRetransmissionQueueSize x - sub_retransmissionQueueSize (the_sub ?t p)\<rparr>"
  let ?t1 = "mod_ses a ?g ?t"
  have t: "srv_sessions ?t a = Some x" "sub_retransmissionQueueSize (the_sub ?t p) = sub_retransmissionQueueSize u"
    using a p by (simp_all add: the_sub_def mod_sub_def upd_at_def)
  have "view_ok ((subs_view s)(p \<mapsto> (retrans_of u)\<lparr>rt_session := 0\<rparr>)) ((srv_sessions s)(a \<mapsto> ?g x))"
    by (rule view_detach [OF s [THEN sessions_okD(1)] subs_view_Some [OF p(1)] _ a])
      (use p(2) ses_entryD(4) [OF s a] sub_entryD(1) [OF s p(1)] t(2) in \<open>simp_all add: retrans_of_def\<close>)
  moreover have "(retrans_of u)\<lparr>rt_session := 0\<rparr> = retrans_of (?f u)" by (simp add: retrans_of_def)
  ultimately have t1: "sessions_ok ?t1" using sessions_okD(2) [OF s]
    by (simp add: sessions_ok_def subs_view_mod_sub [OF p(1)] sessions_mod_ses [OF t(1)])
  let ?t2 = "mod_ses a (\<lambda>x. x\<lparr>ses_responseQueueSize := ses_responseQueueSize x - length (ses_responseQueue (the_ses ?t1 a)),
     ses_responseQueue := []\<rparr>) ?t1"
  have t2: "sessions_ok ?t2" by (rule ok_mod_ses [OF t1]) (simp_all add: the_ses_def)
  have d: "UA_Session_detachSubscription a p b s =
      (if \<not> b \<or> ses_subscriptions (the_ses ?t1 a) \<noteq> [] then ?t1
       else fold (release_response a) (ses_responseQueue (the_ses ?t1 a)) ?t2)"
    by (simp add: UA_Session_detachSubscription_def Let_def)
  have fin: "same_tables ?t2 (fold (release_response a) pres ?t2)" for pres
    by (rule same_tables_release) simp
  show "sessions_ok (UA_Session_detachSubscription a p b s)"
    unfolding d using t1 same_tables_ok [OF fin t2] by simp
  have subs: "srv_subs (fold (release_response a) pres z) = srv_subs z" for pres z
    by (induction pres arbitrary: z) (simp_all add: release_response_def sendResponse_def sendServiceFault_def)
  show "srv_subs (UA_Session_detachSubscription a p b s) = (srv_subs s)(p \<mapsto> u\<lparr>sub_session := 0\<rparr>)"
    unfolding d by (auto simp: subs mod_sub_def upd_at_def p(1))
  show "srv_sessions (UA_Session_detachSubscription a p b s) c = None \<longleftrightarrow> srv_sessions s c = None"
    unfolding d using same_tables_ses [OF fin] by simp
qed

section \<open>Creation and deletion\<close>

lemma ok_new:
  assumes "sessions_ok s" "UA_Subscription_new s = (p, t)" "\<forall>q \<in> set (srv_mallocs s). srv_subs s q = None"
  shows "sessions_ok t" "srv_sessions t = srv_sessions s"
    "p \<noteq> 0 \<Longrightarrow> \<exists>u. srv_subs t p = Some u \<and> sub_session u = 0"
proof -
  obtain q s1 where m: "malloc s = (q, s1)" by fastforce
  have s1: "same_tables s s1" "srv_subs s1 = srv_subs s" "q \<noteq> 0 \<Longrightarrow> q \<in> set (srv_mallocs s)"
    using m same_tables_malloc [OF m same_tables_refl] by (auto simp: malloc_def split: list.splits)
  have ok1: "sessions_ok s1" using s1(1) assms(1) same_tables_ok by blast
  have "sessions_ok t \<and> srv_sessions t = srv_sessions s \<and> (p \<noteq> 0 \<longrightarrow> (\<exists>u. srv_subs t p = Some u \<and> sub_session u = 0))"
  proof (cases "q = 0")
    case True
    then show ?thesis using assms(2) ok1 s1(1) by (simp add: UA_Subscription_new_def m same_tables_def)
  next
    case False
    define u where "u = blank_subscription"
    have u: "sub_session u = 0" "sub_retransmissionQueue u = []" "sub_retransmissionQueueSize u = 0"
        "sub_nextSequenceNumber u = 1" by (simp_all add: u_def blank_subscription_def)
    have t: "t = s1\<lparr>srv_subs := (srv_subs s1)(q \<mapsto> u)\<rparr>" "p = q"
      using assms(2) False by (auto simp: UA_Subscription_new_def m u_def)
    have "srv_subs s1 q = None" using s1 False assms(3) by auto
    then have "view_ok ((subs_view s1)(q \<mapsto> retrans_of u)) (srv_sessions s1)"
      by (intro view_new [OF ok1 [THEN sessions_okD(1)]])
        (use u in \<open>simp_all add: subs_view_def retrans_of_def\<close>)
    moreover have "subs_view t = (subs_view s1)(q \<mapsto> retrans_of u)" by (simp add: t(1) subs_view_def fun_eq_iff)
    moreover have "list_ok t" using sessions_okD(2) [OF ok1] t(1) by (auto simp: list_ok_def)
    ultimately show ?thesis using t u s1(1) by (simp add: sessions_ok_def same_tables_def)
  qed
  then show "sessions_ok t" "srv_sessions t = srv_sessions s"
    "p \<noteq> 0 \<Longrightarrow> \<exists>u. srv_subs t p = Some u \<and> sub_session u = 0" by blast+
qed

definition session_live :: "UA_Server \<Rightarrow> ptr \<Rightarrow> bool" where
  "session_live s a = (srv_sessions s a \<noteq> None)"

lemma ok_delete:
  assumes s: "sessions_ok s" and p: "srv_subs s p \<noteq> None"
  shows "sessions_ok (UA_Subscription_delete p s)"
    "srv_sessions (UA_Subscription_delete p s) c = None \<longleftrightarrow> srv_sessions s c = None"
    "srv_subs (UA_Subscription_delete p s) q = None \<longleftrightarrow> srv_subs s q = None"
    "\<exists>u. srv_subs (UA_Subscription_delete p s) p = Some u \<and> sub_session u = 0 \<and> sub_retransmissionQueue u = []"
proof -
  define s1 where "s1 = Subscription_unregisterPublishCallback p s"
  define s2 where "s2 = (if sub_session (the_sub s1 p) \<noteq> 0
    then UA_Session_detachSubscription (sub_session (the_sub s1 p)) p True s1 else s1)"
  define s3 where "s3 = (if p \<in> set (srv_subscriptions s2)
    then s2\<lparr>srv_subscriptions := remove1 p (srv_subscriptions s2), srv_subscriptionsSize := srv_subscriptionsSize s2 - 1,
      srv_currentSubscriptionCount := srv_currentSubscriptionCount s2 - 1\<rparr> else s2)"
  define s4 where "s4 = fold UA_MonitoredItem_delete (sub_monitoredItems (the_sub s3 p)) s3"
  let ?f = "\<lambda>u. u\<lparr>sub_retransmissionQueueSize := sub_retransmissionQueueSize u - length (sub_retransmissionQueue u),
    sub_retransmissionQueue := []\<rparr>"
  have d: "UA_Subscription_delete p s = delayed_free p (mod_sub p ?f s4)"
    by (simp add: UA_Subscription_delete_def Let_def s1_def s2_def s3_def s4_def)
  have s1: "same_tables s s1" unfolding s1_def by (intro same_tables_unregisterPublish same_tables_refl)
  then obtain u where u: "srv_subs s1 p = Some u" using p same_tables_live [of s s1 p] by fastforce
  have ok1: "sessions_ok s1" using s1 s same_tables_ok by blast
  have ok2: "sessions_ok s2 \<and> (\<exists>v. srv_subs s2 p = Some v \<and> sub_session v = 0) \<and>
      (srv_sessions s2 c = None \<longleftrightarrow> srv_sessions s c = None) \<and> (srv_subs s2 q = None \<longleftrightarrow> srv_subs s q = None)"
  proof (cases "sub_session u = 0")
    case True
    then show ?thesis using ok1 u same_tables_ses [OF s1] same_tables_live [OF s1] by (simp add: the_sub_def s2_def)
  next
    case False
    then obtain x where x: "srv_sessions s1 (sub_session u) = Some x" using sub_entryD(4) [OF ok1 u] by blast
    show ?thesis using False u ok_detach [OF ok1 u refl x] same_tables_ses [OF s1] same_tables_live [OF s1, symmetric]
      by (auto simp: the_sub_def s2_def)
  qed
  have s3: "same_tables s2 s3" by (simp add: same_intros s3_def)
  have s4: "same_tables s2 s4" unfolding s4_def by (rule same_tables_fold [OF _ s3]) (rule same_tables_mon_delete)
  have ok4: "sessions_ok s4" using s4 ok2 same_tables_ok by blast
  obtain w where w: "srv_subs s4 p = Some w" using ok2 same_tables_live [OF s4, of p] by fastforce
  then have w0: "sub_session w = 0" using same_tables_sub(1) [OF s4, of p] ok2 by (auto simp: the_sub_def)
  have ok5: "sessions_ok (mod_sub p ?f s4)"
  proof (rule ok_change_queue [OF ok4 w, of ?f, where k = ses_totalRetransmissionQueueSize])
    show "ses_totalRetransmissionQueueSize x + length (sub_retransmissionQueue w) =
        ses_totalRetransmissionQueueSize x + length (sub_retransmissionQueue (?f w))"
      if "srv_sessions s4 (sub_session w) = Some x" for x
      using ses_entryD(1) [OF ok4 that] w0 by blast
  qed (use w0 sub_entryD(1,3) [OF ok4 w] in simp_all)
  have s6: "same_tables (mod_sub p ?f s4) (delayed_free p (mod_sub p ?f s4))"
    by (rule same_tables_delayed_free) simp
  show "sessions_ok (UA_Subscription_delete p s)" unfolding d by (rule same_tables_ok [OF s6 ok5])
  show "srv_sessions (UA_Subscription_delete p s) c = None \<longleftrightarrow> srv_sessions s c = None"
    unfolding d using same_tables_ses [OF s6] same_tables_ses [OF s4] ok2 by simp
  show "srv_subs (UA_Subscription_delete p s) q = None \<longleftrightarrow> srv_subs s q = None"
    unfolding d using same_tables_live [OF s6] same_tables_live [OF s4] ok2 by simp
  have "srv_subs (delayed_free p (mod_sub p ?f s4)) p = Some (?f w)"
    using w by (simp add: delayed_free_def mod_sub_def)
  then show "\<exists>u. srv_subs (UA_Subscription_delete p s) p = Some u \<and> sub_session u = 0 \<and> sub_retransmissionQueue u = []"
    unfolding d using w0 by simp
qed

end
