(* ===== verification/Sub_Once.thy ===== *)
theory Sub_Once
  imports Sub_Changes
begin

text \<open>
  Publishing keeps the tables consistent, and it ends: every round that is not the last consumes a
  queued publish request.
\<close>

section \<open>Operations that keep the publish requests\<close>

definition same_requests :: "UA_Server \<Rightarrow> UA_Server \<Rightarrow> bool" where
  "same_requests s t =
     ((\<forall>a. map_option ses_responseQueue (srv_sessions t a) = map_option ses_responseQueue (srv_sessions s a)) \<and>
      (\<forall>p. map_option sub_session (srv_subs t p) = map_option sub_session (srv_subs s p)))"

lemma same_requests_refl [simp, intro]: "same_requests s s"
  by (simp add: same_requests_def)

lemma same_requests_trans [trans]: "same_requests s t \<Longrightarrow> same_requests t u \<Longrightarrow> same_requests s u"
  by (simp add: same_requests_def)

lemma same_requests_tables: "same_tables s t \<Longrightarrow> same_requests s t"
proof -
  assume st: "same_tables s t"
  have "map_option sub_session (srv_subs t p) = map_option sub_session (srv_subs s p)" for p
  proof (cases "srv_subs s p")
    case None
    then show ?thesis using same_tables_live [OF st, of p] by simp
  next
    case (Some u)
    then obtain v where "srv_subs t p = Some v" using same_tables_live [OF st, of p] by fastforce
    then show ?thesis using Some same_tables_sub(1) [OF st, of p] by (simp add: the_sub_def)
  qed
  then show ?thesis using same_tables_ses [OF st] by (simp add: same_requests_def)
qed

lemma same_requests_mod_sub:
  "(\<And>u. sub_session (f u) = sub_session u) \<Longrightarrow> same_requests s t \<Longrightarrow> same_requests s (mod_sub p f t)"
  by (simp add: same_requests_def mod_sub_def upd_at_def option.map_comp comp_def)

lemma same_requests_mod_ses:
  "(\<And>x. ses_responseQueue (f x) = ses_responseQueue x) \<Longrightarrow> same_requests s t \<Longrightarrow> same_requests s (mod_ses a f t)"
  by (simp add: same_requests_def mod_ses_def upd_at_def option.map_comp comp_def)

lemmas requests_intros = same_requests_mod_sub same_requests_mod_ses

lemma same_requests_live:
  assumes "same_requests s t"
  shows "(srv_sessions t a = None) = (srv_sessions s a = None)" "(srv_subs t p = None) = (srv_subs s p = None)"
    "srv_sessions s a \<noteq> None \<Longrightarrow> ses_responseQueue (the_ses t a) = ses_responseQueue (the_ses s a)"
    "srv_subs s p \<noteq> None \<Longrightarrow> sub_session (the_sub t p) = sub_session (the_sub s p)"
proof -
  have a: "map_option ses_responseQueue (srv_sessions t a) = map_option ses_responseQueue (srv_sessions s a)"
    and p: "map_option sub_session (srv_subs t p) = map_option sub_session (srv_subs s p)"
    using assms by (simp_all add: same_requests_def)
  show "(srv_sessions t a = None) = (srv_sessions s a = None)" using a by (metis map_option_is_None)
  show "(srv_subs t p = None) = (srv_subs s p = None)" using p by (metis map_option_is_None)
  show "srv_sessions s a \<noteq> None \<Longrightarrow> ses_responseQueue (the_ses t a) = ses_responseQueue (the_ses s a)"
    using a by (auto simp: the_ses_def)
  show "srv_subs s p \<noteq> None \<Longrightarrow> sub_session (the_sub t p) = sub_session (the_sub s p)"
    using p by (auto simp: the_sub_def)
qed

lemma same_requests_removeOldest: "same_requests s (removeOldestRetransmissionMessageFromSub p s)"
  unfolding removeOldestRetransmissionMessageFromSub_def Let_def by (auto intro!: requests_intros)

lemma same_requests_make_room: "same_requests s (make_room p s)"
  unfolding make_room_def removeOldestRetransmissionMessageFromSession_def
  by (auto intro: same_requests_removeOldest split: option.splits)

lemma same_requests_add: "same_requests s (UA_Subscription_addRetransmissionMessage p m s)"
  unfolding addRetransmission_room Let_def by (auto intro!: requests_intros same_requests_make_room)

lemma same_requests_remove: "same_requests s (snd (UA_Subscription_removeRetransmissionMessage p k s))"
  unfolding UA_Subscription_removeRetransmissionMessage_def Let_def
  by (auto intro!: requests_intros split: option.splits)

section \<open>One round\<close>

text \<open>The state behind the bookkeeping of the retransmissions, and the response that is sent.\<close>

definition with_retransmission :: "ptr \<Rightarrow> UA_NotificationData list option \<Rightarrow> UA_Server \<Rightarrow> UA_Server" where
  "with_retransmission p dat s =
     (case dat of None \<Rightarrow> s
      | Some d \<Rightarrow>
          mod_sub p (\<lambda>u. u\<lparr>sub_nextSequenceNumber := UA_Subscription_nextSequenceNumber (sub_nextSequenceNumber u)\<rparr>)
            (if cfg_enableRetransmissionQueue (srv_config s)
             then UA_Subscription_addRetransmissionMessage p
               \<lparr>msg_sequenceNumber = sub_nextSequenceNumber (the_sub s p), msg_publishTime = srv_now s,
                msg_notificationData = d\<rparr> s
             else s))"

lemma next_sequence_positive: "0 < UA_Subscription_nextSequenceNumber k"
  by (auto simp: UA_Subscription_nextSequenceNumber_def Let_def word_gt_0)

lemma same_requests_with: "same_requests s (with_retransmission p dat s)"
  unfolding with_retransmission_def
  by (auto intro!: requests_intros same_requests_add split: option.splits)

lemma ok_with:
  assumes s: "sessions_ok s" and p: "srv_subs s p = Some u"
  shows "sessions_ok (with_retransmission p dat s)"
proof (cases dat)
  case (Some d)
  define t where "t = (if cfg_enableRetransmissionQueue (srv_config s)
             then UA_Subscription_addRetransmissionMessage p
               \<lparr>msg_sequenceNumber = sub_nextSequenceNumber (the_sub s p), msg_publishTime = srv_now s,
                msg_notificationData = d\<rparr> s
             else s)"
  have t: "sessions_ok t" "same_requests s t"
    unfolding t_def using ok_addRetransmission [OF s p] s same_requests_add by auto
  then obtain v where v: "srv_subs t p = Some v" using same_requests_live(2) [of s t p] p by fastforce
  let ?f = "\<lambda>u. u\<lparr>sub_nextSequenceNumber := UA_Subscription_nextSequenceNumber (sub_nextSequenceNumber u)\<rparr>"
  have ses: "sub_session v = 0 \<or> srv_sessions t (sub_session v) = Some (the_ses t (sub_session v))"
    using sub_entryD(4) [OF t(1) v] by (cases "sub_session v = 0") (auto simp: the_ses_def)
  have "view_ok ((subs_view t)(p \<mapsto> retrans_of (?f v)))
      (if rt_session (retrans_of v) = 0 then srv_sessions t else (srv_sessions t)(rt_session (retrans_of v) \<mapsto>
        the_ses t (sub_session v)))"
    by (rule view_queue [OF t(1) [THEN sessions_okD(1)] subs_view_Some [OF v] _ _ _ _ refl,
          where x = "the_ses t (sub_session v)" and k = "ses_totalRetransmissionQueueSize (the_ses t (sub_session v))"])
      (use sub_entryD(1,2) [OF t(1) v] ses in \<open>simp_all add: retrans_of_def next_sequence_positive\<close>)
  moreover have "(if rt_session (retrans_of v) = 0 then srv_sessions t else (srv_sessions t)(rt_session (retrans_of v) \<mapsto>
        the_ses t (sub_session v))) = srv_sessions t"
    using ses by (auto simp: retrans_of_def)
  ultimately show ?thesis using sessions_okD(2) [OF t(1)]
    by (simp add: with_retransmission_def Some sessions_ok_def subs_view_mod_sub [OF v] flip: t_def)
qed (simp add: with_retransmission_def s)

lemma send_publish_with:
  "snd (send_publish_response p pre dat s) =
     mod_sub p (\<lambda>u. u\<lparr>sub_currentKeepAliveCount := 0\<rparr>)
       (let t = with_retransmission p dat s;
            t = sendResponse (ses_channel (the_ses t (sub_session (the_sub t p)))) (pre_requestId pre)
              ((pre_response pre)\<lparr>res_timestamp := srv_now s, res_subscriptionId := sub_subscriptionId (the_sub s p),
                 res_moreNotifications := (sub_notificationQueueSize (the_sub s p) > 0),
                 res_notificationMessage := \<lparr>msg_sequenceNumber = sub_nextSequenceNumber (the_sub s p),
                   msg_publishTime = srv_now s, msg_notificationData = (case dat of None \<Rightarrow> [] | Some d \<Rightarrow> d)\<rparr>,
                 res_availableSequenceNumbers := map msg_sequenceNumber (sub_retransmissionQueue (the_sub t p))\<rparr>) t
        in if sub_notificationQueueSize (the_sub t p) = 0
           then mod_sub p (\<lambda>u. u\<lparr>sub_state := UA_SUBSCRIPTIONSTATE_NORMAL\<rparr>) t else t)"
  by (cases dat) (simp_all add: send_publish_response_def with_retransmission_def Let_def)

definition publish_step :: "UA_Server \<Rightarrow> UA_Server \<Rightarrow> bool" where
  "publish_step s t = (sessions_ok t \<and> same_requests s t)"

lemma publish_step_same: "publish_step s t \<Longrightarrow> same_tables t t' \<Longrightarrow> publish_step s t'"
  unfolding publish_step_def using same_tables_ok same_requests_tables same_requests_trans by blast

lemma publish_step_send:
  assumes s: "sessions_ok s" and p: "srv_subs s p = Some u"
  shows "publish_step s (snd (send_publish_response p pre dat s))"
proof -
  have "publish_step s (with_retransmission p dat s)"
    unfolding publish_step_def using ok_with [OF s p] same_requests_with by blast
  then show ?thesis
    by (rule publish_step_same)
      (auto simp: send_publish_with Let_def intro!: same_intros same_tables_sendResponse)
qed

section \<open>The outcomes of one round\<close>

definition dequeued :: "ptr \<Rightarrow> UA_Server \<Rightarrow> UA_PublishResponseEntry option \<times> UA_Server" where
  "dequeued p s =
     (if sub_session (the_sub s p) \<noteq> 0 then UA_Session_dequeuePublishReq (sub_session (the_sub s p)) s else (None, s))"

inductive once_outcome :: "ptr \<Rightarrow> UA_Server \<Rightarrow> UA_PublishResponseEntry option \<Rightarrow> bool \<times> UA_Server \<Rightarrow> bool"
  for p s where
  expire: "same_tables s t \<Longrightarrow> sub_statusChange (the_sub t p) \<noteq> GOOD \<Longrightarrow>
    once_outcome p s pre (True, sendStatusChangeDelete p pre t)"
| wait: "same_tables s t \<Longrightarrow> once_outcome p s pre (True, requeue p pre t)"
| send: "same_tables s t \<Longrightarrow> once_outcome p s (Some e) (send_publish_response p e dat t)"

lemma same_tables_update_lifetime: "same_tables s t \<Longrightarrow> same_tables s (update_lifetime p b t)"
  unfolding update_lifetime_def Let_def by (auto intro!: same_intros)

lemma publishOnce_outcome:
  assumes d: "dequeued p s = (pre, s1)"
  shows "once_outcome p s1 pre (UA_Subscription_publishOnce p s)"
proof -
  define s2 where "s2 = update_lifetime p (pre \<noteq> None) s1"
  define k where "k = publish_count (the_sub s2 p)"
  define s3 where "s3 = (if k = 0
    then mod_sub p (\<lambda>u. u\<lparr>sub_currentKeepAliveCount := sub_currentKeepAliveCount u + 1\<rparr>) s2 else s2)"
  define s4 where "s4 = UA_Subscription_isLate p s3"
  obtain m t4 where m: "(if cfg_enableRetransmissionQueue (srv_config s3) then malloc s3 else (1, s3)) = (m, t4)"
    by fastforce
  obtain r dat t5 where r: "prepareNotificationMessage p k t4 = ((r, dat), t5)" by (metis prod.exhaust)
  have same: "same_tables s1 s2" "same_tables s1 s3"
    unfolding s2_def s3_def by (auto intro!: same_tables_update_lifetime same_intros)
  have t4: "same_tables s1 t4" using m same(2) by (auto split: if_splits intro: same_tables_malloc)
  have t5: "same_tables s1 t5" by (rule same_tables_prepare [OF r t4])
  have late: "same_tables s1 t \<Longrightarrow> same_tables s1 (UA_Subscription_isLate p t)" for t
    unfolding UA_Subscription_isLate_def by (intro same_intros) simp_all
  let ?ses = "sub_session (the_sub s p)"
  have once: "UA_Subscription_publishOnce p s =
      (if sub_statusChange (the_sub s2 p) \<noteq> GOOD then (True, sendStatusChangeDelete p pre s2)
       else if k = 0 \<and> sub_currentKeepAliveCount (the_sub s3 p) < sub_maxKeepAliveCount (the_sub s3 p)
       then (True, requeue p pre s3)
       else if pre = None \<or> ?ses = 0 \<or> ses_channel (the_ses s3 ?ses) = 0 then (True, requeue p pre s4)
       else if k = 0 then send_publish_response p (the pre) None s3
       else if m = 0 then (True, requeue p pre (UA_Subscription_isLate p t4))
       else if r \<noteq> GOOD then (True, requeue p pre (UA_Subscription_isLate p t5))
       else send_publish_response p (the pre) (Some dat) t5)"
    unfolding UA_Subscription_publishOnce_def Let_def dequeued_def [symmetric] d prod.case
      s2_def [symmetric] k_def [symmetric] s3_def [symmetric] s4_def [symmetric] m r
    by simp
  show ?thesis
    unfolding once using same t4 t5 late s4_def
    by (cases pre) (auto intro: once_outcome.intros)
qed

lemma sendStatusChangeDelete_is_delete:
  obtains t where "same_tables s t" "sendStatusChangeDelete p pre s = UA_Subscription_delete p t"
proof (cases pre)
  case None
  then show ?thesis using that [of s] by (simp add: sendStatusChangeDelete_def)
next
  case (Some e)
  show ?thesis
    by (rule that [OF same_tables_sendResponse [OF same_tables_refl]])
      (simp add: sendStatusChangeDelete_def Let_def Some)
qed

lemma ok_sendStatusChangeDelete:
  assumes "sessions_ok s" "srv_subs s p \<noteq> None"
  shows "sessions_ok (sendStatusChangeDelete p pre s)"
    "srv_sessions (sendStatusChangeDelete p pre s) c = None \<longleftrightarrow> srv_sessions s c = None"
    "srv_subs (sendStatusChangeDelete p pre s) q = None \<longleftrightarrow> srv_subs s q = None"
proof -
  obtain t where t: "same_tables s t" "sendStatusChangeDelete p pre s = UA_Subscription_delete p t"
    by (rule sendStatusChangeDelete_is_delete)
  have "sessions_ok t" "srv_subs t p \<noteq> None"
    using same_tables_ok [OF t(1) assms(1)] same_tables_live [OF t(1)] assms(2) by auto
  from ok_delete [OF this] show "sessions_ok (sendStatusChangeDelete p pre s)"
    "srv_sessions (sendStatusChangeDelete p pre s) c = None \<longleftrightarrow> srv_sessions s c = None"
    "srv_subs (sendStatusChangeDelete p pre s) q = None \<longleftrightarrow> srv_subs s q = None"
    using t same_tables_live [OF t(1)] same_tables_ses [OF t(1)] by simp_all
qed

text \<open>The tables stay consistent, no session and no subscription appears or disappears.\<close>

definition tables_step :: "UA_Server \<Rightarrow> UA_Server \<Rightarrow> bool" where
  "tables_step s t =
     (sessions_ok t \<and> (\<forall>a. (srv_sessions t a = None) = (srv_sessions s a = None)) \<and>
      (\<forall>p. (srv_subs t p = None) = (srv_subs s p = None)))"

lemma tables_step_refl: "sessions_ok s \<Longrightarrow> tables_step s s"
  by (simp add: tables_step_def)

lemma tables_step_trans [trans]: "tables_step s t \<Longrightarrow> tables_step t u \<Longrightarrow> tables_step s u"
  by (simp add: tables_step_def)

lemma tables_step_same: "tables_step s t \<Longrightarrow> same_tables t t' \<Longrightarrow> tables_step s t'"
  unfolding tables_step_def using same_tables_ok same_tables_live same_tables_ses by metis

lemma tables_stepD:
  assumes "tables_step s t"
  shows "sessions_ok t" "(srv_sessions t a = None) = (srv_sessions s a = None)" "(srv_subs t p = None) = (srv_subs s p = None)"
  using assms by (simp_all add: tables_step_def)

lemma tables_step_publish: "publish_step s t \<Longrightarrow> tables_step s t"
  unfolding publish_step_def tables_step_def using same_requests_live by blast

lemma tables_step_queue: "sessions_ok s \<Longrightarrow> tables_step s (UA_Session_queuePublishReq a e b s)"
  using ok_queue [of s a e b] by (simp add: tables_step_def UA_Session_queuePublishReq_def)

lemma tables_step_requeue: "sessions_ok s \<Longrightarrow> tables_step s (requeue p pre s)"
  using tables_step_queue tables_step_refl by (auto simp: requeue_def split: option.splits)

lemma tables_step_dequeue: "UA_Session_dequeuePublishReq a s = (e, t) \<Longrightarrow> sessions_ok s \<Longrightarrow> tables_step s t"
  using ok_dequeue [of s a]
  by (auto simp: tables_step_def UA_Session_dequeuePublishReq_def split: list.splits)

lemma tables_step_dequeued: "dequeued p s = (e, t) \<Longrightarrow> sessions_ok s \<Longrightarrow> tables_step s t"
  using tables_step_dequeue tables_step_refl by (auto simp: dequeued_def split: if_splits)

lemma tables_step_publishOnce:
  assumes s: "sessions_ok s" and p: "srv_subs s p \<noteq> None"
  shows "tables_step s (snd (UA_Subscription_publishOnce p s))"
proof -
  obtain pre s1 where d: "dequeued p s = (pre, s1)" by fastforce
  note s1 = tables_step_dequeued [OF d s]
  from publishOnce_outcome [OF d] show ?thesis
  proof cases
    case (expire t)
    have t: "tables_step s t" by (rule tables_step_same [OF s1 expire(2)])
    show ?thesis
      using ok_sendStatusChangeDelete [OF tables_stepD(1) [OF t]] tables_stepD [OF t] p expire(1)
      by (simp add: tables_step_def)
  next
    case (wait t)
    have t: "tables_step s t" by (rule tables_step_same [OF s1 wait(2)])
    show ?thesis using tables_step_trans [OF t tables_step_requeue [OF tables_stepD(1) [OF t]]] wait(1) by simp
  next
    case (send t e dat)
    have t: "tables_step s t" by (rule tables_step_same [OF s1 send(3)])
    then obtain u where "srv_subs t p = Some u" using p tables_stepD(3) [OF t, of p] by fastforce
    from tables_step_publish [OF publish_step_send [OF tables_stepD(1) [OF t] this]]
    show ?thesis using tables_step_trans [OF t] send(2) by simp
  qed
qed

section \<open>Publishing ends\<close>

definition queued_requests :: "ptr \<Rightarrow> UA_Server \<Rightarrow> nat" where
  "queued_requests p s = length (ses_responseQueue (the_ses s (sub_session (the_sub s p))))"

lemma dequeued_Some:
  assumes "dequeued p s = (Some e, s1)" "sessions_ok s" "srv_subs s p \<noteq> None"
  shows "Suc (queued_requests p s1) = queued_requests p s" "srv_sessions s1 (sub_session (the_sub s1 p)) \<noteq> None"
proof -
  let ?a = "sub_session (the_sub s p)"
  obtain u where u: "srv_subs s p = Some u" using assms(3) by auto
  have a: "?a \<noteq> 0" and q: "UA_Session_dequeuePublishReq ?a s = (Some e, s1)"
    using assms(1) by (auto simp: dequeued_def split: if_splits)
  obtain x where x: "srv_sessions s ?a = Some x"
    using sub_entryD(4) [OF assms(2) u] a u by (auto simp: the_sub_def)
  obtain es where es: "ses_responseQueue (the_ses s ?a) = e # es"
      "s1 = mod_ses ?a (\<lambda>x. x\<lparr>ses_responseQueueSize := ses_responseQueueSize x - 1, ses_responseQueue := es\<rparr>) s"
    using q by (auto simp: UA_Session_dequeuePublishReq_def split: list.splits)
  show "Suc (queued_requests p s1) = queued_requests p s" "srv_sessions s1 (sub_session (the_sub s1 p)) \<noteq> None"
    using es x by (auto simp: queued_requests_def the_ses_def mod_ses_def upd_at_def the_sub_def)
qed

lemma publishOnce_consumes:
  assumes s: "sessions_ok s" and p: "srv_subs s p \<noteq> None" and n: "\<not> fst (UA_Subscription_publishOnce p s)"
  shows "Suc (queued_requests p (snd (UA_Subscription_publishOnce p s))) = queued_requests p s"
proof -
  obtain pre s1 where d: "dequeued p s = (pre, s1)" by fastforce
  from publishOnce_outcome [OF d] n show ?thesis
  proof cases
    case (send t e dat)
    have t: "tables_step s t" by (rule tables_step_same [OF tables_step_dequeued [OF d s] send(3)])
    obtain u where u: "srv_subs t p = Some u" using p tables_stepD(3) [OF t, of p] by fastforce
    have p1: "srv_subs s1 p \<noteq> None" using u same_tables_live [OF send(3), of p] by auto
    have "same_requests s1 (snd (UA_Subscription_publishOnce p s))"
      using same_requests_trans [OF same_requests_tables [OF send(3)]]
        publish_step_send [OF tables_stepD(1) [OF t] u] send(2) by (simp add: publish_step_def)
    note r = same_requests_live [OF this]
    note c = dequeued_Some [OF d [unfolded send(1)] s p]
    show ?thesis using r(3) [OF c(2)] r(4) [OF p1] c(1) by (simp add: queued_requests_def)
  qed simp_all
qed

lemma publish_ends:
  "sessions_ok s \<Longrightarrow> srv_subs s p \<noteq> None \<Longrightarrow> \<exists>t. UA_Subscription_publish p s = Some t \<and> tables_step s t"
proof (induction "queued_requests p s" arbitrary: s rule: less_induct)
  case less
  let ?r = "UA_Subscription_publishOnce p s"
  note step = tables_step_publishOnce [OF less.prems]
  show ?case
  proof (cases "fst ?r")
    case True
    then show ?thesis using step by (simp add: UA_Subscription_publish.simps [of p s] Let_def)
  next
    case False
    have "queued_requests p (snd ?r) < queued_requests p s"
      using publishOnce_consumes [OF less.prems False] by linarith
    moreover have "srv_subs (snd ?r) p \<noteq> None" using less.prems(2) by (simp add: tables_stepD(3) [OF step])
    ultimately obtain t where "UA_Subscription_publish p (snd ?r) = Some t" "tables_step (snd ?r) t"
      using less.hyps [OF _ tables_stepD(1) [OF step]] by blast
    then show ?thesis using tables_step_trans [OF step] False
      by (auto simp: UA_Subscription_publish.simps [of p s] Let_def)
  qed
qed

lemma sampleAndPublish_ends:
  assumes "sessions_ok s" "srv_subs s p \<noteq> None"
  shows "\<exists>t. UA_Subscription_sampleAndPublish rd changed p s = Some t \<and> tables_step s t"
proof -
  have st: "same_tables s (fold (monitoredItem_sampleCallback rd changed) ms s)" for ms
    by (rule same_tables_fold) (simp_all add: same_tables_sample)
  let ?t = "fold (monitoredItem_sampleCallback rd changed) (sub_samplingMonitoredItems (the_sub s p)) s"
  have t: "tables_step s ?t" by (rule tables_step_same [OF tables_step_refl [OF assms(1)] st])
  have "srv_subs ?t p \<noteq> None" using assms(2) by (simp add: tables_stepD(3) [OF t])
  from publish_ends [OF tables_stepD(1) [OF t] this] show ?thesis
    using tables_step_trans [OF t] by (auto simp: UA_Subscription_sampleAndPublish_def)
qed

end
