(* ===== verification/Sub_Steps.thy ===== *)
theory Sub_Steps
  imports Sub_Once "HOL-Library.Multiset"
begin

text \<open>
  The services keep the tables of sessions and subscriptions consistent, and so does every step of the
  server: a state machine over all operations of the model, with its reachable states.
\<close>

section \<open>Subscriptions of a live session\<close>

lemma get_sub:
  assumes "sessions_ok s" "srv_sessions s a \<noteq> None" "UA_Session_getSubscriptionById a i s = Some p"
  shows "\<exists>u. srv_subs s p = Some u \<and> sub_session u = a"
proof -
  obtain x where x: "srv_sessions s a = Some x" using assms(2) by auto
  then have "p \<in> set (ses_subscriptions x)"
    using assms(3) by (auto simp: UA_Session_getSubscriptionById_def the_ses_def find_Some_iff)
  then show ?thesis by (rule ses_entryD(6) [OF assms(1) x])
qed

lemma get_sub_live:
  "sessions_ok s \<Longrightarrow> srv_sessions s a \<noteq> None \<Longrightarrow> UA_Session_getSubscriptionById a i s = Some p \<Longrightarrow> srv_subs s p \<noteq> None"
  using get_sub by fastforce

lemma tables_step_of_same: "sessions_ok s \<Longrightarrow> same_tables s t \<Longrightarrow> tables_step s t"
  using tables_step_same tables_step_refl by blast

lemma tables_step_malloc: "malloc s = (p, t) \<Longrightarrow> sessions_ok s \<Longrightarrow> tables_step s t"
  using tables_step_of_same same_tables_malloc same_tables_refl by blast

lemma tables_step_ops:
  assumes op: "\<And>x s. sessions_ok s \<Longrightarrow> srv_sessions s a \<noteq> None \<Longrightarrow> tables_step s (snd (f x s))"
  shows "sessions_ok s \<Longrightarrow> srv_sessions s a \<noteq> None \<Longrightarrow> tables_step s (snd (run_operations f xs s))"
proof (induction xs arbitrary: s)
  case Nil
  then show ?case by (simp add: tables_step_refl)
next
  case (Cons x xs)
  obtain r t where r: "f x s = (r, t)" by fastforce
  obtain rs t' where rs: "run_operations f xs t = (rs, t')" by fastforce
  have t: "tables_step s t" using op [OF Cons.prems, of x] r by simp
  have "srv_sessions t a \<noteq> None" using Cons.prems(2) by (simp add: tables_stepD(2) [OF t])
  then have "tables_step t t'" using Cons.IH [OF tables_stepD(1) [OF t]] rs by simp
  then show ?case using tables_step_trans [OF t] r rs by simp
qed

lemma tables_step_service:
  assumes op: "\<And>x s. sessions_ok s \<Longrightarrow> srv_sessions s a \<noteq> None \<Longrightarrow> tables_step s (snd (f x s))"
    and s: "sessions_ok s" "srv_sessions s a \<noteq> None"
  shows "tables_step s (snd (UA_Server_processServiceOperations f xs s))"
proof -
  obtain m t where m: "malloc s = (m, t)" by fastforce
  obtain rs t' where rs: "run_operations f xs t = (rs, t')" by fastforce
  note t = tables_step_malloc [OF m s(1)]
  have "srv_sessions t a \<noteq> None" using s(2) by (simp add: tables_stepD(2) [OF t])
  from tables_step_ops [where f = f and xs = xs, OF op tables_stepD(1) [OF t] this] have "tables_step s t'"
    using tables_step_trans [OF t] rs by simp
  then show ?thesis
    using t tables_step_refl [OF s(1)] by (simp add: UA_Server_processServiceOperations_def m rs)
qed

section \<open>The services\<close>

lemma tables_step_SetPublishingMode: "sessions_ok s \<Longrightarrow> tables_step s (snd (Operation_SetPublishingMode a b i s))"
  by (rule tables_step_of_same)
    (auto simp: Operation_SetPublishingMode_def setPublishingEnabled_def split: option.splits intro!: same_intros)

lemma tables_step_delete:
  assumes "sessions_ok s" "srv_subs s p \<noteq> None"
  shows "tables_step s (UA_Subscription_delete p s)"
  using ok_delete [OF assms] by (simp add: tables_step_def)

lemma tables_step_DeleteSubscription:
  assumes "sessions_ok s" "srv_sessions s a \<noteq> None"
  shows "tables_step s (snd (Operation_DeleteSubscription a i s))"
  unfolding Operation_DeleteSubscription_def
  using tables_step_delete [OF assms(1)] tables_step_refl [OF assms(1)] get_sub_live [OF assms]
  by (auto split: option.splits)

lemma tables_step_acknowledge:
  assumes "sessions_ok s" "srv_sessions s a \<noteq> None"
  shows "tables_step s (snd (acknowledge a ack s))"
proof (cases "UA_Session_getSubscriptionById a (fst ack) s")
  case (Some p)
  then obtain u where u: "srv_subs s p = Some u" using get_sub [OF assms] by blast
  have "tables_step s (snd (UA_Subscription_removeRetransmissionMessage p (snd ack) s))"
    by (rule tables_step_publish) (simp add: publish_step_def ok_removeRetransmission [OF assms(1) u] same_requests_remove)
  then show ?thesis by (simp add: acknowledge_def Some)
qed (simp add: acknowledge_def tables_step_refl assms)

lemma same_tables_Republish: "same_tables s (snd (Service_Republish a i k s))"
proof (cases "UA_Session_getSubscriptionById a i s")
  case (Some p)
  define t where "t = mod_sub p (\<lambda>u. u\<lparr>sub_currentLifetimeCount := 0\<rparr>) s"
  obtain m t' where m: "malloc t = (m, t')" by fastforce
  have "same_tables s t" unfolding t_def by (intro same_intros) simp_all
  moreover from this have "same_tables s t'" by (rule same_tables_malloc [OF m])
  ultimately show ?thesis by (simp add: Service_Republish_def Some Let_def m split: option.split flip: t_def)
qed (simp add: Service_Republish_def)

lemma retrans_of_settings [simp]:
  "retrans_of (setSubscriptionSettings cfg d l k n pr u) = retrans_of u" "retrans_of (setPublishingEnabled b u) = retrans_of u"
  by (simp_all add: setSubscriptionSettings_def setPublishingEnabled_def Let_def)

definition fresh_mallocs :: "UA_Server \<Rightarrow> bool" where
  "fresh_mallocs s = (\<forall>q \<in> set (srv_mallocs s). srv_subs s q = None)"

lemma ok_CreateSubscription:
  assumes s: "sessions_ok s" and a: "srv_sessions s a \<noteq> None" and fresh: "fresh_mallocs s"
  shows "sessions_ok (snd (Service_CreateSubscription a req s))"
proof -
  define cfg where "cfg = srv_config s"
  obtain p s1 where p: "UA_Subscription_new s = (p, s1)" by fastforce
  note new = ok_new [OF s p fresh [unfolded fresh_mallocs_def]]
  define s2 where "s2 = mod_sub p (setSubscriptionSettings cfg (csr_requestedPublishingInterval req)
    (csr_requestedLifetimeCount req) (csr_requestedMaxKeepAliveCount req) (csr_maxNotificationsPerPublish req)
    (csr_priority req)) s1"
  define s3 where "s3 = mod_sub p (\<lambda>u. u\<lparr>sub_currentKeepAliveCount := sub_maxKeepAliveCount u\<rparr>)
    (mod_sub p (setPublishingEnabled (csr_publishingEnabled req)) s2)"
  define s4 where "s4 = s3\<lparr>srv_lastSubscriptionId := srv_lastSubscriptionId s3 + 1\<rparr>"
  define s5 where "s5 = mod_sub p (\<lambda>u. u\<lparr>sub_subscriptionId := srv_lastSubscriptionId s4\<rparr>) s4"
  obtain r s6 where r: "Subscription_registerPublishCallback p s5 = (r, s6)" by fastforce
  define s7 where "s7 = s6\<lparr>srv_subscriptions := p # srv_subscriptions s6, srv_subscriptionsSize := srv_subscriptionsSize s6 + 1,
    srv_currentSubscriptionCount := srv_currentSubscriptionCount s6 + 1,
    srv_cumulatedSubscriptionCount := srv_cumulatedSubscriptionCount s6 + 1\<rparr>"
  have "same_tables s1 s5"
    unfolding s5_def s4_def s3_def s2_def by (intro same_intros) simp_all
  then have s6: "same_tables s1 s6" by (rule same_tables_registerPublish [OF r])
  note ok6 = same_tables_ok [OF s6 new(1)]
  have created: "sessions_ok (UA_Subscription_delete p s6) \<and> sessions_ok (UA_Session_attachSubscription a p s7)" if "p \<noteq> 0"
  proof -
    obtain u where u: "srv_subs s1 p = Some u" "sub_session u = 0" using new(3) \<open>p \<noteq> 0\<close> by blast
    obtain v where v: "srv_subs s6 p = Some v" using same_tables_live [OF s6, of p] u(1) by fastforce
    have v0: "sub_session v = 0" using same_tables_sub(1) [OF s6, of p] u v by (simp add: the_sub_def)
    obtain x where x: "srv_sessions s6 a = Some x" using same_tables_ses [OF s6] new(2) a by auto
    have v7: "srv_subs s7 p = Some v" and x7: "srv_sessions s7 a = Some x" and ok7: "sessions_ok s7"
      using v x ok6 by (auto simp: s7_def sessions_ok_def list_ok_def subs_view_def [abs_def])
    show ?thesis using ok_delete(1) [OF ok6] v ok_attach [OF ok7 v7 v0 x7] by simp
  qed
  show ?thesis
    using s new(1) created
    unfolding Service_CreateSubscription_def Let_def cfg_def [symmetric] p prod.case s2_def [symmetric] s3_def [symmetric]
      s4_def [symmetric] s5_def [symmetric] r prod.case s7_def [symmetric]
    by simp
qed

lemma ok_ModifySubscription:
  assumes s: "sessions_ok s" and a: "srv_sessions s a \<noteq> None"
  shows "sessions_ok (snd (Service_ModifySubscription a i req s))"
proof (cases "UA_Session_getSubscriptionById a i s")
  case (Some p)
  define s1 where "s1 = mod_sub p (\<lambda>u. u\<lparr>sub_currentLifetimeCount := 0\<rparr>)
    (mod_sub p (setSubscriptionSettings (srv_config s) (csr_requestedPublishingInterval req)
      (csr_requestedLifetimeCount req) (csr_requestedMaxKeepAliveCount req) (csr_maxNotificationsPerPublish req)
      (csr_priority req)) s)"
  define s2 where "s2 = (if sub_publishCallbackId (the_sub s1 p) > 0 \<and>
      sub_publishingInterval (the_sub s1 p) \<noteq> sub_publishingInterval (the_sub s p)
    then snd (changeRepeatedCallbackInterval (sub_publishCallbackId (the_sub s1 p)) (sub_publishingInterval (the_sub s1 p)) s1)
    else s1)"
  have "same_tables s s1" unfolding s1_def by (intro same_intros) simp_all
  then have s2: "same_tables s s2" unfolding s2_def by (simp add: same_tables_changeCallback)
  note ok2 = same_tables_ok [OF s2 s]
  obtain u where u: "srv_subs s p = Some u" "sub_session u = a" using get_sub [OF s a Some] by blast
  obtain v where v: "srv_subs s2 p = Some v" using same_tables_live [OF s2, of p] u(1) by fastforce
  have va: "sub_session v = a" using same_tables_sub(1) [OF s2, of p] u v by (simp add: the_sub_def)
  obtain x where x: "srv_sessions s2 a = Some x" using a same_tables_ses [OF s2] by auto
  define s3 where "s3 = UA_Session_detachSubscription a p False s2"
  note d = ok_detach [OF ok2 v va x, of False, folded s3_def]
  obtain y where y: "srv_sessions s3 a = Some y" using d(3) [of a] x by fastforce
  have "sessions_ok (UA_Session_attachSubscription a p s3)"
    by (rule ok_attach [OF d(1) _ _ y]) (auto simp: d(2))
  then show ?thesis
    using ok2 unfolding Service_ModifySubscription_def Some Let_def option.case s1_def [symmetric] s2_def [symmetric]
      s3_def [symmetric] by simp
qed (simp add: Service_ModifySubscription_def s)

section \<open>Serving late subscriptions\<close>

lemma same_requests_detach_empty:
  assumes "ses_responseQueue (the_ses s a) = []" "srv_sessions s a \<noteq> None"
  shows "ses_responseQueue (the_ses (UA_Session_detachSubscription b p r s) a) = []"
proof -
  have "ses_responseQueue (the_ses (fold (release_response b) pres t) c) = ses_responseQueue (the_ses t c)" for pres t c
    by (induction pres arbitrary: t)
      (simp_all add: release_response_def sendResponse_def sendServiceFault_def the_ses_def)
  then show ?thesis
    using assms by (cases "a = b") (simp_all add: UA_Session_detachSubscription_def Let_def)
qed

lemma delete_requests_empty:
  assumes q: "ses_responseQueue (the_ses s a) = []" and a: "srv_sessions s a \<noteq> None"
  shows "ses_responseQueue (the_ses (UA_Subscription_delete p s) a) = []"
proof -
  define s1 where "s1 = Subscription_unregisterPublishCallback p s"
  define s2 where "s2 = (if sub_session (the_sub s1 p) \<noteq> 0
    then UA_Session_detachSubscription (sub_session (the_sub s1 p)) p True s1 else s1)"
  define s3 where "s3 = (if p \<in> set (srv_subscriptions s2)
    then s2\<lparr>srv_subscriptions := remove1 p (srv_subscriptions s2), srv_subscriptionsSize := srv_subscriptionsSize s2 - 1,
      srv_currentSubscriptionCount := srv_currentSubscriptionCount s2 - 1\<rparr> else s2)"
  define s4 where "s4 = fold UA_MonitoredItem_delete (sub_monitoredItems (the_sub s3 p)) s3"
  have d: "UA_Subscription_delete p s = delayed_free p (mod_sub p (\<lambda>u. u\<lparr>sub_retransmissionQueueSize :=
      sub_retransmissionQueueSize u - length (sub_retransmissionQueue u), sub_retransmissionQueue := []\<rparr>) s4)"
    by (simp add: UA_Subscription_delete_def Let_def s1_def s2_def s3_def s4_def)
  have s1: "same_tables s s1" unfolding s1_def by (intro same_tables_unregisterPublish same_tables_refl)
  then have "ses_responseQueue (the_ses s2 a) = []"
    using q a same_tables_the_ses [OF s1] same_tables_ses [OF s1] by (simp add: s2_def same_requests_detach_empty)
  moreover have "same_tables s2 s3" by (simp add: same_intros s3_def)
  then have "same_tables s2 s4" unfolding s4_def by (rule same_tables_fold [rotated]) (rule same_tables_mon_delete)
  ultimately show ?thesis by (simp add: d delayed_free_def same_tables_ses the_ses_def)
qed

lemma publishOnce_serving:
  assumes s: "sessions_ok s" and l: "srv_subs s l = Some u" "sub_session u = a" and a: "srv_sessions s a = Some x"
    and q: "ses_responseQueue x = [e]" and t: "t = snd (UA_Subscription_publishOnce l s)"
  shows "tables_step s t" "sub_session (the_sub t l) = 0 \<or> sub_session (the_sub t l) = a"
    "ses_responseQueue (the_ses t a) = [] \<or>
     ses_responseQueue (the_ses t a) = [e] \<and> ses_subscriptions (the_ses t a) = ses_subscriptions x"
proof -
  show ts: "tables_step s t" using tables_step_publishOnce [OF s] l(1) t by simp
  have a0: "a \<noteq> 0" by (rule ses_entryD(1) [OF s a])
  define s1 where "s1 = mod_ses a (\<lambda>x. x\<lparr>ses_responseQueueSize := ses_responseQueueSize x - 1, ses_responseQueue := []\<rparr>) s"
  have d: "dequeued l s = (Some e, s1)"
    using l a q a0 by (simp add: dequeued_def UA_Session_dequeuePublishReq_def the_sub_def the_ses_def s1_def)
  have x1: "the_ses s1 a = x\<lparr>ses_responseQueueSize := ses_responseQueueSize x - 1, ses_responseQueue := []\<rparr>"
    "srv_sessions s1 a \<noteq> None" "srv_subs s1 = srv_subs s"
    using a by (simp_all add: s1_def the_ses_def mod_ses_def)
  note ok1 = tables_stepD(1) [OF tables_step_dequeued [OF d s]]
  from publishOnce_outcome [OF d]
  have "(sub_session (the_sub t l) = 0 \<or> sub_session (the_sub t l) = a) \<and>
    (ses_responseQueue (the_ses t a) = [] \<or>
     ses_responseQueue (the_ses t a) = [e] \<and> ses_subscriptions (the_ses t a) = ses_subscriptions x)"
  proof cases
    case (expire t')
    obtain t'' where t'': "same_tables t' t''" "sendStatusChangeDelete l (Some e) t' = UA_Subscription_delete l t''"
      by (rule sendStatusChangeDelete_is_delete)
    have st: "same_tables s1 t''" by (rule same_tables_trans [OF expire(2) t''(1)])
    have "ses_responseQueue (the_ses t a) = []"
      using delete_requests_empty [of t'' a l] x1 same_tables_ses [OF st] same_tables_the_ses [OF st] t t''(2) expire(1)
      by simp
    moreover have "srv_subs t'' l \<noteq> None" using l(1) x1(3) by (simp add: same_tables_live [OF st])
    from ok_delete(4) [OF same_tables_ok [OF st ok1] this] have "sub_session (the_sub t l) = 0"
      using t t''(2) expire(1) by (auto simp: the_sub_def)
    ultimately show ?thesis by blast
  next
    case (wait t')
    have sl: "sub_session (the_sub t' l) = a"
      using same_tables_sub(1) [OF wait(2), of l] l x1(3) by (simp add: the_sub_def)
    have "the_ses t' a = the_ses s1 a" "srv_sessions t' a \<noteq> None"
      using same_tables_the_ses [OF wait(2)] same_tables_ses [OF wait(2)] x1(2) by simp_all
    then show ?thesis using wait(1) t sl x1(1)
      by (simp add: requeue_def UA_Session_queuePublishReq_def)
  next
    case (send t' dat)
    have t': "tables_step s t'" by (rule tables_step_same [OF tables_step_dequeued [OF d s] send(2)])
    obtain w where w: "srv_subs t' l = Some w" using l(1) tables_stepD(3) [OF t', of l] by fastforce
    have sr: "same_requests s1 t"
      using same_requests_trans [OF same_requests_tables [OF send(2)]]
        publish_step_send [OF tables_stepD(1) [OF t'] w] send(1) t by (simp add: publish_step_def)
    show ?thesis using same_requests_live(3) [OF sr x1(2)] same_requests_live(4) [OF sr, of l] x1 l
      by (simp add: the_sub_def)
  qed
  then show "sub_session (the_sub t l) = 0 \<or> sub_session (the_sub t l) = a"
    "ses_responseQueue (the_ses t a) = [] \<or>
     ses_responseQueue (the_ses t a) = [e] \<and> ses_subscriptions (the_ses t a) = ses_subscriptions x" by blast+
qed

text \<open>Another order of the subscriptions of a session.\<close>

lemma ok_permute:
  assumes s: "sessions_ok s" and a: "srv_sessions s a = Some x" and m: "mset qs = mset (ses_subscriptions x)"
  shows "tables_step s (mod_ses a (\<lambda>x. x\<lparr>ses_subscriptions := qs\<rparr>) s)"
proof -
  let ?x = "x\<lparr>ses_subscriptions := qs\<rparr>"
  note v = s [THEN sessions_okD(1)]
  have perm: "set qs = set (ses_subscriptions x)" "length qs = length (ses_subscriptions x)"
    "distinct qs = distinct (ses_subscriptions x)"
    using m by (metis mset_eq_setD, metis mset_eq_length, metis mset_eq_imp_distinct_iff)
  have total: "total_of V qs = total_of V (ses_subscriptions x)" for V
    using m unfolding total_of_def by (metis mset_map sum_mset_sum_list)
  have "view_ok (subs_view s) ((srv_sessions s)(a \<mapsto> ?x))"
  proof (unfold view_ok_def, intro conjI allI impI)
    fix q rq assume "subs_view s q = Some rq"
    from sub_entry_ok_upd [OF view_okD(1) [OF v this] a] perm(1)
    show "sub_entry_ok ((srv_sessions s)(a \<mapsto> ?x)) q rq" by simp
  next
    fix b y assume "((srv_sessions s)(a \<mapsto> ?x)) b = Some y"
    then show "ses_entry_ok (subs_view s) b y"
      using view_okD(2) [OF v, of b y] view_okD(2) [OF v a] perm total by (cases "b = a") (auto simp: ses_entry_ok_def)
  qed
  then show ?thesis using sessions_okD(2) [OF s]
    by (simp add: tables_step_def sessions_ok_def sessions_mod_ses [OF a] a)
qed

lemma in_front_behind: "x \<in> set xs \<Longrightarrow> xs = in_front x xs @ x # behind x xs"
  by (induction xs) (auto simp: in_front_def behind_def)

lemma mset_insert_by_priority: "mset (insert_by_priority f p qs) = add_mset p (mset qs)"
  by (induction qs) auto

lemma tables_step_rotate:
  assumes s: "sessions_ok s" and l: "srv_subs s l = Some u" "sub_session u = 0 \<or> sub_session u = a"
    and a: "srv_sessions s a = Some x"
  shows "tables_step s (rotate_late a l s)"
    "mset (ses_subscriptions (the_ses (rotate_late a l s) a)) = mset (ses_subscriptions x)"
    "ses_responseQueue (the_ses (rotate_late a l s) a) = ses_responseQueue x"
proof -
  let ?qs = "in_front l (ses_subscriptions x) @ insert_by_priority (priority_of s) l (behind l (ses_subscriptions x))"
  have *: "rotate_late a l s = (if sub_session u = 0 then s else mod_ses a (\<lambda>x. x\<lparr>ses_subscriptions := ?qs\<rparr>) s)"
    using l a by (auto simp: rotate_late_def the_sub_def mod_ses_def upd_at_def)
  have m: "mset ?qs = mset (ses_subscriptions x)" if "sub_session u \<noteq> 0"
  proof -
    have "l \<in> set (ses_subscriptions x)" using sub_entryD(4) [OF s l(1) that] l(2) a that by auto
    from arg_cong [OF in_front_behind [OF this], of mset] show ?thesis by (simp add: mset_insert_by_priority)
  qed
  show "tables_step s (rotate_late a l s)"
    using ok_permute [OF s a m] tables_step_refl [OF s] by (simp add: *)
  show "mset (ses_subscriptions (the_ses (rotate_late a l s) a)) = mset (ses_subscriptions x)"
    using m a by (auto simp: * the_ses_def mod_ses_def)
  show "ses_responseQueue (the_ses (rotate_late a l s) a) = ses_responseQueue x"
    using a by (auto simp: * the_ses_def mod_ses_def)
qed

text \<open>The states between the rounds: the new request is the only one.\<close>

definition serving :: "ptr \<Rightarrow> ptr option \<Rightarrow> UA_Server \<Rightarrow> bool" where
  "serving a late s =
     (sessions_ok s \<and> (\<exists>x. srv_sessions s a = Some x \<and> length (ses_responseQueue x) = 1 \<and>
        (\<forall>l. late = Some l \<longrightarrow> l \<in> set (ses_subscriptions x))))"

lemma tailq_next_in: "tailq_next l xs = Some q \<Longrightarrow> q \<in> set xs"
  by (induction xs) (auto simp: tailq_next_def behind_def first_def split: if_splits list.splits)

lemma serving_next: "serving a late s \<Longrightarrow> serving a (tailq_next l (ses_subscriptions (the_ses s a))) s"
proof -
  assume "serving a late s"
  moreover have "q \<in> set xs" if "tailq_next l xs = Some q" for q xs
    using that by (rule tailq_next_in)
  ultimately show ?thesis by (auto simp: serving_def the_ses_def)
qed

lemma serving_round:
  assumes v: "serving a (Some l) s"
  defines "t \<equiv> rotate_late a l (snd (UA_Subscription_publishOnce l s))"
  shows "tables_step s t"
    "ses_responseQueueSize (the_ses t a) \<noteq> 0 \<Longrightarrow> serving a (tailq_next l (ses_subscriptions (the_ses s a))) t"
proof -
  obtain x e where x: "sessions_ok s" "srv_sessions s a = Some x" "ses_responseQueue x = [e]" "l \<in> set (ses_subscriptions x)"
    using v by (auto simp: serving_def length_Suc_conv)
  obtain u where u: "srv_subs s l = Some u" "sub_session u = a" using ses_entryD(6) [OF x(1,2,4)] by blast
  let ?p = "snd (UA_Subscription_publishOnce l s)"
  note o = publishOnce_serving [OF x(1) u x(2,3) refl]
  obtain w where w: "srv_subs ?p l = Some w" using u(1) tables_stepD(3) [OF o(1), of l] by fastforce
  obtain y where y: "srv_sessions ?p a = Some y" using x(2) tables_stepD(2) [OF o(1), of a] by fastforce
  have "sub_session w = 0 \<or> sub_session w = a" using o(2) w by (simp add: the_sub_def)
  note r = tables_step_rotate [OF tables_stepD(1) [OF o(1)] w this y, folded t_def]
  show st: "tables_step s t" by (rule tables_step_trans [OF o(1) r(1)])
  obtain z where z: "srv_sessions t a = Some z" using x(2) tables_stepD(2) [OF st, of a] by fastforce
  show "serving a (tailq_next l (ses_subscriptions (the_ses s a))) t" if n: "ses_responseQueueSize (the_ses t a) \<noteq> 0"
  proof -
    have "ses_responseQueue z \<noteq> []" using n ses_entryD(4) [OF tables_stepD(1) [OF st] z] z by (simp add: the_ses_def)
    then have "ses_responseQueue z = [e]" "ses_subscriptions y = ses_subscriptions x"
      using o(3) r(3) y z by (auto simp: the_ses_def)
    moreover have "set (ses_subscriptions z) = set (ses_subscriptions x)"
      using mset_eq_setD [OF r(2)] z \<open>ses_subscriptions y = ses_subscriptions x\<close> by (simp add: the_ses_def)
    ultimately show ?thesis
      using serving_next [OF v, of l] x(2) z tables_stepD(1) [OF st] by (simp add: serving_def the_ses_def)
  qed
qed

lemma serve_late_step:
  assumes "serve_late a late s = Some t" "serving a late s"
  shows "tables_step s t"
proof -
  have "serving a late s \<longrightarrow> tables_step s t"
  proof (rule serve_late.raw_induct [OF _ assms(1), where P = "\<lambda>a late s t. serving a late s \<longrightarrow> tables_step s t"], intro impI)
    fix rec a late s t
    assume IH: "\<And>a late s t. rec a late s = Some t \<Longrightarrow> serving a late s \<longrightarrow> tables_step s t"
      and res: "(case late of None \<Rightarrow> Some s
       | Some l \<Rightarrow>
          let late_tmp = tailq_next l (ses_subscriptions (the_ses s a))
          in if sub_state (the_sub s l) \<noteq> UA_SUBSCRIPTIONSTATE_LATE then rec a late_tmp s
             else let s = rotate_late a l (snd (UA_Subscription_publishOnce l s))
                  in if ses_responseQueueSize (the_ses s a) = 0 then Some s
                     else rec a late_tmp s) = Some t"
      and v: "serving a late s"
    show "tables_step s t"
    proof (cases late)
      case None
      then show ?thesis using res v tables_step_refl by (simp add: serving_def)
    next
      case (Some l)
      note round = serving_round [OF v [unfolded Some]]
      show ?thesis
        using res [unfolded Some] IH serving_next [OF v, of l] round tables_step_trans [OF round(1)]
        by (auto simp: Let_def split: if_splits)
    qed
  qed
  then show ?thesis using assms(2) by simp
qed

lemma tables_step_reachedLimit:
  assumes "sessions_ok s"
  shows "tables_step s (snd (UA_Session_reachedPublishReqLimit a s))"
proof -
  obtain pre s1 where d: "UA_Session_dequeuePublishReq a s = (pre, s1)" by fastforce
  note t = tables_step_dequeue [OF d assms]
  show ?thesis
    by (rule tables_step_same [OF t])
      (auto simp: UA_Session_reachedPublishReqLimit_def d Let_def split: option.splits intro!: same_tables_sendResponse)
qed

text \<open>The publish request up to the search for late subscriptions: a fault, or the state with the new request.\<close>

definition accept_publish ::
  "ptr \<Rightarrow> u32 \<Rightarrow> (u32 \<times> u32) list \<Rightarrow> u32 \<Rightarrow> UA_Server \<Rightarrow> (status \<times> UA_Server) + UA_Server" where
  "accept_publish ses requestHandle acks requestId s =
     (let fault = (\<lambda>res s. Inl (res, sendServiceFault (ses_channel (the_ses s ses)) requestId requestHandle res s));
          limit = unat (cfg_maxPublishReqPerSession (srv_config s))
      in if ses_subscriptions (the_ses s ses) = [] then fault UA_STATUSCODE_BADNOSUBSCRIPTION s
         else let (ok, s) = (if limit \<noteq> 0 \<and> ses_responseQueueSize (the_ses s ses) \<ge> limit
                             then UA_Session_reachedPublishReqLimit ses s else (True, s))
              in if \<not> ok then fault UA_STATUSCODE_BADINTERNALERROR s
                 else let (entry, s) = malloc s
                      in if entry = 0 then fault UA_STATUSCODE_BADOUTOFMEMORY s
                         else let (results, s) = (if acks \<noteq> [] then malloc s else (1, s))
                              in if results = 0 then fault UA_STATUSCODE_BADOUTOFMEMORY s
                                 else let (rs, s) = run_operations (acknowledge ses) acks s
                                      in Inr (UA_Session_queuePublishReq ses
                                           \<lparr>pre_requestId = requestId,
                                            pre_response = (blank_response requestHandle)\<lparr>res_results := rs\<rparr>\<rparr> False s))"

lemma Service_Publish_accept:
  "Service_Publish a h acks i s =
     (case accept_publish a h acks i s of
        Inl r \<Rightarrow> Some r
      | Inr s \<Rightarrow> if ses_responseQueueSize (the_ses s a) > 1 then Some (GOOD, s)
                else map_option (\<lambda>s. (GOOD, s)) (serve_late a (first (ses_subscriptions (the_ses s a))) s))"
  unfolding Service_Publish_def accept_publish_def Let_def
  by (auto split: prod.splits)

lemma accept_publish_ok:
  assumes s: "sessions_ok s" and a: "srv_sessions s a \<noteq> None"
  shows "accept_publish a h acks i s = Inl r \<Longrightarrow> tables_step s (snd r)"
    "accept_publish a h acks i s = Inr t \<Longrightarrow> tables_step s t"
    "accept_publish a h acks i s = Inr t \<Longrightarrow> \<exists>x. srv_sessions t a = Some x \<and> ses_responseQueue x \<noteq> []"
proof -
  let ?limit = "unat (cfg_maxPublishReqPerSession (srv_config s))"
  obtain ok s1 where 1: "(if ?limit \<noteq> 0 \<and> ses_responseQueueSize (the_ses s a) \<ge> ?limit
      then UA_Session_reachedPublishReqLimit a s else (True, s)) = (ok, s1)" by fastforce
  obtain entry s2 where 2: "malloc s1 = (entry, s2)" by fastforce
  obtain results s3 where 3: "(if acks \<noteq> [] then malloc s2 else (1, s2)) = (results, s3)" by fastforce
  obtain rs s4 where 4: "run_operations (acknowledge a) acks s3 = (rs, s4)" by fastforce
  have t1: "tables_step s s1"
    using 1 tables_step_reachedLimit [OF s, of a] tables_step_refl [OF s] by (auto split: if_splits)
  have t2: "tables_step s s2"
    by (rule tables_step_trans [OF t1 tables_step_malloc [OF 2 tables_stepD(1) [OF t1]]])
  have t3: "tables_step s s3"
    using 3 t2 tables_step_trans [OF t2 tables_step_malloc [OF _ tables_stepD(1) [OF t2]]] by (auto split: if_splits)
  have a3: "srv_sessions s3 a \<noteq> None" using a by (simp add: tables_stepD(2) [OF t3])
  have t4: "tables_step s s4"
    using tables_step_trans [OF t3 tables_step_ops [where f = "acknowledge a" and xs = acks,
          OF tables_step_acknowledge tables_stepD(1) [OF t3] a3]] 4 by simp
  have a4: "srv_sessions s4 a \<noteq> None" using a by (simp add: tables_stepD(2) [OF t4])
  have fault: "tables_step s (sendServiceFault c i h res t)" if "tables_step s t" for c res t
    by (rule tables_step_same [OF that]) (simp add: sendServiceFault_def same_intros)
  note acc = accept_publish_def [of a h acks i s, unfolded Let_def 1 2 3 4 prod.case]
  show "accept_publish a h acks i s = Inl r \<Longrightarrow> tables_step s (snd r)"
    unfolding acc using fault s tables_step_refl [OF s] t1 t2 t3 by (auto split: if_splits)
  show "accept_publish a h acks i s = Inr t \<Longrightarrow> tables_step s t"
    unfolding acc using tables_step_trans [OF t4 tables_step_queue [OF tables_stepD(1) [OF t4]]]
    by (auto split: if_splits)
  show "accept_publish a h acks i s = Inr t \<Longrightarrow> \<exists>x. srv_sessions t a = Some x \<and> ses_responseQueue x \<noteq> []"
    unfolding acc using a4 by (auto simp: UA_Session_queuePublishReq_def mod_ses_def split: if_splits)
qed

lemma accepted_serving:
  assumes s: "sessions_ok s" "srv_sessions s a \<noteq> None" and t: "accept_publish a h acks i s = Inr t"
    and one: "\<not> ses_responseQueueSize (the_ses t a) > 1"
  shows "serving a (first (ses_subscriptions (the_ses t a))) t"
proof -
  obtain x where x: "srv_sessions t a = Some x" "ses_responseQueue x \<noteq> []" using accept_publish_ok(3) [OF s t] by blast
  have ok: "sessions_ok t" using accept_publish_ok(2) [OF s t] tables_stepD(1) by blast
  have "length (ses_responseQueue x) = 1"
    using one x ses_entryD(4) [OF ok x(1)] by (cases "ses_responseQueue x") (auto simp: the_ses_def)
  moreover have "first xs = Some l \<Longrightarrow> l \<in> set xs" for xs :: "ptr list" and l by (cases xs) auto
  ultimately show ?thesis using x ok by (simp add: serving_def the_ses_def)
qed

lemma tables_step_Publish:
  assumes s: "sessions_ok s" "srv_sessions s a \<noteq> None" and r: "Service_Publish a h acks i s = Some (r, t)"
  shows "tables_step s t"
proof (cases "accept_publish a h acks i s")
  case (Inl b)
  then show ?thesis using r accept_publish_ok(1) [OF s Inl] by (simp add: Service_Publish_accept)
next
  case (Inr t')
  note t' = accept_publish_ok(2) [OF s Inr]
  show ?thesis
  proof (cases "ses_responseQueueSize (the_ses t' a) > 1")
    case True
    then show ?thesis using r t' by (simp add: Service_Publish_accept Inr)
  next
    case False
    then have "serve_late a (first (ses_subscriptions (the_ses t' a))) t' = Some t"
      using r by (simp add: Service_Publish_accept Inr)
    from serve_late_step [OF this accepted_serving [OF s Inr False]] show ?thesis by (rule tables_step_trans [OF t'])
  qed
qed

end
