(* ===== verification/Sub_Transfer.thy ===== *)
theory Sub_Transfer
  imports Sub_Steps
begin

text \<open>
  The transfer of a subscription to another session keeps the tables consistent, although the copied
  structure names its old session until it is attached to the new one.
\<close>

lemma moved_views:
  assumes p: "srv_subs s p = Some u" and n: "srv_subs s n = Some v" and np: "n \<noteq> p"
  shows "subs_view (move_subscription p n s) =
      (subs_view s)(n \<mapsto> (retrans_of v)\<lparr>rt_queue := sub_retransmissionQueue u\<rparr>,
        p \<mapsto> (retrans_of u)\<lparr>rt_queue := [], rt_size := 0\<rparr>)"
    "srv_sessions (move_subscription p n s) = (if sub_session u = 0 then srv_sessions s
      else upd_at (sub_session u) (\<lambda>x. x\<lparr>ses_totalRetransmissionQueueSize :=
        ses_totalRetransmissionQueueSize x - length (sub_retransmissionQueue u)\<rparr>) (srv_sessions s))"
    "srv_subscriptions (move_subscription p n s) = srv_subscriptions s"
proof -
  have f: "srv_subs (fold (\<lambda>m. mod_mon m (\<lambda>i. i\<lparr>mon_subscription := n\<rparr>)) ms t) = srv_subs t"
    "srv_sessions (fold (\<lambda>m. mod_mon m (\<lambda>i. i\<lparr>mon_subscription := n\<rparr>)) ms t) = srv_sessions t"
    "srv_subscriptions (fold (\<lambda>m. mod_mon m (\<lambda>i. i\<lparr>mon_subscription := n\<rparr>)) ms t) = srv_subscriptions t" for ms t
    by (induction ms arbitrary: t) simp_all
  have u: "the_sub s p = u" using p by (simp add: the_sub_def)
  show "subs_view (move_subscription p n s) =
      (subs_view s)(n \<mapsto> (retrans_of v)\<lparr>rt_queue := sub_retransmissionQueue u\<rparr>,
        p \<mapsto> (retrans_of u)\<lparr>rt_queue := [], rt_size := 0\<rparr>)"
    using p n np by (auto simp: move_subscription_def Let_def u f subs_view_def mod_sub_def mod_ses_def upd_at_def
        retrans_of_def fun_eq_iff)
  show "srv_sessions (move_subscription p n s) = (if sub_session u = 0 then srv_sessions s
      else upd_at (sub_session u) (\<lambda>x. x\<lparr>ses_totalRetransmissionQueueSize :=
        ses_totalRetransmissionQueueSize x - length (sub_retransmissionQueue u)\<rparr>) (srv_sessions s))"
    by (simp add: move_subscription_def Let_def u f mod_ses_def mod_sub_def)
  show "srv_subscriptions (move_subscription p n s) = srv_subscriptions s"
    by (simp add: move_subscription_def Let_def u f)
qed

lemma attach_views:
  assumes p: "srv_subs s p = Some u" and a: "srv_sessions s a = Some x"
  defines "t \<equiv> UA_Session_attachSubscription a p s"
  obtains f where "subs_view t = (subs_view s)(p \<mapsto> (retrans_of u)\<lparr>rt_session := a\<rparr>)"
    "srv_sessions t = (srv_sessions s)(a \<mapsto> x\<lparr>ses_subscriptionsSize := ses_subscriptionsSize x + 1,
       ses_subscriptions := insert_by_priority f p (ses_subscriptions x),
       ses_totalRetransmissionQueueSize := ses_totalRetransmissionQueueSize x + sub_retransmissionQueueSize u\<rparr>)"
    "srv_subscriptions t = srv_subscriptions s"
proof -
  let ?t = "mod_sub p (\<lambda>u. u\<lparr>sub_session := a\<rparr>) s"
  have t: "srv_sessions ?t a = Some x" "sub_retransmissionQueueSize (the_sub ?t p) = sub_retransmissionQueueSize u"
    using a p by (simp_all add: the_sub_def mod_sub_def upd_at_def)
  show thesis
    by (rule that [of "priority_of ?t"])
      (simp_all add: t_def UA_Session_attachSubscription_def Let_def subs_view_mod_sub [OF p] sessions_mod_ses [OF t(1)] t(2)
        retrans_of_def)
qed

text \<open>
  The views around the move: \<open>p\<close> gives its queue away, and the new subscription \<open>n\<close> enters the session \<open>a\<close>
  with that queue.
\<close>

lemma view_move:
  assumes v: "view_ok V S" and p: "V p = Some r" and n: "V n = None" and a: "S1 a = Some x"
    and S1: "S1 = (if rt_session r = 0 then S else S(rt_session r \<mapsto>
      the (S (rt_session r))\<lparr>ses_totalRetransmissionQueueSize :=
        ses_totalRetransmissionQueueSize (the (S (rt_session r))) - length (rt_queue r)\<rparr>))"
  shows "view_ok (V(p \<mapsto> r\<lparr>rt_queue := [], rt_size := 0\<rparr>, n \<mapsto> r\<lparr>rt_session := a\<rparr>))
    (S1(a \<mapsto> x\<lparr>ses_subscriptionsSize := ses_subscriptionsSize x + 1,
       ses_subscriptions := insert_by_priority f n (ses_subscriptions x),
       ses_totalRetransmissionQueueSize := ses_totalRetransmissionQueueSize x + rt_size r\<rparr>))"
proof -
  have e: "rt_size r = length (rt_queue r)" "length (rt_queue r) \<le> UA_MAX_RETRANSMISSIONQUEUESIZE" "0 < rt_next r"
    using view_okD(1) [OF v p] by (simp_all add: sub_entry_ok_def)
  let ?V1 = "V(p \<mapsto> r\<lparr>rt_queue := [], rt_size := 0\<rparr>)"
  let ?r = "r\<lparr>rt_session := 0\<rparr>"
  let ?V2 = "?V1(n \<mapsto> ?r)"
  have v1: "view_ok ?V1 S1"
  proof (cases "rt_session r = 0")
    case True
    then show ?thesis using view_queue [OF v p, of "r\<lparr>rt_queue := [], rt_size := 0\<rparr>" S] e S1 by simp
  next
    case False
    then obtain y where y: "S (rt_session r) = Some y" "p \<in> set (ses_subscriptions y)"
      using view_okD(1) [OF v p] by (auto simp: sub_entry_ok_def)
    have "length (rt_queue r) \<in> set (map (\<lambda>p. length (rt_queue (the (V p)))) (ses_subscriptions y))"
      using y(2) p by force
    from member_le_sum_list [OF this] have "length (rt_queue r) \<le> ses_totalRetransmissionQueueSize y"
      using view_okD(2) [OF v y(1)] by (simp add: ses_entry_ok_def total_of_def)
    then show ?thesis using view_queue [OF v p, of "r\<lparr>rt_queue := [], rt_size := 0\<rparr>" S1 _ y
        "ses_totalRetransmissionQueueSize y - length (rt_queue r)"] e False y S1 by simp
  qed
  have np: "n \<noteq> p" using p n by auto
  have v2: "view_ok ?V2 S1" by (rule view_new [OF v1]) (use e n np in simp_all)
  have "view_ok (?V2(n \<mapsto> ?r\<lparr>rt_session := a\<rparr>)) (S1(a \<mapsto> x\<lparr>ses_subscriptionsSize := ses_subscriptionsSize x + 1,
       ses_subscriptions := insert_by_priority f n (ses_subscriptions x),
       ses_totalRetransmissionQueueSize := ses_totalRetransmissionQueueSize x + rt_size r\<rparr>))"
    by (rule view_attach [OF v2 _ _ a])
      (use e view_okD(2) [OF v2 a] in \<open>simp_all add: insert_by_priority_facts ses_entry_ok_def\<close>)
  then show ?thesis by simp
qed

lemma same_tables_transferredNumbers:
  "setTransferredSequenceNumbers p t = (r, t') \<Longrightarrow> same_tables s t \<Longrightarrow> same_tables s t'"
  unfolding setTransferredSequenceNumbers_def Let_def
  by (auto split: prod.splits if_splits intro: same_tables_malloc)

lemma malloc_subs: "malloc s = (p, t) \<Longrightarrow> srv_subs t = srv_subs s"
  by (auto simp: malloc_def split: list.splits)

lemma transferredNumbers_subs: "setTransferredSequenceNumbers p t = (r, t') \<Longrightarrow> srv_subs t' = srv_subs t"
  by (auto simp: setTransferredSequenceNumbers_def Let_def split: prod.splits if_splits dest: malloc_subs)

text \<open>The state in which the transferred subscription is attached, with the old one about to be deleted.\<close>

definition moved_state :: "ptr \<Rightarrow> ptr \<Rightarrow> ptr \<Rightarrow> UA_Server \<Rightarrow> UA_Server" where
  "moved_state a p n s =
     (let s = move_subscription p n s;
          s = s\<lparr>srv_subscriptions := n # srv_subscriptions s, srv_subscriptionsSize := srv_subscriptionsSize s + 1\<rparr>;
          s = UA_Session_attachSubscription a n s
      in mod_sub p (\<lambda>u. u\<lparr>sub_statusChange := UA_STATUSCODE_GOODSUBSCRIPTIONTRANSFERRED\<rparr>) s)"

lemma ok_moved_state:
  assumes s: "sessions_ok s" and p: "srv_subs s p = Some u" and n: "srv_subs s n = None" and a: "srv_sessions s a \<noteq> None"
    and s3: "s3 = s\<lparr>srv_subs := (srv_subs s)(n \<mapsto> u)\<rparr>" and s4: "same_tables s3 s4"
  shows "sessions_ok (moved_state a p n s4)"
    "(srv_sessions (moved_state a p n s4) c = None) = (srv_sessions s c = None)"
    "(srv_subs (moved_state a p n s4) q = None) = (srv_subs s q = None \<and> q \<noteq> n)"
proof -
  have np: "n \<noteq> p" using p n by auto
  have V3: "subs_view s3 = (subs_view s)(n \<mapsto> retrans_of u)" "srv_sessions s3 = srv_sessions s"
    by (auto simp: s3 subs_view_def fun_eq_iff)
  have V4: "subs_view s4 = (subs_view s)(n \<mapsto> retrans_of u)" "srv_sessions s4 = srv_sessions s"
    "set (srv_subscriptions s4) \<subseteq> set (srv_subscriptions s)"
    using s4 V3 by (simp_all add: same_tables_def s3)
  obtain v where v: "srv_subs s4 n = Some v" using same_tables_live [OF s4, of n] by (fastforce simp: s3)
  obtain w where w: "srv_subs s4 p = Some w" using same_tables_live [OF s4, of p] p np by (fastforce simp: s3)
  have "subs_view s4 n = Some (retrans_of u)" "subs_view s4 p = Some (retrans_of u)"
    using V4(1) np subs_view_Some [OF p] by simp_all
  then have r: "retrans_of v = retrans_of u" "retrans_of w = retrans_of u"
    using subs_view_Some [OF v] subs_view_Some [OF w] by simp_all
  then have rw: "sub_session w = sub_session u" "sub_retransmissionQueue w = sub_retransmissionQueue u"
    by (simp_all add: retrans_of_def)
  define s5 where "s5 = move_subscription p n s4"
  note m = moved_views [OF w v np, folded s5_def]
  define s6 where "s6 = s5\<lparr>srv_subscriptions := n # srv_subscriptions s5, srv_subscriptionsSize := srv_subscriptionsSize s5 + 1\<rparr>"
  have q: "(retrans_of u)\<lparr>rt_queue := sub_retransmissionQueue w\<rparr> = retrans_of u" by (simp add: retrans_of_def rw)
  have "subs_view s6 = subs_view s5" by (simp add: s6_def subs_view_def [abs_def])
  then have V6: "subs_view s6 = (subs_view s)(n \<mapsto> retrans_of u, p \<mapsto> (retrans_of u)\<lparr>rt_queue := [], rt_size := 0\<rparr>)"
    unfolding m(1) r q V4(1) by simp
  have ses: "srv_sessions s (sub_session u) \<noteq> None" if "sub_session u \<noteq> 0" using sub_entryD(4) [OF s p that] by blast
  have rs: "rt_session (retrans_of u) = sub_session u" by (simp add: retrans_of_def)
  have S6: "srv_sessions s6 = (if rt_session (retrans_of u) = 0 then srv_sessions s
      else (srv_sessions s)(rt_session (retrans_of u) \<mapsto> the (srv_sessions s (rt_session (retrans_of u)))
        \<lparr>ses_totalRetransmissionQueueSize := ses_totalRetransmissionQueueSize
          (the (srv_sessions s (rt_session (retrans_of u)))) - length (rt_queue (retrans_of u))\<rparr>))"
    using m(2) V4(2) rw ses by (auto simp: s6_def retrans_of_def upd_at_def)
  obtain x where x: "srv_sessions s6 a = Some x" using a S6 by (cases "srv_sessions s6 a") (auto split: if_splits)
  obtain n6 where n6: "srv_subs s6 n = Some n6" and n6r: "retrans_of n6 = retrans_of u"
    using V6 np by (cases "srv_subs s6 n") (auto simp: subs_view_def fun_eq_iff dest: spec [of _ n])
  obtain f where att: "subs_view (UA_Session_attachSubscription a n s6) =
        (subs_view s6)(n \<mapsto> (retrans_of n6)\<lparr>rt_session := a\<rparr>)"
      "srv_sessions (UA_Session_attachSubscription a n s6) = (srv_sessions s6)(a \<mapsto>
        x\<lparr>ses_subscriptionsSize := ses_subscriptionsSize x + 1,
          ses_subscriptions := insert_by_priority f n (ses_subscriptions x),
          ses_totalRetransmissionQueueSize := ses_totalRetransmissionQueueSize x + sub_retransmissionQueueSize n6\<rparr>)"
      "srv_subscriptions (UA_Session_attachSubscription a n s6) = srv_subscriptions s6"
    by (rule attach_views [OF n6 x])
  define s7 where "s7 = UA_Session_attachSubscription a n s6"
  have size: "sub_retransmissionQueueSize n6 = rt_size (retrans_of u)" using n6r by (simp add: retrans_of_def)
  have Vn: "subs_view s n = None" using n by (simp add: subs_view_def)
  have "view_ok (subs_view s7) (srv_sessions s7)"
    using view_move [OF s [THEN sessions_okD(1)] subs_view_Some [OF p] Vn x S6, of f] np
    unfolding s7_def att V6 n6r size by (simp add: fun_upd_twist)
  moreover have live: "(srv_subs s7 q = None) = (srv_subs s q = None \<and> q \<noteq> n)" for q
  proof -
    have "(srv_subs s7 q = None) = (subs_view s7 q = None)" by (simp add: subs_view_def)
    also have "\<dots> = (subs_view s q = None \<and> q \<noteq> n)" using subs_view_Some [OF p] by (simp add: s7_def att V6)
    finally show ?thesis by (simp add: subs_view_def)
  qed
  moreover have "set (srv_subscriptions s7) \<subseteq> insert n (set (srv_subscriptions s))"
    using V4(3) m(3) unfolding s7_def att by (auto simp: s6_def)
  ultimately have ok7: "sessions_ok s7"
    using sessions_okD(2) [OF s] unfolding sessions_ok_def list_ok_def by blast
  let ?s8 = "mod_sub p (\<lambda>u. u\<lparr>sub_statusChange := UA_STATUSCODE_GOODSUBSCRIPTIONTRANSFERRED\<rparr>) s7"
  have s8: "moved_state a p n s4 = ?s8"
    by (simp add: moved_state_def Let_def s7_def s6_def s5_def)
  have t8: "same_tables s7 ?s8" by (intro same_intros) simp
  show "sessions_ok (moved_state a p n s4)" unfolding s8 by (rule same_tables_ok [OF t8 ok7])
  show "(srv_subs (moved_state a p n s4) q = None) = (srv_subs s q = None \<and> q \<noteq> n)" unfolding s8 using live by simp
  show "(srv_sessions (moved_state a p n s4) c = None) = (srv_sessions s c = None)"
    unfolding s8 using a ses x S6 rs by (auto simp: s7_def att split: if_splits)
qed

lemma Transfer_ends:
  assumes s: "sessions_ok s" and a: "srv_sessions s a \<noteq> None" and fresh: "fresh_mallocs s"
  shows "\<exists>r t. Operation_TransferSubscription a b i s = Some (r, t) \<and> sessions_ok t"
proof (cases "UA_Server_getSubscriptionById i s")
  case None
  then show ?thesis using s by (simp add: Operation_TransferSubscription_def)
next
  case (Some p)
  then have "p \<in> set (srv_subscriptions s)" by (auto simp: UA_Server_getSubscriptionById_def find_Some_iff)
  then obtain u where u: "srv_subs s p = Some u" using sessions_okD(2) [OF s] by (auto simp: list_ok_def)
  obtain n s1 where 1: "malloc s = (n, s1)" by fastforce
  obtain res s2 where 2: "setTransferredSequenceNumbers p s1 = (res, s2)" by fastforce
  obtain res' s2' where own: "setTransferredSequenceNumbers p s = (res', s2')" by fastforce
  define s3 where "s3 = s2\<lparr>srv_subs := (srv_subs s2)(n \<mapsto> the_sub s2 p)\<rparr>"
  obtain rv s4 where 4: "Subscription_registerPublishCallback n s3 = (rv, s4)" by fastforce
  define s8 where "s8 = moved_state a p n s4"
  have t2: "same_tables s s2"
    by (rule same_tables_transferredNumbers [OF 2 same_tables_malloc [OF 1 same_tables_refl]])
  have t2': "same_tables s s2'" by (rule same_tables_transferredNumbers [OF own same_tables_refl])
  have subs2: "srv_subs s2 = srv_subs s" using transferredNumbers_subs [OF 2] malloc_subs [OF 1] by simp
  have u2: "the_sub s2 p = u" "srv_subs s2 p = Some u" using u subs2 by (simp_all add: the_sub_def)
  note ok2 = same_tables_ok [OF t2 s] and ok2' = same_tables_ok [OF t2' s] and ok1 = same_tables_ok [OF same_tables_malloc [OF 1 same_tables_refl] s]
  have t4: "same_tables s3 s4" by (rule same_tables_registerPublish [OF 4 same_tables_refl])
  have a2: "srv_sessions s2 a \<noteq> None" using same_tables_ses [OF t2] a by simp
  have fail: "sessions_ok (s4\<lparr>srv_subs := (srv_subs s4)(n := None)\<rparr>)" if n: "srv_subs s n = None"
  proof -
    have "subs_view (s4\<lparr>srv_subs := (srv_subs s4)(n := None)\<rparr>) = (subs_view s4)(n := None)"
      by (auto simp: subs_view_def fun_eq_iff)
    also have "\<dots> = (subs_view s3)(n := None)" using t4 by (simp add: same_tables_def)
    also have "\<dots> = subs_view s2" using n by (auto simp: s3_def subs_view_def fun_eq_iff subs2)
    finally have "same_tables s2 (s4\<lparr>srv_subs := (srv_subs s4)(n := None)\<rparr>)"
      using t4 by (simp add: same_tables_def s3_def)
    then show ?thesis by (rule same_tables_ok [OF _ ok2])
  qed
  have moved: "\<exists>t9 t. UA_Subscription_publish p s8 = Some t9 \<and>
      UA_Subscription_publish n (if b then fold send_initial_value (sub_monitoredItems (the_sub t9 n)) t9 else t9) = Some t \<and>
      sessions_ok t" if n: "srv_subs s n = None"
  proof -
    have n2: "srv_subs s2 n = None" using n subs2 by simp
    note m = ok_moved_state [OF ok2 u2(2) n2 a2 s3_def [unfolded u2(1)] t4, folded s8_def]
    have "srv_subs s8 p \<noteq> None" using m(3) u2(2) by simp
    from publish_ends [OF m(1) this] obtain t9 where t9: "UA_Subscription_publish p s8 = Some t9" "tables_step s8 t9" by blast
    let ?t = "if b then fold send_initial_value (sub_monitoredItems (the_sub t9 n)) t9 else t9"
    have "same_tables t9 ?t" by (auto intro: same_tables_fold same_tables_send_initial)
    then have st: "tables_step s8 ?t" by (rule tables_step_same [OF t9(2)])
    have "srv_subs ?t n \<noteq> None" using tables_stepD(3) [OF st, of n] m(3) by simp
    from publish_ends [OF tables_stepD(1) [OF st] this] show ?thesis using t9(1) tables_stepD(1) by blast
  qed
  have n: "n \<noteq> 0 \<Longrightarrow> srv_subs s n = None"
    using 1 fresh by (auto simp: malloc_def fresh_mallocs_def split: list.splits)
  let ?limit = "cfg_maxSubscriptionsPerSession (srv_config s)"
  have step: "Operation_TransferSubscription a b i s =
      (if sub_session (the_sub s p) = a then Some (res', s2')
       else if \<not> cfg_allowTransfer (srv_config s) (sub_session (the_sub s p)) a
       then Some ((UA_STATUSCODE_BADUSERACCESSDENIED, []), s)
       else if ?limit \<noteq> 0 \<and> ses_subscriptionsSize (the_ses s a) \<ge> unat ?limit
       then Some ((UA_STATUSCODE_BADTOOMANYSUBSCRIPTIONS, []), s)
       else if n = 0 then Some ((UA_STATUSCODE_BADOUTOFMEMORY, []), s1)
       else if fst res \<noteq> GOOD then Some (res, s2)
       else if rv \<noteq> GOOD then Some ((rv, []), s4\<lparr>srv_subs := (srv_subs s4)(n := None)\<rparr>)
       else case UA_Subscription_publish p s8 of None \<Rightarrow> None
         | Some t9 \<Rightarrow> map_option (\<lambda>s. (res, s)) (UA_Subscription_publish n
             (if b then fold send_initial_value (sub_monitoredItems (the_sub t9 n)) t9 else t9)))"
    unfolding Operation_TransferSubscription_def Some Let_def option.case 1 2 own prod.case s3_def [symmetric] 4
      s8_def moved_state_def by simp
  show ?thesis
    unfolding step using s ok1 ok2 ok2' fail moved n by (auto split: option.split)
qed

end
