(* ===== verification/Sub_Detect.thy ===== *)
theory Sub_Detect
  imports Sub_MonitoredItem
begin

text \<open>
  The detection of value changes, \<^verbatim>\<open>src/server/ua_subscription_datachange.c\<close>: the deadband of numeric
  values and \<^verbatim>\<open>detectValueChange\<close>, which decides for every sample whether it becomes a notification. A
  result \<open>None\<close> says that the C code has undefined behaviour: an access through a pointer that is not one
  to a value, or the overflow of a signed subtraction.

  \<open>rf\<close> and \<open>rd\<close> are the rounding of the arithmetic on floats and on doubles.
\<close>

section \<open>Arithmetic on doubles\<close>

fun ieee_sub :: "(rat \<Rightarrow> rat) \<Rightarrow> UA_Double \<Rightarrow> UA_Double \<Rightarrow> UA_Double" where
  "ieee_sub rnd (Finite x) (Finite y) = Finite (rnd (x - y))"
| "ieee_sub rnd (Finite x) PosInf = NegInf"
| "ieee_sub rnd (Finite x) NegInf = PosInf"
| "ieee_sub rnd PosInf (Finite y) = PosInf"
| "ieee_sub rnd PosInf NegInf = PosInf"
| "ieee_sub rnd NegInf (Finite y) = NegInf"
| "ieee_sub rnd NegInf PosInf = NegInf"
| "ieee_sub rnd _ _ = NaN"

text \<open>The conversion of an integer: exact up to 53 bits.\<close>

definition double_of_int :: "(rat \<Rightarrow> rat) \<Rightarrow> int \<Rightarrow> UA_Double" where
  "double_of_int rd n = Finite (if \<bar>n\<bar> \<le> 2 ^ 53 then of_int n else rd (of_int n))"

section \<open>The deadband of a number\<close>

text \<open>
  \<^verbatim>\<open>UA_DETECT_DEADBAND(TYPE)\<close>, as \<open>(UA_Double)diff > deadband\<close> for the difference in the type itself. Types
  that are narrower than \<^verbatim>\<open>int\<close> are promoted, so that the difference is cut down by the cast; the subtraction
  of the wider signed types may overflow.
\<close>

definition above :: "UA_Double \<Rightarrow> UA_Double \<Rightarrow> bool" where
  "above diff deadband = ieee_less deadband diff"

definition detect_narrow :: "(rat \<Rightarrow> rat) \<Rightarrow> 'a::len word \<Rightarrow> 'a word \<Rightarrow> UA_Double \<Rightarrow> bool option" where
  "detect_narrow rd v1 v2 deadband =
     (let diff = (if sint v1 > sint v2 then word_of_int (sint v1 - sint v2) else word_of_int (sint v2 - sint v1)) :: 'a word
      in Some (above (double_of_int rd (sint diff)) deadband))"

definition detect_wide :: "(rat \<Rightarrow> rat) \<Rightarrow> 'a::len word \<Rightarrow> 'a word \<Rightarrow> UA_Double \<Rightarrow> bool option" where
  "detect_wide rd v1 v2 deadband =
     (let diff = (if sint v1 > sint v2 then sint v1 - sint v2 else sint v2 - sint v1)
      in if diff \<ge> 2 ^ (LENGTH('a) - 1) then None
         else Some (above (double_of_int rd diff) deadband))"

definition detect_unsigned :: "(rat \<Rightarrow> rat) \<Rightarrow> 'a::len word \<Rightarrow> 'a word \<Rightarrow> UA_Double \<Rightarrow> bool option" where
  "detect_unsigned rd v1 v2 deadband =
     (let diff = (if v1 > v2 then v1 - v2 else v2 - v1)
      in Some (above (double_of_int rd (uint diff)) deadband))"

definition detect_ieee :: "(rat \<Rightarrow> rat) \<Rightarrow> UA_Double \<Rightarrow> UA_Double \<Rightarrow> UA_Double \<Rightarrow> bool option" where
  "detect_ieee rnd v1 v2 deadband =
     (let diff = (if ieee_less v2 v1 then ieee_sub rnd v1 v2 else ieee_sub rnd v2 v1)
      in Some (above diff deadband))"

definition detectScalarDeadBand ::
  "(rat \<Rightarrow> rat) \<Rightarrow> (rat \<Rightarrow> rat) \<Rightarrow> UA_DataTypeKind \<Rightarrow> UA_Double \<Rightarrow> ua_val \<Rightarrow> ua_val \<Rightarrow> bool option" where
  "detectScalarDeadBand rf rd k deadband d1 d2 =
     (case k of
        DK_SBYTE \<Rightarrow> (case (d1, d2) of (VU8 v1, VU8 v2) \<Rightarrow> detect_narrow rd v1 v2 deadband | _ \<Rightarrow> None)
      | DK_BYTE \<Rightarrow> (case (d1, d2) of (VU8 v1, VU8 v2) \<Rightarrow> detect_unsigned rd v1 v2 deadband | _ \<Rightarrow> None)
      | DK_INT16 \<Rightarrow> (case (d1, d2) of (VU16 v1, VU16 v2) \<Rightarrow> detect_narrow rd v1 v2 deadband | _ \<Rightarrow> None)
      | DK_UINT16 \<Rightarrow> (case (d1, d2) of (VU16 v1, VU16 v2) \<Rightarrow> detect_unsigned rd v1 v2 deadband | _ \<Rightarrow> None)
      | DK_INT32 \<Rightarrow> (case (d1, d2) of (VU32 v1, VU32 v2) \<Rightarrow> detect_wide rd v1 v2 deadband | _ \<Rightarrow> None)
      | DK_UINT32 \<Rightarrow> (case (d1, d2) of (VU32 v1, VU32 v2) \<Rightarrow> detect_unsigned rd v1 v2 deadband | _ \<Rightarrow> None)
      | DK_INT64 \<Rightarrow> (case (d1, d2) of (VU64 v1, VU64 v2) \<Rightarrow> detect_wide rd v1 v2 deadband | _ \<Rightarrow> None)
      | DK_UINT64 \<Rightarrow> (case (d1, d2) of (VU64 v1, VU64 v2) \<Rightarrow> detect_unsigned rd v1 v2 deadband | _ \<Rightarrow> None)
      | DK_FLOAT \<Rightarrow> (case (d1, d2) of (VU32 v1, VU32 v2) \<Rightarrow> detect_ieee rf (float_value v1) (float_value v2) deadband | _ \<Rightarrow> None)
      | DK_DOUBLE \<Rightarrow> (case (d1, d2) of (VU64 v1, VU64 v2) \<Rightarrow> detect_ieee rd (double_value v1) (double_value v2) deadband | _ \<Rightarrow> None)
      | _ \<Rightarrow> Some False)"

section \<open>The deadband of a variant\<close>

fun variant_length :: "ua_val \<Rightarrow> nat" where
  "variant_length (VVariantArray _ a _) = array_length a"
| "variant_length _ = 0"

text \<open>What the data pointer of a variant points to; nothing if it is NULL or the sentinel of an empty array.\<close>

fun variant_elements :: "ua_val \<Rightarrow> ua_val list" where
  "variant_elements (VVariantScalar _ v) = [v]"
| "variant_elements (VVariantArray _ a _) = array_elems a"
| "variant_elements _ = []"

fun deadband_loop :: "(ua_val \<Rightarrow> ua_val \<Rightarrow> bool option) \<Rightarrow> nat \<Rightarrow> ua_val list \<Rightarrow> ua_val list \<Rightarrow> bool option" where
  "deadband_loop f 0 _ _ = Some False"
| "deadband_loop f (Suc n) (x # xs) (y # ys) =
     (case f x y of None \<Rightarrow> None | Some detected \<Rightarrow> if detected then Some True else deadband_loop f n xs ys)"
| "deadband_loop f (Suc n) _ _ = None"

definition detectVariantDeadband ::
  "type_env \<Rightarrow> (rat \<Rightarrow> rat) \<Rightarrow> (rat \<Rightarrow> rat) \<Rightarrow> ua_val \<Rightarrow> ua_val \<Rightarrow> UA_Double \<Rightarrow> bool option" where
  "detectVariantDeadband env rf rd value oldValue deadbandValue =
     (if variant_length value \<noteq> variant_length oldValue then Some True
      else if variant_type value \<noteq> variant_type oldValue then Some True
      else let n = (if \<not> UA_Variant_isScalar value then variant_length value else 1)
           in deadband_loop (detectScalarDeadBand rf rd (kind_at env (the (variant_type value))) deadbandValue)
                n (variant_elements value) (variant_elements oldValue))"

section \<open>Value changes\<close>

text \<open>\<^verbatim>\<open>enum UA_DataChangeTrigger\<close> and \<^verbatim>\<open>enum UA_DeadbandType\<close>\<close>

definition UA_DATACHANGETRIGGER_STATUS :: u32 where "UA_DATACHANGETRIGGER_STATUS = 0"
definition UA_DATACHANGETRIGGER_STATUSVALUE :: u32 where "UA_DATACHANGETRIGGER_STATUSVALUE = 1"
definition UA_DATACHANGETRIGGER_STATUSVALUETIMESTAMP :: u32 where "UA_DATACHANGETRIGGER_STATUSVALUETIMESTAMP = 2"
definition UA_DEADBANDTYPE_NONE :: u32 where "UA_DEADBANDTYPE_NONE = 0"
definition UA_DEADBANDTYPE_ABSOLUTE :: u32 where "UA_DEADBANDTYPE_ABSOLUTE = 1"
definition UA_DEADBANDTYPE_PERCENT :: u32 where "UA_DEADBANDTYPE_PERCENT = 2"

definition UA_DataType_isNumeric :: "UA_DataTypeKind \<Rightarrow> bool" where
  "UA_DataType_isNumeric k =
     (k \<in> {DK_SBYTE, DK_BYTE, DK_INT16, DK_UINT16, DK_INT32, DK_UINT32, DK_INT64, DK_UINT64, DK_FLOAT, DK_DOUBLE})"

fun data_change_filter :: "UA_MonitoringFilter \<Rightarrow> UA_DataChangeFilter option" where
  "data_change_filter (DataChangeFilter f) = Some f"
| "data_change_filter _ = None"

definition is_numeric_variant :: "type_env \<Rightarrow> ua_val \<Rightarrow> bool" where
  "is_numeric_variant env v =
     (case variant_type v of None \<Rightarrow> False | Some t \<Rightarrow> UA_DataType_isNumeric (kind_at env t))"

definition detectValueChange ::
  "type_env \<Rightarrow> (rat \<Rightarrow> rat) \<Rightarrow> (rat \<Rightarrow> rat) \<Rightarrow> UA_MonitoredItem \<Rightarrow> UA_DataValue \<Rightarrow> bool option" where
  "detectValueChange env rf rd mon value =
     (let lastValue = mon_lastValue mon
      in if dv_hasStatus value \<noteq> dv_hasStatus lastValue \<or> dv_status value \<noteq> dv_status lastValue then Some True
         else let dcf = data_change_filter (mon_filter mon);
                  trigger = (case dcf of None \<Rightarrow> UA_DATACHANGETRIGGER_STATUSVALUE | Some f \<Rightarrow> dcf_trigger f)
              in if trigger = UA_DATACHANGETRIGGER_STATUS then Some False
                 else if dcf \<noteq> None \<and> dcf_deadbandType (the dcf) = UA_DEADBANDTYPE_ABSOLUTE \<and>
                         is_numeric_variant env (dv_value value)
                 then detectVariantDeadband env rf rd (dv_value value) (dv_value lastValue) (dcf_deadbandValue (the dcf))
                 else if trigger = UA_DATACHANGETRIGGER_STATUSVALUETIMESTAMP \<and>
                         (dv_hasSourceTimestamp value \<noteq> dv_hasSourceTimestamp lastValue \<or>
                          dv_hasSourceTimestamp value \<and> dv_sourceTimestamp value \<noteq> dv_sourceTimestamp lastValue)
                 then Some True
                 else if dv_hasValue value \<noteq> dv_hasValue lastValue then Some True
                 else map_option (\<lambda>r. r \<noteq> UA_ORDER_EQ) (UA_order env (dv_value value) (dv_value lastValue) UA_TYPES_VARIANT))"

text \<open>The decision as \<^verbatim>\<open>sampleCallbackWithValue\<close> takes it.\<close>

definition value_changed ::
  "type_env \<Rightarrow> (rat \<Rightarrow> rat) \<Rightarrow> (rat \<Rightarrow> rat) \<Rightarrow> UA_MonitoredItem \<Rightarrow> UA_DataValue \<Rightarrow> bool" where
  "value_changed env rf rd mon value = (detectValueChange env rf rd mon value = Some True)"

end
