(* ===== verification/Filter_Compare.thy ===== *)
theory Filter_Compare
  imports Sub_Detect
begin

text \<open>
  The comparison of two operands of a where clause, \<^verbatim>\<open>compareOperation\<close> of
  \<^verbatim>\<open>src/server/ua_subscription_events_filter.c\<close>, with the conversions before it, and the precedence of types
  of \<^verbatim>\<open>src/ua_types.c\<close>.

  The evaluation of a filter that a client sends can have undefined behaviour and can recurse without end.
  An outcome is a result, undefined behaviour, or a recursion deeper than the fuel.
\<close>

section \<open>Outcomes\<close>

datatype 'a outcome = Done 'a | Undefined | TooDeep

fun and_then :: "'a outcome \<Rightarrow> ('a \<Rightarrow> 'b outcome) \<Rightarrow> 'b outcome" where
  "and_then (Done x) f = f x"
| "and_then Undefined f = Undefined"
| "and_then TooDeep f = TooDeep"

definition required :: "'a option \<Rightarrow> 'a outcome" where
  "required x = (case x of None \<Rightarrow> Undefined | Some y \<Rightarrow> Done y)"

section \<open>Status codes and operators\<close>

definition UA_STATUSCODE_BADNODEIDINVALID :: status where
  [status_defs]: "UA_STATUSCODE_BADNODEIDINVALID = 0x80330000"

definition UA_STATUSCODE_BADFILTEROPERANDINVALID :: status where
  [status_defs]: "UA_STATUSCODE_BADFILTEROPERANDINVALID = 0x80490000"

definition UA_STATUSCODE_BADBROWSENAMEINVALID :: status where
  [status_defs]: "UA_STATUSCODE_BADBROWSENAMEINVALID = 0x80600000"

definition UA_STATUSCODE_BADTYPEDEFINITIONINVALID :: status where
  [status_defs]: "UA_STATUSCODE_BADTYPEDEFINITIONINVALID = 0x80630000"

definition UA_STATUSCODE_BADNOMATCH :: status where
  [status_defs]: "UA_STATUSCODE_BADNOMATCH = 0x806F0000"

definition UA_STATUSCODE_BADTYPEMISMATCH :: status where
  [status_defs]: "UA_STATUSCODE_BADTYPEMISMATCH = 0x80740000"

definition UA_STATUSCODE_BADFILTEROPERATORINVALID :: status where
  [status_defs]: "UA_STATUSCODE_BADFILTEROPERATORINVALID = 0x80C10000"

definition UA_STATUSCODE_BADFILTEROPERATORUNSUPPORTED :: status where
  [status_defs]: "UA_STATUSCODE_BADFILTEROPERATORUNSUPPORTED = 0x80C20000"

definition UA_STATUSCODE_BADFILTEROPERANDCOUNTMISMATCH :: status where
  [status_defs]: "UA_STATUSCODE_BADFILTEROPERANDCOUNTMISMATCH = 0x80C30000"

definition UA_STATUSCODE_BADFILTERELEMENTINVALID :: status where
  [status_defs]: "UA_STATUSCODE_BADFILTERELEMENTINVALID = 0x80C40000"

text \<open>\<^verbatim>\<open>enum UA_FilterOperator\<close>\<close>

definition UA_FILTEROPERATOR_EQUALS :: u32 where "UA_FILTEROPERATOR_EQUALS = 0"
definition UA_FILTEROPERATOR_ISNULL :: u32 where "UA_FILTEROPERATOR_ISNULL = 1"
definition UA_FILTEROPERATOR_GREATERTHAN :: u32 where "UA_FILTEROPERATOR_GREATERTHAN = 2"
definition UA_FILTEROPERATOR_LESSTHAN :: u32 where "UA_FILTEROPERATOR_LESSTHAN = 3"
definition UA_FILTEROPERATOR_GREATERTHANOREQUAL :: u32 where "UA_FILTEROPERATOR_GREATERTHANOREQUAL = 4"
definition UA_FILTEROPERATOR_LESSTHANOREQUAL :: u32 where "UA_FILTEROPERATOR_LESSTHANOREQUAL = 5"
definition UA_FILTEROPERATOR_LIKE :: u32 where "UA_FILTEROPERATOR_LIKE = 6"
definition UA_FILTEROPERATOR_NOT :: u32 where "UA_FILTEROPERATOR_NOT = 7"
definition UA_FILTEROPERATOR_BETWEEN :: u32 where "UA_FILTEROPERATOR_BETWEEN = 8"
definition UA_FILTEROPERATOR_INLIST :: u32 where "UA_FILTEROPERATOR_INLIST = 9"
definition UA_FILTEROPERATOR_AND :: u32 where "UA_FILTEROPERATOR_AND = 10"
definition UA_FILTEROPERATOR_OR :: u32 where "UA_FILTEROPERATOR_OR = 11"
definition UA_FILTEROPERATOR_CAST :: u32 where "UA_FILTEROPERATOR_CAST = 12"
definition UA_FILTEROPERATOR_INVIEW :: u32 where "UA_FILTEROPERATOR_INVIEW = 13"
definition UA_FILTEROPERATOR_OFTYPE :: u32 where "UA_FILTEROPERATOR_OFTYPE = 14"
definition UA_FILTEROPERATOR_RELATEDTO :: u32 where "UA_FILTEROPERATOR_RELATEDTO = 15"
definition UA_FILTEROPERATOR_BITWISEAND :: u32 where "UA_FILTEROPERATOR_BITWISEAND = 16"
definition UA_FILTEROPERATOR_BITWISEOR :: u32 where "UA_FILTEROPERATOR_BITWISEOR = 17"

text \<open>The operators by their numbers.\<close>

lemmas filter_operators =
  UA_FILTEROPERATOR_EQUALS_def UA_FILTEROPERATOR_ISNULL_def UA_FILTEROPERATOR_GREATERTHAN_def
  UA_FILTEROPERATOR_LESSTHAN_def UA_FILTEROPERATOR_GREATERTHANOREQUAL_def UA_FILTEROPERATOR_LESSTHANOREQUAL_def
  UA_FILTEROPERATOR_LIKE_def UA_FILTEROPERATOR_NOT_def UA_FILTEROPERATOR_BETWEEN_def UA_FILTEROPERATOR_INLIST_def
  UA_FILTEROPERATOR_AND_def UA_FILTEROPERATOR_OR_def UA_FILTEROPERATOR_CAST_def UA_FILTEROPERATOR_INVIEW_def
  UA_FILTEROPERATOR_OFTYPE_def UA_FILTEROPERATOR_RELATEDTO_def UA_FILTEROPERATOR_BITWISEAND_def
  UA_FILTEROPERATOR_BITWISEOR_def

text \<open>Types by their index in \<^verbatim>\<open>UA_TYPES\<close>\<close>

abbreviation (input) UA_TYPES_BOOLEAN :: tyref where "UA_TYPES_BOOLEAN \<equiv> 0"
abbreviation (input) UA_TYPES_SBYTE :: tyref where "UA_TYPES_SBYTE \<equiv> 1"
abbreviation (input) UA_TYPES_INT16 :: tyref where "UA_TYPES_INT16 \<equiv> 3"
abbreviation (input) UA_TYPES_INT64 :: tyref where "UA_TYPES_INT64 \<equiv> 7"
abbreviation (input) UA_TYPES_UINT64 :: tyref where "UA_TYPES_UINT64 \<equiv> 8"
abbreviation (input) UA_TYPES_FLOAT :: tyref where "UA_TYPES_FLOAT \<equiv> 9"
abbreviation (input) UA_TYPES_DOUBLE :: tyref where "UA_TYPES_DOUBLE \<equiv> 10"
abbreviation (input) UA_TYPES_STRING :: tyref where "UA_TYPES_STRING \<equiv> 11"

section \<open>Kinds of types\<close>

definition UA_DataType_getPrecedence :: "UA_DataTypeKind \<Rightarrow> int" where
  "UA_DataType_getPrecedence k =
     (case k of
        DK_DOUBLE \<Rightarrow> 1 | DK_FLOAT \<Rightarrow> 2 | DK_INT64 \<Rightarrow> 3 | DK_UINT64 \<Rightarrow> 4 | DK_INT32 \<Rightarrow> 5 | DK_UINT32 \<Rightarrow> 6
      | DK_STATUSCODE \<Rightarrow> 7 | DK_INT16 \<Rightarrow> 8 | DK_UINT16 \<Rightarrow> 9 | DK_SBYTE \<Rightarrow> 10 | DK_BYTE \<Rightarrow> 11 | DK_BOOLEAN \<Rightarrow> 12
      | DK_GUID \<Rightarrow> 13 | DK_STRING \<Rightarrow> 14 | DK_EXPANDEDNODEID \<Rightarrow> 15 | DK_NODEID \<Rightarrow> 16 | DK_LOCALIZEDTEXT \<Rightarrow> 17
      | DK_QUALIFIEDNAME \<Rightarrow> 18 | _ \<Rightarrow> - 1)"

definition isNumericUnsigned :: "UA_DataTypeKind \<Rightarrow> bool" where
  "isNumericUnsigned k = (k = DK_UINT64 \<or> k = DK_UINT32 \<or> k = DK_UINT16 \<or> k = DK_BYTE)"

definition isNumericSigned :: "UA_DataTypeKind \<Rightarrow> bool" where
  "isNumericSigned k = (k = DK_INT64 \<or> k = DK_INT32 \<or> k = DK_INT16 \<or> k = DK_SBYTE)"

definition isFloatingPoint :: "UA_DataTypeKind \<Rightarrow> bool" where
  "isFloatingPoint k = (k = DK_FLOAT \<or> k = DK_DOUBLE)"

definition isStringType :: "UA_DataTypeKind \<Rightarrow> bool" where
  "isStringType k = (k = DK_STRING \<or> k = DK_BYTESTRING)"

text \<open>0 for the same type, 1 for an implicit cast, 2 for an explicit cast only, -1 for none.\<close>

definition convertLookup :: "int list list" where
  "convertLookup =
    [[ 0, 1,-1,-1, 1,-1, 1,-1, 1, 1, 1,-1, 1,-1, 2,-1,-1, 1, 1, 1,-1],
     [ 2, 0,-1,-1, 1,-1, 1,-1, 1, 1, 1,-1, 1,-1, 2,-1,-1, 1, 1, 1,-1],
     [-1,-1, 0,-1,-1,-1,-1, 2,-1,-1,-1,-1,-1,-1,-1,-1,-1,-1,-1,-1,-1],
     [-1,-1,-1, 0,-1,-1,-1,-1,-1,-1,-1,-1,-1,-1, 2,-1,-1,-1,-1,-1,-1],
     [ 2, 2,-1,-1, 0,-1, 2,-1, 2, 2, 2,-1, 2,-1, 2,-1,-1, 2, 2, 2,-1],
     [-1,-1,-1,-1,-1, 0,-1,-1,-1,-1,-1, 2,-1,-1, 1,-1,-1,-1,-1,-1,-1],
     [ 2, 2,-1,-1, 1,-1, 0,-1, 2, 2, 2,-1, 2,-1, 2,-1,-1, 2, 2, 2,-1],
     [-1,-1, 2,-1,-1,-1,-1, 0,-1,-1,-1,-1,-1,-1, 2,-1,-1,-1,-1,-1,-1],
     [ 2, 2,-1,-1, 1,-1, 1,-1, 0, 1, 1,-1, 2,-1, 2,-1,-1, 2, 1, 1,-1],
     [ 2, 2,-1,-1, 1,-1, 1,-1, 2, 0, 1,-1, 2, 2, 2,-1,-1, 2, 2, 1,-1],
     [ 2, 2,-1,-1, 1,-1, 1,-1, 2, 2, 0,-1, 2, 2, 2,-1,-1, 2, 2, 2,-1],
     [-1,-1,-1,-1,-1, 1,-1,-1,-1,-1,-1, 0,-1,-1, 1,-1,-1,-1,-1,-1,-1],
     [ 2, 2,-1,-1, 1,-1, 1,-1, 1, 1, 1,-1, 0,-1, 2,-1,-1, 1, 1, 1,-1],
     [-1,-1,-1,-1,-1,-1,-1,-1,-1, 1, 1,-1,-1, 0,-1,-1,-1, 2, 1, 1,-1],
     [ 1, 1,-1, 2, 1, 2, 1, 1, 1, 1, 1, 2, 1,-1, 0, 2, 2, 1, 1, 1,-1],
     [-1,-1,-1,-1,-1,-1,-1,-1,-1,-1,-1,-1,-1,-1, 1, 0,-1,-1,-1,-1,-1],
     [-1,-1,-1,-1,-1,-1,-1,-1,-1,-1,-1,-1,-1,-1, 1, 1, 0,-1,-1,-1,-1],
     [ 2, 2,-1,-1, 1,-1, 1,-1, 1, 1, 1,-1, 2, 1, 2,-1,-1, 0, 1, 1,-1],
     [ 2, 2,-1,-1, 1,-1, 1,-1, 2, 1, 1,-1, 2, 2, 2,-1,-1, 2, 0, 1,-1],
     [ 2, 2,-1,-1, 1,-1, 1,-1, 2, 2, 1,-1, 2, 2, 2,-1,-1, 2, 2, 0,-1],
     [-1,-1,-1,-1,-1,-1,-1,-1,-1,-1,-1,-1,-1,-1,-1,-1,-1,-1,-1,-1, 0]]"

definition dataTypeKindIndex :: "nat list" where
  "dataTypeKindIndex =
     [0, 12, 1, 8, 17, 9, 18, 10, 19, 6, 4, 14, 3, 7, 2, 20, 11, 5, 13, 16, 15,
      255, 255, 255, 255, 255, 255, 255, 255, 255]"

text \<open>The table has one entry less than there are kinds.\<close>

definition checkTypeCastingOption :: "UA_DataTypeKind \<Rightarrow> UA_DataTypeKind \<Rightarrow> int outcome" where
  "checkTypeCastingOption cast_target cast_source =
     (if kind_number cast_target \<ge> length dataTypeKindIndex \<or> kind_number cast_source \<ge> length dataTypeKindIndex
      then Undefined
      else let firstOperatorTypeKindIndex = dataTypeKindIndex ! kind_number cast_target;
               secondOperatorTypeKindIndex = dataTypeKindIndex ! kind_number cast_source
           in if firstOperatorTypeKindIndex = 255 \<or> secondOperatorTypeKindIndex = 255 then Done (- 1)
              else Done (convertLookup ! firstOperatorTypeKindIndex ! secondOperatorTypeKindIndex))"

section \<open>Conversions\<close>

text \<open>
  An operand that was converted points to a buffer in the frame of \<^verbatim>\<open>compareOperation\<close>. After the return only
  its type can be read. A conversion gives its status and the operand, which a failure leaves alone.
\<close>

datatype filter_value = Live ua_val | Dangling tyref

fun value_type :: "filter_value \<Rightarrow> tyref option" where
  "value_type (Live v) = variant_type v"
| "value_type (Dangling t) = Some t"

type_synonym conversion = "ua_val \<Rightarrow> (status \<times> ua_val) outcome"

text \<open>A read of the data of a scalar through a pointer to the given type.\<close>

fun read64 :: "ua_val \<Rightarrow> u64 outcome" where
  "read64 (VVariantScalar _ (VU64 w)) = Done w" | "read64 _ = Undefined"

fun read32 :: "ua_val \<Rightarrow> u32 outcome" where
  "read32 (VVariantScalar _ (VU32 w)) = Done w" | "read32 _ = Undefined"

fun read16 :: "ua_val \<Rightarrow> u16 outcome" where
  "read16 (VVariantScalar _ (VU16 w)) = Done w" | "read16 _ = Undefined"

fun read8 :: "ua_val \<Rightarrow> u8 outcome" where
  "read8 (VVariantScalar _ (VU8 w)) = Done w" | "read8 _ = Undefined"

definition as_scalar :: "tyref \<Rightarrow> u64 \<Rightarrow> (status \<times> ua_val) outcome" where
  "as_scalar t w = Done (GOOD, VVariantScalar t (VU64 w))"

text \<open>The last case of the code tests \<^verbatim>\<open>UA_TYPES_SBYTE\<close> for the second time, where it means \<^verbatim>\<open>UA_TYPES_FLOAT\<close>.\<close>

definition implicitNumericVariantTransformation :: conversion where
  "implicitNumericVariantTransformation v =
     (if variant_type v = Some UA_TYPES_UINT64 then and_then (read64 v) (as_scalar UA_TYPES_UINT64)
      else if variant_type v = Some UA_TYPES_UINT32 then and_then (read32 v) (\<lambda>w. as_scalar UA_TYPES_UINT64 (ucast w))
      else if variant_type v = Some UA_TYPES_UINT16 then and_then (read16 v) (\<lambda>w. as_scalar UA_TYPES_UINT64 (ucast w))
      else if variant_type v = Some UA_TYPES_BYTE then and_then (read8 v) (\<lambda>w. as_scalar UA_TYPES_UINT64 (ucast w))
      else if variant_type v = Some UA_TYPES_INT64 then and_then (read64 v) (as_scalar UA_TYPES_INT64)
      else if variant_type v = Some UA_TYPES_INT32 then and_then (read32 v) (\<lambda>w. as_scalar UA_TYPES_INT64 (scast w))
      else if variant_type v = Some UA_TYPES_INT16 then and_then (read16 v) (\<lambda>w. as_scalar UA_TYPES_INT64 (scast w))
      else if variant_type v = Some UA_TYPES_SBYTE then and_then (read8 v) (\<lambda>w. as_scalar UA_TYPES_INT64 (scast w))
      else if variant_type v = Some UA_TYPES_DOUBLE then and_then (read64 v) (as_scalar UA_TYPES_DOUBLE)
      else Done (UA_STATUSCODE_BADTYPEMISMATCH, v))"

definition implicitNumericVariantTransformationUnsingedToSigned :: conversion where
  "implicitNumericVariantTransformationUnsingedToSigned v =
     (if variant_type v = Some UA_TYPES_UINT64
      then and_then (read64 v) (\<lambda>w. if uint w > 2 ^ 63 - 1 then Done (UA_STATUSCODE_BADTYPEMISMATCH, v)
                                    else as_scalar UA_TYPES_INT64 w)
      else if variant_type v = Some UA_TYPES_UINT32 then and_then (read32 v) (\<lambda>w. as_scalar UA_TYPES_INT64 (scast w))
      else if variant_type v = Some UA_TYPES_UINT16 then and_then (read16 v) (\<lambda>w. as_scalar UA_TYPES_INT64 (scast w))
      else if variant_type v = Some UA_TYPES_BYTE then and_then (read8 v) (\<lambda>w. as_scalar UA_TYPES_INT64 (ucast w))
      else Done (UA_STATUSCODE_BADTYPEMISMATCH, v))"

text \<open>The test for a negative number reads 64 bits, whatever the type is.\<close>

definition implicitNumericVariantTransformationSignedToUnSigned :: conversion where
  "implicitNumericVariantTransformationSignedToUnSigned v =
     and_then (read64 v) (\<lambda>n.
       if sint n < 0 then Done (UA_STATUSCODE_BADTYPEMISMATCH, v)
       else if variant_type v = Some UA_TYPES_INT64 then as_scalar UA_TYPES_UINT64 n
       else if variant_type v = Some UA_TYPES_INT32 then and_then (read32 v) (\<lambda>w. as_scalar UA_TYPES_UINT64 (ucast w))
       else if variant_type v = Some UA_TYPES_INT16 then and_then (read16 v) (\<lambda>w. as_scalar UA_TYPES_UINT64 (ucast w))
       else if variant_type v = Some UA_TYPES_SBYTE then and_then (read8 v) (\<lambda>w. as_scalar UA_TYPES_UINT64 (ucast w))
       else Done (UA_STATUSCODE_BADTYPEMISMATCH, v))"

text \<open>\<^verbatim>\<open>operand->type = &UA_TYPES[UA_TYPES_STRING]\<close>: the data stays.\<close>

fun with_type :: "tyref \<Rightarrow> ua_val \<Rightarrow> ua_val" where
  "with_type t (VVariantScalar _ d) = VVariantScalar t d"
| "with_type t (VVariantArray _ a dims) = VVariantArray t a dims"
| "with_type t VVariantEmpty = VVariantArray t None []"
| "with_type t v = v"

definition retyped_as_string :: conversion where
  "retyped_as_string v = Done (UA_STATUSCODE_BADTYPEMISMATCH, with_type UA_TYPES_STRING v)"

definition unconverted :: conversion where
  "unconverted v = Done (UA_STATUSCODE_BADTYPEMISMATCH, v)"

section \<open>The comparison\<close>

datatype compareHandlingRule =
  UA_TYPES_EQUAL_ORDERED
| UA_TYPES_EQUAL_UNORDERED
| UA_TYPES_DIFFERENT_NUMERIC_UNSIGNED
| UA_TYPES_DIFFERENT_NUMERIC_SIGNED
| UA_TYPES_DIFFERENT_NUMERIC_FLOATING_POINT
| UA_TYPES_DIFFERENT_TEXT
| UA_TYPES_DIFFERENT_COMPARE_FORBIDDEN
| UA_TYPES_DIFFERENT_COMPARE_EXPLIC
| UA_TYPES_DIFFERENT_SIGNEDNESS_CAST_TO_SIGNED
| UA_TYPES_DIFFERENT_SIGNEDNESS_CAST_TO_UNSIGNED

definition compare_rule :: "int \<Rightarrow> UA_DataTypeKind \<Rightarrow> UA_DataTypeKind \<Rightarrow> UA_DataTypeKind \<Rightarrow> compareHandlingRule" where
  "compare_rule castRule k1 k2 c1 =
     (if castRule = 0 \<and> (UA_DataType_isNumeric k1 \<or> c1 = DK_DATETIME \<or> c1 = DK_STRING \<or>
                         c1 = DK_BYTESTRING)
      then UA_TYPES_EQUAL_ORDERED
      else if castRule = 0 then UA_TYPES_EQUAL_UNORDERED
      else if castRule = 1 \<and> isNumericSigned k1 \<and> isNumericSigned k2 then UA_TYPES_DIFFERENT_NUMERIC_SIGNED
      else if castRule = 1 \<and> isNumericUnsigned k1 \<and> isNumericUnsigned k2
      then UA_TYPES_DIFFERENT_NUMERIC_UNSIGNED
      else if castRule = 1 \<and> isFloatingPoint k1 \<and> isFloatingPoint k2
      then UA_TYPES_DIFFERENT_NUMERIC_FLOATING_POINT
      else if castRule = 1 \<and> isStringType k1 \<and> isStringType k2 then UA_TYPES_DIFFERENT_TEXT
      else if castRule = 1 \<and> isNumericSigned k1 \<and> isNumericUnsigned k2
      then UA_TYPES_DIFFERENT_SIGNEDNESS_CAST_TO_SIGNED
      else if castRule = 1 \<and> isNumericSigned k2 \<and> isNumericUnsigned k1
      then UA_TYPES_DIFFERENT_SIGNEDNESS_CAST_TO_UNSIGNED
      else if castRule = - 1 \<or> castRule = 2 then UA_TYPES_DIFFERENT_COMPARE_EXPLIC
      else UA_TYPES_DIFFERENT_COMPARE_FORBIDDEN)"

text \<open>The conversions of the two compared operands for a rule.\<close>

definition conversions :: "compareHandlingRule \<Rightarrow> conversion \<times> conversion" where
  "conversions r =
     (case r of
        UA_TYPES_DIFFERENT_NUMERIC_SIGNED \<Rightarrow> (implicitNumericVariantTransformation, implicitNumericVariantTransformation)
      | UA_TYPES_DIFFERENT_NUMERIC_UNSIGNED \<Rightarrow> (implicitNumericVariantTransformation, implicitNumericVariantTransformation)
      | UA_TYPES_DIFFERENT_NUMERIC_FLOATING_POINT \<Rightarrow>
          (implicitNumericVariantTransformation, implicitNumericVariantTransformation)
      | UA_TYPES_DIFFERENT_SIGNEDNESS_CAST_TO_SIGNED \<Rightarrow>
          (implicitNumericVariantTransformation, implicitNumericVariantTransformationUnsingedToSigned)
      | UA_TYPES_DIFFERENT_SIGNEDNESS_CAST_TO_UNSIGNED \<Rightarrow>
          (implicitNumericVariantTransformation, implicitNumericVariantTransformationSignedToUnSigned)
      | UA_TYPES_DIFFERENT_TEXT \<Rightarrow> (retyped_as_string, retyped_as_string)
      | _ \<Rightarrow> (unconverted, unconverted))"

definition order_matches :: "u32 \<Rightarrow> UA_Order \<Rightarrow> bool" where
  "order_matches op r =
     (if op = UA_FILTEROPERATOR_EQUALS then r = UA_ORDER_EQ
      else if op = UA_FILTEROPERATOR_LESSTHAN then r = UA_ORDER_LESS
      else if op = UA_FILTEROPERATOR_GREATERTHAN then r = UA_ORDER_MORE
      else if op = UA_FILTEROPERATOR_LESSTHANOREQUAL then r = UA_ORDER_LESS \<or> r = UA_ORDER_EQ
      else if op = UA_FILTEROPERATOR_GREATERTHANOREQUAL then r = UA_ORDER_MORE \<or> r = UA_ORDER_EQ
      else False)"

text \<open>
  What is seen through an operand: a dangling one has its type, and its data cannot be read. Variants of
  different types are ordered by their types alone; else both are read.
\<close>

fun operand_view :: "filter_value \<Rightarrow> ua_val" where
  "operand_view (Live v) = v"
| "operand_view (Dangling t) = VVariantArray t None []"

fun is_dangling :: "filter_value \<Rightarrow> bool" where
  "is_dangling (Live v) = False"
| "is_dangling (Dangling t) = True"

definition compare_values :: "type_env \<Rightarrow> u32 \<Rightarrow> bool \<Rightarrow> ua_val \<Rightarrow> ua_val \<Rightarrow> status outcome" where
  "compare_values env op dangling v1 v2 =
     (if variant_type v1 = variant_type v2 \<and> dangling then Undefined
      else and_then (required (UA_order env v1 v2 UA_TYPES_VARIANT))
             (\<lambda>r. Done (if order_matches op r then GOOD else UA_STATUSCODE_BADNOMATCH)))"

text \<open>What remains of an operand after the return.\<close>

fun after_return :: "filter_value \<Rightarrow> status \<times> ua_val \<Rightarrow> filter_value" where
  "after_return f (res, v) = (if res = GOOD then Dangling (the (variant_type v))
                              else case f of Live _ \<Rightarrow> Live v | Dangling t \<Rightarrow> Dangling t)"

text \<open>
  When the operands are swapped, swapping back assigns
  \<^verbatim>\<open>firstCompareOperand = secondCompareOperand; secondCompareOperand = firstCompareOperand;\<close> so that both
  point to the first operand, which is then converted twice and compared with itself.
\<close>

definition compareOperation ::
  "type_env \<Rightarrow> filter_value \<Rightarrow> filter_value \<Rightarrow> u32 \<Rightarrow> (status \<times> filter_value \<times> filter_value) outcome" where
  "compareOperation env firstOperand secondOperand op =
     and_then (required (value_type firstOperand)) (\<lambda>t1. and_then (required (value_type secondOperand)) (\<lambda>t2.
       let k1 = kind_at env t1; k2 = kind_at env t2;
           firstOperand_precedence = UA_DataType_getPrecedence k1;
           secondOperand_precedence = UA_DataType_getPrecedence k2;
           stop = (\<lambda>res. Done (res, firstOperand, secondOperand))
       in if UA_NodeId_order (typeId (ty_at env t1)) (typeId (ty_at env t2)) \<noteq> UA_ORDER_EQ \<and>
             (firstOperand_precedence = - 1 \<or> secondOperand_precedence = - 1)
          then stop UA_STATUSCODE_BADTYPEMISMATCH
          else let swapped = (firstOperand_precedence < secondOperand_precedence);
                   (c1, c2) = (if swapped then (k2, k1) else (k1, k2))
               in and_then (checkTypeCastingOption c1 c2) (\<lambda>castRule.
                    if \<not> (castRule = 0 \<or> castRule = 1) then stop UA_STATUSCODE_BADTYPEMISMATCH
                    else let rule = compare_rule castRule k1 k2 c1
                         in if rule = UA_TYPES_DIFFERENT_COMPARE_FORBIDDEN \<or> rule = UA_TYPES_DIFFERENT_COMPARE_EXPLIC
                            then stop UA_STATUSCODE_BADFILTEROPERATORINVALID
                            else if op \<noteq> UA_FILTEROPERATOR_EQUALS \<and> rule = UA_TYPES_EQUAL_UNORDERED
                            then stop UA_STATUSCODE_BADFILTEROPERATORINVALID
                            else let (convert1, convert2) = conversions rule
                                 in if swapped
                                    then and_then (convert1 (operand_view firstOperand)) (\<lambda>r1.
                                         and_then (convert2 (snd r1)) (\<lambda>r2.
                                         and_then (compare_values env op (is_dangling firstOperand) (snd r2) (snd r2)) (\<lambda>res.
                                           Done (res, after_return firstOperand (if fst r2 = GOOD then r2 else r1),
                                                 secondOperand))))
                                    else and_then (convert1 (operand_view firstOperand)) (\<lambda>r1.
                                         and_then (convert2 (operand_view secondOperand)) (\<lambda>r2.
                                         and_then (compare_values env op (is_dangling firstOperand \<or> is_dangling secondOperand)
                                                    (snd r1) (snd r2)) (\<lambda>res.
                                           Done (res, after_return firstOperand r1, after_return secondOperand r2)))))))"

end
