(* ===== verification/Filter_Eval.thy ===== *)
theory Filter_Eval
  imports Filter_Compare Binary_Decode
begin

text \<open>
  The where clause of an event filter, \<^verbatim>\<open>src/server/ua_subscription_events_filter.c\<close>: an array of elements,
  each an operator with operands, where an operand may refer to another element by its index. The first
  element is evaluated, and the others when they are referred to.

  The fuel of the recursion is the depth of the stack. What the evaluation reads from the address space is
  the parameter \<open>w\<close>. Alarms and conditions (off by default) are left out.
\<close>

section \<open>The context\<close>

text \<open>
  The address space as a session sees it: the attribute service (\<^verbatim>\<open>UA_Server_readWithSession\<close>), the
  translation of a browse path, the hierarchy of subtypes, the property of an object and the value of a
  variable (\<^verbatim>\<open>readWithReadValue\<close>), and all subtypes of a type.
\<close>

record UA_EventWorld =
  ew_types :: type_env
  ew_read :: "UA_NodeId \<Rightarrow> u32 \<Rightarrow> UA_String \<Rightarrow> UA_DataValue"
  ew_browse :: "UA_NodeId \<Rightarrow> (u16 \<times> UA_String) list \<Rightarrow> status \<times> UA_NodeId list"
  ew_isSubtype :: "UA_NodeId \<Rightarrow> UA_NodeId \<Rightarrow> bool"
  ew_readProperty :: "UA_NodeId \<Rightarrow> u16 \<times> UA_String \<Rightarrow> status \<times> ua_val"
  ew_readValue :: "UA_NodeId \<Rightarrow> status \<times> ua_val"
  ew_subtypes :: "UA_NodeId \<Rightarrow> status \<times> UA_NodeId list"

text \<open>\<^verbatim>\<open>operandStatusCodes\<close> is \<open>None\<close> when the pointer is NULL.\<close>

record UA_ContentFilterElementResult =
  cfr_statusCode :: status
  cfr_operandStatusCodes :: "status list option"

text \<open>\<open>ctx_mallocs\<close> are the results of the coming allocations, 0 or the end of the list for a failure.\<close>

record UA_FilterOperatorContext =
  ctx_contentFilter :: "UA_ContentFilterElement list"
  ctx_elementResults :: "UA_ContentFilterElementResult list"
  ctx_valueResult :: "ua_val list"
  ctx_index :: u16
  ctx_mallocs :: "ptr list"

type_synonym evaluator = "UA_FilterOperatorContext \<Rightarrow> (status \<times> UA_FilterOperatorContext) outcome"

definition at_index :: "'a list \<Rightarrow> nat \<Rightarrow> 'a outcome" where
  "at_index xs i = (if i < length xs then Done (xs ! i) else Undefined)"

definition current_element :: "UA_FilterOperatorContext \<Rightarrow> UA_ContentFilterElement outcome" where
  "current_element ctx = at_index (ctx_contentFilter ctx) (unat (ctx_index ctx))"

definition current_value :: "UA_FilterOperatorContext \<Rightarrow> ua_val outcome" where
  "current_value ctx = at_index (ctx_valueResult ctx) (unat (ctx_index ctx))"

definition set_value :: "ua_val \<Rightarrow> UA_FilterOperatorContext \<Rightarrow> UA_FilterOperatorContext" where
  "set_value v ctx = ctx\<lparr>ctx_valueResult := (ctx_valueResult ctx)[unat (ctx_index ctx) := v]\<rparr>"

text \<open>\<^verbatim>\<open>ctx->valueResult[ctx->index].type = &UA_TYPES[UA_TYPES_BOOLEAN]\<close>\<close>

definition mark_boolean :: "UA_FilterOperatorContext \<Rightarrow> UA_FilterOperatorContext outcome" where
  "mark_boolean ctx = and_then (current_value ctx) (\<lambda>v. Done (set_value (with_type UA_TYPES_BOOLEAN v) ctx))"

definition boolean_result :: "status \<Rightarrow> evaluator" where
  "boolean_result res ctx = and_then (mark_boolean ctx) (\<lambda>ctx. Done (res, ctx))"

section \<open>Operands\<close>

definition ascii :: "string \<Rightarrow> UA_String" where
  "ascii s = Some (map of_char s)"

text \<open>What the data pointer of a variant points to.\<close>

definition pointee :: "ua_val \<Rightarrow> ua_val outcome" where
  "pointee v = required (case variant_elements v of [] \<Rightarrow> None | x # _ \<Rightarrow> Some x)"

definition resolveBoolean :: "ua_val \<Rightarrow> status outcome" where
  "resolveBoolean operand =
     (if variant_type operand = Some UA_TYPES_STRING
      then and_then (pointee operand) (\<lambda>d. case d of
             VString s \<Rightarrow> Done (if UA_String_equal s (ascii ''True'') then GOOD
                                else if UA_String_equal s (ascii ''False'') then UA_STATUSCODE_BADNOMATCH
                                else UA_STATUSCODE_BADFILTEROPERANDINVALID)
           | _ \<Rightarrow> Undefined)
      else if variant_type operand = Some UA_TYPES_BOOLEAN
      then and_then (pointee operand) (\<lambda>d. case d of
             VU8 b \<Rightarrow> if b = 1 then Done GOOD else if b = 0 then Done UA_STATUSCODE_BADNOMATCH else Undefined
           | _ \<Rightarrow> Undefined)
      else Done UA_STATUSCODE_BADFILTEROPERANDINVALID)"

definition ns0 :: "u32 \<Rightarrow> UA_NodeId" where
  "ns0 i = \<lparr>namespaceIndex = 0, nid = NumericId i\<rparr>"

definition UA_NS0ID_BASEEVENTTYPE :: u32 where "UA_NS0ID_BASEEVENTTYPE = 2041"
definition UA_NS0ID_CONDITIONTYPE :: u32 where "UA_NS0ID_CONDITIONTYPE = 2782"

text \<open>The output of a read: the value if there is a good one.\<close>

definition moved_value :: "UA_DataValue \<Rightarrow> status \<times> ua_val" where
  "moved_value v = (dv_status v, if dv_status v = GOOD \<and> dv_hasValue v then dv_value v else VVariantEmpty)"

definition resolveSimpleAttributeOperand ::
  "UA_EventWorld \<Rightarrow> UA_NodeId \<Rightarrow> UA_SimpleAttributeOperand \<Rightarrow> status \<times> ua_val" where
  "resolveSimpleAttributeOperand w origin sao =
     (let path = array_elems (sao_browsePath sao);
          read = (\<lambda>n. moved_value (ew_read w n (sao_attributeId sao) (sao_indexRange sao)))
      in if path = []
         then if UA_NodeId_equal (sao_typeDefinitionId sao) (ns0 UA_NS0ID_CONDITIONTYPE)
              then (UA_STATUSCODE_BADNOTSUPPORTED, VVariantEmpty) else read origin
         else let (res, targets) = ew_browse w origin path;
                  res = (if targets = [] \<and> res = GOOD then UA_STATUSCODE_BADNOTFOUND else res)
              in if res \<noteq> GOOD then (res, VVariantEmpty)
                 else read (hd targets))"

text \<open>\<^verbatim>\<open>elementResults[ctx->index].operandStatusCodes[nr] = res\<close>, which the array need not have room for.\<close>

definition record_operand_status :: "nat \<Rightarrow> status \<Rightarrow> UA_FilterOperatorContext \<Rightarrow> UA_FilterOperatorContext outcome" where
  "record_operand_status nr res ctx =
     and_then (at_index (ctx_elementResults ctx) (unat (ctx_index ctx))) (\<lambda>er.
     and_then (required (cfr_operandStatusCodes er)) (\<lambda>codes.
       if nr < length codes
       then Done (ctx\<lparr>ctx_elementResults := (ctx_elementResults ctx)[unat (ctx_index ctx) :=
              er\<lparr>cfr_operandStatusCodes := Some (codes[nr := res])\<rparr>]\<rparr>)
       else Undefined))"

definition resolveOperand ::
  "UA_EventWorld \<Rightarrow> UA_NodeId \<Rightarrow> evaluator \<Rightarrow> UA_FilterOperatorContext \<Rightarrow> nat \<Rightarrow>
   (ua_val \<times> UA_FilterOperatorContext) outcome" where
  "resolveOperand w eventNode evaluate ctx nr =
     and_then (current_element ctx) (\<lambda>el.
     and_then (at_index (cfe_filterOperands el) nr) (\<lambda>operand.
     and_then
       (case operand of
          SimpleAttributeOperand sao \<Rightarrow>
            let (res, variant) = resolveSimpleAttributeOperand w eventNode sao in Done (res, variant, ctx)
        | LiteralOperand v \<Rightarrow> Done (GOOD, v, ctx)
        | ElementOperand j \<Rightarrow>
            let oldIndex = ctx_index ctx
            in and_then (evaluate (ctx\<lparr>ctx_index := ucast j\<rparr>)) (\<lambda>(res, ctx).
               and_then (current_value ctx) (\<lambda>variant.
                 Done (res, variant, ctx\<lparr>ctx_index := oldIndex\<rparr>)))
        | OtherOperand \<Rightarrow> Done (UA_STATUSCODE_BADFILTEROPERANDINVALID, VVariantEmpty, ctx))
       (\<lambda>(res, variant, ctx).
          if res \<noteq> GOOD \<and> res \<noteq> UA_STATUSCODE_BADNOMATCH
          then and_then (record_operand_status nr res ctx) (\<lambda>ctx. Done (VVariantEmpty, ctx))
          else Done (variant, ctx))))"

section \<open>Operators\<close>

type_synonym resolver = "UA_FilterOperatorContext \<Rightarrow> nat \<Rightarrow> (ua_val \<times> UA_FilterOperatorContext) outcome"

definition UA_Variant_isEmpty :: "ua_val \<Rightarrow> bool" where
  "UA_Variant_isEmpty v = (variant_type v = None)"

definition resolve_boolean :: "resolver \<Rightarrow> UA_FilterOperatorContext \<Rightarrow> nat \<Rightarrow> (status \<times> UA_FilterOperatorContext) outcome" where
  "resolve_boolean resolve ctx nr =
     and_then (resolve ctx nr) (\<lambda>(v, ctx). and_then (resolveBoolean v) (\<lambda>b. Done (b, ctx)))"

definition andOperator :: "resolver \<Rightarrow> evaluator" where
  "andOperator resolve ctx =
     and_then (resolve_boolean resolve ctx 0) (\<lambda>(firstBoolean_and, ctx).
       if firstBoolean_and = UA_STATUSCODE_BADNOMATCH then boolean_result UA_STATUSCODE_BADNOMATCH ctx
       else and_then (resolve_boolean resolve ctx 1) (\<lambda>(secondBoolean, ctx).
              if secondBoolean = UA_STATUSCODE_BADNOMATCH then boolean_result UA_STATUSCODE_BADNOMATCH ctx
              else if firstBoolean_and = GOOD \<and> secondBoolean = GOOD then boolean_result GOOD ctx
              else Done (UA_STATUSCODE_BADFILTERELEMENTINVALID, ctx)))"

definition orOperator :: "resolver \<Rightarrow> evaluator" where
  "orOperator resolve ctx =
     and_then (resolve_boolean resolve ctx 0) (\<lambda>(firstBoolean_or, ctx).
       if firstBoolean_or = GOOD then boolean_result GOOD ctx
       else and_then (resolve_boolean resolve ctx 1) (\<lambda>(secondBoolean, ctx).
              if secondBoolean = GOOD then boolean_result GOOD ctx
              else if firstBoolean_or = UA_STATUSCODE_BADNOMATCH \<and> secondBoolean = UA_STATUSCODE_BADNOMATCH
              then boolean_result UA_STATUSCODE_BADNOMATCH ctx
              else Done (UA_STATUSCODE_BADFILTERELEMENTINVALID, ctx)))"

definition notOperator :: "resolver \<Rightarrow> evaluator" where
  "notOperator resolve ctx =
     and_then (resolve_boolean resolve ctx 0) (\<lambda>(res, ctx).
       boolean_result (if res = GOOD then UA_STATUSCODE_BADNOMATCH else GOOD) ctx)"

definition isNullOperator :: "resolver \<Rightarrow> evaluator" where
  "isNullOperator resolve ctx =
     and_then (resolve ctx 0) (\<lambda>(operand, ctx).
       boolean_result (if \<not> UA_Variant_isEmpty operand then UA_STATUSCODE_BADNOMATCH else GOOD) ctx)"

definition compareOperator :: "UA_EventWorld \<Rightarrow> resolver \<Rightarrow> evaluator" where
  "compareOperator w resolve ctx =
     and_then (mark_boolean ctx) (\<lambda>ctx.
     and_then (resolve ctx 0) (\<lambda>(firstOperand, ctx).
       if UA_Variant_isEmpty firstOperand then Done (UA_STATUSCODE_BADFILTEROPERANDINVALID, ctx)
       else and_then (resolve ctx 1) (\<lambda>(secondOperand, ctx).
              if UA_Variant_isEmpty secondOperand then Done (UA_STATUSCODE_BADFILTEROPERANDINVALID, ctx)
              else if \<not> UA_Variant_isScalar firstOperand \<or> \<not> UA_Variant_isScalar secondOperand
              then Done (UA_STATUSCODE_BADFILTEROPERATORUNSUPPORTED, ctx)
              else and_then (current_element ctx) (\<lambda>el.
                   and_then (compareOperation (ew_types w) (Live firstOperand) (Live secondOperand) (cfe_filterOperator el))
                     (\<lambda>(res, _, _). Done (res, ctx))))))"

definition is_numeric_scalar :: "type_env \<Rightarrow> ua_val \<Rightarrow> bool" where
  "is_numeric_scalar env v = (\<not> UA_Variant_isEmpty v \<and> is_numeric_variant env v \<and> UA_Variant_isScalar v)"

definition betweenOperator :: "UA_EventWorld \<Rightarrow> resolver \<Rightarrow> evaluator" where
  "betweenOperator w resolve ctx =
     and_then (mark_boolean ctx) (\<lambda>ctx.
     and_then (resolve ctx 0) (\<lambda>(firstOperand, ctx).
     and_then (resolve ctx 1) (\<lambda>(secondOperand, ctx).
     and_then (resolve ctx 2) (\<lambda>(thirdOperand, ctx).
       if \<not> (is_numeric_scalar (ew_types w) firstOperand \<and> is_numeric_scalar (ew_types w) secondOperand \<and>
             is_numeric_scalar (ew_types w) thirdOperand)
       then Done (UA_STATUSCODE_BADFILTEROPERANDINVALID, ctx)
       else and_then (compareOperation (ew_types w) (Live firstOperand) (Live secondOperand)
                        UA_FILTEROPERATOR_GREATERTHANOREQUAL) (\<lambda>(res, firstOperand, _).
              if res \<noteq> GOOD then Done (UA_STATUSCODE_BADNOMATCH, ctx)
              else and_then (compareOperation (ew_types w) firstOperand (Live thirdOperand)
                               UA_FILTEROPERATOR_LESSTHANOREQUAL) (\<lambda>(res, _, _).
                     Done (if res = GOOD then GOOD else UA_STATUSCODE_BADNOMATCH, ctx)))))))"

text \<open>
  \<^verbatim>\<open>if(compareOperation(...)) return UA_STATUSCODE_GOOD;\<close>: the condition holds for every status but good.
\<close>

fun inList_loop :: "UA_EventWorld \<Rightarrow> resolver \<Rightarrow> filter_value \<Rightarrow> nat list \<Rightarrow> evaluator" where
  "inList_loop w resolve firstOperand [] ctx = Done (UA_STATUSCODE_BADNOMATCH, ctx)"
| "inList_loop w resolve firstOperand (i # is) ctx =
     and_then (resolve ctx i) (\<lambda>(currentOperator, ctx).
       if UA_Variant_isEmpty currentOperator \<or> \<not> UA_Variant_isScalar currentOperator
       then Done (UA_STATUSCODE_BADFILTEROPERATORUNSUPPORTED, ctx)
       else and_then (compareOperation (ew_types w) firstOperand (Live currentOperator) UA_FILTEROPERATOR_EQUALS)
              (\<lambda>(res, firstOperand, _).
                 if res \<noteq> 0 then Done (GOOD, ctx) else inList_loop w resolve firstOperand is ctx))"

definition inListOperator :: "UA_EventWorld \<Rightarrow> resolver \<Rightarrow> evaluator" where
  "inListOperator w resolve ctx =
     and_then (mark_boolean ctx) (\<lambda>ctx.
     and_then (resolve ctx 0) (\<lambda>(firstOperand, ctx).
       if UA_Variant_isEmpty firstOperand \<or> \<not> UA_Variant_isScalar firstOperand
       then Done (UA_STATUSCODE_BADFILTEROPERATORUNSUPPORTED, ctx)
       else and_then (current_element ctx) (\<lambda>el.
              inList_loop w resolve (Live firstOperand) [1..<length (cfe_filterOperands el)] ctx)))"

text \<open>
  The result of a bitwise operation in the type of the precedence, from both operands read in that type.
\<close>

definition bitop :: "bool \<Rightarrow> 'a::len word \<Rightarrow> 'a word \<Rightarrow> 'a word" where
  "bitop isAnd a b = (if isAnd then and a b else or a b)"

definition bitwise_result :: "bool \<Rightarrow> int \<Rightarrow> ua_val \<Rightarrow> ua_val \<Rightarrow> (tyref \<times> ua_val) option outcome" where
  "bitwise_result isAnd precedence v1 v2 =
     (let w64 = (\<lambda>t. and_then (read64 v1) (\<lambda>a. and_then (read64 v2) (\<lambda>b. Done (Some (t, VU64 (bitop isAnd a b))))));
          w32 = (\<lambda>t. and_then (read32 v1) (\<lambda>a. and_then (read32 v2) (\<lambda>b. Done (Some (t, VU32 (bitop isAnd a b))))));
          w16 = (\<lambda>t. and_then (read16 v1) (\<lambda>a. and_then (read16 v2) (\<lambda>b. Done (Some (t, VU16 (bitop isAnd a b))))));
          w8 = (\<lambda>t. and_then (read8 v1) (\<lambda>a. and_then (read8 v2) (\<lambda>b. Done (Some (t, VU8 (bitop isAnd a b))))))
      in if precedence = 3 then w64 UA_TYPES_INT64
         else if precedence = 4 then w64 UA_TYPES_UINT64
         else if precedence = 5 then w32 UA_TYPES_INT32
         else if precedence = 6 then w32 UA_TYPES_UINT32
         else if precedence = 8 then w16 UA_TYPES_INT16
         else if precedence = 9 then w16 UA_TYPES_UINT16
         else if precedence = 10 then w8 UA_TYPES_SBYTE
         else if precedence = 11 then w8 UA_TYPES_BYTE
         else Done None)"

text \<open>A store through the data pointer: it needs an object of the same size.\<close>

definition same_size :: "ua_val \<Rightarrow> ua_val \<Rightarrow> bool" where
  "same_size x y =
     (case x of
        VU64 _ \<Rightarrow> (case y of VU64 _ \<Rightarrow> True | _ \<Rightarrow> False)
      | VU32 _ \<Rightarrow> (case y of VU32 _ \<Rightarrow> True | _ \<Rightarrow> False)
      | VU16 _ \<Rightarrow> (case y of VU16 _ \<Rightarrow> True | _ \<Rightarrow> False)
      | VU8 _ \<Rightarrow> (case y of VU8 _ \<Rightarrow> True | _ \<Rightarrow> False)
      | _ \<Rightarrow> False)"

definition store_value :: "tyref \<Rightarrow> ua_val \<Rightarrow> ua_val \<Rightarrow> ua_val outcome" where
  "store_value t x slot =
     (case slot of
        VVariantScalar _ y \<Rightarrow> if same_size x y then Done (VVariantScalar t x) else Undefined
      | _ \<Rightarrow> Undefined)"

definition is_integer_scalar :: "type_env \<Rightarrow> ua_val \<Rightarrow> bool" where
  "is_integer_scalar env v =
     (is_numeric_variant env v \<and> UA_Variant_isScalar v \<and> variant_type v \<noteq> Some UA_TYPES_DOUBLE \<and>
      variant_type v \<noteq> Some UA_TYPES_FLOAT)"

definition variant_precedence :: "type_env \<Rightarrow> ua_val \<Rightarrow> int" where
  "variant_precedence env v = UA_DataType_getPrecedence (kind_at env (the (variant_type v)))"

definition bitwiseOperator :: "UA_EventWorld \<Rightarrow> resolver \<Rightarrow> evaluator" where
  "bitwiseOperator w resolve ctx =
     and_then (resolve ctx 0) (\<lambda>(firstOperand, ctx).
       if UA_Variant_isEmpty firstOperand then Done (UA_STATUSCODE_BADFILTEROPERANDINVALID, ctx)
       else and_then (resolve ctx 1) (\<lambda>(secondOperand, ctx).
              if UA_Variant_isEmpty secondOperand then Done (UA_STATUSCODE_BADFILTEROPERANDINVALID, ctx)
              else and_then (current_element ctx) (\<lambda>el.
                if \<not> is_integer_scalar (ew_types w) firstOperand \<or> \<not> is_integer_scalar (ew_types w) secondOperand
                then Done (UA_STATUSCODE_BADFILTEROPERANDINVALID, ctx)
                else let precedence = min (variant_precedence (ew_types w) firstOperand)
                                        (variant_precedence (ew_types w) secondOperand)
                     in and_then (bitwise_result (cfe_filterOperator el = UA_FILTEROPERATOR_BITWISEAND) precedence
                                    firstOperand secondOperand) (\<lambda>r.
                          case r of
                            None \<Rightarrow> Done (UA_STATUSCODE_BADFILTEROPERANDINVALID, ctx)
                          | Some (t, x) \<Rightarrow>
                              and_then (current_value ctx) (\<lambda>slot.
                              and_then (store_value t x slot) (\<lambda>v. Done (GOOD, set_value v ctx)))))))"

definition ofTypeOperator :: "UA_EventWorld \<Rightarrow> UA_NodeId \<Rightarrow> evaluator" where
  "ofTypeOperator w eventNode ctx =
     and_then (current_element ctx) (\<lambda>el. and_then (mark_boolean ctx) (\<lambda>ctx.
       case cfe_filterOperands el of
         [LiteralOperand (VVariantScalar t d)] \<Rightarrow>
           if t \<noteq> UA_TYPES_NODEID then Done (UA_STATUSCODE_BADEVENTFILTERINVALID, ctx)
           else (case d of
             VNodeId literalOperandNodeId \<Rightarrow>
               let (readStatusCode, typeNodeIdVariant) = ew_readProperty w eventNode (0, ascii ''EventType'')
               in if readStatusCode \<noteq> GOOD then Done (readStatusCode, ctx)
                  else (case typeNodeIdVariant of
                    VVariantScalar t' d' \<Rightarrow>
                      if t' \<noteq> UA_TYPES_NODEID then Done (UA_STATUSCODE_BADINTERNALERROR, ctx)
                      else (case d' of
                        VNodeId typeNodeId \<Rightarrow>
                          let result = (UA_NodeId_equal typeNodeId literalOperandNodeId \<or>
                                        ew_isSubtype w typeNodeId literalOperandNodeId)
                          in Done (if \<not> result then UA_STATUSCODE_BADNOMATCH else GOOD, ctx)
                      | _ \<Rightarrow> Undefined)
                  | _ \<Rightarrow> Done (UA_STATUSCODE_BADINTERNALERROR, ctx))
           | _ \<Rightarrow> Undefined)
       | [LiteralOperand _] \<Rightarrow> Done (UA_STATUSCODE_BADEVENTFILTERINVALID, ctx)
       | [_] \<Rightarrow> Done (UA_STATUSCODE_BADFILTEROPERATORUNSUPPORTED, ctx)
       | _ \<Rightarrow> Done (UA_STATUSCODE_BADFILTEROPERANDCOUNTMISMATCH, ctx)))"

section \<open>Evaluation\<close>

text \<open>
  The end of \<^verbatim>\<open>evaluateWhereClauseContentFilter\<close>: the status is stored, and an element whose result has the
  type Boolean gets a new Boolean, which is written without a test for NULL.
\<close>

definition store_status :: "status \<Rightarrow> UA_FilterOperatorContext \<Rightarrow> UA_FilterOperatorContext outcome" where
  "store_status res ctx =
     and_then (at_index (ctx_elementResults ctx) (unat (ctx_index ctx))) (\<lambda>er.
       Done (ctx\<lparr>ctx_elementResults := (ctx_elementResults ctx)[unat (ctx_index ctx) := er\<lparr>cfr_statusCode := res\<rparr>]\<rparr>))"

definition new_boolean :: "bool \<Rightarrow> UA_FilterOperatorContext \<Rightarrow> UA_FilterOperatorContext outcome" where
  "new_boolean b ctx =
     (case ctx_mallocs ctx of
        [] \<Rightarrow> Undefined
      | p # ps \<Rightarrow> if p = 0 then Undefined
                  else Done (set_value (VVariantScalar UA_TYPES_BOOLEAN (VU8 (if b then 1 else 0)))
                               (ctx\<lparr>ctx_mallocs := ps\<rparr>)))"

definition finish_element :: "status \<times> UA_FilterOperatorContext \<Rightarrow> (status \<times> UA_FilterOperatorContext) outcome" where
  "finish_element r =
     (case r of (res, ctx) \<Rightarrow>
        and_then (store_status res ctx) (\<lambda>ctx.
        and_then (current_value ctx) (\<lambda>v.
          if variant_type v = Some UA_TYPES_BOOLEAN
          then and_then (new_boolean (res = GOOD) ctx) (\<lambda>ctx. Done (res, ctx))
          else Done (res, ctx))))"

definition comparison_operators :: "u32 set" where
  "comparison_operators = {UA_FILTEROPERATOR_EQUALS, UA_FILTEROPERATOR_GREATERTHAN, UA_FILTEROPERATOR_LESSTHAN,
     UA_FILTEROPERATOR_GREATERTHANOREQUAL, UA_FILTEROPERATOR_LESSTHANOREQUAL}"

definition evaluate_element :: "UA_EventWorld \<Rightarrow> UA_NodeId \<Rightarrow> evaluator \<Rightarrow> evaluator" where
  "evaluate_element w eventNode evaluate ctx =
     (if ctx_contentFilter ctx = [] then Done (GOOD, ctx)
      else and_then (current_element ctx) (\<lambda>el.
        let op = cfe_filterOperator el;
            resolve = resolveOperand w eventNode evaluate
        in if op = UA_FILTEROPERATOR_INVIEW \<or> op = UA_FILTEROPERATOR_RELATEDTO
           then Done (UA_STATUSCODE_BADEVENTFILTERINVALID, ctx)
           else if op \<in> comparison_operators then and_then (compareOperator w resolve ctx) finish_element
           else if op = UA_FILTEROPERATOR_LIKE then Done (UA_STATUSCODE_BADFILTEROPERATORUNSUPPORTED, ctx)
           else if op = UA_FILTEROPERATOR_NOT then and_then (notOperator resolve ctx) finish_element
           else if op = UA_FILTEROPERATOR_BETWEEN then and_then (betweenOperator w resolve ctx) finish_element
           else if op = UA_FILTEROPERATOR_INLIST then and_then (inListOperator w resolve ctx) finish_element
           else if op = UA_FILTEROPERATOR_ISNULL then and_then (isNullOperator resolve ctx) finish_element
           else if op = UA_FILTEROPERATOR_AND then and_then (andOperator resolve ctx) finish_element
           else if op = UA_FILTEROPERATOR_OR then and_then (orOperator resolve ctx) finish_element
           else if op = UA_FILTEROPERATOR_CAST then Done (UA_STATUSCODE_BADFILTEROPERATORUNSUPPORTED, ctx)
           else if op = UA_FILTEROPERATOR_BITWISEAND \<or> op = UA_FILTEROPERATOR_BITWISEOR
           then and_then (bitwiseOperator w resolve ctx) finish_element
           else if op = UA_FILTEROPERATOR_OFTYPE then and_then (ofTypeOperator w eventNode ctx) finish_element
           else Done (UA_STATUSCODE_BADFILTEROPERATORINVALID, ctx)))"

fun evaluateWhereClauseContentFilter :: "UA_EventWorld \<Rightarrow> UA_NodeId \<Rightarrow> nat \<Rightarrow> evaluator" where
  "evaluateWhereClauseContentFilter w eventNode 0 ctx = TooDeep"
| "evaluateWhereClauseContentFilter w eventNode (Suc stack) ctx =
     evaluate_element w eventNode (evaluateWhereClauseContentFilter w eventNode stack) ctx"

definition UA_Server_evaluateWhereClauseContentFilter ::
  "UA_EventWorld \<Rightarrow> UA_NodeId \<Rightarrow> nat \<Rightarrow> UA_ContentFilterElement list \<Rightarrow> UA_ContentFilterElementResult list \<Rightarrow> ptr list \<Rightarrow>
   (status \<times> UA_ContentFilterElementResult list \<times> ptr list) outcome" where
  "UA_Server_evaluateWhereClauseContentFilter w eventNode stack contentFilter contentFilterResult mallocs =
     (if contentFilter = [] then Done (GOOD, contentFilterResult, mallocs)
      else if length contentFilter > 256 then Done (UA_STATUSCODE_BADINVALIDARGUMENT, contentFilterResult, mallocs)
      else and_then (evaluateWhereClauseContentFilter w eventNode stack
             \<lparr>ctx_contentFilter = contentFilter, ctx_elementResults = contentFilterResult,
              ctx_valueResult = replicate (length contentFilter) VVariantEmpty, ctx_index = 0, ctx_mallocs = mallocs\<rparr>)
             (\<lambda>(res, ctx). Done (res, ctx_elementResults ctx, ctx_mallocs ctx)))"

end
