(* ===== verification/Value_Range.thy ===== *)
theory Value_Range
  imports Sub_State
begin

text \<open>
  Index ranges like \<^verbatim>\<open>1:3,5\<close>: \<^verbatim>\<open>UA_NumericRange_parse\<close> of \<^verbatim>\<open>src/ua_types.c\<close> and the numbers of
  \<^verbatim>\<open>src/ua_util.c\<close>, with the proof that every range is read back from its text.

  \<open>mallocs\<close> are the results of the coming allocations, 0 or the end of the list for a failure.
\<close>

definition alloc :: "ptr list \<Rightarrow> ptr \<times> ptr list" where
  "alloc mallocs = (case mallocs of [] \<Rightarrow> (0, []) | p # ps \<Rightarrow> (p, ps))"

section \<open>Numbers\<close>

definition digit_of :: "u8 \<Rightarrow> u8 \<Rightarrow> u32 option" where
  "digit_of base c =
     (let c' = uint c; b = uint base
      in if c' \<ge> 48 \<and> c' \<le> 57 \<and> c' \<le> 48 + (b - 1) then Some (ucast c - 48)
         else if b > 9 \<and> c' \<ge> 97 \<and> c' \<le> 122 \<and> c' \<le> 97 + (b - 11) then Some (ucast c - 97 + 10)
         else if b > 9 \<and> c' \<ge> 65 \<and> c' \<le> 90 \<and> c' \<le> 65 + (b - 11) then Some (ucast c - 65 + 10)
         else None)"

text \<open>The number wraps around at 32 bits. The second result is the progress.\<close>

fun readNumber_loop :: "u8 \<Rightarrow> u8 list \<Rightarrow> u32 \<Rightarrow> nat \<Rightarrow> u32 \<times> nat" where
  "readNumber_loop base [] n progress = (n, progress)"
| "readNumber_loop base (c # cs) n progress =
     (case digit_of base c of
        None \<Rightarrow> (n, progress)
      | Some d \<Rightarrow> readNumber_loop base cs (n * ucast base + d) (progress + 1))"

definition UA_readNumberWithBase :: "u8 list \<Rightarrow> u8 \<Rightarrow> u32 \<times> nat" where
  "UA_readNumberWithBase buf base = readNumber_loop base buf 0 0"

definition UA_readNumber :: "u8 list \<Rightarrow> u32 \<times> nat" where
  "UA_readNumber buf = UA_readNumberWithBase buf 10"

section \<open>Ranges\<close>

text \<open>A dimension and the progress, 0 if there is none.\<close>

definition readDimension :: "u8 list \<Rightarrow> (u32 \<times> u32) \<times> nat" where
  "readDimension buf =
     (let (mn, progress) = UA_readNumber buf
      in if progress = 0 then ((mn, 0), 0)
         else if length buf \<le> progress + 1 \<or> buf ! progress \<noteq> 58 then ((mn, mn), progress)
         else let progress = progress + 1;
                  (mx, progress2) = UA_readNumber (drop progress buf)
              in if progress2 = 0 \<or> mn \<ge> mx then ((mn, mx), 0)
                 else ((mn, mx), progress + progress2))"

text \<open>\<^verbatim>\<open>dimensionsMax\<close> grows by two, so that every second dimension needs an allocation.\<close>

function range_loop :: "(u32 \<times> u32) list \<Rightarrow> u8 list \<Rightarrow> ptr list \<Rightarrow> (status \<times> (u32 \<times> u32) list) \<times> ptr list" where
  "range_loop dims buf mallocs =
     (let (newds, mallocs) = (if even (length dims) then alloc mallocs else (1, mallocs))
      in if newds = 0 then ((UA_STATUSCODE_BADOUTOFMEMORY, []), mallocs)
         else let (dim, progress) = readDimension buf
              in if progress = 0 then ((UA_STATUSCODE_BADINDEXRANGEINVALID, []), mallocs)
                 else if length buf \<le> progress then ((GOOD, dims @ [dim]), mallocs)
                 else if buf ! progress \<noteq> 44 then ((UA_STATUSCODE_BADINDEXRANGEINVALID, []), mallocs)
                 else range_loop (dims @ [dim]) (drop (progress + 1) buf) mallocs)"
  by pat_completeness auto

termination
  by (relation "measure (\<lambda>(dims, buf, mallocs). length buf)") (auto split: if_splits)

declare range_loop.simps [simp del]

definition UA_NumericRange_parse :: "UA_String \<Rightarrow> ptr list \<Rightarrow> (status \<times> (u32 \<times> u32) list) \<times> ptr list" where
  "UA_NumericRange_parse str mallocs = range_loop [] (string_bytes str) mallocs"

section \<open>Reading back a text\<close>

fun decimal :: "nat \<Rightarrow> u8 list" where
  "decimal n = (if n < 10 then [of_nat (48 + n)] else decimal (n div 10) @ [of_nat (48 + n mod 10)])"

declare decimal.simps [simp del]

definition dimension_text :: "u32 \<times> u32 \<Rightarrow> u8 list" where
  "dimension_text d = decimal (unat (fst d)) @ (if fst d = snd d then [] else 58 # decimal (unat (snd d)))"

fun range_text :: "(u32 \<times> u32) list \<Rightarrow> u8 list" where
  "range_text [] = []"
| "range_text [d] = dimension_text d"
| "range_text (d # ds) = dimension_text d @ 44 # range_text ds"

text \<open>A text that does not begin with a digit.\<close>

definition no_digit :: "u8 list \<Rightarrow> bool" where
  "no_digit cs = (case cs of [] \<Rightarrow> True | c # _ \<Rightarrow> digit_of 10 c = None)"

lemma no_digit_simps [simp]: "no_digit []" "no_digit (58 # cs)" "no_digit (44 # cs)"
  by (simp_all add: no_digit_def digit_of_def)

lemma digit_of_decimal: "n < 10 \<Longrightarrow> digit_of 10 (of_nat (48 + n)) = Some (of_nat n)"
proof -
  assume "n < 10"
  then have "n \<in> {0, 1, 2, 3, 4, 5, 6, 7, 8, 9}" by auto
  then show ?thesis by (elim insertE emptyE) (simp_all add: digit_of_def)
qed

lemma readNumber_stops: "no_digit cs \<Longrightarrow> readNumber_loop 10 cs n p = (n, p)"
  by (cases cs) (simp_all add: no_digit_def)

lemma readNumber_decimal:
  "readNumber_loop 10 (decimal n @ cs) a p =
     readNumber_loop 10 cs (a * 10 ^ length (decimal n) + of_nat n) (p + length (decimal n))"
proof (induction n arbitrary: cs rule: decimal.induct)
  case (1 n)
  show ?case
  proof (cases "n < 10")
    case True
    then show ?thesis
      by (subst (1 2 3) decimal.simps) (simp add: digit_of_decimal del: of_nat_add)
  next
    case False
    have n: "of_nat n = (of_nat (n div 10) * 10 + of_nat (n mod 10) :: u32)"
      by (metis div_mult_mod_eq of_nat_add of_nat_mult of_nat_numeral)
    have d: "decimal n = decimal (n div 10) @ [of_nat (48 + n mod 10)]"
      using False by (subst decimal.simps) simp
    define q where "q = n div 10"
    define r where "r = n mod 10"
    have r: "r < 10" by (simp add: r_def)
    have IH: "readNumber_loop 10 (decimal q @ cs) a p =
        readNumber_loop 10 cs (a * 10 ^ length (decimal q) + of_nat q) (p + length (decimal q))" for cs
      unfolding q_def by (rule "1.IH" [OF False])
    have "readNumber_loop 10 (decimal n @ cs) a p = readNumber_loop 10 (decimal q @ of_nat (48 + r) # cs) a p"
      by (simp add: d [folded q_def r_def] del: of_nat_add)
    also have "\<dots> = readNumber_loop 10 cs ((a * 10 ^ length (decimal q) + of_nat q) * 10 + of_nat r)
        (p + length (decimal q) + 1)"
      by (simp add: IH digit_of_decimal [OF r] del: of_nat_add)
    also have "(a * 10 ^ length (decimal q) + of_nat q) * 10 + of_nat r =
        a * 10 ^ length (decimal n) + of_nat n"
      unfolding n [folded q_def r_def] by (simp add: d [folded q_def r_def] algebra_simps del: of_nat_add)
    finally show ?thesis by (simp add: d [folded q_def r_def] del: of_nat_add)
  qed
qed

lemma decimal_not_empty [simp]: "decimal n \<noteq> []" by (subst decimal.simps) simp

lemma UA_readNumber_decimal:
  "no_digit cs \<Longrightarrow> UA_readNumber (decimal (unat w) @ cs) = (w, length (decimal (unat w)))"
  by (simp add: UA_readNumber_def UA_readNumberWithBase_def readNumber_decimal readNumber_stops)

text \<open>What may follow a dimension: nothing or a comma.\<close>

lemma readDimension_text:
  assumes "fst d \<le> snd d" "cs = [] \<or> hd cs = 44"
  shows "readDimension (dimension_text d @ cs) = (d, length (dimension_text d))"
proof -
  have cs: "no_digit cs" "cs = [] \<or> (\<exists>cs'. cs = 44 # cs')" using assms(2) by (cases cs; force)+
  show ?thesis
  proof (cases "fst d = snd d")
    case True
    then show ?thesis
      using cs by (cases d) (auto simp: readDimension_def dimension_text_def UA_readNumber_decimal nth_append)
  next
    case False
    then show ?thesis
      using cs assms(1)
      by (cases d) (auto simp: readDimension_def dimension_text_def UA_readNumber_decimal nth_append order_less_le)
  qed
qed

lemma dimension_text_not_empty [simp]: "dimension_text d \<noteq> []" by (simp add: dimension_text_def)

lemma range_loop_text:
  "ds \<noteq> [] \<Longrightarrow> \<forall>d \<in> set ds. fst d \<le> snd d \<Longrightarrow> 0 \<notin> set ms \<Longrightarrow> length ds \<le> length ms \<Longrightarrow>
   \<exists>ms'. range_loop dims (range_text ds) ms = ((GOOD, dims @ ds), ms')"
proof (induction ds arbitrary: dims ms rule: range_text.induct)
  case (2 d)
  then obtain m ms' where ms: "ms = m # ms'" "m \<noteq> 0" by (cases ms) auto
  have "readDimension (dimension_text d) = (d, length (dimension_text d))"
    using readDimension_text [of d "[]"] 2 by simp
  then show ?case using ms by (subst range_loop.simps) (simp add: alloc_def)
next
  case (3 d e es)
  then obtain m ms' where ms: "ms = m # ms'" "m \<noteq> 0" by (cases ms) auto
  have r: "readDimension (dimension_text d @ 44 # range_text (e # es)) = (d, length (dimension_text d))"
    by (rule readDimension_text) (use 3 in simp_all)
  let ?rest = "if even (length dims) then ms' else ms"
  have "0 \<notin> set ?rest" "length (e # es) \<le> length ?rest" using 3(4,5) ms by auto
  then obtain m2 where m2: "range_loop (dims @ [d]) (range_text (e # es)) ?rest = ((GOOD, (dims @ [d]) @ e # es), m2)"
    using "3.IH" [of ?rest "dims @ [d]"] 3(3) by auto
  then show ?case using ms r by (subst range_loop.simps) (auto simp: alloc_def split: if_splits)
qed simp

lemma readDimension_ordered: "readDimension buf = (d, progress) \<Longrightarrow> progress \<noteq> 0 \<Longrightarrow> fst d \<le> snd d"
  by (auto simp: readDimension_def Let_def split: if_splits prod.splits)

lemma range_loop_ordered:
  "range_loop dims buf ms = ((GOOD, ds), ms') \<Longrightarrow> \<forall>d \<in> set dims. fst d \<le> snd d \<Longrightarrow>
   ds \<noteq> [] \<and> (\<forall>d \<in> set ds. fst d \<le> snd d)"
proof (induction dims buf ms rule: range_loop.induct)
  case (1 dims buf ms)
  obtain a ms1 where a: "(if even (length dims) then alloc ms else (1, ms)) = (a, ms1)" by (meson surj_pair)
  obtain d p where d: "readDimension buf = (d, p)" by (cases "readDimension buf") blast
  have *: "a \<noteq> 0" "p \<noteq> 0" using "1.prems"(1)
    by (subst (asm) range_loop.simps, auto simp: a d status_defs split: if_splits)+
  then have o: "fst d \<le> snd d" using readDimension_ordered d by blast
  show ?case
  proof (cases "length buf \<le> p")
    case True
    then show ?thesis using "1.prems" * o
      by (subst (asm) range_loop.simps) (auto simp: a d)
  next
    case False
    then have "buf ! p = 44" "range_loop (dims @ [d]) (drop (p + 1) buf) ms1 = ((GOOD, ds), ms')"
      using "1.prems"(1) * by (subst (asm) range_loop.simps, auto simp: a d status_defs split: if_splits)+
    then show ?thesis
      using "1.IH" [OF a [symmetric] refl *(1) d [symmetric] refl *(2) False] "1.prems"(2) o by simp
  qed
qed

text \<open>
  C36: An index range is read back from its text. For every non-empty list of dimensions whose first index is
  at most the second, the text with the numbers in decimal, a colon inside a proper range and commas in
  between is parsed to exactly this list, if the allocations succeed; and whatever text is accepted, the
  result is such a list.
\<close>

theorem UA_NumericRange_parse_text:
  assumes "dims \<noteq> []" "\<forall>d \<in> set dims. fst d \<le> snd d" "0 \<notin> set mallocs" "length dims \<le> length mallocs"
  shows "fst (UA_NumericRange_parse (Some (range_text dims)) mallocs) = (GOOD, dims) \<and>
    (\<forall>str ms ds ms'. UA_NumericRange_parse str ms = ((GOOD, ds), ms') \<longrightarrow>
       ds \<noteq> [] \<and> (\<forall>d \<in> set ds. fst d \<le> snd d))"
proof (intro conjI allI impI)
  show "fst (UA_NumericRange_parse (Some (range_text dims)) mallocs) = (GOOD, dims)"
    using range_loop_text [OF assms, of "[]"] by (auto simp: UA_NumericRange_parse_def string_bytes_def)
next
  fix str ms ds ms'
  assume "UA_NumericRange_parse str ms = ((GOOD, ds), ms')"
  then have "range_loop [] (string_bytes str) ms = ((GOOD, ds), ms')" by (simp add: UA_NumericRange_parse_def)
  from range_loop_ordered [OF this] show "ds \<noteq> []" "\<forall>d \<in> set ds. fst d \<le> snd d" by simp_all
qed

text \<open>The text \<^verbatim>\<open>1:3,5\<close>.\<close>

lemma UA_NumericRange_parse_text_witness:
  "range_text [(1, 3), (5, 5)] = [49, 58, 51, 44, 53] \<and>
   fst (UA_NumericRange_parse (Some [49, 58, 51, 44, 53]) [4, 8]) = (GOOD, [(1, 3), (5, 5)])"
proof -
  have t: "range_text [(1, 3), (5, 5)] = [49, 58, 51, 44, 53]"
    by (simp add: dimension_text_def decimal.simps)
  show ?thesis using UA_NumericRange_parse_text [of "[(1, 3), (5, 5)]" "[4, 8]"] t by simp
qed

end
