(* ===== verification/Filter_Event.thy ===== *)
theory Filter_Event
  imports Filter_Eval Value_Range
begin

text \<open>
  Event filters around their where clause, \<^verbatim>\<open>src/server/ua_subscription_events_filter.c\<close> and
  \<^verbatim>\<open>src/server/ua_subscription_events.c\<close>: the validation when an item is created, the filtering of an event
  and its delivery to the items of a node.
\<close>

section \<open>Validation of the where clause\<close>

definition set_status :: "status \<Rightarrow> UA_ContentFilterElementResult \<Rightarrow> UA_ContentFilterElementResult" where
  "set_status res er = er\<lparr>cfr_statusCode := res\<rparr>"

definition set_operand_status ::
  "nat \<Rightarrow> status \<Rightarrow> UA_ContentFilterElementResult \<Rightarrow> UA_ContentFilterElementResult outcome" where
  "set_operand_status j res er =
     and_then (required (cfr_operandStatusCodes er)) (\<lambda>codes.
       if j < length codes then Done (er\<lparr>cfr_operandStatusCodes := Some (codes[j := res])\<rparr>) else Undefined)"

text \<open>The loop over the operands of AND and OR; its \<^verbatim>\<open>break\<close> leaves this loop only.\<close>

fun check_operands ::
  "nat \<Rightarrow> UA_FilterOperand list \<Rightarrow> nat list \<Rightarrow> UA_ContentFilterElementResult \<Rightarrow> UA_ContentFilterElementResult outcome" where
  "check_operands elementsSize operands [] er = Done er"
| "check_operands elementsSize operands (j # js) er =
     (case operands ! j of
        ElementOperand i \<Rightarrow>
          if unat i > elementsSize - 1
          then and_then (set_operand_status j UA_STATUSCODE_BADINDEXRANGEINVALID er)
                 (\<lambda>er. Done (set_status UA_STATUSCODE_BADINDEXRANGEINVALID er))
          else check_operands elementsSize operands js er
      | _ \<Rightarrow> and_then (set_operand_status j UA_STATUSCODE_BADFILTEROPERANDINVALID er)
               (\<lambda>er. Done (set_status UA_STATUSCODE_BADFILTEROPERANDINVALID er)))"

definition two_operands :: "u32 set" where
  "two_operands = comparison_operators \<union>
     {UA_FILTEROPERATOR_LIKE, UA_FILTEROPERATOR_CAST, UA_FILTEROPERATOR_BITWISEAND, UA_FILTEROPERATOR_BITWISEOR}"

definition validate_ofType :: "UA_EventWorld \<Rightarrow> UA_FilterOperand list \<Rightarrow> status outcome" where
  "validate_ofType w operands =
     (case operands of
        [LiteralOperand (VVariantScalar t d)] \<Rightarrow>
          if t \<noteq> UA_TYPES_NODEID then Done UA_STATUSCODE_BADFILTEROPERANDINVALID
          else (case d of
            VNodeId ofTypeId \<Rightarrow> Done (if \<not> ew_isSubtype w ofTypeId (ns0 UA_NS0ID_BASEEVENTTYPE)
                                    then UA_STATUSCODE_BADNODEIDINVALID else GOOD)
          | _ \<Rightarrow> Undefined)
      | [_] \<Rightarrow> Done UA_STATUSCODE_BADFILTEROPERANDINVALID
      | _ \<Rightarrow> Done UA_STATUSCODE_BADFILTEROPERANDCOUNTMISMATCH)"

definition validate_element ::
  "UA_EventWorld \<Rightarrow> nat \<Rightarrow> UA_ContentFilterElement \<Rightarrow> UA_ContentFilterElementResult \<Rightarrow>
   UA_ContentFilterElementResult outcome" where
  "validate_element w elementsSize ef er =
     (let op = cfe_filterOperator ef;
          n = length (cfe_filterOperands ef);
          count = (\<lambda>bad. Done (set_status (if bad then UA_STATUSCODE_BADFILTEROPERANDCOUNTMISMATCH else GOOD) er))
      in if op = UA_FILTEROPERATOR_INVIEW \<or> op = UA_FILTEROPERATOR_RELATEDTO
         then Done (set_status UA_STATUSCODE_BADEVENTFILTERINVALID er)
         else if op \<in> two_operands then count (n \<noteq> 2)
         else if op = UA_FILTEROPERATOR_AND \<or> op = UA_FILTEROPERATOR_OR
         then if n \<noteq> 2 then count True
              else and_then (check_operands elementsSize (cfe_filterOperands ef) [0, 1] er)
                     (\<lambda>er. Done (set_status GOOD er))
         else if op = UA_FILTEROPERATOR_ISNULL \<or> op = UA_FILTEROPERATOR_NOT then count (n \<noteq> 1)
         else if op = UA_FILTEROPERATOR_INLIST then count (n \<le> 2)
         else if op = UA_FILTEROPERATOR_BETWEEN then count (n \<noteq> 3)
         else if op = UA_FILTEROPERATOR_OFTYPE
         then and_then (validate_ofType w (cfe_filterOperands ef)) (\<lambda>res. Done (set_status res er))
         else Done (set_status UA_STATUSCODE_BADFILTEROPERATORUNSUPPORTED er))"

text \<open>\<^verbatim>\<open>UA_Array_new\<close> for status codes: an empty array needs no memory.\<close>

definition new_codes :: "nat \<Rightarrow> ptr list \<Rightarrow> status list option \<times> ptr list" where
  "new_codes n mallocs =
     (if n = 0 then (Some [], mallocs)
      else let (p, mallocs) = alloc mallocs in (if p = 0 then None else Some (replicate n 0), mallocs))"

fun validate_elements ::
  "UA_EventWorld \<Rightarrow> nat \<Rightarrow> UA_ContentFilterElement list \<Rightarrow> ptr list \<Rightarrow>
   (UA_ContentFilterElementResult list \<times> ptr list) outcome" where
  "validate_elements w elementsSize [] mallocs = Done ([], mallocs)"
| "validate_elements w elementsSize (ef # efs) mallocs =
     (let (codes, mallocs) = new_codes (length (cfe_filterOperands ef)) mallocs
      in and_then (validate_element w elementsSize ef \<lparr>cfr_statusCode = 0, cfr_operandStatusCodes = codes\<rparr>) (\<lambda>er.
         and_then (validate_elements w elementsSize efs mallocs) (\<lambda>(ers, mallocs).
           Done (er # ers, mallocs))))"

text \<open>
  The result: the number of element results, and the array, which is NULL if there is no memory. The size
  is set before the allocation.
\<close>

definition UA_Event_staticWhereClauseValidation ::
  "UA_EventWorld \<Rightarrow> UA_ContentFilterElement list \<Rightarrow> ptr list \<Rightarrow>
   ((status \<times> nat \<times> UA_ContentFilterElementResult list option) \<times> ptr list) outcome" where
  "UA_Event_staticWhereClauseValidation w elements mallocs =
     (if elements = [] then Done ((GOOD, 0, None), mallocs)
      else let (p, mallocs) = alloc mallocs
           in if p = 0 then Done ((UA_STATUSCODE_BADOUTOFMEMORY, length elements, None), mallocs)
              else and_then (validate_elements w (length elements) elements mallocs)
                     (\<lambda>(ers, mallocs). Done ((GOOD, length elements, Some ers), mallocs)))"

section \<open>Validation of the select clauses\<close>

definition UA_NodeId_isNull :: "UA_NodeId \<Rightarrow> bool" where
  "UA_NodeId_isNull p =
     (namespaceIndex p = 0 \<and>
      (case nid p of
         NumericId i \<Rightarrow> i = 0
       | StringId s \<Rightarrow> string_length s = 0
       | ByteStringId s \<Rightarrow> string_length s = 0
       | GuidId g \<Rightarrow> guidOrder g \<lparr>data1 = 0, data2 = 0, data3 = 0, data4 = replicate 8 0\<rparr> = UA_ORDER_EQ))"

definition UA_QualifiedName_isNull :: "u16 \<times> UA_String \<Rightarrow> bool" where
  "UA_QualifiedName_isNull q = (fst q = 0 \<and> string_length (snd q) = 0)"

definition validate_select :: "UA_EventWorld \<Rightarrow> UA_SimpleAttributeOperand \<Rightarrow> ptr list \<Rightarrow> status \<times> ptr list" where
  "validate_select w sao mallocs =
     (let t = sao_typeDefinitionId sao;
          path = array_elems (sao_browsePath sao)
      in if UA_NodeId_isNull t then (UA_STATUSCODE_BADTYPEDEFINITIONINVALID, mallocs)
         else if UA_NodeId_equal t (ns0 UA_NS0ID_CONDITIONTYPE) then (GOOD, mallocs)
         else if sao_browsePath sao = None then (UA_STATUSCODE_BADBROWSENAMEINVALID, mallocs)
         else if \<not> ew_isSubtype w t (ns0 UA_NS0ID_BASEEVENTTYPE)
         then (UA_STATUSCODE_BADTYPEDEFINITIONINVALID, mallocs)
         else if \<not> (0 < sao_attributeId sao \<and> sao_attributeId sao < 28)
         then (UA_STATUSCODE_BADATTRIBUTEIDINVALID, mallocs)
         else let result = (if list_ex UA_QualifiedName_isNull path then UA_STATUSCODE_BADBROWSENAMEINVALID else GOOD);
                  (res, childTypeNodes) = ew_subtypes w t
              in if res \<noteq> GOOD then (UA_STATUSCODE_BADATTRIBUTEIDINVALID, mallocs)
                 else let subTypeContainField = list_ex (\<lambda>n. fst (ew_browse w n path) = GOOD) childTypeNodes;
                          result = (if \<not> subTypeContainField then UA_STATUSCODE_BADNODEIDUNKNOWN else result)
                      in if result \<noteq> GOOD then (result, mallocs)
                         else if \<not> UA_String_equal (sao_indexRange sao) None
                         then let ((parsed, _), mallocs) = UA_NumericRange_parse (sao_indexRange sao) mallocs
                              in if parsed \<noteq> GOOD then (UA_STATUSCODE_BADINDEXRANGEINVALID, mallocs)
                                 else if sao_attributeId sao \<noteq> UA_ATTRIBUTEID_VALUE
                                 then (UA_STATUSCODE_BADTYPEMISMATCH, mallocs)
                                 else (GOOD, mallocs)
                         else (GOOD, mallocs))"

fun UA_Event_staticSelectClauseValidation ::
  "UA_EventWorld \<Rightarrow> UA_SimpleAttributeOperand list \<Rightarrow> ptr list \<Rightarrow> status list \<times> ptr list" where
  "UA_Event_staticSelectClauseValidation w [] mallocs = ([], mallocs)"
| "UA_Event_staticSelectClauseValidation w (sao # saos) mallocs =
     (let (res, mallocs) = validate_select w sao mallocs;
          (rest, mallocs) = UA_Event_staticSelectClauseValidation w saos mallocs
      in (res # rest, mallocs))"

section \<open>Filtering an event\<close>

definition isValidEvent :: "UA_EventWorld \<Rightarrow> UA_NodeId \<Rightarrow> UA_NodeId \<Rightarrow> bool" where
  "isValidEvent w validEventParent eventId =
     (let (res, targets) = ew_browse w eventId [(0, ascii ''EventType'')]
      in if res \<noteq> GOOD \<or> targets = [] then False
         else let (retval, tOutVariant) = ew_readValue w (hd targets)
              in if retval \<noteq> GOOD then False
                 else (case tOutVariant of
                   VVariantScalar t (VNodeId tEventType) \<Rightarrow>
                     t = UA_TYPES_NODEID \<and>
                     (if UA_NodeId_equal validEventParent (ns0 UA_NS0ID_CONDITIONTYPE) \<and>
                         ew_isSubtype w tEventType (ns0 UA_NS0ID_CONDITIONTYPE)
                      then True else ew_isSubtype w tEventType (ns0 UA_NS0ID_BASEEVENTTYPE))
                 | _ \<Rightarrow> False))"

text \<open>
  The arrays for the status codes of the operands: each has the size of the operands of the first element
  (\<^verbatim>\<open>filter->whereClause.elements->filterOperandsSize\<close>).
\<close>

fun new_element_results :: "nat \<Rightarrow> nat \<Rightarrow> ptr list \<Rightarrow> UA_ContentFilterElementResult list option \<times> ptr list" where
  "new_element_results 0 operandsSize mallocs = (Some [], mallocs)"
| "new_element_results (Suc n) operandsSize mallocs =
     (let (codes, mallocs) = new_codes operandsSize mallocs
      in case codes of
           None \<Rightarrow> (None, mallocs)
         | Some cs \<Rightarrow>
             let (ers, mallocs) = new_element_results n operandsSize mallocs
             in (map_option (\<lambda>ers. \<lparr>cfr_statusCode = 0, cfr_operandStatusCodes = Some cs\<rparr> # ers) ers, mallocs))"

definition new_where_results ::
  "UA_ContentFilterElement list \<Rightarrow> ptr list \<Rightarrow> UA_ContentFilterElementResult list option \<times> ptr list" where
  "new_where_results elements mallocs =
     (case elements of
        [] \<Rightarrow> (Some [], mallocs)
      | el # _ \<Rightarrow>
          let (p, mallocs) = alloc mallocs
          in if p = 0 then (None, mallocs)
             else new_element_results (length elements) (length (cfe_filterOperands el)) mallocs)"

definition select_field :: "UA_EventWorld \<Rightarrow> UA_NodeId \<Rightarrow> UA_SimpleAttributeOperand \<Rightarrow> ua_val" where
  "select_field w eventNode sao =
     (if \<not> UA_NodeId_equal (sao_typeDefinitionId sao) (ns0 UA_NS0ID_BASEEVENTTYPE) \<and>
         \<not> isValidEvent w (sao_typeDefinitionId sao) eventNode
      then VVariantEmpty else snd (resolveSimpleAttributeOperand w eventNode sao))"

definition filterEvent ::
  "UA_EventWorld \<Rightarrow> nat \<Rightarrow> UA_NodeId \<Rightarrow> UA_EventFilter \<Rightarrow> ptr list \<Rightarrow> ((status \<times> ua_val list) \<times> ptr list) outcome" where
  "filterEvent w stack eventNode eventFilter mallocs =
     (if ef_selectClauses eventFilter = [] then Done ((UA_STATUSCODE_BADEVENTFILTERINVALID, []), mallocs)
      else let (eventFields, mallocs) = alloc mallocs
           in if eventFields = 0 then Done ((UA_STATUSCODE_BADOUTOFMEMORY, []), mallocs)
              else let (selectClauseResults, mallocs) = alloc mallocs
                   in if selectClauseResults = 0 then Done ((UA_STATUSCODE_BADOUTOFMEMORY, []), mallocs)
                      else let (ers, mallocs) = new_where_results (ef_whereClause eventFilter) mallocs
                           in case ers of
                                None \<Rightarrow> Done ((UA_STATUSCODE_BADOUTOFMEMORY, []), mallocs)
                              | Some ers \<Rightarrow>
                                  and_then (UA_Server_evaluateWhereClauseContentFilter w eventNode stack
                                              (ef_whereClause eventFilter) ers mallocs) (\<lambda>(res, _, mallocs).
                                    if res \<noteq> GOOD then Done ((res, []), mallocs)
                                    else Done ((GOOD, map (select_field w eventNode) (ef_selectClauses eventFilter)), mallocs)))"

section \<open>Delivery\<close>

text \<open>
  \<open>world\<close> is the address space for every session. A notification that was made before the test of the filter
  is not released when the filter is of another kind.
\<close>

definition UA_Event_addEventToMonitoredItem ::
  "(UA_Server \<Rightarrow> ptr \<Rightarrow> UA_EventWorld) \<Rightarrow> nat \<Rightarrow> UA_NodeId \<Rightarrow> ptr \<Rightarrow> UA_Server \<Rightarrow> (status \<times> UA_Server) outcome" where
  "UA_Event_addEventToMonitoredItem world stack event m s =
     (let (n, s) = UA_Notification_new s
      in if n = 0 then Done (UA_STATUSCODE_BADOUTOFMEMORY, s)
         else case mon_filter (the_mon s m) of
                EventFilter eventFilter \<Rightarrow>
                  let session = sub_session (the_sub s (mon_subscription (the_mon s m)))
                  in and_then (filterEvent (world s session) stack event eventFilter (srv_mallocs s))
                       (\<lambda>((retval, fields), mallocs).
                          let s = s\<lparr>srv_mallocs := mallocs\<rparr>
                          in if retval \<noteq> GOOD
                             then Done (if retval = UA_STATUSCODE_BADNOMATCH then GOOD else retval,
                                        UA_Notification_delete n s)
                             else let s = mod_not n (\<lambda>x. x\<lparr>not_mon := m,
                                        not_data := Event \<lparr>ev_clientHandle = mon_clientHandle (the_mon s m),
                                                           ev_eventFields = fields\<rparr>\<rparr>) s
                                  in Done (GOOD, UA_Notification_enqueueAndTrigger n s))
              | _ \<Rightarrow> Done (UA_STATUSCODE_BADFILTERNOTALLOWED, s))"

text \<open>
  The loops of \<^verbatim>\<open>triggerEvent\<close> over the nodes that emit the event and over the items of such a node. The
  problem of an item is logged only. \<open>isObject\<close> tells the class of a node.
\<close>

fun add_event_to_items ::
  "(UA_Server \<Rightarrow> ptr \<Rightarrow> UA_EventWorld) \<Rightarrow> nat \<Rightarrow> UA_NodeId \<Rightarrow> ptr list \<Rightarrow> UA_Server \<Rightarrow> UA_Server outcome" where
  "add_event_to_items world stack event [] s = Done s"
| "add_event_to_items world stack event (m # ms) s =
     (if mon_attributeId (the_mon s m) \<noteq> UA_ATTRIBUTEID_EVENTNOTIFIER then add_event_to_items world stack event ms s
      else and_then (UA_Event_addEventToMonitoredItem world stack event m s)
             (\<lambda>(_, s). add_event_to_items world stack event ms s))"

fun add_event_to_nodes ::
  "(UA_Server \<Rightarrow> ptr \<Rightarrow> UA_EventWorld) \<Rightarrow> (UA_NodeId \<Rightarrow> bool) \<Rightarrow> nat \<Rightarrow> UA_NodeId \<Rightarrow> UA_NodeId list \<Rightarrow>
   UA_Server \<Rightarrow> UA_Server outcome" where
  "add_event_to_nodes world isObject stack event [] s = Done s"
| "add_event_to_nodes world isObject stack event (n # ns) s =
     (case srv_nodes s n of
        None \<Rightarrow> add_event_to_nodes world isObject stack event ns s
      | Some items \<Rightarrow>
          if \<not> isObject n then add_event_to_nodes world isObject stack event ns s
          else and_then (add_event_to_items world stack event items s)
                 (\<lambda>s. add_event_to_nodes world isObject stack event ns s))"

end
