(* ===== verification/Sub_Items.thy ===== *)
theory Sub_Items
  imports Sub_Service Filter_Event
begin

text \<open>
  The services of the monitored item service set, \<^verbatim>\<open>src/server/ua_services_monitoreditem.c\<close>: the check of the
  requested parameters, the creation of an item, its modification, its mode, its deletion and its links.

  Creating an item can have undefined behaviour (an \<open>outcome\<close>), because the filter of an event item is used
  without regard to the result of its check. The parameters \<open>rd\<close> and \<open>changed\<close> are those of
  \<open>Sub_MonitoredItem\<close>.
\<close>

section \<open>Requests\<close>

record UA_ReadValueId =
  rvi_nodeId :: UA_NodeId
  rvi_attributeId :: u32
  rvi_indexRange :: UA_String
  rvi_dataEncoding :: "u16 \<times> UA_String"

record UA_MonitoringParameters =
  mp_clientHandle :: u32
  mp_samplingInterval :: UA_Double
  mp_filter :: UA_MonitoringFilter
  mp_queueSize :: u32
  mp_discardOldest :: bool

record UA_MonitoredItemCreateRequest =
  mcr_itemToMonitor :: UA_ReadValueId
  mcr_monitoringMode :: u32
  mcr_requestedParameters :: UA_MonitoringParameters

text \<open>\<open>mcp_filterResult\<close>: the results of the where clause and of the select clauses.\<close>

record UA_MonitoredItemCreateResult =
  mcp_statusCode :: status
  mcp_monitoredItemId :: u32
  mcp_revisedSamplingInterval :: UA_Double
  mcp_revisedQueueSize :: u32
  mcp_filterResult :: "(UA_ContentFilterElementResult list \<times> status list) option"

definition create_result :: "status \<Rightarrow> UA_MonitoredItemCreateResult" where
  "create_result res = \<lparr>mcp_statusCode = res, mcp_monitoredItemId = 0, mcp_revisedSamplingInterval = Finite 0,
     mcp_revisedQueueSize = 0, mcp_filterResult = None\<rparr>"

text \<open>
  What the services read from the address space: attributes for a session, the world of the event filters,
  the minimum sampling interval if the node is a variable; and the position of \<^verbatim>\<open>UA_Range\<close> in the generated
  table of types.
\<close>

record UA_ItemWorld =
  iw_read :: "UA_Server \<Rightarrow> ptr \<Rightarrow> UA_ReadValueId \<Rightarrow> u32 \<Rightarrow> UA_DataValue"
  iw_events :: "UA_Server \<Rightarrow> ptr \<Rightarrow> UA_EventWorld"
  iw_minimumSamplingInterval :: "UA_Server \<Rightarrow> UA_NodeId \<Rightarrow> UA_Double option"
  iw_rangeType :: tyref

section \<open>A percentage as a deadband\<close>

fun ieee_sign :: "UA_Double \<Rightarrow> rat" where
  "ieee_sign (Finite r) = sgn r"
| "ieee_sign PosInf = 1"
| "ieee_sign NegInf = - 1"
| "ieee_sign NaN = 0"

fun ieee_mul :: "(rat \<Rightarrow> rat) \<Rightarrow> UA_Double \<Rightarrow> UA_Double \<Rightarrow> UA_Double" where
  "ieee_mul rnd (Finite x) (Finite y) = Finite (rnd (x * y))"
| "ieee_mul rnd x y =
     (let sg = ieee_sign x * ieee_sign y in if sg = 0 then NaN else if sg > 0 then PosInf else NegInf)"

fun ieee_div_finite :: "(rat \<Rightarrow> rat) \<Rightarrow> UA_Double \<Rightarrow> rat \<Rightarrow> UA_Double" where
  "ieee_div_finite rnd (Finite x) y = Finite (rnd (x / y))"
| "ieee_div_finite rnd x y = x"

definition setAbsoluteFromPercentageDeadband ::
  "(rat \<Rightarrow> rat) \<Rightarrow> tyref \<Rightarrow> UA_EventWorld \<Rightarrow> UA_NodeId \<Rightarrow> UA_DataChangeFilter \<Rightarrow> (status \<times> UA_DataChangeFilter) outcome" where
  "setAbsoluteFromPercentageDeadband rnd rangeType w variable flt =
     (let percent = dcf_deadbandValue flt
      in if ieee_less percent (Finite 0) \<or> ieee_less (Finite 100) percent
         then Done (UA_STATUSCODE_BADDEADBANDFILTERINVALID, flt)
         else let (res, targets) = ew_browse w variable [(0, ascii ''EURange'')]
              in if res \<noteq> GOOD \<or> targets = [] then Done (UA_STATUSCODE_BADFILTERNOTALLOWED, flt)
                 else (case dv_value (ew_read w (hd targets) UA_ATTRIBUTEID_VALUE None) of
                   VVariantScalar t d \<Rightarrow>
                     if t \<noteq> rangeType then Done (UA_STATUSCODE_BADFILTERNOTALLOWED, flt)
                     else (case d of
                       VStruct [FScalar (VU64 low), FScalar (VU64 high)] \<Rightarrow>
                         let absDeadband = ieee_mul rnd (ieee_div_finite rnd percent 100)
                                             (ieee_sub rnd (double_value high) (double_value low))
                         in if ieee_less absDeadband (Finite 0) \<or> \<not> ieee_eq absDeadband absDeadband
                            then Done (UA_STATUSCODE_BADFILTERNOTALLOWED, flt)
                            else Done (GOOD, flt\<lparr>dcf_deadbandType := UA_DEADBANDTYPE_ABSOLUTE,
                                                  dcf_deadbandValue := absDeadband\<rparr>)
                     | _ \<Rightarrow> Undefined)
                 | _ \<Rightarrow> Done (UA_STATUSCODE_BADFILTERNOTALLOWED, flt)))"

section \<open>The check of the parameters\<close>

definition checkDeadband ::
  "UA_ItemWorld \<Rightarrow> UA_Server \<Rightarrow> ptr \<Rightarrow> UA_MonitoredItem \<Rightarrow> tyref option \<Rightarrow> UA_DataChangeFilter \<Rightarrow>
   (status \<times> UA_DataChangeFilter) outcome" where
  "checkDeadband w s ses mon valueType flt =
     (let numeric = (case valueType of None \<Rightarrow> False
                     | Some t \<Rightarrow> UA_DataType_isNumeric (kind_at (ew_types (iw_events w s ses)) t));
          allowed = (mon_attributeId mon = UA_ATTRIBUTEID_VALUE \<and> numeric)
      in if dcf_deadbandType flt = UA_DEADBANDTYPE_NONE then Done (GOOD, flt)
         else if dcf_deadbandType flt = UA_DEADBANDTYPE_ABSOLUTE
         then Done (if allowed then GOOD else UA_STATUSCODE_BADFILTERNOTALLOWED, flt)
         else if dcf_deadbandType flt = UA_DEADBANDTYPE_PERCENT
         then if allowed
              then setAbsoluteFromPercentageDeadband (cfg_round (srv_config s)) (iw_rangeType w) (iw_events w s ses)
                     (mon_nodeId mon) flt
              else Done (UA_STATUSCODE_BADFILTERNOTALLOWED, flt)
         else Done (UA_STATUSCODE_BADMONITOREDITEMFILTERUNSUPPORTED, flt))"

definition checkFilter ::
  "UA_ItemWorld \<Rightarrow> UA_Server \<Rightarrow> ptr \<Rightarrow> UA_MonitoredItem \<Rightarrow> tyref option \<Rightarrow> UA_MonitoringFilter \<Rightarrow>
   (status \<times> UA_MonitoringFilter) outcome" where
  "checkFilter w s ses mon valueType flt =
     (if mon_attributeId mon = UA_ATTRIBUTEID_EVENTNOTIFIER
      then Done ((case flt of EventFilter _ \<Rightarrow> GOOD | _ \<Rightarrow> UA_STATUSCODE_BADEVENTFILTERINVALID), flt)
      else (case flt of
        EncodedFilter encoding _ _ \<Rightarrow>
          Done (if encoding = EO_NOBODY then GOOD else UA_STATUSCODE_BADMONITOREDITEMFILTERUNSUPPORTED, flt)
      | DataChangeFilter dcf \<Rightarrow>
          and_then (checkDeadband w s ses mon valueType dcf) (\<lambda>(res, dcf). Done (res, DataChangeFilter dcf))
      | _ \<Rightarrow> Done (UA_STATUSCODE_BADFILTERNOTALLOWED, flt)))"

text \<open>\<^verbatim>\<open>UA_BOUNDEDVALUE_SETWBOUNDS\<close> leaves a value that is not a number alone.\<close>

definition bounded_double :: "rat \<Rightarrow> rat \<Rightarrow> UA_Double \<Rightarrow> UA_Double" where
  "bounded_double mn mx d = (if ieee_less (Finite mx) d then Finite mx else if ieee_less d (Finite mn) then Finite mn else d)"

text \<open>
  The final test for NaN looks at the parameters of the item, which are the checked ones (\<open>own\<close>) only when
  the item is created.
\<close>

definition adjustSamplingInterval ::
  "UA_ItemWorld \<Rightarrow> UA_Server \<Rightarrow> UA_MonitoredItem \<Rightarrow> bool \<Rightarrow> UA_Double \<Rightarrow> UA_Double" where
  "adjustSamplingInterval w s mon own requested =
     (let cfg = srv_config s;
          p = mon_subscription mon;
          publishingInterval = Finite (sub_publishingInterval (the_sub s p));
          interval1 =
            (if mon_attributeId mon \<noteq> UA_ATTRIBUTEID_VALUE then requested
             else case iw_minimumSamplingInterval w s (mon_nodeId mon) of
                    None \<Rightarrow> requested
                  | Some minimum \<Rightarrow>
                      let samplingInterval = (if ieee_less requested (Finite 0) \<and> p \<noteq> 0 then publishingInterval else requested)
                      in if ieee_less samplingInterval minimum then minimum else requested)
      in if ieee_less interval1 (Finite 0)
         then if p = 0 then Finite (cfg_samplingInterval_min cfg)
              else let bounded = bounded_double (cfg_samplingInterval_min cfg) (cfg_samplingInterval_max cfg) publishingInterval
                   in if ieee_eq bounded publishingInterval then Finite (- 1) else bounded
         else let bounded = bounded_double (cfg_samplingInterval_min cfg) (cfg_samplingInterval_max cfg) interval1;
                  tested = (if own then bounded else mon_samplingInterval mon)
              in if \<not> ieee_eq tested tested then Finite (cfg_samplingInterval_min cfg) else bounded)"

definition adjustQueueSize :: "UA_ServerConfig \<Rightarrow> UA_MonitoredItem \<Rightarrow> u32 \<Rightarrow> u32" where
  "adjustQueueSize cfg mon requested =
     (if mon_attributeId mon = UA_ATTRIBUTEID_EVENTNOTIFIER
      then if requested = 0 then cfg_queueSize_max cfg
           else bounded_count (cfg_queueSize_min cfg) (cfg_queueSize_max cfg) requested
      else let requested = (if requested = 0 then 1 else requested)
           in if requested \<noteq> 1 then bounded_count (cfg_queueSize_min cfg) (cfg_queueSize_max cfg) requested
              else requested)"

definition checkAdjustMonitoredItemParams ::
  "UA_ItemWorld \<Rightarrow> UA_Server \<Rightarrow> ptr \<Rightarrow> UA_MonitoredItem \<Rightarrow> bool \<Rightarrow> tyref option \<Rightarrow> UA_MonitoringParameters \<Rightarrow>
   (status \<times> UA_MonitoringParameters) outcome" where
  "checkAdjustMonitoredItemParams w s ses mon own valueType params =
     and_then (checkFilter w s ses mon valueType (mp_filter params)) (\<lambda>(res, flt).
       let params = params\<lparr>mp_filter := flt\<rparr>
       in if res \<noteq> GOOD then Done (res, params)
          else Done (GOOD, params\<lparr>mp_samplingInterval := adjustSamplingInterval w s mon own (mp_samplingInterval params),
                                  mp_queueSize := adjustQueueSize (srv_config s) mon (mp_queueSize params)\<rparr>))"

section \<open>The check of an event filter\<close>

text \<open>
  What \<^verbatim>\<open>content.decoded.data\<close> of the filter is: NULL, an event filter, or something else that is used as an
  event filter. In an encoded filter it is a part of the type id, whose identifier lies at that place.
\<close>

definition identifier_is_zero :: "UA_NodeId \<Rightarrow> bool" where
  "identifier_is_zero n =
     (case nid n of
        NumericId i \<Rightarrow> i = 0
      | StringId t \<Rightarrow> string_length t = 0
      | ByteStringId t \<Rightarrow> string_length t = 0
      | GuidId g \<Rightarrow> data1 g = 0 \<and> data2 g = 0 \<and> data3 g = 0)"

definition event_filter_data :: "UA_MonitoringFilter \<Rightarrow> UA_EventFilter option outcome" where
  "event_filter_data flt =
     (case flt of
        EventFilter ef \<Rightarrow> Done (Some ef)
      | EncodedFilter _ tid _ \<Rightarrow> if identifier_is_zero tid then Done None else Undefined
      | DataChangeFilter _ \<Rightarrow> Undefined
      | OtherFilter _ None \<Rightarrow> Done None
      | OtherFilter _ (Some _) \<Rightarrow> Undefined)"

definition first_bad :: "status list \<Rightarrow> status" where
  "first_bad rs = (case find (\<lambda>r. r \<noteq> GOOD) rs of None \<Rightarrow> GOOD | Some r \<Rightarrow> r)"

definition event_filter_result ::
  "status \<Rightarrow> UA_ContentFilterElementResult list \<Rightarrow> status list \<Rightarrow> ptr list \<Rightarrow>
   (status \<times> (UA_ContentFilterElementResult list \<times> status list) option) \<times> ptr list" where
  "event_filter_result res ers selects mallocs =
     (let (efr, mallocs) = alloc mallocs
      in if efr = 0 then ((UA_STATUSCODE_BADOUTOFMEMORY, None), mallocs)
         else let (results, mallocs) = (if selects = [] then (1, mallocs) else alloc mallocs)
              in if results = 0 then ((UA_STATUSCODE_BADOUTOFMEMORY, None), mallocs)
                 else ((res, Some (ers, selects)), mallocs))"

text \<open>When the array of the element results cannot be allocated, its size is set and its elements are read.\<close>

definition checkEventFilterParam ::
  "UA_EventWorld \<Rightarrow> UA_MonitoredItem \<Rightarrow> UA_MonitoringFilter \<Rightarrow> ptr list \<Rightarrow>
   ((status \<times> (UA_ContentFilterElementResult list \<times> status list) option) \<times> ptr list) outcome" where
  "checkEventFilterParam w mon flt mallocs =
     (if mon_attributeId mon \<noteq> UA_ATTRIBUTEID_EVENTNOTIFIER then Done ((GOOD, None), mallocs)
      else and_then (event_filter_data flt) (\<lambda>ef. case ef of
        None \<Rightarrow> Done ((UA_STATUSCODE_BADEVENTFILTERINVALID, None), mallocs)
      | Some ef \<Rightarrow>
          if length (ef_selectClauses ef) > 128 then Done ((UA_STATUSCODE_BADCONFIGURATIONERROR, None), mallocs)
          else and_then (UA_Event_staticWhereClauseValidation w (ef_whereClause ef) mallocs) (\<lambda>((_, size, ers), mallocs).
               let (selects, mallocs) = UA_Event_staticSelectClauseValidation w (ef_selectClauses ef) mallocs
               in and_then (if size = 0 then Done [] else required ers) (\<lambda>ers.
                  let where_res = first_bad (map cfr_statusCode ers);
                      select_res = first_bad selects;
                      res = (if select_res \<noteq> GOOD then select_res else where_res)
                  in if res = GOOD then Done ((GOOD, None), mallocs)
                     else Done (event_filter_result res ers selects mallocs)))))"

section \<open>Creation\<close>

definition UA_MonitoredItem_init :: UA_MonitoredItem where
  "UA_MonitoredItem_init = \<lparr>mon_subscription = 0, mon_monitoredItemId = 0, mon_nodeId = ns0 0, mon_attributeId = 0,
     mon_indexRange = None, mon_dataEncoding = (0, None), mon_timestampsToReturn = 0, mon_monitoringMode = 0,
     mon_registered = False, mon_triggeredUntil = UA_INT64_MIN, mon_clientHandle = 0, mon_samplingInterval = Finite 0,
     mon_filter = EncodedFilter EO_NOBODY (ns0 0) None, mon_maxQueueSize = 0, mon_discardOldest = False,
     mon_samplingType = UA_MONITOREDITEMSAMPLINGTYPE_NONE, mon_callbackId = 0, mon_lastValue = UA_DataValue_init,
     mon_triggeringLinks = [], mon_queue = [], mon_queueSize = 0, mon_eventOverflows = 0\<rparr>"

definition set_itemToMonitor :: "UA_ReadValueId \<Rightarrow> UA_MonitoredItem \<Rightarrow> UA_MonitoredItem" where
  "set_itemToMonitor rvi i = i\<lparr>mon_nodeId := rvi_nodeId rvi, mon_attributeId := rvi_attributeId rvi,
     mon_indexRange := rvi_indexRange rvi, mon_dataEncoding := rvi_dataEncoding rvi\<rparr>"

definition set_parameters :: "UA_MonitoringParameters \<Rightarrow> UA_MonitoredItem \<Rightarrow> UA_MonitoredItem" where
  "set_parameters mp i = i\<lparr>mon_clientHandle := mp_clientHandle mp, mon_samplingInterval := mp_samplingInterval mp,
     mon_filter := mp_filter mp, mon_maxQueueSize := unat (mp_queueSize mp), mon_discardOldest := mp_discardOldest mp\<rparr>"

definition no_parameters :: UA_MonitoringParameters where
  "no_parameters = \<lparr>mp_clientHandle = 0, mp_samplingInterval = Finite 0, mp_filter = EncodedFilter EO_NOBODY (ns0 0) None,
     mp_queueSize = 0, mp_discardOldest = False\<rparr>"

text \<open>\<^verbatim>\<open>cmc_sub\<close> is NULL for an item of the server itself.\<close>

record createMonContext =
  cmc_sub :: ptr
  cmc_timestampsToReturn :: u32

definition too_many_items :: "UA_Server \<Rightarrow> ptr \<Rightarrow> bool" where
  "too_many_items s p =
     (p \<noteq> 0 \<and>
      (cfg_maxMonitoredItems (srv_config s) \<noteq> 0 \<and> srv_monitoredItemsSize s \<ge> unat (cfg_maxMonitoredItems (srv_config s)) \<or>
       cfg_maxMonitoredItemsPerSubscription (srv_config s) \<noteq> 0 \<and>
       sub_monitoredItemsSize (the_sub s p) \<ge> unat (cfg_maxMonitoredItemsPerSubscription (srv_config s))))"

definition unrecoverable :: "UA_DataValue \<Rightarrow> bool" where
  "unrecoverable v =
     (dv_hasStatus v \<and>
      dv_status v \<in> {UA_STATUSCODE_BADNODEIDUNKNOWN, UA_STATUSCODE_BADATTRIBUTEIDINVALID,
        UA_STATUSCODE_BADDATAENCODINGUNSUPPORTED, UA_STATUSCODE_BADDATAENCODINGINVALID, UA_STATUSCODE_BADINDEXRANGEINVALID})"

text \<open>The checks before anything is allocated.\<close>

definition check_request ::
  "UA_Server \<Rightarrow> createMonContext \<Rightarrow> UA_ReadValueId \<Rightarrow> UA_DataValue \<Rightarrow> status outcome" where
  "check_request s cmc rvi v =
     (let (ns, encoding) = rvi_dataEncoding rvi
      in if too_many_items s (cmc_sub cmc) then Done UA_STATUSCODE_BADTOOMANYMONITOREDITEMS
         else if string_length encoding > 0 \<and> (\<not> UA_String_equal (ascii ''Default Binary'') encoding \<or> ns \<noteq> 0)
         then Done UA_STATUSCODE_BADDATAENCODINGUNSUPPORTED
         else if rvi_attributeId rvi \<noteq> UA_ATTRIBUTEID_VALUE \<and> string_length encoding > 0
         then Done UA_STATUSCODE_BADDATAENCODINGINVALID
         else if unrecoverable v then Done (dv_status v)
         else if rvi_attributeId rvi \<noteq> UA_ATTRIBUTEID_EVENTNOTIFIER then Done GOOD
         else if cmc_sub cmc = 0 then Done UA_STATUSCODE_BADNOTSUPPORTED
         else if \<not> dv_hasValue v \<or> variant_type (dv_value v) = None then Done UA_STATUSCODE_BADINTERNALERROR
         else (case variant_elements (dv_value v) of
             VU8 eventNotifierValue # _ \<Rightarrow>
               Done (if and eventNotifierValue 1 \<noteq> 1 then UA_STATUSCODE_BADNOTSUPPORTED else GOOD)
           | _ \<Rightarrow> Undefined))"

text \<open>The end of the operation: the item is registered and its mode is set.\<close>

definition activate_item ::
  "(UA_Server \<Rightarrow> UA_MonitoredItem \<Rightarrow> UA_DataValue) \<Rightarrow> (UA_MonitoredItem \<Rightarrow> UA_DataValue \<Rightarrow> bool) \<Rightarrow> createMonContext \<Rightarrow>
   u32 \<Rightarrow> UA_MonitoredItemCreateResult \<Rightarrow> ptr \<Rightarrow> UA_Server \<Rightarrow> UA_MonitoredItemCreateResult \<times> UA_Server" where
  "activate_item rd changed cmc mode result m s =
     (let s = mod_mon m (\<lambda>i. i\<lparr>mon_lastValue := UA_DataValue_init\<lparr>dv_hasStatus := True, dv_status := - 1\<rparr>\<rparr>) s;
          s = UA_Server_registerMonitoredItem m s;
          (res, s) = UA_MonitoredItem_setMonitoringMode rd changed m mode s
      in if res \<noteq> GOOD then (result\<lparr>mcp_statusCode := res\<rparr>, UA_MonitoredItem_delete m s)
         else let interval = mon_samplingInterval (the_mon s m)
              in (result\<lparr>
                   mcp_monitoredItemId := mon_monitoredItemId (the_mon s m),
                   mcp_revisedSamplingInterval :=
                     (if ieee_less interval (Finite 0) \<and> cmc_sub cmc \<noteq> 0
                      then Finite (sub_publishingInterval (the_sub s (cmc_sub cmc))) else interval),
                   mcp_revisedQueueSize := of_nat (mon_maxQueueSize (the_mon s m))\<rparr>, s))"

definition Operation_CreateMonitoredItem ::
  "UA_ItemWorld \<Rightarrow> (UA_Server \<Rightarrow> UA_MonitoredItem \<Rightarrow> UA_DataValue) \<Rightarrow> (UA_MonitoredItem \<Rightarrow> UA_DataValue \<Rightarrow> bool) \<Rightarrow>
   ptr \<Rightarrow> createMonContext \<Rightarrow> UA_MonitoredItemCreateRequest \<Rightarrow> UA_Server \<Rightarrow>
   (UA_MonitoredItemCreateResult \<times> UA_Server) outcome" where
  "Operation_CreateMonitoredItem w rd changed ses cmc request s =
     (let v = iw_read w s ses (mcr_itemToMonitor request) (cmc_timestampsToReturn cmc)
      in and_then (check_request s cmc (mcr_itemToMonitor request) v) (\<lambda>res.
      if res \<noteq> GOOD then Done (create_result res, s)
      else let (m, s) = malloc s
      in if m = 0 then Done (create_result UA_STATUSCODE_BADOUTOFMEMORY, s)
      else let newMon = UA_MonitoredItem_init\<lparr>mon_subscription := cmc_sub cmc,
                          mon_timestampsToReturn := cmc_timestampsToReturn cmc\<rparr>;
               (copy1, s) = malloc s;
               (copy2, s) = malloc s;
               newMon = (if copy1 \<noteq> 0 then set_itemToMonitor (mcr_itemToMonitor request) newMon else newMon);
               params = (if copy2 \<noteq> 0 then mcr_requestedParameters request else no_parameters);
               copied = (if copy1 \<noteq> 0 \<and> copy2 \<noteq> 0 then GOOD else UA_STATUSCODE_BADOUTOFMEMORY)
      in and_then (checkAdjustMonitoredItemParams w s ses newMon True (variant_type (dv_value v)) params)
           (\<lambda>(adjusted, params).
         and_then (checkEventFilterParam (iw_events w s ses) newMon (mp_filter params) (srv_mallocs s))
           (\<lambda>((checked, filterResult), mallocs).
         let s = s\<lparr>srv_mallocs := mallocs, srv_monitored := (srv_monitored s)(m \<mapsto> set_parameters params newMon)\<rparr>;
             res = or copied (or adjusted checked);
             result = (create_result res)\<lparr>mcp_filterResult := filterResult\<rparr>
         in if res \<noteq> GOOD then Done (result, UA_MonitoredItem_delete m s)
            else Done (activate_item rd changed cmc (mcr_monitoringMode request) result m s)))))"

text \<open>\<^verbatim>\<open>UA_Server_processServiceOperations\<close> for operations that may be undefined.\<close>

fun run_outcomes ::
  "('op \<Rightarrow> UA_Server \<Rightarrow> ('res \<times> UA_Server) outcome) \<Rightarrow> 'op list \<Rightarrow> UA_Server \<Rightarrow> ('res list \<times> UA_Server) outcome" where
  "run_outcomes f [] s = Done ([], s)"
| "run_outcomes f (x # xs) s =
     and_then (f x s) (\<lambda>(r, s). and_then (run_outcomes f xs s) (\<lambda>(rs, s). Done (r # rs, s)))"

definition process_outcomes ::
  "('op \<Rightarrow> UA_Server \<Rightarrow> ('res \<times> UA_Server) outcome) \<Rightarrow> 'op list \<Rightarrow> UA_Server \<Rightarrow>
   ((status \<times> 'res list) \<times> UA_Server) outcome" where
  "process_outcomes f ops s =
     (if ops = [] then Done ((UA_STATUSCODE_BADNOTHINGTODO, []), s)
      else let (results, s) = malloc s
           in if results = 0 then Done ((UA_STATUSCODE_BADOUTOFMEMORY, []), s)
              else and_then (run_outcomes f ops s) (\<lambda>(rs, s). Done ((GOOD, rs), s)))"

definition UA_TIMESTAMPSTORETURN_NEITHER :: u32 where "UA_TIMESTAMPSTORETURN_NEITHER = 3"

definition too_many_operations :: "UA_Server \<Rightarrow> 'a list \<Rightarrow> bool" where
  "too_many_operations s ops =
     (cfg_maxMonitoredItemsPerCall (srv_config s) \<noteq> 0 \<and> length ops > unat (cfg_maxMonitoredItemsPerCall (srv_config s)))"

definition reset_lifetime :: "ptr \<Rightarrow> UA_Server \<Rightarrow> UA_Server" where
  "reset_lifetime p s = mod_sub p (\<lambda>u. u\<lparr>sub_currentLifetimeCount := 0\<rparr>) s"

definition Service_CreateMonitoredItems ::
  "UA_ItemWorld \<Rightarrow> (UA_Server \<Rightarrow> UA_MonitoredItem \<Rightarrow> UA_DataValue) \<Rightarrow> (UA_MonitoredItem \<Rightarrow> UA_DataValue \<Rightarrow> bool) \<Rightarrow>
   ptr \<Rightarrow> u32 \<Rightarrow> u32 \<Rightarrow> UA_MonitoredItemCreateRequest list \<Rightarrow> UA_Server \<Rightarrow>
   ((status \<times> UA_MonitoredItemCreateResult list) \<times> UA_Server) outcome" where
  "Service_CreateMonitoredItems w rd changed ses timestampsToReturn subscriptionId itemsToCreate s =
     (if too_many_operations s itemsToCreate then Done ((UA_STATUSCODE_BADTOOMANYOPERATIONS, []), s)
      else if timestampsToReturn > UA_TIMESTAMPSTORETURN_NEITHER
      then Done ((UA_STATUSCODE_BADTIMESTAMPSTORETURNINVALID, []), s)
      else case UA_Session_getSubscriptionById ses subscriptionId s of
             None \<Rightarrow> Done ((UA_STATUSCODE_BADSUBSCRIPTIONIDINVALID, []), s)
           | Some p \<Rightarrow>
               process_outcomes (Operation_CreateMonitoredItem w rd changed ses
                   \<lparr>cmc_sub = p, cmc_timestampsToReturn = timestampsToReturn\<rparr>) itemsToCreate (reset_lifetime p s))"

definition UA_Server_createDataChangeMonitoredItem ::
  "UA_ItemWorld \<Rightarrow> (UA_Server \<Rightarrow> UA_MonitoredItem \<Rightarrow> UA_DataValue) \<Rightarrow> (UA_MonitoredItem \<Rightarrow> UA_DataValue \<Rightarrow> bool) \<Rightarrow>
   ptr \<Rightarrow> u32 \<Rightarrow> UA_MonitoredItemCreateRequest \<Rightarrow> UA_Server \<Rightarrow> (UA_MonitoredItemCreateResult \<times> UA_Server) outcome" where
  "UA_Server_createDataChangeMonitoredItem w rd changed adminSession timestampsToReturn item s =
     Operation_CreateMonitoredItem w rd changed adminSession
       \<lparr>cmc_sub = 0, cmc_timestampsToReturn = timestampsToReturn\<rparr> item s"

section \<open>Modification\<close>

record UA_MonitoredItemModifyResult =
  mmp_statusCode :: status
  mmp_revisedSamplingInterval :: UA_Double
  mmp_revisedQueueSize :: u32

definition modify_result :: "status \<Rightarrow> UA_MonitoredItemModifyResult" where
  "modify_result res = \<lparr>mmp_statusCode = res, mmp_revisedSamplingInterval = Finite 0, mmp_revisedQueueSize = 0\<rparr>"

definition item_to_monitor :: "UA_MonitoredItem \<Rightarrow> UA_ReadValueId" where
  "item_to_monitor i = \<lparr>rvi_nodeId = mon_nodeId i, rvi_attributeId = mon_attributeId i,
     rvi_indexRange = mon_indexRange i, rvi_dataEncoding = mon_dataEncoding i\<rparr>"

text \<open>The new parameters are moved over, and the sampling starts again if its interval has changed.\<close>

definition apply_parameters ::
  "(UA_Server \<Rightarrow> UA_MonitoredItem \<Rightarrow> UA_DataValue) \<Rightarrow> (UA_MonitoredItem \<Rightarrow> UA_DataValue \<Rightarrow> bool) \<Rightarrow> ptr \<Rightarrow>
   UA_MonitoringParameters \<Rightarrow> UA_Server \<Rightarrow> UA_MonitoredItemModifyResult \<times> UA_Server" where
  "apply_parameters rd changed m params s =
     (let oldSamplingInterval = mon_samplingInterval (the_mon s m);
          s = mod_mon m (set_parameters params) s;
          (res, s) = (if \<not> ieee_eq oldSamplingInterval (mon_samplingInterval (the_mon s m))
                      then let s = UA_MonitoredItem_unregisterSampling m s
                           in UA_MonitoredItem_setMonitoringMode rd changed m (mon_monitoringMode (the_mon s m)) s
                      else (GOOD, s));
          interval = mon_samplingInterval (the_mon s m);
          queueSize = mon_maxQueueSize (the_mon s m);
          s = UA_MonitoredItem_ensureQueueSpace m s;
          s = UA_MonitoredItem_removeOverflowInfoBits m s;
          revised = (if ieee_less interval (Finite 0) \<and> mon_subscription (the_mon s m) \<noteq> 0
                     then Finite (sub_publishingInterval (the_sub s (mon_subscription (the_mon s m)))) else interval)
      in (\<lparr>mmp_statusCode = res, mmp_revisedSamplingInterval = revised, mmp_revisedQueueSize = of_nat queueSize\<rparr>, s))"

definition Operation_ModifyMonitoredItem ::
  "UA_ItemWorld \<Rightarrow> (UA_Server \<Rightarrow> UA_MonitoredItem \<Rightarrow> UA_DataValue) \<Rightarrow> (UA_MonitoredItem \<Rightarrow> UA_DataValue \<Rightarrow> bool) \<Rightarrow>
   ptr \<Rightarrow> ptr \<Rightarrow> u32 \<times> UA_MonitoringParameters \<Rightarrow> UA_Server \<Rightarrow> (UA_MonitoredItemModifyResult \<times> UA_Server) outcome" where
  "Operation_ModifyMonitoredItem w rd changed ses p request s =
     (case UA_Subscription_getMonitoredItem p (fst request) s of
        None \<Rightarrow> Done (modify_result UA_STATUSCODE_BADMONITOREDITEMIDINVALID, s)
      | Some m \<Rightarrow>
          let (copy, s) = malloc s
          in if copy = 0 then Done (modify_result UA_STATUSCODE_BADOUTOFMEMORY, s)
          else let mon = the_mon s m;
                   v = iw_read w s ses (item_to_monitor mon) (mon_timestampsToReturn mon)
          in and_then (checkAdjustMonitoredItemParams w s ses mon False (variant_type (dv_value v)) (snd request))
               (\<lambda>(res, params).
             if res \<noteq> GOOD then Done (modify_result res, s)
             else Done (apply_parameters rd changed m params s)))"

definition Service_ModifyMonitoredItems ::
  "UA_ItemWorld \<Rightarrow> (UA_Server \<Rightarrow> UA_MonitoredItem \<Rightarrow> UA_DataValue) \<Rightarrow> (UA_MonitoredItem \<Rightarrow> UA_DataValue \<Rightarrow> bool) \<Rightarrow>
   ptr \<Rightarrow> u32 \<Rightarrow> u32 \<Rightarrow> (u32 \<times> UA_MonitoringParameters) list \<Rightarrow> UA_Server \<Rightarrow>
   ((status \<times> UA_MonitoredItemModifyResult list) \<times> UA_Server) outcome" where
  "Service_ModifyMonitoredItems w rd changed ses timestampsToReturn subscriptionId itemsToModify s =
     (if too_many_operations s itemsToModify then Done ((UA_STATUSCODE_BADTOOMANYOPERATIONS, []), s)
      else if timestampsToReturn > UA_TIMESTAMPSTORETURN_NEITHER
      then Done ((UA_STATUSCODE_BADTIMESTAMPSTORETURNINVALID, []), s)
      else case UA_Session_getSubscriptionById ses subscriptionId s of
             None \<Rightarrow> Done ((UA_STATUSCODE_BADSUBSCRIPTIONIDINVALID, []), s)
           | Some p \<Rightarrow>
               process_outcomes (Operation_ModifyMonitoredItem w rd changed ses p) itemsToModify (reset_lifetime p s))"

section \<open>Mode and deletion\<close>

definition Operation_SetMonitoringMode ::
  "(UA_Server \<Rightarrow> UA_MonitoredItem \<Rightarrow> UA_DataValue) \<Rightarrow> (UA_MonitoredItem \<Rightarrow> UA_DataValue \<Rightarrow> bool) \<Rightarrow> ptr \<Rightarrow> u32 \<Rightarrow>
   u32 \<Rightarrow> UA_Server \<Rightarrow> status \<times> UA_Server" where
  "Operation_SetMonitoringMode rd changed p monitoringMode monitoredItemId s =
     (case UA_Subscription_getMonitoredItem p monitoredItemId s of
        None \<Rightarrow> (UA_STATUSCODE_BADMONITOREDITEMIDINVALID, s)
      | Some m \<Rightarrow> UA_MonitoredItem_setMonitoringMode rd changed m monitoringMode s)"

definition Operation_DeleteMonitoredItem :: "ptr \<Rightarrow> u32 \<Rightarrow> UA_Server \<Rightarrow> status \<times> UA_Server" where
  "Operation_DeleteMonitoredItem p monitoredItemId s =
     (case UA_Subscription_getMonitoredItem p monitoredItemId s of
        None \<Rightarrow> (UA_STATUSCODE_BADMONITOREDITEMIDINVALID, s)
      | Some m \<Rightarrow> (GOOD, UA_MonitoredItem_delete m s))"

text \<open>Both services check the number of operations, find the subscription and reset its lifetime.\<close>

definition Service_SetMonitoringMode ::
  "(UA_Server \<Rightarrow> UA_MonitoredItem \<Rightarrow> UA_DataValue) \<Rightarrow> (UA_MonitoredItem \<Rightarrow> UA_DataValue \<Rightarrow> bool) \<Rightarrow> ptr \<Rightarrow> u32 \<Rightarrow> u32 \<Rightarrow>
   u32 list \<Rightarrow> UA_Server \<Rightarrow> (status \<times> status list) \<times> UA_Server" where
  "Service_SetMonitoringMode rd changed ses subscriptionId monitoringMode monitoredItemIds s =
     (if too_many_operations s monitoredItemIds then ((UA_STATUSCODE_BADTOOMANYOPERATIONS, []), s)
      else case UA_Session_getSubscriptionById ses subscriptionId s of
             None \<Rightarrow> ((UA_STATUSCODE_BADSUBSCRIPTIONIDINVALID, []), s)
           | Some p \<Rightarrow>
               UA_Server_processServiceOperations (Operation_SetMonitoringMode rd changed p monitoringMode)
                 monitoredItemIds (reset_lifetime p s))"

definition Service_DeleteMonitoredItems ::
  "ptr \<Rightarrow> u32 \<Rightarrow> u32 list \<Rightarrow> UA_Server \<Rightarrow> (status \<times> status list) \<times> UA_Server" where
  "Service_DeleteMonitoredItems ses subscriptionId monitoredItemIds s =
     (if too_many_operations s monitoredItemIds then ((UA_STATUSCODE_BADTOOMANYOPERATIONS, []), s)
      else case UA_Session_getSubscriptionById ses subscriptionId s of
             None \<Rightarrow> ((UA_STATUSCODE_BADSUBSCRIPTIONIDINVALID, []), s)
           | Some p \<Rightarrow>
               UA_Server_processServiceOperations (Operation_DeleteMonitoredItem p) monitoredItemIds (reset_lifetime p s))"

definition UA_Server_deleteMonitoredItem :: "u32 \<Rightarrow> UA_Server \<Rightarrow> status \<times> UA_Server" where
  "UA_Server_deleteMonitoredItem monitoredItemId s =
     (case find (\<lambda>m. mon_monitoredItemId (the_mon s m) = monitoredItemId) (srv_localMonitoredItems s) of
        None \<Rightarrow> (UA_STATUSCODE_BADMONITOREDITEMIDINVALID, s)
      | Some m \<Rightarrow> (GOOD, UA_MonitoredItem_delete m s))"

section \<open>Triggering\<close>

definition new_results :: "'a list \<Rightarrow> UA_Server \<Rightarrow> bool \<times> UA_Server" where
  "new_results ops s = (if ops = [] then (True, s) else let (p, s) = malloc s in (p \<noteq> 0, s))"

definition Service_SetTriggering ::
  "ptr \<Rightarrow> u32 \<Rightarrow> u32 \<Rightarrow> u32 list \<Rightarrow> u32 list \<Rightarrow> UA_Server \<Rightarrow> (status \<times> status list \<times> status list) \<times> UA_Server" where
  "Service_SetTriggering ses subscriptionId triggeringItemId linksToRemove linksToAdd s =
     (if linksToRemove = [] \<and> linksToAdd = [] then ((UA_STATUSCODE_BADNOTHINGTODO, [], []), s)
      else case UA_Session_getSubscriptionById ses subscriptionId s of
             None \<Rightarrow> ((UA_STATUSCODE_BADSUBSCRIPTIONIDINVALID, [], []), s)
           | Some p \<Rightarrow>
               (case UA_Subscription_getMonitoredItem p triggeringItemId s of
                  None \<Rightarrow> ((UA_STATUSCODE_BADMONITOREDITEMIDINVALID, [], []), s)
                | Some m \<Rightarrow>
                    let (ok, s) = new_results linksToRemove s
                    in if \<not> ok then ((UA_STATUSCODE_BADOUTOFMEMORY, [], []), s)
                       else let (ok, s) = new_results linksToAdd s
                            in if \<not> ok then ((UA_STATUSCODE_BADOUTOFMEMORY, [], []), s)
                               else let (removeResults, s) = run_operations (UA_MonitoredItem_removeLink p m) linksToRemove s;
                                        (addResults, s) = run_operations (UA_MonitoredItem_addLink p m) linksToAdd s
                                    in ((GOOD, removeResults, addResults), s)))"

end
