(* ===== verification/Sub_Items_Frame.thy ===== *)
theory Sub_Items_Frame
  imports Sub_Items Sub_Tables
begin

text \<open>The services of monitored items leave the tables of sessions and subscriptions alone.\<close>

text \<open>A chain of outcomes: what holds after every step holds at the end.\<close>

lemma and_then_Done: "and_then x f = Done y \<longleftrightarrow> (\<exists>z. x = Done z \<and> f z = Done y)"
  by (cases x) simp_all

lemma same_tables_operations:
  assumes f: "\<forall>x s r t. f x s = (r, t) \<longrightarrow> same_tables s t"
  shows "run_operations f xs s = (rs, t) \<Longrightarrow> same_tables s t"
proof (induction xs arbitrary: s rs t)
  case (Cons x xs)
  obtain r u where 1: "f x s = (r, u)" by fastforce
  obtain rs' u' where 2: "run_operations f xs u = (rs', u')" by fastforce
  then have "same_tables u u'" by (rule Cons.IH)
  then show ?case using f Cons.prems 1 2 same_tables_trans by fastforce
qed simp

lemma same_tables_process:
  assumes f: "\<forall>x s r t. f x s = (r, t) \<longrightarrow> same_tables s t"
    and t: "UA_Server_processServiceOperations f ops s = (r, t)"
  shows "same_tables s t"
proof -
  obtain p s1 where m: "malloc s = (p, s1)" by fastforce
  obtain rs s2 where o: "run_operations f ops s1 = (rs, s2)" by fastforce
  have "same_tables s s1" by (rule same_tables_malloc [OF m same_tables_refl])
  moreover have "same_tables s1 s2" by (rule same_tables_operations [OF f o])
  ultimately show ?thesis
    using t m o same_tables_trans by (auto simp: UA_Server_processServiceOperations_def split: if_splits)
qed

lemma same_tables_outcomes:
  assumes f: "\<forall>x s r t. f x s = Done (r, t) \<longrightarrow> same_tables s t"
  shows "run_outcomes f xs s = Done (rs, t) \<Longrightarrow> same_tables s t"
proof (induction xs arbitrary: s rs t)
  case (Cons x xs)
  then obtain r u rs' where "f x s = Done (r, u)" "run_outcomes f xs u = Done (rs', t)"
    by (auto simp: and_then_Done)
  then show ?case using f Cons.IH same_tables_trans by blast
qed simp

lemma same_tables_process_outcomes:
  assumes f: "\<forall>x s r t. f x s = Done (r, t) \<longrightarrow> same_tables s t"
    and t: "process_outcomes f ops s = Done (r, t)"
  shows "same_tables s t"
proof -
  obtain p s1 where m: "malloc s = (p, s1)" by fastforce
  have s1: "same_tables s s1" by (rule same_tables_malloc [OF m same_tables_refl])
  consider "t = s" | "t = s1" | rs where "run_outcomes f ops s1 = Done (rs, t)"
    using t m by (auto simp: process_outcomes_def and_then_Done split: if_splits)
  then show ?thesis
  proof cases
    case 3
    then show ?thesis using same_tables_outcomes [OF f 3] s1 same_tables_trans by blast
  qed (use s1 in simp_all)
qed

lemma same_tables_reset_lifetime: "same_tables s t \<Longrightarrow> same_tables s (reset_lifetime p t)"
  unfolding reset_lifetime_def by (rule same_tables_mod_sub) (simp_all add: retrans_of_def)

lemma same_tables_newMon: "same_tables s t \<Longrightarrow> same_tables s (t\<lparr>srv_mallocs := ms, srv_monitored := h\<rparr>)"
  by (simp add: same_tables_def subs_view_def [abs_def])

lemma same_tables_snd: "f = (r, t) \<Longrightarrow> same_tables s (snd f) \<Longrightarrow> same_tables s t"
  by simp

lemma same_tables_activate:
  "same_tables s t \<Longrightarrow> same_tables s (snd (activate_item rd changed cmc mode result m t))"
proof -
  assume t: "same_tables s t"
  let ?u = "UA_Server_registerMonitoredItem m (mod_mon m (\<lambda>i. i\<lparr>mon_lastValue := UA_DataValue_init\<lparr>dv_hasStatus := True,
    dv_status := - 1\<rparr>\<rparr>) t)"
  obtain r v where v: "UA_MonitoredItem_setMonitoringMode rd changed m mode ?u = (r, v)" by fastforce
  have "same_tables s (snd (UA_MonitoredItem_setMonitoringMode rd changed m mode ?u))"
    by (intro same_tables_setMonitoringMode same_tables_registerMon same_tables_mods t)
  then show ?thesis using v same_tables_mon_delete by (auto simp: activate_item_def Let_def)
qed

lemma same_tables_CreateMonitoredItem:
  assumes "Operation_CreateMonitoredItem w rd changed ses cmc request s = Done (r, t)"
  shows "same_tables s t"
proof -
  obtain m s1 where m: "malloc s = (m, s1)" by fastforce
  obtain c1 s2 where c1: "malloc s1 = (c1, s2)" by fastforce
  obtain c2 s3 where c2: "malloc s2 = (c2, s3)" by fastforce
  have s1: "same_tables s s1" by (rule same_tables_malloc [OF m same_tables_refl])
  have s3: "same_tables s s3" by (rule same_tables_malloc [OF c2 same_tables_malloc [OF c1 s1]])
  have "t = s \<or> t = s1 \<or> (\<exists>ms h. t = UA_MonitoredItem_delete m (s3\<lparr>srv_mallocs := ms, srv_monitored := h\<rparr>)) \<or>
      (\<exists>ms h result. t = snd (activate_item rd changed cmc (mcr_monitoringMode request) result m
         (s3\<lparr>srv_mallocs := ms, srv_monitored := h\<rparr>)))"
    using assms by (auto simp: Operation_CreateMonitoredItem_def and_then_Done m c1 c2 Let_def split: if_splits)
       (metis snd_conv)+
  then show ?thesis
    using s1 same_tables_mon_delete [OF same_tables_newMon [OF s3]] same_tables_activate [OF same_tables_newMon [OF s3]]
    by (elim disjE exE) simp_all
qed

lemma same_tables_apply:
  "same_tables s t \<Longrightarrow> same_tables s (snd (apply_parameters rd changed m params t))"
proof -
  assume t: "same_tables s t"
  let ?u = "UA_MonitoredItem_unregisterSampling m (mod_mon m (set_parameters params) t)"
  obtain r v where v: "UA_MonitoredItem_setMonitoringMode rd changed m (mon_monitoringMode (the_mon ?u m)) ?u = (r, v)"
    by fastforce
  have "same_tables s (snd (UA_MonitoredItem_setMonitoringMode rd changed m (mon_monitoringMode (the_mon ?u m)) ?u))"
    by (intro same_tables_setMonitoringMode same_tables_unregisterSampling same_tables_mods t)
  then have "same_tables s v" using v by simp
  then show ?thesis using v t
    by (auto simp: apply_parameters_def Let_def UA_MonitoredItem_removeOverflowInfoBits_def
        intro!: same_tables_ensure same_tables_mods split: option.splits)
qed

lemma same_tables_ModifyMonitoredItem:
  assumes "Operation_ModifyMonitoredItem w rd changed ses p request s = Done (r, t)"
  shows "same_tables s t"
proof -
  obtain c s1 where c: "malloc s = (c, s1)" by fastforce
  have s1: "same_tables s s1" by (rule same_tables_malloc [OF c same_tables_refl])
  have "t = s \<or> t = s1 \<or> (\<exists>m params. t = snd (apply_parameters rd changed m params s1))"
    using assms by (auto simp: Operation_ModifyMonitoredItem_def and_then_Done c Let_def split: if_splits option.splits)
       (metis snd_conv)+
  then show ?thesis using s1 same_tables_apply [OF s1] by (elim disjE exE) simp_all
qed

lemma same_tables_CreateMonitoredItems:
  assumes "Service_CreateMonitoredItems w rd changed ses ts i items s = Done (r, t)"
  shows "same_tables s t"
proof -
  have f: "\<forall>x s r t. Operation_CreateMonitoredItem w rd changed ses cmc x s = Done (r, t) \<longrightarrow> same_tables s t" for cmc
    using same_tables_CreateMonitoredItem by blast
  have "t = s \<or> (\<exists>p cmc. process_outcomes (Operation_CreateMonitoredItem w rd changed ses cmc) items (reset_lifetime p s) = Done (r, t))"
    using assms by (auto simp: Service_CreateMonitoredItems_def split: if_splits option.splits)
  then show ?thesis
    using same_tables_process_outcomes [OF f] same_tables_reset_lifetime [OF same_tables_refl] same_tables_trans by blast
qed

lemma same_tables_ModifyMonitoredItems:
  assumes "Service_ModifyMonitoredItems w rd changed ses ts i items s = Done (r, t)"
  shows "same_tables s t"
proof -
  have f: "\<forall>x s r t. Operation_ModifyMonitoredItem w rd changed ses p x s = Done (r, t) \<longrightarrow> same_tables s t" for p
    using same_tables_ModifyMonitoredItem by blast
  have "t = s \<or> (\<exists>p. process_outcomes (Operation_ModifyMonitoredItem w rd changed ses p) items (reset_lifetime p s) = Done (r, t))"
    using assms by (auto simp: Service_ModifyMonitoredItems_def split: if_splits option.splits)
  then show ?thesis
    using same_tables_process_outcomes [OF f] same_tables_reset_lifetime [OF same_tables_refl] same_tables_trans by blast
qed

lemma same_tables_SetMonitoringMode: "same_tables s (snd (Service_SetMonitoringMode rd changed ses i mode ids s))"
proof -
  have f: "\<forall>x s r t. Operation_SetMonitoringMode rd changed p mode x s = (r, t) \<longrightarrow> same_tables s t" for p
    unfolding Operation_SetMonitoringMode_def
    by (auto split: option.splits) (metis same_tables_refl same_tables_setMonitoringMode snd_conv)
  have "same_tables s (snd (UA_Server_processServiceOperations (Operation_SetMonitoringMode rd changed p mode) ids (reset_lifetime p s)))" for p
    by (rule same_tables_trans [OF same_tables_reset_lifetime [OF same_tables_refl] same_tables_process [OF f prod.collapse [symmetric]]])
  then show ?thesis by (simp add: Service_SetMonitoringMode_def split: option.splits)
qed

lemma same_tables_DeleteMonitoredItems: "same_tables s (snd (Service_DeleteMonitoredItems ses i ids s))"
proof -
  have f: "\<forall>x s r t. Operation_DeleteMonitoredItem p x s = (r, t) \<longrightarrow> same_tables s t" for p
    unfolding Operation_DeleteMonitoredItem_def by (auto intro!: same_tables_mon_delete split: option.splits)
  have "same_tables s (snd (UA_Server_processServiceOperations (Operation_DeleteMonitoredItem p) ids (reset_lifetime p s)))" for p
    by (rule same_tables_trans [OF same_tables_reset_lifetime [OF same_tables_refl] same_tables_process [OF f prod.collapse [symmetric]]])
  then show ?thesis by (simp add: Service_DeleteMonitoredItems_def split: option.splits)
qed

lemma same_tables_deleteMonitoredItem: "same_tables s (snd (UA_Server_deleteMonitoredItem i s))"
  unfolding UA_Server_deleteMonitoredItem_def by (auto intro!: same_tables_mon_delete split: option.splits)

lemma same_tables_new_results: "new_results ops s = (ok, t) \<Longrightarrow> same_tables s t"
  by (auto simp: new_results_def split: if_splits prod.splits intro: same_tables_malloc)

lemma same_tables_SetTriggering: "same_tables s (snd (Service_SetTriggering ses i m rs as s))"
proof -
  have links: "\<forall>x s r t. UA_MonitoredItem_removeLink p m x s = (r, t) \<longrightarrow> same_tables s t"
    "\<forall>x s r t. UA_MonitoredItem_addLink p m x s = (r, t) \<longrightarrow> same_tables s t" for p m
    by (metis same_tables_refl same_tables_removeLink snd_conv) (metis same_tables_refl same_tables_addLink snd_conv)
  obtain b s1 where 1: "new_results rs s = (b, s1)" by fastforce
  obtain c s2 where 2: "new_results as s1 = (c, s2)" by fastforce
  have s1: "same_tables s s1" by (rule same_tables_new_results [OF 1])
  have s2: "same_tables s s2" by (rule same_tables_trans [OF s1 same_tables_new_results [OF 2]])
  have "same_tables s u" if "run_operations (UA_MonitoredItem_removeLink p m) rs s2 = (x, t)"
    "run_operations (UA_MonitoredItem_addLink p m) as t = (y, u)" for p m x t y u
    using same_tables_operations [OF links(1) that(1)] same_tables_operations [OF links(2) that(2)] s2 same_tables_trans by blast
  then show ?thesis using s1 s2
    by (auto simp: Service_SetTriggering_def Let_def 1 2 split: option.splits prod.splits)
qed

end
