(* ===== verification/Sub_Server.thy ===== *)
theory Sub_Server
  imports Sub_Transfer Sub_Items_Frame
begin

text \<open>
  The server as a state machine: every service and every callback of the subscription model and of its
  monitored items is a step,
  next to the passing of time, new memory, new sessions and channels. Every reachable state has
  consistent tables, and every publishing ends.
\<close>

section \<open>Steps\<close>

text \<open>The first state has no sessions; the timer and the address space may hold anything.\<close>

definition server_init :: "UA_Server \<Rightarrow> bool" where
  "server_init s = (srv_sessions s = Map.empty \<and> srv_subs s = Map.empty \<and> srv_subscriptions s = [] \<and>
     \<not> srv_undefined s)"

definition new_session :: "ptr \<Rightarrow> UA_Session" where
  "new_session channel = \<lparr>ses_channel = channel, ses_subscriptionsSize = 0, ses_subscriptions = [], ses_responseQueueSize = 0,
     ses_responseQueue = [], ses_totalRetransmissionQueueSize = 0\<rparr>"

text \<open>
  \<open>rd\<close> and \<open>changed\<close> as in \<open>Sub_MonitoredItem\<close>. Memory that is handed out is not in use: the structure of a
  subscription stays allocated until the timer releases it.
\<close>

inductive server_step ::
  "(UA_Server \<Rightarrow> UA_MonitoredItem \<Rightarrow> UA_DataValue) \<Rightarrow> (UA_MonitoredItem \<Rightarrow> UA_DataValue \<Rightarrow> bool) \<Rightarrow>
   UA_Server \<Rightarrow> UA_Server \<Rightarrow> bool" for rd changed where
  environment: "server_step rd changed s (s\<lparr>srv_now := t, srv_nowMonotonic := m, srv_mallocs := ms\<rparr>)"
| createSession: "a \<noteq> 0 \<Longrightarrow> srv_sessions s a = None \<Longrightarrow>
    server_step rd changed s (s\<lparr>srv_sessions := (srv_sessions s)(a \<mapsto> new_session c)\<rparr>)"
| attachChannel: "server_step rd changed s (UA_Session_attachToSecureChannel a c s)"
| detachChannel: "server_step rd changed s (UA_Session_detachFromSecureChannel a s)"
| createSubscription: "srv_sessions s a \<noteq> None \<Longrightarrow> fresh_mallocs s \<Longrightarrow>
    server_step rd changed s (snd (Service_CreateSubscription a req s))"
| modifySubscription: "srv_sessions s a \<noteq> None \<Longrightarrow>
    server_step rd changed s (snd (Service_ModifySubscription a i req s))"
| setPublishingMode: "srv_sessions s a \<noteq> None \<Longrightarrow>
    server_step rd changed s (snd (Service_SetPublishingMode a b ids s))"
| deleteSubscriptions: "srv_sessions s a \<noteq> None \<Longrightarrow>
    server_step rd changed s (snd (Service_DeleteSubscriptions a ids s))"
| publishRequest: "srv_sessions s a \<noteq> None \<Longrightarrow> Service_Publish a h acks i s = Some (r, t) \<Longrightarrow> server_step rd changed s t"
| republish: "srv_sessions s a \<noteq> None \<Longrightarrow> server_step rd changed s (snd (Service_Republish a i k s))"
| transfer: "srv_sessions s a \<noteq> None \<Longrightarrow> fresh_mallocs s \<Longrightarrow>
    Operation_TransferSubscription a b i s = Some (r, t) \<Longrightarrow> server_step rd changed s t"
| publishCallback: "srv_subs s p \<noteq> None \<Longrightarrow> UA_Subscription_sampleAndPublish rd changed p s = Some t \<Longrightarrow>
    server_step rd changed s t"
| sample: "server_step rd changed s (monitoredItem_sampleCallback rd changed m s)"
| event: "server_step rd changed s (UA_Notification_enqueueAndTrigger n s)"
| setMonitoringMode: "server_step rd changed s (snd (UA_MonitoredItem_setMonitoringMode rd changed m mode s))"
| newItem: "srv_monitored s m = None \<Longrightarrow>
    server_step rd changed s (UA_Server_registerMonitoredItem m (s\<lparr>srv_monitored := (srv_monitored s)(m \<mapsto> i)\<rparr>))"
| deleteItem: "server_step rd changed s (UA_MonitoredItem_delete m s)"
| addLink: "server_step rd changed s (snd (UA_MonitoredItem_addLink p m l s))"
| removeLink: "server_step rd changed s (snd (UA_MonitoredItem_removeLink p m l s))"
| createMonitoredItems: "srv_sessions s a \<noteq> None \<Longrightarrow> fresh_mallocs s \<Longrightarrow>
    Service_CreateMonitoredItems w rd changed a ts i items s = Done (cr, t) \<Longrightarrow> server_step rd changed s t"
| modifyMonitoredItems: "srv_sessions s a \<noteq> None \<Longrightarrow>
    Service_ModifyMonitoredItems w rd changed a ts i changes s = Done (mr, t) \<Longrightarrow> server_step rd changed s t"
| setItemsMode: "srv_sessions s a \<noteq> None \<Longrightarrow>
    server_step rd changed s (snd (Service_SetMonitoringMode rd changed a i mode ids s))"
| deleteMonitoredItems: "srv_sessions s a \<noteq> None \<Longrightarrow>
    server_step rd changed s (snd (Service_DeleteMonitoredItems a i ids s))"
| setTriggering: "srv_sessions s a \<noteq> None \<Longrightarrow>
    server_step rd changed s (snd (Service_SetTriggering a i l rs as s))"
| createLocalItem: "fresh_mallocs s \<Longrightarrow>
    UA_Server_createDataChangeMonitoredItem w rd changed admin ts item s = Done (ir, t) \<Longrightarrow> server_step rd changed s t"
| deleteLocalItem: "server_step rd changed s (snd (UA_Server_deleteMonitoredItem i s))"

text \<open>
  An execution ends where the code writes through a dangling pointer (\<open>srv_undefined\<close>, see
  \<open>UA_MonitoredItem_unregisterSampling\<close>): of what follows nothing is claimed.
\<close>

inductive server_reachable ::
  "(UA_Server \<Rightarrow> UA_MonitoredItem \<Rightarrow> UA_DataValue) \<Rightarrow> (UA_MonitoredItem \<Rightarrow> UA_DataValue \<Rightarrow> bool) \<Rightarrow> UA_Server \<Rightarrow> bool"
  for rd changed where
  init: "server_init s \<Longrightarrow> server_reachable rd changed s"
| step: "server_reachable rd changed s \<Longrightarrow> server_step rd changed s t \<Longrightarrow> \<not> srv_undefined t \<Longrightarrow>
    server_reachable rd changed t"

section \<open>The invariant\<close>

lemma ok_init: "server_init s \<Longrightarrow> sessions_ok s"
  by (simp add: server_init_def sessions_ok_def view_ok_def list_ok_def subs_view_def)

lemma ok_newSession:
  assumes "sessions_ok s" "a \<noteq> 0" "srv_sessions s a = None"
  shows "sessions_ok (s\<lparr>srv_sessions := (srv_sessions s)(a \<mapsto> new_session c)\<rparr>)"
proof -
  note v = assms(1) [THEN sessions_okD(1)]
  have "view_ok (subs_view s) ((srv_sessions s)(a \<mapsto> new_session c))"
  proof (unfold view_ok_def, intro conjI allI impI)
    fix p r assume "subs_view s p = Some r"
    then show "sub_entry_ok ((srv_sessions s)(a \<mapsto> new_session c)) p r"
      by (rule sub_entry_ok_mono [OF view_okD(1) [OF v]], cases "rt_session r = a") (use assms(3) in simp_all)
  next
    fix b y assume "((srv_sessions s)(a \<mapsto> new_session c)) b = Some y"
    then show "ses_entry_ok (subs_view s) b y"
      using view_okD(2) [OF v, of b y] assms(2)
      by (cases "b = a") (auto simp: ses_entry_ok_def new_session_def total_of_def)
  qed
  then show ?thesis using sessions_okD(2) [OF assms(1)]
    by (simp add: sessions_ok_def list_ok_def subs_view_def [abs_def])
qed

lemma server_step_ok: "server_step rd changed s t \<Longrightarrow> sessions_ok s \<Longrightarrow> sessions_ok t"
proof (induction rule: server_step.induct)
  case (environment s t m ms)
  then show ?case by (simp add: sessions_ok_def list_ok_def subs_view_def [abs_def])
next
  case (createSession a s c)
  then show ?case by (simp add: ok_newSession)
next
  case (attachChannel s a c)
  then show ?case by (rule ok_attach_channel)
next
  case (detachChannel s a)
  then show ?case by (rule ok_detach_channel)
next
  case (createSubscription s a req)
  then show ?case by (simp add: ok_CreateSubscription)
next
  case (modifySubscription s a i req)
  then show ?case by (simp add: ok_ModifySubscription)
next
  case (setPublishingMode s a b ids)
  have "tables_step s (snd (Service_SetPublishingMode a b ids s))"
    unfolding Service_SetPublishingMode_def
    by (rule tables_step_service [OF tables_step_SetPublishingMode]) (use setPublishingMode in simp_all)
  then show ?case by (rule tables_stepD(1))
next
  case (deleteSubscriptions s a ids)
  have "tables_step s (snd (Service_DeleteSubscriptions a ids s))"
    unfolding Service_DeleteSubscriptions_def
    by (rule tables_step_service [OF tables_step_DeleteSubscription]) (use deleteSubscriptions in simp_all)
  then show ?case by (rule tables_stepD(1))
next
  case (publishRequest s a h acks i r t)
  then show ?case using tables_step_Publish tables_stepD(1) by blast
next
  case (republish s a i k)
  then show ?case using same_tables_Republish same_tables_ok by blast
next
  case (transfer s a b i r t)
  then show ?case using Transfer_ends [of s a b i] by auto
next
  case (publishCallback s p t)
  then show ?case using sampleAndPublish_ends [of s p rd changed] tables_stepD(1) by fastforce
next
  case (sample s m)
  then show ?case using same_tables_sample [OF same_tables_refl] same_tables_ok by blast
next
  case (event s n)
  then show ?case using same_tables_enqueueAndTrigger [OF same_tables_refl] same_tables_ok by blast
next
  case (setMonitoringMode s m mode)
  then show ?case using same_tables_setMonitoringMode [OF same_tables_refl] same_tables_ok by blast
next
  case (newItem s m i)
  have "same_tables s (s\<lparr>srv_monitored := (srv_monitored s)(m \<mapsto> i)\<rparr>)"
    by (simp add: same_tables_def subs_view_def [abs_def])
  then have "same_tables s (UA_Server_registerMonitoredItem m (s\<lparr>srv_monitored := (srv_monitored s)(m \<mapsto> i)\<rparr>))"
    by (rule same_tables_registerMon)
  then show ?case using newItem same_tables_ok by blast
next
  case (deleteItem s m)
  then show ?case using same_tables_mon_delete [OF same_tables_refl] same_tables_ok by blast
next
  case (addLink s p m l)
  then show ?case using same_tables_addLink [OF same_tables_refl] same_tables_ok by blast
next
  case (removeLink s p m l)
  then show ?case using same_tables_removeLink [OF same_tables_refl] same_tables_ok by blast
next
  case (createMonitoredItems s a w ts i items cr t)
  then show ?case using same_tables_CreateMonitoredItems same_tables_ok by blast
next
  case (modifyMonitoredItems s a w ts i changes mr t)
  then show ?case using same_tables_ModifyMonitoredItems same_tables_ok by blast
next
  case (setItemsMode s a i mode ids)
  then show ?case using same_tables_SetMonitoringMode same_tables_ok by blast
next
  case (deleteMonitoredItems s a i ids)
  then show ?case using same_tables_DeleteMonitoredItems same_tables_ok by blast
next
  case (setTriggering s a i l rs as)
  then show ?case using same_tables_SetTriggering same_tables_ok by blast
next
  case (createLocalItem s w admin ts item ir t)
  then show ?case
    using same_tables_CreateMonitoredItem same_tables_ok unfolding UA_Server_createDataChangeMonitoredItem_def by blast
next
  case (deleteLocalItem s i)
  then show ?case using same_tables_deleteMonitoredItem same_tables_ok by blast
qed

lemma server_reachable_ok: "server_reachable rd changed s \<Longrightarrow> sessions_ok s"
  by (induction rule: server_reachable.induct) (auto intro: ok_init server_step_ok)

end
