(* ===== verification/Sub_Rules.thy ===== *)
theory Sub_Rules
  imports Sub_Server
begin

text \<open>
  The properties of sessions and subscriptions over the reachable states of the server, with a small
  server on which they are evaluated.
\<close>

section \<open>A small server\<close>

text \<open>One session (1) on the channel 9; a subscription is created at the address 5.\<close>

definition demo_config :: UA_ServerConfig where
  "demo_config = \<lparr>cfg_maxSubscriptions = 0, cfg_maxSubscriptionsPerSession = 0, cfg_publishingInterval_min = 100,
     cfg_publishingInterval_max = 3600000, cfg_lifeTimeCount_min = 3, cfg_lifeTimeCount_max = 15000,
     cfg_keepAliveCount_min = 1, cfg_keepAliveCount_max = 100, cfg_maxNotificationsPerPublish = 1000,
     cfg_enableRetransmissionQueue = True, cfg_maxRetransmissionQueueSize = 0, cfg_maxPublishReqPerSession = 0,
     cfg_maxMonitoredItems = 0, cfg_maxMonitoredItemsPerSubscription = 0,
     cfg_maxMonitoredItemsPerCall = 0, cfg_samplingInterval_min = 50, cfg_samplingInterval_max = 86400000,
     cfg_queueSize_min = 1, cfg_queueSize_max = 100,
     cfg_allowTransfer = (\<lambda>a b. True), cfg_round = (\<lambda>x. x), cfg_notFinite = 2 ^ 63\<rparr>"

definition demo_empty :: UA_Server where
  "demo_empty = \<lparr>srv_config = demo_config, srv_timer = UA_Timer_init Map.empty, srv_subscriptionsSize = 0,
     srv_monitoredItemsSize = 0, srv_subscriptions = [], srv_lastSubscriptionId = 0, srv_currentSubscriptionCount = 0,
     srv_cumulatedSubscriptionCount = 0, srv_nodes = Map.empty, srv_localMonitoredItems = [],
     srv_lastLocalMonitoredItemId = 0, srv_notifications = Map.empty, srv_monitored = Map.empty, srv_subs = Map.empty,
     srv_sessions = Map.empty, srv_now = 1000, srv_nowMonotonic = 0, srv_mallocs = [5, 6, 7], srv_sent = [], srv_undefined = False\<rparr>"

definition demo_session :: UA_Server where
  "demo_session = demo_empty\<lparr>srv_sessions := [1 \<mapsto> new_session 9]\<rparr>"

definition demo_request :: UA_CreateSubscriptionRequest where
  "demo_request = \<lparr>csr_requestedPublishingInterval = Finite 500, csr_requestedLifetimeCount = 100,
     csr_requestedMaxKeepAliveCount = 10, csr_maxNotificationsPerPublish = 20, csr_publishingEnabled = True,
     csr_priority = 3\<rparr>"

definition demo_subscribed :: UA_Server where
  "demo_subscribed = snd (Service_CreateSubscription 1 demo_request demo_session)"

lemmas demo_eval = demo_subscribed_def demo_session_def demo_empty_def demo_config_def demo_request_def new_session_def
  Service_CreateSubscription_def Let_def UA_Subscription_new_def malloc_def blank_subscription_def mod_sub_def upd_at_def
  setSubscriptionSettings_def bounded_count_def setPublishingEnabled_def Subscription_registerPublishCallback_def
  the_sub_def addRepeatedCallback_def UA_Timer_addRepeatedCallback_def interval_ticks_def addCallback_def link_entry_def
  UA_Timer_init_def UA_Session_attachSubscription_def mod_ses_def PUBLISH_CALLBACK_def

lemma demo_defined: "\<not> srv_undefined demo_session" "\<not> srv_undefined demo_subscribed"
  by (simp_all add: demo_eval)

lemma demo_reachable: "server_reachable rd changed demo_subscribed"
proof -
  have "server_reachable rd changed demo_empty"
    by (rule server_reachable.init) (simp add: server_init_def demo_empty_def)
  moreover have "server_step rd changed demo_empty demo_session"
    using server_step.createSession [of 1 demo_empty rd changed 9] by (simp add: demo_empty_def demo_session_def)
  moreover have "server_step rd changed demo_session demo_subscribed"
    unfolding demo_subscribed_def
    by (rule server_step.createSubscription) (simp_all add: demo_session_def demo_empty_def fresh_mallocs_def)
  ultimately show ?thesis using demo_defined server_reachable.step by blast
qed

lemma demo_subscribed_sub:
  "\<exists>u. srv_subs demo_subscribed 5 = Some u \<and> sub_session u = 1 \<and> sub_publishCallbackId u = 1 \<and> sub_nextSequenceNumber u = 1"
  "\<exists>x. srv_sessions demo_subscribed 1 = Some x \<and> ses_subscriptions x = [5]"
  by (simp_all add: demo_eval)

section \<open>Consistent tables\<close>

text \<open>
  C12: In every reachable state of the server, a subscription holds at most 256 messages for
  retransmission and the stored size is exact. The response to a publish request collects the sequence
  numbers of these messages in an array of 256 elements on the stack, so that it never overflows. The
  next sequence number is never zero.
\<close>

theorem retransmission_queue_bounded:
  assumes "server_reachable rd changed s" "srv_subs s p = Some u"
  shows "sub_retransmissionQueueSize u = length (sub_retransmissionQueue u) \<and>
    length (sub_retransmissionQueue u) \<le> UA_MAX_RETRANSMISSIONQUEUESIZE \<and> sub_nextSequenceNumber u \<noteq> 0"
  using sub_entryD [OF server_reachable_ok [OF assms(1)] assms(2)] by simp

lemma retransmission_queue_bounded_witness:
  "\<exists>u. srv_subs demo_subscribed 5 = Some u \<and> sub_nextSequenceNumber u \<noteq> 0"
proof -
  obtain u where "srv_subs demo_subscribed 5 = Some u" using demo_subscribed_sub(1) by blast
  then show ?thesis using retransmission_queue_bounded [OF demo_reachable] by blast
qed

text \<open>
  C13: In every reachable state the list of a session holds exactly the subscriptions that name it as
  their session, each once; its counters are the lengths of its lists; and its number of messages for
  retransmission, against which the limit of the session is checked, is the sum over its subscriptions.
\<close>

theorem session_lists_consistent:
  assumes "server_reachable rd changed s" "srv_sessions s a = Some x"
  shows "set (ses_subscriptions x) = {p. \<exists>u. srv_subs s p = Some u \<and> sub_session u = a} \<and>
    distinct (ses_subscriptions x) \<and> ses_subscriptionsSize x = length (ses_subscriptions x) \<and>
    ses_responseQueueSize x = length (ses_responseQueue x) \<and>
    ses_totalRetransmissionQueueSize x =
      (\<Sum>p \<leftarrow> ses_subscriptions x. length (sub_retransmissionQueue (the_sub s p)))"
proof -
  note ok = server_reachable_ok [OF assms(1)]
  note e = ses_entryD [OF ok assms(2)]
  have "p \<in> set (ses_subscriptions x)" if "srv_subs s p = Some u" "sub_session u = a" for p u
    using sub_entryD(4) [OF ok that(1)] that(2) e(1) assms(2) by auto
  then have "set (ses_subscriptions x) = {p. \<exists>u. srv_subs s p = Some u \<and> sub_session u = a}" using e(6) by blast
  moreover have "length (rt_queue (the (subs_view s p))) = length (sub_retransmissionQueue (the_sub s p))"
    if "p \<in> set (ses_subscriptions x)" for p
    using e(6) [OF that] by (auto simp: subs_view_def retrans_of_def the_sub_def)
  then have "total_of (subs_view s) (ses_subscriptions x) =
      (\<Sum>p \<leftarrow> ses_subscriptions x. length (sub_retransmissionQueue (the_sub s p)))"
    unfolding total_of_def by (intro arg_cong [of _ _ sum_list] map_cong) simp_all
  ultimately show ?thesis using e(2-5) by simp
qed

lemma session_lists_consistent_witness:
  "\<exists>x. srv_sessions demo_subscribed 1 = Some x \<and> set (ses_subscriptions x) = {5} \<and> distinct (ses_subscriptions x)"
proof -
  obtain x where "srv_sessions demo_subscribed 1 = Some x" "ses_subscriptions x = [5]" using demo_subscribed_sub(2) by blast
  then show ?thesis using session_lists_consistent [OF demo_reachable] by auto
qed

text \<open>
  C14: The cyclic callback of a subscription returns in every reachable state: every round of publishing
  that is not the last one answers a queued publish request of the session. (The executions considered
  end before the code writes through the pointer that a transfer can leave dangling.)
\<close>

theorem publish_callback_returns:
  assumes "server_reachable rd changed s" "srv_subs s p \<noteq> None"
  shows "\<exists>t. UA_Subscription_sampleAndPublish rd changed p s = Some t"
  using sampleAndPublish_ends [OF server_reachable_ok [OF assms(1)] assms(2)] by blast

lemma publish_callback_returns_witness:
  "\<exists>t. UA_Subscription_sampleAndPublish (\<lambda>s i. UA_DataValue_init) (\<lambda>i v. True) 5 demo_subscribed = Some t"
  using publish_callback_returns [OF demo_reachable] demo_subscribed_sub(1) by fastforce

end
