(* ===== verification/Sub_Queue.thy ===== *)
theory Sub_Queue
  imports Sub_Rules
begin

text \<open>
  The bounded queue of a data change item: adding a notification to a full queue drops the oldest or
  the second newest one, as the client has chosen, and marks the loss.
\<close>

section \<open>Data change items\<close>

text \<open>The entries of the queue of an item that never holds overflow events.\<close>

definition entries_ok :: "UA_Server \<Rightarrow> ptr \<Rightarrow> ptr list \<Rightarrow> bool" where
  "entries_ok s m q =
     (distinct q \<and> (\<forall>n \<in> set q. \<exists>x. srv_notifications s n = Some x \<and> not_mon x = m \<and> not_local x \<and> \<not> not_isOverflowEvent x))"

definition data_item_ok :: "UA_Server \<Rightarrow> ptr \<Rightarrow> bool" where
  "data_item_ok s m =
     (m \<noteq> 0 \<and> (\<exists>i. srv_monitored s m = Some i \<and> mon_attributeId i \<noteq> UA_ATTRIBUTEID_EVENTNOTIFIER \<and>
        mon_eventOverflows i = 0 \<and> mon_queueSize i = length (mon_queue i) \<and> 0 < mon_maxQueueSize i \<and>
        entries_ok s m (mon_queue i)))"

text \<open>The promise: at most \<open>mx\<close> entries, the newest one always kept.\<close>

definition bounded_queue :: "nat \<Rightarrow> bool \<Rightarrow> 'a list \<Rightarrow> 'a list" where
  "bounded_queue mx oldest q =
     (if length q \<le> mx then q else if oldest then drop (length q - mx) q else take (mx - 1) q @ [last q])"

lemma bounded_queue_bounds: "0 < mx \<Longrightarrow> length (bounded_queue mx oldest q) \<le> mx"
  by (simp add: bounded_queue_def)

lemma bounded_queue_newest: "0 < mx \<Longrightarrow> q \<noteq> [] \<Longrightarrow> last (bounded_queue mx oldest q) = last q"
  by (auto simp: bounded_queue_def)

section \<open>Dropping one notification\<close>

lemma move_behind_rest [simp]:
  "srv_monitored (move_behind m d s) = srv_monitored s" "srv_notifications (move_behind m d s) = srv_notifications s"
  by (auto simp: move_behind_def split: option.splits)

text \<open>A deletion touches one entry of its item, and no other notification.\<close>

lemma delete_effect:
  assumes "srv_notifications s n = Some x" "not_mon x = m" "m \<noteq> 0" "not_local x" "\<not> not_isOverflowEvent x"
    and "srv_monitored s m = Some i"
  shows "srv_monitored (UA_Notification_delete n s) =
      (srv_monitored s)(m \<mapsto> i\<lparr>mon_queue := remove1 n (mon_queue i), mon_queueSize := mon_queueSize i - 1\<rparr>)"
    "srv_notifications (UA_Notification_delete n s) = (srv_notifications s)(n := None)"
proof -
  have x: "the_not s n = x" using assms(1) by (simp add: the_not_def)
  let ?f = "\<lambda>i. i\<lparr>mon_queue := remove1 n (mon_queue i), mon_queueSize := mon_queueSize i - 1\<rparr>"
  let ?t = "mod_not n (not_local_update (\<lambda>_. False)) (mod_mon m ?f s)"
  have d: "UA_Notification_dequeueMon n s = ?t"
    using assms(2,4,5) by (simp add: UA_Notification_dequeueMon_def x)
  have mon: "srv_monitored (UA_Notification_dequeueSub n t) = srv_monitored t" for t
    by (simp add: UA_Notification_dequeueSub_def Let_def)
  have nots: "(srv_notifications (UA_Notification_dequeueSub n t))(n := None) = (srv_notifications t)(n := None)" for t
    by (auto simp: UA_Notification_dequeueSub_def Let_def mod_not_def upd_at_def)
  show "srv_monitored (UA_Notification_delete n s) = (srv_monitored s)(m \<mapsto> ?f i)"
    using assms(2,3,6) by (simp add: UA_Notification_delete_def Let_def x mon d) (simp add: mod_mon_def upd_at_def)
  show "srv_notifications (UA_Notification_delete n s) = (srv_notifications s)(n := None)"
    using assms(2,3) by (simp add: UA_Notification_delete_def Let_def x nots d) (auto simp: mod_not_def upd_at_def)
qed

lemma select_dropped_data:
  assumes "srv_monitored s m = Some i" "entries_ok s m (mon_queue i)" "2 \<le> length (mon_queue i)"
  shows "select_dropped s m = Some (if mon_discardOldest i then hd (mon_queue i) else last (butlast (mon_queue i)))"
proof -
  have i: "the_mon s m = i" using assms(1) by (simp add: the_mon_def)
  have plain: "\<not> not_isOverflowEvent (the_not s n)" if "n \<in> set (mon_queue i)" for n
    using assms(2) that by (auto simp: entries_ok_def the_not_def)
  obtain a q b where q: "mon_queue i = a # q @ [b]"
    using assms(3) by (cases "mon_queue i" ; cases "tl (mon_queue i)" rule: rev_cases) auto
  show ?thesis
  proof (cases "mon_discardOldest i")
    case True
    then show ?thesis using plain q by (simp add: select_dropped_def Let_def i)
  next
    case False
    have "rev (a # q) \<noteq> []" by simp
    then obtain y ys where y: "rev (a # q) = y # ys" by (cases "rev (a # q)") auto
    then have "y \<in> set (mon_queue i)" using q by (metis Un_iff list.set_intros(1) set_append set_rev append_Cons)
    moreover have "last (a # q) = y" using y by (metis hd_rev list.sel(1))
    moreover have "butlast (mon_queue i) = a # q" using q by simp
    ultimately show ?thesis using False plain y by (simp only: select_dropped_def Let_def i if_False find.simps if_True) simp
  qed
qed

lemma entries_ok_remove:
  assumes "entries_ok s m q" "srv_notifications t = (srv_notifications s)(n := None)"
  shows "entries_ok t m (remove1 n q)"
  using assms by (auto simp: entries_ok_def)

text \<open>The loop that makes room drops as many notifications as asked for, and no others.\<close>

definition dropped_queue :: "nat \<Rightarrow> bool \<Rightarrow> 'a list \<Rightarrow> 'a list" where
  "dropped_queue k oldest q = (if oldest then drop k q else take (length q - 1 - k) q @ [last q])"

lemma remove_hd: "distinct q \<Longrightarrow> q \<noteq> [] \<Longrightarrow> remove1 (hd q) q = tl q"
  by (cases q) auto

lemma remove_second_newest:
  assumes "distinct q" "2 \<le> length q"
  shows "remove1 (last (butlast q)) q = take (length q - 2) q @ [last q]"
proof -
  obtain q' b where q: "q = q' @ [b]" using assms(2) by (cases q rule: rev_cases) auto
  then obtain q'' c where q': "q' = q'' @ [c]" using assms(2) by (cases q' rule: rev_cases) auto
  have "last (butlast q) = c" by (simp add: q q' butlast_append)
  then show ?thesis using assms(1) by (simp add: q q' remove1_append)
qed

lemma dropped_queue_Suc:
  assumes "distinct q" "Suc k < length q"
  shows "dropped_queue k oldest (if oldest then tl q else take (length q - 2) q @ [last q]) = dropped_queue (Suc k) oldest q"
  using assms by (auto simp: dropped_queue_def drop_Suc take_take min_def)

lemma drop_notifications_effect:
  assumes "srv_monitored s m = Some i" "m \<noteq> 0" "entries_ok s m (mon_queue i)" "k < length (mon_queue i)"
    "mon_queueSize i = length (mon_queue i)"
  shows "\<exists>r t ns. drop_notifications k m b s = (r, t) \<and> srv_monitored t =
      (srv_monitored s)(m \<mapsto> i\<lparr>mon_queue := dropped_queue k (mon_discardOldest i) (mon_queue i),
        mon_queueSize := length (mon_queue i) - k\<rparr>) \<and>
    srv_notifications t = (srv_notifications s) |` (- ns) \<and> ns \<subseteq> set (mon_queue i) \<and>
    ns \<inter> set (dropped_queue k (mon_discardOldest i) (mon_queue i)) = {}"
  using assms
proof (induction k arbitrary: s i b)
  case 0
  have "dropped_queue 0 oldest q = q" if "q \<noteq> []" for oldest and q :: "ptr list"
    using that by (cases q rule: rev_cases) (auto simp: dropped_queue_def)
  moreover have "mon_queue i \<noteq> []" using 0 by auto
  moreover have "i\<lparr>mon_queue := mon_queue i, mon_queueSize := length (mon_queue i)\<rparr> = i" using 0(5) by (cases i) simp
  ultimately show ?case using 0 by (intro exI [of _ b] exI [of _ s] exI [of _ "{}"]) (simp add: fun_upd_idem)
next
  case (Suc k)
  define d where "d = (if mon_discardOldest i then hd (mon_queue i) else last (butlast (mon_queue i)))"
  have len: "2 \<le> length (mon_queue i)" using Suc.prems(4) by simp
  then have ne0: "mon_queue i \<noteq> []" by auto
  have dist: "distinct (mon_queue i)" using Suc.prems(3) by (simp add: entries_ok_def)
  have sel: "select_dropped s m = Some d" unfolding d_def by (rule select_dropped_data [OF Suc.prems(1,3) len])
  have din: "d \<in> set (mon_queue i)"
  proof (cases "mon_discardOldest i")
    case True
    then show ?thesis using len by (cases "mon_queue i") (auto simp: d_def)
  next
    case False
    have "butlast (mon_queue i) \<noteq> []" using len by (cases "mon_queue i" rule: rev_cases) auto
    then show ?thesis using False last_in_set [of "butlast (mon_queue i)"] by (simp add: d_def in_set_butlastD)
  qed
  then obtain x where x: "srv_notifications s d = Some x" "not_mon x = m" "not_local x" "\<not> not_isOverflowEvent x"
    using Suc.prems(3) by (auto simp: entries_ok_def)
  define s1 where "s1 = UA_Notification_delete d (move_behind m d s)"
  define i1 where "i1 = i\<lparr>mon_queue := remove1 d (mon_queue i), mon_queueSize := mon_queueSize i - 1\<rparr>"
  have i1: "mon_queue i1 = remove1 d (mon_queue i)" "mon_discardOldest i1 = mon_discardOldest i"
    "mon_queueSize i1 = length (mon_queue i1)" "Suc (length (mon_queue i1)) = length (mon_queue i)"
    using Suc.prems(5) din len by (simp_all add: i1_def length_remove1)
  have s1: "srv_monitored s1 = (srv_monitored s)(m \<mapsto> i1)" "srv_notifications s1 = (srv_notifications s)(d := None)"
    using delete_effect [of "move_behind m d s" d x m i] x Suc.prems(1,2) by (simp_all add: s1_def i1_def)
  have q1: "remove1 d (mon_queue i) =
      (if mon_discardOldest i then tl (mon_queue i) else take (length (mon_queue i) - 2) (mon_queue i) @ [last (mon_queue i)])"
    using remove_hd [OF dist ne0] remove_second_newest [OF dist len] by (simp add: d_def)
  have "srv_monitored s1 m = Some i1" "entries_ok s1 m (mon_queue i1)" "k < length (mon_queue i1)"
    using s1 entries_ok_remove [OF Suc.prems(3) s1(2)] i1 Suc.prems(4) by simp_all
  then obtain r t ns where IH: "drop_notifications k m (b \<or> not_global (the_not s d)) s1 = (r, t)"
      "srv_monitored t = (srv_monitored s1)(m \<mapsto> i1\<lparr>mon_queue := dropped_queue k (mon_discardOldest i1) (mon_queue i1),
        mon_queueSize := length (mon_queue i1) - k\<rparr>)"
      "srv_notifications t = (srv_notifications s1) |` (- ns)" "ns \<subseteq> set (mon_queue i1)"
      "ns \<inter> set (dropped_queue k (mon_discardOldest i1) (mon_queue i1)) = {}"
    using Suc.IH [of s1 i1 "b \<or> not_global (the_not s d)", OF _ Suc.prems(2) _ _ i1(3)] by blast
  have dq: "dropped_queue k (mon_discardOldest i) (remove1 d (mon_queue i)) = dropped_queue (Suc k) (mon_discardOldest i) (mon_queue i)"
    unfolding q1 by (rule dropped_queue_Suc [OF dist Suc.prems(4)])
  have sub: "set (dropped_queue k o' q) \<subseteq> set q" if "q \<noteq> []" for o' and q :: "ptr list"
    using that by (auto simp: dropped_queue_def dest: in_set_dropD in_set_takeD)
  have ne: "remove1 d (mon_queue i) \<noteq> []" using q1 len by (cases "mon_queue i") auto
  show ?case
  proof (intro exI [of _ r] exI [of _ t] exI [of _ "insert d ns"] conjI)
    show "drop_notifications (Suc k) m b s = (r, t)" using IH(1) sel by (simp add: s1_def)
    show "srv_monitored t = (srv_monitored s)(m \<mapsto> i\<lparr>mon_queue := dropped_queue (Suc k) (mon_discardOldest i) (mon_queue i),
        mon_queueSize := length (mon_queue i) - Suc k\<rparr>)"
    proof -
      have "length (mon_queue i1) - k = length (mon_queue i) - Suc k" using i1(4) by linarith
      then show ?thesis using IH(2) s1(1) i1(1,2) by (simp add: dq) (simp add: i1_def)
    qed
    show "srv_notifications t = srv_notifications s |` (- insert d ns)"
      using IH(3) s1(2) by (auto simp: restrict_map_def fun_eq_iff)
    show "insert d ns \<subseteq> set (mon_queue i)" using IH(4) din dist i1(1) by auto
    show "insert d ns \<inter> set (dropped_queue (Suc k) (mon_discardOldest i) (mon_queue i)) = {}"
      using IH(5) sub [OF ne, of "mon_discardOldest i"] dist i1(1,2) by (auto simp: dq)
  qed
qed

section \<open>Adding a notification\<close>

text \<open>A new notification, enqueued in no queue of an item yet.\<close>

definition new_entry :: "UA_Server \<Rightarrow> ptr \<Rightarrow> ptr \<Rightarrow> bool" where
  "new_entry s m n =
     (n \<notin> set (mon_queue (the_mon s m)) \<and>
      (\<exists>x. srv_notifications s n = Some x \<and> not_mon x = m \<and> \<not> not_isOverflowEvent x))"

lemma setOverflow_rest:
  "srv_monitored (setOverflowInfoBits m s) = srv_monitored s"
  "entries_ok (setOverflowInfoBits m s) m' q = entries_ok s m' q"
proof -
  show "srv_monitored (setOverflowInfoBits m s) = srv_monitored s"
    by (auto simp: setOverflowInfoBits_def split: option.splits)
  have *: "map_option (\<lambda>x. (not_mon x, not_local x, not_isOverflowEvent x)) (srv_notifications (setOverflowInfoBits m s) n) =
      map_option (\<lambda>x. (not_mon x, not_local x, not_isOverflowEvent x)) (srv_notifications s n)" for n
    by (auto simp: setOverflowInfoBits_def mod_not_def upd_at_def option.map_comp comp_def
        split: option.splits notification_data.splits intro!: option.map_cong)
  have "(\<exists>x. srv_notifications (setOverflowInfoBits m s) n = Some x \<and> not_mon x = m' \<and> not_local x \<and> \<not> not_isOverflowEvent x) \<longleftrightarrow>
      (\<exists>x. srv_notifications s n = Some x \<and> not_mon x = m' \<and> not_local x \<and> \<not> not_isOverflowEvent x)" for n
    using * [of n] by (cases "srv_notifications s n"; cases "srv_notifications (setOverflowInfoBits m s) n") auto
  then show "entries_ok (setOverflowInfoBits m s) m' q = entries_ok s m' q" by (simp add: entries_ok_def)
qed

lemma entries_ok_restrict:
  "entries_ok s m q \<Longrightarrow> srv_notifications t = (srv_notifications s) |` (- ns) \<Longrightarrow> ns \<inter> set q' = {} \<Longrightarrow>
   distinct q' \<Longrightarrow> set q' \<subseteq> set q \<Longrightarrow> entries_ok t m q'"
  by (auto simp: entries_ok_def restrict_map_def subset_eq disjoint_iff)

lemma dropped_queue_facts:
  assumes "distinct q" "k < length q"
  shows "distinct (dropped_queue k oldest q)" "set (dropped_queue k oldest q) \<subseteq> set q"
    "length (dropped_queue k oldest q) = length q - k"
proof -
  obtain q' b where q: "q = q' @ [b]" using assms(2) by (cases q rule: rev_cases) auto
  show "distinct (dropped_queue k oldest q)" "set (dropped_queue k oldest q) \<subseteq> set q"
    "length (dropped_queue k oldest q) = length q - k"
    using assms by (auto simp: dropped_queue_def q dest: in_set_dropD in_set_takeD)
qed

lemma dropped_is_bounded: "mx < length q \<Longrightarrow> 0 < mx \<Longrightarrow> dropped_queue (length q - mx) oldest q = bounded_queue mx oldest q"
  by (auto simp: dropped_queue_def bounded_queue_def)

lemma ensureQueueSpace_effect:
  assumes "data_item_ok s m"
  shows "data_item_ok (UA_MonitoredItem_ensureQueueSpace m s) m \<and>
    mon_queue (the_mon (UA_MonitoredItem_ensureQueueSpace m s) m) =
      bounded_queue (mon_maxQueueSize (the_mon s m)) (mon_discardOldest (the_mon s m)) (mon_queue (the_mon s m)) \<and>
    mon_maxQueueSize (the_mon (UA_MonitoredItem_ensureQueueSpace m s) m) = mon_maxQueueSize (the_mon s m)"
proof -
  obtain i where i: "m \<noteq> 0" "srv_monitored s m = Some i" "mon_attributeId i \<noteq> UA_ATTRIBUTEID_EVENTNOTIFIER"
      "mon_eventOverflows i = 0" "mon_queueSize i = length (mon_queue i)" "0 < mon_maxQueueSize i" "entries_ok s m (mon_queue i)"
    using assms by (auto simp: data_item_ok_def)
  have tm: "the_mon s m = i" using i(2) by (simp add: the_mon_def)
  show ?thesis
  proof (cases "length (mon_queue i) \<le> mon_maxQueueSize i")
    case True
    then show ?thesis using assms i by (simp add: UA_MonitoredItem_ensureQueueSpace_def Let_def tm bounded_queue_def)
  next
    case False
    define k where "k = length (mon_queue i) - mon_maxQueueSize i"
    have k: "k < length (mon_queue i)" using i(6) False by (simp add: k_def)
    obtain r t ns where d: "drop_notifications k m False s = (r, t)" "srv_monitored t =
        (srv_monitored s)(m \<mapsto> i\<lparr>mon_queue := dropped_queue k (mon_discardOldest i) (mon_queue i),
          mon_queueSize := length (mon_queue i) - k\<rparr>)"
        "srv_notifications t = (srv_notifications s) |` (- ns)"
        "ns \<inter> set (dropped_queue k (mon_discardOldest i) (mon_queue i)) = {}"
      using drop_notifications_effect [OF i(2,1,7) k i(5)] by blast
    have dist: "distinct (mon_queue i)" using i(7) by (simp add: entries_ok_def)
    note f = dropped_queue_facts [OF dist k, of "mon_discardOldest i"]
    have e: "entries_ok t m (dropped_queue k (mon_discardOldest i) (mon_queue i))"
      by (rule entries_ok_restrict [OF i(7) d(3,4) f(1,2)])
    define u where "u = UA_MonitoredItem_ensureQueueSpace m s"
    have "is_event_item t m = False" using i(3) d(2) by (simp add: is_event_item_def the_mon_def)
    then have u: "u = (if r then setOverflowInfoBits m t else t)"
      using False i(4,5) d(1) by (simp add: u_def UA_MonitoredItem_ensureQueueSpace_def Let_def tm k_def)
    have um: "srv_monitored u = srv_monitored t" "entries_ok u m q = entries_ok t m q" for q
      by (simp_all add: u setOverflow_rest)
    have "dropped_queue k (mon_discardOldest i) (mon_queue i) =
        bounded_queue (mon_maxQueueSize i) (mon_discardOldest i) (mon_queue i)"
      unfolding k_def by (rule dropped_is_bounded) (use False i(6) in simp_all)
    then show ?thesis
      unfolding u_def [symmetric] using i e f(3) d(2) um by (simp add: data_item_ok_def the_mon_def tm)
  qed
qed

text \<open>The state when the queue is checked: the notification is the last one.\<close>

lemma enqueued_item:
  assumes "data_item_ok s m" "new_entry s m n"
  defines "s1 \<equiv> mod_mon m (\<lambda>i. i\<lparr>mon_queue := mon_queue i @ [n], mon_queueSize := mon_queueSize i + 1\<rparr>)
    (mod_not n (not_local_update (\<lambda>_. True)) s)"
  shows "UA_Notification_enqueueMon n s = UA_MonitoredItem_ensureQueueSpace m s1" "data_item_ok s1 m"
    "the_mon s1 m = (the_mon s m)\<lparr>mon_queue := mon_queue (the_mon s m) @ [n], mon_queueSize := mon_queueSize (the_mon s m) + 1\<rparr>"
    "not_global (the_not s1 d) = not_global (the_not s d)" "not_data (the_not s1 d) = not_data (the_not s d)"
proof -
  obtain x where x: "srv_notifications s n = Some x" "not_mon x = m" "\<not> not_isOverflowEvent x"
    and n: "n \<notin> set (mon_queue (the_mon s m))"
    using assms(2) by (auto simp: new_entry_def)
  obtain i where i: "srv_monitored s m = Some i" "mon_attributeId i \<noteq> UA_ATTRIBUTEID_EVENTNOTIFIER" "m \<noteq> 0"
      "mon_eventOverflows i = 0" "mon_queueSize i = length (mon_queue i)" "0 < mon_maxQueueSize i" "entries_ok s m (mon_queue i)"
    using assms(1) by (auto simp: data_item_ok_def)
  have s1: "srv_monitored s1 = (srv_monitored s)(m \<mapsto> i\<lparr>mon_queue := mon_queue i @ [n], mon_queueSize := mon_queueSize i + 1\<rparr>)"
      "srv_notifications s1 = (srv_notifications s)(n \<mapsto> x\<lparr>not_local := True\<rparr>)"
    using x i by (simp_all add: s1_def mod_mon_def mod_not_def upd_at_def)
  show tm: "the_mon s1 m =
      (the_mon s m)\<lparr>mon_queue := mon_queue (the_mon s m) @ [n], mon_queueSize := mon_queueSize (the_mon s m) + 1\<rparr>"
    using s1(1) i(1) by (simp add: the_mon_def)
  have "\<not> not_isOverflowEvent (the_not s1 n)" using s1(2) x by (simp add: the_not_def)
  then show "UA_Notification_enqueueMon n s = UA_MonitoredItem_ensureQueueSpace m s1"
    using x by (simp add: UA_Notification_enqueueMon_def Let_def s1_def the_not_def)
  have "entries_ok s1 m (mon_queue i @ [n])"
    using i(7) n x i(1) by (auto simp: entries_ok_def s1(2) the_mon_def)
  then show "data_item_ok s1 m" using i s1(1) by (simp add: data_item_ok_def)
  show "not_global (the_not s1 d) = not_global (the_not s d)" "not_data (the_not s1 d) = not_data (the_not s d)"
    using s1(2) x by (auto simp: the_not_def)
qed

section \<open>A full item\<close>

text \<open>The item 3 of the subscription 5 has room for two notifications, 11 and 12; 13 is new.\<close>

definition demo_notification :: "bool \<Rightarrow> u64 \<Rightarrow> UA_Notification" where
  "demo_notification queued t = \<lparr>not_mon = 3, not_data = DataChange \<lparr>min_clientHandle = 8,
     min_value = UA_DataValue_init\<lparr>dv_sourceTimestamp := t, dv_hasSourceTimestamp := True\<rparr>\<rparr>,
     not_isOverflowEvent = False, not_local = queued, not_global = True\<rparr>"

definition demo_item :: UA_MonitoredItem where
  "demo_item = \<lparr>mon_subscription = 5, mon_monitoredItemId = 1, mon_nodeId = eventQueueOverflowEventType,
     mon_attributeId = 13, mon_indexRange = None, mon_dataEncoding = (0, None), mon_timestampsToReturn = 0, mon_monitoringMode = UA_MONITORINGMODE_REPORTING, mon_registered = True,
     mon_triggeredUntil = UA_INT64_MIN, mon_clientHandle = 8, mon_samplingInterval = Finite 500,
     mon_filter = EncodedFilter EO_NOBODY eventQueueOverflowEventType None, mon_maxQueueSize = 2,
     mon_discardOldest = True, mon_samplingType = UA_MONITOREDITEMSAMPLINGTYPE_CYCLIC, mon_callbackId = 4,
     mon_lastValue = UA_DataValue_init, mon_triggeringLinks = [], mon_queue = [11, 12], mon_queueSize = 2,
     mon_eventOverflows = 0\<rparr>"

definition demo_full :: UA_Server where
  "demo_full = demo_empty\<lparr>srv_sessions := [1 \<mapsto> (new_session 9)\<lparr>ses_subscriptions := [5], ses_subscriptionsSize := 1\<rparr>],
     srv_monitored := [3 \<mapsto> demo_item], srv_subscriptions := [5], srv_subscriptionsSize := 1,
     srv_notifications := [11 \<mapsto> demo_notification True 111, 12 \<mapsto> demo_notification True 222, 13 \<mapsto> demo_notification False 333],
     srv_subs := [5 \<mapsto> blank_subscription\<lparr>sub_session := 1, sub_subscriptionId := 1, sub_lifeTimeCount := 30,
       sub_maxKeepAliveCount := 10, sub_publishingInterval := 500, sub_notificationsPerPublish := 20,
       sub_publishingEnabled := True, sub_monitoredItems := [3], sub_monitoredItemsSize := 1,
       sub_notificationQueue := [11, 12, 13], sub_notificationQueueSize := 3, sub_dataChangeNotifications := 3\<rparr>]\<rparr>"

lemma demo_full_ok: "data_item_ok demo_full 3" "new_entry demo_full 3 13" "the_mon demo_full 3 = demo_item"
  by (simp_all add: data_item_ok_def new_entry_def entries_ok_def demo_full_def demo_item_def demo_notification_def the_mon_def
      UA_ATTRIBUTEID_EVENTNOTIFIER_def)

section \<open>The queue of an item\<close>

text \<open>
  C20: A data change item never holds more notifications than its queue size. Adding one to a full
  queue drops exactly one: the oldest, or the second newest when the client asked to keep the old ones;
  the order of the others is kept and the new notification is always the last one.
\<close>

theorem item_queue_bounded:
  assumes "data_item_ok s m" "new_entry s m n"
  shows "data_item_ok (UA_Notification_enqueueMon n s) m \<and>
    mon_queue (the_mon (UA_Notification_enqueueMon n s) m) =
      bounded_queue (mon_maxQueueSize (the_mon s m)) (mon_discardOldest (the_mon s m)) (mon_queue (the_mon s m) @ [n]) \<and>
    length (mon_queue (the_mon (UA_Notification_enqueueMon n s) m)) \<le> mon_maxQueueSize (the_mon s m) \<and>
    last (mon_queue (the_mon (UA_Notification_enqueueMon n s) m)) = n"
proof -
  have "0 < mon_maxQueueSize (the_mon s m)" using assms(1) by (auto simp: data_item_ok_def the_mon_def)
  then show ?thesis
    using enqueued_item(1-3) [OF assms] ensureQueueSpace_effect [OF enqueued_item(2) [OF assms]]
      bounded_queue_bounds bounded_queue_newest [where q = "mon_queue (the_mon s m) @ [n]"] by simp
qed

lemma item_queue_bounded_witness: "mon_queue (the_mon (UA_Notification_enqueueMon 13 demo_full) 3) = [12, 13]"
  using item_queue_bounded [OF demo_full_ok(1,2)] by (simp add: demo_full_ok(3) demo_item_def bounded_queue_def)

text \<open>
  C21: A loss is marked. When a full queue drops a notification that was to be published, the notification
  that is now the first of the queue (with \<^verbatim>\<open>discardOldest\<close>) or the last of it (without) gets the
  overflow bits in its status, and is as before otherwise; in a queue of size one nothing is marked.
\<close>

theorem loss_is_marked:
  assumes "data_item_ok s m" "new_entry s m n"
    and full: "length (mon_queue (the_mon s m)) = mon_maxQueueSize (the_mon s m)"
    and reported: "not_global (the_not s (if mon_discardOldest (the_mon s m) then hd (mon_queue (the_mon s m))
      else last (mon_queue (the_mon s m))))"
    and t: "t = UA_Notification_enqueueMon n s"
    and e: "e = (if mon_discardOldest (the_mon s m) then hd (mon_queue (the_mon t m)) else last (mon_queue (the_mon t m)))"
    and d: "not_data (the_not s e) = DataChange d"
  shows "not_data (the_not t e) = DataChange
    (if mon_maxQueueSize (the_mon s m) = 1 then d
     else d\<lparr>min_value := (min_value d)\<lparr>dv_hasStatus := True,
        dv_status := dv_status (min_value d) OR OVERFLOW_INFOBITS\<rparr>\<rparr>)"
proof -
  define s1 where "s1 = mod_mon m (\<lambda>i. i\<lparr>mon_queue := mon_queue i @ [n], mon_queueSize := mon_queueSize i + 1\<rparr>)
    (mod_not n (not_local_update (\<lambda>_. True)) s)"
  note 1 = enqueued_item [OF assms(1,2), folded s1_def]
  obtain i where i: "srv_monitored s1 m = Some i" "m \<noteq> 0" "entries_ok s1 m (mon_queue i)" "mon_eventOverflows i = 0"
      "mon_queueSize i = length (mon_queue i)" "mon_attributeId i \<noteq> UA_ATTRIBUTEID_EVENTNOTIFIER"
    using 1(2) by (auto simp: data_item_ok_def)
  define q where "q = mon_queue (the_mon s m)"
  have iq: "mon_queue i = q @ [n]" "mon_discardOldest i = mon_discardOldest (the_mon s m)"
      "mon_maxQueueSize i = mon_maxQueueSize (the_mon s m)" "the_mon s1 m = i"
    using 1(3) i(1) by (simp_all add: the_mon_def q_def)
  have len: "length q = mon_maxQueueSize i" "0 < length q"
    using full iq assms(1) by (auto simp: q_def data_item_ok_def the_mon_def)
  then obtain a q' where q: "q = a # q'" by (cases q) auto
  have qm: "mon_queue (the_mon s m) = a # q'" using q by (simp add: q_def)
  have "mon_queue (the_mon t m) = bounded_queue (length q) (mon_discardOldest i) (q @ [n])"
    using ensureQueueSpace_effect [OF 1(2)] iq len by (simp add: t 1(1))
  then have e': "e = (if mon_discardOldest i then hd (q' @ [n]) else n)"
    using e iq(2) by (simp add: bounded_queue_def q)
  define d0 where "d0 = (if mon_discardOldest i then hd (mon_queue i) else last (butlast (mon_queue i)))"
  have sel: "select_dropped s1 m = Some d0"
    unfolding d0_def by (rule select_dropped_data [OF i(1,3)]) (simp add: iq q)
  have d0: "d0 = (if mon_discardOldest i then a else last q)" by (simp add: d0_def iq q)
  have rep: "not_global (the_not s1 d0)" using reported [unfolded qm] 1(4) by (simp add: d0 iq(2) q split: if_splits)
  define s2 where "s2 = UA_Notification_delete d0 (move_behind m d0 s1)"
  have drop: "drop_notifications 1 m False s1 = (True, s2)"
    using sel rep by (simp add: s2_def)
  obtain r u ns where eff: "drop_notifications 1 m False s1 = (r, u)" "srv_monitored u =
      (srv_monitored s1)(m \<mapsto> i\<lparr>mon_queue := dropped_queue 1 (mon_discardOldest i) (mon_queue i),
        mon_queueSize := length (mon_queue i) - 1\<rparr>)"
      "srv_notifications u = (srv_notifications s1) |` (- ns)"
      "ns \<inter> set (dropped_queue 1 (mon_discardOldest i) (mon_queue i)) = {}"
    using drop_notifications_effect [OF i(1,2,3) _ i(5), of 1 False] len iq by auto
  have s2: "s2 = u" using drop eff(1) by simp
  have q2: "mon_queue (the_mon s2 m) = dropped_queue 1 (mon_discardOldest i) (q @ [n])"
      "mon_discardOldest (the_mon s2 m) = mon_discardOldest i" "mon_maxQueueSize (the_mon s2 m) = mon_maxQueueSize i"
      "is_event_item s2 m = False"
    using eff(2) iq(1) i(6) by (simp_all add: s2 the_mon_def is_event_item_def)
  have ind: "overflow_indicator s2 m = Some e"
    using q2 e' by (cases q') (auto simp: overflow_indicator_def dropped_queue_def q final_one_def)
  have "e \<notin> ns" using eff(4) ind q2 iq(1) by (auto simp: overflow_indicator_def final_one_def first_def split: list.splits if_splits)
  moreover have "e \<in> set (mon_queue i)" using e' iq q by (cases q') auto
  ultimately obtain x where x: "srv_notifications s2 e = Some x" "not_data x = DataChange d"
    using i(3) eff(3) 1(5) [of e] d by (auto simp: entries_ok_def s2 the_not_def)
  have "t = setOverflowInfoBits m s2"
    using drop i(4,5) iq len q2(4) unfolding t 1(1) by (simp add: UA_MonitoredItem_ensureQueueSpace_def Let_def)
  then show ?thesis
    using ind x q2(3) iq(3) by (simp add: setOverflowInfoBits_def) (simp add: mod_not_def upd_at_def the_not_def)
qed

lemma loss_is_marked_witness:
  "\<exists>d. not_data (the_not (UA_Notification_enqueueMon 13 demo_full) 12) = DataChange d \<and>
    dv_hasStatus (min_value d) \<and> dv_status (min_value d) = OVERFLOW_INFOBITS"
proof -
  have full: "length (mon_queue (the_mon demo_full 3)) = mon_maxQueueSize (the_mon demo_full 3)"
    by (simp add: demo_full_ok(3) demo_item_def)
  have oldest: "(12 :: ptr) = (if mon_discardOldest (the_mon demo_full 3)
      then hd (mon_queue (the_mon (UA_Notification_enqueueMon 13 demo_full) 3))
      else last (mon_queue (the_mon (UA_Notification_enqueueMon 13 demo_full) 3)))"
    using ensureQueueSpace_effect [OF enqueued_item(2) [OF demo_full_ok(1,2)]] enqueued_item(1,3) [OF demo_full_ok(1,2)]
    by (simp add: demo_full_ok(3)) (simp add: demo_item_def bounded_queue_def)
  have reported: "not_global (the_not demo_full (if mon_discardOldest (the_mon demo_full 3) then hd (mon_queue (the_mon demo_full 3))
      else last (mon_queue (the_mon demo_full 3))))"
    by (simp add: demo_full_ok(3)) (simp add: demo_item_def demo_full_def the_not_def demo_notification_def)
  have "not_data (the_not demo_full 12) = DataChange \<lparr>min_clientHandle = 8,
      min_value = UA_DataValue_init\<lparr>dv_sourceTimestamp := 222, dv_hasSourceTimestamp := True\<rparr>\<rparr>"
    by (simp add: demo_full_def the_not_def demo_notification_def)
  from loss_is_marked [OF demo_full_ok(1,2) full reported refl oldest this] show ?thesis
    by (simp add: demo_full_ok(3)) (simp add: demo_item_def UA_DataValue_init_def)
qed

end
