(* ===== verification/Sub_Order.thy ===== *)
theory Sub_Order
  imports Sub_Queue
begin

text \<open>
  Publishing in order: when the queue of the subscription and the queues of its items agree, a response
  carries the first notifications of the queue, in their order, and exactly these leave the queue.
\<close>

section \<open>The two queues\<close>

definition is_event :: "UA_Server \<Rightarrow> ptr \<Rightarrow> bool" where
  "is_event s n = is_event_item s (not_mon (the_not s n))"

text \<open>A notification with its item: enqueued there, of the kind of the item.\<close>

definition entry_ok :: "UA_Server \<Rightarrow> ptr \<Rightarrow> ptr \<Rightarrow> bool" where
  "entry_ok s m n =
     (\<exists>x. srv_notifications s n = Some x \<and> not_mon x = m \<and> not_local x \<and>
        (is_event_item s m \<longleftrightarrow> (\<exists>e. not_data x = Event e)))"

text \<open>
  The queue of the subscription \<open>p\<close>: its counters are exact, and the notifications of an item are in it in
  the order in which the item holds the reported ones.
\<close>

definition queues_agree :: "UA_Server \<Rightarrow> ptr \<Rightarrow> bool" where
  "queues_agree s p =
     (\<exists>u. srv_subs s p = Some u \<and> distinct (sub_notificationQueue u) \<and>
        sub_notificationQueueSize u = length (sub_notificationQueue u) \<and>
        sub_dataChangeNotifications u = length (filter (\<lambda>n. \<not> is_event s n) (sub_notificationQueue u)) \<and>
        sub_eventNotifications u = length (filter (is_event s) (sub_notificationQueue u)) \<and>
        (\<forall>n \<in> set (sub_notificationQueue u). \<exists>m i. srv_monitored s m = Some i \<and> mon_subscription i = p \<and>
           n \<in> set (mon_queue i) \<and> not_global (the_not s n)) \<and>
        (\<forall>m i. srv_monitored s m = Some i \<longrightarrow> mon_subscription i = p \<longrightarrow>
           m \<noteq> 0 \<and> distinct (mon_queue i) \<and> (\<forall>n \<in> set (mon_queue i). entry_ok s m n) \<and>
           filter (\<lambda>n. not_global (the_not s n)) (mon_queue i) =
             filter (\<lambda>n. not_mon (the_not s n) = m) (sub_notificationQueue u)))"

section \<open>Deletion\<close>

definition unqueued :: "bool \<Rightarrow> ptr \<Rightarrow> UA_Subscription \<Rightarrow> UA_Subscription" where
  "unqueued event n u =
     u\<lparr>sub_notificationQueue := remove1 n (sub_notificationQueue u),
       sub_notificationQueueSize := sub_notificationQueueSize u - 1,
       sub_eventNotifications := (if event then sub_eventNotifications u - 1 else sub_eventNotifications u),
       sub_dataChangeNotifications := (if event then sub_dataChangeNotifications u else sub_dataChangeNotifications u - 1)\<rparr>"

definition unlisted :: "bool \<Rightarrow> ptr \<Rightarrow> UA_MonitoredItem \<Rightarrow> UA_MonitoredItem" where
  "unlisted overflow n i =
     i\<lparr>mon_queue := remove1 n (mon_queue i), mon_queueSize := mon_queueSize i - 1,
       mon_eventOverflows := (if overflow then mon_eventOverflows i - 1 else mon_eventOverflows i)\<rparr>"

lemma delete_tables:
  assumes "srv_notifications s n = Some x" "not_mon x = m" "m \<noteq> 0" "not_local x" "srv_monitored s m = Some i"
  shows "srv_monitored (UA_Notification_delete n s) = (srv_monitored s)(m \<mapsto> unlisted (not_isOverflowEvent x) n i)"
    "srv_notifications (UA_Notification_delete n s) = (srv_notifications s)(n := None)"
    "srv_subs (UA_Notification_delete n s) =
      (if not_global x then upd_at (mon_subscription i) (unqueued (is_event_item s m) n) (srv_subs s) else srv_subs s)"
proof -
  have x: "the_not s n = x" using assms(1) by (simp add: the_not_def)
  define t where "t = UA_Notification_dequeueMon n s"
  have t: "srv_monitored t = (srv_monitored s)(m \<mapsto> unlisted (not_isOverflowEvent x) n i)"
    "srv_notifications t = (srv_notifications s)(n \<mapsto> x\<lparr>not_local := False\<rparr>)" "srv_subs t = srv_subs s"
    using assms by (auto simp: t_def UA_Notification_dequeueMon_def Let_def x unlisted_def mod_mon_def mod_not_def upd_at_def)
  have xt: "the_not t n = x\<lparr>not_local := False\<rparr>" "the_mon t m = unlisted (not_isOverflowEvent x) n i"
    using t by (simp_all add: the_not_def the_mon_def)
  then have ev: "is_event_item t m = is_event_item s m" "mon_subscription (the_mon t m) = mon_subscription i"
    using assms(5) by (simp_all add: is_event_item_def unlisted_def the_mon_def)
  have mon: "srv_monitored (UA_Notification_dequeueSub n t) = srv_monitored t"
    by (simp add: UA_Notification_dequeueSub_def Let_def)
  have nots: "(srv_notifications (UA_Notification_dequeueSub n t))(n := None) = (srv_notifications t)(n := None)"
    by (auto simp: UA_Notification_dequeueSub_def Let_def mod_not_def upd_at_def)
  have "srv_subs (UA_Notification_dequeueSub n t) =
      (if not_global x then upd_at (mon_subscription i) (\<lambda>u. let v = (if is_event_item s m
         then u\<lparr>sub_eventNotifications := sub_eventNotifications u - 1\<rparr>
         else u\<lparr>sub_dataChangeNotifications := sub_dataChangeNotifications u - 1\<rparr>)
         in v\<lparr>sub_notificationQueue := remove1 n (sub_notificationQueue v),
              sub_notificationQueueSize := sub_notificationQueueSize v - 1\<rparr>) (srv_subs t) else srv_subs t)"
    using assms(2) ev by (simp add: UA_Notification_dequeueSub_def Let_def xt mod_sub_def mod_not_def upd_at_def option.map_comp comp_def)
  moreover have "(let v = (if e then u\<lparr>sub_eventNotifications := sub_eventNotifications u - 1\<rparr>
         else u\<lparr>sub_dataChangeNotifications := sub_dataChangeNotifications u - 1\<rparr>)
         in v\<lparr>sub_notificationQueue := remove1 n (sub_notificationQueue v),
              sub_notificationQueueSize := sub_notificationQueueSize v - 1\<rparr>) = unqueued e n u" for e u
    by (simp add: unqueued_def)
  ultimately have subs: "srv_subs (UA_Notification_dequeueSub n t) =
      (if not_global x then upd_at (mon_subscription i) (unqueued (is_event_item s m) n) (srv_subs t) else srv_subs t)"
    by simp
  show "srv_monitored (UA_Notification_delete n s) = (srv_monitored s)(m \<mapsto> unlisted (not_isOverflowEvent x) n i)"
    using assms(2,3) mon t(1) by (simp add: UA_Notification_delete_def Let_def x flip: t_def)
  show "srv_notifications (UA_Notification_delete n s) = (srv_notifications s)(n := None)"
    using assms(2,3) nots t(2) by (simp add: UA_Notification_delete_def Let_def x flip: t_def)
  show "srv_subs (UA_Notification_delete n s) =
      (if not_global x then upd_at (mon_subscription i) (unqueued (is_event_item s m) n) (srv_subs s) else srv_subs s)"
    using assms(2,3) subs t(3) by (simp add: UA_Notification_delete_def Let_def x flip: t_def)
qed

text \<open>Unreported notifications in front of the item's queue are deleted without a trace in the subscription.\<close>

lemma delete_unreported:
  assumes "srv_monitored s m = Some i" "m \<noteq> 0" "mon_queue i = pre @ q" "distinct (mon_queue i)"
    "\<forall>n \<in> set pre. entry_ok s m n \<and> \<not> not_global (the_not s n)"
  shows "\<exists>t i'. fold UA_Notification_delete (rev pre) s = t \<and> srv_monitored t = (srv_monitored s)(m \<mapsto> i') \<and> mon_queue i' = q \<and>
    mon_subscription i' = mon_subscription i \<and> mon_attributeId i' = mon_attributeId i \<and>
    srv_notifications t = (srv_notifications s) |` (- set pre) \<and> srv_subs t = srv_subs s"
  using assms
proof (induction pre arbitrary: s i q rule: rev_induct)
  case Nil
  then show ?case by (intro exI [of _ s] exI [of _ i]) (simp add: fun_upd_idem restrict_map_def)
next
  case (snoc n pre)
  obtain x where x: "srv_notifications s n = Some x" "not_mon x = m" "not_local x" "\<not> not_global x"
    using snoc.prems(5) by (auto simp: entry_ok_def the_not_def)
  define s1 where "s1 = UA_Notification_delete n s"
  define i1 where "i1 = unlisted (not_isOverflowEvent x) n i"
  have s1: "srv_monitored s1 = (srv_monitored s)(m \<mapsto> i1)" "srv_notifications s1 = (srv_notifications s)(n := None)"
      "srv_subs s1 = srv_subs s"
    using delete_tables [OF x(1,2) snoc.prems(2) x(3) snoc.prems(1)] x(4) by (simp_all add: s1_def i1_def)
  have i1: "mon_queue i1 = pre @ q" "mon_subscription i1 = mon_subscription i" "mon_attributeId i1 = mon_attributeId i"
    using snoc.prems(3,4) by (auto simp: i1_def unlisted_def remove1_append)
  have ev: "is_event_item s1 m = is_event_item s m"
    using s1(1) i1(3) snoc.prems(1) by (simp add: is_event_item_def the_mon_def)
  have "\<forall>n' \<in> set pre. entry_ok s1 m n' \<and> \<not> not_global (the_not s1 n')"
    using snoc.prems(3,4,5) s1(2) ev by (auto simp: entry_ok_def the_not_def)
  moreover have "srv_monitored s1 m = Some i1" "distinct (mon_queue i1)"
    using s1(1) i1(1) snoc.prems(3,4) by auto
  ultimately obtain t i' where "fold UA_Notification_delete (rev pre) s1 = t" "srv_monitored t = (srv_monitored s1)(m \<mapsto> i')"
      "mon_queue i' = q" "mon_subscription i' = mon_subscription i1" "mon_attributeId i' = mon_attributeId i1"
      "srv_notifications t = (srv_notifications s1) |` (- set pre)" "srv_subs t = srv_subs s1"
    using snoc.IH [of s1 i1 q] snoc.prems(2) i1(1) by blast
  moreover have "(srv_notifications s1) |` (- set pre) = (srv_notifications s) |` (- set (pre @ [n]))"
    by (auto simp: s1(2) restrict_map_def fun_eq_iff)
  ultimately show ?case using s1 i1 by (intro exI [of _ t] exI [of _ i']) (simp add: s1_def)
qed


text \<open>The first notification of the subscription leaves both queues, with the unreported ones in front of it.\<close>

lemma filter_first_split:
  assumes "filter P xs = n # ys" "distinct xs"
  obtains pre post where "xs = pre @ n # post" "\<forall>x \<in> set pre. \<not> P x" "P n" "filter P post = ys" "in_front n xs = pre" "n \<notin> set pre"
proof -
  obtain pre post where e: "xs = pre @ n # post" "\<forall>x \<in> set pre. \<not> P x" "P n" "ys = filter P post"
    using assms(1) by (auto simp: filter_eq_Cons_iff)
  moreover have "in_front n xs = pre" using e assms(2) by simp
  ultimately show thesis using that assms(2) by auto
qed

lemma delete_first_tables:
  assumes q: "queues_agree s p" and u: "srv_subs s p = Some u" and n: "sub_notificationQueue u = n # ns"
  obtains m i i' pre post where "not_mon (the_not s n) = m" "srv_monitored s m = Some i" "mon_subscription i = p"
    "mon_queue i = pre @ n # post" "\<forall>k \<in> set pre. \<not> not_global (the_not s k)"
    "srv_monitored (delete_with_previous n s) = (srv_monitored s)(m \<mapsto> i')" "mon_queue i' = post"
    "mon_subscription i' = p" "mon_attributeId i' = mon_attributeId i"
    "srv_notifications (delete_with_previous n s) = (srv_notifications s) |` (- set (pre @ [n]))"
    "srv_subs (delete_with_previous n s) = (srv_subs s)(p \<mapsto> unqueued (is_event s n) n u)"
proof -
  from q u n obtain m i where i: "srv_monitored s m = Some i" "mon_subscription i = p" "n \<in> set (mon_queue i)"
      "not_global (the_not s n)"
    by (auto simp: queues_agree_def)
  with q u have a: "m \<noteq> 0" "distinct (mon_queue i)" "\<forall>k \<in> set (mon_queue i). entry_ok s m k"
      "filter (\<lambda>n. not_global (the_not s n)) (mon_queue i) = filter (\<lambda>n. not_mon (the_not s n) = m) (n # ns)"
    by (auto simp: queues_agree_def simp flip: n)
  obtain x where x: "srv_notifications s n = Some x" "not_mon x = m" "not_local x" "the_not s n = x"
    using a(3) i(3) by (auto simp: entry_ok_def the_not_def)
  have "filter (\<lambda>n. not_global (the_not s n)) (mon_queue i) = n # filter (\<lambda>n. not_mon (the_not s n) = m) ns"
    using a(4) x(2,4) by simp
  then obtain pre post where e: "mon_queue i = pre @ n # post" "\<forall>k \<in> set pre. \<not> not_global (the_not s k)"
      "in_front n (mon_queue i) = pre" "n \<notin> set pre"
    using filter_first_split [OF _ a(2)] by metis
  have tm: "the_mon s m = i" using i(1) by (simp add: the_mon_def)
  have "\<forall>k \<in> set pre. entry_ok s m k \<and> \<not> not_global (the_not s k)" using a(3) e(1,2) by simp
  from delete_unreported [OF i(1) a(1) e(1) a(2) this] obtain t i1 where
      t: "fold UA_Notification_delete (rev pre) s = t" "srv_monitored t = (srv_monitored s)(m \<mapsto> i1)" "mon_queue i1 = n # post"
        "mon_subscription i1 = p" "mon_attributeId i1 = mon_attributeId i"
        "srv_notifications t = (srv_notifications s) |` (- set pre)" "srv_subs t = srv_subs s"
    using i(2) by auto
  have ev: "is_event_item t m = is_event s n"
    using t(2,5) i(1) x by (simp add: is_event_item_def is_event_def the_mon_def)
  have xt: "srv_notifications t n = Some x" using t(6) e(4) x(1) by simp
  have d: "delete_with_previous n s = UA_Notification_delete n t"
    by (simp add: delete_with_previous_def x(2,4) tm e(3) t(1))
  have m1: "srv_monitored t m = Some i1" using t(2) by simp
  note dt = delete_tables [OF xt x(2) a(1) x(3) m1]
  show thesis
  proof (rule that [of m i pre post "unlisted (not_isOverflowEvent x) n i1"])
    show "srv_monitored (delete_with_previous n s) = (srv_monitored s)(m \<mapsto> unlisted (not_isOverflowEvent x) n i1)"
      using dt(1) t(2) d by simp
    show "srv_notifications (delete_with_previous n s) = (srv_notifications s) |` (- set (pre @ [n]))"
      using dt(2) t(6) d by (auto simp: restrict_map_def fun_eq_iff)
    show "srv_subs (delete_with_previous n s) = (srv_subs s)(p \<mapsto> unqueued (is_event s n) n u)"
      using dt(3) t(4,7) d u i(4) x(4) ev by (simp add: upd_at_def)
  qed (use x i e t in \<open>simp_all add: unlisted_def\<close>)
qed


lemma delete_first_agree:
  assumes q: "queues_agree s p" and u: "srv_subs s p = Some u" and n: "sub_notificationQueue u = n # ns"
  shows "queues_agree (delete_with_previous n s) p \<and>
    srv_subs (delete_with_previous n s) = (srv_subs s)(p \<mapsto> unqueued (is_event s n) n u) \<and>
    (\<forall>k \<in> set ns. the_not (delete_with_previous n s) k = the_not s k \<and> is_event (delete_with_previous n s) k = is_event s k)"
proof -
  define t where "t = delete_with_previous n s"
  obtain m i i' pre post where d: "not_mon (the_not s n) = m" "srv_monitored s m = Some i" "mon_subscription i = p"
      "mon_queue i = pre @ n # post" "\<forall>k \<in> set pre. \<not> not_global (the_not s k)"
      "srv_monitored t = (srv_monitored s)(m \<mapsto> i')" "mon_queue i' = post"
      "mon_subscription i' = p" "mon_attributeId i' = mon_attributeId i"
      "srv_notifications t = (srv_notifications s) |` (- set (pre @ [n]))"
      "srv_subs t = (srv_subs s)(p \<mapsto> unqueued (is_event s n) n u)"
    unfolding t_def by (rule delete_first_tables [OF assms])
  from q u n have a: "distinct (n # ns)" "sub_notificationQueueSize u = Suc (length ns)"
      "sub_dataChangeNotifications u = length (filter (\<lambda>n. \<not> is_event s n) (n # ns))"
      "sub_eventNotifications u = length (filter (is_event s) (n # ns))"
      "\<forall>n \<in> set (n # ns). \<exists>m i. srv_monitored s m = Some i \<and> mon_subscription i = p \<and> n \<in> set (mon_queue i) \<and>
         not_global (the_not s n)"
    and items: "srv_monitored s m = Some i \<Longrightarrow> mon_subscription i = p \<Longrightarrow> m \<noteq> 0 \<and> distinct (mon_queue i) \<and>
         (\<forall>n \<in> set (mon_queue i). entry_ok s m n) \<and>
         filter (\<lambda>n. not_global (the_not s n)) (mon_queue i) = filter (\<lambda>k. not_mon (the_not s k) = m) (n # ns)" for m i
    by (auto simp: queues_agree_def)
  have gn: "not_global (the_not s n)" using a(5) by auto
  have keep: "the_not t k = the_not s k" "srv_notifications t k = srv_notifications s k" if "k \<notin> set pre" "k \<noteq> n" for k
    using that d(10) by (simp_all add: the_not_def)
  have att: "is_event_item t k = is_event_item s k" for k
    using d(2,6,9) by (simp add: is_event_item_def the_mon_def)
  have ns: "k \<notin> set pre" "k \<noteq> n" if "k \<in> set ns" for k
    using a(1,5) d(5) that by auto
  have ev: "is_event t k = is_event s k" if "k \<in> set ns" for k
    using keep(1) [OF ns [OF that]] att by (simp add: is_event_def)
  have rest: "k \<notin> set pre" "k \<noteq> n" if "srv_monitored s m' = Some j" "mon_subscription j = p" "k \<in> set (mon_queue j)" "m' \<noteq> m" for k m' j
  proof -
    have "entry_ok s m' k" using items that by blast
    then have "\<not> entry_ok s m k" using that(4) by (auto simp: entry_ok_def)
    moreover have "\<forall>l \<in> set (pre @ [n]). entry_ok s m l" using items [OF d(2,3)] d(4) by auto
    ultimately show "k \<notin> set pre" "k \<noteq> n" by auto
  qed
  have old: "k \<notin> set pre" "k \<noteq> n" if "k \<in> set post" for k
    using items [OF d(2,3)] d(4) that by auto
  have ok: "entry_ok t m' k" if "entry_ok s m' k" "k \<notin> set pre" "k \<noteq> n" for k m'
    using that keep(2) [OF that(2,3)] att by (simp add: entry_ok_def)
  have flt: "filter (\<lambda>k. not_global (the_not t k)) q = filter (\<lambda>k. not_global (the_not s k)) q"
    "filter (\<lambda>k. not_mon (the_not t k) = m') q = filter (\<lambda>k. not_mon (the_not s k) = m') q"
    if "\<forall>k \<in> set q. k \<notin> set pre \<and> k \<noteq> n" for q m'
    using that keep(1) by (auto intro: filter_cong)
  have "queues_agree t p"
    unfolding queues_agree_def
  proof (intro exI [of _ "unqueued (is_event s n) n u"] conjI ballI allI impI)
    show "sub_dataChangeNotifications (unqueued (is_event s n) n u) =
        length (filter (\<lambda>n. \<not> is_event t n) (sub_notificationQueue (unqueued (is_event s n) n u)))"
      "sub_eventNotifications (unqueued (is_event s n) n u) =
        length (filter (is_event t) (sub_notificationQueue (unqueued (is_event s n) n u)))"
      using a n ev by (auto simp: unqueued_def cong: filter_cong)
  next
    fix k assume "k \<in> set (sub_notificationQueue (unqueued (is_event s n) n u))"
    then have k: "k \<in> set ns" using n by (simp add: unqueued_def)
    then obtain m' j where j: "srv_monitored s m' = Some j" "mon_subscription j = p" "k \<in> set (mon_queue j)"
        "not_global (the_not s k)" using a(5) by auto
    show "\<exists>m i. srv_monitored t m = Some i \<and> mon_subscription i = p \<and> k \<in> set (mon_queue i) \<and> not_global (the_not t k)"
    proof (cases "m' = m")
      case True
      then have "k \<in> set post" using j d(2,4) ns [OF k] by auto
      then show ?thesis using d(6-8) j(4) keep(1) [OF ns [OF k]] by (intro exI [of _ m] exI [of _ i']) simp
    next
      case False
      then show ?thesis using j d(6) keep(1) [OF ns [OF k]] by (intro exI [of _ m'] exI [of _ j]) simp
    qed
  next
    fix m' j assume j: "srv_monitored t m' = Some j" "mon_subscription j = p"
    show "m' \<noteq> 0" using j d items by (cases "m' = m") auto
    show "distinct (mon_queue j)" using j d items [OF d(2,3)] items [of m' j] by (cases "m' = m") auto
    show "entry_ok t m' k" if "k \<in> set (mon_queue j)" for k
    proof (cases "m' = m")
      case True
      then show ?thesis using j that d items [OF d(2,3)] by (auto intro!: ok old)
    next
      case False
      then have "srv_monitored s m' = Some j" using j d(6) by simp
      then show ?thesis using j that items rest [OF _ j(2) that False] by (blast intro: ok)
    qed
    show "filter (\<lambda>n. not_global (the_not t n)) (mon_queue j) =
        filter (\<lambda>n. not_mon (the_not t n) = m') (sub_notificationQueue (unqueued (is_event s n) n u))"
    proof (cases "m' = m")
      case True
      then have "mon_queue j = post" using j d by simp
      moreover have "filter (\<lambda>n. not_global (the_not s n)) (pre @ n # post) = n # filter (\<lambda>k. not_mon (the_not s k) = m) ns"
        using items [OF d(2,3)] d(1,4) by simp
      then have "filter (\<lambda>n. not_global (the_not s n)) post = filter (\<lambda>k. not_mon (the_not s k) = m) ns"
        using d(5) gn by simp
      ultimately show ?thesis using True n flt old ns by (simp add: unqueued_def)
    next
      case False
      then have s: "srv_monitored s m' = Some j" using j d(6) by simp
      then have "\<forall>k \<in> set (mon_queue j). k \<notin> set pre \<and> k \<noteq> n" using j(2) rest False by blast
      then show ?thesis using items [OF s j(2)] False d(1) n flt ns by (simp add: unqueued_def)
    qed
  qed (use a n d(11) in \<open>simp_all add: unqueued_def\<close>)
  then show ?thesis unfolding t_def [symmetric] using d(11) keep(1) ns ev by blast
qed


section \<open>Moving the notifications into the message\<close>

definition data_changes :: "UA_Server \<Rightarrow> ptr list \<Rightarrow> UA_MonitoredItemNotification list" where
  "data_changes s ns = concat (map (\<lambda>n. case not_data (the_not s n) of DataChange d \<Rightarrow> [d] | Event e \<Rightarrow> []) ns)"

definition events_of :: "UA_Server \<Rightarrow> ptr list \<Rightarrow> UA_EventFieldList list" where
  "events_of s ns = concat (map (\<lambda>n. case not_data (the_not s n) of DataChange d \<Rightarrow> [] | Event e \<Rightarrow> [e]) ns)"

lemma same_data:
  assumes "\<forall>k \<in> set ns. the_not t k = the_not s k"
  shows "data_changes t ns = data_changes s ns" "events_of t ns = events_of s ns"
  using assms by (auto simp: data_changes_def events_of_def intro!: arg_cong [of _ _ concat])

lemma queued_kind:
  assumes "queues_agree s p" "srv_subs s p = Some u" "n \<in> set (sub_notificationQueue u)"
  shows "is_event s n = (\<exists>e. not_data (the_not s n) = Event e)"
proof -
  obtain m i where i: "srv_monitored s m = Some i" "mon_subscription i = p" "n \<in> set (mon_queue i)"
    using assms by (auto simp: queues_agree_def)
  have "\<forall>m i. srv_monitored s m = Some i \<longrightarrow> mon_subscription i = p \<longrightarrow> (\<forall>n \<in> set (mon_queue i). entry_ok s m n)"
    using assms(1) unfolding queues_agree_def by blast
  then have "entry_ok s m n" using i by blast
  then show ?thesis by (auto simp: entry_ok_def is_event_def the_not_def)
qed

lemma move_notification_kind:
  assumes "queues_agree s p" "srv_subs s p = Some u" "n \<in> set (sub_notificationQueue u)"
  shows "move_notification n acc s = (fst acc @ data_changes s [n], snd acc @ events_of s [n])"
  using queued_kind [OF assms]
  by (auto simp: move_notification_def data_changes_def events_of_def is_event_def split: notification_data.splits)

lemma move_in_order:
  assumes "queues_agree s p" "srv_subs s p = Some u"
  shows "\<exists>t u'. move_notifications k (sub_notificationQueue u) acc s =
      ((fst acc @ data_changes s (take k (sub_notificationQueue u)), snd acc @ events_of s (take k (sub_notificationQueue u))), t) \<and>
    queues_agree t p \<and> srv_subs t p = Some u' \<and> sub_notificationQueue u' = drop k (sub_notificationQueue u) \<and>
    (\<forall>n \<in> set (drop k (sub_notificationQueue u)). the_not t n = the_not s n)"
  using assms
proof (induction k arbitrary: s u acc)
  case 0
  then show ?case by (simp add: data_changes_def events_of_def)
next
  case (Suc k)
  show ?case
  proof (cases "sub_notificationQueue u")
    case Nil
    then show ?thesis using Suc.prems by (simp add: data_changes_def events_of_def)
  next
    case (Cons n ns)
    define s1 where "s1 = delete_with_previous n s"
    define u1 where "u1 = unqueued (is_event s n) n u"
    have s1: "queues_agree s1 p" "srv_subs s1 p = Some u1" "\<forall>k \<in> set ns. the_not s1 k = the_not s k"
      using delete_first_agree [OF Suc.prems Cons] by (simp_all add: s1_def u1_def)
    have u1: "sub_notificationQueue u1 = ns" using Cons by (simp add: u1_def unqueued_def)
    have n: "move_notification n acc s = (fst acc @ data_changes s [n], snd acc @ events_of s [n])"
      using move_notification_kind [OF Suc.prems] Cons by simp
    have same: "data_changes s1 (take k ns) = data_changes s (take k ns)" "events_of s1 (take k ns) = events_of s (take k ns)"
      using s1(3) by (auto intro!: same_data dest: in_set_takeD)
    obtain t u' where "move_notifications k ns (move_notification n acc s) s1 =
        ((fst acc @ data_changes s [n] @ data_changes s (take k ns), snd acc @ events_of s [n] @ events_of s (take k ns)), t)"
        "queues_agree t p" "srv_subs t p = Some u'" "sub_notificationQueue u' = drop k ns"
        "\<forall>k \<in> set (drop k ns). the_not t k = the_not s1 k"
      using Suc.IH [OF s1(1,2), of "move_notification n acc s"] by (auto simp: u1 n same)
    moreover have "\<forall>k \<in> set (drop k ns). the_not s1 k = the_not s k" using s1(3) by (auto dest: in_set_dropD)
    ultimately show ?thesis by (simp add: Cons data_changes_def events_of_def flip: s1_def)
  qed
qed

end
