(* ===== verification/Sub_Deliver.thy ===== *)
theory Sub_Deliver
  imports Sub_Order
begin

text \<open>
  The response to a publish request: what is queued is sent in its order, and a message that was sent
  can be requested again until it is acknowledged.
\<close>

section \<open>Operations that keep the queues\<close>

definition queue_of :: "UA_Subscription \<Rightarrow> ptr list \<times> nat \<times> nat \<times> nat \<times> u32" where
  "queue_of u = (sub_notificationQueue u, sub_notificationQueueSize u, sub_dataChangeNotifications u,
     sub_eventNotifications u, sub_nextSequenceNumber u)"

definition same_queue :: "ptr \<Rightarrow> UA_Server \<Rightarrow> UA_Server \<Rightarrow> bool" where
  "same_queue p s t =
     (srv_notifications t = srv_notifications s \<and> srv_monitored t = srv_monitored s \<and>
      map_option queue_of (srv_subs t p) = map_option queue_of (srv_subs s p))"

lemma same_queue_refl [simp, intro]: "same_queue p s s"
  by (simp add: same_queue_def)

lemma same_queue_trans [trans]: "same_queue p s t \<Longrightarrow> same_queue p t u \<Longrightarrow> same_queue p s u"
  by (simp add: same_queue_def)

lemma same_queue_mod_sub:
  assumes "\<And>u. queue_of (f u) = queue_of u" "same_queue p s t"
  shows "same_queue p s (mod_sub q f t)"
  using assms by (cases "srv_subs t q") (auto simp: same_queue_def mod_sub_def upd_at_def)

lemma same_queue_mod_ses: "same_queue p s t \<Longrightarrow> same_queue p s (mod_ses a f t)"
  by (simp add: same_queue_def)

lemma same_queue_mallocs: "same_queue p s (s\<lparr>srv_mallocs := ms\<rparr>)" "same_queue p s (s\<lparr>srv_sent := out\<rparr>)"
  by (simp_all add: same_queue_def)

lemmas same_queue_intros = same_queue_mod_sub same_queue_mod_ses

lemma agree_frame:
  assumes n: "srv_notifications t = srv_notifications s" and m: "srv_monitored t = srv_monitored s"
    and s: "queues_agree s p" "srv_subs s p = Some u" and t: "srv_subs t p = Some v"
    and v: "sub_notificationQueue v = sub_notificationQueue u" "sub_notificationQueueSize v = sub_notificationQueueSize u"
      "sub_dataChangeNotifications v = sub_dataChangeNotifications u" "sub_eventNotifications v = sub_eventNotifications u"
  shows "queues_agree t p"
proof -
  have e: "is_event t = is_event s" "entry_ok t = entry_ok s" "the_not t = the_not s"
    using n m by (auto simp: fun_eq_iff is_event_def entry_ok_def is_event_item_def the_mon_def the_not_def)
  show ?thesis using s t v m by (simp add: queues_agree_def e)
qed

lemma same_queue_agree:
  assumes "same_queue p s t" "queues_agree s p"
  shows "queues_agree t p"
proof -
  obtain u where u: "srv_subs s p = Some u" using assms(2) by (auto simp: queues_agree_def)
  then obtain v where v: "srv_subs t p = Some v" "queue_of v = queue_of u"
    using assms(1) by (cases "srv_subs t p") (auto simp: same_queue_def)
  show ?thesis
    by (rule agree_frame [OF _ _ assms(2) u v(1)]) (use assms(1) v(2) in \<open>simp_all add: same_queue_def queue_of_def\<close>)
qed

lemma same_queue_removeOldest: "same_queue p s (removeOldestRetransmissionMessageFromSub q s)"
  unfolding removeOldestRetransmissionMessageFromSub_def Let_def
  by (auto intro!: same_queue_intros simp: queue_of_def)

lemma same_queue_add: "same_queue p s (UA_Subscription_addRetransmissionMessage q m s)"
  unfolding addRetransmission_room Let_def make_room_def removeOldestRetransmissionMessageFromSession_def
  by (auto intro!: same_queue_intros same_queue_removeOldest simp: queue_of_def split: option.splits)

lemma same_queue_sendResponse: "same_queue p s (sendResponse c i r s)"
  by (simp add: sendResponse_def sendServiceFault_def same_queue_mallocs)

section \<open>The message\<close>

text \<open>
  The message for the first \<open>k\<close> notifications of the queue \<open>q\<close>. A list of a kind is there when the whole
  queue holds a notification of that kind, so it can be empty.
\<close>

definition queue_message :: "UA_Server \<Rightarrow> ptr list \<Rightarrow> nat \<Rightarrow> UA_NotificationData list" where
  "queue_message s q k =
     (if list_all (is_event s) q then [] else [DataChangeNotification (data_changes s (take k q))]) @
     (if list_ex (is_event s) q then [EventNotificationList (events_of s (take k q))] else [])"

lemma same_message:
  "srv_notifications t = srv_notifications s \<Longrightarrow> srv_monitored t = srv_monitored s \<Longrightarrow> queue_message t q k = queue_message s q k"
  by (simp add: queue_message_def data_changes_def events_of_def is_event_def [abs_def] is_event_item_def the_not_def the_mon_def)

definition memory :: "nat \<Rightarrow> UA_Server \<Rightarrow> bool" where
  "memory k s = (k \<le> length (srv_mallocs s) \<and> (\<forall>a \<in> set (take k (srv_mallocs s)). a \<noteq> 0))"

lemma memory_malloc:
  assumes "memory k s" "0 < k"
  shows "\<exists>a ms. malloc s = (a, s\<lparr>srv_mallocs := ms\<rparr>) \<and> a \<noteq> 0 \<and> memory (k - 1) (s\<lparr>srv_mallocs := ms\<rparr>)"
proof (cases "srv_mallocs s")
  case (Cons a ms)
  then show ?thesis using assms
    by (intro exI [of _ a] exI [of _ ms]) (cases k; simp add: memory_def malloc_def)
qed (use assms in \<open>simp add: memory_def\<close>)

lemma memory_less: "memory k s \<Longrightarrow> j \<le> k \<Longrightarrow> memory j s"
  using set_take_subset_set_take [of j k "srv_mallocs s"] by (auto simp: memory_def)

lemma memory_alloc_list:
  assumes "memory k s" "2 \<le> k"
  shows "\<exists>ms. alloc_list b s = (True, s\<lparr>srv_mallocs := ms\<rparr>) \<and> memory (k - 2) (s\<lparr>srv_mallocs := ms\<rparr>)"
proof (cases b)
  case True
  have k: "0 < k" "0 < k - 1" using assms(2) by simp_all
  obtain a ms where a: "malloc s = (a, s\<lparr>srv_mallocs := ms\<rparr>)" "a \<noteq> 0" "memory (k - 1) (s\<lparr>srv_mallocs := ms\<rparr>)"
    using memory_malloc [OF assms(1)] k by blast
  obtain a' ms' where b: "malloc (s\<lparr>srv_mallocs := ms\<rparr>) = (a', s\<lparr>srv_mallocs := ms'\<rparr>)" "a' \<noteq> 0"
      "memory (k - 1 - 1) (s\<lparr>srv_mallocs := ms'\<rparr>)"
    using memory_malloc [OF a(3) k(2)] by auto
  have "alloc_list b s = (True, s\<lparr>srv_mallocs := ms'\<rparr>)" using a(1,2) b(1,2) True by (simp add: alloc_list_def)
  then show ?thesis using b(3) by (intro exI [of _ ms']) (simp add: numeral_2_eq_2)
next
  case False
  then show ?thesis using memory_less [OF assms(1)]
    by (intro exI [of _ "srv_mallocs s"]) (simp add: alloc_list_def)
qed

lemma prepare_in_order:
  assumes "queues_agree s p" "srv_subs s p = Some u" "memory 5 s"
  shows "\<exists>t u'. prepareNotificationMessage p k s = ((GOOD, queue_message s (sub_notificationQueue u) k), t) \<and>
    queues_agree t p \<and> srv_subs t p = Some u' \<and> strip u' = strip u \<and>
    sub_notificationQueue u' = drop k (sub_notificationQueue u) \<and> queues_only s t"
proof -
  define dcn where "dcn = (sub_dataChangeNotifications u > 0)"
  define enl where "enl = (sub_eventNotifications u > 0)"
  obtain a ms1 where a: "malloc s = (a, s\<lparr>srv_mallocs := ms1\<rparr>)" "a \<noteq> 0" "memory 4 (s\<lparr>srv_mallocs := ms1\<rparr>)"
    using memory_malloc [OF assms(3)] by auto
  obtain ms2 where b: "alloc_list dcn (s\<lparr>srv_mallocs := ms1\<rparr>) = (True, s\<lparr>srv_mallocs := ms2\<rparr>)" "memory 2 (s\<lparr>srv_mallocs := ms2\<rparr>)"
    using memory_alloc_list [OF a(3), of dcn] by auto
  obtain ms3 where c: "alloc_list enl (s\<lparr>srv_mallocs := ms2\<rparr>) = (True, s\<lparr>srv_mallocs := ms3\<rparr>)"
    using memory_alloc_list [OF b(2), of enl] by auto
  define s3 where "s3 = s\<lparr>srv_mallocs := ms3\<rparr>"
  have s3: "queues_agree s3 p" "srv_subs s3 p = Some u" "the_not s3 = the_not s"
    using same_queue_agree [OF same_queue_mallocs(1) assms(1)] assms(2) by (simp_all add: s3_def the_not_def fun_eq_iff)
  have same: "data_changes s3 ns = data_changes s ns" "events_of s3 ns = events_of s ns" for ns
    by (rule same_data; simp add: s3)+
  obtain t u' where t: "move_notifications k (sub_notificationQueue u) ([], []) s3 =
      ((data_changes s (take k (sub_notificationQueue u)), events_of s (take k (sub_notificationQueue u))), t)"
      "queues_agree t p" "srv_subs t p = Some u'" "sub_notificationQueue u' = drop k (sub_notificationQueue u)"
    using move_in_order [OF s3(1,2), of k "([], [])"] by (auto simp: same)
  have kinds: "list_all (is_event s) (sub_notificationQueue u) = (\<not> dcn)" "list_ex (is_event s) (sub_notificationQueue u) = enl"
    using assms(1,2) by (auto simp: queues_agree_def dcn_def enl_def list_all_iff list_ex_iff filter_empty_conv)
  have "prepareNotificationMessage p k s = ((GOOD, queue_message s (sub_notificationQueue u) k), t)"
    using a(1,2) b(1) c t(1) assms(2)
    by (simp add: prepareNotificationMessage_def Let_def the_sub_def queue_message_def kinds s3_def flip: dcn_def enl_def)
  moreover from this have "queues_only s t" using queues_only_prepare [of s s p k] by simp
  moreover have "strip u' = strip u" using queues_onlyD(8) [OF calculation(2), of p] assms(2) t(3) by (simp add: the_sub_def)
  ultimately show ?thesis using t(2-4) by blast
qed


section \<open>Sending it\<close>

text \<open>A session that can be answered: it has a channel and a queued request without an error.\<close>

definition answerable :: "UA_Server \<Rightarrow> ptr \<Rightarrow> ptr \<Rightarrow> UA_PublishResponseEntry \<Rightarrow> bool" where
  "answerable s a c e =
     (\<exists>x es. a \<noteq> 0 \<and> srv_sessions s a = Some x \<and> ses_channel x = c \<and> c \<noteq> 0 \<and>
        ses_responseQueue x = e # es \<and> res_serviceResult (pre_response e) = GOOD)"

definition publishes :: "UA_Server \<Rightarrow> ptr \<Rightarrow> UA_Subscription \<Rightarrow> bool" where
  "publishes s p u =
     (srv_subs s p = Some u \<and> sub_statusChange u = GOOD \<and> sub_publishingEnabled u \<and>
      sub_notificationsPerPublish u \<noteq> 0 \<and> sub_notificationQueue u \<noteq> [] \<and> queues_agree s p)"

definition same_channels :: "UA_Server \<Rightarrow> UA_Server \<Rightarrow> bool" where
  "same_channels s t =
     (srv_sent t = srv_sent s \<and> srv_now t = srv_now s \<and>
      (\<forall>a. map_option ses_channel (srv_sessions t a) = map_option ses_channel (srv_sessions s a)))"

lemma same_channels_refl [simp, intro]: "same_channels s s"
  by (simp add: same_channels_def)

lemma same_channels_trans [trans]: "same_channels s t \<Longrightarrow> same_channels t u \<Longrightarrow> same_channels s u"
  by (simp add: same_channels_def)

lemma same_channels_mods:
  "same_channels s t \<Longrightarrow> same_channels s (mod_sub q f t)"
  "(\<And>x. ses_channel (g x) = ses_channel x) \<Longrightarrow> same_channels s t \<Longrightarrow> same_channels s (mod_ses a g t)"
  by (simp_all add: same_channels_def) (simp add: mod_ses_def upd_at_def option.map_comp comp_def)

lemma same_channels_removeOldest: "same_channels s (removeOldestRetransmissionMessageFromSub q s)"
  unfolding removeOldestRetransmissionMessageFromSub_def Let_def by (auto intro!: same_channels_mods)

lemma same_channels_add: "same_channels s (UA_Subscription_addRetransmissionMessage q m s)"
  unfolding addRetransmission_room Let_def make_room_def removeOldestRetransmissionMessageFromSession_def
  by (auto intro!: same_channels_mods same_channels_removeOldest split: option.splits)

lemma same_channelsD:
  assumes "same_channels s t" "srv_sessions s a = Some x"
  shows "srv_sent t = srv_sent s" "srv_now t = srv_now s" "ses_channel (the_ses t a) = ses_channel x"
proof -
  have "map_option ses_channel (srv_sessions t a) = map_option ses_channel (srv_sessions s a)"
    using assms(1) by (simp add: same_channels_def)
  then show "ses_channel (the_ses t a) = ses_channel x" using assms(2) by (cases "srv_sessions t a") (auto simp: the_ses_def)
qed (use assms in \<open>simp_all add: same_channels_def\<close>)

text \<open>The bookkeeping of the retransmission moves the sequence number and keeps the queue.\<close>

lemma with_retransmission_frame:
  assumes "srv_subs s p = Some u" "queues_agree s p"
  shows "same_channels s (with_retransmission p (Some d) s) \<and> queues_agree (with_retransmission p (Some d) s) p \<and>
    (\<exists>v. srv_subs (with_retransmission p (Some d) s) p = Some v \<and>
       sub_notificationQueue v = sub_notificationQueue u \<and> sub_session v = sub_session u \<and>
       sub_nextSequenceNumber v = UA_Subscription_nextSequenceNumber (sub_nextSequenceNumber u))"
proof -
  define t where "t = (if cfg_enableRetransmissionQueue (srv_config s)
             then UA_Subscription_addRetransmissionMessage p
               \<lparr>msg_sequenceNumber = sub_nextSequenceNumber (the_sub s p), msg_publishTime = srv_now s,
                msg_notificationData = d\<rparr> s
             else s)"
  let ?f = "\<lambda>u. u\<lparr>sub_nextSequenceNumber := UA_Subscription_nextSequenceNumber (sub_nextSequenceNumber u)\<rparr>"
  have w: "with_retransmission p (Some d) s = mod_sub p ?f t" by (simp add: with_retransmission_def t_def)
  have q: "same_queue p s t" "same_requests s t" "same_channels s t"
    unfolding t_def using same_queue_add same_requests_add same_channels_add by auto
  then obtain v where v: "srv_subs t p = Some v" "queue_of v = queue_of u"
    using assms by (cases "srv_subs t p") (auto simp: same_queue_def)
  have "sub_session v = sub_session u"
    using same_requests_live(4) [OF q(2), of p] assms v(1) by (simp add: the_sub_def)
  moreover have f: "srv_subs (mod_sub p ?f t) p = Some (?f v)" using v(1) by (simp add: mod_sub_def upd_at_def)
  have "queues_agree (mod_sub p ?f t) p"
    by (rule agree_frame [OF _ _ same_queue_agree [OF q(1) assms(2)] v(1) f]) simp_all
  ultimately show ?thesis
    using v same_channels_mods(1) [OF q(3)] by (simp add: w) (simp add: mod_sub_def upd_at_def queue_of_def)
qed


text \<open>Tables and identifiers that a round does not change before it sends.\<close>

definition id_of :: "UA_Subscription \<Rightarrow> u32 \<times> status" where
  "id_of u = (sub_subscriptionId u, sub_statusChange u)"

definition same_ids :: "UA_Server \<Rightarrow> UA_Server \<Rightarrow> bool" where
  "same_ids s t =
     ((\<forall>a. map_option ses_subscriptions (srv_sessions t a) = map_option ses_subscriptions (srv_sessions s a)) \<and>
      (\<forall>q. map_option id_of (srv_subs t q) = map_option id_of (srv_subs s q)) \<and>
      srv_config t = srv_config s)"

lemma same_ids_refl [simp, intro]: "same_ids s s"
  by (simp add: same_ids_def)

lemma same_ids_trans [trans]: "same_ids s t \<Longrightarrow> same_ids t u \<Longrightarrow> same_ids s u"
  by (simp add: same_ids_def)

lemma same_ids_mods:
  "(\<And>u. id_of (f u) = id_of u) \<Longrightarrow> same_ids s t \<Longrightarrow> same_ids s (mod_sub p f t)"
  "(\<And>x. ses_subscriptions (g x) = ses_subscriptions x) \<Longrightarrow> same_ids s t \<Longrightarrow> same_ids s (mod_ses a g t)"
  "same_ids s t \<Longrightarrow> same_ids s (t\<lparr>srv_mallocs := ms\<rparr>)" "same_ids s t \<Longrightarrow> same_ids s (t\<lparr>srv_sent := out\<rparr>)"
  by (simp_all add: same_ids_def mod_sub_def mod_ses_def upd_at_def option.map_comp comp_def)

lemma same_ids_queues_only:
  assumes "queues_only s t"
  shows "same_ids s t"
proof -
  have "map_option id_of (srv_subs t q) = map_option id_of (srv_subs s q)" for q
  proof -
    have q: "map_option strip (srv_subs t q) = map_option strip (srv_subs s q)" using assms by (simp add: queues_only_def)
    show ?thesis
    proof (cases "srv_subs s q")
      case (Some u)
      then obtain v where v: "srv_subs t q = Some v" "strip v = strip u" using q by (cases "srv_subs t q") auto
      then have "id_of v = id_of u" using strip_eqD(2,5) [OF v(2)] by (simp add: id_of_def)
      then show ?thesis using Some v(1) by simp
    qed (use q in simp)
  qed
  then show ?thesis using assms by (simp add: same_ids_def queues_only_def)
qed

lemma same_ids_removeOldest: "same_ids s t \<Longrightarrow> same_ids s (removeOldestRetransmissionMessageFromSub q t)"
  unfolding removeOldestRetransmissionMessageFromSub_def Let_def by (auto intro!: same_ids_mods simp: id_of_def)

lemma same_ids_with: "same_ids s t \<Longrightarrow> same_ids s (with_retransmission p d t)"
  unfolding with_retransmission_def addRetransmission_room Let_def make_room_def removeOldestRetransmissionMessageFromSession_def
  by (auto intro!: same_ids_mods same_ids_removeOldest simp: id_of_def split: option.splits)

lemma same_ids_sendResponse: "same_ids s t \<Longrightarrow> same_ids s (sendResponse c i r t)"
  by (simp add: sendResponse_def sendServiceFault_def same_ids_mods)

lemma same_ids_find:
  assumes "same_ids s t"
  shows "UA_Session_getSubscriptionById a i t = UA_Session_getSubscriptionById a i s"
proof -
  have a: "map_option ses_subscriptions (srv_sessions t a) = map_option ses_subscriptions (srv_sessions s a)" and
    q: "map_option id_of (srv_subs t q) = map_option id_of (srv_subs s q)" for q
    using assms by (simp_all add: same_ids_def)
  have "ses_subscriptions (the_ses t a) = ses_subscriptions (the_ses s a)"
    using a by (cases "srv_sessions s a"; cases "srv_sessions t a") (auto simp: the_ses_def)
  moreover have "id_of (the_sub t q) = id_of (the_sub s q)" for q
    using q [of q] by (cases "srv_subs s q"; cases "srv_subs t q") (auto simp: the_sub_def)
  then have "has_id t i = has_id s i" by (simp add: has_id_def fun_eq_iff id_of_def)
  ultimately show ?thesis by (simp add: UA_Session_getSubscriptionById_def)
qed

lemma send_in_order:
  assumes u: "srv_subs s p = Some u" and q: "queues_agree s p"
    and a: "srv_sessions s (sub_session u) = Some x" "ses_channel x \<noteq> 0" and e: "res_serviceResult (pre_response e) = GOOD"
  shows "\<exists>r t. send_publish_response p e (Some d) s = (sub_notificationQueue u = [], t) \<and>
    srv_sent t = srv_sent s @ [SentResponse (ses_channel x) (pre_requestId e) r] \<and>
    res_subscriptionId r = sub_subscriptionId u \<and> res_moreNotifications r = (sub_notificationQueue u \<noteq> []) \<and>
    res_requestHandle r = res_requestHandle (pre_response e) \<and> res_results r = res_results (pre_response e) \<and>
    res_notificationMessage r = \<lparr>msg_sequenceNumber = sub_nextSequenceNumber u, msg_publishTime = srv_now s, msg_notificationData = d\<rparr> \<and>
    queues_agree t p \<and> same_ids s t \<and>
    (\<exists>v. srv_subs t p = Some v \<and> sub_notificationQueue v = sub_notificationQueue u \<and>
       res_availableSequenceNumbers r = map msg_sequenceNumber (sub_retransmissionQueue v) \<and>
       sub_retransmissionQueue v = sub_retransmissionQueue (the_sub (with_retransmission p (Some d) s) p) \<and>
       sub_nextSequenceNumber v = UA_Subscription_nextSequenceNumber (sub_nextSequenceNumber u))"
proof -
  define t1 where "t1 = with_retransmission p (Some d) s"
  obtain v where v: "same_channels s t1" "queues_agree t1 p" "srv_subs t1 p = Some v"
      "sub_notificationQueue v = sub_notificationQueue u" "sub_session v = sub_session u"
      "sub_nextSequenceNumber v = UA_Subscription_nextSequenceNumber (sub_nextSequenceNumber u)"
    using with_retransmission_frame [OF u q, of d] unfolding t1_def by auto
  have us: "the_sub s p = u" and vs: "the_sub t1 p = v" using u v(3) by (simp_all add: the_sub_def)
  have size: "sub_notificationQueueSize u = length (sub_notificationQueue u)" using q u by (auto simp: queues_agree_def)
  define r0 where "r0 = (pre_response e)\<lparr>res_timestamp := srv_now s, res_subscriptionId := sub_subscriptionId u,
    res_moreNotifications := (sub_notificationQueue u \<noteq> []),
    res_notificationMessage := \<lparr>msg_sequenceNumber = sub_nextSequenceNumber u, msg_publishTime = srv_now s, msg_notificationData = d\<rparr>,
    res_availableSequenceNumbers := map msg_sequenceNumber (sub_retransmissionQueue v)\<rparr>"
  define r where "r = r0\<lparr>res_timestamp := srv_now t1\<rparr>"
  define t2 where "t2 = t1\<lparr>srv_sent := srv_sent t1 @ [SentResponse (ses_channel x) (pre_requestId e) r]\<rparr>"
  have "res_serviceResult r0 = GOOD" using e by (simp add: r0_def)
  then have t2: "sendResponse (ses_channel x) (pre_requestId e) r0 t1 = t2"
    using a(2) by (simp add: sendResponse_def t2_def r_def)
  have v2: "srv_subs t2 p = Some v" "queues_agree t2 p"
    using v(3) same_queue_agree [OF same_queue_mallocs(2) v(2)] by (simp_all add: t2_def)
  have vt2: "the_sub t2 p = v" using v2(1) by (simp add: the_sub_def)
  define t3 where "t3 = (if sub_notificationQueueSize v = 0
    then mod_sub p (\<lambda>u. u\<lparr>sub_state := UA_SUBSCRIPTIONSTATE_NORMAL\<rparr>) t2 else t2)"
  define t where "t = mod_sub p (\<lambda>u. u\<lparr>sub_currentKeepAliveCount := 0\<rparr>) t3"
  have same: "same_queue p t2 t" unfolding t_def t3_def by (auto intro!: same_queue_intros simp: queue_of_def)
  then obtain w where w: "srv_subs t p = Some w" "queue_of w = queue_of v"
    using v2(1) by (cases "srv_subs t p") (auto simp: same_queue_def)
  have s: "snd (send_publish_response p e (Some d) s) = t"
    using t2 same_channelsD(3) [OF v(1) a(1)]
    by (simp add: send_publish_with Let_def t_def t3_def us vs vt2 size r0_def v(5) flip: t1_def)
  moreover have "fst (send_publish_response p e (Some d) s) = (sub_notificationQueueSize (the_sub t p) = 0)"
    by (simp add: s [symmetric]) (simp add: send_publish_response_def Let_def)
  moreover have "sub_notificationQueueSize w = length (sub_notificationQueue u)"
    using v(2,3,4) w(2) by (auto simp: queues_agree_def queue_of_def)
  ultimately have "send_publish_response p e (Some d) s = (sub_notificationQueue u = [], t)"
    using w(1) by (simp add: prod_eq_iff the_sub_def)
  moreover have "srv_sent t = srv_sent s @ [SentResponse (ses_channel x) (pre_requestId e) r]"
    using same_channelsD(1) [OF v(1) a(1)] by (simp add: t_def t3_def t2_def)
  moreover have "sub_retransmissionQueue w = sub_retransmissionQueue v"
    using v2(1) w(1) by (auto simp: t_def t3_def mod_sub_def upd_at_def split: if_splits)
  moreover have "same_ids s t"
    unfolding t_def t3_def t2_def t1_def by (auto intro!: same_ids_mods same_ids_with simp: id_of_def)
  moreover have "the_sub (with_retransmission p (Some d) s) p = v" using vs by (simp add: t1_def)
  ultimately show ?thesis
    using same_queue_agree [OF same v2(2)] w v by (intro exI [of _ r] exI [of _ t]) (simp add: r_def r0_def queue_of_def)
qed


section \<open>One round of publishing\<close>

text \<open>The state in which the message is prepared: the request is taken, the lifetime starts again.\<close>

definition taken :: "ptr \<Rightarrow> UA_Subscription \<Rightarrow> UA_Server \<Rightarrow> UA_Server" where
  "taken p u s =
     (let s = mod_ses (sub_session u) (\<lambda>x. x\<lparr>ses_responseQueueSize := ses_responseQueueSize x - 1,
                ses_responseQueue := tl (ses_responseQueue x)\<rparr>) s
      in mod_sub p (\<lambda>u. u\<lparr>sub_currentLifetimeCount := 0\<rparr>) s)"

lemma taken_facts:
  assumes "srv_subs s p = Some u" "queues_agree s p" "srv_sessions s (sub_session u) = Some x"
  shows "srv_subs (taken p u s) p = Some (u\<lparr>sub_currentLifetimeCount := 0\<rparr>)" "queues_agree (taken p u s) p"
    "\<exists>y. srv_sessions (taken p u s) (sub_session u) = Some y \<and> ses_channel y = ses_channel x"
    "srv_sent (taken p u s) = srv_sent s" "srv_now (taken p u s) = srv_now s" "srv_mallocs (taken p u s) = srv_mallocs s"
    "queue_message (taken p u s) q k = queue_message s q k" "srv_config (taken p u s) = srv_config s"
proof -
  have same: "same_queue p s (taken p u s)"
    unfolding taken_def Let_def by (auto intro!: same_queue_intros simp: queue_of_def)
  show "queues_agree (taken p u s) p" by (rule same_queue_agree [OF same assms(2)])
  have "srv_notifications (taken p u s) = srv_notifications s" "srv_monitored (taken p u s) = srv_monitored s"
    using same by (simp_all add: same_queue_def)
  then show "queue_message (taken p u s) q k = queue_message s q k"
    by (rule same_message)
qed (use assms in \<open>simp_all add: taken_def mod_ses_def mod_sub_def upd_at_def\<close>)

lemma publishOnce_taken:
  assumes p: "publishes s p u" and a: "answerable s (sub_session u) c e"
    and m: "malloc (taken p u s) = (m, t)" "m \<noteq> 0"
    and r: "prepareNotificationMessage p (publish_count u) (if cfg_enableRetransmissionQueue (srv_config s) then t else taken p u s)
      = ((GOOD, dat), t')"
  shows "UA_Subscription_publishOnce p s = send_publish_response p e (Some dat) t'"
proof -
  have u: "srv_subs s p = Some u" "sub_statusChange u = GOOD" "sub_publishingEnabled u" "sub_notificationsPerPublish u \<noteq> 0"
      "sub_notificationQueue u \<noteq> []" "queues_agree s p"
    using p by (simp_all add: publishes_def)
  obtain x es where x: "sub_session u \<noteq> 0" "srv_sessions s (sub_session u) = Some x" "ses_channel x = c" "c \<noteq> 0"
      "ses_responseQueue x = e # es" "res_serviceResult (pre_response e) = GOOD"
    using a by (auto simp: answerable_def)
  note f = taken_facts [OF u(1,6) x(2)]
  define s2 where "s2 = taken p u s"
  have us: "the_sub s p = u" using u(1) by (simp add: the_sub_def)
  have u2: "the_sub s2 p = u\<lparr>sub_currentLifetimeCount := 0\<rparr>" using f(1) by (simp add: the_sub_def s2_def)
  define s1 where "s1 = mod_ses (sub_session u) (\<lambda>x. x\<lparr>ses_responseQueueSize := ses_responseQueueSize x - 1,
                ses_responseQueue := es\<rparr>) s"
  have d: "dequeued p s = (Some e, s1)"
    using x by (simp add: dequeued_def us UA_Session_dequeuePublishReq_def the_ses_def s1_def)
  have s2: "update_lifetime p True s1 = s2"
    using x(2,5) by (simp add: s1_def s2_def taken_def update_lifetime_def Let_def) (simp add: mod_ses_def upd_at_def)
  have k: "publish_count (u\<lparr>sub_currentLifetimeCount := 0\<rparr>) = publish_count u" by (simp add: publish_count_def Let_def)
  have "0 < sub_notificationQueueSize u" using u(1,5,6) by (auto simp: queues_agree_def)
  then have k0: "publish_count u \<noteq> 0"
    using u(3,4) by (auto simp: publish_count_def Let_def unat_gt_0)
  obtain y where y: "srv_sessions s2 (sub_session u) = Some y" "ses_channel y = c" using f(3) x(3) by (auto simp: s2_def)
  have cfg: "srv_config s2 = srv_config s" using f(8) by (simp add: s2_def)
  show ?thesis
    unfolding UA_Subscription_publishOnce_def Let_def us dequeued_def [of p s, unfolded us, symmetric] d prod.case
    using u(2) k0 y x(1,4) m r
    by (simp add: s2 k u2 cfg the_ses_def split: if_splits flip: s2_def)
qed


lemma publish_count_is:
  assumes "publishes s p u"
  shows "publish_count u = min (length (sub_notificationQueue u)) (unat (sub_notificationsPerPublish u))"
  using assms by (auto simp: publishes_def queues_agree_def publish_count_def Let_def)

lemma publish_prepared:
  assumes p: "publishes s p u" and a: "answerable s (sub_session u) c e" and m: "memory 6 s"
  shows "\<exists>t u' y. UA_Subscription_publishOnce p s =
      send_publish_response p e (Some (queue_message s (sub_notificationQueue u) (publish_count u))) t \<and>
    queues_agree t p \<and> srv_subs t p = Some u' \<and> strip u' = strip (u\<lparr>sub_currentLifetimeCount := 0\<rparr>) \<and>
    sub_notificationQueue u' = drop (publish_count u) (sub_notificationQueue u) \<and>
    srv_sessions t (sub_session u') = Some y \<and> ses_channel y = c \<and> srv_sent t = srv_sent s \<and> srv_now t = srv_now s \<and>
    same_ids s t \<and> (sessions_ok s \<longrightarrow> sessions_ok t)"
proof -
  have u: "srv_subs s p = Some u" "queues_agree s p" using p by (simp_all add: publishes_def)
  obtain x es where x: "srv_sessions s (sub_session u) = Some x" "ses_channel x = c" "c \<noteq> 0"
      "res_serviceResult (pre_response e) = GOOD" "ses_responseQueue x = e # es"
    using a by (auto simp: answerable_def)
  note f = taken_facts [OF u x(1)]
  define s2 where "s2 = taken p u s"
  have m2: "memory 6 s2" using m f(6) by (simp add: memory_def s2_def)
  obtain k ms where k: "malloc s2 = (k, s2\<lparr>srv_mallocs := ms\<rparr>)" "k \<noteq> 0" "memory 5 (s2\<lparr>srv_mallocs := ms\<rparr>)"
    using memory_malloc [OF m2] by auto
  define s3 where "s3 = (if cfg_enableRetransmissionQueue (srv_config s) then s2\<lparr>srv_mallocs := ms\<rparr> else s2)"
  let ?u = "u\<lparr>sub_currentLifetimeCount := 0\<rparr>" and ?n = "publish_count u"
  have s3: "srv_subs s3 p = Some ?u" "queues_agree s3 p" "memory 5 s3"
    using f(1,2) k(3) memory_less [OF m2] same_queue_agree [OF same_queue_mallocs(1)] by (simp_all add: s3_def s2_def)
  have msg: "queue_message s3 q j = queue_message s q j" for q j
    using f(7) same_message [of "s2\<lparr>srv_mallocs := ms\<rparr>" s2] by (simp add: s3_def s2_def)
  obtain t u' where t: "prepareNotificationMessage p ?n s3 = ((GOOD, queue_message s (sub_notificationQueue u) ?n), t)"
      "queues_agree t p" "srv_subs t p = Some u'" "strip u' = strip ?u"
      "sub_notificationQueue u' = drop ?n (sub_notificationQueue u)" "queues_only s3 t"
    using prepare_in_order [OF s3(2,1,3), of ?n] by (auto simp: msg)
  have once: "UA_Subscription_publishOnce p s =
      send_publish_response p e (Some (queue_message s (sub_notificationQueue u) ?n)) t"
    by (rule publishOnce_taken [OF p a k(1) [unfolded s2_def] k(2)]) (use t(1) in \<open>simp only: s3_def s2_def\<close>)
  have "\<exists>y. srv_sessions t (sub_session u') = Some y \<and> ses_channel y = c" "srv_sent t = srv_sent s" "srv_now t = srv_now s"
    using f(3-5) queues_onlyD(1,3,4) [OF t(6)] strip_eqD(1) [OF t(4)] x(2) by (simp_all add: s3_def s2_def)
  moreover have "same_ids s s3"
    unfolding s3_def s2_def taken_def Let_def by (auto intro!: same_ids_mods simp: id_of_def)
  then have "same_ids s t" by (rule same_ids_trans [OF _ same_ids_queues_only [OF t(6)]])
  moreover have "sessions_ok t" if ok: "sessions_ok s"
  proof -
    define s1 where "s1 = mod_ses (sub_session u) (\<lambda>x. x\<lparr>ses_responseQueueSize := ses_responseQueueSize x - 1,
                ses_responseQueue := tl (ses_responseQueue x)\<rparr>) s"
    have "sessions_ok s1" unfolding s1_def by (rule ok_mod_ses [OF ok]) (use x(1,5) ses_entryD [OF ok x(1)] in \<open>auto\<close>)
    moreover have "same_tables s1 s3" unfolding s3_def s2_def taken_def Let_def s1_def [symmetric]
      by (auto intro!: same_intros)
    ultimately show ?thesis using same_tables_ok same_tables_queues_only [OF t(6)] by blast
  qed
  ultimately show ?thesis using t once by blast
qed

lemma publishOnce_in_order:
  assumes p: "publishes s p u" and a: "answerable s (sub_session u) c e" and m: "memory 6 s"
  shows "\<exists>r t v. UA_Subscription_publishOnce p s = (length (sub_notificationQueue u) \<le> publish_count u, t) \<and>
    srv_sent t = srv_sent s @ [SentResponse c (pre_requestId e) r] \<and>
    res_requestHandle r = res_requestHandle (pre_response e) \<and> res_results r = res_results (pre_response e) \<and>
    res_subscriptionId r = sub_subscriptionId u \<and>
    res_moreNotifications r = (publish_count u < length (sub_notificationQueue u)) \<and>
    res_notificationMessage r = \<lparr>msg_sequenceNumber = sub_nextSequenceNumber u, msg_publishTime = srv_now s,
      msg_notificationData = queue_message s (sub_notificationQueue u) (publish_count u)\<rparr> \<and>
    queues_agree t p \<and> srv_subs t p = Some v \<and> sub_notificationQueue v = drop (publish_count u) (sub_notificationQueue u) \<and>
    sub_nextSequenceNumber v = UA_Subscription_nextSequenceNumber (sub_nextSequenceNumber u)"
proof -
  obtain t u' y where t: "UA_Subscription_publishOnce p s =
      send_publish_response p e (Some (queue_message s (sub_notificationQueue u) (publish_count u))) t"
      "queues_agree t p" "srv_subs t p = Some u'" "strip u' = strip (u\<lparr>sub_currentLifetimeCount := 0\<rparr>)"
      "sub_notificationQueue u' = drop (publish_count u) (sub_notificationQueue u)"
      "srv_sessions t (sub_session u') = Some y" "ses_channel y = c" "srv_sent t = srv_sent s" "srv_now t = srv_now s"
    using publish_prepared [OF assms] by blast
  have "ses_channel y \<noteq> 0" "res_serviceResult (pre_response e) = GOOD" using a t(7) by (auto simp: answerable_def)
  from send_in_order [OF t(3,2,6) this, of "queue_message s (sub_notificationQueue u) (publish_count u)"] show ?thesis
    using strip_eqD(2,6) [OF t(4)] by (auto simp: t(1,5,7-9) not_le)
qed

end
