(* ===== verification/Sub_Republish.thy ===== *)
theory Sub_Republish
  imports Sub_Deliver
begin

text \<open>
  Publishing in order and republishing: what a response carries, how long its message can be requested
  again, and which message is lost when too many are kept.
\<close>

section \<open>The retransmission queue behind a response\<close>

lemma with_retransmission_queue:
  assumes s: "sessions_ok s" and p: "srv_subs s p = Some u" and c: "cfg_enableRetransmissionQueue (srv_config s)"
  shows "\<exists>q. (q = sub_retransmissionQueue u \<or> q = butlast (sub_retransmissionQueue u)) \<and>
    sub_retransmissionQueue (the_sub (with_retransmission p (Some d) s) p) =
      q @ [\<lparr>msg_sequenceNumber = sub_nextSequenceNumber u, msg_publishTime = srv_now s, msg_notificationData = d\<rparr>]"
proof -
  obtain q k where q: "srv_subs (make_room p s) p = Some (u\<lparr>sub_retransmissionQueue := q, sub_retransmissionQueueSize := k\<rparr>)"
      "q = sub_retransmissionQueue u \<or> q = butlast (sub_retransmissionQueue u)"
    by (rule make_room_ok [OF s p])
  have u: "the_sub s p = u" using p by (simp add: the_sub_def)
  have "sub_retransmissionQueue (the_sub (with_retransmission p (Some d) s) p) =
      q @ [\<lparr>msg_sequenceNumber = sub_nextSequenceNumber u, msg_publishTime = srv_now s, msg_notificationData = d\<rparr>]"
    using q(1) c u by (simp add: with_retransmission_def addRetransmission_room Let_def)
      (simp add: mod_sub_def mod_ses_def upd_at_def the_sub_def)
  then show ?thesis using q(2) by blast
qed

lemma find_final: "\<forall>x \<in> set xs. \<not> P x \<Longrightarrow> P y \<Longrightarrow> find P (xs @ [y]) = Some y"
  by (induction xs) auto

lemma remove_final: "\<forall>x \<in> set xs. \<not> P x \<Longrightarrow> P y \<Longrightarrow> remove_first P (xs @ [y]) = xs"
  by (induction xs) auto

lemma find_none: "\<forall>x \<in> set xs. \<not> P x \<Longrightarrow> find P xs = None"
  by (induction xs) auto

text \<open>A message is found by its sequence number, and is gone when it was acknowledged.\<close>

lemma kept_message:
  assumes i: "UA_Session_getSubscriptionById a i t = Some p" and v: "srv_subs t p = Some v"
    and q: "sub_retransmissionQueue v = q @ [m]" "\<forall>x \<in> set q. msg_sequenceNumber x \<noteq> msg_sequenceNumber m"
  shows "memory 1 t \<Longrightarrow> fst (Service_Republish a i (msg_sequenceNumber m) t) = (GOOD, Some m)"
    "fst (acknowledge a (i, msg_sequenceNumber m) t) = GOOD"
    "fst (Service_Republish a i (msg_sequenceNumber m) (snd (acknowledge a (i, msg_sequenceNumber m) t))) =
      (UA_STATUSCODE_BADMESSAGENOTAVAILABLE, None)"
    "fst (acknowledge a (i, msg_sequenceNumber m) (snd (acknowledge a (i, msg_sequenceNumber m) t))) =
      UA_STATUSCODE_BADSEQUENCENUMBERUNKNOWN"
proof -
  let ?P = "\<lambda>x. msg_sequenceNumber x = msg_sequenceNumber m"
  have vt: "the_sub t p = v" using v by (simp add: the_sub_def)
  have f: "find ?P (sub_retransmissionQueue v) = Some m" "remove_first ?P (sub_retransmissionQueue v) = q" "find ?P q = None"
    unfolding q(1) using q(2) by (auto intro!: find_final remove_final find_none)
  define t1 where "t1 = mod_sub p (\<lambda>u. u\<lparr>sub_currentLifetimeCount := 0\<rparr>) t"
  have v1: "the_sub t1 p = v\<lparr>sub_currentLifetimeCount := 0\<rparr>" using v by (simp add: t1_def vt)
  show "fst (Service_Republish a i (msg_sequenceNumber m) t) = (GOOD, Some m)" if "memory 1 t"
  proof -
    have "memory 1 t1" using that by (simp add: memory_def t1_def mod_sub_def)
    then obtain b ms where "malloc t1 = (b, t1\<lparr>srv_mallocs := ms\<rparr>)" "b \<noteq> 0" using memory_malloc by fastforce
    then show ?thesis using i f(1) v1 by (simp add: Service_Republish_def Let_def flip: t1_def)
  qed
  define t2 where "t2 = snd (acknowledge a (i, msg_sequenceNumber m) t)"
  have ack: "acknowledge a (i, msg_sequenceNumber m) t = UA_Subscription_removeRetransmissionMessage p (msg_sequenceNumber m) t"
    using i by (simp add: acknowledge_def)
  then show "fst (acknowledge a (i, msg_sequenceNumber m) t) = GOOD"
    using f(1) by (simp add: UA_Subscription_removeRetransmissionMessage_def vt Let_def)
  have "srv_subs t2 p = Some (v\<lparr>sub_retransmissionQueue := q, sub_retransmissionQueueSize := sub_retransmissionQueueSize v - 1\<rparr>)"
    using f(1,2) v by (simp add: t2_def ack UA_Subscription_removeRetransmissionMessage_def vt Let_def)
      (simp add: mod_sub_def upd_at_def)
  then have v2: "sub_retransmissionQueue (the_sub t2 p) = q" "srv_subs t2 p \<noteq> None" by (simp_all add: the_sub_def)
  have "same_ids t t2"
    unfolding t2_def ack UA_Subscription_removeRetransmissionMessage_def Let_def
    by (auto intro!: same_ids_mods simp: id_of_def split: option.splits)
  then have i2: "UA_Session_getSubscriptionById a i t2 = Some p" using same_ids_find i by simp
  show "fst (Service_Republish a i (msg_sequenceNumber m) (snd (acknowledge a (i, msg_sequenceNumber m) t))) =
      (UA_STATUSCODE_BADMESSAGENOTAVAILABLE, None)"
    unfolding t2_def [symmetric] using i2 v2 f(3) by (simp add: Service_Republish_def Let_def)
  show "fst (acknowledge a (i, msg_sequenceNumber m) (snd (acknowledge a (i, msg_sequenceNumber m) t))) =
      UA_STATUSCODE_BADSEQUENCENUMBERUNKNOWN"
    unfolding t2_def [symmetric] using i2 v2 f(3) by (simp add: acknowledge_def UA_Subscription_removeRetransmissionMessage_def)
qed

section \<open>A subscription with two values\<close>

text \<open>Two queued notifications, one of which fits into a message, and one queued request.\<close>

definition demo_queued :: UA_Server where
  "demo_queued = demo_full\<lparr>srv_sessions := [1 \<mapsto> (new_session 9)\<lparr>ses_subscriptions := [5], ses_subscriptionsSize := 1,
       ses_responseQueue := [\<lparr>pre_requestId = 77, pre_response = blank_response 4\<rparr>], ses_responseQueueSize := 1\<rparr>],
     srv_mallocs := [21, 22, 23, 24, 25, 26, 27],
     srv_subs := [5 \<mapsto> (the_sub demo_full 5)\<lparr>sub_notificationQueue := [11, 12], sub_notificationQueueSize := 2,
       sub_dataChangeNotifications := 2, sub_notificationsPerPublish := 1\<rparr>]\<rparr>"

lemma demo_queued_ok:
  "publishes demo_queued 5 (the_sub demo_queued 5)" "memory 6 demo_queued" "sub_session (the_sub demo_queued 5) = 1"
  "answerable demo_queued 1 9 \<lparr>pre_requestId = 77, pre_response = blank_response 4\<rparr>"
  "sub_notificationQueue (the_sub demo_queued 5) = [11, 12]" "sub_notificationsPerPublish (the_sub demo_queued 5) = 1"
proof -
  show "memory 6 demo_queued" by (simp add: memory_def demo_queued_def)
  show "answerable demo_queued 1 9 \<lparr>pre_requestId = 77, pre_response = blank_response 4\<rparr>"
    by (simp add: answerable_def demo_queued_def blank_response_def new_session_def)
  show u: "sub_session (the_sub demo_queued 5) = 1" "sub_notificationQueue (the_sub demo_queued 5) = [11, 12]"
    "sub_notificationsPerPublish (the_sub demo_queued 5) = 1"
    by (simp_all add: demo_queued_def the_sub_def demo_full_def)
  have "queues_agree demo_queued 5"
    by (simp add: queues_agree_def demo_queued_def demo_full_def the_sub_def is_event_def is_event_item_def the_not_def the_mon_def
        entry_ok_def demo_item_def demo_notification_def UA_ATTRIBUTEID_EVENTNOTIFIER_def blank_subscription_def)
  then show "publishes demo_queued 5 (the_sub demo_queued 5)"
    by (simp add: publishes_def u) (simp add: demo_queued_def the_sub_def demo_full_def blank_subscription_def)
qed


lemma demo_queued_sessions: "sessions_ok demo_queued"
  by (auto simp: sessions_ok_def view_ok_def list_ok_def sub_entry_ok_def ses_entry_ok_def subs_view_def retrans_of_def total_of_def
    demo_queued_def demo_full_def demo_empty_def new_session_def blank_subscription_def the_sub_def
    UA_MAX_RETRANSMISSIONQUEUESIZE_def split: if_splits)

lemmas demo_queued_eval = demo_queued_def demo_full_def demo_empty_def demo_config_def blank_subscription_def demo_item_def
  demo_notification_def new_session_def Let_def the_sub_def the_ses_def the_mon_def the_not_def mod_ses_def mod_sub_def mod_mon_def
  mod_not_def upd_at_def malloc_def

lemma demo_queued_memory: "memory 1 (snd (UA_Subscription_publishOnce 5 demo_queued))"
  by (simp add: demo_queued_eval
    UA_Subscription_publishOnce_def UA_Session_dequeuePublishReq_def update_lifetime_def publish_count_def  prepareNotificationMessage_def
    alloc_list_def move_notification_def is_event_item_def UA_ATTRIBUTEID_EVENTNOTIFIER_def)
    (simp add: demo_queued_eval send_publish_response_def delete_with_previous_def UA_Notification_delete_def
    UA_Notification_dequeueMon_def UA_Notification_dequeueSub_def is_event_item_def UA_ATTRIBUTEID_EVENTNOTIFIER_def
    UA_Subscription_addRetransmissionMessage_def UA_MAX_RETRANSMISSIONQUEUESIZE_def sendResponse_def blank_response_def memory_def)

section \<open>Publishing in order\<close>

text \<open>
  C15: One round of publishing sends the oldest queued notifications. When the queues of the subscription
  and of its items agree, a request is queued, the session has a channel and there is memory, exactly one
  response goes out. It answers the first queued request, carries the next sequence number and the data of
  the first \<open>k\<close> notifications of the queue, in their order, where \<open>k\<close> is the length of the queue or the
  limit of the client, and says exactly when more is queued. Afterwards the queue is the old one without
  these \<open>k\<close>, the queues agree again, and the round is the last one if nothing is left.
\<close>

theorem publish_sends_in_order:
  assumes "publishes s p u" "answerable s (sub_session u) c e" "memory 6 s"
    and "q = sub_notificationQueue u" "k = min (length q) (unat (sub_notificationsPerPublish u))"
  shows "\<exists>r t v. UA_Subscription_publishOnce p s = (length q \<le> k, t) \<and>
    srv_sent t = srv_sent s @ [SentResponse c (pre_requestId e) r] \<and>
    res_requestHandle r = res_requestHandle (pre_response e) \<and> res_results r = res_results (pre_response e) \<and>
    res_subscriptionId r = sub_subscriptionId u \<and> res_moreNotifications r = (k < length q) \<and>
    res_notificationMessage r = \<lparr>msg_sequenceNumber = sub_nextSequenceNumber u, msg_publishTime = srv_now s,
      msg_notificationData = queue_message s q k\<rparr> \<and>
    queues_agree t p \<and> srv_subs t p = Some v \<and> sub_notificationQueue v = drop k q \<and>
    sub_nextSequenceNumber v = UA_Subscription_nextSequenceNumber (sub_nextSequenceNumber u)"
  using publishOnce_in_order [OF assms(1-3)] publish_count_is [OF assms(1)] assms(4,5) by simp

lemma publish_sends_in_order_witness:
  "\<exists>r t v. UA_Subscription_publishOnce 5 demo_queued = (False, t) \<and> srv_sent t = [SentResponse 9 77 r] \<and>
    res_moreNotifications r \<and> msg_notificationData (res_notificationMessage r) =
      [DataChangeNotification [\<lparr>min_clientHandle = 8, min_value = UA_DataValue_init\<lparr>dv_sourceTimestamp := 111,
         dv_hasSourceTimestamp := True\<rparr>\<rparr>]] \<and>
    srv_subs t 5 = Some v \<and> sub_notificationQueue v = [12]"
proof -
  have msg: "queue_message demo_queued [11, 12] 1 = [DataChangeNotification [\<lparr>min_clientHandle = 8,
      min_value = UA_DataValue_init\<lparr>dv_sourceTimestamp := 111, dv_hasSourceTimestamp := True\<rparr>\<rparr>]]"
    by (simp add: queue_message_def data_changes_def is_event_def is_event_item_def demo_queued_def demo_full_def the_not_def
        the_mon_def demo_item_def demo_notification_def UA_ATTRIBUTEID_EVENTNOTIFIER_def)
  have "srv_sent demo_queued = []" by (simp add: demo_queued_def demo_full_def demo_empty_def)
  then show ?thesis
    using publish_sends_in_order [OF demo_queued_ok(1) demo_queued_ok(4) [folded demo_queued_ok(3)] demo_queued_ok(2)
        demo_queued_ok(5) [symmetric] refl] msg
    by (auto simp: demo_queued_ok(6) min_def)
qed

section \<open>Republishing\<close>

text \<open>
  C16: A message can be requested again. After a round of publishing the message of the response is kept:
  its number is among the available ones, Republish returns exactly the message that was sent, the first
  acknowledgement succeeds, and after it Republish reports the message as not available and a second
  acknowledgement the sequence number as unknown. This is said of the state after the round; later messages
  can push the message out of a full queue before it is acknowledged (\<open>full_queue_drops_newest\<close>). It
  requires the retransmission queue to be enabled, memory, and a sequence number that is not in the queue.
\<close>

theorem sent_message_is_republished:
  assumes "sessions_ok s" "publishes s p u" "answerable s (sub_session u) c e" "memory 6 s"
    and "cfg_enableRetransmissionQueue (srv_config s)"
    and "UA_Session_getSubscriptionById a i s = Some p"
    and "n = sub_nextSequenceNumber u" "n \<notin> msg_sequenceNumber ` set (sub_retransmissionQueue u)"
    and "t = snd (UA_Subscription_publishOnce p s)" "memory 1 t"
  shows "\<exists>r. srv_sent t = srv_sent s @ [SentResponse c (pre_requestId e) r] \<and>
    msg_sequenceNumber (res_notificationMessage r) = n \<and> n \<in> set (res_availableSequenceNumbers r) \<and>
    fst (Service_Republish a i n t) = (GOOD, Some (res_notificationMessage r)) \<and>
    fst (acknowledge a (i, n) t) = GOOD \<and>
    fst (Service_Republish a i n (snd (acknowledge a (i, n) t))) = (UA_STATUSCODE_BADMESSAGENOTAVAILABLE, None) \<and>
    fst (acknowledge a (i, n) (snd (acknowledge a (i, n) t))) = UA_STATUSCODE_BADSEQUENCENUMBERUNKNOWN"
proof -
  obtain t1 u1 y where t1: "UA_Subscription_publishOnce p s =
      send_publish_response p e (Some (queue_message s (sub_notificationQueue u) (publish_count u))) t1"
      "queues_agree t1 p" "srv_subs t1 p = Some u1" "strip u1 = strip (u\<lparr>sub_currentLifetimeCount := 0\<rparr>)"
      "srv_sessions t1 (sub_session u1) = Some y" "ses_channel y = c" "srv_sent t1 = srv_sent s" "same_ids s t1" "sessions_ok t1"
    using publish_prepared [OF assms(2-4)] assms(1) by blast
  let ?d = "queue_message s (sub_notificationQueue u) (publish_count u)"
  note st = strip_eqD [OF t1(4)]
  have c: "ses_channel y \<noteq> 0" "res_serviceResult (pre_response e) = GOOD" using assms(3) t1(6) by (auto simp: answerable_def)
  obtain r v where r: "send_publish_response p e (Some ?d) t1 = (sub_notificationQueue u1 = [], t)"
      "srv_sent t = srv_sent s @ [SentResponse c (pre_requestId e) r]"
      "res_notificationMessage r = \<lparr>msg_sequenceNumber = n, msg_publishTime = srv_now t1, msg_notificationData = ?d\<rparr>"
      "same_ids t1 t" "srv_subs t p = Some v" "res_availableSequenceNumbers r = map msg_sequenceNumber (sub_retransmissionQueue v)"
      "sub_retransmissionQueue v = sub_retransmissionQueue (the_sub (with_retransmission p (Some ?d) t1) p)"
    using send_in_order [OF t1(3,2,5) c, of ?d] t1(1,6,7) assms(7,9) st(6) by (elim exE conjE) simp
  have "cfg_enableRetransmissionQueue (srv_config t1)" using assms(5) t1(8) by (simp add: same_ids_def)
  from with_retransmission_queue [OF t1(9,3) this, of ?d] obtain q where
    q: "q = sub_retransmissionQueue u1 \<or> q = butlast (sub_retransmissionQueue u1)"
      "sub_retransmissionQueue v = q @ [res_notificationMessage r]"
    using r(3,7) st(6) assms(7) by auto
  have "set q \<subseteq> set (sub_retransmissionQueue u)" using q(1) st(11) by (auto dest: in_set_butlastD)
  then have fresh: "\<forall>x \<in> set q. msg_sequenceNumber x \<noteq> msg_sequenceNumber (res_notificationMessage r)"
    using assms(8) r(3) by auto
  have i: "UA_Session_getSubscriptionById a i t = Some p"
    using same_ids_find [OF same_ids_trans [OF t1(8) r(4)]] assms(6) by simp
  have n: "msg_sequenceNumber (res_notificationMessage r) = n" using r(3) by simp
  note kept_message [OF i r(5) q(2) fresh, unfolded n]
  then show ?thesis using r(2,6) q(2) n assms(10) by (intro exI [of _ r]) simp
qed

lemma sent_message_is_republished_witness:
  "\<exists>m. fst (Service_Republish 1 1 1 (snd (UA_Subscription_publishOnce 5 demo_queued))) = (GOOD, Some m) \<and>
    fst (Service_Republish 1 1 1 (snd (acknowledge 1 (1, 1) (snd (UA_Subscription_publishOnce 5 demo_queued))))) =
      (UA_STATUSCODE_BADMESSAGENOTAVAILABLE, None)"
proof -
  have "cfg_enableRetransmissionQueue (srv_config demo_queued)" "1 = sub_nextSequenceNumber (the_sub demo_queued 5)"
      "1 \<notin> msg_sequenceNumber ` set (sub_retransmissionQueue (the_sub demo_queued 5))"
      "UA_Session_getSubscriptionById 1 1 demo_queued = Some 5"
    by (simp_all add: demo_queued_eval UA_Session_getSubscriptionById_def has_id_def)
  from sent_message_is_republished [OF demo_queued_sessions demo_queued_ok(1) demo_queued_ok(4) [folded demo_queued_ok(3)]
      demo_queued_ok(2) this(1,4,2,3) refl demo_queued_memory]
  show ?thesis by blast
qed

section \<open>A full retransmission queue\<close>

text \<open>
  A full retransmission queue loses its newest message. The queue is filled at its tail, but the
  function that is to remove the oldest message takes the tail: with 256 messages kept, a further one
  replaces the one that was sent just before it, and the oldest ones stay.
\<close>

theorem full_queue_drops_newest:
  assumes "srv_subs s p = Some u" "sub_retransmissionQueueSize u = UA_MAX_RETRANSMISSIONQUEUESIZE"
  shows "sub_retransmissionQueue (the_sub (UA_Subscription_addRetransmissionMessage p m s) p) =
    butlast (sub_retransmissionQueue u) @ [m]"
  using assms
  by (simp add: UA_Subscription_addRetransmissionMessage_def removeOldestRetransmissionMessageFromSub_def Let_def)
    (simp add: the_sub_def mod_sub_def mod_ses_def upd_at_def)

definition demo_message :: "nat \<Rightarrow> UA_NotificationMessage" where
  "demo_message k = \<lparr>msg_sequenceNumber = of_nat k, msg_publishTime = int k, msg_notificationData = []\<rparr>"

definition demo_retained :: UA_Server where
  "demo_retained = demo_queued\<lparr>srv_subs := [5 \<mapsto> (the_sub demo_queued 5)\<lparr>
     sub_retransmissionQueue := map demo_message [1..<257], sub_retransmissionQueueSize := 256\<rparr>]\<rparr>"

lemma full_queue_drops_newest_witness:
  "sub_retransmissionQueue (the_sub (UA_Subscription_addRetransmissionMessage 5 (demo_message 257) demo_retained) 5) =
    map demo_message [1..<256] @ [demo_message 257]"
proof -
  have "butlast [1..<Suc 256] = [1..<256]" by (subst upt_Suc_append) simp_all
  then have "butlast (map demo_message [1..<257]) = map demo_message [1..<256]"
    by (simp add: map_butlast [symmetric] del: upt_Suc)
  moreover have "srv_subs demo_retained 5 = Some ((the_sub demo_queued 5)\<lparr>
      sub_retransmissionQueue := map demo_message [1..<257], sub_retransmissionQueueSize := 256\<rparr>)"
    by (simp add: demo_retained_def)
  ultimately show ?thesis
    using full_queue_drops_newest [of demo_retained 5 _ "demo_message 257"] by (simp add: UA_MAX_RETRANSMISSIONQUEUESIZE_def)
qed

end
