(* ===== verification/Sub_Late.thy ===== *)
theory Sub_Late
  imports Sub_Republish
begin

text \<open>
  The search for late subscriptions in a publish request: with memory and a channel it ends, because every
  round consumes the request or brings a keep-alive closer; without memory two late subscriptions of the
  same priority keep it busy for ever.
\<close>

section \<open>With memory, a message can be prepared\<close>

lemma prepare_good:
  assumes "memory 5 s"
  shows "\<exists>d t. prepareNotificationMessage p k s = ((GOOD, d), t)"
proof -
  define dcn where "dcn = (sub_dataChangeNotifications (the_sub s p) > 0)"
  define enl where "enl = (sub_eventNotifications (the_sub s p) > 0)"
  obtain a ms1 where a: "malloc s = (a, s\<lparr>srv_mallocs := ms1\<rparr>)" "a \<noteq> 0" "memory 4 (s\<lparr>srv_mallocs := ms1\<rparr>)"
    using memory_malloc [OF assms] by auto
  obtain ms2 where b: "alloc_list dcn (s\<lparr>srv_mallocs := ms1\<rparr>) = (True, s\<lparr>srv_mallocs := ms2\<rparr>)" "memory 2 (s\<lparr>srv_mallocs := ms2\<rparr>)"
    using memory_alloc_list [OF a(3), of dcn] by auto
  obtain ms3 where c: "alloc_list enl (s\<lparr>srv_mallocs := ms2\<rparr>) = (True, s\<lparr>srv_mallocs := ms3\<rparr>)"
    using memory_alloc_list [OF b(2), of enl] by auto
  have "the_sub (s\<lparr>srv_mallocs := ms\<rparr>) = the_sub s" for ms by (simp add: the_sub_def fun_eq_iff)
  then show ?thesis using a b c
    by (simp add: prepareNotificationMessage_def Let_def split: prod.splits flip: dcn_def enl_def)
qed

section \<open>The request is consumed, or a keep-alive comes closer\<close>

text \<open>The keep-alive count may wrap around while there are no requests, so the distance is taken modulo \<open>2 ^ 32\<close>.\<close>

definition to_keepalive :: "UA_Subscription \<Rightarrow> nat" where
  "to_keepalive u = unat (sub_maxKeepAliveCount u - 1 - sub_currentKeepAliveCount u)"

definition waited :: "ptr \<Rightarrow> ptr \<Rightarrow> UA_Server \<Rightarrow> UA_Server \<Rightarrow> bool" where
  "waited a l s t =
     (srv_mallocs t = srv_mallocs s \<and> map_option ses_channel (srv_sessions t a) = map_option ses_channel (srv_sessions s a) \<and>
      (\<forall>q. q \<noteq> l \<longrightarrow> srv_subs t q = srv_subs s q) \<and>
      (\<exists>u v. srv_subs s l = Some u \<and> srv_subs t l = Some v \<and> to_keepalive v < to_keepalive u))"

lemma distance_decreases: "k + 1 < m \<Longrightarrow> unat (m - 1 - (k + 1)) < unat (m - 1 - k)" for k m :: u32
proof -
  assume "k + 1 < m"
  then have "m - 1 - k \<noteq> 0" by (auto simp: algebra_simps)
  then have "unat (m - 1 - k - 1) < unat (m - 1 - k)" using unat_minus_one [of "m - 1 - k"] unat_gt_0 [of "m - 1 - k"] by linarith
  moreover have "m - 1 - (k + 1) = m - 1 - k - 1" by (simp add: algebra_simps)
  ultimately show ?thesis by argo
qed

lemma publishOnce_progress:
  assumes s: "sessions_ok s" and l: "srv_subs s l = Some u" "sub_session u = a" and a: "srv_sessions s a = Some x"
    and q: "ses_responseQueue x = [e]" and c: "ses_channel x \<noteq> 0" and m: "memory 6 s"
    and t: "t = snd (UA_Subscription_publishOnce l s)"
  shows "ses_responseQueue (the_ses t a) = [] \<or> waited a l s t"
proof -
  have a0: "a \<noteq> 0" by (rule ses_entryD(1) [OF s a])
  have us: "the_sub s l = u" using l(1) by (simp add: the_sub_def)
  let ?f = "\<lambda>x. x\<lparr>ses_responseQueueSize := ses_responseQueueSize x - 1, ses_responseQueue := []\<rparr>"
  define s1 where "s1 = mod_ses a ?f s"
  have d: "dequeued l s = (Some e, s1)"
    using l a q a0 by (simp add: dequeued_def UA_Session_dequeuePublishReq_def us the_ses_def s1_def)
  define s2 where "s2 = update_lifetime l (Some e \<noteq> None) s1"
  let ?u = "u\<lparr>sub_currentLifetimeCount := 0\<rparr>"
  have s2: "srv_subs s2 = (srv_subs s)(l \<mapsto> ?u)" "srv_mallocs s2 = srv_mallocs s" "srv_sessions s2 = (srv_sessions s)(a \<mapsto> ?f x)"
    "srv_config s2 = srv_config s"
    using l(1) a by (simp_all add: s2_def s1_def update_lifetime_def Let_def) (simp_all add: mod_sub_def mod_ses_def upd_at_def)
  then have u2: "the_sub s2 l = ?u" "the_ses s2 a = ?f x" by (simp_all add: the_sub_def the_ses_def)
  define k where "k = publish_count (the_sub s2 l)"
  define s3 where "s3 = (if k = 0
    then mod_sub l (\<lambda>u. u\<lparr>sub_currentKeepAliveCount := sub_currentKeepAliveCount u + 1\<rparr>) s2 else s2)"
  have s3: "srv_mallocs s3 = srv_mallocs s" "the_ses s3 a = ?f x" "srv_sessions s3 a = Some (?f x)"
    using s2(2,3) u2(2) by (simp_all add: s3_def)
  have m3: "memory 6 s3" using m s3(1) by (simp add: memory_def)
  obtain b ms where b: "malloc s3 = (b, s3\<lparr>srv_mallocs := ms\<rparr>)" "b \<noteq> 0" "memory 5 (s3\<lparr>srv_mallocs := ms\<rparr>)"
    using memory_malloc [OF m3] by auto
  define s4 where "s4 = (if cfg_enableRetransmissionQueue (srv_config s3) then s3\<lparr>srv_mallocs := ms\<rparr> else s3)"
  have "memory 5 s4" using b(3) memory_less [OF m3] by (simp add: s4_def)
  then obtain dat s5 where prep: "prepareNotificationMessage l k s4 = ((GOOD, dat), s5)" using prepare_good by blast
  have same: "same_tables s1 s3" "same_tables s1 s4" "same_tables s1 s5"
  proof -
    show 3: "same_tables s1 s3" unfolding s3_def s2_def by (auto intro!: same_tables_update_lifetime same_intros)
    then show 4: "same_tables s1 s4" unfolding s4_def by (auto intro!: same_intros)
    show "same_tables s1 s5" by (rule same_tables_prepare [OF prep 4])
  qed
  have pair: "(if cfg_enableRetransmissionQueue (srv_config s3) then malloc s3 else (1, s3)) =
      ((if cfg_enableRetransmissionQueue (srv_config s3) then b else 1), s4)"
    by (simp add: b(1) s4_def)
  have once: "UA_Subscription_publishOnce l s =
      (if sub_statusChange u \<noteq> GOOD then (True, sendStatusChangeDelete l (Some e) s2)
       else if k = 0 \<and> sub_currentKeepAliveCount (the_sub s3 l) < sub_maxKeepAliveCount (the_sub s3 l)
       then (True, requeue l (Some e) s3)
       else if k = 0 then send_publish_response l e None s3
       else send_publish_response l e (Some dat) s5)"
    using l(2) a0 c b(2) prep
    unfolding UA_Subscription_publishOnce_def Let_def us dequeued_def [of l s, unfolded us, symmetric] d prod.case
      s2_def [symmetric] k_def [symmetric] s3_def [symmetric] pair prep
    by (simp add: u2(1) s3(2))
  have ses1: "srv_sessions s1 a \<noteq> None" "ses_responseQueue (the_ses s1 a) = []" "srv_subs s1 = srv_subs s"
    using a by (simp_all add: s1_def the_ses_def mod_ses_def)
  note ok1 = tables_stepD(1) [OF tables_step_dequeued [OF d s]]
  have sent: "ses_responseQueue (the_ses (snd (send_publish_response l e dt t')) a) = []" if t': "same_tables s1 t'" for dt t'
  proof -
    have st: "tables_step s t'" by (rule tables_step_same [OF tables_step_dequeued [OF d s] t'])
    obtain w where w: "srv_subs t' l = Some w" using l(1) tables_stepD(3) [OF st, of l] by fastforce
    have "same_requests s1 (snd (send_publish_response l e dt t'))"
      using same_requests_trans [OF same_requests_tables [OF t']] publish_step_send [OF tables_stepD(1) [OF st] w]
      by (simp add: publish_step_def)
    from same_requests_live(3) [OF this ses1(1)] show ?thesis using ses1(2) by simp
  qed
  consider (expire) "t = sendStatusChangeDelete l (Some e) s2"
    | (wait) "k = 0" "sub_currentKeepAliveCount (the_sub s3 l) < sub_maxKeepAliveCount (the_sub s3 l)" "t = requeue l (Some e) s3"
    | (send) "t = snd (send_publish_response l e None s3) \<or> t = snd (send_publish_response l e (Some dat) s5)"
    using t once by (auto split: if_splits)
  then show ?thesis
  proof cases
    case expire
    obtain t'' where t'': "same_tables s2 t''" "sendStatusChangeDelete l (Some e) s2 = UA_Subscription_delete l t''"
      by (rule sendStatusChangeDelete_is_delete)
    have "ses_responseQueue (the_ses t'' a) = []" "srv_sessions t'' a \<noteq> None"
      using s2(3) u2(2) same_tables_ses [OF t''(1)] same_tables_the_ses [OF t''(1)] by simp_all
    from delete_requests_empty [OF this] show ?thesis using expire t''(2) by simp
  next
    case wait
    let ?v = "?u\<lparr>sub_currentKeepAliveCount := sub_currentKeepAliveCount u + 1\<rparr>"
    have v: "srv_subs s3 = (srv_subs s)(l \<mapsto> ?v)" using wait(1) s2(1) by (simp add: s3_def) (simp add: mod_sub_def upd_at_def)
    then have lt: "sub_currentKeepAliveCount u + 1 < sub_maxKeepAliveCount u" using wait(2) by (simp add: the_sub_def)
    have "to_keepalive ?v < to_keepalive u" using distance_decreases [OF lt] by (simp add: to_keepalive_def)
    moreover have "srv_mallocs t = srv_mallocs s" "srv_subs t = srv_subs s3"
        "map_option ses_channel (srv_sessions t a) = Some (ses_channel x)"
      using wait(3) s3 v l(2) by (simp_all add: requeue_def UA_Session_queuePublishReq_def the_sub_def)
        (simp_all add: mod_ses_def upd_at_def)
    ultimately show ?thesis using v l(1) a by (simp add: waited_def)
  next
    case send
    then show ?thesis using sent same by blast
  qed
qed


section \<open>The search ends\<close>

definition keepalives_left :: "UA_Server \<Rightarrow> ptr \<Rightarrow> nat" where
  "keepalives_left s a = (\<Sum>p \<in> set (ses_subscriptions (the_ses s a)). to_keepalive (the_sub s p))"

fun remaining :: "ptr option \<Rightarrow> ptr list \<Rightarrow> nat" where
  "remaining None ps = 0"
| "remaining (Some l) ps = Suc (length (behind l ps))"

lemma behind_suffix: "distinct xs \<Longrightarrow> behind l xs = q # ys \<Longrightarrow> behind q xs = ys"
proof (induction xs)
  case (Cons x xs)
  show ?case
  proof (cases "x = l")
    case True
    then have "xs = q # ys" "q \<noteq> x" using Cons.prems by (auto simp: behind_def)
    then show ?thesis using True by (simp add: behind_def)
  next
    case False
    then have b: "behind l xs = q # ys" using Cons.prems(2) by (simp add: behind_def)
    then have "q \<in> set xs" using tailq_next_in [of l xs q] by (simp add: tailq_next_def first_def)
    then have "q \<noteq> x" using Cons.prems(1) by auto
    then show ?thesis using Cons.IH [OF _ b] Cons.prems(1) by (simp add: behind_def)
  qed
qed (simp add: behind_def)

lemma remaining_next: "distinct xs \<Longrightarrow> remaining (tailq_next l xs) xs < remaining (Some l) xs"
  using behind_suffix [of xs l] by (cases "behind l xs") (auto simp: tailq_next_def first_def)

lemma serve_late_ends:
  assumes "serving a late s" "memory 6 s" "ses_channel (the_ses s a) \<noteq> 0"
  shows "\<exists>t. serve_late a late s = Some t"
  using assms
proof (induction "(late, s)" arbitrary: late s
    rule: wf_induct_rule [OF wf_measures [of "[\<lambda>(l, s). keepalives_left s a, \<lambda>(l, s). remaining l (ses_subscriptions (the_ses s a))]"]])
  case 1
  note IH = 1(1) and v = 1(2) and m = 1(3) and c = 1(4)
  show ?case
  proof (cases late)
    case None
    then show ?thesis by (simp add: serve_late.simps)
  next
    case (Some l)
    obtain x e where x: "sessions_ok s" "srv_sessions s a = Some x" "ses_responseQueue x = [e]" "l \<in> set (ses_subscriptions x)"
      using v Some by (auto simp: serving_def length_Suc_conv)
    obtain u where u: "srv_subs s l = Some u" "sub_session u = a" using ses_entryD(6) [OF x(1,2,4)] by blast
    have xs: "the_ses s a = x" and us: "the_sub s l = u" using x(2) u(1) by (simp_all add: the_ses_def the_sub_def)
    have dist: "distinct (ses_subscriptions x)" by (rule ses_entryD(2) [OF x(1,2)])
    let ?next = "tailq_next l (ses_subscriptions x)"
    show ?thesis
    proof (cases "sub_state u = UA_SUBSCRIPTIONSTATE_LATE")
      case False
      have "((?next, s), (late, s)) \<in> measures [\<lambda>(l, s). keepalives_left s a, \<lambda>(l, s). remaining l (ses_subscriptions (the_ses s a))]"
        using remaining_next [OF dist, of l] by (simp add: Some xs)
      from IH [OF this _ m c] serving_next [OF v, of l] obtain t where "serve_late a ?next s = Some t" by (auto simp: xs)
      then show ?thesis using False by (simp add: Some serve_late.simps [of a "Some l"] us xs Let_def)
    next
      case True
      define p where "p = snd (UA_Subscription_publishOnce l s)"
      define t where "t = rotate_late a l p"
      note round = serving_round [OF v [unfolded Some], folded p_def, folded t_def]
      have step: "serve_late a late s = (if ses_responseQueueSize (the_ses t a) = 0 then Some t else serve_late a ?next t)"
        using True by (simp add: Some serve_late.simps [of a "Some l" s] us xs Let_def p_def t_def)
      show ?thesis
      proof (cases "ses_responseQueueSize (the_ses t a) = 0")
        case True
        then show ?thesis using step by simp
      next
        case False
        note nxt = round(2) [OF False, unfolded xs]
        have c': "ses_channel x \<noteq> 0" using c xs by simp
        note o = publishOnce_serving [OF x(1) u x(2,3) p_def]
        obtain w where w: "srv_subs p l = Some w" using u(1) tables_stepD(3) [OF o(1), of l] by fastforce
        obtain y where y: "srv_sessions p a = Some y" using x(2) tables_stepD(2) [OF o(1), of a] by fastforce
        have sw: "sub_session w = 0 \<or> sub_session w = a" using o(2) w by (simp add: the_sub_def)
        note r = tables_step_rotate [OF tables_stepD(1) [OF o(1)] w sw y, folded t_def]
        obtain z where z: "srv_sessions t a = Some z" using x(2) tables_stepD(2) [OF round(1), of a] by fastforce
        have "ses_responseQueue z \<noteq> []" using False ses_entryD(4) [OF tables_stepD(1) [OF round(1)] z] z by (simp add: the_ses_def)
        then have ne: "ses_responseQueue (the_ses p a) \<noteq> []" using r(3) y z by (simp add: the_ses_def)
        then have wt: "waited a l s p" using publishOnce_progress [OF x(1) u x(2,3) c' m p_def] by blast
        have subs: "ses_subscriptions (the_ses p a) = ses_subscriptions x" using o(3) ne by auto
        have t: "srv_subs t = srv_subs p" "srv_mallocs t = srv_mallocs p" "map_option ses_channel (srv_sessions t a) = map_option ses_channel (srv_sessions p a)"
          using y by (simp_all add: t_def rotate_late_def) (simp add: mod_ses_def upd_at_def)
        have set: "set (ses_subscriptions (the_ses t a)) = set (ses_subscriptions x)"
          using mset_eq_setD [OF r(2)] subs y by (simp add: the_ses_def)
        have other: "the_sub t q = the_sub s q" if "q \<noteq> l" for q using wt that t(1) by (simp add: waited_def the_sub_def)
        have less: "to_keepalive (the_sub t l) < to_keepalive (the_sub s l)" using wt t(1) by (auto simp: waited_def the_sub_def)
        have "to_keepalive (the_sub t q) \<le> to_keepalive (the_sub s q)" for q
          using other [of q] less by (cases "q = l") simp_all
        then have "keepalives_left t a < keepalives_left s a"
          unfolding keepalives_left_def set xs
          by (intro sum_strict_mono_ex1) (use less x(4) in auto)
        then have "((?next, t), (late, s)) \<in> measures [\<lambda>(l, s). keepalives_left s a, \<lambda>(l, s). remaining l (ses_subscriptions (the_ses s a))]"
          by simp
        moreover have "memory 6 t" using m wt t(2) by (simp add: memory_def waited_def)
        moreover have "ses_channel (the_ses t a) \<noteq> 0" using wt t(3) x(2) z c' by (auto simp: waited_def the_ses_def)
        ultimately show ?thesis using IH nxt step False by simp
      qed
    qed
  qed
qed


section \<open>A publish request is answered or queued\<close>

definition same_memory :: "UA_Server \<Rightarrow> UA_Server \<Rightarrow> bool" where
  "same_memory s t =
     (srv_mallocs t = srv_mallocs s \<and>
      (\<forall>a. map_option ses_channel (srv_sessions t a) = map_option ses_channel (srv_sessions s a)))"

lemma same_memory_refl [simp, intro]: "same_memory s s"
  by (simp add: same_memory_def)

lemma same_memory_trans [trans]: "same_memory s t \<Longrightarrow> same_memory t u \<Longrightarrow> same_memory s u"
  by (simp add: same_memory_def)

lemma same_memory_mods:
  "same_memory s t \<Longrightarrow> same_memory s (mod_sub p f t)"
  "(\<And>x. ses_channel (g x) = ses_channel x) \<Longrightarrow> same_memory s t \<Longrightarrow> same_memory s (mod_ses a g t)"
  "same_memory s t \<Longrightarrow> same_memory s (t\<lparr>srv_sent := out\<rparr>)"
  by (simp_all add: same_memory_def) (simp add: mod_ses_def upd_at_def option.map_comp comp_def)

lemma same_memory_acks: "same_memory s (snd (run_operations (acknowledge a) acks s))"
proof (induction acks arbitrary: s)
  case (Cons x xs)
  have "same_memory s (snd (acknowledge a x s))"
    by (auto simp: acknowledge_def UA_Subscription_removeRetransmissionMessage_def Let_def intro!: same_memory_mods split: option.splits)
  from same_memory_trans [OF this Cons.IH] show ?case by (simp add: Let_def split_beta)
qed simp

lemma same_memory_limit: "same_memory s (snd (UA_Session_reachedPublishReqLimit a s))"
  by (auto simp: UA_Session_reachedPublishReqLimit_def UA_Session_dequeuePublishReq_def sendResponse_def sendServiceFault_def Let_def
      intro!: same_memory_mods split: list.splits)

lemma accepted_memory:
  assumes "accept_publish a h acks i s = Inr t" "memory 8 s"
  shows "memory 6 t" "map_option ses_channel (srv_sessions t q) = map_option ses_channel (srv_sessions s q)"
proof -
  let ?limit = "unat (cfg_maxPublishReqPerSession (srv_config s))"
  obtain ok s1 where 1: "(if ?limit \<noteq> 0 \<and> ses_responseQueueSize (the_ses s a) \<ge> ?limit
      then UA_Session_reachedPublishReqLimit a s else (True, s)) = (ok, s1)" by fastforce
  then have s1: "same_memory s s1" using same_memory_limit [of s a] by (auto split: if_splits)
  then have "memory 8 s1" using assms(2) by (simp add: same_memory_def memory_def)
  from memory_malloc [OF this] obtain b ms where
    b: "malloc s1 = (b, s1\<lparr>srv_mallocs := ms\<rparr>)" "b \<noteq> 0" "memory 7 (s1\<lparr>srv_mallocs := ms\<rparr>)" by auto
  obtain c s3 where 3: "(if acks \<noteq> [] then malloc (s1\<lparr>srv_mallocs := ms\<rparr>) else (1, s1\<lparr>srv_mallocs := ms\<rparr>)) = (c, s3)" by fastforce
  have s3: "memory 6 s3" "srv_sessions s3 = srv_sessions s1"
  proof -
    obtain d ms' where d: "malloc (s1\<lparr>srv_mallocs := ms\<rparr>) = (d, s1\<lparr>srv_mallocs := ms'\<rparr>)" "memory 6 (s1\<lparr>srv_mallocs := ms'\<rparr>)"
      using memory_malloc [OF b(3)] by auto
    have "memory 6 (s1\<lparr>srv_mallocs := ms\<rparr>)" using memory_less [OF b(3)] by simp
    then show "memory 6 s3" "srv_sessions s3 = srv_sessions s1" using 3 d by (auto split: if_splits)
  qed
  obtain rs s4 where 4: "run_operations (acknowledge a) acks s3 = (rs, s4)" by fastforce
  then have s4: "same_memory s3 s4" using same_memory_acks [of s3 a acks] by simp
  have "t = UA_Session_queuePublishReq a \<lparr>pre_requestId = i, pre_response = (blank_response h)\<lparr>res_results := rs\<rparr>\<rparr> False s4"
    using assms(1) unfolding accept_publish_def Let_def 1 b(1) 3 4 prod.case by (auto split: if_splits)
  then have "same_memory s4 t" unfolding UA_Session_queuePublishReq_def by (auto intro!: same_memory_mods)
  with s4 have "same_memory s3 t" by (rule same_memory_trans)
  then show "memory 6 t" "map_option ses_channel (srv_sessions t q) = map_option ses_channel (srv_sessions s q)"
    using s3 s1 by (simp_all add: same_memory_def memory_def)
qed

text \<open>
  C18: The publish service returns: in every reachable state, with a channel and memory for eight
  allocations, the search for late subscriptions ends. It can meet the same subscription again, because a
  served one moves behind the others of its priority, but every round either consumes the request or
  brings a subscription one step closer to its keep-alive.
\<close>

theorem publish_service_returns:
  assumes "server_reachable rd changed s" "srv_sessions s a = Some x" "ses_channel x \<noteq> 0" "memory 8 s"
  shows "\<exists>r t. Service_Publish a h acks i s = Some (r, t)"
proof (cases "accept_publish a h acks i s")
  case (Inl b)
  then show ?thesis by (simp add: Service_Publish_accept)
next
  case (Inr t)
  note ok = server_reachable_ok [OF assms(1)]
  have a: "srv_sessions s a \<noteq> None" using assms(2) by simp
  show ?thesis
  proof (cases "ses_responseQueueSize (the_ses t a) > 1")
    case False
    have "ses_channel (the_ses t a) = ses_channel x"
      using accepted_memory(2) [OF Inr assms(4), of a] assms(2) by (auto simp: the_ses_def)
    then show ?thesis
      using serve_late_ends [OF accepted_serving [OF ok a Inr False] accepted_memory(1) [OF Inr assms(4)]] assms(3) False
      by (auto simp: Service_Publish_accept Inr)
  qed (simp add: Service_Publish_accept Inr)
qed

lemma publish_service_returns_witness:
  "\<exists>r t. Service_Publish 1 7 [(1, 1)] 4 (demo_subscribed\<lparr>srv_now := 2000, srv_nowMonotonic := 50, srv_mallocs := [21..<29]\<rparr>) = Some (r, t)"
proof -
  let ?s = "demo_subscribed\<lparr>srv_now := 2000, srv_nowMonotonic := 50, srv_mallocs := [21..<29]\<rparr>"
  have "server_reachable (\<lambda>s i. UA_DataValue_init) (\<lambda>i v. True) ?s"
    by (rule server_reachable.step [OF demo_reachable server_step.environment]) (use demo_defined in simp)
  moreover have "\<exists>x. srv_sessions ?s 1 = Some x \<and> ses_channel x = 9" by (simp add: demo_eval)
  moreover have "memory 8 ?s" by (simp add: memory_def)
  ultimately show ?thesis using publish_service_returns by fastforce
qed


section \<open>Without memory\<close>

text \<open>A late subscription with something to publish, and two of them, of the same priority, in a session without other ones.\<close>

definition starved :: "ptr \<Rightarrow> UA_Subscription \<Rightarrow> bool" where
  "starved a u =
     (sub_session u = a \<and> sub_state u = UA_SUBSCRIPTIONSTATE_LATE \<and> sub_statusChange u = GOOD \<and>
      sub_publishingEnabled u \<and> sub_notificationsPerPublish u \<noteq> 0 \<and> 0 < sub_notificationQueueSize u)"

definition starving :: "ptr \<Rightarrow> ptr \<Rightarrow> ptr \<Rightarrow> UA_Server \<Rightarrow> bool" where
  "starving a p q s =
     (a \<noteq> 0 \<and> p \<noteq> q \<and> srv_mallocs s = [] \<and> cfg_enableRetransmissionQueue (srv_config s) \<and>
      (\<exists>x e. srv_sessions s a = Some x \<and> ses_subscriptions x = [p, q] \<and> ses_responseQueue x = [e] \<and> ses_responseQueueSize x = 1) \<and>
      (\<exists>u v. srv_subs s p = Some u \<and> srv_subs s q = Some v \<and> starved a u \<and> starved a v \<and> sub_priority u = sub_priority v))"

lemma starved_round:
  assumes "srv_mallocs s = []" "cfg_enableRetransmissionQueue (srv_config s)" "a \<noteq> 0"
    and x: "srv_sessions s a = Some x" "ses_responseQueue x = [e]" "ses_responseQueueSize x = 1"
    and u: "srv_subs s p = Some u" "starved a u"
  shows "snd (UA_Subscription_publishOnce p s) =
    s\<lparr>srv_subs := (srv_subs s)(p \<mapsto> u\<lparr>sub_currentLifetimeCount := 0\<rparr>)\<rparr>"
proof -
  have us: "the_sub s p = u" using u(1) by (simp add: the_sub_def)
  note st = u(2) [unfolded starved_def]
  let ?f = "\<lambda>x. x\<lparr>ses_responseQueueSize := ses_responseQueueSize x - 1, ses_responseQueue := []\<rparr>"
  define s1 where "s1 = mod_ses a ?f s"
  have d: "dequeued p s = (Some e, s1)"
    using st x assms(3) by (simp add: dequeued_def UA_Session_dequeuePublishReq_def us the_ses_def s1_def)
  define s2 where "s2 = update_lifetime p (Some e \<noteq> None) s1"
  let ?u = "u\<lparr>sub_currentLifetimeCount := 0\<rparr>"
  have s2: "s2 = s\<lparr>srv_sessions := (srv_sessions s)(a \<mapsto> ?f x), srv_subs := (srv_subs s)(p \<mapsto> ?u)\<rparr>"
    using u(1) x(1) by (simp add: s2_def s1_def update_lifetime_def Let_def) (simp add: mod_sub_def mod_ses_def upd_at_def)
  have u2: "the_sub s2 p = ?u" by (simp add: s2 the_sub_def)
  define k where "k = publish_count (the_sub s2 p)"
  have k: "k \<noteq> 0" using st by (auto simp: k_def u2 publish_count_def Let_def unat_gt_0 unat_eq_0)
  define s3 where "s3 = (if k = 0
    then mod_sub p (\<lambda>u. u\<lparr>sub_currentKeepAliveCount := sub_currentKeepAliveCount u + 1\<rparr>) s2 else s2)"
  have s3: "s3 = s2" using k by (simp add: s3_def)
  have m: "(if cfg_enableRetransmissionQueue (srv_config s3) then malloc s3 else (1, s3)) = (0, s2)"
    using assms(1,2) by (simp add: s3 s2 malloc_def)
  have once: "snd (UA_Subscription_publishOnce p s) = requeue p (Some e) (UA_Subscription_isLate p s2)"
    unfolding UA_Subscription_publishOnce_def Let_def us dequeued_def [of p s, unfolded us, symmetric] d prod.case
      s2_def [symmetric] k_def [symmetric] s3_def [symmetric] m
    using k st by (simp add: u2 s3)
  have "u\<lparr>sub_currentLifetimeCount := 0, sub_state := UA_SUBSCRIPTIONSTATE_LATE\<rparr> = ?u" using st by (cases u) simp
  then have r: "UA_Subscription_isLate p s2 = s2" by (simp add: UA_Subscription_isLate_def mod_sub_def upd_at_def s2)
  have "ses_responseQueueSize x = Suc 0" using x(3) by simp
  then have "x\<lparr>ses_responseQueueSize := Suc 0, ses_responseQueue := [e]\<rparr> = x" using x(2) by simp
  then have "requeue p (Some e) s2 = s\<lparr>srv_subs := (srv_subs s)(p \<mapsto> ?u)\<rparr>"
    using st x by (simp add: requeue_def UA_Session_queuePublishReq_def u2) (simp add: s2 mod_ses_def upd_at_def fun_upd_idem)
  then show ?thesis by (simp add: once r)
qed

lemma starving_round:
  assumes "starving a p q s"
  defines "t \<equiv> rotate_late a p (snd (UA_Subscription_publishOnce p s))"
  shows "starving a q p t" "ses_responseQueueSize (the_ses t a) \<noteq> 0" "tailq_next p (ses_subscriptions (the_ses s a)) = Some q"
    "sub_state (the_sub s p) = UA_SUBSCRIPTIONSTATE_LATE"
proof -
  obtain x e u v where x: "srv_sessions s a = Some x" "ses_subscriptions x = [p, q]" "ses_responseQueue x = [e]"
      "ses_responseQueueSize x = 1" and u: "srv_subs s p = Some u" "starved a u"
    and v: "srv_subs s q = Some v" "starved a v" "sub_priority u = sub_priority v"
    and g: "a \<noteq> 0" "p \<noteq> q" "srv_mallocs s = []" "cfg_enableRetransmissionQueue (srv_config s)"
    using assms(1) unfolding starving_def by blast
  define s1 where "s1 = s\<lparr>srv_subs := (srv_subs s)(p \<mapsto> u\<lparr>sub_currentLifetimeCount := 0\<rparr>)\<rparr>"
  have once: "snd (UA_Subscription_publishOnce p s) = s1" unfolding s1_def by (rule starved_round [OF g(3,4,1) x(1,3,4) u])
  have "sub_session (the_sub s1 p) \<noteq> 0" using u(2) g(1) by (simp add: s1_def the_sub_def starved_def)
  moreover have "\<not> priority_of s1 q < priority_of s1 p" "srv_sessions s1 a = Some x"
    using v g(2) x(1) by (simp_all add: priority_of_def s1_def the_sub_def)
  ultimately have t: "t = s1\<lparr>srv_sessions := (srv_sessions s1)(a \<mapsto> x\<lparr>ses_subscriptions := [q, p]\<rparr>)\<rparr>"
    using x(2) by (simp add: t_def once rotate_late_def mod_ses_def upd_at_def in_front_def behind_def)
  show "starving a q p t"
    unfolding starving_def using g x u v by (auto simp: t s1_def starved_def)
  show "ses_responseQueueSize (the_ses t a) \<noteq> 0" using x(4) by (simp add: t the_ses_def)
  show "tailq_next p (ses_subscriptions (the_ses s a)) = Some q"
    using x g(2) by (simp add: the_ses_def tailq_next_def behind_def first_def)
  show "sub_state (the_sub s p) = UA_SUBSCRIPTIONSTATE_LATE" using u by (simp add: the_sub_def starved_def)
qed

lemma starving_forever: "starving a p q s \<Longrightarrow> serve_late a (Some p) s = None"
proof (rule ccontr)
  assume st: "starving a p q s" and "serve_late a (Some p) s \<noteq> None"
  then obtain t where t: "serve_late a (Some p) s = Some t" by auto
  have "\<forall>p q. late = Some p \<longrightarrow> \<not> starving a p q s" if "serve_late a late s = Some t" for late s
  proof (rule serve_late.raw_induct [OF _ that, where P = "\<lambda>a late s t. \<forall>p q. late = Some p \<longrightarrow> \<not> starving a p q s"], intro allI impI notI)
    fix rec a late s t p q
    assume IH: "\<And>a late s t. rec a late s = Some t \<Longrightarrow> \<forall>p q. late = Some p \<longrightarrow> \<not> starving a p q s"
      and res: "(case late of None \<Rightarrow> Some s
       | Some l \<Rightarrow>
          let late_tmp = tailq_next l (ses_subscriptions (the_ses s a))
          in if sub_state (the_sub s l) \<noteq> UA_SUBSCRIPTIONSTATE_LATE then rec a late_tmp s
             else let s = rotate_late a l (snd (UA_Subscription_publishOnce l s))
                  in if ses_responseQueueSize (the_ses s a) = 0 then Some s
                     else rec a late_tmp s) = Some t"
      and l: "late = Some p" and st: "starving a p q s"
    note r = starving_round [OF st]
    have "rec a (Some q) (rotate_late a p (snd (UA_Subscription_publishOnce p s))) = Some t"
      using res l r(2-4) by (simp add: Let_def)
    from IH [OF this] r(1) show False by blast
  qed
  then show False using t st by blast
qed


text \<open>
  C22: Without memory the publish service never returns. When the queued request takes the last memory,
  and the session has two late subscriptions of the same priority with something to publish, each round
  fails to allocate the message, puts the request back, and moves the subscription behind the other one.
  The saved successor is then the other one again: the loop goes on for ever.
\<close>

theorem publish_service_never_returns:
  assumes "srv_mallocs s = [m]" "m \<noteq> 0" "cfg_enableRetransmissionQueue (srv_config s)" "a \<noteq> 0" "p \<noteq> q"
    and "srv_sessions s a = Some x" "ses_subscriptions x = [p, q]" "ses_responseQueue x = []" "ses_responseQueueSize x = 0"
    and "srv_subs s p = Some u" "srv_subs s q = Some v" "starved a u" "starved a v" "sub_priority u = sub_priority v"
  shows "Service_Publish a h [] i s = None"
proof -
  define t where "t = UA_Session_queuePublishReq a \<lparr>pre_requestId = i, pre_response = (blank_response h)\<lparr>res_results := []\<rparr>\<rparr>
    False (s\<lparr>srv_mallocs := []\<rparr>)"
  have ses: "the_ses s a = x" using assms(6) by (simp add: the_ses_def)
  have t: "srv_mallocs t = []" "srv_config t = srv_config s" "srv_subs t = srv_subs s"
      "srv_sessions t = (srv_sessions s)(a \<mapsto> x\<lparr>ses_responseQueueSize := 1, ses_responseQueue :=
        [\<lparr>pre_requestId = i, pre_response = (blank_response h)\<lparr>res_results := []\<rparr>\<rparr>]\<rparr>)"
    using assms(6,8,9) by (simp_all add: t_def UA_Session_queuePublishReq_def) (simp_all add: mod_ses_def upd_at_def)
  have "starving a p q t"
    unfolding starving_def using assms(3-5,7,10-14) by (auto simp: t)
  note forever = starving_forever [OF this]
  have "accept_publish a h [] i s = Inr t"
    using assms(1,2,7,9) by (auto simp: accept_publish_def Let_def ses malloc_def t_def)
  then show ?thesis using forever assms(7) by (simp add: Service_Publish_accept t(4) the_ses_def)
qed

definition demo_late :: UA_Server where
  "demo_late = demo_queued\<lparr>srv_mallocs := [21],
     srv_sessions := [1 \<mapsto> (new_session 9)\<lparr>ses_subscriptions := [5, 6], ses_subscriptionsSize := 2\<rparr>],
     srv_subs := [5 \<mapsto> (the_sub demo_queued 5)\<lparr>sub_state := UA_SUBSCRIPTIONSTATE_LATE\<rparr>,
                  6 \<mapsto> (the_sub demo_queued 5)\<lparr>sub_state := UA_SUBSCRIPTIONSTATE_LATE, sub_subscriptionId := 2\<rparr>]\<rparr>"

lemma publish_service_never_returns_witness: "Service_Publish 1 3 [] 88 demo_late = None"
proof -
  have "starved 1 ((the_sub demo_queued 5)\<lparr>sub_state := UA_SUBSCRIPTIONSTATE_LATE\<rparr>)"
      "starved 1 ((the_sub demo_queued 5)\<lparr>sub_state := UA_SUBSCRIPTIONSTATE_LATE, sub_subscriptionId := 2\<rparr>)"
    by (simp_all add: starved_def demo_queued_def the_sub_def demo_full_def blank_subscription_def)
  moreover have "cfg_enableRetransmissionQueue (srv_config demo_late)"
    by (simp add: demo_late_def demo_queued_def demo_full_def demo_empty_def demo_config_def)
  ultimately show ?thesis
    by (intro publish_service_never_returns [where m = 21 and p = 5 and q = 6 and
          x = "(new_session 9)\<lparr>ses_subscriptions := [5, 6], ses_subscriptionsSize := 2\<rparr>" and
          u = "(the_sub demo_queued 5)\<lparr>sub_state := UA_SUBSCRIPTIONSTATE_LATE\<rparr>" and
          v = "(the_sub demo_queued 5)\<lparr>sub_state := UA_SUBSCRIPTIONSTATE_LATE, sub_subscriptionId := 2\<rparr>"])
      (simp_all add: demo_late_def, simp_all add: new_session_def)
qed

end
