(* ===== verification/Sub_Life.thy ===== *)
theory Sub_Life
  imports Sub_Late
begin

text \<open>
  The life of a subscription: the settings that a client gets, the end of a subscription whose client no
  longer sends publish requests, and the timer callback that a transfer loses.
\<close>

section \<open>The settings\<close>

definition limits_ok :: "UA_ServerConfig \<Rightarrow> bool" where
  "limits_ok cfg =
     (cfg_publishingInterval_min cfg \<le> cfg_publishingInterval_max cfg \<and>
      cfg_lifeTimeCount_min cfg \<le> cfg_lifeTimeCount_max cfg \<and> cfg_keepAliveCount_min cfg \<le> cfg_keepAliveCount_max cfg \<and>
      3 * unat (cfg_keepAliveCount_max cfg) < 2 ^ 32 \<and> 3 * unat (cfg_keepAliveCount_max cfg) \<le> unat (cfg_lifeTimeCount_max cfg))"

definition settings_ok :: "UA_ServerConfig \<Rightarrow> rat \<Rightarrow> u32 \<Rightarrow> u32 \<Rightarrow> bool" where
  "settings_ok cfg itv lifetime keepalive =
     (cfg_publishingInterval_min cfg \<le> itv \<and> itv \<le> cfg_publishingInterval_max cfg \<and>
      cfg_lifeTimeCount_min cfg \<le> lifetime \<and> lifetime \<le> cfg_lifeTimeCount_max cfg \<and>
      cfg_keepAliveCount_min cfg \<le> keepalive \<and> keepalive \<le> cfg_keepAliveCount_max cfg \<and>
      3 * unat keepalive \<le> unat lifetime)"

lemma bounded_count_bounds: "mn \<le> mx \<Longrightarrow> mn \<le> bounded_count mn mx v \<and> bounded_count mn mx v \<le> mx"
  by (auto simp: bounded_count_def)

lemma bounded_interval_bounds: "mn \<le> mx \<Longrightarrow> mn \<le> bounded_interval mn mx d \<and> bounded_interval mn mx d \<le> mx"
  by (cases d) auto

lemma settings_bounded:
  assumes "limits_ok cfg"
  shows "settings_ok cfg (sub_publishingInterval (setSubscriptionSettings cfg i l k n p u))
    (sub_lifeTimeCount (setSubscriptionSettings cfg i l k n p u)) (sub_maxKeepAliveCount (setSubscriptionSettings cfg i l k n p u))"
proof -
  define K where "K = bounded_count (cfg_keepAliveCount_min cfg) (cfg_keepAliveCount_max cfg) k"
  define L where "L = bounded_count (cfg_lifeTimeCount_min cfg) (cfg_lifeTimeCount_max cfg) l"
  have lim: "cfg_publishingInterval_min cfg \<le> cfg_publishingInterval_max cfg"
      "cfg_lifeTimeCount_min cfg \<le> cfg_lifeTimeCount_max cfg" "cfg_keepAliveCount_min cfg \<le> cfg_keepAliveCount_max cfg"
      "3 * unat (cfg_keepAliveCount_max cfg) < 2 ^ 32" "3 * unat (cfg_keepAliveCount_max cfg) \<le> unat (cfg_lifeTimeCount_max cfg)"
    using assms by (simp_all add: limits_ok_def)
  have K: "cfg_keepAliveCount_min cfg \<le> K" "K \<le> cfg_keepAliveCount_max cfg"
    and L: "cfg_lifeTimeCount_min cfg \<le> L" "L \<le> cfg_lifeTimeCount_max cfg"
    using bounded_count_bounds lim(2,3) by (simp_all add: K_def L_def)
  have k3: "3 * unat K < 2 ^ 32" "3 * unat K \<le> unat (cfg_lifeTimeCount_max cfg)"
    using K(2) lim(4,5) by (simp_all add: word_le_nat_alt)
  have three: "unat (3 * K) = 3 * unat K" using k3(1) by (simp add: unat_word_ariths)
  have s: "sub_publishingInterval (setSubscriptionSettings cfg i l k n p u) =
      bounded_interval (cfg_publishingInterval_min cfg) (cfg_publishingInterval_max cfg) i"
    "sub_maxKeepAliveCount (setSubscriptionSettings cfg i l k n p u) = K"
    "sub_lifeTimeCount (setSubscriptionSettings cfg i l k n p u) = (if L < 3 * K then 3 * K else L)"
    by (simp_all add: setSubscriptionSettings_def Let_def K_def L_def)
  show ?thesis
    unfolding s settings_ok_def
    using bounded_interval_bounds [OF lim(1)] K L k3 three by (auto simp: word_le_nat_alt word_less_nat_alt)
qed

definition settings_of :: "UA_Subscription \<Rightarrow> rat \<times> u32 \<times> u32" where
  "settings_of u = (sub_publishingInterval u, sub_lifeTimeCount u, sub_maxKeepAliveCount u)"

definition has_settings :: "UA_Server \<Rightarrow> ptr \<Rightarrow> UA_ServerConfig \<Rightarrow> bool" where
  "has_settings s p cfg =
     (\<exists>u. srv_subs s p = Some u \<and> settings_ok cfg (sub_publishingInterval u) (sub_lifeTimeCount u) (sub_maxKeepAliveCount u))"

lemma has_settings_mods:
  "(\<And>u. settings_of (f u) = settings_of u) \<Longrightarrow> has_settings s p cfg \<Longrightarrow> has_settings (mod_sub q f s) p cfg"
  "has_settings s p cfg \<Longrightarrow> has_settings (mod_ses a g s) p cfg"
proof -
  assume f: "\<And>u. settings_of (f u) = settings_of u" and "has_settings s p cfg"
  then obtain u where u: "srv_subs s p = Some u"
      "settings_ok cfg (sub_publishingInterval u) (sub_lifeTimeCount u) (sub_maxKeepAliveCount u)"
    by (auto simp: has_settings_def)
  then show "has_settings (mod_sub q f s) p cfg"
    using f [of u] by (cases "q = p") (auto simp: has_settings_def mod_sub_def upd_at_def settings_of_def)
qed (simp add: has_settings_def)

lemma has_settings_same: "srv_subs t = srv_subs s \<Longrightarrow> has_settings t p cfg = has_settings s p cfg"
  by (simp add: has_settings_def)

lemma has_settings_set:
  assumes "limits_ok cfg" "srv_subs s p \<noteq> None"
  shows "has_settings (mod_sub p (setSubscriptionSettings cfg i l k n q) s) p cfg"
  using settings_bounded [OF assms(1)] assms(2) by (auto simp: has_settings_def mod_sub_def upd_at_def)

lemma has_settings_attach: "has_settings s p cfg \<Longrightarrow> has_settings (UA_Session_attachSubscription a p s) p cfg"
  unfolding UA_Session_attachSubscription_def Let_def by (intro has_settings_mods) (simp_all add: settings_of_def)

lemma has_settings_detach: "has_settings s p cfg \<Longrightarrow> has_settings (UA_Session_detachSubscription a p False s) p cfg"
  unfolding UA_Session_detachSubscription_def Let_def by (auto intro!: has_settings_mods simp: settings_of_def)

lemma has_settings_register:
  assumes "Subscription_registerPublishCallback p s = (r, t)" "has_settings s p cfg"
  shows "has_settings t p cfg"
proof -
  obtain res cid s1 where a: "addRepeatedCallback PUBLISH_CALLBACK p (sub_publishingInterval (the_sub s p)) s = (res, cid, s1)"
    by (metis prod.exhaust)
  then have "srv_subs s1 = srv_subs s"
    by (auto simp: addRepeatedCallback_def malloc_def Let_def split: prod.splits list.splits)
  then have "has_settings s1 p cfg" using assms(2) by (simp add: has_settings_def)
  then show ?thesis using assms a
    by (auto simp: Subscription_registerPublishCallback_def settings_of_def split: if_splits intro!: has_settings_mods)
qed

lemma has_settings_revised:
  "has_settings s p cfg \<Longrightarrow> settings_ok cfg (csp_revisedPublishingInterval (revised (the_sub s p)))
     (csp_revisedLifetimeCount (revised (the_sub s p))) (csp_revisedMaxKeepAliveCount (revised (the_sub s p)))"
  by (auto simp: has_settings_def revised_def the_sub_def)

lemma failed_not_good: "csp_serviceResult (create_failed k) = k"
  by (simp add: create_failed_def)

lemma create_settings:
  assumes "limits_ok (srv_config s)" "csp_serviceResult (fst (Service_CreateSubscription a req s)) = GOOD"
  shows "\<exists>p. fst (Service_CreateSubscription a req s) = revised (the_sub (snd (Service_CreateSubscription a req s)) p) \<and>
    has_settings (snd (Service_CreateSubscription a req s)) p (srv_config s)"
proof -
  define cfg where "cfg = srv_config s"
  obtain p s1 where p: "UA_Subscription_new s = (p, s1)" by fastforce
  define s2 where "s2 = mod_sub p (setSubscriptionSettings cfg (csr_requestedPublishingInterval req)
    (csr_requestedLifetimeCount req) (csr_requestedMaxKeepAliveCount req) (csr_maxNotificationsPerPublish req)
    (csr_priority req)) s1"
  define s3 where "s3 = mod_sub p (\<lambda>u. u\<lparr>sub_currentKeepAliveCount := sub_maxKeepAliveCount u\<rparr>)
    (mod_sub p (setPublishingEnabled (csr_publishingEnabled req)) s2)"
  define s4 where "s4 = s3\<lparr>srv_lastSubscriptionId := srv_lastSubscriptionId s3 + 1\<rparr>"
  define s5 where "s5 = mod_sub p (\<lambda>u. u\<lparr>sub_subscriptionId := srv_lastSubscriptionId s4\<rparr>) s4"
  obtain r s6 where r: "Subscription_registerPublishCallback p s5 = (r, s6)" by fastforce
  define s7 where "s7 = s6\<lparr>srv_subscriptions := p # srv_subscriptions s6, srv_subscriptionsSize := srv_subscriptionsSize s6 + 1,
    srv_currentSubscriptionCount := srv_currentSubscriptionCount s6 + 1,
    srv_cumulatedSubscriptionCount := srv_cumulatedSubscriptionCount s6 + 1\<rparr>"
  have live: "srv_subs s1 p \<noteq> None" if "p \<noteq> 0"
    using p that by (auto simp: UA_Subscription_new_def split: prod.splits if_splits)
  have s6: "has_settings s6 p cfg" if "p \<noteq> 0"
  proof (rule has_settings_register [OF r])
    have "has_settings s2 p cfg" unfolding s2_def cfg_def by (rule has_settings_set [OF assms(1) live [OF that]])
    then have "has_settings s3 p cfg"
      unfolding s3_def by (intro has_settings_mods) (simp_all add: setPublishingEnabled_def settings_of_def)
    then have "has_settings s4 p cfg" by (simp add: s4_def has_settings_def)
    then show "has_settings s5 p cfg" unfolding s5_def by (intro has_settings_mods) (simp_all add: settings_of_def)
  qed
  have s8: "has_settings (UA_Session_attachSubscription a p s7) p cfg" if "p \<noteq> 0"
    by (rule has_settings_attach) (use s6 [OF that] in \<open>simp add: s7_def has_settings_def\<close>)
  note create = Service_CreateSubscription_def [of a req s, unfolded Let_def p prod.case cfg_def [symmetric] s2_def [symmetric]
      s3_def [symmetric] s4_def [symmetric] s5_def [symmetric] r s7_def [symmetric]]
  show ?thesis
    using assms(2) s8 unfolding create cfg_def [symmetric]
    by (auto simp: failed_not_good status_defs split: if_splits)
qed

lemma modify_settings:
  assumes "limits_ok (srv_config s)" "csp_serviceResult (fst (Service_ModifySubscription a i req s)) = GOOD"
    and "\<And>p. UA_Session_getSubscriptionById a i s = Some p \<Longrightarrow> srv_subs s p \<noteq> None"
  shows "\<exists>p. fst (Service_ModifySubscription a i req s) = revised (the_sub (snd (Service_ModifySubscription a i req s)) p) \<and>
    has_settings (snd (Service_ModifySubscription a i req s)) p (srv_config s)"
proof (cases "UA_Session_getSubscriptionById a i s")
  case None
  then show ?thesis using assms(2) by (simp add: Service_ModifySubscription_def failed_not_good status_defs)
next
  case (Some p)
  define cfg where "cfg = srv_config s"
  define s1 where "s1 = mod_sub p (\<lambda>u. u\<lparr>sub_currentLifetimeCount := 0\<rparr>)
    (mod_sub p (setSubscriptionSettings cfg (csr_requestedPublishingInterval req)
      (csr_requestedLifetimeCount req) (csr_requestedMaxKeepAliveCount req) (csr_maxNotificationsPerPublish req)
      (csr_priority req)) s)"
  define s2 where "s2 = (if sub_publishCallbackId (the_sub s1 p) > 0 \<and>
      sub_publishingInterval (the_sub s1 p) \<noteq> sub_publishingInterval (the_sub s p)
    then snd (changeRepeatedCallbackInterval (sub_publishCallbackId (the_sub s1 p)) (sub_publishingInterval (the_sub s1 p)) s1)
    else s1)"
  have "has_settings s1 p cfg" unfolding s1_def cfg_def
    by (intro has_settings_mods has_settings_set [OF assms(1) assms(3) [OF Some]]) (simp add: settings_of_def)
  then have s2: "has_settings s2 p cfg"
    by (simp add: s2_def changeRepeatedCallbackInterval_def has_settings_def split: prod.splits)
  have s3: "has_settings (UA_Session_attachSubscription a p (UA_Session_detachSubscription a p False s2)) p cfg"
    by (rule has_settings_attach [OF has_settings_detach [OF s2]])
  show ?thesis
    unfolding Service_ModifySubscription_def Some Let_def option.case cfg_def [symmetric] s1_def [symmetric] s2_def [symmetric]
    using s2 s3 by auto
qed

text \<open>
  C19: A client gets settings within the limits of the server. When a subscription is created or modified
  with success, whatever was requested (also infinite intervals or not a number), the publishing interval,
  the lifetime and the keep-alive count are within the configured limits, the lifetime is at least three
  keep-alive periods, and the answer tells exactly the settings of the subscription. The configured limits
  must make sense (\<open>limits_ok\<close>): no minimum above its maximum, and a maximal lifetime of at least three of
  the longest keep-alive periods, counted without a wrap-around.
\<close>

theorem settings_within_limits:
  assumes "server_reachable rd changed s" "srv_sessions s a \<noteq> None" "limits_ok (srv_config s)"
    and "r = Service_CreateSubscription a req s \<or> r = Service_ModifySubscription a i req s"
    and "csp_serviceResult (fst r) = GOOD"
  shows "\<exists>p u. srv_subs (snd r) p = Some u \<and> fst r = revised u \<and>
    settings_ok (srv_config s) (sub_publishingInterval u) (sub_lifeTimeCount u) (sub_maxKeepAliveCount u)"
proof -
  have live: "srv_subs s p \<noteq> None" if "UA_Session_getSubscriptionById a i s = Some p" for p
    using get_sub [OF server_reachable_ok [OF assms(1)] assms(2) that] by auto
  have "\<exists>p. fst r = revised (the_sub (snd r) p) \<and> has_settings (snd r) p (srv_config s)"
    using assms(4) create_settings [OF assms(3)] modify_settings [OF assms(3) _ live] assms(5) by blast
  then show ?thesis unfolding has_settings_def the_sub_def by fastforce
qed

lemma settings_within_limits_witness:
  "\<exists>p u. srv_subs demo_subscribed p = Some u \<and> 3 * unat (sub_maxKeepAliveCount u) \<le> unat (sub_lifeTimeCount u)"
proof -
  have lim: "limits_ok (srv_config demo_subscribed)" "limits_ok (srv_config demo_session)"
    by (simp_all add: demo_eval limits_ok_def)
  have good: "csp_serviceResult (fst (Service_CreateSubscription 1 demo_request demo_session)) = GOOD"
    by (simp add: demo_eval revised_def)
  have "server_reachable (\<lambda>s i. UA_DataValue_init) (\<lambda>i v. True) demo_session"
    by (rule server_reachable.step [OF server_reachable.init [of demo_empty]])
      (use server_step.createSession [of 1 demo_empty _ _ 9] in \<open>simp_all add: demo_empty_def demo_session_def server_init_def\<close>)
  from settings_within_limits [OF this _ lim(2) disjI1 [OF refl] good] show ?thesis
    unfolding demo_subscribed_def by (auto simp: settings_ok_def demo_session_def)
qed

section \<open>The end of a lifetime\<close>

text \<open>The cyclic callback, \<open>k\<close> times.\<close>

fun publish_cycles ::
  "(UA_Server \<Rightarrow> UA_MonitoredItem \<Rightarrow> UA_DataValue) \<Rightarrow> (UA_MonitoredItem \<Rightarrow> UA_DataValue \<Rightarrow> bool) \<Rightarrow> nat \<Rightarrow> ptr \<Rightarrow> UA_Server \<Rightarrow> UA_Server option" where
  "publish_cycles rd changed 0 p s = Some s"
| "publish_cycles rd changed (Suc k) p s =
     (case UA_Subscription_sampleAndPublish rd changed p s of
        None \<Rightarrow> None
      | Some t \<Rightarrow> publish_cycles rd changed k p t)"

text \<open>A subscription whose session has no publish request.\<close>

definition unserved :: "UA_Server \<Rightarrow> ptr \<Rightarrow> ptr \<Rightarrow> UA_Subscription \<Rightarrow> bool" where
  "unserved s a p u =
     (sessions_ok s \<and> a \<noteq> 0 \<and> srv_subs s p = Some u \<and> sub_session u = a \<and> sub_samplingMonitoredItems u = [] \<and>
      sub_statusChange u = GOOD \<and> (\<exists>x. srv_sessions s a = Some x \<and> ses_responseQueue x = []))"

text \<open>One cycle without a request changes counters and states only, or deletes the subscription.\<close>

definition kept_fields :: "UA_Subscription \<Rightarrow> UA_Subscription \<Rightarrow> bool" where
  "kept_fields u v =
     (sub_session v = sub_session u \<and> sub_publishCallbackId v = sub_publishCallbackId u \<and>
      sub_monitoredItems v = sub_monitoredItems u \<and> sub_samplingMonitoredItems v = sub_samplingMonitoredItems u \<and>
      sub_lifeTimeCount v = sub_lifeTimeCount u \<and> retrans_of v = retrans_of u)"

lemma idle_round:
  assumes u: "srv_subs s p = Some u" "sub_session u = a" and x: "a \<noteq> 0" "srv_sessions s a = Some x" "ses_responseQueue x = []"
  shows "\<exists>v. kept_fields u v \<and> sub_currentLifetimeCount v = sub_currentLifetimeCount u + 1 \<and>
    (if sub_statusChange u \<noteq> GOOD \<or> sub_currentLifetimeCount u + 1 > sub_lifeTimeCount u
     then UA_Subscription_publish p s = Some (UA_Subscription_delete p (s\<lparr>srv_subs := (srv_subs s)(p \<mapsto> v)\<rparr>))
     else UA_Subscription_publish p s = Some (s\<lparr>srv_subs := (srv_subs s)(p \<mapsto> v)\<rparr>) \<and> sub_statusChange v = GOOD)"
proof -
  have us: "the_sub s p = u" using u(1) by (simp add: the_sub_def)
  have d: "dequeued p s = (None, s)"
    using x u(2) by (simp add: dequeued_def us UA_Session_dequeuePublishReq_def the_ses_def)
  let ?expired = "sub_currentLifetimeCount u + 1 > sub_lifeTimeCount u"
  define u1 where "u1 = (if ?expired
    then u\<lparr>sub_currentLifetimeCount := sub_currentLifetimeCount u + 1, sub_statusChange := UA_STATUSCODE_BADTIMEOUT\<rparr>
    else u\<lparr>sub_currentLifetimeCount := sub_currentLifetimeCount u + 1\<rparr>)"
  define s2 where "s2 = update_lifetime p ((None :: UA_PublishResponseEntry option) \<noteq> None) s"
  define k where "k = publish_count (the_sub s2 p)"
  define s3 where "s3 = (if k = 0
    then mod_sub p (\<lambda>u. u\<lparr>sub_currentKeepAliveCount := sub_currentKeepAliveCount u + 1\<rparr>) s2 else s2)"
  have s2: "s2 = s\<lparr>srv_subs := (srv_subs s)(p \<mapsto> u1)\<rparr>"
    using u(1) by (simp add: s2_def update_lifetime_def Let_def u1_def mod_sub_def upd_at_def)
  then have u2: "the_sub s2 p = u1" by (simp add: the_sub_def)
  have once: "UA_Subscription_publishOnce p s =
      (if sub_statusChange u1 \<noteq> GOOD then (True, UA_Subscription_delete p s2)
       else if k = 0 \<and> sub_currentKeepAliveCount (the_sub s3 p) < sub_maxKeepAliveCount (the_sub s3 p) then (True, s3)
       else (True, UA_Subscription_isLate p s3))"
    unfolding UA_Subscription_publishOnce_def Let_def us dequeued_def [of p s, unfolded us, symmetric] d prod.case
      s2_def [symmetric] k_def [symmetric] s3_def [symmetric]
    by (simp add: requeue_def sendStatusChangeDelete_def u2)
  have pub: "UA_Subscription_publish p s = Some (snd (UA_Subscription_publishOnce p s))"
    by (simp add: UA_Subscription_publish.simps [of p s] Let_def once)
  have bad: "(sub_statusChange u1 \<noteq> GOOD) = (sub_statusChange u \<noteq> GOOD \<or> ?expired)"
    by (simp add: u1_def status_defs)
  have u1: "kept_fields u u1" "sub_currentLifetimeCount u1 = sub_currentLifetimeCount u + 1"
    by (simp_all add: kept_fields_def u1_def retrans_of_def)
  show ?thesis
  proof (cases "sub_statusChange u1 = GOOD")
    case False
    then show ?thesis using u1 bad by (intro exI [of _ u1]) (simp add: pub once s2)
  next
    case True
    define t where "t = snd (UA_Subscription_publishOnce p s)"
    have t: "t = s3 \<or> t = UA_Subscription_isLate p s3" using True by (auto simp: t_def once)
    have "\<exists>v. t = s\<lparr>srv_subs := (srv_subs s)(p \<mapsto> v)\<rparr> \<and> kept_fields u1 v \<and> sub_statusChange v = sub_statusChange u1 \<and>
        sub_currentLifetimeCount v = sub_currentLifetimeCount u1"
    proof -
      have "mod_sub p f (s\<lparr>srv_subs := (srv_subs s)(p \<mapsto> w)\<rparr>) = s\<lparr>srv_subs := (srv_subs s)(p \<mapsto> f w)\<rparr>" for f w
        by (simp add: mod_sub_def upd_at_def)
      then show ?thesis using t unfolding s3_def UA_Subscription_isLate_def s2
        by (auto simp: kept_fields_def retrans_of_def split: if_splits)
    qed
    then obtain v where "t = s\<lparr>srv_subs := (srv_subs s)(p \<mapsto> v)\<rparr>" "kept_fields u1 v" "sub_statusChange v = GOOD"
        "sub_currentLifetimeCount v = sub_currentLifetimeCount u + 1"
      using True u1(2) by auto
    then show ?thesis using True u1(1) bad
      by (intro exI [of _ v]) (simp add: pub kept_fields_def flip: t_def)
  qed
qed

lemma unserved_round:
  assumes "unserved s a p u"
  shows "if sub_currentLifetimeCount u + 1 > sub_lifeTimeCount u
    then \<exists>t. UA_Subscription_sampleAndPublish rd changed p s = Some (UA_Subscription_delete p t) \<and>
      sessions_ok t \<and> (\<exists>v. srv_subs t p = Some v)
    else \<exists>t v. UA_Subscription_sampleAndPublish rd changed p s = Some t \<and> unserved t a p v \<and> srv_sessions t = srv_sessions s \<and>
      sub_currentLifetimeCount v = sub_currentLifetimeCount u + 1 \<and> sub_lifeTimeCount v = sub_lifeTimeCount u"
proof -
  obtain x where x: "sessions_ok s" "a \<noteq> 0" "srv_subs s p = Some u" "sub_session u = a" "sub_samplingMonitoredItems u = []"
      "sub_statusChange u = GOOD" "srv_sessions s a = Some x" "ses_responseQueue x = []"
    using assms by (auto simp: unserved_def)
  have samp: "UA_Subscription_sampleAndPublish rd changed p s = UA_Subscription_publish p s"
    using x(3,5) by (simp add: UA_Subscription_sampleAndPublish_def the_sub_def)
  obtain v where v: "kept_fields u v" "sub_currentLifetimeCount v = sub_currentLifetimeCount u + 1"
    "if sub_statusChange u \<noteq> GOOD \<or> sub_currentLifetimeCount u + 1 > sub_lifeTimeCount u
     then UA_Subscription_publish p s = Some (UA_Subscription_delete p (s\<lparr>srv_subs := (srv_subs s)(p \<mapsto> v)\<rparr>))
     else UA_Subscription_publish p s = Some (s\<lparr>srv_subs := (srv_subs s)(p \<mapsto> v)\<rparr>) \<and> sub_statusChange v = GOOD"
    using idle_round [OF x(3,4,2,7,8)] by blast
  define t where "t = s\<lparr>srv_subs := (srv_subs s)(p \<mapsto> v)\<rparr>"
  have "subs_view t = subs_view s" using v(1) x(3) by (auto simp: t_def subs_view_def kept_fields_def fun_eq_iff)
  then have "same_tables s t" by (simp add: same_tables_def t_def)
  then have ok: "sessions_ok t" using same_tables_ok x(1) by blast
  show ?thesis
  proof (cases "sub_currentLifetimeCount u + 1 > sub_lifeTimeCount u")
    case True
    have "srv_subs t p = Some v" by (simp add: t_def)
    then show ?thesis using True ok v(3) [folded t_def] by (auto simp: samp)
  next
    case False
    then have "UA_Subscription_publish p s = Some t" "sub_statusChange v = GOOD" using v(3) x(6) by (simp_all add: t_def)
    moreover from this have "unserved t a p v" using ok x v(1) by (simp add: unserved_def t_def kept_fields_def)
    ultimately have "UA_Subscription_sampleAndPublish rd changed p s = Some t \<and> unserved t a p v \<and> srv_sessions t = srv_sessions s \<and>
        sub_currentLifetimeCount v = sub_currentLifetimeCount u + 1 \<and> sub_lifeTimeCount v = sub_lifeTimeCount u"
      using v(1,2) by (simp add: samp t_def kept_fields_def)
    then show ?thesis using False by auto
  qed
qed

lemma unserved_cycles:
  assumes "unserved s a p u" "unat (sub_currentLifetimeCount u) + k \<le> unat (sub_lifeTimeCount u)"
    "unat (sub_lifeTimeCount u) + 1 < 2 ^ 32"
  shows "\<exists>t v. publish_cycles rd changed k p s = Some t \<and> unserved t a p v \<and> srv_sessions t = srv_sessions s \<and>
    unat (sub_currentLifetimeCount v) = unat (sub_currentLifetimeCount u) + k \<and> sub_lifeTimeCount v = sub_lifeTimeCount u"
  using assms
proof (induction k arbitrary: s u)
  case (Suc k)
  have c: "unat (sub_currentLifetimeCount u + 1) = unat (sub_currentLifetimeCount u) + 1"
    using Suc.prems(2,3) by (simp add: unat_word_ariths)
  then have "\<not> sub_currentLifetimeCount u + 1 > sub_lifeTimeCount u" using Suc.prems(2) by (simp add: word_less_nat_alt)
  then obtain t v where t: "UA_Subscription_sampleAndPublish rd changed p s = Some t" "unserved t a p v"
      "srv_sessions t = srv_sessions s" "sub_currentLifetimeCount v = sub_currentLifetimeCount u + 1"
      "sub_lifeTimeCount v = sub_lifeTimeCount u"
    using unserved_round [OF Suc.prems(1), of rd changed] by auto
  have "unat (sub_currentLifetimeCount v) + k \<le> unat (sub_lifeTimeCount v)" using t(4,5) c Suc.prems(2) by simp
  from Suc.IH [OF t(2) this] t c Suc.prems(3) show ?case by auto
qed auto

text \<open>
  C17: A subscription whose client has gone ends. While the session has no publish request, the cyclic
  callback runs once in every publishing interval; the subscription stays in the session for as many cycles
  as are left of its lifetime, and the cycle after these deletes it: it belongs to no session any more.
  (No item of the subscription is sampled with the publishing, so that the cycles do nothing else, and its
  lifetime is below the maximum of its type.)
\<close>

theorem lifetime_expires:
  assumes "unserved s a p u" "sub_currentLifetimeCount u \<le> sub_lifeTimeCount u" "sub_lifeTimeCount u \<noteq> - 1"
    and "left = unat (sub_lifeTimeCount u) - unat (sub_currentLifetimeCount u)"
  shows "(\<forall>k \<le> left. \<exists>t v. publish_cycles rd changed k p s = Some t \<and> unserved t a p v \<and>
      p \<in> set (ses_subscriptions (the_ses t a))) \<and>
    (\<exists>t. publish_cycles rd changed (left + 1) p s = Some t \<and> sub_session (the_sub t p) = 0 \<and>
      p \<notin> set (ses_subscriptions (the_ses t a)))"
proof -
  have max: "unat (sub_lifeTimeCount u) + 1 < 2 ^ 32"
  proof -
    have "sub_lifeTimeCount u < - 1" using assms(3) by (simp add: word_order.not_eq_extremum)
    then show ?thesis by (simp add: word_less_nat_alt unsigned_minus_1_eq_mask mask_eq_exp_minus_1)
  qed
  have le: "unat (sub_currentLifetimeCount u) \<le> unat (sub_lifeTimeCount u)" using assms(2) by (simp add: word_le_nat_alt)
  have run: "\<exists>t v. publish_cycles rd changed k p s = Some t \<and> unserved t a p v \<and> srv_sessions t = srv_sessions s \<and>
      unat (sub_currentLifetimeCount v) = unat (sub_currentLifetimeCount u) + k \<and> sub_lifeTimeCount v = sub_lifeTimeCount u"
    if "k \<le> left" for k
    by (rule unserved_cycles [OF assms(1) _ max]) (use that assms(4) le in simp)
  have listed: "p \<in> set (ses_subscriptions (the_ses t a))" if "unserved t a p v" for t v
    using that sub_entryD(4) [of t p v] by (auto simp: unserved_def the_ses_def)
  obtain t v where t: "publish_cycles rd changed left p s = Some t" "unserved t a p v"
      "unat (sub_currentLifetimeCount v) = unat (sub_currentLifetimeCount u) + left" "sub_lifeTimeCount v = sub_lifeTimeCount u"
    using run [OF order_refl] by blast
  have "unat (sub_currentLifetimeCount v + 1) = unat (sub_lifeTimeCount v) + 1"
    using t(3,4) assms(4) le max by (simp add: unat_word_ariths)
  then have "sub_currentLifetimeCount v + 1 > sub_lifeTimeCount v" by (simp add: word_less_nat_alt)
  then obtain t' w where t': "UA_Subscription_sampleAndPublish rd changed p t = Some (UA_Subscription_delete p t')"
      "sessions_ok t'" "srv_subs t' p = Some w"
    using unserved_round [OF t(2), of rd changed] by auto
  define z where "z = UA_Subscription_delete p t'"
  have live: "srv_subs t' p \<noteq> None" using t'(3) by simp
  note d = ok_delete [OF t'(2) live, folded z_def]
  have more: "publish_cycles rd changed (left + 1) p s = Some z"
  proof -
    have cyc: "publish_cycles rd changed (k + j) p s = (case publish_cycles rd changed k p s of None \<Rightarrow> None
        | Some t \<Rightarrow> publish_cycles rd changed j p t)" for k j s
      by (induction k arbitrary: s) (auto split: option.splits)
    have "publish_cycles rd changed 1 p t = Some z" using t'(1) by (simp add: z_def)
    then show ?thesis using cyc [of left 1 s] t(1) by (simp only: option.case)
  qed
  obtain y where y: "srv_subs z p = Some y" "sub_session y = 0" using d(4) by blast
  have "p \<notin> set (ses_subscriptions (the_ses z a))"
  proof
    assume p: "p \<in> set (ses_subscriptions (the_ses z a))"
    have "srv_sessions t a \<noteq> None" using t(2) by (auto simp: unserved_def)
    moreover have "tables_step t z" using sampleAndPublish_ends [of t p rd changed] t(2) t'(1) by (auto simp: unserved_def z_def)
    ultimately obtain x where x: "srv_sessions z a = Some x" using tables_stepD(2) by fastforce
    then show False using ses_entryD(1) [OF d(1) x] ses_entryD(6) [OF d(1) x, of p] p y by (auto simp: the_ses_def)
  qed
  moreover have "\<exists>t v. publish_cycles rd changed k p s = Some t \<and> unserved t a p v \<and> p \<in> set (ses_subscriptions (the_ses t a))"
    if "k \<le> left" for k using run [OF that] listed by blast
  ultimately show ?thesis using more y by (auto simp: the_sub_def)
qed


lemma lifetime_expires_witness:
  "\<exists>t. publish_cycles (\<lambda>s i. UA_DataValue_init) (\<lambda>i v. True) 101 5 demo_subscribed = Some t \<and> sub_session (the_sub t 5) = 0"
proof -
  obtain u where u: "srv_subs demo_subscribed 5 = Some u" "sub_session u = 1" "sub_samplingMonitoredItems u = []"
      "sub_statusChange u = GOOD" "sub_currentLifetimeCount u = 0" "sub_lifeTimeCount u = 100"
    by (simp add: demo_eval)
  have "\<exists>x. srv_sessions demo_subscribed 1 = Some x \<and> ses_responseQueue x = []" by (simp add: demo_eval)
  then have "unserved demo_subscribed 1 5 u"
    using u server_reachable_ok [OF demo_reachable] by (simp add: unserved_def)
  from lifetime_expires [OF this _ _ refl, of "\<lambda>s i. UA_DataValue_init" "\<lambda>i v. True"] u(5,6) show ?thesis by auto
qed

section \<open>A transferred subscription\<close>

lemma delete_idle:
  assumes v: "srv_subs s p = Some v" "sub_monitoredItems v = []" "sub_session v = b" "b \<noteq> 0" "0 < sub_publishCallbackId v"
    and x: "srv_sessions s b = Some x" "ses_responseQueue x = []"
  shows "srv_timer (UA_Subscription_delete p s) = srv_timer (delayed_free p (removeCallback (sub_publishCallbackId v) s))"
    "q \<noteq> p \<Longrightarrow> srv_subs (UA_Subscription_delete p s) q = srv_subs s q"
    "map_option ses_responseQueue (srv_sessions (UA_Subscription_delete p s) c) = map_option ses_responseQueue (srv_sessions s c)"
proof -
  have vt: "the_sub s p = v" using v(1) by (simp add: the_sub_def)
  define s1 where "s1 = Subscription_unregisterPublishCallback p s"
  define s2 where "s2 = (if sub_session (the_sub s1 p) \<noteq> 0
    then UA_Session_detachSubscription (sub_session (the_sub s1 p)) p True s1 else s1)"
  define s3 where "s3 = (if p \<in> set (srv_subscriptions s2)
    then s2\<lparr>srv_subscriptions := remove1 p (srv_subscriptions s2), srv_subscriptionsSize := srv_subscriptionsSize s2 - 1,
      srv_currentSubscriptionCount := srv_currentSubscriptionCount s2 - 1\<rparr> else s2)"
  define s4 where "s4 = fold UA_MonitoredItem_delete (sub_monitoredItems (the_sub s3 p)) s3"
  have d: "UA_Subscription_delete p s = delayed_free p (mod_sub p (\<lambda>u. u\<lparr>sub_retransmissionQueueSize :=
      sub_retransmissionQueueSize u - length (sub_retransmissionQueue u), sub_retransmissionQueue := []\<rparr>) s4)"
    by (simp add: UA_Subscription_delete_def Let_def s1_def s2_def s3_def s4_def)
  have s1: "s1 = mod_sub p (\<lambda>u. u\<lparr>sub_publishCallbackId := 0\<rparr>) (removeCallback (sub_publishCallbackId v) s)"
    using v(5) by (simp add: s1_def Subscription_unregisterPublishCallback_def vt)
  then have v1: "the_sub s1 p = v\<lparr>sub_publishCallbackId := 0\<rparr>" "srv_sessions s1 = srv_sessions s"
    using v(1) by (simp_all add: removeCallback_def the_sub_def mod_sub_def upd_at_def)
  have live: "srv_sessions s1 b \<noteq> None" "ses_responseQueue (the_ses s1 b) = []" using x v1(2) by (simp_all add: the_ses_def)
  then have s2: "srv_timer s2 = srv_timer s1" "srv_nowMonotonic s2 = srv_nowMonotonic s1"
      "srv_subs s2 = upd_at p (\<lambda>u. u\<lparr>sub_session := 0\<rparr>) (srv_subs s1)"
      "map_option ses_responseQueue (srv_sessions s2 c) = map_option ses_responseQueue (srv_sessions s1 c)" for c
    using v(3,4) by (simp_all add: s2_def v1(1) UA_Session_detachSubscription_def Let_def)
      (auto simp: mod_sub_def mod_ses_def upd_at_def the_ses_def)
  have "sub_monitoredItems (the_sub s3 p) = []"
    using s2(3) v1(1) v(1,2) s1 by (simp add: s3_def the_sub_def) (simp add: mod_sub_def upd_at_def removeCallback_def)
  then have s4: "s4 = s3" by (simp add: s4_def)
  show "srv_timer (UA_Subscription_delete p s) = srv_timer (delayed_free p (removeCallback (sub_publishCallbackId v) s))"
    using s2(1,2) by (simp add: d s4 delayed_free_def s3_def) (simp add: s1 mod_sub_def removeCallback_def)
  show "q \<noteq> p \<Longrightarrow> srv_subs (UA_Subscription_delete p s) q = srv_subs s q"
    using s2(3) by (simp add: d s4 delayed_free_def s3_def) (simp add: s1 mod_sub_def upd_at_def removeCallback_def)
  show "map_option ses_responseQueue (srv_sessions (UA_Subscription_delete p s) c) = map_option ses_responseQueue (srv_sessions s c)"
    using s2(4) v1(2) by (simp add: d s4 delayed_free_def s3_def)
qed


text \<open>
  A subscription of the session \<open>b\<close> that the session \<open>a\<close> may take over: it is healthy, registered with the timer,
  has no messages kept, and neither session has a queued publish request. \<open>n\<close> is the address of the copy.
\<close>

definition transferable :: "UA_Server \<Rightarrow> ptr \<Rightarrow> ptr \<Rightarrow> u32 \<Rightarrow> ptr \<Rightarrow> ptr \<Rightarrow> UA_Subscription \<Rightarrow> bool" where
  "transferable s a b i p n u =
     (UA_Server_getSubscriptionById i s = Some p \<and> srv_subs s p = Some u \<and> sub_session u = b \<and> 0 < sub_publishCallbackId u \<and>
      sub_statusChange u = GOOD \<and> sub_currentLifetimeCount u + 1 \<le> sub_lifeTimeCount u \<and> sub_retransmissionQueue u = [] \<and>
      a \<noteq> b \<and> a \<noteq> 0 \<and> b \<noteq> 0 \<and> n \<noteq> p \<and> n \<noteq> 0 \<and> (\<exists>ms. srv_mallocs s = n # ms) \<and> cfg_allowTransfer (srv_config s) b a \<and>
      (\<exists>x y. srv_sessions s b = Some x \<and> ses_responseQueue x = [] \<and> srv_sessions s a = Some y \<and> ses_responseQueue y = [] \<and>
         (cfg_maxSubscriptionsPerSession (srv_config s) = 0 \<or>
          ses_subscriptionsSize y < unat (cfg_maxSubscriptionsPerSession (srv_config s)))))"

lemma mod_mon_fold_frame:
  "srv_timer (fold (\<lambda>m. mod_mon m f) ms s) = srv_timer s" "srv_subs (fold (\<lambda>m. mod_mon m f) ms s) = srv_subs s"
  "srv_sessions (fold (\<lambda>m. mod_mon m f) ms s) = srv_sessions s"
  "srv_nowMonotonic (fold (\<lambda>m. mod_mon m f) ms s) = srv_nowMonotonic s"
  by (induction ms arbitrary: s) (simp_all add: mod_mon_def)

text \<open>The state in which the old subscription is told about its transfer.\<close>

definition moved_over :: "ptr \<Rightarrow> ptr \<Rightarrow> ptr \<Rightarrow> UA_Server \<Rightarrow> UA_Server" where
  "moved_over a p n s =
     (let s = snd (malloc s);
          s = s\<lparr>srv_subs := (srv_subs s)(n \<mapsto> the_sub s p)\<rparr>;
          s = move_subscription p n s;
          s = s\<lparr>srv_subscriptions := n # srv_subscriptions s, srv_subscriptionsSize := srv_subscriptionsSize s + 1\<rparr>;
          s = UA_Session_attachSubscription a n s
      in mod_sub p (\<lambda>u. u\<lparr>sub_statusChange := UA_STATUSCODE_GOODSUBSCRIPTIONTRANSFERRED\<rparr>) s)"

lemma transfer_moved_over:
  assumes "transferable s a b i p n u"
  shows "Operation_TransferSubscription a False i s =
    (case UA_Subscription_publish p (moved_over a p n s) of
       None \<Rightarrow> None
     | Some s \<Rightarrow> map_option (\<lambda>s. ((GOOD, []), s)) (UA_Subscription_publish n s))"
proof -
  obtain ms y where t: "UA_Server_getSubscriptionById i s = Some p" "srv_subs s p = Some u" "sub_session u = b"
      "0 < sub_publishCallbackId u" "sub_retransmissionQueue u = []" "a \<noteq> b" "n \<noteq> 0" "n \<noteq> p" "srv_mallocs s = n # ms"
      "cfg_allowTransfer (srv_config s) b a" "srv_sessions s a = Some y" "cfg_maxSubscriptionsPerSession (srv_config s) = 0 \<or>
          ses_subscriptionsSize y < unat (cfg_maxSubscriptionsPerSession (srv_config s))"
    using assms unfolding transferable_def by blast
  define s0 where "s0 = s\<lparr>srv_mallocs := ms\<rparr>"
  have m: "malloc s = (n, s0)" using t(9) by (simp add: malloc_def s0_def)
  have us: "the_sub s p = u" "the_sub s0 p = u" using t(2) by (simp_all add: the_sub_def s0_def)
  define s1 where "s1 = s0\<lparr>srv_subs := (srv_subs s0)(n \<mapsto> u)\<rparr>"
  have "sub_publishCallbackId (the_sub s1 n) = sub_publishCallbackId u" by (simp add: s1_def the_sub_def)
  then have reg: "Subscription_registerPublishCallback n s1 = (GOOD, s1)"
    using t(4) by (simp add: Subscription_registerPublishCallback_def)
  have seq: "setTransferredSequenceNumbers p s0 = ((GOOD, []), s0)"
    using t(5) by (simp add: setTransferredSequenceNumbers_def us)
  show ?thesis
    using t(3,6,7,10-12)
    by (auto simp: Operation_TransferSubscription_def t(1) Let_def us the_ses_def m seq reg moved_over_def
        simp flip: s1_def intro!: option.case_cong)
qed


lemma moved_over_facts:
  assumes "transferable s a b i p n u"
  defines "t \<equiv> moved_over a p n s"
  shows "srv_timer t = srv_timer s" "srv_nowMonotonic t = srv_nowMonotonic s"
    "\<exists>v. srv_subs t p = Some v \<and> sub_session v = b \<and> sub_publishCallbackId v = sub_publishCallbackId u \<and>
       sub_monitoredItems v = [] \<and> sub_statusChange v \<noteq> GOOD"
    "\<exists>w. srv_subs t n = Some w \<and> sub_session w = a \<and> sub_publishCallbackId w = sub_publishCallbackId u \<and>
       sub_statusChange w = GOOD \<and> sub_currentLifetimeCount w = sub_currentLifetimeCount u \<and>
       sub_lifeTimeCount w = sub_lifeTimeCount u"
    "map_option ses_responseQueue (srv_sessions t c) = map_option ses_responseQueue (srv_sessions s c)"
proof -
  obtain ms where t: "srv_subs s p = Some u" "sub_session u = b" "sub_statusChange u = GOOD" "b \<noteq> 0" "n \<noteq> p" "srv_mallocs s = n # ms"
    using assms unfolding transferable_def by blast
  note f = t_def moved_over_def move_subscription_def Let_def malloc_def t(6) UA_Session_attachSubscription_def
  show "srv_timer t = srv_timer s" by (simp add: f mod_mon_fold_frame)
  show "srv_nowMonotonic t = srv_nowMonotonic s"
    by (simp add: f) (simp add: mod_sub_def mod_ses_def mod_mon_fold_frame)
  show "map_option ses_responseQueue (srv_sessions t c) = map_option ses_responseQueue (srv_sessions s c)"
    by (simp add: f mod_mon_fold_frame) (auto simp: mod_ses_def upd_at_def mod_mon_fold_frame option.map_comp comp_def)
  have subs: "srv_subs t = (srv_subs s)(n \<mapsto> u\<lparr>sub_monitoredItems := rev (sub_monitoredItems u),
        sub_samplingStale := (sub_samplingMonitoredItems u \<noteq> []), sub_notificationQueue := sub_notificationQueue u, sub_retransmissionQueue := sub_retransmissionQueue u, sub_session := a\<rparr>,
      p \<mapsto> u\<lparr>sub_monitoredItems := [], sub_monitoredItemsSize := 0, sub_notificationQueue := [],
                sub_notificationQueueSize := 0, sub_dataChangeNotifications := 0, sub_eventNotifications := 0,
                sub_retransmissionQueue := [], sub_retransmissionQueueSize := 0,
                sub_statusChange := UA_STATUSCODE_GOODSUBSCRIPTIONTRANSFERRED\<rparr>)"
    using t(1,5) by (simp add: f the_sub_def mod_mon_fold_frame)
      (simp add: mod_sub_def upd_at_def mod_mon_fold_frame fun_upd_twist)
  show "\<exists>v. srv_subs t p = Some v \<and> sub_session v = b \<and> sub_publishCallbackId v = sub_publishCallbackId u \<and>
       sub_monitoredItems v = [] \<and> sub_statusChange v \<noteq> GOOD"
    using t(2,5) by (simp add: subs status_defs)
  show "\<exists>w. srv_subs t n = Some w \<and> sub_session w = a \<and> sub_publishCallbackId w = sub_publishCallbackId u \<and>
       sub_statusChange w = GOOD \<and> sub_currentLifetimeCount w = sub_currentLifetimeCount u \<and>
       sub_lifeTimeCount w = sub_lifeTimeCount u"
    using t(3,5) by (simp add: subs)
qed

text \<open>
  C23: A transferred subscription loses its timer. The copy for the new session has the identifier of the
  old publish callback, so no callback is registered for it, and when the old structure is deleted, that
  callback is removed. After a successful transfer the timer is the old one without the callback, while the
  subscription still carries its identifier: it is never published by the timer again.
\<close>

theorem transferred_subscription_loses_its_timer:
  assumes "transferable s a b i p n u"
  shows "\<exists>t. Operation_TransferSubscription a False i s = Some ((GOOD, []), t) \<and>
    sub_session (the_sub t n) = a \<and> sub_publishCallbackId (the_sub t n) = sub_publishCallbackId u \<and>
    srv_timer t = srv_timer (delayed_free p (removeCallback (sub_publishCallbackId u) s))"
proof -
  define m where "m = moved_over a p n s"
  note f = moved_over_facts [OF assms, folded m_def]
  obtain v where v: "srv_subs m p = Some v" "sub_session v = b" "sub_publishCallbackId v = sub_publishCallbackId u"
      "sub_monitoredItems v = []" "sub_statusChange v \<noteq> GOOD" using f(3) by blast
  obtain w where w: "srv_subs m n = Some w" "sub_session w = a" "sub_publishCallbackId w = sub_publishCallbackId u"
      "sub_statusChange w = GOOD" "sub_currentLifetimeCount w = sub_currentLifetimeCount u" "sub_lifeTimeCount w = sub_lifeTimeCount u"
    using f(4) by blast
  obtain x y where t: "a \<noteq> 0" "b \<noteq> 0" "n \<noteq> p" "0 < sub_publishCallbackId u" "srv_sessions s b = Some x" "ses_responseQueue x = []"
      "srv_sessions s a = Some y" "ses_responseQueue y = []" "sub_currentLifetimeCount u + 1 \<le> sub_lifeTimeCount u"
    using assms unfolding transferable_def by blast
  obtain x' where x': "srv_sessions m b = Some x'" "ses_responseQueue x' = []"
    using f(5) [of b] t(5,6) by auto
  obtain v' where v': "kept_fields v v'"
      "UA_Subscription_publish p m = Some (UA_Subscription_delete p (m\<lparr>srv_subs := (srv_subs m)(p \<mapsto> v')\<rparr>))"
    using idle_round [OF v(1,2) t(2) x'] v(5) by auto
  define m1 where "m1 = m\<lparr>srv_subs := (srv_subs m)(p \<mapsto> v')\<rparr>"
  define d where "d = UA_Subscription_delete p m1"
  have v1: "srv_subs m1 p = Some v'" "sub_monitoredItems v' = []" "sub_session v' = b" "sub_publishCallbackId v' = sub_publishCallbackId u"
    using v v'(1) by (simp_all add: m1_def kept_fields_def)
  have "0 < sub_publishCallbackId v'" using v1(4) t(4) by simp
  moreover have "srv_sessions m1 b = Some x'" using x'(1) by (simp add: m1_def)
  ultimately have d: "srv_timer d = srv_timer (delayed_free p (removeCallback (sub_publishCallbackId u) m1))"
      "srv_subs d n = srv_subs m1 n" "map_option ses_responseQueue (srv_sessions d c) = map_option ses_responseQueue (srv_sessions m1 c)" for c
    using delete_idle [OF v1(1-3) t(2) _ _ x'(2)] t(3) v1(4) by (simp_all add: d_def)
  have wd: "srv_subs d n = Some w" using d(2) w(1) t(3) by (simp add: m1_def)
  obtain y' where y': "srv_sessions d a = Some y'" "ses_responseQueue y' = []"
    using d(3) [of a] f(5) [of a] t(7,8) by (auto simp: m1_def)
  have "\<not> sub_currentLifetimeCount w + 1 > sub_lifeTimeCount w" using t(9) w(5,6) by simp
  then obtain w' where w': "kept_fields w w'" "UA_Subscription_publish n d = Some (d\<lparr>srv_subs := (srv_subs d)(n \<mapsto> w')\<rparr>)"
    using idle_round [OF wd w(2) t(1) y'] w(4) by auto
  have "srv_timer (delayed_free p (removeCallback k m1)) = srv_timer (delayed_free p (removeCallback k s))" for k
    using f(1,2) by (simp add: delayed_free_def removeCallback_def m1_def)
  then show ?thesis
    using transfer_moved_over [OF assms, folded m_def] v'(2) w' w(2,3) d(1)
    by (simp add: kept_fields_def the_sub_def flip: m1_def d_def)
qed

text \<open>A second session (2) takes over the subscription of the first one; the copy is at address 8.\<close>

definition demo_two :: UA_Server where
  "demo_two = demo_subscribed\<lparr>srv_sessions := (srv_sessions demo_subscribed)(2 \<mapsto> new_session 8), srv_mallocs := [8]\<rparr>"

lemma transferred_subscription_loses_its_timer_witness:
  "\<exists>t. Operation_TransferSubscription 2 False 1 demo_two = Some ((GOOD, []), t) \<and>
    sub_session (the_sub t 8) = 2 \<and> sub_publishCallbackId (the_sub t 8) = 1"
proof -
  have "transferable demo_two 2 1 1 5 8 (the_sub demo_two 5)" "sub_publishCallbackId (the_sub demo_two 5) = 1"
    by (simp_all add: transferable_def demo_two_def demo_eval UA_Server_getSubscriptionById_def has_id_def)
  then show ?thesis using transferred_subscription_loses_its_timer by fastforce
qed

section \<open>The list of the sampled items after a transfer\<close>

lemma mod_mon_fold_subscription:
  assumes "srv_monitored s m = Some i" "m \<in> set ms"
  shows "\<exists>j. srv_monitored (fold (\<lambda>m. mod_mon m (\<lambda>i. i\<lparr>mon_subscription := n\<rparr>)) ms s) m = Some j \<and>
    mon_subscription j = n \<and> mon_samplingType j = mon_samplingType i"
proof -
  let ?f = "\<lambda>ms. fold (\<lambda>m. mod_mon m (\<lambda>i. i\<lparr>mon_subscription := n\<rparr>)) ms"
  have keep: "\<exists>j. srv_monitored (?f ms s) m = Some j \<and> mon_samplingType j = mon_samplingType i \<and>
      (mon_subscription i = n \<longrightarrow> mon_subscription j = n)" if "srv_monitored s m = Some i" for s i ms
    using that
  proof (induction ms arbitrary: s i)
    case (Cons x ms)
    have "srv_monitored (mod_mon x (\<lambda>i. i\<lparr>mon_subscription := n\<rparr>) s) m =
        Some (if x = m then i\<lparr>mon_subscription := n\<rparr> else i)"
      using Cons.prems by (auto simp: mod_mon_def upd_at_def)
    from Cons.IH [OF this] show ?case by (auto split: if_splits)
  qed simp
  obtain xs ys where ms: "ms = xs @ m # ys" using assms(2) split_list by fastforce
  obtain j where j: "srv_monitored (?f xs s) m = Some j" "mon_samplingType j = mon_samplingType i"
    using keep [OF assms(1)] by blast
  have "srv_monitored (mod_mon m (\<lambda>i. i\<lparr>mon_subscription := n\<rparr>) (?f xs s)) m = Some (j\<lparr>mon_subscription := n\<rparr>)"
    using j by (simp add: mod_mon_def upd_at_def)
  from keep [OF this, of ys] j(2) show ?thesis by (auto simp: ms)
qed

text \<open>
  A transfer leaves a dangling pointer. The head of the list of the items that are sampled with the
  publishing is copied with the structure, and the first item of the list still points back to the old
  head. When this item is deleted, disabled or gets another interval, the code writes into the old
  structure, which is released after the transfer, and the item stays in the list of the new one.
\<close>

theorem transfer_leaves_dangling_pointer:
  assumes "srv_subs s p = Some u" "srv_subs s n = Some v" "n \<noteq> p" "sub_session u = 0 \<or> srv_sessions s (sub_session u) \<noteq> None"
    "sub_samplingMonitoredItems v = sub_samplingMonitoredItems u" "sub_samplingMonitoredItems u = m # ms"
    "m \<in> set (sub_monitoredItems u)" "srv_monitored s m = Some i" "mon_samplingType i = UA_MONITOREDITEMSAMPLINGTYPE_PUBLISH"
  shows "srv_undefined (UA_MonitoredItem_unregisterSampling m (move_subscription p n s))"
proof -
  obtain j where j: "srv_monitored (fold (\<lambda>m. mod_mon m (\<lambda>i. i\<lparr>mon_subscription := n\<rparr>)) (sub_monitoredItems u)
      (mod_sub n (\<lambda>v. v\<lparr>sub_monitoredItems := rev (sub_monitoredItems u)\<rparr>) s)) m = Some j"
    "mon_subscription j = n" "mon_samplingType j = UA_MONITOREDITEMSAMPLINGTYPE_PUBLISH"
    using mod_mon_fold_subscription [OF _ assms(7), of "mod_sub n (\<lambda>v. v\<lparr>sub_monitoredItems := rev (sub_monitoredItems u)\<rparr>) s" i n]
      assms(8,9) by (auto simp: mod_sub_def)
  define t where "t = move_subscription p n s"
  have mon: "the_mon t m = j"
    using j(1) assms(1) by (simp add: t_def move_subscription_def Let_def the_mon_def the_sub_def mod_ses_def mod_sub_def)
  have sub: "sub_samplingStale (the_sub t n)" "sub_samplingMonitoredItems (the_sub t n) = m # ms"
    using assms(1,2,3,5,6)
    by (simp_all add: t_def move_subscription_def Let_def the_sub_def mod_ses_def)
      (simp_all add: mod_sub_def upd_at_def mod_mon_fold_frame)
  show ?thesis
    unfolding t_def [symmetric]
    using sub by (simp add: UA_MonitoredItem_unregisterSampling_def Let_def mon j(2,3) first_def)
      (simp add: mod_sub_def mod_mon_def)
qed

end
