(* ===== verification/Value_Comparison.thy ===== *)
theory Value_Comparison
  imports Value_Order Binary_Typed
begin

text \<open>
  The laws of a three-valued comparison (\<open>comparison\<close>): it is defined on the values it is for, turning
  the arguments round turns the result round, and results in the same direction compose. The locale
  states the contract of \<^verbatim>\<open>UA_order\<close>; the lemmas of this theory show that the ways in which the code
  combines comparisons keep it, and that it holds for numbers, strings, guids and node ids.
\<close>

section \<open>The contract\<close>

fun flip :: "UA_Order \<Rightarrow> UA_Order" where
  "flip UA_ORDER_LESS = UA_ORDER_MORE"
| "flip UA_ORDER_EQ = UA_ORDER_EQ"
| "flip UA_ORDER_MORE = UA_ORDER_LESS"

lemma flip_flip [simp]: "flip (flip r) = r"
  by (cases r) simp_all

lemma flip_EQ [simp]: "(flip r = UA_ORDER_EQ) = (r = UA_ORDER_EQ)" "(UA_ORDER_EQ = flip r) = (r = UA_ORDER_EQ)"
  by (cases r; simp)+

definition agree :: "UA_Order \<Rightarrow> UA_Order \<Rightarrow> bool" where
  "agree r r' = (r = UA_ORDER_EQ \<or> r' = UA_ORDER_EQ \<or> r = r')"

locale comparison =
  fixes P :: "'a \<Rightarrow> bool" and c :: "'a \<Rightarrow> 'a \<Rightarrow> UA_Order option"
  assumes defined: "P x \<Longrightarrow> P y \<Longrightarrow> \<exists>r. c x y = Some r"
    and turned: "P x \<Longrightarrow> P y \<Longrightarrow> c y x = map_option flip (c x y)"
    and chain: "P x \<Longrightarrow> P y \<Longrightarrow> P z \<Longrightarrow> c x y = Some r \<Longrightarrow> c y z = Some r' \<Longrightarrow> agree r r' \<Longrightarrow>
      c x z = Some (or_else r r')"
begin

lemma reflexive: "P x \<Longrightarrow> c x x = Some UA_ORDER_EQ"
proof -
  assume x: "P x"
  obtain r where r: "c x x = Some r" using defined [OF x x] by blast
  have "c x x = map_option flip (c x x)" by (rule turned [OF x x])
  then have "flip r = r" using r by simp
  with r show ?thesis by (cases r) simp_all
qed

lemma equal_first: "P x \<Longrightarrow> P y \<Longrightarrow> P z \<Longrightarrow> c x y = Some UA_ORDER_EQ \<Longrightarrow> c x z = c y z"
  using chain [of x y z UA_ORDER_EQ] defined [of y z] by (auto simp: agree_def or_else_def)

lemma transitive: "P x \<Longrightarrow> P y \<Longrightarrow> P z \<Longrightarrow> c x y = Some r \<Longrightarrow> c y z = Some r \<Longrightarrow> c x z = Some r"
  using chain [of x y z r r] by (auto simp: agree_def or_else_def)

end

section \<open>Combinations\<close>

lemma comparison_cong:
  assumes "comparison P c" "\<And>x y. P x \<Longrightarrow> P y \<Longrightarrow> d x y = c x y"
  shows "comparison P d"
proof -
  note defined = comparison.defined [OF assms(1)]
  note turned = comparison.turned [OF assms(1)]
  note chain = comparison.chain [OF assms(1)]
  show ?thesis
  proof
    fix x y assume P: "P x" "P y"
    show "\<exists>r. d x y = Some r" using defined [OF P] assms(2) [OF P] by simp
    show "d y x = map_option flip (d x y)" unfolding assms(2) [OF P] assms(2) [OF P(2,1)] by (rule turned [OF P])
  next
    fix x y z r r'
    assume P: "P x" "P y" "P z" and d: "d x y = Some r" "d y z = Some r'" and a: "agree r r'"
    show "d x z = Some (or_else r r')"
      using chain [OF P _ _ a] d P by (simp add: assms(2))
  qed
qed

lemma comparison_weaken: "comparison P c \<Longrightarrow> (\<And>x. Q x \<Longrightarrow> P x) \<Longrightarrow> comparison Q c"
proof -
  assume c: "comparison P c" and PQ: "\<And>x. Q x \<Longrightarrow> P x"
  note defined = comparison.defined [OF c]
  note turned = comparison.turned [OF c]
  note chain = comparison.chain [OF c]
  show "comparison Q c"
    by unfold_locales (rule defined turned chain; (rule PQ)?; assumption)+
qed

lemma comparison_const [intro]: "comparison P (\<lambda>x y. Some UA_ORDER_EQ)"
  by unfold_locales (auto simp: or_else_def)

text \<open>Values that are a constructor applied to what is compared.\<close>

lemma comparison_via:
  assumes "comparison Q c" "\<And>x. P x \<Longrightarrow> Q (k x)" "\<And>x y. P x \<Longrightarrow> P y \<Longrightarrow> d x y = c (k x) (k y)"
  shows "comparison P d"
proof -
  note defined = comparison.defined [OF assms(1)]
  note turned = comparison.turned [OF assms(1)]
  note chain = comparison.chain [OF assms(1)]
  show ?thesis
  proof
    fix x y assume P: "P x" "P y"
    then have Q: "Q (k x)" "Q (k y)" by (simp_all add: assms(2))
    show "\<exists>r. d x y = Some r" using defined [OF Q] assms(3) [OF P] by simp
    show "d y x = map_option flip (d x y)" unfolding assms(3) [OF P] assms(3) [OF P(2,1)] by (rule turned [OF Q])
  next
    fix x y z r r'
    assume P: "P x" "P y" "P z" and d: "d x y = Some r" "d y z = Some r'" and a: "agree r r'"
    have Q: "Q (k x)" "Q (k y)" "Q (k z)" by (simp_all add: assms(2) P)
    show "d x z = Some (or_else r r')"
      using chain [OF Q _ _ a] d assms(3) [OF P(1,2)] assms(3) [OF P(2,3)] assms(3) [OF P(1,3)] by simp
  qed
qed

text \<open>\<^verbatim>\<open>if(a != b) return (a < b) ? LESS : MORE;\<close> followed by a comparison of values with equal keys.\<close>

lemma comparison_key:
  fixes key :: "'a \<Rightarrow> 'k::linorder"
  assumes "\<And>a. comparison (\<lambda>x. P x \<and> key x = a) c"
  shows "comparison P (\<lambda>x y. if key x \<noteq> key y then Some (if key x < key y then UA_ORDER_LESS else UA_ORDER_MORE)
                             else c x y)"
proof
  fix x y assume xy: "P x" "P y"
  note defined = comparison.defined [OF assms [of "key x"]]
  note turned = comparison.turned [OF assms [of "key x"]]
  note chain = comparison.chain [OF assms [of "key x"]]
  show "\<exists>r. (if key x \<noteq> key y then Some (if key x < key y then UA_ORDER_LESS else UA_ORDER_MORE) else c x y) = Some r"
  proof (cases "key x = key y")
    case True
    then have "P x \<and> key x = key x" "P y \<and> key y = key x" using xy by auto
    from defined [OF this] True show ?thesis by (simp only: not_True_eq_False if_False simp_thms)
  qed simp
  show "(if key y \<noteq> key x then Some (if key y < key x then UA_ORDER_LESS else UA_ORDER_MORE) else c y x) =
      map_option flip (if key x \<noteq> key y then Some (if key x < key y then UA_ORDER_LESS else UA_ORDER_MORE) else c x y)"
  proof (cases "key x = key y")
    case True
    then have "c y x = map_option flip (c x y)" using xy by (intro turned) simp_all
    with True show ?thesis by (simp only: not_True_eq_False if_False simp_thms)
  qed auto
next
  fix x y z r r'
  assume xyz: "P x" "P y" "P z"
    and 1: "(if key x \<noteq> key y then Some (if key x < key y then UA_ORDER_LESS else UA_ORDER_MORE) else c x y) = Some r"
    and 2: "(if key y \<noteq> key z then Some (if key y < key z then UA_ORDER_LESS else UA_ORDER_MORE) else c y z) = Some r'"
    and a: "agree r r'"
  note defined = comparison.defined [OF assms [of "key x"]]
  note turned = comparison.turned [OF assms [of "key x"]]
  note chain = comparison.chain [OF assms [of "key x"]]
  show "(if key x \<noteq> key z then Some (if key x < key z then UA_ORDER_LESS else UA_ORDER_MORE) else c x z) =
      Some (or_else r r')"
  proof (cases "key x = key y \<and> key y = key z")
    case True
    then have "P x \<and> key x = key x" "P y \<and> key y = key x" "P z \<and> key z = key x" using xyz by auto
    moreover have "c x y = Some r" "c y z = Some r'" using True 1 2 by (simp_all split: if_splits)
    ultimately have "c x z = Some (or_else r r')" using a by (rule chain)
    with True show ?thesis by (simp only: not_True_eq_False if_False simp_thms)
  next
    case False
    then show ?thesis using 1 2 a by (auto simp: agree_def or_else_def split: if_splits)
  qed
qed

lemma comparison_next:
  assumes "comparison P c" "comparison P d"
  shows "comparison P (\<lambda>x y. or_next (c x y) (d x y))"
proof -
  note c_defined = comparison.defined [OF assms(1)]
  note c_turned = comparison.turned [OF assms(1)]
  note c_chain = comparison.chain [OF assms(1)]
  note d_defined = comparison.defined [OF assms(2)]
  note d_turned = comparison.turned [OF assms(2)]
  note d_chain = comparison.chain [OF assms(2)]
  show ?thesis
  proof
    fix x y assume xy: "P x" "P y"
    obtain r r' where r: "c x y = Some r" "d x y = Some r'" using c_defined d_defined xy by meson
    show "\<exists>r. or_next (c x y) (d x y) = Some r" using r by (auto simp: or_next_def)
    show "or_next (c y x) (d y x) = map_option flip (or_next (c x y) (d x y))"
      using c_turned [OF xy] d_turned [OF xy] r by (auto simp: or_next_def)
  next
    fix x y z r r'
    assume xyz: "P x" "P y" "P z" and 1: "or_next (c x y) (d x y) = Some r"
      and 2: "or_next (c y z) (d y z) = Some r'" and a: "agree r r'"
    obtain a1 a2 where c: "c x y = Some a1" "c y z = Some a2" using c_defined xyz by meson
    obtain b1 b2 where d: "d x y = Some b1" "d y z = Some b2" using d_defined xyz by meson
    have ca: "agree a1 a2" using a 1 2 c d by (auto simp: agree_def or_next_def split: if_splits)
    have cz: "c x z = Some (or_else a1 a2)" by (rule c_chain [OF xyz c ca])
    show "or_next (c x z) (d x z) = Some (or_else r r')"
    proof (cases "a1 = UA_ORDER_EQ \<and> a2 = UA_ORDER_EQ")
      case True
      then have "r = b1" "r' = b2" using 1 2 c d by (auto simp: or_next_def)
      then show ?thesis using d_chain [OF xyz d] a cz True by (simp add: or_next_def or_else_def)
    next
      case False
      then show ?thesis using cz 1 2 c d a ca by (auto simp: or_next_def or_else_def agree_def split: if_splits)
    qed
  qed
qed

lemma comparison_flagged:
  assumes "comparison P f"
  shows "comparison (\<lambda>x. case x of None \<Rightarrow> True | Some v \<Rightarrow> P v) (flaggedOrder f)"
proof -
  note defined = comparison.defined [OF assms]
  note turned = comparison.turned [OF assms]
  note chain = comparison.chain [OF assms]
  show ?thesis
  proof
    fix x y :: "'a option"
    assume P: "case x of None \<Rightarrow> True | Some v \<Rightarrow> P v" "case y of None \<Rightarrow> True | Some v \<Rightarrow> P v"
    show "\<exists>r. flaggedOrder f x y = Some r"
      using P by (cases x; cases y) (simp_all add: flaggedOrder_def defined)
    have t: "f b a = map_option flip (f a b)" if "x = Some a" "y = Some b" for a b
      using P that by (intro turned) simp_all
    show "flaggedOrder f y x = map_option flip (flaggedOrder f x y)"
    proof (cases "x = None \<or> y = None")
      case True
      then show ?thesis by (auto simp: flaggedOrder_def split: option.splits)
    next
      case False
      then obtain a b where "x = Some a" "y = Some b" by auto
      with t [OF this] show ?thesis by (simp add: flaggedOrder_def)
    qed
  next
    fix x y z :: "'a option" and r r'
    assume P: "case x of None \<Rightarrow> True | Some v \<Rightarrow> P v" "case y of None \<Rightarrow> True | Some v \<Rightarrow> P v"
      "case z of None \<Rightarrow> True | Some v \<Rightarrow> P v"
      and r: "flaggedOrder f x y = Some r" "flaggedOrder f y z = Some r'" and a: "agree r r'"
    show "flaggedOrder f x z = Some (or_else r r')"
    proof (cases "x = None \<or> y = None \<or> z = None")
      case True
      then show ?thesis using r a
        by (auto simp: flaggedOrder_def agree_def or_else_def split: option.splits)
    next
      case False
      then obtain u v w where uvw: "x = Some u" "y = Some v" "z = Some w" by auto
      then have "f u w = Some (or_else r r')"
        using P r a by (intro chain [of u v w]) (simp_all add: flaggedOrder_def)
      then show ?thesis using uvw by (simp add: flaggedOrder_def)
    qed
  qed
qed

lemma comparison_elems:
  assumes "comparison P f"
  shows "comparison (\<lambda>xs. (\<forall>v \<in> set xs. P v) \<and> length xs = n) (elemsOrder f)"
proof (induction n)
  case 0
  show ?case by unfold_locales (auto simp: or_else_def)
next
  case (Suc n)
  let ?P = "\<lambda>xs. (\<forall>v \<in> set xs. P v) \<and> length xs = Suc n"
  have ne: "xs = hd xs # tl xs" "P (hd xs)" "(\<forall>v \<in> set (tl xs). P v) \<and> length (tl xs) = n" if "?P xs" for xs
    using that by (cases xs; simp)+
  have hd: "comparison ?P (\<lambda>xs ys. f (hd xs) (hd ys))"
    using comparison_via [OF assms, where P = ?P and k = hd and d = "\<lambda>xs ys. f (hd xs) (hd ys)"] ne(2) by simp
  have tl: "comparison ?P (\<lambda>xs ys. elemsOrder f (tl xs) (tl ys))"
    using comparison_via [OF Suc.IH, where P = ?P and k = tl and d = "\<lambda>xs ys. elemsOrder f (tl xs) (tl ys)"] ne(3)
    by simp
  show ?case
  proof (rule comparison_cong [OF comparison_next [OF hd tl]])
    fix xs ys assume "?P xs" "?P ys"
    then show "elemsOrder f xs ys = or_next (f (hd xs) (hd ys)) (elemsOrder f (tl xs) (tl ys))"
      by (cases xs; cases ys) simp_all
  qed
qed

lemma comparison_array:
  assumes "comparison P f"
  shows "comparison (\<lambda>a. case a of None \<Rightarrow> True | Some xs \<Rightarrow> \<forall>v \<in> set xs. P v) (arrayOrder f)"
  unfolding arrayOrder_def
proof (rule comparison_key)
  fix n
  have "comparison (\<lambda>a. case a of None \<Rightarrow> True | Some xs \<Rightarrow> (\<forall>v \<in> set xs. P v) \<and> length xs = n)
          (flaggedOrder (elemsOrder f))"
    using comparison_flagged [OF comparison_elems [OF assms, of n]] .
  then have "comparison (\<lambda>a. (case a of None \<Rightarrow> True | Some xs \<Rightarrow> \<forall>v \<in> set xs. P v) \<and> array_length a = n)
          (flaggedOrder (elemsOrder f))"
    by (rule comparison_weaken) (auto split: option.splits)
  then show "comparison (\<lambda>a. (case a of None \<Rightarrow> True | Some xs \<Rightarrow> \<forall>v \<in> set xs. P v) \<and> array_length a = n)
      (\<lambda>p1 p2. case (p1, p2) of (None, None) \<Rightarrow> Some UA_ORDER_EQ | (None, Some x) \<Rightarrow> Some UA_ORDER_LESS
         | (Some x, None) \<Rightarrow> Some UA_ORDER_MORE | (Some xs, Some ys) \<Rightarrow> elemsOrder f xs ys)"
    unfolding flaggedOrder_def .
qed

section \<open>Numbers\<close>

lemma comparison_numeric:
  fixes k :: "'a \<Rightarrow> 'k::linorder"
  shows "comparison P (\<lambda>x y. Some (UA_NUMERICORDER (k x) (k y)))"
  by unfold_locales (auto simp: UA_NUMERICORDER_def agree_def or_else_def split: if_splits)

lemma float_chain:
  "agree (UA_FLOATORDER a b) (UA_FLOATORDER b c) \<Longrightarrow>
   UA_FLOATORDER a c = or_else (UA_FLOATORDER a b) (UA_FLOATORDER b c)"
  by (cases a; cases b; cases c)
     (auto simp: UA_FLOATORDER_def ieee_eq_def agree_def or_else_def split: if_splits)

lemma float_turned: "UA_FLOATORDER b a = flip (UA_FLOATORDER a b)"
  by (cases a; cases b) (auto simp: UA_FLOATORDER_def ieee_eq_def)

lemma comparison_ieee: "comparison P (\<lambda>x y. Some (UA_FLOATORDER (k x) (k y)))"
proof
  fix x y
  show "Some (UA_FLOATORDER (k y) (k x)) = map_option flip (Some (UA_FLOATORDER (k x) (k y)))"
    using float_turned [of "k y" "k x"] by simp
next
  fix x y z r r'
  assume "Some (UA_FLOATORDER (k x) (k y)) = Some r" "Some (UA_FLOATORDER (k y) (k z)) = Some r'" "agree r r'"
  then show "Some (UA_FLOATORDER (k x) (k z)) = Some (or_else r r')" using float_chain [of "k x" "k y" "k z"] by simp
qed simp

section \<open>Strings, guids and node ids\<close>

text \<open>The result of \<^verbatim>\<open>memcmp\<close>, as the code turns it into an order.\<close>

definition memcmp_order :: "u8 list \<Rightarrow> u8 list \<Rightarrow> UA_Order" where
  "memcmp_order d1 d2 =
     (let cmp = memcmp d1 d2
      in if cmp \<noteq> 0 then if cmp < 0 then UA_ORDER_LESS else UA_ORDER_MORE else UA_ORDER_EQ)"

lemma memcmp_elems:
  "length d1 = length d2 \<Longrightarrow> Some (memcmp_order d1 d2) = elemsOrder (\<lambda>x y. Some (UA_NUMERICORDER x y)) d1 d2"
  by (induction d1 d2 rule: list_induct2) (auto simp: memcmp_order_def or_next_def UA_NUMERICORDER_def Let_def)

lemma comparison_memcmp:
  assumes "\<And>x. P x \<Longrightarrow> length (k x) = n"
  shows "comparison P (\<lambda>x y. Some (memcmp_order (k x) (k y)))"
  by (rule comparison_via [OF comparison_elems [OF comparison_numeric [of "\<lambda>x. True" "\<lambda>x. x"], of n], where k = k])
     (auto simp: assms memcmp_elems)

lemma memcmp_order_EQ: "length d1 = length d2 \<Longrightarrow> memcmp_order d1 d2 = UA_ORDER_EQ \<longleftrightarrow> d1 = d2"
  by (induction d1 d2 rule: list_induct2) (auto simp: memcmp_order_def Let_def split: if_splits)

lemma comparison_string: "comparison P (\<lambda>x y. Some (stringOrder (k x) (k y)))"
proof -
  have "comparison (\<lambda>x. P x \<and> string_length (k x) = n)
          (\<lambda>x y. flaggedOrder (\<lambda>a b. Some (memcmp_order a b)) (k x) (k y))" for n
    by (rule comparison_via [OF comparison_flagged [OF comparison_memcmp
          [of "\<lambda>a. length a = n" "\<lambda>a. a" n]], where k = k]) (auto split: option.splits)
  from comparison_key [where P = P and key = "\<lambda>x. string_length (k x)", OF this]
  show ?thesis
    by (rule comparison_cong)
       (auto simp: stringOrder_def flaggedOrder_def memcmp_order_def Let_def split: option.splits)
qed

lemma stringOrder_EQ: "stringOrder s1 s2 = UA_ORDER_EQ \<longleftrightarrow> s1 = s2"
  by (cases s1; cases s2)
     (auto simp: stringOrder_def simp flip: memcmp_order_def dest: memcmp_order_EQ [THEN iffD1, rotated]
      simp: memcmp_order_EQ)

lemma comparison_guid: "comparison P (\<lambda>x y. Some (guidOrder (k x) (k y)))"
proof -
  have "comparison P (\<lambda>x y. or_next (Some (UA_NUMERICORDER (data1 (k x)) (data1 (k y))))
     (or_next (Some (UA_NUMERICORDER (data2 (k x)) (data2 (k y))))
     (or_next (Some (UA_NUMERICORDER (data3 (k x)) (data3 (k y))))
        (Some (memcmp_order (guid_data4 (k x)) (guid_data4 (k y)))))))"
    by (intro comparison_next comparison_numeric comparison_memcmp [where n = 8]) simp
  then show ?thesis
    by (rule comparison_cong) (auto simp: guidOrder_def or_next_def UA_NUMERICORDER_def memcmp_order_def Let_def)
qed

lemma guidOrder_EQ:
  "guidOrder g1 g2 = UA_ORDER_EQ \<longleftrightarrow> guid_bytes g1 = guid_bytes g2"
proof -
  have "guidOrder g1 g2 = UA_ORDER_EQ \<longleftrightarrow>
      data1 g1 = data1 g2 \<and> data2 g1 = data2 g2 \<and> data3 g1 = data3 g2 \<and> guid_data4 g1 = guid_data4 g2"
    using memcmp_order_EQ [of "guid_data4 g1" "guid_data4 g2"]
    by (auto simp: guidOrder_def memcmp_order_def)
  moreover have "UA_encode32 a = UA_encode32 b \<longleftrightarrow> a = b" for a b
    by (metis UA_decode32_encode32)
  moreover have "UA_encode16 a = UA_encode16 b \<longleftrightarrow> a = b" for a b
    by (metis UA_decode16_encode16)
  ultimately show ?thesis by (auto simp: guid_bytes_def)
qed

text \<open>The identifiers of one type.\<close>

definition identifierOrder :: "UA_Identifier \<Rightarrow> UA_Identifier \<Rightarrow> UA_Order" where
  "identifierOrder i1 i2 =
     (case (i1, i2) of
        (NumericId i1, NumericId i2) \<Rightarrow>
          if i1 \<noteq> i2 then if i1 < i2 then UA_ORDER_LESS else UA_ORDER_MORE else UA_ORDER_EQ
      | (GuidId g1, GuidId g2) \<Rightarrow> guidOrder g1 g2
      | (StringId s1, StringId s2) \<Rightarrow> stringOrder s1 s2
      | (ByteStringId s1, ByteStringId s2) \<Rightarrow> stringOrder s1 s2
      | _ \<Rightarrow> UA_ORDER_EQ)"

fun id_number :: "UA_Identifier \<Rightarrow> u32" where "id_number (NumericId i) = i" | "id_number _ = 0"
fun id_string :: "UA_Identifier \<Rightarrow> UA_String" where
  "id_string (StringId s) = s" | "id_string (ByteStringId s) = s" | "id_string _ = None"
fun id_guid :: "UA_Identifier \<Rightarrow> UA_Guid" where "id_guid (GuidId g) = g" | "id_guid _ = \<lparr>data1 = 0, data2 = 0, data3 = 0, data4 = []\<rparr>"

lemma identifierType_cases:
  "identifierType i = 0 \<longleftrightarrow> (\<exists>n. i = NumericId n)" "identifierType i = 3 \<longleftrightarrow> (\<exists>s. i = StringId s)"
  "identifierType i = 4 \<longleftrightarrow> (\<exists>g. i = GuidId g)" "identifierType i = 5 \<longleftrightarrow> (\<exists>s. i = ByteStringId s)"
  "identifierType i \<in> {0, 3, 4, 5}"
  by (cases i; simp)+

lemma comparison_identifier:
  "comparison (\<lambda>x. P x \<and> identifierType (k x) = t) (\<lambda>x y. Some (identifierOrder (k x) (k y)))"
proof (cases "t \<in> {0, 3, 4, 5}")
  case True
  then consider "t = 0" | "t = 3" | "t = 4" | "t = 5" by auto
  then show ?thesis
  proof cases
    case 1
    show ?thesis
      by (rule comparison_cong [OF comparison_numeric [where k = "\<lambda>x. id_number (k x)"]])
         (auto simp: 1 identifierOrder_def identifierType_cases UA_NUMERICORDER_def)
  next
    case 2
    show ?thesis
      by (rule comparison_cong [OF comparison_string [where k = "\<lambda>x. id_string (k x)"]])
         (auto simp: 2 identifierOrder_def identifierType_cases)
  next
    case 3
    show ?thesis
      by (rule comparison_cong [OF comparison_guid [where k = "\<lambda>x. id_guid (k x)"]])
         (auto simp: 3 identifierOrder_def identifierType_cases)
  next
    case 4
    show ?thesis
      by (rule comparison_cong [OF comparison_string [where k = "\<lambda>x. id_string (k x)"]])
         (auto simp: 4 identifierOrder_def identifierType_cases)
  qed
next
  case False
  then have "\<not> (P x \<and> identifierType (k x) = t)" for x
    using identifierType_cases(5) [of "k x"] by auto
  then show ?thesis by unfold_locales auto
qed

lemma comparison_nodeid: "comparison P (\<lambda>x y. Some (UA_NodeId_order (k x) (k y)))"
proof -
  have id: "comparison Q (\<lambda>x y. if identifierType (nid (k x)) \<noteq> identifierType (nid (k y))
      then Some (if identifierType (nid (k x)) < identifierType (nid (k y)) then UA_ORDER_LESS else UA_ORDER_MORE)
      else Some (identifierOrder (nid (k x)) (nid (k y))))" for Q
    by (rule comparison_key, rule comparison_identifier)
  show ?thesis
    by (rule comparison_cong [OF comparison_key [where key = "\<lambda>x. namespaceIndex (k x)", OF id]])
       (auto simp: UA_NodeId_order_def identifierOrder_def)
qed

lemma comparison_expanded: "comparison P (\<lambda>x y. Some (UA_ExpandedNodeId_order (k x) (k y)))"
proof -
  have "comparison P (\<lambda>x y. or_next (Some (UA_NUMERICORDER (serverIndex (k x)) (serverIndex (k y))))
     (or_next (Some (stringOrder (namespaceUri (k x)) (namespaceUri (k y))))
        (Some (UA_NodeId_order (nodeId (k x)) (nodeId (k y))))))"
    by (intro comparison_next comparison_numeric comparison_string comparison_nodeid)
  then show ?thesis
    by (rule comparison_cong)
       (auto simp: UA_ExpandedNodeId_order_def or_next_def or_else_def UA_NUMERICORDER_def)
qed

lemma UA_NodeId_order_EQ:
  "UA_NodeId_order n1 n2 = UA_ORDER_EQ \<Longrightarrow>
   namespaceIndex n1 = namespaceIndex n2 \<and> identifierOrder (nid n1) (nid n2) = UA_ORDER_EQ \<and>
   identifierType (nid n1) = identifierType (nid n2)"
  by (simp add: UA_NodeId_order_def identifierOrder_def split: if_splits)

end
