(* ===== verification/Value_Order_Rules.thy ===== *)
theory Value_Order_Rules
  imports Value_Comparison
begin

text \<open>
  \<^verbatim>\<open>UA_order\<close> on well-typed values: it never reads memory with the wrong layout and it is a total
  preorder, provided that the decoded extension objects in the values have one type. Without that
  proviso it does: \<open>extensionObjectOrder\<close> takes the type of the first object for both.
\<close>

section \<open>Decoded extension objects\<close>

text \<open>The types of the decoded extension objects in a value.\<close>

fun eo_types :: "ua_val \<Rightarrow> tyref list" and eo_types_field :: "ua_field \<Rightarrow> tyref list" where
  "eo_types (VDecodedEO t x) =
     (case t of None \<Rightarrow> [] | Some t \<Rightarrow> [t]) @ (case x of None \<Rightarrow> [] | Some v \<Rightarrow> eo_types v)"
| "eo_types (VVariantScalar t v) = eo_types v"
| "eo_types (VVariantArray t a dims) = (case a of None \<Rightarrow> [] | Some vs \<Rightarrow> concat (map eo_types vs))"
| "eo_types (VDataValue x _ _ _ _ _) = (case x of None \<Rightarrow> [] | Some v \<Rightarrow> eo_types v)"
| "eo_types (VDiagnosticInfo _ _ _ _ _ _ x) = (case x of None \<Rightarrow> [] | Some v \<Rightarrow> eo_types v)"
| "eo_types (VStruct fs) = concat (map eo_types_field fs)"
| "eo_types (VUnion _ f) = eo_types_field f"
| "eo_types _ = []"
| "eo_types_field (FScalar v) = eo_types v"
| "eo_types_field (FArray a) = (case a of None \<Rightarrow> [] | Some vs \<Rightarrow> concat (map eo_types vs))"
| "eo_types_field (FOptScalar x) = (case x of None \<Rightarrow> [] | Some v \<Rightarrow> eo_types v)"
| "eo_types_field (FOptArray a) = (case a of None \<Rightarrow> [] | Some vs \<Rightarrow> concat (map eo_types vs))"

text \<open>The generated descriptions of plain structures have no optional members.\<close>

definition plain_members :: "type_env \<Rightarrow> bool" where
  "plain_members env = (\<forall>t. kind_at env t = DK_STRUCTURE \<longrightarrow> (\<forall>m \<in> set (members (ty_at env t)). \<not> isOptional m))"

definition ordered_val :: "type_env \<Rightarrow> tyref \<Rightarrow> nat \<Rightarrow> tyref \<Rightarrow> ua_val \<Rightarrow> bool" where
  "ordered_val env te n t v = (wf_val env t v \<and> set (eo_types v) \<subseteq> {te} \<and> size v < n)"

lemma wf_extension_object: "wf_val env ty v \<Longrightarrow> kind_at env ty = DK_EXTENSIONOBJECT \<Longrightarrow>
   (\<exists>e t b. v = VEncodedEO e t b) \<or> (\<exists>t w. v = VDecodedEO (Some t) (Some w) \<and> wf_val env t w)"
proof (cases v)
  case (VDecodedEO t x)
  assume "wf_val env ty v"
  with VDecodedEO show ?thesis by (cases t; cases x; simp)
qed (auto simp: kind8_def kind16_def kind32_def kind64_def kind_string_def)

lemma wf_data_value_kind: "wf_val env ty v \<Longrightarrow> kind_at env ty = DK_DATAVALUE \<Longrightarrow>
   \<exists>a b c d e f. v = VDataValue a b c d e f"
proof (cases v)
  case (VDecodedEO t x)
  assume "wf_val env ty v" "kind_at env ty = DK_DATAVALUE"
  with VDecodedEO show ?thesis by (cases t; cases x; simp)
qed (auto simp: kind8_def kind16_def kind32_def kind64_def kind_string_def)

section \<open>The parts\<close>

lemma comparison_dimensions: "comparison P (\<lambda>x y. dimensionsOrder (k x) (k y))"
proof -
  have "comparison (\<lambda>x. P x \<and> length (k x) = n)
      (\<lambda>x y. arrayOrder (\<lambda>a b. Some (uInt32Order a b)) (Some (k x)) (Some (k y)))" for n
    unfolding uInt32Order_def
    by (rule comparison_via [OF comparison_array [OF comparison_numeric [of "\<lambda>x. True" "\<lambda>x. x"]],
          where k = "\<lambda>x. Some (k x)"]) auto
  from comparison_key [where P = P and key = "\<lambda>x. length (k x)", OF this]
  show ?thesis by (rule comparison_cong) (auto simp: dimensionsOrder_def arrayOrder_def)
qed

lemma comparison_opt_number:
  fixes f :: "'w \<Rightarrow> 'k::linorder"
  assumes "\<And>a b. g a b = UA_NUMERICORDER (f a) (f b)"
  shows "comparison P (\<lambda>x y. flaggedOrder (\<lambda>a b. Some (g a b)) (k x) (k y))"
  by (rule comparison_via [OF comparison_flagged [OF comparison_numeric [of "\<lambda>x. True" f]], where k = k])
     (auto simp: assms split: option.splits)

lemma comparison_opt_string: "comparison P (\<lambda>x y. flaggedOrder (\<lambda>a b. Some (stringOrder a b)) (k x) (k y))"
  by (rule comparison_via [OF comparison_flagged [OF comparison_string [of "\<lambda>x. True" "\<lambda>x. x"]], where k = k])
     (auto split: option.splits)

lemmas number_orders = booleanOrder_def sByteOrder_def byteOrder_def int16Order_def uInt16Order_def
  int32Order_def uInt32Order_def int64Order_def uInt64Order_def

lemma comparison_variant:
  assumes jt: "\<And>t. comparison (ordered_val env te n t) (jt t)"
  shows "comparison (\<lambda>v. wf_val env t v \<and> kind_at env t = DK_VARIANT \<and> set (eo_types v) \<subseteq> {te} \<and> size v \<le> n)
           (variantOrder jt)" (is "comparison ?P _")
proof -
  have P: "is_variant v" if "?P v" for v
    using that wf_variant_kind [of env t v] by auto
  have scalar: "comparison (\<lambda>v. (?P v \<and> variant_type v = Some u) \<and> (\<not> UA_Variant_isScalar v) = b)
      (variant_content_order jt)" for u b
  proof (cases b)
    case False
    show ?thesis
      by (rule comparison_via [OF jt [of u], where k = "\<lambda>v. case v of VVariantScalar _ w \<Rightarrow> w"])
         (auto simp: False ordered_val_def variant_content_order_def elim!: UA_Variant_isScalar.elims)
  next
    case True
    have arr: "\<exists>a d. v = VVariantArray u a d \<and> (case a of None \<Rightarrow> True | Some xs \<Rightarrow> \<forall>w \<in> set xs. ordered_val env te n u w)"
      if "(?P v \<and> variant_type v = Some u) \<and> \<not> UA_Variant_isScalar v" for v
    proof -
      from that P obtain a d where v: "v = VVariantArray u a d" by (cases v) auto
      have "ordered_val env te n u w" if "a = Some xs" "w \<in> set xs" for xs w
        using \<open>(?P v \<and> _) \<and> _\<close> that size_in_list [of w xs] by (auto simp: v ordered_val_def)
      then show ?thesis using v by (auto split: option.splits)
    qed
    show ?thesis
    proof (rule comparison_via [OF comparison_array [OF jt [of u]], where k = variant_array])
      fix x assume "(?P x \<and> variant_type x = Some u) \<and> (\<not> UA_Variant_isScalar x) = b"
      then show "case variant_array x of None \<Rightarrow> True | Some xs \<Rightarrow> \<forall>v\<in>set xs. ordered_val env te n u v"
        using arr [of x] True by auto
    next
      fix x y assume "(?P x \<and> variant_type x = Some u) \<and> (\<not> UA_Variant_isScalar x) = b"
        "(?P y \<and> variant_type y = Some u) \<and> (\<not> UA_Variant_isScalar y) = b"
      then obtain a d a' d' where "x = VVariantArray u a d" "y = VVariantArray u a' d'"
        using arr [of x] arr [of y] True by auto
      then show "variant_content_order jt x y = arrayOrder (jt u) (variant_array x) (variant_array y)"
        by (simp add: variant_content_order_def arrayOrder_def)
    qed
  qed
  have content: "comparison (\<lambda>v. ?P v \<and> variant_type v = u)
      (\<lambda>p1 p2. if variant_type p1 = None then Some UA_ORDER_EQ
              else if UA_Variant_isScalar p1 \<noteq> UA_Variant_isScalar p2
              then Some (if UA_Variant_isScalar p1 then UA_ORDER_LESS else UA_ORDER_MORE)
              else variant_content_order jt p1 p2)" for u
  proof (cases u)
    case None
    show ?thesis by (rule comparison_cong [OF comparison_const]) (auto simp: None)
  next
    case (Some w)
    from comparison_key [where P = "\<lambda>v. ?P v \<and> variant_type v = Some w" and key = "\<lambda>v. \<not> UA_Variant_isScalar v", OF scalar]
    show ?thesis unfolding Some by (rule comparison_cong) auto
  qed
  define key where "key v = (case variant_type v of None \<Rightarrow> 0 | Some t \<Rightarrow> Suc t)" for v
  have key: "key x = key y \<longleftrightarrow> variant_type x = variant_type y"
    "key x < key y \<longleftrightarrow> type_below (variant_type x) (variant_type y)" for x y
    by (auto simp: key_def split: option.splits)
  have "comparison (\<lambda>v. ?P v \<and> key v = a) (\<lambda>p1 p2. or_next
             (if variant_type p1 = None then Some UA_ORDER_EQ
              else if UA_Variant_isScalar p1 \<noteq> UA_Variant_isScalar p2
              then Some (if UA_Variant_isScalar p1 then UA_ORDER_LESS else UA_ORDER_MORE)
              else variant_content_order jt p1 p2)
             (dimensionsOrder (variant_dimensions p1) (variant_dimensions p2)))" for a
    by (rule comparison_weaken [OF comparison_next [OF content [of "if a = 0 then None else Some (a - 1)"]
          comparison_dimensions]]) (auto simp: key_def split: option.splits)
  from comparison_key [where P = ?P and key = key, OF this]
  show ?thesis by (rule comparison_cong) (auto simp: variantOrder_def P key)
qed

lemma comparison_extension_object:
  assumes jt: "\<And>t. comparison (ordered_val env te n t) (jt t)"
  shows "comparison (\<lambda>v. wf_val env t v \<and> kind_at env t = DK_EXTENSIONOBJECT \<and> set (eo_types v) \<subseteq> {te} \<and> size v \<le> n)
           (extensionObjectOrder jt)" (is "comparison ?P _")
proof -
  define enc where "enc v = (case v of VEncodedEO e _ _ \<Rightarrow> eo_number e | _ \<Rightarrow> 3)" for v
  define tid where "tid v = (case v of VEncodedEO _ t _ \<Rightarrow> t)" for v
  define body where "body v = (case v of VEncodedEO _ _ b \<Rightarrow> b)" for v
  define dat where "dat v = (case v of VDecodedEO _ (Some w) \<Rightarrow> w)" for v
  have P: "(\<exists>e t b. v = VEncodedEO e t b) \<or> (\<exists>w. v = VDecodedEO (Some te) (Some w) \<and> ordered_val env te n te w)"
    if "?P v" for v
    using that wf_extension_object [of env t v] by (auto simp: ordered_val_def)
  have enc: "enc v = 0 \<or> enc v = 1 \<or> enc v = 2 \<or> enc v = 3" for v
  proof -
    have "eo_number e = 0 \<or> eo_number e = 1 \<or> eo_number e = 2" for e by (cases e) simp_all
    then show ?thesis by (cases v) (auto simp: enc_def)
  qed
  have eo: "enc (VEncodedEO e t b) = eo_number e" "eo_number e \<noteq> 3" "enc (VDecodedEO x y) = 3"
    "eo_number e < 3" for e t b x y
    by (cases e; simp add: enc_def)+
  have eoi: "eo_number e = eo_number e' \<longleftrightarrow> e = e'" for e e'
    by (cases e; cases e'; simp)
  have same: "comparison (\<lambda>v. ?P v \<and> enc v = a) (extensionObjectOrder jt)" for a
  proof -
    consider "a = 0" | "a = 1 \<or> a = 2" | "a = 3" | "\<forall>v. enc v \<noteq> a" using enc by metis
    then show ?thesis
    proof cases
      case 1
      have "\<exists>t b. v = VEncodedEO EO_NOBODY t b" if "?P v \<and> enc v = a" for v
        using P [of v] that 1 eo eoi [of _ EO_NOBODY] by auto
      then show ?thesis
        by (intro comparison_cong [OF comparison_const]) (metis (no_types, lifting)
              extensionObjectOrder.simps(1) UA_ExtensionObjectEncoding.simps(7))
    next
      case 2
      have v: "\<exists>e t b. v = VEncodedEO e t b \<and> e \<noteq> EO_NOBODY \<and> eo_number e = a" if "?P v \<and> enc v = a" for v
        using P [of v] that 2 eo by (auto intro: exI [of _ EO_NOBODY])
      have "comparison (\<lambda>v. ?P v \<and> enc v = a)
          (\<lambda>x y. or_next (Some (UA_NodeId_order (tid x) (tid y))) (Some (stringOrder (body x) (body y))))"
        by (intro comparison_next comparison_nodeid comparison_string)
      then show ?thesis
      proof (rule comparison_cong)
        fix x y assume "?P x \<and> enc x = a" "?P y \<and> enc y = a"
        then obtain e t b e' t' b' where "x = VEncodedEO e t b" "e \<noteq> EO_NOBODY" "eo_number e = a"
          "y = VEncodedEO e' t' b'" "eo_number e' = a" using v [of x] v [of y] by blast
        then show "extensionObjectOrder jt x y =
            or_next (Some (UA_NodeId_order (tid x) (tid y))) (Some (stringOrder (body x) (body y)))"
          using eoi [of e e'] by (cases e) (auto simp: tid_def body_def or_next_def Let_def)
      qed
    next
      case 3
      have v: "\<exists>w. v = VDecodedEO (Some te) (Some w) \<and> ordered_val env te n te w" if "?P v \<and> enc v = a" for v
        using P [of v] that 3 eo by auto
      show ?thesis
      proof (rule comparison_via [OF jt [of te], where k = dat])
        fix x assume "?P x \<and> enc x = a"
        then show "ordered_val env te n te (dat x)" using v [of x] by (auto simp: dat_def)
      next
        fix x y assume "?P x \<and> enc x = a" "?P y \<and> enc y = a"
        then show "extensionObjectOrder jt x y = jt te (dat x) (dat y)"
          using v [of x] v [of y] by (auto simp: dat_def)
      qed
    next
      case 4
      then show ?thesis by (intro comparison.intro) auto
    qed
  qed
  from comparison_key [where P = ?P and key = enc, OF this]
  show ?thesis
  proof (rule comparison_cong)
    fix x y assume "?P x" "?P y"
    then show "extensionObjectOrder jt x y = (if enc x \<noteq> enc y
        then Some (if enc x < enc y then UA_ORDER_LESS else UA_ORDER_MORE) else extensionObjectOrder jt x y)"
      using P [of x] P [of y] eo eoi by (auto simp: not_less_iff_gr_or_eq dest: less_asym)
  qed
qed

lemma comparison_data_value:
  assumes env: "builtin_env env" and jt: "\<And>t. comparison (ordered_val env te n t) (jt t)"
  shows "comparison (\<lambda>v. wf_val env t v \<and> kind_at env t = DK_DATAVALUE \<and> set (eo_types v) \<subseteq> {te} \<and> size v \<le> n)
           (dataValueOrder jt)" (is "comparison ?P _")
proof -
  have P: "\<exists>a b c d e f. v = VDataValue a b c d e f" if "?P v" for v
    using that wf_data_value_kind [of env t v] by blast
  let ?V = "\<lambda>v. wf_val env UA_TYPES_VARIANT v \<and> kind_at env UA_TYPES_VARIANT = DK_VARIANT \<and> set (eo_types v) \<subseteq> {te} \<and> size v \<le> n"
  let ?val = "\<lambda>v. case v of VDataValue a _ _ _ _ _ \<Rightarrow> a"
  have 1: "comparison ?P (\<lambda>x y. flaggedOrder (variantOrder jt) (?val x) (?val y))"
  proof (rule comparison_via [OF comparison_flagged [OF comparison_variant [OF jt, of UA_TYPES_VARIANT]], where k = ?val])
    fix x assume x: "?P x"
    then obtain a b c d e f where "x = VDataValue a b c d e f" using P by blast
    with x show "case ?val x of None \<Rightarrow> True | Some v \<Rightarrow> ?V v"
      using builtin_kinds(1) [OF env] by (auto split: option.splits)
  qed simp
  have "comparison ?P (\<lambda>x y. or_next (flaggedOrder (variantOrder jt) (?val x) (?val y))
    (or_next (flaggedOrder (\<lambda>x y. Some (uInt32Order x y)) (case x of VDataValue _ a _ _ _ _ \<Rightarrow> a) (case y of VDataValue _ a _ _ _ _ \<Rightarrow> a))
    (or_next (flaggedOrder (\<lambda>x y. Some (int64Order x y)) (case x of VDataValue _ _ a _ _ _ \<Rightarrow> a) (case y of VDataValue _ _ a _ _ _ \<Rightarrow> a))
    (or_next (flaggedOrder (\<lambda>x y. Some (int64Order x y)) (case x of VDataValue _ _ _ _ a _ \<Rightarrow> a) (case y of VDataValue _ _ _ _ a _ \<Rightarrow> a))
    (or_next (flaggedOrder (\<lambda>x y. Some (uInt16Order x y)) (case x of VDataValue _ _ _ a _ _ \<Rightarrow> a) (case y of VDataValue _ _ _ a _ _ \<Rightarrow> a))
      (flaggedOrder (\<lambda>x y. Some (uInt16Order x y)) (case x of VDataValue _ _ _ _ _ a \<Rightarrow> a) (case y of VDataValue _ _ _ _ _ a \<Rightarrow> a)))))))"
    by (intro comparison_next 1 comparison_opt_number) (simp_all add: number_orders)
  then show ?thesis
  proof (rule comparison_cong)
    fix x y assume "?P x" "?P y"
    with P obtain a b c d e f a' b' c' d' e' f' where "x = VDataValue a b c d e f" "y = VDataValue a' b' c' d' e' f'"
      by meson
    then show "dataValueOrder jt x y = or_next (flaggedOrder (variantOrder jt) (?val x) (?val y))
    (or_next (flaggedOrder (\<lambda>x y. Some (uInt32Order x y)) (case x of VDataValue _ a _ _ _ _ \<Rightarrow> a) (case y of VDataValue _ a _ _ _ _ \<Rightarrow> a))
    (or_next (flaggedOrder (\<lambda>x y. Some (int64Order x y)) (case x of VDataValue _ _ a _ _ _ \<Rightarrow> a) (case y of VDataValue _ _ a _ _ _ \<Rightarrow> a))
    (or_next (flaggedOrder (\<lambda>x y. Some (int64Order x y)) (case x of VDataValue _ _ _ _ a _ \<Rightarrow> a) (case y of VDataValue _ _ _ _ a _ \<Rightarrow> a))
    (or_next (flaggedOrder (\<lambda>x y. Some (uInt16Order x y)) (case x of VDataValue _ _ _ a _ _ \<Rightarrow> a) (case y of VDataValue _ _ _ a _ _ \<Rightarrow> a))
      (flaggedOrder (\<lambda>x y. Some (uInt16Order x y)) (case x of VDataValue _ _ _ _ _ a \<Rightarrow> a) (case y of VDataValue _ _ _ _ _ a \<Rightarrow> a))))))"
      by simp
  qed
qed

lemma comparison_diagnostic_info:
  assumes env: "builtin_env env"
  shows "comparison (\<lambda>v. wf_val env t v \<and> kind_at env t = DK_DIAGNOSTICINFO \<and> size v < n) diagnosticInfoOrder"
proof (induction n arbitrary: t)
  case 0
  show ?case by (intro comparison.intro) auto
next
  case (Suc n)
  let ?P = "\<lambda>v. wf_val env t v \<and> kind_at env t = DK_DIAGNOSTICINFO \<and> size v < Suc n"
  have P: "\<exists>a b c d e f g. v = VDiagnosticInfo a b c d e f g" if "?P v" for v
    using that wf_diag_kind [of env t v] by blast
  let ?inner = "\<lambda>v. case v of VDiagnosticInfo _ _ _ _ _ _ g \<Rightarrow> g"
  have inner: "comparison ?P (\<lambda>x y. flaggedOrder diagnosticInfoOrder (?inner x) (?inner y))"
  proof (rule comparison_via [OF comparison_flagged [OF Suc.IH [of UA_TYPES_DIAGNOSTICINFO]], where k = ?inner])
    fix x assume x: "?P x"
    then obtain a b c d e f g where "x = VDiagnosticInfo a b c d e f g" using P by blast
    with x show "case ?inner x of None \<Rightarrow> True | Some v \<Rightarrow> wf_val env UA_TYPES_DIAGNOSTICINFO v \<and>
        kind_at env UA_TYPES_DIAGNOSTICINFO = DK_DIAGNOSTICINFO \<and> size v < n"
      using builtin_kinds(2) [OF env] by (auto split: option.splits)
  qed simp
  have "comparison ?P (\<lambda>x y.
     or_next (flaggedOrder (\<lambda>x y. Some (int32Order x y)) (case x of VDiagnosticInfo a _ _ _ _ _ _ \<Rightarrow> a) (case y of VDiagnosticInfo a _ _ _ _ _ _ \<Rightarrow> a))
    (or_next (flaggedOrder (\<lambda>x y. Some (int32Order x y)) (case x of VDiagnosticInfo _ a _ _ _ _ _ \<Rightarrow> a) (case y of VDiagnosticInfo _ a _ _ _ _ _ \<Rightarrow> a))
    (or_next (flaggedOrder (\<lambda>x y. Some (int32Order x y)) (case x of VDiagnosticInfo _ _ a _ _ _ _ \<Rightarrow> a) (case y of VDiagnosticInfo _ _ a _ _ _ _ \<Rightarrow> a))
    (or_next (flaggedOrder (\<lambda>x y. Some (int32Order x y)) (case x of VDiagnosticInfo _ _ _ a _ _ _ \<Rightarrow> a) (case y of VDiagnosticInfo _ _ _ a _ _ _ \<Rightarrow> a))
    (or_next (flaggedOrder (\<lambda>x y. Some (stringOrder x y)) (case x of VDiagnosticInfo _ _ _ _ a _ _ \<Rightarrow> a) (case y of VDiagnosticInfo _ _ _ _ a _ _ \<Rightarrow> a))
    (or_next (flaggedOrder (\<lambda>x y. Some (uInt32Order x y)) (case x of VDiagnosticInfo _ _ _ _ _ a _ \<Rightarrow> a) (case y of VDiagnosticInfo _ _ _ _ _ a _ \<Rightarrow> a))
      (flaggedOrder diagnosticInfoOrder (?inner x) (?inner y))))))))"
    by (intro comparison_next inner comparison_opt_number comparison_opt_string) (simp_all add: number_orders)
  then show ?case
  proof (rule comparison_cong)
    fix x y assume "?P x" "?P y"
    with P obtain a b c d e f g a' b' c' d' e' f' g' where
      "x = VDiagnosticInfo a b c d e f g" "y = VDiagnosticInfo a' b' c' d' e' f' g'" by meson
    then show "diagnosticInfoOrder x y =
     or_next (flaggedOrder (\<lambda>x y. Some (int32Order x y)) (case x of VDiagnosticInfo a _ _ _ _ _ _ \<Rightarrow> a) (case y of VDiagnosticInfo a _ _ _ _ _ _ \<Rightarrow> a))
    (or_next (flaggedOrder (\<lambda>x y. Some (int32Order x y)) (case x of VDiagnosticInfo _ a _ _ _ _ _ \<Rightarrow> a) (case y of VDiagnosticInfo _ a _ _ _ _ _ \<Rightarrow> a))
    (or_next (flaggedOrder (\<lambda>x y. Some (int32Order x y)) (case x of VDiagnosticInfo _ _ a _ _ _ _ \<Rightarrow> a) (case y of VDiagnosticInfo _ _ a _ _ _ _ \<Rightarrow> a))
    (or_next (flaggedOrder (\<lambda>x y. Some (int32Order x y)) (case x of VDiagnosticInfo _ _ _ a _ _ _ \<Rightarrow> a) (case y of VDiagnosticInfo _ _ _ a _ _ _ \<Rightarrow> a))
    (or_next (flaggedOrder (\<lambda>x y. Some (stringOrder x y)) (case x of VDiagnosticInfo _ _ _ _ a _ _ \<Rightarrow> a) (case y of VDiagnosticInfo _ _ _ _ a _ _ \<Rightarrow> a))
    (or_next (flaggedOrder (\<lambda>x y. Some (uInt32Order x y)) (case x of VDiagnosticInfo _ _ _ _ _ a _ \<Rightarrow> a) (case y of VDiagnosticInfo _ _ _ _ _ a _ \<Rightarrow> a))
      (flaggedOrder diagnosticInfoOrder (?inner x) (?inner y)))))))"
      by (simp add: flaggedOrder_def split: option.splits)
  qed
qed

section \<open>Structures and unions\<close>

text \<open>The fields of a structure, by what they hold.\<close>

definition ordered_field :: "type_env \<Rightarrow> tyref \<Rightarrow> nat \<Rightarrow> bool \<Rightarrow> UA_DataTypeMember \<Rightarrow> ua_field \<Rightarrow> bool" where
  "ordered_field env te n opt m f =
     (wf_field env opt m f \<and> (isOptional m \<longrightarrow> opt) \<and> set (eo_types_field f) \<subseteq> {te} \<and> size f \<le> n)"

fun field_scalar :: "ua_field \<Rightarrow> ua_val" where "field_scalar (FScalar v) = v" | "field_scalar _ = VU8 0"
fun field_array :: "ua_field \<Rightarrow> ua_val list option" where
  "field_array (FArray a) = a" | "field_array (FOptArray a) = a" | "field_array _ = None"
fun field_option :: "ua_field \<Rightarrow> ua_val option" where "field_option (FOptScalar x) = x" | "field_option _ = None"

lemma ordered_elements:
  assumes "case a of None \<Rightarrow> True | Some vs \<Rightarrow> \<forall>v\<in>set vs. wf_val env t v \<and> overlay_ok env t v"
    and "set (case a of None \<Rightarrow> [] | Some vs \<Rightarrow> concat (map eo_types vs)) \<subseteq> {te}"
    and "Suc (size_option (size_list size) a) \<le> n"
  shows "case a of None \<Rightarrow> True | Some vs \<Rightarrow> \<forall>v \<in> set vs. ordered_val env te n t v"
proof (cases a)
  case (Some vs)
  have "ordered_val env te n t v" if "v \<in> set vs" for v
    using assms that size_in_list [of v vs] by (auto simp: Some ordered_val_def)
  then show ?thesis by (simp add: Some)
qed simp

lemma ordered_field_cases:
  assumes "ordered_field env te n opt m f"
  shows "\<not> isArray m \<Longrightarrow> \<not> isOptional m \<Longrightarrow> \<exists>v. f = FScalar v \<and> ordered_val env te n (memberType m) v"
    and "isArray m \<Longrightarrow> \<not> isOptional m \<Longrightarrow>
      \<exists>a. f = FArray a \<and> (case a of None \<Rightarrow> True | Some vs \<Rightarrow> \<forall>v \<in> set vs. ordered_val env te n (memberType m) v)"
    and "\<not> isArray m \<Longrightarrow> isOptional m \<Longrightarrow>
      \<exists>x. f = FOptScalar x \<and> (case x of None \<Rightarrow> True | Some v \<Rightarrow> ordered_val env te n (memberType m) v)"
    and "isArray m \<Longrightarrow> isOptional m \<Longrightarrow>
      \<exists>a. f = FOptArray a \<and> (case a of None \<Rightarrow> True | Some vs \<Rightarrow> \<forall>v \<in> set vs. ordered_val env te n (memberType m) v)"
proof -
  note f = assms [unfolded ordered_field_def]
  show "\<not> isArray m \<Longrightarrow> \<not> isOptional m \<Longrightarrow> \<exists>v. f = FScalar v \<and> ordered_val env te n (memberType m) v"
    using f by (cases f) (auto simp: ordered_val_def)
  show "isArray m \<Longrightarrow> \<not> isOptional m \<Longrightarrow>
      \<exists>a. f = FArray a \<and> (case a of None \<Rightarrow> True | Some vs \<Rightarrow> \<forall>v \<in> set vs. ordered_val env te n (memberType m) v)"
    using f by (cases f) (auto intro!: ordered_elements)
  show "\<not> isArray m \<Longrightarrow> isOptional m \<Longrightarrow>
      \<exists>x. f = FOptScalar x \<and> (case x of None \<Rightarrow> True | Some v \<Rightarrow> ordered_val env te n (memberType m) v)"
    using f by (cases f) (auto simp: ordered_val_def split: option.splits)
  show "isArray m \<Longrightarrow> isOptional m \<Longrightarrow>
      \<exists>a. f = FOptArray a \<and> (case a of None \<Rightarrow> True | Some vs \<Rightarrow> \<forall>v \<in> set vs. ordered_val env te n (memberType m) v)"
    using f by (cases f) (auto intro!: ordered_elements)
qed

lemma comparison_member:
  assumes jt: "\<And>t. comparison (ordered_val env te n t) (jt t)"
  shows "comparison (ordered_field env te n opt m) (memberOrder jt m)"
proof -
  note f = ordered_field_cases [of env te n opt m]
  consider "\<not> isArray m" "\<not> isOptional m" | "isArray m" "\<not> isOptional m"
    | "\<not> isArray m" "isOptional m" | "isArray m" "isOptional m" by blast
  then show ?thesis
  proof cases
    case 1
    show ?thesis
      by (rule comparison_via [OF jt [of "memberType m"], where k = field_scalar]) (auto dest!: f(1) [OF _ 1] simp: 1)
  next
    case 2
    show ?thesis
      by (rule comparison_via [OF comparison_array [OF jt [of "memberType m"]], where k = field_array]) (auto dest!: f(2) [OF _ 2] simp: 2)
  next
    case 3
    show ?thesis
      by (rule comparison_via [OF comparison_flagged [OF jt [of "memberType m"]], where k = field_option]) (auto dest!: f(3) [OF _ 3] simp: 3)
  next
    case 4
    show ?thesis
      by (rule comparison_via [OF comparison_array [OF jt [of "memberType m"]], where k = field_array]) (auto dest!: f(4) [OF _ 4] simp: 4)
  qed
qed

lemma comparison_members:
  assumes jt: "\<And>t. comparison (ordered_val env te n t) (jt t)"
  shows "comparison (list_all2 (ordered_field env te n opt) ms) (membersOrder jt ms)"
proof (induction ms)
  case Nil
  show ?case by (rule comparison_cong [OF comparison_const]) auto
next
  case (Cons m ms)
  let ?P = "list_all2 (ordered_field env te n opt) (m # ms)"
  have 1: "comparison ?P (\<lambda>x y. memberOrder jt m (hd x) (hd y))"
    by (rule comparison_via [OF comparison_member [OF jt, of opt m], where k = hd]) (auto simp: list_all2_Cons1)
  have 2: "comparison ?P (\<lambda>x y. membersOrder jt ms (tl x) (tl y))"
    by (rule comparison_via [OF Cons.IH, where k = tl]) (auto simp: list_all2_Cons1)
  show ?case
    by (rule comparison_cong [OF comparison_next [OF 1 2]]) (auto simp: list_all2_Cons1)
qed

lemma wf_fields_list:
  "wf_fields env opt ms fs \<longleftrightarrow> list_all2 (wf_field env opt) ms fs"
  by (induction ms fs rule: list_induct2') auto

lemma size_field_in_list: "f \<in> set fs \<Longrightarrow> size (f :: ua_field) \<le> size_list size fs"
  by (rule size_list_estimation') auto

lemma comparison_structure:
  assumes plain: "plain_members env" and jt: "\<And>t. comparison (ordered_val env te n t) (jt t)"
  shows "comparison (\<lambda>v. wf_val env t v \<and> kind_at env t \<in> {DK_STRUCTURE, DK_OPTSTRUCT} \<and> set (eo_types v) \<subseteq> {te} \<and> size v \<le> n)
           (structureOrder env jt t)" (is "comparison ?P _")
proof -
  let ?opt = "kind_at env t = DK_OPTSTRUCT" and ?ms = "members (ty_at env t)"
  have P: "\<exists>fs. v = VStruct fs \<and> list_all2 (ordered_field env te n ?opt) ?ms fs" if v: "?P v" for v
  proof -
    have "\<exists>fs. v = VStruct fs"
    proof (cases v)
      case (VDecodedEO a x)
      with v show ?thesis by (cases a; cases x; auto)
    qed (use v in \<open>auto simp: kind8_def kind16_def kind32_def kind64_def kind_string_def\<close>)
    then obtain fs where fs: "v = VStruct fs" by blast
    have w: "list_all2 (wf_field env ?opt) ?ms fs" using v fs by (simp add: wf_fields_list)
    have "ordered_field env te n ?opt m f" if "m \<in> set ?ms" "f \<in> set fs" "wf_field env ?opt m f" for m f
      using v fs that plain size_field_in_list [of f fs]
      by (auto simp: ordered_field_def plain_members_def)
    then show ?thesis using fs w by (blast intro: list.rel_mono_strong)
  qed
  show ?thesis
  proof (rule comparison_via [OF comparison_members [OF jt, of ?opt ?ms], where k = "\<lambda>v. case v of VStruct fs \<Rightarrow> fs"])
    fix x assume "?P x"
    then show "list_all2 (ordered_field env te n ?opt) ?ms (case x of VStruct fs \<Rightarrow> fs)" using P by fastforce
  next
    fix x y assume "?P x" "?P y"
    then show "structureOrder env jt t x y =
        membersOrder jt ?ms (case x of VStruct fs \<Rightarrow> fs) (case y of VStruct fs \<Rightarrow> fs)"
      using P [of x] P [of y] by auto
  qed
qed

lemma comparison_union:
  assumes jt: "\<And>t. comparison (ordered_val env te n t) (jt t)"
  shows "comparison (\<lambda>v. wf_val env t v \<and> kind_at env t = DK_UNION \<and> set (eo_types v) \<subseteq> {te} \<and> size v \<le> n)
           (unionOrder env jt t)" (is "comparison ?P _")
proof -
  let ?ms = "members (ty_at env t)"
  define sel where "sel v = (case v of VUnion s _ \<Rightarrow> s | _ \<Rightarrow> 0)" for v
  define fld where "fld v = (case v of VUnion _ f \<Rightarrow> f | _ \<Rightarrow> FScalar v)" for v
  have P: "v = VUnion (sel v) (fld v)" if v: "?P v" for v
  proof -
    have "\<exists>s f. v = VUnion s f"
    proof (cases v)
      case (VDecodedEO a x)
      with v show ?thesis by (cases a; cases x; auto)
    qed (use v in \<open>auto simp: kind8_def kind16_def kind32_def kind64_def kind_string_def\<close>)
    then show ?thesis by (auto simp: sel_def fld_def)
  qed
  have f: "(\<exists>v. fld x = FScalar v \<and> \<not> isArray m \<and> ordered_val env te n (memberType m) v) \<or>
      (\<exists>a. fld x = FArray a \<and> isArray m \<and> (case a of None \<Rightarrow> True | Some vs \<Rightarrow> \<forall>v \<in> set vs. ordered_val env te n (memberType m) v))"
    if x: "?P x" "sel x \<noteq> 0" and m: "m = ?ms ! unat (sel x - 1)" for x m
  proof -
    obtain s f where s: "x = VUnion s f" "sel x = s" "fld x = f" using P [OF x(1)] by (auto simp: sel_def fld_def)
    have "wf_field env False m f" "set (eo_types_field f) \<subseteq> {te}" "size f \<le> n"
      using x m s by auto
    then show ?thesis unfolding s(3)
      by (cases f) (auto simp: ordered_val_def intro!: ordered_elements)
  qed
  have same: "comparison (\<lambda>v. ?P v \<and> sel v = a) (unionOrder env jt t)" for a
  proof (cases "a = 0")
    case True
    show ?thesis
    proof (rule comparison_cong [OF comparison_const])
      fix x y assume "?P x \<and> sel x = a" "?P y \<and> sel y = a"
      then have "x = VUnion 0 (fld x)" "y = VUnion 0 (fld y)" using P [of x] P [of y] True by metis+
      then show "unionOrder env jt t x y = Some UA_ORDER_EQ" by (metis unionOrder.simps(1))
    qed
  next
    case False
    define m where "m = ?ms ! unat (a - 1)"
    note f = f [unfolded fld_def [symmetric]]
    have u: "unionOrder env jt t x y = union_memberOrder jt m (fld x) (fld y)"
      if "?P x \<and> sel x = a" "?P y \<and> sel y = a" for x y
    proof -
      have "x = VUnion a (fld x)" "y = VUnion a (fld y)" using P [of x] P [of y] that by metis+
      moreover have "wf_val env t (VUnion a (fld x))" using that \<open>x = VUnion a (fld x)\<close> by simp
      then have "unat (a - 1) < length ?ms" using False by simp
      ultimately show ?thesis using False unionOrder.simps(1) [of env jt t a "fld x" a "fld y"] by (simp add: m_def)
    qed
    show ?thesis
    proof (cases "isArray m")
      case True
      show ?thesis
      proof (rule comparison_via [OF comparison_array [OF jt [of "memberType m"]], where k = "\<lambda>v. field_array (fld v)"])
        fix x assume "?P x \<and> sel x = a"
        then show "case field_array (fld x) of None \<Rightarrow> True | Some vs \<Rightarrow> \<forall>v \<in> set vs. ordered_val env te n (memberType m) v"
          using f [of x m] False True m_def by auto
      next
        fix x y assume xy: "?P x \<and> sel x = a" "?P y \<and> sel y = a"
        then show "unionOrder env jt t x y = arrayOrder (jt (memberType m)) (field_array (fld x)) (field_array (fld y))"
          using f [of x m] f [of y m] False True m_def unfolding u [OF xy] by auto
      qed
    next
      case array: False
      show ?thesis
      proof (rule comparison_via [OF jt [of "memberType m"], where k = "\<lambda>v. field_scalar (fld v)"])
        fix x assume "?P x \<and> sel x = a"
        then show "ordered_val env te n (memberType m) (field_scalar (fld x))"
          using f [of x m] False array m_def by auto
      next
        fix x y assume xy: "?P x \<and> sel x = a" "?P y \<and> sel y = a"
        then show "unionOrder env jt t x y = jt (memberType m) (field_scalar (fld x)) (field_scalar (fld y))"
          using f [of x m] f [of y m] False array m_def unfolding u [OF xy] by auto
      qed
    qed
  qed
  from comparison_key [where P = ?P and key = sel, OF this]
  show ?thesis
  proof (rule comparison_cong)
    fix x y assume "?P x" "?P y"
    then have "x = VUnion (sel x) (fld x)" "y = VUnion (sel y) (fld y)" using P by blast+
    then show "unionOrder env jt t x y = (if sel x \<noteq> sel y
        then Some (if sel x < sel y then UA_ORDER_LESS else UA_ORDER_MORE) else unionOrder env jt t x y)"
      using unionOrder.simps(1) [of env jt t "sel x" "fld x" "sel y" "fld y"] by (metis (no_types, lifting))
  qed
qed

section \<open>The jump table\<close>

text \<open>Values of the kinds without parts.\<close>

lemma wf_leaf:
  assumes "wf_val env t v"
  shows "kind8 (kind_at env t) \<Longrightarrow> \<exists>b. v = VU8 b" "kind16 (kind_at env t) \<Longrightarrow> \<exists>b. v = VU16 b"
    "kind32 (kind_at env t) \<Longrightarrow> \<exists>b. v = VU32 b" "kind64 (kind_at env t) \<Longrightarrow> \<exists>b. v = VU64 b"
    "kind_string (kind_at env t) \<Longrightarrow> \<exists>s. v = VString s"
    "kind_at env t = DK_GUID \<Longrightarrow> \<exists>g. v = VGuid g" "kind_at env t = DK_NODEID \<Longrightarrow> \<exists>i. v = VNodeId i"
    "kind_at env t = DK_EXPANDEDNODEID \<Longrightarrow> \<exists>i. v = VExpandedNodeId i"
    "kind_at env t = DK_QUALIFIEDNAME \<Longrightarrow> \<exists>n s. v = VQualifiedName n s"
    "kind_at env t = DK_LOCALIZEDTEXT \<Longrightarrow> \<exists>l s. v = VLocalizedText l s"
    "kind_at env t \<noteq> DK_DECIMAL" "kind_at env t \<noteq> DK_BITFIELDCLUSTER"
proof -
  have *: "v = VDecodedEO a x \<Longrightarrow> kind_at env t = DK_EXTENSIONOBJECT" for a x
    using assms by (cases a; cases x; simp)
  note kinds = kind8_def kind16_def kind32_def kind64_def kind_string_def
  show "kind8 (kind_at env t) \<Longrightarrow> \<exists>b. v = VU8 b" "kind16 (kind_at env t) \<Longrightarrow> \<exists>b. v = VU16 b"
    "kind32 (kind_at env t) \<Longrightarrow> \<exists>b. v = VU32 b" "kind64 (kind_at env t) \<Longrightarrow> \<exists>b. v = VU64 b"
    "kind_string (kind_at env t) \<Longrightarrow> \<exists>s. v = VString s"
    "kind_at env t = DK_GUID \<Longrightarrow> \<exists>g. v = VGuid g" "kind_at env t = DK_NODEID \<Longrightarrow> \<exists>i. v = VNodeId i"
    "kind_at env t = DK_EXPANDEDNODEID \<Longrightarrow> \<exists>i. v = VExpandedNodeId i"
    "kind_at env t = DK_QUALIFIEDNAME \<Longrightarrow> \<exists>n s. v = VQualifiedName n s"
    "kind_at env t = DK_LOCALIZEDTEXT \<Longrightarrow> \<exists>l s. v = VLocalizedText l s"
    "kind_at env t \<noteq> DK_DECIMAL" "kind_at env t \<noteq> DK_BITFIELDCLUSTER"
    using assms by (cases v; auto simp: kinds dest: *)+
qed

lemma order_leaf:
  assumes "\<And>x. P x \<Longrightarrow> \<exists>b. x = C b" "\<And>a b. d (C a) (C b) = Some (f a b)" "\<And>b. S (C b) = b"
    and "comparison (\<lambda>x. True) (\<lambda>x y. Some (f x y))"
  shows "comparison P d"
proof (rule comparison_via [OF assms(4), where k = S])
  fix x y assume "P x" "P y"
  then obtain a b where "x = C a" "y = C b" using assms(1) by blast
  then show "d x y = Some (f (S x) (S y))" by (simp add: assms(2,3))
qed simp

lemma comparison_dispatch:
  assumes env: "builtin_env env" "plain_members env" and jt: "\<And>t. comparison (ordered_val env te n t) (jt t)"
  shows "comparison (ordered_val env te (Suc n) t) (order_dispatch env jt t)" (is "comparison ?P _")
proof -
  have wf: "wf_val env t v" "set (eo_types v) \<subseteq> {te}" "size v \<le> n" if "?P v" for v
    using that by (auto simp: ordered_val_def)
  note leaf = wf_leaf [OF wf(1)]
  note numbers = number_orders comparison_numeric [of _ "\<lambda>x. x"] comparison_numeric [of _ sint]
  have 8: "comparison ?P (order8 f)" if "kind8 (kind_at env t)" "comparison (\<lambda>x. True) (\<lambda>x y. Some (f x y))" for f
    by (rule order_leaf [of ?P VU8 _ f "\<lambda>v. case v of VU8 b \<Rightarrow> b"]) (use leaf(1) that in \<open>auto simp: order8_def\<close>)
  have 16: "comparison ?P (order16 f)" if "kind16 (kind_at env t)" "comparison (\<lambda>x. True) (\<lambda>x y. Some (f x y))" for f
    by (rule order_leaf [of ?P VU16 _ f "\<lambda>v. case v of VU16 b \<Rightarrow> b"]) (use leaf(2) that in \<open>auto simp: order16_def\<close>)
  have 32: "comparison ?P (order32 f)" if "kind32 (kind_at env t)" "comparison (\<lambda>x. True) (\<lambda>x y. Some (f x y))" for f
    by (rule order_leaf [of ?P VU32 _ f "\<lambda>v. case v of VU32 b \<Rightarrow> b"]) (use leaf(3) that in \<open>auto simp: order32_def\<close>)
  have 64: "comparison ?P (order64 f)" if "kind64 (kind_at env t)" "comparison (\<lambda>x. True) (\<lambda>x y. Some (f x y))" for f
    by (rule order_leaf [of ?P VU64 _ f "\<lambda>v. case v of VU64 b \<Rightarrow> b"]) (use leaf(4) that in \<open>auto simp: order64_def\<close>)
  have str: "comparison ?P order_string" if "kind_string (kind_at env t)"
    by (rule order_leaf [of ?P VString _ stringOrder "\<lambda>v. case v of VString b \<Rightarrow> b"])
       (use leaf(5) that comparison_string [of _ "\<lambda>x. x"] in \<open>auto simp: order_string_def\<close>)
  have num: "comparison P (\<lambda>x y. Some (booleanOrder x y))" "comparison P (\<lambda>x y. Some (sByteOrder x y))"
    "comparison P (\<lambda>x y. Some (byteOrder x y))" "comparison P16 (\<lambda>x y. Some (int16Order x y))"
    "comparison P16 (\<lambda>x y. Some (uInt16Order x y))" "comparison P32 (\<lambda>x y. Some (int32Order x y))"
    "comparison P32 (\<lambda>x y. Some (uInt32Order x y))" "comparison P64 (\<lambda>x y. Some (int64Order x y))"
    "comparison P64 (\<lambda>x y. Some (uInt64Order x y))" "comparison P32 (\<lambda>x y. Some (floatOrder x y))"
    "comparison P64 (\<lambda>x y. Some (doubleOrder x y))" for P P16 P32 P64
    unfolding number_orders floatOrder_def doubleOrder_def by (rule comparison_numeric comparison_ieee)+
  have guid: "comparison ?P (\<lambda>p1 p2. case (p1, p2) of (VGuid a, VGuid b) \<Rightarrow> Some (guidOrder a b) | _ \<Rightarrow> None)"
    if "kind_at env t = DK_GUID"
    by (rule order_leaf [of ?P VGuid _ guidOrder "\<lambda>v. case v of VGuid b \<Rightarrow> b"])
       (use leaf(6) that comparison_guid [of _ "\<lambda>x. x"] in auto)
  have node: "comparison ?P (\<lambda>p1 p2. case (p1, p2) of (VNodeId a, VNodeId b) \<Rightarrow> Some (nodeIdOrder a b) | _ \<Rightarrow> None)"
    if "kind_at env t = DK_NODEID"
    by (rule order_leaf [of ?P VNodeId _ nodeIdOrder "\<lambda>v. case v of VNodeId b \<Rightarrow> b"])
       (use leaf(7) that comparison_nodeid [of _ "\<lambda>x. x"] in \<open>auto simp: nodeIdOrder_def\<close>)
  have expanded: "comparison ?P (\<lambda>p1 p2. case (p1, p2) of
      (VExpandedNodeId a, VExpandedNodeId b) \<Rightarrow> Some (expandedNodeIdOrder a b) | _ \<Rightarrow> None)"
    if "kind_at env t = DK_EXPANDEDNODEID"
    by (rule order_leaf [of ?P VExpandedNodeId _ expandedNodeIdOrder "\<lambda>v. case v of VExpandedNodeId b \<Rightarrow> b"])
       (use leaf(8) that comparison_expanded [of _ "\<lambda>x. x"] in \<open>auto simp: expandedNodeIdOrder_def\<close>)
  have qname: "comparison ?P (\<lambda>p1 p2. case (p1, p2) of
      (VQualifiedName n1 s1, VQualifiedName n2 s2) \<Rightarrow> Some (qualifiedNameOrder n1 s1 n2 s2) | _ \<Rightarrow> None)"
    if k: "kind_at env t = DK_QUALIFIEDNAME"
  proof (rule comparison_cong)
    show "comparison ?P (\<lambda>x y. or_next
        (Some (UA_NUMERICORDER (case x of VQualifiedName a _ \<Rightarrow> a) (case y of VQualifiedName a _ \<Rightarrow> a)))
        (Some (stringOrder (case x of VQualifiedName _ a \<Rightarrow> a) (case y of VQualifiedName _ a \<Rightarrow> a))))"
      by (intro comparison_next comparison_numeric comparison_string)
  qed (use leaf(9) k in \<open>auto simp: qualifiedNameOrder_def or_next_def UA_NUMERICORDER_def dest!: leaf(9)\<close>)
  have ltext: "comparison ?P (\<lambda>p1 p2. case (p1, p2) of
      (VLocalizedText l1 s1, VLocalizedText l2 s2) \<Rightarrow> Some (localizedTextOrder l1 s1 l2 s2) | _ \<Rightarrow> None)"
    if k: "kind_at env t = DK_LOCALIZEDTEXT"
  proof (rule comparison_cong)
    show "comparison ?P (\<lambda>x y. or_next
        (Some (stringOrder (case x of VLocalizedText a _ \<Rightarrow> a) (case y of VLocalizedText a _ \<Rightarrow> a)))
        (Some (stringOrder (case x of VLocalizedText _ a \<Rightarrow> a) (case y of VLocalizedText _ a \<Rightarrow> a))))"
      by (intro comparison_next comparison_string)
  qed (use leaf(10) k in \<open>auto simp: localizedTextOrder_def or_next_def Let_def dest!: leaf(10)\<close>)
  have eo: "comparison ?P (extensionObjectOrder jt)" if "kind_at env t = DK_EXTENSIONOBJECT"
    by (rule comparison_weaken [OF comparison_extension_object [OF jt, of t]]) (use that wf in blast)
  have dv: "comparison ?P (dataValueOrder jt)" if "kind_at env t = DK_DATAVALUE"
    by (rule comparison_weaken [OF comparison_data_value [OF env(1) jt, of t]]) (use that wf in blast)
  have var: "comparison ?P (variantOrder jt)" if "kind_at env t = DK_VARIANT"
    by (rule comparison_weaken [OF comparison_variant [OF jt, of t]]) (use that wf in blast)
  have diag: "comparison ?P diagnosticInfoOrder" if "kind_at env t = DK_DIAGNOSTICINFO"
    by (rule comparison_weaken [OF comparison_diagnostic_info [OF env(1), of t "Suc n"]])
       (use that wf in \<open>auto simp: less_Suc_eq_le\<close>)
  have struct: "comparison ?P (structureOrder env jt t)" if "kind_at env t \<in> {DK_STRUCTURE, DK_OPTSTRUCT}"
    by (rule comparison_weaken [OF comparison_structure [OF env(2) jt, of t]]) (use that wf in blast)
  have un: "comparison ?P (unionOrder env jt t)" if "kind_at env t = DK_UNION"
    by (rule comparison_weaken [OF comparison_union [OF jt, of t]]) (use that wf in blast)
  note kinds = kind8_def kind16_def kind32_def kind64_def kind_string_def
  have unfold: "order_dispatch env jt t = (\<lambda>p1 p2. order_dispatch env jt t p1 p2)" by simp
  show ?thesis
    by (cases "kind_at env t"; subst unfold; unfold order_dispatch_def; simp only: UA_DataTypeKind.case)
       (rule 8 16 32 64 str guid node expanded qname ltext eo dv var diag struct un comparison_const;
        (rule num)?; simp add: kinds)+
qed

theorem comparison_table:
  assumes "builtin_env env" "plain_members env"
  shows "comparison (ordered_val env te n t) (orderJumpTable env n t)"
proof (induction n arbitrary: t)
  case 0
  show ?case by (intro comparison.intro) (auto simp: ordered_val_def)
next
  case (Suc n)
  from comparison_dispatch [OF assms this] show ?case by (rule comparison_cong) simp
qed

section \<open>More fuel\<close>

text \<open>A result of the table stays the same with more fuel.\<close>

definition extends :: "('a \<Rightarrow> 'a \<Rightarrow> UA_Order option) \<Rightarrow> ('a \<Rightarrow> 'a \<Rightarrow> UA_Order option) \<Rightarrow> bool" where
  "extends f g = (\<forall>x y r. f x y = Some r \<longrightarrow> g x y = Some r)"

lemma extendsD: "extends f g \<Longrightarrow> f x y = Some r \<Longrightarrow> g x y = Some r"
  by (simp add: extends_def)

lemma or_next_Some: "or_next a b = Some r \<longleftrightarrow> (a = Some r \<and> r \<noteq> UA_ORDER_EQ \<or> a = Some UA_ORDER_EQ \<and> b = Some r)"
  by (auto simp: or_next_def split: option.splits)

lemma extends_elems: "extends f g \<Longrightarrow> elemsOrder f xs ys = Some r \<Longrightarrow> elemsOrder g xs ys = Some r"
  by (induction xs ys arbitrary: r rule: list_induct2') (auto simp: or_next_Some dest: extendsD)

lemma extends_array: "extends f g \<Longrightarrow> arrayOrder f a b = Some r \<Longrightarrow> arrayOrder g a b = Some r"
  by (auto simp: arrayOrder_def split: if_splits option.splits intro: extends_elems)

lemma extends_flagged: "extends f g \<Longrightarrow> flaggedOrder f a b = Some r \<Longrightarrow> flaggedOrder g a b = Some r"
  by (auto simp: flaggedOrder_def split: option.splits dest: extendsD)

lemma extends_variant: "\<forall>t. extends (f t) (g t) \<Longrightarrow> extends (variantOrder f) (variantOrder g)"
  unfolding extends_def [of "variantOrder f"] variantOrder_def variant_content_order_def
  by (auto simp: or_next_Some split: if_splits ua_val.splits dest: extendsD intro: extends_array)

lemma extends_eo: "\<forall>t. extends (f t) (g t) \<Longrightarrow> extensionObjectOrder f x y = Some r \<Longrightarrow> extensionObjectOrder g x y = Some r"
  by (induction f x y rule: extensionObjectOrder.induct)
     (auto simp: Let_def split: option.splits dest: extendsD)

lemma extends_data_value: "\<forall>t. extends (f t) (g t) \<Longrightarrow> dataValueOrder f x y = Some r \<Longrightarrow> dataValueOrder g x y = Some r"
  using extends_variant [of f g]
  by (induction f x y rule: dataValueOrder.induct) (auto simp: or_next_Some intro: extends_flagged)

lemma extends_member: "\<forall>t. extends (f t) (g t) \<Longrightarrow> memberOrder f m x y = Some r \<Longrightarrow> memberOrder g m x y = Some r"
  by (induction f m x y rule: memberOrder.induct)
     (auto split: if_splits dest: extendsD intro: extends_array extends_flagged)

lemma extends_members: "\<forall>t. extends (f t) (g t) \<Longrightarrow> membersOrder f ms x y = Some r \<Longrightarrow> membersOrder g ms x y = Some r"
  by (induction f ms x y rule: membersOrder.induct) (auto simp: or_next_Some dest: extends_member)

lemma extends_union_member:
  "\<forall>t. extends (f t) (g t) \<Longrightarrow> union_memberOrder f m x y = Some r \<Longrightarrow> union_memberOrder g m x y = Some r"
  by (induction f m x y rule: union_memberOrder.induct) (auto split: if_splits dest: extendsD intro: extends_array)

lemma extends_structure:
  "\<forall>t. extends (f t) (g t) \<Longrightarrow> structureOrder env f t x y = Some r \<Longrightarrow> structureOrder env g t x y = Some r"
  by (induction env f t x y rule: structureOrder.induct) (auto intro: extends_members)

lemma extends_union:
  "\<forall>t. extends (f t) (g t) \<Longrightarrow> unionOrder env f t x y = Some r \<Longrightarrow> unionOrder env g t x y = Some r"
  by (induction env f t x y rule: unionOrder.induct) (auto split: if_splits intro: extends_union_member)

lemma extends_dispatch:
  assumes "\<forall>t. extends (f t) (g t)" "order_dispatch env f t x y = Some r"
  shows "order_dispatch env g t x y = Some r"
  using assms(2) extendsD [OF extends_variant [OF assms(1)]] extends_eo [OF assms(1)] extends_data_value [OF assms(1)]
    extends_structure [OF assms(1)] extends_union [OF assms(1)]
  by (cases "kind_at env t") (simp_all add: order_dispatch_def)

lemma orderJumpTable_more: "n \<le> m \<Longrightarrow> extends (orderJumpTable env n t) (orderJumpTable env m t)"
proof (induction n arbitrary: t m)
  case 0
  show ?case by (simp add: extends_def)
next
  case (Suc n)
  then obtain m' where m: "m = Suc m'" "n \<le> m'" by (cases m) auto
  have "\<forall>t. extends (orderJumpTable env n t) (orderJumpTable env m' t)" using Suc.IH m(2) by blast
  then show ?case using extends_dispatch by (simp add: extends_def m)
qed

end
