(* ===== verification/Value_Claims.thy ===== *)
theory Value_Claims
  imports Value_Order_Rules Binary_Complete
begin

text \<open>
  What \<^verbatim>\<open>UA_order\<close> promises: no confusion of types on well-typed values whose decoded extension objects
  have one type, a total preorder, the confusion otherwise, and that equal node ids have equal hashes.
\<close>

section \<open>The contract of the order\<close>

definition typed_value :: "type_env \<Rightarrow> tyref \<Rightarrow> tyref \<Rightarrow> ua_val \<Rightarrow> bool" where
  "typed_value env te t v = (builtin_env env \<and> plain_members env \<and> wf_val env t v \<and> set (eo_types v) \<subseteq> {te})"

lemma UA_order_table:
  assumes "typed_value env te t x" "typed_value env te t y" "size x < n" "size y < n"
  shows "UA_order env x y t = orderJumpTable env n t x y"
proof -
  have table: "comparison (ordered_val env te (Suc (size x + size y)) t) (orderJumpTable env (Suc (size x + size y)) t)"
    using assms(1) by (intro comparison_table) (simp_all add: typed_value_def)
  note defined = comparison.defined [OF table]
  obtain r where r: "orderJumpTable env (Suc (size x + size y)) t x y = Some r"
    using defined [of x y] assms by (auto simp: ordered_val_def typed_value_def)
  have table_big: "comparison (ordered_val env te n t) (orderJumpTable env n t)"
    using assms(1) by (intro comparison_table) (simp_all add: typed_value_def)
  note big_defined = comparison.defined [OF table_big]
  obtain r' where r': "orderJumpTable env n t x y = Some r'"
    using big_defined [of x y] assms by (auto simp: ordered_val_def typed_value_def)
  let ?m = "max n (Suc (size x + size y))"
  have "orderJumpTable env ?m t x y = Some r" "orderJumpTable env ?m t x y = Some r'"
    by (rule extendsD [OF orderJumpTable_more r] extendsD [OF orderJumpTable_more r'], simp)+
  then show ?thesis using r r' by (simp add: UA_order_def)
qed

lemma comparison_UA_order: "comparison (typed_value env te t) (\<lambda>x y. UA_order env x y t)"
proof
  fix x y assume xy: "typed_value env te t x" "typed_value env te t y"
  let ?n = "Suc (size x + size y)"
  have table: "comparison (ordered_val env te ?n t) (orderJumpTable env ?n t)"
    using xy by (intro comparison_table) (simp_all add: typed_value_def)
  note defined = comparison.defined [OF table]
  note turned = comparison.turned [OF table]
  note chain = comparison.chain [OF table]
  have o: "ordered_val env te ?n t x" "ordered_val env te ?n t y"
    using xy by (auto simp: ordered_val_def typed_value_def)
  have t: "UA_order env x y t = orderJumpTable env ?n t x y" "UA_order env y x t = orderJumpTable env ?n t y x"
    by (rule UA_order_table [OF xy] UA_order_table [OF xy(2,1)]; simp)+
  show "\<exists>r. UA_order env x y t = Some r" unfolding t(1) by (rule defined [OF o])
  show "UA_order env y x t = map_option flip (UA_order env x y t)" unfolding t by (rule turned [OF o])
next
  fix x y z r r'
  assume xyz: "typed_value env te t x" "typed_value env te t y" "typed_value env te t z"
    and c: "UA_order env x y t = Some r" "UA_order env y z t = Some r'" and a: "agree r r'"
  let ?n = "Suc (size x + size y + size z)"
  have table: "comparison (ordered_val env te ?n t) (orderJumpTable env ?n t)"
    using xyz by (intro comparison_table) (simp_all add: typed_value_def)
  note defined = comparison.defined [OF table]
  note turned = comparison.turned [OF table]
  note chain = comparison.chain [OF table]
  have o: "ordered_val env te ?n t x" "ordered_val env te ?n t y" "ordered_val env te ?n t z"
    using xyz by (auto simp: ordered_val_def typed_value_def)
  have t: "UA_order env x y t = orderJumpTable env ?n t x y" "UA_order env y z t = orderJumpTable env ?n t y z"
    "UA_order env x z t = orderJumpTable env ?n t x z"
    by (rule UA_order_table [OF xyz(1,2)] UA_order_table [OF xyz(2,3)] UA_order_table [OF xyz(1,3)]; simp)+
  show "UA_order env x z t = Some (or_else r r')" unfolding t(3) using chain [OF o _ _ a] c t by simp
qed

interpretation value_order: comparison "typed_value env te t" "\<lambda>x y. UA_order env x y t" for env te t
  by (rule comparison_UA_order)

interpretation node_ids: comparison "\<lambda>n. True" "\<lambda>n1 n2. Some (UA_NodeId_order n1 n2)"
  by (rule comparison_nodeid)

interpretation expanded_node_ids: comparison "\<lambda>n. True" "\<lambda>n1 n2. Some (UA_ExpandedNodeId_order n1 n2)"
  by (rule comparison_expanded)

lemma demo_plain: "plain_members demo_env"
  by (auto simp: plain_members_def demo_env_def demo_members_def builtin_kind_list_def)

lemma demo_typed: "typed_value demo_env te UA_TYPES_VARIANT demo_val"
  using demo_wf(1) demo_builtin_env demo_plain by (simp add: typed_value_def demo_val_def demo_struct_def)

text \<open>
  C30: Comparing well-typed values never confuses types. If two values are well-typed at the type given to
  UA_order, in a type table with the documented layout, and the decoded extension objects nested in them
  have at most one type, then the comparison reads memory only with the layout of what is stored there and
  gives a result.
\<close>

theorem UA_order_type_safe:
  assumes "builtin_env env" "plain_members env" "wf_val env t x" "wf_val env t y"
    and "\<exists>te. set (eo_types x) \<union> set (eo_types y) \<subseteq> {te}"
  shows "\<exists>r. UA_order env x y t = Some r"
proof -
  obtain te where te: "set (eo_types x) \<subseteq> {te}" "set (eo_types y) \<subseteq> {te}" using assms(5) by blast
  show ?thesis by (rule value_order.defined [of env te]) (use te assms(1-4) in \<open>simp_all add: typed_value_def\<close>)
qed

theorem UA_order_type_safe_witness:
  "\<exists>r. UA_order demo_env demo_val VVariantEmpty UA_TYPES_VARIANT = Some r"
  by (rule UA_order_type_safe [OF demo_builtin_env demo_plain demo_wf(1)])
     (auto simp: demo_val_def demo_struct_def demo_env_def builtin_kind_list_def)

text \<open>
  C29: UA_order is a total preorder on well-typed values (whose decoded extension objects have the type te):
  a value equals itself, exchanging the arguments turns the result round, and if two comparisons in a row
  do not contradict each other, then the outer values compare in that direction, strictly if one of the two
  is strict. So sorting and searching by it are sound, also with floats that are not a number.
\<close>

theorem UA_order_total_preorder:
  assumes "typed_value env te t x" "typed_value env te t y" "typed_value env te t z"
  shows "UA_order env x x t = Some UA_ORDER_EQ \<and>
    UA_order env y x t = map_option flip (UA_order env x y t) \<and>
    (\<forall>r r'. UA_order env x y t = Some r \<longrightarrow> UA_order env y z t = Some r' \<longrightarrow>
       r = UA_ORDER_EQ \<or> r' = UA_ORDER_EQ \<or> r = r' \<longrightarrow>
       UA_order env x z t = Some (if r \<noteq> UA_ORDER_EQ then r else r'))"
  using value_order.reflexive [OF assms(1)] value_order.turned [OF assms(1,2)] value_order.chain [OF assms]
  by (auto simp: agree_def or_else_def)

theorem UA_order_total_preorder_witness:
  "UA_order demo_env demo_val demo_val UA_TYPES_VARIANT = Some UA_ORDER_EQ"
  using UA_order_total_preorder [OF demo_typed demo_typed demo_typed] by blast

text \<open>
  C31: Two decoded extension objects of different types are compared with the type of the first one. Take
  well-typed extension objects, the first holding a 64-bit number and the second a string: the comparison
  does not order them by their types, it reads the string as a number (or, exchanged, the number as a
  string). The result is undefined in both directions.
\<close>

theorem extension_objects_of_two_types_are_confused:
  assumes "wf_val env t (VDecodedEO (Some t1) (Some (VU64 d)))" "wf_val env t (VDecodedEO (Some t2) (Some (VString s)))"
  shows "UA_order env (VDecodedEO (Some t1) (Some (VU64 d))) (VDecodedEO (Some t2) (Some (VString s))) t = None \<and>
    UA_order env (VDecodedEO (Some t2) (Some (VString s))) (VDecodedEO (Some t1) (Some (VU64 d))) t = None"
proof -
  have k: "kind_at env t = DK_EXTENSIONOBJECT" "kind64 (kind_at env t1)" "kind_string (kind_at env t2)"
    using assms by simp_all
  have 1: "order_dispatch env jt t1 (VU64 d) (VString s) = None" for jt
    using k(2) by (auto simp: kind64_def order_dispatch_def order64_def)
  have 2: "order_dispatch env jt t2 (VString s) (VU64 d) = None" for jt
    using k(3) by (auto simp: kind_string_def order_dispatch_def order_string_def)
  show ?thesis using k(1) 1 2 by (simp add: UA_order_def order_dispatch_def [of env _ t])
qed

theorem extension_objects_of_two_types_are_confused_witness:
  "UA_order demo_env (VDecodedEO (Some 8) (Some (VU64 1))) (VDecodedEO (Some 11) (Some (VString (Some [97]))))
     UA_TYPES_EXTENSIONOBJECT = None"
  using extension_objects_of_two_types_are_confused [of demo_env UA_TYPES_EXTENSIONOBJECT 8 1 11 "Some [97]"]
  by (simp add: demo_defs kind64_def)

text \<open>
  Node ids that compare as equal have the same hash, and so have expanded node ids: a node found by its
  hash in the node store is the node the comparison means.
\<close>

theorem equal_node_ids_have_equal_hashes:
  "(UA_NodeId_order n1 n2 = UA_ORDER_EQ \<longrightarrow> UA_NodeId_hash n1 = UA_NodeId_hash n2) \<and>
   (UA_ExpandedNodeId_order e1 e2 = UA_ORDER_EQ \<longrightarrow> UA_ExpandedNodeId_hash e1 = UA_ExpandedNodeId_hash e2)"
proof -
  have node: "UA_NodeId_hash n1 = UA_NodeId_hash n2" if "UA_NodeId_order n1 n2 = UA_ORDER_EQ" for n1 n2
    using UA_NodeId_order_EQ [OF that]
    by (cases "nid n1"; cases "nid n2")
       (auto simp: UA_NodeId_hash_def identifierOrder_def stringOrder_EQ guidOrder_EQ split: if_splits)
  have "UA_ExpandedNodeId_hash e1 = UA_ExpandedNodeId_hash e2" if "UA_ExpandedNodeId_order e1 e2 = UA_ORDER_EQ"
  proof -
    have "serverIndex e1 = serverIndex e2" "namespaceUri e1 = namespaceUri e2"
      "UA_NodeId_order (nodeId e1) (nodeId e2) = UA_ORDER_EQ"
      using that by (auto simp: UA_ExpandedNodeId_order_def or_else_def stringOrder_EQ split: if_splits)
    then show ?thesis using node by (simp add: UA_ExpandedNodeId_hash_def Let_def)
  qed
  with node show ?thesis by blast
qed

theorem equal_node_ids_have_equal_hashes_witness:
  "UA_NodeId_hash (numeric_id 85) = UA_NodeId_hash (numeric_id 85)"
  using equal_node_ids_have_equal_hashes [of "numeric_id 85" "numeric_id 85"] node_ids.reflexive [of "numeric_id 85"]
  by simp

end
