(* ===== verification/Sub_Detect_Rules.thy ===== *)
theory Sub_Detect_Rules
  imports Sub_Detect Value_Claims Sub_Queue
begin

text \<open>
  What the detection of value changes promises, and where it fails: an unchanged value is never reported; a
  deadband on a narrow signed type misses the largest changes; a deadband on a variable that may hold both
  an array and a scalar reads through the sentinel of an empty array; and an item that reports status
  changes only stays silent when it is enabled again.
\<close>

section \<open>Unchanged values\<close>

definition nonnegative :: "UA_Double \<Rightarrow> bool" where
  "nonnegative d = (\<not> ieee_less d (Finite 0))"

lemma ieee_same: "(x = NaN \<or> x = PosInf \<or> x = NegInf \<or> ieee_sub rnd x x = Finite (rnd 0))"
  by (cases x) simp_all

lemma detect_same:
  assumes "nonnegative d" "rd 0 = 0" "rf 0 = 0" "wf_val env t x" "UA_DataType_isNumeric (kind_at env t)"
  shows "detectScalarDeadBand rf rd (kind_at env t) d x x = Some False"
proof -
  have ieee: "detect_ieee rnd v v d = Some False" if "rnd 0 = 0" for rnd v
    using that assms(1) by (cases v) (auto simp: detect_ieee_def above_def nonnegative_def)
  have zero: "\<not> above (double_of_int rd 0) d" using assms(1) by (simp add: above_def double_of_int_def nonnegative_def)
  note leaf = wf_leaf [OF assms(4)]
  consider "kind8 (kind_at env t)" | "kind16 (kind_at env t)" | "kind32 (kind_at env t)" | "kind64 (kind_at env t)"
    using assms(5) by (auto simp: UA_DataType_isNumeric_def kind8_def kind16_def kind32_def kind64_def)
  then show ?thesis
  proof cases
    case 1
    with leaf(1) obtain b where "x = VU8 b" by blast
    then show ?thesis using 1 assms(5) zero
      by (auto simp: detectScalarDeadBand_def kind8_def UA_DataType_isNumeric_def detect_narrow_def detect_unsigned_def)
  next
    case 2
    with leaf(2) obtain b where "x = VU16 b" by blast
    then show ?thesis using 2 assms(5) zero
      by (auto simp: detectScalarDeadBand_def kind16_def UA_DataType_isNumeric_def detect_narrow_def detect_unsigned_def)
  next
    case 3
    with leaf(3) obtain b where "x = VU32 b" by blast
    then show ?thesis using 3 assms(5) zero ieee [of rf] assms(3)
      by (auto simp: detectScalarDeadBand_def kind32_def UA_DataType_isNumeric_def detect_wide_def detect_unsigned_def)
  next
    case 4
    with leaf(4) obtain b where "x = VU64 b" by blast
    then show ?thesis using 4 assms(5) zero ieee [of rd] assms(2)
      by (auto simp: detectScalarDeadBand_def kind64_def UA_DataType_isNumeric_def detect_wide_def detect_unsigned_def)
  qed
qed

lemma deadband_loop_same:
  "(\<And>x. x \<in> set xs \<Longrightarrow> f x x = Some False) \<Longrightarrow> deadband_loop f (length xs) xs xs = Some False"
  by (induction xs) auto

lemma variant_deadband_same:
  assumes "nonnegative d" "rd 0 = 0" "rf 0 = 0" "wf_val env ty v" "kind_at env ty = DK_VARIANT" "is_numeric_variant env v"
  shows "detectVariantDeadband env rf rd v v d = Some False"
proof -
  from assms(6) obtain t where t: "variant_type v = Some t" "UA_DataType_isNumeric (kind_at env t)"
    by (auto simp: is_numeric_variant_def split: option.splits)
  have len: "(if \<not> UA_Variant_isScalar v then variant_length v else 1) = length (variant_elements v)"
    using t(1) by (cases v) (auto split: option.splits simp: array_elems_def array_length_def)
  have el: "wf_val env t x" if "x \<in> set (variant_elements v)" for x
    using that t(1) assms(4) by (cases v) (auto simp: array_elems_def split: option.splits)
  show ?thesis unfolding detectVariantDeadband_def len Let_def
    using deadband_loop_same [of "variant_elements v"] detect_same [where rd = rd and rf = rf, OF assms(1-3) el t(2)] t(1) by simp
qed

text \<open>
  C32: Sampling the same value again reports nothing. If a sample equals the value that was reported last, is
  well-typed, and a deadband (if the item has one) is not negative, then the decision is "no change" for
  every filter, and the sampling callback leaves the whole server as it was. This uses that the order of
  values is reflexive, also for numbers that are not a number.
\<close>

theorem unchanged_value_not_reported:
  assumes v: "rdv s (the_mon s m) = mon_lastValue (the_mon s m)"
    and t: "typed_value env te UA_TYPES_VARIANT (dv_value (mon_lastValue (the_mon s m)))"
    and f: "\<And>f. mon_filter (the_mon s m) = DataChangeFilter f \<Longrightarrow> \<not> ieee_less (dcf_deadbandValue f) (Finite 0)"
    and r: "rd 0 = 0" "rf 0 = 0"
  shows "detectValueChange env rf rd (the_mon s m) (mon_lastValue (the_mon s m)) = Some False \<and>
    monitoredItem_sampleCallback rdv (value_changed env rf rd) m s = s"
proof -
  let ?v = "mon_lastValue (the_mon s m)"
  have o: "UA_order env (dv_value ?v) (dv_value ?v) UA_TYPES_VARIANT = Some UA_ORDER_EQ"
    by (rule value_order.reflexive [OF t])
  have wf: "wf_val env UA_TYPES_VARIANT (dv_value ?v)" "kind_at env UA_TYPES_VARIANT = DK_VARIANT"
    using t builtin_kinds(1) [of env] by (auto simp: typed_value_def)
  have d: "detectVariantDeadband env rf rd (dv_value ?v) (dv_value ?v) (dcf_deadbandValue g) = Some False"
    if "data_change_filter (mon_filter (the_mon s m)) = Some g" "is_numeric_variant env (dv_value ?v)" for g
    using that f [of g] by (intro variant_deadband_same [where rd = rd and rf = rf, OF _ r wf])
      (auto simp: nonnegative_def elim: data_change_filter.elims)
  have "detectValueChange env rf rd (the_mon s m) ?v = Some False"
    using o d by (auto simp: detectValueChange_def Let_def)
  then show ?thesis
    by (simp add: monitoredItem_sampleCallback_def sampleCallbackWithValue_def v value_changed_def)
qed

section \<open>Deadbands\<close>

lemma sint_abs_diff:
  fixes a b :: "'a::len word"
  shows "\<bar>sint a - sint b\<bar> < 2 ^ LENGTH('a)"
  using sint_less [of a] sint_less [of b] sint_ge [of a] sint_ge [of b]
  by (cases "LENGTH('a)") auto

lemma detect_narrow_eq:
  fixes a b :: "'a::len word"
  assumes "LENGTH('a) \<le> 53"
  shows "detect_narrow rd a b d =
    Some (above (Finite (of_int (if \<bar>sint a - sint b\<bar> < 2 ^ (LENGTH('a) - 1) then \<bar>sint a - sint b\<bar>
                                 else \<bar>sint a - sint b\<bar> - 2 ^ LENGTH('a)))) d)"
proof -
  let ?n = "\<bar>sint a - sint b\<bar>"
  have n: "(if sint a > sint b then word_of_int (sint a - sint b) else word_of_int (sint b - sint a)) = (word_of_int ?n :: 'a word)"
    by auto
  have p: "(2 :: int) ^ LENGTH('a) = 2 * 2 ^ (LENGTH('a) - 1)" by (cases "LENGTH('a)") auto
  have s: "sint (word_of_int ?n :: 'a word) = (if ?n < 2 ^ (LENGTH('a) - 1) then ?n else ?n - 2 ^ LENGTH('a))"
  proof (cases "?n < 2 ^ (LENGTH('a) - 1)")
    case True
    have "signed_take_bit (LENGTH('a) - 1) ?n = ?n"
      by (rule signed_take_bit_int_eq_self) (use True in auto)
    with True show ?thesis by (simp add: signed_of_int)
  next
    case False
    have "sint (word_of_int ?n :: 'a word) = sint (word_of_int (?n - 2 ^ LENGTH('a)) :: 'a word)"
      by (simp add: wi_hom_sub [symmetric])
    also have "\<dots> = ?n - 2 ^ LENGTH('a)"
    proof -
      have "signed_take_bit (LENGTH('a) - 1) (?n - 2 ^ LENGTH('a)) = ?n - 2 ^ LENGTH('a)"
        by (rule signed_take_bit_int_eq_self) (use False sint_abs_diff [of a b] p in auto)
      then show ?thesis unfolding signed_of_int by simp
    qed
    finally show ?thesis using False by simp
  qed
  have b: "\<bar>if ?n < 2 ^ (LENGTH('a) - 1) then ?n else ?n - 2 ^ LENGTH('a)\<bar> \<le> 2 ^ 53"
  proof -
    have "\<bar>if ?n < 2 ^ (LENGTH('a) - 1) then ?n else ?n - 2 ^ LENGTH('a)\<bar> \<le> 2 ^ LENGTH('a)"
      using sint_abs_diff [of a b] p by auto
    also have "\<dots> \<le> 2 ^ 53" using assms by (intro power_increasing) auto
    finally show ?thesis .
  qed
  show ?thesis unfolding detect_narrow_def Let_def n s double_of_int_def using b by simp
qed

text \<open>
  C33: A deadband on a signed type that is narrower than int works for changes of less than half the range of
  the type, and misses every larger one. For SByte (and likewise for Int16), a change by a distance below
  128 is reported exactly when it exceeds the deadband; a change by 128 or more is never reported, for any
  deadband that is not negative, because the difference is cast back to the type and becomes negative.
\<close>

theorem narrow_deadband_misses_large_changes:
  fixes a b :: u8 and v w :: u16
  assumes "\<not> ieee_less d (Finite 0)"
  shows "detectScalarDeadBand rf rd DK_SBYTE d (VU8 a) (VU8 b) =
      Some (\<bar>sint a - sint b\<bar> < 128 \<and> ieee_less d (Finite (of_int \<bar>sint a - sint b\<bar>))) \<and>
    detectScalarDeadBand rf rd DK_INT16 d (VU16 v) (VU16 w) =
      Some (\<bar>sint v - sint w\<bar> < 32768 \<and> ieee_less d (Finite (of_int \<bar>sint v - sint w\<bar>)))"
proof -
  have neg: "\<not> ieee_less d (Finite (of_int n))" if "n < 0" for n
    using assms that by (cases d) (auto dest: less_le_trans [of _ "of_int n" 0] less_trans [of _ "of_int n" 0])
  have "\<not> ieee_less d (Finite (of_int (\<bar>sint a - sint b\<bar> - 256)))" "\<not> ieee_less d (Finite (of_int (\<bar>sint v - sint w\<bar> - 65536)))"
    by (rule neg; use sint_abs_diff [of a b] sint_abs_diff [of v w] in simp)+
  then show ?thesis
    by (cases "\<bar>sint a - sint b\<bar> < 128"; cases "\<bar>sint v - sint w\<bar> < 32768")
       (simp_all add: detectScalarDeadBand_def detect_narrow_eq above_def)
qed

theorem narrow_deadband_misses_large_changes_witness:
  "detectScalarDeadBand (\<lambda>x. x) (\<lambda>x. x) DK_SBYTE (Finite 10) (VU8 100) (VU8 (- 100)) = Some False"
  using narrow_deadband_misses_large_changes [of "Finite 10" "\<lambda>x. x" "\<lambda>x. x" 100 "- 100" 0 0] by simp

text \<open>
  A deadband follows a data pointer that is none. For an item with an absolute deadband, a numeric scalar
  that comes after an empty array of the same type (status unchanged) makes detectVariantDeadband read the
  old value through the pointer of the empty array, which is NULL or the sentinel 1: undefined behaviour. In
  the other direction the change from a scalar to an empty array is not reported.
\<close>

theorem deadband_reads_through_empty_array:
  assumes f: "mon_filter i = DataChangeFilter f" "dcf_deadbandType f = UA_DEADBANDTYPE_ABSOLUTE"
      "dcf_trigger f \<noteq> UA_DATACHANGETRIGGER_STATUS"
    and a: "a = None \<or> a = Some []"
    and n: "UA_DataType_isNumeric (kind_at env t)"
    and st: "dv_hasStatus value = dv_hasStatus (mon_lastValue i)" "dv_status value = dv_status (mon_lastValue i)"
  shows "(dv_value value = VVariantScalar t x \<and> dv_value (mon_lastValue i) = VVariantArray t a dims \<longrightarrow>
      detectValueChange env rf rd i value = None) \<and>
    (dv_value value = VVariantArray t a dims \<and> dv_value (mon_lastValue i) = VVariantScalar t x \<longrightarrow>
      detectValueChange env rf rd i value = Some False)"
proof -
  have e: "array_elems a = []" "array_length a = 0" using a by auto
  have d: "detectValueChange env rf rd i value =
      detectVariantDeadband env rf rd (dv_value value) (dv_value (mon_lastValue i)) (dcf_deadbandValue f)"
    if "variant_type (dv_value value) = Some t"
    using that f n st by (simp add: detectValueChange_def is_numeric_variant_def)
  show ?thesis using d e by (auto simp: detectVariantDeadband_def)
qed

section \<open>Enabling an item again\<close>

lemma registerSampling_keeps:
  assumes "srv_monitored s m \<noteq> None" "UA_MonitoredItem_registerSampling m s = (res, t)"
  shows "srv_notifications t = srv_notifications s" "srv_monitored t m \<noteq> None"
    "mon_queue (the_mon t m) = mon_queue (the_mon s m)" "mon_lastValue (the_mon t m) = mon_lastValue (the_mon s m)"
    "mon_filter (the_mon t m) = mon_filter (the_mon s m)" "mon_attributeId (the_mon t m) = mon_attributeId (the_mon s m)"
    "mon_subscription (the_mon t m) = mon_subscription (the_mon s m)"
  using assms
  by (auto simp: UA_MonitoredItem_registerSampling_def Let_def addRepeatedCallback_def malloc_def
      the_mon_def mod_mon_def mod_sub_def upd_at_def
      split: if_splits prod.splits option.splits list.splits)

lemma unregisterSampling_keeps:
  assumes "srv_monitored s m \<noteq> None"
  defines "t \<equiv> UA_MonitoredItem_unregisterSampling m s"
  shows "srv_notifications t = srv_notifications s" "srv_monitored t m \<noteq> None"
    "mon_queue (the_mon t m) = mon_queue (the_mon s m)" "mon_lastValue (the_mon t m) = mon_lastValue (the_mon s m)"
    "mon_filter (the_mon t m) = mon_filter (the_mon s m)" "mon_attributeId (the_mon t m) = mon_attributeId (the_mon s m)"
    "mon_subscription (the_mon t m) = mon_subscription (the_mon s m)"
    "mon_monitoringMode (the_mon t m) = mon_monitoringMode (the_mon s m)"
  using assms
  by (auto simp: UA_MonitoredItem_unregisterSampling_def Let_def removeCallback_def
      the_mon_def mod_mon_def mod_sub_def upd_at_def
      split: UA_MonitoredItemSamplingType.splits)

lemma disable_empty_item:
  assumes m: "srv_monitored s m \<noteq> None" and q: "mon_queue (the_mon s m) = []"
    and t: "UA_MonitoredItem_setMonitoringMode rdv changed m UA_MONITORINGMODE_DISABLED s = (res, t)"
  shows "res = GOOD" "srv_notifications t = srv_notifications s" "srv_monitored t m \<noteq> None"
    "mon_queue (the_mon t m) = []" "mon_lastValue (the_mon t m) = UA_DataValue_init"
    "mon_filter (the_mon t m) = mon_filter (the_mon s m)" "mon_monitoringMode (the_mon t m) = UA_MONITORINGMODE_DISABLED"
proof -
  define s1 where "s1 = mod_mon m (mon_monitoringMode_update (\<lambda>_. UA_MONITORINGMODE_DISABLED)) s"
  define s2 where "s2 = UA_MonitoredItem_unregisterSampling m s1"
  have s1: "srv_monitored s1 m \<noteq> None" "srv_notifications s1 = srv_notifications s"
    "the_mon s1 m = mon_monitoringMode_update (\<lambda>_. UA_MONITORINGMODE_DISABLED) (the_mon s m)"
    using m by (simp_all add: s1_def)
  note s2 = unregisterSampling_keeps [OF s1(1), folded s2_def]
  have d: "delete_queue m s2 = s2" using s2(3) s1(3) q by (simp add: delete_queue_def)
  have "res = GOOD \<and> t = mod_mon m (mon_lastValue_update (\<lambda>_. UA_DataValue_init)) s2"
    using t d by (simp add: UA_MonitoredItem_setMonitoringMode_def Let_def s1_def s2_def
        UA_MONITORINGMODE_DISABLED_def UA_MONITORINGMODE_REPORTING_def)
  then show "res = GOOD" "srv_notifications t = srv_notifications s" "srv_monitored t m \<noteq> None"
    "mon_queue (the_mon t m) = []" "mon_lastValue (the_mon t m) = UA_DataValue_init"
    "mon_filter (the_mon t m) = mon_filter (the_mon s m)" "mon_monitoringMode (the_mon t m) = UA_MONITORINGMODE_DISABLED"
    using s1 s2 q by simp_all
qed

text \<open>
  An item that reports status changes only stays silent when it is enabled again. Take an item with an
  empty queue whose filter has the trigger STATUS, disable it, and set it to REPORTING. Whatever is read (with
  a good status), no notification is created and its queue stays empty, although disabling removes the last
  sample in order to "immediately generate a Notification when re-activated".
\<close>

theorem reactivated_status_item_stays_silent:
  assumes m: "srv_monitored s m \<noteq> None" and q: "mon_queue (the_mon s m) = []"
    and f: "mon_filter (the_mon s m) = DataChangeFilter f" "dcf_trigger f = UA_DATACHANGETRIGGER_STATUS"
    and v: "\<And>t i. \<not> dv_hasStatus (rdv t i) \<and> dv_status (rdv t i) = 0"
    and t: "UA_MonitoredItem_setMonitoringMode rdv (value_changed env rf rd) m UA_MONITORINGMODE_DISABLED s = (res, t)"
    and u: "UA_MonitoredItem_setMonitoringMode rdv (value_changed env rf rd) m UA_MONITORINGMODE_REPORTING t = (res', u)"
  shows "srv_notifications u = srv_notifications s \<and> mon_queue (the_mon u m) = []"
proof -
  note d = disable_empty_item [OF m q t]
  define t1 where "t1 = mod_mon m (mon_monitoringMode_update (\<lambda>_. UA_MONITORINGMODE_REPORTING)) t"
  have t1: "srv_monitored t1 m \<noteq> None" "srv_notifications t1 = srv_notifications s"
    "the_mon t1 m = mon_monitoringMode_update (\<lambda>_. UA_MONITORINGMODE_REPORTING) (the_mon t m)"
    using d by (simp_all add: t1_def)
  have q1: "mon_queue (the_mon t1 m) = []" using t1 d by simp
  obtain r t2 where reg: "UA_MonitoredItem_registerSampling m t1 = (r, t2)" by fastforce
  note t2 = registerSampling_keeps [OF t1(1) reg]
  have "detectValueChange env rf rd (the_mon t2 m) (rdv t2 (the_mon t2 m)) = Some False"
    using t2 t1 d f v by (simp add: detectValueChange_def UA_DataValue_init_def)
  then have sample: "monitoredItem_sampleCallback rdv (value_changed env rf rd) m t2 = t2"
    by (simp add: monitoredItem_sampleCallback_def sampleCallbackWithValue_def value_changed_def)
  have "u = t2 \<or> u = mod_mon m (mon_monitoringMode_update (\<lambda>_. UA_MONITORINGMODE_DISABLED)) t2"
  proof -
    have "UA_MONITORINGMODE_REPORTING \<noteq> UA_MONITORINGMODE_DISABLED"
      by (simp add: UA_MONITORINGMODE_DISABLED_def UA_MONITORINGMODE_REPORTING_def)
    then show ?thesis using u reg q1 sample
      by (auto simp: UA_MonitoredItem_setMonitoringMode_def Let_def t1_def [symmetric] split: if_splits)
  qed
  then show ?thesis using t2 t1 q1 by auto
qed

text \<open>The item of the demonstration state \<open>demo_full\<close> with a filter, read as a good value.\<close>

definition demo_status_filter :: UA_DataChangeFilter where
  "demo_status_filter = \<lparr>dcf_trigger = UA_DATACHANGETRIGGER_STATUS, dcf_deadbandType = UA_DEADBANDTYPE_NONE,
     dcf_deadbandValue = Finite 0\<rparr>"

definition demo_status_item :: UA_Server where
  "demo_status_item = demo_full\<lparr>srv_monitored := [3 \<mapsto> demo_item\<lparr>mon_filter := DataChangeFilter demo_status_filter,
     mon_queue := [], mon_queueSize := 0\<rparr>]\<rparr>"

theorem reactivated_status_item_stays_silent_witness:
  "\<exists>res t res' u. UA_MonitoredItem_setMonitoringMode (\<lambda>t i. UA_DataValue_init) (value_changed demo_env (\<lambda>x. x) (\<lambda>x. x))
       3 UA_MONITORINGMODE_DISABLED demo_status_item = (res, t) \<and>
     UA_MonitoredItem_setMonitoringMode (\<lambda>t i. UA_DataValue_init) (value_changed demo_env (\<lambda>x. x) (\<lambda>x. x))
       3 UA_MONITORINGMODE_REPORTING t = (res', u) \<and> mon_queue (the_mon u 3) = []"
proof -
  let ?set = "UA_MonitoredItem_setMonitoringMode (\<lambda>t i. UA_DataValue_init) (value_changed demo_env (\<lambda>x. x) (\<lambda>x. x)) 3"
  obtain res t where t: "?set UA_MONITORINGMODE_DISABLED demo_status_item = (res, t)" by fastforce
  obtain res' u where u: "?set UA_MONITORINGMODE_REPORTING t = (res', u)" by fastforce
  have "mon_queue (the_mon u 3) = []"
    using reactivated_status_item_stays_silent [of demo_status_item 3 demo_status_filter, OF _ _ _ _ _ t u]
    by (simp add: demo_status_item_def the_mon_def demo_status_filter_def UA_DataValue_init_def)
  with t u show ?thesis by blast
qed

theorem unchanged_value_not_reported_witness:
  "monitoredItem_sampleCallback (\<lambda>s i. UA_DataValue_init) (value_changed demo_env (\<lambda>x. x) (\<lambda>x. x)) 3 demo_full = demo_full"
proof -
  have "typed_value demo_env 0 UA_TYPES_VARIANT VVariantEmpty"
    using demo_typed [of 0] by (simp add: typed_value_def demo_val_def)
  then show ?thesis
    using unchanged_value_not_reported [of "\<lambda>s i. UA_DataValue_init" demo_full 3 demo_env 0 "\<lambda>x. x" "\<lambda>x. x"] demo_full_ok(3)
    by (simp add: demo_item_def UA_DataValue_init_def)
qed

theorem deadband_reads_through_empty_array_witness:
  "detectValueChange demo_env (\<lambda>x. x) (\<lambda>x. x)
     (demo_item\<lparr>mon_filter := DataChangeFilter \<lparr>dcf_trigger = 1, dcf_deadbandType = 1, dcf_deadbandValue = Finite 5\<rparr>,
        mon_lastValue := UA_DataValue_init\<lparr>dv_value := VVariantArray 6 (Some []) [], dv_hasValue := True\<rparr>\<rparr>)
     (UA_DataValue_init\<lparr>dv_value := VVariantScalar 6 (VU32 7), dv_hasValue := True\<rparr>) = None"
  using deadband_reads_through_empty_array [of "demo_item\<lparr>mon_filter := DataChangeFilter \<lparr>dcf_trigger = 1,
      dcf_deadbandType = 1, dcf_deadbandValue = Finite 5\<rparr>,
      mon_lastValue := UA_DataValue_init\<lparr>dv_value := VVariantArray 6 (Some []) [], dv_hasValue := True\<rparr>\<rparr>"
      "\<lparr>dcf_trigger = 1, dcf_deadbandType = 1, dcf_deadbandValue = Finite 5\<rparr>" "Some []" demo_env 6
      "UA_DataValue_init\<lparr>dv_value := VVariantScalar 6 (VU32 7), dv_hasValue := True\<rparr>" "VU32 7" "[]"]
  by (simp add: UA_DEADBANDTYPE_ABSOLUTE_def UA_DATACHANGETRIGGER_STATUS_def UA_DataType_isNumeric_def demo_env_def
      builtin_kind_list_def)

end
