(* ===== verification/Sub_Items_Settings.thy ===== *)
theory Sub_Items_Settings
  imports Sub_Items_Frame
begin

text \<open>
  What the operations on notifications and on the mode of an item leave alone: the settings of the items,
  the lists of items of the subscriptions and of the server, and the intervals of the subscriptions.
\<close>

section \<open>Settings and lists\<close>

definition settings_of :: "UA_MonitoredItem \<Rightarrow> UA_MonitoredItem" where
  "settings_of i = i\<lparr>mon_monitoringMode := 0, mon_triggeredUntil := 0, mon_samplingType := UA_MONITOREDITEMSAMPLINGTYPE_NONE,
     mon_callbackId := 0, mon_lastValue := UA_DataValue_init, mon_triggeringLinks := [], mon_queue := [],
     mon_queueSize := 0, mon_eventOverflows := 0\<rparr>"

lemma settings_of_updates [simp]:
  "settings_of (i\<lparr>mon_monitoringMode := a1\<rparr>) = settings_of i"
  "settings_of (i\<lparr>mon_triggeredUntil := a2\<rparr>) = settings_of i"
  "settings_of (i\<lparr>mon_samplingType := a3\<rparr>) = settings_of i"
  "settings_of (i\<lparr>mon_samplingType := a3, mon_callbackId := a4\<rparr>) = settings_of i"
  "settings_of (i\<lparr>mon_lastValue := a5\<rparr>) = settings_of i"
  "settings_of (i\<lparr>mon_triggeringLinks := a6\<rparr>) = settings_of i"
  "settings_of (i\<lparr>mon_queue := a7, mon_queueSize := a8\<rparr>) = settings_of i"
  "settings_of (i\<lparr>mon_eventOverflows := a9\<rparr>) = settings_of i"
  "settings_of (i\<lparr>mon_queue := a7, mon_eventOverflows := a9, mon_queueSize := a8\<rparr>) = settings_of i"
  by (simp_all add: settings_of_def)

lemma settings_of_eqD:
  assumes "settings_of i = settings_of j"
  shows "mon_subscription i = mon_subscription j" "mon_monitoredItemId i = mon_monitoredItemId j"
    "mon_nodeId i = mon_nodeId j" "mon_attributeId i = mon_attributeId j" "mon_indexRange i = mon_indexRange j"
    "mon_registered i = mon_registered j" "mon_clientHandle i = mon_clientHandle j"
    "mon_samplingInterval i = mon_samplingInterval j" "mon_filter i = mon_filter j"
    "mon_maxQueueSize i = mon_maxQueueSize j" "mon_discardOldest i = mon_discardOldest j"
  using arg_cong [OF assms, of mon_subscription] arg_cong [OF assms, of mon_monitoredItemId]
    arg_cong [OF assms, of mon_nodeId] arg_cong [OF assms, of mon_attributeId]
    arg_cong [OF assms, of mon_indexRange] arg_cong [OF assms, of mon_registered]
    arg_cong [OF assms, of mon_clientHandle] arg_cong [OF assms, of mon_samplingInterval]
    arg_cong [OF assms, of mon_filter] arg_cong [OF assms, of mon_maxQueueSize]
    arg_cong [OF assms, of mon_discardOldest]
  by (simp_all add: settings_of_def)

definition items_of :: "UA_Subscription \<Rightarrow> ptr list \<times> nat \<times> rat" where
  "items_of u = (sub_monitoredItems u, sub_monitoredItemsSize u, sub_publishingInterval u)"

lemma items_of_updates [simp]:
  "items_of (u\<lparr>sub_notificationQueue := a1\<rparr>) = items_of u"
  "items_of (u\<lparr>sub_notificationQueue := a1, sub_notificationQueueSize := a2\<rparr>) = items_of u"
  "items_of (u\<lparr>sub_notificationQueueSize := a2\<rparr>) = items_of u"
  "items_of (u\<lparr>sub_notificationQueueSize := a2, sub_eventNotifications := a3\<rparr>) = items_of u"
  "items_of (u\<lparr>sub_eventNotifications := a3\<rparr>) = items_of u"
  "items_of (u\<lparr>sub_dataChangeNotifications := a4\<rparr>) = items_of u"
  "items_of (u\<lparr>sub_samplingMonitoredItems := a5\<rparr>) = items_of u"
  "items_of (u\<lparr>sub_samplingStale := a7\<rparr>) = items_of u"
  "items_of (u\<lparr>sub_currentLifetimeCount := a6\<rparr>) = items_of u"
  by (simp_all add: items_of_def)

type_synonym item_lists = "(ptr \<rightharpoonup> ptr list \<times> nat \<times> rat) \<times> ptr list \<times> nat \<times> UA_ServerConfig"

definition lists_view :: "UA_Server \<Rightarrow> item_lists" where
  "lists_view s = ((\<lambda>p. map_option items_of (srv_subs s p)), srv_localMonitoredItems s, srv_monitoredItemsSize s,
     srv_config s)"

definition same_lists :: "UA_Server \<Rightarrow> UA_Server \<Rightarrow> bool" where
  "same_lists s t = (lists_view t = lists_view s)"

definition same_items :: "UA_Server \<Rightarrow> UA_Server \<Rightarrow> bool" where
  "same_items s t =
     (same_lists s t \<and> (\<forall>m. map_option settings_of (srv_monitored t m) = map_option settings_of (srv_monitored s m)))"

lemma same_items_refl [simp, intro]: "same_items s s"
  by (simp add: same_items_def same_lists_def)

lemma same_items_trans [trans]: "same_items s t \<Longrightarrow> same_items t u \<Longrightarrow> same_items s u"
  by (simp add: same_items_def same_lists_def)

lemma same_items_lists: "same_items s t \<Longrightarrow> same_lists s t"
  by (simp add: same_items_def)

lemma same_items_mod_sub:
  assumes "\<And>u. items_of (f u) = items_of u" "same_items s t"
  shows "same_items s (mod_sub p f t)"
proof -
  have "map_option items_of (srv_subs (mod_sub p f t) q) = map_option items_of (srv_subs t q)" for q
    by (cases "srv_subs t q") (auto simp: mod_sub_def upd_at_def assms(1))
  then show ?thesis using assms(2) by (simp add: same_items_def same_lists_def lists_view_def mod_sub_def)
qed

lemma same_items_mod_mon:
  assumes "\<And>i. settings_of (f i) = settings_of i" "same_items s t"
  shows "same_items s (mod_mon m f t)"
proof -
  have "map_option settings_of (srv_monitored (mod_mon m f t) q) = map_option settings_of (srv_monitored t q)" for q
    by (cases "srv_monitored t q") (auto simp: mod_mon_def upd_at_def assms(1))
  then show ?thesis using assms(2) by (simp add: same_items_def same_lists_def lists_view_def mod_mon_def)
qed

lemma same_items_fields:
  assumes "same_items s t"
  shows "same_items s (t\<lparr>srv_notifications := x1\<rparr>)" "same_items s (t\<lparr>srv_mallocs := x2\<rparr>)"
    "same_items s (t\<lparr>srv_timer := x3\<rparr>)" "same_items s (t\<lparr>srv_nodes := x4\<rparr>)"
    "same_items s (mod_not n g t)" "same_items s (t\<lparr>srv_undefined := x5\<rparr>)"
  using assms by (simp_all add: same_items_def same_lists_def lists_view_def mod_not_def)

lemmas same_items_intros = same_items_mod_sub same_items_mod_mon same_items_fields same_items_refl

lemma same_items_fold:
  assumes "\<And>x t. same_items s t \<Longrightarrow> same_items s (f x t)"
  shows "same_items s t \<Longrightarrow> same_items s (fold f xs t)"
  by (induction xs arbitrary: t) (simp_all add: assms)

lemma same_items_malloc: "malloc t = (p, t') \<Longrightarrow> same_items s t \<Longrightarrow> same_items s t'"
  by (auto simp: malloc_def split: list.splits intro: same_items_intros)

section \<open>Notifications\<close>

lemma same_items_enqueueSub: "same_items s t \<Longrightarrow> same_items s (UA_Notification_enqueueSub n t)"
  unfolding UA_Notification_enqueueSub_def Let_def by (auto intro!: same_items_intros)

lemma same_items_dequeueSub: "same_items s t \<Longrightarrow> same_items s (UA_Notification_dequeueSub n t)"
  unfolding UA_Notification_dequeueSub_def Let_def by (auto intro!: same_items_intros)

lemma same_items_dequeueMon: "same_items s t \<Longrightarrow> same_items s (UA_Notification_dequeueMon n t)"
  unfolding UA_Notification_dequeueMon_def Let_def by (auto intro!: same_items_intros)

lemma same_items_not_delete: "same_items s t \<Longrightarrow> same_items s (UA_Notification_delete n t)"
  unfolding UA_Notification_delete_def Let_def
  by (auto intro!: same_items_intros same_items_dequeueSub same_items_dequeueMon)

lemmas same_items_queues = same_items_enqueueSub same_items_dequeueSub same_items_dequeueMon same_items_not_delete

lemma same_items_setOverflow: "same_items s t \<Longrightarrow> same_items s (setOverflowInfoBits m t)"
  unfolding setOverflowInfoBits_def by (auto intro!: same_items_intros split: option.splits)

lemma same_items_removeOverflow: "same_items s t \<Longrightarrow> same_items s (UA_MonitoredItem_removeOverflowInfoBits m t)"
  unfolding UA_MonitoredItem_removeOverflowInfoBits_def by (auto intro!: same_items_intros split: option.splits)

lemma same_items_place: "same_items s t \<Longrightarrow> same_items s (place_overflow m i n t)"
  unfolding place_overflow_def Let_def by (auto intro!: same_items_intros split: option.splits)

lemma same_items_not_new: "UA_Notification_new t = (n, t') \<Longrightarrow> same_items s t \<Longrightarrow> same_items s t'"
  unfolding UA_Notification_new_def
  by (auto split: prod.splits if_splits intro: same_items_intros same_items_malloc)

lemma same_items_overflow: "same_items s t \<Longrightarrow> same_items s (snd (createEventOverflowNotification m t))"
proof -
  assume st: "same_items s t"
  obtain n t1 where n: "UA_Notification_new t = (n, t1)" by fastforce
  obtain f t2 where f: "malloc t1 = (f, t2)" by fastforce
  obtain c t3 where c: "malloc t2 = (c, t3)" by fastforce
  have "same_items s t1" "same_items s t2" "same_items s t3"
    using same_items_not_new [OF n st] same_items_malloc f c by blast+
  then show ?thesis using st
    by (auto simp: createEventOverflowNotification_def Let_def n f c split: option.splits
        intro!: same_items_intros same_items_queues same_items_place)
qed

lemma same_items_drop: "same_items s t \<Longrightarrow> same_items s (snd (drop_notifications k m b t))"
proof (induction k arbitrary: b t)
  case (Suc k)
  have "same_items s (move_behind m d t)" for d
    using Suc.prems by (auto simp: move_behind_def split: option.splits intro!: same_items_intros)
  then show ?case using Suc.prems by (auto split: option.splits intro!: same_items_queues Suc.IH)
qed simp

lemma same_items_ensure: "same_items s t \<Longrightarrow> same_items s (UA_MonitoredItem_ensureQueueSpace m t)"
proof -
  assume st: "same_items s t"
  obtain b t' where "drop_notifications (mon_queueSize (the_mon t m) - mon_eventOverflows (the_mon t m) -
      mon_maxQueueSize (the_mon t m)) m False t = (b, t')" by fastforce
  moreover from this have "same_items s t'" using same_items_drop [OF st] by (metis snd_conv)
  ultimately show ?thesis using st
    by (auto simp: UA_MonitoredItem_ensureQueueSpace_def Let_def intro: same_items_overflow same_items_setOverflow)
qed

lemma same_items_enqueueMon: "same_items s t \<Longrightarrow> same_items s (UA_Notification_enqueueMon n t)"
  unfolding UA_Notification_enqueueMon_def Let_def by (auto intro!: same_items_ensure same_items_intros)

section \<open>Samples and modes\<close>

lemma same_items_trigger: "same_items s t \<Longrightarrow> same_items s (trigger_link i m t)"
  unfolding trigger_link_def Let_def UA_MonitoredItem_removeLink_def
  by (auto intro!: same_items_intros same_items_queues split: option.splits)

lemma same_items_triggers: "same_items s t \<Longrightarrow> same_items s (trigger_links k m t)"
  by (induction k arbitrary: t) (simp_all add: same_items_trigger)

lemma same_items_enqueueAndTrigger: "same_items s t \<Longrightarrow> same_items s (UA_Notification_enqueueAndTrigger n t)"
  unfolding UA_Notification_enqueueAndTrigger_def Let_def
  by (auto intro!: same_items_triggers same_items_enqueueMon same_items_intros same_items_queues)

lemma same_items_sample: "same_items s t \<Longrightarrow> same_items s (monitoredItem_sampleCallback rd changed m t)"
proof -
  assume st: "same_items s t"
  obtain n t1 where n: "UA_Notification_new t = (n, t1)" by fastforce
  obtain c t2 where c: "malloc t1 = (c, t2)" by fastforce
  have "same_items s t1" "same_items s t2" using same_items_not_new [OF n st] same_items_malloc c by blast+
  then have "same_items s (snd (UA_MonitoredItem_createDataChangeNotification m v t))" for v
    using st by (auto simp: UA_MonitoredItem_createDataChangeNotification_def Let_def n c
        intro!: same_items_intros same_items_enqueueAndTrigger)
  then show ?thesis using st
    by (auto simp: monitoredItem_sampleCallback_def sampleCallbackWithValue_def intro!: same_items_intros
        split: prod.splits) (metis snd_conv)+
qed

lemma same_items_registerSampling: "same_items s t \<Longrightarrow> same_items s (snd (UA_MonitoredItem_registerSampling m t))"
proof -
  assume st: "same_items s t"
  obtain r c t' where a: "addRepeatedCallback SAMPLE_CALLBACK m (sampling_ms t (mon_samplingInterval (the_mon t m))) t = (r, c, t')"
    by (metis prod.collapse)
  then have "same_items s t'" using st unfolding addRepeatedCallback_def Let_def
    by (auto split: prod.splits intro!: same_items_intros intro: same_items_malloc)
  then show ?thesis using st
    by (auto simp: UA_MonitoredItem_registerSampling_def Let_def a split: option.splits intro!: same_items_intros)
qed

lemma same_items_unregisterSampling: "same_items s t \<Longrightarrow> same_items s (UA_MonitoredItem_unregisterSampling m t)"
  unfolding UA_MonitoredItem_unregisterSampling_def Let_def removeCallback_def
  by (auto split: UA_MonitoredItemSamplingType.splits intro!: same_items_intros)

lemma same_items_delete_queue: "same_items s t \<Longrightarrow> same_items s (delete_queue m t)"
  unfolding delete_queue_def by (rule same_items_fold) (rule same_items_queues)

lemma same_items_requeue:
  assumes "same_items s t"
  shows "same_items s (fold (\<lambda>n s. UA_Notification_enqueueSub n (UA_Notification_dequeueSub n s)) ns t)"
    "same_items s (fold UA_Notification_dequeueSub ns t)"
  by (rule same_items_fold [OF _ assms], intro same_items_queues, assumption)+

lemma same_items_setMonitoringMode:
  "same_items s t \<Longrightarrow> same_items s (snd (UA_MonitoredItem_setMonitoringMode rd changed m mode t))"
proof -
  assume st: "same_items s t"
  let ?t = "mod_mon m (mon_monitoringMode_update (\<lambda>_. mode)) t"
  let ?u = "if mode = UA_MONITORINGMODE_REPORTING
            then fold (\<lambda>n s. UA_Notification_enqueueSub n (UA_Notification_dequeueSub n s)) (mon_queue (the_mon ?t m)) ?t
            else fold UA_Notification_dequeueSub (mon_queue (the_mon ?t m)) ?t"
  obtain r t' where r: "UA_MonitoredItem_registerSampling m ?u = (r, t')" by fastforce
  have t: "same_items s ?t" by (rule same_items_mod_mon [OF _ st]) simp
  from same_items_requeue [OF this] have "same_items s ?u"
    by (cases "mode = UA_MONITORINGMODE_REPORTING") (simp_all only: simp_thms if_True if_False)
  then have t': "same_items s t'" by (rule same_items_registerSampling [of s ?u m, unfolded r snd_conv])
  have sampled: "same_items s (monitoredItem_sampleCallback rd changed m t')" by (rule same_items_sample [OF t'])
  have disabled: "same_items s (mod_mon m (mon_monitoringMode_update (\<lambda>_. UA_MONITORINGMODE_DISABLED)) t')"
    by (rule same_items_mod_mon [OF _ t']) simp
  have off: "same_items s (mod_mon m (mon_lastValue_update (\<lambda>_. UA_DataValue_init))
      (delete_queue m (UA_MonitoredItem_unregisterSampling m ?t)))"
    by (rule same_items_mod_mon [OF _ same_items_delete_queue [OF same_items_unregisterSampling [OF t]]]) simp
  show ?thesis
    unfolding UA_MonitoredItem_setMonitoringMode_def Let_def r prod.case
    by (simp only: if_split [where P = "\<lambda>x. same_items s (snd x)"] snd_conv st t' sampled disabled off simp_thms)
qed

section \<open>Registration and deletion\<close>

fun add_item :: "ptr \<Rightarrow> ptr \<Rightarrow> item_lists \<Rightarrow> item_lists" where
  "add_item m p (subs, locals, n, c) =
     (if p \<noteq> 0 then (subs(p := map_option (\<lambda>(l, k, i). (m # l, Suc k, i)) (subs p)), locals, Suc n, c)
      else (subs, m # locals, Suc n, c))"

fun remove_item :: "ptr \<Rightarrow> ptr \<Rightarrow> item_lists \<Rightarrow> item_lists" where
  "remove_item m p (subs, locals, n, c) =
     (if p \<noteq> 0 then (subs(p := map_option (\<lambda>(l, k, i). (remove1 m l, k - 1, i)) (subs p)), locals, n - 1, c)
      else (subs, remove1 m locals, n - 1, c))"

lemma remove_add_item [simp]: "remove_item m p (add_item m p v) = v"
proof -
  obtain subs locals n c where v: "v = (subs, locals, n, c)" by (metis prod.collapse)
  then show ?thesis by (cases "subs p") (auto simp: fun_eq_iff)
qed

lemma view_mod_mon [simp]: "lists_view (mod_mon m f s) = lists_view s"
  by (simp add: lists_view_def mod_mon_def)

lemma view_register:
  assumes "srv_monitored s m = Some i" "\<not> mon_registered i"
  shows "lists_view (UA_Server_registerMonitoredItem m s) = add_item m (mon_subscription i) (lists_view s)"
    "srv_config (UA_Server_registerMonitoredItem m s) = srv_config s"
    "\<exists>x. srv_monitored (UA_Server_registerMonitoredItem m s) =
       (srv_monitored s)(m \<mapsto> i\<lparr>mon_monitoredItemId := x, mon_registered := True\<rparr>) \<and>
       (\<forall>u. mon_subscription i \<noteq> 0 \<longrightarrow> srv_subs s (mon_subscription i) = Some u \<longrightarrow> x = sub_lastMonitoredItemId u + 1)"
  using assms
  by (auto simp: UA_Server_registerMonitoredItem_def Let_def lists_view_def mod_defs upd_at_def the_mon_def the_sub_def
      fun_eq_iff option.map_comp items_of_def intro!: map_option_cong)

lemma view_unregister:
  assumes "srv_monitored s m = Some i"
  shows "lists_view (UA_Server_unregisterMonitoredItem m s) =
      (if mon_registered i then remove_item m (mon_subscription i) (lists_view s) else lists_view s)"
    "srv_config (UA_Server_unregisterMonitoredItem m s) = srv_config s"
    "q \<noteq> m \<Longrightarrow> srv_monitored (UA_Server_unregisterMonitoredItem m s) q = srv_monitored s q"
  using assms
  by (auto simp: UA_Server_unregisterMonitoredItem_def Let_def lists_view_def mod_defs upd_at_def the_mon_def the_sub_def
      fun_eq_iff option.map_comp items_of_def intro!: map_option_cong)

definition other_items :: "ptr \<Rightarrow> UA_Server \<Rightarrow> UA_Server \<Rightarrow> bool" where
  "other_items m s t = (\<forall>q. q \<noteq> m \<longrightarrow> map_option settings_of (srv_monitored t q) = map_option settings_of (srv_monitored s q))"

lemma other_items_same: "same_items s t \<Longrightarrow> other_items m s t"
  by (simp add: same_items_def other_items_def)

lemma other_items_trans: "other_items m s t \<Longrightarrow> other_items m t u \<Longrightarrow> other_items m s u"
  by (simp add: other_items_def)

lemma other_items_mod_mon [simp]: "other_items m s (mod_mon m f t) = other_items m s t"
  by (simp add: other_items_def mod_mon_def upd_at_def)

lemma same_items_SomeD:
  assumes "same_items s t" "srv_monitored s m = Some i"
  obtains j where "srv_monitored t m = Some j" "settings_of j = settings_of i"
proof -
  have "map_option settings_of (srv_monitored t m) = map_option settings_of (srv_monitored s m)"
    using assms(1) by (simp add: same_items_def)
  then show thesis using assms(2) that by (auto simp: map_option_eq_Some)
qed

lemma delete_lists:
  assumes i: "srv_monitored s m = Some i"
  shows "lists_view (UA_MonitoredItem_delete m s) =
      (if mon_registered i then remove_item m (mon_subscription i) (lists_view s) else lists_view s)"
    "other_items m s (UA_MonitoredItem_delete m s)"
proof -
  let ?a = "UA_MonitoredItem_unregisterSampling m s"
  let ?b = "UA_Server_unregisterMonitoredItem m ?a"
  let ?c = "mod_mon m (mon_triggeringLinks_update (\<lambda>_. [])) ?b"
  let ?d = "delete_queue m ?c"
  have a: "same_items s ?a" by (rule same_items_unregisterSampling) simp
  obtain j where j: "srv_monitored ?a m = Some j" "settings_of j = settings_of i" by (rule same_items_SomeD [OF a i])
  note eq = settings_of_eqD [OF j(2)]
  have d: "same_items ?b ?d"
    by (rule same_items_delete_queue) (rule same_items_mod_mon, simp_all)
  have v: "lists_view ?d = lists_view ?b" "lists_view ?a = lists_view s"
    using a d by (simp_all add: same_items_def same_lists_def)
  have del: "UA_MonitoredItem_delete m s = delayed_free m (mod_mon m clear_settings ?d)"
    by (simp add: UA_MonitoredItem_delete_def Let_def)
  show "lists_view (UA_MonitoredItem_delete m s) =
      (if mon_registered i then remove_item m (mon_subscription i) (lists_view s) else lists_view s)"
    using view_unregister(1) [OF j(1)] v eq unfolding del by (simp add: delayed_free_def lists_view_def mod_mon_def)
  have "other_items m ?a ?b" using view_unregister(3) [OF j(1)] by (simp add: other_items_def)
  then have "other_items m s ?d"
    using other_items_trans other_items_same [OF a] other_items_same [OF d] by blast
  then have "other_items m s (mod_mon m clear_settings ?d)" by simp
  then show "other_items m s (UA_MonitoredItem_delete m s)"
    unfolding del by (simp add: other_items_def delayed_free_def)
qed

end
