(* ===== verification/Sub_Items_Rules.thy ===== *)
theory Sub_Items_Rules
  imports Sub_Rules Sub_Items_Settings
begin

text \<open>
  What a client of the monitored item services can rely on: an item that is created has the settings that
  the answer tells, within the limits of the server; an item that is not created leaves no trace.
\<close>

section \<open>The adjusted parameters\<close>

lemma bounded_double_within:
  assumes "mn \<le> mx" "ieee_eq d d"
  obtains x where "bounded_double mn mx d = Finite x" "mn \<le> x" "x \<le> mx"
proof (cases d)
  case (Finite x)
  then show thesis using that [of mx] that [of mn] that [of x] assms(1)
    by (cases "mx < x"; cases "x < mn") (auto simp: bounded_double_def ieee_eq_def)
next
  case PosInf
  then show thesis using that [of mx] assms(1) by (simp add: bounded_double_def)
next
  case NegInf
  then show thesis using that [of mn] assms(1) by (simp add: bounded_double_def)
qed (use assms(2) in \<open>simp add: ieee_eq_def\<close>)

text \<open>The interval is within the limits, or minus one and the one of the publishing is within the limits.\<close>

definition interval_ok :: "UA_Server \<Rightarrow> ptr \<Rightarrow> UA_Double \<Rightarrow> bool" where
  "interval_ok s p d =
     (let mn = cfg_samplingInterval_min (srv_config s); mx = cfg_samplingInterval_max (srv_config s);
          pub = sub_publishingInterval (the_sub s p)
      in (case d of Finite x \<Rightarrow> mn \<le> x \<and> x \<le> mx \<or> x = - 1 \<and> p \<noteq> 0 \<and> mn \<le> pub \<and> pub \<le> mx | _ \<Rightarrow> False))"

lemma adjustSamplingInterval_ok:
  assumes lim: "cfg_samplingInterval_min (srv_config s) \<le> cfg_samplingInterval_max (srv_config s)"
  shows "interval_ok s (mon_subscription mon) (adjustSamplingInterval w s mon True d)"
proof -
  let ?mn = "cfg_samplingInterval_min (srv_config s)"
  let ?mx = "cfg_samplingInterval_max (srv_config s)"
  have b: "interval_ok s (mon_subscription mon) (bounded_double ?mn ?mx e)" if "ieee_eq e e" for e
    by (rule bounded_double_within [OF lim that]) (simp add: interval_ok_def Let_def)
  have n: "interval_ok s (mon_subscription mon) (bounded_double ?mn ?mx e)"
    if "ieee_eq (bounded_double ?mn ?mx e) (bounded_double ?mn ?mx e)" for e
    by (rule b) (use that in \<open>cases e; simp add: bounded_double_def ieee_eq_def\<close>)
  let ?p = "mon_subscription mon"
  let ?pub = "sub_publishingInterval (the_sub s ?p)"
  have pub: "interval_ok s ?p (bounded_double ?mn ?mx (Finite ?pub))" by (rule b) (simp add: ieee_eq_def)
  have least: "interval_ok s ?p (Finite ?mn)" using lim by (simp add: interval_ok_def Let_def)
  have minus: "interval_ok s ?p (Finite (- 1))" if "ieee_eq (bounded_double ?mn ?mx (Finite ?pub)) (Finite ?pub)" "?p \<noteq> 0"
    using that lim by (auto simp: interval_ok_def Let_def bounded_double_def ieee_eq_def split: if_splits)
  show ?thesis
    unfolding adjustSamplingInterval_def Let_def
    by (simp only: if_True simp_thms if_split [where P = "interval_ok s ?p"] n least minus pub)
      (use n least minus pub in blast)
qed

definition queue_ok :: "UA_ServerConfig \<Rightarrow> u32 \<Rightarrow> bool" where
  "queue_ok cfg q = (q = 1 \<or> cfg_queueSize_min cfg \<le> q \<and> q \<le> cfg_queueSize_max cfg)"

lemma adjustQueueSize_ok:
  "cfg_queueSize_min cfg \<le> cfg_queueSize_max cfg \<Longrightarrow> queue_ok cfg (adjustQueueSize cfg mon q)"
  by (auto simp: adjustQueueSize_def queue_ok_def bounded_count_def Let_def word_gt_0)

lemma checkAdjust_Done:
  assumes "checkAdjustMonitoredItemParams w s ses mon own vt params = Done (GOOD, params')"
  obtains flt where "checkFilter w s ses mon vt (mp_filter params) = Done (GOOD, flt)"
    "params' = params\<lparr>mp_filter := flt,
       mp_samplingInterval := adjustSamplingInterval w s mon own (mp_samplingInterval params),
       mp_queueSize := adjustQueueSize (srv_config s) mon (mp_queueSize params)\<rparr>"
  using assms that by (auto simp: checkAdjustMonitoredItemParams_def and_then_Done Let_def split: if_splits)

section \<open>The activation\<close>

lemma activate_view:
  assumes i: "srv_monitored s m = Some i" "\<not> mon_registered i" and res: "mcp_statusCode result = GOOD"
    and act: "activate_item rd changed cmc mode result m s = (r, t)"
  obtains (failed) "mcp_statusCode r \<noteq> GOOD" "lists_view t = lists_view s" "other_items m s t"
  | (active) j x where "mcp_statusCode r = GOOD" "lists_view t = add_item m (mon_subscription i) (lists_view s)"
      "other_items m s t" "srv_monitored t m = Some j"
      "settings_of j = settings_of (i\<lparr>mon_monitoredItemId := x, mon_registered := True\<rparr>)"
      "\<forall>u. mon_subscription i \<noteq> 0 \<longrightarrow> srv_subs s (mon_subscription i) = Some u \<longrightarrow> x = sub_lastMonitoredItemId u + 1"
      "r = result\<lparr>mcp_monitoredItemId := x,
         mcp_revisedSamplingInterval :=
           (if ieee_less (mon_samplingInterval i) (Finite 0) \<and> cmc_sub cmc \<noteq> 0
            then Finite (sub_publishingInterval (the_sub t (cmc_sub cmc))) else mon_samplingInterval i),
         mcp_revisedQueueSize := of_nat (mon_maxQueueSize i)\<rparr>"
proof -
  let ?a = "mod_mon m (\<lambda>i. i\<lparr>mon_lastValue := UA_DataValue_init\<lparr>dv_hasStatus := True, dv_status := - 1\<rparr>\<rparr>) s"
  let ?i = "i\<lparr>mon_lastValue := UA_DataValue_init\<lparr>dv_hasStatus := True, dv_status := - 1\<rparr>\<rparr>"
  let ?b = "UA_Server_registerMonitoredItem m ?a"
  have a: "srv_monitored ?a m = Some ?i" "\<not> mon_registered ?i" using i by (simp_all add: mod_mon_def upd_at_def)
  obtain res' c where c: "UA_MonitoredItem_setMonitoringMode rd changed m mode ?b = (res', c)" by fastforce
  have bc: "same_items ?b c" using same_items_setMonitoringMode [OF same_items_refl [of ?b], of rd changed m mode] c by simp
  obtain x where x: "srv_monitored ?b = (srv_monitored ?a)(m \<mapsto> ?i\<lparr>mon_monitoredItemId := x, mon_registered := True\<rparr>)"
    "\<forall>u. mon_subscription i \<noteq> 0 \<longrightarrow> srv_subs s (mon_subscription i) = Some u \<longrightarrow> x = sub_lastMonitoredItemId u + 1"
    using view_register(3) [OF a] by (auto simp: mod_mon_def)
  obtain j where j: "srv_monitored c m = Some j"
    "settings_of j = settings_of (?i\<lparr>mon_monitoredItemId := x, mon_registered := True\<rparr>)"
    by (rule same_items_SomeD [OF bc, of m]) (simp_all add: x(1))
  note eq = settings_of_eqD [OF j(2)]
  have "other_items m s ?b" by (simp add: other_items_def x(1)) (simp add: mod_mon_def upd_at_def)
  then have oc: "other_items m s c" using other_items_same [OF bc] other_items_trans by blast
  have view: "lists_view c = add_item m (mon_subscription i) (lists_view s)"
    using bc view_register(1) [OF a] by (simp add: same_items_def same_lists_def)
  show thesis
  proof (cases "res' = GOOD")
    case False
    then have rt: "mcp_statusCode r \<noteq> GOOD" "t = UA_MonitoredItem_delete m c"
      using act c by (auto simp: activate_item_def Let_def)
    show thesis
      using failed [OF rt(1)] delete_lists [OF j(1)] view eq other_items_trans [OF oc] rt(2) by simp
  next
    case True
    have "settings_of (?i\<lparr>mon_monitoredItemId := x, mon_registered := True\<rparr>) =
        settings_of (i\<lparr>mon_monitoredItemId := x, mon_registered := True\<rparr>)"
      by (simp add: settings_of_def)
    moreover have "t = c" "r = result\<lparr>mcp_monitoredItemId := x,
         mcp_revisedSamplingInterval :=
           (if ieee_less (mon_samplingInterval i) (Finite 0) \<and> cmc_sub cmc \<noteq> 0
            then Finite (sub_publishingInterval (the_sub t (cmc_sub cmc))) else mon_samplingInterval i),
         mcp_revisedQueueSize := of_nat (mon_maxQueueSize i)\<rparr>"
      using act c True j(1) eq by (auto simp: activate_item_def Let_def the_mon_def)
    ultimately show thesis using active [of j x] view oc j x(2) res by simp
  qed
qed

section \<open>The creation\<close>

lemma malloc_only: "malloc s = (p, t) \<Longrightarrow> \<exists>ms. t = s\<lparr>srv_mallocs := ms\<rparr>"
  by (cases "srv_mallocs s") (auto simp: malloc_def intro: exI [of _ "srv_mallocs s"])

lemma and_then_DoneE:
  assumes "and_then x f = Done y"
  obtains z where "x = Done z" "f z = Done y"
  using assms by (cases x) simp_all

lemma oom_bad: "UA_STATUSCODE_BADOUTOFMEMORY \<noteq> GOOD"
  by (simp add: status_defs)

definition new_item :: "createMonContext \<Rightarrow> UA_ReadValueId \<Rightarrow> UA_MonitoredItem" where
  "new_item cmc rvi = set_itemToMonitor rvi (UA_MonitoredItem_init\<lparr>mon_subscription := cmc_sub cmc,
     mon_timestampsToReturn := cmc_timestampsToReturn cmc\<rparr>)"

lemma create_cases:
  assumes op: "Operation_CreateMonitoredItem w rd changed ses cmc request s = Done (r, t)"
  obtains (refused) "mcp_statusCode r \<noteq> GOOD" "same_items s t"
  | (rejected) m u i where "mcp_statusCode r \<noteq> GOOD" "t = UA_MonitoredItem_delete m u" "srv_monitored u m = Some i"
      "\<not> mon_registered i" "lists_view u = lists_view s" "other_items m s u"
  | (made) m u v vt params result where "activate_item rd changed cmc (mcr_monitoringMode request) result m u = (r, t)"
      "mcp_statusCode result = GOOD" "lists_view u = lists_view s" "srv_subs u = srv_subs s" "other_items m s u"
      "srv_monitored u m = Some (set_parameters params (new_item cmc (mcr_itemToMonitor request)))"
      "checkAdjustMonitoredItemParams w v ses (new_item cmc (mcr_itemToMonitor request)) True vt
         (mcr_requestedParameters request) = Done (GOOD, params)"
      "srv_config v = srv_config s" "srv_subs v = srv_subs s"
proof -
  obtain m s1 where m: "malloc s = (m, s1)" by fastforce
  obtain c1 s2 where c1: "malloc s1 = (c1, s2)" by fastforce
  obtain c2 s3 where c2: "malloc s2 = (c2, s3)" by fastforce
  obtain ms1 ms3 where ms: "s1 = s\<lparr>srv_mallocs := ms1\<rparr>" "s3 = s\<lparr>srv_mallocs := ms3\<rparr>"
    using malloc_only [OF m] malloc_only [OF c1] malloc_only [OF c2] by auto
  let ?v = "iw_read w s ses (mcr_itemToMonitor request) (cmc_timestampsToReturn cmc)"
  let ?n = "UA_MonitoredItem_init\<lparr>mon_subscription := cmc_sub cmc, mon_timestampsToReturn := cmc_timestampsToReturn cmc\<rparr>"
  let ?new = "if c1 \<noteq> 0 then set_itemToMonitor (mcr_itemToMonitor request) ?n else ?n"
  let ?params = "if c2 \<noteq> 0 then mcr_requestedParameters request else no_parameters"
  let ?copied = "if c1 \<noteq> 0 \<and> c2 \<noteq> 0 then GOOD else UA_STATUSCODE_BADOUTOFMEMORY"
  obtain res where res: "check_request s cmc (mcr_itemToMonitor request) ?v = Done res"
    using op by (auto simp: Operation_CreateMonitoredItem_def Let_def and_then_Done)
  show thesis
  proof (cases "res \<noteq> GOOD \<or> m = 0")
    case True
    then have "t = s \<or> t = s1" "mcp_statusCode r \<noteq> GOOD"
      using op by (auto simp: Operation_CreateMonitoredItem_def Let_def m res create_result_def oom_bad split: if_splits)
    then show thesis using refused same_items_malloc [OF m same_items_refl] by auto
  next
    case False
    then have ok: "res = GOOD" "m \<noteq> 0" by blast+
    let ?chk = "checkAdjustMonitoredItemParams w s3 ses ?new True (variant_type (dv_value ?v)) ?params"
    let ?ev = "\<lambda>params. checkEventFilterParam (iw_events w s3 ses) ?new (mp_filter params) (srv_mallocs s3)"
    let ?fin = "\<lambda>adjusted params checked fr mallocs.
      (let u = s3\<lparr>srv_mallocs := mallocs, srv_monitored := (srv_monitored s3)(m \<mapsto> set_parameters params ?new)\<rparr>;
           res = or ?copied (or adjusted checked);
           result = (create_result res)\<lparr>mcp_filterResult := fr\<rparr>
       in if res \<noteq> GOOD then Done (result, UA_MonitoredItem_delete m u)
          else Done (activate_item rd changed cmc (mcr_monitoringMode request) result m u))"
    have E: "and_then ?chk (\<lambda>(adjusted, params). and_then (?ev params) (\<lambda>((checked, fr), mallocs).
        ?fin adjusted params checked fr mallocs)) = Done (r, t)"
      using op unfolding Operation_CreateMonitoredItem_def Let_def m c1 c2 res prod.case and_then.simps
      by (simp only: ok simp_thms if_False)
    obtain z where z: "?chk = Done z" "(case z of (adjusted, params) \<Rightarrow> and_then (?ev params)
        (\<lambda>((checked, fr), mallocs). ?fin adjusted params checked fr mallocs)) = Done (r, t)"
      by (rule and_then_DoneE [OF E])
    obtain adjusted params where z': "z = (adjusted, params)" by fastforce
    obtain y where y: "?ev params = Done y" "(\<lambda>((checked, fr), mallocs).
        ?fin adjusted params checked fr mallocs) y = Done (r, t)"
      by (rule and_then_DoneE [OF z(2) [unfolded z' prod.case]])
    obtain checked fr mallocs where y': "y = ((checked, fr), mallocs)" by (metis prod.collapse)
    have adj: "?chk = Done (adjusted, params)" and fin: "?fin adjusted params checked fr mallocs = Done (r, t)"
      using z(1) y(2) unfolding z' y' prod.case .
    let ?u = "s3\<lparr>srv_mallocs := mallocs, srv_monitored := (srv_monitored s3)(m \<mapsto> set_parameters params ?new)\<rparr>"
    have u: "lists_view ?u = lists_view s" "other_items m s ?u" "srv_subs ?u = srv_subs s"
      "srv_monitored ?u m = Some (set_parameters params ?new)" "\<not> mon_registered (set_parameters params ?new)"
      by (simp_all add: ms lists_view_def other_items_def set_parameters_def set_itemToMonitor_def UA_MonitoredItem_init_def)
    let ?res = "or ?copied (or adjusted checked)"
    show thesis
    proof (cases "?res = GOOD")
      case False
      then have "t = UA_MonitoredItem_delete m ?u" "mcp_statusCode r \<noteq> GOOD"
        using fin by (auto simp: Let_def create_result_def)
      then show thesis using rejected [OF _ _ u(4,5,1,2)] by blast
    next
      case True
      then have c: "c1 \<noteq> 0 \<and> c2 \<noteq> 0" "adjusted = GOOD"
        by (auto simp: oom_bad split: if_splits)
      have new: "?new = new_item cmc (mcr_itemToMonitor request)" "?params = mcr_requestedParameters request"
        using c(1) by (simp_all add: new_item_def)
      have act: "activate_item rd changed cmc (mcr_monitoringMode request) ((create_result ?res)\<lparr>mcp_filterResult := fr\<rparr>) m ?u =
          (r, t)"
        using fin True by (simp only: Let_def simp_thms if_False outcome.inject)
      show thesis
        by (rule made [OF act [unfolded new] _ u(1,3,2,4) [unfolded new] adj [unfolded c(2) new]])
          (use True in \<open>simp_all add: create_result_def ms\<close>)
    qed
  qed
qed

lemma create_result_fields [simp]: "mcp_statusCode (create_result res) = res"
  by (simp add: create_result_def)

lemma new_item_fields [simp]:
  "mon_subscription (set_parameters params (new_item cmc rvi)) = cmc_sub cmc"
  "\<not> mon_registered (set_parameters params (new_item cmc rvi))"
  "mon_nodeId (set_parameters params (new_item cmc rvi)) = rvi_nodeId rvi"
  "mon_attributeId (set_parameters params (new_item cmc rvi)) = rvi_attributeId rvi"
  "mon_indexRange (set_parameters params (new_item cmc rvi)) = rvi_indexRange rvi"
  "mon_clientHandle (set_parameters params (new_item cmc rvi)) = mp_clientHandle params"
  "mon_discardOldest (set_parameters params (new_item cmc rvi)) = mp_discardOldest params"
  "mon_samplingInterval (set_parameters params (new_item cmc rvi)) = mp_samplingInterval params"
  "mon_maxQueueSize (set_parameters params (new_item cmc rvi)) = unat (mp_queueSize params)"
  by (simp_all add: new_item_def set_parameters_def set_itemToMonitor_def UA_MonitoredItem_init_def)

lemma new_item_subscription [simp]: "mon_subscription (new_item cmc rvi) = cmc_sub cmc"
  by (simp add: new_item_def set_itemToMonitor_def)

lemma create_failed:
  assumes op: "Operation_CreateMonitoredItem w rd changed ses cmc request s = Done (r, t)"
    and bad: "mcp_statusCode r \<noteq> GOOD"
  shows "lists_view t = lists_view s \<and> (\<exists>m. other_items m s t)"
  using op
proof (cases rule: create_cases)
  case refused
  then show ?thesis using other_items_same by (auto simp: same_items_def same_lists_def)
next
  case (rejected m u i)
  then have "other_items m s t" "lists_view t = lists_view s"
    using delete_lists [OF rejected(3)] other_items_trans [of m s u t] by auto
  then show ?thesis by blast
next
  case (made m u v vt params result)
  from made(6) new_item_fields(2) made(2,1) show ?thesis
  proof (cases rule: activate_view)
    case failed
    have "other_items m s t" using made(5) failed(3) by (rule other_items_trans)
    then show ?thesis using failed(2) made(3) by auto
  qed (use bad in simp)
qed

lemma create_made:
  assumes op: "Operation_CreateMonitoredItem w rd changed ses cmc request s = Done (r, t)"
    and good: "mcp_statusCode r = GOOD"
  obtains m j v x vt params where
    "lists_view t = add_item m (cmc_sub cmc) (lists_view s)" "other_items m s t" "srv_monitored t m = Some j"
    "settings_of j = settings_of ((set_parameters params (new_item cmc (mcr_itemToMonitor request)))
       \<lparr>mon_monitoredItemId := x, mon_registered := True\<rparr>)"
    "\<forall>u. cmc_sub cmc \<noteq> 0 \<longrightarrow> srv_subs s (cmc_sub cmc) = Some u \<longrightarrow> x = sub_lastMonitoredItemId u + 1"
    "mcp_monitoredItemId r = x" "mcp_revisedQueueSize r = mp_queueSize params"
    "mcp_revisedSamplingInterval r = (if ieee_less (mp_samplingInterval params) (Finite 0) \<and> cmc_sub cmc \<noteq> 0
       then Finite (sub_publishingInterval (the_sub t (cmc_sub cmc))) else mp_samplingInterval params)"
    "checkAdjustMonitoredItemParams w v ses (new_item cmc (mcr_itemToMonitor request)) True vt
       (mcr_requestedParameters request) = Done (GOOD, params)"
    "srv_config v = srv_config s" "srv_subs v = srv_subs s"
  using op
proof (cases rule: create_cases)
  case (made m u v vt params result)
  from made(6) new_item_fields(2) made(2,1) show thesis
  proof (cases rule: activate_view)
    case (active j x)
    have "other_items m s t" using made(5) active(3) by (rule other_items_trans)
    then show thesis
      using that [of m j x params v vt] active made by simp
  qed (use good in simp)
qed (use good in simp_all)

end
