(* ===== verification/Sub_Items_Claims.thy ===== *)
theory Sub_Items_Claims
  imports Sub_Items_Rules
begin

text \<open>
  The properties of the monitored item services: what the creation of an item promises, the limit on the
  number of items, and three cases in which the services fail.
\<close>

lemma view_sub_added:
  assumes "lists_view t = add_item m p (lists_view s)" "p \<noteq> 0" "srv_subs s p = Some u"
  obtains v where "srv_subs t p = Some v" "sub_monitoredItems v = m # sub_monitoredItems u"
    "sub_monitoredItemsSize v = Suc (sub_monitoredItemsSize u)" "sub_publishingInterval v = sub_publishingInterval u"
proof -
  have "map_option items_of (srv_subs t p) = Some (m # sub_monitoredItems u, Suc (sub_monitoredItemsSize u), sub_publishingInterval u)"
    using assms by (auto simp: lists_view_def fun_eq_iff items_of_def)
  then show thesis using that by (auto simp: items_of_def)
qed

text \<open>
  An item that is created for a subscription is the first in its list, under the identifier of the
  answer, which is the next one of the subscription. It has the node, the attribute, the index range, the
  client handle and the discard policy of the request, and the queue size that the answer tells; whatever
  the client requests, this size is one or within the limits of the server. The sampling interval of the
  answer is a number within the limits; it is the one of the item, or the item is sampled with the
  publishing. The settings of the other items stay as they are.
\<close>

theorem created_item_matches_answer:
  assumes op: "Operation_CreateMonitoredItem w rd changed ses cmc request s = Done (r, t)" "mcp_statusCode r = GOOD"
    and p: "cmc_sub cmc \<noteq> 0" "srv_subs s (cmc_sub cmc) = Some u"
    and limits: "0 \<le> cfg_samplingInterval_min (srv_config s)"
      "cfg_samplingInterval_min (srv_config s) \<le> cfg_samplingInterval_max (srv_config s)"
      "cfg_queueSize_min (srv_config s) \<le> cfg_queueSize_max (srv_config s)"
  shows "\<exists>m i v x.
     srv_monitored t m = Some i \<and> mon_registered i \<and> mon_subscription i = cmc_sub cmc \<and>
     srv_subs t (cmc_sub cmc) = Some v \<and> sub_monitoredItems v = m # sub_monitoredItems u \<and>
     sub_monitoredItemsSize v = Suc (sub_monitoredItemsSize u) \<and>
     srv_monitoredItemsSize t = Suc (srv_monitoredItemsSize s) \<and>
     mon_monitoredItemId i = mcp_monitoredItemId r \<and> mcp_monitoredItemId r = sub_lastMonitoredItemId u + 1 \<and>
     mon_nodeId i = rvi_nodeId (mcr_itemToMonitor request) \<and>
     mon_attributeId i = rvi_attributeId (mcr_itemToMonitor request) \<and>
     mon_indexRange i = rvi_indexRange (mcr_itemToMonitor request) \<and>
     mon_clientHandle i = mp_clientHandle (mcr_requestedParameters request) \<and>
     mon_discardOldest i = mp_discardOldest (mcr_requestedParameters request) \<and>
     mon_maxQueueSize i = unat (mcp_revisedQueueSize r) \<and>
     (mcp_revisedQueueSize r = 1 \<or>
      cfg_queueSize_min (srv_config s) \<le> mcp_revisedQueueSize r \<and> mcp_revisedQueueSize r \<le> cfg_queueSize_max (srv_config s)) \<and>
     mcp_revisedSamplingInterval r = Finite x \<and>
     cfg_samplingInterval_min (srv_config s) \<le> x \<and> x \<le> cfg_samplingInterval_max (srv_config s) \<and>
     (mon_samplingInterval i = Finite x \<or> mon_samplingInterval i = Finite (- 1) \<and> sub_publishingInterval v = x) \<and>
     (\<forall>q. q \<noteq> m \<longrightarrow> map_option settings_of (srv_monitored t q) = map_option settings_of (srv_monitored s q))"
  using op
proof (cases rule: create_made)
  case (1 m i y n vt params)
  let ?n = "new_item cmc (mcr_itemToMonitor request)"
  let ?p = "cmc_sub cmc"
  from 1(9) have params: "\<exists>flt. params = (mcr_requestedParameters request)\<lparr>mp_filter := flt,
       mp_samplingInterval := adjustSamplingInterval w y ?n True (mp_samplingInterval (mcr_requestedParameters request)),
       mp_queueSize := adjustQueueSize (srv_config y) ?n (mp_queueSize (mcr_requestedParameters request))\<rparr>"
    by (cases rule: checkAdjust_Done) blast
  then have "interval_ok y ?p (mp_samplingInterval params)"
    using adjustSamplingInterval_ok [of y ?n w] limits(2) 1(10) by auto
  then have iv: "interval_ok s ?p (mp_samplingInterval params)"
    using 1(10,11) by (simp add: interval_ok_def the_sub_def)
  have q: "queue_ok (srv_config s) (mp_queueSize params)"
    using params adjustQueueSize_ok [OF limits(3)] 1(10) by auto
  obtain v where v: "srv_subs t ?p = Some v" "sub_monitoredItems v = m # sub_monitoredItems u"
    "sub_monitoredItemsSize v = Suc (sub_monitoredItemsSize u)" "sub_publishingInterval v = sub_publishingInterval u"
    by (rule view_sub_added [OF 1(1) p])
  have size: "srv_monitoredItemsSize t = Suc (srv_monitoredItemsSize s)"
    using 1(1) p(1) by (simp add: lists_view_def)
  note eq = settings_of_eqD [OF 1(4)]
  obtain z where z: "mp_samplingInterval params = Finite z"
    using iv by (cases "mp_samplingInterval params") (auto simp: interval_ok_def)
  have pub: "sub_publishingInterval (the_sub s ?p) = sub_publishingInterval v"
    "sub_publishingInterval (the_sub t ?p) = sub_publishingInterval v"
    using p(2) v by (simp_all add: the_sub_def)
  have "\<exists>x. mcp_revisedSamplingInterval r = Finite x \<and>
     cfg_samplingInterval_min (srv_config s) \<le> x \<and> x \<le> cfg_samplingInterval_max (srv_config s) \<and>
     (mon_samplingInterval i = Finite x \<or> mon_samplingInterval i = Finite (- 1) \<and> sub_publishingInterval v = x)"
    using iv z 1(8) p(1) limits(1) eq(8) pub by (auto simp: interval_ok_def Let_def)
  then obtain x where x: "mcp_revisedSamplingInterval r = Finite x"
     "cfg_samplingInterval_min (srv_config s) \<le> x" "x \<le> cfg_samplingInterval_max (srv_config s)"
     "mon_samplingInterval i = Finite x \<or> mon_samplingInterval i = Finite (- 1) \<and> sub_publishingInterval v = x"
    by blast
  have fields: "mon_clientHandle i = mp_clientHandle (mcr_requestedParameters request)"
    "mon_discardOldest i = mp_discardOldest (mcr_requestedParameters request)"
    using eq params by auto
  show ?thesis
    by (rule exI [of _ m], rule exI [of _ i], rule exI [of _ v], rule exI [of _ x])
      (use 1(2,3,5,6,7) p v size eq fields x q in \<open>simp add: other_items_def queue_ok_def\<close>)
qed

text \<open>A world for the witnesses: every attribute is the byte 1, and no node is a variable.\<close>

definition demo_value :: UA_DataValue where
  "demo_value = UA_DataValue_init\<lparr>dv_hasValue := True, dv_value := VVariantScalar UA_TYPES_BYTE (VU8 1)\<rparr>"

definition demo_world :: "UA_EventWorld \<Rightarrow> UA_ItemWorld" where
  "demo_world ew = \<lparr>iw_read = (\<lambda>s ses rvi ts. demo_value), iw_events = (\<lambda>s ses. ew),
     iw_minimumSamplingInterval = (\<lambda>s n. None), iw_rangeType = UA_TYPES_BYTE\<rparr>"

definition demo_create :: "u32 \<Rightarrow> u32 \<Rightarrow> UA_MonitoringFilter \<Rightarrow> UA_MonitoredItemCreateRequest" where
  "demo_create attribute mode flt =
     \<lparr>mcr_itemToMonitor = \<lparr>rvi_nodeId = ns0 85, rvi_attributeId = attribute, rvi_indexRange = None, rvi_dataEncoding = (0, None)\<rparr>,
      mcr_monitoringMode = mode,
      mcr_requestedParameters = \<lparr>mp_clientHandle = 4, mp_samplingInterval = Finite 1, mp_filter = flt,
        mp_queueSize = 1000, mp_discardOldest = True\<rparr>\<rparr>"

definition demo_server :: UA_Server where
  "demo_server = demo_subscribed\<lparr>srv_mallocs := [20, 21, 22, 23]\<rparr>"

definition demo_context :: createMonContext where
  "demo_context = \<lparr>cmc_sub = 5, cmc_timestampsToReturn = 0\<rparr>"

lemma demo_server_facts:
  "srv_config demo_server = demo_config" "srv_mallocs demo_server = [20, 21, 22, 23]"
  "\<exists>u. srv_subs demo_server 5 = Some u \<and> sub_subscriptionId u = 1 \<and> sub_statusChange u = GOOD"
  "\<exists>x. srv_sessions demo_server 1 = Some x \<and> ses_subscriptions x = [5]"
  by (simp_all add: demo_server_def demo_eval status_defs)

lemmas demo_request_eval = demo_world_def demo_value_def demo_create_def demo_context_def UA_DataValue_init_def
  UA_ATTRIBUTEID_VALUE_def UA_ATTRIBUTEID_EVENTNOTIFIER_def

lemma demo_check:
  "check_request s demo_context (mcr_itemToMonitor (demo_create UA_ATTRIBUTEID_VALUE mode flt)) demo_value = Done GOOD"
  if "srv_config s = demo_config" for s
  using that by (simp add: check_request_def too_many_items_def unrecoverable_def demo_request_eval demo_config_def)

lemma demo_adjust:
  "checkAdjustMonitoredItemParams (demo_world ew) s ses (new_item demo_context (mcr_itemToMonitor
      (demo_create UA_ATTRIBUTEID_VALUE mode (EncodedFilter EO_NOBODY (ns0 0) None)))) True vt
      (mcr_requestedParameters (demo_create UA_ATTRIBUTEID_VALUE mode (EncodedFilter EO_NOBODY (ns0 0) None))) =
    Done (GOOD, (mcr_requestedParameters (demo_create UA_ATTRIBUTEID_VALUE mode (EncodedFilter EO_NOBODY (ns0 0) None)))
      \<lparr>mp_samplingInterval := Finite 50, mp_queueSize := 100\<rparr>)"
  if "srv_config s = demo_config" for s
  using that
  by (simp add: checkAdjustMonitoredItemParams_def checkFilter_def adjustSamplingInterval_def bounded_double_def
      adjustQueueSize_def bounded_count_def demo_request_eval demo_config_def new_item_def set_itemToMonitor_def
      ieee_eq_def Let_def UA_MonitoredItem_init_def)

lemma activate_disabled:
  "mcp_statusCode (fst (activate_item rd changed cmc UA_MONITORINGMODE_DISABLED result m s)) = mcp_statusCode result"
  by (simp add: activate_item_def Let_def UA_MonitoredItem_setMonitoringMode_def UA_MONITORINGMODE_DISABLED_def
      UA_MONITORINGMODE_REPORTING_def)

lemma no_event_check: "mon_attributeId mon \<noteq> UA_ATTRIBUTEID_EVENTNOTIFIER \<Longrightarrow>
    checkEventFilterParam w mon flt mallocs = Done ((GOOD, None), mallocs)"
  by (simp add: checkEventFilterParam_def)

lemma activate_invalid: "mode > UA_MONITORINGMODE_REPORTING \<Longrightarrow>
    mcp_statusCode (fst (activate_item rd changed cmc mode result m s)) \<noteq> GOOD"
  by (simp add: activate_item_def Let_def UA_MonitoredItem_setMonitoringMode_def status_defs)

definition demo_plain :: "u32 \<Rightarrow> UA_MonitoredItemCreateRequest" where
  "demo_plain mode = demo_create UA_ATTRIBUTEID_VALUE mode (EncodedFilter EO_NOBODY (ns0 0) None)"

lemma new_item_attribute [simp]: "mon_attributeId (new_item cmc rvi) = rvi_attributeId rvi"
  by (simp add: new_item_def set_itemToMonitor_def)

lemma demo_operation:
  assumes s: "srv_config s = demo_config" "srv_mallocs s = a # b # c # ms" "a \<noteq> 0" "b \<noteq> 0" "c \<noteq> 0"
  obtains result u where
    "Operation_CreateMonitoredItem (demo_world ew) rd changed 1 demo_context (demo_plain mode) s =
      Done (activate_item rd changed demo_context mode result a u)" "mcp_statusCode result = GOOD"
proof -
  let ?s = "\<lambda>ms. s\<lparr>srv_mallocs := ms\<rparr>"
  have m: "malloc s = (a, ?s (b # c # ms))" "malloc (?s (b # c # ms)) = (b, ?s (c # ms))" "malloc (?s (c # ms)) = (c, ?s ms)"
    by (simp_all add: malloc_def s)
  have v: "iw_read (demo_world ew) s ses rvi ts = demo_value" for s ses rvi ts by (simp add: demo_world_def)
  have att: "rvi_attributeId (mcr_itemToMonitor (demo_plain mode)) \<noteq> UA_ATTRIBUTEID_EVENTNOTIFIER"
    by (simp add: demo_plain_def demo_request_eval)
  have cfg: "srv_config (?s ms) = demo_config" for ms by (simp add: s)
  have mode: "mcr_monitoringMode (demo_plain mode) = mode" by (simp add: demo_plain_def demo_create_def)
  show thesis
    using demo_check [OF s(1), of mode "EncodedFilter EO_NOBODY (ns0 0) None"] demo_adjust [OF cfg, of ew ms _ mode] att mode
      that s(3-5)
    unfolding demo_plain_def [symmetric]
    by (simp add: Operation_CreateMonitoredItem_def Let_def m v new_item_def [symmetric] no_event_check)
qed

lemma demo_nonzero: "(20 :: ptr) \<noteq> 0" "(21 :: ptr) \<noteq> 0" "(22 :: ptr) \<noteq> 0" "(23 :: ptr) \<noteq> 0"
  by simp_all

lemmas demo_server_operation = demo_operation [OF demo_server_facts(1,2) demo_nonzero(1-3)]

lemma created_item_matches_answer_witness:
  "\<forall>ew rd changed. \<exists>r t m v.
     Operation_CreateMonitoredItem (demo_world ew) rd changed 1 demo_context (demo_plain UA_MONITORINGMODE_DISABLED) demo_server =
       Done (r, t) \<and> srv_subs t 5 = Some v \<and> m \<in> set (sub_monitoredItems v)"
proof (intro allI)
  fix ew rd changed
  obtain r t where op: "Operation_CreateMonitoredItem (demo_world ew) rd changed 1 demo_context
      (demo_plain UA_MONITORINGMODE_DISABLED) demo_server = Done (r, t)" "mcp_statusCode r = GOOD"
    by (rule demo_server_operation [of ew rd changed UA_MONITORINGMODE_DISABLED]) (metis activate_disabled prod.collapse)
  obtain u where u: "srv_subs demo_server 5 = Some u" using demo_server_facts(3) by blast
  show "\<exists>r t m v. Operation_CreateMonitoredItem (demo_world ew) rd changed 1 demo_context
      (demo_plain UA_MONITORINGMODE_DISABLED) demo_server = Done (r, t) \<and> srv_subs t 5 = Some v \<and> m \<in> set (sub_monitoredItems v)"
    using created_item_matches_answer [OF op, of u] op(1) u
    by (fastforce simp: demo_context_def demo_server_facts demo_config_def)
qed

text \<open>
  An item that cannot be created, for whatever reason and at whatever point of the operation, leaves
  no trace: the lists of the items of all subscriptions and of the server and their sizes are what they
  were, and the settings of the other items stay as they are.
\<close>

theorem failed_creation_leaves_no_item:
  assumes "Operation_CreateMonitoredItem w rd changed ses cmc request s = Done (r, t)" "mcp_statusCode r \<noteq> GOOD"
  shows "srv_localMonitoredItems t = srv_localMonitoredItems s \<and> srv_monitoredItemsSize t = srv_monitoredItemsSize s \<and>
    (\<forall>p. map_option sub_monitoredItems (srv_subs t p) = map_option sub_monitoredItems (srv_subs s p) \<and>
         map_option sub_monitoredItemsSize (srv_subs t p) = map_option sub_monitoredItemsSize (srv_subs s p)) \<and>
    (\<exists>m. \<forall>q. q \<noteq> m \<longrightarrow> map_option settings_of (srv_monitored t q) = map_option settings_of (srv_monitored s q))"
proof -
  have view: "lists_view t = lists_view s" and others: "\<exists>m. other_items m s t"
    using create_failed [OF assms] by blast+
  have items: "map_option items_of (srv_subs t p) = map_option items_of (srv_subs s p)" for p
    using view by (auto simp: lists_view_def fun_eq_iff)
  have "map_option f (srv_subs t p) = map_option f (srv_subs s p)" if "f = g \<circ> items_of" for f g and p
    using arg_cong [OF items [of p], of "map_option g"] that by (simp add: option.map_comp)
  from this [of sub_monitoredItems fst] this [of sub_monitoredItemsSize "fst \<circ> snd"] show ?thesis
    using view others by (simp add: lists_view_def other_items_def items_of_def fun_eq_iff)
qed

lemma failed_creation_leaves_no_item_witness:
  "\<forall>ew rd changed. \<exists>r t. Operation_CreateMonitoredItem (demo_world ew) rd changed 1 demo_context (demo_plain 3) demo_server =
     Done (r, t) \<and> srv_monitoredItemsSize t = srv_monitoredItemsSize demo_server"
proof (intro allI)
  fix ew rd changed
  have "(3 :: u32) > UA_MONITORINGMODE_REPORTING" by (simp add: UA_MONITORINGMODE_REPORTING_def)
  then obtain r t where op: "Operation_CreateMonitoredItem (demo_world ew) rd changed 1 demo_context (demo_plain 3) demo_server =
      Done (r, t)" "mcp_statusCode r \<noteq> GOOD"
    using demo_server_operation [of ew rd changed 3] activate_invalid by (metis prod.collapse)
  then show "\<exists>r t. Operation_CreateMonitoredItem (demo_world ew) rd changed 1 demo_context (demo_plain 3) demo_server =
      Done (r, t) \<and> srv_monitoredItemsSize t = srv_monitoredItemsSize demo_server"
    using failed_creation_leaves_no_item [OF op] by blast
qed

section \<open>The number of items\<close>

lemma create_size:
  assumes op: "Operation_CreateMonitoredItem w rd changed ses cmc request s = Done (r, t)"
  shows "srv_monitoredItemsSize t = srv_monitoredItemsSize s + (if mcp_statusCode r = GOOD then 1 else 0)"
proof (cases "mcp_statusCode r = GOOD")
  case True
  with op show ?thesis
  proof (cases rule: create_made)
    case (1 m j v x vt params)
    then show ?thesis using True by (cases "cmc_sub cmc = 0") (simp_all add: lists_view_def)
  qed
next
  case False
  then show ?thesis using create_failed [OF op False] by (simp add: lists_view_def)
qed

lemma create_limit:
  assumes "Operation_CreateMonitoredItem w rd changed ses cmc request s = Done (r, t)" "mcp_statusCode r = GOOD"
    "cmc_sub cmc \<noteq> 0" "cfg_maxMonitoredItems (srv_config s) \<noteq> 0"
  shows "srv_monitoredItemsSize s < unat (cfg_maxMonitoredItems (srv_config s))"
proof (rule ccontr)
  assume "\<not> ?thesis"
  then have "too_many_items s (cmc_sub cmc)" using assms(3,4) by (simp add: too_many_items_def)
  then have "r = create_result UA_STATUSCODE_BADTOOMANYMONITOREDITEMS"
    using assms(1) by (auto simp: Operation_CreateMonitoredItem_def Let_def check_request_def status_defs split: prod.splits if_splits)
  then show False using assms(2) by (simp add: status_defs)
qed

lemma create_config:
  assumes op: "Operation_CreateMonitoredItem w rd changed ses cmc request s = Done (r, t)"
  shows "srv_config t = srv_config s"
proof (cases "mcp_statusCode r = GOOD")
  case True
  with op show ?thesis
  proof (cases rule: create_made)
    case (1 m j v x vt params)
    then show ?thesis by (cases "cmc_sub cmc = 0") (simp_all add: lists_view_def)
  qed
next
  case False
  then show ?thesis using create_failed [OF op False] by (simp add: lists_view_def)
qed

lemma create_run:
  assumes "run_outcomes (Operation_CreateMonitoredItem w rd changed ses cmc) items s = Done (rs, t)"
    and p: "cmc_sub cmc \<noteq> 0"
  shows "srv_monitoredItemsSize t = srv_monitoredItemsSize s + length (filter (\<lambda>r. mcp_statusCode r = GOOD) rs) \<and>
     srv_config t = srv_config s \<and>
     (cfg_maxMonitoredItems (srv_config s) \<noteq> 0 \<longrightarrow>
      srv_monitoredItemsSize s \<le> unat (cfg_maxMonitoredItems (srv_config s)) \<longrightarrow>
      srv_monitoredItemsSize t \<le> unat (cfg_maxMonitoredItems (srv_config s)))"
  using assms(1)
proof (induction items arbitrary: s rs)
  case (Cons x xs)
  obtain r u rs' where x: "Operation_CreateMonitoredItem w rd changed ses cmc x s = Done (r, u)" and
    xs: "run_outcomes (Operation_CreateMonitoredItem w rd changed ses cmc) xs u = Done (rs', t)" "rs = r # rs'"
    using Cons.prems by (auto simp: and_then_Done)
  show ?case
    using Cons.IH [OF xs(1)] xs(2) create_size [OF x] create_config [OF x] create_limit [OF x _ p]
    by (auto split: if_splits)
qed simp

text \<open>
  The service that creates items counts exactly those that it reports as created, and never exceeds
  the limit of the server on the number of items.
\<close>

theorem item_limit_respected:
  assumes "Service_CreateMonitoredItems w rd changed ses ts i items s = Done ((res, rs), t)"
    and "UA_Session_getSubscriptionById ses i s \<noteq> Some 0"
  shows "srv_monitoredItemsSize t = srv_monitoredItemsSize s + length (filter (\<lambda>r. mcp_statusCode r = GOOD) rs) \<and>
    (cfg_maxMonitoredItems (srv_config s) \<noteq> 0 \<longrightarrow>
     srv_monitoredItemsSize s \<le> unat (cfg_maxMonitoredItems (srv_config s)) \<longrightarrow>
     srv_monitoredItemsSize t \<le> unat (cfg_maxMonitoredItems (srv_config s)))"
proof -
  have same: "srv_monitoredItemsSize (reset_lifetime p s) = srv_monitoredItemsSize s" "srv_config (reset_lifetime p s) = srv_config s" for p
    by (simp_all add: reset_lifetime_def mod_sub_def)
  consider "rs = []" "t = s"
    | p ms where "p \<noteq> 0" "rs = []" "t = (reset_lifetime p s)\<lparr>srv_mallocs := ms\<rparr> \<or> t = reset_lifetime p s"
    | p ms where "p \<noteq> 0" "run_outcomes (Operation_CreateMonitoredItem w rd changed ses
        \<lparr>cmc_sub = p, cmc_timestampsToReturn = ts\<rparr>) items ((reset_lifetime p s)\<lparr>srv_mallocs := ms\<rparr>) = Done (rs, t)"
  proof -
    have m: "\<exists>ms. snd (malloc u) = u\<lparr>srv_mallocs := ms\<rparr>" for u using malloc_only [of u] by (metis prod.collapse)
    show thesis
      using assms that m
      by (auto simp: Service_CreateMonitoredItems_def process_outcomes_def and_then_Done split: if_splits option.splits prod.splits)
        (metis snd_conv)+
  qed
  then show ?thesis
  proof cases
    case (3 p ms)
    then show ?thesis using create_run [OF 3(2)] by (auto simp: same)
  qed (use same in auto)
qed

lemma demo_found: "UA_Session_getSubscriptionById 1 1 demo_server = Some 5"
  using demo_server_facts by (auto simp: UA_Session_getSubscriptionById_def has_id_def the_ses_def the_sub_def)

lemma item_limit_respected_witness:
  "\<forall>ew rd changed. \<exists>r t. Service_CreateMonitoredItems (demo_world ew) rd changed 1 0 1 [demo_plain UA_MONITORINGMODE_DISABLED]
     demo_server = Done ((GOOD, [r]), t) \<and> srv_monitoredItemsSize t = Suc (srv_monitoredItemsSize demo_server)"
proof (intro allI)
  fix ew rd changed
  let ?s = "(reset_lifetime 5 demo_server)\<lparr>srv_mallocs := [21, 22, 23]\<rparr>"
  have c: "srv_config ?s = demo_config" by (simp add: reset_lifetime_def mod_sub_def demo_server_facts)
  obtain r t where op: "Operation_CreateMonitoredItem (demo_world ew) rd changed 1 demo_context
      (demo_plain UA_MONITORINGMODE_DISABLED) ?s = Done (r, t)" "mcp_statusCode r = GOOD"
    by (rule demo_operation [OF c _ demo_nonzero(2-4), of "[]" ew rd changed UA_MONITORINGMODE_DISABLED], simp)
      (metis activate_disabled prod.collapse)
  have m: "malloc (reset_lifetime 5 demo_server) = (20, ?s)"
    by (simp add: malloc_def reset_lifetime_def mod_sub_def demo_server_facts)
  have svc: "Service_CreateMonitoredItems (demo_world ew) rd changed 1 0 1 [demo_plain UA_MONITORINGMODE_DISABLED] demo_server =
      Done ((GOOD, [r]), t)"
    using op(1) demo_found
    by (simp add: Service_CreateMonitoredItems_def process_outcomes_def too_many_operations_def demo_server_facts demo_config_def
        m demo_context_def)
  then show "\<exists>r t. Service_CreateMonitoredItems (demo_world ew) rd changed 1 0 1 [demo_plain UA_MONITORINGMODE_DISABLED]
      demo_server = Done ((GOOD, [r]), t) \<and> srv_monitoredItemsSize t = Suc (srv_monitoredItemsSize demo_server)"
    using item_limit_respected [OF svc] demo_found op(2) by auto
qed

section \<open>A filter of the wrong kind\<close>

lemma wrong_filter_operation:
  assumes item: "rvi_attributeId (mcr_itemToMonitor item) = UA_ATTRIBUTEID_EVENTNOTIFIER"
      "mp_filter (mcr_requestedParameters item) = DataChangeFilter f"
      "string_length (snd (rvi_dataEncoding (mcr_itemToMonitor item))) = 0"
    and v: "iw_read w s ses (mcr_itemToMonitor item) (cmc_timestampsToReturn cmc) = v" "dv_hasValue v"
      "dv_value v = VVariantScalar ty (VU8 e)" "and e 1 = 1" "\<not> unrecoverable v"
    and p: "cmc_sub cmc \<noteq> 0" "\<not> too_many_items s (cmc_sub cmc)"
    and memory: "srv_mallocs s = a # b # c # ms" "a \<noteq> 0" "b \<noteq> 0" "c \<noteq> 0"
  shows "Operation_CreateMonitoredItem w rd changed ses cmc item s = Undefined"
proof -
  let ?s = "\<lambda>ms. s\<lparr>srv_mallocs := ms\<rparr>"
  have m: "malloc s = (a, ?s (b # c # ms))" "malloc (?s (b # c # ms)) = (b, ?s (c # ms))" "malloc (?s (c # ms)) = (c, ?s ms)"
    by (simp_all add: malloc_def memory)
  obtain ns encoding where enc: "rvi_dataEncoding (mcr_itemToMonitor item) = (ns, encoding)" by fastforce
  have chk: "check_request s cmc (mcr_itemToMonitor item) v = Done GOOD"
    using item(1,3) v p enc by (simp add: check_request_def)
  have adj: "checkAdjustMonitoredItemParams w u ses (new_item cmc (mcr_itemToMonitor item)) True vt
      (mcr_requestedParameters item) = Done (UA_STATUSCODE_BADEVENTFILTERINVALID, mcr_requestedParameters item)" for u vt
    using item by (simp add: checkAdjustMonitoredItemParams_def checkFilter_def status_defs)
  have ev: "checkEventFilterParam ew (new_item cmc (mcr_itemToMonitor item)) (DataChangeFilter f) mallocs = Undefined"
    for ew mallocs
    using item(1) by (simp add: checkEventFilterParam_def event_filter_data_def)
  show ?thesis
    using memory(2-4)
    by (simp add: Operation_CreateMonitoredItem_def v(1) chk m Let_def new_item_def [symmetric] adj item(2) ev)
qed

text \<open>
  A client can make the server read a data change filter as an event filter. For an item on the event
  notifier the filter must be an event filter, and the check of the parameters says so; but the result is
  not looked at before the data of the filter is used as an event filter. With memory and capacity, a
  request for such an item with a data change filter has undefined behaviour.
\<close>

theorem data_filter_on_events_is_undefined:
  assumes request: "\<not> too_many_operations s (item # items)" "ts \<le> UA_TIMESTAMPSTORETURN_NEITHER"
      "UA_Session_getSubscriptionById ses i s = Some p" "p \<noteq> 0" "srv_subs s p = Some u" "\<not> too_many_items s p"
    and item: "rvi_attributeId (mcr_itemToMonitor item) = UA_ATTRIBUTEID_EVENTNOTIFIER"
      "mp_filter (mcr_requestedParameters item) = DataChangeFilter f"
      "string_length (snd (rvi_dataEncoding (mcr_itemToMonitor item))) = 0"
    and notifier: "\<forall>u. iw_read w u ses (mcr_itemToMonitor item) ts = v" "dv_hasValue v"
      "dv_value v = VVariantScalar ty (VU8 e)" "and e 1 = 1" "\<not> unrecoverable v"
    and memory: "srv_mallocs s = r # a # b # c # ms" "r \<noteq> 0" "a \<noteq> 0" "b \<noteq> 0" "c \<noteq> 0"
  shows "Service_CreateMonitoredItems w rd changed ses ts i (item # items) s = Undefined"
proof -
  let ?s = "(reset_lifetime p s)\<lparr>srv_mallocs := a # b # c # ms\<rparr>"
  have m: "malloc (reset_lifetime p s) = (r, ?s)" using memory(1) by (simp add: malloc_def reset_lifetime_def mod_sub_def)
  have many: "\<not> too_many_items ?s p"
    using request(5,6) by (auto simp: too_many_items_def reset_lifetime_def mod_sub_def upd_at_def the_sub_def)
  have "Operation_CreateMonitoredItem w rd changed ses \<lparr>cmc_sub = p, cmc_timestampsToReturn = ts\<rparr> item ?s = Undefined"
    by (rule wrong_filter_operation [OF item _ notifier(2-5) _ _ _ memory(3-5)]) (use notifier(1) request(4) many in simp_all)
  then show ?thesis
    using request(1-3) memory(2) m by (simp add: Service_CreateMonitoredItems_def process_outcomes_def)
qed

lemma data_filter_on_events_is_undefined_witness:
  "\<forall>ew rd changed f. Service_CreateMonitoredItems (demo_world ew) rd changed 1 0 1
     [demo_create UA_ATTRIBUTEID_EVENTNOTIFIER UA_MONITORINGMODE_REPORTING (DataChangeFilter f)] demo_server = Undefined"
proof (intro allI)
  fix ew rd changed f
  obtain u where u: "srv_subs demo_server 5 = Some u" using demo_server_facts(3) by blast
  show "Service_CreateMonitoredItems (demo_world ew) rd changed 1 0 1
     [demo_create UA_ATTRIBUTEID_EVENTNOTIFIER UA_MONITORINGMODE_REPORTING (DataChangeFilter f)] demo_server = Undefined"
    by (rule data_filter_on_events_is_undefined [of _ _ _ _ _ _ 5 u _ _ demo_value UA_TYPES_BYTE 1 20 21 22 23 "[]"])
      (simp_all add: demo_found [simplified] u demo_server_facts demo_config_def too_many_operations_def too_many_items_def
      UA_TIMESTAMPSTORETURN_NEITHER_def demo_request_eval unrecoverable_def)
qed

section \<open>An interval that is not a number\<close>

lemma apply_parameters_keeps:
  assumes i: "srv_monitored s m = Some i" and app: "apply_parameters rd changed m params s = (r, t)"
  obtains j where "srv_monitored t m = Some j" "settings_of j = settings_of (set_parameters params i)"
    "\<not> ieee_less (mp_samplingInterval params) (Finite 0) \<Longrightarrow> mmp_revisedSamplingInterval r = mp_samplingInterval params"
proof -
  let ?s = "mod_mon m (set_parameters params) s"
  let ?u = "UA_MonitoredItem_unregisterSampling m ?s"
  have s: "srv_monitored ?s m = Some (set_parameters params i)" using i by (simp add: mod_mon_def upd_at_def)
  obtain r' v where v: "UA_MonitoredItem_setMonitoringMode rd changed m (mon_monitoringMode (the_mon ?u m)) ?u = (r', v)"
    by fastforce
  have "same_items ?s (snd (UA_MonitoredItem_setMonitoringMode rd changed m (mon_monitoringMode (the_mon ?u m)) ?u))"
    by (intro same_items_setMonitoringMode same_items_unregisterSampling same_items_refl)
  then have sv: "same_items ?s v" using v by simp
  have st: "same_items ?s (UA_MonitoredItem_removeOverflowInfoBits m (UA_MonitoredItem_ensureQueueSpace m x))"
    "mon_samplingInterval (the_mon x m) = mp_samplingInterval params" if x: "same_items ?s x" for x
  proof -
    show "same_items ?s (UA_MonitoredItem_removeOverflowInfoBits m (UA_MonitoredItem_ensureQueueSpace m x))"
      by (intro same_items_removeOverflow same_items_ensure x)
    obtain j where "srv_monitored x m = Some j" "settings_of j = settings_of (set_parameters params i)"
      by (rule same_items_SomeD [OF x s])
    then show "mon_samplingInterval (the_mon x m) = mp_samplingInterval params"
      using settings_of_eqD(8) [of j "set_parameters params i"] by (simp add: the_mon_def set_parameters_def)
  qed
  obtain x where x: "same_items ?s x" "t = UA_MonitoredItem_removeOverflowInfoBits m (UA_MonitoredItem_ensureQueueSpace m x)"
    "\<not> ieee_less (mon_samplingInterval (the_mon x m)) (Finite 0) \<Longrightarrow>
       mmp_revisedSamplingInterval r = mon_samplingInterval (the_mon x m)"
  proof (cases "ieee_eq (mon_samplingInterval (the_mon s m)) (mon_samplingInterval (the_mon ?s m))")
    case True
    show thesis by (rule that [of ?s]) (use app True in \<open>auto simp: apply_parameters_def Let_def\<close>)
  next
    case False
    show thesis by (rule that [of v]) (use app False v sv in \<open>auto simp: apply_parameters_def Let_def\<close>)
  qed
  obtain j where j: "srv_monitored t m = Some j" "settings_of j = settings_of (set_parameters params i)"
    using same_items_SomeD [OF st(1) [OF x(1)] s] x(2) by metis
  show thesis by (rule that [OF j]) (use x(3) st(2) [OF x(1)] in simp)
qed

lemma nan_not_adjusted:
  assumes "mon_samplingInterval mon \<noteq> NaN"
  shows "adjustSamplingInterval w s mon False NaN = NaN"
  using assms by (auto simp: adjustSamplingInterval_def Let_def bounded_double_def ieee_eq_def split: option.splits)

text \<open>
  A sampling interval that is not a number gets through a modification: the test for it looks at the
  interval that the item has, and not at the one that is requested. The item then has an interval that is
  not a number, and the answer tells it to the client. (When the item is created, the two are the same, and
  the interval becomes the minimum.)
\<close>

theorem modification_accepts_nan:
  assumes "UA_Subscription_getMonitoredItem p monitoredItemId s = Some m" "srv_monitored s m = Some i"
    and "mon_attributeId i \<noteq> UA_ATTRIBUTEID_EVENTNOTIFIER" "mon_samplingInterval i \<noteq> NaN"
    and "mp_samplingInterval params = NaN" "mp_filter params = EncodedFilter EO_NOBODY tid body"
    and "srv_mallocs s = a # ms" "a \<noteq> 0"
  shows "\<exists>r t j. Operation_ModifyMonitoredItem w rd changed ses p (monitoredItemId, params) s = Done (r, t) \<and>
    srv_monitored t m = Some j \<and> mon_samplingInterval j = NaN \<and> mmp_revisedSamplingInterval r = NaN"
proof -
  let ?s = "s\<lparr>srv_mallocs := ms\<rparr>"
  let ?params = "params\<lparr>mp_queueSize := adjustQueueSize (srv_config s) i (mp_queueSize params)\<rparr>"
  have m: "malloc s = (a, ?s)" using assms(7) by (simp add: malloc_def)
  have mon: "the_mon ?s m = i" using assms(2) by (simp add: the_mon_def)
  have "params\<lparr>mp_filter := mp_filter params, mp_samplingInterval := NaN,
      mp_queueSize := adjustQueueSize (srv_config s) i (mp_queueSize params)\<rparr> = ?params"
    using assms(5) by simp
  then have chk: "checkAdjustMonitoredItemParams w ?s ses i False vt params = Done (GOOD, ?params)" for vt
    using assms(3,5,6) nan_not_adjusted [OF assms(4)] by (simp add: checkAdjustMonitoredItemParams_def checkFilter_def)
  obtain r t where app: "apply_parameters rd changed m ?params ?s = (r, t)" by fastforce
  have op: "Operation_ModifyMonitoredItem w rd changed ses p (monitoredItemId, params) s = Done (r, t)"
    using assms(1,8) by (simp add: Operation_ModifyMonitoredItem_def m mon chk app)
  have "srv_monitored ?s m = Some i" using assms(2) by simp
  then obtain j where j: "srv_monitored t m = Some j" "settings_of j = settings_of (set_parameters ?params i)"
    "\<not> ieee_less (mp_samplingInterval ?params) (Finite 0) \<Longrightarrow> mmp_revisedSamplingInterval r = mp_samplingInterval ?params"
    by (rule apply_parameters_keeps [OF _ app]) blast
  have "mon_samplingInterval j = NaN" "mmp_revisedSamplingInterval r = NaN"
    using settings_of_eqD(8) [OF j(2)] j(3) assms(5) by (simp_all add: set_parameters_def)
  then show ?thesis using op j(1) by blast
qed

lemma modification_accepts_nan_witness:
  "\<forall>w rd changed. \<exists>r t. Operation_ModifyMonitoredItem w rd changed 1 5
     (9, \<lparr>mp_clientHandle = 4, mp_samplingInterval = NaN, mp_filter = EncodedFilter EO_NOBODY (ns0 0) None, mp_queueSize = 1,
       mp_discardOldest = True\<rparr>)
     (demo_server\<lparr>srv_monitored := [30 \<mapsto> UA_MonitoredItem_init\<lparr>mon_monitoredItemId := 9\<rparr>],
        srv_subs := (srv_subs demo_server)(5 := map_option (sub_monitoredItems_update (\<lambda>_. [30])) (srv_subs demo_server 5))\<rparr>) =
     Done (r, t) \<and> mmp_revisedSamplingInterval r = NaN"
proof (intro allI)
  fix w rd changed
  let ?i = "UA_MonitoredItem_init\<lparr>mon_monitoredItemId := 9\<rparr>"
  let ?s = "demo_server\<lparr>srv_monitored := [30 \<mapsto> ?i],
        srv_subs := (srv_subs demo_server)(5 := map_option (sub_monitoredItems_update (\<lambda>_. [30])) (srv_subs demo_server 5))\<rparr>"
  let ?params = "\<lparr>mp_clientHandle = 4, mp_samplingInterval = NaN, mp_filter = EncodedFilter EO_NOBODY (ns0 0) None, mp_queueSize = 1,
       mp_discardOldest = True\<rparr>"
  obtain u where u: "srv_subs demo_server 5 = Some u" using demo_server_facts(3) by blast
  have "\<exists>r t j. Operation_ModifyMonitoredItem w rd changed 1 5 (9, ?params) ?s = Done (r, t) \<and>
      srv_monitored t 30 = Some j \<and> mon_samplingInterval j = NaN \<and> mmp_revisedSamplingInterval r = NaN"
    by (rule modification_accepts_nan [of _ _ _ _ ?i _ "ns0 0" None 20 "[21, 22, 23]"])
      (simp_all add: UA_Subscription_getMonitoredItem_def the_sub_def the_mon_def u demo_server_facts UA_MonitoredItem_init_def
        UA_ATTRIBUTEID_EVENTNOTIFIER_def)
  then show "\<exists>r t. Operation_ModifyMonitoredItem w rd changed 1 5 (9, ?params) ?s = Done (r, t) \<and>
      mmp_revisedSamplingInterval r = NaN" by blast
qed

end
