(* ===== verification/Filter_Order.thy ===== *)
theory Filter_Order
  imports Filter_Event Value_Claims
begin

text \<open>
  The comparison of two operands: by the order of values when both have the same type, and what happens
  when a conversion comes first.
\<close>

section \<open>Operands of one type\<close>

definition ordered_kind :: "UA_DataTypeKind \<Rightarrow> bool" where
  "ordered_kind k = (UA_DataType_isNumeric k \<or> k = DK_DATETIME \<or> k = DK_STRING \<or> k = DK_BYTESTRING)"

lemma same_kind_cast: "kind_number k < 21 \<Longrightarrow> checkTypeCastingOption k k = Done 0"
  by (cases k) (simp_all add: checkTypeCastingOption_def dataTypeKindIndex_def convertLookup_def)

lemma UA_NodeId_order_refl [simp]: "UA_NodeId_order n n = UA_ORDER_EQ"
  using node_ids.reflexive [of n] by simp

lemma required_Some [simp]: "required (Some x) = Done x"
  by (simp add: required_def)

lemma same_kind_rule:
  "compare_rule 0 k k k = (if ordered_kind k then UA_TYPES_EQUAL_ORDERED else UA_TYPES_EQUAL_UNORDERED)"
  by (simp add: compare_rule_def ordered_kind_def)

lemma compareOperation_same_type:
  assumes "UA_order env (VVariantScalar t a) (VVariantScalar t b) UA_TYPES_VARIANT = Some r"
    and "kind_number (kind_at env t) < 21"
  shows "compareOperation env (Live (VVariantScalar t a)) (Live (VVariantScalar t b)) op =
    Done (if op \<noteq> UA_FILTEROPERATOR_EQUALS \<and> \<not> ordered_kind (kind_at env t) then UA_STATUSCODE_BADFILTEROPERATORINVALID
          else if order_matches op r then GOOD else UA_STATUSCODE_BADNOMATCH,
          Live (VVariantScalar t a), Live (VVariantScalar t b))"
  using assms
  by (simp add: compareOperation_def same_kind_cast same_kind_rule conversions_def unconverted_def
      compare_values_def Let_def status_defs)

text \<open>
  C35: Two scalars of the same builtin type are compared by the order of values. For well-typed scalars of a
  builtin type without substructure, the comparison has no undefined behaviour and its status is good exactly
  when the result of UA_order fits the operator; types without a natural order can only be tested for
  equality. Both operands stay as they are, so that they can be compared again.
\<close>

theorem same_type_compared_by_order:
  assumes "typed_value env te UA_TYPES_VARIANT (VVariantScalar t a)"
    and "typed_value env te UA_TYPES_VARIANT (VVariantScalar t b)"
    and "kind_number (kind_at env t) < 21"
  shows "\<exists>r. UA_order env (VVariantScalar t a) (VVariantScalar t b) UA_TYPES_VARIANT = Some r \<and>
    compareOperation env (Live (VVariantScalar t a)) (Live (VVariantScalar t b)) op =
      Done (if op \<noteq> UA_FILTEROPERATOR_EQUALS \<and> \<not> ordered_kind (kind_at env t)
            then UA_STATUSCODE_BADFILTEROPERATORINVALID
            else if order_matches op r then GOOD else UA_STATUSCODE_BADNOMATCH,
            Live (VVariantScalar t a), Live (VVariantScalar t b))"
  using value_order.defined [OF assms(1,2)] compareOperation_same_type assms(3) by blast

lemma demo_scalar:
  "typed_value demo_env te UA_TYPES_VARIANT (VVariantScalar UA_TYPES_INT32 (VU32 w))"
  using demo_builtin_env demo_plain by (simp add: typed_value_def demo_defs kind32_def)

lemma same_type_compared_by_order_witness:
  "\<exists>r. UA_order demo_env (VVariantScalar 5 (VU32 3)) (VVariantScalar 5 (VU32 7)) UA_TYPES_VARIANT = Some r \<and>
    compareOperation demo_env (Live (VVariantScalar 5 (VU32 3))) (Live (VVariantScalar 5 (VU32 7)))
      UA_FILTEROPERATOR_LESSTHAN =
    Done (if UA_FILTEROPERATOR_LESSTHAN \<noteq> UA_FILTEROPERATOR_EQUALS \<and> \<not> ordered_kind (kind_at demo_env 5)
          then UA_STATUSCODE_BADFILTEROPERATORINVALID
          else if order_matches UA_FILTEROPERATOR_LESSTHAN r then GOOD else UA_STATUSCODE_BADNOMATCH,
          Live (VVariantScalar 5 (VU32 3)), Live (VVariantScalar 5 (VU32 7)))"
proof (rule same_type_compared_by_order [OF demo_scalar demo_scalar])
  show "kind_number (kind_at demo_env 5) < 21" using demo_builtin_env by (simp add: builtin_env_def)
qed

section \<open>Operands of two types\<close>

lemma builtin_kind: "builtin_env env \<Longrightarrow> kind_number k < 25 \<Longrightarrow> kind_at env (kind_number k) = k"
  by (rule kind_number_inj) (simp add: builtin_env_def)

lemma filter_kinds [simp]:
  assumes "builtin_env env"
  shows "kind_at env 1 = DK_SBYTE" "kind_at env (Suc 0) = DK_SBYTE" "kind_at env 3 = DK_INT16" "kind_at env 5 = DK_INT32"
    "kind_at env 6 = DK_UINT32" "kind_at env 7 = DK_INT64" "kind_at env 8 = DK_UINT64" "kind_at env 9 = DK_FLOAT"
    "kind_at env 10 = DK_DOUBLE" "kind_at env 23 = DK_VARIANT"
  using assms builtin_kind [of env DK_SBYTE] builtin_kind [of env DK_INT16] builtin_kind [of env DK_INT32]
    builtin_kind [of env DK_UINT32] builtin_kind [of env DK_INT64] builtin_kind [of env DK_UINT64]
    builtin_kind [of env DK_FLOAT] builtin_kind [of env DK_DOUBLE] builtin_kind [of env DK_VARIANT]
  by simp_all

lemma UA_order_scalars:
  assumes "builtin_env env"
  shows "UA_order env (VVariantScalar t x) (VVariantScalar t y) UA_TYPES_VARIANT =
    order_dispatch env (orderJumpTable env (size x + size y + 1)) t x y"
  using assms
  by (simp add: UA_order_def order_dispatch_def [of _ _ 23] variantOrder_def variant_content_order_def
      dimensionsOrder_def or_next_def split: option.splits)

lemma UA_order_int64:
  "builtin_env env \<Longrightarrow> UA_order env (VVariantScalar 7 (VU64 x)) (VVariantScalar 7 (VU64 y)) UA_TYPES_VARIANT =
    Some (int64Order x y)"
  by (simp add: UA_order_scalars) (simp add: order_dispatch_def order64_def)

lemma int_casts:
  "checkTypeCastingOption DK_INT32 DK_INT64 = Done 1"
  by (simp add: checkTypeCastingOption_def dataTypeKindIndex_def convertLookup_def)

lemma int_rules: "compare_rule 1 DK_INT32 DK_INT64 c = UA_TYPES_DIFFERENT_NUMERIC_SIGNED"
  "compare_rule 1 DK_INT64 DK_INT32 c = UA_TYPES_DIFFERENT_NUMERIC_SIGNED"
  by (simp_all add: compare_rule_def isNumericSigned_def)

lemma int_transformation:
  "implicitNumericVariantTransformation (VVariantScalar 5 (VU32 b)) = Done (GOOD, VVariantScalar 7 (VU64 (scast b)))"
  "implicitNumericVariantTransformation (VVariantScalar 7 (VU64 a)) = Done (GOOD, VVariantScalar 7 (VU64 a))"
  by (simp_all add: implicitNumericVariantTransformation_def as_scalar_def)

text \<open>
  C38: The comparison of an Int64 with an Int32 depends on which one comes first. With the narrow operand
  first both are converted and compared as numbers. With the wide operand first the second operand is
  ignored: the first is compared with itself, so that "equal", "at most" and "at least" hold for any two
  numbers and "less" and "greater" for none. In both cases the converted operand points into a dead frame.
\<close>

theorem wider_first_ignores_second:
  assumes "builtin_env env"
  shows "compareOperation env (Live (VVariantScalar 5 (VU32 b))) (Live (VVariantScalar 7 (VU64 a))) op =
      Done (if order_matches op (UA_NUMERICORDER (sint b) (sint a)) then GOOD else UA_STATUSCODE_BADNOMATCH,
            Dangling 7, Dangling 7) \<and>
    compareOperation env (Live (VVariantScalar 7 (VU64 a))) (Live (VVariantScalar 5 (VU32 b))) op =
      Done (if order_matches op UA_ORDER_EQ then GOOD else UA_STATUSCODE_BADNOMATCH,
            Dangling 7, Live (VVariantScalar 5 (VU32 b)))"
proof -
  have sint_b: "sint (scast b :: u64) = sint b" for b :: u32
    by (simp add: sint_up_scast is_up)
  have eq: "int64Order a a = UA_ORDER_EQ" by (simp add: int64Order_def UA_NUMERICORDER_def)
  have ord: "int64Order (scast b) a = UA_NUMERICORDER (sint b) (sint a)" by (simp add: int64Order_def sint_b)
  show ?thesis using assms
    by (simp add: compareOperation_def UA_DataType_getPrecedence_def int_casts int_rules conversions_def Let_def
        int_transformation compare_values_def UA_order_int64 eq ord)
qed

lemma wider_first_ignores_second_witness:
  "compareOperation demo_env (Live (VVariantScalar 7 (VU64 9))) (Live (VVariantScalar 5 (VU32 3))) UA_FILTEROPERATOR_EQUALS =
     Done (GOOD, Dangling 7, Live (VVariantScalar 5 (VU32 3)))"
  using wider_first_ignores_second [OF demo_builtin_env, where a = 9 and b = 3 and op = UA_FILTEROPERATOR_EQUALS]
  by (simp add: order_matches_def)

text \<open>
  The comparison of a UInt32 with an Int32 reads beyond the second operand. The test for a negative number
  reads 64 bits of the 32-bit number, for every operator and for all values: undefined behaviour. With the
  Int32 first the UInt32 is ignored, as above.
\<close>

theorem unsigned_first_reads_beyond_operand:
  assumes "builtin_env env"
  shows "compareOperation env (Live (VVariantScalar 6 (VU32 a))) (Live (VVariantScalar 5 (VU32 b))) op = Undefined \<and>
    compareOperation env (Live (VVariantScalar 5 (VU32 b))) (Live (VVariantScalar 6 (VU32 a))) op =
      Done (if order_matches op UA_ORDER_EQ then GOOD else UA_STATUSCODE_BADNOMATCH,
            Dangling 7, Live (VVariantScalar 6 (VU32 a)))"
proof -
  have cast: "checkTypeCastingOption DK_UINT32 DK_INT32 = Done 1"
    by (simp add: checkTypeCastingOption_def dataTypeKindIndex_def convertLookup_def)
  have rules: "compare_rule 1 DK_UINT32 DK_INT32 c = UA_TYPES_DIFFERENT_SIGNEDNESS_CAST_TO_UNSIGNED"
    "compare_rule 1 DK_INT32 DK_UINT32 c = UA_TYPES_DIFFERENT_SIGNEDNESS_CAST_TO_SIGNED" for c
    by (simp_all add: compare_rule_def isNumericSigned_def isNumericUnsigned_def isFloatingPoint_def isStringType_def)
  have conv: "implicitNumericVariantTransformation (VVariantScalar 6 (VU32 a)) = Done (GOOD, VVariantScalar 8 (VU64 (ucast a)))"
    "implicitNumericVariantTransformationSignedToUnSigned (VVariantScalar 5 (VU32 b)) = Undefined"
    "implicitNumericVariantTransformationUnsingedToSigned (VVariantScalar 7 (VU64 (scast b))) =
       Done (UA_STATUSCODE_BADTYPEMISMATCH, VVariantScalar 7 (VU64 (scast b)))"
    by (simp_all add: implicitNumericVariantTransformation_def as_scalar_def
        implicitNumericVariantTransformationSignedToUnSigned_def
        implicitNumericVariantTransformationUnsingedToSigned_def)
  have eq: "int64Order x x = UA_ORDER_EQ" for x by (simp add: int64Order_def UA_NUMERICORDER_def)
  have bad: "(UA_STATUSCODE_BADTYPEMISMATCH = GOOD) = False" by (simp add: status_defs)
  show ?thesis using assms
    by (simp add: compareOperation_def UA_DataType_getPrecedence_def cast rules conversions_def Let_def
        int_transformation conv compare_values_def UA_order_int64 eq bad)
qed

lemma unsigned_first_reads_beyond_operand_witness:
  "compareOperation demo_env (Live (VVariantScalar 6 (VU32 1))) (Live (VVariantScalar 5 (VU32 2)))
     UA_FILTEROPERATOR_EQUALS = Undefined"
  using unsigned_first_reads_beyond_operand [OF demo_builtin_env] by blast

end
