(* ===== verification/Filter_Errors.thy ===== *)
theory Filter_Errors
  imports Filter_Order
begin

text \<open>
  What a where clause can do that the validation accepts: inverted lists, a store through NULL, a write
  behind an array and an endless recursion.
\<close>

section \<open>Literals and the first element\<close>

lemma resolve_literal:
  assumes "unat (ctx_index ctx) < length (ctx_contentFilter ctx)"
    and "nr < length (cfe_filterOperands (ctx_contentFilter ctx ! unat (ctx_index ctx)))"
    and "cfe_filterOperands (ctx_contentFilter ctx ! unat (ctx_index ctx)) ! nr = LiteralOperand v"
  shows "resolveOperand w ev evaluate ctx nr = Done (v, ctx)"
  using assms by (simp add: resolveOperand_def current_element_def at_index_def)

lemma operator_number_neqs:
  "UA_FILTEROPERATOR_INLIST \<noteq> UA_FILTEROPERATOR_INVIEW" "UA_FILTEROPERATOR_INLIST \<noteq> UA_FILTEROPERATOR_RELATEDTO"
  by (simp_all add: filter_operators)

text \<open>The context in which the first element of a clause is evaluated.\<close>

definition start_context ::
  "UA_ContentFilterElement list \<Rightarrow> UA_ContentFilterElementResult list \<Rightarrow> ptr list \<Rightarrow> UA_FilterOperatorContext" where
  "start_context fs ers ms = \<lparr>ctx_contentFilter = fs, ctx_elementResults = ers,
     ctx_valueResult = replicate (length fs) VVariantEmpty, ctx_index = 0, ctx_mallocs = ms\<rparr>"

lemma start_context_simps [simp]:
  "ctx_contentFilter (start_context fs ers ms) = fs" "ctx_elementResults (start_context fs ers ms) = ers"
  "ctx_valueResult (start_context fs ers ms) = replicate (length fs) VVariantEmpty"
  "ctx_index (start_context fs ers ms) = 0" "ctx_mallocs (start_context fs ers ms) = ms"
  by (simp_all add: start_context_def)

lemma where_clause_start:
  "fs \<noteq> [] \<Longrightarrow> length fs \<le> 256 \<Longrightarrow>
   UA_Server_evaluateWhereClauseContentFilter w ev stack fs ers ms =
     and_then (evaluateWhereClauseContentFilter w ev stack (start_context fs ers ms))
       (\<lambda>(res, ctx). Done (res, ctx_elementResults ctx, ctx_mallocs ctx))"
  by (simp add: UA_Server_evaluateWhereClauseContentFilter_def start_context_def)

text \<open>A world in which nothing can be read.\<close>

definition demo_world :: UA_EventWorld where
  "demo_world = \<lparr>ew_types = demo_env, ew_read = (\<lambda>n a r. UA_DataValue_init), ew_browse = (\<lambda>n p. (UA_STATUSCODE_BADNOMATCH, [])),
     ew_isSubtype = (\<lambda>a b. False), ew_readProperty = (\<lambda>n q. (UA_STATUSCODE_BADNOMATCH, VVariantEmpty)),
     ew_readValue = (\<lambda>n. (UA_STATUSCODE_BADNOMATCH, VVariantEmpty)), ew_subtypes = (\<lambda>n. (GOOD, []))\<rparr>"

definition demo_result :: UA_ContentFilterElementResult where
  "demo_result = \<lparr>cfr_statusCode = GOOD, cfr_operandStatusCodes = Some [GOOD, GOOD, GOOD]\<rparr>"

section \<open>Lists\<close>

lemma inList_loop_literals:
  assumes "\<And>i. i \<in> set is \<Longrightarrow> \<exists>b. resolve ctx i = Done (VVariantScalar t b, ctx) \<and>
      (\<exists>r. UA_order (ew_types w) (VVariantScalar t a) (VVariantScalar t b) UA_TYPES_VARIANT = Some r \<and>
           (r = UA_ORDER_EQ) = eq i)"
    and "kind_number (kind_at (ew_types w) t) < 21"
  shows "inList_loop w resolve (Live (VVariantScalar t a)) is ctx =
    Done (if \<exists>i \<in> set is. \<not> eq i then GOOD else UA_STATUSCODE_BADNOMATCH, ctx)"
  using assms(1)
proof (induction "is")
  case (Cons i "is")
  obtain b r where b: "resolve ctx i = Done (VVariantScalar t b, ctx)"
    "UA_order (ew_types w) (VVariantScalar t a) (VVariantScalar t b) UA_TYPES_VARIANT = Some r"
    "(r = UA_ORDER_EQ) = eq i" using Cons.prems [of i] by auto
  have c: "compareOperation (ew_types w) (Live (VVariantScalar t a)) (Live (VVariantScalar t b)) UA_FILTEROPERATOR_EQUALS =
      Done (if eq i then GOOD else UA_STATUSCODE_BADNOMATCH, Live (VVariantScalar t a), Live (VVariantScalar t b))"
    using compareOperation_same_type [OF b(2) assms(2), of UA_FILTEROPERATOR_EQUALS] b(3) by (simp add: order_matches_def)
  show ?case using Cons b c by (simp add: UA_Variant_isEmpty_def status_defs)
qed simp

lemma finish_boolean:
  assumes "unat (ctx_index ctx) < length (ctx_elementResults ctx)" "unat (ctx_index ctx) < length (ctx_valueResult ctx)"
    and "variant_type (ctx_valueResult ctx ! unat (ctx_index ctx)) = Some UA_TYPES_BOOLEAN"
    and "ctx_mallocs ctx = p # ps" "p \<noteq> 0"
  shows "finish_element (res, ctx) = Done (res, ctx\<lparr>
    ctx_elementResults := (ctx_elementResults ctx)[unat (ctx_index ctx) :=
      set_status res (ctx_elementResults ctx ! unat (ctx_index ctx))],
    ctx_valueResult := (ctx_valueResult ctx)[unat (ctx_index ctx) :=
      VVariantScalar UA_TYPES_BOOLEAN (VU8 (if res = GOOD then 1 else 0))],
    ctx_mallocs := ps\<rparr>)"
  using assms
  by (simp add: finish_element_def store_status_def current_value_def at_index_def new_boolean_def set_value_def
      set_status_def)

text \<open>
  C37: InList holds when some value of the list differs. For a where clause that is one InList element over
  well-typed literals of one type, the event passes the filter exactly when there is a value in the list that
  is not equal to the first operand; if all are equal, it does not. The test of the comparison is inverted.
\<close>

theorem inList_holds_for_a_difference:
  assumes "\<And>y. y \<in> set (x # ys) \<Longrightarrow> typed_value (ew_types w) te UA_TYPES_VARIANT (VVariantScalar t y)"
    and "kind_number (kind_at (ew_types w) t) < 21" "p \<noteq> 0"
  shows "UA_Server_evaluateWhereClauseContentFilter w ev (Suc stack)
      [\<lparr>cfe_filterOperator = UA_FILTEROPERATOR_INLIST,
        cfe_filterOperands = map (\<lambda>y. LiteralOperand (VVariantScalar t y)) (x # ys)\<rparr>] [er] (p # ms) =
    (let res = if \<exists>y \<in> set ys. UA_order (ew_types w) (VVariantScalar t x) (VVariantScalar t y) UA_TYPES_VARIANT \<noteq>
                    Some UA_ORDER_EQ then GOOD else UA_STATUSCODE_BADNOMATCH
     in Done (res, [set_status res er], ms))"
proof -
  define el where "el = \<lparr>cfe_filterOperator = UA_FILTEROPERATOR_INLIST,
    cfe_filterOperands = map (\<lambda>y. LiteralOperand (VVariantScalar t y)) (x # ys)\<rparr>"
  define ctx where "ctx = set_value (VVariantArray UA_TYPES_BOOLEAN None []) (start_context [el] [er] (p # ms))"
  define eq where "eq i = (UA_order (ew_types w) (VVariantScalar t x) (VVariantScalar t (ys ! (i - 1))) UA_TYPES_VARIANT =
    Some UA_ORDER_EQ)" for i
  let ?resolve = "resolveOperand w ev (evaluateWhereClauseContentFilter w ev stack)"
  have ctx: "ctx_contentFilter ctx = [el]" "ctx_index ctx = 0" "ctx_elementResults ctx = [er]" "ctx_mallocs ctx = p # ms"
    "ctx_valueResult ctx = [VVariantArray UA_TYPES_BOOLEAN None []]"
    by (simp_all add: ctx_def set_value_def start_context_def)
  have mark: "mark_boolean (start_context [el] [er] (p # ms)) = Done ctx"
    by (simp add: mark_boolean_def current_value_def at_index_def ctx_def)
  have lit: "?resolve ctx i = Done (VVariantScalar t ((x # ys) ! i), ctx)" if "i < length (x # ys)" for i
    by (rule resolve_literal) (use that in \<open>simp_all add: ctx el_def nth_Cons'\<close>)
  define res where "res = (if \<exists>i \<in> set [1..<length (x # ys)]. \<not> eq i then GOOD else UA_STATUSCODE_BADNOMATCH)"
  have loop: "inList_loop w ?resolve (Live (VVariantScalar t x)) [1..<length (x # ys)] ctx = Done (res, ctx)"
    unfolding res_def
  proof (rule inList_loop_literals [OF _ assms(2)])
    fix i assume "i \<in> set [1..<length (x # ys)]"
    then have i: "i < length (x # ys)" "i \<noteq> 0" "i - 1 < length ys" by auto
    then have m: "ys ! (i - 1) \<in> set (x # ys)" by simp
    have n: "(x # ys) ! i = ys ! (i - 1)" using i by (simp add: nth_Cons')
    obtain r where "UA_order (ew_types w) (VVariantScalar t x) (VVariantScalar t (ys ! (i - 1))) UA_TYPES_VARIANT = Some r"
      using value_order.defined [OF assms(1) [of x] assms(1) [OF m]] by auto
    then show "\<exists>b. ?resolve ctx i = Done (VVariantScalar t b, ctx) \<and>
        (\<exists>r. UA_order (ew_types w) (VVariantScalar t x) (VVariantScalar t b) UA_TYPES_VARIANT = Some r \<and>
             (r = UA_ORDER_EQ) = eq i)"
      using lit [OF i(1)] n by (auto simp: eq_def)
  qed
  have "inListOperator w ?resolve (start_context [el] [er] (p # ms)) = Done (res, ctx)"
    using mark lit [of 0] loop ctx
    by (simp add: inListOperator_def UA_Variant_isEmpty_def current_element_def at_index_def el_def)
  then have "evaluateWhereClauseContentFilter w ev (Suc stack) (start_context [el] [er] (p # ms)) =
      finish_element (res, ctx)"
    by (simp add: evaluate_element_def current_element_def at_index_def el_def Let_def comparison_operators_def
        filter_operators)
  note ev = this
  have "(\<exists>i \<in> set [1..<length (x # ys)]. \<not> eq i) =
      (\<exists>y \<in> set ys. UA_order (ew_types w) (VVariantScalar t x) (VVariantScalar t y) UA_TYPES_VARIANT \<noteq> Some UA_ORDER_EQ)"
    (is "?L = ?R")
  proof
    assume ?R
    then obtain j where "j < length ys" "\<not> eq (Suc j)" by (auto simp: in_set_conv_nth eq_def)
    then show ?L by (intro bexI [of _ "Suc j"]) auto
  next
    assume ?L
    then obtain i where "1 \<le> i" "i < length (x # ys)" "\<not> eq i" by auto
    then show ?R by (intro bexI [of _ "ys ! (i - 1)"]) (auto simp: eq_def)
  qed
  then have "res = (if \<exists>y \<in> set ys. UA_order (ew_types w) (VVariantScalar t x) (VVariantScalar t y) UA_TYPES_VARIANT \<noteq>
      Some UA_ORDER_EQ then GOOD else UA_STATUSCODE_BADNOMATCH)" by (simp only: res_def)
  moreover have "UA_Server_evaluateWhereClauseContentFilter w ev (Suc stack) [el] [er] (p # ms) =
      Done (res, [set_status res er], ms)"
    using ev finish_boolean [of ctx p ms res] assms(3) ctx by (simp add: where_clause_start)
  ultimately show ?thesis unfolding el_def Let_def by (simp only:)
qed

text \<open>The first operand is equal to all of the list, and to none.\<close>

lemma inList_holds_for_a_difference_witness:
  "UA_Server_evaluateWhereClauseContentFilter demo_world (ns0 1) (Suc 0)
     [\<lparr>cfe_filterOperator = UA_FILTEROPERATOR_INLIST,
       cfe_filterOperands = map (\<lambda>y. LiteralOperand (VVariantScalar 5 (VU32 y))) [3, 3, 3]\<rparr>] [demo_result] [4] =
     Done (UA_STATUSCODE_BADNOMATCH, [set_status UA_STATUSCODE_BADNOMATCH demo_result], []) \<and>
   UA_Server_evaluateWhereClauseContentFilter demo_world (ns0 1) (Suc 0)
     [\<lparr>cfe_filterOperator = UA_FILTEROPERATOR_INLIST,
       cfe_filterOperands = map (\<lambda>y. LiteralOperand (VVariantScalar 5 (VU32 y))) [3, 7, 8]\<rparr>] [demo_result] [4] =
     Done (GOOD, [set_status GOOD demo_result], [])"
proof -
  have k: "kind_number (kind_at (ew_types demo_world) 5) < 21" using demo_builtin_env by (simp add: demo_world_def)
  have o: "UA_order (ew_types demo_world) (VVariantScalar 5 (VU32 x)) (VVariantScalar 5 (VU32 y)) UA_TYPES_VARIANT =
      Some (int32Order x y)" for x y
    using demo_builtin_env by (simp add: UA_order_scalars demo_world_def order_dispatch_def order32_def)
  have t: "typed_value (ew_types demo_world) 0 UA_TYPES_VARIANT (VVariantScalar 5 (VU32 y))" for y
    using demo_scalar by (simp add: demo_world_def)
  have t1: "y \<in> set [VU32 3, VU32 3, VU32 3] \<Longrightarrow>
      typed_value (ew_types demo_world) 0 UA_TYPES_VARIANT (VVariantScalar 5 y)" for y using t by auto
  have t2: "y \<in> set [VU32 3, VU32 7, VU32 8] \<Longrightarrow>
      typed_value (ew_types demo_world) 0 UA_TYPES_VARIANT (VVariantScalar 5 y)" for y using t by auto
  show ?thesis
    using inList_holds_for_a_difference [of "VU32 3" "[VU32 3, VU32 3]" demo_world 0 5 4 "ns0 1" 0 demo_result "[]", OF t1 k]
      inList_holds_for_a_difference [of "VU32 3" "[VU32 7, VU32 8]" demo_world 0 5 4 "ns0 1" 0 demo_result "[]", OF t2 k]
    by (simp add: o int32Order_def UA_NUMERICORDER_def Let_def)
qed

section \<open>Accepted filters\<close>

text \<open>The validation reports no problem: \<^verbatim>\<open>checkEventFilterParam\<close> then accepts the where clause.\<close>

definition where_clause_accepted :: "UA_EventWorld \<Rightarrow> UA_ContentFilterElement list \<Rightarrow> ptr list \<Rightarrow> bool" where
  "where_clause_accepted w fs ms =
     (case UA_Event_staticWhereClauseValidation w fs ms of
        Done ((_, _, Some ers), _) \<Rightarrow> list_all (\<lambda>er. cfr_statusCode er = GOOD) ers
      | _ \<Rightarrow> False)"

lemma validate_one:
  assumes "\<And>er. \<exists>er'. validate_element w 1 f er = Done er' \<and> cfr_statusCode er' = GOOD" "0 \<notin> set ms" "2 \<le> length ms"
  shows "where_clause_accepted w [f] ms"
proof -
  obtain p ps where ms: "ms = p # ps" "p \<noteq> 0" using assms(2,3) by (cases ms) auto
  obtain codes ps' where c: "new_codes (length (cfe_filterOperands f)) ps = (codes, ps')" by force
  obtain er' where "validate_element w 1 f \<lparr>cfr_statusCode = 0, cfr_operandStatusCodes = codes\<rparr> = Done er'"
    "cfr_statusCode er' = GOOD" using assms(1) by blast
  then show ?thesis using ms c
    by (simp add: where_clause_accepted_def UA_Event_staticWhereClauseValidation_def alloc_def)
qed

lemma evaluate_not_self:
  assumes "ctx_contentFilter ctx = [\<lparr>cfe_filterOperator = UA_FILTEROPERATOR_NOT, cfe_filterOperands = [ElementOperand 0]\<rparr>]"
    "ctx_index ctx = 0"
  shows "evaluateWhereClauseContentFilter w ev stack ctx = TooDeep"
  using assms
proof (induction stack arbitrary: ctx)
  case (Suc stack)
  have "evaluateWhereClauseContentFilter w ev stack (ctx\<lparr>ctx_index := 0\<rparr>) = TooDeep"
    by (rule Suc.IH) (simp_all add: Suc.prems)
  then show ?case using Suc.prems
    by (simp add: evaluate_element_def current_element_def at_index_def comparison_operators_def filter_operators
        notOperator_def resolve_boolean_def resolveOperand_def)
qed simp

text \<open>
  C39: The server accepts an event filter whose evaluation does not end. The where clause that is one NOT
  element, with itself as the operand, passes the validation; evaluating it for an event recurses deeper than
  any stack, whatever the address space holds. The validation does not look at the operand of NOT at all.
\<close>

theorem accepted_filter_recurses_for_ever:
  assumes "0 \<notin> set ms" "2 \<le> length ms"
  shows "(let clause = [\<lparr>cfe_filterOperator = UA_FILTEROPERATOR_NOT, cfe_filterOperands = [ElementOperand 0]\<rparr>]
    in where_clause_accepted w clause ms \<and>
       (\<forall>ev stack ers ms'. UA_Server_evaluateWhereClauseContentFilter w ev stack clause ers ms' = TooDeep))"
proof -
  let ?f = "\<lparr>cfe_filterOperator = UA_FILTEROPERATOR_NOT, cfe_filterOperands = [ElementOperand 0]\<rparr>"
  have "where_clause_accepted w [?f] ms"
    by (rule validate_one [OF _ assms])
       (simp add: validate_element_def two_operands_def comparison_operators_def filter_operators set_status_def)
  moreover have "UA_Server_evaluateWhereClauseContentFilter w ev stack [?f] ers ms' = TooDeep" for ev stack ers ms'
    by (simp add: where_clause_start evaluate_not_self)
  ultimately show ?thesis by (simp add: Let_def)
qed

lemma accepted_filter_recurses_for_ever_witness:
  "UA_Server_evaluateWhereClauseContentFilter demo_world (ns0 1) 1000000
     [\<lparr>cfe_filterOperator = UA_FILTEROPERATOR_NOT, cfe_filterOperands = [ElementOperand 0]\<rparr>] [demo_result] [4, 8] = TooDeep"
  using accepted_filter_recurses_for_ever [of "[4, 8]" demo_world] by (simp add: Let_def)

lemma read_not_deep: "read64 v \<noteq> TooDeep" "read32 v \<noteq> TooDeep" "read16 v \<noteq> TooDeep" "read8 v \<noteq> TooDeep"
proof -
  show "read64 v \<noteq> TooDeep" by (induction v rule: read64.induct) simp_all
  show "read32 v \<noteq> TooDeep" by (induction v rule: read32.induct) simp_all
  show "read16 v \<noteq> TooDeep" by (induction v rule: read16.induct) simp_all
  show "read8 v \<noteq> TooDeep" by (induction v rule: read8.induct) simp_all
qed

lemma bitwise_outcome:
  assumes "n \<in> {3, 4, 5, 6, 8, 9, 10, 11}"
  shows "bitwise_result isAnd n v1 v2 = Undefined \<or> (\<exists>t x. bitwise_result isAnd n v1 v2 = Done (Some (t, x)))"
proof -
  have step: "r = Undefined \<or> (\<exists>t x. r = Done (Some (t, x)))"
    if "r = and_then m (\<lambda>a. and_then m' (\<lambda>b. Done (Some (t, f a b))))" "m \<noteq> TooDeep" "m' \<noteq> TooDeep"
    for r and m m' :: "'a::len word outcome" and t :: tyref and f :: "'a word \<Rightarrow> 'a word \<Rightarrow> ua_val"
    using that by (cases m; cases m') simp_all
  show ?thesis using assms
    by (elim insertE emptyE) (simp_all add: bitwise_result_def step [OF refl read_not_deep(1) read_not_deep(1)]
        step [OF refl read_not_deep(2) read_not_deep(2)] step [OF refl read_not_deep(3) read_not_deep(3)]
        step [OF refl read_not_deep(4) read_not_deep(4)])
qed

text \<open>
  A bitwise element crashes the server. The validation accepts a bitwise AND or OR of two integers, of
  any integer types and values; the evaluation reads the narrower one beyond its end, or writes the result
  through the data pointer of the result variant, for which no memory was allocated.
\<close>

theorem accepted_bitwise_filter_is_undefined:
  assumes "op = UA_FILTEROPERATOR_BITWISEAND \<or> op = UA_FILTEROPERATOR_BITWISEOR" "builtin_env (ew_types w)"
    and "t1 < 9" "t2 < 9" "0 < t1" "0 < t2"
    and "0 \<notin> set ms" "2 \<le> length ms"
  shows "(let clause = [\<lparr>cfe_filterOperator = op,
        cfe_filterOperands = [LiteralOperand (VVariantScalar t1 a), LiteralOperand (VVariantScalar t2 b)]\<rparr>]
    in where_clause_accepted w clause ms \<and>
       UA_Server_evaluateWhereClauseContentFilter w ev (Suc stack) clause ers ms' = Undefined)"
proof -
  let ?f = "\<lparr>cfe_filterOperator = op,
    cfe_filterOperands = [LiteralOperand (VVariantScalar t1 a), LiteralOperand (VVariantScalar t2 b)]\<rparr>"
  let ?ctx = "start_context [?f] ers ms'"
  let ?resolve = "resolveOperand w ev (evaluateWhereClauseContentFilter w ev stack)"
  have accepted: "where_clause_accepted w [?f] ms"
    by (rule validate_one [OF _ assms(7,8)])
       (use assms(1) in \<open>auto simp: validate_element_def two_operands_def comparison_operators_def filter_operators set_status_def\<close>)
  have lit: "?resolve ?ctx 0 = Done (VVariantScalar t1 a, ?ctx)" "?resolve ?ctx 1 = Done (VVariantScalar t2 b, ?ctx)"
    by (rule resolve_literal; simp)+
  have kinds: "isNumericSigned (kind_at (ew_types w) t) \<or> isNumericUnsigned (kind_at (ew_types w) t)"
    if "t < 9" "0 < t" for t
  proof -
    have "kind_number (kind_at (ew_types w) t) = t" using assms(2) that by (simp add: builtin_env_def)
    then show ?thesis using that
      by (cases "kind_at (ew_types w) t") (simp_all add: isNumericSigned_def isNumericUnsigned_def)
  qed
  have int: "is_integer_scalar (ew_types w) (VVariantScalar t v)" if "t < 9" "0 < t" for t v
    using kinds [OF that] that
    by (auto simp: is_integer_scalar_def is_numeric_variant_def UA_DataType_isNumeric_def isNumericSigned_def
        isNumericUnsigned_def)
  have prec: "variant_precedence (ew_types w) (VVariantScalar t v) \<in> {3, 4, 5, 6, 8, 9, 10, 11}"
    if "t < 9" "0 < t" for t v
    using kinds [OF that] that
    by (auto simp: variant_precedence_def UA_DataType_getPrecedence_def isNumericSigned_def isNumericUnsigned_def)
  have p: "min (variant_precedence (ew_types w) (VVariantScalar t1 a)) (variant_precedence (ew_types w) (VVariantScalar t2 b))
      \<in> {3, 4, 5, 6, 8, 9, 10, 11}"
    using prec [OF assms(3,5), of a] prec [OF assms(4,6), of b] unfolding min_def by (simp split: if_splits)
  let ?r = "bitwise_result (op = UA_FILTEROPERATOR_BITWISEAND)
    (min (variant_precedence (ew_types w) (VVariantScalar t1 a)) (variant_precedence (ew_types w) (VVariantScalar t2 b)))
    (VVariantScalar t1 a) (VVariantScalar t2 b)"
  have "bitwiseOperator w ?resolve ?ctx = Undefined"
    using bitwise_outcome [OF p, of "op = UA_FILTEROPERATOR_BITWISEAND" "VVariantScalar t1 a" "VVariantScalar t2 b"]
  proof (elim disjE exE)
    assume "?r = Undefined"
    then show ?thesis
      using lit int [OF assms(3,5), of a] int [OF assms(4,6), of b]
      by (simp add: bitwiseOperator_def UA_Variant_isEmpty_def current_element_def at_index_def Let_def)
  next
    fix t x assume "?r = Done (Some (t, x))"
    then show ?thesis
      using lit int [OF assms(3,5), of a] int [OF assms(4,6), of b]
      by (simp add: bitwiseOperator_def UA_Variant_isEmpty_def current_element_def current_value_def at_index_def
          store_value_def Let_def)
  qed
  then have "evaluateWhereClauseContentFilter w ev (Suc stack) ?ctx = Undefined"
    using assms(1) by (auto simp: evaluate_element_def current_element_def at_index_def comparison_operators_def filter_operators)
  then have "UA_Server_evaluateWhereClauseContentFilter w ev (Suc stack) [?f] ers ms' = Undefined"
    by (simp add: where_clause_start del: evaluateWhereClauseContentFilter.simps)
  then show ?thesis using accepted by (simp add: Let_def del: evaluateWhereClauseContentFilter.simps)
qed

lemma accepted_bitwise_filter_is_undefined_witness:
  "UA_Server_evaluateWhereClauseContentFilter demo_world (ns0 1) (Suc 9)
     [\<lparr>cfe_filterOperator = UA_FILTEROPERATOR_BITWISEAND,
       cfe_filterOperands = [LiteralOperand (VVariantScalar 5 (VU32 6)), LiteralOperand (VVariantScalar 5 (VU32 3))]\<rparr>]
     [demo_result] [4, 8] = Undefined"
  using accepted_bitwise_filter_is_undefined [of UA_FILTEROPERATOR_BITWISEAND demo_world 5 5 "[4, 8]" "VU32 6" "VU32 3" "ns0 1" 9
      "[demo_result]" "[4, 8]"] demo_builtin_env
  by (simp add: demo_world_def Let_def)

lemma two_copies: "replicate 2 x = [x, x]" by (simp add: numeral_2_eq_2)

text \<open>
  C40: An accepted filter writes behind an array on the heap. Take a where clause whose first element has one
  operand, NOT of the second element, and whose second element is an AND with an operand of a kind that
  cannot be evaluated. The validation accepts it (its check of the operands of AND is overwritten), and
  filtering any event stores the status of the second operand into an array that has the size of the
  operands of the first element.
\<close>

theorem accepted_filter_writes_behind_array:
  assumes "0 \<notin> set ms" "3 \<le> length ms" "0 \<notin> set ms'" "5 \<le> length ms'" "selects \<noteq> []"
  shows "(let clause = [\<lparr>cfe_filterOperator = UA_FILTEROPERATOR_NOT, cfe_filterOperands = [ElementOperand 1]\<rparr>,
        \<lparr>cfe_filterOperator = UA_FILTEROPERATOR_AND,
         cfe_filterOperands = [LiteralOperand (VVariantScalar UA_TYPES_BOOLEAN (VU8 1)), OtherOperand]\<rparr>]
    in where_clause_accepted w clause ms \<and>
       filterEvent w (Suc (Suc stack)) ev \<lparr>ef_selectClauses = selects, ef_whereClause = clause\<rparr> ms' = Undefined)"
proof -
  let ?not = "\<lparr>cfe_filterOperator = UA_FILTEROPERATOR_NOT, cfe_filterOperands = [ElementOperand 1]\<rparr>"
  let ?and = "\<lparr>cfe_filterOperator = UA_FILTEROPERATOR_AND,
    cfe_filterOperands = [LiteralOperand (VVariantScalar UA_TYPES_BOOLEAN (VU8 1)), OtherOperand]\<rparr>"
  obtain a b c ps where ms: "ms = a # b # c # ps" "a \<noteq> 0" "b \<noteq> 0" "c \<noteq> 0"
    using assms(1,2) by (metis Suc_le_length_iff list.set_intros numeral_3_eq_3)
  have accepted: "where_clause_accepted w [?not, ?and] ms"
    using ms by (simp add: where_clause_accepted_def UA_Event_staticWhereClauseValidation_def alloc_def new_codes_def
        validate_element_def two_operands_def comparison_operators_def filter_operators set_status_def
        set_operand_status_def two_copies)
  obtain d ps1 where d: "ms' = d # ps1" "d \<noteq> 0" "0 \<notin> set ps1" "4 \<le> length ps1"
    using assms(3,4) by (cases ms') auto
  obtain e ps2 where e: "ps1 = e # ps2" "e \<noteq> 0" "0 \<notin> set ps2" "3 \<le> length ps2" using d(3,4) by (cases ps1) auto
  obtain f ps3 where f: "ps2 = f # ps3" "f \<noteq> 0" "0 \<notin> set ps3" "2 \<le> length ps3" using e(3,4) by (cases ps2) auto
  obtain g ps4 where g: "ps3 = g # ps4" "g \<noteq> 0" "0 \<notin> set ps4" "1 \<le> length ps4" using f(3,4) by (cases ps3) auto
  obtain h ps5 where h: "ps4 = h # ps5" "h \<noteq> 0" using g(3,4) by (cases ps4) auto
  define ers where "ers = replicate 2 \<lparr>cfr_statusCode = 0, cfr_operandStatusCodes = Some [0]\<rparr>"
  have results: "new_where_results [?not, ?and] ps2 = (Some ers, ps5)"
    using f(2) g(2) h(2) by (simp add: new_where_results_def alloc_def new_codes_def f(1) g(1) h(1) two_copies ers_def)
  have second: "evaluateWhereClauseContentFilter w ev (Suc stack) (start_context [?not, ?and] ers ps5\<lparr>ctx_index := 1\<rparr>) = Undefined"
    by (simp add: evaluate_element_def current_element_def at_index_def comparison_operators_def filter_operators
        andOperator_def resolve_boolean_def resolveOperand_def resolveBoolean_def pointee_def
        record_operand_status_def ers_def start_context_def status_defs)
  have "evaluateWhereClauseContentFilter w ev (Suc (Suc stack)) (start_context [?not, ?and] ers ps5) = Undefined"
    using second
    by (subst evaluateWhereClauseContentFilter.simps)
       (simp add: evaluate_element_def [of _ _ "evaluateWhereClauseContentFilter w ev (Suc stack)"] current_element_def
        at_index_def comparison_operators_def filter_operators notOperator_def resolve_boolean_def resolveOperand_def
        del: evaluateWhereClauseContentFilter.simps)
  then have "filterEvent w (Suc (Suc stack)) ev \<lparr>ef_selectClauses = selects, ef_whereClause = [?not, ?and]\<rparr> ms' = Undefined"
    using d(2) e(2) assms(5) results
    by (simp add: filterEvent_def alloc_def d(1) e(1) where_clause_start del: evaluateWhereClauseContentFilter.simps)
  then show ?thesis using accepted by (simp add: Let_def)
qed

lemma accepted_filter_writes_behind_array_witness:
  "filterEvent demo_world (Suc (Suc 9)) (ns0 5)
     \<lparr>ef_selectClauses = [\<lparr>sao_typeDefinitionId = ns0 UA_NS0ID_BASEEVENTTYPE, sao_browsePath = Some [(0, ascii ''Time'')],
                          sao_attributeId = 13, sao_indexRange = None\<rparr>],
      ef_whereClause = [\<lparr>cfe_filterOperator = UA_FILTEROPERATOR_NOT, cfe_filterOperands = [ElementOperand 1]\<rparr>,
        \<lparr>cfe_filterOperator = UA_FILTEROPERATOR_AND,
         cfe_filterOperands = [LiteralOperand (VVariantScalar UA_TYPES_BOOLEAN (VU8 1)), OtherOperand]\<rparr>]\<rparr>
     [3, 4, 5, 6, 7] = Undefined"
  using accepted_filter_writes_behind_array [of "[3, 4, 5]" "[3, 4, 5, 6, 7]"
      "[\<lparr>sao_typeDefinitionId = ns0 UA_NS0ID_BASEEVENTTYPE, sao_browsePath = Some [(0, ascii ''Time'')],
         sao_attributeId = 13, sao_indexRange = None\<rparr>]" demo_world 9 "ns0 5"]
  by (simp add: Let_def)

end
