(* ===== verification/Filter_Meaning.thy ===== *)
theory Filter_Meaning
  imports Filter_Errors
begin

text \<open>
  The meaning of a where clause, as a tree with three truth values, and the proof that the evaluation of the
  array of elements computes it: for every layout of the tree in the array, with references in any
  direction and shared elements.
\<close>

section \<open>Clauses as trees\<close>

datatype clause =
  CLiteral ua_val
| CAttribute UA_SimpleAttributeOperand
| CAnd clause clause
| COr clause clause
| CNot clause
| CIsNull clause
| CCompare u32 clause clause
| COfType UA_NodeId

text \<open>Which tree an operand stands for.\<close>

definition referenced :: "UA_ContentFilterElement list \<Rightarrow> UA_FilterOperand \<Rightarrow> u32 \<Rightarrow> UA_FilterOperand list" where
  "referenced fs operand op =
     (case operand of
        ElementOperand j \<Rightarrow>
          if unat j < length fs \<and> cfe_filterOperator (fs ! unat j) = op then cfe_filterOperands (fs ! unat j) else []
      | _ \<Rightarrow> [])"

fun encodes :: "UA_ContentFilterElement list \<Rightarrow> clause \<Rightarrow> UA_FilterOperand \<Rightarrow> bool" where
  "encodes fs (CLiteral v) e = (e = LiteralOperand v)"
| "encodes fs (CAttribute a) e = (e = SimpleAttributeOperand a)"
| "encodes fs (CAnd x y) e =
     (case referenced fs e UA_FILTEROPERATOR_AND of [p, q] \<Rightarrow> encodes fs x p \<and> encodes fs y q | _ \<Rightarrow> False)"
| "encodes fs (COr x y) e =
     (case referenced fs e UA_FILTEROPERATOR_OR of [p, q] \<Rightarrow> encodes fs x p \<and> encodes fs y q | _ \<Rightarrow> False)"
| "encodes fs (CNot x) e =
     (case referenced fs e UA_FILTEROPERATOR_NOT of [p] \<Rightarrow> encodes fs x p | _ \<Rightarrow> False)"
| "encodes fs (CIsNull x) e =
     (case referenced fs e UA_FILTEROPERATOR_ISNULL of [p] \<Rightarrow> encodes fs x p | _ \<Rightarrow> False)"
| "encodes fs (CCompare op x y) e =
     (op \<in> comparison_operators \<and>
      (case referenced fs e op of [p, q] \<Rightarrow> encodes fs x p \<and> encodes fs y q | _ \<Rightarrow> False))"
| "encodes fs (COfType t) e =
     (referenced fs e UA_FILTEROPERATOR_OFTYPE = [LiteralOperand (VVariantScalar UA_TYPES_NODEID (VNodeId t))])"

section \<open>Truth values\<close>

text \<open>\<open>None\<close> stands for an error.\<close>

definition status_truth :: "status \<Rightarrow> bool option" where
  "status_truth res = (if res = GOOD then Some True else if res = UA_STATUSCODE_BADNOMATCH then Some False else None)"

definition and3 :: "bool option \<Rightarrow> bool option \<Rightarrow> bool option" where
  "and3 a b = (if a = Some False \<or> b = Some False then Some False
               else if a = Some True \<and> b = Some True then Some True else None)"

definition or3 :: "bool option \<Rightarrow> bool option \<Rightarrow> bool option" where
  "or3 a b = (if a = Some True \<or> b = Some True then Some True
              else if a = Some False \<and> b = Some False then Some False else None)"

text \<open>The negation of an error holds.\<close>

definition not3 :: "bool option \<Rightarrow> bool option" where
  "not3 a = Some (a \<noteq> Some True)"

definition truth_of_string :: "UA_String \<Rightarrow> bool option" where
  "truth_of_string s = (if UA_String_equal s (ascii ''True'') then Some True
                        else if UA_String_equal s (ascii ''False'') then Some False else None)"

definition truth_of_value :: "ua_val \<Rightarrow> bool option" where
  "truth_of_value v =
     (case variant_elements v of
        VU8 b # _ \<Rightarrow> if variant_type v = Some UA_TYPES_BOOLEAN then Some (b = 1) else None
      | VString s # _ \<Rightarrow> if variant_type v = Some UA_TYPES_STRING then truth_of_string s else None
      | _ \<Rightarrow> None)"

definition value_of_truth :: "bool option \<Rightarrow> ua_val" where
  "value_of_truth b =
     (case b of None \<Rightarrow> VVariantEmpty | Some x \<Rightarrow> VVariantScalar UA_TYPES_BOOLEAN (VU8 (if x then 1 else 0)))"

definition compare3 :: "type_env \<Rightarrow> u32 \<Rightarrow> ua_val \<Rightarrow> ua_val \<Rightarrow> bool option" where
  "compare3 env op v1 v2 =
     (if \<not> UA_Variant_isScalar v1 \<or> \<not> UA_Variant_isScalar v2 \<or>
         op \<noteq> UA_FILTEROPERATOR_EQUALS \<and> \<not> ordered_kind (kind_at env (the (variant_type v1))) then None
      else map_option (order_matches op) (UA_order env v1 v2 UA_TYPES_VARIANT))"

definition ofType3 :: "UA_EventWorld \<Rightarrow> UA_NodeId \<Rightarrow> UA_NodeId \<Rightarrow> bool option" where
  "ofType3 w ev t =
     (let (res, v) = ew_readProperty w ev (0, ascii ''EventType'')
      in if res \<noteq> GOOD then status_truth res
         else case v of
                VVariantScalar t' (VNodeId n) \<Rightarrow>
                  if t' = UA_TYPES_NODEID then Some (UA_NodeId_equal n t \<or> ew_isSubtype w n t) else None
              | _ \<Rightarrow> None)"

text \<open>The value of a tree; the value of an operator is a Boolean, or empty for an error.\<close>

fun clause_value :: "UA_EventWorld \<Rightarrow> UA_NodeId \<Rightarrow> clause \<Rightarrow> ua_val" where
  "clause_value w ev (CLiteral v) = v"
| "clause_value w ev (CAttribute a) =
     (let (res, v) = resolveSimpleAttributeOperand w ev a
      in if status_truth res = None then VVariantEmpty else v)"
| "clause_value w ev (CAnd x y) =
     value_of_truth (and3 (truth_of_value (clause_value w ev x)) (truth_of_value (clause_value w ev y)))"
| "clause_value w ev (COr x y) =
     value_of_truth (or3 (truth_of_value (clause_value w ev x)) (truth_of_value (clause_value w ev y)))"
| "clause_value w ev (CNot x) = value_of_truth (not3 (truth_of_value (clause_value w ev x)))"
| "clause_value w ev (CIsNull x) = value_of_truth (Some (UA_Variant_isEmpty (clause_value w ev x)))"
| "clause_value w ev (CCompare op x y) =
     value_of_truth (compare3 (ew_types w) op (clause_value w ev x) (clause_value w ev y))"
| "clause_value w ev (COfType t) = value_of_truth (ofType3 w ev t)"

definition clause_truth :: "UA_EventWorld \<Rightarrow> UA_NodeId \<Rightarrow> clause \<Rightarrow> bool option" where
  "clause_truth w ev c = truth_of_value (clause_value w ev c)"

lemma truth_of_value_of_truth [simp]: "truth_of_value (value_of_truth b) = b"
  by (cases b) (simp_all add: truth_of_value_def value_of_truth_def)

text \<open>The operators of a tree: how deep they are nested, and how many there are.\<close>

fun clause_depth :: "clause \<Rightarrow> nat" where
  "clause_depth (CLiteral v) = 0"
| "clause_depth (CAttribute a) = 0"
| "clause_depth (CAnd x y) = Suc (max (clause_depth x) (clause_depth y))"
| "clause_depth (COr x y) = Suc (max (clause_depth x) (clause_depth y))"
| "clause_depth (CNot x) = Suc (clause_depth x)"
| "clause_depth (CIsNull x) = Suc (clause_depth x)"
| "clause_depth (CCompare op x y) = Suc (max (clause_depth x) (clause_depth y))"
| "clause_depth (COfType t) = 1"

fun clause_size :: "clause \<Rightarrow> nat" where
  "clause_size (CLiteral v) = 0"
| "clause_size (CAttribute a) = 0"
| "clause_size (CAnd x y) = Suc (clause_size x + clause_size y)"
| "clause_size (COr x y) = Suc (clause_size x + clause_size y)"
| "clause_size (CNot x) = Suc (clause_size x)"
| "clause_size (CIsNull x) = Suc (clause_size x)"
| "clause_size (CCompare op x y) = Suc (clause_size x + clause_size y)"
| "clause_size (COfType t) = 1"

text \<open>
  The values of a tree are well-typed; strings and Booleans are not empty arrays (whose data pointer is no
  pointer to a value); and two compared scalars have the same builtin type.
\<close>

definition readable :: "ua_val \<Rightarrow> bool" where
  "readable v = (variant_type v \<in> {Some UA_TYPES_STRING, Some UA_TYPES_BOOLEAN} \<longrightarrow> variant_elements v \<noteq> [])"

definition comparable :: "type_env \<Rightarrow> ua_val \<Rightarrow> ua_val \<Rightarrow> bool" where
  "comparable env v1 v2 =
     (UA_Variant_isScalar v1 \<and> UA_Variant_isScalar v2 \<longrightarrow>
      variant_type v1 = variant_type v2 \<and> kind_number (kind_at env (the (variant_type v1))) < 21)"

fun clause_ok :: "UA_EventWorld \<Rightarrow> UA_NodeId \<Rightarrow> tyref \<Rightarrow> clause \<Rightarrow> bool" where
  "clause_ok w ev te (CLiteral v) = (typed_value (ew_types w) te UA_TYPES_VARIANT v \<and> readable v)"
| "clause_ok w ev te (CAttribute a) =
     (typed_value (ew_types w) te UA_TYPES_VARIANT (clause_value w ev (CAttribute a)) \<and>
      readable (clause_value w ev (CAttribute a)))"
| "clause_ok w ev te (CAnd x y) = (clause_ok w ev te x \<and> clause_ok w ev te y)"
| "clause_ok w ev te (COr x y) = (clause_ok w ev te x \<and> clause_ok w ev te y)"
| "clause_ok w ev te (CNot x) = clause_ok w ev te x"
| "clause_ok w ev te (CIsNull x) = clause_ok w ev te x"
| "clause_ok w ev te (CCompare op x y) =
     (clause_ok w ev te x \<and> clause_ok w ev te y \<and>
      comparable (ew_types w) (clause_value w ev x) (clause_value w ev y))"
| "clause_ok w ev te (COfType t) =
     (case ew_readProperty w ev (0, ascii ''EventType'') of
        (res, VVariantScalar t' v) \<Rightarrow> t' = UA_TYPES_NODEID \<longrightarrow> (\<exists>n. v = VNodeId n)
      | _ \<Rightarrow> True)"

section \<open>Values\<close>

lemma clause_value_ok:
  assumes "clause_ok w ev te c" "builtin_env (ew_types w)" "plain_members (ew_types w)"
    "wf_nodeid (binaryEncodingId (ty_at (ew_types w) UA_TYPES_BOOLEAN))"
  shows "typed_value (ew_types w) te UA_TYPES_VARIANT (clause_value w ev c) \<and> readable (clause_value w ev c)"
proof -
  have b: "typed_value (ew_types w) te UA_TYPES_VARIANT (value_of_truth b) \<and> readable (value_of_truth b)" for b
  proof -
    have k: "kind_at (ew_types w) 0 = DK_BOOLEAN" "kind_at (ew_types w) 23 = DK_VARIANT"
      using assms(2) builtin_kind [of "ew_types w" DK_BOOLEAN] builtin_kind [of "ew_types w" DK_VARIANT] by simp_all
    then show ?thesis using assms(2-4)
      by (cases b) (simp_all add: value_of_truth_def typed_value_def readable_def kind8_def)
  qed
  show ?thesis using assms(1) by (cases c) (simp_all add: b)
qed

lemma truth_of_other: "variant_type v \<noteq> Some 11 \<Longrightarrow> variant_type v \<noteq> Some 0 \<Longrightarrow> truth_of_value v = None"
proof (cases "variant_elements v")
  case (Cons x xs)
  assume "variant_type v \<noteq> Some 11" "variant_type v \<noteq> Some 0"
  with Cons show ?thesis by (cases x) (simp_all add: truth_of_value_def)
qed (simp add: truth_of_value_def)

lemma resolveBoolean_truth:
  assumes "typed_value env te UA_TYPES_VARIANT v" "readable v"
  shows "\<exists>res. resolveBoolean v = Done res \<and> status_truth res = truth_of_value v"
proof -
  have env: "builtin_env env" and wf: "wf_val env 23 v" using assms(1) by (simp_all add: typed_value_def)
  have k: "kind_at env 0 = DK_BOOLEAN" "kind_at env 11 = DK_STRING"
    using env builtin_kind [of env DK_BOOLEAN] builtin_kind [of env DK_STRING] by simp_all
  have elems: "wf_val env t x" if "variant_type v = Some t" "x \<in> set (variant_elements v)" for t x
    using that wf by (cases v) (auto simp: array_elems_def split: option.splits)
  consider "variant_type v = Some 11" | "variant_type v = Some 0" | "variant_type v \<noteq> Some 11" "variant_type v \<noteq> Some 0" by blast
  then show ?thesis
  proof cases
    case 1
    then obtain x xs where x: "variant_elements v = x # xs" using assms(2) by (cases "variant_elements v") (auto simp: readable_def)
    then have "wf_val env 11 x" using elems [OF 1] by simp
    then obtain s where s: "x = VString s" using wf_leaf(5) [of env 11 x] k by (auto simp: kind_string_def)
    then show ?thesis using 1 x
      by (simp add: resolveBoolean_def pointee_def truth_of_value_def truth_of_string_def status_truth_def status_defs)
  next
    case 2
    then obtain x xs where x: "variant_elements v = x # xs" using assms(2) by (cases "variant_elements v") (auto simp: readable_def)
    then have w: "wf_val env 0 x" using elems [OF 2] by simp
    then obtain b where b: "x = VU8 b" using wf_leaf(1) [of env 0 x] k by (auto simp: kind8_def)
    then have "b \<le> 1" using w k by simp
    then have "b = 0 \<or> b = 1" by (metis linorder_not_le word_less_1 order_le_less)
    then show ?thesis using 2 x b
      by (auto simp: resolveBoolean_def pointee_def truth_of_value_def status_truth_def status_defs)
  next
    case 3
    then show ?thesis
      by (simp add: resolveBoolean_def truth_of_other status_truth_def status_defs)
  qed
qed

section \<open>Contexts\<close>

text \<open>
  A context during the evaluation: the arrays have their lengths, there is room for the status codes of all
  operands, and no allocation fails. A step may use some of the memory, and a result marked as a Boolean
  stays one.
\<close>

definition ctx_ok :: "UA_ContentFilterElement list \<Rightarrow> UA_FilterOperatorContext \<Rightarrow> bool" where
  "ctx_ok fs ctx =
     (ctx_contentFilter ctx = fs \<and> length (ctx_elementResults ctx) = length fs \<and>
      length (ctx_valueResult ctx) = length fs \<and> list_all is_variant (ctx_valueResult ctx) \<and>
      0 \<notin> set (ctx_mallocs ctx) \<and>
      (\<forall>i < length fs. \<exists>codes. cfr_operandStatusCodes (ctx_elementResults ctx ! i) = Some codes \<and>
         length (cfe_filterOperands (fs ! i)) \<le> length codes))"

definition step_ok :: "UA_ContentFilterElement list \<Rightarrow> nat \<Rightarrow> UA_FilterOperatorContext \<Rightarrow> UA_FilterOperatorContext \<Rightarrow> bool" where
  "step_ok fs k ctx ctx' =
     (ctx_ok fs ctx' \<and> ctx_index ctx' = ctx_index ctx \<and> length (ctx_mallocs ctx) \<le> length (ctx_mallocs ctx') + k \<and>
      (\<forall>j < length fs. variant_type (ctx_valueResult ctx ! j) = Some UA_TYPES_BOOLEAN \<longrightarrow>
                     variant_type (ctx_valueResult ctx' ! j) = Some UA_TYPES_BOOLEAN))"

lemma step_ok_refl: "ctx_ok fs ctx \<Longrightarrow> step_ok fs 0 ctx ctx"
  by (simp add: step_ok_def)

lemma step_ok_trans: "step_ok fs k c c' \<Longrightarrow> step_ok fs l c' c'' \<Longrightarrow> step_ok fs (k + l) c c''"
  by (simp add: step_ok_def)

lemma step_ok_more: "step_ok fs k c c' \<Longrightarrow> k \<le> l \<Longrightarrow> step_ok fs l c c'"
  by (simp add: step_ok_def)

lemma mark_boolean_ok:
  assumes "ctx_ok fs ctx" "unat (ctx_index ctx) < length fs"
  obtains ctx' where "mark_boolean ctx = Done ctx'" "step_ok fs 0 ctx ctx'"
    "variant_type (ctx_valueResult ctx' ! unat (ctx_index ctx)) = Some UA_TYPES_BOOLEAN"
proof -
  let ?i = "unat (ctx_index ctx)"
  let ?v = "ctx_valueResult ctx ! ?i"
  have l: "?i < length (ctx_valueResult ctx)" "is_variant ?v" using assms by (auto simp: ctx_ok_def list_all_length)
  have w: "is_variant (with_type 0 ?v)" "variant_type (with_type 0 ?v) = Some 0" using l(2) by (cases ?v; simp)+
  let ?c = "set_value (with_type 0 ?v) ctx"
  have "mark_boolean ctx = Done ?c" using l by (simp add: mark_boolean_def current_value_def at_index_def)
  moreover have "step_ok fs 0 ctx ?c"
    using assms l w by (auto simp: step_ok_def ctx_ok_def set_value_def list_all_length nth_list_update)
  moreover have "variant_type (ctx_valueResult ?c ! ?i) = Some 0" using l w(2) by (simp add: set_value_def)
  ultimately show ?thesis by (rule that)
qed

lemma boolean_result_ok:
  assumes "ctx_ok fs ctx" "unat (ctx_index ctx) < length fs"
  obtains ctx' where "boolean_result res ctx = Done (res, ctx')" "step_ok fs 0 ctx ctx'"
    "variant_type (ctx_valueResult ctx' ! unat (ctx_index ctx)) = Some UA_TYPES_BOOLEAN"
  using mark_boolean_ok [OF assms] by (metis and_then.simps(1) boolean_result_def)

section \<open>Operators\<close>

text \<open>What an operand resolves to, and what an operator computes, for every context of the element \<open>i\<close>.\<close>

definition resolves ::
  "UA_ContentFilterElement list \<Rightarrow> resolver \<Rightarrow> u16 \<Rightarrow> nat \<Rightarrow> nat \<Rightarrow> ua_val \<Rightarrow> bool" where
  "resolves fs resolve i nr n v =
     (\<forall>ctx. ctx_ok fs ctx \<longrightarrow> ctx_index ctx = i \<longrightarrow> n \<le> length (ctx_mallocs ctx) \<longrightarrow>
        (\<exists>ctx'. resolve ctx nr = Done (v, ctx') \<and> step_ok fs n ctx ctx'))"

definition computes :: "UA_ContentFilterElement list \<Rightarrow> evaluator \<Rightarrow> u16 \<Rightarrow> nat \<Rightarrow> bool option \<Rightarrow> bool" where
  "computes fs eval i n b =
     (\<forall>ctx. ctx_ok fs ctx \<longrightarrow> ctx_index ctx = i \<longrightarrow> n \<le> length (ctx_mallocs ctx) \<longrightarrow>
        (\<exists>res ctx'. eval ctx = Done (res, ctx') \<and> step_ok fs n ctx ctx' \<and> status_truth res = b \<and>
           (b = None \<or> variant_type (ctx_valueResult ctx' ! unat i) = Some UA_TYPES_BOOLEAN)))"

lemma resolvesD:
  assumes "resolves fs resolve i nr n v" "ctx_ok fs ctx" "ctx_index ctx = i" "n \<le> length (ctx_mallocs ctx)"
  obtains ctx' where "resolve ctx nr = Done (v, ctx')" "step_ok fs n ctx ctx'"
  using assms unfolding resolves_def by blast

text \<open>The end of an operator: a Boolean result after steps that went well.\<close>

lemma then_boolean:
  assumes "step_ok fs n ctx c" "ctx_index ctx = i" "unat i < length fs" "status_truth res = b"
  shows "\<exists>res' ctx'. boolean_result res c = Done (res', ctx') \<and> step_ok fs n ctx ctx' \<and> status_truth res' = b \<and>
    (b = None \<or> variant_type (ctx_valueResult ctx' ! unat i) = Some UA_TYPES_BOOLEAN)"
proof -
  have c: "ctx_ok fs c" "ctx_index c = i" using assms(1,2) by (simp_all add: step_ok_def)
  obtain c' where "boolean_result res c = Done (res, c')" "step_ok fs 0 c c'"
    "variant_type (ctx_valueResult c' ! unat i) = Some 0"
    using boolean_result_ok [OF c(1), of res] assms(3) c(2) by auto
  then show ?thesis using step_ok_trans [OF assms(1), of 0 c'] assms(4) by auto
qed

lemma status_truth_simps [simp]:
  "status_truth GOOD = Some True" "status_truth UA_STATUSCODE_BADNOMATCH = Some False"
  "status_truth UA_STATUSCODE_BADFILTERELEMENTINVALID = None" "status_truth UA_STATUSCODE_BADFILTEROPERANDINVALID = None"
  "status_truth UA_STATUSCODE_BADFILTEROPERATORUNSUPPORTED = None"
  "status_truth UA_STATUSCODE_BADFILTEROPERATORINVALID = None" "status_truth UA_STATUSCODE_BADINTERNALERROR = None"
  by (simp_all add: status_truth_def status_defs)

lemma status_truth_iff: "status_truth res = Some True \<longleftrightarrow> res = GOOD"
  "status_truth res = Some False \<longleftrightarrow> res = UA_STATUSCODE_BADNOMATCH"
  by (auto simp: status_truth_def status_defs)

lemma not_computes:
  assumes r: "resolves fs r i 0 n v" and b: "resolveBoolean v = Done s" and i: "unat i < length fs"
  shows "computes fs (notOperator r) i n (not3 (status_truth s))"
  unfolding computes_def
proof (intro allI impI)
  fix ctx assume ctx: "ctx_ok fs ctx" "ctx_index ctx = i" "n \<le> length (ctx_mallocs ctx)"
  obtain c where c: "r ctx 0 = Done (v, c)" "step_ok fs n ctx c" by (rule resolvesD [OF r ctx])
  have "status_truth (if s = GOOD then UA_STATUSCODE_BADNOMATCH else GOOD) = not3 (status_truth s)"
    by (auto simp: not3_def status_truth_iff)
  from then_boolean [OF c(2) ctx(2) i this]
  show "\<exists>res ctx'. notOperator r ctx = Done (res, ctx') \<and> step_ok fs n ctx ctx' \<and>
      status_truth res = not3 (status_truth s) \<and>
      (not3 (status_truth s) = None \<or> variant_type (ctx_valueResult ctx' ! unat i) = Some 0)"
    using c(1) b by (simp add: notOperator_def resolve_boolean_def)
qed

lemma isNull_computes:
  assumes r: "resolves fs r i 0 n v" and i: "unat i < length fs"
  shows "computes fs (isNullOperator r) i n (Some (UA_Variant_isEmpty v))"
  unfolding computes_def
proof (intro allI impI)
  fix ctx assume ctx: "ctx_ok fs ctx" "ctx_index ctx = i" "n \<le> length (ctx_mallocs ctx)"
  obtain c where c: "r ctx 0 = Done (v, c)" "step_ok fs n ctx c" by (rule resolvesD [OF r ctx])
  have "status_truth (if \<not> UA_Variant_isEmpty v then UA_STATUSCODE_BADNOMATCH else GOOD) = Some (UA_Variant_isEmpty v)"
    by simp
  from then_boolean [OF c(2) ctx(2) i this]
  show "\<exists>res ctx'. isNullOperator r ctx = Done (res, ctx') \<and> step_ok fs n ctx ctx' \<and>
      status_truth res = Some (UA_Variant_isEmpty v) \<and>
      (Some (UA_Variant_isEmpty v) = None \<or> variant_type (ctx_valueResult ctx' ! unat i) = Some 0)"
    using c(1) by (simp add: isNullOperator_def)
qed

text \<open>Two operands in a row.\<close>

lemma resolves_two:
  assumes "resolves fs r i 0 n1 v1" "resolves fs r i 1 n2 v2"
    and "ctx_ok fs ctx" "ctx_index ctx = i" "n1 + n2 \<le> length (ctx_mallocs ctx)"
  obtains c1 c2 where "r ctx 0 = Done (v1, c1)" "step_ok fs (n1 + n2) ctx c1"
    "r c1 1 = Done (v2, c2)" "step_ok fs (n1 + n2) ctx c2"
proof -
  obtain c1 where c1: "r ctx 0 = Done (v1, c1)" "step_ok fs n1 ctx c1"
    using resolvesD [OF assms(1,3,4)] assms(5) by auto
  have "ctx_ok fs c1" "ctx_index c1 = i" "n2 \<le> length (ctx_mallocs c1)"
    using c1(2) assms(4,5) by (simp_all add: step_ok_def)
  then obtain c2 where c2: "r c1 1 = Done (v2, c2)" "step_ok fs n2 c1 c2" using resolvesD [OF assms(2)] by metis
  show ?thesis
    by (rule that [OF c1(1) step_ok_more [OF c1(2)] c2(1) step_ok_trans [OF c1(2) c2(2)]]) simp
qed

lemma junction_computes:
  assumes r: "resolves fs r i 0 n1 v1" "resolves fs r i 1 n2 v2"
    and b: "resolveBoolean v1 = Done s1" "resolveBoolean v2 = Done s2" and i: "unat i < length fs"
  shows "computes fs (andOperator r) i (n1 + n2) (and3 (status_truth s1) (status_truth s2))"
    "computes fs (orOperator r) i (n1 + n2) (or3 (status_truth s1) (status_truth s2))"
proof -
  have good: "GOOD \<noteq> UA_STATUSCODE_BADNOMATCH" "UA_STATUSCODE_BADNOMATCH \<noteq> GOOD" by (simp_all add: status_defs)
  show "computes fs (andOperator r) i (n1 + n2) (and3 (status_truth s1) (status_truth s2))"
    unfolding computes_def
  proof (intro allI impI)
    fix ctx assume ctx: "ctx_ok fs ctx" "ctx_index ctx = i" "n1 + n2 \<le> length (ctx_mallocs ctx)"
    obtain c1 c2 where c: "r ctx 0 = Done (v1, c1)" "step_ok fs (n1 + n2) ctx c1"
      "r c1 1 = Done (v2, c2)" "step_ok fs (n1 + n2) ctx c2" by (rule resolves_two [OF r ctx])
    note ends = then_boolean [OF c(2) ctx(2) i] then_boolean [OF c(4) ctx(2) i]
    let ?P = "\<lambda>m. \<exists>res ctx'. m = Done (res, ctx') \<and> step_ok fs (n1 + n2) ctx ctx' \<and>
        status_truth res = and3 (status_truth s1) (status_truth s2) \<and>
        (and3 (status_truth s1) (status_truth s2) = None \<or> variant_type (ctx_valueResult ctx' ! unat i) = Some 0)"
    consider "s1 = UA_STATUSCODE_BADNOMATCH" | "s1 \<noteq> UA_STATUSCODE_BADNOMATCH" "s2 = UA_STATUSCODE_BADNOMATCH"
      | "s1 = GOOD" "s2 = GOOD" | "s1 \<noteq> UA_STATUSCODE_BADNOMATCH" "s2 \<noteq> UA_STATUSCODE_BADNOMATCH" "\<not> (s1 = GOOD \<and> s2 = GOOD)"
      by blast
    then show "?P (andOperator r ctx)"
    proof cases
      case 1
      then show ?thesis using ends(1) [of UA_STATUSCODE_BADNOMATCH] c(1) b(1)
        by (simp add: andOperator_def resolve_boolean_def and3_def)
    next
      case 2
      then show ?thesis using ends(2) [of UA_STATUSCODE_BADNOMATCH] c(1,3) b
        by (simp add: andOperator_def resolve_boolean_def and3_def)
    next
      case 3
      then show ?thesis using ends(2) [of GOOD] c(1,3) b good
        by (simp add: andOperator_def resolve_boolean_def and3_def)
    next
      case 4
      then show ?thesis using c b
        by (auto simp: andOperator_def resolve_boolean_def and3_def status_truth_iff)
    qed
  qed
  show "computes fs (orOperator r) i (n1 + n2) (or3 (status_truth s1) (status_truth s2))"
    unfolding computes_def
  proof (intro allI impI)
    fix ctx assume ctx: "ctx_ok fs ctx" "ctx_index ctx = i" "n1 + n2 \<le> length (ctx_mallocs ctx)"
    obtain c1 c2 where c: "r ctx 0 = Done (v1, c1)" "step_ok fs (n1 + n2) ctx c1"
      "r c1 1 = Done (v2, c2)" "step_ok fs (n1 + n2) ctx c2" by (rule resolves_two [OF r ctx])
    note ends = then_boolean [OF c(2) ctx(2) i] then_boolean [OF c(4) ctx(2) i]
    let ?P = "\<lambda>m. \<exists>res ctx'. m = Done (res, ctx') \<and> step_ok fs (n1 + n2) ctx ctx' \<and>
        status_truth res = or3 (status_truth s1) (status_truth s2) \<and>
        (or3 (status_truth s1) (status_truth s2) = None \<or> variant_type (ctx_valueResult ctx' ! unat i) = Some 0)"
    consider "s1 = GOOD" | "s1 \<noteq> GOOD" "s2 = GOOD" | "s1 = UA_STATUSCODE_BADNOMATCH" "s2 = UA_STATUSCODE_BADNOMATCH"
      | "s1 \<noteq> GOOD" "s2 \<noteq> GOOD" "\<not> (s1 = UA_STATUSCODE_BADNOMATCH \<and> s2 = UA_STATUSCODE_BADNOMATCH)"
      by blast
    then show "?P (orOperator r ctx)"
    proof cases
      case 1
      then show ?thesis using ends(1) [of GOOD] c(1) b(1)
        by (simp add: orOperator_def resolve_boolean_def or3_def)
    next
      case 2
      then show ?thesis using ends(2) [of GOOD] c(1,3) b
        by (simp add: orOperator_def resolve_boolean_def or3_def)
    next
      case 3
      then show ?thesis using ends(2) [of UA_STATUSCODE_BADNOMATCH] c(1,3) b good
        by (simp add: orOperator_def resolve_boolean_def or3_def)
    next
      case 4
      then show ?thesis using c b
        by (auto simp: orOperator_def resolve_boolean_def or3_def status_truth_iff)
    qed
  qed
qed

lemma compare3_empty [simp]: "compare3 env op VVariantEmpty v = None" "compare3 env op v VVariantEmpty = None"
  by (simp_all add: compare3_def)

lemma variant_cases:
  assumes "typed_value env te UA_TYPES_VARIANT v"
  obtains "v = VVariantEmpty" | t x where "v = VVariantScalar t x" | "\<not> UA_Variant_isScalar v" "variant_type v \<noteq> None"
proof -
  have "kind_at env 23 = DK_VARIANT" using assms builtin_kind [of env DK_VARIANT] by (simp add: typed_value_def)
  then have "is_variant v" using assms wf_variant_kind [of env 23 v] by (auto simp: typed_value_def)
  then show ?thesis using that by (cases v) auto
qed

lemma compare_computes:
  assumes r: "resolves fs r i 0 n1 v1" "resolves fs r i 1 n2 v2" and i: "unat i < length fs"
    and op: "cfe_filterOperator (fs ! unat i) = op"
    and v: "typed_value (ew_types w) te UA_TYPES_VARIANT v1" "typed_value (ew_types w) te UA_TYPES_VARIANT v2"
      "comparable (ew_types w) v1 v2"
  shows "computes fs (compareOperator w r) i (n1 + n2) (compare3 (ew_types w) op v1 v2)"
  unfolding computes_def
proof (intro allI impI)
  fix ctx assume ctx: "ctx_ok fs ctx" "ctx_index ctx = i" "n1 + n2 \<le> length (ctx_mallocs ctx)"
  obtain c0 where c0: "mark_boolean ctx = Done c0" "step_ok fs 0 ctx c0" "variant_type (ctx_valueResult c0 ! unat i) = Some 0"
    using mark_boolean_ok [OF ctx(1)] i ctx(2) by metis
  then have "ctx_ok fs c0" "ctx_index c0 = i" "n1 + n2 \<le> length (ctx_mallocs c0)" using ctx by (simp_all add: step_ok_def)
  then obtain c1 c2 where c: "r c0 0 = Done (v1, c1)" "step_ok fs (n1 + n2) c0 c1"
    "r c1 1 = Done (v2, c2)" "step_ok fs (n1 + n2) c0 c2" by (rule resolves_two [OF r])
  have s: "step_ok fs (n1 + n2) ctx c1" "step_ok fs (n1 + n2) ctx c2"
    using step_ok_trans [OF c0(2) c(2)] step_ok_trans [OF c0(2) c(4)] by simp_all
  have marked: "variant_type (ctx_valueResult c2 ! unat i) = Some 0" using c(4) c0(3) i by (simp add: step_ok_def)
  have el: "current_element c2 = Done (fs ! unat i)"
    using s(2) ctx(2) i by (simp add: current_element_def at_index_def step_ok_def ctx_ok_def)
  note run = compareOperator_def c0(1) c(1,3) el op UA_Variant_isEmpty_def
  show "\<exists>res ctx'. compareOperator w r ctx = Done (res, ctx') \<and> step_ok fs (n1 + n2) ctx ctx' \<and>
      status_truth res = compare3 (ew_types w) op v1 v2 \<and>
      (compare3 (ew_types w) op v1 v2 = None \<or> variant_type (ctx_valueResult ctx' ! unat i) = Some 0)"
  proof (cases "UA_Variant_isScalar v1 \<and> UA_Variant_isScalar v2")
    case False
    then have "compare3 (ew_types w) op v1 v2 = None" by (auto simp: compare3_def)
    then show ?thesis using False s
      by (cases rule: variant_cases [OF v(1)]; cases rule: variant_cases [OF v(2)]) (auto simp: run simp del: One_nat_def)
  next
    case True
    then obtain t a b where x: "v1 = VVariantScalar t a" "v2 = VVariantScalar t b"
      using v(3) by (cases rule: variant_cases [OF v(1)]; cases rule: variant_cases [OF v(2)]) (auto simp: comparable_def)
    have k: "kind_number (kind_at (ew_types w) t) < 21" using v(3) x by (simp add: comparable_def)
    obtain o' where o': "UA_order (ew_types w) v1 v2 UA_TYPES_VARIANT = Some o'" using value_order.defined [OF v(1,2)] by blast
    note cmp = compareOperation_same_type [OF o' [unfolded x] k, of op]
    show ?thesis using s marked o' cmp x
      by (auto simp: run compare3_def simp del: One_nat_def)
  qed
qed

lemma ofType_computes:
  assumes i: "unat i < length fs"
    and els: "cfe_filterOperands (fs ! unat i) = [LiteralOperand (VVariantScalar UA_TYPES_NODEID (VNodeId t))]"
    and ok: "clause_ok w ev te (COfType t)"
  shows "computes fs (ofTypeOperator w ev) i 0 (ofType3 w ev t)"
  unfolding computes_def
proof (intro allI impI)
  fix ctx assume ctx: "ctx_ok fs ctx" "ctx_index ctx = i" "0 \<le> length (ctx_mallocs ctx)"
  obtain c where c: "mark_boolean ctx = Done c" "step_ok fs 0 ctx c" "variant_type (ctx_valueResult c ! unat i) = Some 0"
    using mark_boolean_ok [OF ctx(1)] i ctx(2) by metis
  have el: "current_element ctx = Done (fs ! unat i)"
    using ctx i by (simp add: current_element_def at_index_def ctx_ok_def)
  obtain res v where read: "ew_readProperty w ev (0, ascii ''EventType'') = (res, v)" by force
  show "\<exists>res ctx'. ofTypeOperator w ev ctx = Done (res, ctx') \<and> step_ok fs 0 ctx ctx' \<and>
      status_truth res = ofType3 w ev t \<and> (ofType3 w ev t = None \<or> variant_type (ctx_valueResult ctx' ! unat i) = Some 0)"
  proof (cases "\<exists>t' d. res = GOOD \<and> v = VVariantScalar t' d")
    case False
    then show ?thesis using c
      by (cases v) (auto simp: ofTypeOperator_def el els read ofType3_def)
  next
    case True
    then obtain t' d where x: "res = GOOD" "v = VVariantScalar t' d" by blast
    show ?thesis
    proof (cases "t' = UA_TYPES_NODEID")
      case True
      then obtain n where "d = VNodeId n" using ok x by (auto simp: read)
      then show ?thesis using c x True by (auto simp: ofTypeOperator_def el els read ofType3_def)
    next
      case False
      then show ?thesis using c x by (cases d) (auto simp: ofTypeOperator_def el els read ofType3_def)
    qed
  qed
qed

section \<open>Elements\<close>

lemma store_status_ok:
  assumes "ctx_ok fs ctx" "unat (ctx_index ctx) < length fs"
  obtains ctx' where "store_status res ctx = Done ctx'" "step_ok fs 0 ctx ctx'" "ctx_valueResult ctx' = ctx_valueResult ctx"
proof -
  let ?i = "unat (ctx_index ctx)"
  let ?e = "ctx_elementResults ctx ! ?i"
  let ?c = "ctx\<lparr>ctx_elementResults := (ctx_elementResults ctx)[?i := ?e\<lparr>cfr_statusCode := res\<rparr>]\<rparr>"
  have "store_status res ctx = Done ?c" using assms by (simp add: store_status_def at_index_def ctx_ok_def)
  moreover have "step_ok fs 0 ctx ?c" using assms by (auto simp: step_ok_def ctx_ok_def nth_list_update)
  ultimately show ?thesis by (rule that) simp
qed

lemma new_boolean_ok:
  assumes "ctx_ok fs ctx" "unat (ctx_index ctx) < length fs" "1 \<le> length (ctx_mallocs ctx)"
  obtains ctx' where "new_boolean b ctx = Done ctx'" "step_ok fs 1 ctx ctx'"
    "ctx_valueResult ctx' ! unat (ctx_index ctx) = value_of_truth (Some b)"
proof -
  let ?i = "unat (ctx_index ctx)"
  obtain p ps where m: "ctx_mallocs ctx = p # ps" using assms(3) by (cases "ctx_mallocs ctx") auto
  let ?c = "set_value (value_of_truth (Some b)) (ctx\<lparr>ctx_mallocs := ps\<rparr>)"
  have "p \<noteq> 0" using assms(1) m by (auto simp: ctx_ok_def)
  then have "new_boolean b ctx = Done ?c" by (simp add: new_boolean_def m value_of_truth_def)
  moreover have "step_ok fs 1 ctx ?c"
    using assms m by (auto simp: step_ok_def ctx_ok_def set_value_def value_of_truth_def list_all_length nth_list_update)
  moreover have "ctx_valueResult ?c ! ?i = value_of_truth (Some b)" using assms by (simp add: set_value_def ctx_ok_def)
  ultimately show ?thesis by (rule that)
qed

definition evaluates :: "UA_ContentFilterElement list \<Rightarrow> evaluator \<Rightarrow> u16 \<Rightarrow> nat \<Rightarrow> bool option \<Rightarrow> bool" where
  "evaluates fs eval i n b =
     (\<forall>ctx. ctx_ok fs ctx \<longrightarrow> ctx_index ctx = i \<longrightarrow> n \<le> length (ctx_mallocs ctx) \<longrightarrow>
        (\<exists>res ctx'. eval ctx = Done (res, ctx') \<and> step_ok fs n ctx ctx' \<and> status_truth res = b \<and>
           (b = None \<or> ctx_valueResult ctx' ! unat i = value_of_truth b)))"

lemma computes_evaluates:
  assumes e: "computes fs E i n b" and i: "unat i < length fs"
    and eval: "\<And>ctx. ctx_ok fs ctx \<Longrightarrow> ctx_index ctx = i \<Longrightarrow> eval ctx = and_then (E ctx) finish_element"
  shows "evaluates fs eval i (Suc n) b"
  unfolding evaluates_def
proof (intro allI impI)
  fix ctx assume ctx: "ctx_ok fs ctx" "ctx_index ctx = i" "Suc n \<le> length (ctx_mallocs ctx)"
  obtain res c where c: "E ctx = Done (res, c)" "step_ok fs n ctx c" "status_truth res = b"
      "b = None \<or> variant_type (ctx_valueResult c ! unat i) = Some 0"
    using e ctx unfolding computes_def by (metis Suc_leD)
  have ok: "ctx_ok fs c" "ctx_index c = i" "1 \<le> length (ctx_mallocs c)" using c(2) ctx by (simp_all add: step_ok_def)
  obtain c1 where c1: "store_status res c = Done c1" "step_ok fs 0 c c1" "ctx_valueResult c1 = ctx_valueResult c"
    using store_status_ok [OF ok(1)] i ok(2) by metis
  have ok1: "ctx_ok fs c1" "ctx_index c1 = i" "1 \<le> length (ctx_mallocs c1)" using c1(2) ok by (simp_all add: step_ok_def)
  have s1: "step_ok fs n ctx c1" using step_ok_trans [OF c(2) c1(2)] by simp
  have cur: "current_value c1 = Done (ctx_valueResult c ! unat i)"
    using ok1 i c1(3) by (simp add: current_value_def at_index_def ctx_ok_def)
  show "\<exists>res ctx'. eval ctx = Done (res, ctx') \<and> step_ok fs (Suc n) ctx ctx' \<and> status_truth res = b \<and>
      (b = None \<or> ctx_valueResult ctx' ! unat i = value_of_truth b)"
  proof (cases "variant_type (ctx_valueResult c ! unat i) = Some 0")
    case True
    obtain c2 where c2: "new_boolean (res = GOOD) c1 = Done c2" "step_ok fs 1 c1 c2"
        "ctx_valueResult c2 ! unat i = value_of_truth (Some (res = GOOD))"
      using new_boolean_ok [OF ok1(1)] ok1 i by metis
    have "b = None \<or> b = Some (res = GOOD)" using c(3) by (auto simp: status_truth_def split: if_splits)
    moreover have "step_ok fs (Suc n) ctx c2" using step_ok_trans [OF s1 c2(2)] by simp
    ultimately show ?thesis using c c1 c2 cur True by (auto simp: eval [OF ctx(1,2)] finish_element_def)
  next
    case False
    then show ?thesis using c c1 cur step_ok_more [OF s1, of "Suc n"] by (auto simp: eval [OF ctx(1,2)] finish_element_def)
  qed
qed

section \<open>Operands\<close>

lemma record_operand_status_ok:
  assumes "ctx_ok fs ctx" "unat (ctx_index ctx) < length fs" "nr < length (cfe_filterOperands (fs ! unat (ctx_index ctx)))"
  obtains ctx' where "record_operand_status nr res ctx = Done ctx'" "step_ok fs 0 ctx ctx'"
proof -
  let ?i = "unat (ctx_index ctx)"
  let ?e = "ctx_elementResults ctx ! ?i"
  obtain codes where codes: "cfr_operandStatusCodes ?e = Some codes" "length (cfe_filterOperands (fs ! ?i)) \<le> length codes"
    using assms(1,2) by (auto simp: ctx_ok_def)
  let ?c = "ctx\<lparr>ctx_elementResults := (ctx_elementResults ctx)[?i := ?e\<lparr>cfr_operandStatusCodes := Some (codes[nr := res])\<rparr>]\<rparr>"
  have "record_operand_status nr res ctx = Done ?c"
    using assms codes by (simp add: record_operand_status_def at_index_def ctx_ok_def)
  moreover have "step_ok fs 0 ctx ?c" using assms codes by (auto simp: step_ok_def ctx_ok_def nth_list_update)
  ultimately show ?thesis by (rule that)
qed

text \<open>The end of the resolution: an error is recorded and replaced by an empty value.\<close>

lemma resolved:
  assumes "ctx_ok fs ctx" "unat (ctx_index ctx) < length fs" "nr < length (cfe_filterOperands (fs ! unat (ctx_index ctx)))"
  shows "\<exists>ctx'. (if res \<noteq> GOOD \<and> res \<noteq> UA_STATUSCODE_BADNOMATCH
      then and_then (record_operand_status nr res ctx) (\<lambda>ctx. Done (VVariantEmpty, ctx)) else Done (v, ctx)) =
    Done (if status_truth res = None then VVariantEmpty else v, ctx') \<and> step_ok fs 0 ctx ctx'"
proof -
  obtain c where "record_operand_status nr res ctx = Done c" "step_ok fs 0 ctx c"
    by (rule record_operand_status_ok [OF assms])
  then show ?thesis using step_ok_refl [OF assms(1)] by (auto simp: status_truth_def)
qed

lemma resolveOperand_leaf:
  assumes i: "unat i < length fs" and nr: "nr < length (cfe_filterOperands (fs ! unat i))"
    and e: "cfe_filterOperands (fs ! unat i) ! nr = e"
    and c: "e = LiteralOperand v \<and> c = CLiteral v \<or> e = SimpleAttributeOperand a \<and> c = CAttribute a"
  shows "resolves fs (resolveOperand w ev eval) i nr 0 (clause_value w ev c)"
  unfolding resolves_def
proof (intro allI impI)
  fix ctx assume ctx: "ctx_ok fs ctx" "ctx_index ctx = i" "0 \<le> length (ctx_mallocs ctx)"
  have el: "current_element ctx = Done (fs ! unat i)"
    using ctx i by (simp add: current_element_def at_index_def ctx_ok_def)
  obtain res x where x: "resolveSimpleAttributeOperand w ev a = (res, x)" by force
  show "\<exists>ctx'. resolveOperand w ev eval ctx nr = Done (clause_value w ev c, ctx') \<and> step_ok fs 0 ctx ctx'"
    using c resolved [OF ctx(1), of nr res x] step_ok_refl [OF ctx(1)] ctx(2) i nr
    by (auto simp: resolveOperand_def el at_index_def e x)
qed

lemma resolveOperand_element:
  assumes i: "unat i < length fs" and nr: "nr < length (cfe_filterOperands (fs ! unat i))"
    and e: "cfe_filterOperands (fs ! unat i) ! nr = ElementOperand j" and j: "unat j < length fs" "length fs \<le> 256"
    and eval: "evaluates fs eval (ucast j) n b"
  shows "resolves fs (resolveOperand w ev eval) i nr n (value_of_truth b)"
  unfolding resolves_def
proof (intro allI impI)
  fix ctx assume ctx: "ctx_ok fs ctx" "ctx_index ctx = i" "n \<le> length (ctx_mallocs ctx)"
  have el: "current_element ctx = Done (fs ! unat i)"
    using ctx i by (simp add: current_element_def at_index_def ctx_ok_def)
  let ?j = "ucast j :: u16"
  have uj: "unat ?j = unat j" using j by (simp add: unsigned_ucast_eq unsigned_take_bit_eq take_bit_nat_eq_self_iff)
  let ?in = "ctx\<lparr>ctx_index := ?j\<rparr>"
  have "ctx_ok fs ?in" using ctx by (simp add: ctx_ok_def)
  then obtain res c where c: "eval ?in = Done (res, c)" "step_ok fs n ?in c" "status_truth res = b"
      "b = None \<or> ctx_valueResult c ! unat j = value_of_truth b"
    using eval ctx(3) uj unfolding evaluates_def by (metis (no_types, lifting) UA_FilterOperatorContext.select_convs(4,5) UA_FilterOperatorContext.surjective UA_FilterOperatorContext.update_convs(4))
  let ?out = "c\<lparr>ctx_index := i\<rparr>"
  have out: "step_ok fs n ctx ?out" using c(2) ctx by (simp add: step_ok_def ctx_ok_def)
  have cur: "current_value c = Done (ctx_valueResult c ! unat j)"
    using c(2) uj j by (simp add: current_value_def at_index_def step_ok_def ctx_ok_def)
  have ok: "ctx_ok fs ?out" "ctx_index ?out = i" using out ctx by (simp_all add: step_ok_def)
  obtain c' where c': "(if res \<noteq> GOOD \<and> res \<noteq> UA_STATUSCODE_BADNOMATCH
      then and_then (record_operand_status nr res ?out) (\<lambda>ctx. Done (VVariantEmpty, ctx))
      else Done (ctx_valueResult c ! unat j, ?out)) =
    Done (if status_truth res = None then VVariantEmpty else ctx_valueResult c ! unat j, c')" "step_ok fs 0 ?out c'"
    using resolved [OF ok(1), of nr res "ctx_valueResult c ! unat j"] ok(2) i nr by auto
  have v: "(if status_truth res = None then VVariantEmpty else ctx_valueResult c ! unat j) = value_of_truth b"
    using c(3,4) by (auto simp: value_of_truth_def)
  have "resolveOperand w ev eval ctx nr = Done (value_of_truth b, c')"
    unfolding resolveOperand_def el using c' c(1) cur nr e ctx(2) v by (simp add: at_index_def del: split_paired_Ex)
  then show "\<exists>ctx'. resolveOperand w ev eval ctx nr = Done (value_of_truth b, ctx') \<and> step_ok fs n ctx ctx'"
    using step_ok_trans [OF out c'(2)] by auto
qed

section \<open>Trees\<close>

lemma encodes_operator:
  assumes "encodes fs c (ElementOperand j)"
  shows "unat j < length fs \<and> clause_value w ev c = value_of_truth (clause_truth w ev c)"
  using assms by (cases c) (auto simp: referenced_def clause_truth_def split: list.splits if_splits)

lemma encodes_cases:
  assumes "encodes fs c e"
  obtains v where "e = LiteralOperand v" "c = CLiteral v" | a where "e = SimpleAttributeOperand a" "c = CAttribute a"
  | j where "e = ElementOperand j"
  using assms by (cases c; cases e) (auto simp: referenced_def)

lemma referenced_element:
  assumes "referenced fs (ElementOperand j) op = ops" "ops \<noteq> []" "length fs \<le> 256"
  shows "unat (ucast j :: u16) < length fs \<and> cfe_filterOperator (fs ! unat (ucast j :: u16)) = op \<and>
    cfe_filterOperands (fs ! unat (ucast j :: u16)) = ops"
proof -
  have j: "unat j < length fs" "cfe_filterOperator (fs ! unat j) = op" "cfe_filterOperands (fs ! unat j) = ops"
    using assms(1,2) by (auto simp: referenced_def split: if_splits)
  then have "unat (ucast j :: u16) = unat j"
    using assms(3) by (simp add: unsigned_ucast_eq unsigned_take_bit_eq take_bit_nat_eq_self_iff)
  with j show ?thesis by simp
qed

text \<open>An operand resolves to the value of its tree, if the element it may refer to is evaluated well.\<close>

lemma clause_resolves:
  assumes "encodes fs c e" "length fs \<le> 256"
    and "unat i < length fs" "nr < length (cfe_filterOperands (fs ! unat i))" "cfe_filterOperands (fs ! unat i) ! nr = e"
    and "\<And>j. e = ElementOperand j \<Longrightarrow> evaluates fs eval (ucast j) (clause_size c) (clause_truth w ev c)"
  shows "resolves fs (resolveOperand w ev eval) i nr (clause_size c) (clause_value w ev c)"
proof (cases rule: encodes_cases [OF assms(1)])
  case (1 v)
  then show ?thesis using resolveOperand_leaf [OF assms(3-5), of v "CLiteral v"] by simp
next
  case (2 a)
  then show ?thesis using resolveOperand_leaf [OF assms(3-5), of undefined "CAttribute a" a] by simp
next
  case (3 j)
  have j: "unat j < length fs" "clause_value w ev c = value_of_truth (clause_truth w ev c)"
    using encodes_operator [OF assms(1) [unfolded 3]] by auto
  show ?thesis
    unfolding j(2) by (rule resolveOperand_element [OF assms(3,4) assms(5) [unfolded 3] j(1) assms(2,6)]) (rule 3)
qed

text \<open>One step of the evaluation.\<close>

lemma evaluate_step:
  assumes "ctx_ok fs ctx" "unat (ctx_index ctx) < length fs"
    and "cfe_filterOperator (fs ! unat (ctx_index ctx)) = op"
    and r: "r = resolveOperand w ev (evaluateWhereClauseContentFilter w ev s)"
  shows "op = UA_FILTEROPERATOR_AND \<Longrightarrow>
      evaluateWhereClauseContentFilter w ev (Suc s) ctx = and_then (andOperator r ctx) finish_element"
    "op = UA_FILTEROPERATOR_OR \<Longrightarrow>
      evaluateWhereClauseContentFilter w ev (Suc s) ctx = and_then (orOperator r ctx) finish_element"
    "op = UA_FILTEROPERATOR_NOT \<Longrightarrow>
      evaluateWhereClauseContentFilter w ev (Suc s) ctx = and_then (notOperator r ctx) finish_element"
    "op = UA_FILTEROPERATOR_ISNULL \<Longrightarrow>
      evaluateWhereClauseContentFilter w ev (Suc s) ctx = and_then (isNullOperator r ctx) finish_element"
    "op \<in> comparison_operators \<Longrightarrow>
      evaluateWhereClauseContentFilter w ev (Suc s) ctx = and_then (compareOperator w r ctx) finish_element"
    "op = UA_FILTEROPERATOR_OFTYPE \<Longrightarrow>
      evaluateWhereClauseContentFilter w ev (Suc s) ctx = and_then (ofTypeOperator w ev ctx) finish_element"
proof -
  have c: "current_element ctx = Done (fs ! unat (ctx_index ctx))" "ctx_contentFilter ctx \<noteq> []"
    using assms(1,2) by (auto simp: current_element_def at_index_def ctx_ok_def)
  note step = evaluate_element_def c assms(3) r Let_def comparison_operators_def filter_operators
  show "op = UA_FILTEROPERATOR_AND \<Longrightarrow>
      evaluateWhereClauseContentFilter w ev (Suc s) ctx = and_then (andOperator r ctx) finish_element"
    "op = UA_FILTEROPERATOR_OR \<Longrightarrow>
      evaluateWhereClauseContentFilter w ev (Suc s) ctx = and_then (orOperator r ctx) finish_element"
    "op = UA_FILTEROPERATOR_NOT \<Longrightarrow>
      evaluateWhereClauseContentFilter w ev (Suc s) ctx = and_then (notOperator r ctx) finish_element"
    "op = UA_FILTEROPERATOR_ISNULL \<Longrightarrow>
      evaluateWhereClauseContentFilter w ev (Suc s) ctx = and_then (isNullOperator r ctx) finish_element"
    "op = UA_FILTEROPERATOR_OFTYPE \<Longrightarrow>
      evaluateWhereClauseContentFilter w ev (Suc s) ctx = and_then (ofTypeOperator w ev ctx) finish_element"
    by (simp_all add: step)
  show "op \<in> comparison_operators \<Longrightarrow>
      evaluateWhereClauseContentFilter w ev (Suc s) ctx = and_then (compareOperator w r ctx) finish_element"
    by (auto simp: step)
qed

lemma resolveBoolean_clause:
  assumes "clause_ok w ev te c" "builtin_env (ew_types w)" "plain_members (ew_types w)"
    "wf_nodeid (binaryEncodingId (ty_at (ew_types w) UA_TYPES_BOOLEAN))"
  obtains res where "resolveBoolean (clause_value w ev c) = Done res" "status_truth res = truth_of_value (clause_value w ev c)"
  using resolveBoolean_truth clause_value_ok [OF assms] by blast

text \<open>The operands of an element, for which the evaluation is known to compute their trees.\<close>

lemma operand_resolves:
  assumes ops: "referenced fs (ElementOperand j) op = ops" "nr < length ops" "length fs \<le> 256"
    and c: "encodes fs c (ops ! nr)"
    and IH: "\<And>j. encodes fs c (ElementOperand j) \<Longrightarrow> evaluates fs eval (ucast j) (clause_size c) (clause_truth w ev c)"
  shows "resolves fs (resolveOperand w ev eval) (ucast j) nr (clause_size c) (clause_value w ev c)"
proof -
  have "ops \<noteq> []" using ops(2) by auto
  from referenced_element [OF ops(1) this ops(3)]
  have j: "unat (ucast j :: u16) < length fs" "cfe_filterOperands (fs ! unat (ucast j :: u16)) = ops" by simp_all
  show ?thesis
  proof (rule clause_resolves [OF c ops(3) j(1)])
    show "nr < length (cfe_filterOperands (fs ! unat (ucast j :: u16)))" using ops(2) j(2) by simp
    show "cfe_filterOperands (fs ! unat (ucast j :: u16)) ! nr = ops ! nr" using j(2) by simp
    show "evaluates fs eval (ucast k) (clause_size c) (clause_truth w ev c)" if "ops ! nr = ElementOperand k" for k
      using IH c that by simp
  qed
qed

text \<open>An element evaluates to the truth of the tree that it stands for.\<close>

lemma clause_evaluates:
  assumes env: "builtin_env (ew_types w)" "plain_members (ew_types w)"
      "wf_nodeid (binaryEncodingId (ty_at (ew_types w) UA_TYPES_BOOLEAN))"
    and l: "length fs \<le> 256"
  shows "encodes fs c (ElementOperand j) \<Longrightarrow> clause_ok w ev te c \<Longrightarrow> clause_depth c \<le> stack \<Longrightarrow>
    evaluates fs (evaluateWhereClauseContentFilter w ev stack) (ucast j) (clause_size c) (clause_truth w ev c)"
proof (induction stack arbitrary: c j)
  case 0
  then show ?case by (cases c) simp_all
next
  case (Suc s)
  let ?r = "resolveOperand w ev (evaluateWhereClauseContentFilter w ev s)"
  note r = operand_resolves [OF _ _ l _ Suc.IH]
  have b: "\<exists>res. resolveBoolean (clause_value w ev x) = Done res \<and> status_truth res = clause_truth w ev x"
    if "clause_ok w ev te x" for x
    using resolveBoolean_clause [OF that env] unfolding clause_truth_def by metis
  have v: "typed_value (ew_types w) te UA_TYPES_VARIANT (clause_value w ev x)" if "clause_ok w ev te x" for x
    using clause_value_ok [OF that env] by simp
  have two: "unat (ucast j :: u16) < length fs \<and> cfe_filterOperator (fs ! unat (ucast j :: u16)) = op \<and>
      resolves fs ?r (ucast j) 0 (clause_size x) (clause_value w ev x) \<and>
      resolves fs ?r (ucast j) 1 (clause_size y) (clause_value w ev y)"
    if "referenced fs (ElementOperand j) op = [p, q]" "encodes fs x p" "encodes fs y q"
      "clause_ok w ev te x" "clause_ok w ev te y" "clause_depth x \<le> s" "clause_depth y \<le> s" for x y p q op
    using that referenced_element [OF that(1) _ l] by (auto intro!: r [OF that(1)])
  have one: "unat (ucast j :: u16) < length fs \<and> cfe_filterOperator (fs ! unat (ucast j :: u16)) = op \<and>
      resolves fs ?r (ucast j) 0 (clause_size x) (clause_value w ev x)"
    if "referenced fs (ElementOperand j) op = [p]" "encodes fs x p" "clause_ok w ev te x" "clause_depth x \<le> s" for x p op
    using that referenced_element [OF that(1) _ l] by (auto intro!: r [OF that(1)])
  note step = evaluate_step(1-4,6) [OF _ _ _ refl refl] evaluate_step(5) [OF _ _ refl refl]
  show ?case
  proof (cases c)
    case (CAnd x y)
    then obtain p q where pq: "referenced fs (ElementOperand j) UA_FILTEROPERATOR_AND = [p, q]" "encodes fs x p" "encodes fs y q"
      using Suc.prems(1) by (auto split: list.splits)
    obtain s1 s2 where b12: "resolveBoolean (clause_value w ev x) = Done s1" "status_truth s1 = clause_truth w ev x"
      "resolveBoolean (clause_value w ev y) = Done s2" "status_truth s2 = clause_truth w ev y"
      using b [of x] b [of y] Suc.prems(2) CAnd by auto
    have j: "unat (ucast j :: u16) < length fs" "cfe_filterOperator (fs ! unat (ucast j :: u16)) = UA_FILTEROPERATOR_AND"
      "resolves fs ?r (ucast j) 0 (clause_size x) (clause_value w ev x)"
      "resolves fs ?r (ucast j) 1 (clause_size y) (clause_value w ev y)"
      using two [OF pq] Suc.prems CAnd by simp_all
    show ?thesis
      using computes_evaluates [OF junction_computes(1) [OF j(3,4) b12(1,3) j(1)] j(1)] step(1) j(1,2) CAnd b12(2,4)
      by (auto simp: clause_truth_def)
  next
    case (COr x y)
    then obtain p q where pq: "referenced fs (ElementOperand j) UA_FILTEROPERATOR_OR = [p, q]" "encodes fs x p" "encodes fs y q"
      using Suc.prems(1) by (auto split: list.splits)
    obtain s1 s2 where b12: "resolveBoolean (clause_value w ev x) = Done s1" "status_truth s1 = clause_truth w ev x"
      "resolveBoolean (clause_value w ev y) = Done s2" "status_truth s2 = clause_truth w ev y"
      using b [of x] b [of y] Suc.prems(2) COr by auto
    have j: "unat (ucast j :: u16) < length fs" "cfe_filterOperator (fs ! unat (ucast j :: u16)) = UA_FILTEROPERATOR_OR"
      "resolves fs ?r (ucast j) 0 (clause_size x) (clause_value w ev x)"
      "resolves fs ?r (ucast j) 1 (clause_size y) (clause_value w ev y)"
      using two [OF pq] Suc.prems COr by simp_all
    show ?thesis
      using computes_evaluates [OF junction_computes(2) [OF j(3,4) b12(1,3) j(1)] j(1)] step(2) j(1,2) COr b12(2,4)
      by (auto simp: clause_truth_def)
  next
    case (CNot x)
    then obtain p where p: "referenced fs (ElementOperand j) UA_FILTEROPERATOR_NOT = [p]" "encodes fs x p"
      using Suc.prems(1) by (auto split: list.splits)
    obtain s1 where b1: "resolveBoolean (clause_value w ev x) = Done s1" "status_truth s1 = clause_truth w ev x"
      using b [of x] Suc.prems(2) CNot by auto
    have j: "unat (ucast j :: u16) < length fs" "cfe_filterOperator (fs ! unat (ucast j :: u16)) = UA_FILTEROPERATOR_NOT"
      "resolves fs ?r (ucast j) 0 (clause_size x) (clause_value w ev x)"
      using one [OF p] Suc.prems CNot by simp_all
    show ?thesis
      using computes_evaluates [OF not_computes [OF j(3) b1(1) j(1)] j(1)] step(3) j(1,2) CNot b1(2)
      by (auto simp: clause_truth_def)
  next
    case (CIsNull x)
    then obtain p where p: "referenced fs (ElementOperand j) UA_FILTEROPERATOR_ISNULL = [p]" "encodes fs x p"
      using Suc.prems(1) by (auto split: list.splits)
    have j: "unat (ucast j :: u16) < length fs" "cfe_filterOperator (fs ! unat (ucast j :: u16)) = UA_FILTEROPERATOR_ISNULL"
      "resolves fs ?r (ucast j) 0 (clause_size x) (clause_value w ev x)"
      using one [OF p] Suc.prems CIsNull by simp_all
    show ?thesis
      using computes_evaluates [OF isNull_computes [OF j(3,1)] j(1)] step(4) j(1,2) CIsNull by (auto simp: clause_truth_def)
  next
    case (CCompare op x y)
    then obtain p q where pq: "referenced fs (ElementOperand j) op = [p, q]" "encodes fs x p" "encodes fs y q"
        "op \<in> comparison_operators"
      using Suc.prems(1) by (auto split: list.splits)
    have j: "unat (ucast j :: u16) < length fs" "cfe_filterOperator (fs ! unat (ucast j :: u16)) = op"
      "resolves fs ?r (ucast j) 0 (clause_size x) (clause_value w ev x)"
      "resolves fs ?r (ucast j) 1 (clause_size y) (clause_value w ev y)"
      using two [OF pq(1-3)] Suc.prems CCompare by simp_all
    have ok: "clause_ok w ev te x" "clause_ok w ev te y" "comparable (ew_types w) (clause_value w ev x) (clause_value w ev y)"
      using Suc.prems(2) CCompare by simp_all
    have "computes fs (compareOperator w ?r) (ucast j) (clause_size x + clause_size y) (clause_truth w ev c)"
      using compare_computes [OF j(3,4,1,2) v [OF ok(1)] v [OF ok(2)] ok(3)] CCompare by (simp add: clause_truth_def)
    from computes_evaluates [OF this j(1)] show ?thesis using step(6) j(1,2) pq(4) CCompare by auto
  next
    case (COfType t)
    then have ops: "referenced fs (ElementOperand j) UA_FILTEROPERATOR_OFTYPE = [LiteralOperand (VVariantScalar UA_TYPES_NODEID (VNodeId t))]"
      using Suc.prems(1) by simp
    note j = referenced_element [OF ops _ l, simplified]
    have "computes fs (ofTypeOperator w ev) (ucast j) 0 (clause_truth w ev c)"
      using ofType_computes [of "ucast j" fs t w ev te] j Suc.prems(2) COfType by (simp add: clause_truth_def)
    from computes_evaluates [OF this] show ?thesis using step(5) j COfType by auto
  qed (use Suc.prems in simp_all)
qed

section \<open>The where clause\<close>

text \<open>
  C34: The evaluation of a where clause computes its meaning. If the first element of an accepted number of
  elements stands for a tree of the operators AND, OR, NOT, ISNULL, OFTYPE and the comparisons (whatever the
  order of the elements, and also when several operands refer to the same element), its values are well-typed
  and compared ones have the same builtin type, there is room for the status codes of the operands, memory for
  one Boolean for each operator and stack for their nesting, then the evaluation returns without undefined
  behaviour: good when the tree is true, no match when it is false, and an error when it has no truth value.
\<close>

theorem where_clause_computes_truth:
  assumes "encodes fs c (ElementOperand 0)" "length fs \<le> 256" "clause_ok w ev te c"
    and "builtin_env (ew_types w)" "plain_members (ew_types w)"
      "wf_nodeid (binaryEncodingId (ty_at (ew_types w) UA_TYPES_BOOLEAN))"
    and "length results = length fs"
      "\<forall>i < length fs. \<exists>codes. cfr_operandStatusCodes (results ! i) = Some codes \<and>
         length (cfe_filterOperands (fs ! i)) \<le> length codes"
    and "0 \<notin> set mallocs" "clause_size c \<le> length mallocs" "clause_depth c \<le> stack"
  shows "\<exists>res results' mallocs'.
    UA_Server_evaluateWhereClauseContentFilter w ev stack fs results mallocs = Done (res, results', mallocs') \<and>
    status_truth res = clause_truth w ev c"
proof -
  let ?ctx = "\<lparr>ctx_contentFilter = fs, ctx_elementResults = results,
    ctx_valueResult = replicate (length fs) VVariantEmpty, ctx_index = 0, ctx_mallocs = mallocs\<rparr>"
  have "fs \<noteq> []" using encodes_operator [OF assms(1)] by auto
  moreover have "ctx_ok fs ?ctx" using assms(7-9) by (simp add: ctx_ok_def list_all_length)
  then obtain res ctx where "evaluateWhereClauseContentFilter w ev stack ?ctx = Done (res, ctx)" "status_truth res = clause_truth w ev c"
    using clause_evaluates [OF assms(4-6,2,1,3,11)] assms(10) unfolding evaluates_def by fastforce
  ultimately show ?thesis using assms(2) by (simp add: UA_Server_evaluateWhereClauseContentFilter_def)
qed

text \<open>A comparison that three operands share, behind and before the elements that refer to it.\<close>

definition demo_number :: "u32 \<Rightarrow> ua_val" where
  "demo_number n = VVariantScalar UA_TYPES_INT32 (VU32 n)"

definition demo_comparison :: clause where
  "demo_comparison = CCompare UA_FILTEROPERATOR_LESSTHAN (CLiteral (demo_number 3)) (CLiteral (demo_number 7))"

definition demo_clause :: "UA_ContentFilterElement list" where
  "demo_clause =
     [\<lparr>cfe_filterOperator = UA_FILTEROPERATOR_AND, cfe_filterOperands = [ElementOperand 2, ElementOperand 1]\<rparr>,
      \<lparr>cfe_filterOperator = UA_FILTEROPERATOR_LESSTHAN,
       cfe_filterOperands = [LiteralOperand (demo_number 3), LiteralOperand (demo_number 7)]\<rparr>,
      \<lparr>cfe_filterOperator = UA_FILTEROPERATOR_OR, cfe_filterOperands = [ElementOperand 1, ElementOperand 1]\<rparr>]"

definition demo_tree :: clause where
  "demo_tree = CAnd (COr demo_comparison demo_comparison) demo_comparison"

definition demo_results :: "UA_ContentFilterElementResult list" where
  "demo_results = replicate 3 \<lparr>cfr_statusCode = GOOD, cfr_operandStatusCodes = Some [GOOD, GOOD]\<rparr>"

lemma demo_tree_encoded: "encodes demo_clause demo_tree (ElementOperand 0)"
  by (simp add: demo_clause_def demo_tree_def demo_comparison_def referenced_def comparison_operators_def filter_operators)

lemma demo_tree_ok: "clause_ok demo_world ev 0 demo_tree"
proof -
  have "typed_value (ew_types demo_world) 0 UA_TYPES_VARIANT (demo_number n)" for n
    using demo_scalar by (simp add: demo_number_def demo_world_def)
  moreover have "kind_at (ew_types demo_world) 5 = DK_INT32" using demo_builtin_env by (simp add: demo_world_def)
  ultimately show ?thesis
    by (simp add: demo_tree_def demo_comparison_def readable_def comparable_def demo_number_def)
qed

theorem where_clause_computes_truth_witness:
  "\<exists>res results' mallocs'.
    UA_Server_evaluateWhereClauseContentFilter demo_world (ns0 1) 3 demo_clause demo_results [1, 1, 1, 1, 1] =
      Done (res, results', mallocs') \<and>
    status_truth res = clause_truth demo_world (ns0 1) demo_tree"
proof (rule where_clause_computes_truth [OF demo_tree_encoded _ demo_tree_ok])
  show "builtin_env (ew_types demo_world)" "plain_members (ew_types demo_world)"
    using demo_builtin_env demo_plain by (simp_all add: demo_world_def)
  show "wf_nodeid (binaryEncodingId (ty_at (ew_types demo_world) UA_TYPES_BOOLEAN))"
    by (simp add: demo_world_def demo_defs)
qed (auto simp: demo_clause_def demo_results_def demo_tree_def demo_comparison_def less_Suc_eq_0_disj numeral_3_eq_3)

end
