(* ===== verification/Binary_Depth.thy ===== *)
theory Binary_Depth
  imports Binary_Safe
begin

text \<open>
  The limit on the recursion of the decoder. \<open>within d B f\<close>: started at the depth \<open>d\<close> (\<^verbatim>\<open>ctx->depth\<close>),
  the decoder \<open>f\<close> returns to this depth, and the value that it decodes with success satisfies \<open>B\<close>.
  A value that is decoded at the depth \<open>d\<close> is nested at most \<open>101 - d\<close> levels deep, because every
  level (a variant, a data value, an inner diagnostic info, a structure, a union) passes the check
  against \<^verbatim>\<open>UA_ENCODING_MAX_RECURSION\<close>. Only the elements of an array that is copied from the stream
  into memory come without checks; what their type nests is \<open>k\<close>.
\<close>

section \<open>Decoders at a depth\<close>

definition within :: "nat \<Rightarrow> ('a \<Rightarrow> bool) \<Rightarrow> 'a decoder \<Rightarrow> bool" where
  "within d B f =
     (\<forall>c r x c'. dec_depth c = d \<longrightarrow> f c = (r, x, c') \<longrightarrow> dec_depth c' = d \<and> (r = GOOD \<longrightarrow> B x))"

lemma withinI:
  "(\<And>c r x c'. dec_depth c = d \<Longrightarrow> f c = (r, x, c') \<Longrightarrow> dec_depth c' = d \<and> (r = GOOD \<longrightarrow> B x)) \<Longrightarrow>
   within d B f"
  unfolding within_def by blast

lemma withinD:
  "within d B f \<Longrightarrow> dec_depth c = d \<Longrightarrow> f c = (r, x, c') \<Longrightarrow> dec_depth c' = d \<and> (r = GOOD \<longrightarrow> B x)"
  unfolding within_def by blast

lemma within_mono: "within d A f \<Longrightarrow> (\<And>x. A x \<Longrightarrow> B x) \<Longrightarrow> within d B f"
  unfolding within_def by blast

lemma within_ret: "(r = GOOD \<Longrightarrow> B x) \<Longrightarrow> within d B (\<lambda>c. (r, x, c))"
  by (simp add: within_def)

lemma within_bind:
  assumes f: "within d A f" and h: "\<And>r a. (r = GOOD \<Longrightarrow> A a) \<Longrightarrow> within d B (h r a)"
  shows "within d B (\<lambda>c. case f c of (r, a, c1) \<Rightarrow> h r a c1)"
proof (rule withinI)
  fix c r x c' assume d: "dec_depth c = d" and eq: "(case f c of (r, a, c1) \<Rightarrow> h r a c1) = (r, x, c')"
  obtain r1 a c1 where 1: "f c = (r1, a, c1)" by (cases "f c") auto
  from withinD [OF f d 1] have 2: "dec_depth c1 = d" "r1 = GOOD \<Longrightarrow> A a" by auto
  from withinD [OF h [OF 2(2)] 2(1)] eq 1 show "dec_depth c' = d \<and> (r = GOOD \<longrightarrow> B x)" by auto
qed

lemma within_if: "(b \<Longrightarrow> within d B f) \<Longrightarrow> (\<not> b \<Longrightarrow> within d B g) \<Longrightarrow> within d B (\<lambda>c. if b then f c else g c)"
  by (cases b) simp_all

lemma within_if_ctx: "within d B f \<Longrightarrow> within d B g \<Longrightarrow> within d B (\<lambda>c. if b c then f c else g c)"
  by (rule withinI) (auto split: if_splits dest: withinD)

lemma within_param: "(\<And>b. within d B (f b)) \<Longrightarrow> within d B (\<lambda>c. f (p c) c)"
  by (rule withinI) (rule withinD)

lemma within_calloc:
  assumes "\<And>ok. within d B (h ok)"
  shows "within d B (\<lambda>c. case dec_calloc c of (ok, c1) \<Rightarrow> h ok c1)"
  by (rule withinI, rule withinD [OF assms]) (auto simp: dec_calloc_def)

lemma within_advance: "(\<And>c. B (x c)) \<Longrightarrow> within d B (\<lambda>c. (r, x c, c\<lparr>dec_pos := n c\<rparr>))"
  by (auto simp: within_def)

lemma within_skip: "within d B f \<Longrightarrow> within d B (\<lambda>c. f (c\<lparr>dec_pos := n c\<rparr>))"
  by (rule withinI, erule withinD) auto

text \<open>A decoder that is steady for every amount of what is left stays at its depth.\<close>

lemma within_steady: "(\<And>m. steady m f) \<Longrightarrow> within d (\<lambda>_. True) f"
proof (rule withinI)
  fix c r x c' assume st: "\<And>m. steady m f" and d: "dec_depth c = d" and eq: "f c = (r, x, c')"
  from steadyD [OF st lessI eq] d show "dec_depth c' = d \<and> (r = GOOD \<longrightarrow> True)" by (simp add: later_def)
qed

lemma within_map: "within d (\<lambda>x. B (g x)) f \<Longrightarrow> within d B (dec_map g f)"
  by (rule withinI) (auto simp: dec_map_def split: prod.splits dest: withinD)

lemma within_leaf:
  "(\<And>m. steady m f) \<Longrightarrow> (\<And>x. B (g x)) \<Longrightarrow> within d B (dec_map g f)"
  by (rule within_map) (rule within_mono [OF within_steady])

lemma within_elems: "within d B f \<Longrightarrow> within d (\<lambda>xs. \<forall>x \<in> set xs. B x) (decode_elems n f)"
proof (induction n)
  case (Suc n)
  then show ?case
    unfolding decode_elems.simps(2) [abs_def] Let_def
    by (intro within_bind [OF Suc.prems] within_if within_bind [OF Suc.IH] within_ret) auto
qed (simp add: within_def)

definition opt_all :: "('a \<Rightarrow> bool) \<Rightarrow> 'a list option \<Rightarrow> bool" where
  "opt_all B a = (\<forall>xs. a = Some xs \<longrightarrow> (\<forall>x \<in> set xs. B x))"

lemma opt_all_simps [simp]: "opt_all B None" "opt_all B (Some xs) = (\<forall>x \<in> set xs. B x)"
  by (simp_all add: opt_all_def)

lemma within_Array_with:
  assumes f: "within d B f" and fm: "\<And>n bs x. overlay \<Longrightarrow> x \<in> set (fm n bs) \<Longrightarrow> B x"
  shows "within d (opt_all B) (Array_decodeBinary_with msize overlay fm f)"
proof -
  have adv: "within d (opt_all B) (\<lambda>c. (GOOD, Some (fm n (bs c)), c\<lparr>dec_pos := p c\<rparr>))" if overlay for n bs p
    using fm [OF that] by (simp add: within_def)
  show ?thesis
    unfolding Array_decodeBinary_with_def [abs_def] Let_def
    by (intro within_bind [OF within_steady] within_if within_if_ctx within_bind [OF within_elems [OF f]]
        within_ret within_calloc adv steady_ints) auto
qed

lemma within_opt: "within d B f \<Longrightarrow> within d (\<lambda>y. \<forall>x. y = Some x \<longrightarrow> B x) (dec_opt b f)"
  by (rule withinI) (auto simp: dec_opt_def split: prod.splits if_splits dest: withinD)

text \<open>One level deeper, behind the check.\<close>

lemma within_deeper_or:
  assumes f: "d \<le> 100 \<Longrightarrow> within (Suc d) A f" and r0: "r0 \<noteq> GOOD" and g: "\<And>x. d \<le> 100 \<Longrightarrow> A x \<Longrightarrow> B (g x)"
  shows "within d B (\<lambda>c. if DEC_MAX_RECURSION < dec_depth c then (r0, z c, c)
     else case f (c\<lparr>dec_depth := dec_depth c + 1\<rparr>) of (r, x, c1) \<Rightarrow>
       (q OR r, g x, c1\<lparr>dec_depth := dec_depth c1 - 1\<rparr>))"
proof (rule withinI)
  fix c r x c'
  assume d: "dec_depth c = d" and eq: "(if DEC_MAX_RECURSION < dec_depth c then (r0, z c, c)
     else case f (c\<lparr>dec_depth := dec_depth c + 1\<rparr>) of (r, x, c1) \<Rightarrow>
       (q OR r, g x, c1\<lparr>dec_depth := dec_depth c1 - 1\<rparr>)) = (r, x, c')"
  show "dec_depth c' = d \<and> (r = GOOD \<longrightarrow> B x)"
  proof (cases "d \<le> 100")
    case True
    let ?d = "c\<lparr>dec_depth := dec_depth c + 1\<rparr>"
    obtain r1 y c1 where 1: "f ?d = (r1, y, c1)" by (cases "f ?d") auto
    from withinD [OF f [OF True] _ 1] d have "dec_depth c1 = Suc d" "r1 = GOOD \<longrightarrow> A y" by auto
    then show ?thesis using eq 1 d True g [OF True, of y] by auto
  qed (use eq d r0 in auto)
qed

lemmas within_deeper = within_deeper_or [where q = 0, simplified or.left_neutral]

lemma within_nested:
  "(d \<le> 100 \<Longrightarrow> within (Suc d) A f) \<Longrightarrow> (\<And>x. d \<le> 100 \<Longrightarrow> A x \<Longrightarrow> B x) \<Longrightarrow> within d B (dec_nested z f)"
  using within_deeper [of d A f UA_STATUSCODE_BADENCODINGERROR B "\<lambda>x. x" "\<lambda>_. z"]
  by (simp add: dec_nested_def [abs_def] Let_def cong: if_cong)

section \<open>Values\<close>

text \<open>\<open>shallow k d v\<close>: decoded at the depth \<open>d\<close>, the value \<open>v\<close> is not nested too deep.\<close>

definition shallow :: "nat \<Rightarrow> nat \<Rightarrow> ua_val \<Rightarrow> bool" where
  "shallow k d v = (nest v + d \<le> 101 + k)"

definition shallow_field :: "nat \<Rightarrow> nat \<Rightarrow> ua_field \<Rightarrow> bool" where
  "shallow_field k d f = (nest_field f + d \<le> 101 + k)"

lemma max_list_le: "max_list ns \<le> b \<longleftrightarrow> (\<forall>n \<in> set ns. n \<le> b)"
  by (induction ns) auto

lemma max_list_plus: "d \<le> m \<Longrightarrow> max_list ns + d \<le> m \<longleftrightarrow> (\<forall>n \<in> set ns. n + d \<le> m)" for d m :: nat
  by (induction ns) auto

text \<open>\<open>k\<close> bounds the nesting of the elements that come from memory.\<close>

definition overlay_nest :: "type_env \<Rightarrow> nat \<Rightarrow> bool" where
  "overlay_nest env k =
     (\<forall>t bs. overlayable (ty_at env t) \<longrightarrow> nest (overlay_read env overlay_fuel t bs) \<le> k)"

lemma overlay_shallow:
  "overlay_nest env k \<Longrightarrow> d \<le> 101 \<Longrightarrow> overlayable (ty_at env t) \<Longrightarrow> v \<in> set (overlay_array env t n bs) \<Longrightarrow>
   shallow k d v"
  unfolding overlay_nest_def shallow_def overlay_array_def Let_def
  by (fastforce dest: spec intro: add_mono [of _ k d 101, simplified add.commute [of k]])

lemma shallow_array:
  "d \<le> 101 \<Longrightarrow> opt_all (shallow k d) a \<Longrightarrow>
   (case a of None \<Rightarrow> 0 | Some vs \<Rightarrow> max_list (map nest vs)) + d \<le> 101 + k"
  by (cases a) (auto simp: max_list_plus shallow_def)

lemma shallow_FArray: "d \<le> 101 \<Longrightarrow> opt_all (shallow k d) a \<Longrightarrow> shallow_field k d (FArray a)"
  and shallow_FOptArray: "d \<le> 101 \<Longrightarrow> opt_all (shallow k d) a \<Longrightarrow> shallow_field k d (FOptArray a)"
  using shallow_array [of d k a] by (simp_all add: shallow_field_def)

lemma shallow_FScalar: "shallow k d v \<Longrightarrow> shallow_field k d (FScalar v)"
  and shallow_FOptScalar: "shallow k d v \<Longrightarrow> shallow_field k d (FOptScalar (Some v))"
  by (simp_all add: shallow_field_def shallow_def)

lemma shallow_absent: "d \<le> 101 \<Longrightarrow> shallow_field k d (FOptArray None)" "d \<le> 101 \<Longrightarrow> shallow_field k d (FOptScalar None)"
  by (simp_all add: shallow_field_def)

lemma shallow_VStruct: "d \<le> 100 \<Longrightarrow> \<forall>f \<in> set fs. shallow_field k (Suc d) f \<Longrightarrow> shallow k d (VStruct fs)"
  using max_list_plus [of "Suc d" "101 + k" "map nest_field fs"]
  by (simp add: shallow_def shallow_field_def)

lemma shallow_scalars:
  "d \<le> 100 \<Longrightarrow> shallow k d VVariantEmpty"
  "shallow k (Suc d) v \<Longrightarrow> shallow k d (VVariantScalar t v)"
  by (simp_all add: shallow_def)

lemma shallow_VVariantArray:
  "d \<le> 100 \<Longrightarrow> opt_all (shallow k (Suc d)) a \<Longrightarrow> shallow k d (VVariantArray t a dims)"
  using shallow_array [of "Suc d" k a] by (simp add: shallow_def)

section \<open>The decoders\<close>

definition table_within :: "type_env \<Rightarrow> nat \<Rightarrow> dec_table \<Rightarrow> bool" where
  "table_within env k jt =
     (overlay_nest env k \<and> (\<forall>d t. d \<le> 101 \<longrightarrow> within d (shallow k d) (jt t)))"

lemma tableD:
  "table_within env k jt \<Longrightarrow> overlay_nest env k"
  "table_within env k jt \<Longrightarrow> d \<le> 101 \<Longrightarrow> within d (shallow k d) (jt t)"
  by (simp_all add: table_within_def)

lemma within_Array:
  "table_within env k jt \<Longrightarrow> d \<le> 101 \<Longrightarrow> within d (opt_all (shallow k d)) (Array_decodeBinary env jt t)"
  unfolding Array_decodeBinary_def
  by (rule within_Array_with [OF tableD(2)]) (auto intro: overlay_shallow [OF tableD(1)])

lemma within_NodeId_copy:
  assumes h: "\<And>i. within d B (h i)"
  shows "within d B (\<lambda>c. case NodeId_copy i c of (i', c1) \<Rightarrow> h i' c1)"
proof (rule withinI)
  fix c r x c' assume d: "dec_depth c = d" and eq: "(case NodeId_copy i c of (i', c1) \<Rightarrow> h i' c1) = (r, x, c')"
  obtain i' c1 where 1: "NodeId_copy i c = (i', c1)" by fastforce
  then have "dec_depth c1 = d" using d
    by (auto simp: NodeId_copy_def dec_calloc_def split: UA_Identifier.splits if_splits)
  from withinD [OF h this] eq 1 show "dec_depth c' = d \<and> (r = GOOD \<longrightarrow> B x)" by auto
qed

lemma within_content:
  assumes t: "table_within env k jt" and d: "d \<le> 101"
  shows "within d (shallow k d) (ExtensionObject_decodeBinaryContent env jt tid)"
proof -
  have some: "within d (shallow k d) (\<lambda>c. case dec_calloc c of (ok, c1) \<Rightarrow>
        if \<not> ok then (UA_STATUSCODE_BADOUTOFMEMORY, VDecodedEO None None, c1)
        else case jt t (c1\<lparr>dec_pos := dec_pos c1 + 4\<rparr>) of (r, v, c2) \<Rightarrow> (r, VDecodedEO (Some t) (Some v), c2))" for t
    by (intro within_calloc within_if within_ret within_bind [OF within_skip [OF tableD(2) [OF t d]]])
      (use d in \<open>auto simp: shallow_def\<close>)
  have none: "within d (shallow k d) (\<lambda>c. case NodeId_copy tid c of (i, c1) \<Rightarrow>
       case String_decodeBinary c1 of (r, body, c2) \<Rightarrow> (r, VEncodedEO EO_BYTESTRING i body, c2))"
    by (intro within_NodeId_copy within_bind [OF within_steady] within_ret steady_String)
      (use d in \<open>simp add: shallow_def\<close>)
  have "within d (shallow k d) (case q of None \<Rightarrow> (\<lambda>c. case NodeId_copy tid c of (i, c1) \<Rightarrow>
       case String_decodeBinary c1 of (r, body, c2) \<Rightarrow> (r, VEncodedEO EO_BYTESTRING i body, c2))
    | Some t \<Rightarrow> (\<lambda>c. case dec_calloc c of (ok, c1) \<Rightarrow>
        if \<not> ok then (UA_STATUSCODE_BADOUTOFMEMORY, VDecodedEO None None, c1)
        else case jt t (c1\<lparr>dec_pos := dec_pos c1 + 4\<rparr>) of (r, v, c2) \<Rightarrow> (r, VDecodedEO (Some t) (Some v), c2)))" for q
    using some none by (cases q) simp_all
  from within_param [OF this, where p = "\<lambda>c. UA_findDataTypeByBinaryInternal env (dec_custom c) tid"] show ?thesis
    unfolding ExtensionObject_decodeBinaryContent_def [abs_def] Let_def
    by (rule back_subst [of "within d (shallow k d)"]) (auto split: option.splits)
qed

lemma within_EO:
  "table_within env k jt \<Longrightarrow> d \<le> 101 \<Longrightarrow> within d (shallow k d) (ExtensionObject_decodeBinary env jt)"
  unfolding ExtensionObject_decodeBinary_def [abs_def] Let_def
  by (intro within_bind [OF within_steady] within_if within_content within_ret steady_NodeId steady_ints
      steady_String) (auto simp: shallow_def)

lemma within_Unwrap:
  assumes t: "table_within env k jt" and d: "d \<le> 100"
  shows "within (Suc d) (shallow k d) (Variant_decodeBinaryUnwrapExtensionObject env jt)"
proof (rule withinI)
  fix c r x c' assume dc: "dec_depth c = Suc d"
    and eq: "Variant_decodeBinaryUnwrapExtensionObject env jt c = (r, x, c')"
  obtain r1 tid c1 where 1: "NodeId_decodeBinary c = (r1, tid, c1)" by (cases "NodeId_decodeBinary c") auto
  obtain r2 e c2 where 2: "Byte_decodeBinary c1 = (r2, e, c2)" by (cases "Byte_decodeBinary c1") auto
  from steadyD [OF steady_NodeId lessI 1] steadyD [OF steady_ints(2) lessI 2] dc
  have dd: "dec_depth c1 = Suc d" "dec_depth c2 = Suc d" by (auto simp: later_def)
  have alloc: "within (Suc d) (shallow k d) (\<lambda>c. case dec_calloc c of (ok, c4) \<Rightarrow>
      if \<not> ok then (UA_STATUSCODE_BADOUTOFMEMORY, VVariantEmpty, c4)
      else case jt t c4 of (r, v, c5) \<Rightarrow> (r, VVariantScalar t v, c5))" for t
    by (intro within_calloc within_if within_ret within_bind [OF tableD(2) [OF t]])
      (use d in \<open>auto simp: shallow_def\<close>)
  note a = withinD [OF within_skip [OF alloc, where n = "\<lambda>c. dec_pos c + 4"] dd(2)]
    withinD [OF within_skip [OF alloc, where n = "\<lambda>_. dec_pos c"] dd(2)]
  show "dec_depth c' = Suc d \<and> (r = GOOD \<longrightarrow> shallow k d x)"
  proof (cases "r1 = GOOD \<and> r2 = GOOD")
    case False
    then show ?thesis
      using eq dd by (auto simp: Variant_decodeBinaryUnwrapExtensionObject_def Let_def 1 2 split: if_splits)
  next
    case True
    then show ?thesis
      using eq [unfolded Variant_decodeBinaryUnwrapExtensionObject_def Let_def] 1 2 a
      by (auto split: option.splits)
  qed
qed

lemma within_Variant_content:
  assumes t: "table_within env k jt" and d: "d \<le> 100"
  shows "within (Suc d) (shallow k d) (Variant_decodeContent env jt b ty)"
proof -
  have s: "Suc d \<le> 101" using d by simp
  note dims = within_Array_with [OF within_steady [OF steady_ints(4)], of True]
  show ?thesis
    unfolding Variant_decodeContent_def [abs_def] Let_def
    by (intro within_if within_bind [OF within_Array [OF t s]] within_bind [OF dims] within_ret within_calloc
        within_bind [OF tableD(2) [OF t s]] within_Unwrap [OF t d])
      (use d in \<open>auto simp: shallow_scalars intro: shallow_VVariantArray\<close>)
qed

lemma within_Variant:
  assumes t: "table_within env k jt" and d: "d \<le> 101"
  shows "within d (shallow k d) (Variant_decodeBinary env jt)"
  unfolding Variant_decodeBinary_def [abs_def] Let_def
  by (intro within_bind [OF within_steady [OF steady_ints(2)]] within_if within_ret
      within_deeper [OF within_Variant_content [OF t], where g = "\<lambda>x. x"])
    (use d in \<open>auto simp: shallow_def\<close>)

lemma within_DataValue:
  assumes t: "table_within env k jt" and d: "d \<le> 101"
  shows "within d (shallow k d) (DataValue_decodeBinary env jt)"
proof -
  define body where "body = (\<lambda>(m :: u8) c1. case dec_opt (m AND 0x01 \<noteq> 0) (Variant_decodeBinary env jt) c1 of (r1, val, c2) \<Rightarrow>
      case dec_opt (m AND 0x02 \<noteq> 0) UInt32_decodeBinary c2 of (r2, st, c3) \<Rightarrow>
      case dec_opt (m AND 0x04 \<noteq> 0) UInt64_decodeBinary c3 of (r3, sts, c4) \<Rightarrow>
      case dec_opt (m AND 0x10 \<noteq> 0) Picoseconds_decode c4 of (r4, sps, c5) \<Rightarrow>
      case dec_opt (m AND 0x08 \<noteq> 0) UInt64_decodeBinary c5 of (r5, vts, c6) \<Rightarrow>
      case dec_opt (m AND 0x20 \<noteq> 0) Picoseconds_decode c6 of (r6, vps, c7) \<Rightarrow>
        (r1 OR r2 OR r3 OR r4 OR r5 OR r6, VDataValue val st sts sps vts vps, c7))"
  have b: "within (Suc d) (shallow k d) (body w)" if "d \<le> 100" for w :: u8
    unfolding body_def
    by (rule within_bind [OF within_opt [OF within_Variant [OF t]]],
        use that in simp, intro within_bind [OF within_steady [OF steady_opt]] within_ret steady_ints steady_Pico)
      (use that in \<open>auto simp: shallow_def split: option.splits\<close>)
  have eq: "DataValue_decodeBinary env jt = (\<lambda>c. case Byte_decodeBinary c of (r0, m, c0) \<Rightarrow>
      if r0 \<noteq> GOOD then (r0, VDataValue None None None None None None, c0)
      else if DEC_MAX_RECURSION < dec_depth c0
      then (UA_STATUSCODE_BADENCODINGERROR, VDataValue None None None None None None, c0)
      else case body m (c0\<lparr>dec_depth := dec_depth c0 + 1\<rparr>) of (r, x, c1) \<Rightarrow>
        (r, x, c1\<lparr>dec_depth := dec_depth c1 - 1\<rparr>))"
    by (rule ext) (simp add: DataValue_decodeBinary_def body_def Let_def split_beta)
  show ?thesis unfolding eq
    by (intro within_bind [OF within_steady [OF steady_ints(2)]] within_if within_ret
        within_deeper [OF b, where g = "\<lambda>x. x"]) auto
qed

lemma within_member:
  "table_within env k jt \<Longrightarrow> d \<le> 101 \<Longrightarrow> within d (shallow_field k d) (decode_member env jt m)"
  unfolding decode_member_def [abs_def] Let_def
  by (intro within_if within_bind [OF within_Array] within_bind [OF tableD(2)] within_ret)
    (auto intro: shallow_FArray shallow_FScalar)

lemma within_members:
  assumes t: "table_within env k jt" and d: "d \<le> 101"
  shows "within d (\<lambda>fs. \<forall>f \<in> set fs. shallow_field k d f) (decode_members env jt ms)"
proof (induction ms)
  case (Cons m ms)
  show ?case unfolding decode_members.simps(2) [abs_def] Let_def
    by (intro within_bind [OF within_member [OF t d]] within_if within_bind [OF Cons] within_ret) auto
qed (simp add: within_def)

lemma within_opt_member:
  "table_within env k jt \<Longrightarrow> d \<le> 101 \<Longrightarrow> within d (shallow_field k d) (decode_opt_member env jt p m)"
  unfolding decode_opt_member_def [abs_def] Let_def
  by (intro within_if within_calloc within_bind [OF within_Array] within_bind [OF tableD(2)] within_ret)
    (auto intro: shallow_FOptArray shallow_FOptScalar shallow_absent)

lemma within_opt_members:
  assumes t: "table_within env k jt" and d: "d \<le> 101"
  shows "within d (\<lambda>fs. \<forall>f \<in> set fs. shallow_field k d f) (decode_opt_members env jt w i ms)"
proof (induction ms arbitrary: i)
  case (Cons m ms)
  have "within d (shallow_field k d) (\<lambda>c. if isOptional m then if 32 \<le> i then (STATUS_UNDEFINED, FOptScalar None, c)
       else decode_opt_member env jt (w AND push_bit i 1 \<noteq> 0) m c else decode_member env jt m c)"
    by (intro within_if within_opt_member [OF t d] within_member [OF t d] within_ret) simp
  note f = this
  show ?case unfolding decode_opt_members.simps(2) [abs_def] Let_def
    by (rule within_bind [OF f], intro within_if within_bind [OF Cons] within_ret) auto
qed (simp add: within_def)

lemma within_Struct:
  assumes t: "table_within env k jt"
  shows "within d (shallow k d) (decodeBinaryStructure env jt ty)"
  unfolding decodeBinaryStructure_def Let_def
  by (rule within_nested [where A = "shallow k d"], intro within_bind [OF within_members [OF t]] within_ret)
    (auto intro: shallow_VStruct)

lemma within_OptStruct:
  assumes t: "table_within env k jt"
  shows "within d (shallow k d) (decodeBinaryStructureWithOptFields env jt ty)"
  unfolding decodeBinaryStructureWithOptFields_def Let_def
  by (rule within_nested [where A = "shallow k d"],
      intro within_bind [OF within_steady [OF steady_ints(4)]] within_if within_bind [OF within_opt_members [OF t]]
        within_ret)
    (auto intro: shallow_VStruct)

lemma within_Union:
  assumes t: "table_within env k jt" and d: "d \<le> 101"
  shows "within d (shallow k d) (decodeBinaryUnion env jt ty)"
proof (rule withinI)
  fix c r x c' assume dc: "dec_depth c = d" and eq: "decodeBinaryUnion env jt ty c = (r, x, c')"
  obtain r1 sel c1 where 1: "UInt32_decodeBinary c = (r1, sel, c1)" by (cases "UInt32_decodeBinary c") auto
  from steadyD [OF steady_ints(4) lessI 1] dc have d1: "dec_depth c1 = d" by (auto simp: later_def)
  let ?m = "members (ty_at env ty) ! unat (sel - 1)" and ?d = "c1\<lparr>dec_depth := dec_depth c1 + 1\<rparr>"
  obtain r2 f c2 where 2: "decode_member env jt ?m ?d = (r2, f, c2)" by (cases "decode_member env jt ?m ?d") auto
  show "dec_depth c' = d \<and> (r = GOOD \<longrightarrow> shallow k d x)"
  proof (cases "d \<le> 100")
    case False
    then show ?thesis using eq dc by (auto simp: decodeBinaryUnion_def Let_def)
  next
    case True
    from withinD [OF within_member [OF t] _ 2, of "Suc d"] True d1
    have "dec_depth c2 = Suc d" "r2 = GOOD \<longrightarrow> shallow_field k (Suc d) f" by auto
    then show ?thesis
      using eq [unfolded decodeBinaryUnion_def Let_def 1 prod.case] d1 dc True
      by (auto simp: 2 [simplified] shallow_def shallow_field_def split: if_splits)
  qed
qed

lemma within_DiagnosticInfo:
  "d \<le> 101 \<Longrightarrow> within d (shallow k d) (DiagnosticInfo_decodeBinary n)"
proof (induction n arbitrary: d)
  case (Suc n)
  let ?mk = "\<lambda>(symid, ns, lt, loc, add, st). VDiagnosticInfo symid ns lt loc add st"
  have eq: "DiagnosticInfo_decodeBinary (Suc n) =
    (\<lambda>c. case Byte_decodeBinary c of (r0, m, c0) \<Rightarrow>
     if r0 \<noteq> GOOD then (r0, empty_diag, c0)
     else case diag_fields m c0 of (ret, a, c6) \<Rightarrow>
       if m AND 0x40 = 0 then (ret, ?mk a None, c6)
       else case dec_calloc c6 of (ok, c7) \<Rightarrow>
         if \<not> ok then (UA_STATUSCODE_BADOUTOFMEMORY, empty_diag, c7)
         else if DEC_MAX_RECURSION < dec_depth c7 then (UA_STATUSCODE_BADENCODINGERROR, empty_diag, c7)
         else case DiagnosticInfo_decodeBinary n (c7\<lparr>dec_depth := dec_depth c7 + 1\<rparr>) of (r7, inner, c8) \<Rightarrow>
           (ret OR r7, ?mk a (Some inner), c8\<lparr>dec_depth := dec_depth c8 - 1\<rparr>))"
    by (rule ext) (simp only: DiagnosticInfo_decodeBinary.simps Let_def diag_fields_def split_beta fst_conv snd_conv)
  have none: "shallow k d (?mk a None)" for a
    using Suc.prems by (cases a) (simp add: shallow_def)
  have inner: "shallow k d (?mk a (Some y))" if "d \<le> 100" "shallow k (Suc d) y" for a y
    using that by (cases a) (simp add: shallow_def)
  have deeper: "within (Suc d) (shallow k (Suc d)) (DiagnosticInfo_decodeBinary n)" if "d \<le> 100"
    using Suc.IH that by simp
  show ?case unfolding eq
    by (intro within_bind [OF within_steady [OF steady_ints(2)]] within_bind [OF within_steady [OF steady_diag_fields]]
        within_if within_ret within_calloc within_deeper_or [OF deeper])
      (simp_all add: none inner del: split_paired_All)
qed (simp add: within_def)

lemma within_dispatch:
  assumes t: "table_within env k jt" and d: "d \<le> 101"
  shows "within d (shallow k d) (dec_dispatch env jt ty)"
proof -
  have fail: "within d (shallow k d) (dec_fail r)" for r
    using d by (simp add: within_def dec_fail_def shallow_def)
  have leaf: "within d (shallow k d) (dec_map g f)" if "\<And>m. steady m f" "\<And>x. nest (g x) = 0" for g and f :: "'a decoder"
    using that d by (intro within_leaf) (auto simp: shallow_def)
  show ?thesis
    unfolding dec_dispatch_def
    by (cases "kind_at env ty")
      (simp_all add: leaf fail within_DiagnosticInfo within_Variant [OF t] within_DataValue [OF t]
        within_EO [OF t] within_Struct [OF t] within_OptStruct [OF t] within_Union [OF t] d split: prod.split)
qed

lemma within_jumpTable:
  assumes "overlay_nest env k"
  shows "d \<le> 101 \<Longrightarrow> within d (shallow k d) (decodeBinaryJumpTable env n ty)"
proof (induction n arbitrary: ty d)
  case 0
  then show ?case by (simp add: within_def dec_fail_def)
next
  case (Suc n)
  have "table_within env k (decodeBinaryJumpTable env n)"
    using Suc.IH assms by (simp add: table_within_def)
  from within_dispatch [OF this Suc.prems] show ?case
    by (simp add: decodeBinaryJumpTable.simps(2) [abs_def])
qed

section \<open>The property\<close>

text \<open>
  C5: for every buffer, offset, type, set of custom types and outcome of the allocations,
  \<^verbatim>\<open>UA_decodeBinaryInternal\<close> ends with a status code of the stack; the offset does not move back, and
  stays where it was on failure. A value that it returns is nested at most 101 levels deep, counting
  variants, data values, inner diagnostic infos, structures and unions, and not counting the
  \<open>k\<close> levels at most inside an element that is copied as a whole from the buffer (type table with
  \<open>overlay_nest env k\<close>). No structure type of the table has more than 32 optional members
  (\<open>opt_limit\<close>): the code shifts a 32 bit mask by their index.
\<close>

theorem UA_decodeBinaryInternal_total:
  assumes "opt_limit env" "overlay_nest env k"
    "UA_decodeBinaryInternal env mem_ok ct src offset ty = (r, v, offset')"
  shows "r \<noteq> STATUS_UNDEFINED \<and> offset \<le> offset' \<and> (r = GOOD \<longleftrightarrow> v \<noteq> None) \<and>
    (r \<noteq> GOOD \<longrightarrow> offset' = offset) \<and> (\<forall>x. v = Some x \<longrightarrow> nest x \<le> 101 + k)"
proof -
  obtain r1 x c where c: "decodeBinaryJumpTable env (dec_fuel src) ty
      \<lparr>dec_buf = src, dec_pos = offset, dec_depth = 0, dec_custom = ct, dec_alloc = mem_ok, dec_allocs = 0\<rparr>
    = (r1, x, c)" by (cases "decodeBinaryJumpTable env (dec_fuel src) ty
      \<lparr>dec_buf = src, dec_pos = offset, dec_depth = 0, dec_custom = ct, dec_alloc = mem_ok, dec_allocs = 0\<rparr>") auto
  from withinD [OF within_jumpTable [OF assms(2)] _ c, of 0] have "r1 = GOOD \<Longrightarrow> nest x \<le> 101 + k"
    by (simp add: shallow_def)
  with UA_decodeBinaryInternal_proper [OF assms(1,3)] assms(3) show ?thesis
    by (auto simp: UA_decodeBinaryInternal_def c split: if_splits)
qed

lemma demo_overlay_nest: "overlay_nest demo_env 0"
proof -
  have "t = UA_TYPES_INT32" if "overlayable (ty_at demo_env t)" for t
    using that by (simp add: demo_env_def)
  moreover have "nest (overlay_read demo_env overlay_fuel UA_TYPES_INT32 bs) = 0" for bs
    unfolding overlay_read_fuel overlay_read.simps by (simp add: demo_env_def builtin_kind_list_def)
  ultimately show ?thesis by (auto simp: overlay_nest_def)
qed

lemma demo_decoded:
  "UA_decodeBinaryInternal demo_env (\<lambda>_. True) [] (wire demo_env UA_TYPES_VARIANT demo_val) 0 UA_TYPES_VARIANT =
    (GOOD, Some demo_val, 32)"
  using UA_decodeBinaryInternal_wire [OF demo_builtin_env demo_wf(1) demo_canonical [of "[]"] demo_wf(2),
      of "\<lambda>_. True" 0 _ "[]"]
  by (simp add: demo_wire)

lemma UA_decodeBinaryInternal_total_witness:
  "nest demo_val \<le> 101 \<and> UA_STATUSCODE_BADDECODINGERROR \<noteq> STATUS_UNDEFINED"
  using UA_decodeBinaryInternal_total [OF demo_opt_limit demo_overlay_nest demo_decoded]
    UA_decodeBinaryInternal_total [OF demo_opt_limit demo_overlay_nest demo_decoded_short] by simp

end
