(* ===== verification/Spec2Isabelle.thy ===== *)
theory Spec2Isabelle
  imports Channel_Keys Channel_Buffers Timer_Rules Sub_Life Sub_Detect_Rules Sub_Items_Claims Filter_Meaning Binary_Depth
begin

text \<open>
  \<^bold>\<open>Verification of the open62541 OPC UA stack, version 1.3.8\<close>

  The repository wraps the C library open62541 (\<^verbatim>\<open>src/open62541-1.3.8\<close>) for Unity. This development models
  the core of the library: the binary codec, the order of values, the secure channel, the timer with its
  balanced tree, the subscriptions of a server, and the filters of events. All paths below are relative to \<^verbatim>\<open>src/open62541-1.3.8\<close>.

  \<^bold>\<open>How the parts interact.\<close> A message is encoded by the binary codec into send buffers of the secure
  channel: the codec calls an exchange callback whenever a buffer is full, and the channel sends the buffer
  as a chunk. On the other side the channel cuts the received bytes into chunks, checks and decrypts them,
  and hands complete messages to the application. In a server the application is the set of services; the
  subscription services keep subscriptions in sessions, sample values into bounded queues (a sample is
  compared with the value reported last by the order of values), and answer queued publish requests. An
  event passes the filter of an item, which compares values by the same order, before it is queued. The
  publishing and the sampling are cyclic callbacks of the timer, which keeps its entries in two balanced trees.

  \<^bold>\<open>Prelude.\<close> \<open>Prelude\<close> holds the names of the machine integers, the status codes (32-bit words, because the
  code joins them with \<^verbatim>\<open>|=\<close>), and the lemmas on lists, words and status codes that the parts share.

  \<^bold>\<open>Binary codec\<close> (\<^verbatim>\<open>src/ua_types_encoding_binary.c\<close>, the data of \<^verbatim>\<open>include/open62541/types.h\<close>)
  \<^item> \<open>Builtin_Types\<close>: strings, node identifiers, type descriptions and values. The type table is generated by
    the build, so it is a parameter (\<open>type_env\<close>); a type is referred to by address.
  \<^item> \<open>Binary_Size\<close>, \<open>Binary_Encode\<close>, \<open>Binary_Decode\<close>: one definition per C function. The recursion through the
    jump table takes a fuel argument; the entry points give the size of the value (encoder) or the number of
    levels and bytes left (decoder), and theorems show that this is enough. \<open>dec_alloc\<close> decides about every
    allocation of the decoder.
  \<^item> \<open>Binary_Wire\<close>: the wire format as a specification, by structural recursion, and the proof that the
    encoder refines it for every exchange callback that satisfies the locale \<open>exchange_buffer\<close> (interpreted
    here for an encoder without a callback and in \<open>Channel_Stream\<close> for the channel).
  \<^item> \<open>Binary_Typed\<close>, \<open>Binary_Complete\<close>, \<open>Binary_Roundtrip\<close>, \<open>Binary_Safe\<close>, \<open>Binary_Depth\<close>: well-typed values
    and the exact size, success of the encoder, decoding what was encoded, the decoder on arbitrary input,
    and the limit on the nesting of what it decodes.
  \<^item> \<open>Binary_Bounds\<close>, \<open>Binary_Handle\<close>: without a callback the encoder stays inside its buffer; with one, what
    it does to the handle of the callback (locale \<open>exchange_handle\<close>).

  \<^bold>\<open>Order of values\<close> (\<^verbatim>\<open>UA_order\<close> and the hashes of \<^verbatim>\<open>src/ua_types.c\<close>)
  \<^item> \<open>Value_Order\<close>: the comparison of every type kind, through its jump table. A comparison that reads memory
    with the layout of another type is undefined in C; its result is \<open>None\<close>. A double is read as a rational
    number, an infinity or not a number.
  \<^item> \<open>Value_Comparison\<close>: the locale \<open>comparison\<close> (defined, turned round, transitive) and how it passes through
    arrays, options and members. \<open>Value_Order_Rules\<close>, \<open>Value_Claims\<close>: \<open>UA_order\<close> and the orders of node ids are
    interpretations of it.

  \<^bold>\<open>Secure channel\<close> (\<^verbatim>\<open>src/ua_securechannel.c\<close>, \<^verbatim>\<open>src/ua_securechannel_crypto.c\<close>,
  \<^verbatim>\<open>src/ua_securechannel.h\<close>, and the interfaces \<^verbatim>\<open>plugin/securitypolicy.h\<close> and \<^verbatim>\<open>plugin/network.h\<close>)
  \<^item> \<open>Channel_State\<close>, \<open>Channel_Crypto\<close>, \<open>Channel_Send\<close>, \<open>Channel_Receive\<close>: the state and the operations in the
    order of the code. The algorithms of a security policy and the network are records of functions: the
    model holds for every choice of them. The laws of a policy (decryption undoes encryption, a signature
    verifies) are named hypotheses, shown to be satisfiable in \<open>Channel_Demo\<close>. The loop over the chunks may be
    entered again by a callback, so it is a partial function.
  \<^item> \<open>Channel_Chunk\<close>, \<open>Channel_Stream\<close>, \<open>Channel_Deliver\<close>, \<open>Channel_EndToEnd\<close>: one chunk, the chunks of a message
    as the wire format of its content, and the delivery of a message, however the network cuts its bytes.
  \<^item> \<open>Channel_Rules\<close>, \<open>Channel_Bounds\<close>, \<open>Channel_Buffers\<close>, \<open>Channel_Keys\<close>: padding, sequence numbers and
    negotiated sizes; the bound on what a peer can make the receiver hold; the return of every send buffer;
    tokens and keys.

  \<^bold>\<open>Timer\<close> (\<^verbatim>\<open>src/ua_timer.c\<close>, \<^verbatim>\<open>deps/aa_tree.c\<close>)
  \<^item> \<open>Aa_Tree\<close>: insertion, removal, lookup and iteration, and their equivalence with a sorted list. The timer
    relies on the locale \<open>entry_index\<close>, interpreted on the operations of the tree.
  \<^item> \<open>Timer\<close>, \<open>Timer_Process\<close>, \<open>Timer_Rules\<close>: the operations, the loop of \<^verbatim>\<open>UA_Timer_process\<close> (a partial function,
    since callbacks may add entries and an interval may be huge), the invariant under any use of the timer,
    also from within callbacks, and the complete effect of a run.

  \<^bold>\<open>Subscriptions\<close> (\<^verbatim>\<open>src/server/ua_subscription*.c\<close>, \<^verbatim>\<open>src/server/ua_session.c\<close>,
  \<^verbatim>\<open>src/server/ua_services_subscription.c\<close>)
  \<^item> \<open>Sub_State\<close>: notifications, monitored items, subscriptions and sessions as maps from addresses, in a
    record \<open>UA_Server\<close>. A linked list is the list of its entries; the results of the coming allocations are
    part of the state, so that every failure of an allocation is a behaviour of the model.
  \<^item> \<open>Sub_Notification\<close>, \<open>Sub_MonitoredItem\<close>, \<open>Sub_Session\<close>, \<open>Sub_Publish\<close>, \<open>Sub_Service\<close>: the operations, from
    the two queues of a notification up to the services. \<^verbatim>\<open>UA_Subscription_publish\<close> and the search for late
    subscriptions are partial functions; that they return is a theorem where it holds.
  \<^item> \<open>Sub_Frame\<close>, \<open>Sub_Sessions\<close>, \<open>Sub_Tables\<close>, \<open>Sub_Changes\<close>, \<open>Sub_Once\<close>, \<open>Sub_Steps\<close>, \<open>Sub_Transfer\<close>: what each
    operation leaves alone, and the invariant \<open>sessions_ok\<close> over the tables of sessions and subscriptions.
  \<^item> \<open>Sub_Server\<close>, \<open>Sub_Rules\<close>: the server as a state machine over all operations, and the properties of its
    reachable states.
  \<^item> \<open>Sub_Queue\<close>: the bounded queue of an item and the mark of a loss. \<open>Sub_Order\<close>, \<open>Sub_Deliver\<close>,
    \<open>Sub_Republish\<close>: when the queue of a subscription and those of its items agree (\<open>queues_agree\<close>), a response
    carries the queue in its order, and its message can be requested again afterwards.
  \<^item> \<open>Sub_Late\<close>, \<open>Sub_Life\<close>: the search for late subscriptions, the negotiated settings, the end of a lifetime
    and the transfer to another session, which leaves a subscription without its timer and with a dangling
    pointer in the list of the items that are sampled with the publishing. The model records when the code
    writes through it (\<open>srv_undefined\<close>); the executions of the state machine end there.
  \<^item> \<open>Sub_Items\<close> (\<^verbatim>\<open>src/server/ua_services_monitoreditem.c\<close>): the services of the monitored items, with the
    check of the requested parameters; an \<open>outcome\<close> as with the event filters. \<open>Sub_Items_Frame\<close>,
    \<open>Sub_Items_Settings\<close>, \<open>Sub_Items_Rules\<close>, \<open>Sub_Items_Claims\<close>: what these services leave alone, and that an
    item which is created is the one that the answer tells, a failed creation leaves no item, the limit on
    the number of items is kept, and two flaws of the checks.
  \<^item> \<open>Sub_Detect\<close>, \<open>Sub_Detect_Rules\<close>: the filter of a data change item with its deadband, as the instance
    \<open>value_changed\<close> of the decision that sampling takes, and what it reports and misses.

  \<^bold>\<open>Event filters\<close> (\<^verbatim>\<open>src/server/ua_subscription_events_filter.c\<close>, the delivery of
  \<^verbatim>\<open>src/server/ua_subscription_events.c\<close>, index ranges of \<^verbatim>\<open>src/ua_types.c\<close>)
  \<^item> \<open>Filter_Compare\<close>, \<open>Filter_Eval\<close>, \<open>Filter_Event\<close>: the comparison with its conversions, the operators and the
    evaluation of a where clause, and the validation, the select clauses and the delivery. An \<open>outcome\<close> is a
    result, undefined behaviour of C (a read or write outside of an object) or a recursion that is deeper
    than the fuel, which stands for the stack. \<open>Value_Range\<close>: index ranges.
  \<^item> \<open>Filter_Order\<close>, \<open>Filter_Meaning\<close>: operands of one type are compared by the order of values; the
    evaluation of the array of elements computes the three-valued meaning of the tree that it encodes, with
    the depth of the tree as a sufficient stack. \<open>Filter_Errors\<close>: what accepted filters can do.

  \<^bold>\<open>Parameters.\<close> The type table, the security policy, the network connection, the application of a channel,
  the callbacks of the timer, the value the attribute service reads, the decision whether it has changed (with
  the model of \<^verbatim>\<open>detectValueChange\<close> as its instance), what the evaluation of a filter reads from the address
  space (\<open>UA_EventWorld\<close>), the rounding of differences of floats, the access control for transfers, what
  the services of the items read (\<open>UA_ItemWorld\<close>), the rounding of a product of doubles, and what converting a double that is not finite behaves like. Every
  property with a hypothesis on a parameter has a witness with a concrete one.

  \<^bold>\<open>Abstractions.\<close> A time is an integer in the range of 64 bits; every sum of times wraps around in it
  (\<open>int64\<close>), which is what a signed overflow, undefined in C, does on the usual machines. The properties of
  the timer say which times they assume, and hold where no sum overflows. Publishing intervals are
  rationals. A pointer is a natural number with 0 for NULL. One thread uses the
  stack: the mutexes of a multithreaded build, the log and the diagnostics counters are left out.

  \<^bold>\<open>Not modelled\<close>: the services of views, attributes and node management, the address space
  and its node stores, the session and discovery services, the client, PubSub, the JSON encoding and the
  text formats, and the plugins of the architecture. They need the address space or the operating system, or
  are separate from the exchange of messages.
\<close>

end
